(* ===== verification/Prelude.thy ===== *)
theory Prelude
  imports Complex_Main "HOL-Library.Word" "HOL-Library.Log_Nat"
begin

text \<open>
  Shared vocabulary of the development: Python values as they come out of
  \<^verbatim>\<open>json.loads\<close>, IEEE-754 doubles, byte strings, exceptions, the fallible and the
  stateful computations every component is written in, and the generic lemmas about them.

  Conventions.
  \<^item> A Python \<^verbatim>\<open>str\<close> is the list of the bytes of its UTF-8 encoding, and \<^verbatim>\<open>bytes\<close> is the
    list of its bytes; both are \<^typ>\<open>string\<close> (a \<^typ>\<open>char\<close> is a byte), so
    \<^verbatim>\<open>s.encode("utf-8")\<close> is the identity and \<^verbatim>\<open>len(s)\<close> of a \<^verbatim>\<open>str\<close> is \<open>ulen\<close>,
    which counts code points.
  \<^item> A Python \<^verbatim>\<open>int\<close> is an \<^typ>\<open>int\<close>, a \<^verbatim>\<open>float\<close> carried by a message or a JSON
    document is the 64-bit pattern of an IEEE-754 double. Readings of the wall clock and
    the differences and products computed from them are exact rationals (\<^typ>\<open>rat\<close>) or,
    for the nanosecond clocks, integers: the rounding of that arithmetic is not modelled.
  \<^item> An exception is a value of type \<open>exn\<close>; a fallible computation returns \<open>exn + 'a\<close>;
    a method that reads and writes the attributes of its object is a function
    \<open>'s \<Rightarrow> (exn + 'a) \<times> 's\<close>, so an exception keeps the writes made before it.
\<close>

named_theorems py_simps \<open>evaluation rules for Python values and for the two monads\<close>
named_theorems keeps_intro \<open>compositional rules for invariants of stateful methods\<close>

lemma sorted_wrt_distinct: "sorted_wrt R xs \<Longrightarrow> (\<And>a b. R a b \<Longrightarrow> f a \<noteq> f b) \<Longrightarrow> distinct (map f xs)"
  by (induction xs) auto

text \<open>\<^verbatim>\<open>deque(maxlen=n).append(x)\<close>: the oldest elements leave.\<close>

definition deque_push :: "nat \<Rightarrow> 'a \<Rightarrow> 'a list \<Rightarrow> 'a list" where
  "deque_push n x xs = drop (Suc (length xs) - n) (xs @ [x])"

lemma deque_push_length: "length (deque_push n x xs) \<le> n"
  by (simp add: deque_push_def)

lemma deque_push_set: "set (deque_push n x xs) \<subseteq> insert x (set xs)"
  unfolding deque_push_def by (rule order_trans [OF set_drop_subset]) auto

lemma deque_push_sorted: "sorted_wrt R xs \<Longrightarrow> (\<And>y. y \<in> set xs \<Longrightarrow> R y x) \<Longrightarrow> sorted_wrt R (deque_push n x xs)"
  unfolding deque_push_def by (intro sorted_wrt_drop) (simp add: sorted_wrt_append)

lemma deque_push_last: "0 < n \<Longrightarrow> deque_push n x xs \<noteq> [] \<and> last (deque_push n x xs) = x"
  by (simp add: deque_push_def last_drop)

text \<open>What leaves a full deque is its oldest element, so the newest \<open>n\<close> stay.\<close>

lemma deque_push_take: "length xs < n \<Longrightarrow> deque_push n x xs = xs @ [x]"
  by (simp add: deque_push_def)

section \<open>Exceptions\<close>

datatype exn =
    ValueError string | InvalidProposal string | UnicodeError
  | KeyError string | IndexError | TypeError | AttributeError | OverflowError | StructError
  | AssertionError string
  | RuntimeError string | BridgeFailure string | StaleActuation string | ExpiredActuation string
  | LinkError string
  | OSError string | TimeoutError string

text \<open>The subclass tests the handlers make (\<^verbatim>\<open>except C\<close>, \<^verbatim>\<open>isinstance(exc, C)\<close>).\<close>

fun is_ValueError :: "exn \<Rightarrow> bool" where
  "is_ValueError (ValueError _) = True"
| "is_ValueError (InvalidProposal _) = True"
| "is_ValueError UnicodeError = True"
| "is_ValueError _ = False"

fun is_StaleActuation :: "exn \<Rightarrow> bool" where
  "is_StaleActuation (StaleActuation _) = True"
| "is_StaleActuation (ExpiredActuation _) = True"
| "is_StaleActuation _ = False"

fun is_RuntimeError :: "exn \<Rightarrow> bool" where
  "is_RuntimeError (RuntimeError _) = True"
| "is_RuntimeError (BridgeFailure _) = True"
| "is_RuntimeError (StaleActuation _) = True"
| "is_RuntimeError (ExpiredActuation _) = True"
| "is_RuntimeError (LinkError _) = True"
| "is_RuntimeError _ = False"

fun is_LinkError :: "exn \<Rightarrow> bool" where
  "is_LinkError (LinkError _) = True"
| "is_LinkError _ = False"

fun is_KeyError :: "exn \<Rightarrow> bool" where
  "is_KeyError (KeyError _) = True"
| "is_KeyError _ = False"

fun is_OSError :: "exn \<Rightarrow> bool" where
  "is_OSError (OSError _) = True"
| "is_OSError (TimeoutError _) = True"
| "is_OSError _ = False"

fun exn_text :: "exn \<Rightarrow> string" where
  "exn_text (ValueError m) = m"
| "exn_text (InvalidProposal m) = m"
| "exn_text (KeyError m) = m"
| "exn_text (AssertionError m) = m"
| "exn_text (RuntimeError m) = m"
| "exn_text (BridgeFailure m) = m"
| "exn_text (StaleActuation m) = m"
| "exn_text (ExpiredActuation m) = m"
| "exn_text (LinkError m) = m"
| "exn_text (OSError m) = m"
| "exn_text (TimeoutError m) = m"
| "exn_text _ = []"

section \<open>Fallible computations\<close>

type_synonym 'a res = "exn + 'a"

fun rbind :: "'a res \<Rightarrow> ('a \<Rightarrow> 'b res) \<Rightarrow> 'b res" where
  "rbind (Inl e) f = Inl e"
| "rbind (Inr x) f = f x"

fun rmap :: "('a \<Rightarrow> 'b res) \<Rightarrow> 'a list \<Rightarrow> 'b list res" where
  "rmap f [] = Inr []"
| "rmap f (x # xs) = rbind (f x) (\<lambda>y. rbind (rmap f xs) (\<lambda>ys. Inr (y # ys)))"

text \<open>Short-circuit \<^verbatim>\<open>and\<close> / \<^verbatim>\<open>or\<close> over operands that may raise.\<close>

fun rand :: "bool res list \<Rightarrow> bool res" where
  "rand [] = Inr True"
| "rand (m # ms) = rbind m (\<lambda>b. if b then rand ms else Inr False)"

fun ror :: "bool res list \<Rightarrow> bool res" where
  "ror [] = Inr False"
| "ror (m # ms) = rbind m (\<lambda>b. if b then Inr True else ror ms)"

lemma rbind_Inr_iff: "rbind m f = Inr y \<longleftrightarrow> (\<exists>x. m = Inr x \<and> f x = Inr y)"
  by (cases m) auto

lemma rbind_Inl_iff: "rbind m f = Inl e \<longleftrightarrow> m = Inl e \<or> (\<exists>x. m = Inr x \<and> f x = Inl e)"
  by (cases m) auto

lemma rbind_assoc: "rbind (rbind m f) g = rbind m (\<lambda>x. rbind (f x) g)"
  by (cases m) auto

lemma rmap_length: "rmap f xs = Inr ys \<Longrightarrow> length ys = length xs"
  by (induction xs arbitrary: ys) (auto simp: rbind_Inr_iff)

lemma rmap_Inr_nth:
  "rmap f xs = Inr ys \<Longrightarrow> i < length xs \<Longrightarrow> f (xs ! i) = Inr (ys ! i)"
  by (induction xs arbitrary: ys i) (auto simp: rbind_Inr_iff nth_Cons split: nat.splits)

lemma rand_True_iff: "rand ms = Inr True \<longleftrightarrow> (\<forall>m\<in>set ms. m = Inr True)"
  by (induction ms) (auto simp: rbind_Inr_iff split: if_splits)

lemma ror_False_iff: "ror ms = Inr False \<longleftrightarrow> (\<forall>m\<in>set ms. m = Inr False)"
  by (induction ms) (auto simp: rbind_Inr_iff split: if_splits)

declare rand.simps [simp del] ror.simps [simp del]

declare rbind_Inr_iff [py_simps] rbind_Inl_iff [py_simps]
  rand_True_iff [py_simps] ror_False_iff [py_simps]

section \<open>Stateful methods\<close>

type_synonym ('s, 'a) meth = "'s \<Rightarrow> 'a res \<times> 's"

definition mret :: "'a \<Rightarrow> ('s, 'a) meth" where
  "mret x s = (Inr x, s)"

definition mraise :: "exn \<Rightarrow> ('s, 'a) meth" where
  "mraise e s = (Inl e, s)"

definition mlift :: "'a res \<Rightarrow> ('s, 'a) meth" where
  "mlift r s = (r, s)"

definition mget :: "('s \<Rightarrow> 'a) \<Rightarrow> ('s, 'a) meth" where
  "mget f s = (Inr (f s), s)"

definition mput :: "('s \<Rightarrow> 's) \<Rightarrow> ('s, unit) meth" where
  "mput f s = (Inr (), f s)"

definition mbind :: "('s, 'a) meth \<Rightarrow> ('a \<Rightarrow> ('s, 'b) meth) \<Rightarrow> ('s, 'b) meth" where
  "mbind m f s = (case m s of (Inl e, s') \<Rightarrow> (Inl e, s') | (Inr x, s') \<Rightarrow> f x s')"

definition mthen :: "('s, 'a) meth \<Rightarrow> ('s, 'b) meth \<Rightarrow> ('s, 'b) meth" where
  "mthen m n = mbind m (\<lambda>_. n)"

definition mwhen :: "bool \<Rightarrow> ('s, unit) meth \<Rightarrow> ('s, unit) meth" where
  "mwhen b m = (if b then m else mret ())"

text \<open>\<^verbatim>\<open>try: m except Exception as e: h(e)\<close>: the handler sees the state the body left.\<close>

definition mcatch :: "('s, 'a) meth \<Rightarrow> (exn \<Rightarrow> ('s, 'a) meth) \<Rightarrow> ('s, 'a) meth" where
  "mcatch m h s = (case m s of (Inl e, s') \<Rightarrow> h e s' | (Inr x, s') \<Rightarrow> (Inr x, s'))"

text \<open>\<^verbatim>\<open>try: m finally: n\<close> for a finalizer that does not raise: the result of the body is kept.\<close>

definition mfinally :: "('s, 'a) meth \<Rightarrow> ('s \<Rightarrow> 's) \<Rightarrow> ('s, 'a) meth" where
  "mfinally m n s = (case m s of (r, s') \<Rightarrow> (r, n s'))"

lemmas meth_defs = mret_def mraise_def mlift_def mget_def mput_def mbind_def mthen_def mwhen_def
  mcatch_def mfinally_def

lemma mbind_Inr_iff: "mbind m f s = (Inr y, t) \<longleftrightarrow> (\<exists>x u. m s = (Inr x, u) \<and> f x u = (Inr y, t))"
  by (auto simp: mbind_def split: prod.splits sum.splits)

subsection \<open>Relations every run of a method respects\<close>

text \<open>
  \<open>keeps R m\<close>: from every state, the state the method leaves (by returning or by raising) is
  \<open>R\<close>-related to the state it started in. For a reflexive and transitive \<open>R\<close> it composes
  along sequencing, branching and exception handling.
\<close>

definition keeps :: "('s \<Rightarrow> 's \<Rightarrow> bool) \<Rightarrow> ('s, 'a) meth \<Rightarrow> bool" where
  "keeps R m \<longleftrightarrow> (\<forall>s. R s (snd (m s)))"

lemma keepsD: "keeps R m \<Longrightarrow> m s = (r, s') \<Longrightarrow> R s s'"
  unfolding keeps_def by (metis snd_conv)

locale run_rel =
  fixes R :: "'s \<Rightarrow> 's \<Rightarrow> bool"
  assumes refl: "R s s"
    and trans: "R s t \<Longrightarrow> R t u \<Longrightarrow> R s u"
begin

lemma keeps_mret: "keeps R (mret x)"
  by (simp add: keeps_def mret_def refl)

lemma keeps_mraise: "keeps R (mraise e)"
  by (simp add: keeps_def mraise_def refl)

lemma keeps_mlift: "keeps R (mlift r)"
  by (simp add: keeps_def mlift_def refl)

lemma keeps_mget: "keeps R (mget f)"
  by (simp add: keeps_def mget_def refl)

lemma keeps_mput: "(\<And>s. R s (f s)) \<Longrightarrow> keeps R (mput f)"
  by (simp add: keeps_def mput_def)

lemma keeps_mbind: "keeps R m \<Longrightarrow> (\<And>x. keeps R (f x)) \<Longrightarrow> keeps R (mbind m f)"
  unfolding keeps_def mbind_def
  by (auto split: prod.splits sum.splits) (metis snd_conv trans)+

text \<open>With what the first method establishes about its result and the state it leaves.\<close>

lemma keeps_mbind_post:
  assumes "keeps R m" and "\<And>s x s'. m s = (Inr x, s') \<Longrightarrow> R s' (snd (f x s'))"
  shows "keeps R (mbind m f)"
  unfolding keeps_def mbind_def
proof
  fix s
  obtain r s' where m: "m s = (r, s')" by (cases "m s")
  then have 1: "R s s'" using assms(1) by (rule_tac keepsD)
  show "R s (snd (case m s of (Inl e, s') \<Rightarrow> (Inl e, s') | (Inr x, s') \<Rightarrow> f x s'))"
  proof (cases r)
    case (Inl e)
    with m 1 show ?thesis by simp
  next
    case (Inr x)
    with m 1 assms(2) [of s x s'] show ?thesis by (auto intro: trans)
  qed
qed

lemma keeps_mthen: "keeps R m \<Longrightarrow> keeps R n \<Longrightarrow> keeps R (mthen m n)"
  by (simp add: mthen_def keeps_mbind)

lemma keeps_mwhen: "keeps R m \<Longrightarrow> keeps R (mwhen b m)"
  by (simp add: mwhen_def keeps_mret)

lemma keeps_mcatch: "keeps R m \<Longrightarrow> (\<And>e. keeps R (h e)) \<Longrightarrow> keeps R (mcatch m h)"
  unfolding keeps_def mcatch_def
  by (auto split: prod.splits sum.splits) (metis snd_conv trans)+

lemma keeps_mfinally: "keeps R m \<Longrightarrow> (\<And>s. R s (n s)) \<Longrightarrow> keeps R (mfinally m n)"
  unfolding keeps_def mfinally_def
  by (auto split: prod.splits) (metis snd_conv trans)

lemma keeps_if: "(b \<Longrightarrow> keeps R m) \<Longrightarrow> (\<not> b \<Longrightarrow> keeps R n) \<Longrightarrow> keeps R (if b then m else n)"
  by simp

lemma keeps_option: "(p = None \<Longrightarrow> keeps R a) \<Longrightarrow> (\<And>x. keeps R (f x)) \<Longrightarrow> keeps R (case p of None \<Rightarrow> a | Some x \<Rightarrow> f x)"
  by (cases p) simp_all

lemma keeps_prod: "(\<And>a b. keeps R (f a b)) \<Longrightarrow> keeps R (case_prod f p)"
  by (cases p) simp

lemmas keeps_flow = keeps_mret keeps_mraise keeps_mlift keeps_mget keeps_mbind
  keeps_mthen keeps_mwhen keeps_mcatch keeps_if keeps_option keeps_prod

lemmas keeps_rules = keeps_mret keeps_mraise keeps_mlift keeps_mget keeps_mput keeps_mbind
  keeps_mthen keeps_mwhen keeps_mcatch keeps_mfinally keeps_if

end

text \<open>
  A state predicate is kept by a method when it is implied along the run: this is the
  instance of \<open>run_rel\<close> every component uses for its invariant.
\<close>

definition implied :: "('s \<Rightarrow> bool) \<Rightarrow> 's \<Rightarrow> 's \<Rightarrow> bool" where
  "implied P s t \<longleftrightarrow> (P s \<longrightarrow> P t)"

interpretation implied: run_rel "implied P" for P
  by unfold_locales (auto simp: implied_def)

lemma keeps_impliedD: "keeps (implied P) m \<Longrightarrow> P s \<Longrightarrow> m s = (r, s') \<Longrightarrow> P s'"
  using keepsD [of "implied P" m s r s'] by (simp add: implied_def)

subsection \<open>Triples\<close>

text \<open>
  \<open>triple P m Q E\<close>: from a state with \<open>P\<close> the method either returns \<open>x\<close> in a state with \<open>Q x\<close> or
  raises in a state with \<open>E\<close>.
\<close>

definition triple :: "('s \<Rightarrow> bool) \<Rightarrow> ('s, 'a) meth \<Rightarrow> ('a \<Rightarrow> 's \<Rightarrow> bool) \<Rightarrow> (exn \<Rightarrow> 's \<Rightarrow> bool) \<Rightarrow> bool" where
  "triple P m Q E \<longleftrightarrow> (\<forall>s. P s \<longrightarrow> (case m s of (Inl e, s') \<Rightarrow> E e s' | (Inr x, s') \<Rightarrow> Q x s'))"

lemma tripleI: "(\<And>s r s'. P s \<Longrightarrow> m s = (r, s') \<Longrightarrow> (case r of Inl e \<Rightarrow> E e s' | Inr x \<Rightarrow> Q x s')) \<Longrightarrow> triple P m Q E"
  by (fastforce simp: triple_def split: prod.splits sum.splits)

lemma tripleD: "triple P m Q E \<Longrightarrow> P s \<Longrightarrow> m s = (r, s') \<Longrightarrow> (case r of Inl e \<Rightarrow> E e s' | Inr x \<Rightarrow> Q x s')"
  by (fastforce simp: triple_def split: sum.splits)

lemma triple_conseq:
  "triple P m Q E \<Longrightarrow> (\<And>s. P' s \<Longrightarrow> P s) \<Longrightarrow> (\<And>x s. Q x s \<Longrightarrow> Q' x s) \<Longrightarrow> (\<And>e s. E e s \<Longrightarrow> E' e s) \<Longrightarrow> triple P' m Q' E'"
  by (fastforce simp: triple_def split: prod.splits sum.splits)

lemma triple_mret: "triple (Q x) (mret x) Q E"
  by (simp add: triple_def mret_def)

lemma triple_mraise: "triple (E e) (mraise e) Q E"
  by (simp add: triple_def mraise_def)

lemma triple_mbind: "triple P m R E \<Longrightarrow> (\<And>x. triple (R x) (f x) Q E) \<Longrightarrow> triple P (mbind m f) Q E"
  by (fastforce simp: triple_def mbind_def split: prod.splits sum.splits)

lemma triple_mthen: "triple P m (\<lambda>_. R) E \<Longrightarrow> triple R n Q E \<Longrightarrow> triple P (mthen m n) Q E"
  by (simp add: mthen_def triple_mbind)

lemma triple_if: "(b \<Longrightarrow> triple P m Q E) \<Longrightarrow> (\<not> b \<Longrightarrow> triple P n Q E) \<Longrightarrow> triple P (if b then m else n) Q E"
  by simp

text \<open>A method that leaves the part of the state the assertion speaks of.\<close>

lemma triple_frame: "(\<And>s r s'. m s = (r, s') \<Longrightarrow> f s' = f s) \<Longrightarrow> (\<And>e s. P (f s) \<Longrightarrow> E e s) \<Longrightarrow> triple (\<lambda>s. P (f s)) m (\<lambda>_ s. P (f s)) E"
  by (rule tripleI) (force split: sum.splits)

end
