(* ===== verification/PyValue.thy ===== *)
theory PyValue
  imports Prelude
begin

text \<open>
  Python values: IEEE-754 doubles with their exact rational value, the values
  \<^verbatim>\<open>json.loads\<close> produces, and the operators the code applies to them, each raising where
  Python raises (\<^verbatim>\<open>x.get(k)\<close> on a value that is no dict, \<^verbatim>\<open>x[k]\<close> on a missing key, an
  ordering between values of unordered types).
\<close>

section \<open>IEEE-754 doubles\<close>

type_synonym float64 = "64 word"

definition f_exp :: "float64 \<Rightarrow> nat" where
  "f_exp w = unat w div 2 ^ 52 mod 2048"

definition f_mant :: "float64 \<Rightarrow> nat" where
  "f_mant w = unat w mod 2 ^ 52"

definition f_neg :: "float64 \<Rightarrow> bool" where
  "f_neg w \<longleftrightarrow> 2 ^ 63 \<le> unat w"

definition isfinite :: "float64 \<Rightarrow> bool" where
  "isfinite w \<longleftrightarrow> f_exp w \<noteq> 2047"

definition isnan :: "float64 \<Rightarrow> bool" where
  "isnan w \<longleftrightarrow> f_exp w = 2047 \<and> f_mant w \<noteq> 0"

text \<open>Both zeros compare equal to 0; a NaN is not zero, hence true in a boolean context.\<close>

definition f_zero :: "float64 \<Rightarrow> bool" where
  "f_zero w \<longleftrightarrow> unat w mod 2 ^ 63 = 0"

definition f_val :: "float64 \<Rightarrow> rat" where
  "f_val w =
     (if f_neg w then -1 else 1) *
     (if f_exp w = 0 then of_nat (f_mant w) / 2 ^ 1074
      else of_nat (2 ^ 52 + f_mant w) * 2 ^ f_exp w / 2 ^ 1075)"

lemma f_zero_finite: "f_zero w \<Longrightarrow> isfinite w"
proof -
  assume "f_zero w"
  then obtain k where k: "unat w = k * 2 ^ 63" by (auto simp: f_zero_def)
  have "unat w div 2 ^ 52 = k * 2 ^ 11" unfolding k by simp
  then have "f_exp w = k * 2048 mod 2048" by (simp add: f_exp_def)
  then show ?thesis by (simp add: isfinite_def)
qed

lemma f_zero_val: "f_zero w \<Longrightarrow> f_val w = 0"
proof -
  assume "f_zero w"
  then obtain k where k: "unat w = k * 2 ^ 63" by (auto simp: f_zero_def)
  have "unat w div 2 ^ 52 = k * 2 ^ 11" and "unat w = 2 ^ 52 * (k * 2 ^ 11)" unfolding k by simp_all
  then have "f_exp w = k * 2048 mod 2048" and "f_mant w = 0" by (simp_all add: f_exp_def f_mant_def)
  then show ?thesis by (simp add: f_val_def)
qed

text \<open>Correctly rounded conversion of an exact value (round half to even).\<close>

definition pow2 :: "int \<Rightarrow> rat" where
  "pow2 k = (if 0 \<le> k then 2 ^ nat k else 1 / 2 ^ nat (- k))"

definition round_half_even :: "rat \<Rightarrow> int" where
  "round_half_even q =
     (let f = \<lfloor>q\<rfloor>; r = q - of_int f
      in if r < 1 / 2 then f else if 1 / 2 < r then f + 1 else if even f then f else f + 1)"

definition double_of_rat :: "rat \<Rightarrow> float64 res" where
  "double_of_rat q =
     (if q = 0 then Inr 0 else
      let a = \<bar>q\<bar>;
          k = bitlen (fst (quotient_of a)) - bitlen (snd (quotient_of a));
          e = max (if pow2 k \<le> a then k else k - 1) (- 1022);
          bits = round_half_even (a / pow2 (e - 52)) + (e + 1022) * 2 ^ 52
      in if 2047 * 2 ^ 52 \<le> bits then Inl OverflowError
         else Inr (word_of_int (bits + (if q < 0 then 2 ^ 63 else 0))))"

lemma round_half_even_of_int [simp]: "round_half_even (of_int n) = n"
  by (simp add: round_half_even_def)

lemma round_half_even_near: "\<bar>of_int (round_half_even q) - q\<bar> \<le> 1 / 2"
proof -
  have "of_int \<lfloor>q\<rfloor> \<le> q" and "q < of_int \<lfloor>q\<rfloor> + 1" by linarith+
  then show ?thesis by (simp add: round_half_even_def Let_def abs_if) linarith
qed

section \<open>Values of a JSON document\<close>

datatype pyval =
    PNone | PBool bool | PInt int | PFloat float64 | PStr string
  | PList "pyval list" | PDict "(string \<times> pyval) list"

abbreviation is_int :: "pyval \<Rightarrow> bool" where
  "is_int v \<equiv> (\<exists>n. v = PInt n)"

text \<open>\<^verbatim>\<open>type(v) is int\<close> and its value; a \<^verbatim>\<open>bool\<close> is not an \<^verbatim>\<open>int\<close> for this test.\<close>

fun as_int :: "pyval \<Rightarrow> int option" where
  "as_int (PInt n) = Some n"
| "as_int _ = None"

fun is_str :: "pyval \<Rightarrow> bool" where
  "is_str (PStr _) = True"
| "is_str _ = False"

fun is_bool :: "pyval \<Rightarrow> bool" where
  "is_bool (PBool _) = True"
| "is_bool _ = False"

fun is_dict :: "pyval \<Rightarrow> bool" where
  "is_dict (PDict _) = True"
| "is_dict _ = False"

fun is_list :: "pyval \<Rightarrow> bool" where
  "is_list (PList _) = True"
| "is_list _ = False"

fun truthy :: "pyval \<Rightarrow> bool" where
  "truthy PNone = False"
| "truthy (PBool b) = b"
| "truthy (PInt n) = (n \<noteq> 0)"
| "truthy (PFloat w) = (\<not> f_zero w)"
| "truthy (PStr s) = (s \<noteq> [])"
| "truthy (PList xs) = (xs \<noteq> [])"
| "truthy (PDict d) = (d \<noteq> [])"

text \<open>An operation that needs a value of one type and raises on every other.\<close>

fun need_str :: "pyval \<Rightarrow> string res" where
  "need_str (PStr s) = Inr s"
| "need_str _ = Inl TypeError"

fun need_int :: "pyval \<Rightarrow> int res" where
  "need_int (PInt n) = Inr n"
| "need_int _ = Inl TypeError"

fun need_list :: "pyval \<Rightarrow> pyval list res" where
  "need_list (PList xs) = Inr xs"
| "need_list _ = Inl TypeError"

fun need_dict :: "pyval \<Rightarrow> (string \<times> pyval) list res" where
  "need_dict (PDict d) = Inr d"
| "need_dict _ = Inl AttributeError"

lemma need_str_iff [simp]: "need_str v = Inr s \<longleftrightarrow> v = PStr s"
  by (cases v) auto

lemma need_int_iff [simp]: "need_int v = Inr n \<longleftrightarrow> v = PInt n"
  by (cases v) auto

lemma need_list_iff [simp]: "need_list v = Inr xs \<longleftrightarrow> v = PList xs"
  by (cases v) auto

lemma need_dict_iff [simp]: "need_dict v = Inr d \<longleftrightarrow> v = PDict d"
  by (cases v) auto

lemma as_int_iff [simp]: "as_int v = Some n \<longleftrightarrow> v = PInt n"
  by (cases v) auto

text \<open>\<^verbatim>\<open>v or {}\<close>\<close>

definition or_empty :: "pyval \<Rightarrow> pyval" where
  "or_empty v = (if truthy v then v else PDict [])"

subsection \<open>Dictionaries\<close>

text \<open>\<^verbatim>\<open>v.get(k, d)\<close>, \<^verbatim>\<open>v.get(k)\<close>, \<^verbatim>\<open>v[k]\<close> with a string key, \<^verbatim>\<open>k in v\<close>.\<close>

fun dget_or :: "pyval \<Rightarrow> string \<Rightarrow> pyval \<Rightarrow> pyval res" where
  "dget_or (PDict d) k v = Inr (case map_of d k of None \<Rightarrow> v | Some x \<Rightarrow> x)"
| "dget_or _ k v = Inl AttributeError"

abbreviation dget :: "pyval \<Rightarrow> string \<Rightarrow> pyval res" where
  "dget v k \<equiv> dget_or v k PNone"

fun dix :: "pyval \<Rightarrow> string \<Rightarrow> pyval res" where
  "dix (PDict d) k = (case map_of d k of None \<Rightarrow> Inl (KeyError k) | Some x \<Rightarrow> Inr x)"
| "dix _ k = Inl TypeError"

fun is_prefix :: "string \<Rightarrow> string \<Rightarrow> bool" where
  "is_prefix [] s = True"
| "is_prefix (x # xs) [] = False"
| "is_prefix (x # xs) (y # ys) = (x = y \<and> is_prefix xs ys)"

fun is_infix :: "string \<Rightarrow> string \<Rightarrow> bool" where
  "is_infix p [] = (p = [])"
| "is_infix p (y # ys) = (is_prefix p (y # ys) \<or> is_infix p ys)"

fun str_in :: "string \<Rightarrow> pyval \<Rightarrow> bool res" where
  "str_in k (PDict d) = Inr (k \<in> fst ` set d)"
| "str_in k (PList xs) = Inr (PStr k \<in> set xs)"
| "str_in k (PStr s) = Inr (is_infix k s)"
| "str_in k _ = Inl TypeError"

text \<open>\<^verbatim>\<open>isinstance(v, dict) and k in v\<close>\<close>

fun has_key :: "string \<Rightarrow> pyval \<Rightarrow> bool" where
  "has_key k (PDict d) = (k \<in> fst ` set d)"
| "has_key k _ = False"

text \<open>A dict or the empty one, \<^verbatim>\<open>row.get(k)\<close> of a dict, and a list.\<close>

fun dict_or_empty :: "pyval \<Rightarrow> (string \<times> pyval) list" where
  "dict_or_empty (PDict d) = d"
| "dict_or_empty _ = []"

definition getf :: "(string \<times> pyval) list \<Rightarrow> string \<Rightarrow> pyval" where
  "getf d k = (case map_of d k of None \<Rightarrow> PNone | Some v \<Rightarrow> v)"

fun as_list :: "pyval \<Rightarrow> pyval list option" where
  "as_list (PList xs) = Some xs"
| "as_list _ = None"

text \<open>Insertion into a dict keeps the position of an existing key.\<close>

fun dput :: "string \<Rightarrow> 'v \<Rightarrow> (string \<times> 'v) list \<Rightarrow> (string \<times> 'v) list" where
  "dput k v [] = [(k, v)]"
| "dput k v ((k', v') # d) = (if k = k' then (k, v) # d else (k', v') # dput k v d)"

lemma map_of_dput [simp]: "map_of (dput k v d) = (map_of d)(k \<mapsto> v)"
  by (induction d) (auto simp: fun_eq_iff)

text \<open>A dict built from a list of pairs: the last value of a key wins.\<close>

fun dict_of :: "(string \<times> 'v) list \<Rightarrow> (string \<times> 'v) list \<Rightarrow> (string \<times> 'v) list" where
  "dict_of d [] = d"
| "dict_of d ((k, v) # ps) = dict_of (dput k v d) ps"

text \<open>The hook that refuses a repeated key, as two components define it.\<close>

fun unique_pairs :: "exn \<Rightarrow> (string \<times> 'v) list \<Rightarrow> (string \<times> 'v) list \<Rightarrow> (string \<times> 'v) list res" where
  "unique_pairs e d [] = Inr d"
| "unique_pairs e d ((k, v) # ps) =
     (if k \<in> fst ` set d then Inl e else unique_pairs e (d @ [(k, v)]) ps)"

lemma unique_pairs_Inr_iff:
  "distinct (map fst d) \<Longrightarrow>
   unique_pairs e d ps = Inr r \<longleftrightarrow> distinct (map fst (d @ ps)) \<and> r = d @ ps"
proof (induction e d ps rule: unique_pairs.induct)
  case (1 e d)
  then show ?case by auto
next
  case (2 e d k v ps)
  show ?case
  proof (cases "k \<in> fst ` set d")
    case True
    then show ?thesis by (auto simp: image_iff)
  next
    case False
    then have "distinct (map fst (d @ [(k, v)]))" using "2.prems" by (auto simp: image_iff)
    with "2.IH" False show ?thesis by auto
  qed
qed

text \<open>
  \<^verbatim>\<open>json.loads(text, object_pairs_hook=h)\<close>: the parser hands every object, innermost first, as
  its list of pairs to the hook. A parsed text is a value whose dicts still hold the raw pairs.
\<close>

fun hook_val :: "((string \<times> pyval) list \<Rightarrow> (string \<times> pyval) list res) \<Rightarrow> pyval \<Rightarrow> pyval res"
  and hook_list :: "((string \<times> pyval) list \<Rightarrow> (string \<times> pyval) list res) \<Rightarrow> pyval list \<Rightarrow> pyval list res"
  and hook_pairs :: "((string \<times> pyval) list \<Rightarrow> (string \<times> pyval) list res) \<Rightarrow> (string \<times> pyval) list
        \<Rightarrow> (string \<times> pyval) list res" where
  "hook_val h (PList xs) = rbind (hook_list h xs) (\<lambda>ys. Inr (PList ys))"
| "hook_val h (PDict d) = rbind (hook_pairs h d) (\<lambda>e. rbind (h e) (\<lambda>r. Inr (PDict r)))"
| "hook_val h v = Inr v"
| "hook_list h [] = Inr []"
| "hook_list h (x # xs) = rbind (hook_val h x) (\<lambda>y. rbind (hook_list h xs) (\<lambda>ys. Inr (y # ys)))"
| "hook_pairs h [] = Inr []"
| "hook_pairs h ((k, v) # d) = rbind (hook_val h v) (\<lambda>y. rbind (hook_pairs h d) (\<lambda>ys. Inr ((k, y) # ys)))"

text \<open>Without a hook a repeated key keeps its last value.\<close>

definition plain_hook :: "(string \<times> pyval) list \<Rightarrow> (string \<times> pyval) list res" where
  "plain_hook d = Inr (dict_of [] d)"

subsection \<open>Numbers and their order\<close>

datatype pynum = NFin rat | NInf bool | NNan

fun num_of :: "pyval \<Rightarrow> pynum option" where
  "num_of (PBool b) = Some (NFin (if b then 1 else 0))"
| "num_of (PInt n) = Some (NFin (of_int n))"
| "num_of (PFloat w) =
     Some (if isfinite w then NFin (f_val w) else if isnan w then NNan else NInf (f_neg w))"
| "num_of _ = None"

fun num_eq :: "pynum \<Rightarrow> pynum \<Rightarrow> bool" where
  "num_eq (NFin a) (NFin b) = (a = b)"
| "num_eq (NInf a) (NInf b) = (a = b)"
| "num_eq _ _ = False"

fun num_lt :: "pynum \<Rightarrow> pynum \<Rightarrow> bool" where
  "num_lt (NFin a) (NFin b) = (a < b)"
| "num_lt (NFin a) (NInf n) = (\<not> n)"
| "num_lt (NInf n) (NFin b) = n"
| "num_lt (NInf n) (NInf m) = (n \<and> \<not> m)"
| "num_lt _ _ = False"

definition num_le :: "pynum \<Rightarrow> pynum \<Rightarrow> bool" where
  "num_le a b \<longleftrightarrow> num_lt a b \<or> num_eq a b"

text \<open>\<^verbatim>\<open>type(v) in (int, float)\<close>\<close>

fun is_number :: "pyval \<Rightarrow> bool" where
  "is_number (PInt _) = True"
| "is_number (PFloat _) = True"
| "is_number _ = False"

text \<open>\<^verbatim>\<open>v == n\<close> against an integer literal, for any \<open>v\<close>.\<close>

definition eq_int :: "pyval \<Rightarrow> int \<Rightarrow> bool" where
  "eq_int v n = (case num_of v of None \<Rightarrow> False | Some x \<Rightarrow> num_eq x (NFin (of_int n)))"

lemma eq_int_PInt [simp]: "eq_int (PInt m) n \<longleftrightarrow> m = n"
  by (simp add: eq_int_def)

lemma eq_int_PNone [simp]: "\<not> eq_int PNone n"
  by (simp add: eq_int_def)

subsection \<open>Equality of values\<close>

text \<open>
  Python's \<^verbatim>\<open>==\<close>: numbers by value across \<^verbatim>\<open>bool\<close>, \<^verbatim>\<open>int\<close> and \<^verbatim>\<open>float\<close>, lists element by
  element, dicts without regard to order.
\<close>

lemma size_zip_elem: "(x, y) \<in> set (zip xs ys) \<Longrightarrow> size x \<le> size_list size xs"
  by (rule size_list_estimation' [of x]) (auto dest: set_zip_leftD)

lemma size_pair_elem: "(k, v) \<in> set d \<Longrightarrow> size v \<le> size_list (size_prod (\<lambda>_. 0) size) d"
  by (rule size_list_estimation' [of "(k, v)"]) auto

function pyeq :: "pyval \<Rightarrow> pyval \<Rightarrow> bool" where
  "pyeq a b =
     (case (a, b) of
        (PList xs, PList ys) \<Rightarrow> length xs = length ys \<and> (\<forall>p\<in>set (zip xs ys). pyeq (fst p) (snd p))
      | (PDict d, PDict e) \<Rightarrow> length d = length e \<and>
          (\<forall>p\<in>set d. case map_of e (fst p) of None \<Rightarrow> False | Some v \<Rightarrow> pyeq (snd p) v)
      | _ \<Rightarrow> (case (num_of a, num_of b) of (Some x, Some y) \<Rightarrow> num_eq x y | _ \<Rightarrow> a = b))"
  by pat_completeness auto
termination
  by (relation "measure (\<lambda>(a, b). size a)") (force dest: size_zip_elem size_pair_elem simp: less_Suc_eq_le)+

declare pyeq.simps [simp del]

end
