(* ===== verification/Bytes.thy ===== *)
theory Bytes
  imports PyValue
begin

text \<open>
  Byte strings and text: fixed-width integers as \<^verbatim>\<open>struct.pack\<close> writes them, hexadecimal
  and decimal text with their readers, \<^verbatim>\<open>str.split\<close>, \<^verbatim>\<open>str.join\<close> and \<^verbatim>\<open>partition\<close> on a
  separator, and the counting of code points. The lemmas are the round trips and the
  injectivity facts the wire formats rest on.
\<close>

section \<open>Fixed-width integers\<close>

fun be_bytes :: "nat \<Rightarrow> nat \<Rightarrow> string" where
  "be_bytes 0 n = []"
| "be_bytes (Suc k) n = be_bytes k (n div 256) @ [char_of (n mod 256)]"

definition le_bytes :: "nat \<Rightarrow> nat \<Rightarrow> string" where
  "le_bytes k n = rev (be_bytes k n)"

text \<open>\<^verbatim>\<open>struct.pack\<close> of one unsigned field of \<open>k\<close> bytes, which refuses a value out of range.\<close>

definition pack_be :: "nat \<Rightarrow> int \<Rightarrow> string res" where
  "pack_be k n = (if 0 \<le> n \<and> n < 256 ^ k then Inr (be_bytes k (nat n)) else Inl StructError)"

definition pack_le :: "nat \<Rightarrow> int \<Rightarrow> string res" where
  "pack_le k n = (if 0 \<le> n \<and> n < 256 ^ k then Inr (le_bytes k (nat n)) else Inl StructError)"

lemma length_be_bytes [simp]: "length (be_bytes k n) = k"
  by (induction k arbitrary: n) auto

lemma length_le_bytes [simp]: "length (le_bytes k n) = k"
  by (simp add: le_bytes_def)

lemma be_bytes_inj: "m < 256 ^ k \<Longrightarrow> n < 256 ^ k \<Longrightarrow> be_bytes k m = be_bytes k n \<Longrightarrow> m = n"
proof (induction k arbitrary: m n)
  case 0
  then show ?case by simp
next
  case (Suc k)
  then have low: "m mod 256 = n mod 256"
    by (metis be_bytes.simps(2) last_snoc mod_mod_trivial of_char_of)
  have "be_bytes k (m div 256) = be_bytes k (n div 256)" using Suc.prems(3) by simp
  moreover have "m div 256 < 256 ^ k" "n div 256 < 256 ^ k"
    using Suc.prems(1,2) by (simp_all add: less_mult_imp_div_less mult.commute)
  ultimately have "m div 256 = n div 256" by (intro Suc.IH)
  with low show ?case by (metis div_mult_mod_eq)
qed

lemma le_bytes_inj: "m < 256 ^ k \<Longrightarrow> n < 256 ^ k \<Longrightarrow> le_bytes k m = le_bytes k n \<Longrightarrow> m = n"
  by (simp add: le_bytes_def be_bytes_inj)

lemma pack_be_length: "pack_be k n = Inr b \<Longrightarrow> length b = k"
  by (auto simp: pack_be_def split: if_splits)

lemma pack_le_length: "pack_le k n = Inr b \<Longrightarrow> length b = k"
  by (auto simp: pack_le_def split: if_splits)

lemma nat_less_pow: "0 \<le> n \<Longrightarrow> n < 256 ^ k \<Longrightarrow> nat n < 256 ^ k"
  by (simp add: nat_less_iff)

lemma pack_be_inj: "pack_be k m = Inr b \<Longrightarrow> pack_be k n = Inr b \<Longrightarrow> m = n"
  using be_bytes_inj [OF nat_less_pow nat_less_pow, of m k n]
  by (auto simp: pack_be_def eq_nat_nat_iff split: if_splits)

lemma pack_le_inj: "pack_le k m = Inr b \<Longrightarrow> pack_le k n = Inr b \<Longrightarrow> m = n"
  using le_bytes_inj [OF nat_less_pow nat_less_pow, of m k n]
  by (auto simp: pack_le_def eq_nat_nat_iff split: if_splits)

text \<open>\<^verbatim>\<open>struct.pack(">d", v)\<close>: the bit pattern, most significant byte first.\<close>

definition pack_d :: "float64 \<Rightarrow> string" where
  "pack_d w = be_bytes 8 (unat w)"

lemma length_pack_d [simp]: "length (pack_d w) = 8"
  by (simp add: pack_d_def)

lemma pack_d_inj: "pack_d v = pack_d w \<Longrightarrow> v = w"
proof -
  assume "pack_d v = pack_d w"
  moreover have "unat v < 256 ^ 8" "unat w < 256 ^ 8"
    using unsigned_less [of v, where 'a = nat] unsigned_less [of w, where 'a = nat] by simp_all
  ultimately have "unat v = unat w" unfolding pack_d_def by (intro be_bytes_inj)
  then show ?thesis by (rule unsigned_word_eqI)
qed

section \<open>Concatenation of self-delimiting pieces\<close>

text \<open>
  Two concatenations whose first pieces have the same length agree piecewise. This is how
  every wire format below is read: fixed-width fields first, a length before each variable
  field.
\<close>

lemma append_fixed: "length a = length b \<Longrightarrow> a @ xs = b @ ys \<longleftrightarrow> a = b \<and> xs = ys"
  by simp

section \<open>Hexadecimal text\<close>

definition hexdig :: "nat \<Rightarrow> char" where
  "hexdig n = (if n < 10 then char_of (48 + n) else char_of (87 + n))"

definition is_hexdig :: "char \<Rightarrow> bool" where
  "is_hexdig c \<longleftrightarrow> (48 \<le> (of_char c :: nat) \<and> (of_char c :: nat) \<le> 57)
     \<or> (97 \<le> (of_char c :: nat) \<and> (of_char c :: nat) \<le> 102)"

definition hexval :: "char \<Rightarrow> nat" where
  "hexval c = (if (of_char c :: nat) \<le> 57 then of_char c - 48 else of_char c - 87)"

definition to_hex :: "string \<Rightarrow> string" where
  "to_hex b = concat (map (\<lambda>c. [hexdig (of_char c div 16), hexdig (of_char c mod 16)]) b)"

text \<open>\<^verbatim>\<open>re.fullmatch(r"[0-9a-f]{n}", s)\<close>\<close>

definition is_hex :: "nat \<Rightarrow> string \<Rightarrow> bool" where
  "is_hex n s \<longleftrightarrow> length s = n \<and> list_all is_hexdig s"

text \<open>\<^verbatim>\<open>bytes.fromhex\<close> on text that the callers have matched against \<open>[0-9a-f]{n}\<close>.\<close>

fun from_hex :: "string \<Rightarrow> string res" where
  "from_hex [] = Inr []"
| "from_hex [c] = Inl (ValueError ''non-hexadecimal number found in fromhex() arg'')"
| "from_hex (c # d # s) =
     (if is_hexdig c \<and> is_hexdig d
      then rbind (from_hex s) (\<lambda>b. Inr (char_of (16 * hexval c + hexval d) # b))
      else Inl (ValueError ''non-hexadecimal number found in fromhex() arg''))"

lemma of_char_lt [simp]: "(of_char c :: nat) < 256"
  by (cases c) simp

lemma hexdig_ok: "n < 16 \<Longrightarrow> is_hexdig (hexdig n) \<and> hexval (hexdig n) = n"
  by (auto simp: hexdig_def is_hexdig_def hexval_def)

lemma length_to_hex [simp]: "length (to_hex b) = 2 * length b"
  by (induction b) (auto simp: to_hex_def)

lemma to_hex_Cons: "to_hex (c # b) = hexdig (of_char c div 16) # hexdig (of_char c mod 16) # to_hex b"
  by (simp add: to_hex_def)

lemma div16_lt: "(of_char c :: nat) div 16 < 16"
  using of_char_lt [of c] by linarith

lemma from_to_hex: "from_hex (to_hex b) = Inr b"
proof (induction b)
  case Nil
  then show ?case by (simp add: to_hex_def)
next
  case (Cons c b)
  have "16 * ((of_char c :: nat) div 16) + of_char c mod 16 = of_char c" by simp
  then show ?case
    using Cons hexdig_ok [OF div16_lt, of c] hexdig_ok [of "of_char c mod 16"]
    by (simp add: to_hex_Cons)
qed

lemma to_hex_is_hex: "is_hex (2 * length b) (to_hex b)"
proof (induction b)
  case Nil
  then show ?case by (simp add: to_hex_def is_hex_def)
next
  case (Cons c b)
  then show ?case
    using hexdig_ok [OF div16_lt, of c] hexdig_ok [of "of_char c mod 16"]
    by (simp add: to_hex_Cons is_hex_def)
qed

lemma to_hex_inj: "to_hex a = to_hex b \<longleftrightarrow> a = b"
  by (metis from_to_hex sum.inject(2))

lemma hexval_lt: "is_hexdig c \<Longrightarrow> hexval c < 16"
  by (auto simp: is_hexdig_def hexval_def)

lemma hex_code_inj:
  fixes a b :: nat
  assumes "48 \<le> a \<and> a \<le> 57 \<or> 97 \<le> a \<and> a \<le> 102" "48 \<le> b \<and> b \<le> 57 \<or> 97 \<le> b \<and> b \<le> 102"
    and "(if a \<le> 57 then a - 48 else a - 87) = (if b \<le> 57 then b - 48 else b - 87)"
  shows "a = b"
  using assms by (auto split: if_splits)

lemma hexval_inj: "is_hexdig c \<Longrightarrow> is_hexdig d \<Longrightarrow> hexval c = hexval d \<Longrightarrow> c = d"
proof -
  assume h: "is_hexdig c" "is_hexdig d" "hexval c = hexval d"
  have "(of_char c :: nat) = of_char d"
    using h unfolding is_hexdig_def hexval_def by (rule hex_code_inj)
  then show ?thesis by (metis char_of_char)
qed

lemma from_hex_total: "list_all is_hexdig s \<Longrightarrow> even (length s) \<Longrightarrow> \<exists>b. from_hex s = Inr b \<and> 2 * length b = length s"
  by (induction s rule: from_hex.induct) auto

lemma is_hex_from_hex: "is_hex n s \<Longrightarrow> even n \<Longrightarrow> \<exists>b. from_hex s = Inr b \<and> 2 * length b = n"
  using from_hex_total [of s] by (auto simp: is_hex_def)

lemma char_of_pair_eq:
  fixes p q p' q' :: nat
  assumes "p < 16" "q < 16" "p' < 16" "q' < 16" and "char_of (16 * p + q) = (char_of (16 * p' + q') :: char)"
  shows "p = p' \<and> q = q'"
proof -
  have "16 * p + q < 256" "16 * p' + q' < 256" using assms by simp_all
  then have "16 * p + q = 16 * p' + q'"
    using arg_cong [OF assms(5), of "of_char :: char \<Rightarrow> nat"] by simp
  then have "(16 * p + q) div 16 = (16 * p' + q') div 16" "(16 * p + q) mod 16 = (16 * p' + q') mod 16"
    by simp_all
  with assms(2,4) show ?thesis by simp
qed

lemma from_hex_inj:
  "from_hex s = Inr b \<Longrightarrow> from_hex t = Inr b \<Longrightarrow> s = t"
proof (induction s arbitrary: b t rule: from_hex.induct)
  case 1
  then show ?case by (cases t rule: from_hex.cases) (auto simp: rbind_Inr_iff split: if_splits)
next
  case (2 c)
  then show ?case by simp
next
  case (3 c d s)
  then obtain r where s: "is_hexdig c" "is_hexdig d" "from_hex s = Inr r"
    and b: "b = char_of (16 * hexval c + hexval d) # r"
    by (auto simp: rbind_Inr_iff split: if_splits)
  with "3.prems"(2) obtain c' d' t' where t: "t = c' # d' # t'" "is_hexdig c'" "is_hexdig d'"
    "from_hex t' = Inr r" and e: "char_of (16 * hexval c + hexval d) = (char_of (16 * hexval c' + hexval d') :: char)"
    by (cases t rule: from_hex.cases) (auto simp: rbind_Inr_iff split: if_splits)
  have "hexval c = hexval c' \<and> hexval d = hexval d'"
    by (rule char_of_pair_eq [OF _ _ _ _ e]) (use s t in \<open>auto intro: hexval_lt\<close>)
  with s t "3.IH" show ?case by (auto dest: hexval_inj)
qed

section \<open>Decimal text\<close>

definition digit :: "nat \<Rightarrow> char" where
  "digit n = char_of (48 + n)"

definition is_digit :: "char \<Rightarrow> bool" where
  "is_digit c \<longleftrightarrow> 48 \<le> (of_char c :: nat) \<and> (of_char c :: nat) \<le> 57"

definition digit_val :: "char \<Rightarrow> nat" where
  "digit_val c = of_char c - 48"

fun show_nat :: "nat \<Rightarrow> string" where
  "show_nat n = (if n < 10 then [digit n] else show_nat (n div 10) @ [digit (n mod 10)])"

declare show_nat.simps [simp del]

text \<open>\<^verbatim>\<open>str(n)\<close>\<close>

definition show_int :: "int \<Rightarrow> string" where
  "show_int n = (if n < 0 then CHR ''-'' # show_nat (nat (- n)) else show_nat (nat n))"

text \<open>
  \<^verbatim>\<open>int(s)\<close>: surrounding white space, an optional sign, ASCII digits with single underscores
  between them. (Decimal digits outside ASCII, which Python also reads, are not modelled.)
\<close>

definition is_space :: "char \<Rightarrow> bool" where
  "is_space c \<longleftrightarrow> (of_char c :: nat) = 32 \<or> (9 \<le> (of_char c :: nat) \<and> (of_char c :: nat) \<le> 13)
     \<or> (28 \<le> (of_char c :: nat) \<and> (of_char c :: nat) \<le> 31)"

definition strip :: "string \<Rightarrow> string" where
  "strip s = rev (dropWhile is_space (rev (dropWhile is_space s)))"

fun dec_more :: "nat \<Rightarrow> string \<Rightarrow> nat option" where
  "dec_more acc [] = Some acc"
| "dec_more acc (c # cs) =
     (if is_digit c then dec_more (10 * acc + digit_val c) cs
      else if c = CHR ''_'' then
        (case cs of [] \<Rightarrow> None
         | d # ds \<Rightarrow> if is_digit d then dec_more (10 * acc + digit_val d) ds else None)
      else None)"

fun dec_start :: "string \<Rightarrow> nat option" where
  "dec_start [] = None"
| "dec_start (c # cs) = (if is_digit c then dec_more (digit_val c) cs else None)"

definition py_int :: "string \<Rightarrow> int res" where
  "py_int s =
     (let t = strip s;
          neg = (case t of [] \<Rightarrow> False | c # _ \<Rightarrow> c = CHR ''-'');
          body = (case t of [] \<Rightarrow> [] | c # cs \<Rightarrow> if c = CHR ''-'' \<or> c = CHR ''+'' then cs else t)
      in case dec_start body of
           None \<Rightarrow> Inl (ValueError ''invalid literal for int() with base 10'')
         | Some n \<Rightarrow> Inr (if neg then - int n else int n))"

lemma digit_ok: "n < 10 \<Longrightarrow> is_digit (digit n) \<and> digit_val (digit n) = n"
  by (simp add: digit_def is_digit_def digit_val_def)

lemma show_nat_digits: "\<forall>c\<in>set (show_nat n). is_digit c"
proof (induction n rule: show_nat.induct)
  case (1 n)
  then show ?case by (subst show_nat.simps) (auto simp: digit_ok)
qed

lemma show_nat_nonempty [simp]: "show_nat n \<noteq> []"
  by (subst show_nat.simps) simp

lemma dec_more_append:
  "\<forall>c\<in>set xs. is_digit c \<Longrightarrow> dec_more acc (xs @ ys) = dec_more (foldl (\<lambda>a c. 10 * a + digit_val c) acc xs) ys"
  by (induction xs arbitrary: acc) auto

lemma foldl_show_nat: "foldl (\<lambda>a c. 10 * a + digit_val c) 0 (show_nat n) = n"
proof (induction n rule: show_nat.induct)
  case (1 n)
  then show ?case
    by (subst show_nat.simps) (auto simp: digit_ok)
qed

lemma dec_start_show_nat: "dec_start (show_nat n) = Some n"
proof -
  have "dec_more 0 (show_nat n) = Some n"
    using dec_more_append [OF show_nat_digits, of 0 n "[]"] by (simp add: foldl_show_nat)
  then show ?thesis using show_nat_digits [of n] by (cases "show_nat n") auto
qed

lemma digit_not_space: "is_digit c \<Longrightarrow> \<not> is_space c"
  by (auto simp: is_digit_def is_space_def)

lemma strip_id: "s \<noteq> [] \<Longrightarrow> \<not> is_space (hd s) \<Longrightarrow> \<not> is_space (last s) \<Longrightarrow> strip s = s"
proof -
  assume s: "s \<noteq> []" "\<not> is_space (hd s)" "\<not> is_space (last s)"
  then have "dropWhile is_space s = s" by (cases s) auto
  moreover have "dropWhile is_space (rev s) = rev s" using s by (cases s rule: rev_cases) auto
  ultimately show ?thesis by (simp add: strip_def)
qed

lemma digit_not_sign: "is_digit c \<Longrightarrow> c \<noteq> CHR ''-'' \<and> c \<noteq> CHR ''+'' \<and> c \<noteq> CHR '':'' \<and> c \<noteq> CHR '' ''"
  by (auto simp: is_digit_def)

lemma py_int_show_int: "py_int (show_int n) = Inr n"
proof (cases "n < 0")
  case True
  let ?d = "show_nat (nat (- n))"
  have "last (CHR ''-'' # ?d) \<in> set ?d" by simp
  then have "\<not> is_space (last (CHR ''-'' # ?d))" using digit_not_space show_nat_digits by blast
  then have "strip (CHR ''-'' # ?d) = CHR ''-'' # ?d" by (intro strip_id) (simp_all add: is_space_def)
  with True show ?thesis by (simp add: py_int_def show_int_def dec_start_show_nat)
next
  case False
  let ?d = "show_nat (nat n)"
  have "is_digit (last ?d)" "is_digit (hd ?d)" using show_nat_digits [of "nat n"] by simp_all
  then have "strip ?d = ?d" by (intro strip_id) (simp_all add: digit_not_space)
  moreover obtain c cs where c: "?d = c # cs" by (cases ?d) auto
  moreover have "is_digit c" using show_nat_digits [of "nat n"] c by simp
  ultimately show ?thesis
    using False dec_start_show_nat [of "nat n"] digit_not_sign [of c] by (simp add: py_int_def show_int_def)
qed

lemma show_int_chars: "c \<in> set (show_int n) \<Longrightarrow> is_digit c \<or> c = CHR ''-''"
  using show_nat_digits by (auto simp: show_int_def split: if_splits)

lemma show_int_inj: "show_int m = show_int n \<longleftrightarrow> m = n"
  by (metis py_int_show_int sum.inject(2))

section \<open>Separators\<close>

text \<open>\<^verbatim>\<open>s.split(sep)\<close> and \<^verbatim>\<open>sep.join(ws)\<close> for a separator of one character.\<close>

fun split_on :: "char \<Rightarrow> string \<Rightarrow> string list" where
  "split_on c [] = [[]]"
| "split_on c (x # xs) =
     (if x = c then [] # split_on c xs
      else (case split_on c xs of [] \<Rightarrow> [[x]] | w # ws \<Rightarrow> (x # w) # ws))"

fun join_with :: "char \<Rightarrow> string list \<Rightarrow> string" where
  "join_with c [] = []"
| "join_with c [w] = w"
| "join_with c (w # v # ws) = w @ c # join_with c (v # ws)"

lemma split_on_nonempty [simp]: "split_on c s \<noteq> []"
  by (induction s) (auto split: list.splits)

lemma split_on_none: "c \<notin> set w \<Longrightarrow> split_on c w = [w]"
  by (induction w) auto

lemma split_on_append: "c \<notin> set w \<Longrightarrow> split_on c (w @ c # s) = w # split_on c s"
  by (induction w) auto

lemma split_join: "ws \<noteq> [] \<Longrightarrow> \<forall>w\<in>set ws. c \<notin> set w \<Longrightarrow> split_on c (join_with c ws) = ws"
  by (induction c ws rule: join_with.induct) (auto simp: split_on_none split_on_append)

lemma join_split: "join_with c (split_on c s) = s"
proof (induction s)
  case Nil
  then show ?case by simp
next
  case (Cons x s)
  show ?case
  proof (cases "split_on c s")
    case Nil
    then show ?thesis by simp
  next
    case (Cons w ws)
    with \<open>join_with c (split_on c s) = s\<close> show ?thesis by (cases ws) auto
  qed
qed

text \<open>\<^verbatim>\<open>line, _, rest = buffer.partition(b"\n")\<close>\<close>

abbreviation newline :: char where
  "newline \<equiv> CHR 0x0A"

definition line_of :: "string \<Rightarrow> string" where
  "line_of b = takeWhile (\<lambda>c. c \<noteq> newline) b"

definition rest_of :: "string \<Rightarrow> string" where
  "rest_of b = (case dropWhile (\<lambda>c. c \<noteq> newline) b of [] \<Rightarrow> [] | _ # r \<Rightarrow> r)"

lemma partition_newline: "newline \<in> set b \<Longrightarrow> b = line_of b @ newline # rest_of b"
proof -
  assume "newline \<in> set b"
  then obtain ys zs where "b = ys @ newline # zs" "newline \<notin> set ys" by (meson split_list_first)
  then show ?thesis by (simp add: line_of_def rest_of_def takeWhile_append dropWhile_append)
qed

lemma line_of_append: "newline \<notin> set l \<Longrightarrow> line_of (l @ newline # r) = l \<and> rest_of (l @ newline # r) = r"
  by (auto simp: line_of_def rest_of_def takeWhile_append dropWhile_append)

section \<open>Text\<close>

text \<open>\<^verbatim>\<open>len(s)\<close> of a \<^verbatim>\<open>str\<close>: one code point per byte that does not continue a sequence.\<close>

definition ulen :: "string \<Rightarrow> nat" where
  "ulen s = length (filter (\<lambda>c. (of_char c :: nat) < 128 \<or> 192 \<le> (of_char c :: nat)) s)"

definition isascii :: "string \<Rightarrow> bool" where
  "isascii s \<longleftrightarrow> list_all (\<lambda>c. (of_char c :: nat) < 128) s"

definition is_alnum :: "char \<Rightarrow> bool" where
  "is_alnum c \<longleftrightarrow> is_digit c \<or> (65 \<le> (of_char c :: nat) \<and> (of_char c :: nat) \<le> 90)
     \<or> (97 \<le> (of_char c :: nat) \<and> (of_char c :: nat) \<le> 122)"

lemma ulen_ascii: "isascii s \<Longrightarrow> ulen s = length s"
  by (simp add: ulen_def isascii_def list_all_iff filter_True)

lemma ulen_le: "ulen s \<le> length s"
  by (simp add: ulen_def)

end
