(* ===== verification/Proposals.thy ===== *)
theory Proposals
  imports Bytes
begin

text \<open>
  Strict decoding of source proposals (\<^verbatim>\<open>ros/haetae_gate/proposals.py\<close>): the semantic
  reference a trajectory carries in its frame name, the base velocity and the arm trajectory.
  ROS messages are records; \<^verbatim>\<open>json.loads\<close> is the parameter \<open>loads\<close>, which returns the parsed
  text with the raw pairs of every object, and \<^verbatim>\<open>json.dumps\<close> the parameter \<open>dumps\<close>.
\<close>

section \<open>Messages\<close>

record stamp =
  sec :: int
  nanosec :: int

record twist =
  lin_x :: float64
  lin_y :: float64
  lin_z :: float64
  ang_x :: float64
  ang_y :: float64
  ang_z :: float64

record traj_point =
  positions :: "float64 list"
  velocities :: "float64 list"
  accelerations :: "float64 list"
  effort :: "float64 list"
  time_from_start :: stamp

record trajectory =
  joint_names :: "string list"
  points :: "traj_point list"
  tstamp :: stamp
  frame_id :: string

section \<open>Semantic references\<close>

definition SEMANTIC_PREFIX :: string where
  "SEMANTIC_PREFIX = ''haetae.semantic.v1:''"

definition REVISION_FIELDS :: "string list" where
  "REVISION_FIELDS = [''schema_version'', ''world_revision'', ''task_revision'']"

definition IDENTITY_FIELDS :: "string list" where
  "IDENTITY_FIELDS = [''task_id'', ''step_id'', ''robot_id'', ''model_sha256'', ''tool_id'', ''item_id'']"

definition SEMANTIC_FIELDS :: "string list" where
  "SEMANTIC_FIELDS = REVISION_FIELDS @ IDENTITY_FIELDS"

definition semantic_revision_ok :: "pyval \<Rightarrow> bool" where
  "semantic_revision_ok v = (case as_int v of None \<Rightarrow> False | Some n \<Rightarrow> 0 < n \<and> n \<le> 2 ^ 64 - 1)"

definition identity_char :: "char \<Rightarrow> bool" where
  "identity_char c \<longleftrightarrow> is_alnum c \<or> c \<in> set ''_.-''"

fun semantic_identity_ok :: "pyval \<Rightarrow> bool" where
  "semantic_identity_ok (PStr t) \<longleftrightarrow> 1 \<le> ulen t \<and> ulen t \<le> 64 \<and> isascii t \<and> list_all identity_char t"
| "semantic_identity_ok _ = False"

definition field :: "(string \<times> pyval) list \<Rightarrow> string \<Rightarrow> pyval" where
  "field d k = (case map_of d k of None \<Rightarrow> PNone | Some v \<Rightarrow> v)"

fun digest_ok :: "pyval \<Rightarrow> bool" where
  "digest_ok (PStr t) = is_hex 64 t"
| "digest_ok _ = False"

text \<open>
  The checks on the decoded value, in the order of the code. The duplicate-field exception of
  the hook is itself a \<^verbatim>\<open>ValueError\<close>, so the enclosing handler turns it, like any parse
  error, into the malformed-reference exception.
\<close>

definition check_semantic :: "pyval \<Rightarrow> (string \<times> pyval) list res" where
  "check_semantic value =
     (case value of
        PDict d \<Rightarrow>
          if fst ` set d \<noteq> set SEMANTIC_FIELDS then Inl (InvalidProposal ''unexpected semantic reference fields'')
          else if \<not> list_all (\<lambda>k. semantic_revision_ok (field d k)) REVISION_FIELDS
            then Inl (InvalidProposal ''invalid semantic revision'')
          else if field d ''schema_version'' \<noteq> PInt 1 then Inl (InvalidProposal ''unsupported semantic schema'')
          else if \<not> list_all (\<lambda>k. semantic_identity_ok (field d k)) IDENTITY_FIELDS
            then Inl (InvalidProposal ''invalid semantic identity'')
          else if \<not> digest_ok (field d ''model_sha256'') then Inl (InvalidProposal ''invalid semantic model hash'')
          else Inr d
      | _ \<Rightarrow> Inl (InvalidProposal ''unexpected semantic reference fields''))"

definition unique :: "(string \<times> pyval) list \<Rightarrow> (string \<times> pyval) list res" where
  "unique = unique_pairs (InvalidProposal ''duplicate semantic reference field'') []"

definition semantic_binding ::
    "(string \<Rightarrow> pyval res) \<Rightarrow> string \<Rightarrow> (string \<times> pyval) list option res" where
  "semantic_binding loads frame =
     (if \<not> is_prefix SEMANTIC_PREFIX frame then Inr None
      else if ulen frame > 2048 then Inl (InvalidProposal ''semantic reference exceeds bounds'')
      else (case rbind (loads (drop (length SEMANTIC_PREFIX) frame)) (hook_val unique) of
              Inl e \<Rightarrow> if is_ValueError e \<or> e = TypeError
                       then Inl (InvalidProposal ''malformed semantic reference'') else Inl e
            | Inr value \<Rightarrow> rbind (check_semantic value) (\<lambda>d. Inr (Some d))))"

definition semantic_frame ::
    "(string \<Rightarrow> pyval res) \<Rightarrow> (pyval \<Rightarrow> string res) \<Rightarrow> pyval \<Rightarrow> string res" where
  "semantic_frame loads dumps binding =
     rbind (dumps binding) (\<lambda>text.
     rbind (semantic_binding loads (SEMANTIC_PREFIX @ text)) (\<lambda>_.
     Inr (SEMANTIC_PREFIX @ text)))"

section \<open>Base and arm actions\<close>

definition stop_action :: pyval where
  "stop_action = PDict [(''type'', PStr ''stop'')]"

definition base_action :: "twist \<Rightarrow> int \<Rightarrow> pyval res" where
  "base_action t ttl =
     (if \<not> (f_zero (lin_y t) \<and> f_zero (lin_z t) \<and> f_zero (ang_x t) \<and> f_zero (ang_y t))
        then Inl (InvalidProposal ''unsupported TwistStamped component'')
      else if \<not> (isfinite (lin_x t) \<and> isfinite (ang_z t))
        then Inl (InvalidProposal ''nonfinite TwistStamped component'')
      else if f_zero (lin_x t) \<and> f_zero (ang_z t) then Inr stop_action
      else Inr (PDict [(''type'', PStr ''velocity''), (''linear'', PFloat (lin_x t)),
                       (''angular'', PFloat (ang_z t)), (''ttl_ms'', PInt ttl)]))"

definition arm_millis :: "stamp \<Rightarrow> int" where
  "arm_millis s = sec s * 1000 + nanosec s div 1000000"

definition arm_point :: "nat \<Rightarrow> traj_point \<Rightarrow> (int \<times> float64 list) res" where
  "arm_point n p =
     (if velocities p \<noteq> [] \<or> accelerations p \<noteq> [] \<or> effort p \<noteq> []
        then Inl (InvalidProposal ''only positions are accepted'')
      else if length (positions p) \<noteq> n \<or> \<not> list_all isfinite (positions p)
        then Inl (InvalidProposal ''invalid arm positions'')
      else if sec (time_from_start p) < 0 \<or> nanosec (time_from_start p) \<ge> 1000000000
        then Inl (InvalidProposal ''invalid arm time'')
      else Inr (arm_millis (time_from_start p), positions p))"

definition point_val :: "int \<times> float64 list \<Rightarrow> pyval" where
  "point_val p = PDict [(''time_from_start_ms'', PInt (fst p)), (''positions'', PList (map PFloat (snd p)))]"

definition arm_action :: "trajectory \<Rightarrow> string list \<Rightarrow> int \<Rightarrow> pyval res" where
  "arm_action msg joints fixed_ttl_ms =
     (if fixed_ttl_ms \<noteq> 0 \<and> fixed_ttl_ms \<noteq> 1000 then Inl (InvalidProposal ''unsupported fixed arm lease'')
      else if joint_names msg \<noteq> joints then Inl (InvalidProposal ''wrong arm joint names'')
      else if points msg = [] then Inr stop_action
      else rbind (rmap (arm_point (length joints)) (points msg)) (\<lambda>pts.
           let duration = fst (last pts)
           in if fixed_ttl_ms \<noteq> 0 \<and> duration > fixed_ttl_ms
              then Inl (InvalidProposal ''arm plan exceeds fixed lease'')
              else Inr (PDict [(''type'', PStr ''joint_trajectory''), (''points'', PList (map point_val pts)),
                               (''ttl_ms'', PInt (if fixed_ttl_ms \<noteq> 0 then fixed_ttl_ms else duration))])))"

section \<open>Lemmas\<close>

lemma base_action_cases:
  assumes "base_action t ttl = Inr a"
  shows "isfinite (lin_x t) \<and> isfinite (ang_z t) \<and>
    (f_zero (lin_x t) \<and> f_zero (ang_z t) \<and> a = stop_action \<or>
     (\<not> f_zero (lin_x t) \<or> \<not> f_zero (ang_z t)) \<and>
     a = PDict [(''type'', PStr ''velocity''), (''linear'', PFloat (lin_x t)),
                (''angular'', PFloat (ang_z t)), (''ttl_ms'', PInt ttl)])"
  using assms by (auto simp: base_action_def split: if_splits)

lemma base_action_error: "base_action t ttl = Inl e \<Longrightarrow> \<exists>m. e = InvalidProposal m"
  by (auto simp: base_action_def split: if_splits)

lemma rmap_Inl: "rmap f xs = Inl e \<Longrightarrow> \<exists>x\<in>set xs. f x = Inl e"
  by (induction xs) (auto simp: rbind_Inl_iff)

lemma rmap_set: "rmap f xs = Inr ys \<Longrightarrow> y \<in> set ys \<Longrightarrow> \<exists>x\<in>set xs. f x = Inr y"
  by (induction xs arbitrary: ys) (auto simp: rbind_Inr_iff)

lemma rmap_last:
  assumes "rmap f xs = Inr ys" and "xs \<noteq> []"
  shows "f (last xs) = Inr (last ys)"
proof -
  have l: "length ys = length xs" using assms(1) by (rule rmap_length)
  with assms(2) have "ys \<noteq> []" by auto
  with l assms show ?thesis using rmap_Inr_nth [OF assms(1), of "length xs - 1"]
    by (simp add: last_conv_nth)
qed

lemma arm_point_Inr:
  "arm_point n p = Inr (t, qs) \<Longrightarrow>
   length qs = n \<and> list_all isfinite qs \<and> qs = positions p \<and> 0 \<le> sec (time_from_start p) \<and>
   nanosec (time_from_start p) < 1000000000 \<and> t = arm_millis (time_from_start p)"
  by (auto simp: arm_point_def split: if_splits)

lemma arm_action_error: "arm_action m js f = Inl e \<Longrightarrow> \<exists>msg. e = InvalidProposal msg"
  by (auto simp: arm_action_def arm_point_def rbind_Inl_iff Let_def dest!: rmap_Inl split: if_splits)

lemma arm_action_cases:
  assumes "arm_action msg joints f = Inr a"
  shows "joint_names msg = joints \<and>
    (points msg = [] \<and> a = stop_action \<or>
     (\<exists>pts. points msg \<noteq> [] \<and> rmap (arm_point (length joints)) (points msg) = Inr pts \<and>
        (f \<noteq> 0 \<longrightarrow> fst (last pts) \<le> f) \<and>
        a = PDict [(''type'', PStr ''joint_trajectory''), (''points'', PList (map point_val pts)),
                   (''ttl_ms'', PInt (if f \<noteq> 0 then f else fst (last pts)))]))"
  using assms by (auto simp: arm_action_def rbind_Inr_iff Let_def split: if_splits)

lemma check_semantic_Inr:
  "check_semantic v = Inr d \<longleftrightarrow>
   v = PDict d \<and> fst ` set d = set SEMANTIC_FIELDS \<and>
   list_all (\<lambda>k. semantic_revision_ok (field d k)) REVISION_FIELDS \<and> field d ''schema_version'' = PInt 1 \<and>
   list_all (\<lambda>k. semantic_identity_ok (field d k)) IDENTITY_FIELDS \<and> digest_ok (field d ''model_sha256'')"
  by (cases v) (auto simp: check_semantic_def)

lemma semantic_binding_Some:
  "semantic_binding loads frame = Inr (Some d) \<longleftrightarrow>
   is_prefix SEMANTIC_PREFIX frame \<and> ulen frame \<le> 2048 \<and>
   (\<exists>v. rbind (loads (drop (length SEMANTIC_PREFIX) frame)) (hook_val unique) = Inr v \<and> check_semantic v = Inr d)"
  by (auto simp: semantic_binding_def rbind_Inr_iff split: sum.splits if_splits)

lemma hook_unique_distinct: "hook_val unique v = Inr (PDict d) \<Longrightarrow> distinct (map fst d)"
  by (cases v) (auto simp: rbind_Inr_iff unique_def unique_pairs_Inr_iff)

end
