(* ===== verification/Issuer.thy ===== *)
theory Issuer
  imports Prelude
begin

text \<open>
  The contract of every component that hands out numbered authority: the input signer, the
  controller permit signer and the LED authorizer. One operation issues tokens; each token
  belongs to a channel and carries a number; the state keeps the highest number used per
  channel. What a client relies on is proved here once: along any sequence of requests, with
  failures in between, the numbers of a channel strictly increase, so no two tokens agree on
  channel and number.
\<close>

locale issuer =
  fixes issue :: "'q \<Rightarrow> 's \<Rightarrow> 't res \<times> 's"
    and level :: "'s \<Rightarrow> 'c \<Rightarrow> int"
    and chan :: "'t \<Rightarrow> 'c"
    and num :: "'t \<Rightarrow> int"
  assumes issue_num: "issue q s = (Inr t, s') \<Longrightarrow> num t = level s (chan t) + 1"
    and issue_level: "issue q s = (Inr t, s') \<Longrightarrow> level s' (chan t) = num t"
    and issue_frame: "issue q s = (Inr t, s') \<Longrightarrow> c \<noteq> chan t \<Longrightarrow> level s' c = level s c"
    and issue_error: "issue q s = (Inl e, s') \<Longrightarrow> level s' c = level s c"
begin

fun issue_all :: "'q list \<Rightarrow> 's \<Rightarrow> 't list \<times> 's" where
  "issue_all [] s = ([], s)"
| "issue_all (q # qs) s =
     (case issue q s of
        (Inl e, s') \<Rightarrow> issue_all qs s'
      | (Inr t, s') \<Rightarrow> (case issue_all qs s' of (ts, s'') \<Rightarrow> (t # ts, s'')))"

lemma level_mono: "issue q s = (r, s') \<Longrightarrow> level s c \<le> level s' c"
proof (cases r)
  case (Inl e)
  then show "issue q s = (r, s') \<Longrightarrow> ?thesis" using issue_error by fastforce
next
  case (Inr t)
  then show "issue q s = (r, s') \<Longrightarrow> ?thesis"
    using issue_num issue_level issue_frame by (cases "c = chan t") fastforce+
qed

lemma issue_all_above: "t \<in> set (fst (issue_all qs s)) \<Longrightarrow> level s (chan t) < num t"
proof (induction qs arbitrary: s)
  case Nil
  then show ?case by simp
next
  case (Cons q qs)
  obtain r s' where i: "issue q s = (r, s')" by (cases "issue q s")
  have mono: "level s (chan t) \<le> level s' (chan t)" using i by (rule level_mono)
  show ?case
  proof (cases "r = Inr t")
    case True
    with i show ?thesis using issue_num by fastforce
  next
    case False
    then have "t \<in> set (fst (issue_all qs s'))"
      using Cons.prems i by (auto split: sum.splits prod.splits)
    with Cons.IH mono show ?thesis by fastforce
  qed
qed

theorem issue_all_increasing:
  "sorted_wrt (\<lambda>a b. chan a = chan b \<longrightarrow> num a < num b) (fst (issue_all qs s))"
proof (induction qs arbitrary: s)
  case Nil
  then show ?case by simp
next
  case (Cons q qs)
  obtain r s' where i: "issue q s = (r, s')" by (cases "issue q s")
  show ?case
  proof (cases r)
    case (Inl e)
    with i Cons show ?thesis by simp
  next
    case (Inr t)
    have "num t < num u" if "u \<in> set (fst (issue_all qs s'))" "chan t = chan u" for u
      using issue_all_above [OF that(1)] issue_level [of q s t s'] i Inr that(2) by simp
    with i Inr Cons [of s'] show ?thesis by (auto split: prod.splits)
  qed
qed

theorem issue_all_distinct: "distinct (map (\<lambda>t. (chan t, num t)) (fst (issue_all qs s)))"
  by (rule sorted_wrt_distinct [OF issue_all_increasing]) auto

end

end
