(* ===== verification/Signing.thy ===== *)
theory Signing
  imports Bytes Issuer
begin

text \<open>
  Role-bound signed input envelopes (\<^verbatim>\<open>ros/haetae_gate/signing.py\<close>) and the durable counter
  reservation (\<^verbatim>\<open>ros/haetae_gate/counter_store.py\<close>). The Ed25519 primitive is a parameter:
  \<open>pub\<close> gives the public key of a seed, \<open>ed_sign\<close> the signature of a message under a seed.
  \<^verbatim>\<open>json\<close> is the pair of parameters \<open>loads\<close> and \<open>dumps\<close>. A trust bundle whose fields have
  other JSON types than the ones read here is refused when it is loaded.
\<close>

section \<open>The signed message\<close>

definition ROLE_TAG :: "(string \<times> int) list" where
  "ROLE_TAG = [(''world'', 1), (''fault'', 2), (''vla'', 3), (''planner'', 4), (''teleop'', 5), (''peer'', 6)]"

definition role_tag :: "string \<Rightarrow> int res" where
  "role_tag r = (case map_of ROLE_TAG r of None \<Rightarrow> Inl (KeyError r) | Some t \<Rightarrow> Inr t)"

definition INPUT_DOMAIN :: string where
  "INPUT_DOMAIN = ''haetae-input-v1'' @ [CHR 0x00]"

definition input_message :: "string \<Rightarrow> int \<Rightarrow> int \<Rightarrow> string \<Rightarrow> string \<Rightarrow> string res" where
  "input_message audience epoch counter role payload =
     rbind (pack_be 4 (int (length audience))) (\<lambda>al.
     rbind (role_tag role) (\<lambda>tag.
     rbind (pack_be 8 epoch) (\<lambda>ep.
     rbind (pack_be 8 counter) (\<lambda>co.
     rbind (pack_be 1 tag) (\<lambda>tg.
     rbind (pack_be 4 (int (length payload))) (\<lambda>pl.
     Inr (INPUT_DOMAIN @ al @ audience @ ep @ co @ tg @ pl @ payload)))))))"

section \<open>The signer\<close>

record envelope =
  env_audience :: string
  env_epoch :: int
  env_counter :: int
  env_role :: string
  env_payload :: string
  env_signature :: string

definition envelope_val :: "envelope \<Rightarrow> pyval" where
  "envelope_val e = PDict [(''v'', PInt 1), (''audience'', PStr (env_audience e)), (''epoch'', PInt (env_epoch e)),
     (''counter'', PInt (env_counter e)), (''role'', PStr (env_role e)), (''payload'', PStr (env_payload e)),
     (''signature'', PStr (env_signature e))]"

record signer =
  audience :: string
  epoch :: int
  keys :: "(string \<times> string) list"
  counters :: "(string \<times> int) list"

text \<open>A seed file: permission bits, owner, contents. The state file: epoch and counters.\<close>

record seed_file =
  sf_mode :: int
  sf_uid :: int
  sf_text :: string

type_synonym counter_file = "(int \<times> (string \<times> int) list) option"

definition trust_body :: "(string \<Rightarrow> pyval res) \<Rightarrow> string \<Rightarrow> (string \<times> int \<times> (string \<times> pyval) list) res" where
  "trust_body loads text =
     rbind (loads text) (\<lambda>bundle.
     rbind (dix bundle ''body'') (\<lambda>bt. rbind (need_str bt) (\<lambda>inner.
     rbind (loads inner) (\<lambda>body.
     rbind (dix body ''v'') (\<lambda>v.
     rbind (dix body ''audience'') (\<lambda>av. rbind (need_str av) (\<lambda>a.
     rbind (dix body ''epoch'') (\<lambda>ev. rbind (need_int ev) (\<lambda>n.
     if \<not> eq_int v 1 \<or> a = [] \<or> n \<le> 0 then Inl (ValueError ''invalid trust bundle'')
     else rbind (dix body ''keys'') (\<lambda>kv. rbind (need_dict kv) (\<lambda>d.
     Inr (a, n, d))))))))))))"

text \<open>One role of \<^verbatim>\<open>key_paths\<close>: ownership and mode of the seed, its length, its public key.\<close>

definition load_key :: "(string \<Rightarrow> string) \<Rightarrow> int \<Rightarrow> (string \<times> pyval) list \<Rightarrow> string \<times> seed_file \<Rightarrow> (string \<times> string) res" where
  "load_key pub euid bundle_keys kp =
     (let role = fst kp; f = snd kp in
      if map_of ROLE_TAG role = None then Inl (ValueError (''unknown signing role: '' @ role))
      else if sf_mode f mod 64 \<noteq> 0 \<or> sf_uid f \<noteq> euid
        then Inl (ValueError (''signing seed must be owned by this user and owner-only: '' @ role))
      else rbind (from_hex (strip (sf_text f))) (\<lambda>seed.
           if length seed \<noteq> 32 then Inl (ValueError ''signing seed must be 32 bytes'')
           else if map_of bundle_keys role \<noteq> Some (PStr (to_hex (pub seed)))
             then Inl (ValueError (''signing key is not in trust bundle: '' @ role))
           else Inr (role, seed)))"

definition restore_counters :: "(string \<times> string) list \<Rightarrow> (string \<times> int) list \<Rightarrow> (string \<times> int) list \<Rightarrow> (string \<times> int) list" where
  "restore_counters ks zero saved = dict_of zero (filter (\<lambda>p. fst p \<in> fst ` set ks) saved)"

text \<open>The counters a signer starts from: zero, or those the state file saved in this epoch.\<close>

definition start_counters ::
    "int \<Rightarrow> (string \<times> string) list \<Rightarrow> (string \<times> seed_file) list \<Rightarrow> counter_file \<Rightarrow> (string \<times> int) list res" where
  "start_counters ep ks key_paths state =
     (let zero = map (\<lambda>kp. (fst kp, 0)) key_paths in
      case state of
        None \<Rightarrow> Inr zero
      | Some (sep, saved) \<Rightarrow>
          if sep > ep then Inl (ValueError ''trust epoch rolled back'')
          else Inr (if sep = ep then restore_counters ks zero saved else zero))"

text \<open>\<^verbatim>\<open>Signer.__init__\<close>\<close>

definition signer_init ::
    "(string \<Rightarrow> pyval res) \<Rightarrow> (string \<Rightarrow> string) \<Rightarrow> int \<Rightarrow> string \<Rightarrow> counter_file
       \<Rightarrow> (string \<times> seed_file) list \<Rightarrow> signer res" where
  "signer_init loads pub euid trust_text state key_paths =
     rbind (trust_body loads trust_text) (\<lambda>(aud, ep, bkeys).
     rbind (rmap (load_key pub euid bkeys) key_paths) (\<lambda>ks.
     rbind (start_counters ep ks key_paths state) (\<lambda>cs.
     Inr \<lparr>audience = aud, epoch = ep, keys = ks, counters = cs\<rparr>)))"

definition counter_of :: "(string \<times> int) list \<Rightarrow> string \<Rightarrow> int" where
  "counter_of cs r = (case map_of cs r of None \<Rightarrow> 0 | Some n \<Rightarrow> n)"

text \<open>The payload of \<^verbatim>\<open>sign\<close>: a dict is serialized, text is taken as it is.\<close>

fun payload_text :: "(pyval \<Rightarrow> string res) \<Rightarrow> pyval \<Rightarrow> string res" where
  "payload_text dumps (PDict d) = dumps (PDict d)"
| "payload_text dumps (PStr s) = Inr s"
| "payload_text dumps _ = Inl AttributeError"

text \<open>\<^verbatim>\<open>Signer.sign\<close>\<close>

definition sign ::
    "(pyval \<Rightarrow> string res) \<Rightarrow> (string \<Rightarrow> string \<Rightarrow> string) \<Rightarrow> string \<Rightarrow> pyval \<Rightarrow> (signer, envelope) meth" where
  "sign dumps ed_sign role payload s =
     (case map_of (keys s) role of
        None \<Rightarrow> (Inl (ValueError (''unconfigured signing role: '' @ role)), s)
      | Some key \<Rightarrow>
          (case payload_text dumps payload of
             Inl e \<Rightarrow> (Inl e, s)
           | Inr text \<Rightarrow>
               (let counter = counter_of (counters s) role + 1 in
                case input_message (audience s) (epoch s) counter role text of
                  Inl e \<Rightarrow> (Inl e, s)
                | Inr msg \<Rightarrow>
                    (Inr \<lparr>env_audience = audience s, env_epoch = epoch s, env_counter = counter, env_role = role,
                          env_payload = text, env_signature = to_hex (ed_sign key msg)\<rparr>,
                     s\<lparr>counters := dput role counter (counters s)\<rparr>))))"

section \<open>Durable reservations\<close>

text \<open>
  \<^verbatim>\<open>CounterStore.reserve\<close>: a complete new file replaces the old one atomically. It can fail
  before the replacement, which leaves the old file, or after it (the directory sync), which
  leaves the new one.
\<close>

datatype reserve_outcome = Reserved | FailedBefore exn | FailedAfter exn

definition reserve :: "reserve_outcome \<Rightarrow> int \<Rightarrow> (string \<times> int) list \<Rightarrow> (counter_file, unit) meth" where
  "reserve outcome ep cs file =
     (case outcome of
        Reserved \<Rightarrow> (Inr (), Some (ep, cs))
      | FailedBefore e \<Rightarrow> (Inl e, file)
      | FailedAfter e \<Rightarrow> (Inl e, Some (ep, cs)))"

section \<open>Lemmas on the message format\<close>

lemma role_tag_range: "role_tag r = Inr t \<Longrightarrow> 1 \<le> t \<and> t \<le> 6"
  by (auto simp: role_tag_def ROLE_TAG_def split: if_splits)

lemma role_tag_inj: "role_tag r = Inr t \<Longrightarrow> role_tag r' = Inr t \<Longrightarrow> r = r'"
  by (auto simp: role_tag_def ROLE_TAG_def split: if_splits)

lemma input_message_parts:
  "input_message a ep c r p = Inr m \<longleftrightarrow>
   (\<exists>al tag epb co tg pl. pack_be 4 (int (length a)) = Inr al \<and> role_tag r = Inr tag \<and> pack_be 8 ep = Inr epb \<and>
      pack_be 8 c = Inr co \<and> pack_be 1 tag = Inr tg \<and> pack_be 4 (int (length p)) = Inr pl \<and>
      m = INPUT_DOMAIN @ al @ a @ epb @ co @ tg @ pl @ p)"
  by (auto simp: input_message_def rbind_Inr_iff)

lemma input_message_inj:
  assumes "input_message a ep c r p = Inr m" and "input_message a' ep' c' r' p' = Inr m"
  shows "a = a' \<and> ep = ep' \<and> c = c' \<and> r = r' \<and> p = p'"
proof -
  obtain al tag e co tg pl where 1: "pack_be 4 (int (length a)) = Inr al" "role_tag r = Inr tag"
    "pack_be 8 ep = Inr e" "pack_be 8 c = Inr co" "pack_be 1 tag = Inr tg" "pack_be 4 (int (length p)) = Inr pl"
    "m = INPUT_DOMAIN @ al @ a @ e @ co @ tg @ pl @ p"
    using assms(1) by (auto simp: input_message_parts)
  obtain al' tag' e' co' tg' pl' where 2: "pack_be 4 (int (length a')) = Inr al'" "role_tag r' = Inr tag'"
    "pack_be 8 ep' = Inr e'" "pack_be 8 c' = Inr co'" "pack_be 1 tag' = Inr tg'" "pack_be 4 (int (length p')) = Inr pl'"
    "m = INPUT_DOMAIN @ al' @ a' @ e' @ co' @ tg' @ pl' @ p'"
    using assms(2) by (auto simp: input_message_parts)
  note len = 1(1,3-6)[THEN pack_be_length] 2(1,3-6)[THEN pack_be_length]
  have eq: "al @ a @ e @ co @ tg @ pl @ p = al' @ a' @ e' @ co' @ tg' @ pl' @ p'"
    using 1(7) 2(7) by simp
  then have "al = al'" and r1: "a @ e @ co @ tg @ pl @ p = a' @ e' @ co' @ tg' @ pl' @ p'"
    using len by simp_all
  then have "length a = length a'" using pack_be_inj 1(1) 2(1) by fastforce
  with r1 have "a = a'" and r2: "e @ co @ tg @ pl @ p = e' @ co' @ tg' @ pl' @ p'" by simp_all
  from r2 have "e = e'" "co = co'" "tg = tg'" "p = p'" using len by simp_all
  moreover then have "tag = tag'" using pack_be_inj 1(5) 2(5) by blast
  ultimately show ?thesis
    using \<open>a = a'\<close> pack_be_inj [OF 1(3), of ep'] pack_be_inj [OF 1(4), of c'] 2 1(2) role_tag_inj by metis
qed

lemma input_message_domain: "input_message a ep c r p = Inr m \<Longrightarrow> take 16 m = INPUT_DOMAIN"
  by (auto simp: input_message_parts INPUT_DOMAIN_def)

section \<open>Lemmas on the signer\<close>

lemma sign_Inr_iff:
  "sign dumps ed role payload s = (Inr env, s') \<longleftrightarrow>
   (\<exists>key text msg. map_of (keys s) role = Some key \<and> payload_text dumps payload = Inr text \<and>
      input_message (audience s) (epoch s) (counter_of (counters s) role + 1) role text = Inr msg \<and>
      env = \<lparr>env_audience = audience s, env_epoch = epoch s, env_counter = counter_of (counters s) role + 1,
             env_role = role, env_payload = text, env_signature = to_hex (ed key msg)\<rparr> \<and>
      s' = s\<lparr>counters := dput role (counter_of (counters s) role + 1) (counters s)\<rparr>)"
  by (auto simp: sign_def Let_def split: option.splits sum.splits)

lemma sign_Inl_unchanged: "sign dumps ed role payload s = (Inl e, s') \<Longrightarrow> s' = s"
  by (auto simp: sign_def Let_def split: option.splits sum.splits)

lemma counter_of_dput [simp]: "counter_of (dput r n cs) r' = (if r = r' then n else counter_of cs r')"
  by (simp add: counter_of_def)

text \<open>The signer is an issuer of envelopes, one channel per role.\<close>

interpretation input_issuer: issuer
  "\<lambda>(role, payload). sign dumps ed role payload" "\<lambda>s. counter_of (counters s)" env_role env_counter
  for dumps ed
proof (unfold_locales, goal_cases)
  case (1 q s t s')
  then show ?case by (auto simp: sign_Inr_iff split: prod.splits)
next
  case (2 q s t s')
  then show ?case by (auto simp: sign_Inr_iff split: prod.splits)
next
  case (3 q s t s' c)
  then show ?case by (auto simp: sign_Inr_iff split: prod.splits)
next
  case (4 q s e s' c)
  then show ?case by (auto dest!: sign_Inl_unchanged split: prod.splits)
qed

lemma map_of_dict_of: "map_of (dict_of d ps) k = (case map_of (rev ps) k of None \<Rightarrow> map_of d k | Some v \<Rightarrow> Some v)"
  by (induction d ps rule: dict_of.induct) (auto simp: map_add_def split: option.splits)

lemma load_key_role: "load_key pub euid bk kp = Inr (r, k) \<Longrightarrow> r = fst kp"
  by (auto simp: load_key_def Let_def rbind_Inr_iff split: if_splits)

lemma rmap_load_key_roles: "rmap (load_key pub euid bk) kps = Inr ks \<Longrightarrow> map fst ks = map fst kps"
  by (induction kps arbitrary: ks) (auto simp: rbind_Inr_iff dest: load_key_role)

lemma trust_body_epoch: "trust_body loads text = Inr (a, n, d) \<Longrightarrow> 0 < n"
  by (auto simp: trust_body_def rbind_Inr_iff split: if_splits)

lemma signer_init_Inr:
  assumes "signer_init loads pub euid text state kps = Inr s"
  shows "map fst (keys s) = map fst kps" and "0 < epoch s"
    and "start_counters (epoch s) (keys s) kps state = Inr (counters s)"
proof -
  obtain aud ep bk ks cs where b: "trust_body loads text = Inr (aud, ep, bk)"
    and k: "rmap (load_key pub euid bk) kps = Inr ks" and c: "start_counters ep ks kps state = Inr cs"
    and s: "s = \<lparr>audience = aud, epoch = ep, keys = ks, counters = cs\<rparr>"
    using assms by (auto simp: signer_init_def rbind_Inr_iff)
  show "map fst (keys s) = map fst kps" using rmap_load_key_roles [OF k] s by simp
  show "0 < epoch s" using trust_body_epoch [OF b] s by simp
  show "start_counters (epoch s) (keys s) kps state = Inr (counters s)" using c s by simp
qed

lemma map_of_rev_distinct: "distinct (map fst xs) \<Longrightarrow> map_of (rev xs) = map_of xs"
  by (subst map_of_inject_set) (auto simp: rev_map [symmetric])

text \<open>A restored counter is the saved one, for every role the signer holds a key of.\<close>

lemma restore_counters_of:
  assumes "distinct (map fst saved)" and "r \<in> fst ` set ks"
  shows "counter_of (restore_counters ks (map (\<lambda>kp. (fst kp, 0)) kps) saved) r = counter_of saved r"
proof -
  let ?f = "filter (\<lambda>p. fst p \<in> fst ` set ks) saved"
  have "map_of (rev ?f) r = map_of ?f r"
    using assms(1) by (simp add: map_of_rev_distinct distinct_map_filter)
  also have "\<dots> = map_of saved r"
    using assms(2) by (induction saved) (auto simp: image_iff)
  finally have e: "map_of (rev ?f) r = map_of saved r" .
  have z: "counter_of (map (\<lambda>kp. (fst kp, 0)) kps) r = 0"
    by (auto simp: counter_of_def split: option.splits dest!: map_of_SomeD)
  show ?thesis
    using e z by (auto simp: restore_counters_def counter_of_def map_of_dict_of split: option.splits)
qed

lemma start_counters_epoch: "start_counters ep ks kps (Some (sep, saved)) = Inr cs \<Longrightarrow> sep \<le> ep"
  by (auto simp: start_counters_def Let_def split: if_splits)

lemma start_counters_keep:
  "start_counters ep ks kps (Some (ep, saved)) = Inr cs \<Longrightarrow> distinct (map fst saved) \<Longrightarrow> r \<in> fst ` set ks \<Longrightarrow>
   counter_of cs r = counter_of saved r"
  by (simp add: start_counters_def Let_def) (metis restore_counters_of)

end
