(* ===== verification/Controller_Permits.thy ===== *)
theory Controller_Permits
  imports Proposals Issuer Signing
begin

text \<open>
  Exact-action permits for the simulated controllers (\<^verbatim>\<open>ros/haetae_gate/controller_permits.py\<close>):
  the dual-clock deadline of an accepted world, the digest of a base command and of an arm
  trajectory, the explicit re-arm test and the permit signer. SHA-256 and Ed25519 are the
  parameters \<open>sha\<close> (the hexadecimal digest) and \<open>ed\<close> (the signature under the loaded key).
\<close>

definition PERMIT_DOMAIN :: string where
  "PERMIT_DOMAIN = ''haetae-controller-v1'' @ [CHR 0x00]"

definition IDLE :: string where
  "IDLE = replicate 64 (CHR ''0'')"

definition MAX_LEASE_NS :: int where
  "MAX_LEASE_NS = 200000000"

definition SIM_ORDERING_BACKDATE_NS :: int where
  "SIM_ORDERING_BACKDATE_NS = 10000000"

section \<open>The clock of the accepted world\<close>

record world_clock =
  wc_stamp_ns :: "int option"
  wc_wall_ns :: "int option"

definition world_clock_init :: world_clock where
  "world_clock_init = \<lparr>wc_stamp_ns = None, wc_wall_ns = None\<rparr>"

definition or_get :: "pyval \<Rightarrow> string \<Rightarrow> pyval res" where
  "or_get v k = rbind (dget v k) (\<lambda>x. Inr (or_empty x))"

text \<open>The stamp the engine reports for a world it accepted in this step.\<close>

definition accepted_stamp :: "pyval \<Rightarrow> pyval res" where
  "accepted_stamp step = rbind (or_get step ''outcome'') (\<lambda>o'.
     rbind (or_get o' ''world_updated'') (\<lambda>u. dget u ''stamp_ms''))"

text \<open>\<^verbatim>\<open>AcceptedWorldClock.observe\<close>\<close>

definition wc_observe :: "pyval \<Rightarrow> int \<Rightarrow> (world_clock, unit) meth" where
  "wc_observe step request_wall_ns =
     mbind (mlift (accepted_stamp step)) (\<lambda>v.
     (case as_int v of
        None \<Rightarrow> mret ()
      | Some ms \<Rightarrow>
          mwhen (0 \<le> ms)
            (mput (\<lambda>c. if wc_stamp_ns c = None \<or> the (wc_stamp_ns c) < ms * 1000000
                       then \<lparr>wc_stamp_ns = Some (ms * 1000000), wc_wall_ns = Some request_wall_ns\<rparr> else c))))"

text \<open>\<^verbatim>\<open>AcceptedWorldClock.remaining\<close>\<close>

definition wc_remaining :: "world_clock \<Rightarrow> int \<Rightarrow> int \<Rightarrow> int \<Rightarrow> int" where
  "wc_remaining c sim_ns wall_ns maximum_ns =
     (case (wc_stamp_ns c, wc_wall_ns c) of
        (Some st, Some wa) \<Rightarrow>
          if sim_ns < st \<or> wall_ns < wa then 0
          else max 0 (min (maximum_ns - (sim_ns - st)) (maximum_ns - (wall_ns - wa)))
      | _ \<Rightarrow> 0)"

section \<open>Digests\<close>

definition stamp_ns :: "stamp \<Rightarrow> int res" where
  "stamp_ns s =
     (if \<not> (0 \<le> sec s \<and> sec s < 2 ^ 31) \<or> \<not> (0 \<le> nanosec s \<and> nanosec s < 1000000000)
      then Inl (ValueError ''invalid ROS timestamp'')
      else Inr (sec s * 1000000000 + nanosec s))"

record command =
  cmd_twist :: twist
  cmd_stamp :: stamp
  cmd_frame :: string

definition twist_values :: "twist \<Rightarrow> float64 list" where
  "twist_values t = [lin_x t, lin_y t, lin_z t, ang_x t, ang_y t, ang_z t]"

text \<open>
  The stamp is any pair of integers here; the setter of the message type (rclpy, not modelled) refuses
  seconds outside 32 bits before the digest is computed.
\<close>

definition base_preimage :: "command \<Rightarrow> string res" where
  "base_preimage c =
     (let t = cmd_twist c in
      if \<not> list_all isfinite (twist_values t) \<or>
         \<not> (f_zero (lin_y t) \<and> f_zero (lin_z t) \<and> f_zero (ang_x t) \<and> f_zero (ang_y t))
      then Inl (ValueError ''unsupported base command'')
      else rbind (stamp_ns (cmd_stamp c)) (\<lambda>ns.
           rbind (pack_be 8 ns) (\<lambda>q.
           Inr (''base'' @ [CHR 0x00] @ q @ concat (map pack_d (twist_values t))))))"

definition base_digest :: "(string \<Rightarrow> string) \<Rightarrow> command \<Rightarrow> string res" where
  "base_digest sha c = rbind (base_preimage c) (\<lambda>raw. Inr (sha raw))"

definition ARM_NAMES :: "string list" where
  "ARM_NAMES = [''joint1'', ''joint2'', ''joint3'', ''joint4'']"

fun names_bytes :: "string list \<Rightarrow> string res" where
  "names_bytes [] = Inr []"
| "names_bytes (n # ns) =
     rbind (pack_be 4 (int (length n))) (\<lambda>l. rbind (names_bytes ns) (\<lambda>r. Inr (l @ n @ r)))"

text \<open>The points of a trajectory, with the strictly increasing durations the loop requires.\<close>

fun points_bytes :: "int \<Rightarrow> traj_point list \<Rightarrow> string res" where
  "points_bytes last_ns [] = Inr []"
| "points_bytes last_ns (p # ps) =
     rbind (stamp_ns (time_from_start p)) (\<lambda>duration.
     if length (positions p) \<noteq> 4 \<or> \<not> list_all isfinite (positions p) \<or> velocities p \<noteq> [] \<or>
        accelerations p \<noteq> [] \<or> effort p \<noteq> [] \<or> \<not> (last_ns < duration \<and> duration \<le> 1000000000)
     then Inl (ValueError ''unsupported arm point'')
     else rbind (pack_be 8 duration) (\<lambda>q.
          rbind (points_bytes duration ps) (\<lambda>r. Inr (q @ concat (map pack_d (positions p)) @ r))))"

definition arm_preimage :: "trajectory \<Rightarrow> string res" where
  "arm_preimage tr =
     (if joint_names tr \<noteq> ARM_NAMES \<or> \<not> (1 \<le> length (points tr) \<and> length (points tr) \<le> 16)
      then Inl (ValueError ''unsupported arm joints or point count'')
      else rbind (stamp_ns (tstamp tr)) (\<lambda>ns.
           rbind (pack_be 8 ns) (\<lambda>q.
           rbind (pack_be 4 (int (length (joint_names tr)))) (\<lambda>n.
           rbind (names_bytes (joint_names tr)) (\<lambda>nb.
           rbind (pack_be 4 (int (length (points tr)))) (\<lambda>m.
           rbind (points_bytes (- 1) (points tr)) (\<lambda>pb.
           Inr (''arm'' @ [CHR 0x00] @ q @ n @ nb @ m @ pb))))))))"

definition arm_digest :: "(string \<Rightarrow> string) \<Rightarrow> trajectory \<Rightarrow> string res" where
  "arm_digest sha tr = rbind (arm_preimage tr) (\<lambda>raw. Inr (sha raw))"

section \<open>Explicit re-arm\<close>

definition explicit_rearm :: "pyval \<Rightarrow> bool res" where
  "explicit_rearm step =
     rbind (or_get step ''status'') (\<lambda>status.
     rbind (or_get step ''outcome'') (\<lambda>o'.
     rbind (or_get o' ''decision'') (\<lambda>decision.
     rand [rbind (dget decision ''action'') (\<lambda>a. Inr (a = stop_action)),
           rbind (dget decision ''verdict'') (\<lambda>v. Inr (v = PStr ''yun'')),
           rbind (dget status ''armed'') (\<lambda>a. Inr (truthy a)),
           rbind (dget status ''active'') (\<lambda>a. Inr (a = PNone)),
           rbind (dget status ''mode'') (\<lambda>m. Inr (m = PStr ''normal'')),
           rbind (dget status ''arm_cancelling'') (\<lambda>c. Inr (\<not> truthy c))])))"

section \<open>The permit signer\<close>

record permit_signer =
  sim_backdate_ns :: int
  challenges :: "(string \<times> string) list"
  sequence :: "(string \<times> int) list"
  active_arm :: string
  admitted_arm :: string
  goal_sequence :: int
  admitted_goal_sequence :: int
  admitted_arm_holding :: bool
  admitted_arm_expired :: bool

text \<open>\<^verbatim>\<open>PermitSigner.__init__\<close>, without the loading of its key.\<close>

definition permit_signer_init :: "int \<Rightarrow> permit_signer res" where
  "permit_signer_init backdate =
     (if \<not> (0 \<le> backdate \<and> backdate < 50000000) then Inl (ValueError ''invalid conservative simulation backdate'')
      else Inr \<lparr>sim_backdate_ns = backdate, challenges = [], sequence = [(''base'', 0), (''arm'', 0)],
                active_arm = IDLE, admitted_arm = IDLE, goal_sequence = 0, admitted_goal_sequence = 0,
                admitted_arm_holding = True, admitted_arm_expired = False\<rparr>)"

definition mcheck :: "bool \<Rightarrow> exn \<Rightarrow> ('s, unit) meth" where
  "mcheck b e = (if b then mret () else mraise e)"

text \<open>\<^verbatim>\<open>PermitSigner.observe\<close>: each field is stored as soon as it is checked.\<close>

definition ps_observe :: "string \<Rightarrow> pyval \<Rightarrow> (permit_signer, unit) meth" where
  "ps_observe target value =
     mbind (mlift (rbind (dget_or value ''nonce'' (PStr [])) need_str)) (\<lambda>nonce.
     mthen (mcheck (is_hex 32 nonce) (ValueError ''invalid controller nonce''))
     (mthen (mput (\<lambda>s. s\<lparr>challenges := dput target nonce (challenges s)\<rparr>))
     (mwhen (target = ''arm'')
       (mbind (mlift (rbind (dget_or value ''active_digest'' (PStr IDLE)) need_str)) (\<lambda>digest.
        mthen (mcheck (is_hex 64 digest) (ValueError ''invalid admitted arm digest''))
        (mthen (mput (\<lambda>s. s\<lparr>admitted_arm := digest\<rparr>))
        (mbind (mlift (dget_or value ''goal_sequence'' (PInt 0))) (\<lambda>sv.
        mbind (mlift (case as_int sv of
            Some n \<Rightarrow> if 0 \<le> n \<and> n < 2 ^ 63 then Inr n else Inl (ValueError ''invalid admitted goal sequence'')
          | None \<Rightarrow> Inl (ValueError ''invalid admitted goal sequence''))) (\<lambda>n.
        mthen (mput (\<lambda>s. s\<lparr>admitted_goal_sequence := n\<rparr>))
        (mbind (mlift (dget_or value ''holding'' (PBool True))) (\<lambda>hv.
        mthen (mcheck (is_bool hv) (ValueError ''invalid admitted arm holding state''))
        (mthen (mput (\<lambda>s. s\<lparr>admitted_arm_holding := truthy hv\<rparr>))
        (mbind (mlift (dget value ''reason'')) (\<lambda>rv.
         mput (\<lambda>s. s\<lparr>admitted_arm_expired := truthy hv \<and> rv = PStr ''expired''\<rparr>)))))))))))))))"

text \<open>A signed permit before it is rendered as the wire text of \<^verbatim>\<open>sign\<close>.\<close>

record permit =
  p_target :: string
  p_kind :: string
  p_nonce :: string
  p_seq :: int
  p_sim :: int
  p_wall :: int
  p_sim_end :: int
  p_wall_end :: int
  p_digest :: string

definition permit_body :: "permit \<Rightarrow> string" where
  "permit_body p = join_with (CHR '':'') [''v1'', p_target p @ ''-'' @ p_kind p, p_nonce p, show_int (p_seq p),
     show_int (p_sim p), show_int (p_wall p), show_int (p_sim_end p), show_int (p_wall_end p), p_digest p]"

definition permit_token :: "(string \<Rightarrow> string) \<Rightarrow> permit \<Rightarrow> string" where
  "permit_token ed p = permit_body p @ '':'' @ to_hex (ed (PERMIT_DOMAIN @ permit_body p))"

text \<open>\<^verbatim>\<open>PermitSigner.sign\<close>\<close>

definition ps_sign :: "string \<Rightarrow> string \<Rightarrow> string \<Rightarrow> int \<Rightarrow> int \<Rightarrow> int \<Rightarrow> (permit_signer, permit) meth" where
  "ps_sign target kind digest sim_ns remaining_ns wall_ns s =
     (case map_of (challenges s) target of
        None \<Rightarrow> (Inl (ValueError ''controller challenge unavailable''), s)
      | Some nonce \<Rightarrow>
          (let remaining = min MAX_LEASE_NS remaining_ns in
           if remaining \<le> 0 then (Inl (ValueError ''controller authority expired''), s)
           else (case map_of (sequence s) target of
                   None \<Rightarrow> (Inl (KeyError target), s)
                 | Some n \<Rightarrow>
                     (let sim = max 0 (sim_ns - sim_backdate_ns s) in
                      (Inr \<lparr>p_target = target, p_kind = kind, p_nonce = nonce, p_seq = n + 1, p_sim = sim,
                            p_wall = wall_ns, p_sim_end = sim + remaining, p_wall_end = wall_ns + remaining,
                            p_digest = digest\<rparr>,
                       s\<lparr>sequence := dput target (n + 1) (sequence s)\<rparr>)))))"

section \<open>Lemmas on the world clock\<close>

lemma wc_remaining_le: "0 \<le> m \<Longrightarrow> 0 \<le> wc_remaining c sim wall m \<and> wc_remaining c sim wall m \<le> m"
  by (auto simp: wc_remaining_def split: option.splits)

lemma wc_remaining_deadline:
  "0 < wc_remaining c sim wall m \<Longrightarrow>
   \<exists>st wa. wc_stamp_ns c = Some st \<and> wc_wall_ns c = Some wa \<and> st \<le> sim \<and> wa \<le> wall \<and>
     sim + wc_remaining c sim wall m \<le> st + m \<and> wall + wc_remaining c sim wall m \<le> wa + m"
  by (auto simp: wc_remaining_def split: option.splits if_splits)

text \<open>The stamp an observation carries, if it is one the clock looks at.\<close>

definition usable_stamp :: "pyval \<Rightarrow> int option" where
  "usable_stamp step =
     (case accepted_stamp step of
        Inl _ \<Rightarrow> None
      | Inr v \<Rightarrow> (case as_int v of None \<Rightarrow> None | Some ms \<Rightarrow> if 0 \<le> ms then Some (ms * 1000000) else None))"

lemma wc_observe_eq:
  "snd (wc_observe step w c) =
     (case usable_stamp step of
        None \<Rightarrow> c
      | Some st \<Rightarrow> if wc_stamp_ns c = None \<or> the (wc_stamp_ns c) < st
                   then \<lparr>wc_stamp_ns = Some st, wc_wall_ns = Some w\<rparr> else c)"
  by (auto simp: wc_observe_def usable_stamp_def meth_defs split: sum.splits option.splits)

definition observe_all :: "(pyval \<times> int) list \<Rightarrow> world_clock \<Rightarrow> world_clock" where
  "observe_all obs c = foldl (\<lambda>c (step, w). snd (wc_observe step w c)) c obs"

text \<open>Observations that bring no newer stamp leave the clock as it is.\<close>

lemma observe_all_frozen:
  "wc_stamp_ns c = Some st \<Longrightarrow> \<forall>(step, w)\<in>set obs. \<forall>t. usable_stamp step = Some t \<longrightarrow> t \<le> st \<Longrightarrow>
   observe_all obs c = c"
  by (induction obs) (auto simp: observe_all_def wc_observe_eq split: option.splits)

section \<open>Lemmas on the digests\<close>

lemma stamp_ns_inj: "stamp_ns s = Inr n \<Longrightarrow> stamp_ns t = Inr n \<Longrightarrow> s = (t :: stamp)"
proof -
  assume "stamp_ns s = Inr n" "stamp_ns t = Inr n"
  then have "sec s * 1000000000 + nanosec s = sec t * 1000000000 + nanosec t"
    "0 \<le> nanosec s" "nanosec s < 1000000000" "0 \<le> nanosec t" "nanosec t < 1000000000"
    by (auto simp: stamp_ns_def split: if_splits)
  then have "sec s = sec t \<and> nanosec s = nanosec t"
    by (cases "sec s" "sec t" rule: linorder_cases) linarith+
  then show ?thesis by (simp add: stamp.equality)
qed

lemma concat_pack_d_inj:
  "length xs = length ys \<Longrightarrow> concat (map pack_d xs) @ r = concat (map pack_d ys) @ r' \<Longrightarrow> xs = ys \<and> r = r'"
  by (induction xs ys rule: list_induct2) (auto dest: pack_d_inj)

lemma base_preimage_inj:
  assumes "base_preimage c = Inr r" and "base_preimage d = Inr r"
  shows "cmd_twist c = cmd_twist d \<and> cmd_stamp c = cmd_stamp d"
proof -
  obtain ns q where c: "stamp_ns (cmd_stamp c) = Inr ns" "pack_be 8 ns = Inr q"
    "r = ''base'' @ [CHR 0x00] @ q @ concat (map pack_d (twist_values (cmd_twist c)))"
    using assms(1) by (auto simp: base_preimage_def Let_def rbind_Inr_iff split: if_splits)
  obtain ns' q' where d: "stamp_ns (cmd_stamp d) = Inr ns'" "pack_be 8 ns' = Inr q'"
    "r = ''base'' @ [CHR 0x00] @ q' @ concat (map pack_d (twist_values (cmd_twist d)))"
    using assms(2) by (auto simp: base_preimage_def Let_def rbind_Inr_iff split: if_splits)
  have "q = q'" and e: "concat (map pack_d (twist_values (cmd_twist c))) = concat (map pack_d (twist_values (cmd_twist d)))"
    using c(2,3) d(2,3) by (simp_all add: pack_be_length)
  then have "cmd_stamp c = cmd_stamp d" using pack_be_inj c d stamp_ns_inj by metis
  moreover have "twist_values (cmd_twist c) = twist_values (cmd_twist d)"
    using concat_pack_d_inj [of "twist_values (cmd_twist c)" "twist_values (cmd_twist d)" "[]" "[]"] e
    by (simp add: twist_values_def)
  ultimately show ?thesis by (simp add: twist_values_def twist.equality)
qed

lemma points_bytes_inj:
  assumes "length ps = length qs" "points_bytes a ps = Inr r" "points_bytes b qs = Inr r"
  shows "ps = qs"
  using assms
proof (induction ps qs arbitrary: a b r rule: list_induct2)
  case Nil
  then show ?case by simp
next
  case (Cons p ps q qs)
  obtain d k r1 where 1: "stamp_ns (time_from_start p) = Inr d" "pack_be 8 d = Inr k" "points_bytes d ps = Inr r1"
    "r = k @ concat (map pack_d (positions p)) @ r1"
    and p: "length (positions p) = 4" "velocities p = []" "accelerations p = []" "effort p = []"
    using Cons.prems(1) by (auto simp: rbind_Inr_iff split: if_splits)
  obtain d' k' r1' where 2: "stamp_ns (time_from_start q) = Inr d'" "pack_be 8 d' = Inr k'" "points_bytes d' qs = Inr r1'"
    "r = k' @ concat (map pack_d (positions q)) @ r1'"
    and q: "length (positions q) = 4" "velocities q = []" "accelerations q = []" "effort q = []"
    using Cons.prems(2) by (auto simp: rbind_Inr_iff split: if_splits)
  have "k = k'" and e: "concat (map pack_d (positions p)) @ r1 = concat (map pack_d (positions q)) @ r1'"
    using 1(2,4) 2(2,4) by (simp_all add: pack_be_length)
  from e p(1) q(1) have "positions p = positions q" "r1 = r1'" using concat_pack_d_inj by metis+
  moreover have "d = d'" using \<open>k = k'\<close> 1(2) 2(2) pack_be_inj by metis
  then have "time_from_start p = time_from_start q" using 1(1) 2(1) stamp_ns_inj by metis
  ultimately show ?case using p q Cons.IH 1(3) 2(3) by (auto intro!: traj_point.equality)
qed

lemma names_bytes_total: "\<exists>nb. names_bytes ARM_NAMES = Inr nb"
  by (simp add: ARM_NAMES_def pack_be_def)

lemma arm_preimage_inj:
  assumes "arm_preimage c = Inr r" and "arm_preimage d = Inr r"
  shows "joint_names c = joint_names d \<and> points c = points d \<and> tstamp c = tstamp d"
proof -
  obtain ns q n nb m pb where c: "joint_names c = ARM_NAMES" "stamp_ns (tstamp c) = Inr ns" "pack_be 8 ns = Inr q"
    "pack_be 4 (int (length ARM_NAMES)) = Inr n" "names_bytes ARM_NAMES = Inr nb"
    "pack_be 4 (int (length (points c))) = Inr m" "points_bytes (- 1) (points c) = Inr pb"
    "r = ''arm'' @ [CHR 0x00] @ q @ n @ nb @ m @ pb"
    using assms(1) by (auto simp: arm_preimage_def rbind_Inr_iff split: if_splits)
  obtain ns' q' m' pb' where d: "joint_names d = ARM_NAMES" "stamp_ns (tstamp d) = Inr ns'" "pack_be 8 ns' = Inr q'"
    "pack_be 4 (int (length (points d))) = Inr m'" "points_bytes (- 1) (points d) = Inr pb'"
    "r = ''arm'' @ [CHR 0x00] @ q' @ n @ nb @ m' @ pb'"
    using assms(2) c(4,5) by (auto simp: arm_preimage_def rbind_Inr_iff split: if_splits)
  have "q = q'" "m = m'" "pb = pb'"
    using c(3,6,8) d(3,4,6) by (simp_all add: pack_be_length)
  then have "length (points c) = length (points d)" using pack_be_inj [OF c(6), of "int (length (points d))"] d(4) by simp
  then have "points c = points d" using points_bytes_inj c(7) d(5) \<open>pb = pb'\<close> by blast
  moreover have "tstamp c = tstamp d" using pack_be_inj c(2,3) d(2,3) \<open>q = q'\<close> stamp_ns_inj by metis
  ultimately show ?thesis using c(1) d(1) by simp
qed

lemma preimages_disjoint: "base_preimage c = Inr r \<Longrightarrow> arm_preimage d \<noteq> Inr r"
  by (auto simp: base_preimage_def arm_preimage_def Let_def rbind_Inr_iff split: if_splits)

section \<open>Lemmas on the permit signer\<close>

lemma ps_sign_Inr_iff:
  "ps_sign target kind digest sim rem wall s = (Inr p, s') \<longleftrightarrow>
   (\<exists>nonce n. map_of (challenges s) target = Some nonce \<and> map_of (sequence s) target = Some n \<and> 0 < rem \<and>
      p = \<lparr>p_target = target, p_kind = kind, p_nonce = nonce, p_seq = n + 1, p_sim = max 0 (sim - sim_backdate_ns s),
           p_wall = wall, p_sim_end = max 0 (sim - sim_backdate_ns s) + min MAX_LEASE_NS rem,
           p_wall_end = wall + min MAX_LEASE_NS rem, p_digest = digest\<rparr> \<and>
      s' = s\<lparr>sequence := dput target (n + 1) (sequence s)\<rparr>)"
  by (auto simp: ps_sign_def Let_def MAX_LEASE_NS_def min_def split: option.splits)

lemma ps_sign_Inl: "ps_sign target kind digest sim rem wall s = (Inl e, s') \<Longrightarrow> s' = s"
  by (auto simp: ps_sign_def Let_def split: option.splits if_splits)

definition permit_level :: "permit_signer \<Rightarrow> string \<Rightarrow> int" where
  "permit_level s t = counter_of (sequence s) t"

interpretation permit_issuer: issuer
  "\<lambda>(target, kind, digest, sim, rem, wall). ps_sign target kind digest sim rem wall"
  permit_level p_target p_seq
proof (unfold_locales, goal_cases)
  case (1 q s t s')
  then show ?case by (auto simp: ps_sign_Inr_iff permit_level_def counter_of_def split: prod.splits)
next
  case (2 q s t s')
  then show ?case by (auto simp: ps_sign_Inr_iff permit_level_def counter_of_def split: prod.splits)
next
  case (3 q s t s' c)
  then show ?case by (auto simp: ps_sign_Inr_iff permit_level_def counter_of_def split: prod.splits)
next
  case (4 q s e s' c)
  then show ?case by (auto dest!: ps_sign_Inl split: prod.splits)
qed

text \<open>A permit lives inside the authority it was signed from, on both clocks.\<close>

lemma ps_sign_within:
  assumes "ps_sign target kind digest sim rem wall s = (Inr p, s')" and "0 \<le> sim_backdate_ns s" and "0 \<le> sim"
  shows "p_wall p = wall" "p_wall_end p \<le> wall + rem" "p_wall_end p \<le> wall + MAX_LEASE_NS" "wall < p_wall_end p"
    "p_sim p \<le> sim" "p_sim_end p \<le> sim + rem" "p_sim_end p \<le> sim + MAX_LEASE_NS" "p_sim p < p_sim_end p"
  using assms by (auto simp: ps_sign_Inr_iff MAX_LEASE_NS_def)

end
