(* ===== verification/Bridge.thy ===== *)
theory Bridge
  imports Bytes
begin

text \<open>
  The bounded JSONL bridge to the Rust gate process (\<^verbatim>\<open>ros/haetae_gate/bridge.py\<close>): the
  freshness predicates every actuation passes, the request that revokes an expired actuation,
  and the framed request/response exchange over the child's pipes. A response (\<^verbatim>\<open>step\<close>) is
  the value \<^verbatim>\<open>json.loads\<close> produced; elapsed times are exact rationals.
\<close>

section \<open>Reading a step\<close>

definition cmd_field :: "pyval \<Rightarrow> string \<Rightarrow> pyval res" where
  "cmd_field step k = rbind (dix step ''cmd'') (\<lambda>c. dix c k)"

definition status_of :: "pyval \<Rightarrow> pyval res" where
  "status_of step = rbind (dget step ''status'') (\<lambda>s. Inr (or_empty s))"

text \<open>\<^verbatim>\<open>f"{q:.1f}"\<close> for a nonnegative value.\<close>

definition fmt1 :: "rat \<Rightarrow> string" where
  "fmt1 q = (let n = round_half_even (q * 10) in show_int (n div 10) @ ''.'' @ show_int (n mod 10))"

section \<open>Freshness\<close>

text \<open>\<^verbatim>\<open>lease_renewable\<close>\<close>

definition lease_renewable :: "pyval \<Rightarrow> rat \<Rightarrow> int \<Rightarrow> int \<Rightarrow> bool res" where
  "lease_renewable step elapsed world_max_age max_response =
     rbind (status_of step) (\<lambda>status.
     rbind (dget status ''world_age_ms'') (\<lambda>age.
     rand [rbind (dget status ''mode'') (\<lambda>m. Inr (m = PStr ''normal'')),
           rbind (dget_or status ''arm_cancelling'' (PBool False)) (\<lambda>c. Inr (\<not> truthy c)),
           rbind (dget status ''recorder_ok'') (\<lambda>r. Inr (r = PBool True)),
           rbind (dget status ''state_ok'') (\<lambda>r. Inr (r = PBool True)),
           Inr (case as_int age of None \<Rightarrow> False
                | Some a \<Rightarrow> 0 \<le> a \<and> 0 \<le> elapsed \<and> elapsed < of_int max_response \<and>
                    of_int a + elapsed < of_int world_max_age)]))"

text \<open>A step that makes a controller move: a nonzero velocity or an arm goal.\<close>

definition actuating :: "pyval \<Rightarrow> bool res" where
  "actuating step =
     rbind (dix step ''cmd'') (\<lambda>cmd.
     rbind (dget step ''arm'') (\<lambda>arm.
     ror [rbind (dix cmd ''linear'') (\<lambda>v. Inr (\<not> eq_int v 0)),
          rbind (dix cmd ''angular'') (\<lambda>v. Inr (\<not> eq_int v 0)),
          Inr (has_key ''execute'' arm)]))"

definition stale :: "string \<Rightarrow> string" where
  "stale why = ''stale actuation response: '' @ why"

text \<open>The age checks of an actuating response, on the raw status fields.\<close>

definition fresh_window :: "pyval \<Rightarrow> pyval \<Rightarrow> rat \<Rightarrow> int \<Rightarrow> int \<Rightarrow> int \<Rightarrow> unit res" where
  "fresh_window ev av elapsed now_ms world_max_age max_response =
     (case (as_int ev, as_int av) of
        (Some expires, Some world_age) \<Rightarrow>
          if elapsed < 0 then Inl (StaleActuation (stale ''ROS clock moved backwards''))
          else if elapsed \<ge> of_int max_response
            then Inl (StaleActuation (stale (''elapsed '' @ fmt1 elapsed @ '' ms >= '' @ show_int max_response @ '' ms'')))
          else if now_ms \<ge> expires then Inl (ExpiredActuation (stale ''proposal expired''))
          else if of_int world_age + elapsed \<ge> of_int world_max_age
            then Inl (ExpiredActuation (stale ''world expired''))
          else Inr ()
      | _ \<Rightarrow> Inl (StaleActuation (stale ''missing expiry or world age'')))"

text \<open>\<^verbatim>\<open>require_fresh_actuation\<close>\<close>

definition require_fresh_actuation :: "pyval \<Rightarrow> rat \<Rightarrow> int \<Rightarrow> int \<Rightarrow> int \<Rightarrow> unit res" where
  "require_fresh_actuation step elapsed now_ms world_max_age max_response =
     rbind (actuating step) (\<lambda>act.
     if \<not> act then Inr ()
     else rbind (status_of step) (\<lambda>status.
          rbind (dget status ''active_expires_ms'') (\<lambda>ev.
          rbind (dget status ''world_age_ms'') (\<lambda>av.
          fresh_window ev av elapsed now_ms world_max_age max_response))))"

section \<open>Revoking an expired actuation\<close>

text \<open>The answer that does not prove a stopped and disarmed engine.\<close>

definition not_disarmed :: "pyval \<Rightarrow> bool res" where
  "not_disarmed step =
     rbind (dget step ''arm'') (\<lambda>arm.
     ror [rbind (cmd_field step ''linear'') (\<lambda>v. Inr (\<not> eq_int v 0)),
          rbind (cmd_field step ''angular'') (\<lambda>v. Inr (\<not> eq_int v 0)),
          Inr (arm \<noteq> PNone \<and> arm \<noteq> PStr ''cancel''),
          rbind (dget_or step ''status'' (PDict [])) (\<lambda>s. rbind (dget s ''armed'') (\<lambda>a. Inr (a \<noteq> PList []))),
          rbind (dget_or step ''status'' (PDict [])) (\<lambda>s. rbind (str_in ''active'' s) (\<lambda>b. Inr (\<not> b))),
          rbind (dix step ''status'') (\<lambda>s. rbind (dix s ''active'') (\<lambda>a. Inr (a \<noteq> PNone)))])"

definition reject_request :: "int \<Rightarrow> string \<Rightarrow> pyval" where
  "reject_request now_ms reason = PDict [(''k'', PStr ''reject''), (''t'', PInt now_ms), (''reason'', PStr reason)]"

text \<open>\<^verbatim>\<open>reject_expired_actuation\<close>, the check of the engine's answer to the reject request.\<close>

definition check_rejection :: "pyval \<Rightarrow> pyval res" where
  "check_rejection step =
     rbind (not_disarmed step) (\<lambda>b.
     if b then Inl (BridgeFailure ''expiry rejection did not stop and disarm the engine'') else Inr step)"

section \<open>The framed exchange\<close>

text \<open>
  What the loop of \<^verbatim>\<open>Bridge.request\<close> sees of the pipe before its deadline: chunks of bytes (an
  empty one is the end of the stream), or no more data in time.
\<close>

datatype read_event = Timeout | Chunk string

definition MIB :: nat where
  "MIB = 1024 * 1024"

fun read_loop :: "string \<Rightarrow> read_event list \<Rightarrow> unit res \<times> string" where
  "read_loop buf evs =
     (if newline \<in> set buf then (Inr (), buf)
      else case evs of
        [] \<Rightarrow> (Inl (BridgeFailure ''gate response timeout''), buf)
      | Timeout # _ \<Rightarrow> (Inl (BridgeFailure ''gate response timeout''), buf)
      | Chunk c # rest \<Rightarrow>
          if c = [] then (Inl (BridgeFailure ''gate output closed''), buf)
          else if length (buf @ c) > MIB then (Inl (BridgeFailure ''gate response exceeds 1 MiB''), buf @ c)
          else read_loop (buf @ c) rest)"

declare read_loop.simps [simp del]

text \<open>One velocity component of the answer: a number, not a bool, finite.\<close>

definition velocity_bad :: "pyval \<Rightarrow> bool res" where
  "velocity_bad v =
     (case v of
        PInt n \<Rightarrow> rbind (double_of_rat (of_int n)) (\<lambda>_. Inr False)
      | PFloat w \<Rightarrow> Inr (\<not> isfinite w)
      | _ \<Rightarrow> Inr True)"

definition parse_answer :: "(string \<Rightarrow> pyval res) \<Rightarrow> string \<Rightarrow> pyval res" where
  "parse_answer loads line =
     (case rbind (loads line) (\<lambda>answer.
           rbind (dix answer ''cmd'') (\<lambda>cmd.
           rbind (ror [rbind (dix cmd ''linear'') velocity_bad, rbind (dix cmd ''angular'') velocity_bad]) (\<lambda>b.
           if b then Inl (ValueError ''invalid velocity response'') else Inr answer))) of
        Inl e \<Rightarrow> if is_ValueError e \<or> is_KeyError e \<or> e = TypeError
                 then Inl (BridgeFailure ''malformed gate response'') else Inl e
      | r \<Rightarrow> r)"

text \<open>
  \<^verbatim>\<open>Bridge.request\<close> on the receive buffer: \<open>alive\<close> and \<open>writable\<close> say what \<^verbatim>\<open>poll\<close> and the write to
  the child's stdin do.
\<close>

definition request ::
    "(string \<Rightarrow> pyval res) \<Rightarrow> (pyval \<Rightarrow> string res) \<Rightarrow> bool \<Rightarrow> bool \<Rightarrow> read_event list \<Rightarrow> pyval \<Rightarrow> (string, pyval) meth" where
  "request loads dumps alive writable evs message buf =
     (case dumps message of
        Inl e \<Rightarrow> (Inl e, buf)
      | Inr text \<Rightarrow>
          if length (text @ [newline]) > MIB then (Inl (BridgeFailure ''request exceeds 1 MiB''), buf)
          else if \<not> alive then (Inl (BridgeFailure ''gate process exited''), buf)
          else if \<not> writable then (Inl (BridgeFailure ''gate input closed''), buf)
          else (case read_loop buf evs of
                  (Inl e, buf') \<Rightarrow> (Inl e, buf')
                | (Inr _, buf') \<Rightarrow> (parse_answer loads (line_of buf'), rest_of buf')))"

section \<open>Lemmas\<close>

lemma or_empty_get: "dget (or_empty s) k = Inr v \<Longrightarrow> v \<noteq> PNone \<Longrightarrow> dget s k = Inr v"
  by (auto simp: or_empty_def split: if_splits)

lemma lease_renewable_iff:
  "lease_renewable step el wmax mr = Inr True \<longleftrightarrow>
   (\<exists>st a. status_of step = Inr st \<and> dget st ''world_age_ms'' = Inr (PInt a) \<and>
      dget st ''mode'' = Inr (PStr ''normal'') \<and>
      (\<exists>c. dget_or st ''arm_cancelling'' (PBool False) = Inr c \<and> \<not> truthy c) \<and>
      dget st ''recorder_ok'' = Inr (PBool True) \<and> dget st ''state_ok'' = Inr (PBool True) \<and>
      0 \<le> a \<and> 0 \<le> el \<and> el < of_int mr \<and> of_int a + el < of_int wmax)"
  unfolding lease_renewable_def
  by (auto simp: rbind_Inr_iff rand_True_iff split: option.splits)

lemma fresh_window_iff:
  "fresh_window ev av el now wmax mr = Inr () \<longleftrightarrow>
   (\<exists>ex age. ev = PInt ex \<and> av = PInt age \<and> 0 \<le> el \<and> el < of_int mr \<and> now < ex \<and> of_int age + el < of_int wmax)"
  by (cases ev; cases av) (auto simp: fresh_window_def)

lemma fresh_window_error: "fresh_window ev av el now wmax mr = Inl e \<Longrightarrow> is_StaleActuation e"
  by (auto simp: fresh_window_def split: option.splits if_splits)

lemma require_fresh_iff:
  "require_fresh_actuation step el now wmax mr = Inr () \<longleftrightarrow>
   actuating step = Inr False \<or>
   (actuating step = Inr True \<and> (\<exists>st ex age. status_of step = Inr st \<and>
      dget st ''active_expires_ms'' = Inr (PInt ex) \<and> dget st ''world_age_ms'' = Inr (PInt age) \<and>
      0 \<le> el \<and> el < of_int mr \<and> now < ex \<and> of_int age + el < of_int wmax))"
proof -
  have 1: "require_fresh_actuation step el now wmax mr = Inr ()" if "actuating step = Inr False"
    using that by (simp add: require_fresh_actuation_def)
  have 2: "require_fresh_actuation step el now wmax mr \<noteq> Inr ()" if "actuating step = Inl e" for e
    using that by (simp add: require_fresh_actuation_def)
  have 3: "require_fresh_actuation step el now wmax mr = Inr () \<longleftrightarrow>
      (\<exists>st ex age. status_of step = Inr st \<and> dget st ''active_expires_ms'' = Inr (PInt ex) \<and>
         dget st ''world_age_ms'' = Inr (PInt age) \<and> 0 \<le> el \<and> el < of_int mr \<and> now < ex \<and> of_int age + el < of_int wmax)"
    if "actuating step = Inr True"
    using that by (auto simp: require_fresh_actuation_def rbind_Inr_iff fresh_window_iff)
  show ?thesis
  proof (cases "actuating step")
    case (Inl e)
    with 2 show ?thesis by auto
  next
    case (Inr b)
    with 1 3 show ?thesis by (cases b) auto
  qed
qed

lemma actuating_False_zero:
  "actuating step = Inr False \<longleftrightarrow>
   (\<exists>c l a arm. dix step ''cmd'' = Inr c \<and> dget step ''arm'' = Inr arm \<and> dix c ''linear'' = Inr l \<and> dix c ''angular'' = Inr a \<and>
      eq_int l 0 \<and> eq_int a 0 \<and> \<not> has_key ''execute'' arm)"
  by (auto simp: actuating_def rbind_Inr_iff ror_False_iff)

lemma check_rejection_Inr:
  "check_rejection step = Inr s \<Longrightarrow> s = step \<and> actuating step = Inr False"
proof -
  assume "check_rejection step = Inr s"
  then have s: "s = step" and nd: "not_disarmed step = Inr False"
    by (auto simp: check_rejection_def rbind_Inr_iff split: if_splits)
  then show ?thesis
    by (auto simp: not_disarmed_def actuating_False_zero rbind_Inr_iff ror_False_iff cmd_field_def)
qed

lemma read_loop_Inr: "read_loop buf evs = (Inr u, buf') \<Longrightarrow> newline \<in> set buf'"
proof (induction buf evs rule: read_loop.induct)
  case (1 buf evs)
  then show ?case
    by (subst (asm) (2) read_loop.simps) (auto split: if_splits list.splits read_event.splits)
qed

text \<open>Reading is independent of how the stream was cut into chunks.\<close>

lemma read_loop_chunks:
  assumes "newline \<notin> set buf" and "\<forall>c\<in>set cs. c \<noteq> [] \<and> newline \<notin> set c" and "c0 \<noteq> []" and "newline \<in> set c0"
    and "length (buf @ concat cs @ c0) \<le> MIB"
  shows "read_loop buf (map Chunk cs @ Chunk c0 # evs) = (Inr (), buf @ concat cs @ c0)"
  using assms
proof (induction cs arbitrary: buf)
  case Nil
  then show ?case
    by (subst read_loop.simps) (simp, subst read_loop.simps, simp)
next
  case (Cons c cs)
  then have "read_loop (buf @ c) (map Chunk cs @ Chunk c0 # evs) = (Inr (), (buf @ c) @ concat cs @ c0)"
    by (intro Cons.IH) auto
  with Cons.prems show ?case by (subst read_loop.simps) simp
qed

lemma parse_answer_Inr:
  "parse_answer loads line = Inr ans \<Longrightarrow> loads line = Inr ans \<and>
   (\<exists>c l a. dix ans ''cmd'' = Inr c \<and> dix c ''linear'' = Inr l \<and> dix c ''angular'' = Inr a \<and>
      velocity_bad l = Inr False \<and> velocity_bad a = Inr False)"
  by (auto simp: parse_answer_def rbind_Inr_iff ror_False_iff split: sum.splits if_splits)

lemma velocity_ok: "velocity_bad v = Inr False \<Longrightarrow> (\<exists>n. v = PInt n) \<or> (\<exists>w. v = PFloat w \<and> isfinite w)"
  by (auto simp: velocity_bad_def split: pyval.splits)

end
