(* ===== verification/Source_Node.thy ===== *)
theory Source_Node
  imports Proposals Signing
begin

text \<open>
  The isolated role signer (\<^verbatim>\<open>ros/haetae_gate/source_node.py\<close>). Its state is the in-memory
  signer, the durable counter file, the envelopes published so far (oldest first), the
  proposal sequence number and the record of diagnostic log lines. The ROS subscriptions are
  the steps of \<open>source_step\<close>, together with a restart of the process from the counter file;
  a restart may happen between any two of them, and a reservation may fail before or after
  the file was replaced.
\<close>

section \<open>State and construction\<close>

record source =
  src_role :: string
  src_signer :: signer
  src_file :: counter_file
  src_published :: "envelope list"
  src_seq :: int
  src_joints :: "string list"
  src_ttl :: int
  src_log :: "(pyval \<times> int) list"

text \<open>What the node uses of its platform: \<^verbatim>\<open>json\<close>, Ed25519, the effective user id.\<close>

record platform =
  json_loads :: "string \<Rightarrow> pyval res"
  json_dumps :: "pyval \<Rightarrow> string res"
  ed_public :: "string \<Rightarrow> string"
  ed_sign :: "string \<Rightarrow> string \<Rightarrow> string"
  euid :: int

definition expected_roles :: "string \<Rightarrow> string set" where
  "expected_roles r = (if r = ''world'' then {''world'', ''fault''} else {''vla''})"

text \<open>\<^verbatim>\<open>SourceSigner.__init__\<close>, given the parameters of the node and the counter file it finds.\<close>

definition source_init ::
    "platform \<Rightarrow> string \<Rightarrow> int \<Rightarrow> string \<Rightarrow> (string \<times> seed_file) list \<Rightarrow> string list
       \<Rightarrow> counter_file \<Rightarrow> source res" where
  "source_init pf role ttl trust key_paths joints file =
     (if ttl \<noteq> 0 \<and> ttl \<noteq> 1000 then Inl (ValueError ''unsupported fixed arm lease'')
      else if role \<notin> {''world'', ''vla''} \<or> fst ` set key_paths \<noteq> expected_roles role
        then Inl (ValueError ''source signer must own exactly its role keys'')
      else rbind (signer_init (json_loads pf) (ed_public pf) (euid pf) trust file key_paths) (\<lambda>sg.
           Inr \<lparr>src_role = role, src_signer = sg, src_file = file, src_published = [],
                src_seq = counter_of (counters sg) ''vla'', src_joints = joints, src_ttl = ttl, src_log = []\<rparr>))"

section \<open>Callbacks\<close>

definition on_signer :: "(signer, 'a) meth \<Rightarrow> (source, 'a) meth" where
  "on_signer m s = (case m (src_signer s) of (r, sg) \<Rightarrow> (r, s\<lparr>src_signer := sg\<rparr>))"

definition on_file :: "(counter_file, 'a) meth \<Rightarrow> (source, 'a) meth" where
  "on_file m s = (case m (src_file s) of (r, f) \<Rightarrow> (r, s\<lparr>src_file := f\<rparr>))"

text \<open>The stop diagnostic after publication, \<^verbatim>\<open>payload.get("action", {}).get("type") == "stop"\<close>.\<close>

definition log_stop :: "string \<Rightarrow> pyval \<Rightarrow> envelope \<Rightarrow> (source, unit) meth" where
  "log_stop role payload env =
     mwhen (role = ''vla'')
       (mbind (mlift (rbind (dget_or payload ''action'' (PDict [])) (\<lambda>a. dget a ''type''))) (\<lambda>t.
        mwhen (t = PStr ''stop'')
          (mbind (mlift (dix payload ''id'')) (\<lambda>i.
           mput (\<lambda>s. s\<lparr>src_log := src_log s @ [(i, env_counter env)]\<rparr>)))))"

text \<open>\<^verbatim>\<open>send\<close>: sign, reserve the counters durably, then publish.\<close>

definition send :: "platform \<Rightarrow> reserve_outcome \<Rightarrow> string \<Rightarrow> pyval \<Rightarrow> (source, unit) meth" where
  "send pf outcome role payload =
     mbind (on_signer (sign (json_dumps pf) (ed_sign pf) role payload)) (\<lambda>env.
     mbind (mget (\<lambda>s. (epoch (src_signer s), counters (src_signer s)))) (\<lambda>(ep, cs).
     mthen (on_file (reserve outcome ep cs))
     (mthen (mput (\<lambda>s. s\<lparr>src_published := src_published s @ [env]\<rparr>))
            (log_stop role payload env))))"

definition proposal_val :: "int \<Rightarrow> int \<Rightarrow> pyval \<Rightarrow> (string \<times> pyval) list option \<Rightarrow> pyval" where
  "proposal_val sq stamp action binding =
     PDict ([(''id'', PInt sq), (''source'', PStr ''vla''), (''timestamp_ms'', PInt stamp), (''action'', action)]
       @ (case binding of Some b \<Rightarrow> (if dget action ''type'' \<noteq> Inr (PStr ''stop'') then [(''semantic'', PDict b)] else [])
          | None \<Rightarrow> []))"

text \<open>The parsed action and binding; a malformed proposal becomes a stop without binding.\<close>

definition parse_proposal ::
    "platform \<Rightarrow> pyval res \<Rightarrow> string \<Rightarrow> (pyval \<times> (string \<times> pyval) list option) res" where
  "parse_proposal pf parsed sem_frame =
     (case rbind parsed (\<lambda>a. rbind (semantic_binding (json_loads pf) sem_frame) (\<lambda>b. Inr (a, b))) of
        Inl (InvalidProposal m) \<Rightarrow> Inr (stop_action, None)
      | r \<Rightarrow> r)"

text \<open>\<^verbatim>\<open>propose\<close>: \<open>now_ns\<close> is the ROS clock reading of the callback.\<close>

definition propose ::
    "platform \<Rightarrow> reserve_outcome \<Rightarrow> int \<Rightarrow> pyval res \<Rightarrow> string \<Rightarrow> (source, unit) meth" where
  "propose pf outcome now_ns parsed sem_frame =
     (let stamp = now_ns div 1000000 in
      if stamp \<le> 0 then mret ()
      else mbind (mlift (parse_proposal pf parsed sem_frame)) (\<lambda>(action, binding).
           mthen (mput (\<lambda>s. s\<lparr>src_seq := src_seq s + 1\<rparr>))
           (mbind (mget src_seq) (\<lambda>sq. send pf outcome ''vla'' (proposal_val sq stamp action binding)))))"

definition propose_base :: "platform \<Rightarrow> reserve_outcome \<Rightarrow> int \<Rightarrow> twist \<Rightarrow> (source, unit) meth" where
  "propose_base pf outcome now_ns msg = propose pf outcome now_ns (base_action msg 200) []"

definition propose_arm :: "platform \<Rightarrow> reserve_outcome \<Rightarrow> int \<Rightarrow> trajectory \<Rightarrow> (source, unit) meth" where
  "propose_arm pf outcome now_ns msg s =
     propose pf outcome now_ns (arm_action msg (src_joints s) (src_ttl s)) (frame_id msg) s"

section \<open>Runs\<close>

text \<open>The key table of a node is a dict, so its roles are distinct.\<close>

inductive source_step :: "platform \<Rightarrow> source \<Rightarrow> source \<Rightarrow> bool" for pf where
  on_world: "src_role s = ''world'' \<Longrightarrow> r \<in> {''world'', ''fault''} \<Longrightarrow>
     source_step pf s (snd (send pf outcome r (PStr data) s))"
| on_base: "src_role s = ''vla'' \<Longrightarrow> source_step pf s (snd (propose_base pf outcome now_ns msg s))"
| on_arm: "src_role s = ''vla'' \<Longrightarrow> source_step pf s (snd (propose_arm pf outcome now_ns tr s))"
| restart: "distinct (map fst kps) \<Longrightarrow> source_init pf (src_role s) ttl trust kps joints (src_file s) = Inr s' \<Longrightarrow>
     source_step pf s (s'\<lparr>src_published := src_published s\<rparr>)"

inductive source_reachable :: "platform \<Rightarrow> source \<Rightarrow> bool" for pf where
  boot: "distinct (map fst kps) \<Longrightarrow> source_init pf role ttl trust kps joints None = Inr s \<Longrightarrow> source_reachable pf s"
| step: "source_reachable pf s \<Longrightarrow> source_step pf s t \<Longrightarrow> source_reachable pf t"

section \<open>The reservation invariant\<close>

text \<open>
  Every published envelope is covered by the durable file, and the file is covered by the
  memory: a later epoch, or the same epoch and a counter at least as large.
\<close>

definition covered :: "counter_file \<Rightarrow> envelope \<Rightarrow> bool" where
  "covered f e = (case f of None \<Rightarrow> False
     | Some (ep, cs) \<Rightarrow> env_epoch e < ep \<or> env_epoch e = ep \<and> env_counter e \<le> counter_of cs (env_role e))"

definition file_le :: "counter_file \<Rightarrow> signer \<Rightarrow> bool" where
  "file_le f sg = (case f of None \<Rightarrow> True
     | Some (ep, cs) \<Rightarrow> distinct (map fst cs) \<and> ep \<le> epoch sg \<and>
         (ep = epoch sg \<longrightarrow> (\<forall>r\<in>fst ` set (keys sg). counter_of cs r \<le> counter_of (counters sg) r)))"

definition env_before :: "envelope \<Rightarrow> envelope \<Rightarrow> bool" where
  "env_before a b \<longleftrightarrow> env_epoch a < env_epoch b \<or>
     env_epoch a = env_epoch b \<and> (env_role a = env_role b \<longrightarrow> env_counter a < env_counter b)"

definition source_inv :: "source \<Rightarrow> bool" where
  "source_inv s \<longleftrightarrow>
     src_role s \<in> {''world'', ''vla''} \<and> fst ` set (keys (src_signer s)) = expected_roles (src_role s) \<and>
     distinct (map fst (counters (src_signer s))) \<and> file_le (src_file s) (src_signer s) \<and>
     (\<forall>e\<in>set (src_published s). env_role e \<in> expected_roles (src_role s) \<and> covered (src_file s) e) \<and>
     sorted_wrt env_before (src_published s)"

lemma keys_dput: "fst ` set (dput k v d) = insert k (fst ` set d)"
  by (induction k v d rule: dput.induct) auto

lemma distinct_dput: "distinct (map fst d) \<Longrightarrow> distinct (map fst (dput k v d))"
proof (induction d)
  case (Cons p d)
  then show ?case using keys_dput [of k v d] by (cases p) auto
qed simp

lemma distinct_dict_of: "distinct (map fst d) \<Longrightarrow> distinct (map fst (dict_of d ps))"
  by (induction d ps rule: dict_of.induct) (simp_all add: distinct_dput)

lemma start_counters_distinct:
  "start_counters ep ks kps f = Inr cs \<Longrightarrow> distinct (map fst kps) \<Longrightarrow> distinct (map fst cs)"
  by (auto simp: start_counters_def restore_counters_def Let_def comp_def distinct_dict_of
      split: option.splits if_splits)

lemma start_counters_file_le:
  assumes "start_counters (epoch sg) (keys sg) kps f = Inr (counters sg)" and "\<And>ep cs. f = Some (ep, cs) \<Longrightarrow> distinct (map fst cs)"
  shows "file_le f sg"
proof (cases f)
  case None
  then show ?thesis by (simp add: file_le_def)
next
  case (Some p)
  obtain ep cs where p: "p = (ep, cs)" by (cases p)
  with Some assms have "ep \<le> epoch sg" "distinct (map fst cs)" by (auto dest: start_counters_epoch)
  moreover have "counter_of cs r \<le> counter_of (counters sg) r" if "ep = epoch sg" "r \<in> fst ` set (keys sg)" for r
    using start_counters_keep [of ep "keys sg" kps cs "counters sg" r] that assms Some p by auto
  ultimately show ?thesis using Some p by (simp add: file_le_def)
qed

lemma source_init_Inr:
  assumes "source_init pf role ttl trust kps joints f = Inr s"
  shows "src_role s = role" "src_file s = f" "src_published s = []" "role \<in> {''world'', ''vla''}"
    "fst ` set (keys (src_signer s)) = expected_roles role"
    "start_counters (epoch (src_signer s)) (keys (src_signer s)) kps f = Inr (counters (src_signer s))"
proof -
  obtain sg where i: "signer_init (json_loads pf) (ed_public pf) (euid pf) trust f kps = Inr sg"
    and r: "role \<in> {''world'', ''vla''}" "fst ` set kps = expected_roles role"
    and s: "s = \<lparr>src_role = role, src_signer = sg, src_file = f, src_published = [],
                src_seq = counter_of (counters sg) ''vla'', src_joints = joints, src_ttl = ttl, src_log = []\<rparr>"
    using assms by (auto simp: source_init_def rbind_Inr_iff split: if_splits)
  show "src_role s = role" "src_file s = f" "src_published s = []" "role \<in> {''world'', ''vla''}"
    using s r by simp_all
  have "fst ` set (keys sg) = fst ` set kps" using signer_init_Inr(1) [OF i] by (metis list.set_map)
  with r s show "fst ` set (keys (src_signer s)) = expected_roles role" by simp
  show "start_counters (epoch (src_signer s)) (keys (src_signer s)) kps f = Inr (counters (src_signer s))"
    using signer_init_Inr(3) [OF i] s by simp
qed

lemma source_inv_restart:
  assumes "source_init pf role ttl trust kps joints f = Inr s'" and "distinct (map fst kps)"
    and "\<And>ep cs. f = Some (ep, cs) \<Longrightarrow> distinct (map fst cs)"
    and "\<forall>e\<in>set pub. env_role e \<in> expected_roles role \<and> covered f e" and "sorted_wrt env_before pub"
  shows "source_inv (s'\<lparr>src_published := pub\<rparr>)"
  using source_init_Inr [OF assms(1)] start_counters_distinct [OF _ assms(2)]
    start_counters_file_le [of "src_signer s'" kps f] assms(3-5)
  by (auto simp: source_inv_def)

lemma file_le_mono:
  assumes "file_le f sg" "epoch sg' = epoch sg" "keys sg' = keys sg"
    and "\<And>r. counter_of (counters sg) r \<le> counter_of (counters sg') r"
  shows "file_le f sg'"
  using assms(1,2,3) order_trans [OF _ assms(4)] unfolding file_le_def
  by (auto split: option.splits simp del: split_paired_All)

text \<open>The three effects of a send: the new counter, the new file, the publication.\<close>

lemma sign_step:
  assumes "source_inv s" and "on_signer (sign d ed role payload) s = (Inr env, s1)"
  shows "source_inv s1" and "role \<in> expected_roles (src_role s)" and "src_role s1 = src_role s"
    and "env_role env = role" and "env_epoch env = epoch (src_signer s1)"
    and "env_counter env = counter_of (counters (src_signer s1)) role"
    and "env_counter env > counter_of (counters (src_signer s)) role"
    and "src_published s1 = src_published s" and "src_file s1 = src_file s" and "epoch (src_signer s1) = epoch (src_signer s)"
proof -
  obtain sg where sg: "sign d ed role payload (src_signer s) = (Inr env, sg)" and s1: "s1 = s\<lparr>src_signer := sg\<rparr>"
    using assms(2) by (auto simp: on_signer_def split: prod.splits)
  note sg' = sg [unfolded sign_Inr_iff]
  have k: "role \<in> fst ` set (keys (src_signer s))" using sg' by (metis map_of_eq_None_iff option.distinct(1))
  with assms(1) show "role \<in> expected_roles (src_role s)" by (auto simp: source_inv_def)
  have "file_le (src_file s) (src_signer s)" using assms(1) by (simp add: source_inv_def)
  then have "file_le (src_file s) sg" by (rule file_le_mono) (use sg' in auto)
  moreover have "sg = (src_signer s)\<lparr>counters := dput role (counter_of (counters (src_signer s)) role + 1)
      (counters (src_signer s))\<rparr>"
    using sg' by blast
  ultimately show "source_inv s1" using assms(1) s1 by (simp add: source_inv_def distinct_dput)
qed (use assms(2) in \<open>auto simp: on_signer_def sign_Inr_iff split: prod.splits\<close>)

lemma file_le_self: "distinct (map fst (counters sg)) \<Longrightarrow> file_le (Some (epoch sg, counters sg)) sg"
  by (simp add: file_le_def)

lemma covered_mono:
  assumes "covered f e" "file_le f sg" "env_role e \<in> fst ` set (keys sg)"
  shows "covered (Some (epoch sg, counters sg)) e"
proof -
  obtain ep cs where f: "f = Some (ep, cs)" using assms(1) by (auto simp: covered_def split: option.splits)
  then have "counter_of cs (env_role e) \<le> counter_of (counters sg) (env_role e)" if "ep = epoch sg"
    using assms(2,3) that by (auto simp: file_le_def)
  with f assms(1,2) show ?thesis by (auto simp: covered_def file_le_def)
qed

lemma reserve_inv:
  assumes "source_inv s" and "reserve out (epoch (src_signer s)) (counters (src_signer s)) (src_file s) = (r, f)"
  shows "source_inv (s\<lparr>src_file := f\<rparr>)"
proof -
  have "f = src_file s \<or> f = Some (epoch (src_signer s), counters (src_signer s))"
    using assms(2) by (auto simp: reserve_def split: reserve_outcome.splits)
  with assms(1) show ?thesis
    by (elim disjE) (auto simp: source_inv_def file_le_self intro: covered_mono)
qed

lemma publish_inv:
  assumes "source_inv s" and "covered (src_file s) env" and "env_role env \<in> expected_roles (src_role s)"
    and "\<forall>e\<in>set (src_published s). env_before e env"
  shows "source_inv (s\<lparr>src_published := src_published s @ [env]\<rparr>)"
  using assms by (auto simp: source_inv_def sorted_wrt_append)

text \<open>A freshly signed envelope comes after every envelope the file covers.\<close>

lemma covered_before:
  assumes "covered f e" "file_le f sg" "env_role e \<in> fst ` set (keys sg)" "env_epoch env = epoch sg"
    and "env_counter env > counter_of (counters sg) (env_role env)"
  shows "env_before e env"
proof -
  have "covered (Some (epoch sg, counters sg)) e" using assms(1-3) by (rule covered_mono)
  with assms(4,5) show ?thesis by (auto simp: covered_def env_before_def)
qed

lemma send_inv: "keeps (implied source_inv) (send pf out role payload)"
  unfolding keeps_def implied_def
proof (intro allI impI)
  fix s assume inv: "source_inv s"
  show "source_inv (snd (send pf out role payload s))"
  proof (cases "on_signer (sign (json_dumps pf) (ed_sign pf) role payload) s")
    case (Pair r s1)
    show ?thesis
    proof (cases r)
      case (Inl e)
      with Pair have "s1 = s" by (auto simp: on_signer_def split: prod.splits dest: sign_Inl_unchanged)
      with Pair Inl inv show ?thesis by (simp add: send_def mbind_def)
    next
      case (Inr env)
      note st = sign_step [OF inv, of "json_dumps pf" "ed_sign pf" role payload env s1]
      have on: "on_signer (sign (json_dumps pf) (ed_sign pf) role payload) s = (Inr env, s1)" using Pair Inr by simp
      obtain r2 f where f: "reserve out (epoch (src_signer s1)) (counters (src_signer s1)) (src_file s1) = (r2, f)"
        by (cases "reserve out (epoch (src_signer s1)) (counters (src_signer s1)) (src_file s1)")
      have i2: "source_inv (s1\<lparr>src_file := f\<rparr>)" using st(1) [OF on] f by (rule reserve_inv)
      have before: "\<forall>e\<in>set (src_published s1). env_before e env"
        using inv st [OF on] covered_before [of "src_file s" _ "src_signer s" env]
        by (auto simp: source_inv_def)
      show ?thesis
      proof (cases r2)
        case (Inl e)
        with on f i2 show ?thesis
          by (simp add: send_def mbind_def mget_def mthen_def on_file_def)
      next
        case (Inr u)
        then have ff: "f = Some (epoch (src_signer s1), counters (src_signer s1))"
          using f by (auto simp: reserve_def split: reserve_outcome.splits)
        have i3: "source_inv (s1\<lparr>src_file := f, src_published := src_published s1 @ [env]\<rparr>)"
          using publish_inv [OF i2, of env] before st [OF on] ff by (simp add: covered_def)
        have "source_inv (t\<lparr>src_log := l\<rparr>) = source_inv t" for t l by (simp add: source_inv_def)
        then have "keeps (implied source_inv) (log_stop role payload env)"
          unfolding log_stop_def by (intro implied.keeps_rules) (simp add: implied_def)
        with on f Inr i3 show ?thesis
          by (auto simp: send_def mbind_def mget_def mthen_def on_file_def mput_def keeps_def implied_def)
      qed
    qed
  qed
qed

lemma propose_inv: "keeps (implied source_inv) (propose pf out now parsed sem)"
proof -
  have "keeps (implied source_inv) (mput (\<lambda>s. s\<lparr>src_seq := src_seq s + 1\<rparr>))"
    by (intro implied.keeps_mput) (simp add: implied_def source_inv_def)
  then show ?thesis
    unfolding propose_def Let_def
    by (auto intro!: implied.keeps_if implied.keeps_mbind implied.keeps_mthen implied.keeps_mret
        implied.keeps_mlift implied.keeps_mget send_inv split: prod.splits)
qed

lemma source_step_inv: "source_step pf s t \<Longrightarrow> source_inv s \<Longrightarrow> source_inv t"
proof (induction rule: source_step.induct)
  case (on_world s r outcome data)
  then show ?case using send_inv by (auto simp: keeps_def implied_def)
next
  case (on_base s outcome now_ns msg)
  then show ?case using propose_inv by (auto simp: keeps_def implied_def propose_base_def)
next
  case (on_arm s outcome now_ns tr)
  then show ?case using propose_inv by (auto simp: keeps_def implied_def propose_arm_def)
next
  case (restart kps s ttl trust joints s')
  then show ?case
    by (intro source_inv_restart) (auto simp: source_inv_def file_le_def)
qed

lemma source_reachable_inv: "source_reachable pf s \<Longrightarrow> source_inv s"
proof (induction rule: source_reachable.induct)
  case (boot kps role ttl trust joints s)
  then have "source_inv (s\<lparr>src_published := src_published s\<rparr>)"
    using source_init_Inr(3) [OF boot(2)] by (intro source_inv_restart) auto
  then show ?case by simp
next
  case (step s t)
  then show ?case using source_step_inv by blast
qed

end
