(* ===== verification/Gate_Node.thy ===== *)
theory Gate_Node
  imports Controller_Permits Bridge Source_Node
begin

text \<open>
  The ROS transport of the gate (\<^verbatim>\<open>ros/haetae_gate/node.py\<close>, class \<^verbatim>\<open>HaetaeGate\<close>), one
  definition per method. The attributes of the node are the record \<open>gate\<close>; every message it
  publishes, every goal and cancel request, every request to the Rust process is appended to
  \<open>out\<close>, oldest first. Readings of the clocks, the answers of the Rust process and the state
  of the action server come from an environment \<open>env\<close>, indexed by the number of readings made
  so far, so every interleaving of delays and answers is covered. \<^verbatim>\<open>time.monotonic()\<close> is read
  in nanoseconds.
\<close>

section \<open>Environment, effects and state\<close>

record env =
  ros_ns :: "nat \<Rightarrow> int"
  mono_ns :: "nat \<Rightarrow> int"
  engine :: "nat \<Rightarrow> pyval \<Rightarrow> pyval res"
  server_ready :: "nat \<Rightarrow> bool"
  command_publishers :: "nat \<Rightarrow> int"
  sha256 :: "string \<Rightarrow> string"
  plat :: platform

datatype effect =
    PubCommand float64 float64 "permit option"
  | PubLease permit
  | PubHeartbeat int
  | PubState pyval
  | PubOutcome pyval
  | PubDecision pyval
  | SendGoal trajectory "permit option"
  | CancelGoal
  | EngineRequest pyval
  | EngineClose
  | StartAbortTimer
  | ExitProcess

datatype goal_status = Succeeded | Canceled | Aborted | OtherStatus

record gate =
  world_max_age_ms :: int
  max_actuation_response_ms :: int
  arm_joints :: "string list"
  output_stamped :: bool
  has_heartbeat :: bool
  gsigner :: "signer option"
  permits :: "permit_signer option"
  permit_world :: world_clock
  permit_reset :: bool
  permit_stop :: bool
  permit_remaining_ns :: int
  permit_world_remaining_ns :: int
  permit_sim_ns :: int
  permit_wall_ns :: int
  arm_goal :: "bool option"
  arm_goal_future :: bool
  arm_goal_deadline :: "int option"
  arm_result_future :: bool
  arm_cancel_future :: bool
  arm_cancel_deadline :: "int option"
  cancel_requested :: bool
  failed :: bool
  abort_deadline :: "int option"
  gseq :: "(string \<times> int) list"
  signed_vla_writers_matched :: int
  signed_vla_callbacks :: int
  reads :: nat
  out :: "effect list"

section \<open>Primitive operations\<close>

definition read_env :: "(nat \<Rightarrow> 'a) \<Rightarrow> (gate, 'a) meth" where
  "read_env f g = (Inr (f (reads g)), g\<lparr>reads := reads g + 1\<rparr>)"

definition emit :: "effect \<Rightarrow> (gate, unit) meth" where
  "emit x = mput (\<lambda>g. g\<lparr>out := out g @ [x]\<rparr>)"

text \<open>\<^verbatim>\<open>_now\<close>, in milliseconds\<close>

definition now_ms :: "env \<Rightarrow> (gate, int) meth" where
  "now_ms e = read_env (\<lambda>i. ros_ns e i div 1000000)"

definition mono :: "env \<Rightarrow> (gate, int) meth" where
  "mono e = read_env (mono_ns e)"

definition engine_request :: "env \<Rightarrow> pyval \<Rightarrow> (gate, pyval) meth" where
  "engine_request e msg =
     mthen (emit (EngineRequest msg)) (mbind (read_env (\<lambda>i. engine e i msg)) mlift)"

definition on_permits :: "(permit_signer, 'a) meth \<Rightarrow> (gate, 'a) meth" where
  "on_permits m g =
     (case permits g of
        None \<Rightarrow> (Inl AttributeError, g)
      | Some p \<Rightarrow> (case m p of (r, p') \<Rightarrow> (r, g\<lparr>permits := Some p'\<rparr>)))"

definition with_permits :: "(permit_signer \<Rightarrow> 'a) \<Rightarrow> (gate, 'a) meth" where
  "with_permits f = mbind (mget permits) (\<lambda>p. case p of None \<Rightarrow> mraise AttributeError | Some ps \<Rightarrow> mret (f ps))"

definition has_permits :: "gate \<Rightarrow> bool" where
  "has_permits g \<longleftrightarrow> permits g \<noteq> None"

text \<open>
  \<^verbatim>\<open>float(v)\<close> of a JSON number or boolean. The bridge has validated the velocities; the positions of an
  arm goal are numbers in the Rust process's answers, and a string, which Python would parse, is an
  error here.
\<close>

fun py_float :: "pyval \<Rightarrow> float64 res" where
  "py_float (PFloat w) = Inr w"
| "py_float (PInt n) = double_of_rat (of_int n)"
| "py_float (PBool b) = double_of_rat (if b then 1 else 0)"
| "py_float _ = Inl TypeError"

text \<open>\<^verbatim>\<open>int(v)\<close> of a JSON value.\<close>

fun int_of_val :: "pyval \<Rightarrow> int res" where
  "int_of_val (PInt n) = Inr n"
| "int_of_val (PBool b) = Inr (if b then 1 else 0)"
| "int_of_val (PFloat w) =
     (if isfinite w then Inr (if f_val w < 0 then - \<lfloor>- f_val w\<rfloor> else \<lfloor>f_val w\<rfloor>)
      else if isnan w then Inl (ValueError ''cannot convert float NaN to integer'') else Inl OverflowError)"
| "int_of_val (PStr s) = py_int s"
| "int_of_val _ = Inl TypeError"

section \<open>Permits\<close>

text \<open>
  The admission budget \<^verbatim>\<open>_permit\<close> requires: a request younger than 50 ms on both clocks (the
  simulated one counted from the backdated origin), with more than 50 ms of authority left.
\<close>

definition admission_check :: "int \<Rightarrow> int \<Rightarrow> int \<Rightarrow> int \<Rightarrow> int \<Rightarrow> unit res" where
  "admission_check sim_age wall_age backdate prem pworld =
     (let age = max (sim_age + backdate) wall_age in
      if 0 \<le> min sim_age wall_age \<and> age < 50000000 \<and> pworld - age \<le> 50000000
        then Inl (ExpiredActuation ''trusted world has insufficient controller admission budget'')
      else if min sim_age wall_age < 0 \<or> age \<ge> 50000000 \<or> prem - age \<le> 50000000
        then Inl (ExpiredActuation ''original controller authority has insufficient admission budget'')
      else Inr ())"

text \<open>\<^verbatim>\<open>_permit\<close>\<close>

definition gate_permit :: "env \<Rightarrow> string \<Rightarrow> string \<Rightarrow> string \<Rightarrow> (gate, permit) meth" where
  "gate_permit e target kind digest =
     (if kind = ''stop'' then mraise (ValueError ''revocation requires the dedicated stop path'')
      else mbind (now_ms e) (\<lambda>now.
           mbind (mono e) (\<lambda>wall.
           mbind (with_permits sim_backdate_ns) (\<lambda>backdate.
           mbind (mget id) (\<lambda>g.
           mthen (mlift (admission_check (now * 1000000 - permit_sim_ns g) (wall - permit_wall_ns g) backdate
                           (permit_remaining_ns g) (permit_world_remaining_ns g)))
                 (on_permits (ps_sign target kind digest (permit_sim_ns g) (permit_remaining_ns g) (permit_wall_ns g))))))))"

text \<open>\<^verbatim>\<open>_stop_permit\<close>\<close>

definition stop_permit :: "env \<Rightarrow> string \<Rightarrow> string \<Rightarrow> int \<Rightarrow> (gate, permit) meth" where
  "stop_permit e target digest sim_ns =
     mbind (mono e) (\<lambda>wall. on_permits (ps_sign target ''stop'' digest sim_ns 200000000 wall))"

section \<open>Publishing\<close>

definition zero_twist :: twist where
  "zero_twist = \<lparr>lin_x = 0, lin_y = 0, lin_z = 0, ang_x = 0, ang_y = 0, ang_z = 0\<rparr>"

definition base_command :: "float64 \<Rightarrow> float64 \<Rightarrow> int \<Rightarrow> command" where
  "base_command lin ang sim_ns =
     \<lparr>cmd_twist = zero_twist\<lparr>lin_x := lin, ang_z := ang\<rparr>,
      cmd_stamp = \<lparr>sec = sim_ns div 1000000000, nanosec = sim_ns mod 1000000000\<rparr>, cmd_frame = []\<rparr>"

text \<open>\<^verbatim>\<open>_publish_command\<close>\<close>

definition publish_command :: "env \<Rightarrow> float64 \<Rightarrow> float64 \<Rightarrow> (gate, unit) meth" where
  "publish_command e lin ang =
     mbind (mget output_stamped) (\<lambda>stamped.
     mthen (mwhen stamped (mbind (read_env (ros_ns e)) (\<lambda>_. mret ())))
     (mbind (mget has_permits) (\<lambda>pm.
      if \<not> pm then emit (PubCommand lin ang None)
      else mbind (with_permits challenges) (\<lambda>ch.
           if map_of ch ''base'' = None then
             (if \<not> f_zero lin \<or> \<not> f_zero ang then mraise (BridgeFailure ''base challenge unavailable'') else mret ())
           else
             mbind (mget (\<lambda>g. (permit_reset g, permit_stop g, permit_sim_ns g))) (\<lambda>(reset, pstop, psim).
             if \<not> reset \<and> f_zero lin \<and> f_zero ang \<and> pstop then
               mbind (now_ms e) (\<lambda>now.
               mbind (mlift (base_digest (sha256 e) (base_command lin ang (now * 1000000)))) (\<lambda>digest.
               mbind (stop_permit e ''base'' digest (now * 1000000)) (\<lambda>p.
               emit (PubCommand lin ang (Some p)))))
             else
               mbind (mlift (base_digest (sha256 e) (base_command lin ang psim))) (\<lambda>digest.
               mbind (gate_permit e ''base'' (if reset then ''reset'' else ''command'') digest) (\<lambda>p.
               emit (PubCommand lin ang (Some p)))))))))"

text \<open>\<^verbatim>\<open>_publish_zero\<close>\<close>

definition publish_zero :: "env \<Rightarrow> (gate, unit) meth" where
  "publish_zero e =
     mthen (mput (\<lambda>g. if has_permits g then g\<lparr>permit_reset := False, permit_stop := True\<rparr> else g))
           (publish_command e 0 0)"

text \<open>\<^verbatim>\<open>_heartbeat\<close>\<close>

definition heartbeat :: "env \<Rightarrow> int \<Rightarrow> (gate, unit) meth" where
  "heartbeat e started_ros_ms =
     mbind (mget has_permits) (\<lambda>pm.
     if \<not> pm then emit (PubHeartbeat started_ros_ms)
     else mbind (with_permits id) (\<lambda>ps.
          mbind (mget (\<lambda>g. (permit_reset g, permit_stop g))) (\<lambda>(reset, pstop).
          if map_of (challenges ps) ''arm'' = None then mret ()
          else if pstop \<and> \<not> reset then mret ()
          else if \<not> reset \<and> (admitted_arm_holding ps \<or> admitted_arm ps \<noteq> active_arm ps \<or>
                              admitted_goal_sequence ps \<noteq> goal_sequence ps) then mret ()
          else mbind (gate_permit e ''arm'' (if reset then ''reset'' else ''lease'') (if reset then IDLE else active_arm ps)) (\<lambda>p.
               mthen (mwhen reset (on_permits (mput (\<lambda>q. q\<lparr>active_arm := IDLE, goal_sequence := 0\<rparr>))))
                     (emit (PubLease p))))))"

section \<open>Arm goals\<close>

text \<open>\<^verbatim>\<open>_cancel_arm\<close>\<close>

definition cancel_arm :: "env \<Rightarrow> (gate, unit) meth" where
  "cancel_arm e =
     mbind (mget permits) (\<lambda>pm.
     mbind (case pm of
              Some ps \<Rightarrow>
                if map_of (challenges ps) ''arm'' \<noteq> None then
                  mbind (now_ms e) (\<lambda>now.
                  mbind (stop_permit e ''arm'' IDLE (now * 1000000)) (\<lambda>p.
                  mthen (emit (PubLease p))
                  (mthen (on_permits (mput (\<lambda>q. q\<lparr>active_arm := IDLE, goal_sequence := 0\<rparr>))) (mret True))))
                else mret False
            | None \<Rightarrow> mret False) (\<lambda>signed_stop.
     mbind (mget (\<lambda>g. arm_goal g = None \<and> \<not> arm_goal_future g)) (\<lambda>idle.
     if idle then mret ()
     else mthen (mput (\<lambda>g. g\<lparr>cancel_requested := True\<rparr>))
          (mbind (mget arm_cancel_deadline) (\<lambda>dl.
           mthen (mwhen (dl = None)
                    (mbind (mono e) (\<lambda>t. mput (\<lambda>g. g\<lparr>arm_cancel_deadline := Some (t + 250000000)\<rparr>))))
           (mbind (mget (\<lambda>g. arm_goal g \<noteq> None \<and> \<not> arm_cancel_future g)) (\<lambda>can.
            mwhen (\<not> signed_stop \<and> can)
              (mthen (emit CancelGoal) (mput (\<lambda>g. g\<lparr>arm_cancel_future := True\<rparr>))))))))))"

definition goal_point :: "pyval \<Rightarrow> traj_point res" where
  "goal_point point =
     rbind (dix point ''positions'') (\<lambda>pv. rbind (need_list pv) (\<lambda>vs. rbind (rmap py_float vs) (\<lambda>ps.
     rbind (dix point ''time_from_start_ms'') (\<lambda>tv. rbind (int_of_val tv) (\<lambda>millis.
     Inr \<lparr>positions = ps, velocities = [], accelerations = [], effort = [],
          time_from_start = \<lparr>sec = millis div 1000, nanosec = millis mod 1000 * 1000000\<rparr>\<rparr>)))))"

text \<open>The permit of a goal, for the digest of its trajectory.\<close>

definition arm_goal_permit :: "env \<Rightarrow> bool \<Rightarrow> trajectory \<Rightarrow> (gate, permit option) meth" where
  "arm_goal_permit e pm tr =
     (if \<not> pm then mret None
      else mbind (mlift (arm_digest (sha256 e) tr)) (\<lambda>digest.
           mthen (on_permits (mput (\<lambda>q. q\<lparr>active_arm := digest\<rparr>)))
           (mbind (gate_permit e ''arm'' ''goal'' digest) (\<lambda>p.
            mthen (on_permits (mput (\<lambda>q. q\<lparr>goal_sequence := counter_of (sequence q) ''arm''\<rparr>)))
                  (mret (Some p))))))"

text \<open>\<^verbatim>\<open>_execute_arm\<close>\<close>

definition execute_arm :: "env \<Rightarrow> pyval \<Rightarrow> (gate, unit) meth" where
  "execute_arm e pts =
     mbind (mget (\<lambda>g. arm_goal_future g \<or> arm_goal g \<noteq> None)) (\<lambda>busy.
     if busy then mraise (BridgeFailure ''previous arm goal has not completed'')
     else mbind (mget arm_joints) (\<lambda>joints.
     mbind (if joints = [] then mret False else read_env (server_ready e)) (\<lambda>ready.
     if \<not> ready then mraise (BridgeFailure ''arm controller unavailable'')
     else mbind (read_env (ros_ns e)) (\<lambda>stamp.
     mbind (mget has_permits) (\<lambda>pm.
     mbind (mlift (rbind (need_list pts) (rmap goal_point))) (\<lambda>ps.
     let tr = \<lparr>joint_names = joints, points = ps,
               tstamp = (if pm then \<lparr>sec = 0, nanosec = 0\<rparr>
                         else \<lparr>sec = stamp div 1000000000, nanosec = stamp mod 1000000000\<rparr>),
               frame_id = []\<rparr>
     in mbind (arm_goal_permit e pm tr) (\<lambda>p.
        mbind (mono e) (\<lambda>t.
        mthen (mput (\<lambda>g. g\<lparr>cancel_requested := False, arm_goal_deadline := Some (t + 250000000), arm_goal_future := True\<rparr>))
              (emit (SendGoal tr p))))))))))"

text \<open>
  \<^verbatim>\<open>_arm_renewal_retiring\<close>: whether an admitted arm goal is inside the admission reserve of
  its own deadline, so that no further positive permit is minted for it.
\<close>

definition retiring_candidate :: "pyval \<Rightarrow> gate \<Rightarrow> bool res" where
  "retiring_candidate step g =
     (if \<not> has_permits g \<or> permit_reset g \<or> permit_stop g then Inr False
      else rbind (dget step ''arm'') (\<lambda>arm.
           if arm \<noteq> PNone \<or> arm_goal_future g then Inr False
           else rbind (cmd_field step ''linear'') (\<lambda>l.
                if \<not> eq_int l 0 then Inr False
                else rbind (cmd_field step ''angular'') (\<lambda>a. Inr (eq_int a 0)))))"

definition retiring_goal :: "pyval \<Rightarrow> permit_signer \<Rightarrow> (int \<times> int) option res" where
  "retiring_goal step ps =
     rbind (status_of step) (\<lambda>status.
     rbind (or_get status ''active'') (\<lambda>active.
     rbind (dget_or active ''action'' (PDict [])) (\<lambda>action.
     rbind (dget action ''type'') (\<lambda>ty.
     if ty \<noteq> PStr ''joint_trajectory'' \<or> active_arm ps = IDLE \<or>
        (admitted_arm_holding ps \<and> \<not> admitted_arm_expired ps) \<or> admitted_arm ps \<noteq> active_arm ps \<or>
        admitted_goal_sequence ps \<noteq> goal_sequence ps then Inr None
     else rbind (dget status ''active_expires_ms'') (\<lambda>ev.
          rbind (dget status ''world_age_ms'') (\<lambda>av.
          Inr (case (as_int ev, as_int av) of
                 (Some expires, Some age) \<Rightarrow> if age < 0 then None else Some (expires, age)
               | _ \<Rightarrow> None)))))))"

definition arm_renewal_retiring :: "env \<Rightarrow> pyval \<Rightarrow> (gate, bool) meth" where
  "arm_renewal_retiring e step =
     mbind (mbind (mget id) (\<lambda>g. mlift (retiring_candidate step g))) (\<lambda>cand.
     if \<not> cand then mret False
     else mbind (with_permits id) (\<lambda>ps.
     mbind (mlift (retiring_goal step ps)) (\<lambda>goal.
     (case goal of
        None \<Rightarrow> mret False
      | Some (expires, world_age) \<Rightarrow>
          mbind (now_ms e) (\<lambda>now.
          mbind (mono e) (\<lambda>wall.
          mget (\<lambda>g.
            let proposal_remaining = expires * 1000000 - permit_sim_ns g;
                sim_age = now * 1000000 - permit_sim_ns g;
                wall_age = wall - permit_wall_ns g;
                age = max (sim_age + sim_backdate_ns ps) wall_age
            in 0 \<le> min sim_age wall_age \<and> age < 50000000
               \<and> permit_world_remaining_ns g - age > 50000000
               \<and> (world_max_age_ms g - world_age) * 1000000 - age > 50000000
               \<and> proposal_remaining > 0 \<and> permit_remaining_ns g = proposal_remaining
               \<and> proposal_remaining - age \<le> 50000000)))))))"

section \<open>Publishing a step\<close>

definition publish_arm :: "env \<Rightarrow> pyval \<Rightarrow> (gate, unit) meth" where
  "publish_arm e step =
     mbind (mlift (dget step ''arm'')) (\<lambda>arm.
     mwhen (truthy arm)
       (if has_key ''execute'' arm
        then mbind (mlift (rbind (dix arm ''execute'') (\<lambda>x. dix x ''points''))) (execute_arm e)
        else if arm = PStr ''cancel'' then cancel_arm e
        else mraise (BridgeFailure ''invalid arm output'')))"

definition publish_state :: "env \<Rightarrow> pyval \<Rightarrow> (gate, unit) meth" where
  "publish_state e step =
     mbind (mlift (dget step ''status'')) (\<lambda>st.
     mwhen (st \<noteq> PNone)
       (mbind (mlift (case st of PDict d \<Rightarrow> Inr d | _ \<Rightarrow> Inl TypeError)) (\<lambda>d.
        mbind (mget id) (\<lambda>g.
        mbind (if arm_joints g = [] then mret True
               else if (case permits g of None \<Rightarrow> True | Some ps \<Rightarrow> length (challenges ps) = 2)
                 then read_env (server_ready e) else mret False) (\<lambda>ready.
        emit (PubState (PDict (dict_of d
          [(''signed_vla_writers_matched'', PInt (signed_vla_writers_matched g)),
           (''signed_vla_callbacks'', PInt (signed_vla_callbacks g)),
           (''arm_controller_ready'', PBool ready)]))))))))"

definition publish_outcome :: "pyval \<Rightarrow> (gate, unit) meth" where
  "publish_outcome step =
     mbind (mlift (dget step ''outcome'')) (\<lambda>o'.
     mwhen (o' \<noteq> PNone)
       (mthen (emit (PubOutcome o'))
       (mbind (mlift (str_in ''decision'' o')) (\<lambda>b.
        mwhen b (mbind (mlift (dix o' ''decision'')) (\<lambda>d. emit (PubDecision d)))))))"

text \<open>\<^verbatim>\<open>_publish\<close>\<close>

definition note_authority :: "pyval \<Rightarrow> (gate, unit) meth" where
  "note_authority step =
     mbind (mget has_permits) (\<lambda>pm.
     mwhen pm
       (mbind (mlift (explicit_rearm step)) (\<lambda>rearm.
        mthen (mput (\<lambda>g. g\<lparr>permit_reset := rearm\<rparr>))
        (mbind (mlift (rbind (status_of step) (\<lambda>st. rbind (dget st ''armed'') (\<lambda>a.
                  if \<not> truthy a then Inr True
                  else rbind (dget st ''mode'') (\<lambda>m. Inr (m \<noteq> PStr ''normal'' \<and> m \<noteq> PStr ''caution'')))))) (\<lambda>pstop.
         mput (\<lambda>g. g\<lparr>permit_stop := pstop\<rparr>))))))"

definition publish :: "env \<Rightarrow> pyval \<Rightarrow> (gate, bool) meth" where
  "publish e step =
     mthen (note_authority step)
     (mbind (arm_renewal_retiring e step) (\<lambda>retiring.
      mthen (mwhen (\<not> retiring)
               (mbind (mlift (rbind (cmd_field step ''linear'') py_float)) (\<lambda>l.
                mbind (mlift (rbind (cmd_field step ''angular'') py_float)) (\<lambda>a.
                publish_command e l a))))
      (mthen (publish_arm e step)
      (mthen (publish_state e step)
      (mthen (publish_outcome step) (mret retiring))))))"

section \<open>Failure\<close>

definition ignore_errors :: "('s, unit) meth \<Rightarrow> ('s, unit) meth" where
  "ignore_errors m = mcatch m (\<lambda>_. mret ())"

definition tick_request :: "int \<Rightarrow> pyval" where
  "tick_request t = PDict [(''k'', PStr ''tick''), (''t'', PInt t)]"

text \<open>\<^verbatim>\<open>_abort\<close>\<close>

definition abort_stop :: "env \<Rightarrow> exn \<Rightarrow> (gate, unit) meth" where
  "abort_stop e exc =
     mthen (publish_zero e)
     (mthen (ignore_errors (cancel_arm e))
     (mthen (mwhen (is_StaleActuation exc)
               (ignore_errors
                 (mbind (now_ms e) (\<lambda>t1.
                  mbind (engine_request e (reject_request t1 (exn_text exc))) (\<lambda>_.
                  mbind (now_ms e) (\<lambda>t2.
                  mbind (engine_request e (tick_request t2)) (\<lambda>_. mret ())))))))
     (mthen (emit EngineClose)
     (mbind (mono e) (\<lambda>t.
      mthen (mput (\<lambda>g. g\<lparr>abort_deadline := Some (t + 250000000)\<rparr>)) (emit StartAbortTimer))))))"

definition abort :: "env \<Rightarrow> exn \<Rightarrow> (gate, unit) meth" where
  "abort e exc =
     mbind (mget failed) (\<lambda>f.
     if f then mret ()
     else mthen (mput (\<lambda>g. g\<lparr>failed := True\<rparr>)) (abort_stop e exc))"

text \<open>\<^verbatim>\<open>_abort_tick\<close>\<close>

definition abort_tick :: "env \<Rightarrow> (gate, unit) meth" where
  "abort_tick e =
     mthen (publish_zero e)
     (mbind (mono e) (\<lambda>t.
      mbind (mget abort_deadline) (\<lambda>dl.
      (case dl of None \<Rightarrow> mraise TypeError | Some d \<Rightarrow> mwhen (t \<ge> d) (emit ExitProcess)))))"

section \<open>Action callbacks\<close>

text \<open>\<^verbatim>\<open>_on_arm_goal\<close>; the future holds an exception or whether the goal was accepted.\<close>

definition on_arm_goal :: "env \<Rightarrow> bool res \<Rightarrow> (gate, unit) meth" where
  "on_arm_goal e future =
     mcatch
       (mbind (mlift future) (\<lambda>accepted.
        mthen (mput (\<lambda>g. g\<lparr>arm_goal := Some accepted, arm_goal_future := False, arm_goal_deadline := None\<rparr>))
        (mbind (mget id) (\<lambda>g.
         if failed g then mwhen accepted (emit CancelGoal)
         else if \<not> accepted then
           (if has_permits g \<and> cancel_requested g
            then mput (\<lambda>g. g\<lparr>arm_goal := None, arm_cancel_deadline := None, cancel_requested := False\<rparr>)
            else mraise (BridgeFailure ''arm goal rejected''))
         else mthen (mput (\<lambda>g. g\<lparr>arm_result_future := True\<rparr>))
                    (mwhen (cancel_requested g) (cancel_arm e))))))
       (abort e)"

text \<open>\<^verbatim>\<open>_on_arm_result\<close>\<close>

definition on_arm_result :: "env \<Rightarrow> goal_status res \<Rightarrow> (gate, unit) meth" where
  "on_arm_result e future =
     mcatch
       (mbind (mlift future) (\<lambda>status.
        mbind (mget id) (\<lambda>g.
        if cancel_requested g \<and> status \<noteq> Canceled \<and> \<not> (has_permits g \<and> status \<in> {Aborted, Succeeded})
          then mraise (BridgeFailure ''arm did not report a cancelled result'')
        else if \<not> cancel_requested g \<and> status \<noteq> Succeeded then mraise (BridgeFailure ''arm goal did not succeed'')
        else mput (\<lambda>g. g\<lparr>arm_goal := None, arm_result_future := False, arm_cancel_deadline := None,
                         cancel_requested := False\<rparr>))))
       (abort e)"

text \<open>\<^verbatim>\<open>_on_arm_cancel\<close>; the future holds whether any goal is being cancelled.\<close>

definition on_arm_cancel :: "env \<Rightarrow> bool res \<Rightarrow> (gate, unit) meth" where
  "on_arm_cancel e future =
     mcatch
       (mbind (mlift future) (\<lambda>canceling.
        mthen (mput (\<lambda>g. g\<lparr>arm_cancel_future := False\<rparr>))
        (mbind (mget id) (\<lambda>g.
         if \<not> canceling \<and> arm_goal g \<noteq> None \<and> \<not> has_permits g
         then mraise (BridgeFailure ''arm controller rejected cancellation'') else mret ()))))
       (abort e)"

section \<open>Receiving\<close>

text \<open>
  The authority of one request, from the engine's answer (the middle part of \<^verbatim>\<open>_receive\<close>). The ages
  and expiries the Rust process sends are integers of milliseconds; a boolean counts as Python
  counts it, and a fractional number, which Python would carry into the nanoseconds of the grant, is
  an error here.
\<close>

fun ms_of :: "pyval \<Rightarrow> int res" where
  "ms_of (PInt n) = Inr n"
| "ms_of (PBool b) = Inr (if b then 1 else 0)"
| "ms_of _ = Inl TypeError"

definition remaining_ms :: "pyval \<Rightarrow> int \<Rightarrow> int \<Rightarrow> int res" where
  "remaining_ms step world_max_age started_ros_ms =
     rbind (status_of step) (\<lambda>st.
     rbind (dget st ''world_age_ms'') (\<lambda>wv.
     rbind (if truthy wv then ms_of wv else Inr 0) (\<lambda>w.
     rbind (dget st ''active_expires_ms'') (\<lambda>ev.
     if ev = PNone then Inr (min 200 (world_max_age - w))
     else rbind (ms_of ev) (\<lambda>ex. Inr (min (min 200 (world_max_age - w)) (ex - started_ros_ms)))))))"

definition on_world :: "(world_clock, 'a) meth \<Rightarrow> (gate, 'a) meth" where
  "on_world m g = (case m (permit_world g) of (r, c) \<Rightarrow> (r, g\<lparr>permit_world := c\<rparr>))"

definition set_authority :: "pyval \<Rightarrow> int \<Rightarrow> (gate, unit) meth" where
  "set_authority step started_ros_ms =
     mbind (mget id) (\<lambda>g0.
     mthen (on_world (wc_observe step (permit_wall_ns g0)))
     (mbind (mlift (remaining_ms step (world_max_age_ms g0) started_ros_ms)) (\<lambda>rem.
      mthen (mput (\<lambda>g. g\<lparr>permit_world_remaining_ns :=
                wc_remaining (permit_world g) (permit_sim_ns g) (permit_wall_ns g) (world_max_age_ms g * 1000000)\<rparr>))
      (mbind (mget permit_world_remaining_ns) (\<lambda>wrem.
       if min (rem * 1000000) wrem \<le> 0
       then mraise (ExpiredActuation ''trusted world did not advance within dual-clock freshness'')
       else mput (\<lambda>g. g\<lparr>permit_remaining_ns := min (rem * 1000000) wrem\<rparr>))))))"

text \<open>The elapsed time of the exchange, in milliseconds: minus one if the ROS clock went back.\<close>

definition elapsed_of :: "int \<Rightarrow> int \<Rightarrow> int \<Rightarrow> int \<Rightarrow> rat" where
  "elapsed_of started_ros now_ros started_ns now_ns =
     (if now_ros < started_ros then - 1 else max (of_int (now_ns - started_ns) / 1000000) (of_int (now_ros - started_ros)))"

text \<open>The body of \<^verbatim>\<open>_receive\<close>: the exchange and its freshness check, the grant, the publication.\<close>

record exchange =
  x_step :: pyval
  x_elapsed :: rat
  x_started :: int
  x_permits :: bool

definition check_exchange :: "env \<Rightarrow> int \<Rightarrow> int \<Rightarrow> bool \<Rightarrow> pyval \<Rightarrow> (gate, exchange) meth" where
  "check_exchange e started started_ros pm step =
     mbind (now_ms e) (\<lambda>now_ros.
     mbind (if now_ros < started_ros then mret started else mono e) (\<lambda>ended.
     mbind (mget id) (\<lambda>g.
     let elapsed = elapsed_of started_ros now_ros started ended in
     mthen (mlift (require_fresh_actuation step elapsed now_ros (world_max_age_ms g) (max_actuation_response_ms g)))
           (mret \<lparr>x_step = step, x_elapsed = elapsed, x_started = started_ros, x_permits = pm\<rparr>))))"

definition receive_start :: "env \<Rightarrow> (gate, pyval) meth \<Rightarrow> (gate, exchange) meth" where
  "receive_start e callback =
     mbind (mono e) (\<lambda>started.
     mbind (now_ms e) (\<lambda>started_ros.
     mbind (mget has_permits) (\<lambda>pm.
     mthen (mwhen pm (mbind (mono e) (\<lambda>w.
              mput (\<lambda>g. g\<lparr>permit_sim_ns := started_ros * 1000000, permit_wall_ns := w\<rparr>))))
     (mbind callback (check_exchange e started started_ros pm)))))"

definition receive_finish :: "env \<Rightarrow> exchange \<Rightarrow> (gate, unit) meth" where
  "receive_finish e x =
     mbind (publish e (x_step x)) (\<lambda>retiring.
     mbind (mget id) (\<lambda>g.
     if has_heartbeat g \<and> \<not> cancel_requested g \<and> \<not> failed g \<and> \<not> retiring \<and> (\<not> x_permits x \<or> \<not> arm_goal_future g)
     then mbind (mlift (lease_renewable (x_step x) (x_elapsed x) (world_max_age_ms g) (max_actuation_response_ms g)))
            (\<lambda>ok. mwhen ok (heartbeat e (x_started x)))
     else mret ()))"

definition receive_body :: "env \<Rightarrow> (gate, pyval) meth \<Rightarrow> (gate, unit) meth" where
  "receive_body e callback =
     mbind (receive_start e callback) (\<lambda>x.
     mthen (mwhen (x_permits x) (set_authority (x_step x) (x_started x)))
           (receive_finish e x))"

text \<open>\<^verbatim>\<open>_receive\<close>: expiry stops, disarms and keeps running; a malformed proposal is rejected; all else aborts.\<close>

definition on_expired :: "env \<Rightarrow> exn \<Rightarrow> (gate, unit) meth" where
  "on_expired e exc =
     mthen (publish_zero e)
     (mcatch
       (mthen (cancel_arm e)
       (mbind (now_ms e) (\<lambda>t.
        mbind (engine_request e (reject_request t (exn_text exc))) (\<lambda>step.
        mbind (mlift (check_rejection step)) (\<lambda>s.
        mbind (publish e s) (\<lambda>_. mret ()))))))
       (abort e))"

definition on_malformed :: "env \<Rightarrow> exn \<Rightarrow> (gate, unit) meth" where
  "on_malformed e exc =
     mcatch
       (mbind (now_ms e) (\<lambda>t.
        mbind (engine_request e (reject_request t (exn_text exc))) (\<lambda>step.
        mbind (publish e step) (\<lambda>_. mret ()))))
       (abort e)"

fun handle_exn :: "env \<Rightarrow> exn \<Rightarrow> (gate, unit) meth" where
  "handle_exn e (ExpiredActuation m) = on_expired e (ExpiredActuation m)"
| "handle_exn e (InvalidProposal m) = on_malformed e (InvalidProposal m)"
| "handle_exn e exc = abort e exc"

definition receive :: "env \<Rightarrow> (gate, pyval) meth \<Rightarrow> (gate, unit) meth" where
  "receive e callback =
     mbind (mget failed) (\<lambda>f. if f then mret () else mcatch (receive_body e callback) (handle_exn e))"

section \<open>Subscriptions and timers\<close>

text \<open>\<^verbatim>\<open>_send\<close>\<close>

definition signed_request :: "int \<Rightarrow> string \<Rightarrow> pyval" where
  "signed_request t data = PDict [(''k'', PStr ''signed''), (''t'', PInt t), (''data'', PStr data)]"

definition on_gsigner :: "(signer, 'a) meth \<Rightarrow> (gate, 'a) meth" where
  "on_gsigner m g =
     (case gsigner g of
        None \<Rightarrow> (Inl AttributeError, g)
      | Some s \<Rightarrow> (case m s of (r, s') \<Rightarrow> (r, g\<lparr>gsigner := Some s'\<rparr>)))"

definition gate_send :: "env \<Rightarrow> string \<Rightarrow> pyval \<Rightarrow> (gate, pyval) meth" where
  "gate_send e role payload =
     mbind (on_gsigner (sign (json_dumps (plat e)) (ed_sign (plat e)) role payload)) (\<lambda>env.
     mbind (now_ms e) (\<lambda>t.
     mbind (mlift (json_dumps (plat e) (envelope_val env))) (\<lambda>text.
     engine_request e (signed_request t text))))"

definition on_world_msg :: "env \<Rightarrow> string \<Rightarrow> (gate, unit) meth" where
  "on_world_msg e data = receive e (gate_send e ''world'' (PStr data))"

definition on_fault_msg :: "env \<Rightarrow> string \<Rightarrow> (gate, unit) meth" where
  "on_fault_msg e data = receive e (gate_send e ''fault'' (PStr data))"

definition vla_matched :: "pyval \<Rightarrow> (gate, unit) meth" where
  "vla_matched count =
     mput (\<lambda>g. g\<lparr>signed_vla_writers_matched :=
       (case as_int count of Some n \<Rightarrow> if 0 \<le> n then n else 0 | None \<Rightarrow> 0)\<rparr>)"

text \<open>\<^verbatim>\<open>_signed\<close>: the role inside the envelope must be the role of the topic.\<close>

definition check_signed :: "env \<Rightarrow> string \<Rightarrow> string \<Rightarrow> unit res" where
  "check_signed e data role =
     (case rbind (json_loads (plat e) data) (\<lambda>envelope.
           if \<not> is_dict envelope \<or> dget envelope ''role'' \<noteq> Inr (PStr role)
           then Inl (InvalidProposal ''signed input role does not match topic binding'') else Inr ()) of
        Inl x \<Rightarrow> if is_ValueError x \<or> x = TypeError then Inl (InvalidProposal ''malformed signed input'') else Inl x
      | r \<Rightarrow> r)"

definition on_signed :: "env \<Rightarrow> string \<Rightarrow> string \<Rightarrow> (gate, unit) meth" where
  "on_signed e data role =
     mthen (mwhen (role = ''vla'') (mput (\<lambda>g. g\<lparr>signed_vla_callbacks := signed_vla_callbacks g + 1\<rparr>)))
     (receive e (mthen (mlift (check_signed e data role))
                (mbind (now_ms e) (\<lambda>t. engine_request e (signed_request t data)))))"

text \<open>\<^verbatim>\<open>_proposal\<close>, \<^verbatim>\<open>_twist\<close>, \<^verbatim>\<open>_arm\<close>; the action is parsed before the sequence number is taken.\<close>

definition gate_proposal :: "env \<Rightarrow> string \<Rightarrow> pyval \<Rightarrow> (gate, pyval) meth" where
  "gate_proposal e role action =
     mbind (mget (\<lambda>g. map_of (gseq g) role)) (\<lambda>n.
     (case n of
        None \<Rightarrow> mraise (KeyError role)
      | Some k \<Rightarrow>
          mthen (mput (\<lambda>g. g\<lparr>gseq := dput role (k + 1) (gseq g)\<rparr>))
          (mbind (now_ms e) (\<lambda>t.
           gate_send e role (PDict [(''id'', PInt (k + 1)), (''source'', PStr role), (''timestamp_ms'', PInt t),
                                    (''action'', action)])))))"

definition on_twist :: "env \<Rightarrow> twist \<Rightarrow> string \<Rightarrow> int \<Rightarrow> (gate, unit) meth" where
  "on_twist e msg role ttl = receive e (mbind (mlift (base_action msg ttl)) (gate_proposal e role))"

definition on_arm_msg :: "env \<Rightarrow> trajectory \<Rightarrow> string \<Rightarrow> (gate, unit) meth" where
  "on_arm_msg e msg role =
     receive e (mbind (mget arm_joints) (\<lambda>js. mbind (mlift (arm_action msg js 0)) (gate_proposal e role)))"

text \<open>\<^verbatim>\<open>_tick\<close>\<close>

definition deadline_passed :: "env \<Rightarrow> int option \<Rightarrow> (gate, bool) meth" where
  "deadline_passed e dl = (case dl of None \<Rightarrow> mret False | Some d \<Rightarrow> mbind (mono e) (\<lambda>t. mret (d \<le> t)))"

definition tick_callback :: "env \<Rightarrow> (gate, pyval) meth" where
  "tick_callback e =
     mbind (mbind (mget arm_goal_deadline) (deadline_passed e)) (\<lambda>late_goal.
     if late_goal then mraise (BridgeFailure ''arm goal acceptance did not complete in 250 ms'')
     else mbind (mbind (mget arm_cancel_deadline) (deadline_passed e)) (\<lambda>late_cancel.
     if late_cancel then mraise (BridgeFailure ''arm cancellation did not complete in 250 ms'')
     else mbind (read_env (command_publishers e)) (\<lambda>n.
     if n > 1 then
       mbind (mget gsigner) (\<lambda>sg.
       if sg \<noteq> None
       then mbind (now_ms e) (\<lambda>t. gate_send e ''fault'' (PDict [(''code'', PStr ''rogue-cmd-vel-publisher''),
              (''timestamp_ms'', PInt t), (''raise_to'', PStr ''hold'')]))
       else mbind (now_ms e) (\<lambda>t. engine_request e (PDict [(''k'', PStr ''hold''), (''t'', PInt t)])))
     else mbind (now_ms e) (\<lambda>t. engine_request e (tick_request t)))))"

definition on_tick :: "env \<Rightarrow> (gate, unit) meth" where
  "on_tick e = receive e (tick_callback e)"

text \<open>The controller state subscription: \<^verbatim>\<open>permits.observe(target, json.loads(msg.data))\<close>.\<close>

definition on_guard_state :: "env \<Rightarrow> string \<Rightarrow> string \<Rightarrow> (gate, unit) meth" where
  "on_guard_state e target data =
     mbind (mlift (json_loads (plat e) data)) (\<lambda>v. on_permits (ps_observe target v))"

section \<open>Construction and dispatch\<close>

text \<open>
  The ROS parameters \<^verbatim>\<open>__init__\<close> reads, the text of the policy file among them; \<open>mk_signer\<close> is the
  construction of the input signer from the parsed key table (\<open>signer_init\<close> on its files).
\<close>

record gate_params =
  gp_paths :: "string list"
  gp_policy :: string
  gp_max_response :: int
  gp_signed_only :: bool
  gp_keys :: string
  gp_inputs :: string
  gp_arm_inputs :: string
  gp_controller_key :: string
  gp_heartbeat :: string
  gp_output_stamped :: pyval
  gp_tick_hz :: float64

definition source_roles :: "string list" where
  "source_roles = [''vla'', ''planner'', ''teleop'', ''peer'']"

definition policy_joints :: "pyval \<Rightarrow> string list res" where
  "policy_joints pol =
     rbind (dget_or pol ''arm'' (PDict [])) (\<lambda>arm.
     rbind (dget_or arm ''joints'' (PList [])) (\<lambda>js.
     rbind (need_list js) (rmap (\<lambda>j. rbind (dix j ''name'') need_str))))"

text \<open>A signed-only gateway has no source keys and no raw inputs.\<close>

definition has_raw_inputs :: "(string \<Rightarrow> pyval res) \<Rightarrow> gate_params \<Rightarrow> bool res" where
  "has_raw_inputs loads p =
     ror [rbind (loads (gp_keys p)) (\<lambda>v. Inr (\<not> pyeq v (PDict []))),
          rbind (loads (gp_inputs p)) (\<lambda>v. Inr (\<not> pyeq v (PList []))),
          rbind (loads (gp_arm_inputs p)) (\<lambda>v. Inr (\<not> pyeq v (PList [])))]"

definition signer_roles :: "signer option \<Rightarrow> string list res" where
  "signer_roles sg = (case sg of None \<Rightarrow> Inl AttributeError | Some s \<Rightarrow> Inr (map fst (keys s)))"

definition base_binding :: "signer option \<Rightarrow> pyval \<Rightarrow> (string \<times> string \<times> int) res" where
  "base_binding sg item =
     rbind (rbind (dix item ''topic'') need_str) (\<lambda>topic.
     rbind (rbind (dix item ''source'') need_str) (\<lambda>role.
     rbind (rbind (dix item ''ttl_ms'') int_of_val) (\<lambda>ttl.
     rbind (ror [Inr (role \<notin> set source_roles), rbind (signer_roles sg) (\<lambda>rs. Inr (role \<notin> set rs)), Inr (ttl \<le> 0)]) (\<lambda>bad.
     if bad then Inl (ValueError ''invalid base input binding'') else Inr (topic, role, ttl)))))"

definition arm_binding :: "signer option \<Rightarrow> string list \<Rightarrow> pyval \<Rightarrow> (string \<times> string) res" where
  "arm_binding sg joints item =
     rbind (rbind (dix item ''topic'') need_str) (\<lambda>topic.
     rbind (rbind (dix item ''source'') need_str) (\<lambda>role.
     rbind (ror [Inr (role \<notin> set source_roles), rbind (signer_roles sg) (\<lambda>rs. Inr (role \<notin> set rs)), Inr (joints = [])]) (\<lambda>bad.
     if bad then Inl (ValueError ''invalid arm input binding'') else Inr (topic, role))))"

record bindings =
  bound_base :: "(string \<times> string \<times> int) list"
  bound_arm :: "(string \<times> string) list"

definition tick_rate_ok :: "float64 \<Rightarrow> bool" where
  "tick_rate_ok hz \<longleftrightarrow> isnan hz \<or> (isfinite hz \<and> 0 < f_val hz \<and> f_val hz \<le> 100)"

definition fresh_gate :: "int \<Rightarrow> int \<Rightarrow> string list \<Rightarrow> bool \<Rightarrow> bool \<Rightarrow> signer option \<Rightarrow> permit_signer option \<Rightarrow> gate" where
  "fresh_gate wmax mr joints stamped hb sg ps =
     \<lparr>world_max_age_ms = wmax, max_actuation_response_ms = mr, arm_joints = joints, output_stamped = stamped,
      has_heartbeat = hb, gsigner = sg, permits = ps, permit_world = world_clock_init, permit_reset = False,
      permit_stop = True, permit_remaining_ns = 200000000, permit_world_remaining_ns = 0, permit_sim_ns = 0,
      permit_wall_ns = 0, arm_goal = None, arm_goal_future = False, arm_goal_deadline = None,
      arm_result_future = False, arm_cancel_future = False, arm_cancel_deadline = None, cancel_requested = False,
      failed = False, abort_deadline = None, gseq = map (\<lambda>r. (r, 0)) source_roles,
      signed_vla_writers_matched = 0, signed_vla_callbacks = 0, reads = 0, out = []\<rparr>"

text \<open>\<^verbatim>\<open>__init__\<close>\<close>

definition gate_init :: "(string \<Rightarrow> pyval res) \<Rightarrow> (pyval \<Rightarrow> signer res) \<Rightarrow> gate_params \<Rightarrow> (gate \<times> bindings) res" where
  "gate_init loads mk_signer p =
     (if [] \<in> set (gp_paths p) then Inl (ValueError ''all policy, state, log, signing and trust paths are required'')
      else rbind (loads (gp_policy p)) (\<lambda>pol.
      rbind (rbind (dix pol ''freshness'') (\<lambda>f. rbind (dix f ''world_max_age_ms'') int_of_val)) (\<lambda>wmax.
      if gp_max_response p \<le> 0 then Inl (ValueError ''max_actuation_response_ms must be positive'')
      else rbind (policy_joints pol) (\<lambda>joints.
      rbind (if gp_signed_only p then has_raw_inputs loads p else Inr False) (\<lambda>raw.
      if raw then Inl (ValueError ''signed-only gateway must have no source signing keys or raw inputs'')
      else if gp_controller_key p \<noteq> [] \<and> gp_heartbeat p = []
        then Inl (ValueError ''controller permits require an arm heartbeat topic'')
      else rbind (if gp_signed_only p then Inr None
                  else rbind (loads (gp_keys p)) (\<lambda>ks. rbind (mk_signer ks) (\<lambda>s. Inr (Some s)))) (\<lambda>sg.
      rbind (if gp_controller_key p = [] then Inr None
             else rbind (permit_signer_init SIM_ORDERING_BACKDATE_NS) (\<lambda>ps. Inr (Some ps))) (\<lambda>ps.
      if ps \<noteq> None \<and> \<not> truthy (gp_output_stamped p) then Inl (ValueError ''controller permits require stamped output'')
      else if \<not> is_bool (gp_output_stamped p) then Inl (ValueError ''output_stamped must be a bool'')
      else rbind (rbind (loads (gp_inputs p)) need_list) (\<lambda>ins.
      rbind (rmap (base_binding sg) ins) (\<lambda>bb.
      rbind (rbind (loads (gp_arm_inputs p)) need_list) (\<lambda>ains.
      rbind (rmap (arm_binding sg joints) ains) (\<lambda>ab.
      if \<not> tick_rate_ok (gp_tick_hz p) then Inl (ValueError ''tick_hz must be in (0,100]'')
      else Inr (fresh_gate wmax (gp_max_response p) joints (truthy (gp_output_stamped p)) (gp_heartbeat p \<noteq> []) sg ps,
                \<lparr>bound_base = bb, bound_arm = ab\<rparr>))))))))))))"

text \<open>The callbacks the executor runs, one at a time.\<close>

datatype gate_event =
    WorldMsg string | FaultMsg string | SignedMsg string string | VlaMatched pyval
  | TwistMsg twist string int | ArmMsg trajectory string | GuardState string string
  | TickEvent | AbortTick | ArmGoalDone "bool res" | ArmResultDone "goal_status res" | ArmCancelDone "bool res"

fun dispatch :: "env \<Rightarrow> gate_event \<Rightarrow> (gate, unit) meth" where
  "dispatch e (WorldMsg data) = on_world_msg e data"
| "dispatch e (FaultMsg data) = on_fault_msg e data"
| "dispatch e (SignedMsg data role) = on_signed e data role"
| "dispatch e (VlaMatched count) = vla_matched count"
| "dispatch e (TwistMsg msg role ttl) = on_twist e msg role ttl"
| "dispatch e (ArmMsg msg role) = on_arm_msg e msg role"
| "dispatch e (GuardState target data) = on_guard_state e target data"
| "dispatch e TickEvent = on_tick e"
| "dispatch e AbortTick = abort_tick e"
| "dispatch e (ArmGoalDone f) = on_arm_goal e f"
| "dispatch e (ArmResultDone f) = on_arm_result e f"
| "dispatch e (ArmCancelDone f) = on_arm_cancel e f"

text \<open>\<^verbatim>\<open>spin\<close>: callbacks in the order the executor delivers them, until one raises.\<close>

fun spin :: "env \<Rightarrow> gate_event list \<Rightarrow> (gate, unit) meth" where
  "spin e [] = mret ()"
| "spin e (ev # evs) = mthen (dispatch e ev) (spin e evs)"

end
