(* ===== verification/Gate_Safety.thy ===== *)
theory Gate_Safety
  imports Gate_Node
begin

text \<open>
  Safety of the gate node. Three relations between the state before and after a method, each
  reflexive and transitive, are kept by every method of the class:
  \<^item> \<open>auth_rel\<close>: the authority of the current request is not changed, and every permit signed
    meanwhile that is not a stop is exactly that authority;
  \<^item> \<open>quiet_rel\<close>: only zero velocities and no arm goal were sent;
  \<^item> \<open>stop_rel\<close>: only stop permits were sent.
  The theorems about a whole \<^verbatim>\<open>_receive\<close> follow.
\<close>

section \<open>Effects\<close>

fun permits_of :: "effect \<Rightarrow> permit list" where
  "permits_of (PubCommand _ _ (Some p)) = [p]"
| "permits_of (PubLease p) = [p]"
| "permits_of (SendGoal _ (Some p)) = [p]"
| "permits_of _ = []"

fun quiet :: "effect \<Rightarrow> bool" where
  "quiet (PubCommand l a _) = (f_zero l \<and> f_zero a)"
| "quiet (SendGoal _ _) = False"
| "quiet _ = True"

definition stop_only :: "effect \<Rightarrow> bool" where
  "stop_only x \<longleftrightarrow> (\<forall>p\<in>set (permits_of x). p_kind p = ''stop'')"

lemma permits_of_goal: "p \<in> set (permits_of (SendGoal t q)) \<Longrightarrow> q = Some p"
  by (cases q) auto

text \<open>Everything emitted between two states satisfies a predicate.\<close>

definition emitted :: "(effect \<Rightarrow> bool) \<Rightarrow> gate \<Rightarrow> gate \<Rightarrow> bool" where
  "emitted P g g' \<longleftrightarrow> (\<exists>new. out g' = out g @ new \<and> (\<forall>x\<in>set new. P x))"

lemma emitted_refl: "emitted P g g"
  by (simp add: emitted_def)

lemma emitted_trans: "emitted P g h \<Longrightarrow> emitted P h k \<Longrightarrow> emitted P g k"
  unfolding emitted_def by (metis UnE append.assoc set_append)

lemma emitted_same: "out g' = out g \<Longrightarrow> emitted P g g'"
  by (simp add: emitted_def)

lemma emitted_snoc: "out g' = out g @ [x] \<Longrightarrow> P x \<Longrightarrow> emitted P g g'"
  by (auto simp: emitted_def)

section \<open>The authority of a request\<close>

type_synonym authority = "int \<times> int \<times> int \<times> int \<times> world_clock \<times> int \<times> int option"

definition auth :: "gate \<Rightarrow> authority" where
  "auth g = (permit_sim_ns g, permit_wall_ns g, permit_remaining_ns g, permit_world_remaining_ns g, permit_world g,
             world_max_age_ms g, map_option sim_backdate_ns (permits g))"

fun in_authority :: "authority \<Rightarrow> permit \<Rightarrow> bool" where
  "in_authority (sim, wall, rem, wrem, clock, wmax, bd) p \<longleftrightarrow>
     p_kind p = ''stop'' \<or>
     (\<exists>b. bd = Some b \<and> p_wall p = wall \<and> p_wall_end p = wall + min MAX_LEASE_NS rem \<and>
        p_sim p = max 0 (sim - b) \<and> p_sim_end p = max 0 (sim - b) + min MAX_LEASE_NS rem)"

declare in_authority.simps [simp del]

definition auth_ok :: "gate \<Rightarrow> effect \<Rightarrow> bool" where
  "auth_ok g x \<longleftrightarrow> (\<forall>p\<in>set (permits_of x). in_authority (auth g) p)"

definition auth_rel :: "gate \<Rightarrow> gate \<Rightarrow> bool" where
  "auth_rel g g' \<longleftrightarrow> auth g' = auth g \<and> emitted (auth_ok g) g g'"

interpretation auth: run_rel auth_rel
proof
  show "auth_rel s s" for s by (simp add: auth_rel_def emitted_refl)
  show "auth_rel s t \<Longrightarrow> auth_rel t u \<Longrightarrow> auth_rel s u" for s t u
  proof -
    assume st: "auth_rel s t" and tu: "auth_rel t u"
    then have "auth_ok t = auth_ok s" by (simp add: auth_rel_def auth_ok_def fun_eq_iff)
    with st tu show "auth_rel s u" by (auto simp: auth_rel_def intro: emitted_trans)
  qed
qed

interpretation em: run_rel "emitted P" for P
  by unfold_locales (auto intro: emitted_refl emitted_trans)

lemma auth_rel_same: "auth g' = auth g \<Longrightarrow> out g' = out g \<Longrightarrow> auth_rel g g'"
  by (simp add: auth_rel_def emitted_same)

lemma auth_rel_emit: "auth g' = auth g \<Longrightarrow> out g' = out g @ [x] \<Longrightarrow> auth_ok g x \<Longrightarrow> auth_rel g g'"
  by (auto simp: auth_rel_def intro: emitted_snoc)

section \<open>Primitive operations keep the relations\<close>

lemma keeps_emitI: "(\<And>g. R g (g\<lparr>out := out g @ [x]\<rparr>)) \<Longrightarrow> keeps R (emit x)"
  by (simp add: emit_def keeps_def mput_def)

lemma auth_emit_plain: "permits_of x = [] \<Longrightarrow> keeps auth_rel (emit x)"
  by (rule keeps_emitI) (rule auth_rel_emit, auto simp: auth_def auth_ok_def)

lemma em_emit: "P x \<Longrightarrow> keeps (emitted P) (emit x)"
  by (rule keeps_emitI) (rule emitted_snoc, auto)

lemma auth_read: "keeps auth_rel (read_env f)"
  by (auto simp: keeps_def read_env_def auth_def intro!: auth_rel_same)

lemma em_read: "keeps (emitted P) (read_env f)"
  by (auto simp: keeps_def read_env_def intro!: emitted_same)

lemma auth_now: "keeps auth_rel (now_ms e)" and auth_mono: "keeps auth_rel (mono e)"
  by (simp_all add: now_ms_def mono_def auth_read)

lemma em_now: "keeps (emitted P) (now_ms e)" and em_mono: "keeps (emitted P) (mono e)"
  by (simp_all add: now_ms_def mono_def em_read)

lemma auth_engine: "keeps auth_rel (engine_request e m)"
  unfolding engine_request_def by (intro auth.keeps_flow auth_emit_plain auth_read) simp

lemma em_engine: "P (EngineRequest m) \<Longrightarrow> keeps (emitted P) (engine_request e m)"
  unfolding engine_request_def by (intro em.keeps_flow em_emit em_read)

text \<open>A method of the permit signer that keeps the configured backdate.\<close>

definition keeps_backdate :: "(permit_signer, 'a) meth \<Rightarrow> bool" where
  "keeps_backdate m \<longleftrightarrow> (\<forall>s. sim_backdate_ns (snd (m s)) = sim_backdate_ns s)"

lemma ps_sign_backdate: "keeps_backdate (ps_sign t k d sim rem wall)"
  by (auto simp: keeps_backdate_def ps_sign_def Let_def split: option.splits)

lemma mput_backdate: "(\<And>s. sim_backdate_ns (f s) = sim_backdate_ns s) \<Longrightarrow> keeps_backdate (mput f)"
  by (simp add: keeps_backdate_def mput_def)

lemma auth_on_permits: "keeps_backdate m \<Longrightarrow> keeps auth_rel (on_permits m)"
  unfolding keeps_def
proof
  fix g assume b: "keeps_backdate m"
  show "auth_rel g (snd (on_permits m g))"
  proof (cases "permits g")
    case None
    then show ?thesis by (simp add: on_permits_def auth.refl)
  next
    case (Some p)
    obtain r p' where m: "m p = (r, p')" by (cases "m p")
    then have "sim_backdate_ns p' = sim_backdate_ns p" using b unfolding keeps_backdate_def by (metis snd_conv)
    with Some m show ?thesis by (auto simp: on_permits_def auth_def intro!: auth_rel_same)
  qed
qed

lemma em_on_permits: "keeps (emitted P) (on_permits m)"
  by (auto simp: keeps_def on_permits_def intro!: emitted_same split: option.splits prod.splits)

lemma auth_with_permits: "keeps auth_rel (with_permits f)"
  unfolding with_permits_def
  by (rule auth.keeps_mbind) (auto intro: auth.keeps_flow split: option.splits)

lemma em_with_permits: "keeps (emitted P) (with_permits f)"
  unfolding with_permits_def
  by (rule em.keeps_mbind) (auto intro: em.keeps_flow split: option.splits)

lemma auth_mput: "(\<And>g. auth (f g) = auth g \<and> out (f g) = out g) \<Longrightarrow> keeps auth_rel (mput f)"
  by (rule auth.keeps_mput) (simp add: auth_rel_same)

lemma em_mput: "(\<And>g. out (f g) = out g) \<Longrightarrow> keeps (emitted P) (mput f)"
  by (rule em.keeps_mput) (simp add: emitted_same)

lemmas auth_prims = auth_read auth_now auth_mono auth_engine auth_with_permits
lemmas em_prims = em_read em_now em_mono em_with_permits em_on_permits

section \<open>Signing\<close>

text \<open>
  What a successful \<^verbatim>\<open>_permit\<close> establishes: it is signed at an instant when the request is
  less than 50 ms old on both clocks and more than 50 ms of its authority and of the world's
  are left, and it is exactly the authority of the request.
\<close>

lemma admission_check_iff:
  "admission_check sa wa b prem pworld = Inr () \<longleftrightarrow>
   0 \<le> sa \<and> 0 \<le> wa \<and> max (sa + b) wa < 50000000 \<and> prem - max (sa + b) wa > 50000000 \<and>
   pworld - max (sa + b) wa > 50000000"
  by (auto simp: admission_check_def Let_def not_less not_le)

lemma admission_check_error: "admission_check sa wa b prem pworld = Inl x \<Longrightarrow> \<exists>m. x = ExpiredActuation m"
  by (auto simp: admission_check_def Let_def split: if_splits)

definition sim_age :: "env \<Rightarrow> gate \<Rightarrow> int" where
  "sim_age e g = ros_ns e (reads g) div 1000000 * 1000000 - permit_sim_ns g"

definition wall_age :: "env \<Rightarrow> gate \<Rightarrow> int" where
  "wall_age e g = mono_ns e (reads g + 1) - permit_wall_ns g"

lemma gate_permit_run:
  assumes "permits g = Some ps" "kind \<noteq> ''stop''"
  shows "gate_permit e target kind digest g =
    (case admission_check (sim_age e g) (wall_age e g) (sim_backdate_ns ps) (permit_remaining_ns g) (permit_world_remaining_ns g) of
       Inl x \<Rightarrow> (Inl x, g\<lparr>reads := reads g + 2\<rparr>)
     | Inr _ \<Rightarrow> (case ps_sign target kind digest (permit_sim_ns g) (permit_remaining_ns g) (permit_wall_ns g) ps of
          (r, ps') \<Rightarrow> (r, g\<lparr>reads := reads g + 2, permits := Some ps'\<rparr>)))"
  using assms
  by (simp add: gate_permit_def with_permits_def mbind_def mret_def mget_def mthen_def mlift_def now_ms_def mono_def
      read_env_def on_permits_def sim_age_def wall_age_def split: sum.splits)

lemma gate_permit_no_permits: "permits g = None \<Longrightarrow> fst (gate_permit e t k d g) \<noteq> Inr p"
  by (simp add: gate_permit_def with_permits_def mbind_def mraise_def mget_def now_ms_def mono_def read_env_def)

lemma gate_permit_Inr:
  assumes "gate_permit e target kind digest g = (Inr p, g')"
  obtains ps where "permits g = Some ps" "kind \<noteq> ''stop''"
    "admission_check (sim_age e g) (wall_age e g) (sim_backdate_ns ps) (permit_remaining_ns g) (permit_world_remaining_ns g) = Inr ()"
    "in_authority (auth g) p" "p_kind p = kind" "p_target p = target" "p_digest p = digest" "auth g' = auth g" "out g' = out g"
proof -
  obtain ps where ps: "permits g = Some ps" using assms gate_permit_no_permits by (cases "permits g") (metis fst_conv, blast)
  moreover have k: "kind \<noteq> ''stop''" using assms by (auto simp: gate_permit_def mraise_def)
  ultimately have r: "admission_check (sim_age e g) (wall_age e g) (sim_backdate_ns ps) (permit_remaining_ns g) (permit_world_remaining_ns g) = Inr ()"
    "\<exists>ps'. ps_sign target kind digest (permit_sim_ns g) (permit_remaining_ns g) (permit_wall_ns g) ps = (Inr p, ps') \<and>
       g' = g\<lparr>reads := reads g + 2, permits := Some ps'\<rparr>"
    using assms by (auto simp: gate_permit_run split: sum.splits prod.splits)
  show thesis
    by (rule that [OF ps k r(1)]) (use r(2) ps in \<open>auto simp: auth_def ps_sign_Inr_iff in_authority.simps\<close>)
qed

lemma auth_gate_permit: "keeps auth_rel (gate_permit e t k d)"
  unfolding gate_permit_def
  by (intro auth.keeps_flow auth_prims auth_on_permits ps_sign_backdate)

lemma em_gate_permit: "keeps (emitted P) (gate_permit e t k d)"
  unfolding gate_permit_def
  by (intro em.keeps_flow em_prims)

lemma auth_stop_permit: "keeps auth_rel (stop_permit e t d sim)"
  unfolding stop_permit_def by (intro auth.keeps_mbind auth_mono auth_on_permits ps_sign_backdate)

lemma em_stop_permit: "keeps (emitted P) (stop_permit e t d sim)"
  unfolding stop_permit_def by (intro em.keeps_mbind em_mono em_on_permits)

lemma stop_permit_kind: "stop_permit e t d sim g = (Inr p, g') \<Longrightarrow> p_kind p = ''stop''"
  by (auto simp: stop_permit_def mbind_def mono_def read_env_def on_permits_def ps_sign_Inr_iff
      split: option.splits prod.splits)


text \<open>The relation \<open>auth_rel\<close> from the states whose authority is a given one.\<close>

definition auth_under :: "authority \<Rightarrow> gate \<Rightarrow> gate \<Rightarrow> bool" where
  "auth_under A g g' \<longleftrightarrow> (auth g = A \<longrightarrow> auth_rel g g')"

interpretation au: run_rel "auth_under A" for A
proof
  show "auth_under A s s" for s by (simp add: auth_under_def auth.refl)
  show "auth_under A s t \<Longrightarrow> auth_under A t u \<Longrightarrow> auth_under A s u" for s t u
    unfolding auth_under_def using auth.trans by (metis auth_rel_def)
qed

lemma au_of: "keeps auth_rel m \<Longrightarrow> keeps (auth_under A) m"
  by (simp add: keeps_def auth_under_def)

lemma au_emit: "(\<And>p. p \<in> set (permits_of x) \<Longrightarrow> in_authority A p) \<Longrightarrow> keeps (auth_under A) (emit x)"
  by (rule keeps_emitI) (auto simp: auth_under_def auth_ok_def auth_def intro!: auth_rel_emit)

text \<open>A method that yields a permit, followed by one that may send it.\<close>

definition yields_authority :: "(gate, 'a) meth \<Rightarrow> ('a \<Rightarrow> permit option) \<Rightarrow> bool" where
  "yields_authority m f \<longleftrightarrow> keeps auth_rel m \<and>
     (\<forall>g x g' p. m g = (Inr x, g') \<longrightarrow> f x = Some p \<longrightarrow> in_authority (auth g) p)"

lemma auth_yields:
  assumes m: "yields_authority m f"
    and n: "\<And>A x. (\<And>p. f x = Some p \<Longrightarrow> in_authority A p) \<Longrightarrow> keeps (auth_under A) (n x)"
  shows "keeps auth_rel (mbind m n)"
proof (rule auth.keeps_mbind_post)
  show k: "keeps auth_rel m" using m by (simp add: yields_authority_def)
  fix s x s' assume run: "m s = (Inr x, s')"
  then have "auth s' = auth s" using k by (auto dest: keepsD simp: auth_rel_def)
  then have "keeps (auth_under (auth s')) (n x)"
    using m run by (intro n) (auto simp: yields_authority_def)
  then show "auth_rel s' (snd (n x s'))" by (simp add: keeps_def auth_under_def)
qed

lemma in_authority_stop: "p_kind p = ''stop'' \<Longrightarrow> in_authority A p"
  by (cases A) (auto simp: in_authority.simps)

lemma stop_yields: "yields_authority (stop_permit e t d sim) Some"
  by (auto simp: yields_authority_def auth_stop_permit dest!: stop_permit_kind intro: in_authority_stop)

lemma permit_yields: "yields_authority (gate_permit e t k d) Some"
  by (auto simp: yields_authority_def auth_gate_permit elim: gate_permit_Inr)

lemma yields_None: "keeps auth_rel m \<Longrightarrow> (\<And>g x g'. m g = (Inr x, g') \<Longrightarrow> f x = None) \<Longrightarrow> yields_authority m f"
  by (fastforce simp: yields_authority_def)

section \<open>Every method keeps the authority of the request\<close>

lemmas auth_send = auth_yields [OF stop_yields] auth_yields [OF permit_yields]

lemma auth_publish_command: "keeps auth_rel (publish_command e l a)"
  unfolding publish_command_def
  by (intro auth_send auth.keeps_flow auth_prims auth_emit_plain au_emit) auto

text \<open>Writes to the permit signer other than its backdate.\<close>

lemma auth_ps_mput: "(\<And>s. sim_backdate_ns (f s) = sim_backdate_ns s) \<Longrightarrow> keeps auth_rel (on_permits (mput f))"
  by (intro auth_on_permits mput_backdate)

lemma auth_publish_zero: "keeps auth_rel (publish_zero e)"
  unfolding publish_zero_def
  by (intro auth.keeps_mthen auth_mput auth_publish_command) (simp add: auth_def)

lemma auth_heartbeat: "keeps auth_rel (heartbeat e t)"
  unfolding heartbeat_def
  by (intro auth_send auth.keeps_flow auth_prims auth_emit_plain au.keeps_mthen au.keeps_mwhen au_emit au_of [OF auth_ps_mput]) auto

lemma auth_cancel_arm: "keeps auth_rel (cancel_arm e)"
  unfolding cancel_arm_def
  by (intro auth_send auth.keeps_flow auth_prims auth_emit_plain auth_mput au.keeps_mthen au.keeps_mret au_emit au_of [OF auth_ps_mput])
     (auto simp: auth_def)

lemma yields_mbind: "keeps auth_rel m \<Longrightarrow> (\<And>x. yields_authority (n x) f) \<Longrightarrow> yields_authority (mbind m n) f"
  unfolding yields_authority_def
proof (intro conjI allI impI, goal_cases)
  case 1
  then show ?case by (simp add: auth.keeps_mbind)
next
  case (2 g x g' p)
  from 2(3) obtain y h where m: "m g = (Inr y, h)" and n: "n y h = (Inr x, g')"
    by (auto simp: mbind_def split: prod.splits sum.splits)
  then have "auth h = auth g" using 2(1) by (auto dest: keepsD simp: auth_rel_def)
  then show ?case using 2(2) [of y] 2(4) n by metis
qed

lemma yields_same: "yields_authority m f \<Longrightarrow> (\<And>x. keeps auth_rel (n x)) \<Longrightarrow>
  (\<And>g x h y g'. m g = (Inr x, h) \<Longrightarrow> n x h = (Inr y, g') \<Longrightarrow> f' y = f x) \<Longrightarrow> yields_authority (mbind m n) f'"
  unfolding yields_authority_def
  by (auto simp: auth.keeps_mbind mbind_def split: prod.splits sum.splits)

lemma auth_arm_goal_permit: "yields_authority (arm_goal_permit e pm tr) id"
proof (cases pm)
  case True
  have "yields_authority (mbind (gate_permit e ''arm'' ''goal'' digest) (\<lambda>p.
             mthen (on_permits (mput (\<lambda>q. q\<lparr>goal_sequence := counter_of (sequence q) ''arm''\<rparr>)))
                   (mret (Some p)))) id" for digest
    by (rule yields_same [OF permit_yields], intro auth.keeps_flow auth_ps_mput)
       (auto simp: mthen_def mbind_def mret_def split: prod.splits sum.splits)
  with True show ?thesis
    by (simp only: arm_goal_permit_def mthen_def simp_thms if_False) (intro yields_mbind [OF auth.keeps_mlift] yields_mbind [OF auth_ps_mput], auto)
qed (auto simp: arm_goal_permit_def yields_authority_def auth.keeps_mret mret_def)

lemma auth_execute_arm: "keeps auth_rel (execute_arm e pts)"
  unfolding execute_arm_def Let_def
  by (intro auth_yields [OF auth_arm_goal_permit] auth.keeps_flow auth_prims au.keeps_mbind au.keeps_mthen au_emit
        au_of [OF auth_mput] au_of [OF auth_mono])
     (auto simp: auth_def split: option.splits dest!: permits_of_goal)

lemma auth_retiring: "keeps auth_rel (arm_renewal_retiring e step)"
  unfolding arm_renewal_retiring_def
  by (intro auth.keeps_flow auth_prims)

lemma auth_publish_arm: "keeps auth_rel (publish_arm e step)"
  unfolding publish_arm_def by (intro auth.keeps_flow auth_execute_arm auth_cancel_arm)

lemma auth_publish_state: "keeps auth_rel (publish_state e step)"
  unfolding publish_state_def by (intro auth.keeps_flow auth_prims auth_emit_plain) simp_all

lemma auth_publish_outcome: "keeps auth_rel (publish_outcome step)"
  unfolding publish_outcome_def by (intro auth.keeps_flow auth_emit_plain) simp_all

lemma auth_note_authority: "keeps auth_rel (note_authority step)"
  unfolding note_authority_def
  by (intro auth.keeps_flow auth_mput) (simp_all add: auth_def)

lemma auth_publish: "keeps auth_rel (publish e step)"
  unfolding publish_def
  by (intro auth.keeps_flow auth_note_authority auth_retiring auth_publish_command auth_publish_arm auth_publish_state
      auth_publish_outcome)

lemma auth_abort: "keeps auth_rel (abort e exc)"
  unfolding abort_def abort_stop_def ignore_errors_def
  by (intro auth.keeps_flow auth_mput auth_emit_plain auth_prims auth_publish_zero auth_cancel_arm)
     (simp_all add: auth_def)

lemma auth_abort_tick: "keeps auth_rel (abort_tick e)"
  unfolding abort_tick_def
  by (intro auth.keeps_flow auth_publish_zero auth_prims auth_emit_plain) simp

lemma auth_on_expired: "keeps auth_rel (on_expired e exc)"
  unfolding on_expired_def
  by (intro auth.keeps_flow auth_prims auth_publish_zero auth_cancel_arm auth_publish auth_abort)

lemma auth_on_malformed: "keeps auth_rel (on_malformed e exc)"
  unfolding on_malformed_def
  by (intro auth.keeps_flow auth_prims auth_publish auth_abort)

lemma auth_handle_exn: "keeps auth_rel (handle_exn e exc)"
  by (cases exc) (auto intro: auth_on_expired auth_on_malformed auth_abort)

end
