(* ===== verification/Gate_Receive.thy ===== *)
theory Gate_Receive
  imports Gate_Safety
begin

text \<open>
  Theorems about a whole callback of the gate node: what the failure paths may send, what a
  \<^verbatim>\<open>_receive\<close> may send and under which authority, and the step relation of the node with the
  fail-closed latch.
\<close>

section \<open>Zero velocities\<close>

lemma f_zero_0 [simp]: "f_zero 0"
  by (simp add: f_zero_def)

lemma f_val_0: "f_val w = 0 \<Longrightarrow> f_zero w"
proof -
  assume "f_val w = 0"
  then have e: "f_exp w = 0" and m: "f_mant w = 0"
    by (auto simp: f_val_def add_nonneg_eq_0_iff split: if_splits)
  then have "unat w div 2 ^ 52 mod 2048 = 0" "unat w mod 2 ^ 52 = 0" by (simp_all add: f_exp_def f_mant_def)
  then have "unat w mod (2 ^ 52 * 2048) = 0" by (simp only: mod_mult2_eq mult_0_right add_0_right)
  then show ?thesis by (simp add: f_zero_def)
qed

lemma zero_float: "eq_int v 0 \<Longrightarrow> py_float v = Inr w \<Longrightarrow> f_zero w"
  by (cases v) (auto simp: eq_int_def double_of_rat_def f_val_0 split: if_splits)

section \<open>Quiet methods\<close>

lemma em_publish_command: "(\<And>p. P (PubCommand l a p)) \<Longrightarrow> keeps (emitted P) (publish_command e l a)"
  unfolding publish_command_def
  by (intro em.keeps_flow em_prims em_emit em_gate_permit em_stop_permit)

lemma quiet_publish_zero: "keeps (emitted quiet) (publish_zero e)"
  unfolding publish_zero_def
  by (intro em.keeps_mthen em_mput em_publish_command) simp_all

lemma quiet_heartbeat: "keeps (emitted quiet) (heartbeat e t)"
  unfolding heartbeat_def
  by (intro em.keeps_flow em_prims em_emit em_gate_permit) simp_all

lemma quiet_cancel_arm: "keeps (emitted quiet) (cancel_arm e)"
  unfolding cancel_arm_def
  by (intro em.keeps_flow em_prims em_emit em_mput em_stop_permit) simp_all

lemma em_retiring: "keeps (emitted P) (arm_renewal_retiring e step)"
  unfolding arm_renewal_retiring_def by (intro em.keeps_flow em_prims)

lemma quiet_publish_state: "keeps (emitted quiet) (publish_state e step)"
  unfolding publish_state_def by (intro em.keeps_flow em_prims em_emit) simp_all

lemma quiet_publish_outcome: "keeps (emitted quiet) (publish_outcome step)"
  unfolding publish_outcome_def by (intro em.keeps_flow em_emit) simp_all

lemma em_note_authority: "keeps (emitted P) (note_authority step)"
  unfolding note_authority_def by (intro em.keeps_flow em_mput) simp_all

text \<open>A value computed without effect, with what it satisfies.\<close>

lemma em_mlift: "(\<And>x. r = Inr x \<Longrightarrow> keeps (emitted P) (f x)) \<Longrightarrow> keeps (emitted P) (mbind (mlift r) f)"
  by (rule em.keeps_mbind_post [OF em.keeps_mlift]) (auto simp: mlift_def keeps_def)

lemma quiet_publish_arm:
  "dget step ''arm'' = Inr arm \<Longrightarrow> \<not> has_key ''execute'' arm \<Longrightarrow> keeps (emitted quiet) (publish_arm e step)"
  unfolding publish_arm_def
  by (intro em_mlift) (auto intro!: em.keeps_flow quiet_cancel_arm)

lemma quiet_publish:
  assumes "actuating step = Inr False"
  shows "keeps (emitted quiet) (publish e step)"
proof -
  obtain l a arm where v: "cmd_field step ''linear'' = Inr l" "cmd_field step ''angular'' = Inr a" "eq_int l 0" "eq_int a 0"
    and arm: "dget step ''arm'' = Inr arm" "\<not> has_key ''execute'' arm"
    using assms by (auto simp: actuating_False_zero cmd_field_def)
  from v have cmd: "keeps (emitted quiet) (mbind (mlift (rbind (cmd_field step ''linear'') py_float)) (\<lambda>l.
                mbind (mlift (rbind (cmd_field step ''angular'') py_float)) (\<lambda>a. publish_command e l a)))"
    by (intro em_mlift em_publish_command) (auto dest: zero_float)
  show ?thesis
    unfolding publish_def
    by (intro cmd em.keeps_flow em_note_authority em_retiring quiet_publish_arm [OF arm] quiet_publish_state quiet_publish_outcome)
qed

lemma quiet_abort: "keeps (emitted quiet) (abort e exc)"
  unfolding abort_def abort_stop_def ignore_errors_def
  by (intro em.keeps_flow em_prims em_engine em_emit em_mput quiet_publish_zero quiet_cancel_arm) simp_all

lemma quiet_abort_tick: "keeps (emitted quiet) (abort_tick e)"
  unfolding abort_tick_def by (intro em.keeps_flow em_prims em_emit quiet_publish_zero) simp_all

lemma quiet_on_expired: "keeps (emitted quiet) (on_expired e exc)"
  unfolding on_expired_def
  by (intro em.keeps_flow em_prims em_engine em_mlift quiet_publish_zero quiet_cancel_arm quiet_abort quiet_publish)
     (auto dest: check_rejection_Inr)

section \<open>Stop permits\<close>

text \<open>
  The states in which every permit sent is a stop: the flags \<^verbatim>\<open>_publish_zero\<close> and the publication of
  a disarmed answer set.
\<close>

definition stopping :: "gate \<Rightarrow> bool" where
  "stopping g \<longleftrightarrow> (has_permits g \<longrightarrow> \<not> permit_reset g \<and> permit_stop g)"

definition stop_rel :: "gate \<Rightarrow> gate \<Rightarrow> bool" where
  "stop_rel g h \<longleftrightarrow> (stopping g \<longrightarrow> stopping h \<and> emitted stop_only g h)"

interpretation st: run_rel stop_rel
  by unfold_locales (auto simp: stop_rel_def intro: emitted_refl emitted_trans)

definition flags :: "gate \<Rightarrow> bool \<times> bool \<times> bool" where
  "flags g = (has_permits g, permit_reset g, permit_stop g)"

lemma stopping_flags: "flags h = flags g \<Longrightarrow> stopping h = stopping g"
  by (simp add: flags_def stopping_def)

lemma st_mput: "(\<And>g. flags (f g) = flags g \<and> out (f g) = out g) \<Longrightarrow> keeps stop_rel (mput f)"
  by (rule st.keeps_mput) (metis emitted_same stop_rel_def stopping_flags)

lemma st_emit: "stop_only x \<Longrightarrow> keeps stop_rel (emit x)"
  by (rule keeps_emitI) (auto simp: stop_rel_def stopping_def has_permits_def intro!: emitted_snoc)

lemma st_read: "keeps stop_rel (read_env f)"
  by (auto simp: keeps_def read_env_def stop_rel_def stopping_def has_permits_def intro!: emitted_same)

lemma st_on_permits: "keeps stop_rel (on_permits m)"
  by (auto simp: keeps_def on_permits_def stop_rel_def stopping_def has_permits_def intro!: emitted_same
      split: option.splits prod.splits)

lemma st_with_permits: "keeps stop_rel (with_permits f)"
  unfolding with_permits_def by (intro st.keeps_flow)

lemma st_now: "keeps stop_rel (now_ms e)" and st_mono: "keeps stop_rel (mono e)"
  by (simp_all add: now_ms_def mono_def st_read)

lemma stop_only_plain: "permits_of x = [] \<Longrightarrow> stop_only x"
  by (simp add: stop_only_def)

lemma st_engine: "keeps stop_rel (engine_request e m)"
  unfolding engine_request_def by (intro st.keeps_flow st_emit st_read stop_only_plain) simp

lemmas st_prims = st_read st_on_permits st_with_permits st_now st_mono st_engine

lemma st_stop_emit:
  assumes "\<And>p. p_kind p = ''stop'' \<Longrightarrow> keeps stop_rel (f p)"
  shows "keeps stop_rel (mbind (stop_permit e t d sim) f)"
proof (rule st.keeps_mbind_post)
  show "keeps stop_rel (stop_permit e t d sim)"
    unfolding stop_permit_def by (intro st.keeps_flow st_prims)
  show "stop_permit e t d sim s = (Inr x, s') \<Longrightarrow> stop_rel s' (snd (f x s'))" for s x s'
    using assms [of x] stop_permit_kind by (auto simp: keeps_def)
qed


lemma gate_permit_None: "permits g = None \<Longrightarrow> stop_rel g (snd (mbind (gate_permit e t k d) f g))"
  using gate_permit_no_permits [of g e t k d]
  by (auto simp: mbind_def gate_permit_def with_permits_def mraise_def mget_def now_ms_def mono_def read_env_def
      stop_rel_def stopping_def has_permits_def intro!: emitted_same)

lemma st_publish_command:
  assumes "f_zero l" "f_zero a"
  shows "keeps stop_rel (publish_command e l a)"
proof -
  define A where "A = mbind (now_ms e) (\<lambda>now.
               mbind (mlift (base_digest (sha256 e) (base_command l a (now * 1000000)))) (\<lambda>digest.
               mbind (stop_permit e ''base'' digest (now * 1000000)) (\<lambda>p. emit (PubCommand l a (Some p)))))"
  define B where "B r psim = mbind (mlift (base_digest (sha256 e) (base_command l a psim))) (\<lambda>digest.
               mbind (gate_permit e ''base'' (if r then ''reset'' else ''command'') digest) (\<lambda>p.
               emit (PubCommand l a (Some p))))" for r psim
  have A: "keeps stop_rel A"
    unfolding A_def by (intro st_stop_emit st.keeps_flow st_prims st_emit) (simp add: stop_only_def)
  have B: "stop_rel s (snd (B r q s))" if "permits s = None" for s r q
    using gate_permit_None [OF that] by (auto simp: B_def mbind_def [of "mlift _"] mlift_def st.refl split: sum.splits)
  have AB: "keeps stop_rel (mbind (mget (\<lambda>g. (permit_reset g, permit_stop g, permit_sim_ns g))) (\<lambda>(reset, pstop, psim).
             if \<not> reset \<and> f_zero l \<and> f_zero a \<and> pstop then A else B reset psim))"
  proof (rule st.keeps_mbind_post [OF st.keeps_mget], goal_cases)
    case (1 s x s')
    then have "s' = s" "x = (permit_reset s, permit_stop s, permit_sim_ns s)" by (auto simp: mget_def)
    then show ?case
      using A B [of s] assms by (cases "permits s") (auto simp: keeps_def stop_rel_def stopping_def has_permits_def)
  qed
  show ?thesis
    unfolding publish_command_def A_def [symmetric] B_def [symmetric]
    by (intro AB st.keeps_flow st_prims st_emit stop_only_plain) simp_all
qed

text \<open>A method after whose return only stop permits are sent.\<close>

definition stops :: "(gate, 'a) meth \<Rightarrow> bool" where
  "stops m \<longleftrightarrow> (\<forall>g. emitted stop_only g (snd (m g)) \<and> (\<forall>x. fst (m g) = Inr x \<longrightarrow> stopping (snd (m g))))"

lemma stops_then:
  assumes m: "stops m" and n: "\<And>x. keeps stop_rel (n x)"
  shows "stops (mbind m n)"
  unfolding stops_def
proof
  fix g
  obtain r h where g: "m g = (r, h)" by (cases "m g")
  with m have e: "emitted stop_only g h" and s: "r = Inr x \<Longrightarrow> stopping h" for x
    by (auto simp: stops_def dest!: spec [of _ g])
  show "emitted stop_only g (snd (mbind m n g)) \<and> (\<forall>x. fst (mbind m n g) = Inr x \<longrightarrow> stopping (snd (mbind m n g)))"
  proof (cases r)
    case (Inl a)
    with g e show ?thesis by (simp add: mbind_def)
  next
    case (Inr x)
    with n [of x] s have "stopping (snd (n x h))" "emitted stop_only h (snd (n x h))"
      by (auto simp: keeps_def stop_rel_def)
    with g e Inr show ?thesis by (auto simp: mbind_def intro: emitted_trans)
  qed
qed

lemma stops_after: "keeps (emitted stop_only) m \<Longrightarrow> (\<And>x. stops (n x)) \<Longrightarrow> stops (mbind m n)"
  unfolding stops_def keeps_def mbind_def
  by (auto split: prod.splits sum.splits) (metis emitted_trans snd_conv)+

lemma stops_emitted: "stops m \<Longrightarrow> keeps (emitted stop_only) m"
  by (simp add: stops_def keeps_def)

lemma stops_mput: "(\<And>g. stopping (f g) \<and> out (f g) = out g) \<Longrightarrow> stops (mput f)"
  by (auto simp: stops_def mput_def intro: emitted_same)

lemma stops_publish_zero: "stops (publish_zero e)"
  unfolding publish_zero_def mthen_def
  by (intro stops_then stops_mput st_publish_command) (auto simp: stopping_def has_permits_def)

lemma st_publish_zero: "keeps stop_rel (publish_zero e)"
  using stops_publish_zero [of e] st_publish_command [of 0 0 e]
  unfolding publish_zero_def
  by (intro st.keeps_mthen st.keeps_mput) (auto simp: stop_rel_def stopping_def has_permits_def intro!: emitted_same)

lemma st_cancel_arm: "keeps stop_rel (cancel_arm e)"
  unfolding cancel_arm_def
  by (intro st_stop_emit st.keeps_flow st_prims st_mput st_emit) (simp_all add: stop_only_def flags_def has_permits_def)

lemma stops_abort: "keeps (emitted stop_only) (abort e exc)"
proof -
  have z: "keeps (emitted stop_only) (mthen (publish_zero e) n)" if "keeps stop_rel n" for n :: "(gate, unit) meth"
    unfolding mthen_def using that by (intro stops_emitted stops_then stops_publish_zero)
  show ?thesis
    unfolding abort_def abort_stop_def ignore_errors_def
    by (intro z em.keeps_mbind em.keeps_mget em.keeps_if em.keeps_mret em.keeps_mthen [OF em_mput]
        st.keeps_flow st_prims st_emit st_mput st_cancel_arm stop_only_plain)
       (simp_all add: flags_def has_permits_def)
qed

lemma stops_abort_tick: "keeps (emitted stop_only) (abort_tick e)"
  unfolding abort_tick_def mthen_def
  by (intro stops_emitted stops_then stops_publish_zero st.keeps_flow st_prims st_emit stop_only_plain) simp_all


section \<open>Publishing the answer of a disarmed engine\<close>

lemma disarmed_status:
  assumes "check_rejection step = Inr s"
  obtains st where "dget step ''status'' = Inr st" "dget st ''armed'' = Inr (PList [])"
proof -
  have "not_disarmed step = Inr False" using assms by (auto simp: check_rejection_def rbind_Inr_iff split: if_splits)
  then obtain st where 1: "dget_or step ''status'' (PDict []) = Inr st" and 2: "dget st ''armed'' = Inr (PList [])"
    by (auto simp: not_disarmed_def rbind_Inr_iff ror_False_iff)
  then have "dget step ''status'' = Inr st"
    by (cases step) (auto split: option.splits)
  with 2 show thesis by (rule that [rotated])
qed

lemma disarmed_flags:
  assumes "check_rejection step = Inr s" and "status_of step = Inr st" and "dget st ''armed'' = Inr a"
  shows "\<not> truthy a"
proof -
  obtain st' where "dget step ''status'' = Inr st'" "dget st' ''armed'' = Inr (PList [])"
    using assms(1) by (rule disarmed_status)
  with assms(2,3) show ?thesis by (auto simp: status_of_def or_empty_def split: if_splits)
qed

lemma disarmed_no_rearm: "check_rejection step = Inr s \<Longrightarrow> explicit_rearm step \<noteq> Inr True"
  by (auto simp: explicit_rearm_def rbind_Inr_iff rand_True_iff or_get_def status_of_def dest: disarmed_flags)

lemma stops_note_authority:
  assumes "check_rejection step = Inr s"
  shows "stops (note_authority step)"
proof -
  define q where "q = rbind (status_of step) (\<lambda>st. rbind (dget st ''armed'') (\<lambda>a.
                  if \<not> truthy a then Inr True
                  else rbind (dget st ''mode'') (\<lambda>m. Inr (m \<noteq> PStr ''normal'' \<and> m \<noteq> PStr ''caution''))))"
  have r: "explicit_rearm step \<noteq> Inr True" using assms by (rule disarmed_no_rearm)
  have q: "q \<noteq> Inr False" using disarmed_flags [OF assms] by (auto simp: q_def rbind_Inr_iff split: if_splits)
  show ?thesis
    unfolding note_authority_def q_def [symmetric] stops_def
    using r q by (intro allI, cases "explicit_rearm step"; cases q)
      (auto simp: meth_defs stopping_def has_permits_def intro!: emitted_same)
qed

lemma st_mlift: "(\<And>x. r = Inr x \<Longrightarrow> keeps stop_rel (f x)) \<Longrightarrow> keeps stop_rel (mbind (mlift r) f)"
  by (rule st.keeps_mbind_post [OF st.keeps_mlift]) (auto simp: mlift_def keeps_def)

lemma st_publish_arm:
  "dget step ''arm'' = Inr arm \<Longrightarrow> \<not> has_key ''execute'' arm \<Longrightarrow> keeps stop_rel (publish_arm e step)"
  unfolding publish_arm_def
  by (intro st_mlift) (auto intro!: st.keeps_flow st_cancel_arm)

lemma st_publish_state: "keeps stop_rel (publish_state e step)"
  unfolding publish_state_def by (intro st.keeps_flow st_prims st_emit stop_only_plain) simp_all

lemma st_publish_outcome: "keeps stop_rel (publish_outcome step)"
  unfolding publish_outcome_def by (intro st.keeps_flow st_emit stop_only_plain) simp_all

lemma st_retiring: "keeps stop_rel (arm_renewal_retiring e step)"
  unfolding arm_renewal_retiring_def by (intro st.keeps_flow st_prims)

lemma stops_publish:
  assumes "check_rejection step = Inr s"
  shows "stops (publish e step)"
proof -
  have "actuating step = Inr False" using assms by (auto dest: check_rejection_Inr)
  then obtain l a arm where v: "cmd_field step ''linear'' = Inr l" "cmd_field step ''angular'' = Inr a" "eq_int l 0" "eq_int a 0"
    and arm: "dget step ''arm'' = Inr arm" "\<not> has_key ''execute'' arm"
    by (auto simp: actuating_False_zero cmd_field_def)
  from v have cmd: "keeps stop_rel (mbind (mlift (rbind (cmd_field step ''linear'') py_float)) (\<lambda>l.
                mbind (mlift (rbind (cmd_field step ''angular'') py_float)) (\<lambda>a. publish_command e l a)))"
    by (intro st_mlift st_publish_command) (auto dest: zero_float)
  show ?thesis
    unfolding publish_def mthen_def [of "note_authority step"]
    by (intro stops_then [OF stops_note_authority [OF assms]] cmd st.keeps_flow st_retiring st_publish_arm [OF arm]
        st_publish_state st_publish_outcome)
qed

text \<open>
  What the Rust process documents of the \<^verbatim>\<open>reject\<close> request (\<^verbatim>\<open>Enforcer::reject\<close> clears the active
  action and every armed role before it computes the answer).
\<close>

definition engine_disarms :: "env \<Rightarrow> bool" where
  "engine_disarms e \<longleftrightarrow> (\<forall>i t why s. engine e i (reject_request t why) = Inr s \<longrightarrow> check_rejection s = Inr s)"

lemma rejection_disarmed:
  "engine_disarms e \<Longrightarrow> engine_request e (reject_request t why) g = (Inr s, g') \<Longrightarrow> check_rejection s = Inr s"
  by (auto simp: engine_request_def engine_disarms_def meth_defs emit_def read_env_def split: sum.splits)

text \<open>Publishing the answer to a reject request, for a relation that holds of disarmed answers.\<close>

lemma em_reject:
  assumes "engine_disarms e" "\<And>m. P (EngineRequest m)"
    and "\<And>s. check_rejection s = Inr s \<Longrightarrow> keeps (emitted P) (f s)"
  shows "keeps (emitted P) (mbind (engine_request e (reject_request t why)) f)"
proof (rule em.keeps_mbind_post [OF em_engine])
  show "engine_request e (reject_request t why) s = (Inr x, s') \<Longrightarrow> emitted P s' (snd (f x s'))" for s x s'
    using assms(3) [of x] rejection_disarmed [OF assms(1)] by (auto simp: keeps_def)
qed (rule assms(2))

lemma stop_only_engine: "stop_only (EngineRequest m)"
  by (simp add: stop_only_def)

lemma stops_on_malformed: "engine_disarms e \<Longrightarrow> keeps (emitted stop_only) (on_malformed e exc)"
  unfolding on_malformed_def
  by (intro em.keeps_mcatch em.keeps_mbind [OF em_now] em_reject em.keeps_mbind [OF stops_emitted [OF stops_publish]]
      em.keeps_mret stops_abort stop_only_engine)

lemma quiet_on_malformed: "engine_disarms e \<Longrightarrow> keeps (emitted quiet) (on_malformed e exc)"
  unfolding on_malformed_def
  by (intro em.keeps_mcatch em.keeps_mbind [OF em_now] em_reject em.keeps_mbind [OF quiet_publish]
      em.keeps_mret quiet_abort) (auto dest: check_rejection_Inr)

text \<open>A method that sends only stop permits when it starts in a stopping state.\<close>

definition stops_from :: "(gate, 'a) meth \<Rightarrow> bool" where
  "stops_from m \<longleftrightarrow> (\<forall>g. stopping g \<longrightarrow> emitted stop_only g (snd (m g)))"

lemma stops_from_mbind: "keeps stop_rel m \<Longrightarrow> (\<And>x. stops_from (n x)) \<Longrightarrow> stops_from (mbind m n)"
  unfolding stops_from_def keeps_def stop_rel_def mbind_def
  by (auto split: prod.splits sum.splits) (metis emitted_trans snd_conv)+

lemma stops_from_mcatch: "stops_from m \<Longrightarrow> (\<And>x. keeps (emitted stop_only) (h x)) \<Longrightarrow> stops_from (mcatch m h)"
  unfolding stops_from_def keeps_def mcatch_def
  by (auto split: prod.splits sum.splits) (metis emitted_trans snd_conv)+

lemma stops_from_keeps: "keeps (emitted stop_only) m \<Longrightarrow> stops_from m"
  by (simp add: stops_from_def keeps_def)

lemma stops_bind_from: "stops m \<Longrightarrow> (\<And>x. stops_from (n x)) \<Longrightarrow> keeps (emitted stop_only) (mbind m n)"
  unfolding stops_def stops_from_def keeps_def mbind_def
  by (auto split: prod.splits sum.splits) (metis emitted_trans fst_conv snd_conv)+

lemma stops_on_expired: "keeps (emitted stop_only) (on_expired e exc)"
proof -
  have p: "keeps (emitted stop_only) (mbind (mlift (check_rejection step)) (\<lambda>s. mbind (publish e s) (\<lambda>_. mret ())))" for step
    by (intro em_mlift em.keeps_mbind [OF stops_emitted [OF stops_publish]] em.keeps_mret) (auto dest: check_rejection_Inr)
  show ?thesis
    unfolding on_expired_def mthen_def
    by (intro stops_bind_from stops_publish_zero stops_from_mcatch stops_from_mbind st_cancel_arm st_prims
        stops_from_keeps [OF p] stops_abort)
qed

lemma stops_handle_exn: "engine_disarms e \<Longrightarrow> keeps (emitted stop_only) (handle_exn e exc)"
  by (cases exc) (auto intro: stops_on_expired stops_on_malformed stops_abort)

lemma quiet_handle_exn: "engine_disarms e \<Longrightarrow> keeps (emitted quiet) (handle_exn e exc)"
  by (cases exc) (auto intro: quiet_on_expired quiet_on_malformed quiet_abort)

section \<open>The callbacks of the subscriptions\<close>

text \<open>A callback that only talks to the Rust process: it sends nothing to the controllers.\<close>

definition plain :: "effect \<Rightarrow> bool" where
  "plain x \<longleftrightarrow> permits_of x = [] \<and> quiet x"

definition config :: "gate \<Rightarrow> int \<times> int \<times> world_clock \<times> int \<times> int \<times> int option" where
  "config g = (world_max_age_ms g, max_actuation_response_ms g, permit_world g, permit_sim_ns g, permit_wall_ns g, map_option sim_backdate_ns (permits g))"

definition plain_rel :: "gate \<Rightarrow> gate \<Rightarrow> bool" where
  "plain_rel g h \<longleftrightarrow> config h = config g \<and> emitted plain g h"

interpretation pl: run_rel plain_rel
  by unfold_locales (auto simp: plain_rel_def intro: emitted_refl emitted_trans)

lemma pl_mput: "(\<And>g. config (f g) = config g \<and> out (f g) = out g) \<Longrightarrow> keeps plain_rel (mput f)"
  by (rule pl.keeps_mput) (simp add: plain_rel_def emitted_same)

lemma pl_emit: "plain x \<Longrightarrow> keeps plain_rel (emit x)"
  by (rule keeps_emitI) (auto simp: plain_rel_def config_def intro!: emitted_snoc)

lemma pl_read: "keeps plain_rel (read_env f)"
  by (auto simp: keeps_def read_env_def plain_rel_def config_def intro!: emitted_same)

lemma pl_now: "keeps plain_rel (now_ms e)" and pl_mono: "keeps plain_rel (mono e)"
  by (simp_all add: now_ms_def mono_def pl_read)

lemma pl_engine: "keeps plain_rel (engine_request e m)"
  unfolding engine_request_def by (intro pl.keeps_flow pl_emit pl_read) (simp add: plain_def)

lemma pl_on_gsigner: "keeps plain_rel (on_gsigner m)"
  by (auto simp: keeps_def on_gsigner_def plain_rel_def config_def emitted_refl intro!: emitted_same
      split: option.splits prod.splits)

lemmas pl_prims = pl_read pl_now pl_mono pl_engine pl_on_gsigner

lemma pl_gate_send: "keeps plain_rel (gate_send e role payload)"
  unfolding gate_send_def by (intro pl.keeps_flow pl_prims)

lemma pl_gate_proposal: "keeps plain_rel (gate_proposal e role action)"
  unfolding gate_proposal_def
  by (intro pl.keeps_flow pl_prims pl_gate_send pl_mput) (simp add: config_def)

lemma pl_tick_callback: "keeps plain_rel (tick_callback e)"
  unfolding tick_callback_def deadline_passed_def
  by (intro pl.keeps_flow pl_prims pl_gate_send)


section \<open>One exchange\<close>

lemma pl_receive_start_emits:
  assumes "keeps plain_rel cb"
  shows "keeps (emitted plain) (receive_start e cb)"
proof -
  have "keeps (emitted plain) cb" using assms by (auto simp: keeps_def plain_rel_def)
  then show ?thesis
    unfolding receive_start_def check_exchange_def Let_def
    by (intro em.keeps_flow em_prims em_mput) simp_all
qed

text \<open>The invariant of the node: a legal backdate, a nonnegative accepted stamp.\<close>

definition gate_inv :: "gate \<Rightarrow> bool" where
  "gate_inv g \<longleftrightarrow> (\<forall>ps. permits g = Some ps \<longrightarrow> 0 \<le> sim_backdate_ns ps) \<and>
     (\<forall>st. wc_stamp_ns (permit_world g) = Some st \<longrightarrow> 0 \<le> st)"

lemma wc_observe_nonneg:
  "\<forall>st. wc_stamp_ns c = Some st \<longrightarrow> 0 \<le> st \<Longrightarrow> wc_stamp_ns (snd (wc_observe step w c)) = Some st \<Longrightarrow> 0 \<le> st"
  by (auto simp: wc_observe_eq usable_stamp_def split: option.splits sum.splits if_splits)

text \<open>What a grant establishes: the remaining authority is inside the accepted world and 200 ms.\<close>

definition granted :: "gate \<Rightarrow> bool" where
  "granted g \<longleftrightarrow> 0 < permit_remaining_ns g \<and> permit_remaining_ns g \<le> MAX_LEASE_NS \<and>
     permit_remaining_ns g \<le> wc_remaining (permit_world g) (permit_sim_ns g) (permit_wall_ns g) (world_max_age_ms g * 1000000)"

lemma remaining_ms_le: "remaining_ms step wmax t = Inr r \<Longrightarrow> r \<le> 200"
  by (auto simp: remaining_ms_def rbind_Inr_iff split: if_splits)

lemma set_authority_granted: "set_authority step t g = (Inr u, g') \<Longrightarrow> granted g'"
  by (auto simp: set_authority_def meth_defs on_world_def granted_def MAX_LEASE_NS_def not_le dest!: remaining_ms_le
      split: sum.splits prod.splits if_splits)

lemma set_authority_out: "set_authority step t g = (r, g') \<Longrightarrow> out g' = out g"
  by (auto simp: set_authority_def meth_defs on_world_def split: sum.splits prod.splits if_splits)

lemma auth_receive_finish: "keeps auth_rel (receive_finish e x)"
  unfolding receive_finish_def by (intro auth.keeps_flow auth_publish auth_heartbeat)

lemma receive_run:
  assumes "receive e cb g = (r, g')" and "\<not> failed g"
  obtains r1 g1 where "receive_body e cb g = (r1, g1)" "g1 = g' \<or> (\<exists>x. handle_exn e x g1 = (r, g'))"
  using assms by (auto simp: receive_def meth_defs split: prod.splits sum.splits)

section \<open>What a callback may send\<close>

text \<open>A permit is inside the world the node accepted: its deadline on both clocks, and 200 ms.\<close>

definition inside_world :: "gate \<Rightarrow> permit \<Rightarrow> bool" where
  "inside_world g p \<longleftrightarrow>
     (\<exists>st wa. wc_stamp_ns (permit_world g) = Some st \<and> wc_wall_ns (permit_world g) = Some wa \<and>
        p_sim_end p \<le> st + world_max_age_ms g * 1000000 \<and> p_wall_end p \<le> wa + world_max_age_ms g * 1000000 \<and>
        wa \<le> p_wall p \<and> p_wall p < p_wall_end p \<and> p_wall_end p \<le> p_wall p + MAX_LEASE_NS \<and>
        p_sim p < p_sim_end p \<and> p_sim_end p \<le> p_sim p + MAX_LEASE_NS)"

lemma granted_inside:
  assumes "granted g" "in_authority (auth g) p" "p_kind p \<noteq> ''stop''" "gate_inv g"
  shows "inside_world g p"
proof -
  obtain b where p: "map_option sim_backdate_ns (permits g) = Some b" "p_wall p = permit_wall_ns g"
    "p_wall_end p = permit_wall_ns g + min MAX_LEASE_NS (permit_remaining_ns g)"
    "p_sim p = max 0 (permit_sim_ns g - b)" "p_sim_end p = max 0 (permit_sim_ns g - b) + min MAX_LEASE_NS (permit_remaining_ns g)"
    using assms(2,3) by (auto simp: auth_def in_authority.simps)
  have b: "0 \<le> b" using p(1) assms(4) by (auto simp: gate_inv_def)
  obtain st wa where w: "wc_stamp_ns (permit_world g) = Some st" "wc_wall_ns (permit_world g) = Some wa"
    "st \<le> permit_sim_ns g" "wa \<le> permit_wall_ns g"
    "permit_sim_ns g + permit_remaining_ns g \<le> st + world_max_age_ms g * 1000000"
    "permit_wall_ns g + permit_remaining_ns g \<le> wa + world_max_age_ms g * 1000000"
    using wc_remaining_deadline [of "permit_world g" "permit_sim_ns g" "permit_wall_ns g" "world_max_age_ms g * 1000000"] assms(1)
    by (fastforce simp: granted_def)
  have "0 \<le> st" using w(1) assms(4) by (auto simp: gate_inv_def)
  then show ?thesis
    using p w b assms(1) unfolding inside_world_def granted_def by (intro exI [of _ st] exI [of _ wa]) (auto simp: MAX_LEASE_NS_def)
qed


text \<open>The part of the state the invariant and the bound are about.\<close>

definition core :: "gate \<Rightarrow> world_clock \<times> int option \<times> int" where
  "core g = (permit_world g, map_option sim_backdate_ns (permits g), world_max_age_ms g)"

lemma core_inv: "core h = core g \<Longrightarrow> gate_inv h = gate_inv g \<and> has_permits h = has_permits g \<and> inside_world h = inside_world g"
  by (cases "permits g"; cases "permits h") (auto simp: core_def gate_inv_def has_permits_def inside_world_def fun_eq_iff)

definition same_core :: "gate \<Rightarrow> gate \<Rightarrow> bool" where
  "same_core g h \<longleftrightarrow> core h = core g"

interpretation co: run_rel same_core
  by unfold_locales (auto simp: same_core_def)

lemma auth_core: "auth_rel g h \<Longrightarrow> core h = core g"
  by (simp add: auth_rel_def auth_def core_def)

lemma plain_core: "plain_rel g h \<Longrightarrow> core h = core g"
  by (simp add: plain_rel_def config_def core_def)

lemma co_mput: "(\<And>g. core (f g) = core g) \<Longrightarrow> keeps same_core (mput f)"
  by (rule co.keeps_mput) (simp add: same_core_def)

lemma co_plain: "keeps plain_rel m \<Longrightarrow> keeps same_core m"
  by (auto simp: keeps_def same_core_def dest: plain_core)

lemma receive_start_core:
  assumes "keeps plain_rel cb" "receive_start e cb g = (r, h)"
  shows "core h = core g"
proof -
  have "keeps same_core (receive_start e cb)"
    unfolding receive_start_def check_exchange_def Let_def
    by (intro co.keeps_flow co_plain [OF pl_mono] co_plain [OF pl_now] co_plain [OF assms(1)] co_mput) (simp add: core_def)
  with assms(2) show ?thesis by (auto dest: keepsD simp: same_core_def)
qed

lemma receive_start_permits: "receive_start e cb g = (Inr x, h) \<Longrightarrow> x_permits x = has_permits g"
  by (auto simp: receive_start_def check_exchange_def mthen_def mbind_Inr_iff mget_def mret_def read_env_def mono_def now_ms_def
      has_permits_def Let_def)

lemma set_authority_frame:
  "set_authority step t g = (r, g') \<Longrightarrow>
   permit_world g' = snd (wc_observe step (permit_wall_ns g) (permit_world g)) \<and> permits g' = permits g"
  by (auto simp: set_authority_def meth_defs on_world_def split: sum.splits prod.splits if_splits)

lemma set_authority_inv:
  assumes "gate_inv g" "set_authority step t g = (r, g')"
  shows "gate_inv g' \<and> has_permits g' = has_permits g"
  using set_authority_frame [OF assms(2)] wc_observe_nonneg [of "permit_world g" step "permit_wall_ns g"] assms(1)
  unfolding gate_inv_def has_permits_def by presburger

text \<open>
  A run of \<^verbatim>\<open>_receive\<close>'s body: nothing but requests to the Rust process, then, if the exchange
  was fresh and authority was granted, only what that authority covers.
\<close>

lemma receive_body_run:
  assumes cb: "keeps plain_rel cb" and inv: "gate_inv g" and run: "receive_body e cb g = (r, g')"
  shows "gate_inv g' \<and> emitted plain g g' \<or>
    (\<exists>x h1 h. receive_start e cb g = (Inr x, h1) \<and> emitted plain g h \<and> gate_inv h \<and> (has_permits h \<longrightarrow> granted h) \<and>
       receive_finish e x h = (r, g'))"
proof -
  obtain rx h1 where start: "receive_start e cb g = (rx, h1)" by (cases "receive_start e cb g")
  have i1: "gate_inv h1" and hp: "has_permits h1 = has_permits g"
    using core_inv [OF receive_start_core [OF cb start]] inv by auto
  have p1: "emitted plain g h1" using start pl_receive_start_emits [OF cb] by (auto dest: keepsD)
  show ?thesis
  proof (cases rx)
    case (Inl y)
    with run start p1 i1 show ?thesis by (simp add: receive_body_def mbind_def)
  next
    case x: (Inr x)
    have xp: "x_permits x = has_permits h1" using start x hp by (auto dest: receive_start_permits)
    obtain rs h where set: "mwhen (x_permits x) (set_authority (x_step x) (x_started x)) h1 = (rs, h)"
      by (cases "mwhen (x_permits x) (set_authority (x_step x) (x_started x)) h1")
    then have out: "out h = out h1" and i2: "gate_inv h" "has_permits h = has_permits h1"
      using set_authority_inv [OF i1] i1 by (auto simp: mwhen_def mret_def dest: set_authority_out split: if_splits)
    then have p2: "emitted plain g h" using p1 by (simp add: emitted_def)
    show ?thesis
    proof (cases rs)
      case (Inl y)
      with run start set x p2 i2 show ?thesis by (simp add: receive_body_def mbind_def mthen_def)
    next
      case (Inr u)
      have "has_permits h \<longrightarrow> granted h" using set Inr xp i2 by (auto simp: mwhen_def dest: set_authority_granted)
      moreover have "receive_finish e x h = (r, g')"
        using run start set Inr x by (simp add: receive_body_def mbind_def mthen_def)
      ultimately show ?thesis using start x p2 i2 by blast
    qed
  qed
qed

text \<open>The effects a state allows: stop permits, and permits inside its world.\<close>

definition allowed :: "gate \<Rightarrow> effect \<Rightarrow> bool" where
  "allowed g x \<longleftrightarrow> (\<forall>p\<in>set (permits_of x). p_kind p = ''stop'' \<or> inside_world g p)"

lemma allowed_plain: "emitted plain g h \<Longrightarrow> emitted (allowed k) g h"
  by (auto simp: emitted_def plain_def allowed_def)

lemma allowed_stop: "emitted stop_only g h \<Longrightarrow> emitted (allowed k) g h"
  by (auto simp: emitted_def stop_only_def allowed_def)


lemma finish_allowed:
  assumes "receive_finish e x h = (r, g')" "gate_inv h" "has_permits h \<longrightarrow> granted h"
  shows "gate_inv g' \<and> emitted (allowed g') h g'"
proof -
  have ar: "auth_rel h g'" using assms(1) auth_receive_finish by (auto dest: keepsD)
  then have g': "gate_inv g'" "inside_world g' = inside_world h" using core_inv [OF auth_core] assms(2) by auto
  have "inside_world h p" if "in_authority (auth h) p" "p_kind p \<noteq> ''stop''" for p
  proof -
    have "has_permits h" using that by (auto simp: auth_def in_authority.simps has_permits_def)
    with that assms granted_inside show ?thesis by blast
  qed
  then have "emitted (allowed g') h g'" using ar g'(2) by (auto simp: auth_rel_def emitted_def allowed_def auth_ok_def)
  with g' show ?thesis by simp
qed

lemma receive_safe:
  assumes cb: "keeps plain_rel cb" and e: "engine_disarms e" and inv: "gate_inv g" and run: "receive e cb g = (r, g')"
  shows "gate_inv g' \<and> emitted (allowed g') g g'"
proof (cases "failed g")
  case True
  with run inv show ?thesis by (simp add: receive_def meth_defs emitted_refl)
next
  case False
  then obtain r1 g1 where body: "receive_body e cb g = (r1, g1)"
    and rest: "g1 = g' \<or> (\<exists>x. handle_exn e x g1 = (r, g'))" using run by (rule_tac receive_run)
  have b: "gate_inv g1 \<and> emitted (allowed g1) g g1"
    using receive_body_run [OF cb inv body] by (auto dest: finish_allowed intro: allowed_plain emitted_trans)
  from rest show ?thesis
  proof
    assume "\<exists>x. handle_exn e x g1 = (r, g')"
    then obtain x where h: "handle_exn e x g1 = (r, g')" by blast
    then have c: "core g' = core g1" using auth_handle_exn by (auto dest: keepsD auth_core)
    have "emitted stop_only g1 g'" using h stops_handle_exn [OF e] by (auto dest: keepsD)
    then have "emitted (allowed g1) g g'" using b by (auto intro: emitted_trans allowed_stop)
    moreover have "allowed g' = allowed g1" using core_inv [OF c] by (simp add: allowed_def fun_eq_iff)
    ultimately show ?thesis using b core_inv [OF c] by simp
  qed (use b in simp)
qed

end
