(* ===== verification/Gate_Theorems.thy ===== *)
theory Gate_Theorems
  imports Gate_Receive
begin

text \<open>
  The properties of the gate node as a whole: over every callback the executor may run
  (\<open>dispatch\<close>) and every run of callbacks (\<open>spin\<close>) from the state \<^verbatim>\<open>__init__\<close> builds.
\<close>

section \<open>The invariant along a run\<close>

lemma em_conj: "keeps (emitted P) m \<Longrightarrow> keeps (emitted Q) m \<Longrightarrow> keeps (emitted (\<lambda>x. P x \<and> Q x)) m"
  unfolding keeps_def emitted_def by (metis same_append_eq)

lemma cancel_stop_only: "keeps (emitted stop_only) (cancel_arm e)"
proof -
  have s: "keeps (emitted stop_only) (mbind (stop_permit e t d sim) f)"
    if "\<And>p. p_kind p = ''stop'' \<Longrightarrow> keeps (emitted stop_only) (f p)" for t d sim and f :: "permit \<Rightarrow> (gate, bool) meth"
    by (rule em.keeps_mbind_post [OF em_stop_permit]) (use that stop_permit_kind in \<open>auto simp: keeps_def\<close>)
  show ?thesis
    unfolding cancel_arm_def
    by (intro s em.keeps_flow em_prims em_emit em_mput) (auto simp: stop_only_def)
qed

text \<open>Callbacks of the action client: authority is kept, nothing but stops is sent.\<close>

lemma auth_on_arm_goal: "keeps auth_rel (on_arm_goal e f)"
  unfolding on_arm_goal_def
  by (intro auth.keeps_flow auth_mput auth_emit_plain auth_cancel_arm auth_abort) (simp_all add: auth_def)

lemma auth_on_arm_result: "keeps auth_rel (on_arm_result e f)"
  unfolding on_arm_result_def
  by (intro auth.keeps_flow auth_mput auth_abort) (simp_all add: auth_def)

lemma auth_on_arm_cancel: "keeps auth_rel (on_arm_cancel e f)"
  unfolding on_arm_cancel_def
  by (intro auth.keeps_flow auth_mput auth_abort) (simp_all add: auth_def)

definition stop_quiet :: "effect \<Rightarrow> bool" where
  "stop_quiet x \<longleftrightarrow> stop_only x \<and> quiet x"

lemma sq_conj: "keeps (emitted stop_only) m \<Longrightarrow> keeps (emitted quiet) m \<Longrightarrow> keeps (emitted stop_quiet) m"
  using em_conj [of stop_only m quiet] unfolding stop_quiet_def [abs_def] .

lemma sq_on_arm_goal: "keeps (emitted stop_quiet) (on_arm_goal e f)"
  unfolding on_arm_goal_def
  by (intro em.keeps_flow em_mput em_emit sq_conj cancel_stop_only quiet_cancel_arm stops_abort quiet_abort)
     (simp_all add: stop_quiet_def stop_only_def)

lemma sq_on_arm_result: "keeps (emitted stop_quiet) (on_arm_result e f)"
  unfolding on_arm_result_def
  by (intro em.keeps_flow em_mput sq_conj stops_abort quiet_abort) simp_all

lemma sq_on_arm_cancel: "keeps (emitted stop_quiet) (on_arm_cancel e f)"
  unfolding on_arm_cancel_def
  by (intro em.keeps_flow em_mput sq_conj stops_abort quiet_abort) simp_all

lemma sq_abort_tick: "keeps (emitted stop_quiet) (abort_tick e)"
  by (intro sq_conj stops_abort_tick quiet_abort_tick)

lemma sq_guard_state: "keeps (emitted stop_quiet) (on_guard_state e t d)"
  unfolding on_guard_state_def by (intro em.keeps_flow em_prims)

lemma sq_allowed: "emitted stop_quiet g h \<Longrightarrow> emitted (allowed k) g h"
  by (auto simp: emitted_def stop_quiet_def stop_only_def allowed_def)

lemma sq_quiet: "emitted stop_quiet g h \<Longrightarrow> emitted quiet g h"
  by (auto simp: emitted_def stop_quiet_def)

text \<open>The observation of a controller's state keeps the configured backdate.\<close>

definition same_backdate :: "permit_signer \<Rightarrow> permit_signer \<Rightarrow> bool" where
  "same_backdate s t \<longleftrightarrow> sim_backdate_ns t = sim_backdate_ns s"

interpretation bd: run_rel same_backdate
  by unfold_locales (auto simp: same_backdate_def)

lemma bd_mput: "(\<And>s. sim_backdate_ns (f s) = sim_backdate_ns s) \<Longrightarrow> keeps same_backdate (mput f)"
  by (rule bd.keeps_mput) (simp add: same_backdate_def)

lemma ps_observe_backdate: "keeps_backdate (ps_observe t v)"
proof -
  have c: "keeps same_backdate (mcheck b x)" for b x unfolding mcheck_def by (intro bd.keeps_flow)
  have "keeps same_backdate (ps_observe t v)"
    unfolding ps_observe_def by (intro bd.keeps_flow bd_mput c) simp_all
  then show ?thesis by (simp add: keeps_def keeps_backdate_def same_backdate_def)
qed

lemma auth_guard_state: "keeps auth_rel (on_guard_state e t d)"
  unfolding on_guard_state_def by (intro auth.keeps_flow auth_on_permits ps_observe_backdate)

lemma auth_vla_matched: "keeps auth_rel (vla_matched c)"
  unfolding vla_matched_def by (intro auth_mput) (simp add: auth_def)

text \<open>The callbacks that are a \<^verbatim>\<open>_receive\<close>, with their body.\<close>

fun callback_of :: "env \<Rightarrow> gate_event \<Rightarrow> (gate, pyval) meth option" where
  "callback_of e (WorldMsg data) = Some (gate_send e ''world'' (PStr data))"
| "callback_of e (FaultMsg data) = Some (gate_send e ''fault'' (PStr data))"
| "callback_of e (SignedMsg data role) = Some (mthen (mlift (check_signed e data role))
     (mbind (now_ms e) (\<lambda>t. engine_request e (signed_request t data))))"
| "callback_of e (TwistMsg msg role ttl) = Some (mbind (mlift (base_action msg ttl)) (gate_proposal e role))"
| "callback_of e (ArmMsg msg role) =
     Some (mbind (mget arm_joints) (\<lambda>js. mbind (mlift (arm_action msg js 0)) (gate_proposal e role)))"
| "callback_of e TickEvent = Some (tick_callback e)"
| "callback_of e _ = None"

lemma callback_plain: "callback_of e ev = Some cb \<Longrightarrow> keeps plain_rel cb"
  by (cases ev) (auto intro!: pl.keeps_flow pl_gate_send pl_gate_proposal pl_tick_callback pl_prims)

text \<open>The count of signed proposals is taken before the exchange.\<close>

fun counted :: "gate_event \<Rightarrow> gate \<Rightarrow> gate" where
  "counted (SignedMsg data role) g = (if role = ''vla'' then g\<lparr>signed_vla_callbacks := signed_vla_callbacks g + 1\<rparr> else g)"
| "counted _ g = g"

lemma dispatch_receive: "callback_of e ev = Some cb \<Longrightarrow> dispatch e ev g = receive e cb (counted ev g)"
  by (cases ev) (auto simp: on_world_msg_def on_fault_msg_def on_signed_def on_twist_def on_arm_msg_def on_tick_def
      mthen_def mbind_def mwhen_def mput_def mret_def)

lemma counted_same: "gate_inv (counted ev g) = gate_inv g" "out (counted ev g) = out g" "failed (counted ev g) = failed g"
  "reads (counted ev g) = reads g" "world_max_age_ms (counted ev g) = world_max_age_ms g"
  "max_actuation_response_ms (counted ev g) = max_actuation_response_ms g"
  by (cases ev; simp add: gate_inv_def)+

lemma emitted_counted: "emitted P (counted ev g) h = emitted P g h"
  by (simp add: emitted_def counted_same)

lemma sq_vla_matched: "keeps (emitted stop_quiet) (vla_matched c)"
  unfolding vla_matched_def by (intro em_mput) simp

lemma dispatch_other_auth: "callback_of e ev = None \<Longrightarrow> keeps auth_rel (dispatch e ev)"
  by (cases ev) (auto intro: auth_on_arm_goal auth_on_arm_result auth_on_arm_cancel auth_guard_state auth_vla_matched
      auth_abort_tick)

lemma dispatch_other_quiet: "callback_of e ev = None \<Longrightarrow> keeps (emitted stop_quiet) (dispatch e ev)"
  by (cases ev) (auto intro: sq_on_arm_goal sq_on_arm_result sq_on_arm_cancel sq_guard_state sq_vla_matched sq_abort_tick)

lemma dispatch_safe:
  assumes "engine_disarms e" "gate_inv g" "dispatch e ev g = (r, g')"
  shows "gate_inv g' \<and> emitted (allowed g') g g'"
proof (cases "callback_of e ev")
  case None
  then have "auth_rel g g'" "emitted stop_quiet g g'" using assms(3)
    by (auto intro: keepsD dispatch_other_auth dispatch_other_quiet)
  then show ?thesis using core_inv [OF auth_core] assms(2) sq_allowed by blast
next
  case (Some cb)
  then show ?thesis
    using receive_safe [OF callback_plain [OF Some] assms(1), of "counted ev g" r g'] assms(2,3)
    by (simp add: dispatch_receive counted_same emitted_counted)
qed


lemma spin_inv:
  assumes "engine_disarms e"
  shows "gate_inv g \<Longrightarrow> spin e evs g = (r, g') \<Longrightarrow> gate_inv g'"
proof (induction evs arbitrary: g)
  case Nil
  then show ?case by (simp add: mret_def)
next
  case (Cons ev evs)
  obtain r1 g1 where d: "dispatch e ev g = (r1, g1)" by (cases "dispatch e ev g")
  then have "gate_inv g1" using dispatch_safe [OF assms Cons.prems(1)] by blast
  with Cons.IH Cons.prems(2) d show ?case by (cases r1) (auto simp: mthen_def mbind_def)
qed

lemma gate_init_inv: "gate_init loads mk p = Inr (g, b) \<Longrightarrow> gate_inv g"
  by (auto simp: gate_init_def rbind_Inr_iff permit_signer_init_def SIM_ORDERING_BACKDATE_NS_def gate_inv_def fresh_gate_def
      world_clock_init_def split: if_splits)

section \<open>Only fresh answers actuate\<close>

lemma plain_quiet: "emitted plain g h \<Longrightarrow> emitted quiet g h"
  by (auto simp: emitted_def plain_def)

lemma finish_quiet: "actuating (x_step x) = Inr False \<Longrightarrow> keeps (emitted quiet) (receive_finish e x)"
  unfolding receive_finish_def by (intro em.keeps_flow quiet_publish quiet_heartbeat)

text \<open>
  The readings of one exchange are the ones \<^verbatim>\<open>_receive\<close> makes: the monotonic clock at reading \<open>i\<close>
  and the ROS clock at \<open>i + 1\<close> before the callback, the ROS clock at \<open>j\<close> and the monotonic clock
  at \<open>j + 1\<close> after it.
\<close>

definition fresh_exchange :: "env \<Rightarrow> nat \<Rightarrow> nat \<Rightarrow> int \<Rightarrow> int \<Rightarrow> pyval \<Rightarrow> bool" where
  "fresh_exchange e i j wmax mr step \<longleftrightarrow>
     (\<exists>st ex age. let started = ros_ns e (i + 1) div 1000000; now = ros_ns e j div 1000000;
                      wall = (of_int (mono_ns e (j + 1) - mono_ns e i) :: rat) / 1000000 in
        status_of step = Inr st \<and> dget st ''active_expires_ms'' = Inr (PInt ex) \<and> dget st ''world_age_ms'' = Inr (PInt age) \<and>
        started \<le> now \<and> now < ex \<and> now - started < mr \<and> wall < of_int mr \<and>
        age + (now - started) < wmax \<and> of_int age + wall < of_int wmax)"

lemma elapsed_bounds:
  assumes "started \<le> now" "elapsed_of started now a b < of_int m"
  shows "now - started < m \<and> (of_int (b - a) :: rat) / 1000000 < of_int m"
  using assms unfolding elapsed_of_def
  by (metis linorder_not_less max_less_iff_conj of_int_less_iff)

lemma check_exchange_run:
  assumes "check_exchange e (mono_ns e i) (ros_ns e (i + 1) div 1000000) pm step g = (Inr x, h)"
  shows "x_step x = step \<and>
    (actuating step = Inr False \<or> fresh_exchange e i (reads g) (world_max_age_ms g) (max_actuation_response_ms g) step)"
proof (cases "ros_ns e (reads g) div 1000000 < ros_ns e (i + 1) div 1000000")
  case True
  with assms show ?thesis
    by (auto simp: check_exchange_def mbind_Inr_iff mthen_def mget_def mret_def mlift_def now_ms_def read_env_def Let_def
        elapsed_of_def require_fresh_iff)
next
  case False
  define el where "el = elapsed_of (ros_ns e (i + 1) div 1000000) (ros_ns e (reads g) div 1000000) (mono_ns e i) (mono_ns e (reads g + 1))"
  from False assms have x: "x_step x = step" and f: "require_fresh_actuation step el
      (ros_ns e (reads g) div 1000000) (world_max_age_ms g) (max_actuation_response_ms g) = Inr ()"
    by (auto simp: el_def check_exchange_def mbind_Inr_iff mthen_def mget_def mret_def mlift_def now_ms_def mono_def read_env_def Let_def)
  show ?thesis
  proof (cases "actuating step = Inr False")
    case act: False
    with f obtain st ex age where a: "status_of step = Inr st" "dget st ''active_expires_ms'' = Inr (PInt ex)"
      "dget st ''world_age_ms'' = Inr (PInt age)" "ros_ns e (reads g) div 1000000 < ex"
      "el < of_int (max_actuation_response_ms g)" "of_int age + el < of_int (world_max_age_ms g)"
      unfolding require_fresh_iff by blast
    have "el < of_int (world_max_age_ms g - age)" using a(6) by simp
    from elapsed_bounds [OF _ this [unfolded el_def]] False
    have w: "ros_ns e (reads g) div 1000000 - ros_ns e (i + 1) div 1000000 < world_max_age_ms g - age"
      "(of_int (mono_ns e (reads g + 1) - mono_ns e i) :: rat) / 1000000 < of_int (world_max_age_ms g - age)"
      by (simp_all only: not_less)
    have r: "ros_ns e (reads g) div 1000000 - ros_ns e (i + 1) div 1000000 < max_actuation_response_ms g"
      "(of_int (mono_ns e (reads g + 1) - mono_ns e i) :: rat) / 1000000 < of_int (max_actuation_response_ms g)"
      using elapsed_bounds [OF _ a(5) [unfolded el_def]] False by (simp_all only: not_less)
    have "age + (ros_ns e (reads g) div 1000000 - ros_ns e (i + 1) div 1000000) < world_max_age_ms g" using w(1) by simp
    moreover have "of_int age + (of_int (mono_ns e (reads g + 1) - mono_ns e i) :: rat) / 1000000 < of_int (world_max_age_ms g)"
      using w(2) by (simp only: of_int_diff less_diff_eq add.commute)
    ultimately show ?thesis using r a(1-4) False x unfolding fresh_exchange_def Let_def not_less by blast
  qed (use x in simp)
qed

definition limits :: "gate \<Rightarrow> int \<times> int" where
  "limits g = (world_max_age_ms g, max_actuation_response_ms g)"

text \<open>The state in which the callback runs.\<close>

definition exchange_state :: "env \<Rightarrow> gate \<Rightarrow> gate" where
  "exchange_state e g =
     (if has_permits g
      then g\<lparr>reads := reads g + 3, permit_sim_ns := ros_ns e (reads g + 1) div 1000000 * 1000000,
             permit_wall_ns := mono_ns e (reads g + 2)\<rparr>
      else g\<lparr>reads := reads g + 2\<rparr>)"

lemma receive_start_eq:
  "receive_start e cb g =
     mbind cb (check_exchange e (mono_ns e (reads g)) (ros_ns e (reads g + 1) div 1000000) (has_permits g)) (exchange_state e g)"
proof -
  have "has_permits (reads_update f g) = has_permits g" for f by (simp add: has_permits_def)
  then show ?thesis
    unfolding receive_start_def mono_def now_ms_def mthen_def
    by (simp add: mbind_def [of "read_env _"] mbind_def [of "mget _"] mbind_def [of "mbind (read_env _) _"]
        mbind_def [of "mret _"] read_env_def mget_def mwhen_def mput_def mret_def exchange_state_def numeral_3_eq_3)
qed

lemma receive_start_fresh:
  assumes "keeps plain_rel cb" "receive_start e cb g = (Inr x, h)" "actuating (x_step x) \<noteq> Inr False"
  obtains s' where "cb (exchange_state e g) = (Inr (x_step x), s')"
    "fresh_exchange e (reads g) (reads s') (world_max_age_ms g) (max_actuation_response_ms g) (x_step x)"
proof -
  obtain step s' where 1: "cb (exchange_state e g) = (Inr step, s')"
    "check_exchange e (mono_ns e (reads g)) (ros_ns e (reads g + 1) div 1000000) (has_permits g) step s' = (Inr x, h)"
    using assms(2) by (auto simp: receive_start_eq mbind_Inr_iff)
  have "plain_rel (exchange_state e g) s'" using assms(1) 1(1) by (auto dest: keepsD)
  then have "limits s' = limits g" by (simp add: plain_rel_def config_def limits_def exchange_state_def)
  with check_exchange_run [OF 1(2)] assms(3) 1(1) show thesis by (intro that [of s']) (auto simp: limits_def)
qed

text \<open>A method that sends nothing.\<close>

definition silent_rel :: "gate \<Rightarrow> gate \<Rightarrow> bool" where
  "silent_rel g h \<longleftrightarrow> out h = out g \<and> reads g \<le> reads h"

interpretation si: run_rel silent_rel
  by unfold_locales (auto simp: silent_rel_def)

lemma si_mput: "(\<And>g. out (f g) = out g \<and> reads (f g) = reads g) \<Longrightarrow> keeps silent_rel (mput f)"
  by (rule si.keeps_mput) (simp add: silent_rel_def)

lemma si_read: "keeps silent_rel (read_env f)"
  by (simp add: keeps_def read_env_def silent_rel_def)

lemma si_now: "keeps silent_rel (now_ms e)" and si_mono: "keeps silent_rel (mono e)"
  by (simp_all add: now_ms_def mono_def si_read)

lemma si_on_gsigner: "keeps silent_rel (on_gsigner m)"
  by (auto simp: keeps_def on_gsigner_def silent_rel_def split: option.splits prod.splits)

lemmas si_prims = si_read si_now si_mono si_on_gsigner

text \<open>
  Every callback of a subscription or timer makes one request to the Rust process, as its last act,
  and returns the answer to it.
\<close>

definition answered :: "env \<Rightarrow> (gate, pyval) meth \<Rightarrow> bool" where
  "answered e m \<longleftrightarrow> (\<forall>s v s'. m s = (Inr v, s') \<longrightarrow>
     (\<exists>req. out s' = out s @ [EngineRequest req] \<and> reads s < reads s' \<and> engine e (reads s' - 1) req = Inr v))"

lemma answered_engine: "answered e (engine_request e req)"
  by (auto simp: answered_def engine_request_def mthen_def mbind_Inr_iff mlift_def read_env_def emit_def mput_def)

lemma answered_mbind: "keeps silent_rel m \<Longrightarrow> (\<And>x. answered e (f x)) \<Longrightarrow> answered e (mbind m f)"
  unfolding answered_def mbind_Inr_iff by (fastforce dest: keepsD simp: silent_rel_def)

lemma answered_mthen: "keeps silent_rel m \<Longrightarrow> answered e n \<Longrightarrow> answered e (mthen m n)"
  unfolding mthen_def by (rule answered_mbind)

lemma answered_raise: "answered e (mraise x)"
  by (simp add: answered_def mraise_def)

lemma answered_if: "answered e m \<Longrightarrow> answered e n \<Longrightarrow> answered e (if b then m else n)"
  by simp

lemma answered_option: "answered e m \<Longrightarrow> (\<And>x. answered e (f x)) \<Longrightarrow> answered e (case p of None \<Rightarrow> m | Some x \<Rightarrow> f x)"
  by (cases p) auto

lemmas answered_rules = answered_engine answered_mbind answered_mthen answered_raise answered_if answered_option

lemma answered_send: "answered e (gate_send e role payload)"
  unfolding gate_send_def by (intro answered_rules si_prims si.keeps_flow)

lemma answered_proposal: "answered e (gate_proposal e role action)"
  unfolding gate_proposal_def
  by (intro answered_option answered_rules answered_send si_prims si_mput si.keeps_flow) simp

lemma answered_tick: "answered e (tick_callback e)"
  unfolding tick_callback_def deadline_passed_def
  by (intro answered_rules answered_send si_prims si.keeps_flow)

lemma callback_answered: "callback_of e ev = Some cb \<Longrightarrow> answered e cb"
  by (cases ev) (auto intro!: answered_send answered_proposal answered_rules answered_tick si_prims si.keeps_flow)

text \<open>What actuates is what the answer carries: its velocities, and the points of its arm goal.\<close>

fun carried :: "pyval \<Rightarrow> effect \<Rightarrow> bool" where
  "carried step (PubCommand l a _) \<longleftrightarrow> f_zero l \<and> f_zero a \<or>
     rbind (cmd_field step ''linear'') py_float = Inr l \<and> rbind (cmd_field step ''angular'') py_float = Inr a"
| "carried step (SendGoal tr _) \<longleftrightarrow>
     rbind (dget step ''arm'') (\<lambda>arm. rbind (dix arm ''execute'') (\<lambda>x. rbind (dix x ''points'') (\<lambda>pts.
       rbind (need_list pts) (rmap goal_point)))) = Inr (points tr)"
| "carried step _ \<longleftrightarrow> True"

lemma quiet_carried: "quiet x \<Longrightarrow> carried step x"
  by (cases x) auto

lemma emitted_carried: "emitted quiet g h \<Longrightarrow> emitted (carried step) g h"
  by (auto simp: emitted_def quiet_carried)

lemma keeps_carried: "keeps (emitted quiet) m \<Longrightarrow> keeps (emitted (carried step)) m"
  by (simp add: keeps_def emitted_carried)

lemma em_arm_goal_permit: "keeps (emitted P) (arm_goal_permit e pm tr)"
  unfolding arm_goal_permit_def by (intro em.keeps_flow em_prims em_gate_permit)

lemma em_execute_arm:
  assumes "\<And>tr p. rbind (need_list pts) (rmap goal_point) = Inr (points tr) \<Longrightarrow> P (SendGoal tr p)"
  shows "keeps (emitted P) (execute_arm e pts)"
  unfolding execute_arm_def Let_def
  by (intro em_mlift em.keeps_mbind [OF em_arm_goal_permit] em.keeps_flow em_prims em_mput em_emit) (auto intro: assms)

lemma carried_publish_arm: "keeps (emitted (carried step)) (publish_arm e step)"
  unfolding publish_arm_def
  by (intro em_mlift em.keeps_flow em_execute_arm keeps_carried [OF quiet_cancel_arm]) (auto simp: rbind_Inr_iff)

lemma carried_publish: "keeps (emitted (carried step)) (publish e step)"
proof -
  have cmd: "keeps (emitted (carried step)) (mbind (mlift (rbind (cmd_field step ''linear'') py_float)) (\<lambda>l.
                mbind (mlift (rbind (cmd_field step ''angular'') py_float)) (\<lambda>a. publish_command e l a)))"
    by (intro em_mlift em_publish_command) auto
  show ?thesis
    unfolding publish_def
    by (intro cmd em.keeps_flow em_note_authority em_retiring carried_publish_arm keeps_carried [OF quiet_publish_state]
        keeps_carried [OF quiet_publish_outcome])
qed

lemma carried_finish: "keeps (emitted (carried (x_step x))) (receive_finish e x)"
  unfolding receive_finish_def by (intro em.keeps_flow carried_publish keeps_carried [OF quiet_heartbeat])

lemma receive_only_fresh:
  assumes cb: "keeps plain_rel cb" "answered e cb" and e: "engine_disarms e" and inv: "gate_inv g" and run: "receive e cb g = (r, g')"
    and moving: "\<not> emitted quiet g g'"
  shows "\<exists>step s' req. cb (exchange_state e g) = (Inr step, s') \<and> out s' = out g @ [EngineRequest req] \<and>
    engine e (reads s' - 1) req = Inr step \<and> actuating step \<noteq> Inr False \<and>
    fresh_exchange e (reads g) (reads s') (world_max_age_ms g) (max_actuation_response_ms g) step \<and> emitted (carried step) g g'"
proof -
  have "\<not> failed g" using run moving by (auto simp: receive_def meth_defs emitted_refl)
  then obtain r1 g1 where body: "receive_body e cb g = (r1, g1)"
    and rest: "g1 = g' \<or> (\<exists>x. handle_exn e x g1 = (r, g'))" using run by (rule_tac receive_run)
  have after: "emitted quiet g1 g'" using rest quiet_handle_exn [OF e] by (auto dest: keepsD intro: emitted_refl)
  then have nq: "\<not> emitted quiet g g1" using moving emitted_trans by blast
  then obtain x h1 h where st: "receive_start e cb g = (Inr x, h1)" "emitted plain g h" "receive_finish e x h = (r1, g1)"
    using receive_body_run [OF cb(1) inv body] plain_quiet by blast
  then have "\<not> emitted quiet h g1" using nq plain_quiet emitted_trans by blast
  then have a: "actuating (x_step x) \<noteq> Inr False" using st(3) finish_quiet by (auto dest: keepsD)
  have "emitted (carried (x_step x)) h g1" using st(3) carried_finish by (auto dest: keepsD)
  then have c: "emitted (carried (x_step x)) g g'"
    using st(2) after by (blast intro: emitted_trans emitted_carried plain_quiet)
  obtain s' where s': "cb (exchange_state e g) = (Inr (x_step x), s')"
    "fresh_exchange e (reads g) (reads s') (world_max_age_ms g) (max_actuation_response_ms g) (x_step x)"
    using receive_start_fresh [OF cb(1) st(1) a] .
  have "out (exchange_state e g) = out g" by (simp add: exchange_state_def)
  with cb(2) s' a c show ?thesis unfolding answered_def by metis
qed


section \<open>The failure latch\<close>

text \<open>What a failed node may still send: zero velocities, cancellations, stop permits, its own exit.\<close>

fun revoking :: "effect \<Rightarrow> bool" where
  "revoking (PubCommand l a p) \<longleftrightarrow> f_zero l \<and> f_zero a \<and> (case p of None \<Rightarrow> True | Some q \<Rightarrow> p_kind q = ''stop'')"
| "revoking (PubLease p) \<longleftrightarrow> p_kind p = ''stop''"
| "revoking CancelGoal \<longleftrightarrow> True"
| "revoking ExitProcess \<longleftrightarrow> True"
| "revoking _ \<longleftrightarrow> False"

fun halting :: "effect \<Rightarrow> bool" where
  "halting (PubCommand _ _ _) \<longleftrightarrow> True"
| "halting (PubLease _) \<longleftrightarrow> True"
| "halting CancelGoal \<longleftrightarrow> True"
| "halting ExitProcess \<longleftrightarrow> True"
| "halting _ \<longleftrightarrow> False"

lemma revoking_halting: "stop_quiet x \<and> halting x \<Longrightarrow> revoking x"
  by (cases x rule: revoking.cases) (auto simp: stop_quiet_def stop_only_def split: option.splits)

lemma rv_conj:
  assumes "keeps (emitted stop_only) m" "keeps (emitted quiet) m" "keeps (emitted halting) m"
  shows "keeps (emitted revoking) m"
  using em_conj [OF sq_conj [OF assms(1,2)] assms(3)] revoking_halting by (fastforce simp: keeps_def emitted_def)

lemma rv_publish_zero: "keeps (emitted revoking) (publish_zero e)"
proof (rule rv_conj [OF stops_emitted [OF stops_publish_zero] quiet_publish_zero])
  show "keeps (emitted halting) (publish_zero e)"
    unfolding publish_zero_def by (intro em.keeps_mthen em_mput em_publish_command) simp_all
qed

lemma rv_cancel_arm: "keeps (emitted revoking) (cancel_arm e)"
proof (rule rv_conj [OF cancel_stop_only quiet_cancel_arm])
  show "keeps (emitted halting) (cancel_arm e)"
    unfolding cancel_arm_def by (intro em.keeps_flow em_prims em_emit em_mput em_stop_permit) simp_all
qed

definition latched :: "gate \<Rightarrow> gate \<Rightarrow> bool" where
  "latched g h \<longleftrightarrow> (failed g \<longrightarrow> failed h \<and> emitted revoking g h)"

interpretation la: run_rel latched
  by unfold_locales (auto simp: latched_def intro: emitted_refl emitted_trans)

lemma la_mput: "(\<And>g. failed (f g) = failed g \<and> out (f g) = out g) \<Longrightarrow> keeps latched (mput f)"
  by (rule la.keeps_mput) (simp add: latched_def emitted_same)

lemma la_emit: "revoking x \<Longrightarrow> keeps latched (emit x)"
  by (rule keeps_emitI) (auto simp: latched_def intro!: emitted_snoc)

lemma la_read: "keeps latched (read_env f)"
  by (auto simp: keeps_def read_env_def latched_def intro!: emitted_same)

lemma la_on_permits: "keeps latched (on_permits m)"
  by (auto simp: keeps_def on_permits_def latched_def intro!: emitted_same split: option.splits prod.splits)

lemma la_with_permits: "keeps latched (with_permits f)"
  unfolding with_permits_def by (intro la.keeps_flow)

lemma la_now: "keeps latched (now_ms e)" and la_mono: "keeps latched (mono e)"
  by (simp_all add: now_ms_def mono_def la_read)

lemmas la_prims = la_read la_on_permits la_with_permits la_now la_mono

text \<open>The failed flag alone, through the methods that publish.\<close>

definition keeps_failed :: "gate \<Rightarrow> gate \<Rightarrow> bool" where
  "keeps_failed g h \<longleftrightarrow> failed h = failed g"

interpretation kf: run_rel keeps_failed
  by unfold_locales (auto simp: keeps_failed_def)

lemma kf_mput: "(\<And>g. failed (f g) = failed g) \<Longrightarrow> keeps keeps_failed (mput f)"
  by (rule kf.keeps_mput) (simp add: keeps_failed_def)

lemma kf_emit: "keeps keeps_failed (emit x)"
  by (rule keeps_emitI) (simp add: keeps_failed_def)

lemma kf_read: "keeps keeps_failed (read_env f)"
  by (auto simp: keeps_def read_env_def keeps_failed_def)

lemma kf_on_permits: "keeps keeps_failed (on_permits m)"
  by (auto simp: keeps_def on_permits_def keeps_failed_def split: option.splits prod.splits)

lemma kf_with_permits: "keeps keeps_failed (with_permits f)"
  unfolding with_permits_def by (intro kf.keeps_flow)

lemma kf_now: "keeps keeps_failed (now_ms e)" and kf_mono: "keeps keeps_failed (mono e)"
  by (simp_all add: now_ms_def mono_def kf_read)

lemmas kf_prims = kf_read kf_on_permits kf_with_permits kf_now kf_mono kf_emit

lemma kf_publish_command: "keeps keeps_failed (publish_command e l a)"
  unfolding publish_command_def gate_permit_def stop_permit_def by (intro kf.keeps_flow kf_prims)

lemma kf_publish_zero: "keeps keeps_failed (publish_zero e)"
  unfolding publish_zero_def by (intro kf.keeps_flow kf_mput kf_publish_command) simp

lemma la_of: "keeps keeps_failed m \<Longrightarrow> keeps (emitted revoking) m \<Longrightarrow> keeps latched m"
  by (simp add: keeps_def latched_def keeps_failed_def)

lemma la_publish_zero: "keeps latched (publish_zero e)"
  by (intro la_of kf_publish_zero rv_publish_zero)

lemma la_abort_tick: "keeps latched (abort_tick e)"
  unfolding abort_tick_def
  by (intro la.keeps_flow la_publish_zero la_prims la_emit) simp

lemma la_abort: "keeps latched (abort e exc)"
  by (simp add: keeps_def abort_def latched_def meth_defs emitted_refl)

lemma la_cancel_arm: "keeps latched (cancel_arm e)"
proof -
  have "keeps keeps_failed (cancel_arm e)"
    unfolding cancel_arm_def stop_permit_def by (intro kf.keeps_flow kf_prims kf_mput) simp_all
  then show ?thesis by (intro la_of rv_cancel_arm)
qed

lemma la_on_arm_goal: "keeps latched (on_arm_goal e f)"
  unfolding on_arm_goal_def
  by (intro la.keeps_flow la_mput la_emit la_cancel_arm la_abort) simp_all

lemma la_on_arm_result: "keeps latched (on_arm_result e f)"
  unfolding on_arm_result_def by (intro la.keeps_flow la_mput la_abort) simp_all

lemma la_on_arm_cancel: "keeps latched (on_arm_cancel e f)"
  unfolding on_arm_cancel_def by (intro la.keeps_flow la_mput la_abort) simp_all

lemma la_guard_state: "keeps latched (on_guard_state e t d)"
  unfolding on_guard_state_def by (intro la.keeps_flow la_prims)

lemma la_vla_matched: "keeps latched (vla_matched c)"
  unfolding vla_matched_def by (intro la_mput) simp

lemma la_receive: "keeps latched (receive e cb)"
  by (simp add: keeps_def receive_def latched_def meth_defs emitted_refl)

lemma la_dispatch: "keeps latched (dispatch e ev)"
proof (cases "callback_of e ev")
  case None
  then show ?thesis
    by (cases ev) (auto intro: la_on_arm_goal la_on_arm_result la_on_arm_cancel la_guard_state la_vla_matched la_abort_tick)
next
  case (Some cb)
  have "latched (counted ev g) (snd (receive e cb (counted ev g)))" for g using la_receive by (auto simp: keeps_def)
  with Some show ?thesis by (simp add: keeps_def dispatch_receive latched_def counted_same emitted_counted)
qed

lemma la_spin: "keeps latched (spin e evs)"
  by (induction evs) (auto intro: la.keeps_flow la_dispatch)

text \<open>Before its exception is handled, an exchange does not touch the flag.\<close>

lemma kf_engine: "keeps keeps_failed (engine_request e m)"
  unfolding engine_request_def by (intro kf.keeps_flow kf_prims)

lemma kf_on_gsigner: "keeps keeps_failed (on_gsigner m)"
  by (auto simp: keeps_def on_gsigner_def keeps_failed_def split: option.splits prod.splits)

lemma kf_on_world: "keeps keeps_failed (on_world m)"
  by (auto simp: keeps_def on_world_def keeps_failed_def split: prod.splits)

lemma kf_gate_send: "keeps keeps_failed (gate_send e role payload)"
  unfolding gate_send_def by (intro kf.keeps_flow kf_prims kf_engine kf_on_gsigner)

lemma kf_gate_proposal: "keeps keeps_failed (gate_proposal e role action)"
  unfolding gate_proposal_def by (intro kf.keeps_flow kf_prims kf_gate_send kf_mput) simp

lemma kf_tick_callback: "keeps keeps_failed (tick_callback e)"
  unfolding tick_callback_def deadline_passed_def by (intro kf.keeps_flow kf_prims kf_engine kf_gate_send)

lemma kf_callback: "callback_of e ev = Some cb \<Longrightarrow> keeps keeps_failed cb"
  by (cases ev) (auto intro!: kf.keeps_flow kf_prims kf_gate_send kf_gate_proposal kf_tick_callback kf_engine)

lemma kf_heartbeat: "keeps keeps_failed (heartbeat e t)"
  unfolding heartbeat_def gate_permit_def by (intro kf.keeps_flow kf_prims)

lemma kf_cancel_arm: "keeps keeps_failed (cancel_arm e)"
  unfolding cancel_arm_def stop_permit_def by (intro kf.keeps_flow kf_prims kf_mput) simp_all

lemma kf_execute_arm: "keeps keeps_failed (execute_arm e pts)"
  unfolding execute_arm_def arm_goal_permit_def gate_permit_def Let_def by (intro kf.keeps_flow kf_prims kf_mput) simp_all

lemma kf_publish: "keeps keeps_failed (publish e step)"
  unfolding publish_def note_authority_def arm_renewal_retiring_def publish_arm_def publish_state_def publish_outcome_def
  by (intro kf.keeps_flow kf_prims kf_mput kf_publish_command kf_execute_arm kf_cancel_arm) simp_all

lemma kf_receive_body: "keeps keeps_failed cb \<Longrightarrow> keeps keeps_failed (receive_body e cb)"
  unfolding receive_body_def receive_start_def check_exchange_def receive_finish_def set_authority_def Let_def
  by (intro kf.keeps_flow kf_prims kf_mput kf_publish kf_heartbeat kf_on_world) simp_all

lemma callback_unfailed:
  assumes "callback_of e ev = Some cb" "receive_body e cb (counted ev g) = (r, g1)"
  shows "failed g1 = failed g"
  using keepsD [OF kf_receive_body [OF kf_callback [OF assms(1)]] assms(2)] by (simp add: keeps_failed_def counted_same)

text \<open>Every exception that is neither an expiry nor a malformed proposal latches the failure.\<close>

lemma fa_of: "keeps latched m \<Longrightarrow> keeps (implied failed) m"
  by (simp add: keeps_def latched_def implied_def)

lemma fa_emit: "keeps (implied failed) (emit x)"
  by (rule keeps_emitI) (simp add: implied_def)

lemma fa_engine: "keeps (implied failed) (engine_request e m)"
  unfolding engine_request_def by (intro implied.keeps_flow fa_emit fa_of [OF la_read])

lemma fa_abort_stop: "keeps (implied failed) (abort_stop e exc)"
  unfolding abort_stop_def ignore_errors_def
  by (intro implied.keeps_flow implied.keeps_mput fa_emit fa_engine fa_of [OF la_publish_zero] fa_of [OF la_cancel_arm]
      fa_of [OF la_now] fa_of [OF la_mono]) (simp add: implied_def)

lemma abort_fails: "abort e exc g = (r, g') \<Longrightarrow> failed g'"
  using keeps_impliedD [OF fa_abort_stop, of "g\<lparr>failed := True\<rparr>" e exc r g']
  by (auto simp: abort_def mbind_def mget_def mthen_def mput_def mret_def split: if_splits)

text \<open>
  What the failure itself sends: what a failed node may send, the request that seals the incident
  with the tick that proves it sealed, the closing of the Rust process and the start of the timer.
\<close>

fun aborting :: "effect \<Rightarrow> bool" where
  "aborting (EngineRequest req) \<longleftrightarrow> (\<exists>t why. req = reject_request t why) \<or> (\<exists>t. req = tick_request t)"
| "aborting EngineClose \<longleftrightarrow> True"
| "aborting StartAbortTimer \<longleftrightarrow> True"
| "aborting x \<longleftrightarrow> revoking x"

lemma revoking_aborting: "revoking x \<Longrightarrow> aborting x"
  by (cases x) auto

lemma ab_of: "keeps (emitted revoking) m \<Longrightarrow> keeps (emitted aborting) m"
  by (fastforce simp: keeps_def emitted_def revoking_aborting)

lemma ab_reject: "keeps (emitted aborting) (engine_request e (reject_request t why))"
  by (intro em_engine) auto

lemma ab_tick: "keeps (emitted aborting) (engine_request e (tick_request t))"
  by (intro em_engine) auto

lemma ab_abort: "keeps (emitted aborting) (abort e exc)"
  unfolding abort_def abort_stop_def ignore_errors_def
  by (intro em.keeps_flow ab_reject ab_tick em_prims em_emit em_mput ab_of [OF rv_publish_zero] ab_of [OF rv_cancel_arm]) simp_all

text \<open>A node that can revoke the base: unsigned, or with a challenge of its controller.\<close>

definition revocable :: "gate \<Rightarrow> bool" where
  "revocable g \<longleftrightarrow> (case permits g of None \<Rightarrow> True | Some ps \<Rightarrow> map_of (challenges ps) ''base'' \<noteq> None)"

lemma publish_zero_sends:
  assumes "publish_zero e g = (Inr u, h)"
  shows "\<exists>zs. out h = out g @ zs \<and> (revocable g \<longrightarrow> (\<exists>p. zs = [PubCommand 0 0 p]))"
proof -
  have "publish_command e 0 0 k = (Inr u, h) \<Longrightarrow> ?thesis" if k: "out k = out g" "permits k = permits g"
    "permits g \<noteq> None \<Longrightarrow> \<not> permit_reset k \<and> permit_stop k" for k
    using k unfolding publish_command_def
    by (cases "permits g", auto simp: mthen_def mbind_Inr_iff mget_def mret_def mwhen_def read_env_def with_permits_def has_permits_def
          mlift_def now_ms_def emit_def mput_def revocable_def stop_permit_def mono_def on_permits_def
          split: if_splits option.splits prod.splits sum.splits)
       (erule allE, erule allE, erule impE, rule prod.collapse [symmetric], auto)+
  then have p: "out k = out g \<Longrightarrow> permits k = permits g \<Longrightarrow> (permits g \<noteq> None \<Longrightarrow> \<not> permit_reset k \<and> permit_stop k) \<Longrightarrow>
    publish_command e 0 0 k = (Inr u, h) \<Longrightarrow> ?thesis" for k by blast
  have "publish_command e 0 0 (if has_permits g then g\<lparr>permit_reset := False, permit_stop := True\<rparr> else g) = (Inr u, h)"
    using assms by (simp add: publish_zero_def mthen_def mbind_def mput_def)
  then show ?thesis by (rule p [rotated 3]) (simp_all add: has_permits_def)
qed

text \<open>An abort that returns ends with the closing and the timer, its deadline 250 ms after the last reading.\<close>

lemma abort_returns:
  assumes "abort e exc g = (Inr u, g')" "\<not> failed g"
  shows "\<exists>zs mid. out g' = out g @ zs @ mid @ [EngineClose, StartAbortTimer] \<and> (revocable g \<longrightarrow> (\<exists>p. zs = [PubCommand 0 0 p])) \<and>
    abort_deadline g' = Some (mono_ns e (reads g' - 1) + 250000000)"
proof -
  define k where "k = g\<lparr>failed := True\<rparr>"
  have "abort_stop e exc k = (Inr u, g')" using assms by (simp add: abort_def k_def mthen_def mbind_def mget_def mput_def)
  then obtain h h1 h2 where z: "publish_zero e k = (Inr (), h)" and m: "ignore_errors (cancel_arm e) h = (Inr (), h1)"
    "mwhen (is_StaleActuation exc)
               (ignore_errors
                 (mbind (now_ms e) (\<lambda>t1.
                  mbind (engine_request e (reject_request t1 (exn_text exc))) (\<lambda>_.
                  mbind (now_ms e) (\<lambda>t2.
                  mbind (engine_request e (tick_request t2)) (\<lambda>_. mret ())))))) h1 = (Inr (), h2)"
    and g': "g' = h2\<lparr>out := out h2 @ [EngineClose, StartAbortTimer], reads := reads h2 + 1,
        abort_deadline := Some (mono_ns e (reads h2) + 250000000)\<rparr>"
    unfolding abort_stop_def mthen_def mbind_Inr_iff by (auto simp: emit_def mput_def mono_def read_env_def)
  obtain zs where zs: "out h = out g @ zs" "revocable g \<longrightarrow> (\<exists>p. zs = [PubCommand 0 0 p])"
    using publish_zero_sends [OF z] by (auto simp: k_def revocable_def)
  have "keeps (emitted (\<lambda>x. True)) (ignore_errors (cancel_arm e))"
    "keeps (emitted (\<lambda>x. True)) (mwhen (is_StaleActuation exc)
               (ignore_errors
                 (mbind (now_ms e) (\<lambda>t1.
                  mbind (engine_request e (reject_request t1 (exn_text exc))) (\<lambda>_.
                  mbind (now_ms e) (\<lambda>t2.
                  mbind (engine_request e (tick_request t2)) (\<lambda>_. mret ())))))))"
    unfolding ignore_errors_def cancel_arm_def
    by (intro em.keeps_flow em_prims em_engine em_emit em_mput em_stop_permit; simp)+
  with m have "emitted (\<lambda>x. True) h h2" by (blast dest: keepsD intro: emitted_trans)
  then obtain mid where "out h2 = out h @ mid" by (auto simp: emitted_def)
  with zs g' show ?thesis by auto
qed


lemma handle_exn_abort: "\<not> (\<exists>m. x = ExpiredActuation m \<or> x = InvalidProposal m) \<Longrightarrow> handle_exn e x = abort e x"
  by (cases x) auto

section \<open>Permits are for the exact action they are sent with\<close>

fun exact :: "(string \<Rightarrow> string) \<Rightarrow> effect \<Rightarrow> bool" where
  "exact sha (PubCommand l a (Some p)) \<longleftrightarrow>
     p_target p = ''base'' \<and> p_kind p \<in> {''stop'', ''reset'', ''command''} \<and>
     (\<exists>ns. base_digest sha (base_command l a ns) = Inr (p_digest p))"
| "exact sha (SendGoal tr (Some p)) \<longleftrightarrow> p_target p = ''arm'' \<and> p_kind p = ''goal'' \<and> arm_digest sha tr = Inr (p_digest p)"
| "exact sha (PubLease p) \<longleftrightarrow> p_target p = ''arm'' \<and> p_kind p \<in> {''stop'', ''reset'', ''lease''}"
| "exact sha x \<longleftrightarrow> True"

lemma stop_permit_exact:
  "stop_permit e t d sim g = (Inr p, g') \<Longrightarrow> p_kind p = ''stop'' \<and> p_target p = t \<and> p_digest p = d"
  by (auto simp: stop_permit_def mbind_def mono_def read_env_def on_permits_def ps_sign_Inr_iff
      split: option.splits prod.splits)

lemma em_gate_send:
  assumes "\<And>p. p_kind p = k \<Longrightarrow> p_target p = t \<Longrightarrow> p_digest p = d \<Longrightarrow> keeps (emitted P) (f p)"
  shows "keeps (emitted P) (mbind (gate_permit e t k d) f)"
  by (rule em.keeps_mbind_post [OF em_gate_permit]) (use assms in \<open>auto simp: keeps_def elim!: gate_permit_Inr\<close>)

lemma em_stop_send:
  assumes "\<And>p. p_kind p = ''stop'' \<Longrightarrow> p_target p = t \<Longrightarrow> p_digest p = d \<Longrightarrow> keeps (emitted P) (f p)"
  shows "keeps (emitted P) (mbind (stop_permit e t d sim) f)"
  by (rule em.keeps_mbind_post [OF em_stop_permit]) (use assms in \<open>auto simp: keeps_def dest!: stop_permit_exact\<close>)

lemmas ex_send = em_gate_send em_stop_send em_mlift

lemma ex_publish_command: "keeps (emitted (exact (sha256 e))) (publish_command e l a)"
  unfolding publish_command_def
  by (intro ex_send em.keeps_flow em_prims em_emit) auto

lemma ex_publish_zero: "keeps (emitted (exact (sha256 e))) (publish_zero e)"
  unfolding publish_zero_def by (intro em.keeps_mthen em_mput ex_publish_command) simp

lemma ex_heartbeat: "keeps (emitted (exact sha)) (heartbeat e t)"
  unfolding heartbeat_def
  by (intro ex_send em.keeps_flow em_prims em_emit) auto

lemma ex_cancel_arm: "keeps (emitted (exact sha)) (cancel_arm e)"
  unfolding cancel_arm_def
  by (intro ex_send em.keeps_flow em_prims em_emit em_mput) auto


lemma em_goal_send:
  assumes "\<And>q. exact (sha256 e) (SendGoal tr q) \<Longrightarrow> keeps (emitted P) (f q)"
  shows "keeps (emitted P) (mbind (arm_goal_permit e pm tr) f)"
proof (rule em.keeps_mbind_post)
  show "keeps (emitted P) (arm_goal_permit e pm tr)"
    unfolding arm_goal_permit_def by (intro em.keeps_flow em_prims em_gate_permit)
  fix s q s' assume "arm_goal_permit e pm tr s = (Inr q, s')"
  then have "exact (sha256 e) (SendGoal tr q)"
    by (auto simp: arm_goal_permit_def mthen_def mbind_Inr_iff mlift_def mret_def split: if_splits elim!: gate_permit_Inr)
  with assms show "emitted P s' (snd (f q s'))" by (simp add: keeps_def)
qed

lemma ex_execute_arm: "keeps (emitted (exact (sha256 e))) (execute_arm e pts)"
  unfolding execute_arm_def Let_def
  by (intro em_goal_send em.keeps_flow em_prims em_mput em_emit) simp_all

lemma ex_publish_arm: "keeps (emitted (exact (sha256 e))) (publish_arm e step)"
  unfolding publish_arm_def by (intro em.keeps_flow ex_execute_arm ex_cancel_arm)

lemma ex_publish: "keeps (emitted (exact (sha256 e))) (publish e step)"
  unfolding publish_def publish_state_def publish_outcome_def
  by (intro em.keeps_flow em_note_authority em_retiring ex_publish_command ex_publish_arm em_prims em_emit) simp_all

lemma ex_abort: "keeps (emitted (exact (sha256 e))) (abort e exc)"
  unfolding abort_def abort_stop_def ignore_errors_def
  by (intro em.keeps_flow em_prims em_engine em_mput em_emit ex_publish_zero ex_cancel_arm) simp_all

lemma ex_handle_exn: "keeps (emitted (exact (sha256 e))) (handle_exn e x)"
proof -
  have "keeps (emitted (exact (sha256 e))) (on_expired e y)" "keeps (emitted (exact (sha256 e))) (on_malformed e y)" for y
    unfolding on_expired_def on_malformed_def
    by (intro em.keeps_flow em_prims em_engine ex_publish_zero ex_cancel_arm ex_publish ex_abort; simp)+
  then show ?thesis by (cases x) (auto intro: ex_abort)
qed

lemma ex_receive:
  assumes "keeps plain_rel cb"
  shows "keeps (emitted (exact (sha256 e))) (receive e cb)"
proof -
  have p: "emitted plain g h \<Longrightarrow> emitted (exact sha) g h" for g h sha
  proof -
    have "plain x \<Longrightarrow> exact sha x" for x by (cases "(sha, x)" rule: exact.cases) (auto simp: plain_def)
    then show "emitted plain g h \<Longrightarrow> emitted (exact sha) g h" by (auto simp: emitted_def)
  qed
  have "keeps (emitted (exact (sha256 e))) (receive_start e cb)"
    using pl_receive_start_emits [OF assms] p by (auto simp: keeps_def)
  moreover have "keeps (emitted (exact (sha256 e))) (set_authority step t)" for step t
    unfolding keeps_def by (metis emitted_same prod.collapse set_authority_out)
  ultimately show ?thesis
    unfolding receive_def receive_body_def receive_finish_def
    by (intro em.keeps_flow ex_handle_exn ex_publish ex_heartbeat)
qed

lemma ex_dispatch: "keeps (emitted (exact (sha256 e))) (dispatch e ev)"
proof (cases "callback_of e ev")
  case (Some cb)
  with ex_receive [OF callback_plain [OF Some]] show ?thesis
    by (simp add: keeps_def dispatch_receive emitted_def counted_same) (metis counted_same(2))
next
  case None
  have "keeps (emitted (exact (sha256 e))) (on_arm_goal e f)" for f unfolding on_arm_goal_def
    by (intro em.keeps_flow em_mput em_emit ex_cancel_arm ex_abort) simp_all
  moreover have "keeps (emitted (exact (sha256 e))) (on_arm_result e f)" for f unfolding on_arm_result_def
    by (intro em.keeps_flow em_mput ex_abort) simp_all
  moreover have "keeps (emitted (exact (sha256 e))) (on_arm_cancel e f)" for f unfolding on_arm_cancel_def
    by (intro em.keeps_flow em_mput ex_abort) simp_all
  moreover have "keeps (emitted (exact (sha256 e))) (abort_tick e)" unfolding abort_tick_def
    by (intro em.keeps_flow em_prims em_emit ex_publish_zero) simp_all
  moreover have "keeps (emitted (exact (sha256 e))) (on_guard_state e t d)" for t d unfolding on_guard_state_def
    by (intro em.keeps_flow em_prims)
  moreover have "keeps (emitted (exact (sha256 e))) (vla_matched c)" for c unfolding vla_matched_def
    by (intro em_mput) simp
  ultimately show ?thesis using None by (cases ev) auto
qed

lemma ex_spin: "keeps (emitted (exact (sha256 e))) (spin e evs)"
  by (induction evs) (auto intro: em.keeps_flow ex_dispatch)


text \<open>
  What a controller that recomputes the digest learns: any command or trajectory with the digest of
  the permit is the one that was sent.
\<close>

fun binds :: "(string \<Rightarrow> string) \<Rightarrow> effect \<Rightarrow> bool" where
  "binds sha (PubCommand l a (Some p)) \<longleftrightarrow>
     p_target p = ''base'' \<and> (\<exists>c. base_digest sha c = Inr (p_digest p)) \<and>
     (\<forall>c. base_digest sha c = Inr (p_digest p) \<longrightarrow> twist_values (cmd_twist c) = [l, 0, 0, 0, 0, a])"
| "binds sha (SendGoal tr (Some p)) \<longleftrightarrow>
     p_target p = ''arm'' \<and> arm_digest sha tr = Inr (p_digest p) \<and>
     (\<forall>c. arm_digest sha c = Inr (p_digest p) \<longrightarrow> joint_names c = joint_names tr \<and> points c = points tr \<and> tstamp c = tstamp tr)"
| "binds sha _ \<longleftrightarrow> True"

lemma base_digest_inj:
  assumes "inj sha" "base_digest sha c = Inr q" "base_digest sha d = Inr q"
  shows "cmd_twist c = cmd_twist d \<and> cmd_stamp c = cmd_stamp d"
proof -
  obtain r where "base_preimage c = Inr r" "base_preimage d = Inr r"
    using assms by (auto simp: base_digest_def rbind_Inr_iff dest: injD)
  then show ?thesis by (rule base_preimage_inj)
qed

lemma arm_digest_inj:
  assumes "inj sha" "arm_digest sha c = Inr q" "arm_digest sha d = Inr q"
  shows "joint_names c = joint_names d \<and> points c = points d \<and> tstamp c = tstamp d"
proof -
  obtain r where "arm_preimage c = Inr r" "arm_preimage d = Inr r"
    using assms by (auto simp: arm_digest_def rbind_Inr_iff dest: injD)
  then show ?thesis by (rule arm_preimage_inj)
qed

lemma base_command_values: "twist_values (cmd_twist (base_command l a ns)) = [l, 0, 0, 0, 0, a]"
  by (simp add: twist_values_def base_command_def zero_twist_def)

lemma exact_binds: "inj sha \<Longrightarrow> exact sha x \<Longrightarrow> binds sha x"
proof (cases x)
  case (PubCommand l a q)
  assume s: "inj sha" "exact sha x"
  show ?thesis
  proof (cases q)
    case (Some p)
    with PubCommand s obtain ns where d: "base_digest sha (base_command l a ns) = Inr (p_digest p)" "p_target p = ''base''" by auto
    then have "twist_values (cmd_twist c) = [l, 0, 0, 0, 0, a]" if "base_digest sha c = Inr (p_digest p)" for c
      using base_digest_inj [OF s(1) that d(1)] base_command_values by metis
    with d PubCommand Some show ?thesis by auto
  qed (simp add: PubCommand)
next
  case (SendGoal tr q)
  assume s: "inj sha" "exact sha x"
  with SendGoal show ?thesis by (cases q) (auto dest: arm_digest_inj)
qed auto

end
