(* ===== verification/Gate_Properties.thy ===== *)
theory Gate_Properties
  imports Gate_Theorems "HOL-Library.Code_Target_Int" "HOL-Library.Code_Target_Nat"
begin

text \<open>
  The properties of the gate node over the callbacks the executor may run (\<open>dispatch\<close>) and over
  every run of callbacks (\<open>spin\<close>) from the state \<^verbatim>\<open>__init__\<close> builds, each with a concrete run
  evaluated by the kernel.
\<close>

section \<open>A concrete node\<close>

lemma emitted_code [code]:
  "emitted P g h \<longleftrightarrow> take (length (out g)) (out h) = out g \<and> list_all P (drop (length (out g)) (out h))"
  unfolding emitted_def list_all_iff by (metis append_eq_conv_conj append_take_drop_id)

definition demo_loads :: "string \<Rightarrow> pyval res" where
  "demo_loads s =
     (if s = ''policy'' then Inr (PDict [(''freshness'', PDict [(''world_max_age_ms'', PInt 500)]),
        (''arm'', PDict [(''joints'', PList (map (\<lambda>n. PDict [(''name'', PStr n)]) ARM_NAMES))])])
      else if s = ''guard'' then Inr (PDict [(''nonce'', PStr (replicate 32 (CHR ''a'')))])
      else if s = ''{}'' then Inr (PDict []) else if s = ''[]'' then Inr (PList []) else Inl (ValueError s))"

definition demo_params :: gate_params where
  "demo_params = \<lparr>gp_paths = [''p''], gp_policy = ''policy'', gp_max_response = 50, gp_signed_only = True, gp_keys = ''{}'',
     gp_inputs = ''[]'', gp_arm_inputs = ''[]'', gp_controller_key = ''key'', gp_heartbeat = ''hb'',
     gp_output_stamped = PBool True, gp_tick_hz = 0x4034000000000000\<rparr>"

definition demo_step :: pyval where
  "demo_step = PDict [(''cmd'', PDict [(''linear'', PInt 1), (''angular'', PInt 0)]), (''arm'', PNone),
     (''status'', PDict [(''armed'', PList [PStr ''vla'']), (''mode'', PStr ''normal''), (''world_age_ms'', PInt 10),
        (''active_expires_ms'', PInt 1150), (''active'', PDict [(''action'', PDict [(''type'', PStr ''base_velocity'')])]),
        (''recorder_ok'', PBool True), (''state_ok'', PBool True)]),
     (''outcome'', PDict [(''world_updated'', PDict [(''stamp_ms'', PInt 995)])])]"

definition demo_stop :: pyval where
  "demo_stop = PDict [(''cmd'', PDict [(''linear'', PInt 0), (''angular'', PInt 0)]), (''arm'', PNone),
     (''status'', PDict [(''armed'', PList []), (''active'', PNone)])]"

definition demo_env :: env where
  "demo_env = \<lparr>ros_ns = \<lambda>i. 1000000000 + 1000000 * int i, mono_ns = \<lambda>i. 7000000000 + 1000000 * int i,
     engine = \<lambda>i req. if dget req ''k'' = Inr (PStr ''reject'') then Inr demo_stop else Inr demo_step,
     server_ready = \<lambda>i. True, command_publishers = \<lambda>i. 1, sha256 = \<lambda>s. s,
     plat = \<lparr>json_loads = demo_loads, json_dumps = \<lambda>v. Inr ''{}'', ed_public = \<lambda>s. s, ed_sign = \<lambda>k m. m, euid = 0\<rparr>\<rparr>"

definition demo_signer :: permit_signer where
  "demo_signer = \<lparr>sim_backdate_ns = 10000000, challenges = [], sequence = [(''base'', 0), (''arm'', 0)],
                active_arm = IDLE, admitted_arm = IDLE, goal_sequence = 0, admitted_goal_sequence = 0,
                admitted_arm_holding = True, admitted_arm_expired = False\<rparr>"

definition demo_gate :: gate where
  "demo_gate = fresh_gate 500 50 ARM_NAMES True True None (Some demo_signer)"

definition demo_ready :: gate where
  "demo_ready = snd (spin demo_env [GuardState ''base'' ''guard'', GuardState ''arm'' ''guard''] demo_gate)"

definition demo_moved :: gate where
  "demo_moved = snd (dispatch demo_env TickEvent demo_ready)"




lemma demo_init: "gate_init demo_loads (\<lambda>v. Inl TypeError) demo_params = Inr (demo_gate, \<lparr>bound_base = [], bound_arm = []\<rparr>)"
proof -
  have tick: "tick_rate_ok (gp_tick_hz demo_params)"
    by (simp add: demo_params_def tick_rate_ok_def isfinite_def isnan_def f_exp_def f_val_def f_mant_def f_neg_def)
  have p: "demo_loads (gp_policy demo_params) = Inr (PDict [(''freshness'', PDict [(''world_max_age_ms'', PInt 500)]),
        (''arm'', PDict [(''joints'', PList (map (\<lambda>n. PDict [(''name'', PStr n)]) ARM_NAMES))])])"
    by (simp add: demo_loads_def demo_params_def)
  have j: "policy_joints (PDict [(''freshness'', PDict [(''world_max_age_ms'', PInt 500)]),
        (''arm'', PDict [(''joints'', PList (map (\<lambda>n. PDict [(''name'', PStr n)]) ARM_NAMES))])]) = Inr ARM_NAMES"
    by code_simp
  have raw: "has_raw_inputs demo_loads demo_params = Inr False" by code_simp
  show ?thesis unfolding gate_init_def p
    using raw tick by (simp add: j)
      (simp add: demo_params_def demo_loads_def permit_signer_init_def SIM_ORDERING_BACKDATE_NS_def demo_signer_def demo_gate_def)
qed

lemma demo_disarms: "engine_disarms demo_env"
proof -
  have "check_rejection demo_stop = Inr demo_stop" by code_simp
  then show ?thesis by (simp add: engine_disarms_def demo_env_def reject_request_def)
qed

lemma demo_spin: "spin demo_env [GuardState ''base'' ''guard'', GuardState ''arm'' ''guard''] demo_gate = (Inr (), demo_ready)"
proof -
  have "fst (spin demo_env [GuardState ''base'' ''guard'', GuardState ''arm'' ''guard''] demo_gate) = Inr ()" by code_simp
  then show ?thesis by (simp add: demo_ready_def prod_eq_iff)
qed

lemma demo_dispatch: "dispatch demo_env TickEvent demo_ready = (fst (dispatch demo_env TickEvent demo_ready), demo_moved)"
  by (simp add: demo_moved_def)

section \<open>Authority\<close>

text \<open>
  C1. In every run of the node from the state its constructor builds, every permit a callback
  sends is either a stop or inside the world the node last accepted: it ends, on the simulated
  clock and on the monotonic clock, no later than that world's stamp and arrival plus the
  configured maximum age, and it lives at most 200 ms from the request.
\<close>

theorem gate_permits_inside_world:
  assumes "gate_init loads mk params = Inr (g0, b)" and "engine_disarms e"
    and "spin e evs g0 = (Inr (), g)" and "dispatch e ev g = (r, g')"
  shows "emitted (allowed g') g g'"
  using dispatch_safe [OF assms(2) spin_inv [OF assms(2) gate_init_inv [OF assms(1)] assms(3)] assms(4)] by simp

theorem gate_permits_inside_world_witness:
  "emitted (allowed demo_moved) demo_ready demo_moved \<and> \<not> list_all stop_only (out demo_moved)"
proof -
  have "\<not> list_all stop_only (out demo_moved)" by code_simp
  with gate_permits_inside_world [OF demo_init demo_disarms demo_spin demo_dispatch] show ?thesis by simp
qed

text \<open>
  C2. A nonzero velocity or an arm goal leaves the node only in the callback whose own exchange
  the freshness check passed. The callback ran in the state \<^verbatim>\<open>_receive\<close> puts it in and made one
  request to the Rust process; the answer to that very request actuates, its proposal has not
  expired when the answer is checked, and between the readings made before the callback and the
  readings made right after it less than the configured response time went by on each of the two
  clocks, with the world of the answer still inside its maximum age after either of them. Every
  velocity sent that is not zero and every arm goal are those of that answer.
\<close>

theorem gate_only_fresh_actuation:
  assumes "gate_init loads mk params = Inr (g0, b)" and "engine_disarms e"
    and "spin e evs g0 = (Inr (), g)" and "dispatch e ev g = (r, g')" and "\<not> emitted quiet g g'"
  shows "\<exists>cb step s' req. callback_of e ev = Some cb \<and> cb (exchange_state e (counted ev g)) = (Inr step, s') \<and>
    out s' = out g @ [EngineRequest req] \<and> engine e (reads s' - 1) req = Inr step \<and> actuating step \<noteq> Inr False \<and>
    fresh_exchange e (reads g) (reads s') (world_max_age_ms g) (max_actuation_response_ms g) step \<and>
    emitted (carried step) g g'"
proof -
  have inv: "gate_inv g" using spin_inv [OF assms(2) gate_init_inv [OF assms(1)] assms(3)] .
  obtain cb where cb: "callback_of e ev = Some cb"
    using assms(4,5) sq_quiet keepsD dispatch_other_quiet by (metis not_None_eq)
  show ?thesis
    using receive_only_fresh [OF callback_plain [OF cb] callback_answered [OF cb] assms(2), of "counted ev g" r g'] inv assms(4,5) cb
    by (simp add: dispatch_receive [OF cb] counted_same emitted_counted)
qed

theorem gate_only_fresh_actuation_witness:
  "\<exists>step s' req. tick_callback demo_env (exchange_state demo_env demo_ready) = (Inr step, s') \<and>
     engine demo_env (reads s' - 1) req = Inr step \<and> actuating step \<noteq> Inr False \<and>
     fresh_exchange demo_env (reads demo_ready) (reads s') (world_max_age_ms demo_ready) (max_actuation_response_ms demo_ready) step \<and>
     emitted (carried step) demo_ready demo_moved"
proof -
  have "\<not> emitted quiet demo_ready demo_moved" by code_simp
  from gate_only_fresh_actuation [OF demo_init demo_disarms demo_spin demo_dispatch this] show ?thesis by auto
qed


text \<open>
  C3. Once the node has failed it stays failed, and whatever callbacks still run it sends only
  zero velocities whose permit, if any, is a stop, stop permits on the arm's lease topic,
  cancellations of an arm goal, and its own exit: no arm goal, no heartbeat, no renewal of either
  kind, no state or outcome message and no request to the Rust process.
\<close>

theorem gate_failure_latches:
  assumes "failed g" and "spin e evs g = (r, g')"
  shows "failed g' \<and> emitted revoking g g'"
  using keepsD [OF la_spin assms(2)] assms(1) by (simp add: latched_def)

theorem gate_failure_latches_witness:
  "let g = demo_ready\<lparr>failed := True, abort_deadline := Some 0\<rparr>; g' = snd (spin demo_env [TickEvent, AbortTick, AbortTick] g) in
   failed g' \<and> emitted revoking g g' \<and> length (out g') = 4"
proof -
  define g where "g = demo_ready\<lparr>failed := True, abort_deadline := Some 0\<rparr>"
  have "length (out (snd (spin demo_env [TickEvent, AbortTick, AbortTick] g))) = 4" unfolding g_def by code_simp
  with gate_failure_latches [of g demo_env "[TickEvent, AbortTick, AbortTick]"] show ?thesis
    by (simp add: Let_def g_def [symmetric] prod_eq_iff) (simp add: g_def)
qed




section \<open>Exact actions\<close>

text \<open>
  C5. A permit authorizes exactly what it is sent with. In every run, the permit on a velocity
  command carries the digest of that command and the permit on an arm goal the digest of that
  trajectory, so with a collision-free hash any command or trajectory a controller accepts
  under the permit is the one that was sent.
\<close>

theorem gate_permits_exact:
  assumes "inj (sha256 e)" and "spin e evs g = (r, g')"
  shows "emitted (binds (sha256 e)) g g'"
  using keepsD [OF ex_spin assms(2)] exact_binds [OF assms(1)] by (auto simp: emitted_def)

theorem gate_permits_exact_witness:
  "emitted (binds (sha256 demo_env)) demo_ready (snd (spin demo_env [TickEvent] demo_ready)) \<and>
   \<not> list_all (\<lambda>x. permits_of x = []) (out (snd (spin demo_env [TickEvent] demo_ready)))"
proof -
  have "\<not> list_all (\<lambda>x. permits_of x = []) (out (snd (spin demo_env [TickEvent] demo_ready)))" by code_simp
  moreover have "inj (sha256 demo_env)" by (simp add: demo_env_def inj_def)
  ultimately show ?thesis
    using gate_permits_exact [of demo_env "[TickEvent]" demo_ready "fst (spin demo_env [TickEvent] demo_ready)"]
    by simp
qed

text \<open>
  C6. A positive permit is signed only inside the controllers' admission window: when
  \<^verbatim>\<open>_permit\<close> returns, neither clock has gone back since the request, the request is less than
  50 ms old on both clocks (the simulated one counted from the backdated origin), and more than
  50 ms of its authority and of the accepted world's are left; the permit is for the asked target,
  kind and digest, and a stop is never signed on this path.
\<close>

theorem gate_permit_admissible:
  assumes "gate_permit e target kind digest g = (Inr p, g')"
  shows "kind \<noteq> ''stop'' \<and> p_target p = target \<and> p_kind p = kind \<and> p_digest p = digest \<and>
    (\<exists>ps. permits g = Some ps \<and> 0 \<le> sim_age e g \<and> 0 \<le> wall_age e g \<and>
       (let age = max (sim_age e g + sim_backdate_ns ps) (wall_age e g) in
        age < 50000000 \<and> age + 50000000 < permit_remaining_ns g \<and> age + 50000000 < permit_world_remaining_ns g))"
  using assms
proof (rule gate_permit_Inr)
  fix ps
  assume "permits g = Some ps" "kind \<noteq> ''stop''" "p_kind p = kind" "p_target p = target" "p_digest p = digest"
    and "admission_check (sim_age e g) (wall_age e g) (sim_backdate_ns ps) (permit_remaining_ns g) (permit_world_remaining_ns g) = Inr ()"
  then show ?thesis by (auto simp: admission_check_iff Let_def)
qed

definition demo_granted :: gate where
  "demo_granted = demo_ready\<lparr>permit_sim_ns := 1000000000, permit_wall_ns := 7000000000, permit_remaining_ns := 200000000,
     permit_world_remaining_ns := 200000000\<rparr>"

theorem gate_permit_admissible_witness:
  "\<exists>p g'. gate_permit demo_env ''base'' ''command'' ''d'' demo_granted = (Inr p, g') \<and> p_digest p = ''d'' \<and>
     0 \<le> wall_age demo_env demo_granted"
proof -
  have "case fst (gate_permit demo_env ''base'' ''command'' ''d'' demo_granted) of Inr p \<Rightarrow> True | _ \<Rightarrow> False" by code_simp
  then obtain p g' where run: "gate_permit demo_env ''base'' ''command'' ''d'' demo_granted = (Inr p, g')"
    by (cases "gate_permit demo_env ''base'' ''command'' ''d'' demo_granted") (auto split: sum.splits)
  with gate_permit_admissible [OF run] show ?thesis by blast
qed

end
