(* ===== verification/Input_Properties.thy ===== *)
theory Input_Properties
  imports Source_Node Bridge Controller_Permits "HOL-Library.Code_Target_Int" "HOL-Library.Code_Target_Nat"
begin

text \<open>
  The properties of the signed input path (proposals, envelopes, the source node), of the bridge
  to the Rust process and of the controller permits, each with a concrete instance evaluated by
  the kernel.
\<close>

section \<open>Concrete inputs\<close>

definition demo_twist :: twist where
  "demo_twist = \<lparr>lin_x = 0x3FF0000000000000, lin_y = 0, lin_z = 0, ang_x = 0, ang_y = 0, ang_z = 0\<rparr>"

definition demo_traj :: trajectory where
  "demo_traj = \<lparr>joint_names = ARM_NAMES,
     points = [\<lparr>positions = [0, 0, 0, 0], velocities = [], accelerations = [], effort = [],
                time_from_start = \<lparr>sec = 0, nanosec = 500000000\<rparr>\<rparr>],
     tstamp = \<lparr>sec = 0, nanosec = 0\<rparr>, frame_id = []\<rparr>"

definition demo_hex :: string where
  "demo_hex = replicate 64 (CHR ''a'')"

definition demo_platform :: platform where
  "demo_platform = \<lparr>json_loads = \<lambda>s.
       if s = ''trust'' then Inr (PDict [(''body'', PStr ''inner'')])
       else if s = ''inner'' then Inr (PDict [(''v'', PInt 1), (''audience'', PStr ''robot''), (''epoch'', PInt 1),
          (''keys'', PDict [(''vla'', PStr demo_hex)])])
       else Inl (ValueError ''not json''),
     json_dumps = \<lambda>v. Inr ''{}'', ed_public = \<lambda>s. s, ed_sign = \<lambda>k m. k, euid = 0\<rparr>"

definition demo_keys :: "(string \<times> seed_file) list" where
  "demo_keys = [(''vla'', \<lparr>sf_mode = 256, sf_uid = 0, sf_text = demo_hex\<rparr>)]"

definition demo_source :: source where
  "demo_source = (case source_init demo_platform ''vla'' 0 ''trust'' demo_keys ARM_NAMES None of
     Inr s \<Rightarrow> s | Inl _ \<Rightarrow> \<lparr>src_role = [], src_signer = \<lparr>audience = [], epoch = 0, keys = [], counters = []\<rparr>, src_file = None,
        src_published = [], src_seq = 0, src_joints = [], src_ttl = 0, src_log = []\<rparr>)"

definition demo_source_run :: source where
  "demo_source_run = snd (propose_arm demo_platform Reserved 9000000 demo_traj
     (snd (propose_base demo_platform Reserved 5000000 demo_twist demo_source)))"

lemma demo_source_reachable: "source_reachable demo_platform demo_source_run"
proof -
  have "case source_init demo_platform ''vla'' 0 ''trust'' demo_keys ARM_NAMES None of Inr s \<Rightarrow> True | _ \<Rightarrow> False" by code_simp
  then have "source_init demo_platform ''vla'' 0 ''trust'' demo_keys ARM_NAMES None = Inr demo_source"
    by (auto simp: demo_source_def split: sum.splits)
  moreover have "distinct (map fst demo_keys)" by code_simp
  ultimately have 0: "source_reachable demo_platform demo_source" by (rule source_reachable.boot [rotated])
  have "src_role demo_source = ''vla''" by code_simp
  with 0 have 1: "source_reachable demo_platform (snd (propose_base demo_platform Reserved 5000000 demo_twist demo_source))"
    by (meson source_reachable.step source_step.on_base)
  have "src_role (snd (propose_base demo_platform Reserved 5000000 demo_twist demo_source)) = ''vla''" by code_simp
  with 1 show ?thesis unfolding demo_source_run_def by (meson source_reachable.step source_step.on_arm)
qed

section \<open>Signed inputs\<close>

text \<open>
  C7. No counter is ever published twice. In every history of a source node, with restarts from
  the durable counter file, new trust epochs, refused inputs and reservations that fail before or
  after the file was replaced, the published envelopes have strictly increasing counters per role
  within an epoch and never return to an earlier epoch.
\<close>

theorem source_counters_never_reused:
  assumes "source_reachable pf s"
  shows "sorted_wrt env_before (src_published s) \<and>
    distinct (map (\<lambda>e. (env_epoch e, env_role e, env_counter e)) (src_published s))"
proof -
  have so: "sorted_wrt env_before (src_published s)" using source_reachable_inv [OF assms] by (simp add: source_inv_def)
  then have "distinct (map (\<lambda>e. (env_epoch e, env_role e, env_counter e)) (src_published s))"
    by (rule sorted_wrt_distinct) (auto simp: env_before_def)
  with so show ?thesis by simp
qed

theorem source_counters_never_reused_witness:
  "length (src_published demo_source_run) = 2 \<and> sorted_wrt env_before (src_published demo_source_run)"
proof -
  have "length (src_published demo_source_run) = 2" by code_simp
  with source_counters_never_reused [OF demo_source_reachable] show ?thesis by simp
qed










text \<open>
  A signature binds the whole input. The signed message determines audience, epoch, counter,
  role and payload, and no signed input message is a message a controller permit signature covers.
\<close>

theorem signed_message_injective:
  assumes "input_message a ep c r p = Inr m"
  shows "(\<forall>a' ep' c' r' p'. input_message a' ep' c' r' p' = Inr m \<longrightarrow> (a', ep', c', r', p') = (a, ep, c, r, p)) \<and>
    (\<forall>pt. m \<noteq> PERMIT_DOMAIN @ permit_body pt)"
proof -
  have "take 16 (PERMIT_DOMAIN @ permit_body pt) \<noteq> INPUT_DOMAIN" for pt
    by (simp add: PERMIT_DOMAIN_def INPUT_DOMAIN_def)
  with input_message_domain [OF assms] input_message_inj [OF assms] show ?thesis by auto
qed

theorem signed_message_injective_witness:
  "\<exists>m. input_message ''robot'' 1 7 ''vla'' ''{}'' = Inr m \<and> (\<forall>c. input_message ''robot'' 1 c ''vla'' ''{}'' = Inr m \<longrightarrow> c = 7)"
proof -
  have "case input_message ''robot'' 1 7 ''vla'' ''{}'' of Inr m \<Rightarrow> True | _ \<Rightarrow> False" by code_simp
  then obtain m where m: "input_message ''robot'' 1 7 ''vla'' ''{}'' = Inr m" by (auto split: sum.splits)
  with signed_message_injective [OF m] show ?thesis by blast
qed


section \<open>Proposals\<close>

text \<open>
  The base parser is exact on every input: a twist outside the plane or not finite is an
  \<^verbatim>\<open>InvalidProposal\<close>, a zero twist is a stop, and everything else is proposed with the very
  velocities of the message and the given time to live.
\<close>

theorem base_action_exact:
  "base_action t ttl =
     (if f_zero (lin_y t) \<and> f_zero (lin_z t) \<and> f_zero (ang_x t) \<and> f_zero (ang_y t) then
        (if f_zero (lin_x t) \<and> f_zero (ang_z t) then Inr stop_action
         else if isfinite (lin_x t) \<and> isfinite (ang_z t)
         then Inr (PDict [(''type'', PStr ''velocity''), (''linear'', PFloat (lin_x t)), (''angular'', PFloat (ang_z t)), (''ttl_ms'', PInt ttl)])
         else Inl (InvalidProposal ''nonfinite TwistStamped component''))
      else Inl (InvalidProposal ''unsupported TwistStamped component''))"
  by (auto simp: base_action_def dest: f_zero_finite)

text \<open>
  An arm proposal the parser accepts is the trajectory of the message: the configured joints
  in order, one finite position per joint in every point, times in the canonical range, no
  velocities, accelerations or efforts, and a lease that is the fixed one (then no point is
  later) or the duration of the last point. Everything else is an \<^verbatim>\<open>InvalidProposal\<close>.
\<close>

theorem arm_action_sound:
  assumes "arm_action msg joints f = Inr a"
  shows "joint_names msg = joints \<and>
    (if points msg = [] then a = stop_action
     else \<exists>pts. length pts = length (points msg) \<and>
        (\<forall>i<length pts. pts ! i = (arm_millis (time_from_start (points msg ! i)), positions (points msg ! i)) \<and>
           length (snd (pts ! i)) = length joints \<and> list_all isfinite (snd (pts ! i)) \<and>
           velocities (points msg ! i) = [] \<and> accelerations (points msg ! i) = [] \<and> effort (points msg ! i) = [] \<and>
           0 \<le> sec (time_from_start (points msg ! i)) \<and> nanosec (time_from_start (points msg ! i)) < 1000000000) \<and>
        (f \<noteq> 0 \<longrightarrow> fst (last pts) \<le> f) \<and>
        a = PDict [(''type'', PStr ''joint_trajectory''), (''points'', PList (map point_val pts)),
                   (''ttl_ms'', PInt (if f \<noteq> 0 then f else fst (last pts)))])"
proof -
  have pt: "arm_point n p = Inr q \<Longrightarrow> q = (arm_millis (time_from_start p), positions p) \<and> length (snd q) = n \<and>
      list_all isfinite (snd q) \<and> velocities p = [] \<and> accelerations p = [] \<and> effort p = [] \<and>
      0 \<le> sec (time_from_start p) \<and> nanosec (time_from_start p) < 1000000000" for n p q
    by (auto simp: arm_point_def split: if_splits)
  show ?thesis
  proof (cases "points msg = []")
    case True
    with arm_action_cases [OF assms] show ?thesis by auto
  next
    case False
    then obtain pts where r: "rmap (arm_point (length joints)) (points msg) = Inr pts" "f \<noteq> 0 \<longrightarrow> fst (last pts) \<le> f"
      "a = PDict [(''type'', PStr ''joint_trajectory''), (''points'', PList (map point_val pts)),
                   (''ttl_ms'', PInt (if f \<noteq> 0 then f else fst (last pts)))]" "joint_names msg = joints"
      using arm_action_cases [OF assms] by blast
    have l: "length pts = length (points msg)" using r(1) by (rule rmap_length)
    then have "i < length pts \<Longrightarrow> arm_point (length joints) (points msg ! i) = Inr (pts ! i)" for i
      using rmap_Inr_nth [OF r(1)] by simp
    note n = this [THEN pt]
    show ?thesis unfolding if_not_P [OF False]
      by (intro conjI exI [of _ pts]) (use l r n in \<open>(blast | simp only: simp_thms)+\<close>)
  qed
qed

theorem arm_action_sound_witness:
  "\<exists>a. arm_action demo_traj ARM_NAMES 1000 = Inr a \<and> joint_names demo_traj = ARM_NAMES \<and> a \<noteq> stop_action"
proof -
  have "case arm_action demo_traj ARM_NAMES 1000 of Inr a \<Rightarrow> a \<noteq> stop_action | _ \<Rightarrow> False" by code_simp
  then obtain a where a: "arm_action demo_traj ARM_NAMES 1000 = Inr a" "a \<noteq> stop_action" by (auto split: sum.splits)
  with arm_action_sound [OF a(1)] show ?thesis by blast
qed

text \<open>
  A semantic reference is accepted only in full: prefixed, at most 2048 characters, with
  exactly the nine fields and each once, positive 64-bit revisions of schema 1, bounded ASCII
  identities and a lower-case SHA-256 of the model.
\<close>

theorem semantic_binding_strict:
  assumes "semantic_binding loads frame = Inr (Some d)"
  shows "is_prefix SEMANTIC_PREFIX frame \<and> ulen frame \<le> 2048 \<and> distinct (map fst d) \<and> fst ` set d = set SEMANTIC_FIELDS \<and>
    field d ''schema_version'' = PInt 1 \<and>
    (\<forall>k\<in>set REVISION_FIELDS. \<exists>n. field d k = PInt n \<and> 0 < n \<and> n < 2 ^ 64) \<and>
    (\<forall>k\<in>set IDENTITY_FIELDS. \<exists>t. field d k = PStr t \<and> 1 \<le> ulen t \<and> ulen t \<le> 64 \<and> isascii t \<and> list_all identity_char t) \<and>
    (\<exists>t. field d ''model_sha256'' = PStr t \<and> is_hex 64 t)"
proof -
  obtain v where v: "rbind (loads (drop (length SEMANTIC_PREFIX) frame)) (hook_val unique) = Inr v" "check_semantic v = Inr d"
    and p: "is_prefix SEMANTIC_PREFIX frame" "ulen frame \<le> 2048"
    using assms by (auto simp: semantic_binding_Some)
  note c = v(2) [unfolded check_semantic_Inr]
  have "distinct (map fst d)" using v(1) c by (auto simp: rbind_Inr_iff dest: hook_unique_distinct)
  moreover have "\<exists>n. w = PInt n \<and> 0 < n \<and> n < 2 ^ 64" if "semantic_revision_ok w" for w
    using that by (cases w) (auto simp: semantic_revision_ok_def)
  moreover have "\<exists>t. w = PStr t \<and> 1 \<le> ulen t \<and> ulen t \<le> 64 \<and> isascii t \<and> list_all identity_char t"
    if "semantic_identity_ok w" for w using that by (cases w) auto
  moreover have "\<exists>t. w = PStr t \<and> is_hex 64 t" if "digest_ok w" for w using that by (cases w) auto
  ultimately show ?thesis using p c by (simp add: list_all_iff)
qed

definition demo_semantic :: "(string \<times> pyval) list" where
  "demo_semantic = map (\<lambda>k. (k, PInt 1)) REVISION_FIELDS @
     map (\<lambda>k. (k, PStr (if k = ''model_sha256'' then demo_hex else ''id''))) IDENTITY_FIELDS"

theorem semantic_binding_strict_witness:
  "semantic_binding (\<lambda>s. Inr (PDict demo_semantic)) (SEMANTIC_PREFIX @ ''{}'') = Inr (Some demo_semantic) \<and> distinct (map fst demo_semantic)"
proof -
  have "semantic_binding (\<lambda>s. Inr (PDict demo_semantic)) (SEMANTIC_PREFIX @ ''{}'') = Inr (Some demo_semantic)" by code_simp
  with semantic_binding_strict [OF this] show ?thesis by simp
qed


section \<open>The bridge\<close>

text \<open>
  The freshness check lets a response through exactly when it does not actuate, or when it
  carries an expiry and a world age and, counting the time of the exchange, the answer came in
  time, the proposal has not expired and the world is still young enough. It never mistakes an
  actuating response for a harmless one: a refused response raises.
\<close>

theorem freshness_exact:
  "require_fresh_actuation step el now wmax mr = Inr () \<longleftrightarrow>
     actuating step = Inr False \<or>
     actuating step = Inr True \<and>
     (\<exists>st ex age. status_of step = Inr st \<and> dget st ''active_expires_ms'' = Inr (PInt ex) \<and> dget st ''world_age_ms'' = Inr (PInt age) \<and>
        0 \<le> el \<and> el < of_int mr \<and> now < ex \<and> of_int age + el < of_int wmax)"
  by (rule require_fresh_iff)

text \<open>
  C34. While no complete line is buffered and the child answers in time, a request does not depend
  on how its output was cut into reads: any nonempty chunks without a newline followed by one with
  it, at most 1 MiB in the buffer once that one is read (what it carries after the newline
  counted), give the answer the whole line gives and leave in the buffer exactly what follows the
  first newline.
\<close>

theorem bridge_framing:
  assumes "newline \<notin> set buf" and "\<forall>c\<in>set cs. c \<noteq> [] \<and> newline \<notin> set c" and "newline \<in> set c0"
    and "length (buf @ concat cs @ c0) \<le> MIB" and "dumps msg = Inr text" and "length text < MIB"
  shows "request loads dumps True True (map Chunk cs @ Chunk c0 # evs) msg buf =
    (parse_answer loads (line_of (buf @ concat cs @ c0)), rest_of (buf @ concat cs @ c0))"
proof -
  have "c0 \<noteq> []" using assms(3) by auto
  with read_loop_chunks [OF assms(1,2) _ assms(3,4)] assms(5,6) show ?thesis by (simp add: request_def)
qed

theorem bridge_framing_witness:
  "fst (request (\<lambda>s. if s = ''ab'' then Inr (PDict [(''cmd'', PDict [(''linear'', PInt 0), (''angular'', PInt 0)])]) else Inl TypeError)
     (\<lambda>v. Inr ''{}'') True True [Chunk ''a'', Chunk (''b'' @ [newline] @ ''rest'')] PNone [])
   = Inr (PDict [(''cmd'', PDict [(''linear'', PInt 0), (''angular'', PInt 0)])])"
proof -
  define loads where "loads s = (if s = ''ab'' then Inr (PDict [(''cmd'', PDict [(''linear'', PInt 0), (''angular'', PInt 0)])])
    else Inl TypeError)" for s
  have n: "newline \<notin> set ''a''" "newline \<notin> set []" "newline \<in> set (''b'' @ [newline] @ ''rest'')" by simp_all
  have r: "request loads (\<lambda>v. Inr ''{}'') True True [Chunk ''a'', Chunk (''b'' @ [newline] @ ''rest'')] PNone [] =
     (parse_answer loads (line_of ([] @ concat [''a''] @ ''b'' @ [newline] @ ''rest'')), rest_of ([] @ concat [''a''] @ ''b'' @ [newline] @ ''rest''))"
    using bridge_framing [of "[]" "[''a'']" "''b'' @ [newline] @ ''rest''" "\<lambda>v. Inr ''{}''" PNone "''{}''" loads "[]"] n
    by (simp add: MIB_def)
  have "line_of ([] @ concat [''a''] @ ''b'' @ [newline] @ ''rest'') = ''ab''" by code_simp
  moreover have "parse_answer loads ''ab'' = Inr (PDict [(''cmd'', PDict [(''linear'', PInt 0), (''angular'', PInt 0)])])"
    unfolding loads_def by code_simp
  ultimately show ?thesis using r unfolding loads_def by simp
qed

text \<open>
  C35. Whatever the child writes, a request that returns has a well-formed answer: the value of the
  line, with a linear and an angular velocity that are numbers, not booleans, and finite; an answer
  that is no such object is a bridge failure.
\<close>

theorem bridge_answer_finite:
  assumes "request loads dumps alive writable evs msg buf = (Inr ans, buf')"
  shows "\<exists>line c l a. loads line = Inr ans \<and> dix ans ''cmd'' = Inr c \<and> dix c ''linear'' = Inr l \<and> dix c ''angular'' = Inr a \<and>
    (\<forall>v\<in>{l, a}. (\<exists>n. v = PInt n) \<or> (\<exists>w. v = PFloat w \<and> isfinite w))"
proof -
  obtain line where "parse_answer loads line = Inr ans"
    using assms by (auto simp: request_def split: sum.splits prod.splits if_splits)
  from parse_answer_Inr [OF this] obtain c l a where "loads line = Inr ans" "dix ans ''cmd'' = Inr c" "dix c ''linear'' = Inr l"
    "dix c ''angular'' = Inr a" "velocity_bad l = Inr False" "velocity_bad a = Inr False" by blast
  then show ?thesis by (intro exI [of _ line] exI [of _ c] exI [of _ l] exI [of _ a]) (auto dest!: velocity_ok)
qed

theorem bridge_answer_finite_witness:
  "let ans = PDict [(''cmd'', PDict [(''linear'', PInt 0), (''angular'', PFloat 0)])] in
   \<exists>c l a. dix ans ''cmd'' = Inr c \<and> dix c ''linear'' = Inr l \<and> dix c ''angular'' = Inr a \<and>
     (\<forall>v\<in>{l, a}. (\<exists>n. v = PInt n) \<or> (\<exists>w. v = PFloat w \<and> isfinite w))"
proof -
  have "request (\<lambda>s. Inr (PDict [(''cmd'', PDict [(''linear'', PInt 0), (''angular'', PFloat 0)])])) (\<lambda>v. Inr ''{}'') True True
     [Chunk [newline]] PNone [] = (Inr (PDict [(''cmd'', PDict [(''linear'', PInt 0), (''angular'', PFloat 0)])]), [])" by code_simp
  from bridge_answer_finite [OF this] show ?thesis unfolding Let_def by blast
qed

section \<open>Controller permits\<close>

text \<open>
  A frozen or replayed perception cannot keep authority alive. Once a world is accepted at
  some wall time, any further answers whose world stamps are not newer leave its deadline where
  it was: the remaining authority never exceeds what is left on either clock, and it is zero as
  soon as either clock has advanced by the maximum age.
\<close>

theorem frozen_world_expires:
  assumes "wc_stamp_ns c = Some st" and "wc_wall_ns c = Some wa" and "0 \<le> m"
    and "\<forall>(step, w)\<in>set obs. \<forall>t. usable_stamp step = Some t \<longrightarrow> t \<le> st"
  shows "let rem = wc_remaining (observe_all obs c) sim wall m in
    0 \<le> rem \<and> rem \<le> m \<and> (wall \<ge> wa + m \<or> sim \<ge> st + m \<or> sim < st \<or> wall < wa \<longrightarrow> rem = 0) \<and>
    (0 < rem \<longrightarrow> sim + rem \<le> st + m \<and> wall + rem \<le> wa + m)"
proof -
  have "observe_all obs c = c" using assms(1,4) by (rule observe_all_frozen)
  then show ?thesis using assms(1-3) by (auto simp: wc_remaining_def Let_def)
qed

theorem frozen_world_expires_witness:
  "wc_remaining (observe_all [(PDict [], 9)] \<lparr>wc_stamp_ns = Some 100, wc_wall_ns = Some 200\<rparr>) 120 700 500 = 0"
proof -
  have "usable_stamp (PDict []) = None" by code_simp
  then show ?thesis
    using frozen_world_expires [of "\<lparr>wc_stamp_ns = Some 100, wc_wall_ns = Some 200\<rparr>" 100 200 500 "[(PDict [], 9)]" 120 700]
    by (simp add: Let_def)
qed

text \<open>
  C36. The exact-action digests separate everything they bind: with a collision-free hash, equal
  base digests mean equal stamps and all six velocity components bit for bit, equal arm digests
  mean the same joints, stamp and points, and no base command has the digest of an arm trajectory.
\<close>

theorem digests_bind_action:
  assumes "inj sha"
  shows "(base_digest sha c = Inr q \<longrightarrow> base_digest sha c' = Inr q \<longrightarrow> cmd_twist c = cmd_twist c' \<and> cmd_stamp c = cmd_stamp c') \<and>
    (arm_digest sha t = Inr q \<longrightarrow> arm_digest sha t' = Inr q \<longrightarrow>
       joint_names t = joint_names t' \<and> points t = points t' \<and> tstamp t = tstamp t') \<and>
    \<not> (base_digest sha c = Inr q \<and> arm_digest sha t = Inr q)"
proof (intro conjI impI notI)
  show "cmd_twist c = cmd_twist c'" "cmd_stamp c = cmd_stamp c'" if "base_digest sha c = Inr q" "base_digest sha c' = Inr q"
    using that assms by (auto simp: base_digest_def rbind_Inr_iff dest!: injD dest: base_preimage_inj)
  show "joint_names t = joint_names t'" "points t = points t'" "tstamp t = tstamp t'" if "arm_digest sha t = Inr q" "arm_digest sha t' = Inr q"
    using that assms by (auto simp: arm_digest_def rbind_Inr_iff dest!: injD dest: arm_preimage_inj)
  show False if "base_digest sha c = Inr q \<and> arm_digest sha t = Inr q"
    using that assms by (auto simp: base_digest_def arm_digest_def rbind_Inr_iff dest!: injD dest: preimages_disjoint)
qed

theorem digests_bind_action_witness:
  "\<exists>q. base_digest (\<lambda>s. s) \<lparr>cmd_twist = demo_twist, cmd_stamp = \<lparr>sec = 1, nanosec = 5\<rparr>, cmd_frame = []\<rparr> = Inr q \<and>
     (\<forall>c. base_digest (\<lambda>s. s) c = Inr q \<longrightarrow> cmd_twist c = demo_twist) \<and> arm_digest (\<lambda>s. s) demo_traj \<noteq> Inr q"
proof -
  let ?c = "\<lparr>cmd_twist = demo_twist, cmd_stamp = \<lparr>sec = 1, nanosec = 5\<rparr>, cmd_frame = []\<rparr>"
  have "case base_digest (\<lambda>s. s) \<lparr>cmd_twist = demo_twist, cmd_stamp = \<lparr>sec = 1, nanosec = 5\<rparr>, cmd_frame = []\<rparr> of
     Inr q \<Rightarrow> True | _ \<Rightarrow> False" by code_simp
  then obtain q where q: "base_digest (\<lambda>s. s) ?c = Inr q" by (auto split: sum.splits)
  have i: "inj (\<lambda>s :: string. s)" by (simp add: inj_def)
  have "cmd_twist c = demo_twist" if "base_digest (\<lambda>s. s) c = Inr q" for c
    using digests_bind_action [OF i, of c q ?c demo_traj demo_traj] q that by simp
  moreover have "arm_digest (\<lambda>s. s) demo_traj \<noteq> Inr q"
    using digests_bind_action [OF i, of ?c q ?c demo_traj demo_traj] q by simp
  ultimately show ?thesis using q by blast
qed

text \<open>
  Along any sequence of signing requests, with refused ones in between, the permits of one
  controller carry strictly increasing sequence numbers, so a controller that remembers the last
  number accepts each permit at most once.
\<close>

theorem permit_sequences_increase:
  "let ps = fst (permit_issuer.issue_all reqs s) in
   sorted_wrt (\<lambda>p q. p_target p = p_target q \<longrightarrow> p_seq p < p_seq q) ps \<and>
   distinct (map (\<lambda>p. (p_target p, p_seq p)) ps) \<and> (\<forall>p\<in>set ps. permit_level s (p_target p) < p_seq p)"
  using permit_issuer.issue_all_increasing permit_issuer.issue_all_distinct permit_issuer.issue_all_above
  by (simp add: Let_def)

theorem permit_sequences_increase_witness:
  "let reqs = [(''base'', ''command'', ''d'', 5, 9, 7), (''arm'', ''goal'', ''d'', 5, 0, 7), (''base'', ''stop'', ''d'', 6, 9, 8)];
       s = \<lparr>sim_backdate_ns = 0, challenges = [(''base'', ''n''), (''arm'', ''n'')], sequence = [(''base'', 3), (''arm'', 0)],
            active_arm = [], admitted_arm = [], goal_sequence = 0, admitted_goal_sequence = 0, admitted_arm_holding = True,
            admitted_arm_expired = False\<rparr>
   in distinct (map (\<lambda>p. (p_target p, p_seq p)) (fst (permit_issuer.issue_all reqs s))) \<and>
      map p_seq (fst (permit_issuer.issue_all reqs s)) = [4, 5]"
  unfolding Let_def
  using permit_sequences_increase [of "[(''base'', ''command'', ''d'', 5, 9, 7), (''arm'', ''goal'', ''d'', 5, 0, 7), (''base'', ''stop'', ''d'', 6, 9, 8)]"]
  by (simp add: Let_def permit_issuer.issue_all.simps ps_sign_def MAX_LEASE_NS_def)

end
