(* ===== verification/Permit_Protocol.thy ===== *)
theory Permit_Protocol
  imports Bytes
begin

text \<open>
  The H2 LED permit encoding (\<^verbatim>\<open>tools/permit_protocol.py\<close>), the deployment metadata and seed
  checks (\<^verbatim>\<open>tools/permit_keys.py\<close>) and the bounded lockstep frames of the local socket
  (\<^verbatim>\<open>tools/permit_ipc.py\<close>). A request \<^verbatim>\<open>dict\<close> that passed \<^verbatim>\<open>context\<close> has exactly eight typed
  fields; it is the record \<open>h2_request\<close>.
\<close>

section \<open>Requests\<close>

record h2_request =
  h_install :: string
  h_epoch :: int
  h_generation :: int
  h_sequence :: int
  h_challenge :: int
  h_issued :: int
  h_nonce :: string
  h_op :: string

definition H2_DOMAIN :: string where
  "H2_DOMAIN = ''HAETAE-LED-H2'' @ [CHR 0x00, CHR 0x00, CHR 0x00]"

definition KEX_DOMAIN :: string where
  "KEX_DOMAIN = ''HAETAE-KEX-H2'' @ [CHR 0x00, CHR 0x00, CHR 0x00]"

definition H2_FIELDS :: "string list" where
  "H2_FIELDS = [''install'', ''epoch'', ''generation'', ''sequence'', ''challenge'', ''issued'', ''nonce'', ''op'']"

definition h2_val :: "h2_request \<Rightarrow> pyval" where
  "h2_val r = PDict [(''install'', PStr (h_install r)), (''epoch'', PInt (h_epoch r)), (''generation'', PInt (h_generation r)),
     (''sequence'', PInt (h_sequence r)), (''challenge'', PInt (h_challenge r)), (''issued'', PInt (h_issued r)),
     (''nonce'', PStr (h_nonce r)), (''op'', PStr (h_op r))]"

text \<open>The typed reads of \<^verbatim>\<open>context\<close>.\<close>

fun hex_value :: "nat \<Rightarrow> pyval \<Rightarrow> bool" where
  "hex_value n (PStr s) = is_hex n s"
| "hex_value n _ = False"

definition hex_field :: "pyval \<Rightarrow> string \<Rightarrow> string res" where
  "hex_field v k = rbind (dix v k) (\<lambda>x. if hex_value 32 x then need_str x else Inl (ValueError ''invalid permit identity/nonce''))"

definition counter_field :: "pyval \<Rightarrow> string \<Rightarrow> int res" where
  "counter_field v k = rbind (dix v k) (\<lambda>x.
     case as_int x of
       Some n \<Rightarrow> if 0 \<le> n \<and> n \<le> 0xffffffff then Inr n else Inl (ValueError ''invalid permit counter'')
     | None \<Rightarrow> Inl (ValueError ''invalid permit counter''))"

text \<open>\<^verbatim>\<open>context\<close>\<close>

definition context_of :: "pyval \<Rightarrow> h2_request res" where
  "context_of value =
     (if \<not> is_dict value \<or> (case value of PDict d \<Rightarrow> fst ` set d \<noteq> set H2_FIELDS | _ \<Rightarrow> True)
      then Inl (ValueError ''invalid permit request fields'')
      else rbind (hex_field value ''install'') (\<lambda>inst.
      rbind (hex_field value ''nonce'') (\<lambda>nonce.
      rbind (counter_field value ''epoch'') (\<lambda>epoch.
      rbind (counter_field value ''generation'') (\<lambda>gen.
      rbind (counter_field value ''sequence'') (\<lambda>seq.
      rbind (counter_field value ''challenge'') (\<lambda>chal.
      rbind (counter_field value ''issued'') (\<lambda>issued.
      if epoch = 0 \<or> gen = 0 \<or> chal = 0 then Inl (ValueError ''uninitialized controller'')
      else rbind (dix value ''op'') (\<lambda>op.
      if seq = 0xffffffff \<or> op \<notin> {PStr ''BIND'', PStr ''ARM'', PStr ''RUN''}
      then Inl (ValueError ''unsupported permit action'')
      else rbind (need_str op) (\<lambda>o'.
      Inr \<lparr>h_install = inst, h_epoch = epoch, h_generation = gen, h_sequence = seq, h_challenge = chal,
           h_issued = issued, h_nonce = nonce, h_op = o'\<rparr>))))))))))"

text \<open>The same checks on a request that is already typed.\<close>

definition u32 :: "int \<Rightarrow> bool" where
  "u32 n \<longleftrightarrow> 0 \<le> n \<and> n \<le> 0xffffffff"

definition request_ok :: "h2_request \<Rightarrow> bool" where
  "request_ok r \<longleftrightarrow> is_hex 32 (h_install r) \<and> is_hex 32 (h_nonce r) \<and>
     u32 (h_epoch r) \<and> u32 (h_generation r) \<and> u32 (h_sequence r) \<and> u32 (h_challenge r) \<and> u32 (h_issued r) \<and>
     h_epoch r \<noteq> 0 \<and> h_generation r \<noteq> 0 \<and> h_challenge r \<noteq> 0 \<and> h_sequence r \<noteq> 0xffffffff \<and>
     h_op r \<in> {''BIND'', ''ARM'', ''RUN''}"

section \<open>Payloads and frames\<close>

definition op_code :: "string \<Rightarrow> int res" where
  "op_code op = (case map_of [(''ARM'', 0), (''RUN'', 1), (''BIND'', 2)] op of None \<Rightarrow> Inl (KeyError op) | Some n \<Rightarrow> Inr n)"

fun pack_words :: "int list \<Rightarrow> string res" where
  "pack_words [] = Inr []"
| "pack_words (n # ns) = rbind (pack_le 4 n) (\<lambda>b. rbind (pack_words ns) (\<lambda>r. Inr (b @ r)))"

definition duration_ok :: "string \<Rightarrow> int \<Rightarrow> bool" where
  "duration_ok op d \<longleftrightarrow> d = 0 \<and> op = ''BIND'' \<or> 1 \<le> d \<and> d \<le> 200 \<and> op \<noteq> ''BIND''"

text \<open>\<^verbatim>\<open>payload\<close>\<close>

definition payload :: "pyval \<Rightarrow> int \<Rightarrow> string res" where
  "payload value duration =
     rbind (context_of value) (\<lambda>r.
     if \<not> duration_ok (h_op r) duration then Inl (ValueError ''invalid lease duration'')
     else rbind (from_hex (h_install r)) (\<lambda>inst.
     rbind (op_code (h_op r)) (\<lambda>code.
     rbind (pack_words [h_epoch r, h_generation r, h_sequence r + 1, h_challenge r, h_issued r, duration, code]) (\<lambda>ws.
     rbind (from_hex (h_nonce r)) (\<lambda>nonce.
     Inr (H2_DOMAIN @ inst @ ws @ nonce))))))"

text \<open>\<^verbatim>\<open>bind_payload\<close>\<close>

definition bind_payload :: "pyval \<Rightarrow> string \<Rightarrow> string \<Rightarrow> string res" where
  "bind_payload value ephemeral controller_public =
     rbind (dix value ''op'') (\<lambda>op.
     if op \<noteq> PStr ''BIND'' \<or> \<not> is_hex 64 ephemeral \<or> \<not> is_hex 64 controller_public
     then Inl (ValueError ''invalid authenticated key exchange'')
     else rbind (payload value 0) (\<lambda>p.
     rbind (from_hex ephemeral) (\<lambda>eph.
     rbind (from_hex controller_public) (\<lambda>cp.
     Inr (KEX_DOMAIN @ drop 16 p @ eph @ cp)))))"

text \<open>
  \<^verbatim>\<open>frame\<close>; \<open>ephemeral\<close> is \<open>PNone\<close> when the permit has none. The duration is a value of the decoded
  permit, so a BIND's zero may be an \<^verbatim>\<open>int\<close>, a \<^verbatim>\<open>float\<close> or \<^verbatim>\<open>False\<close>, and is formatted as such.
\<close>

definition frame_extra :: "string \<Rightarrow> pyval \<Rightarrow> pyval \<Rightarrow> string res" where
  "frame_extra op duration ephemeral =
     (if op = ''BIND'' then
        (case ephemeral of
           PStr e \<Rightarrow> if \<not> eq_int duration 0 \<or> \<not> is_hex 64 e then Inl (ValueError ''invalid BIND frame'') else Inr (e @ '' '')
         | _ \<Rightarrow> Inl (ValueError ''invalid BIND frame''))
      else (case as_int duration of
              Some d \<Rightarrow> if 1 \<le> d \<and> d \<le> 200 then Inr [] else Inl (ValueError ''invalid permit duration'')
            | None \<Rightarrow> Inl (ValueError ''invalid permit duration'')))"

fun duration_text :: "pyval \<Rightarrow> string" where
  "duration_text (PInt d) = show_int d"
| "duration_text (PBool b) = (if b then ''True'' else ''False'')"
| "duration_text (PFloat w) = (if f_neg w then ''-0.0'' else ''0.0'')"
| "duration_text _ = []"

definition frame :: "pyval \<Rightarrow> string \<Rightarrow> pyval \<Rightarrow> pyval \<Rightarrow> string res" where
  "frame value signature duration ephemeral =
     rbind (context_of value) (\<lambda>r.
     if \<not> is_hex (if h_op r = ''BIND'' then 128 else 64) signature then Inl (ValueError ''invalid permit signature'')
     else rbind (frame_extra (h_op r) duration ephemeral) (\<lambda>extra.
     Inr (''H2 '' @ h_op r @ '' '' @ show_int (h_generation r) @ '' '' @ show_int (h_sequence r + 1) @ '' '' @
          show_int (h_challenge r) @ '' '' @ show_int (h_issued r) @ '' '' @ duration_text duration @ '' '' @ extra @ signature @ [newline])))"

text \<open>\<^verbatim>\<open>decode_json\<close>: at most 512 bytes, no repeated field, a valid context.\<close>

definition h2_pairs :: "(string \<times> pyval) list \<Rightarrow> (string \<times> pyval) list res" where
  "h2_pairs = unique_pairs (ValueError ''duplicate JSON field'') []"

definition decode_json :: "(string \<Rightarrow> pyval res) \<Rightarrow> string \<Rightarrow> h2_request res" where
  "decode_json loads raw =
     (if length raw > 512 then Inl (ValueError ''oversized permit request'')
      else rbind (rbind (loads raw) (hook_val h2_pairs)) context_of)"

section \<open>Keys and deployment\<close>

text \<open>What \<^verbatim>\<open>fstat\<close> and one bounded read say of the seed file.\<close>

record seed_stat =
  ss_regular :: bool
  ss_uid :: int
  ss_nlink :: int
  ss_mode :: int
  ss_size :: int
  ss_data :: string

definition private_bytes :: "int \<Rightarrow> seed_stat \<Rightarrow> string res" where
  "private_bytes uid f =
     (if \<not> ss_regular f \<or> ss_uid f \<noteq> uid \<or> ss_nlink f \<noteq> 1 \<or> ss_mode f \<noteq> 384 \<or> ss_size f \<noteq> 32
      then Inl (ValueError ''private seed must be owner-only, regular, single-link, 32 bytes'')
      else let raw = take 33 (ss_data f) in
           if length raw \<noteq> 32 then Inl (ValueError ''invalid private seed'') else Inr raw)"

record deployment_data =
  dep_install :: string
  dep_public :: string
  dep_controller :: string

definition deployment :: "(string \<Rightarrow> pyval res) \<Rightarrow> string \<Rightarrow> deployment_data res" where
  "deployment loads text =
     rbind (loads text) (\<lambda>data.
     (case data of
        PDict d \<Rightarrow>
          (let get = (\<lambda>k. case map_of d k of None \<Rightarrow> PNone | Some v \<Rightarrow> v) in
           if fst ` set d \<noteq> {''schema'', ''install'', ''public_key'', ''controller_public_key''} \<or>
              get ''schema'' \<noteq> PInt 2 \<or> \<not> hex_value 32 (get ''install'') \<or>
              \<not> hex_value 64 (get ''public_key'') \<or> get ''public_key'' = PStr (replicate 64 (CHR ''0'')) \<or>
              \<not> hex_value 64 (get ''controller_public_key'') \<or>
              get ''controller_public_key'' = PStr (replicate 64 (CHR ''0''))
           then Inl (ValueError ''invalid public deployment metadata'')
           else rbind (need_str (get ''install'')) (\<lambda>i. rbind (need_str (get ''public_key'')) (\<lambda>p.
                rbind (need_str (get ''controller_public_key'')) (\<lambda>c.
                Inr \<lparr>dep_install = i, dep_public = p, dep_controller = c\<rparr>))))
      | _ \<Rightarrow> Inl (ValueError ''invalid public deployment metadata'')))"

section \<open>Socket frames\<close>

text \<open>
  One \<^verbatim>\<open>recv\<close> as the loop sees it: the monotonic clock before it, the bytes it returned (at most the
  number asked for, none at the end of the stream) and the clock after it; or the socket's timeout.
\<close>

datatype recv_event = RecvTimeout | Recv int string int

definition remaining_check :: "int \<Rightarrow> int \<Rightarrow> unit res" where
  "remaining_check deadline now =
     (if deadline - now \<le> 0 then Inl (TimeoutError ''permit IPC frame deadline expired'') else Inr ())"

definition one_line :: "string \<Rightarrow> bool" where
  "one_line raw \<longleftrightarrow> raw \<noteq> [] \<and> last raw = newline \<and> newline \<notin> set (butlast raw)"

text \<open>\<^verbatim>\<open>send_line\<close>: the bytes handed to \<^verbatim>\<open>sendall\<close>; \<open>t0\<close>, \<open>t1\<close> are the clock before and after.\<close>

definition send_line :: "int \<Rightarrow> int \<Rightarrow> int \<Rightarrow> string \<Rightarrow> string res" where
  "send_line deadline t0 t1 raw =
     (if \<not> one_line raw \<or> length raw > 513 then Inl (ValueError ''invalid permit IPC frame'')
      else rbind (remaining_check deadline t0) (\<lambda>_. rbind (remaining_check deadline t1) (\<lambda>_. Inr raw)))"

text \<open>\<^verbatim>\<open>receive_line\<close>\<close>

fun receive_line :: "int \<Rightarrow> string \<Rightarrow> recv_event list \<Rightarrow> string res" where
  "receive_line deadline raw [] = Inl (TimeoutError ''timed out'')"
| "receive_line deadline raw (RecvTimeout # evs) = Inl (TimeoutError ''timed out'')"
| "receive_line deadline raw (Recv t0 chunk t1 # evs) =
     rbind (remaining_check deadline t0) (\<lambda>_.
     let got = take (513 - length raw) chunk in
     rbind (remaining_check deadline t1) (\<lambda>_.
     if got = [] then Inl (RuntimeError ''permit IPC closed before complete frame'')
     else let raw' = raw @ got in
       if newline \<in> set raw' then
         (if one_line raw' then Inr raw' else Inl (ValueError ''permit IPC trailing frame bytes''))
       else if length raw' = 513 then Inl (ValueError ''oversized permit IPC frame'')
       else receive_line deadline raw' evs))"

section \<open>Lemmas on requests\<close>

lemma hex_field_Inr: "hex_field v k = Inr s \<longleftrightarrow> dix v k = Inr (PStr s) \<and> is_hex 32 s"
proof -
  have "hex_value 32 x \<and> need_str x = Inr s \<longleftrightarrow> x = PStr s \<and> is_hex 32 s" for x by (cases x) auto
  then show ?thesis by (auto simp: hex_field_def rbind_Inr_iff split: if_splits)
qed

lemma counter_field_Inr: "counter_field v k = Inr n \<longleftrightarrow> dix v k = Inr (PInt n) \<and> u32 n"
proof -
  have "as_int x = Some n \<longleftrightarrow> x = PInt n" for x by (cases x) auto
  then show ?thesis by (auto simp: counter_field_def rbind_Inr_iff u32_def split: option.splits)
qed

lemma context_of_ok: "context_of v = Inr r \<Longrightarrow> request_ok r"
  by (auto simp: context_of_def rbind_Inr_iff hex_field_Inr counter_field_Inr request_ok_def split: if_splits)

lemma context_of_val: "request_ok r \<Longrightarrow> context_of (h2_val r) = Inr r"
proof -
  assume r: "request_ok r"
  have "fst ` set [(''install'', PStr (h_install r)), (''epoch'', PInt (h_epoch r)), (''generation'', PInt (h_generation r)),
     (''sequence'', PInt (h_sequence r)), (''challenge'', PInt (h_challenge r)), (''issued'', PInt (h_issued r)),
     (''nonce'', PStr (h_nonce r)), (''op'', PStr (h_op r))] = set H2_FIELDS" by (auto simp: H2_FIELDS_def)
  with r show ?thesis
    by (auto simp: context_of_def h2_val_def hex_field_def counter_field_def request_ok_def u32_def)
qed


text \<open>A refused request is a \<^verbatim>\<open>ValueError\<close>: every field is there once the field set is right.\<close>

lemma dix_field: "fst ` set d = set H2_FIELDS \<Longrightarrow> k \<in> set H2_FIELDS \<Longrightarrow> \<exists>x. dix (PDict d) k = Inr x"
  by (auto simp: map_of_eq_None_iff split: option.splits)

lemma hex_field_ValueError: "dix v k = Inr y \<Longrightarrow> hex_field v k = Inl x \<Longrightarrow> is_ValueError x"
  by (cases y) (auto simp: hex_field_def split: if_splits)

lemma counter_field_ValueError: "dix v k = Inr y \<Longrightarrow> counter_field v k = Inl x \<Longrightarrow> is_ValueError x"
  by (auto simp: counter_field_def split: if_splits option.splits)

lemma context_of_ValueError:
  assumes "context_of v = Inl x"
  shows "is_ValueError x"
proof (cases "\<exists>d. v = PDict d \<and> fst ` set d = set H2_FIELDS")
  case False
  with assms show ?thesis by (cases v) (auto simp: context_of_def)
next
  case True
  then obtain d where d: "v = PDict d" "fst ` set d = set H2_FIELDS" by blast
  then have f: "\<exists>y. dix v k = Inr y" if "k \<in> set H2_FIELDS" for k using dix_field that by blast
  have h: "hex_field v k = Inl z \<Longrightarrow> is_ValueError z" and c: "counter_field v k = Inl z \<Longrightarrow> is_ValueError z"
    if "k \<in> set H2_FIELDS" for k z using f [OF that] hex_field_ValueError counter_field_ValueError by blast+
  have m: "''install'' \<in> set H2_FIELDS" "''nonce'' \<in> set H2_FIELDS" "''epoch'' \<in> set H2_FIELDS" "''generation'' \<in> set H2_FIELDS"
    "''sequence'' \<in> set H2_FIELDS" "''challenge'' \<in> set H2_FIELDS" "''issued'' \<in> set H2_FIELDS" "''op'' \<in> set H2_FIELDS"
    by (simp_all add: H2_FIELDS_def)
  obtain op where op: "dix v ''op'' = Inr op" using f [OF m(8)] by blast
  from assms d(2) show ?thesis
    unfolding context_of_def d(1) using h [OF m(1)] h [OF m(2)] c [OF m(3)] c [OF m(4)] c [OF m(5)] c [OF m(6)] c [OF m(7)] op
    by (auto simp: rbind_Inl_iff d(1) split: if_splits)
qed

lemma context_of_fields:
  "context_of v = Inr r \<Longrightarrow> dix v ''install'' = Inr (PStr (h_install r)) \<and> dix v ''nonce'' = Inr (PStr (h_nonce r)) \<and>
     dix v ''epoch'' = Inr (PInt (h_epoch r)) \<and> dix v ''generation'' = Inr (PInt (h_generation r)) \<and>
     dix v ''sequence'' = Inr (PInt (h_sequence r)) \<and> dix v ''challenge'' = Inr (PInt (h_challenge r)) \<and>
     dix v ''issued'' = Inr (PInt (h_issued r)) \<and> dix v ''op'' = Inr (PStr (h_op r))"
  by (auto simp: context_of_def rbind_Inr_iff hex_field_Inr counter_field_Inr split: if_splits)

section \<open>Lemmas on payloads\<close>

lemma pack_words_length: "pack_words ns = Inr b \<Longrightarrow> length b = 4 * length ns"
  by (induction ns arbitrary: b) (auto simp: rbind_Inr_iff dest: pack_le_length)

lemma pack_words_inj: "length ns = length ms \<Longrightarrow> pack_words ns = Inr b \<Longrightarrow> pack_words ms = Inr b \<Longrightarrow> ns = ms"
proof (induction ns ms arbitrary: b rule: list_induct2)
  case (Cons n ns m ms)
  obtain x r where 1: "pack_le 4 n = Inr x" "pack_words ns = Inr r" "b = x @ r" using Cons.prems(1) by (auto simp: rbind_Inr_iff)
  obtain y t where 2: "pack_le 4 m = Inr y" "pack_words ms = Inr t" "b = y @ t" using Cons.prems(2) by (auto simp: rbind_Inr_iff)
  have "x = y" "r = t" using 1 2 by (simp_all add: pack_le_length)
  then show ?case using 1 2 Cons.IH pack_le_inj by blast
qed simp

lemma op_code_inj: "op_code a = Inr n \<Longrightarrow> op_code b = Inr n \<Longrightarrow> a = b"
  by (auto simp: op_code_def split: if_splits)

lemma payload_parts:
  assumes "payload v d = Inr m"
  obtains r inst code ws nonce where "context_of v = Inr r" "duration_ok (h_op r) d" "from_hex (h_install r) = Inr inst" "length inst = 16"
    "op_code (h_op r) = Inr code" "from_hex (h_nonce r) = Inr nonce" "length nonce = 16" "length ws = 28"
    "pack_words [h_epoch r, h_generation r, h_sequence r + 1, h_challenge r, h_issued r, d, code] = Inr ws"
    "m = H2_DOMAIN @ inst @ ws @ nonce"
proof -
  obtain r inst code ws nonce where p: "context_of v = Inr r" "duration_ok (h_op r) d" "from_hex (h_install r) = Inr inst"
    "op_code (h_op r) = Inr code" "from_hex (h_nonce r) = Inr nonce"
    "pack_words [h_epoch r, h_generation r, h_sequence r + 1, h_challenge r, h_issued r, d, code] = Inr ws"
    "m = H2_DOMAIN @ inst @ ws @ nonce"
    using assms by (auto simp: payload_def rbind_Inr_iff simp del: pack_words.simps split: if_splits)
  moreover have "is_hex 32 (h_install r)" "is_hex 32 (h_nonce r)" using context_of_ok [OF p(1)] by (auto simp: request_ok_def)
  then have "length inst = 16" "length nonce = 16" using is_hex_from_hex [of 32] p(3,5) by fastforce+
  moreover have "length ws = 28" using pack_words_length [OF p(6)] by simp
  ultimately show thesis using that by blast
qed

lemma payload_inj:
  assumes "payload v d = Inr m" and "payload v' d' = Inr m"
  shows "context_of v = context_of v' \<and> d = d'"
proof -
  obtain r inst code ws nonce where 1: "context_of v = Inr r" "from_hex (h_install r) = Inr inst" "length inst = 16"
    "op_code (h_op r) = Inr code" "from_hex (h_nonce r) = Inr nonce" "length nonce = 16" "length ws = 28"
    "pack_words [h_epoch r, h_generation r, h_sequence r + 1, h_challenge r, h_issued r, d, code] = Inr ws"
    "m = H2_DOMAIN @ inst @ ws @ nonce"
    using assms(1) by (rule payload_parts)
  obtain r' inst' code' ws' nonce' where 2: "context_of v' = Inr r'" "from_hex (h_install r') = Inr inst'" "length inst' = 16"
    "op_code (h_op r') = Inr code'" "from_hex (h_nonce r') = Inr nonce'" "length nonce' = 16" "length ws' = 28"
    "pack_words [h_epoch r', h_generation r', h_sequence r' + 1, h_challenge r', h_issued r', d', code'] = Inr ws'"
    "m = H2_DOMAIN @ inst' @ ws' @ nonce'"
    using assms(2) by (rule payload_parts)
  have e: "inst = inst'" "ws = ws'" "nonce = nonce'" using 1 2 by simp_all
  then have w: "[h_epoch r, h_generation r, h_sequence r + 1, h_challenge r, h_issued r, d, code] =
      [h_epoch r', h_generation r', h_sequence r' + 1, h_challenge r', h_issued r', d', code']"
    using 1(8) 2(8) by (intro pack_words_inj) simp_all
  moreover have "h_op r = h_op r'" using w 1(4) 2(4) op_code_inj by simp
  moreover have "h_install r = h_install r'" "h_nonce r = h_nonce r'" using e 1 2 from_hex_inj by metis+
  ultimately have "r = r'" by (simp add: h2_request.equality)
  with 1 2 w show ?thesis by simp
qed

lemma payload_length: "payload v d = Inr m \<Longrightarrow> length m = 76 \<and> take 16 m = H2_DOMAIN"
  by (erule payload_parts) (simp add: H2_DOMAIN_def)

lemma bind_payload_parts:
  assumes "bind_payload v e c = Inr m"
  obtains p eph cp where "payload v 0 = Inr p" "from_hex e = Inr eph" "from_hex c = Inr cp" "length eph = 32" "length cp = 32"
    "m = KEX_DOMAIN @ drop 16 p @ eph @ cp" "is_hex 64 e" "is_hex 64 c" "dix v ''op'' = Inr (PStr ''BIND'')"
proof -
  obtain p eph cp where b: "payload v 0 = Inr p" "from_hex e = Inr eph" "from_hex c = Inr cp"
    "m = KEX_DOMAIN @ drop 16 p @ eph @ cp" "is_hex 64 e" "is_hex 64 c" "dix v ''op'' = Inr (PStr ''BIND'')"
    using assms by (auto simp: bind_payload_def rbind_Inr_iff split: if_splits)
  then have "length eph = 32" "length cp = 32" using is_hex_from_hex [of 64] by fastforce+
  with b that show thesis by blast
qed

lemma bind_payload_inj:
  assumes "bind_payload v e c = Inr m" and "bind_payload v' e' c' = Inr m"
  shows "context_of v = context_of v' \<and> e = e' \<and> c = c'"
proof -
  obtain p eph cp where 1: "payload v 0 = Inr p" "from_hex e = Inr eph" "from_hex c = Inr cp" "length eph = 32" "length cp = 32"
    "m = KEX_DOMAIN @ drop 16 p @ eph @ cp" using assms(1) by (rule bind_payload_parts)
  obtain p' eph' cp' where 2: "payload v' 0 = Inr p'" "from_hex e' = Inr eph'" "from_hex c' = Inr cp'" "length eph' = 32" "length cp' = 32"
    "m = KEX_DOMAIN @ drop 16 p' @ eph' @ cp'" using assms(2) by (rule bind_payload_parts)
  have "drop 16 p = drop 16 p'" "eph = eph'" "cp = cp'" using 1 2 payload_length by simp_all
  moreover have "take 16 p = take 16 p'" using payload_length [OF 1(1)] payload_length [OF 2(1)] by simp
  ultimately have "p = p'" by (metis append_take_drop_id)
  with 1 2 payload_inj have "context_of v = context_of v'" by blast
  moreover have "e = e'" "c = c'" using 1 2 \<open>eph = eph'\<close> \<open>cp = cp'\<close> from_hex_inj by metis+
  ultimately show ?thesis by simp
qed

section \<open>Lemmas on socket frames\<close>

lemma one_line_newline: "one_line raw \<Longrightarrow> newline \<in> set raw"
  by (metis last_in_set one_line_def)

lemma one_line_append: "one_line (a @ b) \<Longrightarrow> b \<noteq> [] \<Longrightarrow> newline \<notin> set a"
  by (auto simp: one_line_def butlast_append)

lemma receive_line_Inr:
  "receive_line dl raw evs = Inr r \<Longrightarrow> length raw < 513 \<Longrightarrow> one_line r \<and> length r \<le> 513"
proof (induction dl raw evs rule: receive_line.induct)
  case (3 dl raw t0 chunk t1 evs)
  then show ?case by (auto simp: rbind_Inr_iff Let_def split: if_splits)
qed auto

text \<open>Every read adds a byte, so 513 reads decide.\<close>

lemma receive_line_take:
  "length raw < 513 \<Longrightarrow> 513 \<le> n + length raw \<Longrightarrow> receive_line dl raw evs = receive_line dl raw (take n evs)"
proof (induction dl raw evs arbitrary: n rule: receive_line.induct)
  case (1 dl raw)
  then show ?case by simp
next
  case (2 dl raw evs)
  then show ?case by (simp add: take_Cons')
next
  case (3 dl raw t0 chunk t1 evs)
  let ?raw = "raw @ take (513 - length raw) chunk"
  obtain k where n: "n = Suc k" using 3(2,3) by (cases n) auto
  have "receive_line dl ?raw evs = receive_line dl ?raw (take k evs)"
    if "remaining_check dl t0 = Inr ()" "remaining_check dl t1 = Inr ()" "chunk \<noteq> []" "newline \<notin> set ?raw" "length ?raw \<noteq> 513"
  proof (rule 3(1))
    show "513 \<le> k + length ?raw" using that(3) 3(2,3) n by (cases chunk) auto
  qed (use that 3(2) in auto)
  then show ?case using 3(2) by (auto simp: n Let_def remaining_check_def)
qed

text \<open>A line delivered in nonempty pieces before the deadline.\<close>

lemma receive_line_pieces:
  assumes "one_line (raw @ concat (map (\<lambda>(t0, c, t1). c) ps))" and "length (raw @ concat (map (\<lambda>(t0, c, t1). c) ps)) \<le> 513"
    and "\<forall>(t0, c, t1)\<in>set ps. t0 < dl \<and> t1 < dl \<and> c \<noteq> []" and "ps \<noteq> []"
  shows "receive_line dl raw (map (\<lambda>(t0, c, t1). Recv t0 c t1) ps) = Inr (raw @ concat (map (\<lambda>(t0, c, t1). c) ps))"
  using assms
proof (induction ps arbitrary: raw)
  case (Cons p ps)
  obtain t0 c t1 where p: "p = (t0, c, t1)" by (cases p)
  have t: "remaining_check dl t0 = Inr ()" "remaining_check dl t1 = Inr ()" "c \<noteq> []" using Cons.prems(3) p by (auto simp: remaining_check_def)
  have got: "take (513 - length raw) c = c" using Cons.prems(2) p by simp
  show ?case
  proof (cases "ps = []")
    case True
    with Cons.prems(1) p t got show ?thesis by (auto simp: Let_def dest: one_line_newline)
  next
    case False
    let ?rest = "concat (map (\<lambda>(t0, c, t1). c) ps)"
    have ne: "?rest \<noteq> []" using False Cons.prems(3) by (cases ps) auto
    have "newline \<notin> set (raw @ c)" using one_line_append [of "raw @ c" ?rest] Cons.prems(1) ne p by simp
    moreover have "length (raw @ c) \<noteq> 513" using Cons.prems(2) ne p by (cases ?rest) auto
    moreover have "receive_line dl (raw @ c) (map (\<lambda>(t0, c, t1). Recv t0 c t1) ps) = Inr ((raw @ c) @ ?rest)"
      using Cons.prems p False by (intro Cons.IH) auto
    ultimately show ?thesis using t got p by (simp add: Let_def)
  qed
qed simp

end
