(* ===== verification/Bench_Gate.thy ===== *)
theory Bench_Gate
  imports Bridge Source_Node
begin

text \<open>
  The signed Rust enforcer of the LED bench (\<^verbatim>\<open>tools/bench_gate.py\<close>): the fixed-size diagnostics of
  a response, the world and motion inputs, the OFF-only bootstrap, one gate cycle with its injected
  faults and the remaining time of an approval. The clocks and the answers of the Rust process come
  from \<open>bench_env\<close>, indexed by the number of readings made; \<^verbatim>\<open>time.monotonic()\<close> is read in
  nanoseconds.
\<close>

section \<open>Diagnostics\<close>

definition DIAGNOSTIC_MODES :: "string list" where
  "DIAGNOSTIC_MODES = [''normal'', ''caution'', ''hold'', ''safe_park'', ''estop'']"

definition DIAGNOSTIC_STOPS :: "string list" where
  "DIAGNOSTIC_STOPS = [''startup'', ''no_world'', ''stale_world'', ''no_command'', ''expired'', ''denied'',
     ''revoked'', ''unarmed'', ''recorder_fault'', ''state_fault'', ''arm_settling'']"

definition DIAGNOSTIC_OUTCOMES :: "string list" where
  "DIAGNOSTIC_OUTCOMES = [''decision'', ''world_updated'', ''mode_changed'', ''rejected'']"

fun diagnostic_enum :: "pyval \<Rightarrow> string list \<Rightarrow> string option" where
  "diagnostic_enum (PStr s) allowed = (if s \<in> set allowed then Some s else None)"
| "diagnostic_enum _ allowed = None"

definition diagnostic_uint :: "pyval \<Rightarrow> int option" where
  "diagnostic_uint v = (case as_int v of Some n \<Rightarrow> if 0 \<le> n \<and> n \<le> 2 ^ 64 - 1 then Some n else None | None \<Rightarrow> None)"

text \<open>\<^verbatim>\<open>round(value, 3)\<close> of an elapsed time in range.\<close>

definition diagnostic_elapsed :: "rat \<Rightarrow> rat option" where
  "diagnostic_elapsed q = (if 0 \<le> q \<and> q \<le> 60000 then Some (of_int (round_half_even (q * 1000)) / 1000) else None)"

definition diagnostic_stop :: "pyval \<Rightarrow> string option" where
  "diagnostic_stop v =
     (case v of
        PDict [(k, m)] \<Rightarrow>
          if k = ''mode'' then (case diagnostic_enum m DIAGNOSTIC_MODES of Some s \<Rightarrow> Some (''mode:'' @ s) | None \<Rightarrow> None) else None
      | _ \<Rightarrow> diagnostic_enum v DIAGNOSTIC_STOPS)"

fun as_bool :: "pyval \<Rightarrow> bool option" where
  "as_bool (PBool b) = Some b"
| "as_bool _ = None"

record diagnostic =
  d_phase :: "string option"
  d_request_t_ms :: "int option"
  d_elapsed_ms :: "rat option"
  d_started_ns :: "int option"
  d_received_ns :: "int option"
  d_stop :: "string option"
  d_outcome :: "string option"
  d_rejection :: "string option"
  d_command_zero :: bool
  d_verdict :: "string option"
  d_fired_count :: "int option"
  d_decision_expires :: "int option"
  d_world_stamp :: "int option"
  d_mode :: "string option"
  d_status_stop :: "string option"
  d_vla_armed :: "bool option"
  d_active_present :: "bool option"
  d_world_age :: "int option"
  d_active_expires :: "int option"
  d_recorder_ok :: "bool option"
  d_state_ok :: "bool option"
  d_arm_cancelling :: "bool option"

definition command_zero :: "pyval \<Rightarrow> bool" where
  "command_zero cmd = (case cmd of
     PDict d \<Rightarrow> fst ` set d = {''linear'', ''angular''} \<and> list_all (\<lambda>p. is_number (snd p) \<and> eq_int (snd p) 0) d
   | _ \<Rightarrow> False)"

definition rejection_reason :: "pyval \<Rightarrow> string option" where
  "rejection_reason error = (case error of
     PStr s \<Rightarrow> map_of [(''replayed or zero counter'', ''replay''), (''input signature failed'', ''signature'')] s
   | _ \<Rightarrow> None)"

definition outcome_kind :: "(string \<times> pyval) list \<Rightarrow> string option" where
  "outcome_kind outcome = (case outcome of [(k, _)] \<Rightarrow> diagnostic_enum (PStr k) DIAGNOSTIC_OUTCOMES | _ \<Rightarrow> None)"

text \<open>\<^verbatim>\<open>diagnostic_response\<close>\<close>

definition diagnostic_response :: "pyval \<Rightarrow> string \<Rightarrow> int \<Rightarrow> rat \<Rightarrow> int \<Rightarrow> int \<Rightarrow> diagnostic" where
  "diagnostic_response step phase request_ms elapsed_ms started_ns completed_ns =
     (let s = dict_or_empty step; status = dict_or_empty (getf s ''status''); outcome = dict_or_empty (getf s ''outcome'');
          decision = dict_or_empty (getf outcome ''decision''); world = dict_or_empty (getf outcome ''world_updated'');
          rejected = dict_or_empty (getf outcome ''rejected'')
      in \<lparr>d_phase = diagnostic_enum (PStr phase) [''world'', ''motion''], d_request_t_ms = diagnostic_uint (PInt request_ms),
          d_elapsed_ms = diagnostic_elapsed elapsed_ms, d_started_ns = diagnostic_uint (PInt started_ns),
          d_received_ns = diagnostic_uint (PInt completed_ns), d_stop = diagnostic_stop (getf s ''stop''),
          d_outcome = outcome_kind outcome, d_rejection = rejection_reason (getf rejected ''error''),
          d_command_zero = command_zero (getf s ''cmd''),
          d_verdict = diagnostic_enum (getf decision ''verdict'') [''yun'', ''jeol'', ''bul''],
          d_fired_count = map_option (\<lambda>xs. min (int (length xs)) 65535) (as_list (getf decision ''fired'')),
          d_decision_expires = diagnostic_uint (getf decision ''expires_ms''),
          d_world_stamp = diagnostic_uint (getf world ''stamp_ms''), d_mode = diagnostic_enum (getf status ''mode'') DIAGNOSTIC_MODES,
          d_status_stop = diagnostic_stop (getf status ''stop''),
          d_vla_armed = map_option (\<lambda>xs. PStr ''vla'' \<in> set xs) (as_list (getf status ''armed'')),
          d_active_present = map_option (\<lambda>v. v \<noteq> PNone) (map_of status ''active''),
          d_world_age = diagnostic_uint (getf status ''world_age_ms''), d_active_expires = diagnostic_uint (getf status ''active_expires_ms''),
          d_recorder_ok = as_bool (getf status ''recorder_ok''), d_state_ok = as_bool (getf status ''state_ok''),
          d_arm_cancelling = as_bool (getf status ''arm_cancelling'')\<rparr>)"

section \<open>State and environment\<close>

text \<open>The operator scenarios of the bench: none, or the fault a session injects.\<close>

definition SCENARIOS :: "string list" where
  "SCENARIOS = [''allow'', ''person'', ''world-loss'', ''replay'', ''invalid-signature'']"


text \<open>One cycle's result and responses; \<open>c_id\<close> stands for the identity of the Python dict.\<close>

record cycle_record =
  c_id :: nat
  c_result :: string
  c_responses :: "diagnostic list"

record bench_env =
  bn_now_ms :: "nat \<Rightarrow> int"
  bn_mono_ns :: "nat \<Rightarrow> int"
  bn_engine :: "nat \<Rightarrow> pyval \<Rightarrow> pyval res"
  bn_plat :: platform

record bench =
  bg_signer :: signer
  bg_proposal :: int
  bg_last_motion :: "envelope option"
  bg_approval :: "(pyval \<times> int) option"
  bg_last_cycle :: "cycle_record option"
  bg_approved_cycle :: "cycle_record option"
  bg_tracing :: "(string \<times> int) option"
  bg_cycles :: nat
  bg_faults :: "string list"
  bg_reads :: nat

definition bg_read :: "(nat \<Rightarrow> 'a) \<Rightarrow> (bench, 'a) meth" where
  "bg_read f b = (Inr (f (bg_reads b)), b\<lparr>bg_reads := bg_reads b + 1\<rparr>)"

definition bn_request :: "bench_env \<Rightarrow> pyval \<Rightarrow> (bench, pyval) meth" where
  "bn_request e m = mbind (bg_read (\<lambda>i. bn_engine e i m)) mlift"

definition on_bsigner :: "(signer, 'a) meth \<Rightarrow> (bench, 'a) meth" where
  "on_bsigner m b = (case m (bg_signer b) of (r, s) \<Rightarrow> (r, b\<lparr>bg_signer := s\<rparr>))"

definition sign_input :: "bench_env \<Rightarrow> string \<Rightarrow> pyval \<Rightarrow> (bench, envelope) meth" where
  "sign_input e role payload = on_bsigner (sign (json_dumps (bn_plat e)) (ed_sign (bn_plat e)) role payload)"

section \<open>Requests\<close>

text \<open>\<^verbatim>\<open>signed\<close>: inside a cycle the first two responses are projected into its diagnostics.\<close>

definition trace_response :: "bench_env \<Rightarrow> int \<Rightarrow> int \<Rightarrow> pyval \<Rightarrow> (bench, unit) meth" where
  "trace_response e request_ms started_ns step =
     mbind (mget id) (\<lambda>b.
     (case (bg_tracing b, bg_last_cycle b) of
        (Some (phase, cycle_started), Some c) \<Rightarrow>
          mwhen (length (c_responses c) < 2)
            (mbind (bg_read (bn_mono_ns e)) (\<lambda>completed.
             mbind (bg_read (bn_mono_ns e)) (\<lambda>t.
             mput (\<lambda>b. b\<lparr>bg_last_cycle := Some (c\<lparr>c_responses := c_responses c @
                [diagnostic_response step phase request_ms (of_int (t - cycle_started) / 1000000) started_ns completed]\<rparr>)\<rparr>))))
      | _ \<Rightarrow> mret ()))"

definition signed_input :: "int \<Rightarrow> string \<Rightarrow> pyval" where
  "signed_input t text = PDict [(''t'', PInt t), (''k'', PStr ''signed''), (''data'', PStr text)]"

definition bench_signed :: "bench_env \<Rightarrow> pyval \<Rightarrow> (bench, pyval) meth" where
  "bench_signed e envelope =
     mbind (bg_read (bn_now_ms e)) (\<lambda>request_ms.
     mbind (mget (\<lambda>b. bg_tracing b \<noteq> None)) (\<lambda>tracing.
     mbind (if tracing then bg_read (bn_mono_ns e) else mret 0) (\<lambda>started_ns.
     mbind (mlift (json_dumps (bn_plat e) envelope)) (\<lambda>text.
     mbind (bn_request e (signed_input request_ms text)) (\<lambda>step.
     mthen (trace_response e request_ms started_ns step) (mret step))))))"

definition bench_world_val :: "int \<Rightarrow> bool \<Rightarrow> pyval" where
  "bench_world_val stamp person = PDict [(''stamp_ms'', PInt stamp),
     (''robot'', PDict [(''pose'', PDict [(''x'', PInt 5), (''y'', PInt 5)]), (''yaw'', PInt 0),
        (''twist'', PDict [(''linear'', PFloat 0), (''angular'', PFloat 0)])]),
     (''humans'', PList (if person
        then [PDict [(''id'', PStr ''bench-person''), (''class'', PStr ''child''),
               (''pos'', PDict [(''x'', PFloat 0x4014666666666666), (''y'', PInt 5)])]] else [])),
     (''confidence'', PInt 1)]"

text \<open>\<^verbatim>\<open>world\<close>, \<^verbatim>\<open>motion\<close>\<close>

definition bench_world :: "bench_env \<Rightarrow> bool \<Rightarrow> (bench, pyval) meth" where
  "bench_world e person =
     mbind (bg_read (bn_now_ms e)) (\<lambda>t. mbind (sign_input e ''world'' (bench_world_val t person)) (\<lambda>env. bench_signed e (envelope_val env)))"

definition velocity_action :: pyval where
  "velocity_action = PDict [(''type'', PStr ''velocity''), (''linear'', PFloat 0x3FD0000000000000), (''angular'', PInt 0), (''ttl_ms'', PInt 200)]"

definition vla_proposal :: "int \<Rightarrow> int \<Rightarrow> pyval \<Rightarrow> pyval" where
  "vla_proposal n t action = PDict [(''id'', PInt n), (''source'', PStr ''vla''), (''timestamp_ms'', PInt t), (''action'', action)]"

definition bench_motion :: "bench_env \<Rightarrow> bool \<Rightarrow> (bench, pyval) meth" where
  "bench_motion e stop =
     mthen (mput (\<lambda>b. b\<lparr>bg_proposal := bg_proposal b + 1\<rparr>))
     (mbind (mget bg_proposal) (\<lambda>n.
      mbind (bg_read (bn_now_ms e)) (\<lambda>t.
      mbind (sign_input e ''vla'' (vla_proposal n t (if stop then PDict [(''type'', PStr ''stop'')] else velocity_action))) (\<lambda>env.
      mthen (mwhen (\<not> stop) (mput (\<lambda>b. b\<lparr>bg_last_motion := Some env\<rparr>)))
            (bench_signed e (envelope_val env))))))"

section \<open>Bootstrap\<close>

definition zero_cmd :: pyval where
  "zero_cmd = PDict [(''linear'', PFloat 0), (''angular'', PFloat 0)]"

text \<open>The OFF-only end of \<^verbatim>\<open>initialize\<close>: two worlds, a signed stop that arms, a tick as barrier.\<close>

definition bench_bootstrap :: "bench_env \<Rightarrow> (bench, unit) meth" where
  "bench_bootstrap e =
     mthen (mput (\<lambda>b. b\<lparr>bg_proposal := 0, bg_last_motion := None\<rparr>))
     (mthen (bench_world e False)
     (mthen (bench_world e False)
     (mbind (bench_motion e True) (\<lambda>step.
      mbind (mlift (ror [rbind (dix step ''cmd'') (\<lambda>c. Inr (\<not> pyeq c zero_cmd)),
                         rbind (dix step ''status'') (\<lambda>s. rbind (dix s ''mode'') (\<lambda>m. Inr (m \<noteq> PStr ''normal''))),
                         rbind (dix step ''status'') (\<lambda>s. rbind (dix s ''armed'') (\<lambda>a. Inr (a \<noteq> PList [PStr ''vla''])))])) (\<lambda>bad.
      if bad then mraise (BridgeFailure ''OFF-only bootstrap did not arm the Rust source'')
      else mbind (bg_read (bn_now_ms e)) (\<lambda>t.
      mbind (bn_request e (PDict [(''k'', PStr ''tick''), (''t'', PInt t)])) (\<lambda>barrier.
      mbind (mlift (ror [rbind (dix barrier ''cmd'') (\<lambda>c. Inr (\<not> pyeq c zero_cmd)),
                         rbind (dix barrier ''status'') (\<lambda>s. rbind (dix s ''armed'') (\<lambda>a. Inr (a \<noteq> PList [PStr ''vla''])))])) (\<lambda>lost.
      if lost then mraise (BridgeFailure ''OFF-only checkpoint barrier lost rearm'') else mret ()))))))))"

section \<open>One cycle\<close>

definition set_result :: "string \<Rightarrow> bench \<Rightarrow> bench" where
  "set_result r b = b\<lparr>bg_last_cycle := map_option (\<lambda>c. c\<lparr>c_result := r\<rparr>) (bg_last_cycle b)\<rparr>"

definition inject :: "string \<Rightarrow> (bench, unit) meth" where
  "inject f = mput (\<lambda>b. b\<lparr>bg_faults := bg_faults b @ [f]\<rparr>)"

definition set_phase :: "string \<Rightarrow> (bench, unit) meth" where
  "set_phase p = mput (\<lambda>b. b\<lparr>bg_tracing := map_option (\<lambda>(_, s). (p, s)) (bg_tracing b)\<rparr>)"

text \<open>The world part of a cycle: whether the gate still accepts worlds.\<close>

definition world_refused :: "pyval \<Rightarrow> bool res" where
  "world_refused step =
     rbind (dget step ''stop'') (\<lambda>stop.
     if stop \<notin> {PNone, PStr ''no_command'', PStr ''startup''} then Inr True
     else rbind (dget_or step ''outcome'' (PDict [])) (\<lambda>o'. rbind (dget o' ''rejected'') (\<lambda>r. Inr (truthy r))))"

definition cycle_world :: "bench_env \<Rightarrow> string \<Rightarrow> (bench, bool) meth" where
  "cycle_world e fault =
     (if fault = ''world-loss'' then mret False
      else mthen (set_phase ''world'')
           (mbind (bench_world e (fault = ''person'')) (\<lambda>step. mlift (world_refused step))))"

text \<open>\<^verbatim>\<open>self.last_motion\<close>: a gate that never sent a motion replays \<^verbatim>\<open>None\<close>.\<close>

definition last_motion_val :: "envelope option \<Rightarrow> pyval" where
  "last_motion_val m = (case m of Some env \<Rightarrow> envelope_val env | None \<Rightarrow> PNone)"

definition cycle_motion :: "bench_env \<Rightarrow> string \<Rightarrow> (bench, pyval) meth" where
  "cycle_motion e fault =
     (if fault = ''replay'' then
        mthen (inject fault)
        (mbind (mget bg_last_motion) (\<lambda>m. bench_signed e (last_motion_val m)))
      else if fault = ''invalid-signature'' then
        mbind (bg_read (bn_now_ms e)) (\<lambda>t.
        mbind (sign_input e ''vla'' (vla_proposal 999 t velocity_action)) (\<lambda>env.
        mthen (inject fault) (bench_signed e (envelope_val (env\<lparr>env_signature := replicate 128 (CHR ''0'')\<rparr>)))))
      else bench_motion e False)"

text \<open>The approval decision on the motion response; \<open>started\<close> is the start of the cycle.\<close>

definition cycle_decide :: "bench_env \<Rightarrow> int \<Rightarrow> pyval \<Rightarrow> (bench, bool) meth" where
  "cycle_decide e started step =
     mbind (bg_read (bn_mono_ns e)) (\<lambda>t.
     let elapsed = of_int (t - started) / 1000000 in
     mbind (bg_read (bn_now_ms e)) (\<lambda>now.
     mthen (mlift (require_fresh_actuation step elapsed now 200 50))
     (mbind (mlift (ror [rbind (cmd_field step ''linear'') (\<lambda>v. Inr (\<not> eq_int v 0)),
                         rbind (cmd_field step ''angular'') (\<lambda>v. Inr (\<not> eq_int v 0))])) (\<lambda>positive.
      mbind (mlift (if positive then lease_renewable step elapsed 200 50 else Inr False)) (\<lambda>ok.
      if ok then
        mthen (mput (\<lambda>b. let b' = set_result ''approved'' (b\<lparr>bg_approval := Some (step, started)\<rparr>)
                         in b'\<lparr>bg_approved_cycle := bg_last_cycle b'\<rparr>)) (mret True)
      else mthen (mput (set_result ''denied'')) (mret False))))))"

text \<open>\<^verbatim>\<open>cycle\<close>; an empty \<open>fault\<close> is \<^verbatim>\<open>None\<close>.\<close>

definition cycle_start :: "int \<Rightarrow> bench \<Rightarrow> bench" where
  "cycle_start started b = b\<lparr>bg_approval := None, bg_cycles := bg_cycles b + 1,
     bg_last_cycle := Some \<lparr>c_id = bg_cycles b, c_result = ''incomplete'', c_responses = []\<rparr>,
     bg_tracing := Some ([], started)\<rparr>"

definition cycle_body :: "bench_env \<Rightarrow> string \<Rightarrow> int \<Rightarrow> (bench, bool) meth" where
  "cycle_body e fault started =
     mfinally
       (mthen (mwhen (fault = ''person'' \<or> fault = ''world-loss'') (inject fault))
       (mbind (cycle_world e fault) (\<lambda>refused.
        if refused then mthen (mput (set_result ''denied'')) (mret False)
        else mthen (set_phase ''motion'') (mbind (cycle_motion e fault) (cycle_decide e started)))))
       (\<lambda>b. b\<lparr>bg_tracing := None\<rparr>)"

definition bench_cycle :: "bench_env \<Rightarrow> string \<Rightarrow> (bench, bool) meth" where
  "bench_cycle e fault =
     mbind (bg_read (bn_mono_ns e)) (\<lambda>started. mthen (mput (cycle_start started)) (cycle_body e fault started))"

text \<open>\<^verbatim>\<open>remaining\<close>, in seconds\<close>

definition bench_remaining :: "bench_env \<Rightarrow> (bench, rat) meth" where
  "bench_remaining e =
     mbind (mget bg_approval) (\<lambda>a.
     (case a of
        None \<Rightarrow> mraise (BridgeFailure ''no positive gate approval'')
      | Some (step, started) \<Rightarrow>
          mbind (bg_read (bn_mono_ns e)) (\<lambda>t.
          let elapsed = of_int (t - started) / 1000000 in
          mbind (bg_read (bn_now_ms e)) (\<lambda>now.
          mthen (mlift (require_fresh_actuation step elapsed now 200 50))
                (mret ((50 - elapsed) / 1000))))))"

text \<open>\<^verbatim>\<open>denial_diagnostics\<close>\<close>

definition denial_diagnostics :: "bench \<Rightarrow> cycle_record list" where
  "denial_diagnostics b =
     (case bg_approved_cycle b of None \<Rightarrow> [] | Some c \<Rightarrow> [c]) @
     (case bg_last_cycle b of None \<Rightarrow> []
      | Some c \<Rightarrow> if map_option c_id (bg_approved_cycle b) = Some (c_id c) then [] else [c])"


section \<open>Lemmas\<close>

definition positive :: "pyval \<Rightarrow> bool res" where
  "positive step = ror [rbind (cmd_field step ''linear'') (\<lambda>v. Inr (\<not> eq_int v 0)),
                        rbind (cmd_field step ''angular'') (\<lambda>v. Inr (\<not> eq_int v 0))]"

lemma positive_actuating: "positive step = Inr True \<Longrightarrow> actuating step \<noteq> Inr False"
  by (auto simp: positive_def actuating_def cmd_field_def ror.simps rbind_Inr_iff split: if_splits)

text \<open>The approval of a state, if any, is positive: every method but the decision keeps it or clears it.\<close>

definition approved :: "bench \<Rightarrow> bool" where
  "approved b \<longleftrightarrow> (case bg_approval b of None \<Rightarrow> True | Some (step, _) \<Rightarrow> positive step = Inr True)"

definition same_approval :: "bench \<Rightarrow> bench \<Rightarrow> bool" where
  "same_approval b c \<longleftrightarrow> bg_approval c = bg_approval b"

interpretation sa: run_rel same_approval
  by unfold_locales (auto simp: same_approval_def)

lemma sa_mput: "(\<And>b. bg_approval (f b) = bg_approval b) \<Longrightarrow> keeps same_approval (mput f)"
  by (rule sa.keeps_mput) (simp add: same_approval_def)

lemma sa_read: "keeps same_approval (bg_read f)"
  by (simp add: keeps_def bg_read_def same_approval_def)

lemma sa_request: "keeps same_approval (bn_request e m)"
  unfolding bn_request_def by (intro sa.keeps_flow sa_read)

lemma sa_sign: "keeps same_approval (sign_input e r p)"
  by (auto simp: keeps_def sign_input_def on_bsigner_def same_approval_def split: prod.splits)

lemma sa_trace: "keeps same_approval (trace_response e t s step)"
  unfolding trace_response_def
  by (intro sa.keeps_mbind sa.keeps_mget)
     (auto intro!: sa.keeps_flow sa_read sa_mput split: option.splits prod.splits)

lemma sa_signed: "keeps same_approval (bench_signed e env)"
  unfolding bench_signed_def by (intro sa.keeps_flow sa_read sa_request sa_trace)

lemma sa_world: "keeps same_approval (bench_world e p)"
  unfolding bench_world_def by (intro sa.keeps_flow sa_read sa_sign sa_signed)

lemma sa_motion: "keeps same_approval (bench_motion e st)"
  unfolding bench_motion_def by (intro sa.keeps_flow sa_read sa_sign sa_signed sa_mput) simp_all

lemma sa_cycle_world: "keeps same_approval (cycle_world e f)"
  unfolding cycle_world_def set_phase_def by (intro sa.keeps_flow sa_world sa_mput) simp

lemma sa_cycle_motion: "keeps same_approval (cycle_motion e f)"
  unfolding cycle_motion_def inject_def by (intro sa.keeps_flow sa_read sa_sign sa_signed sa_motion sa_mput) simp_all

text \<open>
  What an approval rests on, for a cycle with the fault \<open>fault\<close> from the state \<open>b\<close> that had made \<open>n\<close>
  readings when it approved. Its start is reading \<open>bg_reads b\<close>. The motion input of this cycle was
  sent as reading \<open>n - 5\<close>, stamped with reading \<open>n - 7\<close>, and is the motion signed here (or what the
  injected fault puts in its place); \<open>step\<close> is the Rust process's answer to it, commands motion, and
  at readings \<open>n - 2\<close> and \<open>n - 1\<close>, after the answer, was fresh since the start and renewable.
\<close>

definition motion_text :: "bench_env \<Rightarrow> string \<Rightarrow> bench \<Rightarrow> nat \<Rightarrow> string \<Rightarrow> bool" where
  "motion_text e fault b n tx \<longleftrightarrow>
     (if fault = ''replay'' then json_dumps (bn_plat e) (last_motion_val (bg_last_motion b)) = Inr tx
      else \<exists>env. json_dumps (bn_plat e) (envelope_val env) = Inr tx \<and> env_role env = ''vla'' \<and>
        payload_text (json_dumps (bn_plat e)) (vla_proposal (if fault = ''invalid-signature'' then 999 else bg_proposal b + 1)
          (bn_now_ms e (n - 8)) velocity_action) = Inr (env_payload env))"

definition approval_of :: "bench_env \<Rightarrow> string \<Rightarrow> bench \<Rightarrow> nat \<Rightarrow> pyval \<Rightarrow> bool" where
  "approval_of e fault b n step \<longleftrightarrow>
     bg_reads b + 8 \<le> n \<and> positive step = Inr True \<and>
     (\<exists>tx. motion_text e fault b n tx \<and> bn_engine e (n - 5) (signed_input (bn_now_ms e (n - 7)) tx) = Inr step) \<and>
     (let el = of_int (bn_mono_ns e (n - 2) - bn_mono_ns e (bg_reads b)) / 1000000 in
        require_fresh_actuation step el (bn_now_ms e (n - 1)) 200 50 = Inr () \<and> lease_renewable step el 200 50 = Inr True)"

lemma cycle_decide_run:
  assumes "cycle_decide e started step b = (r, b')"
  shows "(r = Inr True \<and> bg_approval b' = Some (step, started) \<and> bg_reads b' = bg_reads b + 2 \<and> positive step = Inr True \<and>
      (let el = of_int (bn_mono_ns e (bg_reads b) - started) / 1000000 in
        require_fresh_actuation step el (bn_now_ms e (bg_reads b + 1)) 200 50 = Inr () \<and> lease_renewable step el 200 50 = Inr True)) \<or>
    (r \<noteq> Inr True \<and> bg_approval b' = bg_approval b)"
proof -
  let ?el = "of_int (bn_mono_ns e (bg_reads b) - started) / 1000000 :: rat"
  let ?b = "b\<lparr>bg_reads := bg_reads b + 2\<rparr>"
  have "cycle_decide e started step b =
    (case require_fresh_actuation step ?el (bn_now_ms e (bg_reads b + 1)) 200 50 of
       Inl x \<Rightarrow> (Inl x, ?b)
     | Inr _ \<Rightarrow> (case positive step of
         Inl x \<Rightarrow> (Inl x, ?b)
       | Inr pos \<Rightarrow> (case if pos then lease_renewable step ?el 200 50 else Inr False of
           Inl x \<Rightarrow> (Inl x, ?b)
         | Inr ok \<Rightarrow> if ok then (Inr True, let b' = set_result ''approved'' (?b\<lparr>bg_approval := Some (step, started)\<rparr>)
                         in b'\<lparr>bg_approved_cycle := bg_last_cycle b'\<rparr>) else (Inr False, set_result ''denied'' ?b))))"
    by (simp add: cycle_decide_def positive_def [symmetric] mbind_def mthen_def mlift_def bg_read_def mput_def mret_def Let_def split: sum.splits)
  with assms show ?thesis
    by (auto simp: set_result_def Let_def split: sum.splits if_splits)
qed


text \<open>A method that leaves no approval behind unless it returns that it approved.\<close>

definition clears :: "(bench, bool) meth \<Rightarrow> bool" where
  "clears m \<longleftrightarrow> (\<forall>b r b'. bg_approval b = None \<longrightarrow> m b = (r, b') \<longrightarrow> r \<noteq> Inr True \<longrightarrow> bg_approval b' = None)"

lemma clears_mbind:
  assumes "keeps same_approval m" and "\<And>x. clears (n x)"
  shows "clears (mbind m n)"
  unfolding clears_def
proof (intro allI impI)
  fix b r b' assume b: "bg_approval b = None" and run: "mbind m n b = (r, b')" and "r \<noteq> Inr True"
  obtain rm h where m: "m b = (rm, h)" by (cases "m b")
  then have "bg_approval h = None" using b assms(1) by (auto dest: keepsD simp: same_approval_def)
  with m run assms(2) \<open>r \<noteq> Inr True\<close> show "bg_approval b' = None"
    by (cases rm) (auto simp: mbind_def clears_def)
qed

lemma clears_mthen: "keeps same_approval m \<Longrightarrow> clears n \<Longrightarrow> clears (mthen m n)"
  unfolding mthen_def by (rule clears_mbind)

lemma clears_False: "clears (mret False)"
  by (simp add: clears_def mret_def)

lemma clears_if: "clears m \<Longrightarrow> clears n \<Longrightarrow> clears (if c then m else n)"
  by simp

lemma clears_decide: "clears (cycle_decide e started step)"
  unfolding clears_def using cycle_decide_run by fastforce

lemma clears_finally: "clears m \<Longrightarrow> (\<And>b. bg_approval (f b) = bg_approval b) \<Longrightarrow> clears (mfinally m f)"
  unfolding clears_def mfinally_def
proof (intro allI impI)
  fix b r b' assume m: "\<forall>b r b'. bg_approval b = None \<longrightarrow> m b = (r, b') \<longrightarrow> r \<noteq> Inr True \<longrightarrow> bg_approval b' = None"
    and f: "\<And>b. bg_approval (f b) = bg_approval b" and b: "bg_approval b = None"
    and run: "(case m b of (r, s') \<Rightarrow> (r, f s')) = (r, b')" and r: "r \<noteq> Inr True"
  obtain h where h: "m b = (r, h)" "b' = f h" using run by (cases "m b") simp
  from m [rule_format, OF b h(1) r] f [of h] h(2) show "bg_approval b' = None" by simp
qed

text \<open>Inside a cycle fewer than two responses were projected before a signed input is sent.\<close>

definition in_cycle :: "nat \<Rightarrow> bench \<Rightarrow> bool" where
  "in_cycle k b \<longleftrightarrow> bg_tracing b \<noteq> None \<and> (case bg_last_cycle b of None \<Rightarrow> False | Some c \<Rightarrow> length (c_responses c) \<le> k)"

lemma bench_signed_run:
  assumes "bench_signed e v b = (Inr step, b')" and "in_cycle k b" and "k < 2"
  shows "bg_reads b' = bg_reads b + 5 \<and> in_cycle (Suc k) b' \<and> bg_last_motion b' = bg_last_motion b \<and> bg_proposal b' = bg_proposal b \<and>
    (\<exists>tx. json_dumps (bn_plat e) v = Inr tx \<and> bn_engine e (bg_reads b + 2) (signed_input (bn_now_ms e (bg_reads b)) tx) = Inr step)"
proof -
  obtain ph cs c where c: "bg_tracing b = Some (ph, cs)" "bg_last_cycle b = Some c" "length (c_responses c) \<le> k"
    using assms(2) by (auto simp: in_cycle_def split: option.splits)
  from assms(1) c(1) obtain tx s where t: "json_dumps (bn_plat e) v = Inr tx"
    "bn_request e (signed_input (bn_now_ms e (bg_reads b)) tx) (b\<lparr>bg_reads := bg_reads b + 2\<rparr>) = (Inr step, s)"
    "mthen (trace_response e (bn_now_ms e (bg_reads b)) (bn_mono_ns e (bg_reads b + 1)) step) (mret step) s = (Inr step, b')"
    by (auto simp: bench_signed_def mbind_Inr_iff mget_def bg_read_def mlift_def mthen_def mret_def numeral_2_eq_2)
  from t(2) have s: "s = b\<lparr>bg_reads := bg_reads b + 3\<rparr>"
    "bn_engine e (bg_reads b + 2) (signed_input (bn_now_ms e (bg_reads b)) tx) = Inr step"
    by (auto simp: bn_request_def mbind_Inr_iff bg_read_def mlift_def numeral_3_eq_3)
  from t(3) c assms(3) have "b' = b\<lparr>bg_reads := bg_reads b + 5, bg_last_cycle := Some (c\<lparr>c_responses := c_responses c @
      [diagnostic_response step ph (bn_now_ms e (bg_reads b)) (of_int (bn_mono_ns e (bg_reads b + 4) - cs) / 1000000)
        (bn_mono_ns e (bg_reads b + 1)) (bn_mono_ns e (bg_reads b + 3))]\<rparr>)\<rparr>"
    unfolding s(1) by (simp add: trace_response_def mthen_def mbind_def mget_def mwhen_def bg_read_def mput_def mret_def numeral_eq_Suc)
  with t(1) s(2) c show ?thesis by (auto simp: in_cycle_def)
qed

lemma sign_input_run: "sign_input e role payload b = (Inr env, b') \<Longrightarrow>
  (\<exists>sg. b' = b\<lparr>bg_signer := sg\<rparr>) \<and> env_role env = role \<and> payload_text (json_dumps (bn_plat e)) payload = Inr (env_payload env)"
  by (auto simp: sign_input_def on_bsigner_def sign_Inr_iff split: prod.splits)

lemma cycle_world_run:
  assumes "cycle_world e fault b = (Inr x, b')" and "in_cycle 0 b"
  shows "bg_reads b \<le> bg_reads b' \<and> in_cycle 1 b' \<and> bg_last_motion b' = bg_last_motion b \<and> bg_proposal b' = bg_proposal b"
proof (cases "fault = ''world-loss''")
  case True
  with assms show ?thesis by (auto simp: cycle_world_def mret_def in_cycle_def split: option.splits)
next
  case False
  with assms(1) obtain env sg step where "bench_signed e (envelope_val env)
      (b\<lparr>bg_tracing := map_option (\<lambda>(_, s). (''world'', s)) (bg_tracing b), bg_reads := bg_reads b + 1, bg_signer := sg\<rparr>) = (Inr step, b')"
    by (auto simp: cycle_world_def set_phase_def bench_world_def mthen_def mbind_Inr_iff mput_def bg_read_def mlift_def dest!: sign_input_run)
  from bench_signed_run [OF this, of 0] assms(2) show ?thesis by (auto simp: in_cycle_def split: option.splits)
qed

text \<open>The motion of a cycle, by its last five readings.\<close>

lemma cycle_motion_run:
  assumes "cycle_motion e fault b = (Inr step, b')" and "in_cycle 1 b"
  shows "bg_reads b + 5 \<le> bg_reads b' \<and>
    (\<exists>tx. motion_text e fault b (bg_reads b' + 2) tx \<and>
       bn_engine e (bg_reads b' - 3) (signed_input (bn_now_ms e (bg_reads b' - 5)) tx) = Inr step)"
proof -
  consider "fault = ''replay''" | "fault = ''invalid-signature''" | "fault \<noteq> ''replay''" "fault \<noteq> ''invalid-signature''" by blast
  then show ?thesis
  proof cases
    case 1
    with assms(1) have r: "bench_signed e (last_motion_val (bg_last_motion b)) (b\<lparr>bg_faults := bg_faults b @ [fault]\<rparr>) = (Inr step, b')"
      by (simp add: cycle_motion_def inject_def mthen_def mbind_def mput_def mget_def)
    from bench_signed_run [OF r, of 1] assms(2) 1 show ?thesis by (auto simp: in_cycle_def motion_text_def)
  next
    case 2
    with assms(1) obtain env sg where env: "env_role env = ''vla''"
      "payload_text (json_dumps (bn_plat e)) (vla_proposal 999 (bn_now_ms e (bg_reads b)) velocity_action) = Inr (env_payload env)"
      and r: "bench_signed e (envelope_val (env\<lparr>env_signature := replicate 128 (CHR ''0'')\<rparr>))
        (b\<lparr>bg_reads := bg_reads b + 1, bg_signer := sg, bg_faults := bg_faults b @ [fault]\<rparr>) = (Inr step, b')"
      by (auto simp: cycle_motion_def inject_def mthen_def mbind_Inr_iff mput_def bg_read_def dest!: sign_input_run)
    from bench_signed_run [OF r, of 1] assms(2) 2 env show ?thesis
      by (auto simp: in_cycle_def motion_text_def numeral_eq_Suc intro!: exI [of _ "env\<lparr>env_signature := replicate 128 (CHR ''0'')\<rparr>"])
  next
    case 3
    with assms(1) obtain env sg where env: "env_role env = ''vla''"
      "payload_text (json_dumps (bn_plat e)) (vla_proposal (bg_proposal b + 1) (bn_now_ms e (bg_reads b)) velocity_action) = Inr (env_payload env)"
      and r: "bench_signed e (envelope_val env)
        (b\<lparr>bg_proposal := bg_proposal b + 1, bg_reads := bg_reads b + 1, bg_signer := sg, bg_last_motion := Some env\<rparr>) = (Inr step, b')"
      by (auto simp: cycle_motion_def bench_motion_def mthen_def mbind_Inr_iff mput_def mget_def bg_read_def mwhen_def dest!: sign_input_run)
    from bench_signed_run [OF r, of 1] assms(2) 3 env show ?thesis by (auto simp: in_cycle_def motion_text_def numeral_eq_Suc)
  qed
qed

lemma bench_cycle_approves:
  assumes "bench_cycle e fault b = (Inr True, b')"
  shows "\<exists>step. bg_approval b' = Some (step, bn_mono_ns e (bg_reads b)) \<and> approval_of e fault b (bg_reads b') step"
proof -
  let ?started = "bn_mono_ns e (bg_reads b)"
  define s0 where "s0 = cycle_start ?started (b\<lparr>bg_reads := bg_reads b + 1\<rparr>)"
  have "cycle_body e fault ?started s0 = (Inr True, b')"
    using assms by (simp add: bench_cycle_def mbind_def bg_read_def mthen_def mput_def s0_def)
  then obtain s1 s2 s3 step s4 where 1: "mwhen (fault = ''person'' \<or> fault = ''world-loss'') (inject fault) s0 = (Inr (), s1)"
    and 2: "cycle_world e fault s1 = (Inr False, s2)" and 3: "set_phase ''motion'' s2 = (Inr (), s3)"
    and 4: "cycle_motion e fault s3 = (Inr step, s4)" and 5: "fst (cycle_decide e ?started step s4) = Inr True"
    "b' = (snd (cycle_decide e ?started step s4))\<lparr>bg_tracing := None\<rparr>"
    unfolding cycle_body_def mfinally_def
    by (auto simp: mthen_def mbind_Inr_iff mret_def mput_def split: prod.splits if_splits)
  have t0: "in_cycle 0 s0" "bg_reads s0 = bg_reads b + 1" "bg_last_motion s0 = bg_last_motion b" "bg_proposal s0 = bg_proposal b"
    by (simp_all add: s0_def cycle_start_def in_cycle_def)
  have t1: "in_cycle 0 s1" "bg_reads s1 = bg_reads b + 1" "bg_last_motion s1 = bg_last_motion b" "bg_proposal s1 = bg_proposal b"
    using 1 t0 by (auto simp: mwhen_def inject_def mput_def mret_def in_cycle_def split: if_splits)
  note w = cycle_world_run [OF 2 t1(1)]
  have t3: "in_cycle 1 s3" "bg_reads s3 = bg_reads s2" "bg_last_motion s3 = bg_last_motion b" "bg_proposal s3 = bg_proposal b"
    using 3 w t1 by (auto simp: set_phase_def mput_def in_cycle_def split: option.splits)
  note m = cycle_motion_run [OF 4 t3(1)]
  obtain r s5 where d: "cycle_decide e ?started step s4 = (r, s5)" by (cases "cycle_decide e ?started step s4")
  have r: "r = Inr True" "b' = s5\<lparr>bg_tracing := None\<rparr>" using 5 d by simp_all
  from cycle_decide_run [OF d] r(1) have dec: "bg_approval s5 = Some (step, ?started)" "bg_reads s5 = bg_reads s4 + 2" "positive step = Inr True"
      "let el = of_int (bn_mono_ns e (bg_reads s4) - ?started) / 1000000 in
        require_fresh_actuation step el (bn_now_ms e (bg_reads s4 + 1)) 200 50 = Inr () \<and> lease_renewable step el 200 50 = Inr True"
    by auto
  have mt: "motion_text e fault s3 n tx = motion_text e fault b n tx" for n tx
    using t3 by (simp add: motion_text_def)
  have n: "bg_reads b' - 5 = bg_reads s4 - 3" "bg_reads b' - 7 = bg_reads s4 - 5" "bg_reads b' - 2 = bg_reads s4" "bg_reads b' - 1 = bg_reads s4 + 1"
    "bg_reads b' = bg_reads s4 + 2" using r(2) dec(2) by simp_all
  have "approval_of e fault b (bg_reads b') step"
    unfolding approval_of_def n(1-4)
    using m dec w t1 t3 n(5) by (auto simp: mt)
  with r dec show ?thesis by auto
qed

lemma bench_cycle_run:
  assumes "bench_cycle e fault b = (r, b')"
  shows "(r = Inr True \<and> (\<exists>step. bg_approval b' = Some (step, bn_mono_ns e (bg_reads b)) \<and> approval_of e fault b (bg_reads b') step)) \<or>
    (r \<noteq> Inr True \<and> bg_approval b' = None)"
proof (cases "r = Inr True")
  case True
  with bench_cycle_approves assms show ?thesis by blast
next
  case False
  let ?started = "bn_mono_ns e (bg_reads b)"
  have d: "clears (cycle_body e fault ?started)"
    unfolding cycle_body_def inject_def set_phase_def
    by (intro clears_finally clears_mthen clears_mbind clears_if clears_False clears_decide
        sa.keeps_mwhen sa_cycle_world sa_cycle_motion sa_mput) (simp_all add: set_result_def)
  have "cycle_body e fault ?started (cycle_start ?started (b\<lparr>bg_reads := bg_reads b + 1\<rparr>)) = (r, b')"
    using assms by (simp add: bench_cycle_def mbind_def bg_read_def mthen_def mput_def)
  moreover have "bg_approval (cycle_start ?started (b\<lparr>bg_reads := bg_reads b + 1\<rparr>)) = None" by (simp add: cycle_start_def)
  ultimately show ?thesis using d False unfolding clears_def by blast
qed

lemma bench_cycle_approved: "bench_cycle e fault b = (r, b') \<Longrightarrow> approved b'"
  using bench_cycle_run [of e fault b r b'] by (auto simp: approved_def approval_of_def)

text \<open>What is left of an approval: the two readings of \<^verbatim>\<open>remaining\<close>, its check and its result.\<close>

lemma bench_remaining_run:
  assumes "bench_remaining e b = (Inr q, b')" and "bg_approval b = Some (step, started)"
  shows "bg_reads b' = bg_reads b + 2 \<and> bg_approval b' = bg_approval b \<and>
    (let el = of_int (bn_mono_ns e (bg_reads b) - started) / 1000000 in
       require_fresh_actuation step el (bn_now_ms e (bg_reads b + 1)) 200 50 = Inr () \<and> q * 1000 = 50 - el)"
  using assms by (auto simp: bench_remaining_def mbind_def mget_def bg_read_def mthen_def mlift_def mret_def Let_def split: sum.splits)

lemma bench_remaining_bounds:
  assumes "bench_remaining e b = (Inr q, b')" and "approved b"
  shows "0 < q \<and> q \<le> 1 / 20 \<and> bg_approval b' = bg_approval b"
proof -
  obtain step started where a: "bg_approval b = Some (step, started)" "positive step = Inr True"
    using assms by (auto simp: bench_remaining_def mbind_def mget_def mraise_def approved_def split: option.splits)
  let ?el = "of_int (bn_mono_ns e (bg_reads b) - started) / 1000000 :: rat"
  note r = bench_remaining_run [OF assms(1) a(1), unfolded Let_def]
  then have "q = (50 - ?el) / 1000" "bg_approval b' = bg_approval b" by simp_all
  moreover from r have "actuating step = Inr True \<and> 0 \<le> ?el \<and> ?el < 50" using positive_actuating [OF a(2)] by (auto simp: require_fresh_iff)
  ultimately show ?thesis by (simp add: field_simps)
qed

text \<open>Diagnostics stay bounded: two responses per cycle, two cycles.\<close>

definition diag_ok :: "bench \<Rightarrow> bool" where
  "diag_ok b \<longleftrightarrow> (\<forall>c. bg_last_cycle b = Some c \<or> bg_approved_cycle b = Some c \<longrightarrow> length (c_responses c) \<le> 2)"

lemma di_mput: "(\<And>b. diag_ok b \<Longrightarrow> diag_ok (f b)) \<Longrightarrow> keeps (implied diag_ok) (mput f)"
  by (rule implied.keeps_mput) (simp add: implied_def)

lemma di_read: "keeps (implied diag_ok) (bg_read f)"
  by (simp add: keeps_def bg_read_def implied_def diag_ok_def)

lemma di_request: "keeps (implied diag_ok) (bn_request e m)"
  unfolding bn_request_def by (intro implied.keeps_flow di_read)

lemma di_sign: "keeps (implied diag_ok) (sign_input e r p)"
  by (auto simp: keeps_def sign_input_def on_bsigner_def implied_def diag_ok_def split: prod.splits)

lemma di_trace: "keeps (implied diag_ok) (trace_response e t s step)"
  unfolding trace_response_def
  by (intro implied.keeps_mbind implied.keeps_mget)
     (auto intro!: implied.keeps_flow di_read di_mput simp: mwhen_def diag_ok_def split: option.splits prod.splits if_splits)

lemma di_signed: "keeps (implied diag_ok) (bench_signed e env)"
  unfolding bench_signed_def by (intro implied.keeps_flow di_read di_request di_trace)

lemma di_motion: "keeps (implied diag_ok) (bench_motion e st)"
  unfolding bench_motion_def by (intro implied.keeps_flow di_read di_sign di_signed di_mput) (simp_all add: diag_ok_def)

lemma di_cycle_motion: "keeps (implied diag_ok) (cycle_motion e f)"
  unfolding cycle_motion_def inject_def by (intro implied.keeps_flow di_read di_sign di_signed di_motion di_mput) (simp_all add: diag_ok_def)

lemma di_cycle_world: "keeps (implied diag_ok) (cycle_world e f)"
  unfolding cycle_world_def bench_world_def set_phase_def
  by (intro implied.keeps_flow di_read di_sign di_signed di_mput) (simp add: diag_ok_def)

lemma di_decide: "keeps (implied diag_ok) (cycle_decide e started step)"
  unfolding cycle_decide_def Let_def
  by (intro implied.keeps_flow di_read di_mput) (auto simp: diag_ok_def set_result_def)

lemma di_cycle: "keeps (implied diag_ok) (bench_cycle e f)"
  unfolding bench_cycle_def cycle_body_def inject_def set_phase_def
  by (intro implied.keeps_flow implied.keeps_mfinally di_read di_cycle_world di_cycle_motion di_decide di_mput)
     (auto simp: diag_ok_def set_result_def implied_def cycle_start_def)

end
