(* ===== verification/Permit_Authorizer.thy ===== *)
theory Permit_Authorizer
  imports Permit_Protocol Bench_Gate Issuer
begin

text \<open>
  The trusted LED authorizer (\<^verbatim>\<open>tools/permit_authorizer.py\<close>): one explicit operator session that
  binds a controller, then signs a permit per approved gate cycle, and locks on every other
  outcome. X25519, BLAKE2b and Ed25519 are parameters, the fields of \<open>led_crypto\<close>.
\<close>

section \<open>State\<close>

text \<open>
  The \<open>i\<close>-th generated ephemeral key: its public text and its shared secret with a controller's
  public key (the exchange refuses a degenerate one); the keyed digest; the signature.
\<close>

record led_crypto =
  eph_public :: "nat \<Rightarrow> string"
  exchange :: "nat \<Rightarrow> string \<Rightarrow> string res"
  blake :: "string \<Rightarrow> string \<Rightarrow> string"
  led_ed :: "string \<Rightarrow> string"

record authorizer =
  az_install :: string
  az_controller :: string
  az_scenario :: string
  az_seconds :: int
  az_bench :: bench
  az_started :: "int option"
  az_binding :: "(int \<times> int) option"
  az_sequence :: int
  az_challenge :: int
  az_locked :: bool
  az_session_key :: "string option"
  az_armed :: bool

datatype answer = Permit string "string option" int rat | Terminal string

text \<open>\<^verbatim>\<open>Authorizer.__init__\<close>, given the deployment, the public key of its seed and the started gate.\<close>

definition authorizer_init :: "deployment_data res \<Rightarrow> (string \<times> string) res \<Rightarrow> bench res \<Rightarrow> string \<Rightarrow> int \<Rightarrow> authorizer res" where
  "authorizer_init config key gate scenario seconds =
     (if scenario \<notin> set SCENARIOS \<or> \<not> (1 \<le> seconds \<and> seconds \<le> 30) then Inl (ValueError ''invalid explicit operator session'')
      else rbind config (\<lambda>c. rbind key (\<lambda>(seed, public).
      if public \<noteq> dep_public c then Inl (ValueError ''authorizer key does not match deployment'')
      else rbind gate (\<lambda>g.
      Inr \<lparr>az_install = dep_install c, az_controller = dep_controller c, az_scenario = scenario, az_seconds = seconds, az_bench = g,
           az_started = None, az_binding = None, az_sequence = 0, az_challenge = 0, az_locked = False,
           az_session_key = None, az_armed = False\<rparr>))))"

definition on_bench :: "(bench, 'a) meth \<Rightarrow> (authorizer, 'a) meth" where
  "on_bench m a = (case m (az_bench a) of (r, b) \<Rightarrow> (r, a\<lparr>az_bench := b\<rparr>))"

definition lock_with :: "string \<Rightarrow> (authorizer, answer) meth" where
  "lock_with reason = mthen (mput (\<lambda>a. a\<lparr>az_locked := True\<rparr>)) (mret (Terminal reason))"

section \<open>Approval\<close>

text \<open>The first permit of a session: a signed, OFF-only key exchange.\<close>

definition bind_material :: "led_crypto \<Rightarrow> pyval \<Rightarrow> (authorizer, string \<times> string \<times> string) meth" where
  "bind_material cr req =
     mbind (on_bench (bg_read (\<lambda>i. i))) (\<lambda>i.
     mbind (mget az_controller) (\<lambda>controller.
     mbind (mlift (bind_payload req (eph_public cr i) controller)) (\<lambda>bytes.
     mbind (mlift (from_hex controller)) (\<lambda>peer.
     mbind (mlift (exchange cr i peer)) (\<lambda>shared.
     mret (eph_public cr i, bytes, blake cr shared bytes))))))"

definition approve_bind :: "led_crypto \<Rightarrow> pyval \<Rightarrow> h2_request \<Rightarrow> (authorizer, answer) meth" where
  "approve_bind cr req r =
     (if h_op r \<noteq> ''BIND'' \<or> h_sequence r \<noteq> 0
      then mraise (ValueError ''explicit session must begin with signed OFF-only BIND'')
      else mthen (mput (\<lambda>a. a\<lparr>az_binding := Some (h_epoch r, h_generation r)\<rparr>))
      (mbind (bind_material cr req) (\<lambda>(ephemeral, bytes, key).
       mthen (mput (\<lambda>a. a\<lparr>az_session_key := Some key, az_sequence := 1, az_challenge := h_challenge r\<rparr>))
             (mret (Permit (to_hex (led_ed cr bytes)) (Some ephemeral) 0 500)))))"

text \<open>Which fault a session injects once its seconds are over.\<close>

definition session_fault :: "authorizer \<Rightarrow> bool \<Rightarrow> string" where
  "session_fault a over = (if over \<and> az_scenario a \<noteq> ''allow'' then az_scenario a else [])"

definition sign_renewal :: "led_crypto \<Rightarrow> pyval \<Rightarrow> (authorizer, string) meth" where
  "sign_renewal cr req =
     mbind (mlift (payload req 200)) (\<lambda>p.
     mbind (mget az_session_key) (\<lambda>k.
     (case k of None \<Rightarrow> mraise TypeError | Some key \<Rightarrow> mret (to_hex (blake cr key p)))))"

text \<open>Whether the session's seconds are over; its clock starts with the first renewal.\<close>

definition session_over :: "bench_env \<Rightarrow> (authorizer, bool) meth" where
  "session_over e =
     mthen (mbind (mget az_started) (\<lambda>s. mwhen (s = None)
              (mbind (on_bench (bg_read (bn_mono_ns e))) (\<lambda>t. mput (\<lambda>a. a\<lparr>az_started := Some t\<rparr>)))))
     (mbind (on_bench (bg_read (bn_mono_ns e))) (\<lambda>t.
      mget (\<lambda>a. t - the (az_started a) \<ge> az_seconds a * 1000000000)))"

text \<open>Signing after an approved cycle; it cannot turn a late decision into a fresh one.\<close>

definition approve_sign :: "bench_env \<Rightarrow> led_crypto \<Rightarrow> pyval \<Rightarrow> h2_request \<Rightarrow> (authorizer, answer) meth" where
  "approve_sign e cr req r =
     mbind (sign_renewal cr req) (\<lambda>signature.
     mbind (on_bench (bench_remaining e)) (\<lambda>rem.
     if \<not> (0 < rem \<and> rem \<le> 1 / 20) then lock_with ''gate_expired''
     else mthen (mput (\<lambda>a. a\<lparr>az_sequence := h_sequence r + 1, az_challenge := h_challenge r, az_armed := True\<rparr>))
                (mret (Permit signature None 200 (rem * 1000)))))"

text \<open>A later permit: in order, inside the session's time, for a fresh positive gate cycle.\<close>

definition approve_renew :: "bench_env \<Rightarrow> led_crypto \<Rightarrow> pyval \<Rightarrow> h2_request \<Rightarrow> (authorizer, answer) meth" where
  "approve_renew e cr req r =
     mbind (mget id) (\<lambda>a.
     if h_sequence r \<noteq> az_sequence a \<or> h_challenge r \<le> az_challenge a then mraise (ValueError ''permit request replay/order failure'')
     else mbind (session_over e) (\<lambda>over.
     if az_scenario a = ''allow'' \<and> over then lock_with ''operator_complete''
     else mbind (on_bench (bench_cycle e (session_fault a over))) (\<lambda>allowed.
     if \<not> allowed then lock_with ''gate_denied'' else approve_sign e cr req r)))"

text \<open>\<^verbatim>\<open>Authorizer.approve\<close>\<close>

definition approve_body :: "bench_env \<Rightarrow> led_crypto \<Rightarrow> pyval \<Rightarrow> (authorizer, answer) meth" where
  "approve_body e cr req =
     mbind (mlift (context_of req)) (\<lambda>r.
     mbind (mget id) (\<lambda>a.
     if az_locked a \<or> h_install r \<noteq> az_install a then mraise (ValueError ''authorizer locked or wrong installation'')
     else (case az_binding a of
             None \<Rightarrow> approve_bind cr req r
           | Some bd \<Rightarrow>
               if (h_epoch r, h_generation r) \<noteq> bd \<or> h_op r \<noteq> (if az_armed a then ''RUN'' else ''ARM'')
               then mraise (ValueError ''controller session changed; new operator invocation required'')
               else approve_renew e cr req r)))"

definition approve :: "bench_env \<Rightarrow> led_crypto \<Rightarrow> pyval \<Rightarrow> (authorizer, answer) meth" where
  "approve e cr req =
     mcatch (approve_body e cr req)
       (\<lambda>x. if is_RuntimeError x \<or> is_ValueError x then lock_with ''authorizer_failure'' else mraise x)"

text \<open>
  \<^verbatim>\<open>serve\<close>, after the connection was accepted: per round the received frame (or the error of the
  receive) and what the send of the response did. The loop ends with the list of rounds (the
  session deadline), at the first terminal answer, or at the first exception. The result lists the
  requests with the answers handed to \<^verbatim>\<open>send_line\<close>.
\<close>

fun is_terminal :: "answer \<Rightarrow> bool" where
  "is_terminal (Terminal _) = True"
| "is_terminal _ = False"

fun serve :: "bench_env \<Rightarrow> led_crypto \<Rightarrow> (string res \<times> unit res) list \<Rightarrow> authorizer
    \<Rightarrow> (h2_request \<times> answer) list \<times> unit res \<times> authorizer" where
  "serve e cr [] a = ([], Inr (), a)"
| "serve e cr ((raw, sent) # rounds) a =
     (case rbind raw (decode_json (json_loads (bn_plat e))) of
        Inl x \<Rightarrow> ([], Inl x, a)
      | Inr req \<Rightarrow> (case approve e cr (h2_val req) a of
          (Inl x, a') \<Rightarrow> ([], Inl x, a')
        | (Inr answer, a') \<Rightarrow>
            if is_terminal answer \<or> sent \<noteq> Inr () then ([(req, answer)], sent, a')
            else (case serve e cr rounds a' of (tr, r, a'') \<Rightarrow> ((req, answer) # tr, r, a''))))"

section \<open>The approved runs\<close>

lemma lock_with_run: "lock_with reason a = (Inr (Terminal reason), a\<lparr>az_locked := True\<rparr>)"
  by (simp add: lock_with_def mthen_def mbind_def mput_def mret_def)

text \<open>The fields only \<open>approve_bind\<close> and the last step of \<open>approve_renew\<close> write.\<close>

definition session :: "authorizer \<Rightarrow> string \<times> string \<times> (int \<times> int) option \<times> int \<times> int \<times> bool \<times> string option \<times> bool" where
  "session a = (az_install a, az_controller a, az_binding a, az_sequence a, az_challenge a, az_locked a, az_session_key a, az_armed a)"

lemma session_simps [simp]: "session (a\<lparr>az_bench := b\<rparr>) = session a" "session (a\<lparr>az_started := s\<rparr>) = session a"
  by (simp_all add: session_def)

definition same_session :: "authorizer \<Rightarrow> authorizer \<Rightarrow> bool" where
  "same_session a b \<longleftrightarrow> session b = session a"

interpretation se: run_rel same_session
  by unfold_locales (auto simp: same_session_def)

lemma se_mput: "(\<And>a. session (f a) = session a) \<Longrightarrow> keeps same_session (mput f)"
  by (rule se.keeps_mput) (simp add: same_session_def)

lemma se_on_bench: "keeps same_session (on_bench m)"
  by (auto simp: keeps_def on_bench_def same_session_def split: prod.splits)

lemma se_sign: "keeps same_session (sign_renewal cr req)"
  unfolding sign_renewal_def by (intro se.keeps_flow)


lemma se_over: "keeps same_session (session_over e)"
  unfolding session_over_def by (intro se.keeps_flow se_on_bench se_mput) simp

lemma on_bench_run: "on_bench m a = (r, a') \<Longrightarrow> m (az_bench a) = (r, az_bench a') \<and> session a' = session a"
  by (auto simp: on_bench_def split: prod.splits)

text \<open>What the answers of the parts are, and what they write.\<close>

definition renewed :: "h2_request \<Rightarrow> authorizer \<Rightarrow> authorizer \<Rightarrow> bool" where
  "renewed r a a' \<longleftrightarrow> session a' = session (a\<lparr>az_sequence := h_sequence r + 1, az_challenge := h_challenge r, az_armed := True\<rparr>)"

definition now_locked :: "authorizer \<Rightarrow> authorizer \<Rightarrow> bool" where
  "now_locked a a' \<longleftrightarrow> session a' = session (a\<lparr>az_locked := True\<rparr>)"

text \<open>The clock of the session and its two or one readings.\<close>

definition over_reading :: "authorizer \<Rightarrow> nat" where
  "over_reading a = bg_reads (az_bench a) + (if az_started a = None then 1 else 0)"

definition session_late :: "bench_env \<Rightarrow> authorizer \<Rightarrow> bool" where
  "session_late e a \<longleftrightarrow>
     bn_mono_ns e (over_reading a) - (case az_started a of None \<Rightarrow> bn_mono_ns e (bg_reads (az_bench a)) | Some t \<Rightarrow> t)
       \<ge> az_seconds a * 1000000000"

text \<open>The gate as the cycle of this call finds it, after those readings.\<close>

definition cycle_bench :: "authorizer \<Rightarrow> bench" where
  "cycle_bench a = (az_bench a)\<lparr>bg_reads := over_reading a + 1\<rparr>"

text \<open>
  A renewal made by this call: its first reading after the session clock starts a gate cycle with the
  fault of the session, that cycle approved at \<open>approval_of\<close>'s readings, and the last two readings of
  the call find the approval fresh and give the remaining time \<open>q\<close>; the signature is the session
  key's digest of this request's lease payload.
\<close>

definition renewal_of :: "bench_env \<Rightarrow> led_crypto \<Rightarrow> pyval \<Rightarrow> authorizer \<Rightarrow> authorizer \<Rightarrow> string \<Rightarrow> rat \<Rightarrow> bool" where
  "renewal_of e cr req a a' sg q \<longleftrightarrow>
     (let b = cycle_bench a; started = bn_mono_ns e (bg_reads b); n = bg_reads (az_bench a') - 2;
          el = of_int (bn_mono_ns e n - started) / 1000000
      in (\<exists>step. bg_approval (az_bench a') = Some (step, started) \<and> approval_of e (session_fault a (session_late e a)) b n step \<and>
            require_fresh_actuation step el (bn_now_ms e (n + 1)) 200 50 = Inr ()) \<and>
         q = 50 - el \<and> \<not> (az_scenario a = ''allow'' \<and> session_late e a) \<and>
         (\<exists>p key. payload req 200 = Inr p \<and> az_session_key a = Some key \<and> sg = to_hex (blake cr key p)))"

lemma session_over_run:
  assumes "session_over e a = (r, a1)"
  shows "r = Inr (session_late e a) \<and> az_bench a1 = cycle_bench a"
  using assms
  by (cases "az_started a")
     (auto simp: session_over_def session_late_def cycle_bench_def over_reading_def mthen_def mbind_def mget_def mwhen_def mput_def mret_def on_bench_def bg_read_def)

lemma session_update:
  "session a = session b \<Longrightarrow> session (a\<lparr>az_sequence := n, az_challenge := c, az_armed := d\<rparr>) = session (b\<lparr>az_sequence := n, az_challenge := c, az_armed := d\<rparr>)"
  "session a = session b \<Longrightarrow> session (a\<lparr>az_locked := l\<rparr>) = session (b\<lparr>az_locked := l\<rparr>)"
  by (simp_all add: session_def)

lemma sign_renewal_run: "sign_renewal cr req a = (r, a') \<Longrightarrow> a' = a"
  by (auto simp: sign_renewal_def mbind_def mlift_def mget_def mraise_def mret_def split: sum.splits option.splits)

lemma approve_sign_run:
  assumes "approve_sign e cr req r a = (res, a')" and "bg_approval (az_bench a) = Some (step, started)" and "positive step = Inr True"
  shows "(\<exists>x. res = Inl x) \<and> session a' = session a \<or>
    (\<exists>sg rem. res = Inr (Permit sg None 200 rem) \<and> 0 < rem \<and> rem \<le> 50 \<and> renewed r a a' \<and>
       bg_reads (az_bench a') = bg_reads (az_bench a) + 2 \<and> bg_approval (az_bench a') = Some (step, started) \<and>
       (let el = of_int (bn_mono_ns e (bg_reads (az_bench a)) - started) / 1000000 in
          require_fresh_actuation step el (bn_now_ms e (bg_reads (az_bench a) + 1)) 200 50 = Inr () \<and> rem = 50 - el) \<and>
       (\<exists>p key. payload req 200 = Inr p \<and> az_session_key a = Some key \<and> sg = to_hex (blake cr key p)))"
proof -
  obtain rs a1 where s: "sign_renewal cr req a = (rs, a1)" by (cases "sign_renewal cr req a")
  then have a1: "a1 = a" by (rule sign_renewal_run)
  show ?thesis
  proof (cases rs)
    case (Inl x)
    with assms(1) s a1 show ?thesis by (auto simp: approve_sign_def mbind_def)
  next
    case (Inr sg)
    obtain rr a2 where m: "on_bench (bench_remaining e) a = (rr, a2)" by (cases "on_bench (bench_remaining e) a")
    note b = on_bench_run [OF m]
    show ?thesis
    proof (cases rr)
      case (Inl x)
      with assms(1) s a1 Inr m b show ?thesis by (auto simp: approve_sign_def mbind_def)
    next
      case (Inr q)
      have q: "0 < q" "q \<le> 1 / 20"
        using bench_remaining_bounds [of e "az_bench a" q "az_bench a2"] b Inr assms(2,3) by (auto simp: approved_def)
      note rm = bench_remaining_run [of e "az_bench a" q "az_bench a2", OF _ assms(2)]
      have run: "res = Inr (Permit sg None 200 (q * 1000))" "a' = a2\<lparr>az_sequence := h_sequence r + 1, az_challenge := h_challenge r, az_armed := True\<rparr>"
        using assms(1) s a1 \<open>rs = Inr sg\<close> m Inr q by (auto simp: approve_sign_def mbind_def mthen_def mput_def mret_def)
      have sg: "\<exists>p key. payload req 200 = Inr p \<and> az_session_key a = Some key \<and> sg = to_hex (blake cr key p)"
        using s \<open>rs = Inr sg\<close> by (auto simp: sign_renewal_def mbind_Inr_iff mlift_def mget_def mraise_def mret_def split: option.splits)
      have re: "renewed r a a'" using run(2) b by (auto simp: renewed_def intro: session_update)
      from rm b Inr assms(2) have rm': "bg_reads (az_bench a2) = bg_reads (az_bench a) + 2 \<and> bg_approval (az_bench a2) = Some (step, started) \<and>
         (let el = of_int (bn_mono_ns e (bg_reads (az_bench a)) - started) / 1000000 in
          require_fresh_actuation step el (bn_now_ms e (bg_reads (az_bench a) + 1)) 200 50 = Inr () \<and> q * 1000 = 50 - el)"
        by simp
      show ?thesis using run(1) q sg re rm' unfolding run(2) by (intro disjI2 exI [of _ sg] exI [of _ "q * 1000"]) simp
    qed
  qed
qed

lemma approve_renew_run:
  assumes "approve_renew e cr req r a = (res, a')"
  shows "(\<exists>x. res = Inl x) \<and> session a' = session a \<or>
    (\<exists>why\<in>{''operator_complete'', ''gate_denied''}. res = Inr (Terminal why)) \<and> now_locked a a' \<or>
    (\<exists>sg rem. res = Inr (Permit sg None 200 rem) \<and> 0 < rem \<and> rem \<le> 50 \<and> renewed r a a' \<and> renewal_of e cr req a a' sg rem \<and>
       h_sequence r = az_sequence a \<and> az_challenge a < h_challenge r)"
proof (cases "h_sequence r \<noteq> az_sequence a \<or> h_challenge r \<le> az_challenge a")
  case True
  with assms show ?thesis by (auto simp: approve_renew_def mbind_def mget_def mraise_def)
next
  case False
  obtain ro a1 where o': "session_over e a = (ro, a1)" by (cases "session_over e a")
  have s1: "session a1 = session a" using keepsD [OF se_over o'] by (simp add: same_session_def)
  show ?thesis
  proof (cases ro)
    case (Inl x)
    with assms False o' s1 show ?thesis by (auto simp: approve_renew_def mbind_def mget_def)
  next
    case (Inr over)
    show ?thesis
    proof (cases "az_scenario a = ''allow'' \<and> over")
      case True
      with assms False o' Inr have "res = Inr (Terminal ''operator_complete'')" "a' = a1\<lparr>az_locked := True\<rparr>"
        by (simp_all add: approve_renew_def mbind_def mget_def lock_with_run)
      then show ?thesis using session_update(2) [OF s1, of True] by (simp add: now_locked_def)
    next
      case nf: False
      obtain rc a2 where c: "on_bench (bench_cycle e (session_fault a over)) a1 = (rc, a2)"
        by (cases "on_bench (bench_cycle e (session_fault a over)) a1")
      note b = on_bench_run [OF c]
      have s2: "session a2 = session a" using b s1 by simp
      consider x where "rc = Inl x" | "rc = Inr False" | "rc = Inr True" by (cases rc) auto
      then show ?thesis
      proof cases
        case 1
        with assms False o' Inr nf c s2 show ?thesis by (auto simp: approve_renew_def mbind_def mget_def)
      next
        case 2
        with assms False o' Inr nf c have "res = Inr (Terminal ''gate_denied'')" "a' = a2\<lparr>az_locked := True\<rparr>"
          by (auto simp: approve_renew_def mbind_def mget_def lock_with_run)
        then show ?thesis using session_update(2) [OF s2, of True] by (simp add: now_locked_def)
      next
        case 3
        note so = session_over_run [OF o']
        obtain step where ap: "bg_approval (az_bench a2) = Some (step, bn_mono_ns e (bg_reads (cycle_bench a)))"
          "approval_of e (session_fault a over) (cycle_bench a) (bg_reads (az_bench a2)) step"
          using bench_cycle_run [of e "session_fault a over" "az_bench a1" rc "az_bench a2"] b 3 so by auto
        have pos: "positive step = Inr True" using ap(2) by (simp add: approval_of_def)
        have "approve_sign e cr req r a2 = (res, a')"
          using assms False o' Inr nf c 3 by (auto simp: approve_renew_def mbind_def mget_def)
        from approve_sign_run [OF this ap(1) pos] show ?thesis
        proof (elim disjE)
          assume "(\<exists>x. res = Inl x) \<and> session a' = session a2"
          with s2 show ?thesis by simp
        next
          assume "\<exists>sg rem. res = Inr (Permit sg None 200 rem) \<and> 0 < rem \<and> rem \<le> 50 \<and> renewed r a2 a' \<and>
            bg_reads (az_bench a') = bg_reads (az_bench a2) + 2 \<and> bg_approval (az_bench a') = Some (step, bn_mono_ns e (bg_reads (cycle_bench a))) \<and>
            (let el = of_int (bn_mono_ns e (bg_reads (az_bench a2)) - bn_mono_ns e (bg_reads (cycle_bench a))) / 1000000 in
               require_fresh_actuation step el (bn_now_ms e (bg_reads (az_bench a2) + 1)) 200 50 = Inr () \<and> rem = 50 - el) \<and>
            (\<exists>p key. payload req 200 = Inr p \<and> az_session_key a2 = Some key \<and> sg = to_hex (blake cr key p))"
          then obtain sg rem where g: "res = Inr (Permit sg None 200 rem)" "0 < rem" "rem \<le> 50" "renewed r a2 a'"
            "bg_reads (az_bench a') = bg_reads (az_bench a2) + 2" "bg_approval (az_bench a') = Some (step, bn_mono_ns e (bg_reads (cycle_bench a)))"
            "require_fresh_actuation step (of_int (bn_mono_ns e (bg_reads (az_bench a2)) - bn_mono_ns e (bg_reads (cycle_bench a))) / 1000000)
               (bn_now_ms e (bg_reads (az_bench a2) + 1)) 200 50 = Inr ()"
            "rem = 50 - of_int (bn_mono_ns e (bg_reads (az_bench a2)) - bn_mono_ns e (bg_reads (cycle_bench a))) / 1000000"
            "\<exists>p key. payload req 200 = Inr p \<and> az_session_key a2 = Some key \<and> sg = to_hex (blake cr key p)"
            unfolding Let_def by blast
          have n: "bg_reads (az_bench a') - 2 = bg_reads (az_bench a2)" using g(5) by simp
          have over: "over = session_late e a" using so Inr by simp
          have "renewal_of e cr req a a' sg rem"
            unfolding renewal_of_def Let_def n using g(6-9) ap(2) nf s2 over by (auto simp: session_def)
          then show ?thesis using g(1-4) s2 session_update(1) [OF s2] False by (auto simp: renewed_def)
        qed
      qed
    qed
  qed
qed


definition bound :: "h2_request \<Rightarrow> authorizer \<Rightarrow> authorizer \<Rightarrow> bool" where
  "bound r a a' \<longleftrightarrow> (\<exists>k. session a' = session (a\<lparr>az_binding := Some (h_epoch r, h_generation r), az_session_key := Some k,
     az_sequence := 1, az_challenge := h_challenge r\<rparr>))"

lemma session_bind:
  "session b = session (a\<lparr>az_binding := Some bd\<rparr>) \<Longrightarrow>
   session (b\<lparr>az_session_key := k, az_sequence := n, az_challenge := c\<rparr>) =
   session (a\<lparr>az_binding := Some bd, az_session_key := k, az_sequence := n, az_challenge := c\<rparr>)"
  by (simp add: session_def)

lemma se_bind_material: "keeps same_session (bind_material cr req)"
  unfolding bind_material_def by (intro se.keeps_flow se_on_bench)

lemma approve_bind_run:
  assumes "approve_bind cr req r a = (res, a')"
  shows "(\<exists>x. res = Inl x) \<and> (session a' = session a \<or> session a' = session (a\<lparr>az_binding := Some (h_epoch r, h_generation r)\<rparr>)) \<or>
    (\<exists>sg eph. res = Inr (Permit sg (Some eph) 0 500)) \<and> h_op r = ''BIND'' \<and> h_sequence r = 0 \<and> bound r a a'"
proof (cases "h_op r \<noteq> ''BIND'' \<or> h_sequence r \<noteq> 0")
  case True
  with assms show ?thesis by (auto simp: approve_bind_def mraise_def)
next
  case False
  let ?a1 = "a\<lparr>az_binding := Some (h_epoch r, h_generation r)\<rparr>"
  obtain rm a2 where m: "bind_material cr req ?a1 = (rm, a2)" by (cases "bind_material cr req ?a1")
  have s: "session a2 = session ?a1" using keepsD [OF se_bind_material m] by (simp add: same_session_def)
  show ?thesis
  proof (cases rm)
    case (Inl x)
    with assms False m have "res = Inl x \<and> a' = a2" by (simp add: approve_bind_def mthen_def mbind_def mput_def)
    with s show ?thesis by simp
  next
    case (Inr t)
    obtain eph bytes key where t: "t = (eph, bytes, key)" by (cases t)
    with assms False m Inr have "res = Inr (Permit (to_hex (led_ed cr bytes)) (Some eph) 0 500) \<and>
        a' = a2\<lparr>az_session_key := Some key, az_sequence := 1, az_challenge := h_challenge r\<rparr>"
      by (simp add: approve_bind_def mthen_def mbind_def mput_def mret_def)
    then show ?thesis using False session_bind [OF s] by (auto simp: bound_def)
  qed
qed

text \<open>All runs of \<^verbatim>\<open>approve\<close>: an answer that is no permit, or an exception, never renews anything.\<close>

lemma approve_body_run:
  assumes "approve_body e cr req a = (res, a')"
  shows "(\<exists>x. res = Inl x) \<and> (session a' = session a \<or>
      (\<exists>bd. \<not> az_locked a \<and> az_binding a = None \<and> session a' = session (a\<lparr>az_binding := Some bd\<rparr>))) \<or>
    (\<exists>why\<in>{''operator_complete'', ''gate_denied''}. res = Inr (Terminal why)) \<and> \<not> az_locked a \<and> now_locked a a' \<or>
    (\<exists>r. context_of req = Inr r \<and> \<not> az_locked a \<and> h_install r = az_install a \<and>
      ((\<exists>sg eph. res = Inr (Permit sg (Some eph) 0 500)) \<and> az_binding a = None \<and> h_op r = ''BIND'' \<and> h_sequence r = 0 \<and> bound r a a' \<or>
       (\<exists>sg rem. res = Inr (Permit sg None 200 rem) \<and> 0 < rem \<and> rem \<le> 50 \<and> renewal_of e cr req a a' sg rem) \<and> az_binding a = Some (h_epoch r, h_generation r) \<and>
         h_op r = (if az_armed a then ''RUN'' else ''ARM'') \<and> h_sequence r = az_sequence a \<and> az_challenge a < h_challenge r \<and>
         renewed r a a'))"
proof (cases "context_of req")
  case (Inl x)
  with assms show ?thesis by (auto simp: approve_body_def mbind_def mlift_def)
next
  case (Inr r)
  show ?thesis
  proof (cases "az_locked a \<or> h_install r \<noteq> az_install a")
    case True
    with assms Inr show ?thesis by (auto simp: approve_body_def mbind_def mlift_def mget_def mraise_def)
  next
    case False
    show ?thesis
    proof (cases "az_binding a")
      case None
      with assms Inr False have "approve_bind cr req r a = (res, a')"
        by (auto simp: approve_body_def mbind_def mlift_def mget_def)
      from approve_bind_run [OF this] None Inr False show ?thesis by blast
    next
      case (Some bd)
      show ?thesis
      proof (cases "(h_epoch r, h_generation r) \<noteq> bd \<or> h_op r \<noteq> (if az_armed a then ''RUN'' else ''ARM'')")
        case True
        with assms Inr False Some show ?thesis by (auto simp: approve_body_def mbind_def mlift_def mget_def mraise_def)
      next
        case nf: False
        with assms Inr False Some have "approve_renew e cr req r a = (res, a')"
          by (auto simp: approve_body_def mbind_def mlift_def mget_def)
        from approve_renew_run [OF this] Some Inr False nf show ?thesis by blast
      qed
    qed
  qed
qed

text \<open>The typed summary of one call.\<close>

definition granted_by :: "bench_env \<Rightarrow> led_crypto \<Rightarrow> pyval \<Rightarrow> authorizer \<Rightarrow> authorizer \<Rightarrow> h2_request \<Rightarrow> answer \<Rightarrow> bool" where
  "granted_by e cr req a a' r ans \<longleftrightarrow> context_of req = Inr r \<and> \<not> az_locked a \<and> h_install r = az_install a \<and>
     ((\<exists>sg eph. ans = Permit sg (Some eph) 0 500) \<and> az_binding a = None \<and> h_op r = ''BIND'' \<and> h_sequence r = 0 \<and> bound r a a' \<or>
      (\<exists>sg rem. ans = Permit sg None 200 rem \<and> 0 < rem \<and> rem \<le> 50 \<and> renewal_of e cr req a a' sg rem) \<and> az_binding a = Some (h_epoch r, h_generation r) \<and>
        h_op r = (if az_armed a then ''RUN'' else ''ARM'') \<and> h_sequence r = az_sequence a \<and> az_challenge a < h_challenge r \<and>
        renewed r a a')"

lemma approve_run:
  assumes "approve e cr req a = (res, a')"
  shows "(\<exists>ans r. res = Inr ans \<and> granted_by e cr req a a' r ans) \<or>
    (\<exists>why\<in>{''operator_complete'', ''gate_denied'', ''authorizer_failure''}. res = Inr (Terminal why)) \<and> az_locked a' \<or>
    (\<exists>x. res = Inl x) \<and> \<not> az_locked a'"
proof -
  obtain rb h where b: "approve_body e cr req a = (rb, h)" by (cases "approve_body e cr req a")
  show ?thesis
  proof (cases rb)
    case (Inr ans)
    with assms b have "res = Inr ans" "a' = h" by (auto simp: approve_def mcatch_def)
    with approve_body_run [OF b] Inr show ?thesis by (auto simp: granted_by_def now_locked_def session_def)
  next
    case (Inl x)
    have l: "is_RuntimeError x \<or> is_ValueError x \<or> \<not> az_locked h"
    proof (rule ccontr)
      assume n: "\<not> (is_RuntimeError x \<or> is_ValueError x \<or> \<not> az_locked h)"
      then have "az_locked a" using approve_body_run [OF b] Inl by (auto simp: session_def)
      with b Inl n show False
        by (cases "context_of req") (auto simp: approve_body_def mbind_def mlift_def mget_def mraise_def dest!: context_of_ValueError)
    qed
    with assms b Inl show ?thesis by (auto simp: approve_def mcatch_def lock_with_run mraise_def split: if_splits)
  qed
qed

section \<open>The session as an automaton\<close>

text \<open>
  What the authorizer promises, without keys, clocks or the gate: one lease, bound once, armed
  once, renewed in order, ended by the first terminal answer.
\<close>

datatype lease = Unbound | Lease int int int int bool | Ended

inductive lease_step :: "lease \<Rightarrow> h2_request \<Rightarrow> answer \<Rightarrow> lease \<Rightarrow> bool" where
  Bind: "h_op r = ''BIND'' \<Longrightarrow> h_sequence r = 0 \<Longrightarrow>
    lease_step Unbound r (Permit sg (Some eph) 0 500) (Lease (h_epoch r) (h_generation r) 1 (h_challenge r) False)"
| Renew: "h_op r = (if armed then ''RUN'' else ''ARM'') \<Longrightarrow> h_sequence r = n \<Longrightarrow> c < h_challenge r \<Longrightarrow>
    h_epoch r = ep \<Longrightarrow> h_generation r = g \<Longrightarrow> 0 < q \<Longrightarrow> q \<le> 50 \<Longrightarrow>
    lease_step (Lease ep g n c armed) r (Permit sg None 200 q) (Lease ep g (n + 1) (h_challenge r) True)"
| End: "lease_step s r (Terminal why) Ended"

inductive_cases lease_permitE: "lease_step s r (Permit sg eph d q) s'"
inductive_cases lease_endedE: "lease_step Ended r ans s'"

text \<open>Runs: the last answer may be terminal, the ones before it are permits.\<close>

fun lease_run :: "lease \<Rightarrow> (h2_request \<times> answer) list \<Rightarrow> bool" where
  "lease_run s [] = True"
| "lease_run s ((r, ans) # rest) = (\<exists>s'. lease_step s r ans s' \<and> (is_terminal ans \<longrightarrow> rest = []) \<and> lease_run s' rest)"

definition lease_of :: "authorizer \<Rightarrow> lease" where
  "lease_of a = (if az_locked a then Ended else case az_binding a of None \<Rightarrow> Unbound
     | Some (ep, g) \<Rightarrow> Lease ep g (az_sequence a) (az_challenge a) (az_armed a))"

text \<open>The flag \<^verbatim>\<open>armed_authorized\<close> is set only in a bound session.\<close>

definition az_ok :: "authorizer \<Rightarrow> bool" where
  "az_ok a \<longleftrightarrow> (az_binding a = None \<longrightarrow> \<not> az_armed a)"

lemma granted_step:
  assumes "granted_by e cr (h2_val r0) a a' r ans" and "request_ok r0" and "az_ok a"
  shows "lease_step (lease_of a) r0 ans (lease_of a') \<and> az_ok a'"
proof -
  have r: "r = r0" using assms(1,2) context_of_val by (simp add: granted_by_def)
  show ?thesis
  proof (cases "az_binding a")
    case None
    with assms(1) obtain sg eph where "ans = Permit sg (Some eph) 0 500" "bound r a a'" "h_op r = ''BIND''" "h_sequence r = 0" "\<not> az_locked a"
      by (auto simp: granted_by_def)
    with None assms(3) r show ?thesis by (auto simp: lease_of_def az_ok_def bound_def session_def intro: lease_step.Bind)
  next
    case (Some bd)
    with assms(1) obtain sg q where "ans = Permit sg None 200 q" "0 < q" "q \<le> 50" "renewed r a a'" "bd = (h_epoch r, h_generation r)"
      "h_op r = (if az_armed a then ''RUN'' else ''ARM'')" "h_sequence r = az_sequence a" "az_challenge a < h_challenge r" "\<not> az_locked a"
      by (auto simp: granted_by_def)
    with Some r show ?thesis by (auto simp: lease_of_def az_ok_def renewed_def session_def intro: lease_step.Renew)
  qed
qed

lemma approve_ok: "approve_body e cr req a = (res, h) \<Longrightarrow> az_ok a \<Longrightarrow> az_ok h"
  by (drule approve_body_run) (auto simp: az_ok_def session_def now_locked_def bound_def renewed_def)

lemma approve_refines:
  assumes "approve e cr (h2_val r) a = (Inr ans, a')" and "request_ok r" and "az_ok a"
  shows "lease_step (lease_of a) r ans (lease_of a') \<and> az_ok a'"
proof (cases "is_terminal ans")
  case True
  then obtain why where w: "ans = Terminal why" by (cases ans) auto
  from approve_run [OF assms(1)] w have "az_locked a'" by (auto simp: granted_by_def)
  moreover obtain rb h where b: "approve_body e cr (h2_val r) a = (rb, h)" by (cases "approve_body e cr (h2_val r) a")
  then have "az_ok h" using assms(3) by (rule approve_ok)
  then have "az_ok a'" using assms(1) b by (cases rb) (auto simp: approve_def mcatch_def lock_with_run mraise_def az_ok_def split: if_splits)
  ultimately show ?thesis using w by (simp add: lease_of_def lease_step.End)
next
  case False
  with approve_run [OF assms(1)] obtain r' where "granted_by e cr (h2_val r) a a' r' ans" by auto
  then show ?thesis using assms(2,3) by (rule granted_step)
qed

lemma decode_json_ok: "rbind raw (decode_json loads) = Inr r \<Longrightarrow> request_ok r"
  by (auto simp: rbind_Inr_iff decode_json_def split: if_splits dest: context_of_ok)

lemma serve_refines: "az_ok a \<Longrightarrow> serve e cr rounds a = (tr, res, a') \<Longrightarrow> lease_run (lease_of a) tr"
proof (induction e cr rounds a arbitrary: tr res a' rule: serve.induct)
  case (1 e cr a)
  then show ?case by simp
next
  case (2 e cr raw sent rounds a)
  show ?case
  proof (cases "rbind raw (decode_json (json_loads (bn_plat e)))")
    case (Inl x)
    with 2 show ?thesis by auto
  next
    case (Inr r)
    note ok = decode_json_ok [OF Inr]
    obtain ra a1 where ap: "approve e cr (h2_val r) a = (ra, a1)" by (cases "approve e cr (h2_val r) a")
    show ?thesis
    proof (cases ra)
      case (Inl x)
      with 2 Inr ap show ?thesis by auto
    next
      case ans: (Inr answer)
      note st = approve_refines [OF ap [unfolded ans] ok "2.prems"(1)]
      show ?thesis
      proof (cases "is_terminal answer \<or> sent \<noteq> Inr ()")
        case True
        with 2 Inr ap ans have "tr = [(r, answer)]" by auto
        with st show ?thesis by auto
      next
        case False
        obtain tr' res' a'' where s: "serve e cr rounds a1 = (tr', res', a'')" by (metis prod_cases3)
        have "lease_run (lease_of a1) tr'" using "2.IH" [OF Inr ap [symmetric]] ans False st s by auto
        moreover have "tr = (r, answer) # tr'" using "2.prems"(2) Inr ap ans False s by auto
        ultimately show ?thesis using st False by auto
      qed
    qed
  qed
qed

text \<open>Facts of the automaton: the permits of a run form one ordered lease.\<close>

definition permits_of :: "(h2_request \<times> answer) list \<Rightarrow> h2_request list" where
  "permits_of tr = map fst (filter (\<lambda>(r, ans). \<not> is_terminal ans) tr)"

lemma ended_run: "lease_run Ended tr \<Longrightarrow> permits_of tr = []"
proof (induction tr)
  case Nil
  then show ?case by (simp add: permits_of_def)
next
  case (Cons p tr)
  then obtain r ans where p: "p = (r, ans)" by (cases p)
  with Cons show ?case by (auto simp: permits_of_def elim!: lease_endedE)
qed

lemma lease_permits:
  "lease_run (Lease ep g n c armed) tr \<Longrightarrow>
   map h_sequence (permits_of tr) = map (\<lambda>i. n + int i) [0..<length (permits_of tr)] \<and>
   map h_op (permits_of tr) = take (length (permits_of tr)) ((if armed then ''RUN'' else ''ARM'') # replicate (length (permits_of tr)) ''RUN'') \<and>
   (\<forall>r\<in>set (permits_of tr). h_epoch r = ep \<and> h_generation r = g \<and> c < h_challenge r) \<and>
   sorted_wrt (<) (map h_challenge (permits_of tr))"
proof (induction tr arbitrary: n c armed)
  case Nil
  then show ?case by (simp add: permits_of_def)
next
  case (Cons p tr)
  obtain r ans where p: "p = (r, ans)" by (cases p)
  show ?case
  proof (cases ans)
    case (Terminal why)
    with Cons.prems p show ?thesis by (auto simp: permits_of_def)
  next
    case (Permit sg eph d q)
    from Cons.prems p obtain s' where s: "lease_step (Lease ep g n c armed) r ans s'" "lease_run s' tr" by auto
    then have st: "h_op r = (if armed then ''RUN'' else ''ARM'')" "h_sequence r = n" "c < h_challenge r" "h_epoch r = ep" "h_generation r = g"
      "s' = Lease ep g (n + 1) (h_challenge r) True" using Permit by (auto elim!: lease_permitE)
    have l: "permits_of (p # tr) = r # permits_of tr" using p Permit by (simp add: permits_of_def)
    note ih = Cons.IH [OF s(2) [unfolded st(6)]]
    let ?k = "length (permits_of tr)"
    have "map (\<lambda>i. n + int i) [0..<Suc ?k] = n # map (\<lambda>i. n + 1 + int i) [0..<?k]"
      unfolding upt_conv_Cons [OF zero_less_Suc] by (simp add: map_Suc_upt [symmetric] del: upt_Suc)
    then have "map h_sequence (permits_of (p # tr)) = map (\<lambda>i. n + int i) [0..<length (permits_of (p # tr))]"
      using ih st l by (simp del: upt_Suc)
    moreover have "map h_op (permits_of tr) = replicate ?k ''RUN''" using ih by (simp flip: replicate_Suc)
    then have "map h_op (permits_of (p # tr)) = take (length (permits_of (p # tr)))
       ((if armed then ''RUN'' else ''ARM'') # replicate (length (permits_of (p # tr))) ''RUN'')"
      using st l by (simp del: replicate_Suc)
    moreover have "\<forall>r\<in>set (permits_of (p # tr)). h_epoch r = ep \<and> h_generation r = g \<and> c < h_challenge r"
      using ih st l by auto
    moreover have "sorted_wrt (<) (map h_challenge (permits_of (p # tr)))" using ih st l by simp
    ultimately show ?thesis by blast
  qed
qed

end
