(* ===== verification/Serial_Link.thy ===== *)
theory Serial_Link
  imports Bytes Permit_Protocol
begin

text \<open>
  The USB serial links of the bench: the challenge-response link of the unauthenticated firmware
  (\<^verbatim>\<open>tools/bench_link.py\<close>, class \<^verbatim>\<open>SerialLink\<close>) and the permit link of the H2 controller
  (\<^verbatim>\<open>tools/permit_link.py\<close>, class \<^verbatim>\<open>PermitLink\<close>). The descriptor, \<^verbatim>\<open>select\<close> and the monotonic clock
  are the parameter \<open>serial_env\<close>; both loops are total because every turn writes or reads a byte.
\<close>

section \<open>The descriptor\<close>

text \<open>
  The \<open>i\<close>-th turn of a loop: the clock (seconds), what \<^verbatim>\<open>select\<close> says, how many bytes \<^verbatim>\<open>os.write\<close>
  took and what \<^verbatim>\<open>os.read\<close> returned.
\<close>

record serial_env =
  sv_now :: "nat \<Rightarrow> rat"
  sv_ready :: "nat \<Rightarrow> bool"
  sv_count :: "nat \<Rightarrow> nat"
  sv_data :: "nat \<Rightarrow> string"

definition timed_out :: "serial_env \<Rightarrow> rat \<Rightarrow> nat \<Rightarrow> bool" where
  "timed_out v deadline i \<longleftrightarrow> deadline - sv_now v i \<le> 0 \<or> \<not> sv_ready v i"

text \<open>The write loop: the outcome, the next turn and the bytes that left.\<close>

function write_all :: "serial_env \<Rightarrow> string \<Rightarrow> rat \<Rightarrow> nat \<Rightarrow> string \<Rightarrow> unit res \<times> nat \<times> string" where
  "write_all v name deadline i raw =
     (if raw = [] then (Inr (), i, [])
      else if timed_out v deadline i then (Inl (LinkError (name @ '' write timeout'')), Suc i, [])
      else if sv_count v i = 0 then (Inl (LinkError (name @ '' closed'')), Suc i, [])
      else (case write_all v name deadline (Suc i) (drop (sv_count v i) raw) of
              (r, j, w) \<Rightarrow> (r, j, take (sv_count v i) raw @ w)))"
  by pat_completeness auto
termination by (relation "measure (\<lambda>(v, name, d, i, raw). length raw)") auto

definition oversized :: "string \<Rightarrow> string" where
  "oversized name = ''oversized '' @ (if name = ''USB'' then ''USB'' else ''H2'') @ '' response''"

text \<open>The read loop: the outcome, the next turn and the buffer.\<close>

function read_until :: "serial_env \<Rightarrow> string \<Rightarrow> rat \<Rightarrow> nat \<Rightarrow> nat \<Rightarrow> string \<Rightarrow> unit res \<times> nat \<times> string" where
  "read_until v name deadline limit i buf =
     (if newline \<in> set buf then (Inr (), i, buf)
      else if timed_out v deadline i then (Inl (LinkError (name @ '' response timeout'')), Suc i, buf)
      else let data = take limit (sv_data v i) in
        if data = [] then (Inl (LinkError (name @ '' closed'')), Suc i, buf)
        else if length (buf @ data) > limit then (Inl (LinkError (oversized name)), Suc i, buf @ data)
        else read_until v name deadline limit (Suc i) (buf @ data))"
  by pat_completeness auto
termination by (relation "measure (\<lambda>(v, name, d, limit, i, buf). Suc limit - length buf)") (auto simp: min_def simp flip: length_greater_0_conv)

declare write_all.simps [simp del] read_until.simps [simp del]

section \<open>\<open>SerialLink\<close>\<close>

text \<open>\<open>lk_sent\<close> observes what each exchange put on the wire.\<close>

record link =
  lk_session :: string
  lk_seq :: int
  lk_challenge :: int
  lk_buffer :: string
  lk_turn :: nat
  lk_sent :: "string list"

definition link_init :: "string \<Rightarrow> link" where
  "link_init session = \<lparr>lk_session = session, lk_seq = 0, lk_challenge = 0, lk_buffer = [], lk_turn = 0, lk_sent = []\<rparr>"

definition h1_line :: "string \<Rightarrow> string \<Rightarrow> int \<Rightarrow> int \<Rightarrow> string" where
  "h1_line op session seq token =
     ''H1 '' @ op @ '' '' @ session @ '' '' @ show_int seq @ '' '' @ show_int token @ [newline]"

definition required_state :: "string \<rightharpoonup> string" where
  "required_state = map_of [(''HELLO'', ''LOCKED''), (''ARM'', ''ARMED''), (''RUN'', ''ON''), (''STOP'', ''LOCKED'')]"

text \<open>The \<^verbatim>\<open>try\<close> block: the checks on the response line; \<open>rest\<close> is what followed its newline.\<close>

definition h1_reply :: "string \<Rightarrow> string \<Rightarrow> int \<Rightarrow> int \<Rightarrow> string \<Rightarrow> string \<Rightarrow> string res" where
  "h1_reply op session seq expected line rest =
     (if \<not> isascii line then Inl (LinkError ''ascii'')
      else let fields = split_on (CHR '' '') line in
      if length fields \<noteq> 7 \<or> take 3 fields \<noteq> [''H1'', ''OK'', session] \<or> fields ! 3 \<noteq> show_int seq \<or>
         fields ! 4 \<noteq> show_int expected \<or> fields ! 5 \<notin> {''ON'', ''ARMED'', ''LOCKED''} \<or> rest \<noteq> []
      then Inl (LinkError (''unexpected USB response: '' @ line))
      else (case required_state op of
              Some s \<Rightarrow> if fields ! 5 \<noteq> s then Inl (LinkError ''incorrect device state'') else Inr (fields ! 5)
            | None \<Rightarrow> Inr (fields ! 5)))"

definition lk_write :: "serial_env \<Rightarrow> rat \<Rightarrow> string \<Rightarrow> (link, unit) meth" where
  "lk_write v deadline raw l =
     (case write_all v ''USB'' deadline (lk_turn l) raw of
        (r, i, w) \<Rightarrow> (r, l\<lparr>lk_turn := i, lk_sent := lk_sent l @ [w]\<rparr>))"

definition lk_read :: "serial_env \<Rightarrow> rat \<Rightarrow> (link, string \<times> string) meth" where
  "lk_read v deadline l =
     (case read_until v ''USB'' deadline 128 (lk_turn l) (lk_buffer l) of
        (r, i, b) \<Rightarrow> (case r of
            Inl x \<Rightarrow> (Inl x, l\<lparr>lk_turn := i, lk_buffer := b\<rparr>)
          | Inr _ \<Rightarrow> (Inr (line_of b, rest_of b), l\<lparr>lk_turn := i, lk_buffer := rest_of b\<rparr>)))"

text \<open>\<^verbatim>\<open>exchange\<close>\<close>

definition exchange_op :: "serial_env \<Rightarrow> string \<Rightarrow> rat \<Rightarrow> (link, string) meth" where
  "exchange_op v op timeout =
     mbind (mget id) (\<lambda>l.
     let seq = (if op = ''HELLO'' then 0 else lk_seq l + 1);
         token = (if op = ''HELLO'' then 0 else lk_challenge l);
         expected = (if op = ''HELLO'' then 1 else token + 1) in
     mbind (mget (\<lambda>l. sv_now v (lk_turn l) + timeout)) (\<lambda>deadline.
     mthen (mput (\<lambda>l. l\<lparr>lk_turn := Suc (lk_turn l)\<rparr>))
     (mthen (lk_write v deadline (h1_line op (lk_session l) seq token))
     (mbind (lk_read v deadline) (\<lambda>(line, rest).
      mbind (mlift (h1_reply op (lk_session l) seq expected line rest)) (\<lambda>state.
      mthen (mput (\<lambda>l. l\<lparr>lk_seq := seq, lk_challenge := expected\<rparr>)) (mret state)))))))"

text \<open>\<^verbatim>\<open>stop\<close>\<close>

definition link_stop :: "serial_env \<Rightarrow> (link, unit) meth" where
  "link_stop v = mcatch (mthen (exchange_op v ''STOP'' (1 / 20)) (mret ()))
     (\<lambda>x. if is_LinkError x \<or> is_OSError x then mret () else mraise x)"

section \<open>\<open>PermitLink\<close>\<close>

record permit_link =
  pl_install :: string
  pl_current :: "h2_request option"
  pl_turn :: nat
  pl_sent :: "string list"

definition pl_init :: "string \<Rightarrow> permit_link" where
  "pl_init install = \<lparr>pl_install = install, pl_current = None, pl_turn = 0, pl_sent = []\<rparr>"

text \<open>\<^verbatim>\<open>0|[1-9][0-9]{0,9}\<close>\<close>

definition is_counter :: "string \<Rightarrow> bool" where
  "is_counter s \<longleftrightarrow> s = ''0'' \<or> s \<noteq> [] \<and> hd s \<noteq> CHR ''0'' \<and> length s \<le> 10 \<and> list_all is_digit s"

text \<open>The checks of \<^verbatim>\<open>wire\<close> on the controller's line: its state word and its new context.\<close>

definition h2_reply :: "string \<Rightarrow> string \<Rightarrow> string \<Rightarrow> (string \<times> h2_request) res" where
  "h2_reply install line rest =
     (if \<not> isascii line then Inl UnicodeError
      else let fields = split_on (CHR '' '') line in
      if rest \<noteq> [] \<or> length fields \<noteq> 11 \<or> take 3 fields \<noteq> [''H2'', ''OK'', install] \<or>
         \<not> list_all is_counter (take 5 (drop 3 fields)) \<or> \<not> is_hex 32 (fields ! 8) \<or>
         fields ! 9 \<notin> {''LOCKED'', ''BOUND'', ''ARMED'', ''ON''}
      then Inl (LinkError (''invalid H2 controller response: '' @ line))
      else rbind (rmap py_int (take 5 (drop 3 fields))) (\<lambda>ns.
      rbind (context_of (PDict [(''epoch'', PInt (ns ! 0)), (''generation'', PInt (ns ! 1)), (''sequence'', PInt (ns ! 2)),
         (''challenge'', PInt (ns ! 3)), (''issued'', PInt (ns ! 4)), (''install'', PStr install), (''nonce'', PStr (fields ! 8)),
         (''op'', PStr ''RUN'')])) (\<lambda>value. Inr (fields ! 9, value))))"

text \<open>\<^verbatim>\<open>wire\<close>\<close>

definition wire :: "serial_env \<Rightarrow> string \<Rightarrow> rat \<Rightarrow> (permit_link, string) meth" where
  "wire v raw timeout l =
     (let deadline = sv_now v (pl_turn l) + timeout in
      case write_all v ''H2 USB'' deadline (Suc (pl_turn l)) raw of (rw, i, w) \<Rightarrow>
      (let l1 = l\<lparr>pl_turn := i, pl_sent := pl_sent l @ [w]\<rparr> in
       case rw of Inl x \<Rightarrow> (Inl x, l1) | Inr _ \<Rightarrow>
       (case read_until v ''H2 USB'' deadline 160 i [] of (rr, j, b) \<Rightarrow>
       (let l2 = l1\<lparr>pl_turn := j\<rparr> in
        case rr of Inl x \<Rightarrow> (Inl x, l2) | Inr _ \<Rightarrow>
        (case h2_reply (pl_install l) (line_of b) (rest_of b) of
           Inl x \<Rightarrow> (Inl x, l2)
         | Inr (state, value) \<Rightarrow> (Inr state, l2\<lparr>pl_current := Some value\<rparr>))))))"

definition need_current :: "(permit_link, h2_request) meth" where
  "need_current = mbind (mget pl_current) (\<lambda>c. (case c of None \<Rightarrow> mraise TypeError | Some r \<Rightarrow> mret r))"

text \<open>\<^verbatim>\<open>query\<close>\<close>

definition query :: "serial_env \<Rightarrow> string \<Rightarrow> (permit_link, string) meth" where
  "query v op =
     (if op \<notin> {''HELLO'', ''STATUS'', ''STOP''} then mraise (ValueError ''unsigned command cannot actuate'')
      else mbind (mget pl_current) (\<lambda>previous.
      mbind (wire v (''H2 '' @ op @ [newline]) (1 / 20)) (\<lambda>state.
      mbind need_current (\<lambda>now.
      if op = ''HELLO'' \<and> (state \<noteq> ''LOCKED'' \<or> h_sequence now \<noteq> 0) then mraise (LinkError ''HELLO did not lock/reset sequence'')
      else if op = ''STOP'' \<and> state \<noteq> ''LOCKED'' then mraise (LinkError ''STOP did not lock controller'')
      else (case previous of
              None \<Rightarrow> mret state
            | Some p \<Rightarrow> if op \<noteq> ''HELLO'' \<and> (h_epoch now \<noteq> h_epoch p \<or> h_generation now \<noteq> h_generation p \<or> h_sequence now \<noteq> h_sequence p)
                then mraise (LinkError ''controller context changed'') else mret state)))))"

definition permit_state :: "string \<rightharpoonup> string" where
  "permit_state = map_of [(''BIND'', ''BOUND''), (''ARM'', ''ARMED''), (''RUN'', ''ON'')]"

text \<open>The checks of \<^verbatim>\<open>execute\<close> on the authorizer's answer, and the frame it makes of it.\<close>

definition check_permit :: "h2_request \<Rightarrow> pyval \<Rightarrow> string res" where
  "check_permit r permit = rbind (need_dict permit) (\<lambda>d.
     let binding = (h_op r = ''BIND''); get = (\<lambda>k. case map_of d k of None \<Rightarrow> PNone | Some x \<Rightarrow> x) in
     if fst ` set d \<noteq> {''kind'', ''signature'', ''duration'', ''remaining_ms''} \<union> (if binding then {''ephemeral''} else {}) \<or>
        get ''kind'' \<noteq> PStr ''permit'' \<or> \<not> eq_int (get ''duration'') (if binding then 0 else 200)
     then Inl (LinkError ''invalid authorizer permit'')
     else rbind (need_str (get ''signature'')) (\<lambda>sg. frame (h2_val r) sg (get ''duration'') (get ''ephemeral'')))"

text \<open>\<^verbatim>\<open>execute\<close>\<close>

definition execute :: "serial_env \<Rightarrow> h2_request \<Rightarrow> pyval \<Rightarrow> rat \<Rightarrow> (permit_link, unit) meth" where
  "execute v r permit timeout =
     mbind (mlift (check_permit r permit)) (\<lambda>raw.
     mbind (wire v raw timeout) (\<lambda>state.
     if permit_state (h_op r) \<noteq> Some state then mraise (LinkError ''incorrect authenticated controller state'')
     else mbind need_current (\<lambda>now.
     if h_sequence now \<noteq> h_sequence r + 1 \<or> h_challenge now \<noteq> h_challenge r + 1 \<or>
        h_epoch now \<noteq> h_epoch r \<or> h_generation now \<noteq> h_generation r
     then mraise (LinkError ''incorrect controller permit acknowledgment'') else mret ())))"

text \<open>\<^verbatim>\<open>stop\<close>\<close>

definition permit_stop :: "serial_env \<Rightarrow> (permit_link, unit) meth" where
  "permit_stop v = mcatch (mthen (query v ''STOP'') (mret ()))
     (\<lambda>x. if is_RuntimeError x \<or> is_OSError x \<or> is_ValueError x then mret () else mraise x)"

section \<open>Lemmas on the loops\<close>

lemma write_all_sent: "write_all v name d i raw = (r, j, w) \<Longrightarrow> (\<exists>rest. raw = w @ rest) \<and> (\<forall>u. r = Inr u \<longrightarrow> w = raw)"
proof (induction v name d i raw arbitrary: r j w rule: write_all.induct)
  case (1 v name d i raw)
  show ?case
  proof (cases "raw = [] \<or> timed_out v d i \<or> sv_count v i = 0")
    case True
    with "1.prems" show ?thesis by (auto simp: write_all.simps [of v name d i raw] split: if_splits)
  next
    case False
    obtain r' j' w' where rec: "write_all v name d (Suc i) (drop (sv_count v i) raw) = (r', j', w')" by (metis prod_cases3)
    with "1.prems" False have e: "r = r'" "w = take (sv_count v i) raw @ w'" by (auto simp: write_all.simps [of v name d i raw])
    from "1.IH" [OF _ _ _ rec] False obtain rest where "drop (sv_count v i) raw = w' @ rest" "\<forall>u. r' = Inr u \<longrightarrow> w' = drop (sv_count v i) raw"
      by auto
    then show ?thesis using e by (metis append.assoc append_take_drop_id)
  qed
qed

lemma write_all_error: "write_all v name d i raw = (Inl x, j, w) \<Longrightarrow> is_LinkError x"
proof (induction v name d i raw arbitrary: x j w rule: write_all.induct)
  case (1 v name d i raw)
  then show ?case by (subst (asm) (2) write_all.simps) (auto split: if_splits prod.splits)
qed

lemma read_until_error: "read_until v name d limit i buf = (Inl x, j, b) \<Longrightarrow> is_LinkError x"
proof (induction v name d limit i buf arbitrary: x j b rule: read_until.induct)
  case (1 v name d limit i buf)
  then show ?case by (subst (asm) (2) read_until.simps) (auto simp: Let_def split: if_splits)
qed

lemma read_until_bounded: "length buf \<le> limit \<Longrightarrow> read_until v name d limit i buf = (Inr u, j, b) \<Longrightarrow> newline \<in> set b \<and> length b \<le> limit"
proof (induction v name d limit i buf arbitrary: j b rule: read_until.induct)
  case (1 v name d limit i buf)
  let ?data = "take limit (sv_data v i)"
  show ?case
  proof (cases "newline \<in> set buf")
    case True
    with "1.prems" show ?thesis by (simp add: read_until.simps [of v name d limit i buf])
  next
    case False
    with "1.prems"(2) have "\<not> timed_out v d i" "?data \<noteq> []" "length (buf @ ?data) \<le> limit"
        "read_until v name d limit (Suc i) (buf @ ?data) = (Inr u, j, b)"
      by (simp_all add: read_until.simps [of v name d limit i buf] Let_def split: if_splits)
    with False show ?thesis using "1.IH" [OF False _ refl] by (meson linorder_not_less)
  qed
qed

section \<open>Exchanges of the bench link\<close>

definition next_seq :: "string \<Rightarrow> link \<Rightarrow> int" where
  "next_seq op l = (if op = ''HELLO'' then 0 else lk_seq l + 1)"

definition next_token :: "string \<Rightarrow> link \<Rightarrow> int" where
  "next_token op l = (if op = ''HELLO'' then 0 else lk_challenge l)"

lemma h1_reply_error: "h1_reply op session seq expected line rest = Inl x \<Longrightarrow> is_LinkError x"
  by (auto simp: h1_reply_def Let_def split: if_splits option.splits)

lemma h1_reply_ok:
  "h1_reply op session seq expected line rest = Inr st \<Longrightarrow>
   rest = [] \<and> st \<in> {''ON'', ''ARMED'', ''LOCKED''} \<and> (\<forall>s. required_state op = Some s \<longrightarrow> st = s) \<and>
   (\<exists>last. line = join_with (CHR '' '') [''H1'', ''OK'', session, show_int seq, show_int expected, st, last])"
proof -
  assume a: "h1_reply op session seq expected line rest = Inr st"
  let ?fs = "split_on (CHR '' '') line"
  from a have f: "length ?fs = 7" "take 3 ?fs = [''H1'', ''OK'', session]" "?fs ! 3 = show_int seq" "?fs ! 4 = show_int expected"
    "?fs ! 5 = st" "st \<in> {''ON'', ''ARMED'', ''LOCKED''}" "rest = []" "\<forall>s. required_state op = Some s \<longrightarrow> st = s"
    by (auto simp: h1_reply_def Let_def split: if_splits option.splits)
  obtain x0 x1 x2 x3 x4 x5 x6 where x: "?fs = [x0, x1, x2, x3, x4, x5, x6]"
    using f(1) by (auto simp: length_Suc_conv numeral_eq_Suc)
  then have "?fs = [''H1'', ''OK'', session, show_int seq, show_int expected, st, x6]" using f(2-5) by (simp add: numeral_eq_Suc)
  then have "line = join_with (CHR '' '') [''H1'', ''OK'', session, show_int seq, show_int expected, st, x6]"
    by (metis join_split)
  with f show ?thesis by blast
qed

text \<open>
  One exchange: exactly one command line, or a part of it, leaves; the numbers move only when the
  device echoed them in a complete line with the state the command requires.
\<close>

definition exchanged :: "string \<Rightarrow> link \<Rightarrow> string res \<Rightarrow> link \<Rightarrow> bool" where
  "exchanged op l r l' \<longleftrightarrow> lk_session l' = lk_session l \<and>
     (\<exists>w rest. lk_sent l' = lk_sent l @ [w] \<and> h1_line op (lk_session l) (next_seq op l) (next_token op l) = w @ rest \<and>
       (case r of
          Inl x \<Rightarrow> is_LinkError x \<and> lk_seq l' = lk_seq l \<and> lk_challenge l' = lk_challenge l
        | Inr st \<Rightarrow> rest = [] \<and> lk_seq l' = next_seq op l \<and> lk_challenge l' = next_token op l + 1 \<and> lk_buffer l' = [] \<and>
            st \<in> {''ON'', ''ARMED'', ''LOCKED''} \<and> (\<forall>s. required_state op = Some s \<longrightarrow> st = s)))"

lemma exchange_op_eq:
  "exchange_op v op timeout l =
     (case lk_write v (sv_now v (lk_turn l) + timeout) (h1_line op (lk_session l) (next_seq op l) (next_token op l)) (l\<lparr>lk_turn := Suc (lk_turn l)\<rparr>) of
        (Inl x, l1) \<Rightarrow> (Inl x, l1)
      | (Inr _, l1) \<Rightarrow> (case lk_read v (sv_now v (lk_turn l) + timeout) l1 of
          (Inl x, l2) \<Rightarrow> (Inl x, l2)
        | (Inr (line, rest), l2) \<Rightarrow> (case h1_reply op (lk_session l) (next_seq op l) (next_token op l + 1) line rest of
            Inl x \<Rightarrow> (Inl x, l2)
          | Inr st \<Rightarrow> (Inr st, l2\<lparr>lk_seq := next_seq op l, lk_challenge := next_token op l + 1\<rparr>))))"
  by (simp add: exchange_op_def next_seq_def next_token_def Let_def mbind_def mget_def mthen_def mput_def mlift_def mret_def
      split: prod.splits sum.splits)

lemma exchange_op_run: "exchange_op v op timeout l = (r, l') \<Longrightarrow> exchanged op l r l'"
proof -
  assume a: "exchange_op v op timeout l = (r, l')"
  let ?d = "sv_now v (lk_turn l) + timeout" and ?raw = "h1_line op (lk_session l) (next_seq op l) (next_token op l)"
  obtain rw i w where w: "write_all v ''USB'' ?d (Suc (lk_turn l)) ?raw = (rw, i, w)" by (metis prod_cases3)
  obtain rest where rest: "?raw = w @ rest" "\<forall>u. rw = Inr u \<longrightarrow> rest = []" using write_all_sent [OF w] by auto
  define l1 where "l1 = l\<lparr>lk_turn := i, lk_sent := lk_sent l @ [w]\<rparr>"
  have lw: "lk_write v ?d ?raw (l\<lparr>lk_turn := Suc (lk_turn l)\<rparr>) = (rw, l1)" using w by (simp add: lk_write_def l1_def)
  show ?thesis
  proof (cases rw)
    case (Inl x)
    with a lw have "r = Inl x" "l' = l1" by (auto simp: exchange_op_eq)
    with Inl rest write_all_error [of v "''USB''" ?d "Suc (lk_turn l)" ?raw x i w] w show ?thesis
      by (auto simp: exchanged_def l1_def)
  next
    case (Inr u)
    obtain rr j b where rd: "read_until v ''USB'' ?d 128 i (lk_buffer l) = (rr, j, b)" by (metis prod_cases3)
    show ?thesis
    proof (cases rr)
      case (Inl x)
      with a lw Inr rd have "r = Inl x" "l' = l1\<lparr>lk_turn := j, lk_buffer := b\<rparr>" by (auto simp: exchange_op_eq lk_read_def l1_def)
      with Inl rest read_until_error [of v "''USB''" ?d 128 i "lk_buffer l" x j b] rd show ?thesis
        by (auto simp: exchanged_def l1_def)
    next
      case rdok: (Inr u')
      let ?rep = "h1_reply op (lk_session l) (next_seq op l) (next_token op l + 1) (line_of b) (rest_of b)"
      show ?thesis
      proof (cases ?rep)
        case (Inl x)
        with a lw Inr rd rdok have "r = Inl x" "l' = l1\<lparr>lk_turn := j, lk_buffer := rest_of b\<rparr>"
          by (auto simp: exchange_op_eq lk_read_def l1_def)
        with Inl rest h1_reply_error [OF Inl] show ?thesis by (auto simp: exchanged_def l1_def)
      next
        case ok: (Inr st)
        with a lw Inr rd rdok have "r = Inr st"
          "l' = l1\<lparr>lk_turn := j, lk_buffer := rest_of b, lk_seq := next_seq op l, lk_challenge := next_token op l + 1\<rparr>"
          by (auto simp: exchange_op_eq lk_read_def l1_def)
        with rest Inr h1_reply_ok [OF ok] show ?thesis by (auto simp: exchanged_def l1_def)
      qed
    qed
  qed
qed

lemma link_stop_run: "link_stop v l = (r, l') \<Longrightarrow> r = Inr () \<and> (\<exists>q. exchanged ''STOP'' l q l')"
proof -
  assume a: "link_stop v l = (r, l')"
  obtain q m where e: "exchange_op v ''STOP'' (1 / 20) l = (q, m)" by (cases "exchange_op v ''STOP'' (1 / 20) l")
  note x = exchange_op_run [OF e]
  have "r = Inr () \<and> l' = m"
  proof (cases q)
    case (Inl y)
    with a e x show ?thesis by (auto simp: link_stop_def mcatch_def mthen_def mbind_def mret_def exchanged_def)
  next
    case (Inr y)
    with a e show ?thesis by (auto simp: link_stop_def mcatch_def mthen_def mbind_def mret_def)
  qed
  with x show ?thesis by blast
qed

section \<open>Replies of the H2 controller\<close>

lemma py_int_error: "py_int s = Inl x \<Longrightarrow> is_ValueError x"
  by (auto simp: py_int_def Let_def split: if_splits option.splits list.splits)

lemma rmap_error: "rmap f xs = Inl x \<Longrightarrow> \<exists>y\<in>set xs. f y = Inl x"
  by (induction xs) (auto simp: rbind_Inl_iff)

lemma h2_reply_error: "h2_reply install line rest = Inl x \<Longrightarrow> is_LinkError x \<or> is_ValueError x"
  by (auto simp: h2_reply_def Let_def rbind_Inl_iff split: if_splits dest!: rmap_error py_int_error context_of_ValueError)

lemma h2_reply_ok:
  assumes "h2_reply install line rest = Inr (st, c)"
  shows "rest = [] \<and> st \<in> {''LOCKED'', ''BOUND'', ''ARMED'', ''ON''} \<and> request_ok c \<and> h_install c = install \<and> h_op c = ''RUN''"
proof -
  from assms obtain ns nonce where
    "context_of (PDict [(''epoch'', PInt (ns ! 0)), (''generation'', PInt (ns ! 1)), (''sequence'', PInt (ns ! 2)),
         (''challenge'', PInt (ns ! 3)), (''issued'', PInt (ns ! 4)), (''install'', PStr install), (''nonce'', PStr nonce),
         (''op'', PStr ''RUN'')]) = Inr c" "rest = []" "st \<in> {''LOCKED'', ''BOUND'', ''ARMED'', ''ON''}"
    by (auto simp: h2_reply_def Let_def rbind_Inr_iff split: if_splits)
  then show ?thesis using context_of_fields [of _ c] context_of_ok [of _ c] by fastforce
qed

text \<open>The controller's status line for a context, as the relay expects it.\<close>

definition h2_ok_line :: "h2_request \<Rightarrow> string \<Rightarrow> string \<Rightarrow> string" where
  "h2_ok_line r state extra = join_with (CHR '' '') [''H2'', ''OK'', h_install r, show_int (h_epoch r), show_int (h_generation r),
     show_int (h_sequence r), show_int (h_challenge r), show_int (h_issued r), h_nonce r, state, extra]"

lemma digit_zero: "digit 0 = CHR ''0''"
  using of_char_eq_iff [of "digit 0" "CHR ''0''", where 'a = nat] by (simp add: digit_def)

lemma show_nat_head: "0 < n \<Longrightarrow> hd (show_nat n) \<noteq> CHR ''0''"
proof (induction n rule: show_nat.induct)
  case (1 n)
  have "digit_val (CHR ''0'') = 0" by (simp add: digit_val_def)
  with 1 show ?case using digit_ok [of n] by (cases "n < 10") (auto simp: show_nat.simps [of n])
qed

lemma length_show_nat: "n < 10 ^ k \<Longrightarrow> 0 < k \<Longrightarrow> length (show_nat n) \<le> k"
proof (induction n arbitrary: k rule: show_nat.induct)
  case (1 n)
  show ?case
  proof (cases "n < 10")
    case True
    with "1.prems" show ?thesis by (simp add: show_nat.simps [of n])
  next
    case False
    then obtain m where m: "k = Suc m" "0 < m" using "1.prems" by (cases k; cases "k - 1") auto
    then have "n div 10 < 10 ^ m" using "1.prems"(1) by (simp add: less_mult_imp_div_less mult.commute)
    with "1.IH" [OF False, of m] m False show ?thesis by (simp add: show_nat.simps [of n])
  qed
qed

lemma is_counter_show: "u32 n \<Longrightarrow> is_counter (show_int n)"
proof -
  assume u: "u32 n"
  then have s: "show_int n = show_nat (nat n)" by (simp add: u32_def show_int_def)
  show ?thesis
  proof (cases "n = 0")
    case True
    then show ?thesis by (simp add: is_counter_def show_int_def show_nat.simps [of 0] digit_zero)
  next
    case False
    then have "hd (show_nat (nat n)) \<noteq> CHR ''0''" using u by (intro show_nat_head) (simp add: u32_def)
    moreover have "length (show_nat (nat n)) \<le> 10" by (rule length_show_nat) (use u in \<open>auto simp: u32_def nat_less_iff\<close>)
    ultimately show ?thesis using show_nat_digits [of "nat n"] by (auto simp: s is_counter_def list_all_iff)
  qed
qed

lemma ascii_chars: "is_digit c \<Longrightarrow> (of_char c :: nat) < 128" "is_hexdig c \<Longrightarrow> (of_char c :: nat) < 128"
  by (auto simp: is_digit_def is_hexdig_def)

lemma isascii_append [simp]: "isascii (a @ b) \<longleftrightarrow> isascii a \<and> isascii b"
  by (simp add: isascii_def)

lemma isascii_show: "isascii (show_int n)"
proof -
  have "(of_char c :: nat) < 128" if "c \<in> set (show_int n)" for c
    using show_int_chars [OF that] ascii_chars(1) [of c] by auto
  then show ?thesis by (simp add: isascii_def list_all_iff)
qed

lemma isascii_hex: "is_hex k s \<Longrightarrow> isascii s"
  using ascii_chars(2) by (auto simp: is_hex_def isascii_def list_all_iff)

lemma no_space_show: "CHR '' '' \<notin> set (show_int n)"
  using show_int_chars [of "CHR '' ''" n] by (auto simp: is_digit_def)

lemma no_space_hex: "is_hex k s \<Longrightarrow> CHR '' '' \<notin> set s"
  by (auto simp: is_hex_def list_all_iff is_hexdig_def)

text \<open>A printed status line is read back as exactly the context it was printed from.\<close>

lemma h2_reply_ok_line:
  assumes r: "request_ok r" "h_op r = ''RUN''" and st: "state \<in> {''LOCKED'', ''BOUND'', ''ARMED'', ''ON''}"
    and x: "isascii extra" "CHR '' '' \<notin> set extra"
  shows "h2_reply (h_install r) (h2_ok_line r state extra) [] = Inr (state, r)"
proof -
  let ?ws = "[''H2'', ''OK'', h_install r, show_int (h_epoch r), show_int (h_generation r),
     show_int (h_sequence r), show_int (h_challenge r), show_int (h_issued r), h_nonce r, state, extra]"
  have hex: "is_hex 32 (h_install r)" "is_hex 32 (h_nonce r)" using r(1) by (auto simp: request_ok_def)
  have sp: "CHR '' '' \<notin> set state" "isascii state" using st by (auto simp: isascii_def)
  have split: "split_on (CHR '' '') (h2_ok_line r state extra) = ?ws"
    unfolding h2_ok_line_def using no_space_hex [OF hex(1)] no_space_hex [OF hex(2)] no_space_show sp(1) x(2) by (intro split_join) auto
  have "isascii (CHR '' '' # s) = isascii s" for s by (simp add: isascii_def)
  then have asc: "isascii (h2_ok_line r state extra)"
    using isascii_hex [OF hex(1)] isascii_hex [OF hex(2)] isascii_show sp(2) x(1) by (simp add: h2_ok_line_def) (simp add: isascii_def)
  have c: "list_all is_counter [show_int (h_epoch r), show_int (h_generation r), show_int (h_sequence r), show_int (h_challenge r), show_int (h_issued r)]"
    using r(1) is_counter_show by (simp add: request_ok_def)
  have ctx: "context_of (PDict [(''epoch'', PInt (h_epoch r)), (''generation'', PInt (h_generation r)), (''sequence'', PInt (h_sequence r)),
         (''challenge'', PInt (h_challenge r)), (''issued'', PInt (h_issued r)), (''install'', PStr (h_install r)), (''nonce'', PStr (h_nonce r)),
         (''op'', PStr ''RUN'')]) = Inr r"
  proof -
    have "fst ` set [(''epoch'', PInt (h_epoch r)), (''generation'', PInt (h_generation r)), (''sequence'', PInt (h_sequence r)),
         (''challenge'', PInt (h_challenge r)), (''issued'', PInt (h_issued r)), (''install'', PStr (h_install r)), (''nonce'', PStr (h_nonce r)),
         (''op'', PStr ''RUN'')] = set H2_FIELDS" by (auto simp: H2_FIELDS_def)
    with r show ?thesis by (auto simp: context_of_def hex_field_def counter_field_def request_ok_def u32_def)
  qed
  show ?thesis
    using asc c hex(2) st ctx by (simp add: h2_reply_def split Let_def numeral_eq_Suc py_int_show_int)
qed

end
