(* ===== verification/Permit_Relay.thy ===== *)
theory Permit_Relay
  imports Serial_Link
begin

text \<open>
  The untrusted relay between the authorizer's socket and the controller's USB port
  (\<^verbatim>\<open>tools/permit_link.py\<close>, function \<^verbatim>\<open>relay\<close>): it holds no key, asks the authorizer for one permit per
  controller challenge, forwards it in the controller's frame and stops the controller in the end.
\<close>

section \<open>The loop\<close>

text \<open>
  Per round: when it started (nanoseconds), the clock around the send, the receive's events and
  the readings of the clock after the answer and after the acknowledgment.
\<close>

record relay_round =
  rr_started :: int
  rr_send :: "(int \<times> int) res"
  rr_recv :: "recv_event list"
  rr_answered :: int
  rr_acked :: int

record relay_env =
  rv_serial :: serial_env
  rv_dumps :: "pyval \<Rightarrow> string res"
  rv_loads :: "string \<Rightarrow> pyval res"
  rv_round :: "nat \<Rightarrow> relay_round"

record relay_state =
  rs_link :: permit_link
  rs_round :: nat
  rs_answers :: "(h2_request \<times> pyval) list"

definition on_plink :: "(permit_link, 'a) meth \<Rightarrow> (relay_state, 'a) meth" where
  "on_plink m s = (case m (rs_link s) of (r, l) \<Rightarrow> (r, s\<lparr>rs_link := l\<rparr>))"

definition round_budget :: "string \<Rightarrow> int" where
  "round_budget op = (if op = ''BIND'' then 500000000 else 50000000)"

text \<open>The lockstep with the authorizer: one request line, one answer, both before the deadline.\<close>

definition ask :: "relay_env \<Rightarrow> relay_round \<Rightarrow> h2_request \<Rightarrow> pyval res" where
  "ask e rd r =
     (let deadline = rr_started rd + round_budget (h_op r) in
      rbind (rv_dumps e (h2_val r)) (\<lambda>text.
      rbind (rr_send rd) (\<lambda>(t0, t1).
      rbind (send_line deadline t0 t1 (text @ [newline])) (\<lambda>_.
      rbind (receive_line deadline [] (rr_recv rd)) (\<lambda>raw. rv_loads e raw)))))"

text \<open>\<^verbatim>\<open>permit["remaining_ms"] / 1000\<close>, in seconds: a non-finite number has no exact value.\<close>

definition remaining_of :: "pyval \<Rightarrow> pynum res" where
  "remaining_of permit = rbind (dix permit ''remaining_ms'') (\<lambda>v.
     (case num_of v of None \<Rightarrow> Inl TypeError | Some (NFin q) \<Rightarrow> Inr (NFin (q / 1000)) | Some x \<Rightarrow> Inr x))"

text \<open>\<^verbatim>\<open>min(a, b)\<close> keeps \<open>a\<close> unless \<open>b < a\<close>; a minus infinity gives no time at all.\<close>

definition time_left :: "rat \<Rightarrow> pynum \<Rightarrow> rat" where
  "time_left a b = (case b of NFin q \<Rightarrow> if q < a then q else a | NInf True \<Rightarrow> min a 0 | _ \<Rightarrow> a)"

definition next_op :: "string \<Rightarrow> string" where
  "next_op op = (if op = ''BIND'' then ''ARM'' else ''RUN'')"

text \<open>One round for the request \<open>r\<close>: \<open>True\<close> when the session ended with the authorizer's refusal.\<close>

definition relay_request :: "relay_env \<Rightarrow> relay_round \<Rightarrow> h2_request \<Rightarrow> (relay_state, bool) meth" where
  "relay_request e rd r =
     mbind (mlift (ask e rd r)) (\<lambda>permit.
     mthen (mput (\<lambda>s. s\<lparr>rs_answers := rs_answers s @ [(r, permit)]\<rparr>))
     (mbind (mlift (dget permit ''kind'')) (\<lambda>kind.
      if kind \<noteq> PStr ''permit'' then mthen (on_plink (query (rv_serial e) ''STOP'')) (mret True)
      else mbind (mlift (remaining_of permit)) (\<lambda>rem.
      let budget = of_int (round_budget (h_op r)) / 1000000000;
          left = time_left (budget - of_int (rr_answered rd - rr_started rd) / 1000000000) rem in
      if left \<le> 0 then mraise (LinkError ''authorizer permit arrived late'')
      else mthen (on_plink (execute (rv_serial e) r permit left))
           (if rr_acked rd - rr_started rd \<ge> round_budget (h_op r) then mraise (LinkError ''late controller acknowledgment'')
            else mret False)))))"

definition relay_turn :: "relay_env \<Rightarrow> string \<Rightarrow> (relay_state, bool) meth" where
  "relay_turn e op =
     mthen (if op = ''RUN''
            then mbind (on_plink (query (rv_serial e) ''STATUS'')) (\<lambda>st.
                 if st \<notin> {''ARMED'', ''ON''} then mraise (LinkError ''controller locked; explicit operator restart required'') else mret ())
            else mret ())
     (mbind (on_plink need_current) (\<lambda>cur.
      mbind (mget rs_round) (\<lambda>i.
      mthen (mput (\<lambda>s. s\<lparr>rs_round := Suc (rs_round s)\<rparr>)) (relay_request e (rv_round e i) (cur\<lparr>h_op := op\<rparr>)))))"

text \<open>The \<^verbatim>\<open>while True\<close> loop; \<open>None\<close> is a session still running after \<open>n\<close> turns.\<close>

fun relay_loop :: "relay_env \<Rightarrow> nat \<Rightarrow> string \<Rightarrow> (relay_state, unit option) meth" where
  "relay_loop e 0 op = mret None"
| "relay_loop e (Suc n) op = mbind (relay_turn e op) (\<lambda>fin. if fin then mret (Some ()) else relay_loop e n (next_op op))"

definition relay_init :: "string \<Rightarrow> relay_state" where
  "relay_init install = \<lparr>rs_link = pl_init install, rs_round = 0, rs_answers = []\<rparr>"

text \<open>\<^verbatim>\<open>relay\<close> on an open port; \<open>connect\<close> is what connecting to the authorizer did.\<close>

definition relay :: "relay_env \<Rightarrow> string \<Rightarrow> unit res \<Rightarrow> nat \<Rightarrow> unit option res \<times> relay_state" where
  "relay e install connect n =
     (case mthen (mlift connect) (mthen (on_plink (query (rv_serial e) ''HELLO'')) (relay_loop e n ''BIND'')) (relay_init install) of
        (Inr None, s) \<Rightarrow> (Inr None, s)
      | (r, s) \<Rightarrow> (case on_plink (permit_stop (rv_serial e)) s of (Inl x, s') \<Rightarrow> (Inl x, s') | (Inr _, s') \<Rightarrow> (r, s')))"

section \<open>What leaves on the wire\<close>

text \<open>One call of \<open>wire\<close> sends the line it was given, or a part of it.\<close>

lemma wire_run:
  assumes "wire v raw timeout l = (r, l')"
  shows "(\<exists>w rest. pl_sent l' = pl_sent l @ [w] \<and> raw = w @ rest) \<and> pl_install l' = pl_install l \<and>
    (case r of Inl x \<Rightarrow> pl_current l' = pl_current l \<and> (is_LinkError x \<or> is_ValueError x)
     | Inr st \<Rightarrow> st \<in> {''LOCKED'', ''BOUND'', ''ARMED'', ''ON''} \<and>
        (\<exists>c. pl_current l' = Some c \<and> request_ok c \<and> h_install c = pl_install l \<and> h_op c = ''RUN''))"
proof -
  let ?d = "sv_now v (pl_turn l) + timeout"
  obtain rw i w where w: "write_all v ''H2 USB'' ?d (Suc (pl_turn l)) raw = (rw, i, w)" by (metis prod_cases3)
  obtain rest where rest: "raw = w @ rest" using write_all_sent [OF w] by auto
  obtain rr j b where rd: "read_until v ''H2 USB'' ?d 160 i [] = (rr, j, b)" by (metis prod_cases3)
  show ?thesis
  proof (cases rw)
    case (Inl x)
    with assms w rest write_all_error show ?thesis by (fastforce simp: wire_def Let_def)
  next
    case (Inr u)
    show ?thesis
    proof (cases rr)
      case (Inl x)
      with assms w Inr rd rest read_until_error show ?thesis by (fastforce simp: wire_def Let_def)
    next
      case ok: (Inr u')
      let ?rep = "h2_reply (pl_install l) (line_of b) (rest_of b)"
      show ?thesis
      proof (cases ?rep)
        case (Inl x)
        have "is_LinkError x \<or> is_ValueError x" using h2_reply_error [OF Inl] .
        with assms w Inr rd ok Inl rest show ?thesis by (auto simp: wire_def Let_def)
      next
        case rep: (Inr p)
        obtain st c where p: "p = (st, c)" by (cases p)
        with assms w Inr rd ok rep have "r = Inr st" "pl_sent l' = pl_sent l @ [w]" "pl_install l' = pl_install l" "pl_current l' = Some c"
          by (auto simp: wire_def Let_def)
        with rest h2_reply_ok [OF rep [unfolded p]] show ?thesis by auto
      qed
    qed
  qed
qed

text \<open>The unsigned commands.\<close>

definition query_line :: "string \<Rightarrow> string" where
  "query_line op = ''H2 '' @ op @ [newline]"

definition same_context :: "h2_request \<Rightarrow> h2_request \<Rightarrow> bool" where
  "same_context p c \<longleftrightarrow> h_epoch c = h_epoch p \<and> h_generation c = h_generation p \<and> h_sequence c = h_sequence p"

lemma query_run:
  assumes "query v op l = (r, l')" and "op \<in> {''HELLO'', ''STATUS'', ''STOP''}"
  shows "(\<exists>w rest. pl_sent l' = pl_sent l @ [w] \<and> query_line op = w @ rest) \<and>
    (case r of Inl x \<Rightarrow> is_RuntimeError x \<or> is_ValueError x
     | Inr st \<Rightarrow> (\<exists>c. pl_current l' = Some c \<and> (op = ''HELLO'' \<longrightarrow> h_sequence c = 0) \<and>
          (op \<noteq> ''HELLO'' \<longrightarrow> (\<forall>p. pl_current l = Some p \<longrightarrow> same_context p c))) \<and> (op \<in> {''HELLO'', ''STOP''} \<longrightarrow> st = ''LOCKED''))"
proof -
  obtain rw l1 where w: "wire v (query_line op) (1 / 20) l = (rw, l1)" by (cases "wire v (query_line op) (1 / 20) l")
  note run = wire_run [OF w]
  have err: "is_LinkError x \<Longrightarrow> is_RuntimeError x" for x by (cases x) auto
  show ?thesis
  proof (cases rw)
    case (Inl x)
    with assms w have "r = Inl x" "l' = l1" by (auto simp: query_def mbind_def mget_def query_line_def)
    with run Inl err show ?thesis by auto
  next
    case (Inr st)
    with run obtain c where c: "pl_current l1 = Some c" by auto
    have e: "query v op l =
      (if op = ''HELLO'' \<and> (st \<noteq> ''LOCKED'' \<or> h_sequence c \<noteq> 0) then (Inl (LinkError ''HELLO did not lock/reset sequence''), l1)
       else if op = ''STOP'' \<and> st \<noteq> ''LOCKED'' then (Inl (LinkError ''STOP did not lock controller''), l1)
       else (case pl_current l of None \<Rightarrow> (Inr st, l1)
             | Some p \<Rightarrow> if op \<noteq> ''HELLO'' \<and> \<not> same_context p c then (Inl (LinkError ''controller context changed''), l1) else (Inr st, l1)))"
      using assms(2) w Inr c
      by (cases "pl_current l") (auto simp: query_def mbind_def mget_def query_line_def need_current_def mret_def mraise_def same_context_def)
    show ?thesis
      using assms(1) run c unfolding e by (auto split: if_splits option.splits)
  qed
qed

lemma permit_stop_run:
  assumes "permit_stop v l = (r, l')"
  shows "r = Inr () \<and> (\<exists>w rest. pl_sent l' = pl_sent l @ [w] \<and> query_line ''STOP'' = w @ rest)"
proof -
  obtain q m where q: "query v ''STOP'' l = (q, m)" by (cases "query v ''STOP'' l")
  note run = query_run [OF q]
  have "r = Inr () \<and> l' = m"
    using assms q run by (cases q) (auto simp: permit_stop_def mcatch_def mthen_def mbind_def mret_def)
  with run show ?thesis by auto
qed

text \<open>
  A line the port did not take in full: the write that began at turn \<open>i\<close> with a deadline of 50 ms put
  out exactly what \<open>n\<close> turns of \<^verbatim>\<open>os.write\<close> took, each before the deadline, and gave up at the next
  turn, the last one made, where the deadline had passed, the port was not ready or took no byte.
\<close>

definition cut_off :: "serial_env \<Rightarrow> string \<Rightarrow> string \<Rightarrow> nat \<Rightarrow> bool" where
  "cut_off v raw w turn \<longleftrightarrow> (\<exists>i n. let deadline = sv_now v i + 1 / 20 in
     turn = i + n + 2 \<and> w = take (\<Sum>k<n. sv_count v (Suc i + k)) raw \<and> length w < length raw \<and>
     (\<forall>k<n. 0 < sv_count v (Suc i + k) \<and> \<not> timed_out v deadline (Suc i + k)) \<and>
     (timed_out v deadline (Suc i + n) \<or> sv_count v (Suc i + n) = 0))"

lemma write_all_cut:
  "write_all v name d i raw = (r, j, w) \<Longrightarrow> w = raw \<and> r = Inr () \<or>
   (\<exists>n x. r = Inl x \<and> j = i + n + 1 \<and> w = take (\<Sum>k<n. sv_count v (i + k)) raw \<and> length w < length raw \<and>
      (\<forall>k<n. 0 < sv_count v (i + k) \<and> \<not> timed_out v d (i + k)) \<and> (timed_out v d (i + n) \<or> sv_count v (i + n) = 0))"
proof (induction v name d i raw arbitrary: r j w rule: write_all.induct)
  case (1 v name d i raw)
  show ?case
  proof (cases "raw = [] \<or> timed_out v d i \<or> sv_count v i = 0")
    case True
    with "1.prems" show ?thesis
      by (auto simp: write_all.simps [of v name d i raw] intro!: exI [of _ "0::nat"] split: if_splits)
  next
    case False
    obtain r' j' w' where rec: "write_all v name d (Suc i) (drop (sv_count v i) raw) = (r', j', w')" by (metis prod_cases3)
    with "1.prems" False have e: "r = r'" "j = j'" "w = take (sv_count v i) raw @ w'"
      by (auto simp: write_all.simps [of v name d i raw])
    from "1.IH" [OF _ _ _ rec] False have "w' = drop (sv_count v i) raw \<and> r' = Inr () \<or>
      (\<exists>n x. r' = Inl x \<and> j' = Suc i + n + 1 \<and> w' = take (\<Sum>k<n. sv_count v (Suc i + k)) (drop (sv_count v i) raw) \<and>
        length w' < length (drop (sv_count v i) raw) \<and>
        (\<forall>k<n. 0 < sv_count v (Suc i + k) \<and> \<not> timed_out v d (Suc i + k)) \<and> (timed_out v d (Suc i + n) \<or> sv_count v (Suc i + n) = 0))"
      by blast
    then show ?thesis
    proof
      assume "w' = drop (sv_count v i) raw \<and> r' = Inr ()"
      with e show ?thesis by simp
    next
      assume "\<exists>n x. r' = Inl x \<and> j' = Suc i + n + 1 \<and> w' = take (\<Sum>k<n. sv_count v (Suc i + k)) (drop (sv_count v i) raw) \<and>
        length w' < length (drop (sv_count v i) raw) \<and>
        (\<forall>k<n. 0 < sv_count v (Suc i + k) \<and> \<not> timed_out v d (Suc i + k)) \<and> (timed_out v d (Suc i + n) \<or> sv_count v (Suc i + n) = 0)"
      then obtain n x where n: "r' = Inl x" "j' = Suc i + n + 1" "w' = take (\<Sum>k<n. sv_count v (Suc i + k)) (drop (sv_count v i) raw)"
        "length w' < length (drop (sv_count v i) raw)" "\<forall>k<n. 0 < sv_count v (Suc i + k) \<and> \<not> timed_out v d (Suc i + k)"
        "timed_out v d (Suc i + n) \<or> sv_count v (Suc i + n) = 0" by blast
      have "(\<Sum>k<Suc n. sv_count v (i + k)) = sv_count v i + (\<Sum>k<n. sv_count v (Suc i + k))"
        by (simp only: sum.lessThan_Suc_shift) simp
      then have "w = take (\<Sum>k<Suc n. sv_count v (i + k)) raw" using e(3) n(3) by (simp add: take_add)
      moreover have "length w < length raw" using e(3) n(4) by simp
      moreover have "\<forall>k<Suc n. 0 < sv_count v (i + k) \<and> \<not> timed_out v d (i + k)"
        using False n(5) by (auto simp: less_Suc_eq_0_disj)
      ultimately show ?thesis using e(1,2) n(1,2,6) by (intro disjI2 exI [of _ "Suc n"] exI [of _ x]) simp
    qed
  qed
qed

lemma query_sends:
  assumes "query v op l = (r, l')" and "op \<in> {''HELLO'', ''STATUS'', ''STOP''}"
  shows "\<exists>w. pl_sent l' = pl_sent l @ [w] \<and> (w = query_line op \<or> cut_off v (query_line op) w (pl_turn l'))"
proof -
  obtain rw l1 where w: "wire v (query_line op) (1 / 20) l = (rw, l1)" by (cases "wire v (query_line op) (1 / 20) l")
  have "l' = l1" using assms w by (auto simp: query_def mbind_def mget_def query_line_def need_current_def mret_def mraise_def
      split: sum.splits option.splits if_splits)
  let ?d = "sv_now v (pl_turn l) + 1 / 20"
  obtain r1 i sent where wa: "write_all v ''H2 USB'' ?d (Suc (pl_turn l)) (query_line op) = (r1, i, sent)" by (metis prod_cases3)
  have s: "pl_sent l1 = pl_sent l @ [sent] \<and> (\<forall>x. r1 = Inl x \<longrightarrow> pl_turn l1 = i)"
    using w wa by (auto simp: wire_def Let_def split: sum.splits prod.splits)
  from write_all_cut [OF wa] show ?thesis
  proof
    assume "sent = query_line op \<and> r1 = Inr ()"
    with s \<open>l' = l1\<close> show ?thesis by auto
  next
    assume "\<exists>n x. r1 = Inl x \<and> i = Suc (pl_turn l) + n + 1 \<and> sent = take (\<Sum>k<n. sv_count v (Suc (pl_turn l) + k)) (query_line op) \<and>
      length sent < length (query_line op) \<and> (\<forall>k<n. 0 < sv_count v (Suc (pl_turn l) + k) \<and> \<not> timed_out v ?d (Suc (pl_turn l) + k)) \<and>
      (timed_out v ?d (Suc (pl_turn l) + n) \<or> sv_count v (Suc (pl_turn l) + n) = 0)"
    then obtain n x where n: "r1 = Inl x" "i = Suc (pl_turn l) + n + 1" "sent = take (\<Sum>k<n. sv_count v (Suc (pl_turn l) + k)) (query_line op)"
      "length sent < length (query_line op)" "\<forall>k<n. 0 < sv_count v (Suc (pl_turn l) + k) \<and> \<not> timed_out v ?d (Suc (pl_turn l) + k)"
      "timed_out v ?d (Suc (pl_turn l) + n) \<or> sv_count v (Suc (pl_turn l) + n) = 0" by blast
    then have "cut_off v (query_line op) sent i"
      unfolding cut_off_def Let_def by (intro exI [of _ "pl_turn l"] exI [of _ n]) simp
    with s n(1) \<open>l' = l1\<close> show ?thesis by auto
  qed
qed

lemma stop_sends:
  assumes "permit_stop v l = (r, l')"
  shows "\<exists>w. pl_sent l' = pl_sent l @ [w] \<and> (w = query_line ''STOP'' \<or> cut_off v (query_line ''STOP'') w (pl_turn l'))"
proof -
  obtain q m where q: "query v ''STOP'' l = (q, m)" by (cases "query v ''STOP'' l")
  have "l' = m" using assms q
    by (auto simp: permit_stop_def mcatch_def mthen_def mbind_def mret_def mraise_def split: sum.splits if_splits)
  with query_sends [OF q] show ?thesis by simp
qed

text \<open>A forwarded permit: its own frame, and the controller's acknowledgment of exactly that permit.\<close>

definition acknowledged :: "h2_request \<Rightarrow> h2_request \<Rightarrow> bool" where
  "acknowledged r c \<longleftrightarrow> h_sequence c = h_sequence r + 1 \<and> h_challenge c = h_challenge r + 1 \<and> h_epoch c = h_epoch r \<and> h_generation c = h_generation r"

lemma execute_run:
  assumes "execute v r permit timeout l = (res, l')"
  shows "(pl_sent l' = pl_sent l \<and> (\<exists>x. res = Inl x)) \<or>
    (\<exists>raw w rest. check_permit r permit = Inr raw \<and> pl_sent l' = pl_sent l @ [w] \<and> raw = w @ rest \<and>
      (res = Inr () \<longrightarrow> (\<exists>c. pl_current l' = Some c \<and> acknowledged r c)))"
proof (cases "check_permit r permit")
  case (Inl x)
  with assms show ?thesis by (auto simp: execute_def mbind_def mlift_def)
next
  case (Inr raw)
  obtain rw l1 where w: "wire v raw timeout l = (rw, l1)" by (cases "wire v raw timeout l")
  note run = wire_run [OF w]
  show ?thesis
  proof (cases rw)
    case (Inl x)
    with assms Inr w run show ?thesis by (auto simp: execute_def mbind_def mlift_def)
  next
    case st: (Inr st)
    with run obtain c where c: "pl_current l1 = Some c" by auto
    have e: "execute v r permit timeout l =
      (if permit_state (h_op r) \<noteq> Some st then (Inl (LinkError ''incorrect authenticated controller state''), l1)
       else if \<not> acknowledged r c then (Inl (LinkError ''incorrect controller permit acknowledgment''), l1) else (Inr (), l1))"
      using Inr w st c by (auto simp: execute_def mbind_def mlift_def need_current_def mget_def mret_def mraise_def acknowledged_def)
    show ?thesis using assms run c Inr unfolding e by (auto split: if_splits)
  qed
qed

section \<open>The relay adds nothing of its own\<close>

text \<open>Every line is an unsigned query or the frame of an answer received for that very request.\<close>

definition carried :: "(h2_request \<times> pyval) list \<Rightarrow> string \<Rightarrow> bool" where
  "carried answers w \<longleftrightarrow> (\<exists>op\<in>{''HELLO'', ''STATUS'', ''STOP''}. \<exists>rest. query_line op = w @ rest) \<or>
     (\<exists>r permit raw rest. (r, permit) \<in> set answers \<and> check_permit r permit = Inr raw \<and> raw = w @ rest)"

definition relay_inv :: "relay_state \<Rightarrow> bool" where
  "relay_inv s \<longleftrightarrow> (\<forall>w\<in>set (pl_sent (rs_link s)). carried (rs_answers s) w)"

lemma carried_query: "op \<in> {''HELLO'', ''STATUS'', ''STOP''} \<Longrightarrow> query_line op = w @ rest \<Longrightarrow> carried as w"
  unfolding carried_def by blast

lemma carried_answer: "(r, permit) \<in> set as \<Longrightarrow> check_permit r permit = Inr (w @ rest) \<Longrightarrow> carried as w"
  unfolding carried_def by blast

lemma carried_mono: "carried as w \<Longrightarrow> carried (as @ bs) w"
  unfolding carried_def set_append Un_iff by blast

text \<open>The invariant after one more line.\<close>

lemma relay_inv_sent:
  "relay_inv s \<Longrightarrow> pl_sent l' = pl_sent (rs_link s) @ [w] \<Longrightarrow> carried (rs_answers s) w \<Longrightarrow> relay_inv (s\<lparr>rs_link := l'\<rparr>)"
  by (simp add: relay_inv_def)

lemma relay_inv_same: "relay_inv s \<Longrightarrow> pl_sent l' = pl_sent (rs_link s) \<Longrightarrow> relay_inv (s\<lparr>rs_link := l'\<rparr>)"
  by (simp add: relay_inv_def)

text \<open>The requests so far: BIND, ARM and RUN in this order, numbered from 0, for one controller session.\<close>

definition op_at :: "nat \<Rightarrow> string" where
  "op_at i = (if i = 0 then ''BIND'' else if i = 1 then ''ARM'' else ''RUN'')"

definition asked :: "int \<times> int \<Rightarrow> (h2_request \<times> pyval) list \<Rightarrow> bool" where
  "asked b as \<longleftrightarrow> (\<forall>i<length as. let r = fst (as ! i) in h_op r = op_at i \<and> h_sequence r = int i \<and> (h_epoch r, h_generation r) = b)"

definition at_head :: "int \<times> int \<Rightarrow> nat \<Rightarrow> relay_state \<Rightarrow> bool" where
  "at_head b n s \<longleftrightarrow> relay_inv s \<and> asked b (rs_answers s) \<and> length (rs_answers s) = n \<and>
     (\<exists>c. pl_current (rs_link s) = Some c \<and> h_sequence c = int n \<and> (h_epoch c, h_generation c) = b)"

definition over :: "int \<times> int \<Rightarrow> relay_state \<Rightarrow> bool" where
  "over b s \<longleftrightarrow> relay_inv s \<and> asked b (rs_answers s)"

lemma asked_snoc: "asked b as \<Longrightarrow> h_op r = op_at (length as) \<Longrightarrow> h_sequence r = int (length as) \<Longrightarrow> (h_epoch r, h_generation r) = b \<Longrightarrow> asked b (as @ [(r, p)])"
  by (auto simp: asked_def nth_append less_Suc_eq Let_def)

lemma inv_query:
  assumes "on_plink (query v op) s = (r, s')" and "op \<in> {''HELLO'', ''STATUS'', ''STOP''}" and "relay_inv s"
  shows "relay_inv s' \<and> rs_answers s' = rs_answers s \<and>
    (\<forall>st. r = Inr st \<longrightarrow> (\<exists>c. pl_current (rs_link s') = Some c \<and> (op = ''HELLO'' \<longrightarrow> h_sequence c = 0) \<and>
       (op \<noteq> ''HELLO'' \<longrightarrow> (\<forall>p. pl_current (rs_link s) = Some p \<longrightarrow> same_context p c))))"
proof -
  from assms(1) obtain l' where q: "query v op (rs_link s) = (r, l')" "s' = s\<lparr>rs_link := l'\<rparr>"
    by (auto simp: on_plink_def split: prod.splits)
  note run = query_run [OF q(1) assms(2)]
  then obtain w rest where w: "pl_sent l' = pl_sent (rs_link s) @ [w]" "query_line op = w @ rest" by blast
  have "relay_inv s'" unfolding q(2) by (rule relay_inv_sent [OF assms(3) w(1) carried_query [OF assms(2) w(2)]])
  with run q(2) show ?thesis by (cases r) simp_all
qed

lemma inv_execute:
  assumes "on_plink (execute v r permit t) s = (res, s')" and "relay_inv s" and "(r, permit) \<in> set (rs_answers s)"
  shows "relay_inv s' \<and> rs_answers s' = rs_answers s \<and> (res = Inr () \<longrightarrow> (\<exists>c. pl_current (rs_link s') = Some c \<and> acknowledged r c))"
proof -
  from assms(1) obtain l' where q: "execute v r permit t (rs_link s) = (res, l')" "s' = s\<lparr>rs_link := l'\<rparr>"
    by (auto simp: on_plink_def split: prod.splits)
  from execute_run [OF q(1)] show ?thesis
  proof
    assume "pl_sent l' = pl_sent (rs_link s) \<and> (\<exists>x. res = Inl x)"
    with relay_inv_same [OF assms(2)] q(2) show ?thesis by auto
  next
    assume "\<exists>raw w rest. check_permit r permit = Inr raw \<and> pl_sent l' = pl_sent (rs_link s) @ [w] \<and> raw = w @ rest \<and>
      (res = Inr () \<longrightarrow> (\<exists>c. pl_current l' = Some c \<and> acknowledged r c))"
    then obtain w rest where w: "check_permit r permit = Inr (w @ rest)" "pl_sent l' = pl_sent (rs_link s) @ [w]"
      "res = Inr () \<longrightarrow> (\<exists>c. pl_current l' = Some c \<and> acknowledged r c)" by blast
    have "relay_inv s'" unfolding q(2) by (rule relay_inv_sent [OF assms(2) w(2) carried_answer [OF assms(3) w(1)]])
    with w(3) q(2) show ?thesis by simp
  qed
qed

lemma inv_answer: "relay_inv s \<Longrightarrow> relay_inv (s\<lparr>rs_answers := rs_answers s @ as\<rparr>)"
  by (simp add: relay_inv_def carried_mono)

lemma request_phase:
  assumes "relay_request e rd r s = (res, s')" and "relay_inv s" and "asked b (rs_answers s)"
    and "h_op r = op_at (length (rs_answers s))" and "h_sequence r = int (length (rs_answers s))" and "(h_epoch r, h_generation r) = b"
  shows "over b s' \<and> (res = Inr False \<longrightarrow> at_head b (Suc (length (rs_answers s))) s')"
proof (cases "ask e rd r")
  case (Inl x)
  with assms(1) have "res = Inl x" "s' = s" by (simp_all add: relay_request_def mbind_def mlift_def)
  with assms show ?thesis by (simp add: over_def)
next
  case (Inr permit)
  define s1 where "s1 = s\<lparr>rs_answers := rs_answers s @ [(r, permit)]\<rparr>"
  have s1: "relay_inv s1" "asked b (rs_answers s1)" "(r, permit) \<in> set (rs_answers s1)" "length (rs_answers s1) = Suc (length (rs_answers s))"
    using inv_answer [OF assms(2)] asked_snoc [OF assms(3-6)] by (simp_all add: s1_def)
  then have o1: "over b s1" by (simp add: over_def)
  have stop: "over b s2" if "on_plink (query (rv_serial e) ''STOP'') s1 = (q, s2)" for q s2
    using inv_query [OF that _ s1(1)] s1(2) by (simp add: over_def)
  have exe: "over b s2 \<and> (q = Inr () \<longrightarrow> at_head b (Suc (length (rs_answers s))) s2)"
    if "on_plink (execute (rv_serial e) r permit t) s1 = (q, s2)" for q s2 t
    using inv_execute [OF that s1(1,3)] s1(2,4) assms(5,6) by (auto simp: over_def at_head_def acknowledged_def)
  let ?rest = "mbind (mlift (dget permit ''kind'')) (\<lambda>kind.
      if kind \<noteq> PStr ''permit'' then mthen (on_plink (query (rv_serial e) ''STOP'')) (mret True)
      else mbind (mlift (remaining_of permit)) (\<lambda>rem.
      let budget = of_int (round_budget (h_op r)) / 1000000000;
          left = time_left (budget - of_int (rr_answered rd - rr_started rd) / 1000000000) rem in
      if left \<le> 0 then mraise (LinkError ''authorizer permit arrived late'')
      else mthen (on_plink (execute (rv_serial e) r permit left))
           (if rr_acked rd - rr_started rd \<ge> round_budget (h_op r) then mraise (LinkError ''late controller acknowledgment'')
            else mret False)))"
  have "?rest s1 = (res, s')"
    using assms(1) Inr by (simp add: relay_request_def mbind_def mlift_def mthen_def mput_def s1_def)
  then show ?thesis
    using o1 stop exe
    by (auto simp: mbind_def mlift_def mthen_def mret_def mraise_def Let_def split: sum.splits prod.splits if_splits)
qed

lemma op_at_next: "next_op (op_at n) = op_at (Suc n)"
  by (simp add: next_op_def op_at_def)

lemma turn_head:
  assumes "relay_turn e (op_at n) s = (res, s')" and "at_head b n s"
  shows "over b s' \<and> (res = Inr False \<longrightarrow> at_head b (Suc n) s')"
proof -
  have rest: "over b s' \<and> (res = Inr False \<longrightarrow> at_head b (Suc n) s')"
    if "mbind (on_plink need_current) (\<lambda>cur. mbind (mget rs_round) (\<lambda>i.
      mthen (mput (\<lambda>s. s\<lparr>rs_round := Suc (rs_round s)\<rparr>)) (relay_request e (rv_round e i) (cur\<lparr>h_op := op_at n\<rparr>)))) t = (res, s')"
      and h: "at_head b n t" for t
  proof -
    from h obtain c where c: "pl_current (rs_link t) = Some c" "h_sequence c = int n" "(h_epoch c, h_generation c) = b" "relay_inv t"
      "asked b (rs_answers t)" "length (rs_answers t) = n" by (auto simp: at_head_def)
    let ?t = "t\<lparr>rs_round := Suc (rs_round t)\<rparr>"
    have "relay_request e (rv_round e (rs_round t)) (c\<lparr>h_op := op_at n\<rparr>) ?t = (res, s')"
      using that(1) c(1) by (simp add: mbind_def on_plink_def need_current_def mget_def mret_def mthen_def mput_def)
    from request_phase [OF this, of b] c show ?thesis by (simp add: relay_inv_def)
  qed
  show ?thesis
  proof (cases "op_at n = ''RUN''")
    case False
    with assms(1) have "mbind (on_plink need_current) (\<lambda>cur. mbind (mget rs_round) (\<lambda>i.
      mthen (mput (\<lambda>s. s\<lparr>rs_round := Suc (rs_round s)\<rparr>)) (relay_request e (rv_round e i) (cur\<lparr>h_op := op_at n\<rparr>)))) s = (res, s')"
      by (simp add: relay_turn_def mthen_def mbind_def mret_def)
    then show ?thesis using rest assms(2) by blast
  next
    case True
    obtain q t where q: "on_plink (query (rv_serial e) ''STATUS'') s = (q, t)" by (cases "on_plink (query (rv_serial e) ''STATUS'') s")
    from assms(2) have "relay_inv s" by (simp add: at_head_def)
    note i = inv_query [OF q _ this]
    have ov: "over b t" using i assms(2) by (simp add: over_def at_head_def)
    show ?thesis
    proof (cases "\<exists>st. q = Inr st \<and> st \<in> {''ARMED'', ''ON''}")
      case False
      with assms(1) True q have "s' = t \<and> res \<noteq> Inr False"
        by (auto simp: relay_turn_def mthen_def mbind_def mraise_def split: sum.splits)
      with ov show ?thesis by simp
    next
      case st: True
      with i assms(2) have "at_head b n t" by (auto simp: at_head_def same_context_def)
      moreover from st assms(1) True q have "mbind (on_plink need_current) (\<lambda>cur. mbind (mget rs_round) (\<lambda>i.
        mthen (mput (\<lambda>s. s\<lparr>rs_round := Suc (rs_round s)\<rparr>)) (relay_request e (rv_round e i) (cur\<lparr>h_op := op_at n\<rparr>)))) t = (res, s')"
        by (auto simp: relay_turn_def mthen_def mbind_def mret_def)
      ultimately show ?thesis using rest by blast
    qed
  qed
qed

lemma loop_over: "relay_loop e k (op_at n) s = (res, s') \<Longrightarrow> at_head b n s \<Longrightarrow> over b s'"
proof (induction k arbitrary: n s)
  case 0
  then show ?case by (simp add: mret_def over_def at_head_def)
next
  case (Suc k)
  obtain q t where q: "relay_turn e (op_at n) s = (q, t)" by (cases "relay_turn e (op_at n) s")
  note h = turn_head [OF q Suc.prems(2)]
  show ?case
  proof (cases "q = Inr False")
    case True
    with Suc.prems(1) q have "relay_loop e k (op_at (Suc n)) t = (res, s')" by (simp add: mbind_def op_at_next)
    then show ?thesis using Suc.IH h True by blast
  next
    case False
    with Suc.prems(1) q have "s' = t" by (cases q) (auto simp: mbind_def mret_def)
    with h show ?thesis by simp
  qed
qed

lemma relay_over:
  assumes "relay e install connect n = (res, s)"
  shows "\<exists>b. over b s" and "res \<noteq> Inr None \<Longrightarrow> \<exists>ws w. pl_sent (rs_link s) = ws @ [w] \<and>
      (w = query_line ''STOP'' \<or> cut_off (rv_serial e) (query_line ''STOP'') w (pl_turn (rs_link s)))"
proof -
  let ?body = "mthen (mlift connect) (mthen (on_plink (query (rv_serial e) ''HELLO'')) (relay_loop e n ''BIND''))"
  obtain rb t where b: "?body (relay_init install) = (rb, t)" by (cases "?body (relay_init install)")
  have i0: "relay_inv (relay_init install)" by (simp add: relay_inv_def relay_init_def pl_init_def)
  have "\<exists>b. over b t"
  proof (cases connect)
    case (Inl x)
    with b i0 show ?thesis by (auto simp: mthen_def mbind_def mlift_def over_def relay_init_def asked_def)
  next
    case (Inr u)
    obtain q t1 where q: "on_plink (query (rv_serial e) ''HELLO'') (relay_init install) = (q, t1)"
      by (cases "on_plink (query (rv_serial e) ''HELLO'') (relay_init install)")
    note i = inv_query [OF q _ i0]
    show ?thesis
    proof (cases q)
      case (Inl x)
      with b Inr q i show ?thesis by (auto simp: mthen_def mbind_def mlift_def over_def relay_init_def asked_def)
    next
      case (Inr st)
      with i obtain c where "pl_current (rs_link t1) = Some c" "h_sequence c = 0" by auto
      then have "at_head (h_epoch c, h_generation c) 0 t1" using i by (simp add: at_head_def asked_def relay_init_def)
      moreover have "relay_loop e n (op_at 0) t1 = (rb, t)"
        using b \<open>connect = Inr u\<close> q Inr by (simp add: mthen_def mbind_def mlift_def op_at_def)
      ultimately show ?thesis using loop_over by blast
    qed
  qed
  then obtain bd where bd: "over bd t" by blast
  obtain p s2 where st: "on_plink (permit_stop (rv_serial e)) t = (p, s2)" by (cases "on_plink (permit_stop (rv_serial e)) t")
  then obtain l' where l': "permit_stop (rv_serial e) (rs_link t) = (p, l')" "s2 = t\<lparr>rs_link := l'\<rparr>"
    by (auto simp: on_plink_def split: prod.splits)
  note run = permit_stop_run [OF l'(1)]
  obtain w rest where w: "pl_sent l' = pl_sent (rs_link t) @ [w]" "query_line ''STOP'' = w @ rest" using run by blast
  have "relay_inv s2" unfolding l'(2)
    by (rule relay_inv_sent [OF _ w(1) carried_query [OF _ w(2)]]) (use bd in \<open>auto simp: over_def\<close>)
  then have o2: "over bd s2" using bd l'(2) by (simp add: over_def)
  have s: "s = (if rb = Inr None then t else s2)" "rb = Inr None \<longleftrightarrow> res = Inr None"
    using assms b st run by (auto simp: relay_def split: sum.splits option.splits)
  have "over bd s" using s(1) bd o2 by simp
  then show "\<exists>b. over b s" by blast
  show "\<exists>ws w. pl_sent (rs_link s) = ws @ [w] \<and>
      (w = query_line ''STOP'' \<or> cut_off (rv_serial e) (query_line ''STOP'') w (pl_turn (rs_link s)))" if "res \<noteq> Inr None"
    using that s stop_sends [OF l'(1)] l'(2) by auto
qed

end
