(* ===== verification/Bench_Host.thy ===== *)
theory Bench_Host
  imports Bench_Gate Serial_Link
begin

text \<open>
  The host of the unauthenticated LED bench (\<^verbatim>\<open>tools/bench_host.py\<close>): a Rust approval is followed by
  one RUN on the serial link, a denial or an error by STOP. The clock and the sleeps are parameters;
  \<open>hs_calls\<close> observes the calls the loop makes.
\<close>

section \<open>State\<close>

datatype host_call = Exchange string rat | Cycle bool

text \<open>\<open>hv_now s i\<close>: the \<open>i\<close>-th reading of the monotonic clock (seconds), after \<open>s\<close> sleeps.\<close>

record host_env =
  hv_bench :: bench_env
  hv_serial :: serial_env
  hv_now :: "nat \<Rightarrow> nat \<Rightarrow> rat"

record host =
  hs_gate :: bench
  hs_link :: link
  hs_reads :: nat
  hs_sleeps :: nat
  hs_calls :: "host_call list"

definition host_init :: "bench \<Rightarrow> string \<Rightarrow> host" where
  "host_init gate token = \<lparr>hs_gate = gate, hs_link = link_init token, hs_reads = 0, hs_sleeps = 0, hs_calls = []\<rparr>"

definition call :: "host_call \<Rightarrow> (host, unit) meth" where
  "call c = mput (\<lambda>h. h\<lparr>hs_calls := hs_calls h @ [c]\<rparr>)"

definition host_now :: "host_env \<Rightarrow> (host, rat) meth" where
  "host_now e h = (Inr (hv_now e (hs_sleeps h) (hs_reads h)), h\<lparr>hs_reads := Suc (hs_reads h)\<rparr>)"

definition host_sleep :: "(host, unit) meth" where
  "host_sleep = mput (\<lambda>h. h\<lparr>hs_sleeps := Suc (hs_sleeps h)\<rparr>)"

definition on_gate :: "(bench, 'a) meth \<Rightarrow> (host, 'a) meth" where
  "on_gate m h = (case m (hs_gate h) of (r, g) \<Rightarrow> (r, h\<lparr>hs_gate := g\<rparr>))"

definition on_link :: "(link, 'a) meth \<Rightarrow> (host, 'a) meth" where
  "on_link m h = (case m (hs_link h) of (r, l) \<Rightarrow> (r, h\<lparr>hs_link := l\<rparr>))"

definition host_exchange :: "host_env \<Rightarrow> string \<Rightarrow> rat \<Rightarrow> (host, string) meth" where
  "host_exchange e op timeout = mthen (call (Exchange op timeout)) (on_link (exchange_op (hv_serial e) op timeout))"

definition host_cycle :: "host_env \<Rightarrow> string \<Rightarrow> (host, bool) meth" where
  "host_cycle e fault = mbind (on_gate (bench_cycle (hv_bench e) fault)) (\<lambda>allowed. mthen (call (Cycle allowed)) (mret allowed))"

section \<open>The loop\<close>

text \<open>The fault of this round, once its time has come; an empty text is \<^verbatim>\<open>None\<close>.\<close>

definition host_fault :: "host_env \<Rightarrow> string \<Rightarrow> rat \<Rightarrow> rat \<Rightarrow> (host, string) meth" where
  "host_fault e scenario seconds started =
     (if scenario = ''allow'' then mret []
      else mbind (host_now e) (\<lambda>t. mret (if t - started \<ge> seconds then scenario else [])))"

text \<open>An approved cycle: RUN within what remains of the decision; a late acknowledgment is an error.\<close>

definition host_renew :: "host_env \<Rightarrow> (host, unit) meth" where
  "host_renew e =
     mthen (host_now e)
     (mbind (on_gate (bench_remaining (hv_bench e))) (\<lambda>left.
      mthen (host_exchange e ''RUN'' left)
      (mthen (on_gate (bench_remaining (hv_bench e))) (mret ()))))"

definition host_done :: "host_env \<Rightarrow> string \<Rightarrow> rat \<Rightarrow> rat \<Rightarrow> (host, bool) meth" where
  "host_done e scenario seconds started =
     (if scenario = ''allow'' then mbind (host_now e) (\<lambda>t. mret (t - started \<ge> seconds)) else mret False)"

text \<open>One turn of the \<^verbatim>\<open>while\<close> loop: whether the token has ended.\<close>

definition host_turn :: "host_env \<Rightarrow> string \<Rightarrow> rat \<Rightarrow> rat \<Rightarrow> (host, bool) meth" where
  "host_turn e scenario seconds started =
     mbind (host_exchange e ''STATUS'' (1 / 20)) (\<lambda>state.
     if state \<notin> {''ARMED'', ''ON''} then mraise (LinkError ''device lease locked; explicit new run required'')
     else mbind (host_fault e scenario seconds started) (\<lambda>fault.
     mbind (host_cycle e fault) (\<lambda>allowed.
     if \<not> allowed then mthen (host_exchange e ''STOP'' (1 / 20)) (mret True)
     else mthen (host_renew e)
     (mbind (host_done e scenario seconds started) (\<lambda>fin.
      if fin then mthen (host_exchange e ''STOP'' (1 / 20)) (mret True)
      else mret False)))))"

text \<open>The loop; \<open>None\<close> is a token still running after \<open>n\<close> turns.\<close>

fun host_loop :: "host_env \<Rightarrow> string \<Rightarrow> rat \<Rightarrow> rat \<Rightarrow> nat \<Rightarrow> (host, unit option) meth" where
  "host_loop e scenario seconds started 0 = mret None"
| "host_loop e scenario seconds started (Suc n) =
     mbind (host_now e) (\<lambda>t.
     if \<not> (t - started < seconds + 1) then mraise (RuntimeError ''scenario did not stop within its bounded window'')
     else mbind (host_turn e scenario seconds started) (\<lambda>fin.
          if fin then mret (Some ()) else mthen host_sleep (host_loop e scenario seconds started n)))"

definition host_body :: "host_env \<Rightarrow> string \<Rightarrow> rat \<Rightarrow> nat \<Rightarrow> (host, unit option) meth" where
  "host_body e scenario seconds n =
     mthen host_sleep
     (mthen (host_exchange e ''HELLO'' (1 / 20))
     (mthen (host_exchange e ''ARM'' (1 / 20))
     (mbind (host_now e) (\<lambda>started. host_loop e scenario seconds started n))))"

text \<open>The \<^verbatim>\<open>finally\<close> block of an open link.\<close>

definition host_stop :: "host_env \<Rightarrow> host \<Rightarrow> host" where
  "host_stop e h = snd (mthen (call (Exchange ''STOP'' (1 / 20))) (on_link (link_stop (hv_serial e))) h)"

text \<open>
  \<^verbatim>\<open>run\<close>: \<open>gate\<close> and \<open>token\<close> are what opening the gate and the serial port gave. The second
  component is the state in the end, when both opened.
\<close>

definition host_run :: "host_env \<Rightarrow> bench res \<Rightarrow> string res \<Rightarrow> string \<Rightarrow> rat \<Rightarrow> nat \<Rightarrow> unit option res \<times> host option" where
  "host_run e gate token scenario seconds n =
     (if \<not> (1 \<le> seconds \<and> seconds \<le> 30) then (Inl (ValueError ''seconds must be between 1 and 30''), None)
      else if scenario \<notin> set SCENARIOS then (Inl (ValueError ''unknown bench scenario''), None)
      else case rbind gate (\<lambda>g. rbind token (\<lambda>s. Inr (host_init g s))) of
        Inl x \<Rightarrow> (Inl x, None)
      | Inr h0 \<Rightarrow> (case host_body e scenario seconds n h0 of
          (Inr None, h) \<Rightarrow> (Inr None, Some h)
        | (r, h) \<Rightarrow> (r, Some (host_stop e h))))"

section \<open>The order of the calls\<close>

text \<open>What the bench promises about its calls, as an automaton.\<close>

datatype hphase = Closed | Greeted | Ready | Polled | Approved | Denied | Stopped

fun hstep :: "hphase \<Rightarrow> host_call \<Rightarrow> hphase option" where
  "hstep p (Exchange op t) =
     (if op = ''STOP'' then Some Stopped
      else case p of
        Closed \<Rightarrow> if op = ''HELLO'' then Some Greeted else None
      | Greeted \<Rightarrow> if op = ''ARM'' then Some Ready else None
      | Ready \<Rightarrow> if op = ''STATUS'' then Some Polled else None
      | Approved \<Rightarrow> if op = ''RUN'' \<and> 0 < t \<and> t \<le> 1 / 20 then Some Ready else None
      | _ \<Rightarrow> None)"
| "hstep p (Cycle b) = (if p = Polled then Some (if b then Approved else Denied) else None)"

fun hrun :: "hphase \<Rightarrow> host_call list \<Rightarrow> hphase option" where
  "hrun p [] = Some p"
| "hrun p (c # cs) = (case hstep p c of None \<Rightarrow> None | Some q \<Rightarrow> hrun q cs)"

lemma hrun_append: "hrun p (cs @ ds) = (case hrun p cs of None \<Rightarrow> None | Some q \<Rightarrow> hrun q ds)"
  by (induction cs arbitrary: p) (auto split: option.splits)

text \<open>What the automaton says of a RUN and of a denial.\<close>

lemma hrun_RUN:
  assumes "hrun Closed (pre @ Exchange ''RUN'' t # post) \<noteq> None"
  shows "\<exists>pre'. pre = pre' @ [Cycle True] \<and> 0 < t \<and> t \<le> 1 / 20"
proof -
  from assms obtain q where q: "hrun Closed pre = Some q" by (auto simp: hrun_append split: option.splits)
  with assms have s: "hstep q (Exchange ''RUN'' t) \<noteq> None" by (auto simp: hrun_append simp del: hstep.simps split: option.splits)
  then have a: "q = Approved" "0 < t" "t \<le> 1 / 20" by (auto split: hphase.splits if_splits)
  show ?thesis
  proof (cases pre rule: rev_cases)
    case Nil
    with q a show ?thesis by simp
  next
    case (snoc pre' c)
    with q obtain q' where "hstep q' c = Some Approved" using a by (auto simp: hrun_append simp del: hstep.simps split: option.splits)
    then have "c = Cycle True" by (cases c) (auto split: hphase.splits if_splits)
    with snoc a show ?thesis by blast
  qed
qed

lemma hrun_Stopped: "hrun Stopped cs \<noteq> None \<Longrightarrow> c \<in> set cs \<Longrightarrow> \<exists>t. c = Exchange ''STOP'' t"
proof (induction cs)
  case Nil
  then show ?case by simp
next
  case (Cons d ds)
  from Cons.prems(1) obtain t where d: "d = Exchange ''STOP'' t" by (cases d) (auto split: if_splits)
  with Cons show ?case by auto
qed

lemma hrun_denied:
  assumes "hrun Closed (pre @ Cycle False # post) \<noteq> None" and "c \<in> set post"
  shows "\<exists>t. c = Exchange ''STOP'' t"
proof -
  from assms(1) have "hrun Denied post \<noteq> None" by (auto simp: hrun_append split: option.splits if_splits)
  then show ?thesis
  proof (cases post)
    case Nil
    with assms(2) show ?thesis by simp
  next
    case (Cons d ds)
    with \<open>hrun Denied post \<noteq> None\<close> obtain t where "d = Exchange ''STOP'' t" "hrun Stopped ds \<noteq> None"
      by (cases d) (auto split: if_splits)
    with Cons assms(2) hrun_Stopped show ?thesis by auto
  qed
qed

section \<open>The loop follows the automaton\<close>

definition in_phase :: "hphase \<Rightarrow> host \<Rightarrow> bool" where
  "in_phase p h \<longleftrightarrow> hrun Closed (hs_calls h) = Some p"

definition somewhere :: "exn \<Rightarrow> host \<Rightarrow> bool" where
  "somewhere x h \<longleftrightarrow> hrun Closed (hs_calls h) \<noteq> None"

text \<open>Approved with a live approval: the state between a positive cycle and its RUN.\<close>

definition live :: "host \<Rightarrow> bool" where
  "live h \<longleftrightarrow> in_phase Approved h \<and> approved (hs_gate h)"

lemma at_frame: "(\<And>h r h'. m h = (r, h') \<Longrightarrow> hs_calls h' = hs_calls h) \<Longrightarrow> triple (in_phase p) m (\<lambda>_. in_phase p) somewhere"
  by (rule tripleI) (fastforce simp: in_phase_def somewhere_def split: sum.splits)

lemma at_now: "triple (in_phase p) (host_now e) (\<lambda>_. in_phase p) somewhere"
  by (rule at_frame) (auto simp: host_now_def)

lemma at_sleep: "triple (in_phase p) host_sleep (\<lambda>_. in_phase p) somewhere"
  by (rule at_frame) (auto simp: host_sleep_def mput_def)

lemma at_gate: "triple (in_phase p) (on_gate m) (\<lambda>_. in_phase p) somewhere"
  by (rule at_frame) (auto simp: on_gate_def split: prod.splits)

lemma at_ret: "triple (in_phase p) (mret x) (\<lambda>_. in_phase p) somewhere"
  by (rule at_frame) (auto simp: mret_def)

lemma at_raise: "triple (in_phase p) (mraise x) Q somewhere"
  by (auto simp: triple_def mraise_def in_phase_def somewhere_def)

lemma at_exchange: "hstep p (Exchange op t) = Some q \<Longrightarrow> triple (in_phase p) (host_exchange e op t) (\<lambda>_. in_phase q) somewhere"
  unfolding host_exchange_def
  by (rule tripleI) (auto simp: in_phase_def somewhere_def mthen_def mbind_def call_def mput_def on_link_def hrun_append split: prod.splits sum.splits)

lemma at_cycle: "triple (in_phase Polled) (host_cycle e fault) (\<lambda>allowed h. if allowed then live h else in_phase Denied h) somewhere"
proof (rule tripleI)
  fix h r h' assume p: "in_phase Polled h" and c: "host_cycle e fault h = (r, h')"
  obtain rc g where g: "bench_cycle (hv_bench e) fault (hs_gate h) = (rc, g)" by (cases "bench_cycle (hv_bench e) fault (hs_gate h)")
  show "case r of Inl x \<Rightarrow> somewhere x h' | Inr allowed \<Rightarrow> if allowed then live h' else in_phase Denied h'"
  proof (cases rc)
    case (Inl x)
    with c g p show ?thesis by (auto simp: host_cycle_def mbind_def on_gate_def in_phase_def somewhere_def)
  next
    case (Inr ok)
    from bench_cycle_approved [OF g] have "ok \<Longrightarrow> approved g" by simp
    with c g p Inr show ?thesis
      by (auto simp: host_cycle_def mbind_def on_gate_def in_phase_def live_def mthen_def call_def mput_def mret_def hrun_append)
  qed
qed

lemma live_remaining: "triple live (on_gate (bench_remaining e)) (\<lambda>q h. live h \<and> 0 < q \<and> q \<le> 1 / 20) somewhere"
proof (rule tripleI)
  fix h r h' assume p: "live h" and c: "on_gate (bench_remaining e) h = (r, h')"
  obtain rc g where g: "bench_remaining e (hs_gate h) = (rc, g)" by (cases "bench_remaining e (hs_gate h)")
  show "case r of Inl x \<Rightarrow> somewhere x h' | Inr q \<Rightarrow> live h' \<and> 0 < q \<and> q \<le> 1 / 20"
  proof (cases rc)
    case (Inl x)
    with c g p show ?thesis by (auto simp: on_gate_def live_def in_phase_def somewhere_def)
  next
    case (Inr q)
    with bench_remaining_bounds [of e "hs_gate h" q g] g p have "0 < q" "q \<le> 1 / 20" "bg_approval g = bg_approval (hs_gate h)"
      by (auto simp: live_def)
    with c g p Inr show ?thesis by (auto simp: on_gate_def live_def in_phase_def approved_def)
  qed
qed

lemma live_now: "triple live (host_now e) (\<lambda>_. live) somewhere"
  by (rule tripleI) (auto simp: host_now_def live_def in_phase_def split: sum.splits)

lemma live_RUN: "triple (\<lambda>h. live h \<and> 0 < t \<and> t \<le> 1 / 20) (host_exchange e ''RUN'' t) (\<lambda>_. in_phase Ready) somewhere"
proof (cases "0 < t \<and> t \<le> 1 / 20")
  case True
  then have "triple (in_phase Approved) (host_exchange e ''RUN'' t) (\<lambda>_. in_phase Ready) somewhere" by (intro at_exchange) simp
  then show ?thesis by (rule triple_conseq) (auto simp: live_def)
qed (auto simp: triple_def)

lemma renew_ready: "triple live (host_renew e) (\<lambda>_. in_phase Ready) somewhere"
  unfolding host_renew_def
  by (intro triple_mthen [OF live_now] triple_mbind [OF live_remaining] triple_mthen [OF live_RUN] triple_mthen [OF at_gate] at_ret)

lemma turn_phase:
  "triple (in_phase Ready) (host_turn e scenario seconds started) (\<lambda>fin. in_phase (if fin then Stopped else Ready)) somewhere"
proof -
  have stop: "triple (in_phase p) (mthen (host_exchange e ''STOP'' t) (mret True)) (\<lambda>fin. in_phase (if fin then Stopped else Ready)) somewhere" for p t
  proof (intro triple_mthen)
    show "triple (in_phase p) (host_exchange e ''STOP'' t) (\<lambda>_. in_phase Stopped) somewhere" by (rule at_exchange) simp
    show "triple (in_phase Stopped) (mret True) (\<lambda>fin. in_phase (if fin then Stopped else Ready)) somewhere" by (simp add: triple_def mret_def)
  qed
  have done': "triple (in_phase Ready) (mbind (host_done e scenario seconds started) (\<lambda>fin.
      if fin then mthen (host_exchange e ''STOP'' (1 / 20)) (mret True) else mret False))
      (\<lambda>fin. in_phase (if fin then Stopped else Ready)) somewhere"
  proof (rule triple_mbind)
    show "triple (in_phase Ready) (host_done e scenario seconds started) (\<lambda>_. in_phase Ready) somewhere"
      unfolding host_done_def by (intro triple_if triple_mbind [OF at_now] at_ret)
    have "triple (in_phase Ready) (mret False) (\<lambda>fin. in_phase (if fin then Stopped else Ready)) somewhere" by (simp add: triple_def mret_def)
    then show "triple (in_phase Ready) (if fin then mthen (host_exchange e ''STOP'' (1 / 20)) (mret True) else mret False)
        (\<lambda>fin. in_phase (if fin then Stopped else Ready)) somewhere" for fin
      using stop [of Ready "1 / 20"] by (cases fin) simp_all
  qed
  have decided: "triple (\<lambda>h. if allowed then live h else in_phase Denied h)
     (if \<not> allowed then mthen (host_exchange e ''STOP'' (1 / 20)) (mret True)
      else mthen (host_renew e) (mbind (host_done e scenario seconds started) (\<lambda>fin.
        if fin then mthen (host_exchange e ''STOP'' (1 / 20)) (mret True) else mret False)))
     (\<lambda>fin. in_phase (if fin then Stopped else Ready)) somewhere" for allowed
    using stop [of Denied] triple_mthen [OF renew_ready done'] by (cases allowed) simp_all
  have polled: "triple (in_phase Ready) (host_exchange e ''STATUS'' (1 / 20)) (\<lambda>_. in_phase Polled) somewhere" by (rule at_exchange) simp
  have fault: "triple (in_phase Polled) (host_fault e scenario seconds started) (\<lambda>_. in_phase Polled) somewhere"
    unfolding host_fault_def by (intro triple_if triple_mbind [OF at_now] at_ret)
  note cycle = triple_mbind [OF fault triple_mbind [OF at_cycle decided]]
  show ?thesis
    unfolding host_turn_def by (intro triple_mbind [OF polled] triple_if [OF at_raise] cycle)
qed

lemma loop_phase: "triple (in_phase Ready) (host_loop e scenario seconds started n) (\<lambda>r. in_phase (if r = None then Ready else Stopped)) somewhere"
proof (induction n)
  case 0
  show ?case by (simp add: triple_def mret_def)
next
  case (Suc n)
  have next': "triple (in_phase (if fin then Stopped else Ready)) (if fin then mret (Some ()) else mthen host_sleep (host_loop e scenario seconds started n))
     (\<lambda>r. in_phase (if r = None then Ready else Stopped)) somewhere" for fin
    using triple_mthen [OF at_sleep Suc] by (cases fin) (simp_all add: triple_def mret_def)
  show ?case
    unfolding host_loop.simps
    by (intro triple_mbind [OF at_now] triple_if [where m = "mraise e" for e, OF at_raise] triple_mbind [OF turn_phase next'])
qed

lemma body_phase: "triple (in_phase Closed) (host_body e scenario seconds n) (\<lambda>r. in_phase (if r = None then Ready else Stopped)) somewhere"
proof -
  have 1: "triple (in_phase Closed) (host_exchange e ''HELLO'' t) (\<lambda>_. in_phase Greeted) somewhere" for t by (rule at_exchange) simp
  have 2: "triple (in_phase Greeted) (host_exchange e ''ARM'' t) (\<lambda>_. in_phase Ready) somewhere" for t by (rule at_exchange) simp
  show ?thesis unfolding host_body_def
    by (intro triple_mthen [OF at_sleep] triple_mthen [OF 1] triple_mthen [OF 2] triple_mbind [OF at_now] loop_phase)
qed

lemma host_stop_calls: "hs_calls (host_stop e h) = hs_calls h @ [Exchange ''STOP'' (1 / 20)]"
  by (auto simp: host_stop_def mthen_def mbind_def call_def mput_def on_link_def split: prod.splits sum.splits)

lemma host_run_order:
  assumes "host_run e gate token scenario seconds n = (r, Some h)"
  shows "hrun Closed (hs_calls h) \<noteq> None \<and> (r \<noteq> Inr None \<longrightarrow> last (hs_calls h) = Exchange ''STOP'' (1 / 20) \<and> hs_calls h \<noteq> [])"
proof -
  from assms obtain h0 g s where h0: "h0 = host_init g s" and
    c: "(case host_body e scenario seconds n h0 of (Inr None, h) \<Rightarrow> (Inr None, Some h) | (r, h) \<Rightarrow> (r, Some (host_stop e h))) = (r, Some h)"
    by (auto simp: host_run_def rbind_Inr_iff split: if_splits sum.splits)
  obtain rb hb where b: "host_body e scenario seconds n h0 = (rb, hb)" by (cases "host_body e scenario seconds n h0")
  have "in_phase Closed h0" by (simp add: in_phase_def h0 host_init_def)
  from tripleD [OF body_phase this b] have w: "hrun Closed (hs_calls hb) \<noteq> None" by (auto simp: in_phase_def somewhere_def split: sum.splits)
  show ?thesis
  proof (cases "rb = Inr None")
    case True
    with c b w show ?thesis by simp
  next
    case False
    with c b have "r = rb" "h = host_stop e hb" by (auto split: sum.splits option.splits)
    with w show ?thesis by (auto simp: host_stop_calls hrun_append)
  qed
qed

section \<open>The session ends\<close>

text \<open>
  What \<^verbatim>\<open>time.monotonic\<close> and \<^verbatim>\<open>time.sleep(.025)\<close> promise: the clock never goes back, and a sleep takes
  at least its argument.
\<close>

definition sleeps_advance :: "host_env \<Rightarrow> bool" where
  "sleeps_advance e \<longleftrightarrow> (\<forall>s i j. i \<le> j \<longrightarrow> hv_now e s i \<le> hv_now e s j \<and> hv_now e s i + 1 / 40 \<le> hv_now e (Suc s) j)"

definition same_sleeps :: "host \<Rightarrow> host \<Rightarrow> bool" where
  "same_sleeps h h' \<longleftrightarrow> hs_sleeps h' = hs_sleeps h \<and> hs_reads h \<le> hs_reads h'"

interpretation sl: run_rel same_sleeps
  by unfold_locales (auto simp: same_sleeps_def)

lemma sl_parts:
  "keeps same_sleeps (host_now e)" "keeps same_sleeps (on_gate m)" "keeps same_sleeps (on_link n)" "keeps same_sleeps (call c)"
  by (auto simp: keeps_def same_sleeps_def host_now_def on_gate_def on_link_def call_def mput_def split: prod.splits)

lemma sl_turn: "keeps same_sleeps (host_turn e scenario seconds started)"
  unfolding host_turn_def host_fault_def host_cycle_def host_renew_def host_done_def host_exchange_def
  by (intro sl.keeps_flow sl_parts)

text \<open>A loop still running after its last turn saw a clock inside the window when that turn began.\<close>

lemma loop_running:
  "host_loop e scenario seconds started (Suc n) h = (Inr None, h') \<Longrightarrow>
   \<exists>i\<ge>hs_reads h. hv_now e (hs_sleeps h + n) i - started < seconds + 1"
proof (induction n arbitrary: h)
  case 0
  then show ?case by (auto simp: mbind_def host_now_def mraise_def split: if_splits)
next
  case (Suc n)
  let ?h1 = "h\<lparr>hs_reads := Suc (hs_reads h)\<rparr>"
  from Suc.prems have inside: "hv_now e (hs_sleeps h) (hs_reads h) - started < seconds + 1"
    by (auto simp: mbind_def host_now_def mraise_def simp del: host_loop.simps(2) simp: host_loop.simps(2) [of e scenario seconds started "Suc n"] split: if_splits)
  obtain r h2 where t: "host_turn e scenario seconds started ?h1 = (r, h2)" by (cases "host_turn e scenario seconds started ?h1")
  have r: "r = Inr False" "host_loop e scenario seconds started (Suc n) (h2\<lparr>hs_sleeps := Suc (hs_sleeps h2)\<rparr>) = (Inr None, h')"
    using Suc.prems inside t
    by (auto simp: host_loop.simps(2) [of e scenario seconds started "Suc n"] mbind_def host_now_def mthen_def host_sleep_def mput_def mret_def
        simp del: host_loop.simps split: sum.splits if_splits)
  have "hs_sleeps h2 = hs_sleeps h" "Suc (hs_reads h) \<le> hs_reads h2"
    using keepsD [OF sl_turn t] by (auto simp: same_sleeps_def)
  moreover obtain i where "hs_reads h2 \<le> i" "hv_now e (Suc (hs_sleeps h2) + n) i - started < seconds + 1"
    using Suc.IH [OF r(2)] by auto
  ultimately have "hs_reads h \<le> i \<and> hv_now e (hs_sleeps h + Suc n) i - started < seconds + 1" by simp
  then show ?case by blast
qed

lemma clock_lower: "sleeps_advance e \<Longrightarrow> i \<le> j \<Longrightarrow> hv_now e s i + of_nat k / 40 \<le> hv_now e (s + k) j"
proof (induction k)
  case 0
  then show ?case by (simp add: sleeps_advance_def)
next
  case (Suc k)
  then have "hv_now e (s + k) j + 1 / 40 \<le> hv_now e (Suc (s + k)) j" by (simp add: sleeps_advance_def)
  with Suc show ?case by (simp add: add_divide_distrib)
qed

lemma loop_ends:
  assumes "sleeps_advance e" and "started \<le> hv_now e (hs_sleeps h) (hs_reads h)" and "40 * (seconds + 1) \<le> of_nat n"
  shows "fst (host_loop e scenario seconds started (Suc n) h) \<noteq> Inr None"
proof
  assume "fst (host_loop e scenario seconds started (Suc n) h) = Inr None"
  then obtain h' where "host_loop e scenario seconds started (Suc n) h = (Inr None, h')" by (metis prod.collapse)
  then obtain i where i: "hs_reads h \<le> i" "hv_now e (hs_sleeps h + n) i - started < seconds + 1" using loop_running by blast
  have "hv_now e (hs_sleeps h) (hs_reads h) + of_nat n / 40 \<le> hv_now e (hs_sleeps h + n) i"
    by (rule clock_lower [OF assms(1) i(1)])
  with i(2) assms(2,3) show False by simp
qed

lemma host_run_ends:
  assumes "sleeps_advance e" and "1 \<le> seconds" and "seconds \<le> 30" and "1240 < n"
  shows "fst (host_run e gate token scenario seconds n) \<noteq> Inr None"
proof -
  obtain m where m: "n = Suc m" "1240 \<le> m" using assms(4) by (cases n) auto
  have w: "40 * (seconds + 1) \<le> of_nat m"
  proof -
    have "40 * (seconds + 1) \<le> 1240" using assms(3) by simp
    also have "\<dots> \<le> of_nat m" using m(2) by (metis of_nat_le_iff of_nat_numeral)
    finally show ?thesis .
  qed
  have b: "fst (host_body e scenario seconds n h0) \<noteq> Inr None" for h0
  proof
    assume "fst (host_body e scenario seconds n h0) = Inr None"
    then obtain h where "host_body e scenario seconds n h0 = (Inr None, h)" by (metis prod.collapse)
    then obtain h1 where "host_loop e scenario seconds (hv_now e (hs_sleeps h1) (hs_reads h1)) (Suc m) (h1\<lparr>hs_reads := Suc (hs_reads h1)\<rparr>) = (Inr None, h)"
      unfolding host_body_def m(1) by (auto simp: mthen_def mbind_Inr_iff host_now_def simp del: host_loop.simps)
    moreover have "hv_now e (hs_sleeps h1) (hs_reads h1) \<le> hv_now e (hs_sleeps h1) (Suc (hs_reads h1))"
      using assms(1) by (simp add: sleeps_advance_def)
    ultimately show False
      using loop_ends [OF assms(1) _ w, of "hv_now e (hs_sleeps h1) (hs_reads h1)" "h1\<lparr>hs_reads := Suc (hs_reads h1)\<rparr>" scenario]
      by (simp del: host_loop.simps)
  qed
  show ?thesis
  proof (cases "rbind gate (\<lambda>g. rbind token (\<lambda>s. Inr (host_init g s)))")
    case (Inl x)
    then show ?thesis by (simp add: host_run_def)
  next
    case (Inr h0)
    with b [of h0] show ?thesis
      by (auto simp: host_run_def split: prod.splits sum.splits option.splits)
  qed
qed

end
