(* ===== verification/Bench_Properties.thy ===== *)
theory Bench_Properties
  imports Permit_Authorizer Permit_Relay Bench_Host "HOL-Library.Code_Target_Int" "HOL-Library.Code_Target_Nat"
begin

text \<open>
  The properties of the LED bench: the authorizer's session, the wire formats, the untrusted relay,
  the serial link and the host loop; with a concrete bench evaluated by the kernel.
\<close>

section \<open>A concrete bench\<close>

definition demo_answer :: pyval where
  "demo_answer = PDict [(''cmd'', PDict [(''linear'', PInt 1), (''angular'', PInt 0)]), (''arm'', PNone), (''stop'', PNone),
     (''status'', PDict [(''armed'', PList [PStr ''vla'']), (''mode'', PStr ''normal''), (''stop'', PNone), (''world_age_ms'', PInt 10),
        (''active_expires_ms'', PInt 1190), (''active'', PDict [(''action'', PDict [(''type'', PStr ''velocity'')])]),
        (''recorder_ok'', PBool True), (''state_ok'', PBool True), (''arm_cancelling'', PBool False)]),
     (''outcome'', PDict [(''decision'', PDict [(''verdict'', PStr ''yun''), (''fired'', PList []), (''expires_ms'', PInt 1190)])])]"

definition demo_request :: "string \<Rightarrow> int \<Rightarrow> h2_request" where
  "demo_request op n = \<lparr>h_install = replicate 32 (CHR ''a''), h_epoch = 1, h_generation = 2, h_sequence = n, h_challenge = n + 5, h_issued = 7,
     h_nonce = replicate 32 (CHR ''b''), h_op = op\<rparr>"

definition demo_texts :: "string \<Rightarrow> pyval res" where
  "demo_texts s = (if s = ''B'' then Inr (h2_val (demo_request ''BIND'' 0)) else if s = ''A'' then Inr (h2_val (demo_request ''ARM'' 1))
     else if s = ''R'' then Inr (h2_val (demo_request ''RUN'' 2)) else Inl (ValueError s))"

definition demo_bench_env :: bench_env where
  "demo_bench_env = \<lparr>bn_now_ms = \<lambda>i. 1000, bn_mono_ns = \<lambda>i. 100000 * int i, bn_engine = \<lambda>i req. Inr demo_answer,
     bn_plat = \<lparr>json_loads = demo_texts, json_dumps = \<lambda>v. Inr ''{}'', ed_public = \<lambda>s. s, ed_sign = \<lambda>k m. [], euid = 0\<rparr>\<rparr>"

definition demo_bench :: bench where
  "demo_bench = \<lparr>bg_signer = \<lparr>audience = ''bench'', epoch = 1, keys = [(''world'', ''k''), (''fault'', ''k''), (''vla'', ''k'')],
       counters = [(''world'', 0), (''fault'', 0), (''vla'', 0)]\<rparr>, bg_proposal = 0, bg_last_motion = None, bg_approval = None,
     bg_last_cycle = None, bg_approved_cycle = None, bg_tracing = None, bg_cycles = 0, bg_faults = [], bg_reads = 0\<rparr>"



section \<open>The LED session\<close>

lemma init_fresh: "authorizer_init config key gate scenario seconds = Inr a \<Longrightarrow> lease_of a = Unbound \<and> az_ok a"
  by (auto simp: authorizer_init_def rbind_Inr_iff lease_of_def az_ok_def split: if_splits prod.splits)

text \<open>
  C12. The authorizer implements one lease: the answers of a session, from the state the constructor
  builds and through every sequence of requests, receive errors and send errors, are a run of the
  abstract lease automaton (bound once by an OFF-only BIND, armed once, renewed in order, ended by
  the first terminal answer).
\<close>

theorem led_session_refines:
  "case authorizer_init config key gate scenario seconds of
     Inl _ \<Rightarrow> True
   | Inr a \<Rightarrow> lease_run Unbound (fst (serve e cr rounds a))"
proof (cases "authorizer_init config key gate scenario seconds")
  case (Inr a)
  obtain tr res a' where s: "serve e cr rounds a = (tr, res, a')" by (metis prod_cases3)
  from init_fresh [OF Inr] serve_refines [OF _ s] s Inr show ?thesis by simp
qed simp

lemma unbound_permits:
  assumes "lease_run Unbound tr"
  shows "let ps = permits_of tr in map h_sequence ps = map int [0..<length ps] \<and>
    map h_op ps = take (length ps) (''BIND'' # ''ARM'' # replicate (length ps) ''RUN'') \<and>
    sorted_wrt (\<lambda>r r'. h_epoch r = h_epoch r' \<and> h_generation r = h_generation r' \<and> h_challenge r < h_challenge r') ps"
proof (cases tr)
  case Nil
  then show ?thesis by (simp add: permits_of_def)
next
  case (Cons p rest)
  obtain r ans where p: "p = (r, ans)" by (cases p)
  show ?thesis
  proof (cases ans)
    case (Terminal why)
    with assms Cons p show ?thesis by (auto simp: permits_of_def)
  next
    case (Permit sg eph d q)
    from assms Cons p obtain s' where s: "lease_step Unbound r ans s'" "lease_run s' rest" by auto
    then have st: "h_op r = ''BIND''" "h_sequence r = 0" "s' = Lease (h_epoch r) (h_generation r) 1 (h_challenge r) False"
      using Permit by (auto elim!: lease_permitE)
    note ih = lease_permits [OF s(2) [unfolded st(3)]]
    let ?ps = "permits_of rest" and ?k = "length (permits_of rest)"
    have l: "permits_of tr = r # ?ps" using Cons p Permit by (simp add: permits_of_def)
    have "map int [0..<Suc ?k] = 0 # map (\<lambda>i. 1 + int i) [0..<?k]"
      unfolding upt_conv_Cons [OF zero_less_Suc] by (simp add: map_Suc_upt [symmetric] del: upt_Suc)
    then have seq: "map h_sequence (r # ?ps) = map int [0..<length (r # ?ps)]" using ih st by (simp del: upt_Suc)
    have ops: "map h_op (r # ?ps) = take (length (r # ?ps)) (''BIND'' # ''ARM'' # replicate (length (r # ?ps)) ''RUN'')"
      using ih st by (cases ?k) (simp_all del: replicate_Suc)
    have "h_epoch r' = h_epoch r \<and> h_generation r' = h_generation r \<and> h_challenge r < h_challenge r'" if "r' \<in> set ?ps" for r'
      using ih that by auto
    moreover have "sorted_wrt (\<lambda>r r'. h_epoch r = h_epoch r' \<and> h_generation r = h_generation r' \<and> h_challenge r < h_challenge r') ?ps"
    proof (rule sorted_wrt_mono_rel)
      show "sorted_wrt (\<lambda>x y. h_challenge x < h_challenge y) ?ps" using ih by (simp add: sorted_wrt_map)
      show "h_epoch x = h_epoch y \<and> h_generation x = h_generation y \<and> h_challenge x < h_challenge y"
        if "x \<in> set ?ps" "y \<in> set ?ps" "h_challenge x < h_challenge y" for x y using ih that by simp
    qed
    ultimately show ?thesis using seq ops by (simp add: l Let_def del: upt_Suc replicate_Suc)
  qed
qed

text \<open>
  C13. The permits of a session are numbered 0, 1, 2, ... without a gap, are one BIND, then one ARM,
  then RUNs, all for one controller epoch and generation, and answer strictly increasing challenges.
\<close>

theorem led_permits_ordered:
  "case authorizer_init config key gate scenario seconds of
     Inl _ \<Rightarrow> True
   | Inr a \<Rightarrow> (let ps = permits_of (fst (serve e cr rounds a)) in
       map h_sequence ps = map int [0..<length ps] \<and>
       map h_op ps = take (length ps) (''BIND'' # ''ARM'' # replicate (length ps) ''RUN'') \<and>
       sorted_wrt (\<lambda>r r'. h_epoch r = h_epoch r' \<and> h_generation r = h_generation r' \<and> h_challenge r < h_challenge r') ps)"
proof (cases "authorizer_init config key gate scenario seconds")
  case (Inr a)
  obtain tr res a' where s: "serve e cr rounds a = (tr, res, a')" by (metis prod_cases3)
  from init_fresh [OF Inr] serve_refines [OF _ s] have "lease_run Unbound tr" by simp
  from unbound_permits [OF this] s Inr show ?thesis by (simp only: sum.case fst_conv)
qed simp






lemma locked_answers: "approve e cr req (a\<lparr>az_locked := True\<rparr>) = (r, a') \<Longrightarrow> r = Inr (Terminal ''authorizer_failure'') \<and> az_locked a'"
  using context_of_ValueError [of req]
  by (cases "context_of req") (auto simp: approve_def approve_body_def mcatch_def mbind_def mlift_def mget_def mraise_def lock_with_run)

text \<open>
  C32. An answered call ends in a permit or in one of three terminal reasons with the session locked, and
  the lock is final: a locked authorizer answers every request, well-formed or not, with
  \<^verbatim>\<open>authorizer_failure\<close> and stays locked. The terminal \<^verbatim>\<open>gate_expired\<close> never occurs, since an approval that
  aged out raises.
\<close>

theorem led_answers:
  "(case approve e cr req a of
     (Inr (Terminal why), a') \<Rightarrow> why \<in> {''operator_complete'', ''gate_denied'', ''authorizer_failure''} \<and> az_locked a'
   | (Inr (Permit sg eph d q), a') \<Rightarrow> \<not> az_locked a' \<and> (d, eph = None) \<in> {(0, False), (200, True)}
   | (Inl x, a') \<Rightarrow> \<not> az_locked a') \<and>
   (case approve e cr req (a\<lparr>az_locked := True\<rparr>) of (r, a') \<Rightarrow> r = Inr (Terminal ''authorizer_failure'') \<and> az_locked a')"
proof
  obtain res a' where run: "approve e cr req a = (res, a')" by (cases "approve e cr req a")
  from approve_run [OF run] run show "case approve e cr req a of
     (Inr (Terminal why), a') \<Rightarrow> why \<in> {''operator_complete'', ''gate_denied'', ''authorizer_failure''} \<and> az_locked a'
   | (Inr (Permit sg eph d q), a') \<Rightarrow> \<not> az_locked a' \<and> (d, eph = None) \<in> {(0, False), (200, True)}
   | (Inl x, a') \<Rightarrow> \<not> az_locked a'"
    by (auto simp: granted_by_def bound_def renewed_def session_def)
  show "case approve e cr req (a\<lparr>az_locked := True\<rparr>) of (r, a') \<Rightarrow> r = Inr (Terminal ''authorizer_failure'') \<and> az_locked a'"
    using locked_answers by (auto split: prod.split)
qed

section \<open>Wire formats\<close>

text \<open>
  C25. What is signed determines the request: two equal lease payloads have the same request context
  and duration, two equal key-exchange payloads the same context and keys, and a lease payload is
  never a key-exchange payload.
\<close>

theorem led_payload_binds:
  assumes "payload v d = Inr m" and "payload v' d' = Inr m"
    and "bind_payload w eph cp = Inr b" and "bind_payload w' eph' cp' = Inr b"
  shows "m \<noteq> b \<and> context_of v' = context_of v \<and> d' = d \<and> context_of w' = context_of w \<and> eph' = eph \<and> cp' = cp"
proof -
  have "take 16 m = H2_DOMAIN" using payload_length [OF assms(1)] by simp
  moreover obtain t where "b = KEX_DOMAIN @ t" using bind_payload_parts [OF assms(3)] by metis
  then have "take 16 b = KEX_DOMAIN" by (simp add: KEX_DOMAIN_def)
  ultimately have "m \<noteq> b" by (auto simp: H2_DOMAIN_def KEX_DOMAIN_def)
  with payload_inj [OF assms(1,2)] bind_payload_inj [OF assms(3,4)] show ?thesis by metis
qed

definition the_payload :: string where
  "the_payload = (case payload (h2_val (demo_request ''RUN'' 2)) 200 of Inr m \<Rightarrow> m | Inl _ \<Rightarrow> [])"

definition the_bind :: string where
  "the_bind = (case bind_payload (h2_val (demo_request ''BIND'' 0)) (replicate 64 (CHR ''c'')) (replicate 64 (CHR ''f'')) of Inr m \<Rightarrow> m | Inl _ \<Rightarrow> [])"

text \<open>The same request with its fields in another order.\<close>

definition reordered :: "h2_request \<Rightarrow> pyval" where
  "reordered r = (case h2_val r of PDict d \<Rightarrow> PDict (rev d) | v \<Rightarrow> v)"

theorem led_payload_binds_witness:
  "the_payload \<noteq> the_bind \<and> context_of (reordered (demo_request ''RUN'' 2)) = context_of (h2_val (demo_request ''RUN'' 2)) \<and> (200 :: int) = 200 \<and>
    context_of (reordered (demo_request ''BIND'' 0)) = context_of (h2_val (demo_request ''BIND'' 0)) \<and>
    replicate 64 (CHR ''c'') = replicate 64 (CHR ''c'') \<and> replicate 64 (CHR ''f'') = replicate 64 (CHR ''f'')"
proof (rule led_payload_binds)
  show "payload (h2_val (demo_request ''RUN'' 2)) 200 = Inr the_payload" by code_simp
  show "payload (reordered (demo_request ''RUN'' 2)) 200 = Inr the_payload" by code_simp
  show "bind_payload (h2_val (demo_request ''BIND'' 0)) (replicate 64 (CHR ''c'')) (replicate 64 (CHR ''f'')) = Inr the_bind" by code_simp
  show "bind_payload (reordered (demo_request ''BIND'' 0)) (replicate 64 (CHR ''c'')) (replicate 64 (CHR ''f'')) = Inr the_bind" by code_simp
qed

text \<open>
  C33. A frame that \<^verbatim>\<open>send_line\<close> accepted arrives whole: however the stream cuts it into nonempty
  pieces, \<^verbatim>\<open>receive_line\<close> returns exactly its bytes when every piece comes before the deadline.
\<close>

theorem ipc_frame_roundtrip:
  assumes "send_line dl t0 t1 raw = Inr sent" and "concat (map (\<lambda>(s, c, t). c) ps) = sent"
    and "list_all (\<lambda>(s, c, t). s < dl' \<and> t < dl' \<and> c \<noteq> []) ps"
  shows "receive_line dl' [] (map (\<lambda>(s, c, t). Recv s c t) ps) = Inr raw"
proof -
  from assms(1) have r: "sent = raw" "one_line raw" "length raw \<le> 513"
    by (auto simp: send_line_def rbind_Inr_iff split: if_splits)
  then have "ps \<noteq> []" using assms(2) by (auto simp: one_line_def)
  then show ?thesis using receive_line_pieces [of "[]" ps dl'] r assms(2,3) by (auto simp: list_all_iff)
qed

theorem ipc_frame_roundtrip_witness:
  "receive_line 9 [] (map (\<lambda>(s, c, t). Recv s c t) [(1, ''{'', 2), (3, ''}'' @ [newline], 4)]) = Inr (''{}'' @ [newline])"
  by (rule ipc_frame_roundtrip [of 5 0 1 "''{}'' @ [newline]"]) (simp_all add: send_line_def one_line_def remaining_check_def)

section \<open>The relay\<close>

text \<open>
  C16. The relay has no authority: whatever the authorizer, the controller and the clocks do, every line
  it writes to the controller is an unsigned query or the frame of an answer that came over the socket
  for exactly that challenge, and the answers it asks for are one BIND, one ARM and then RUNs, numbered
  from 0 within one controller session.
\<close>

theorem relay_carries:
  "case relay e install connect n of (res, s) \<Rightarrow>
     list_all (carried (rs_answers s)) (pl_sent (rs_link s)) \<and> (\<exists>b. asked b (rs_answers s))"
proof (cases "relay e install connect n")
  case (Pair res s)
  from relay_over(1) [OF Pair] Pair show ?thesis by (auto simp: over_def relay_inv_def list_all_iff)
qed

text \<open>
  C31. The relay ends with STOP: once \<^verbatim>\<open>relay\<close> has returned or raised, for whatever reason, the last thing
  it wrote to the port is the whole STOP line, unless the port itself did not take it within 50 ms: then
  it is what the port's writes took, and the write gave up at the last turn made, where the deadline had
  passed, the port was not ready or took no byte.
\<close>

theorem relay_stops:
  "case relay e install connect n of
     (Inr None, s) \<Rightarrow> True
   | (_, s) \<Rightarrow> (\<exists>ws w. pl_sent (rs_link s) = ws @ [w] \<and>
       (w = ''H2 STOP'' @ [newline] \<or> cut_off (rv_serial e) (''H2 STOP'' @ [newline]) w (pl_turn (rs_link s))))"
proof (cases "relay e install connect n")
  case (Pair res s)
  from relay_over(2) [OF Pair] Pair show ?thesis
    by (auto simp: query_line_def split: sum.split option.split)
qed

section \<open>The unauthenticated bench\<close>


text \<open>
  The calls of the bench host, in every run, follow the automaton: HELLO, ARM, then turns of STATUS,
  a gate cycle and, after an approval only, RUN; and a run that ended has ended with STOP.
\<close>

theorem host_calls_refine:
  "case host_run e gate token scenario seconds n of
     (r, Some h) \<Rightarrow> hrun Closed (hs_calls h) \<noteq> None \<and> (r = Inr None \<or> (\<exists>cs. hs_calls h = cs @ [Exchange ''STOP'' (1 / 20)]))
   | (r, None) \<Rightarrow> (\<exists>x. r = Inl x)"
proof (cases "host_run e gate token scenario seconds n")
  case (Pair r ho)
  show ?thesis
  proof (cases ho)
    case None
    with Pair show ?thesis by (auto simp: host_run_def split: if_splits sum.splits prod.splits option.splits)
  next
    case (Some h)
    with host_run_order [of e gate token scenario seconds n r h] Pair show ?thesis
      by (auto simp del: not_None_eq) (metis append_butlast_last_id)+
  qed
qed

lemma hrun_ops: "hrun p cs \<noteq> None \<Longrightarrow> Exchange op t \<in> set cs \<Longrightarrow> op \<in> {''HELLO'', ''ARM'', ''STATUS'', ''RUN'', ''STOP''}"
proof (induction cs arbitrary: p)
  case (Cons c cs)
  then show ?case by (cases c) (auto split: option.splits if_splits hphase.splits)
qed simp

lemma hrun_calls:
  assumes "hrun Closed cs \<noteq> None" and "i < length cs"
  shows "case cs ! i of
        Exchange op t \<Rightarrow> op = ''RUN'' \<and> 0 < i \<and> cs ! (i - 1) = Cycle True \<and> 0 < t \<and> t \<le> 1 / 20 \<or> op \<in> {''HELLO'', ''ARM'', ''STATUS'', ''STOP''}
      | Cycle True \<Rightarrow> True
      | Cycle False \<Rightarrow> list_all (\<lambda>c. case c of Exchange op t \<Rightarrow> op = ''STOP'' | Cycle _ \<Rightarrow> False) (drop (Suc i) cs)"
proof -
  have split: "cs = take i cs @ cs ! i # drop (Suc i) cs" using assms(2) by (simp add: id_take_nth_drop)
  show ?thesis
  proof (cases "cs ! i")
    case (Exchange op t)
    then have ops: "op \<in> {''HELLO'', ''ARM'', ''STATUS'', ''RUN'', ''STOP''}" using hrun_ops [OF assms(1)] assms(2) by (metis nth_mem)
    show ?thesis
    proof (cases "op = ''RUN''")
      case True
      with assms(1) split Exchange have "hrun Closed (take i cs @ Exchange ''RUN'' t # drop (Suc i) cs) \<noteq> None" by metis
      then obtain pre where pre: "take i cs = pre @ [Cycle True]" "0 < t" "t \<le> 1 / 20" using hrun_RUN by blast
      then have "length pre + 1 = i" using assms(2) by (metis length_append_singleton length_take less_imp_le min.absorb2 Suc_eq_plus1)
      then have "take i cs ! (i - 1) = Cycle True" "0 < i" using pre(1) by (auto simp: nth_append)
      with True Exchange pre(2,3) show ?thesis by simp
    next
      case False
      with ops Exchange show ?thesis by auto
    qed
  next
    case (Cycle b)
    show ?thesis
    proof (cases b)
      case False
      with assms(1) split Cycle have "hrun Closed (take i cs @ Cycle False # drop (Suc i) cs) \<noteq> None" by metis
      from hrun_denied [OF this] have "\<forall>c\<in>set (drop (Suc i) cs). \<exists>t. c = Exchange ''STOP'' t" by blast
      then show ?thesis using Cycle False by (auto simp: list_all_iff)
    qed (simp add: Cycle)
  qed
qed

text \<open>
  C15. The LED is only driven on a fresh approval: in every run of the bench host each RUN comes right
  after a gate cycle that answered True and gives the device at most 50 ms, and after a denial nothing
  but STOP is ever sent.
\<close>

theorem host_drives_on_approval:
  "case host_run e gate token scenario seconds n of
     (r, None) \<Rightarrow> True
   | (r, Some h) \<Rightarrow> list_all (\<lambda>i. case hs_calls h ! i of
        Exchange op t \<Rightarrow> op = ''RUN'' \<and> 0 < i \<and> hs_calls h ! (i - 1) = Cycle True \<and> 0 < t \<and> t \<le> 1 / 20 \<or> op \<in> {''HELLO'', ''ARM'', ''STATUS'', ''STOP''}
      | Cycle True \<Rightarrow> True
      | Cycle False \<Rightarrow> list_all (\<lambda>c. case c of Exchange op t \<Rightarrow> op = ''STOP'' | Cycle _ \<Rightarrow> False) (drop (Suc i) (hs_calls h)))
      [0..<length (hs_calls h)]"
proof (cases "host_run e gate token scenario seconds n")
  case (Pair r ho)
  show ?thesis
  proof (cases ho)
    case (Some h)
    with host_run_order [of e gate token scenario seconds n r h] Pair have w: "hrun Closed (hs_calls h) \<noteq> None" by simp
    show ?thesis using Pair Some hrun_calls [OF w] by (simp add: list_all_iff)
  qed (simp add: Pair)
qed

text \<open>
  C30. The bench host ends: with a clock that never goes back and sleeps that take their 25 ms, a session of
  at most 30 seconds has returned or raised within 1241 turns of its loop.
\<close>

theorem host_session_ends:
  assumes "sleeps_advance e" and "1 \<le> seconds" and "seconds \<le> 30" and "1240 < n"
  shows "fst (host_run e gate token scenario seconds n) \<noteq> Inr None"
  using assms by (rule host_run_ends)

definition demo_serial :: serial_env where
  "demo_serial = \<lparr>sv_now = of_nat, sv_ready = \<lambda>i. True, sv_count = \<lambda>i. 1, sv_data = \<lambda>i. ''x''\<rparr>"

definition demo_host_env :: host_env where
  "demo_host_env = \<lparr>hv_bench = demo_bench_env, hv_serial = demo_serial, hv_now = \<lambda>s i. of_nat (s + i) / 40\<rparr>"

theorem host_session_ends_witness:
  "fst (host_run demo_host_env (Inr demo_bench) (Inr ''t'') ''allow'' 5 1241) \<noteq> Inr None"
proof (rule host_session_ends)
  show "sleeps_advance demo_host_env"
    by (auto simp: sleeps_advance_def demo_host_env_def divide_right_mono add_divide_distrib)
qed simp_all

end
