(* ===== verification/Log_Text.thy ===== *)
theory Log_Text
  imports Bytes
begin

text \<open>
  What the evidence rules read: the lines of a log (\<^verbatim>\<open>str.splitlines\<close>, \<^verbatim>\<open>str.strip\<close>,
  \<^verbatim>\<open>startswith\<close>, \<^verbatim>\<open>partition\<close>), its JSON rows and chains of time stamps. A \<^verbatim>\<open>str\<close> is its UTF-8
  encoding, so line ends and spaces outside ASCII are matched by their byte sequences.
\<close>

type_synonym row = "(string \<times> pyval) list"

text \<open>The first \<open>n\<close> code points of a text.\<close>

fun utake :: "nat \<Rightarrow> string \<Rightarrow> string" where
  "utake n [] = []"
| "utake n (c # s) =
     (if 128 \<le> (of_char c :: nat) \<and> (of_char c :: nat) < 192 then c # utake n s
      else case n of 0 \<Rightarrow> [] | Suc m \<Rightarrow> c # utake m s)"

section \<open>Lines\<close>

abbreviation byte :: "nat \<Rightarrow> char" where
  "byte \<equiv> char_of"

text \<open>The length of the line end at the head of a text: \<^verbatim>\<open>\n \v \f \r \r\n\<close>, FS, GS, RS, NEL, LS, PS.\<close>

definition line_end :: "string \<Rightarrow> nat" where
  "line_end s =
     (let b = map (of_char :: char \<Rightarrow> nat) (take 3 s) in
      if b \<noteq> [] \<and> hd b = 13 then (if 2 \<le> length b \<and> b ! 1 = 10 then 2 else 1)
      else if b \<noteq> [] \<and> hd b \<in> {10, 11, 12, 28, 29, 30} then 1
      else if take 2 b = [194, 133] then 2
      else if b = [226, 128, 168] \<or> b = [226, 128, 169] then 3
      else 0)"

text \<open>\<^verbatim>\<open>splitlines()\<close>: \<open>cur\<close> is the line read so far; no empty line after a final line end.\<close>

function split_lines :: "string \<Rightarrow> string \<Rightarrow> string list" where
  "split_lines cur [] = (if cur = [] then [] else [cur])"
| "split_lines cur (c # s) =
     (if line_end (c # s) = 0 then split_lines (cur @ [c]) s
      else cur # split_lines [] (drop (line_end (c # s)) (c # s)))"
  by pat_completeness auto
termination by (relation "measure (\<lambda>(cur, s). length s)") (auto simp: not_less)

definition splitlines :: "string \<Rightarrow> string list" where
  "splitlines s = split_lines [] s"

text \<open>The complete lines of \<^verbatim>\<open>splitlines(keepends=True)\<close> that end with a newline, with their end.\<close>

function newline_rows :: "string \<Rightarrow> string \<Rightarrow> string list" where
  "newline_rows cur [] = []"
| "newline_rows cur (c # s) =
     (let n = line_end (c # s) in
      if n = 0 then newline_rows (cur @ [c]) s
      else let row = cur @ take n (c # s); rest = newline_rows [] (drop n (c # s)) in
           if last row = newline then row # rest else rest)"
  by pat_completeness auto
termination by (relation "measure (\<lambda>(cur, s). length s)") (auto simp: not_less)

text \<open>The length of the white space character at the head of a text, 0 when there is none.\<close>

definition space_head :: "nat list \<Rightarrow> nat" where
  "space_head b =
     (if b \<noteq> [] \<and> (hd b = 32 \<or> 9 \<le> hd b \<and> hd b \<le> 13 \<or> 28 \<le> hd b \<and> hd b \<le> 31) then 1
      else if take 2 b = [194, 133] \<or> take 2 b = [194, 160] then 2
      else if take 3 b \<in> {[225, 154, 128], [226, 128, 168], [226, 128, 169], [226, 128, 175], [226, 129, 159], [227, 128, 128]} then 3
      else if take 2 b = [226, 128] \<and> 3 \<le> length b \<and> 128 \<le> b ! 2 \<and> b ! 2 \<le> 138 then 3
      else 0)"

text \<open>\<^verbatim>\<open>line.strip()\<close> is empty.\<close>

function blank_bytes :: "nat list \<Rightarrow> bool" where
  "blank_bytes b = (if b = [] then True else if space_head b = 0 then False else blank_bytes (drop (space_head b) b))"
  by pat_completeness auto
termination by (relation "measure length") (auto simp: not_less)

declare blank_bytes.simps [simp del]

definition blank :: "string \<Rightarrow> bool" where
  "blank s = blank_bytes (map of_char s)"

text \<open>\<^verbatim>\<open>line.strip() == t\<close> for a text \<open>t\<close> with no white space at its ends: \<open>t\<close> between two blanks.\<close>

definition stripped_is :: "string \<Rightarrow> string \<Rightarrow> bool" where
  "stripped_is t s \<longleftrightarrow> (\<exists>i\<in>{0..length s}. blank (take i s) \<and> is_prefix t (drop i s) \<and> blank (drop (i + length t) s))"

definition nonblank :: "string list \<Rightarrow> string list" where
  "nonblank ls = filter (\<lambda>l. \<not> blank l) ls"

definition starts_with :: "string list \<Rightarrow> string \<Rightarrow> bool" where
  "starts_with ps s \<longleftrightarrow> list_ex (\<lambda>p. is_prefix p s) ps"

text \<open>\<^verbatim>\<open>s.partition(": ")\<close>: the head and, when the separator is there, the rest.\<close>

fun cut_colon :: "string \<Rightarrow> string \<times> string option" where
  "cut_colon [] = ([], None)"
| "cut_colon (c # s) =
     (if is_prefix '': '' (c # s) then ([], Some (drop 1 s))
      else case cut_colon s of (h, r) \<Rightarrow> (c # h, r))"

text \<open>\<^verbatim>\<open>0|[1-9][0-9]*\<close>\<close>

definition is_decimal :: "string \<Rightarrow> bool" where
  "is_decimal s \<longleftrightarrow> s = ''0'' \<or> s \<noteq> [] \<and> hd s \<noteq> CHR ''0'' \<and> list_all is_digit s"

section \<open>Rows\<close>

text \<open>\<^verbatim>\<open>json.loads\<close> is a parameter: \<open>None\<close> stands for its \<^verbatim>\<open>ValueError\<close>.\<close>

type_synonym loads = "string \<Rightarrow> pyval option"

definition json_dict :: "loads \<Rightarrow> string \<Rightarrow> row option" where
  "json_dict ld line = (case ld line of Some (PDict d) \<Rightarrow> Some d | _ \<Rightarrow> None)"

definition json_rows :: "loads \<Rightarrow> string list \<Rightarrow> string \<Rightarrow> row list" where
  "json_rows ld ls event = filter (\<lambda>d. getf d ''event'' = PStr event) (List.map_filter (json_dict ld) ls)"

definition without_event :: "loads \<Rightarrow> string list \<Rightarrow> string \<Rightarrow> string list" where
  "without_event ld ls event = filter (\<lambda>l. json_rows ld [l] event = []) ls"

text \<open>\<^verbatim>\<open>isinstance(v, list) and v and all(isinstance(row, dict) for row in v)\<close>\<close>

definition dict_rows :: "pyval \<Rightarrow> row list option" where
  "dict_rows v = (case v of
     PList xs \<Rightarrow> if xs \<noteq> [] \<and> list_all is_dict xs then Some (map dict_or_empty xs) else None
   | _ \<Rightarrow> None)"

definition has_field :: "string \<Rightarrow> row \<Rightarrow> bool" where
  "has_field k d \<longleftrightarrow> k \<in> fst ` set d"

text \<open>\<^verbatim>\<open>all(type(v) is int and v >= 0 for v in vs) and vs == sorted(vs)\<close>\<close>

definition int_chain :: "pyval list \<Rightarrow> bool" where
  "int_chain vs \<longleftrightarrow> list_all (\<lambda>v. case as_int v of Some n \<Rightarrow> 0 \<le> n | None \<Rightarrow> False) vs \<and> sorted (map (\<lambda>v. case as_int v of Some n \<Rightarrow> n | None \<Rightarrow> 0) vs)"

fun find_index :: "('a \<Rightarrow> bool) \<Rightarrow> 'a list \<Rightarrow> nat option" where
  "find_index P [] = None"
| "find_index P (x # xs) = (if P x then Some 0 else map_option Suc (find_index P xs))"

lemma find_index_Some: "find_index P xs = Some i \<Longrightarrow> i < length xs \<and> P (xs ! i) \<and> (\<forall>j<i. \<not> P (xs ! j))"
proof (induction xs arbitrary: i)
  case Nil
  then show ?case by simp
next
  case (Cons x xs)
  then show ?case by (auto simp: less_Suc_eq_0_disj split: if_splits)
qed

lemma find_index_None: "find_index P xs = None \<longleftrightarrow> (\<forall>x\<in>set xs. \<not> P x)"
  by (induction xs) auto

lemma json_rows_event: "d \<in> set (json_rows ld ls ev) \<Longrightarrow> getf d ''event'' = PStr ev"
  by (simp add: json_rows_def)

lemma json_rows_none: "json_rows ld (without_event ld ls ev) ev = []"
  by (induction ls) (auto simp: without_event_def json_rows_def map_filter_def)

text \<open>No line of a text contains a line end; the lines of a text without one are the text itself.\<close>

definition one_text_line :: "string \<Rightarrow> bool" where
  "one_text_line s \<longleftrightarrow> list_all (\<lambda>c. (of_char c :: nat) \<notin> {10, 11, 12, 13, 28, 29, 30, 194, 226}) s"

lemma line_end_plain: "(of_char c :: nat) \<notin> {10, 11, 12, 13, 28, 29, 30, 194, 226} \<Longrightarrow> line_end (c # s) = 0"
  by (auto simp: line_end_def Let_def)

lemma split_lines_plain: "one_text_line l \<Longrightarrow> split_lines cur (l @ newline # s) = (cur @ l) # split_lines [] s"
proof (induction l arbitrary: cur)
  case Nil
  have "line_end (newline # s) = 1" by (simp add: line_end_def Let_def)
  then show ?case by simp
next
  case (Cons c l)
  then show ?case by (simp add: one_text_line_def line_end_plain)
qed

lemma splitlines_plain: "list_all one_text_line ls \<Longrightarrow> splitlines (concat (map (\<lambda>l. l @ [newline]) ls)) = ls"
  by (induction ls) (auto simp: splitlines_def split_lines_plain)

section \<open>Texts inside a log\<close>

lemma is_prefix_iff: "is_prefix p s \<longleftrightarrow> (\<exists>r. s = p @ r)"
  by (induction p s rule: is_prefix.induct) auto

lemma is_infix_iff: "is_infix p s \<longleftrightarrow> (\<exists>a b. s = a @ p @ b)"
proof (induction p s rule: is_infix.induct)
  case (1 p)
  then show ?case by auto
next
  case (2 p y ys)
  show ?case
  proof
    assume "is_infix p (y # ys)"
    then consider "is_prefix p (y # ys)" | "is_infix p ys" by auto
    then show "\<exists>a b. y # ys = a @ p @ b"
    proof cases
      case 1
      then obtain r where "y # ys = [] @ p @ r" by (auto simp: is_prefix_iff)
      then show ?thesis by blast
    next
      case 2
      with "2.IH" obtain a b where "y # ys = (y # a) @ p @ b" by auto
      then show ?thesis by blast
    qed
  next
    assume "\<exists>a b. y # ys = a @ p @ b"
    then obtain a b where e: "y # ys = a @ p @ b" by blast
    show "is_infix p (y # ys)"
    proof (cases a)
      case Nil
      with e have "is_prefix p (y # ys)" unfolding is_prefix_iff by auto
      then show ?thesis by simp
    next
      case (Cons c a')
      with e have "ys = a' @ p @ b" by simp
      then have "is_infix p ys" using "2.IH" by blast
      then show ?thesis by simp
    qed
  qed
qed

lemma split_lines_infix: "l \<in> set (split_lines cur s) \<Longrightarrow> is_infix l (cur @ s)"
proof (induction cur s rule: split_lines.induct)
  case (1 cur)
  then have "cur @ [] = [] @ l @ []" by (simp split: if_splits)
  then show ?case unfolding is_infix_iff by blast
next
  case (2 cur c s)
  let ?n = "line_end (c # s)"
  show ?case
  proof (cases "?n = 0")
    case True
    with 2 show ?thesis by simp
  next
    case False
    with "2.prems" consider "l = cur" | "l \<in> set (split_lines [] (drop ?n (c # s)))" by auto
    then show ?thesis
    proof cases
      case 1
      then have "cur @ c # s = [] @ l @ (c # s)" by simp
      then show ?thesis unfolding is_infix_iff by blast
    next
      case 2
      with "2.IH"(2) False obtain a b where "drop ?n (c # s) = a @ l @ b" by (auto simp: is_infix_iff)
      then have "cur @ c # s = (cur @ take ?n (c # s) @ a) @ l @ b" by (metis append.assoc append_take_drop_id)
      then show ?thesis unfolding is_infix_iff by blast
    qed
  qed
qed

lemma splitlines_infix: "l \<in> set (splitlines s) \<Longrightarrow> is_infix l s"
  using split_lines_infix [of l "[]" s] by (simp add: splitlines_def)

lemma line_marker: "l \<in> set (splitlines s) \<Longrightarrow> is_prefix m l \<Longrightarrow> is_infix m s"
proof -
  assume "l \<in> set (splitlines s)" "is_prefix m l"
  then obtain a b r where "s = a @ l @ b" "l = m @ r" using splitlines_infix is_infix_iff is_prefix_iff by metis
  then have "s = a @ m @ (r @ b)" by simp
  then show ?thesis unfolding is_infix_iff by blast
qed

end
