(* ===== verification/Bench_Evidence.thy ===== *)
theory Bench_Evidence
  imports Log_Text
begin

text \<open>
  The evidence rules of the two LED benches (\<^verbatim>\<open>tools/bench_evidence.py\<close>): which ended attempt was a
  measured fail-closed timing loss (and may be restarted) and which is a failure, the renewal
  timing of a device log and the bounded number of attempts. \<^verbatim>\<open>json.loads\<close> is the parameter \<open>ld\<close>;
  device rows and diagnostics are the dicts it returned. Quotients of nanoseconds are exact.
\<close>

section \<open>Constants\<close>

definition HOST_ATTEMPTS :: nat where "HOST_ATTEMPTS = 3"
definition LEASE_MS :: int where "LEASE_MS = 200"
definition OBSERVATION_MS :: int where "OBSERVATION_MS = 300"
definition WORLD_MAX_AGE_MS :: int where "WORLD_MAX_AGE_MS = 200"

definition SETUP_REASONS :: "pyval list" where
  "SETUP_REASONS = [PStr ''armed'', PStr ''bound'']"

definition STARTUP_REASONS :: "pyval list" where
  "STARTUP_REASONS = [PStr ''boot'', PStr ''hello'', PStr ''bound'', PStr ''armed'']"

definition DEADLINE_STOPS :: "string list" where
  "DEADLINE_STOPS = [''lease'', ''stop'', ''stale'']"

definition TRACEBACK :: string where
  "TRACEBACK = ''Traceback (most recent call last):''"

abbreviation on :: "row \<Rightarrow> bool" where
  "on e \<equiv> truthy (getf e ''on'')"

section \<open>Scheduling loss\<close>

definition num_between :: "int \<Rightarrow> pyval \<Rightarrow> bool" where
  "num_between lo v \<longleftrightarrow> is_number v \<and> (case num_of v of Some x \<Rightarrow> num_le (NFin (of_int lo)) x \<and> num_lt x (NInf False) | None \<Rightarrow> False)"

text \<open>\<^verbatim>\<open>200 <= stop["device_ms"] - prior[-1]["renewed_ms"] <= 300\<close>; a difference with a non-finite operand is in no range.\<close>

definition lease_delay :: "row \<Rightarrow> row \<Rightarrow> bool res" where
  "lease_delay stop prior = rbind (dix (PDict stop) ''device_ms'') (\<lambda>d. rbind (dix (PDict prior) ''renewed_ms'') (\<lambda>r.
     (case (num_of d, num_of r) of
        (Some (NFin x), Some (NFin y)) \<Rightarrow> Inr (200 \<le> x - y \<and> x - y \<le> 300)
      | (Some _, Some _) \<Rightarrow> Inr False
      | _ \<Rightarrow> Inl TypeError)))"

text \<open>The loop over the rows: \<open>prior\<close> is the last ON row before.\<close>

fun lease_stop :: "row option \<Rightarrow> row list \<Rightarrow> row option res" where
  "lease_stop prior [] = Inr None"
| "lease_stop prior (stop # rest) =
     (case prior of
        None \<Rightarrow> lease_stop (if on stop then Some stop else None) rest
      | Some p \<Rightarrow>
          if on stop \<or> getf stop ''reason'' \<noteq> PStr ''lease'' then lease_stop (if on stop then Some stop else prior) rest
          else rbind (lease_delay stop p) (\<lambda>inside. if inside \<and> \<not> list_ex on rest then Inr (Some stop) else lease_stop prior rest))"

definition scheduling_loss :: "loads \<Rightarrow> string \<Rightarrow> int \<Rightarrow> string \<Rightarrow> row list \<Rightarrow> row option res" where
  "scheduling_loss ld lg code scenario events =
     (if code \<noteq> 1 \<or> scenario \<noteq> ''allow'' \<or> \<not> is_infix ''device lease locked; explicit new run required'' lg then Inr None
      else case json_rows ld (splitlines lg) ''device_lease_expired'' of
        [marker] \<Rightarrow>
          if getf marker ''status'' \<noteq> PStr ''LOCKED'' \<or> getf marker ''automatic_rearm'' \<noteq> PBool False \<or>
             \<not> num_between 200 (getf marker ''host_gap_ms'')
          then Inr None else lease_stop None events
      | _ \<Rightarrow> Inr None)"

section \<open>Device rows\<close>

text \<open>\<^verbatim>\<open>renewals\<close>: \<open>last\<close> is the last stamp kept.\<close>

fun renewals_from :: "int option \<Rightarrow> row list \<Rightarrow> int list" where
  "renewals_from prev [] = []"
| "renewals_from prev (e # es) =
     (case as_int (getf e ''renewed_ms'') of
        Some n \<Rightarrow> if getf e ''reason'' \<in> {PStr ''armed'', PStr ''run''} \<and> prev \<noteq> Some n then n # renewals_from (Some n) es
                  else renewals_from prev es
      | None \<Rightarrow> renewals_from prev es)"

definition renewals :: "row list \<Rightarrow> int list" where
  "renewals events = renewals_from None events"

definition device_settled :: "row list \<Rightarrow> bool" where
  "device_settled events \<longleftrightarrow> events \<noteq> [] \<and> \<not> on (last events) \<and> getf (last events) ''reason'' \<notin> set STARTUP_REASONS"

fun first_stop_from :: "bool \<Rightarrow> row list \<Rightarrow> row option" where
  "first_stop_from positive [] = None"
| "first_stop_from positive (e # es) =
     (if getf e ''on'' = PBool True then first_stop_from True es
      else if positive \<and> getf e ''on'' = PBool False then Some e
      else first_stop_from positive es)"

definition first_stop_after_on :: "row list \<Rightarrow> string option \<Rightarrow> row option" where
  "first_stop_after_on events reason =
     (case first_stop_from False events of
        None \<Rightarrow> None
      | Some e \<Rightarrow> (case reason of None \<Rightarrow> Some e | Some r \<Rightarrow> if getf e ''reason'' = PStr r then Some e else None))"

text \<open>The evidence values of \<^verbatim>\<open>fail_closed_stop\<close>.\<close>

record stop_evidence =
  se_positive :: bool
  se_reason :: string
  se_renewal :: pyval
  se_delay :: int
  se_max_gap :: "int option"
  se_lateness :: "int option"

definition gaps :: "int list \<Rightarrow> int list" where
  "gaps ns = map (\<lambda>(a, b). b - a) (zip ns (tl ns))"

definition max_gap :: "int list \<Rightarrow> int option" where
  "max_gap ns = (if gaps ns = [] then None else Some (Max (set (gaps ns))))"

text \<open>The governing renewal and the first failure.\<close>

definition stop_pair :: "row list \<Rightarrow> (row \<times> row option) option" where
  "stop_pair events =
     (case find_index on events of
        None \<Rightarrow> (case find_index (\<lambda>e. getf e ''reason'' = PStr ''armed'') events of
            None \<Rightarrow> None
          | Some armed \<Rightarrow> Some (events ! armed, List.find (\<lambda>e. getf e ''reason'' \<notin> set SETUP_REASONS) (drop (armed + 1) events)))
      | Some first_on \<Rightarrow> (case find_index (\<lambda>e. \<not> on e) (drop (first_on + 1) events) of
            None \<Rightarrow> None
          | Some k \<Rightarrow> (let off = first_on + 1 + k in
              if list_ex on (drop (off + 1) events) then None else Some (events ! (off - 1), Some (events ! off)))))"

definition fail_closed_stop :: "row list \<Rightarrow> string list \<Rightarrow> stop_evidence option" where
  "fail_closed_stop events accepted =
     (case stop_pair events of
        Some (renewal, Some failure) \<Rightarrow>
          (case (getf failure ''reason'', as_int (getf failure ''device_ms''), as_int (getf renewal ''renewed_ms'')) of
             (PStr reason, Some stopped, Some renewed) \<Rightarrow>
               (let delay = stopped - renewed in
                if on failure \<or> reason \<notin> set accepted then None
                else if (if reason \<in> {''lease'', ''unarmed''} then delay < LEASE_MS else \<not> (0 \<le> delay \<and> delay \<le> OBSERVATION_MS)) then None
                else Some \<lparr>se_positive = list_ex on events, se_reason = reason, se_renewal = getf renewal ''reason'', se_delay = delay,
                           se_max_gap = max_gap (renewals events), se_lateness = (if reason = ''lease'' then Some (delay - LEASE_MS) else None)\<rparr>)
           | _ \<Rightarrow> None)
      | _ \<Rightarrow> None)"

section \<open>Losses\<close>

text \<open>A loss: the device evidence, its kind and error, and the further values of the record.\<close>

datatype ev = EvVal pyval | EvMs "rat option"

record loss =
  ls_stop :: stop_evidence
  ls_kind :: string
  ls_error :: string
  ls_more :: "(string \<times> ev) list"

text \<open>\<^verbatim>\<open>round((end_ns - start_ns) / 1e6, 3)\<close>\<close>

definition elapsed_ms :: "pyval \<Rightarrow> pyval \<Rightarrow> rat option" where
  "elapsed_ms start_ns end_ns = (case (as_int start_ns, as_int end_ns) of
     (Some a, Some b) \<Rightarrow> Some (of_int (round_half_even (of_int (b - a) / 1000)) / 1000)
   | _ \<Rightarrow> None)"

definition normal_row :: "row \<Rightarrow> bool" where
  "normal_row r \<longleftrightarrow> getf r ''mode'' = PStr ''normal'' \<and> getf r ''vla_armed'' = PBool True \<and> getf r ''recorder_ok'' = PBool True \<and>
     getf r ''state_ok'' = PBool True \<and> getf r ''arm_cancelling'' = PBool False"

text \<open>The two cycles of the diagnostic: an approved one's last response, the denied one's only response.\<close>

definition expiry_rows :: "pyval \<Rightarrow> (row \<times> row) option" where
  "expiry_rows cycles =
     (case cycles of
        PList [PDict approved, PDict denied] \<Rightarrow>
          (case (getf approved ''responses'', getf denied ''responses'') of
             (PList previous, PList [PDict world]) \<Rightarrow>
               if getf approved ''result'' = PStr ''approved'' \<and> getf denied ''result'' = PStr ''denied'' \<and> previous \<noteq> []
               then (case last previous of PDict motion \<Rightarrow> Some (motion, world) | _ \<Rightarrow> None) else None
           | _ \<Rightarrow> None)
      | _ \<Rightarrow> None)"

definition gate_expiry_evidence :: "pyval \<Rightarrow> row list \<Rightarrow> loss option" where
  "gate_expiry_evidence cycles events =
     (case expiry_rows cycles of
        None \<Rightarrow> None
      | Some (motion, world) \<Rightarrow>
          if getf motion ''phase'' \<noteq> PStr ''motion'' \<or> getf motion ''outcome'' \<noteq> PStr ''decision'' \<or> getf motion ''verdict'' \<noteq> PStr ''yun'' \<or>
             getf motion ''stop'' \<noteq> PNone \<or> getf motion ''command_zero'' \<noteq> PBool False \<or> getf motion ''active_present'' \<noteq> PBool True \<or>
             getf world ''phase'' \<noteq> PStr ''world'' \<or> getf world ''outcome'' \<noteq> PStr ''world_updated'' \<or> getf world ''stop'' \<noteq> PStr ''expired'' \<or>
             getf world ''status_stop'' \<noteq> PStr ''expired'' \<or> getf world ''rejection_reason'' \<noteq> PNone \<or>
             getf world ''command_zero'' \<noteq> PBool True \<or> getf world ''active_present'' \<noteq> PBool False \<or>
             \<not> normal_row motion \<or> \<not> normal_row world
          then None
          else (case (as_int (getf motion ''decision_expires_ms''), as_int (getf world ''request_t_ms'')) of
              (Some expiry, Some req) \<Rightarrow>
                if \<not> (0 \<le> expiry \<and> expiry \<le> req) \<or> \<not> eq_int (getf motion ''active_expires_ms'') expiry \<or>
                   \<not> int_chain [getf motion ''response_received_ns'', getf world ''request_started_ns'', getf world ''response_received_ns'']
                then None
                else map_option (\<lambda>stop. \<lparr>ls_stop = stop, ls_kind = ''gate-expiry'', ls_error = ''pre-fault signed command expired'',
                       ls_more = [(''decision_expires_ms'', EvVal (PInt expiry)), (''denied_request_t_ms'', EvVal (PInt req))]\<rparr>)
                     (fail_closed_stop events [''lease'', ''stop''])
            | _ \<Rightarrow> None))"

section \<open>The signed bench\<close>

definition H2_ERROR_PREFIX :: string where
  "H2_ERROR_PREFIX = ''permit '' @ map byte [0xEC, 0x98, 0xA4, 0xEB, 0xA5, 0x98] @ '': ''"

definition H2_LEASE :: string where
  "H2_LEASE = ''controller locked; explicit operator restart required''"

definition H2_REPLY_PREFIX :: string where
  "H2_REPLY_PREFIX = ''invalid H2 controller response: ''"

definition H2_DEADLINES :: "string list" where
  "H2_DEADLINES = [''timed out'', ''permit IPC frame deadline expired'', ''authorizer permit arrived late'',
     ''late controller acknowledgment'', ''H2 USB response timeout'', ''H2 USB write timeout'']"

definition H2_DECISIONS :: "string list" where
  "H2_DECISIONS = [''Authorizer fault injected:'', ''Authorizer terminal:'']"

definition drop_prefix :: "string \<Rightarrow> string \<Rightarrow> string option" where
  "drop_prefix p s = (if is_prefix p s then Some (drop (length p) s) else None)"

text \<open>\<^verbatim>\<open>H2_LOCKED_REPLY.fullmatch\<close>: the fields between single spaces.\<close>

definition h2_locked_reply :: "string \<Rightarrow> bool" where
  "h2_locked_reply s =
     (case drop_prefix H2_REPLY_PREFIX s of
        None \<Rightarrow> False
      | Some t \<Rightarrow> (let fs = split_on (CHR '' '') t in
          length fs = 11 \<and> take 2 fs = [''H2'', ''ERR''] \<and> is_hex 32 (fs ! 2) \<and> list_all is_decimal (take 5 (drop 3 fs)) \<and>
          is_hex 32 (fs ! 8) \<and> fs ! 9 = ''LOCKED'' \<and> fs ! 10 \<in> {''unarmed'', ''lease''}))"

definition decision_lines :: "string list \<Rightarrow> string list" where
  "decision_lines ls = filter (starts_with H2_DECISIONS) ls"

definition h2_gate_expiry_loss :: "loads \<Rightarrow> string \<Rightarrow> int \<Rightarrow> string \<Rightarrow> row list \<Rightarrow> loss option" where
  "h2_gate_expiry_loss ld relay_log code authorizer_log events =
     (if code \<noteq> 0 \<or> is_infix TRACEBACK relay_log \<or> is_infix TRACEBACK authorizer_log \<or>
         is_infix H2_ERROR_PREFIX relay_log \<or> is_infix H2_ERROR_PREFIX authorizer_log \<or>
         decision_lines (splitlines authorizer_log) \<noteq> [''Authorizer terminal: gate_denied'']
      then None
      else case (json_rows ld (splitlines relay_log) ''permit_terminal'', json_rows ld (splitlines authorizer_log) ''permit_gate_denial_diagnostic'') of
        ([terminal], [denial]) \<Rightarrow>
          (case (dict_rows (getf terminal ''stages''), dict_rows (getf denial ''stages'')) of
             (Some left, Some right) \<Rightarrow>
               (let relay = last left; auth = last right in
                if getf terminal ''reason'' \<noteq> PStr ''gate_denied'' \<or> getf relay ''op'' \<noteq> PStr ''RUN'' \<or>
                   has_field ''controller_ack_ns'' relay \<or> has_field ''sign_completed_ns'' auth
                then None
                else case (gate_expiry_evidence (getf denial ''cycles'') events, expiry_rows (getf denial ''cycles'')) of
                  (Some evidence, Some (_, world)) \<Rightarrow>
                    if int_chain [getf relay ''request_send_started_ns'', getf relay ''request_sent_ns'', getf relay ''response_first_byte_ns'',
                           getf relay ''response_received_ns'', getf relay ''controller_stop_ack_ns''] \<and>
                       int_chain [getf relay ''request_send_started_ns'', getf auth ''request_first_byte_ns'', getf auth ''request_received_ns'',
                           getf auth ''gate_started_ns'', getf world ''request_started_ns'', getf world ''response_received_ns'',
                           getf auth ''gate_completed_ns'', getf auth ''response_send_started_ns'', getf auth ''response_sent_ns''] \<and>
                       int_chain [getf auth ''response_send_started_ns'', getf relay ''response_first_byte_ns'']
                    then Some evidence else None
                | _ \<Rightarrow> None)
           | _ \<Rightarrow> None)
      | _ \<Rightarrow> None)"

text \<open>\<^verbatim>\<open>authorizer_stage\<close>: the first read at or after the relay started sending.\<close>

definition first_byte :: "row \<Rightarrow> int" where
  "first_byte r = (case as_int (getf r ''request_first_byte_ns'') of Some n \<Rightarrow> n | None \<Rightarrow> 0)"

fun earliest :: "row \<Rightarrow> row list \<Rightarrow> row" where
  "earliest best [] = best"
| "earliest best (r # rs) = earliest (if first_byte r < first_byte best then r else best) rs"

definition authorizer_stage :: "loads \<Rightarrow> string \<Rightarrow> row \<Rightarrow> row option" where
  "authorizer_stage ld authorizer_log relay_stage =
     (let traces = json_rows ld (splitlines authorizer_log) ''permit_ipc_failure'' in
      case as_int (getf relay_stage ''request_send_started_ns'') of
        None \<Rightarrow> None
      | Some started \<Rightarrow>
          if traces = [] then None
          else (case getf (last traces) ''stages'' of
              PList stages \<Rightarrow>
                (case filter (\<lambda>r. case as_int (getf r ''request_first_byte_ns'') of Some n \<Rightarrow> started \<le> n | None \<Rightarrow> False)
                        (map dict_or_empty (filter is_dict stages)) of
                   [] \<Rightarrow> None | r # rs \<Rightarrow> Some (earliest r rs))
            | _ \<Rightarrow> None))"

definition authorizer_timing :: "loads \<Rightarrow> string \<Rightarrow> row \<Rightarrow> (string \<times> ev) list" where
  "authorizer_timing ld authorizer_log relay_stage =
     (case authorizer_stage ld authorizer_log relay_stage of
        None \<Rightarrow> [(''authorizer_read_delay_ms'', EvMs None), (''gate_cycle_ms'', EvMs None)]
      | Some r \<Rightarrow> [(''authorizer_read_delay_ms'', EvMs (elapsed_ms (getf relay_stage ''request_sent_ns'') (getf r ''request_first_byte_ns''))),
                   (''gate_cycle_ms'', EvMs (elapsed_ms (getf r ''gate_started_ns'') (getf r ''gate_completed_ns'')))])"

definition h2_error_kind :: "string \<Rightarrow> (string \<times> string list) option" where
  "h2_error_kind error =
     (if error = H2_LEASE then Some (''lease'', [''lease''])
      else if h2_locked_reply error then Some (''lease'', [''lease'', ''unarmed''])
      else if error \<in> set H2_DEADLINES then Some (''deadline'', DEADLINE_STOPS)
      else None)"

text \<open>A reply that reached the relay without an acknowledgment needs a completed send.\<close>

definition unlogged_terminal :: "loads \<Rightarrow> string \<Rightarrow> row \<Rightarrow> bool" where
  "unlogged_terminal ld authorizer_log stage \<longleftrightarrow>
     has_field ''response_received_ns'' stage \<and> \<not> has_field ''controller_ack_ns'' stage \<and>
     (case authorizer_stage ld authorizer_log stage of None \<Rightarrow> True | Some r \<Rightarrow> as_int (getf r ''response_sent_ns'') = None)"

definition h2_timing_loss :: "loads \<Rightarrow> string \<Rightarrow> int \<Rightarrow> string \<Rightarrow> row list \<Rightarrow> loss option" where
  "h2_timing_loss ld relay_log code authorizer_log events =
     (let lines = nonblank (splitlines relay_log) in
      if code \<noteq> 1 \<or> lines = [] \<or> \<not> is_prefix H2_ERROR_PREFIX (last lines) then None
      else (let error = drop (length H2_ERROR_PREFIX) (last lines) in
      case h2_error_kind error of
        None \<Rightarrow> None
      | Some (kind, accepted) \<Rightarrow>
          if list_ex (\<lambda>m. is_infix m authorizer_log) H2_DECISIONS \<or> is_infix TRACEBACK authorizer_log \<or> is_infix TRACEBACK relay_log then None
          else (case json_rows ld lines ''permit_ipc_failure'' of
              [trace] \<Rightarrow> (case dict_rows (getf trace ''stages'') of
                  None \<Rightarrow> None
                | Some stages \<Rightarrow>
                    if \<not> list_all (\<lambda>s. getf s ''op'' \<in> {PStr ''BIND'', PStr ''ARM'', PStr ''RUN''}) stages \<or>
                       unlogged_terminal ld authorizer_log (last stages)
                    then None
                    else map_option (\<lambda>stop. \<lparr>ls_stop = stop, ls_kind = kind, ls_error = error,
                           ls_more = (''relay_last_stage'', EvVal (PDict (last stages))) # authorizer_timing ld authorizer_log (last stages)\<rparr>)
                         (fail_closed_stop events accepted))
            | _ \<Rightarrow> None)))"

text \<open>\<^verbatim>\<open>h2_rejected_fault_stop\<close>\<close>

record rejection_evidence =
  re_reason :: string
  re_error :: string
  re_gate_cycle_ms :: "rat option"
  re_terminal_sent_ms :: "rat option"

definition expected_rejection :: "string \<Rightarrow> string option" where
  "expected_rejection scenario = map_of [(''replay'', ''replay''), (''invalid-signature'', ''signature'')] scenario"

definition rejected_rows :: "string \<Rightarrow> row \<Rightarrow> row \<Rightarrow> bool" where
  "rejected_rows expected world motion \<longleftrightarrow>
     getf world ''phase'' = PStr ''world'' \<and> getf world ''outcome'' = PStr ''world_updated'' \<and> getf world ''stop'' = PNone \<and>
     getf motion ''phase'' = PStr ''motion'' \<and> getf motion ''outcome'' = PStr ''rejected'' \<and>
     getf motion ''rejection_reason'' = PStr expected \<and> getf motion ''command_zero'' = PBool True \<and>
     getf motion ''stop'' = PStr ''denied'' \<and> getf motion ''status_stop'' = PStr ''denied'' \<and>
     getf motion ''vla_armed'' = PBool False \<and> getf motion ''active_present'' = PBool False \<and>
     getf motion ''mode'' = PStr ''normal'' \<and> getf motion ''recorder_ok'' = PBool True \<and>
     getf motion ''state_ok'' = PBool True \<and> getf motion ''arm_cancelling'' = PBool False"

definition rejected_cycle :: "row \<Rightarrow> (row \<times> row) option" where
  "rejected_cycle cycle = (case getf cycle ''responses'' of
     PList [PDict world, PDict motion] \<Rightarrow> if getf cycle ''result'' = PStr ''denied'' then Some (world, motion) else None
   | _ \<Rightarrow> None)"

definition h2_rejected_fault_stop :: "loads \<Rightarrow> string \<Rightarrow> int \<Rightarrow> string \<Rightarrow> row list \<Rightarrow> string \<Rightarrow> rejection_evidence option" where
  "h2_rejected_fault_stop ld relay_log code authorizer_log events scenario =
     (let lines = nonblank (splitlines relay_log); auth_lines = nonblank (splitlines authorizer_log) in
      case expected_rejection scenario of
        None \<Rightarrow> None
      | Some expected \<Rightarrow>
          if code \<noteq> 1 \<or> lines = [] \<or>
             last lines \<notin> {H2_ERROR_PREFIX @ ''timed out'', H2_ERROR_PREFIX @ ''permit IPC frame deadline expired''} \<or>
             is_infix TRACEBACK relay_log \<or> is_infix TRACEBACK authorizer_log \<or>
             list_ex (is_prefix H2_ERROR_PREFIX) auth_lines \<or>
             decision_lines auth_lines \<noteq> [''Authorizer fault injected: '' @ scenario, ''Authorizer terminal: gate_denied'']
          then None
          else (case (json_rows ld lines ''permit_ipc_failure'', json_rows ld auth_lines ''permit_gate_denial_diagnostic'') of
              ([trace], [denial]) \<Rightarrow>
                (case (dict_rows (getf trace ''stages''), dict_rows (getf denial ''stages''), dict_rows (getf denial ''cycles'')) of
                   (Some relay_stages, Some stages, Some cycles) \<Rightarrow>
                     (let relay = last relay_stages; auth = last stages in
                      case rejected_cycle (last cycles) of
                        None \<Rightarrow> None
                      | Some (world, motion) \<Rightarrow>
                          if getf relay ''op'' \<noteq> PStr ''RUN'' \<or> has_field ''response_received_ns'' relay \<or> has_field ''controller_ack_ns'' relay \<or>
                             has_field ''sign_completed_ns'' auth \<or> \<not> rejected_rows expected world motion \<or>
                             \<not> int_chain [getf relay ''started_ns'', getf relay ''request_send_started_ns'', getf relay ''request_sent_ns'',
                                  getf auth ''request_first_byte_ns'', getf auth ''request_received_ns'', getf auth ''gate_started_ns'',
                                  getf world ''request_started_ns'', getf world ''response_received_ns'',
                                  getf motion ''request_started_ns'', getf motion ''response_received_ns'',
                                  getf auth ''gate_completed_ns'', getf auth ''response_send_started_ns'', getf auth ''response_sent_ns'']
                          then None
                          else (case fail_closed_stop events DEADLINE_STOPS of
                              None \<Rightarrow> None
                            | Some stop \<Rightarrow>
                                if \<not> se_positive stop \<or> \<not> (0 \<le> se_delay stop \<and> se_delay stop \<le> OBSERVATION_MS) then None
                                else Some \<lparr>re_reason = expected, re_error = drop (length H2_ERROR_PREFIX) (last lines),
                                           re_gate_cycle_ms = elapsed_ms (getf auth ''gate_started_ns'') (getf auth ''gate_completed_ns''),
                                           re_terminal_sent_ms = elapsed_ms (getf relay ''started_ns'') (getf auth ''response_sent_ns'')\<rparr>))
                 | _ \<Rightarrow> None)
            | _ \<Rightarrow> None))"

section \<open>The unsigned bench\<close>

definition H1_LEASE :: string where
  "H1_LEASE = ''device lease locked; explicit new run required''"

definition H1_REPLY_PREFIX :: string where
  "H1_REPLY_PREFIX = ''unexpected USB response: ''"

definition H1_USB_DEADLINES :: "string list" where
  "H1_USB_DEADLINES = [''USB response timeout'', ''USB write timeout'']"

definition H1_STOP_CALL :: string where
  "H1_STOP_CALL = ''link.exchange('' @ [CHR 0x22] @ ''STOP'' @ [CHR 0x22] @ '')''"

text \<open>The Korean words of the host's lines, in UTF-8.\<close>

definition K_TEST :: string where "K_TEST = map byte [0xEC, 0x8B, 0x9C, 0xED, 0x97, 0x98]"
definition K_BLOCK :: string where "K_BLOCK = map byte [0xEC, 0xB0, 0xA8, 0xEB, 0x8B, 0xA8]"
definition K_END :: string where "K_END = map byte [0xEC, 0xA2, 0x85, 0xEB, 0xA3, 0x8C]"

definition H1_DECISIONS :: "string list" where
  "H1_DECISIONS = [K_TEST @ '': '', K_BLOCK @ '': '', K_TEST @ '' '' @ K_END @ '': '']"

definition H1_ALLOWED :: string where
  "H1_ALLOWED = map byte [0xED, 0x97, 0x88, 0xEC, 0x9A, 0xA9] @
     '': LED ON ('' @
     map byte [0xED, 0x85, 0x8C, 0xEC, 0x8A, 0xA4, 0xED, 0x8A, 0xB8] @
     '' '' @
     map byte [0xEB, 0xAA, 0x85, 0xEB, 0xA0, 0xB9, 0xEC, 0x9D, 0xB4] @
     '' '' @
     map byte [0xED, 0x86, 0xB5, 0xEA, 0xB3, 0xBC] @
     '' '' @
     map byte [0xEC, 0xA4, 0x91] @
     '')''"

definition H1_DENIED :: string where
  "H1_DENIED = map byte [0xEC, 0xB0, 0xA8, 0xEB, 0x8B, 0xA8] @
     '': LED OFF, '' @
     map byte [0xEC, 0x9E, 0xAC, 0xEC, 0x8B, 0x9C, 0xEC, 0x9E, 0x91, 0xEC, 0x9D, 0x80] @
     '' '' @
     map byte [0xEC, 0x83, 0x88] @
     '' run '' @
     map byte [0xEB, 0xAA, 0x85, 0xEB, 0xA0, 0xB9, 0xEC, 0x9C, 0xBC, 0xEB, 0xA1, 0x9C, 0xEB, 0xA7, 0x8C] @
     '' '' @
     map byte [0xEA, 0xB0, 0x80, 0xEB, 0x8A, 0xA5, 0xED, 0x95, 0xA9, 0xEB, 0x8B, 0x88, 0xEB, 0x8B, 0xA4] @
     ''.''"

definition H1_WORLD_LOSS :: string where
  "H1_WORLD_LOSS = map byte [0xEC, 0x8B, 0x9C, 0xED, 0x97, 0x98] @
     '': '' @
     map byte [0xEC, 0x84, 0xB8, 0xEA, 0xB3, 0x84] @
     '' '' @
     map byte [0xEC, 0x9E, 0x85, 0xEB, 0xA0, 0xA5] @
     '' '' @
     map byte [0xEA, 0xB0, 0xB1, 0xEC, 0x8B, 0xA0, 0xEC, 0x9D, 0x84] @
     '' '' @
     map byte [0xEB, 0x81, 0x8A, 0xEC, 0x8A, 0xB5, 0xEB, 0x8B, 0x88, 0xEB, 0x8B, 0xA4]"

definition H1_ERROR_DIAGNOSTIC :: string where
  "H1_ERROR_DIAGNOSTIC = ''bench_gate_error_diagnostic''"

text \<open>\<^verbatim>\<open>H1_LOCKED_REPLY.fullmatch\<close>, \<^verbatim>\<open>H1_STALE.fullmatch\<close>\<close>

definition h1_locked_reply :: "string \<Rightarrow> bool" where
  "h1_locked_reply s =
     (case drop_prefix H1_REPLY_PREFIX s of
        None \<Rightarrow> False
      | Some t \<Rightarrow> (let fs = split_on (CHR '' '') t in
          length fs = 7 \<and> take 2 fs = [''H1'', ''ERR''] \<and> is_hex 16 (fs ! 2) \<and> is_decimal (fs ! 3) \<and> is_decimal (fs ! 4) \<and>
          fs ! 5 = ''LOCKED'' \<and> fs ! 6 \<in> {''unarmed'', ''lease''}))"

definition tenths :: "string \<Rightarrow> bool" where
  "tenths s \<longleftrightarrow> (case split_on (CHR ''.'') s of [a, b] \<Rightarrow> a \<noteq> [] \<and> list_all is_digit a \<and> length b = 1 \<and> list_all is_digit b | _ \<Rightarrow> False)"

definition h1_stale :: "string \<Rightarrow> bool" where
  "h1_stale s \<longleftrightarrow> (case split_on (CHR '' '') s of
     [a, b, c, d, t, f, g, h, i] \<Rightarrow> [a, b, c, d] = [''stale'', ''actuation'', ''response:'', ''elapsed''] \<and> tenths t \<and> [f, g, h, i] = [''ms'', ''>='', ''50'', ''ms'']
   | _ \<Rightarrow> False)"

text \<open>The parsed ready file, \<open>PNone\<close> when the host never wrote one: no fault was injected.\<close>

definition fault_null :: "pyval \<Rightarrow> bool" where
  "fault_null ready \<longleftrightarrow> (case ready of PDict d \<Rightarrow> map_of d ''fault'' = Some PNone | _ \<Rightarrow> False)"

definition h1_gate_expiry_loss :: "loads \<Rightarrow> string \<Rightarrow> int \<Rightarrow> pyval \<Rightarrow> row list \<Rightarrow> loss option" where
  "h1_gate_expiry_loss ld host_log code ready events =
     (if code \<noteq> 0 \<or> is_infix TRACEBACK host_log \<or> (ready \<noteq> PNone \<and> \<not> fault_null ready) then None
      else let lines = nonblank (splitlines host_log); functional = without_event ld lines ''bench_gate_denial_diagnostic'' in
      case json_rows ld lines ''bench_gate_denial_diagnostic'' of
        [diagnostic] \<Rightarrow>
          if functional \<notin> {[H1_DENIED], [H1_ALLOWED, H1_DENIED]} then None
          else (case gate_expiry_evidence (getf diagnostic ''cycles'') events of
              None \<Rightarrow> None
            | Some evidence \<Rightarrow>
                if se_positive (ls_stop evidence) \<noteq> (functional = [H1_ALLOWED, H1_DENIED]) then None else Some evidence)
      | _ \<Rightarrow> None)"

text \<open>\<^verbatim>\<open>h1_pause_gate_stop\<close>: the three stamps of a row, and the rows after the lease.\<close>

definition stamps :: "row \<Rightarrow> (int \<times> int \<times> int) option" where
  "stamps e = (case (as_int (getf e ''device_ms''), as_int (getf e ''renewed_ms''), as_int (getf e ''sequence'')) of
     (Some d, Some r, Some s) \<Rightarrow> Some (d, r, s) | _ \<Rightarrow> None)"

fun pause_tail :: "int \<Rightarrow> int \<Rightarrow> int \<Rightarrow> int \<Rightarrow> row list \<Rightarrow> bool" where
  "pause_tail renewed limit ms seq [] = True"
| "pause_tail renewed limit ms seq (e # es) =
     (case stamps e of
        None \<Rightarrow> False
      | Some (d, r, s) \<Rightarrow> r = renewed \<and> getf e ''on'' = PBool False \<and> getf e ''reason'' = PStr ''stop'' \<and> seq < s \<and> s \<le> limit \<and> ms \<le> d \<and>
          pause_tail renewed limit d s es)"

definition h1_pause_gate_stop :: "loads \<Rightarrow> string \<Rightarrow> int \<Rightarrow> pyval \<Rightarrow> row list \<Rightarrow> row \<Rightarrow> int option" where
  "h1_pause_gate_stop ld host_log code ready events stopped =
     (let lines = nonblank (splitlines host_log) in
      if 1 < length (json_rows ld lines ''bench_gate_denial_diagnostic'') \<or> code \<noteq> 0 \<or>
         without_event ld lines ''bench_gate_denial_diagnostic'' \<noteq> [H1_ALLOWED, H1_DENIED] \<or> \<not> fault_null ready
      then None
      else case find_index (\<lambda>e. getf e ''on'' = PBool True) events of
        None \<Rightarrow> None
      | Some first_on \<Rightarrow> (case find_index (\<lambda>e. getf e ''on'' \<noteq> PBool True) (drop (first_on + 1) events) of
          None \<Rightarrow> None
        | Some k \<Rightarrow>
            (let off = first_on + 1 + k; tail = drop (off + 1) events in
             if off < first_on + 2 \<or> \<not> pyeq (PDict (events ! off)) (PDict stopped) \<or> tail = [] then None
             else (case (stamps (events ! (off - 2)), stamps (events ! (off - 1)), stamps (events ! off)) of
                 (Some (run_ms, renewed, run_seq), Some (status_ms, status_renewed, seq), Some (lease_ms, lease_renewed, lease_seq)) \<Rightarrow>
                   if getf (events ! (off - 2)) ''reason'' \<noteq> PStr ''run'' \<or> getf (events ! (off - 1)) ''reason'' \<noteq> PStr ''run'' \<or>
                      seq \<noteq> run_seq + 1 \<or> lease_seq \<noteq> seq \<or>
                      getf (events ! off) ''on'' \<noteq> PBool False \<or> getf (events ! off) ''reason'' \<noteq> PStr ''lease'' \<or>
                      status_renewed \<noteq> renewed \<or> lease_renewed \<noteq> renewed \<or>
                      \<not> (0 \<le> renewed \<and> renewed \<le> run_ms \<and> run_ms \<le> status_ms \<and> status_ms \<le> lease_ms) \<or>
                      \<not> (LEASE_MS \<le> lease_ms - renewed \<and> lease_ms - renewed \<le> OBSERVATION_MS) \<or>
                      \<not> pause_tail renewed (seq + 2) lease_ms lease_seq tail
                   then None else Some (lease_ms - renewed)
               | _ \<Rightarrow> None))))"

definition h1_error_kind :: "string \<Rightarrow> (string \<times> string list) option" where
  "h1_error_kind line =
     (case cut_colon line of
        (exception, Some message) \<Rightarrow>
          if exception = ''bench_link.LinkError'' \<and> message = H1_LEASE then Some (''lease'', [''lease''])
          else if exception = ''bench_link.LinkError'' \<and> h1_locked_reply message then Some (''lease'', [''lease'', ''unarmed''])
          else if exception = ''bench_link.LinkError'' \<and> message \<in> set H1_USB_DEADLINES then Some (''deadline'', DEADLINE_STOPS)
          else if exception = ''bridge.StaleActuation'' \<and> h1_stale message then Some (''deadline'', DEADLINE_STOPS)
          else if exception = ''bridge.BridgeFailure'' \<and> message = ''gate response timeout'' then Some (''deadline'', DEADLINE_STOPS)
          else None
      | _ \<Rightarrow> None)"

definition ready_fault :: "pyval \<Rightarrow> pyval" where
  "ready_fault ready = getf (dict_or_empty ready) ''fault''"

definition h1_timing_loss :: "loads \<Rightarrow> string \<Rightarrow> int \<Rightarrow> pyval \<Rightarrow> row list \<Rightarrow> loss option" where
  "h1_timing_loss ld host_log code ready events =
     (let lines = nonblank (splitlines host_log) in
      if code \<noteq> 1 \<or> lines = [] \<or> TRACEBACK \<notin> set lines then None
      else case h1_error_kind (last lines) of
        None \<Rightarrow> None
      | Some (kind, accepted) \<Rightarrow>
          if ready \<noteq> PNone \<and> \<not> (is_dict ready \<and> ready_fault ready = PNone) \<or>
             list_ex (\<lambda>l. starts_with H1_DECISIONS l \<or> stripped_is H1_STOP_CALL l) lines
          then None
          else map_option (\<lambda>stop. \<lparr>ls_stop = stop, ls_kind = kind, ls_error = last lines, ls_more = []\<rparr>) (fail_closed_stop events accepted))"

definition world_loss_fresh_approval :: "pyval \<Rightarrow> (row \<times> int) option" where
  "world_loss_fresh_approval cycles =
     (case cycles of
        PList cs \<Rightarrow> if cs = [] then None else (case last cs of
            PDict cycle \<Rightarrow> (case getf cycle ''responses'' of
                PList [PDict motion] \<Rightarrow>
                  (case as_int (getf motion ''world_age_ms'') of
                     None \<Rightarrow> None
                   | Some age \<Rightarrow>
                       if getf cycle ''result'' \<notin> {PStr ''incomplete'', PStr ''approved''} \<or>
                          getf motion ''phase'' \<noteq> PStr ''motion'' \<or> getf motion ''outcome'' \<noteq> PStr ''decision'' \<or>
                          getf motion ''verdict'' \<noteq> PStr ''yun'' \<or> getf motion ''stop'' \<noteq> PNone \<or> getf motion ''status_stop'' \<noteq> PNone \<or>
                          getf motion ''rejection_reason'' \<noteq> PNone \<or> getf motion ''command_zero'' \<noteq> PBool False \<or>
                          getf motion ''active_present'' \<noteq> PBool True \<or> \<not> normal_row motion \<or> \<not> (0 \<le> age \<and> age < WORLD_MAX_AGE_MS)
                       then None else Some (motion, age))
              | _ \<Rightarrow> None)
          | _ \<Rightarrow> None)
      | _ \<Rightarrow> None)"

definition last_result :: "pyval \<Rightarrow> pyval" where
  "last_result cycles = (case cycles of PList cs \<Rightarrow> if cs = [] then PNone else getf (dict_or_empty (last cs)) ''result'' | _ \<Rightarrow> PNone)"

text \<open>An incomplete cycle ends at its own deadline; an approved one also at a later USB or lease error.\<close>

definition known_answer :: "string \<Rightarrow> pyval \<Rightarrow> bool" where
  "known_answer line result \<longleftrightarrow>
     (case cut_colon line of (exception, rest) \<Rightarrow>
        (exception = ''bridge.StaleActuation'' \<and> h1_stale (case rest of None \<Rightarrow> [] | Some m \<Rightarrow> m)) \<or>
        (result \<noteq> PStr ''incomplete'' \<and> exception = ''bench_link.LinkError''))"

definition h1_world_loss_timing_loss :: "loads \<Rightarrow> string \<Rightarrow> int \<Rightarrow> pyval \<Rightarrow> row list \<Rightarrow> loss option" where
  "h1_world_loss_timing_loss ld host_log code ready events =
     (let lines = nonblank (splitlines host_log) in
      if code \<noteq> 1 \<or> lines = [] \<or> TRACEBACK \<notin> set lines then None
      else case h1_error_kind (last lines) of
        None \<Rightarrow> None
      | Some (kind, accepted) \<Rightarrow>
          (let head = without_event ld (without_event ld (takeWhile (\<lambda>l. l \<noteq> TRACEBACK) lines) H1_ERROR_DIAGNOSTIC) ''device_lease_expired'' in
           if \<not> (is_dict ready \<and> ready_fault ready = PStr ''world-loss'') \<or> head \<noteq> [H1_ALLOWED, H1_WORLD_LOSS] \<or>
              list_ex (stripped_is H1_STOP_CALL) lines
           then None
           else (case json_rows ld lines H1_ERROR_DIAGNOSTIC of
               [diagnostic] \<Rightarrow>
                 (let cycles = getf diagnostic ''cycles'' in
                  case world_loss_fresh_approval cycles of
                    None \<Rightarrow> None
                  | Some (motion, age) \<Rightarrow>
                      if \<not> known_answer (last lines) (last_result cycles) then None
                      else (case fail_closed_stop events accepted of
                          None \<Rightarrow> None
                        | Some stop \<Rightarrow>
                            if \<not> se_positive stop then None
                            else Some \<lparr>ls_stop = stop, ls_kind = kind, ls_error = last lines,
                              ls_more = [(''fault'', EvVal (PStr ''world-loss'')), (''world_age_ms'', EvVal (PInt age)),
                                (''cycle_ms_at_response'', EvVal (getf motion ''elapsed_ms'')),
                                (''gate_round_trip_ms'', EvMs (elapsed_ms (getf motion ''request_started_ns'') (getf motion ''response_received_ns'')))]\<rparr>))
             | _ \<Rightarrow> None)))"

section \<open>What the evidence means\<close>

text \<open>
  From the failure row on, the device is OFF: \<open>stopped_at events i\<close>.
\<close>

definition stopped_at :: "row list \<Rightarrow> nat \<Rightarrow> bool" where
  "stopped_at events i \<longleftrightarrow> i < length events \<and> (\<forall>j. i \<le> j \<and> j < length events \<longrightarrow> \<not> on (events ! j))"

lemma not_ex_on: "\<not> list_ex on (drop n events) \<Longrightarrow> n \<le> j \<Longrightarrow> j < length events \<Longrightarrow> \<not> on (events ! j)"
proof -
  assume a: "\<not> list_ex on (drop n events)" "n \<le> j" "j < length events"
  then have "events ! j = drop n events ! (j - n)" "j - n < length (drop n events)" by simp_all
  then have "events ! j \<in> set (drop n events)" by (metis nth_mem)
  with a(1) show ?thesis by (auto simp: list_ex_iff)
qed

lemma stop_pair_sound:
  assumes "stop_pair events = Some (renewal, Some failure)" and "\<not> on failure"
  shows "\<exists>r i. r < i \<and> stopped_at events i \<and> events ! r = renewal \<and> events ! i = failure \<and> (list_ex on events \<longrightarrow> on (events ! (i - 1)))"
proof (cases "find_index on events")
  case None
  then have off: "\<forall>x\<in>set events. \<not> on x" by (simp add: find_index_None)
  from assms None obtain armed where f: "find_index (\<lambda>e. getf e ''reason'' = PStr ''armed'') events = Some armed"
    "renewal = events ! armed" "List.find (\<lambda>e. getf e ''reason'' \<notin> set SETUP_REASONS) (drop (armed + 1) events) = Some failure"
    by (auto simp: stop_pair_def split: option.splits)
  then have "failure \<in> set (drop (armed + 1) events)" by (auto simp: find_Some_iff in_set_conv_nth)
  then obtain k where k: "k < length (drop (armed + 1) events)" "drop (armed + 1) events ! k = failure" by (auto simp: in_set_conv_nth)
  then have "stopped_at events (armed + 1 + k)" "events ! (armed + 1 + k) = failure" using off by (auto simp: stopped_at_def)
  moreover have "\<not> list_ex on events" using off by (auto simp: list_ex_iff)
  ultimately show ?thesis using f(2) by (intro exI [of _ armed] exI [of _ "armed + 1 + k"]) auto
next
  case (Some first_on)
  then obtain k where k: "find_index (\<lambda>e. \<not> on e) (drop (first_on + 1) events) = Some k"
    "\<not> list_ex on (drop (first_on + 1 + k + 1) events)" "renewal = events ! (first_on + 1 + k - 1)" "failure = events ! (first_on + 1 + k)"
    using assms by (auto simp: stop_pair_def Let_def split: option.splits if_splits)
  note fi = find_index_Some [OF k(1)]
  define i where "i = first_on + 1 + k"
  have l: "i < length events" using fi by (auto simp: i_def)
  have s: "stopped_at events i"
    unfolding stopped_at_def using l not_ex_on [OF k(2)] assms(2) k(4) unfolding i_def by (metis Suc_eq_plus1 le_eq_less_or_eq Suc_leI)
  have "on (events ! (i - 1))"
  proof (cases k)
    case 0
    then show ?thesis using find_index_Some [OF Some] by (simp add: i_def)
  next
    case (Suc m)
    then have "\<not> \<not> on (drop (first_on + 1) events ! m)" using fi by blast
    then show ?thesis using Suc l by (simp add: i_def)
  qed
  then show ?thesis using s k(3,4) by (intro exI [of _ "i - 1"] exI [of _ i]) (auto simp: i_def)
qed

lemma fail_closed_sound:
  assumes "fail_closed_stop events accepted = Some ev"
  shows "\<exists>r i d n. r < i \<and> stopped_at events i \<and> getf (events ! i) ''reason'' = PStr (se_reason ev) \<and> se_reason ev \<in> set accepted \<and>
    getf (events ! i) ''device_ms'' = PInt d \<and> getf (events ! r) ''renewed_ms'' = PInt n \<and> se_delay ev = d - n \<and>
    (if se_reason ev \<in> {''lease'', ''unarmed''} then LEASE_MS \<le> d - n else 0 \<le> d - n \<and> d - n \<le> OBSERVATION_MS) \<and>
    se_positive ev = list_ex on events \<and> (se_positive ev \<longrightarrow> on (events ! (i - 1)))"
proof -
  from assms obtain renewal failure where p: "stop_pair events = Some (renewal, Some failure)"
    by (auto simp: fail_closed_stop_def split: option.splits prod.splits)
  obtain reason d n where f: "getf failure ''reason'' = PStr reason" "as_int (getf failure ''device_ms'') = Some d"
    "as_int (getf renewal ''renewed_ms'') = Some n" "\<not> on failure" "reason \<in> set accepted"
    "\<not> (if reason \<in> {''lease'', ''unarmed''} then d - n < LEASE_MS else \<not> (0 \<le> d - n \<and> d - n \<le> OBSERVATION_MS))"
    "se_reason ev = reason" "se_delay ev = d - n" "se_positive ev = list_ex on events"
    using assms unfolding fail_closed_stop_def p
    by (simp add: Let_def split: pyval.splits option.splits if_split_asm) auto
  obtain r i where i: "r < i" "stopped_at events i" "events ! r = renewal" "events ! i = failure" "list_ex on events \<longrightarrow> on (events ! (i - 1))"
    using stop_pair_sound [OF p f(4)] by blast
  have b: "if reason \<in> {''lease'', ''unarmed''} then LEASE_MS \<le> d - n else 0 \<le> d - n \<and> d - n \<le> OBSERVATION_MS"
    using f(6) by (auto split: if_splits)
  have v: "getf failure ''device_ms'' = PInt d" "getf renewal ''renewed_ms'' = PInt n" using f(2,3) by simp_all
  show ?thesis
    using i f(1,5,7,8,9) b v by (intro exI [of _ r] exI [of _ i] exI [of _ d] exI [of _ n]) simp
qed

text \<open>A loss always carries device evidence, and of which kind.\<close>

lemma gate_expiry_stop: "gate_expiry_evidence cycles events = Some l \<Longrightarrow> fail_closed_stop events [''lease'', ''stop''] = Some (ls_stop l)"
  by (auto simp: gate_expiry_evidence_def split: option.splits prod.splits if_splits)

lemma h2_timing_stop:
  assumes "h2_timing_loss ld rl code al events = Some l"
  shows "\<exists>accepted. set accepted \<subseteq> {''lease'', ''unarmed'', ''stop'', ''stale''} \<and> fail_closed_stop events accepted = Some (ls_stop l)"
proof -
  from assms obtain kind accepted where k: "h2_error_kind (drop (length H2_ERROR_PREFIX) (last (nonblank (splitlines rl)))) = Some (kind, accepted)"
    "fail_closed_stop events accepted = Some (ls_stop l)"
    by (auto simp: h2_timing_loss_def Let_def split: option.splits if_split_asm list.splits)
  then have "set accepted \<subseteq> {''lease'', ''unarmed'', ''stop'', ''stale''}"
    by (auto simp: h2_error_kind_def DEADLINE_STOPS_def split: if_splits)
  with k(2) show ?thesis by blast
qed

lemma h2_timing_silent: "h2_timing_loss ld rl code al events = Some l \<Longrightarrow> code = 1 \<and> (\<forall>m\<in>set H2_DECISIONS. \<not> is_infix m al)"
  by (auto simp: h2_timing_loss_def Let_def list_ex_iff split: option.splits if_split_asm)

lemma decided_infix: "decision_lines (nonblank (splitlines al)) = (l # ls) \<Longrightarrow> \<exists>m\<in>set H2_DECISIONS. is_infix m al"
proof -
  assume "decision_lines (nonblank (splitlines al)) = (l # ls)"
  then have "l \<in> set (decision_lines (nonblank (splitlines al)))" by simp
  then have "l \<in> set (splitlines al)" "starts_with H2_DECISIONS l" by (auto simp: decision_lines_def nonblank_def)
  then show ?thesis using line_marker by (auto simp: starts_with_def list_ex_iff)
qed

text \<open>The three verdicts on a signed attempt exclude each other.\<close>

lemma h2_verdicts_exclusive:
  assumes "h2_timing_loss ld rl code al events = Some l"
  shows "h2_gate_expiry_loss ld rl code al events' = None \<and> h2_rejected_fault_stop ld rl code al events' scenario = None"
proof
  note silent = h2_timing_silent [OF assms]
  show "h2_gate_expiry_loss ld rl code al events' = None" using silent by (simp add: h2_gate_expiry_loss_def)
  show "h2_rejected_fault_stop ld rl code al events' scenario = None"
  proof (rule ccontr)
    assume "h2_rejected_fault_stop ld rl code al events' scenario \<noteq> None"
    then have "decision_lines (nonblank (splitlines al)) = [''Authorizer fault injected: '' @ scenario, ''Authorizer terminal: gate_denied'']"
      by (auto simp: h2_rejected_fault_stop_def Let_def split: option.splits if_split_asm)
    with decided_infix silent show False by blast
  qed
qed

lemma h1_verdicts_exclusive:
  assumes "h1_timing_loss ld lg code ready events = Some l"
  shows "h1_gate_expiry_loss ld lg code ready events' = None \<and> h1_world_loss_timing_loss ld lg code ready events' = None"
proof -
  from assms have "code = 1" "ready = PNone \<or> is_dict ready \<and> ready_fault ready = PNone"
    by (auto simp: h1_timing_loss_def Let_def split: option.splits if_split_asm)
  then show ?thesis
    by (auto simp: h1_gate_expiry_loss_def h1_world_loss_timing_loss_def Let_def split: option.splits)
qed

lemma h1_kind_accepts: "h1_error_kind line = Some (kind, accepted) \<Longrightarrow> set accepted \<subseteq> {''lease'', ''unarmed'', ''stop'', ''stale''}"
  by (auto simp: h1_error_kind_def DEADLINE_STOPS_def split: if_splits option.splits prod.splits)

lemma h1_timing_stop:
  assumes "h1_timing_loss ld lg code ready events = Some l"
  shows "\<exists>accepted. set accepted \<subseteq> {''lease'', ''unarmed'', ''stop'', ''stale''} \<and> fail_closed_stop events accepted = Some (ls_stop l)"
proof -
  from assms obtain kind accepted where "h1_error_kind (last (nonblank (splitlines lg))) = Some (kind, accepted)"
    "fail_closed_stop events accepted = Some (ls_stop l)"
    by (auto simp: h1_timing_loss_def Let_def split: option.splits if_split_asm)
  with h1_kind_accepts show ?thesis by blast
qed

lemma world_loss_stop:
  assumes "h1_world_loss_timing_loss ld lg code ready events = Some l"
  shows "\<exists>accepted. set accepted \<subseteq> {''lease'', ''unarmed'', ''stop'', ''stale''} \<and> fail_closed_stop events accepted = Some (ls_stop l) \<and> se_positive (ls_stop l)"
proof -
  from assms obtain kind accepted where "h1_error_kind (last (nonblank (splitlines lg))) = Some (kind, accepted)"
    "fail_closed_stop events accepted = Some (ls_stop l)" "se_positive (ls_stop l)"
    by (auto simp: h1_world_loss_timing_loss_def Let_def split: option.splits if_split_asm list.splits)
  with h1_kind_accepts show ?thesis by blast
qed

end
