(* ===== verification/Bounded_Attempts.thy ===== *)
theory Bounded_Attempts
  imports Prelude
begin

text \<open>
  The contract of the harnesses' retry loops (\<^verbatim>\<open>bounded_attempts\<close> of \<^verbatim>\<open>tools/bench_evidence.py\<close> and of
  \<^verbatim>\<open>ros/gazebo/permit_attempts.py\<close>): an attempt passes, is inconclusive, or raises anything else; only
  an inconclusive one is followed by another attempt, and a case whose attempts were all
  inconclusive fails.
\<close>

datatype ('a, 'e) outcome = Passed 'a | Inconclusive 'e | Raised exn

text \<open>
  \<open>loop k n s\<close>: the result of the loop at attempt \<open>k\<close> with \<open>n\<close> attempts left; \<open>s\<close> is the record it
  keeps of them.
\<close>

locale retry_loop =
  fixes out :: "nat \<Rightarrow> ('a, 'e) outcome"
    and loop :: "nat \<Rightarrow> nat \<Rightarrow> 's \<Rightarrow> ('a \<times> nat) res \<times> 's"
  assumes exhausted: "\<exists>m. fst (loop k 0 s) = Inl (AssertionError m)"
    and passed: "out k = Passed a \<Longrightarrow> fst (loop k (Suc n) s) = Inr (a, k)"
    and raised: "out k = Raised x \<Longrightarrow> fst (loop k (Suc n) s) = Inl x"
    and again: "out k = Inconclusive e \<Longrightarrow> \<exists>s'. fst (loop k (Suc n) s) = fst (loop (Suc k) n s')"
begin

text \<open>The loop passes exactly with the first attempt that is not inconclusive, when that one passed.\<close>

lemma loop_passes_iff:
  "fst (loop k n s) = Inr (a, j) \<longleftrightarrow>
   k \<le> j \<and> j < k + n \<and> out j = Passed a \<and> (\<forall>i. k \<le> i \<and> i < j \<longrightarrow> (\<exists>e. out i = Inconclusive e))"
proof (induction n arbitrary: k s)
  case 0
  then show ?case using exhausted [of k s] by auto
next
  case (Suc n)
  show ?case
  proof (cases "out k")
    case (Passed b)
    then have "fst (loop k (Suc n) s) = Inr (b, k)" by (rule passed)
    then show ?thesis using Passed by (auto simp: le_less)
  next
    case (Raised x)
    then have "fst (loop k (Suc n) s) = Inl x" by (rule raised)
    then show ?thesis using Raised by (auto simp: le_less)
  next
    case (Inconclusive e)
    then obtain s' where "fst (loop k (Suc n) s) = fst (loop (Suc k) n s')" using again by blast
    then have "fst (loop k (Suc n) s) = Inr (a, j) \<longleftrightarrow>
        Suc k \<le> j \<and> j < Suc k + n \<and> out j = Passed a \<and> (\<forall>i. Suc k \<le> i \<and> i < j \<longrightarrow> (\<exists>e. out i = Inconclusive e))"
      using Suc [of "Suc k" s'] by simp
    also have "\<dots> \<longleftrightarrow> k \<le> j \<and> j < k + Suc n \<and> out j = Passed a \<and> (\<forall>i. k \<le> i \<and> i < j \<longrightarrow> (\<exists>e. out i = Inconclusive e))"
      using Inconclusive by (metis Suc_le_eq add_Suc add_Suc_right le_eq_less_or_eq outcome.distinct(1))
    finally show ?thesis .
  qed
qed

lemma loop_exhausted: "\<forall>i. k \<le> i \<and> i < k + n \<longrightarrow> (\<exists>e. out i = Inconclusive e) \<Longrightarrow> \<exists>m. fst (loop k n s) = Inl (AssertionError m)"
proof (induction n arbitrary: k s)
  case 0
  then show ?case using exhausted by simp
next
  case (Suc n)
  then obtain e where "out k = Inconclusive e" by auto
  then obtain s' where "fst (loop k (Suc n) s) = fst (loop (Suc k) n s')" using again by blast
  moreover have "\<exists>m. fst (loop (Suc k) n s') = Inl (AssertionError m)" using Suc.prems by (intro Suc.IH) auto
  ultimately show ?case by simp
qed

lemma loop_raises: "k \<le> j \<Longrightarrow> j < k + n \<Longrightarrow> out j = Raised x \<Longrightarrow> \<forall>i. k \<le> i \<and> i < j \<longrightarrow> (\<exists>e. out i = Inconclusive e) \<Longrightarrow> fst (loop k n s) = Inl x"
proof (induction n arbitrary: k s)
  case 0
  then show ?case by simp
next
  case (Suc n)
  show ?case
  proof (cases "k = j")
    case True
    with Suc.prems(3) raised show ?thesis by simp
  next
    case False
    with Suc.prems obtain e where "out k = Inconclusive e" by auto
    then obtain s' where "fst (loop k (Suc n) s) = fst (loop (Suc k) n s')" using again by blast
    moreover have "fst (loop (Suc k) n s') = Inl x" using Suc.prems False by (intro Suc.IH) auto
    ultimately show ?thesis by simp
  qed
qed

end

end
