(* ===== verification/Bench_Timing.thy ===== *)
theory Bench_Timing
  imports Bench_Evidence Bounded_Attempts
begin

text \<open>
  The measurements of \<^verbatim>\<open>tools/bench_evidence.py\<close> that are never a verdict (device rows, renewal
  cadence, distributions, the per-attempt record) and its bounded attempts.
\<close>

section \<open>Cadence\<close>

definition read_events :: "loads \<Rightarrow> string \<Rightarrow> row list" where
  "read_events ld text = List.map_filter (json_dict ld) (newline_rows [] text)"

record cadence_state =
  cd_runs :: "int list"
  cd_verified :: "int list"
  cd_armed :: "int option"
  cd_previous :: "row option"

text \<open>A STATUS row just before this RUN row: the H1 sample.\<close>

definition h1_verified :: "row option \<Rightarrow> row \<Rightarrow> int \<Rightarrow> int list" where
  "h1_verified previous event renewed =
     (case previous of
        None \<Rightarrow> []
      | Some p \<Rightarrow> (case (as_int (getf p ''device_ms''), as_int (getf event ''sequence'')) of
          (Some ms, Some s) \<Rightarrow> if eq_int (getf p ''sequence'') (s - 1) then [renewed - ms] else []
        | _ \<Rightarrow> []))"

definition cadence_step :: "string \<Rightarrow> cadence_state \<Rightarrow> row \<Rightarrow> cadence_state" where
  "cadence_step protocol c event =
     (let c' = (case (as_int (getf event ''renewed_ms''), as_int (getf event ''device_ms'')) of
        (Some renewed, Some logged) \<Rightarrow>
          if getf event ''reason'' = PStr ''armed'' \<and> cd_armed c = None then c\<lparr>cd_armed := Some renewed\<rparr>
          else if getf event ''reason'' = PStr ''run'' \<and> on event \<and> (cd_runs c = [] \<or> last (cd_runs c) \<noteq> renewed)
          then c\<lparr>cd_runs := cd_runs c @ [renewed],
                 cd_verified := cd_verified c @ (if protocol = ''H2'' then [logged - renewed] else h1_verified (cd_previous c) event renewed)\<rparr>
          else c
      | _ \<Rightarrow> c)
      in c'\<lparr>cd_previous := Some event\<rparr>)"

record samples =
  sm_gap :: "int list"
  sm_first :: "int list"
  sm_verified :: "int list"

definition cadence :: "row list \<Rightarrow> string \<Rightarrow> samples" where
  "cadence events protocol =
     (let c = foldl (cadence_step protocol) \<lparr>cd_runs = [], cd_verified = [], cd_armed = None, cd_previous = None\<rparr> events
      in \<lparr>sm_gap = gaps (cd_runs c),
          sm_first = (case (cd_runs c, cd_armed c) of (r # _, Some a) \<Rightarrow> [r - a] | _ \<Rightarrow> []),
          sm_verified = cd_verified c\<rparr>)"

text \<open>\<^verbatim>\<open>distribution\<close> of integer samples: the number, p50, p99 and the maximum by nearest rank.\<close>

definition rank :: "int list \<Rightarrow> rat \<Rightarrow> int" where
  "rank ordered q = ordered ! nat (max 0 (\<lceil>q * of_nat (length ordered)\<rceil> - 1))"

record summary =
  su_n :: nat
  su_p50 :: int
  su_p99 :: int
  su_max :: int

definition distribution :: "int list \<Rightarrow> summary option" where
  "distribution values =
     (let ordered = sort values in
      if ordered = [] then None
      else Some \<lparr>su_n = length ordered, su_p50 = rank ordered (1 / 2), su_p99 = rank ordered (99 / 100), su_max = last ordered\<rparr>)"

section \<open>The record of a bench run\<close>

record attempt_row =
  at_case :: string
  at_attempt :: nat
  at_log :: string
  at_outcome :: string
  at_gap :: "summary option res"
  at_first :: "int option"
  at_verified :: "summary option"

record 'e timing =
  tr_protocol :: string
  tr_attempts :: "attempt_row list"
  tr_inconclusive :: "('e \<times> string \<times> nat \<times> string) list"
  tr_samples :: samples

definition timing_init :: "string \<Rightarrow> 'e timing" where
  "timing_init protocol = \<lparr>tr_protocol = protocol, tr_attempts = [], tr_inconclusive = [],
     tr_samples = \<lparr>sm_gap = [], sm_first = [], sm_verified = []\<rparr>\<rparr>"

text \<open>\<^verbatim>\<open>measure\<close>: \<open>device\<close> is what reading the device log gave; its error is recorded, never raised.\<close>

definition measure_attempt :: "string \<Rightarrow> nat \<Rightarrow> string \<Rightarrow> string \<Rightarrow> row list res \<Rightarrow> 'e timing \<Rightarrow> 'e timing" where
  "measure_attempt cs attempt lg outcome device t =
     (case device of
        Inl x \<Rightarrow> t\<lparr>tr_attempts := tr_attempts t @ [\<lparr>at_case = cs, at_attempt = attempt, at_log = lg, at_outcome = outcome,
            at_gap = Inl x, at_first = None, at_verified = None\<rparr>]\<rparr>
      | Inr events \<Rightarrow>
          (let s = cadence events (tr_protocol t) in
           t\<lparr>tr_attempts := tr_attempts t @ [\<lparr>at_case = cs, at_attempt = attempt, at_log = lg, at_outcome = outcome,
               at_gap = Inr (distribution (sm_gap s)), at_first = (case sm_first s of [] \<Rightarrow> None | x # _ \<Rightarrow> Some x),
               at_verified = distribution (sm_verified s)\<rparr>],
             tr_samples := \<lparr>sm_gap = sm_gap (tr_samples t) @ sm_gap s, sm_first = sm_first (tr_samples t) @ sm_first s,
               sm_verified = sm_verified (tr_samples t) @ sm_verified s\<rparr>\<rparr>))"

text \<open>\<^verbatim>\<open>payload\<close>: how many attempts of each case were inconclusive.\<close>

definition inconclusive_by_case :: "'e timing \<Rightarrow> (string \<times> nat) list" where
  "inconclusive_by_case t = foldl (\<lambda>d (_, c, _). dput c (case map_of d c of None \<Rightarrow> 1 | Some n \<Rightarrow> n + 1) d) [] (tr_inconclusive t)"

section \<open>Bounded attempts\<close>

definition attempt_label :: "string \<Rightarrow> nat \<Rightarrow> string" where
  "attempt_label cs number = (if number = 1 then cs else cs @ ''-retry'' @ show_nat (number - 1))"

text \<open>\<^verbatim>\<open>bounded_attempts\<close> at attempt \<open>number\<close>, with \<open>left\<close> attempts to go.\<close>

fun attempts_from :: "string \<Rightarrow> (string \<Rightarrow> ('a, 'e) outcome) \<Rightarrow> (string \<Rightarrow> row list res) \<Rightarrow> nat \<Rightarrow> nat \<Rightarrow> 'e timing \<Rightarrow> ('a \<times> nat) res \<times> 'e timing" where
  "attempts_from cs attempt device number 0 t = (Inl (AssertionError (cs @ '': all attempts were timing-inconclusive'')), t)"
| "attempts_from cs attempt device number (Suc left) t =
     (let label = attempt_label cs number in
      case attempt label of
        Passed r \<Rightarrow> (Inr (r, number), measure_attempt cs number label ''passed'' (device label) t)
      | Inconclusive ev \<Rightarrow>
          attempts_from cs attempt device (Suc number) left
            (measure_attempt cs number label ''inconclusive'' (device label)
               (t\<lparr>tr_inconclusive := tr_inconclusive t @ [(ev, cs, number, label)]\<rparr>))
      | Raised x \<Rightarrow> (Inl x, measure_attempt cs number label ''failed'' (device label) t))"

definition bench_attempts :: "string \<Rightarrow> (string \<Rightarrow> ('a, 'e) outcome) \<Rightarrow> (string \<Rightarrow> row list res) \<Rightarrow> 'e timing \<Rightarrow> ('a \<times> nat) res \<times> 'e timing" where
  "bench_attempts cs attempt device t = attempts_from cs attempt device 1 HOST_ATTEMPTS t"

interpretation bench_retry: retry_loop "\<lambda>k. attempt (attempt_label cs k)" "attempts_from cs attempt device" for cs attempt device
  by unfold_locales (auto simp: Let_def)

section \<open>Lemmas on the measurements\<close>

lemma measured_one: "\<exists>row. tr_attempts (measure_attempt cs n lg out dev u) = tr_attempts u @ [row]"
  by (cases dev) (auto simp: measure_attempt_def Let_def)

lemma attempts_recorded:
  "\<exists>rows. tr_attempts (snd (attempts_from cs attempt device number left t)) = tr_attempts t @ rows \<and> length rows \<le> left"
proof (induction left arbitrary: number t)
  case 0
  show ?case by simp
next
  case (Suc left)
  note m = measured_one
  show ?case
  proof (cases "attempt (attempt_label cs number)")
    case (Inconclusive ev)
    let ?u = "t\<lparr>tr_inconclusive := tr_inconclusive t @ [(ev, cs, number, attempt_label cs number)]\<rparr>"
    let ?t = "measure_attempt cs number (attempt_label cs number) ''inconclusive'' (device (attempt_label cs number)) ?u"
    obtain row where row: "tr_attempts ?t = tr_attempts t @ [row]" using m [of cs number _ _ _ ?u] by fastforce
    obtain rows where "tr_attempts (snd (attempts_from cs attempt device (Suc number) left ?t)) = tr_attempts ?t @ rows" "length rows \<le> left"
      using Suc.IH by blast
    then show ?thesis using Inconclusive row by (intro exI [of _ "row # rows"]) (simp add: Let_def)
  qed (use m in \<open>fastforce simp: Let_def\<close>)+
qed

lemma rank_in_range: "xs \<noteq> [] \<Longrightarrow> 0 \<le> q \<Longrightarrow> q \<le> (1 :: rat) \<Longrightarrow> nat (max 0 (\<lceil>q * of_nat (length xs)\<rceil> - 1)) < length xs"
proof -
  assume a: "xs \<noteq> []" "0 \<le> q" "q \<le> 1"
  then have "q * of_nat (length xs) \<le> of_nat (length xs)" by (simp add: mult_left_le_one_le)
  then have "\<lceil>q * of_nat (length xs)\<rceil> \<le> int (length xs)" by (simp add: ceiling_le_iff)
  moreover have "0 < length xs" using a(1) by simp
  ultimately show ?thesis by linarith
qed

text \<open>The quantiles are samples, in order, below the maximum.\<close>

lemma sorted_rank_mono:
  assumes "sorted xs" "xs \<noteq> []" "0 \<le> p" "p \<le> q" "q \<le> 1"
  shows "rank xs p \<le> rank xs q \<and> rank xs q \<le> last xs"
proof -
  have "\<lceil>p * of_nat (length xs)\<rceil> \<le> \<lceil>q * of_nat (length xs)\<rceil>" using assms(4) by (intro ceiling_mono mult_right_mono) auto
  then have "nat (max 0 (\<lceil>p * of_nat (length xs)\<rceil> - 1)) \<le> nat (max 0 (\<lceil>q * of_nat (length xs)\<rceil> - 1))" by linarith
  moreover have q: "nat (max 0 (\<lceil>q * of_nat (length xs)\<rceil> - 1)) < length xs" by (rule rank_in_range) (use assms in auto)
  ultimately have "rank xs p \<le> rank xs q" unfolding rank_def using assms(1) by (intro sorted_nth_mono)
  moreover have "rank xs q \<le> xs ! (length xs - 1)" unfolding rank_def using assms(1) q by (intro sorted_nth_mono) auto
  ultimately show ?thesis using assms(2) by (simp add: last_conv_nth)
qed

lemma distribution_ordered:
  assumes "distribution xs = Some s"
  shows "su_n s = length xs \<and> {su_p50 s, su_p99 s, su_max s} \<subseteq> set xs \<and> su_p50 s \<le> su_p99 s \<and> su_p99 s \<le> su_max s \<and> (\<forall>x\<in>set xs. x \<le> su_max s)"
proof -
  have n: "sort xs \<noteq> []" and s: "s = \<lparr>su_n = length (sort xs), su_p50 = rank (sort xs) (1 / 2), su_p99 = rank (sort xs) (99 / 100), su_max = last (sort xs)\<rparr>"
    using assms by (auto simp: distribution_def Let_def split: if_splits)
  have o: "rank (sort xs) (1 / 2) \<le> rank (sort xs) (99 / 100)" "rank (sort xs) (99 / 100) \<le> last (sort xs)"
    using sorted_rank_mono [of "sort xs" "1 / 2" "99 / 100"] n by simp_all
  have m: "rank (sort xs) q \<in> set xs" if "0 \<le> q" "q \<le> 1" for q
    unfolding rank_def using nth_mem [OF rank_in_range [OF n that]] by simp
  have top: "x \<le> last (sort xs)" if "x \<in> set xs" for x
  proof -
    from that obtain i where "i < length (sort xs)" "sort xs ! i = x" by (metis in_set_conv_nth set_sort)
    then show ?thesis using n sorted_nth_mono [OF sorted_sort, of i "length (sort xs) - 1" xs] by (simp add: last_conv_nth)
  qed
  have "last (sort xs) \<in> set xs" using last_in_set [OF n] by simp
  then show ?thesis using s o m [of "1 / 2"] m [of "99 / 100"] top by simp
qed

end
