(* ===== verification/Bench_Verdict.thy ===== *)
theory Bench_Verdict
  imports Bench_Timing
begin

text \<open>
  The verdict of one attempt of a host scenario, over what the attempt read: \<^verbatim>\<open>host_attempt\<close> of
  \<^verbatim>\<open>tools/bench_verify.py\<close> (the unauthenticated bench, H1) and of \<^verbatim>\<open>tools/permit_verify.py\<close> (the permit bench,
  H2). Starting, interrupting and stopping the processes is not modelled; their exit codes, final logs,
  ready files and the device rows at each reading are the fields of a record.
\<close>

section \<open>Device rows\<close>

text \<open>\<^verbatim>\<open>events.index(stopped)\<close>, \<^verbatim>\<open>any(e["on"] for e in events[i + 1:])\<close>, the last ON row.\<close>

definition index_of :: "row \<Rightarrow> row list \<Rightarrow> nat res" where
  "index_of stopped events =
     (case find_index (\<lambda>e. pyeq (PDict e) (PDict stopped)) events of None \<Rightarrow> Inl (ValueError ''not in list'') | Some i \<Rightarrow> Inr i)"

definition last_on :: "row list \<Rightarrow> row res" where
  "last_on events = (case filter on events of [] \<Rightarrow> Inl (RuntimeError ''StopIteration'') | rows \<Rightarrow> Inr (last rows))"

definition stop_delay :: "row \<Rightarrow> row \<Rightarrow> int res" where
  "stop_delay stopped lit =
     rbind (dix (PDict stopped) ''device_ms'') (\<lambda>d. rbind (dix (PDict lit) ''renewed_ms'') (\<lambda>r. rbind (need_int d) (\<lambda>d. rbind (need_int r) (\<lambda>r. Inr (d - r)))))"

definition require :: "bool \<Rightarrow> string \<Rightarrow> unit res" where
  "require ok what = (if ok then Inr () else Inl (AssertionError what))"

text \<open>The common end of both: no output after the stop, and the stop in time after the last renewal.\<close>

definition final_delay :: "row \<Rightarrow> row list \<Rightarrow> int res" where
  "final_delay stopped events =
     rbind (index_of stopped events) (\<lambda>i.
     rbind (require (\<not> list_ex on (drop (i + 1) events)) ''output after the stop'') (\<lambda>_.
     rbind (last_on events) (\<lambda>lit.
     rbind (stop_delay stopped lit) (\<lambda>delay.
     rbind (require (0 \<le> delay \<and> delay \<le> 300) ''native process stop too late'') (\<lambda>_. Inr delay)))))"

record case_pass =
  cp_reason :: pyval
  cp_delay :: int
  cp_exit :: int
  cp_note :: string

text \<open>How the wait for the positive control ended.\<close>

datatype start = Exited int | NeverReady | Lit

section \<open>The unauthenticated bench\<close>

datatype interrupt = Kill | Pause | GateKill

record h1_run =
  h1_scenario :: string
  h1_interrupt :: "interrupt option"
  h1_start :: start
  h1_text :: string
  h1_ready :: pyval
  h1_code :: "int option"
  h1_stop_rows :: "row list"
  h1_loss_rows :: "row list"
  h1_rows1 :: "row list"
  h1_rows2 :: "row list"
  h1_rows3 :: "row list"
  h1_rows :: "row list"

text \<open>\<^verbatim>\<open>timing_loss\<close>: each classifier reads the rows anew.\<close>

definition h1_loss :: "loads \<Rightarrow> int \<Rightarrow> h1_run \<Rightarrow> loss option" where
  "h1_loss ld code r =
     (case h1_timing_loss ld (h1_text r) code (h1_ready r) (h1_rows1 r) of
        Some l \<Rightarrow> Some l
      | None \<Rightarrow> (case h1_gate_expiry_loss ld (h1_text r) code (h1_ready r) (h1_rows2 r) of
          Some l \<Rightarrow> Some l
        | None \<Rightarrow> h1_world_loss_timing_loss ld (h1_text r) code (h1_ready r) (h1_rows3 r)))"

definition h1_expiry :: "int \<Rightarrow> h1_run \<Rightarrow> bool" where
  "h1_expiry code r \<longleftrightarrow> h1_scenario r = ''world-loss'' \<and> code = 1 \<and> is_infix ''stale actuation response: world expired'' (h1_text r)"

definition H1_COMPLETED :: "string list" where
  "H1_COMPLETED = [H1_ALLOWED, K_TEST @ '' '' @ K_END @ '': LED OFF'']"

definition h1_normal :: "int \<Rightarrow> row \<Rightarrow> h1_run \<Rightarrow> bool" where
  "h1_normal code stopped r \<longleftrightarrow>
     code = 0 \<and> (h1_scenario r \<noteq> ''allow'' \<or> getf stopped ''reason'' = PStr ''stop'' \<and> splitlines (h1_text r) = H1_COMPLETED)"

text \<open>The branch without an interrupt: the stop to judge and the availability.\<close>

definition h1_judge :: "loads \<Rightarrow> int \<Rightarrow> row \<Rightarrow> h1_run \<Rightarrow> (row \<times> string, loss) outcome" where
  "h1_judge ld code stopped r =
     (case scheduling_loss ld (h1_text r) code (h1_scenario r) (h1_loss_rows r) of
        Inl e \<Rightarrow> Raised e
      | Inr measured \<Rightarrow>
          (case (if h1_expiry code r \<or> measured \<noteq> None then None else h1_loss ld code r) of
             Some l \<Rightarrow> Inconclusive l
           | None \<Rightarrow>
               (case (if h1_scenario r = ''allow'' then Inr () else rbind (dix (h1_ready r) ''fault'') (\<lambda>f.
                        require (f = PStr (h1_scenario r)) ''stopped before injecting intended fault'')) of
                  Inl e \<Rightarrow> Raised e
                | Inr _ \<Rightarrow>
                    if h1_normal code stopped r \<or> h1_expiry code r \<or> measured \<noteq> None
                    then Passed (case measured of Some m \<Rightarrow> (m, ''host-scheduling-loss'') | None \<Rightarrow> (stopped, ''normal''))
                    else Raised (AssertionError ''host scenario failed''))))"

definition h1_resume :: "loads \<Rightarrow> int \<Rightarrow> row \<Rightarrow> h1_run \<Rightarrow> string res" where
  "h1_resume ld code stopped r =
     (let gate_stop = (if h1_interrupt r = Some Pause \<and> h1_scenario r = ''allow''
                       then h1_pause_gate_stop ld (h1_text r) code (h1_ready r) (h1_rows r) stopped else None) in
      rbind (require (code \<noteq> 0 \<or> gate_stop \<noteq> None) ''interrupted host unexpectedly reported success'') (\<lambda>_.
      Inr (if h1_interrupt r = Some Pause then if gate_stop \<noteq> None then ''gate-stop'' else ''error-exit'' else [])))"

definition h1_expected :: "row \<Rightarrow> h1_run \<Rightarrow> bool" where
  "h1_expected stopped r \<longleftrightarrow>
     getf stopped ''reason'' = PStr (if h1_interrupt r \<in> {Some Kill, Some Pause} then ''lease'' else ''stop'') \<or>
     h1_interrupt r = None \<and> h1_scenario r = ''allow'' \<and> getf stopped ''reason'' = PStr ''lease''"

definition h1_finish :: "int \<Rightarrow> row \<Rightarrow> string \<Rightarrow> h1_run \<Rightarrow> (case_pass, loss) outcome" where
  "h1_finish code stopped note r =
     (case rbind (require (h1_expected stopped r) ''unexpected first stop reason'') (\<lambda>_. final_delay stopped (h1_rows r)) of
        Inl e \<Rightarrow> Raised e
      | Inr delay \<Rightarrow> Passed \<lparr>cp_reason = getf stopped ''reason'', cp_delay = delay, cp_exit = code, cp_note = note\<rparr>)"

text \<open>\<open>h1_code = None\<close> is a host that did not exit within three seconds.\<close>

definition h1_attempt :: "loads \<Rightarrow> h1_run \<Rightarrow> (case_pass, loss) outcome" where
  "h1_attempt ld r =
     (case h1_start r of
        Exited code \<Rightarrow>
          (case h1_loss ld code r of Some l \<Rightarrow> Inconclusive l | None \<Rightarrow> Raised (AssertionError ''host failed before positive control''))
      | NeverReady \<Rightarrow> Raised (AssertionError ''timed out waiting for positive control or stop evidence'')
      | Lit \<Rightarrow>
          (case (first_stop_after_on (h1_stop_rows r) None, h1_code r) of
             (None, _) \<Rightarrow> Raised (AssertionError ''timed out waiting for positive control or stop evidence'')
           | (Some _, None) \<Rightarrow> Raised (TimeoutError ''host'')
           | (Some stopped, Some code) \<Rightarrow>
               if h1_interrupt r = None then
                 (case h1_judge ld code stopped r of
                    Raised e \<Rightarrow> Raised e
                  | Inconclusive l \<Rightarrow> Inconclusive l
                  | Passed (final, note) \<Rightarrow> h1_finish code final note r)
               else
                 (case h1_resume ld code stopped r of
                    Inl e \<Rightarrow> Raised e
                  | Inr note \<Rightarrow> h1_finish code stopped note r)))"

section \<open>The permit bench\<close>

record h2_run =
  h2_scenario :: string
  h2_pause :: bool
  h2_killed :: bool
  h2_start :: start
  h2_relay :: string
  h2_auth :: string
  h2_exited :: bool
  h2_code :: "int option"
  h2_stop_rows :: "row list"
  h2_fault_rows :: "row list"
  h2_rows1 :: "row list"
  h2_rows2 :: "row list"
  h2_rows :: "row list"

text \<open>\<^verbatim>\<open>timing_loss\<close>: nothing is classified when the authorizer had to be killed.\<close>

definition h2_loss :: "loads \<Rightarrow> int \<Rightarrow> h2_run \<Rightarrow> loss option" where
  "h2_loss ld code r =
     (if \<not> h2_exited r then None
      else (case h2_timing_loss ld (h2_relay r) code (h2_auth r) (h2_rows1 r) of
          Some l \<Rightarrow> Some l
        | None \<Rightarrow> h2_gate_expiry_loss ld (h2_relay r) code (h2_auth r) (h2_rows2 r)))"

text \<open>The branch without an interrupt: the late but verified rejection, if any.\<close>

definition h2_judge :: "loads \<Rightarrow> int \<Rightarrow> h2_run \<Rightarrow> (rejection_evidence option, loss) outcome" where
  "h2_judge ld code r =
     (let denial = (if code \<noteq> 0 \<and> h2_exited r then h2_rejected_fault_stop ld (h2_relay r) code (h2_auth r) (h2_fault_rows r) (h2_scenario r) else None) in
      case (if denial = None then h2_loss ld code r else None) of
        Some l \<Rightarrow> Inconclusive l
      | None \<Rightarrow>
          (case rbind (require (code = 0 \<or> denial \<noteq> None) ''scenario failed'') (\<lambda>_.
                if h2_scenario r = ''allow'' then require (is_infix ''Authorizer terminal: operator_complete'' (h2_auth r)) ''qualification predicate failed''
                else rbind (require (is_infix (''Authorizer fault injected: '' @ h2_scenario r) (h2_auth r)) ''stopped before intended fault'') (\<lambda>_.
                     require (is_infix ''Authorizer terminal: '' (h2_auth r)) ''qualification predicate failed'')) of
             Inl e \<Rightarrow> Raised e
           | Inr _ \<Rightarrow> Passed denial))"

definition h2_attempt :: "loads \<Rightarrow> h2_run \<Rightarrow> (case_pass \<times> rejection_evidence option, loss) outcome" where
  "h2_attempt ld r =
     (case h2_start r of
        Exited code \<Rightarrow> (case h2_loss ld code r of Some l \<Rightarrow> Inconclusive l | None \<Rightarrow> Raised (AssertionError ''relay failed before ON''))
      | NeverReady \<Rightarrow> Raised (AssertionError ''timed out waiting for positive control or stop evidence'')
      | Lit \<Rightarrow>
          (case (h2_code r, first_stop_after_on (h2_stop_rows r) None) of
             (None, _) \<Rightarrow> Raised (TimeoutError ''relay'')
           | (Some _, None) \<Rightarrow> Raised (AssertionError ''timed out waiting for positive control or stop evidence'')
           | (Some code, Some stopped) \<Rightarrow>
               if (h2_pause r \<or> h2_killed r) \<and> code = 0 then Raised (AssertionError ''qualification predicate failed'')
               else (case (if h2_pause r \<or> h2_killed r then Passed None else h2_judge ld code r) of
                   Raised e \<Rightarrow> Raised e
                 | Inconclusive l \<Rightarrow> Inconclusive l
                 | Passed denial \<Rightarrow>
                     (case final_delay stopped (h2_rows r) of
                        Inl e \<Rightarrow> Raised e
                      | Inr delay \<Rightarrow> Passed (\<lparr>cp_reason = getf stopped ''reason'', cp_delay = delay, cp_exit = code, cp_note = []\<rparr>, denial)))))"

text \<open>\<^verbatim>\<open>host_case\<close> of both scripts: fresh processes per attempt; \<open>run label\<close> is what the attempt read.\<close>

definition h1_case :: "loads \<Rightarrow> string \<Rightarrow> (string \<Rightarrow> h1_run) \<Rightarrow> (string \<Rightarrow> row list res) \<Rightarrow> loss timing \<Rightarrow> (case_pass \<times> nat) res \<times> loss timing" where
  "h1_case ld cs run device t = bench_attempts cs (\<lambda>label. h1_attempt ld (run label)) device t"

definition h2_case :: "loads \<Rightarrow> string \<Rightarrow> (string \<Rightarrow> h2_run) \<Rightarrow> (string \<Rightarrow> row list res) \<Rightarrow> loss timing \<Rightarrow>
    ((case_pass \<times> rejection_evidence option) \<times> nat) res \<times> loss timing" where
  "h2_case ld cs run device t = bench_attempts cs (\<lambda>label. h2_attempt ld (run label)) device t"

section \<open>What a verdict rests on\<close>

definition stopped_for_good :: "row list \<Rightarrow> row \<Rightarrow> int \<Rightarrow> bool" where
  "stopped_for_good rows stopped delay \<longleftrightarrow>
     \<not> on stopped \<and> 0 \<le> delay \<and> delay \<le> 300 \<and>
     (\<exists>i<length rows. pyeq (PDict (rows ! i)) (PDict stopped) \<and> (\<forall>j. i < j \<and> j < length rows \<longrightarrow> \<not> on (rows ! j))) \<and>
     (\<exists>lit\<in>set rows. on lit \<and> stop_delay stopped lit = Inr delay)"

lemma first_stop_off: "first_stop_after_on rows reason = Some e \<Longrightarrow> \<not> on e"
proof -
  have "first_stop_from positive rows = Some x \<Longrightarrow> getf x ''on'' = PBool False" for positive x
    by (induction positive rows rule: first_stop_from.induct) (auto split: if_splits)
  then show "first_stop_after_on rows reason = Some e \<Longrightarrow> \<not> on e" by (auto simp: first_stop_after_on_def split: option.splits if_splits)
qed

lemma lease_stop_off: "lease_stop prior rows = Inr (Some e) \<Longrightarrow> \<not> on e"
  by (induction prior rows rule: lease_stop.induct) (auto simp: rbind_Inr_iff split: option.splits if_splits)

lemma scheduling_off: "scheduling_loss ld lg code scenario events = Inr (Some e) \<Longrightarrow> \<not> on e"
  by (auto simp: scheduling_loss_def lease_stop_off split: if_splits list.splits)

lemma final_delay_sound:
  assumes "final_delay stopped rows = Inr delay" and "\<not> on stopped"
  shows "stopped_for_good rows stopped delay"
proof -
  from assms(1) obtain i lit where i: "index_of stopped rows = Inr i" "\<not> list_ex on (drop (i + 1) rows)" "last_on rows = Inr lit" "stop_delay stopped lit = Inr delay"
    "0 \<le> delay" "delay \<le> 300" by (auto simp: final_delay_def rbind_Inr_iff require_def split: if_splits)
  from i(1) have "i < length rows \<and> pyeq (PDict (rows ! i)) (PDict stopped)"
    using find_index_Some [of "\<lambda>e. pyeq (PDict e) (PDict stopped)" rows] by (auto simp: index_of_def split: option.splits)
  moreover have "\<not> on (rows ! j)" if "i < j" "j < length rows" for j using not_ex_on [OF i(2), of j] that by simp
  moreover have "lit \<in> set rows \<and> on lit"
  proof -
    from i(3) have "filter on rows \<noteq> []" "lit = last (filter on rows)" by (auto simp: last_on_def split: list.splits)
    then have "lit \<in> set (filter on rows)" by (metis last_in_set)
    then show ?thesis by simp
  qed
  ultimately show ?thesis unfolding stopped_for_good_def using assms(2) i(4-6) by blast
qed

text \<open>The rows an inconclusive attempt was judged on show a stop that was not undone.\<close>

definition failed_closed :: "row list list \<Rightarrow> loss \<Rightarrow> bool" where
  "failed_closed readings l \<longleftrightarrow> (\<exists>rows\<in>set readings. \<exists>accepted. fail_closed_stop rows accepted = Some (ls_stop l))"

lemma h1_loss_closed: "h1_loss ld code r = Some l \<Longrightarrow> failed_closed [h1_rows1 r, h1_rows2 r, h1_rows3 r] l"
proof -
  assume a: "h1_loss ld code r = Some l"
  have g: "\<exists>accepted. fail_closed_stop rows accepted = Some (ls_stop l)" if "h1_gate_expiry_loss ld lg c rd rows = Some l" for lg c rd rows
  proof -
    from that have "\<exists>cycles. gate_expiry_evidence cycles rows = Some l"
      by (auto simp: h1_gate_expiry_loss_def Let_def split: option.splits if_split_asm list.splits)
    then show ?thesis using gate_expiry_stop by blast
  qed
  from a show ?thesis unfolding failed_closed_def h1_loss_def using h1_timing_stop world_loss_stop g by (auto split: option.splits) blast+
qed

lemma h2_loss_closed: "h2_loss ld code r = Some l \<Longrightarrow> failed_closed [h2_rows1 r, h2_rows2 r] l \<and> h2_exited r"
proof -
  assume a: "h2_loss ld code r = Some l"
  have g: "\<exists>accepted. fail_closed_stop rows accepted = Some (ls_stop l)" if "h2_gate_expiry_loss ld rl c al rows = Some l" for rl c al rows
  proof -
    from that have "\<exists>cycles. gate_expiry_evidence cycles rows = Some l"
      by (auto simp: h2_gate_expiry_loss_def Let_def split: option.splits if_split_asm list.splits)
    then show ?thesis using gate_expiry_stop by blast
  qed
  from a show ?thesis unfolding failed_closed_def h2_loss_def using h2_timing_stop g by (auto split: option.splits if_splits) blast+
qed

lemma h1_finish_sound:
  "h1_finish code stopped note r = Passed p \<Longrightarrow> \<not> on stopped \<Longrightarrow>
   stopped_for_good (h1_rows r) stopped (cp_delay p) \<and> cp_reason p = getf stopped ''reason'' \<and> cp_exit p = code \<and> cp_note p = note \<and> h1_expected stopped r"
  by (auto simp: h1_finish_def rbind_Inr_iff require_def final_delay_sound split: sum.splits if_splits)

lemma h1_finish_decides: "h1_finish code stopped note r \<noteq> Inconclusive l"
  by (simp add: h1_finish_def split: sum.splits)

lemma h1_judge_sound:
  "h1_judge ld code stopped r = Passed (final, note) \<Longrightarrow> \<not> on stopped \<Longrightarrow>
   \<not> on final \<and> (h1_scenario r = ''allow'' \<or> dix (h1_ready r) ''fault'' = Inr (PStr (h1_scenario r)))"
  by (auto simp: h1_judge_def rbind_Inr_iff require_def scheduling_off split: sum.splits option.splits if_splits)

lemma h1_judge_loss: "h1_judge ld code stopped r = Inconclusive l \<Longrightarrow> failed_closed [h1_rows1 r, h1_rows2 r, h1_rows3 r] l"
  by (auto simp: h1_judge_def h1_loss_closed split: sum.splits option.splits if_splits)

text \<open>What an outcome of an attempt is evidence of.\<close>

definition h1_evidence :: "h1_run \<Rightarrow> (case_pass, loss) outcome \<Rightarrow> bool" where
  "h1_evidence r res \<longleftrightarrow>
     (case res of
        Passed p \<Rightarrow> h1_start r = Lit \<and>
          (\<exists>stopped. stopped_for_good (h1_rows r) stopped (cp_delay p) \<and> cp_reason p = getf stopped ''reason'' \<and> h1_expected stopped r) \<and>
          (if h1_interrupt r = None then h1_scenario r = ''allow'' \<or> dix (h1_ready r) ''fault'' = Inr (PStr (h1_scenario r))
           else cp_exit p \<noteq> 0 \<or> cp_note p = ''gate-stop'')
      | Inconclusive l \<Rightarrow> (h1_start r = Lit \<longrightarrow> h1_interrupt r = None) \<and> failed_closed [h1_rows1 r, h1_rows2 r, h1_rows3 r] l
      | Raised e \<Rightarrow> True)"

definition h2_evidence :: "loads \<Rightarrow> h2_run \<Rightarrow> (case_pass \<times> rejection_evidence option, loss) outcome \<Rightarrow> bool" where
  "h2_evidence ld r res \<longleftrightarrow>
     (case res of
        Passed (p, denial) \<Rightarrow> h2_start r = Lit \<and>
          (\<exists>stopped. stopped_for_good (h2_rows r) stopped (cp_delay p) \<and> cp_reason p = getf stopped ''reason'') \<and>
          (if h2_pause r \<or> h2_killed r then cp_exit p \<noteq> 0
           else (cp_exit p = 0 \<or> (\<exists>e. denial = Some e \<and> h2_rejected_fault_stop ld (h2_relay r) (cp_exit p) (h2_auth r) (h2_fault_rows r) (h2_scenario r) = Some e)) \<and>
             (if h2_scenario r = ''allow'' then is_infix ''Authorizer terminal: operator_complete'' (h2_auth r)
              else is_infix (''Authorizer fault injected: '' @ h2_scenario r) (h2_auth r) \<and> is_infix ''Authorizer terminal: '' (h2_auth r)))
      | Inconclusive l \<Rightarrow> (h2_start r = Lit \<longrightarrow> \<not> h2_pause r \<and> \<not> h2_killed r) \<and> h2_exited r \<and> failed_closed [h2_rows1 r, h2_rows2 r] l
      | Raised e \<Rightarrow> True)"

lemma h1_attempt_sound: "h1_evidence r (h1_attempt ld r)"
proof (cases "h1_start r")
  case (Exited code)
  then show ?thesis using h1_loss_closed by (auto simp: h1_attempt_def h1_evidence_def split: option.splits)
next
  case NeverReady
  then show ?thesis by (simp add: h1_attempt_def h1_evidence_def)
next
  case Lit
  show ?thesis
  proof (cases "first_stop_after_on (h1_stop_rows r) None = None \<or> h1_code r = None")
    case True
    with Lit show ?thesis by (auto simp: h1_attempt_def h1_evidence_def split: option.splits)
  next
    case False
    then obtain stopped code where s: "first_stop_after_on (h1_stop_rows r) None = Some stopped" "h1_code r = Some code" by auto
    note off = first_stop_off [OF s(1)]
    show ?thesis
    proof (cases "h1_interrupt r = None")
      case True
      show ?thesis
      proof (cases "h1_judge ld code stopped r")
        case (Passed fn)
        obtain final how where fn: "fn = (final, how)" by (cases fn)
        have eq: "h1_attempt ld r = h1_finish code final how r" using True Lit s Passed fn by (simp add: h1_attempt_def h1_evidence_def)
        from h1_judge_sound [OF Passed [unfolded fn] off] have j: "\<not> on final" "h1_scenario r = ''allow'' \<or> dix (h1_ready r) ''fault'' = Inr (PStr (h1_scenario r))" by blast+
        show ?thesis unfolding eq h1_evidence_def using True Lit j h1_finish_sound [of code final how r] h1_finish_decides [of code final how r]
          by (cases "h1_finish code final how r") auto
      next
        case (Inconclusive l)
        with True Lit s h1_judge_loss [OF Inconclusive] show ?thesis by (simp add: h1_attempt_def h1_evidence_def)
      qed (use True Lit s in \<open>simp add: h1_attempt_def h1_evidence_def\<close>)
    next
      case False
      show ?thesis
      proof (cases "h1_resume ld code stopped r")
        case (Inr how)
        have eq: "h1_attempt ld r = h1_finish code stopped how r" using False Lit s Inr by (auto simp: h1_attempt_def h1_evidence_def)
        have "code \<noteq> 0 \<or> how = ''gate-stop''"
          using Inr by (auto simp: h1_resume_def Let_def require_def rbind_Inr_iff split: if_splits)
        then show ?thesis unfolding eq h1_evidence_def using False Lit off h1_finish_sound [of code stopped how r] h1_finish_decides [of code stopped how r]
          by (cases "h1_finish code stopped how r") auto
      qed (use False Lit s in \<open>auto simp: h1_attempt_def h1_evidence_def\<close>)
    qed
  qed
qed

lemma h2_judge_sound:
  "h2_judge ld code r = Passed denial \<Longrightarrow>
   (code = 0 \<or> (\<exists>e. denial = Some e \<and> h2_rejected_fault_stop ld (h2_relay r) code (h2_auth r) (h2_fault_rows r) (h2_scenario r) = Some e)) \<and>
   (if h2_scenario r = ''allow'' then is_infix ''Authorizer terminal: operator_complete'' (h2_auth r)
    else is_infix (''Authorizer fault injected: '' @ h2_scenario r) (h2_auth r) \<and> is_infix ''Authorizer terminal: '' (h2_auth r))"
  by (auto simp: h2_judge_def Let_def rbind_Inr_iff require_def split: sum.splits option.splits if_splits)

lemma h2_judge_loss: "h2_judge ld code r = Inconclusive l \<Longrightarrow> failed_closed [h2_rows1 r, h2_rows2 r] l \<and> h2_exited r"
  using h2_loss_closed by (auto simp: h2_judge_def Let_def split: sum.splits option.splits if_splits)

lemma h2_attempt_sound: "h2_evidence ld r (h2_attempt ld r)"
proof (cases "h2_start r")
  case (Exited code)
  then show ?thesis using h2_loss_closed by (auto simp: h2_attempt_def h2_evidence_def split: option.splits)
next
  case NeverReady
  then show ?thesis by (simp add: h2_attempt_def h2_evidence_def)
next
  case Lit
  show ?thesis
  proof (cases "first_stop_after_on (h2_stop_rows r) None = None \<or> h2_code r = None")
    case True
    with Lit show ?thesis by (auto simp: h2_attempt_def h2_evidence_def split: option.splits)
  next
    case False
    then obtain stopped code where s: "first_stop_after_on (h2_stop_rows r) None = Some stopped" "h2_code r = Some code" by auto
    note off = first_stop_off [OF s(1)]
    show ?thesis
    proof (cases "h2_pause r \<or> h2_killed r")
      case True
      then show ?thesis using Lit s off final_delay_sound [of stopped "h2_rows r"] by (auto simp: h2_attempt_def h2_evidence_def split: sum.splits)
    next
      case clean: False
      show ?thesis
      proof (cases "h2_judge ld code r")
        case (Passed denial)
        note j = h2_judge_sound [OF Passed]
        show ?thesis
        proof (cases "final_delay stopped (h2_rows r)")
          case (Inr delay)
          have "h2_attempt ld r = Passed (\<lparr>cp_reason = getf stopped ''reason'', cp_delay = delay, cp_exit = code, cp_note = []\<rparr>, denial)"
            using clean Lit s Passed Inr by (simp add: h2_attempt_def h2_evidence_def)
          with j clean Lit final_delay_sound [OF Inr off] show ?thesis by (auto simp: h2_evidence_def)
        qed (use clean Lit s Passed in \<open>simp add: h2_attempt_def h2_evidence_def\<close>)
      next
        case (Inconclusive l)
        with clean Lit s h2_judge_loss [OF Inconclusive] show ?thesis by (simp add: h2_attempt_def h2_evidence_def)
      qed (use clean Lit s in \<open>simp add: h2_attempt_def h2_evidence_def\<close>)
    qed
  qed
qed

end
