(* ===== verification/Public_Report.thy ===== *)
theory Public_Report
  imports Log_Text
begin

text \<open>
  The acceptance contract of the simulator runs (\<^verbatim>\<open>ros/gazebo/public_report.py\<close>): the controller-permit
  witnesses, the checks of the two report profiles with their status, measurements and non-blocking
  timing rows, and the overall status. The Korean titles and notices and the HTML rendering are
  not modelled.
\<close>

section \<open>Constants\<close>

definition NEGATIVE_REASONS :: "(string \<times> string) list" where
  "NEGATIVE_REASONS = [(''unsigned'', ''binding''), (''altered'', ''binding''), (''signature'', ''signature''),
     (''replay'', ''sequence''), (''delay'', ''freshness''), (''target'', ''binding''), (''renewal_delay'', ''freshness'')]"

definition RECOVERY_REASONS :: "(string \<times> string) list" where
  "RECOVERY_REASONS = [(''base'', ''locked''), (''arm'', ''rejected'')]"

definition PERMIT_NEGATIVES :: "(string \<times> string) list" where
  "PERMIT_NEGATIVES = concat (map (\<lambda>t. map (\<lambda>c. (t, c)) [''unsigned'', ''altered'', ''signature'', ''replay'', ''delay'', ''target'']) [''base'', ''arm''])
     @ [(''arm'', ''renewal_delay'')]"

definition PERMIT_MAX_ATTEMPTS :: nat where "PERMIT_MAX_ATTEMPTS = 3"
definition VERIFIER_WINDOW_NS :: int where "VERIFIER_WINDOW_NS = 50000000"
definition REPORT_MAX_LEASE_NS :: int where "REPORT_MAX_LEASE_NS = 200000000"
definition CONTROLLER_UPDATE_NS :: int where "CONTROLLER_UPDATE_NS = 10000000"
definition HOLD_UPDATES :: int where "HOLD_UPDATES = 3"
definition LAPSE_ALLOWANCE_NS :: int where "LAPSE_ALLOWANCE_NS = 20000000"

text \<open>\<^verbatim>\<open>.02\<close>, as the double the comparison uses.\<close>

definition DRIFT_LIMIT :: pyval where "DRIFT_LIMIT = PFloat 0x3F947AE147AE147B"

definition SENSOR_STOP_REASONS :: "string list" where
  "SENSOR_STOP_REASONS = [''perception_unknown'', ''world_admission_budget_exhausted'', ''stale_world'',
     ''world_expired_at_response'', ''world_expired_at_owner'']"

section \<open>Values\<close>

abbreviation mapping :: "pyval \<Rightarrow> row" where
  "mapping \<equiv> dict_or_empty"

definition val_le :: "pyval \<Rightarrow> pyval \<Rightarrow> bool" where
  "val_le a b = (case (num_of a, num_of b) of (Some x, Some y) \<Rightarrow> num_le x y | _ \<Rightarrow> False)"

definition val_lt :: "pyval \<Rightarrow> pyval \<Rightarrow> bool" where
  "val_lt a b = (case (num_of a, num_of b) of (Some x, Some y) \<Rightarrow> num_lt x y | _ \<Rightarrow> False)"

text \<open>\<^verbatim>\<open>number\<close>, \<^verbatim>\<open>finite\<close>, \<^verbatim>\<open>within\<close>: the bounds already exclude infinities and NaN.\<close>

definition number :: "pyval \<Rightarrow> pyval option" where
  "number v = (if is_number v \<and> val_le (PInt 0) v \<and> val_le v (PInt (10 ^ 12)) then Some v else None)"

definition finite_number :: "pyval \<Rightarrow> pyval option" where
  "finite_number v = (if is_number v \<and> val_le (PInt (- (10 ^ 12))) v \<and> val_le v (PInt (10 ^ 12)) then Some v else None)"

definition within_limit :: "pyval \<Rightarrow> pyval \<Rightarrow> bool" where
  "within_limit v maximum = (case number v of None \<Rightarrow> False | Some x \<Rightarrow> val_le x maximum)"

text \<open>\<^verbatim>\<open>(number(v) or 0) > bound\<close>\<close>

definition above :: "pyval \<Rightarrow> pyval \<Rightarrow> bool" where
  "above v bound = (case number v of None \<Rightarrow> False | Some x \<Rightarrow> val_lt bound x)"

definition is_true :: "row \<Rightarrow> string \<Rightarrow> bool" where
  "is_true r k \<longleftrightarrow> getf r k = PBool True"

text \<open>\<^verbatim>\<open>type(row.get(k)) is int and 0 <= row[k] < 2**n\<close>\<close>

definition uint_field :: "nat \<Rightarrow> row \<Rightarrow> string \<Rightarrow> int option" where
  "uint_field n r k = (case as_int (getf r k) of Some i \<Rightarrow> if 0 \<le> i \<and> i < 2 ^ n then Some i else None | None \<Rightarrow> None)"

fun uint_fields :: "nat \<Rightarrow> row \<Rightarrow> string list \<Rightarrow> int list option" where
  "uint_fields n r [] = Some []"
| "uint_fields n r (k # ks) = (case (uint_field n r k, uint_fields n r ks) of (Some i, Some is) \<Rightarrow> Some (i # is) | _ \<Rightarrow> None)"

definition hex_str :: "nat \<Rightarrow> pyval \<Rightarrow> bool" where
  "hex_str n v = (case v of PStr s \<Rightarrow> is_hex n s | _ \<Rightarrow> False)"

section \<open>Controller-permit witnesses\<close>

definition replay_admitted_then_rejected :: "pyval \<Rightarrow> bool" where
  "replay_admitted_then_rejected value =
     (let row = mapping value in
      case uint_fields 63 row [''accepted_before'', ''accepted_after_first'', ''accepted_after_replay'',
             ''rejected_before'', ''rejected_after_first'', ''rejected_after_replay'',
             ''first_sent_wall_ns'', ''first_admission_published_wall_ns'', ''replay_sent_wall_ns'', ''rejection_published_wall_ns''] of
        Some [ab, af, ar, rb, rf, rr, sent, admitted, resent, rejected] \<Rightarrow>
          hex_str 64 (getf row ''first_packet_sha256'') \<and> getf row ''first_packet_sha256'' = getf row ''replay_packet_sha256'' \<and>
          getf row ''first_admission_reason'' = PStr ''accepted'' \<and> getf row ''replay_rejection_reason'' = PStr ''sequence'' \<and>
          af = ab + 1 \<and> ar = af \<and> rf = rb \<and> rr > rf \<and> sent \<le> admitted \<and> admitted \<le> resent \<and> resent \<le> rejected
      | _ \<Rightarrow> False)"

definition negative_permit_rejected :: "pyval \<Rightarrow> string \<Rightarrow> bool" where
  "negative_permit_rejected value cs =
     (let row = mapping value in
      case uint_fields 63 row [''accepted_before'', ''accepted_after'', ''rejected_before'', ''rejected_after'',
             ''before_published_wall_ns'', ''sent_wall_ns'', ''rejection_published_wall_ns'', ''lease_wall_end_ns''] of
        Some [ab, aa, rb, ra, before, sent, rejected, lease_end] \<Rightarrow>
          hex_str 32 (getf row ''nonce_before'') \<and> getf row ''nonce_before'' = getf row ''nonce_after'' \<and>
          getf row ''holding_before'' = PBool False \<and> getf row ''reason_before'' = PStr ''accepted'' \<and>
          getf row ''rejection_reason'' = (case map_of NEGATIVE_REASONS cs of Some r \<Rightarrow> PStr r | None \<Rightarrow> PNone) \<and>
          aa = ab \<and> ra = rb + 1 \<and> 0 \<le> sent - before \<and> sent - before < VERIFIER_WINDOW_NS \<and> sent \<le> rejected \<and> rejected < lease_end
      | _ \<Rightarrow> False)"

definition refused_inside_lease :: "string \<Rightarrow> pyval \<Rightarrow> bool" where
  "refused_inside_lease target value =
     (let w = mapping value in
      case (as_int (getf w ''rejection_published_wall_ns''), as_int (getf w ''lease_wall_end_ns'')) of
        (Some published, Some lease_end) \<Rightarrow> published < lease_end - (if target = ''base'' then LAPSE_ALLOWANCE_NS else 0)
      | _ \<Rightarrow> False)"

definition stale_permit_refused_in_window :: "pyval \<Rightarrow> bool" where
  "stale_permit_refused_in_window value =
     (let row = mapping value; stale = mapping (getf row ''stale_permit''); w = mapping (getf row ''negative_admission'') in
      case (uint_fields 63 stale [''sim_ns'', ''wall_ns'', ''sim_end_ns'', ''wall_end_ns''],
            uint_fields 63 w [''sent_wall_ns'', ''rejection_published_wall_ns'']) of
        (Some [sim, wall, sim_end, wall_end], Some [sent, refused]) \<Rightarrow>
          sent - wall \<ge> VERIFIER_WINDOW_NS \<and> 0 < sim_end - sim \<and> sim_end - sim \<le> REPORT_MAX_LEASE_NS \<and>
          0 < wall_end - wall \<and> wall_end - wall \<le> REPORT_MAX_LEASE_NS \<and> refused < wall_end - LAPSE_ALLOWANCE_NS
      | _ \<Rightarrow> False)"

definition arm_hold_prompt :: "pyval \<Rightarrow> bool" where
  "arm_hold_prompt value =
     (let hold = mapping (getf (mapping value) ''controller_hold'') in
      case uint_fields 53 hold [''refusal_stamp_ms'', ''hold_cutoff_ms''] of
        Some [stamp, cutoff] \<Rightarrow>
          cutoff \<le> stamp + HOLD_UPDATES * CONTROLLER_UPDATE_NS div 1000000 \<and> within_limit (getf hold ''drift_after_refusal'') DRIFT_LIMIT
      | _ \<Rightarrow> False)"

definition late_renewal_witnessed :: "pyval \<Rightarrow> bool" where
  "late_renewal_witnessed value =
     (let row = mapping value; w = mapping (getf row ''negative_admission''); hold = mapping (getf row ''controller_hold'') in
      above (getf (mapping (getf row ''moving_before_late_renewal'')) ''joint1_displacement_rad'') (PFloat 0x3F747AE147AE147B) \<and>
      (case (uint_fields 63 row [''controller_stop_wall_ns''], uint_fields 63 w [''sent_wall_ns'', ''lease_wall_end_ns''],
             uint_fields 63 hold [''hold_cutoff_ms'', ''lease_sim_end_ns'']) of
         (Some [stop], Some [sent, lease_end], Some [cutoff, sim_end]) \<Rightarrow>
           sent \<le> stop \<and> stop < lease_end \<and> cutoff * 1000000 < sim_end - CONTROLLER_UPDATE_NS
       | _ \<Rightarrow> False))"

definition negative_row_passed :: "string \<Rightarrow> string \<Rightarrow> pyval \<Rightarrow> bool" where
  "negative_row_passed target cs value =
     (let row = mapping value in
      is_true row ''ok'' \<and> is_true row ''controller_rejection_observed'' \<and>
      negative_permit_rejected (getf row ''negative_admission'') cs \<and> refused_inside_lease target (getf row ''negative_admission'') \<and>
      is_true row ''recovery_did_not_rearm'' \<and> is_true row ''recovery_rejection_observed'' \<and>
      getf row ''recovery_rejection_reason'' = (case map_of RECOVERY_REASONS target of Some r \<Rightarrow> PStr r | None \<Rightarrow> PNone) \<and>
      within_limit (getf row ''recovery_drift'') DRIFT_LIMIT \<and> within_limit (getf row ''drift'') DRIFT_LIMIT \<and>
      (cs \<noteq> ''replay'' \<or> replay_admitted_then_rejected (getf row ''replay_admission'')) \<and>
      (cs \<notin> {''delay'', ''renewal_delay''} \<or> stale_permit_refused_in_window (PDict row)) \<and>
      (target \<noteq> ''arm'' \<or> arm_hold_prompt (PDict row)) \<and>
      (cs \<noteq> ''renewal_delay'' \<or> late_renewal_witnessed (PDict row)))"

section \<open>The reference profile\<close>

record check_row =
  ck_id :: string
  ck_status :: string
  ck_measurements :: "(string \<times> pyval) list"
  ck_timing :: "(string \<times> pyval \<times> int \<times> bool) list"

definition check_status :: "bool \<Rightarrow> bool \<Rightarrow> string" where
  "check_status present ok = (if \<not> present then ''not_run'' else if ok then ''passed'' else ''failed'')"

text \<open>\<^verbatim>\<open>check\<close>: the metrics that are numbers, the timing samples that are finite; the titles are left out.\<close>

definition check :: "string \<Rightarrow> bool \<Rightarrow> bool \<Rightarrow> (string \<times> pyval) list \<Rightarrow> (string \<times> pyval \<times> int) list \<Rightarrow> check_row" where
  "check ident present ok metrics timing =
     \<lparr>ck_id = ident, ck_status = check_status present ok,
      ck_measurements = filter (\<lambda>(k, v). number v \<noteq> None) metrics,
      ck_timing = map (\<lambda>(n, v, limit). (n, v, limit, val_le v (PInt limit))) (filter (\<lambda>(n, v, limit). finite_number v \<noteq> None) timing)\<rparr>"

definition rows_of :: "pyval \<Rightarrow> row list" where
  "rows_of v = (case v of PList xs \<Rightarrow> map mapping xs | _ \<Rightarrow> [])"

definition check_motion :: "row \<Rightarrow> check_row" where
  "check_motion result = check ''motion'' (number (getf result ''base_moved_m'') \<noteq> None)
     (above (getf result ''base_moved_m'') (PFloat 0x3F9EB851EB851EB8)) [(''base_moved_m'', getf result ''base_moved_m'')] []"

definition check_person :: "row \<Rightarrow> check_row" where
  "check_person result =
     (let people = rows_of (getf result ''native_person_measurements'') in
      check ''person'' (people \<noteq> [])
        (list_all (\<lambda>c. list_ex (\<lambda>r. getf r ''case'' = PStr c \<and> is_true r ''ok'') people) [''base_stop'', ''arm_stop'', ''departure'']) [] [])"

definition check_arm_bounds :: "row \<Rightarrow> check_row" where
  "check_arm_bounds result = check ''arm_bounds'' (has_field ''arm_out_of_bounds_denied'' result) (is_true result ''arm_out_of_bounds_denied'') [] []"

definition principal_isolated :: "row \<Rightarrow> bool" where
  "principal_isolated p \<longleftrightarrow>
     list_all (is_true p) [''exec_inherits'', ''no_new_privs'', ''capabilities_empty'', ''forbidden_udp_not_received'', ''native_pose_request_blocked''] \<and>
     list_all (is_true (mapping (getf p ''denied''))) [''tcp'', ''unix'', ''ipv6'', ''packet'']"

definition check_transport :: "row \<Rightarrow> check_row" where
  "check_transport result =
     (let t = mapping (getf result ''transport_isolation''); principals = mapping (getf t ''principals'') in
      check ''transport'' (t \<noteq> [])
        (is_true t ''ok'' \<and> is_true t ''root_native_request_observed_in_scan'' \<and> is_true t ''root_forbidden_port_positive_control'' \<and>
         list_all (\<lambda>uid. principal_isolated (mapping (getf principals uid))) [''2001'', ''2002'', ''2003'', ''2004'', ''2005'', ''65534'']) [] [])"

definition check_attack :: "row \<Rightarrow> string \<Rightarrow> check_row" where
  "check_attack result name =
     (let row = mapping (getf (mapping (getf result ''attack_probes'')) name) in check name (row \<noteq> []) (is_true row ''blocked'') [] [])"

definition bounded_attempt :: "pyval \<Rightarrow> bool" where
  "bounded_attempt v = (case as_int v of Some n \<Rightarrow> 1 \<le> n \<and> n \<le> int PERMIT_MAX_ATTEMPTS | None \<Rightarrow> False)"

definition sensor_stop_named :: "pyval \<Rightarrow> bool" where
  "sensor_stop_named v = (case v of PStr s \<Rightarrow> s \<in> set SENSOR_STOP_REASONS | _ \<Rightarrow> False)"

definition check_sensor :: "row \<Rightarrow> string \<Rightarrow> check_row" where
  "check_sensor result name =
     (let row = mapping (getf (mapping (getf result ''sensor_faults'')) name); attempt = getf row ''attempt'' in
      check (''sensor_'' @ name) (row \<noteq> [])
        (is_true row ''ok'' \<and>
         (if name = ''coverage'' then getf row ''stop_reason'' = PStr ''perception_unknown'' \<and> bounded_attempt attempt
          else sensor_stop_named (getf row ''stop_reason'')) \<and>
         getf (mapping (getf row ''unknown'')) ''healthy'' = PBool False \<and> is_true row ''recovery_did_not_rearm'' \<and>
         is_true row ''post_recovery_proposal_rejected_by_engine'' \<and> number (getf row ''fault_to_zero_wall_ms'') \<noteq> None)
        [(''zero_wall_ms'', getf row ''fault_to_zero_wall_ms''),
         (''inconclusive_attempts'', case as_int attempt of Some n \<Rightarrow> if name = ''coverage'' then PInt (n - 1) else PNone | None \<Rightarrow> PNone)]
        [(''fault_to_zero_wall_ms'', getf row ''fault_to_zero_wall_ms'', 400)])"

definition check_arm_fault :: "row \<Rightarrow> string \<Rightarrow> check_row" where
  "check_arm_fault result name =
     (let row = mapping (getf (mapping (getf result ''arm_faults'')) name) in
      check (''arm_'' @ name) (row \<noteq> [])
        (is_true row ''ok'' \<and> is_true row ''old_goal_did_not_resume'' \<and> within_limit (getf row ''post_stop_drift_rad'') DRIFT_LIMIT \<and>
         number (getf row ''pre_fault_lease_age_wall_ms'') \<noteq> None \<and> number (getf row ''fault_to_hold_wall_ms'') \<noteq> None \<and>
         number (getf row ''fault_to_hold_sim_ms'') \<noteq> None)
        [(''hold_wall_ms'', getf row ''fault_to_hold_wall_ms'')]
        [(''pre_fault_lease_age_wall_ms'', getf row ''pre_fault_lease_age_wall_ms'', 100),
         (''pre_fault_lease_age_sim_ms'', getf row ''pre_fault_lease_age_sim_ms'', 150),
         (''fault_to_hold_wall_ms'', getf row ''fault_to_hold_wall_ms'', 400), (''fault_to_hold_sim_ms'', getf row ''fault_to_hold_sim_ms'', 320)])"

text \<open>\<^verbatim>\<open>max(values, default=None)\<close>: the first largest value.\<close>

fun val_max :: "pyval option \<Rightarrow> pyval list \<Rightarrow> pyval option" where
  "val_max best [] = best"
| "val_max best (v # vs) = val_max (case best of None \<Rightarrow> Some v | Some b \<Rightarrow> if val_lt b v then Some v else best) vs"

definition or_none :: "pyval option \<Rightarrow> pyval" where
  "or_none v = (case v of None \<Rightarrow> PNone | Some x \<Rightarrow> x)"

definition compound_row_ok :: "row \<Rightarrow> bool" where
  "compound_row_ok row \<longleftrightarrow>
     is_true row ''ok'' \<and> is_true row ''moving_positive_control'' \<and> is_true row ''signer_stop_observed'' \<and>
     is_true row ''recovery_did_not_rearm'' \<and> is_true row ''post_recovery_proposal_rejected_by_engine'' \<and>
     number (getf row ''engine_rejections_after_zero'') \<noteq> None \<and> val_le (PInt 10) (getf row ''engine_rejections_after_zero'') \<and>
     sensor_stop_named (getf row ''stop_reason'') \<and> number (getf row ''fault_to_zero_wall_ms'') \<noteq> None"

definition check_compound :: "row \<Rightarrow> check_row" where
  "check_compound result =
     (let compound = mapping (getf result ''compound_faults''); rows = rows_of (getf compound ''iterations'') in
      check ''compound'' (compound \<noteq> [])
        (is_true compound ''ok'' \<and> getf compound ''status'' = PStr ''complete'' \<and> 6 \<le> length rows \<and>
         list_all (\<lambda>rate. 2 \<le> length (filter (\<lambda>r. eq_int (getf r ''proposal_hz_requested'') rate) rows)) [40, 80, 100] \<and>
         list_all compound_row_ok rows)
        [(''iterations'', PInt (int (length rows))),
         (''max_zero_wall_ms'', or_none (val_max None (List.map_filter (\<lambda>r. number (getf r ''fault_to_zero_wall_ms'')) rows)))]
        (map (\<lambda>i. (''iteration_'' @ show_nat (i + 1) @ ''_fault_to_zero_wall_ms'', getf (rows ! i) ''fault_to_zero_wall_ms'', 400)) [0..<length rows]))"

definition check_audit :: "row \<Rightarrow> check_row" where
  "check_audit result = check ''audit'' (has_field ''sillok_incident_snapshot_fully_sealed'' result)
     (is_true result ''sillok_incident_snapshot_fully_sealed'') [] []"

definition check_deadman :: "row \<Rightarrow> check_row" where
  "check_deadman result =
     (let v = getf result ''gate_kill_to_base_stop_wall_ms'' in
      check ''base_deadman'' (has_field ''gate_kill_to_base_stop_wall_ms'' result) (number v \<noteq> None)
        [(''stopped_observation_wall_ms'', v)] [(''gate_kill_to_base_stop_wall_ms'', v, 3000)])"

definition PERMIT_CHECKS :: "string list" where
  "PERMIT_CHECKS = [''base_positive'', ''arm_positive'', ''base_expiry'', ''arm_expiry''] @ map (\<lambda>(t, c). t @ ''_'' @ c) PERMIT_NEGATIVES"

definition DENIED_SERVICES :: "string list" where
  "DENIED_SERVICES = [''/controller_manager/switch_controller'', ''/controller_manager/load_controller'',
     ''/controller_manager/unload_controller'', ''/controller_manager/configure_controller'',
     ''/controller_manager/cleanup_controller'', ''/controller_manager/reload_controller_libraries'',
     ''/diff_drive_base_controller/set_parameters'', ''/joint_trajectory_controller/set_parameters'',
     ''/diff_drive_base_controller/set_parameters_atomically'', ''/joint_trajectory_controller/set_parameters_atomically'']"

definition expiry_passed :: "row \<Rightarrow> bool" where
  "expiry_passed row \<longleftrightarrow> is_true row ''old_goal_did_not_resume'' \<and> is_true row ''expiry_hold_observed'' \<and> within_limit (getf row ''expiry_drift'') DRIFT_LIMIT"

definition permits_passed :: "row \<Rightarrow> row \<Rightarrow> bool" where
  "permits_passed permits checks \<longleftrightarrow>
     (let boundaries = mapping (getf permits ''relay_boundaries'') in
      is_true permits ''ok'' \<and> eq_int (getf permits ''attacker_uid'') 2005 \<and>
      getf permits ''scope'' = PStr ''gazebo_exact_action_permits_with_compromised_relay_uid'' \<and>
      list_all (is_true (mapping (getf boundaries ''signer_credentials_unreadable'')))
        [''controller.key'', ''log.key'', ''keystore/enclaves/haetae/gate/key.pem''] \<and>
      list_all (is_true (mapping (getf boundaries ''denied_services''))) DENIED_SERVICES \<and>
      fst ` set checks = set PERMIT_CHECKS \<and> list_all (\<lambda>(k, v). is_true (mapping v) ''ok'') checks \<and>
      list_all (\<lambda>(k, v). bounded_attempt (getf (mapping v) ''attempt'')) checks \<and>
      above (getf (mapping (getf checks ''base_positive'')) ''moved_m'') (PFloat 0x3F9EB851EB851EB8) \<and>
      above (getf (mapping (getf checks ''arm_positive'')) ''moved_rad'') (PFloat 0x3FB47AE147AE147B) \<and>
      list_all (\<lambda>t. expiry_passed (mapping (getf checks (t @ ''_expiry'')))) [''base'', ''arm''] \<and>
      list_all (\<lambda>(t, c). negative_row_passed t c (getf checks (t @ ''_'' @ c))) PERMIT_NEGATIVES)"

definition check_permits :: "row \<Rightarrow> check_row" where
  "check_permits result =
     (let permits = mapping (getf result ''controller_permits''); checks = mapping (getf permits ''checks'') in
      check ''controller_permits'' (permits \<noteq> []) (permits_passed permits checks)
        [(''checks'', PInt (int (length checks))),
         (''inconclusive_attempts'', PInt (sum_list (map (\<lambda>(k, v). case as_int (getf (mapping v) ''attempt'') of
            Some n \<Rightarrow> if bounded_attempt (PInt n) then n - 1 else 0 | None \<Rightarrow> 0) checks)))] [])"

definition reference_checks :: "row \<Rightarrow> check_row list" where
  "reference_checks result =
     [check_motion result, check_person result, check_arm_bounds result, check_transport result] @
     map (check_attack result) [''direct'', ''world'', ''replay'', ''signature''] @
     map (check_sensor result) [''disconnect'', ''coverage''] @
     map (check_arm_fault result) [''kill'', ''stall'', ''delay''] @
     [check_compound result, check_audit result, check_deadman result, check_permits result]"

text \<open>\<^verbatim>\<open>re.fullmatch(r"[0-9a-f]{40}", v)\<close> and \<^verbatim>\<open>[a-z0-9_-]{1,64}\<close>, else \<^verbatim>\<open>unknown\<close>\<close>

definition revision_of :: "pyval \<Rightarrow> string" where
  "revision_of v = (case v of PStr s \<Rightarrow> if is_hex 40 s then s else ''unknown'' | _ \<Rightarrow> ''unknown'')"

definition run_id_char :: "char \<Rightarrow> bool" where
  "run_id_char c \<longleftrightarrow> is_digit c \<or> (97 \<le> (of_char c :: nat) \<and> (of_char c :: nat) \<le> 122) \<or> c = CHR ''_'' \<or> c = CHR ''-''"

definition run_id_of :: "pyval \<Rightarrow> string" where
  "run_id_of v = (case v of PStr s \<Rightarrow> if 1 \<le> length s \<and> length s \<le> 64 \<and> list_all run_id_char s then s else ''unknown'' | _ \<Rightarrow> ''unknown'')"

record public_report =
  pr_scope :: string
  pr_status :: string
  pr_revision :: string
  pr_run_id :: string
  pr_checks :: "check_row list"

definition reference_status :: "pyval \<Rightarrow> bool \<Rightarrow> check_row list \<Rightarrow> string" where
  "reference_status result fl checks =
     (if fl \<or> (mapping result \<noteq> [] \<and> \<not> is_true (mapping result) ''ok'') \<or> list_ex (\<lambda>c. ck_status c = ''failed'') checks then ''failed''
      else if list_all (\<lambda>c. ck_status c = ''passed'') checks then ''passed''
      else if result \<noteq> PNone then ''incomplete'' else ''pending'')"

section \<open>The household profile\<close>

definition motion_passed :: "row \<Rightarrow> bool" where
  "motion_passed row \<longleftrightarrow>
     is_true row ''allowed'' \<and> is_true row ''mandatory_semantic_gate'' \<and> is_true row ''signed_arm_acceptance_observed'' \<and>
     is_true row ''accepted_waypoints_match'' \<and> is_true row ''history_motion_settled'' \<and>
     getf row ''material_effects_committed'' = PInt 0 \<and> within_limit (getf row ''max_joint_tracking_error_rad'') (PFloat 0x3FA999999999999A) \<and>
     (case as_int (getf row ''tracking_samples'') of Some n \<Rightarrow> 10 \<le> n | None \<Rightarrow> False) \<and>
     above (getf row ''measured_motion_rad'') (PFloat 0x3FB999999999999A) \<and> hex_str 64 (getf row ''plan_sha256'')"

definition HAZARDS :: "(string \<times> string) list" where
  "HAZARDS = [(''human'', ''human:protected-volume''), (''heat'', ''heat:hazardous-item''), (''electricity'', ''electricity:contact''),
     (''water'', ''water:electrical-item''), (''chemicals'', ''chemicals:incompatible''), (''fall'', ''fall:protected-volume'')]"

definition transfer_passed :: "row \<Rightarrow> bool" where
  "transfer_passed s \<longleftrightarrow> motion_passed s \<and> (case getf s ''steps'' of PList [a, b] \<Rightarrow> motion_passed (mapping a) \<and> motion_passed (mapping b) | _ \<Rightarrow> False)"

definition hazard_passed :: "string \<Rightarrow> string \<Rightarrow> row \<Rightarrow> bool" where
  "hazard_passed ident reason row \<longleftrightarrow>
     is_true row ''blocked'' \<and> motion_passed row \<and> is_true row ''signed_gate_rejection_observed'' \<and> getf row ''reason'' = PStr reason \<and>
     within_limit (getf row ''denied_drift_rad'') DRIFT_LIMIT \<and>
     (ident \<noteq> ''chemicals'' \<or>
       getf row ''retained_contents'' = PList [PStr ''bleach''] \<and> getf row ''item_label_sequence'' = PList [PStr ''bleach'', PStr ''ammonia''] \<and>
       is_true row ''same_visual_prop'' \<and> transfer_passed (mapping (getf row ''first_transfer'')) \<and> transfer_passed (mapping (getf row ''retreat'')))"

definition hazard_check :: "row \<Rightarrow> string \<times> string \<Rightarrow> check_row" where
  "hazard_check result h =
     (case h of (ident, reason) \<Rightarrow>
      (let matches = filter (\<lambda>r. getf r ''id'' = PStr ident) (rows_of (getf result ''hazard_checks''));
           row = (case matches of [r] \<Rightarrow> r | _ \<Rightarrow> []) in
       check ident (matches \<noteq> []) (length matches = 1 \<and> hazard_passed ident reason row)
         (map (\<lambda>k. (k, getf row k)) [''denied_drift_rad'', ''measured_motion_rad'', ''max_joint_tracking_error_rad'', ''tracking_samples'']) []))"

definition judge_control :: "row \<Rightarrow> string \<times> string \<Rightarrow> check_row" where
  "judge_control result c =
     (let row = mapping (getf (mapping (getf result ''negative_controls'')) (fst c)) in
      check (fst c) (row \<noteq> []) (getf row ''allowed'' = PBool False \<and> getf row ''reason'' = PStr (snd c)) [] [])"

definition gate_control :: "row \<Rightarrow> string \<times> string \<Rightarrow> check_row" where
  "gate_control result c =
     (let row = mapping (getf (mapping (getf result ''mandatory_gate_controls'')) (fst c)) in
      check (''gate_'' @ fst c) (row \<noteq> [])
        (getf row ''allowed'' = PBool False \<and> getf row ''reason'' = PStr (snd c) \<and> is_true row ''signed_gate_rejection_observed'' \<and>
         within_limit (getf row ''denied_drift_rad'') DRIFT_LIMIT)
        [(''denied_drift_rad'', getf row ''denied_drift_rad'')] [])"

definition history_check :: "row \<Rightarrow> check_row" where
  "history_check result =
     (let history = mapping (getf result ''history_controls''); consumed = mapping (getf history ''consumed_step'');
          retained = mapping (getf history ''retained_contents'') in
      check ''durable_history'' (history \<noteq> [])
        (is_true consumed ''blocked'' \<and> getf consumed ''reason'' = PStr ''history:consumed-step'' \<and> is_true consumed ''settled_positive_control'' \<and>
         is_true consumed ''fresh_counter_signed_probe'' \<and> within_limit (getf consumed ''denied_drift_rad'') DRIFT_LIMIT \<and>
         is_true retained ''raw_contents_empty'' \<and>
         (case as_int (getf retained ''retained_contaminants'') of Some n \<Rightarrow> 1 \<le> n | None \<Rightarrow> False) \<and>
         getf retained ''reason'' = PStr ''household:chemicals:incompatible'' \<and> is_true retained ''signed_gate_rejection_observed'' \<and>
         is_true retained ''settled_positive_control'' \<and> within_limit (getf retained ''denied_drift_rad'') DRIFT_LIMIT \<and>
         getf result ''material_effects_committed'' = PInt 0)
        [(''retained_contaminants'', getf retained ''retained_contaminants'')] [])"

definition household_checks :: "row \<Rightarrow> check_row list" where
  "household_checks result =
     map (hazard_check result) HAZARDS @
     map (judge_control result) [(''stale'', ''perception:stale''), (''unknown_item'', ''item:unknown''), (''missing_coverage'', ''perception:coverage-unknown'')] @
     map (gate_control result) [(''missing_binding'', ''household:missing-binding''), (''wrong_revision'', ''household:binding-mismatch''),
       (''wrong_item'', ''household:binding-mismatch'')] @
     [history_check result]"

definition household_status :: "row \<Rightarrow> bool \<Rightarrow> check_row list \<Rightarrow> string" where
  "household_status result fl checks =
     (if fl \<or> \<not> is_true result ''ok'' \<or> list_ex (\<lambda>c. ck_status c = ''failed'') checks then ''failed''
      else if list_all (\<lambda>c. ck_status c = ''passed'') checks then ''passed'' else ''incomplete'')"

definition household_report :: "row \<Rightarrow> pyval \<Rightarrow> pyval \<Rightarrow> bool \<Rightarrow> public_report" where
  "household_report result revision run_id fl =
     (let checks = household_checks result in
      \<lparr>pr_scope = ''household_hazard_mandatory_gate_simulation'', pr_status = household_status result fl checks,
       pr_revision = revision_of revision, pr_run_id = run_id_of run_id, pr_checks = checks\<rparr>)"

text \<open>\<^verbatim>\<open>report\<close>\<close>

definition report :: "pyval \<Rightarrow> pyval \<Rightarrow> pyval \<Rightarrow> bool \<Rightarrow> public_report" where
  "report result revision run_id fl =
     (if getf (mapping result) ''profile'' = PStr ''household_hazards'' then household_report (mapping result) revision run_id fl
      else let checks = reference_checks (mapping result) in
        \<lparr>pr_scope = ''simulator_evaluation_only'', pr_status = reference_status result fl checks,
         pr_revision = revision_of revision, pr_run_id = run_id_of run_id, pr_checks = checks\<rparr>)"

text \<open>\<^verbatim>\<open>failed_household_result\<close>: \<open>progress\<close> and \<open>diagnostics\<close> are the parsed files, or the fallbacks.\<close>

definition failed_household_result :: "pyval \<Rightarrow> pyval \<Rightarrow> row" where
  "failed_household_result progress diagnostics =
     (let rows = (case progress of PList xs \<Rightarrow> xs | _ \<Rightarrow> []); active = getf (mapping diagnostics) ''case'';
          rows' = (if active \<in> set (map (\<lambda>(k, _). PStr k) HAZARDS) \<and> \<not> list_ex (\<lambda>r. getf (mapping r) ''id'' = active) rows
                   then rows @ [PDict [(''id'', active), (''blocked'', PBool False), (''allowed'', PBool False)]] else rows) in
      [(''profile'', PStr ''household_hazards''), (''ok'', PBool False), (''hazard_checks'', PList rows')])"

section \<open>What a passed report means\<close>

lemma passed_status: "check_status p ok = ''passed'' \<longleftrightarrow> p \<and> ok"
  by (simp add: check_status_def)

lemma check_passed [simp]: "ck_status (check i p ok m t) = ''passed'' \<longleftrightarrow> p \<and> ok"
  by (simp add: check_def passed_status)

text \<open>A passed reference report: not marked failed, the run itself reports success, every check passed.\<close>

lemma reference_passed:
  assumes "reference_status result fl checks = ''passed''"
  shows "\<not> fl \<and> (mapping result \<noteq> [] \<longrightarrow> is_true (mapping result) ''ok'') \<and> (\<forall>c\<in>set checks. ck_status c = ''passed'')"
  using assms by (auto simp: reference_status_def list_all_iff split: if_splits)

lemma permits_all_refused:
  assumes "permits_passed permits checks" and "(t, c) \<in> set PERMIT_NEGATIVES"
  shows "negative_row_passed t c (getf checks (t @ ''_'' @ c))"
  using assms by (auto simp: permits_passed_def Let_def list_all_iff)

lemma uint_fields_length: "uint_fields n r ks = Some is \<Longrightarrow> length is = length ks"
  by (induction ks arbitrary: "is") (auto split: option.splits)

end
