(* ===== verification/Permit_Attempts.thy ===== *)
theory Permit_Attempts
  imports Public_Report Bounded_Attempts
begin

text \<open>
  Pass, fail or inconclusive: the rules that judge the controller-permit probes
  (\<^verbatim>\<open>ros/gazebo/permit_attempts.py\<close>). A judgement is an \<open>outcome\<close>: a value, an inconclusive
  \<^verbatim>\<open>RunnerDelay\<close> (its stage and cause; the numbers it records are measurements only), or an
  exception. Telemetry rows are the dicts the controllers publish, oldest first.
\<close>

type_synonym 'a judged = "('a, string \<times> string) outcome"

fun obind :: "'a judged \<Rightarrow> ('a \<Rightarrow> 'b judged) \<Rightarrow> 'b judged" where
  "obind (Passed a) f = f a"
| "obind (Inconclusive d) f = Inconclusive d"
| "obind (Raised x) f = Raised x"

abbreviation delay :: "string \<Rightarrow> string \<Rightarrow> 'a judged" where
  "delay stage cause \<equiv> Inconclusive (stage, cause)"

abbreviation fails :: "string \<Rightarrow> 'a judged" where
  "fails m \<equiv> Raised (AssertionError m)"

definition UPDATE_MS :: int where
  "UPDATE_MS = CONTROLLER_UPDATE_NS div 1000000"

section \<open>Public values\<close>

text \<open>\<^verbatim>\<open>round(v, 3)\<close> of a finite double.\<close>

definition round3 :: "float64 \<Rightarrow> pyval" where
  "round3 w = (case double_of_rat (of_int (round_half_even (f_val w * 1000)) / 1000) of Inr r \<Rightarrow> PFloat r | Inl _ \<Rightarrow> PFloat w)"

function public_val :: "pyval \<Rightarrow> pyval" where
  "public_val v =
     (case v of
        PFloat w \<Rightarrow> if isfinite w then round3 w else PNone
      | PStr s \<Rightarrow> PStr (utake 300 s)
      | PDict d \<Rightarrow> PDict (dict_of [] (map (\<lambda>p. (utake 80 (fst p), public_val (snd p))) d))
      | PList xs \<Rightarrow> PList (map public_val (take 50 xs))
      | _ \<Rightarrow> v)"
  by pat_completeness auto
termination
proof (relation "measure size")
  show "wf (measure (size :: pyval \<Rightarrow> nat))" by simp
next
  fix v d p assume "v = PDict d" "p \<in> set d"
  then show "(snd p, v) \<in> measure size" using size_pair_elem [of "fst p" "snd p" d] by simp
next
  fix v xs x assume "v = PList xs" "x \<in> set (take 50 xs)"
  moreover have "x \<in> set xs" using calculation(2) by (rule in_set_takeD)
  ultimately show "(x, v) \<in> measure size" using size_list_estimation' [of x xs "size x" size] by simp
qed

declare public_val.simps [simp del]

section \<open>Permits\<close>

record permit_view =
  pf_kind :: string
  pf_seq :: int
  pf_sim :: int
  pf_wall :: int
  pf_sim_end :: int
  pf_wall_end :: int

text \<open>\<^verbatim>\<open>permit_fields\<close>: the public fields of the wire text.\<close>

definition permit_fields :: "pyval \<Rightarrow> permit_view res" where
  "permit_fields token =
     (let fields = (case token of PStr s \<Rightarrow> split_on (CHR '':'') s | _ \<Rightarrow> []) in
      if length fields \<noteq> 10 \<or> fields ! 0 \<noteq> ''v1'' then Inl (ValueError ''unexpected controller permit wire format'')
      else rbind (rmap py_int (take 5 (drop 3 fields))) (\<lambda>ns.
        Inr \<lparr>pf_kind = fields ! 1, pf_seq = ns ! 0, pf_sim = ns ! 1, pf_wall = ns ! 2, pf_sim_end = ns ! 3, pf_wall_end = ns ! 4\<rparr>))"

definition permit_age_ns :: "permit_view \<Rightarrow> int \<Rightarrow> int \<Rightarrow> int" where
  "permit_age_ns f wall_ns sim_ns = max (wall_ns - pf_wall f) (sim_ns - pf_sim f)"

text \<open>\<^verbatim>\<open>check_timely\<close>; the age is returned in nanoseconds.\<close>

definition check_timely :: "string \<Rightarrow> permit_view \<Rightarrow> int \<Rightarrow> int \<Rightarrow> int judged" where
  "check_timely stage f wall_ns sim_ns =
     (let age = permit_age_ns f wall_ns sim_ns in
      if age \<ge> VERIFIER_WINDOW_NS \<or> wall_ns \<ge> pf_wall_end f \<or> sim_ns \<ge> pf_sim_end f then delay stage ''permit_aged_before_send''
      else Passed age)"

definition require_live :: "string \<Rightarrow> permit_view \<Rightarrow> int \<Rightarrow> int \<Rightarrow> unit judged" where
  "require_live stage grant wall_ns sim_ns =
     (if wall_ns \<ge> pf_wall_end grant \<or> sim_ns \<ge> pf_sim_end grant then delay stage ''governing_lease_ended_before_send'' else Passed ())"

definition require_fresh_witness :: "string \<Rightarrow> int \<Rightarrow> int \<Rightarrow> unit judged" where
  "require_fresh_witness stage published_ns sent_ns =
     (let age = sent_ns - published_ns in
      if \<not> (0 \<le> age \<and> age < VERIFIER_WINDOW_NS) then delay stage ''pre_send_telemetry_aged'' else Passed ())"

definition require_stale_window :: "string \<Rightarrow> permit_view \<Rightarrow> int \<Rightarrow> int \<Rightarrow> unit judged" where
  "require_stale_window stage f wall_ns sim_ns =
     (if wall_ns - pf_wall f < VERIFIER_WINDOW_NS \<or> sim_ns - pf_sim f < VERIFIER_WINDOW_NS
      then fails (stage @ '': deliberately stale permit is under 50 ms old at send'')
      else if wall_ns \<ge> pf_wall_end f \<or> sim_ns \<ge> pf_sim_end f then delay stage ''stale_permit_ends_passed_before_send'' else Passed ())"

text \<open>A number of a telemetry row, with its default; a value that is no number cannot be compared.\<close>

definition num_field :: "row \<Rightarrow> string \<Rightarrow> pynum judged" where
  "num_field r k = (case map_of r k of
     None \<Rightarrow> Passed (NFin 0)
   | Some v \<Rightarrow> (case num_of v of None \<Rightarrow> Raised TypeError | Some x \<Rightarrow> Passed x))"

abbreviation fin :: "int \<Rightarrow> pynum" where
  "fin n \<equiv> NFin (of_int n)"

definition require_refused_inside_stale_window :: "string \<Rightarrow> row \<Rightarrow> permit_view \<Rightarrow> unit judged" where
  "require_refused_inside_stale_window stage refusal_row f =
     obind (num_field refusal_row ''published_wall_ns'') (\<lambda>published.
     if num_le (fin (pf_wall_end f - LAPSE_ALLOWANCE_NS)) published then delay stage ''refusal_not_separable_from_stale_permit_end'' else Passed ())"

definition require_refused_inside_lease :: "string \<Rightarrow> string \<Rightarrow> row \<Rightarrow> int \<Rightarrow> unit judged" where
  "require_refused_inside_lease target stage refusal_row lease_wall_end_ns =
     obind (num_field refusal_row ''published_wall_ns'') (\<lambda>published.
     if num_le (fin (lease_wall_end_ns - (if target = ''base'' then LAPSE_ALLOWANCE_NS else 0))) published
     then delay stage ''rejection_not_separable_from_lease_end'' else Passed ())"

section \<open>Grants\<close>

record grant_chain =
  gc_grants :: "permit_view list"
  gc_before :: int

definition grant_chain_init :: "permit_view \<Rightarrow> int \<Rightarrow> grant_chain" where
  "grant_chain_init first accepted_before = \<lparr>gc_grants = [first], gc_before = accepted_before\<rparr>"

definition grant_sent :: "permit_view \<Rightarrow> grant_chain \<Rightarrow> grant_chain" where
  "grant_sent f c = c\<lparr>gc_grants := gc_grants c @ [f]\<rparr>"

definition grant_last :: "grant_chain \<Rightarrow> permit_view" where
  "grant_last c = last (gc_grants c)"

definition in_flight :: "grant_chain \<Rightarrow> pyval \<Rightarrow> bool" where
  "in_flight c accepted = (case as_int accepted of None \<Rightarrow> True | Some n \<Rightarrow> n < gc_before c + int (length (gc_grants c)))"

definition admitted :: "grant_chain \<Rightarrow> pyval \<Rightarrow> string \<Rightarrow> (int \<times> permit_view option) judged" where
  "admitted c accepted stage =
     (case as_int accepted of
        None \<Rightarrow> fails (stage @ '': controller admission count does not match'')
      | Some n \<Rightarrow> (let index = n - gc_before c - 1 in
          if \<not> (-1 \<le> index \<and> index < int (length (gc_grants c))) then fails (stage @ '': controller admission count does not match'')
          else Passed (index, if 0 \<le> index then Some (gc_grants c ! nat index) else None)))"

section \<open>Fail-closed events\<close>

text \<open>\<^verbatim>\<open>first_fail_closed\<close>, from row \<open>i\<close> on.\<close>

fun fail_closed_from :: "int \<Rightarrow> int \<Rightarrow> nat \<Rightarrow> row list \<Rightarrow> (nat \<times> row) option judged" where
  "fail_closed_from since_ns before i [] = Passed None"
| "fail_closed_from since_ns before i (r # rs) =
     obind (num_field r ''published_wall_ns'') (\<lambda>published.
     if \<not> num_le (fin since_ns) published then fail_closed_from since_ns before (Suc i) rs
     else obind (num_field r ''rejected'') (\<lambda>rejected.
     if num_lt (fin before) rejected \<or> getf r ''reason'' = PStr ''expired'' then Passed (Some (i, r))
     else fail_closed_from since_ns before (Suc i) rs))"

definition first_fail_closed :: "row list \<Rightarrow> int \<Rightarrow> int \<Rightarrow> (nat \<times> row) option judged" where
  "first_fail_closed rows since_ns before = fail_closed_from since_ns before 0 rows"

text \<open>The stamps of a hold transition.\<close>

record hold =
  hd_stop :: int
  hd_cutoff :: int

text \<open>\<^verbatim>\<open>hold_row\<close>; a missing \<open>after_ns\<close> cannot be compared.\<close>

fun hold_row :: "row list \<Rightarrow> int option \<Rightarrow> hold option judged" where
  "hold_row [] after_ns = Passed None"
| "hold_row (r # rs) after_ns =
     (case (getf r ''holding'', as_int (getf r ''stop_wall_ns''), as_int (getf r ''cutoff_ms'')) of
        (PBool True, Some stop, Some cutoff) \<Rightarrow>
          (case after_ns of
             None \<Rightarrow> Raised TypeError
           | Some t \<Rightarrow> if t \<le> stop then Passed (Some \<lparr>hd_stop = stop, hd_cutoff = cutoff\<rparr>) else hold_row rs after_ns)
      | _ \<Rightarrow> hold_row rs after_ns)"

definition int_stamps :: "row list \<Rightarrow> int list" where
  "int_stamps rows = List.map_filter (\<lambda>r. as_int (getf r ''stamp_ms'')) rows"

definition hold_evidence :: "row list \<Rightarrow> nat \<Rightarrow> int option \<Rightarrow> string \<Rightarrow> hold option judged" where
  "hold_evidence rows event_index after_ns stage =
     (case as_int (getf (rows ! event_index) ''stamp_ms'') of
        None \<Rightarrow> fails (stage @ '': arm telemetry carries no controller update stamp'')
      | Some stamp \<Rightarrow> (let limit = stamp + HOLD_UPDATES * UPDATE_MS in
          obind (hold_row rows after_ns) (\<lambda>held.
          (case held of
             Some h \<Rightarrow> if hd_cutoff h > limit then fails (stage @ '': arm held too late after the refusal row'') else Passed (Some h)
           | None \<Rightarrow>
               if limit < Max (set (int_stamps (drop event_index rows)))
               then fails (stage @ '': arm controller kept updating after the refusal without holding'') else Passed None))))"

definition hold_at_lease_end :: "hold \<Rightarrow> permit_view \<Rightarrow> bool" where
  "hold_at_lease_end held grant \<longleftrightarrow> hd_stop held \<ge> pf_wall_end grant \<or> hd_cutoff held * 1000000 \<ge> pf_sim_end grant - CONTROLLER_UPDATE_NS"

text \<open>\<^verbatim>\<open>lapse_evidence\<close>, \<^verbatim>\<open>goal_window_evidence\<close>: \<open>None\<close> while the hold is not visible yet.\<close>

definition lapse_evidence :: "string \<Rightarrow> row list \<Rightarrow> nat \<Rightarrow> permit_view option \<Rightarrow> int option \<Rightarrow> string \<Rightarrow> bool option judged" where
  "lapse_evidence target rows index grant after_ns stage =
     (case grant of
        None \<Rightarrow> Passed (Some False)
      | Some g \<Rightarrow>
          if target = ''base''
          then obind (num_field (rows ! index) ''published_wall_ns'') (\<lambda>published. Passed (Some (num_le (fin (pf_wall_end g - LAPSE_ALLOWANCE_NS)) published)))
          else obind (hold_evidence rows index after_ns stage) (\<lambda>held. Passed (map_option (\<lambda>h. hold_at_lease_end h g) held)))"

definition goal_window_evidence :: "row list \<Rightarrow> nat \<Rightarrow> permit_view \<Rightarrow> int option \<Rightarrow> string \<Rightarrow> bool option judged" where
  "goal_window_evidence rows index goal after_ns stage =
     obind (hold_evidence rows index after_ns stage) (\<lambda>held.
     Passed (map_option (\<lambda>h. hd_cutoff h * 1000000 \<ge> pf_sim goal + VERIFIER_WINDOW_NS - CONTROLLER_UPDATE_NS) held))"

datatype settle = Clear | Pending

text \<open>\<^verbatim>\<open>row.get("rejected", 0) - rejected_before == n\<close>\<close>

abbreviation delta_is :: "pynum \<Rightarrow> int \<Rightarrow> int \<Rightarrow> bool" where
  "delta_is rejected before n \<equiv> num_eq rejected (fin (before + n))"

text \<open>\<^verbatim>\<open>require_no_fail_closed\<close>\<close>

definition require_no_fail_closed :: "string \<Rightarrow> row list \<Rightarrow> int \<Rightarrow> int \<Rightarrow> grant_chain \<Rightarrow> int option \<Rightarrow> string \<Rightarrow> settle judged" where
  "require_no_fail_closed target rows since_ns before chain hold_after_ns stage =
     obind (first_fail_closed rows since_ns before) (\<lambda>found.
     (case found of
        None \<Rightarrow> Passed Clear
      | Some (index, row) \<Rightarrow>
          (let reason = getf row ''reason'' in
           obind (num_field row ''rejected'') (\<lambda>rejected.
           if delta_is rejected before 1 \<and> reason = PStr ''freshness'' then delay stage ''verifier_freshness_refusal''
           else if \<not> (delta_is rejected before 0 \<and> reason = PStr ''expired'' \<or> delta_is rejected before 1 \<and> reason = PStr ''locked'' \<or>
                      delta_is rejected before 1 \<and> reason = PStr ''rejected'' \<and> target = ''arm'')
           then fails (stage @ '': timely permit rejected'')
           else obind (admitted chain (getf row ''accepted'') stage) (\<lambda>(position, grant).
             let goal = (reason = PStr ''rejected'' \<and> (case grant of Some g \<Rightarrow> pf_kind g = ''arm-goal'' | None \<Rightarrow> False)) in
             obind (if goal then goal_window_evidence rows index (the grant) hold_after_ns stage
                    else lapse_evidence target rows index grant hold_after_ns stage) (\<lambda>verdict.
             (case verdict of
                None \<Rightarrow> Passed Pending
              | Some True \<Rightarrow> delay stage (if goal then ''goal_window_closed_during_action_handshake'' else ''governing_lease_lapsed'')
              | Some False \<Rightarrow> fails (stage @ '': controller locked before any signed bound could close''))))))))"

definition negative_timing :: "string \<Rightarrow> string \<Rightarrow> string list" where
  "negative_timing target cs = (if cs = ''signature'' then [''freshness''] else []) @
     (if target = ''arm'' \<and> cs \<noteq> ''renewal_delay'' then [''rejected''] else [])"

section \<open>Refusals\<close>

text \<open>The pre-send witness of a packet that must be refused.\<close>

record witness =
  w_sent :: int
  w_nonce :: pyval
  w_accepted :: pyval
  w_rejected :: int
  w_published :: "int option"

datatype scan = Undecided | Scanned "nat option"

text \<open>A refusal for another reason than the expected one.\<close>

definition other_refusal :: "string \<Rightarrow> row list \<Rightarrow> nat \<Rightarrow> pyval \<Rightarrow> string list \<Rightarrow> permit_view option \<Rightarrow> int option \<Rightarrow> string \<Rightarrow> scan judged" where
  "other_refusal target rows index reason timing governing hold_after_ns stage =
     (if reason \<notin> set (map PStr timing) then fails (stage @ '': rejected for another reason'')
      else if reason = PStr ''freshness'' then delay stage ''verifier_freshness_refusal''
      else obind (lapse_evidence target rows index governing hold_after_ns stage) (\<lambda>verdict.
        (case verdict of
           None \<Rightarrow> Passed Undecided
         | Some True \<Rightarrow> delay stage ''arm_ingress_after_governing_lease_lapsed''
         | Some False \<Rightarrow> fails (stage @ '': arm ingress refused before the governing lease could end''))))"

text \<open>A lapse published before the refusal.\<close>

definition lapse_before_refusal :: "string \<Rightarrow> row list \<Rightarrow> nat \<Rightarrow> permit_view \<Rightarrow> int option \<Rightarrow> string \<Rightarrow> scan judged" where
  "lapse_before_refusal target rows index governing hold_after_ns stage =
     obind (lapse_evidence target rows index (Some governing) hold_after_ns stage) (\<lambda>verdict.
       (case verdict of
          None \<Rightarrow> Passed Undecided
        | Some True \<Rightarrow> delay stage ''governing_lease_lapsed_before_refusal''
        | Some False \<Rightarrow> fails (stage @ '': controller locked (expired) before the governing lease could end'')))"

text \<open>The loop of \<^verbatim>\<open>refusal\<close> over the rows from \<open>index\<close> on; \<open>found\<close> is the refusal's row.\<close>

fun refusal_scan :: "string \<Rightarrow> row list \<Rightarrow> witness \<Rightarrow> string \<Rightarrow> string list \<Rightarrow> permit_view option \<Rightarrow> int option \<Rightarrow> string \<Rightarrow>
    nat option \<Rightarrow> nat \<Rightarrow> row list \<Rightarrow> scan judged" where
  "refusal_scan target rows w expected timing governing after stage found index [] = Passed (Scanned found)"
| "refusal_scan target rows w expected timing governing after stage found index (row # rest) =
     obind (num_field row ''published_wall_ns'') (\<lambda>published.
     if num_lt published (fin (case w_published w of None \<Rightarrow> w_sent w | Some t \<Rightarrow> t))
     then refusal_scan target rows w expected timing governing after stage found (Suc index) rest
     else if \<not> pyeq (getf row ''nonce'') (w_nonce w) \<or> \<not> pyeq (getf row ''accepted'') (w_accepted w)
     then fails (stage @ '': controller admitted the packet or was re-activated'')
     else obind (num_field row ''rejected'') (\<lambda>rejected.
     if found = None \<and> num_le rejected (fin (w_rejected w)) then
       (case governing of
          Some g \<Rightarrow>
            if getf row ''reason'' = PStr ''expired'' then lapse_before_refusal target rows index g after stage
            else refusal_scan target rows w expected timing governing after stage found (Suc index) rest
        | None \<Rightarrow> refusal_scan target rows w expected timing governing after stage found (Suc index) rest)
     else if num_lt published (fin (w_sent w)) then fails (stage @ '': controller counted a rejection before the packet left'')
     else if \<not> delta_is rejected (w_rejected w) 1 then fails (stage @ '': counted several rejections, expected exactly one'')
     else if found \<noteq> None then refusal_scan target rows w expected timing governing after stage found (Suc index) rest
     else if getf row ''reason'' = PStr expected
     then refusal_scan target rows w expected timing governing after stage (Some index) (Suc index) rest
     else other_refusal target rows index (getf row ''reason'') timing governing after stage))"

text \<open>\<^verbatim>\<open>refusal\<close>: the refusal's row and, for the arm with a hold to wait for, its prompt hold.\<close>

definition refusal :: "string \<Rightarrow> row list \<Rightarrow> witness \<Rightarrow> string \<Rightarrow> string list \<Rightarrow> permit_view option \<Rightarrow> string \<Rightarrow> int option
    \<Rightarrow> (row \<times> hold option) option judged" where
  "refusal target rows w expected timing governing stage hold_after_ns =
     obind (refusal_scan target rows w expected timing governing hold_after_ns stage None 0 rows) (\<lambda>sc.
     (case sc of
        Undecided \<Rightarrow> Passed None
      | Scanned None \<Rightarrow> Passed None
      | Scanned (Some found) \<Rightarrow>
          (let reason = getf (rows ! found) ''reason'';
               latched = list_ex (\<lambda>r. getf r ''holding'' = PBool True \<and> getf r ''reason'' = reason) (drop found rows) in
           if target \<noteq> ''arm'' \<or> hold_after_ns = None then Passed (if latched then Some (rows ! found, None) else None)
           else obind (hold_evidence rows found hold_after_ns stage) (\<lambda>held.
             (case held of
                None \<Rightarrow> Passed None
              | Some h \<Rightarrow>
                  if \<not> latched then Passed None
                  else (case governing of
                      None \<Rightarrow> Raised TypeError
                    | Some g \<Rightarrow> if hold_at_lease_end h g then delay stage ''arm_hold_not_separable_from_governing_lease_end''
                               else Passed (Some (rows ! found, Some h))))))))"

text \<open>\<^verbatim>\<open>refusal_hold\<close>\<close>

fun first_refused :: "int \<Rightarrow> int \<Rightarrow> nat \<Rightarrow> row list \<Rightarrow> nat option judged" where
  "first_refused sent before i [] = Passed None"
| "first_refused sent before i (r # rs) =
     obind (num_field r ''published_wall_ns'') (\<lambda>published.
     if \<not> num_le (fin sent) published then first_refused sent before (Suc i) rs
     else obind (num_field r ''rejected'') (\<lambda>rejected.
     if num_lt (fin before) rejected then Passed (Some i) else first_refused sent before (Suc i) rs))"

definition refusal_hold :: "row list \<Rightarrow> int \<Rightarrow> int \<Rightarrow> int option \<Rightarrow> string \<Rightarrow> (row \<times> hold) option judged" where
  "refusal_hold rows sent_ns before hold_after_ns stage =
     obind (first_refused sent_ns before 0 rows) (\<lambda>index.
     (case index of
        None \<Rightarrow> Passed None
      | Some i \<Rightarrow> obind (hold_evidence rows i hold_after_ns stage) (\<lambda>held. Passed (map_option (\<lambda>h. (rows ! i, h)) held))))"

section \<open>Before a negative packet\<close>

record reset_grant =
  rg_nonce :: pyval
  rg_accepted :: int
  rg_rejected :: int
  rg_unlocked :: int
  rg_fields :: permit_view

definition reset_lease_events :: "string \<Rightarrow> string \<Rightarrow> row list \<Rightarrow> reset_grant \<Rightarrow> settle judged" where
  "reset_lease_events target stage rows g =
     (let row = last rows in
      if \<not> pyeq (getf row ''nonce'') (rg_nonce g) \<or> \<not> eq_int (getf row ''accepted'') (rg_accepted g) \<or>
         \<not> eq_int (getf row ''rejected'') (rg_rejected g) \<or> getf row ''reason'' \<notin> {PStr ''accepted'', PStr ''expired''}
      then fails (stage @ '': controller state changed before the negative packet'')
      else require_no_fail_closed target rows (rg_unlocked g) (rg_rejected g)
             (grant_chain_init (rg_fields g) (rg_accepted g - 1)) (Some (rg_unlocked g)) (stage @ '' reset lease''))"

definition precondition_miss :: "string \<Rightarrow> string \<Rightarrow> row list \<Rightarrow> reset_grant \<Rightarrow> bool judged" where
  "precondition_miss target stage rows g =
     obind (reset_lease_events target stage rows g) (\<lambda>s.
     if s = Pending then Passed False else delay stage ''live_reset_window_missed_before_send'')"

section \<open>Motion\<close>

text \<open>\<^verbatim>\<open>motion_after\<close>: joint positions as exact values.\<close>

definition displacement :: "rat list \<Rightarrow> rat list \<Rightarrow> rat list" where
  "displacement p q = map (\<lambda>(a, b). \<bar>a - b\<bar>) (zip p q)"

definition motion_after :: "(int \<times> rat list) list \<Rightarrow> int \<Rightarrow> rat list \<Rightarrow> rat option" where
  "motion_after samples start_ns final_positions =
     (if samples = [] \<or> fst (hd samples) > start_ns then None
      else (let later = map snd (filter (\<lambda>(stamp, _). stamp \<ge> start_ns) samples) in
        if later = [] then None
        else Some (Max (set (concat (map (\<lambda>p. displacement p (hd later)) (later @ [final_positions])))))))"

text \<open>\<^verbatim>\<open>refused_motion\<close>: a drift that is no finite number was not measured.\<close>

definition refused_motion :: "string \<Rightarrow> pyval \<Rightarrow> bool \<Rightarrow> pyval judged" where
  "refused_motion stage drift prompt_hold =
     (case num_of drift of
        Some (NFin q) \<Rightarrow>
          if val_le drift DRIFT_LIMIT then Passed drift
          else if prompt_hold then delay stage ''admitted_first_goal_moved_during_duplicate_transit''
          else fails (stage @ '' moved under invalid permit'')
      | _ \<Rightarrow> fails (stage @ '': drift after the refused packet was not measured''))"

definition late_stop_verdict :: "string \<Rightarrow> hold \<Rightarrow> int \<Rightarrow> permit_view \<Rightarrow> int judged" where
  "late_stop_verdict stage held sent_ns goal =
     (if hd_stop held \<ge> sent_ns then
        (if \<not> hold_at_lease_end held goal then Passed (hd_stop held) else delay stage ''hold_not_separable_from_goal_lease_end'')
      else if hold_at_lease_end held goal then delay stage ''goal_lease_lapsed_before_late_renewal_send''
      else fails (stage @ '': arm held before the late renewal left and before its goal lease could end''))"

text \<open>
  \<^verbatim>\<open>motion_checked\<close>, \<^verbatim>\<open>fail_closed_settled\<close> and \<^verbatim>\<open>goal_counted\<close>: an inconclusive body is re-raised only
  after its check, which may fail instead. Nothing else is caught.
\<close>

fun checked :: "unit judged \<Rightarrow> 'a judged \<Rightarrow> 'a judged" where
  "checked chk (Inconclusive d) = obind chk (\<lambda>_. Inconclusive d)"
| "checked chk r = r"

definition motion_checked :: "unit judged \<Rightarrow> 'a judged \<Rightarrow> 'a judged" where
  "motion_checked chk body = checked chk body"

definition fail_closed_settled :: "unit judged \<Rightarrow> 'a judged \<Rightarrow> 'a judged" where
  "fail_closed_settled settle_events body = checked settle_events body"

definition goal_counted :: "unit judged \<Rightarrow> 'a judged \<Rightarrow> 'a judged" where
  "goal_counted require_counted body = checked require_counted body"

section \<open>The record of the attempts\<close>

record log_row =
  lr_case :: string
  lr_attempt :: nat
  lr_outcome :: string
  lr_stage :: "string option"

definition MAX_SERIES_SAMPLES :: nat where "MAX_SERIES_SAMPLES = 4096"

record attempt_log =
  al_series :: "(string \<times> pyval list) list"
  al_attempts :: "log_row list"

text \<open>\<^verbatim>\<open>sample\<close>: finite numbers only, a bounded series.\<close>

definition sample :: "string \<Rightarrow> pyval \<Rightarrow> attempt_log \<Rightarrow> attempt_log" where
  "sample name v l =
     (if is_number v \<and> (case num_of v of Some (NFin _) \<Rightarrow> True | _ \<Rightarrow> False) then
        (let values = (case map_of (al_series l) name of None \<Rightarrow> [] | Some vs \<Rightarrow> vs) in
         l\<lparr>al_series := dput name (if length values < MAX_SERIES_SAMPLES
              then values @ [case v of PFloat w \<Rightarrow> round3 w | PInt n \<Rightarrow> (case double_of_rat (of_int n) of Inr w \<Rightarrow> round3 w | Inl _ \<Rightarrow> v) | _ \<Rightarrow> v]
              else values) (al_series l)\<rparr>)
      else l)"

definition record_attempt :: "string \<Rightarrow> nat \<Rightarrow> string \<Rightarrow> string option \<Rightarrow> attempt_log \<Rightarrow> attempt_log" where
  "record_attempt cs n outcome stage l = l\<lparr>al_attempts := al_attempts l @ [\<lparr>lr_case = cs, lr_attempt = n, lr_outcome = outcome, lr_stage = stage\<rparr>]\<rparr>"

text \<open>\<^verbatim>\<open>payload\<close>: per case the attempts, the inconclusive ones and the last outcome.\<close>

definition case_entry :: "(string \<times> nat \<times> nat \<times> string option) list \<Rightarrow> log_row \<Rightarrow> (string \<times> nat \<times> nat \<times> string option) list" where
  "case_entry cases r =
     (case (case map_of cases (lr_case r) of None \<Rightarrow> (0, 0, None) | Some e \<Rightarrow> e) of (n, k, _) \<Rightarrow>
        dput (lr_case r) (max n (lr_attempt r), k + (if lr_outcome r = ''inconclusive'' then 1 else 0), Some (lr_outcome r)) cases)"

definition log_cases :: "attempt_log \<Rightarrow> (string \<times> nat \<times> nat \<times> string option) list" where
  "log_cases l = foldl case_entry [] (al_attempts l)"

text \<open>\<^verbatim>\<open>type(exc).__name__\<close>\<close>

fun exn_name :: "exn \<Rightarrow> string" where
  "exn_name (ValueError _) = ''ValueError''"
| "exn_name (InvalidProposal _) = ''InvalidProposal''"
| "exn_name UnicodeError = ''UnicodeDecodeError''"
| "exn_name (KeyError _) = ''KeyError''"
| "exn_name IndexError = ''IndexError''"
| "exn_name TypeError = ''TypeError''"
| "exn_name AttributeError = ''AttributeError''"
| "exn_name OverflowError = ''OverflowError''"
| "exn_name StructError = ''error''"
| "exn_name (AssertionError _) = ''AssertionError''"
| "exn_name (RuntimeError _) = ''RuntimeError''"
| "exn_name (BridgeFailure _) = ''BridgeFailure''"
| "exn_name (StaleActuation _) = ''StaleActuation''"
| "exn_name (ExpiredActuation _) = ''ExpiredActuation''"
| "exn_name (LinkError _) = ''LinkError''"
| "exn_name (OSError _) = ''OSError''"
| "exn_name (TimeoutError _) = ''TimeoutError''"

text \<open>\<^verbatim>\<open>bounded_attempts\<close> at attempt \<open>k\<close>; \<open>body k\<close> is what that run of the body did.\<close>

fun permit_attempts_from :: "string \<Rightarrow> (nat \<Rightarrow> 'a judged) \<Rightarrow> nat \<Rightarrow> nat \<Rightarrow> attempt_log \<Rightarrow> ('a \<times> nat) res \<times> attempt_log" where
  "permit_attempts_from cs body k 0 l =
     (Inl (AssertionError (cs @ '': all attempts were inconclusive under runner delay'')),
      record_attempt cs (k - 1) ''failed'' (Some ''AssertionError'') l)"
| "permit_attempts_from cs body k (Suc left) l =
     (case body k of
        Passed row \<Rightarrow> (Inr (row, k), record_attempt cs k ''passed'' None l)
      | Inconclusive (stage, cause) \<Rightarrow> permit_attempts_from cs body (Suc k) left (record_attempt cs k ''inconclusive'' (Some stage) l)
      | Raised x \<Rightarrow> (Inl x, record_attempt cs k ''failed'' (Some (exn_name x)) l))"

definition permit_attempts :: "string \<Rightarrow> (nat \<Rightarrow> 'a judged) \<Rightarrow> attempt_log \<Rightarrow> ('a \<times> nat) res \<times> attempt_log" where
  "permit_attempts cs body l = permit_attempts_from cs body 1 PERMIT_MAX_ATTEMPTS l"

interpretation permit_retry: retry_loop body "permit_attempts_from cs body" for cs body
proof unfold_locales
  fix k n e and s :: attempt_log assume "body k = Inconclusive e"
  then show "\<exists>s'. fst (permit_attempts_from cs body k (Suc n) s) = fst (permit_attempts_from cs body (Suc k) n s')"
    by (cases e) auto
qed auto

section \<open>What the judgements mean\<close>

lemma obind_Passed: "obind m f = Passed b \<longleftrightarrow> (\<exists>a. m = Passed a \<and> f a = Passed b)"
  by (cases m) auto

text \<open>A check around a body never makes it pass, and never hides its failure.\<close>

lemma checked_Passed: "checked chk r = Passed a \<longleftrightarrow> r = Passed a"
proof (cases r)
  case (Inconclusive d)
  then show ?thesis by (cases chk) auto
qed auto

lemma checked_Raised: "r = Raised x \<Longrightarrow> checked chk r = Raised x"
  by simp

lemma checked_fails: "r = Inconclusive d \<Longrightarrow> chk = Raised x \<Longrightarrow> checked chk r = Raised x"
  by simp

text \<open>A row the scan looks at: published at or after the pre-send witness.\<close>

definition looked_at :: "witness \<Rightarrow> row \<Rightarrow> bool" where
  "looked_at w row \<longleftrightarrow> (\<exists>p. num_field row ''published_wall_ns'' = Passed p \<and> \<not> num_lt p (fin (case w_published w of None \<Rightarrow> w_sent w | Some t \<Rightarrow> t)))"

definition unchanged :: "witness \<Rightarrow> row \<Rightarrow> bool" where
  "unchanged w row \<longleftrightarrow> pyeq (getf row ''nonce'') (w_nonce w) \<and> pyeq (getf row ''accepted'') (w_accepted w)"

text \<open>The row of a counted refusal for the expected reason, published after the packet left.\<close>

definition refusal_row :: "witness \<Rightarrow> string \<Rightarrow> row \<Rightarrow> bool" where
  "refusal_row w expected row \<longleftrightarrow> getf row ''reason'' = PStr expected \<and>
     (\<exists>p x. num_field row ''published_wall_ns'' = Passed p \<and> \<not> num_lt p (fin (w_sent w)) \<and>
        num_field row ''rejected'' = Passed x \<and> delta_is x (w_rejected w) 1)"

lemma lapse_before_not_scanned: "lapse_before_refusal target rows i g after stage \<noteq> Passed (Scanned r)"
  by (auto simp: lapse_before_refusal_def obind_Passed split: option.splits bool.splits)

lemma other_not_scanned: "other_refusal target rows i reason timing g after stage \<noteq> Passed (Scanned r)"
  by (auto simp: other_refusal_def obind_Passed split: option.splits bool.splits)

lemma refusal_scan_sound:
  "refusal_scan target rows w expected timing governing after stage found index rest = Passed (Scanned r) \<Longrightarrow>
   (\<forall>row\<in>set rest. looked_at w row \<longrightarrow> unchanged w row) \<and>
   (found \<noteq> None \<longrightarrow> r = found) \<and>
   (found = None \<longrightarrow> (\<forall>j. r = Some j \<longrightarrow> index \<le> j \<and> j < index + length rest \<and> refusal_row w expected (rest ! (j - index)) \<and> unchanged w (rest ! (j - index))))"
proof (induction rest arbitrary: found index)
  case Nil
  then show ?case by simp
next
  case (Cons row rest)
  let ?scan = "refusal_scan target rows w expected timing governing after stage"
  obtain p where p: "num_field row ''published_wall_ns'' = Passed p" using Cons.prems by (auto simp: obind_Passed)
  let ?early = "num_lt p (fin (case w_published w of None \<Rightarrow> w_sent w | Some t \<Rightarrow> t))"
  have lift: ?case
    if run: "?scan found' (Suc index) rest = Passed (Scanned r)" and row: "looked_at w row \<longrightarrow> unchanged w row"
      and fnd: "found' = found \<or> found = None \<and> found' = Some index \<and> refusal_row w expected row \<and> unchanged w row" for found'
  proof -
    note h = Cons.IH [OF run]
    have "index \<le> j \<and> j < index + length (row # rest) \<and> refusal_row w expected ((row # rest) ! (j - index)) \<and> unchanged w ((row # rest) ! (j - index))"
      if "found = None" "r = Some j" for j
    proof (cases "found' = None")
      case True
      with h that have j: "Suc index \<le> j" "j < Suc index + length rest" "refusal_row w expected (rest ! (j - Suc index))" "unchanged w (rest ! (j - Suc index))" by auto
      then have "(row # rest) ! (j - index) = rest ! (j - Suc index)" by (simp add: nth_Cons' Suc_diff_le)
      with j show ?thesis by simp
    next
      case False
      with fnd that h have "j = index" "refusal_row w expected row" "unchanged w row" by auto
      then show ?thesis by simp
    qed
    moreover have "found \<noteq> None \<longrightarrow> r = found" using h fnd by auto
    ultimately show ?thesis using h row by auto
  qed
  show ?case
  proof (cases ?early)
    case True
    have "\<not> looked_at w row" using p True by (simp add: looked_at_def)
    moreover have "?scan found (Suc index) rest = Passed (Scanned r)" using Cons.prems p True by simp
    ultimately show ?thesis using lift [of found] by blast
  next
    case late: False
    then have un: "unchanged w row" using Cons.prems p by (auto simp: unchanged_def split: if_splits)
    then have nu: "\<not> (\<not> pyeq (getf row ''nonce'') (w_nonce w) \<or> \<not> pyeq (getf row ''accepted'') (w_accepted w))" by (simp add: unchanged_def)
    obtain x where x: "num_field row ''rejected'' = Passed x" using Cons.prems p late nu by (auto simp: obind_Passed)
    show ?thesis
    proof (cases "found = None \<and> num_le x (fin (w_rejected w))")
      case True
      with Cons.prems p late nu x have "?scan found (Suc index) rest = Passed (Scanned r)"
        by (auto simp: lapse_before_not_scanned split: option.splits if_splits)
      then show ?thesis using lift [of found] un by blast
    next
      case counted: False
      then have c: "\<not> num_lt p (fin (w_sent w))" "delta_is x (w_rejected w) 1"
        using Cons.prems p late nu x by (auto split: if_splits)
      show ?thesis
      proof (cases found)
        case (Some f)
        then have "?scan found (Suc index) rest = Passed (Scanned r)" using Cons.prems p late nu x counted c by simp
        then show ?thesis using lift [of found] un by blast
      next
        case None
        have reason: "getf row ''reason'' = PStr expected"
          using Cons.prems p late nu x counted c None by (auto simp: other_not_scanned split: if_splits)
        then have "refusal_row w expected row" using p x c by (simp add: refusal_row_def)
        moreover have "?scan (Some index) (Suc index) rest = Passed (Scanned r)" using Cons.prems p late nu x counted c None reason by simp
        ultimately show ?thesis using lift [of "Some index"] un None by blast
      qed
    qed
  qed
qed

lemma refusal_sound:
  assumes "refusal target rows w expected timing governing stage after = Passed (Some (row, h))"
  shows "\<exists>i<length rows. row = rows ! i \<and> refusal_row w expected row \<and> (\<forall>r\<in>set rows. looked_at w r \<longrightarrow> unchanged w r) \<and>
    (\<exists>r\<in>set (drop i rows). getf r ''holding'' = PBool True \<and> getf r ''reason'' = PStr expected) \<and>
    (target = ''arm'' \<and> after \<noteq> None \<longrightarrow> (\<exists>hold g. h = Some hold \<and> governing = Some g \<and> \<not> hold_at_lease_end hold g))"
proof -
  from assms obtain sc where sc: "refusal_scan target rows w expected timing governing after stage None 0 rows = Passed sc"
    unfolding refusal_def obind_Passed by blast
  with assms obtain found where f: "refusal_scan target rows w expected timing governing after stage None 0 rows = Passed (Scanned (Some found))"
    by (cases sc) (auto simp: refusal_def split: option.splits)
  note s = refusal_scan_sound [OF f]
  then have i: "found < length rows" "refusal_row w expected (rows ! found)" by auto
  then have reason: "getf (rows ! found) ''reason'' = PStr expected" by (simp add: refusal_row_def)
  let ?latched = "list_ex (\<lambda>r. getf r ''holding'' = PBool True \<and> getf r ''reason'' = PStr expected) (drop found rows)"
  have row: "row = rows ! found \<and> ?latched \<and>
    (target = ''arm'' \<and> after \<noteq> None \<longrightarrow> (\<exists>hold g. h = Some hold \<and> governing = Some g \<and> \<not> hold_at_lease_end hold g))"
  proof (cases "target \<noteq> ''arm'' \<or> after = None")
    case True
    with assms f reason show ?thesis by (auto simp: refusal_def Let_def split: if_splits)
  next
    case False
    with assms f reason obtain held where hd: "hold_evidence rows found after stage = Passed held"
      by (cases "hold_evidence rows found after stage") (auto simp: refusal_def Let_def)
    with assms f reason False obtain x where x: "held = Some x" by (cases held) (auto simp: refusal_def Let_def)
    with assms f reason False hd have l: ?latched by (auto simp: refusal_def Let_def split: if_splits)
    with assms f reason False hd x obtain g where g: "governing = Some g"
      by (cases governing) (auto simp: refusal_def Let_def split: if_splits)
    with assms f reason False hd x l show ?thesis by (auto simp: refusal_def Let_def split: if_splits)
  qed
  from row have "\<exists>r\<in>set (drop found rows). getf r ''holding'' = PBool True \<and> getf r ''reason'' = PStr expected"
    by (auto simp: list_ex_iff)
  with i row s show ?thesis by (intro exI [of _ found]) auto
qed

text \<open>What the record says of a finished case.\<close>

lemma permit_attempts_logged:
  "\<exists>rows row. al_attempts (snd (permit_attempts_from cs body k n l)) = al_attempts l @ rows @ [row] \<and>
    list_all (\<lambda>r. lr_outcome r = ''inconclusive'') rows \<and>
    lr_outcome row = (case fst (permit_attempts_from cs body k n l) of Inr _ \<Rightarrow> ''passed'' | Inl _ \<Rightarrow> ''failed'')"
proof (induction n arbitrary: k l)
  case 0
  show ?case by (rule exI [of _ "[]"]) (simp add: record_attempt_def)
next
  case (Suc n)
  show ?case
  proof (cases "body k")
    case (Inconclusive e)
    obtain stage cause where e: "e = (stage, cause)" by (cases e)
    from Suc [of "Suc k" "record_attempt cs k ''inconclusive'' (Some stage) l"] obtain rows row where
      r: "al_attempts (snd (permit_attempts_from cs body k (Suc n) l)) = al_attempts (record_attempt cs k ''inconclusive'' (Some stage) l) @ rows @ [row]"
      "list_all (\<lambda>r. lr_outcome r = ''inconclusive'') rows"
      "lr_outcome row = (case fst (permit_attempts_from cs body k (Suc n) l) of Inr _ \<Rightarrow> ''passed'' | Inl _ \<Rightarrow> ''failed'')"
      using Inconclusive e by auto
    let ?first = "\<lparr>lr_case = cs, lr_attempt = k, lr_outcome = ''inconclusive'', lr_stage = Some stage\<rparr>"
    show ?thesis using r by (intro exI [of _ "?first # rows"] exI [of _ row]) (simp add: record_attempt_def)
  next
    case (Passed a)
    then show ?thesis by (intro exI [of _ "[]"]) (simp add: record_attempt_def)
  next
    case (Raised x)
    then show ?thesis by (intro exI [of _ "[]"]) (simp add: record_attempt_def)
  qed
qed

end
