(* ===== verification/Stop_Evidence.thy ===== *)
theory Stop_Evidence
  imports Log_Text
begin

text \<open>
  Which stop ended the motion of a simulator fault case (\<^verbatim>\<open>ros/gazebo/stop_evidence.py\<close>): the engine's
  log, the gate's states and outcomes, and the observed commands are correlated. The parsed log text
  is the parameter \<open>ld\<close> (\<^verbatim>\<open>json.loads\<close>, its \<^verbatim>\<open>JSONDecodeError\<close> is a \<^verbatim>\<open>ValueError\<close>); receive times are
  exact seconds, time stamps of the simulation integers, and an observed command is its double.
\<close>

type_synonym seen = "(rat \<times> row) list"

section \<open>Values\<close>

text \<open>\<^verbatim>\<open>v >= n\<close> and \<^verbatim>\<open>n >= v\<close> raise on a value that is no number.\<close>

definition ge_int :: "pyval \<Rightarrow> int \<Rightarrow> bool res" where
  "ge_int v n = (case num_of v of None \<Rightarrow> Inl TypeError | Some x \<Rightarrow> Inr (num_le (NFin (of_int n)) x))"

definition le_int :: "pyval \<Rightarrow> int \<Rightarrow> bool res" where
  "le_int v n = (case num_of v of None \<Rightarrow> Inl TypeError | Some x \<Rightarrow> Inr (num_le x (NFin (of_int n))))"

text \<open>\<^verbatim>\<open>row["payload"].get("fired", [])\<close> names a rule.\<close>

definition fired_has :: "string \<Rightarrow> pyval \<Rightarrow> bool res" where
  "fired_has rule row = rbind (dix row ''payload'') (\<lambda>p. rbind (dget_or p ''fired'' (PList [])) (str_in rule))"

text \<open>\<^verbatim>\<open>row.get("rejected", {}).get("error")\<close>\<close>

definition rejected_error :: "row \<Rightarrow> pyval res" where
  "rejected_error row = dget (case map_of row ''rejected'' of None \<Rightarrow> PDict [] | Some v \<Rightarrow> v) ''error''"

abbreviation disarmed :: "row \<Rightarrow> bool" where
  "disarmed row \<equiv> \<not> truthy (getf row ''armed'')"

text \<open>\<^verbatim>\<open>abs(value) > 0.03\<close>\<close>

definition moving :: "float64 \<Rightarrow> bool" where
  "moving w \<longleftrightarrow> \<not> isnan w \<and> (\<not> isfinite w \<or> f_val 0x3F9EB851EB851EB8 < \<bar>f_val w\<bar>)"

section \<open>The person stop\<close>

text \<open>\<^verbatim>\<open>samples.get(stamp)\<close>: the last report with an equal stamp, as its wall time.\<close>

definition sample_at :: "(int \<times> rat) list \<Rightarrow> pyval \<Rightarrow> rat option" where
  "sample_at reports v = map_option snd (List.find (\<lambda>(s, _). eq_int v s) (rev reports))"

fun person_scan :: "(string \<Rightarrow> pyval res) \<Rightarrow> (int \<times> rat) list \<Rightarrow> int \<Rightarrow> pyval \<Rightarrow> string list \<Rightarrow> rat option res" where
  "person_scan ld reports since_ms last_world [] = Inr None"
| "person_scan ld reports since_ms last_world (line # ls) =
     (case ld line of
        Inl x \<Rightarrow> if is_ValueError x then Inr None else Inl x
      | Inr row \<Rightarrow>
          rbind (dix row ''kind'') (\<lambda>kind.
          rbind (if kind = PStr ''world'' then dix row ''payload'' else Inr last_world) (\<lambda>world.
          rbind (rand [Inr (truthy world), rbind (dix world ''stamp_ms'') (\<lambda>v. ge_int v since_ms), fired_has ''person'' row]) (\<lambda>hit.
          if hit then rbind (dix world ''stamp_ms'') (\<lambda>v. Inr (sample_at reports v))
          else person_scan ld reports since_ms world ls))))"

definition person_stop_report :: "(string \<Rightarrow> pyval res) \<Rightarrow> string \<Rightarrow> (int \<times> rat) list \<Rightarrow> int \<Rightarrow> rat option res" where
  "person_stop_report ld lg reports since_ms = person_scan ld reports since_ms PNone (splitlines lg)"

definition person_stop_observed :: "(string \<Rightarrow> pyval res) \<Rightarrow> string \<Rightarrow> (int \<times> rat) list \<Rightarrow> (rat \<times> int) list \<Rightarrow> int \<Rightarrow> bool res" where
  "person_stop_observed ld lg reports zeros since_ms =
     rbind (person_stop_report ld lg reports since_ms) (\<lambda>trigger.
       Inr (case trigger of None \<Rightarrow> False | Some wall \<Rightarrow> list_ex (\<lambda>(w, _). wall \<le> w) zeros))"

section \<open>The sensor stop\<close>

definition EXPIRY_ERRORS :: "(string \<times> string) list" where
  "EXPIRY_ERRORS = [(''stale actuation response: world expired'', ''world_expired_at_response''),
     (''trusted world did not advance within dual-clock freshness'', ''world_expired_at_owner'')]"

fun expiry_reason :: "seen \<Rightarrow> rat \<Rightarrow> (string \<times> string) list \<Rightarrow> string option res" where
  "expiry_reason outcomes since [] = Inr None"
| "expiry_reason outcomes since ((error, reason) # rest) =
     rbind (ror (map (\<lambda>(t, row). rand [Inr (since \<le> t), rbind (rejected_error row) (\<lambda>e. Inr (e = PStr error))]) outcomes)) (\<lambda>b.
     if b then Inr (Some reason) else expiry_reason outcomes since rest)"

definition world_expiry_stop_observed :: "seen \<Rightarrow> seen \<Rightarrow> rat \<Rightarrow> string option res" where
  "world_expiry_stop_observed states outcomes since =
     (if list_ex (\<lambda>(t, row). since \<le> t \<and> getf row ''stop'' = PStr ''stale_world'') states then Inr (Some ''stale_world'')
      else if list_ex (\<lambda>(t, row). since \<le> t \<and> getf row ''stop'' = PStr ''denied'' \<and> disarmed row) states
        then expiry_reason outcomes since EXPIRY_ERRORS
      else Inr None)"

record sensor_stop =
  ss_reason :: string
  ss_zero :: rat
  ss_stamp :: "pyval option"

text \<open>\<^verbatim>\<open>next(wall for wall, stamp in zeros if wall >= since and stamp >= row["ts_ms"])\<close>\<close>

fun zero_after :: "rat \<Rightarrow> pyval res \<Rightarrow> (rat \<times> int) list \<Rightarrow> rat option res" where
  "zero_after since ts [] = Inr None"
| "zero_after since ts ((wall, stamp) # zs) =
     (if wall < since then zero_after since ts zs
      else rbind ts (\<lambda>v. rbind (le_int v stamp) (\<lambda>b. if b then Inr (Some wall) else zero_after since ts zs)))"

fun perception_scan :: "(string \<Rightarrow> pyval res) \<Rightarrow> (rat \<times> int) list \<Rightarrow> rat \<Rightarrow> int \<Rightarrow> pyval \<Rightarrow> pyval \<Rightarrow> string list \<Rightarrow> sensor_stop option res" where
  "perception_scan ld zeros since since_ms last_world world_at [] = Inr None"
| "perception_scan ld zeros since since_ms last_world world_at (line # ls) =
     (case ld line of
        Inl x \<Rightarrow> if is_ValueError x then Inr None else Inl x
      | Inr row \<Rightarrow>
          rbind (dix row ''kind'') (\<lambda>kind.
          rbind (if kind = PStr ''world'' then rbind (dix row ''payload'') (\<lambda>p. rbind (dix row ''ts_ms'') (\<lambda>t. Inr (p, t)))
                 else Inr (last_world, world_at)) (\<lambda>(world, seen_at).
          rbind (rand [Inr (kind = PStr ''revoke''), Inr (truthy world), Inr (seen_at \<noteq> PNone), ge_int seen_at since_ms,
                       rbind (dget world ''confidence'') (\<lambda>c. Inr (eq_int c 0)), fired_has ''perception-unknown'' row]) (\<lambda>hit.
          if \<not> hit then perception_scan ld zeros since since_ms world seen_at ls
          else rbind (zero_after since (dix row ''ts_ms'') zeros) (\<lambda>zero.
            (case zero of
               Some w \<Rightarrow> rbind (dix world ''stamp_ms'') (\<lambda>s. Inr (Some \<lparr>ss_reason = ''perception_unknown'', ss_zero = w, ss_stamp = Some s\<rparr>))
             | None \<Rightarrow> perception_scan ld zeros since since_ms world seen_at ls))))))"

definition BUDGET_ERROR :: string where
  "BUDGET_ERROR = ''trusted world has insufficient controller admission budget''"

definition budget_disarmed :: "seen \<Rightarrow> rat \<Rightarrow> bool" where
  "budget_disarmed states rejected_at =
     list_ex (\<lambda>(t, state). rejected_at \<le> t \<and> getf state ''stop'' \<in> {PStr ''denied'', PStr ''unarmed''} \<and> disarmed state \<and>
        getf state ''active'' = PNone) states"

definition first_wall :: "rat \<Rightarrow> (rat \<times> int) list \<Rightarrow> rat option" where
  "first_wall t zeros = map_option fst (List.find (\<lambda>(wall, _). t \<le> wall) zeros)"

fun budget_scan :: "seen \<Rightarrow> (rat \<times> int) list \<Rightarrow> rat \<Rightarrow> seen \<Rightarrow> sensor_stop option res" where
  "budget_scan states zeros since [] = Inr None"
| "budget_scan states zeros since ((rejected_at, row) # rest) =
     (if rejected_at < since then budget_scan states zeros since rest
      else rbind (rejected_error row) (\<lambda>e.
        (case first_wall rejected_at zeros of
           Some w \<Rightarrow> if e = PStr BUDGET_ERROR \<and> budget_disarmed states rejected_at
                     then Inr (Some \<lparr>ss_reason = ''world_admission_budget_exhausted'', ss_zero = w, ss_stamp = None\<rparr>)
                     else budget_scan states zeros since rest
         | None \<Rightarrow> budget_scan states zeros since rest)))"

definition sensor_stop_report :: "(string \<Rightarrow> pyval res) \<Rightarrow> string \<Rightarrow> seen \<Rightarrow> seen \<Rightarrow> (rat \<times> int) list \<Rightarrow> rat \<Rightarrow> int \<Rightarrow> bool \<Rightarrow> sensor_stop option res" where
  "sensor_stop_report ld lg states outcomes zeros since since_ms require_perception =
     rbind (if list_ex (\<lambda>(t, row). since \<le> t \<and> getf row ''stop'' = PStr ''revoked'' \<and> disarmed row) states
            then perception_scan ld zeros since since_ms PNone PNone (splitlines lg) else Inr None) (\<lambda>seen.
     (case seen of
        Some s \<Rightarrow> Inr (Some s)
      | None \<Rightarrow>
          if require_perception then Inr None
          else rbind (budget_scan states zeros since outcomes) (\<lambda>budget.
            (case budget of
               Some s \<Rightarrow> Inr (Some s)
             | None \<Rightarrow> rbind (world_expiry_stop_observed states outcomes since) (\<lambda>reason.
                 Inr (case (reason, first_wall since zeros) of
                        (Some why, Some w) \<Rightarrow> Some \<lparr>ss_reason = why, ss_zero = w, ss_stamp = None\<rparr>
                      | _ \<Rightarrow> None))))))"

section \<open>Motion after the stop\<close>

definition first_disarmed :: "seen \<Rightarrow> rat \<Rightarrow> (rat \<times> row) option" where
  "first_disarmed states since = List.find (\<lambda>(t, row). since \<le> t \<and> disarmed row) states"

definition motion_after_stop :: "seen \<Rightarrow> (rat \<times> float64) list \<Rightarrow> rat \<Rightarrow> (rat \<times> float64) list" where
  "motion_after_stop states commands since =
     (case first_disarmed states since of
        None \<Rightarrow> []
      | Some (stop, _) \<Rightarrow> filter (\<lambda>(t, value). stop \<le> t \<and> moving value) commands)"

section \<open>A world-authority cut before the unknown world\<close>

definition WORLD_AUTHORITY_CUTS :: "string list" where
  "WORLD_AUTHORITY_CUTS = [''trusted world has insufficient controller admission budget'',
     ''trusted world did not advance within dual-clock freshness'', ''stale actuation response: world expired'']"

text \<open>An engine record that loses authority for another cause.\<close>

definition other_loss :: "pyval \<Rightarrow> row \<Rightarrow> bool" where
  "other_loss kind payload \<longleftrightarrow> kind = PStr ''revoke'' \<or> kind = PStr ''decision'' \<and> getf payload ''verdict'' = PStr ''bul'' \<or>
     kind = PStr ''world'' \<and> eq_int (getf payload ''confidence'') 0 \<or>
     kind = PStr ''stop'' \<and> getf payload ''reason'' \<notin> {PStr ''Expired'', PStr ''NoCommand''}"

text \<open>The loop of \<^verbatim>\<open>coverage_cut_record\<close>: the time of the cut, whether its stop and the unknown world followed.\<close>

fun cut_scan :: "(string \<Rightarrow> pyval res) \<Rightarrow> int \<Rightarrow> string \<Rightarrow> int \<Rightarrow> int option \<Rightarrow> bool \<Rightarrow> bool \<Rightarrow> string list \<Rightarrow> bool res" where
  "cut_scan ld since_ms cut_error unknown_stamp cut_ms denied finished [] = Inr finished"
| "cut_scan ld since_ms cut_error unknown_stamp cut_ms denied finished (line # ls) =
     (case ld line of
        Inl x \<Rightarrow> if is_ValueError x then Inr False else Inl x
      | Inr (PDict row) \<Rightarrow>
          (let kind = getf row ''kind'' in
           case (as_int (getf row ''ts_ms''), getf row ''payload'') of
             (Some stamp, PDict payload) \<Rightarrow>
               if kind = PStr ''seal'' \<or> stamp < since_ms \<or> finished then cut_scan ld since_ms cut_error unknown_stamp cut_ms denied finished ls
               else (case cut_ms of
                   None \<Rightarrow>
                     if kind = PStr ''reject'' then
                       (if getf payload ''error'' \<noteq> PStr cut_error then Inr False else cut_scan ld since_ms cut_error unknown_stamp (Some stamp) denied finished ls)
                     else if other_loss kind payload then Inr False
                     else cut_scan ld since_ms cut_error unknown_stamp cut_ms denied finished ls
                 | Some cut_at \<Rightarrow>
                     if \<not> denied then
                       (if kind \<noteq> PStr ''stop'' \<or> getf payload ''reason'' \<noteq> PStr ''Denied'' \<or> stamp \<noteq> cut_at then Inr False
                        else cut_scan ld since_ms cut_error unknown_stamp cut_ms True finished ls)
                     else if kind = PStr ''decision'' \<and> getf payload ''verdict'' = PStr ''yun'' then Inr False
                     else if kind = PStr ''world'' \<and> eq_int (getf payload ''confidence'') 0 then
                       (if getf payload ''stamp_ms'' \<noteq> PInt unknown_stamp \<or> stamp < cut_at then Inr False
                        else cut_scan ld since_ms cut_error unknown_stamp cut_ms denied True ls)
                     else cut_scan ld since_ms cut_error unknown_stamp cut_ms denied finished ls)
           | _ \<Rightarrow> Inr False)
      | Inr _ \<Rightarrow> Inr False)"

definition coverage_cut_record :: "(string \<Rightarrow> pyval res) \<Rightarrow> string \<Rightarrow> pyval \<Rightarrow> string \<Rightarrow> int \<Rightarrow> bool res" where
  "coverage_cut_record ld lg since_ms cut_error unknown_stamp =
     (case as_int since_ms of
        None \<Rightarrow> Inr False
      | Some s \<Rightarrow> cut_scan ld s cut_error unknown_stamp None False False (splitlines lg))"

text \<open>What the gate's outcomes say: the cut, the unknown world accepted after it, the last world before.\<close>

record cut_seen =
  cs_cut_at :: rat
  cs_error :: string
  cs_world_at :: rat
  cs_stamp :: int
  cs_last :: "int option"

definition world_stamp :: "row \<Rightarrow> int option" where
  "world_stamp row = (case getf row ''world_updated'' of PDict d \<Rightarrow> as_int (getf d ''stamp_ms'') | _ \<Rightarrow> None)"

definition denied_outcome :: "row \<Rightarrow> bool" where
  "denied_outcome row \<longleftrightarrow> (case getf row ''decision'' of PDict d \<Rightarrow> getf d ''verdict'' = PStr ''bul'' | _ \<Rightarrow> False)"

definition maybe_unknown :: "(int \<times> float64) list \<Rightarrow> int set" where
  "maybe_unknown published = fst ` set (filter (\<lambda>(_, c). f_zero c) published)"

definition unknown_stamps :: "(int \<times> float64) list \<Rightarrow> int set" where
  "unknown_stamps published = maybe_unknown published - fst ` set (filter (\<lambda>(_, c). \<not> f_zero c) published)"

definition unexplained :: "(int \<times> float64) list \<Rightarrow> row \<Rightarrow> bool" where
  "unexplained published row \<longleftrightarrow>
     (case world_stamp row of None \<Rightarrow> False | Some s \<Rightarrow> s \<in> maybe_unknown published \<or> s \<notin> fst ` set published) \<or> denied_outcome row"

fun cut_outcomes :: "(int \<times> float64) list \<Rightarrow> rat \<Rightarrow> (rat \<times> string) option \<Rightarrow> int option \<Rightarrow> seen \<Rightarrow> cut_seen option" where
  "cut_outcomes published since named prev [] = None"
| "cut_outcomes published since named prev ((t, row) # rest) =
     (if t < since then cut_outcomes published since named prev rest
      else (case named of
          None \<Rightarrow>
            if unexplained published row then None
            else (case getf row ''rejected'' of
                PDict d \<Rightarrow> (case getf d ''error'' of
                    PStr e \<Rightarrow> if e \<in> set WORLD_AUTHORITY_CUTS then cut_outcomes published since (Some (t, e)) prev rest else None
                  | _ \<Rightarrow> None)
              | _ \<Rightarrow> cut_outcomes published since None (case world_stamp row of None \<Rightarrow> prev | Some s \<Rightarrow> Some s) rest)
        | Some (c, e) \<Rightarrow>
            (case world_stamp row of
               Some s \<Rightarrow> if s \<in> unknown_stamps published
                         then Some \<lparr>cs_cut_at = c, cs_error = e, cs_world_at = t, cs_stamp = s, cs_last = prev\<rparr>
                         else cut_outcomes published since named prev rest
             | None \<Rightarrow> cut_outcomes published since named prev rest)))"

definition latest_disarmed :: "seen \<Rightarrow> rat \<Rightarrow> bool" where
  "latest_disarmed states cut_at \<longleftrightarrow> states \<noteq> [] \<and> cut_at \<le> fst (last states) \<and>
     (let latest = snd (last states) in
      getf latest ''stop'' \<in> {PStr ''denied'', PStr ''unarmed''} \<and> getf latest ''armed'' = PList [] \<and> map_of latest ''active'' = Some PNone)"

definition last_motion :: "(rat \<times> float64) list \<Rightarrow> rat \<Rightarrow> rat" where
  "last_motion commands since =
     (let ts = map fst (filter (\<lambda>(t, value). since \<le> t \<and> moving value) commands) in if ts = [] then since else Max (set ts))"

text \<open>The evidence; the times after the fault are exact milliseconds.\<close>

record cut_evidence =
  ce_zero_at :: rat
  ce_seen :: cut_seen
  ce_cut_after_ms :: rat
  ce_world_after_ms :: rat
  ce_zero_after_ms :: rat
  ce_zero_after_sim_ms :: int

definition cut_stop_first :: "seen \<Rightarrow> seen \<Rightarrow> rat \<Rightarrow> rat \<Rightarrow> bool" where
  "cut_stop_first states outcomes since cut_at =
     (case first_disarmed states since of
        None \<Rightarrow> False
      | Some (t, row) \<Rightarrow> getf row ''stop'' = PStr ''denied'' \<and>
          \<not> list_ex (\<lambda>(u, r). t < u \<and> u < cut_at \<and> (''world_updated'' \<in> fst ` set r \<or> ''decision'' \<in> fst ` set r)) outcomes)"

definition coverage_cut_first ::
  "(string \<Rightarrow> pyval res) \<Rightarrow> string \<Rightarrow> seen \<Rightarrow> seen \<Rightarrow> (rat \<times> int) list \<Rightarrow> (rat \<times> float64) list \<Rightarrow> (int \<times> float64) list \<Rightarrow> rat \<Rightarrow> int \<Rightarrow> cut_evidence option res" where
  "coverage_cut_first ld lg states outcomes zeros commands published since since_ms =
     (case cut_outcomes published since None None outcomes of
        None \<Rightarrow> Inr None
      | Some c \<Rightarrow>
          if \<not> latest_disarmed states (cs_cut_at c) then Inr None
          else rbind (coverage_cut_record ld lg (PInt since_ms) (cs_error c) (cs_stamp c)) (\<lambda>recorded.
            if \<not> recorded \<or> \<not> cut_stop_first states outcomes since (cs_cut_at c) \<or> motion_after_stop states commands since \<noteq> [] then Inr None
            else Inr (case List.find (\<lambda>(wall, _). last_motion commands since < wall) zeros of
                None \<Rightarrow> None
              | Some (wall, sim) \<Rightarrow>
                  if \<not> list_ex (\<lambda>(w, _). cs_cut_at c \<le> w) zeros then None
                  else Some \<lparr>ce_zero_at = wall, ce_seen = c, ce_cut_after_ms = (cs_cut_at c - since) * 1000,
                         ce_world_after_ms = (cs_world_at c - since) * 1000, ce_zero_after_ms = (wall - since) * 1000,
                         ce_zero_after_sim_ms = sim - since_ms\<rparr>)))"

section \<open>What the verdicts mean\<close>

text \<open>An engine record: its time, kind and payload.\<close>

type_synonym entry = "int \<times> pyval \<times> row"

fun entry_of :: "pyval \<Rightarrow> entry option" where
  "entry_of (PDict row) =
     (case (as_int (getf row ''ts_ms''), getf row ''payload'') of
        (Some stamp, PDict payload) \<Rightarrow> Some (stamp, getf row ''kind'', payload)
      | _ \<Rightarrow> None)"
| "entry_of _ = None"

definition line_entry :: "(string \<Rightarrow> pyval res) \<Rightarrow> string \<Rightarrow> entry option" where
  "line_entry ld line = (case ld line of Inr v \<Rightarrow> entry_of v | Inl _ \<Rightarrow> None)"

definition after_fault :: "int \<Rightarrow> entry \<Rightarrow> bool" where
  "after_fault since_ms e \<longleftrightarrow> (case e of (stamp, kind, _) \<Rightarrow> kind \<noteq> PStr ''seal'' \<and> since_ms \<le> stamp)"

definition unknown_world :: "entry \<Rightarrow> bool" where
  "unknown_world e \<longleftrightarrow> (case e of (_, kind, payload) \<Rightarrow> kind = PStr ''world'' \<and> eq_int (getf payload ''confidence'') 0)"

definition allowed_decision :: "entry \<Rightarrow> bool" where
  "allowed_decision e \<longleftrightarrow> (case e of (_, kind, payload) \<Rightarrow> kind = PStr ''decision'' \<and> getf payload ''verdict'' = PStr ''yun'')"

text \<open>From the denied stop on: nothing allowed again before the first unknown world, which is the expected one.\<close>

definition unknown_follows :: "int \<Rightarrow> int \<Rightarrow> entry list \<Rightarrow> bool" where
  "unknown_follows unknown_stamp cut_at es \<longleftrightarrow> (\<exists>b stamp kind payload r. es = b @ (stamp, kind, payload) # r \<and>
     (\<forall>e\<in>set b. \<not> allowed_decision e \<and> \<not> unknown_world e) \<and> unknown_world (stamp, kind, payload) \<and>
     getf payload ''stamp_ms'' = PInt unknown_stamp \<and> cut_at \<le> stamp)"

text \<open>
  The order the record has to show: no other loss and no rejection, then the named rejection, at once
  its denied stop, and then the unknown world.
\<close>

definition cut_order :: "string \<Rightarrow> int \<Rightarrow> entry list \<Rightarrow> bool" where
  "cut_order cut_error unknown_stamp es \<longleftrightarrow> (\<exists>a cut_at rejected stopped r.
     es = a @ (cut_at, PStr ''reject'', rejected) # (cut_at, PStr ''stop'', stopped) # r \<and>
     (\<forall>(_, kind, payload)\<in>set a. kind \<noteq> PStr ''reject'' \<and> \<not> other_loss kind payload) \<and>
     getf rejected ''error'' = PStr cut_error \<and> getf stopped ''reason'' = PStr ''Denied'' \<and> unknown_follows unknown_stamp cut_at r)"

lemma unknown_followsI:
  "es = b @ (stamp, kind, payload) # r \<Longrightarrow> \<forall>e\<in>set b. \<not> allowed_decision e \<and> \<not> unknown_world e \<Longrightarrow> unknown_world (stamp, kind, payload) \<Longrightarrow>
   getf payload ''stamp_ms'' = PInt unk \<Longrightarrow> cut_at \<le> stamp \<Longrightarrow> unknown_follows unk cut_at es"
  unfolding unknown_follows_def by blast

lemma cut_orderI:
  "es = a @ (c, PStr ''reject'', rj) # (c, PStr ''stop'', st) # r \<Longrightarrow>
   \<forall>(_, kind, payload)\<in>set a. kind \<noteq> PStr ''reject'' \<and> \<not> other_loss kind payload \<Longrightarrow>
   getf rj ''error'' = PStr err \<Longrightarrow> getf st ''reason'' = PStr ''Denied'' \<Longrightarrow> unknown_follows unk c r \<Longrightarrow> cut_order err unk es"
  unfolding cut_order_def by blast

lemma scan_entry:
  assumes "cut_scan ld since err unk c d f (line # ls) = Inr True"
  obtains stamp kind payload where "line_entry ld line = Some (stamp, kind, payload)"
proof -
  from assms obtain v where "ld line = Inr v" by (cases "ld line") (auto split: if_splits)
  with assms show ?thesis
    by (cases v) (auto simp: line_entry_def Let_def intro: that split: option.splits pyval.splits)
qed

lemma scan_step:
  assumes "line_entry ld line = Some (stamp, kind, payload)"
  shows "cut_scan ld since err unk c d f (line # ls) =
    (if kind = PStr ''seal'' \<or> stamp < since \<or> f then cut_scan ld since err unk c d f ls
     else case c of
       None \<Rightarrow>
         if kind = PStr ''reject'' then if getf payload ''error'' \<noteq> PStr err then Inr False else cut_scan ld since err unk (Some stamp) d f ls
         else if other_loss kind payload then Inr False else cut_scan ld since err unk c d f ls
     | Some cut_at \<Rightarrow>
         if \<not> d then
           if kind \<noteq> PStr ''stop'' \<or> getf payload ''reason'' \<noteq> PStr ''Denied'' \<or> stamp \<noteq> cut_at then Inr False
           else cut_scan ld since err unk c True f ls
         else if kind = PStr ''decision'' \<and> getf payload ''verdict'' = PStr ''yun'' then Inr False
         else if kind = PStr ''world'' \<and> eq_int (getf payload ''confidence'') 0 then
           if getf payload ''stamp_ms'' \<noteq> PInt unk \<or> stamp < cut_at then Inr False else cut_scan ld since err unk c d True ls
         else cut_scan ld since err unk c d f ls)"
proof -
  from assms obtain row where "ld line = Inr (PDict row)" "as_int (getf row ''ts_ms'') = Some stamp" "getf row ''payload'' = PDict payload" "getf row ''kind'' = kind"
    by (auto simp: line_entry_def split: sum.splits option.splits pyval.splits elim!: entry_of.elims)
  then show ?thesis by (simp add: Let_def)
qed

abbreviation engine_entries :: "(string \<Rightarrow> pyval res) \<Rightarrow> int \<Rightarrow> string list \<Rightarrow> entry list" where
  "engine_entries ld since ls \<equiv> filter (after_fault since) (map (\<lambda>l. the (line_entry ld l)) ls)"

lemma scan_unknown:
  "cut_scan ld since err unk (Some cut_at) True False ls = Inr True \<Longrightarrow> unknown_follows unk cut_at (engine_entries ld since ls)"
proof (induction ls)
  case (Cons line ls)
  obtain stamp kind payload where e: "line_entry ld line = Some (stamp, kind, payload)" using Cons.prems by (rule scan_entry)
  note run = Cons.prems [unfolded scan_step [OF e]]
  let ?e = "(stamp, kind, payload)"
  show ?case
  proof (cases "after_fault since ?e")
    case False
    with run Cons.IH e show ?thesis by (auto simp: after_fault_def split: if_splits)
  next
    case True
    show ?thesis
    proof (cases "unknown_world ?e")
      case world: True
      have "unknown_follows unk cut_at (?e # engine_entries ld since ls)"
        using run True world by (intro unknown_followsI [where b = "[]"]) (auto simp: after_fault_def unknown_world_def split: if_splits)
      with True e show ?thesis by simp
    next
      case False
      with run True have d: "\<not> allowed_decision ?e" and "cut_scan ld since err unk (Some cut_at) True False ls = Inr True"
        by (auto simp: after_fault_def unknown_world_def allowed_decision_def split: if_splits)
      with Cons.IH obtain b s k p r where "engine_entries ld since ls = b @ (s, k, p) # r" "\<forall>e\<in>set b. \<not> allowed_decision e \<and> \<not> unknown_world e"
        "unknown_world (s, k, p)" "getf p ''stamp_ms'' = PInt unk" "cut_at \<le> s" unfolding unknown_follows_def by blast
      then have "unknown_follows unk cut_at (?e # engine_entries ld since ls)"
        using d False by (intro unknown_followsI [where b = "?e # b"]) auto
      with True e show ?thesis by simp
    qed
  qed
qed simp

lemma scan_denied:
  "cut_scan ld since err unk (Some cut_at) False False ls = Inr True \<Longrightarrow>
   \<exists>payload r. engine_entries ld since ls = (cut_at, PStr ''stop'', payload) # r \<and> getf payload ''reason'' = PStr ''Denied'' \<and> unknown_follows unk cut_at r"
proof (induction ls)
  case (Cons line ls)
  obtain stamp kind payload where e: "line_entry ld line = Some (stamp, kind, payload)" using Cons.prems by (rule scan_entry)
  note run = Cons.prems [unfolded scan_step [OF e]]
  show ?case
  proof (cases "after_fault since (stamp, kind, payload)")
    case False
    with run Cons.IH e show ?thesis by (auto simp: after_fault_def split: if_splits)
  next
    case True
    with run have "kind = PStr ''stop''" "getf payload ''reason'' = PStr ''Denied''" "stamp = cut_at"
      "cut_scan ld since err unk (Some cut_at) True False ls = Inr True" by (auto simp: after_fault_def split: if_splits)
    with scan_unknown [of ld since err unk cut_at ls] True e show ?thesis by simp
  qed
qed simp

lemma scan_order: "cut_scan ld since err unk None False False ls = Inr True \<Longrightarrow> cut_order err unk (engine_entries ld since ls)"
proof (induction ls)
  case (Cons line ls)
  obtain stamp kind payload where e: "line_entry ld line = Some (stamp, kind, payload)" using Cons.prems by (rule scan_entry)
  note run = Cons.prems [unfolded scan_step [OF e]]
  show ?case
  proof (cases "after_fault since (stamp, kind, payload)")
    case False
    with run Cons.IH e show ?thesis by (auto simp: after_fault_def split: if_splits)
  next
    case True
    show ?thesis
    proof (cases "kind = PStr ''reject''")
      case reject: True
      with run True have "getf payload ''error'' = PStr err" and "cut_scan ld since err unk (Some stamp) False False ls = Inr True"
        by (auto simp: after_fault_def split: if_splits)
      with scan_denied [of ld since err unk stamp ls] obtain p r where "engine_entries ld since ls = (stamp, PStr ''stop'', p) # r"
        "getf p ''reason'' = PStr ''Denied''" "unknown_follows unk stamp r" by blast
      with True reject e \<open>getf payload ''error'' = PStr err\<close> show ?thesis
        by (intro cut_orderI [where a = "[]"]) simp_all
    next
      case False
      with run True have o: "\<not> other_loss kind payload" and "cut_scan ld since err unk None False False ls = Inr True"
        by (auto simp: after_fault_def split: if_splits)
      with Cons.IH obtain a c rj st r where "engine_entries ld since ls = a @ (c, PStr ''reject'', rj) # (c, PStr ''stop'', st) # r"
        "\<forall>(_, kind, payload)\<in>set a. kind \<noteq> PStr ''reject'' \<and> \<not> other_loss kind payload" "getf rj ''error'' = PStr err"
        "getf st ''reason'' = PStr ''Denied''" "unknown_follows unk c r" unfolding cut_order_def by blast
      with True False o e show ?thesis
        by (intro cut_orderI [where a = "(stamp, kind, payload) # a"]) simp_all
    qed
  qed
qed simp

text \<open>What the gate's outcomes show of a cut.\<close>

definition clean_before :: "(int \<times> float64) list \<Rightarrow> rat \<Rightarrow> seen \<Rightarrow> bool" where
  "clean_before published since pre \<longleftrightarrow>
     list_all (\<lambda>(t, row). if since \<le> t then \<not> unexplained published row \<and> \<not> is_dict (getf row ''rejected'') else True) pre"

definition outcome_cut :: "(int \<times> float64) list \<Rightarrow> rat \<Rightarrow> cut_seen \<Rightarrow> seen \<Rightarrow> bool" where
  "outcome_cut published since c outcomes \<longleftrightarrow> (\<exists>pre row mid row' post d.
     outcomes = pre @ (cs_cut_at c, row) # mid @ (cs_world_at c, row') # post \<and> since \<le> cs_cut_at c \<and> since \<le> cs_world_at c \<and>
     clean_before published since pre \<and> getf row ''rejected'' = PDict d \<and> getf d ''error'' = PStr (cs_error c) \<and>
     cs_error c \<in> set WORLD_AUTHORITY_CUTS \<and> world_stamp row' = Some (cs_stamp c) \<and> cs_stamp c \<in> unknown_stamps published)"

lemma outcome_cutI:
  "outcomes = pre @ (cs_cut_at c, row) # mid @ (cs_world_at c, row') # post \<Longrightarrow> since \<le> cs_cut_at c \<Longrightarrow> since \<le> cs_world_at c \<Longrightarrow>
   clean_before published since pre \<Longrightarrow> getf row ''rejected'' = PDict d \<Longrightarrow> getf d ''error'' = PStr (cs_error c) \<Longrightarrow>
   cs_error c \<in> set WORLD_AUTHORITY_CUTS \<Longrightarrow> world_stamp row' = Some (cs_stamp c) \<Longrightarrow> cs_stamp c \<in> unknown_stamps published \<Longrightarrow>
   outcome_cut published since c outcomes"
  unfolding outcome_cut_def by blast

lemma outcomes_world:
  "cut_outcomes published since (Some (t, e)) prev os = Some c \<Longrightarrow>
   cs_cut_at c = t \<and> cs_error c = e \<and> (\<exists>mid row' post. os = mid @ (cs_world_at c, row') # post \<and> since \<le> cs_world_at c \<and>
     world_stamp row' = Some (cs_stamp c) \<and> cs_stamp c \<in> unknown_stamps published)"
proof (induction os)
  case (Cons o' os)
  obtain u row where o': "o' = (u, row)" by (cases o')
  show ?case
  proof (cases "cut_outcomes published since (Some (t, e)) prev os = Some c")
    case True
    from Cons.IH [OF this] show ?thesis by (auto intro: exI [of _ "o' # _"] simp: Cons_eq_append_conv)
  next
    case False
    with Cons.prems o' have "c = \<lparr>cs_cut_at = t, cs_error = e, cs_world_at = u, cs_stamp = the (world_stamp row), cs_last = prev\<rparr> \<and>
        since \<le> u \<and> world_stamp row \<noteq> None \<and> the (world_stamp row) \<in> unknown_stamps published"
      by (auto split: if_splits option.splits)
    then show ?thesis unfolding o' by (auto simp: Cons_eq_append_conv)
  qed
qed simp

lemma outcomes_cut: "cut_outcomes published since None prev os = Some c \<Longrightarrow> outcome_cut published since c os"
proof (induction os arbitrary: prev)
  case (Cons o' os)
  obtain u row where o': "o' = (u, row)" by (cases o')
  have skip: ?case if run: "cut_outcomes published since None prev' os = Some c"
    and clean: "u < since \<or> \<not> unexplained published row \<and> \<not> is_dict (getf row ''rejected'')" for prev'
  proof -
    from Cons.IH [OF run] obtain pre row0 mid row' post d where
      "os = pre @ (cs_cut_at c, row0) # mid @ (cs_world_at c, row') # post" "since \<le> cs_cut_at c" "since \<le> cs_world_at c" "clean_before published since pre"
      "getf row0 ''rejected'' = PDict d" "getf d ''error'' = PStr (cs_error c)" "cs_error c \<in> set WORLD_AUTHORITY_CUTS"
      "world_stamp row' = Some (cs_stamp c)" "cs_stamp c \<in> unknown_stamps published" unfolding outcome_cut_def by blast
    then show ?thesis using clean o'
      by (intro outcome_cutI [where pre = "o' # pre"]) (auto simp: clean_before_def)
  qed
  show ?case
  proof (cases "u < since")
    case True
    with Cons.prems o' skip show ?thesis by simp
  next
    case False
    with Cons.prems o' have ok: "\<not> unexplained published row" by (auto split: if_splits)
    show ?thesis
    proof (cases "is_dict (getf row ''rejected'')")
      case True
      then obtain d where PDict: "getf row ''rejected'' = PDict d" by (cases "getf row ''rejected''") auto
      with Cons.prems o' False ok obtain e where e: "getf d ''error'' = PStr e" "e \<in> set WORLD_AUTHORITY_CUTS"
        and run: "cut_outcomes published since (Some (u, e)) prev os = Some c" by (auto split: pyval.splits if_splits)
      from outcomes_world [OF run] obtain mid row' post where "cs_cut_at c = u" "cs_error c = e" "os = mid @ (cs_world_at c, row') # post"
        "since \<le> cs_world_at c" "world_stamp row' = Some (cs_stamp c)" "cs_stamp c \<in> unknown_stamps published" by blast
      with e PDict False o' show ?thesis
        by (intro outcome_cutI [where pre = "[]"]) (simp_all add: clean_before_def)
    next
      case other: False
      with Cons.prems o' False ok have "cut_outcomes published since None (case world_stamp row of None \<Rightarrow> prev | Some s \<Rightarrow> Some s) os = Some c"
        by (cases "getf row ''rejected''") auto
      then show ?thesis using skip ok other by blast
    qed
  qed
qed simp

lemma coverage_cut_sound:
  assumes "coverage_cut_first ld lg states outcomes zeros commands published since since_ms = Inr (Some ev)"
  shows "outcome_cut published since (ce_seen ev) outcomes \<and>
    cut_order (cs_error (ce_seen ev)) (cs_stamp (ce_seen ev)) (engine_entries ld since_ms (splitlines lg)) \<and>
    latest_disarmed states (cs_cut_at (ce_seen ev)) \<and> motion_after_stop states commands since = [] \<and>
    (\<exists>sim. (ce_zero_at ev, sim) \<in> set zeros) \<and> last_motion commands since < ce_zero_at ev \<and> (\<exists>z\<in>set zeros. cs_cut_at (ce_seen ev) \<le> fst z)"
proof -
  from assms obtain c where c: "cut_outcomes published since None None outcomes = Some c"
    by (auto simp: coverage_cut_first_def split: option.splits)
  with assms have l: "latest_disarmed states (cs_cut_at c)" and r: "coverage_cut_record ld lg (PInt since_ms) (cs_error c) (cs_stamp c) = Inr True"
    and m: "motion_after_stop states commands since = []" and z: "list_ex (\<lambda>(w, _). cs_cut_at c \<le> w) zeros" and e: "ce_seen ev = c"
    and f: "\<exists>sim. List.find (\<lambda>(wall, _). last_motion commands since < wall) zeros = Some (ce_zero_at ev, sim)"
    by (auto simp: coverage_cut_first_def rbind_Inr_iff split: if_splits option.splits prod.splits)
  from r have "cut_order (cs_error c) (cs_stamp c) (engine_entries ld since_ms (splitlines lg))"
    by (intro scan_order) (simp add: coverage_cut_record_def)
  with outcomes_cut [OF c] l m e z f show ?thesis by (auto simp: find_Some_iff list_ex_iff split_beta) (metis fst_conv nth_mem)+
qed

text \<open>What a sensor stop rests on.\<close>

fun world_before :: "(string \<Rightarrow> pyval res) \<Rightarrow> pyval \<times> pyval \<Rightarrow> string list \<Rightarrow> pyval \<times> pyval" where
  "world_before ld wt [] = wt"
| "world_before ld wt (l # ls) = world_before ld
     (case ld l of Inr row \<Rightarrow> (case (dix row ''kind'', dix row ''payload'', dix row ''ts_ms'') of
         (Inr (PStr k), Inr p, Inr t) \<Rightarrow> if k = ''world'' then (p, t) else wt
       | _ \<Rightarrow> wt) | Inl _ \<Rightarrow> wt) ls"

definition revoked_unknown :: "pyval \<times> pyval \<Rightarrow> (rat \<times> int) list \<Rightarrow> rat \<Rightarrow> int \<Rightarrow> pyval \<Rightarrow> sensor_stop \<Rightarrow> bool" where
  "revoked_unknown wt zeros since since_ms row s \<longleftrightarrow>
     dix row ''kind'' = Inr (PStr ''revoke'') \<and> fired_has ''perception-unknown'' row = Inr True \<and>
     (\<exists>ts stamp. dix row ''ts_ms'' = Inr ts \<and> (ss_zero s, stamp) \<in> set zeros \<and> since \<le> ss_zero s \<and> le_int ts stamp = Inr True) \<and>
     (case wt of (world, seen_at) \<Rightarrow> (\<exists>c. dget world ''confidence'' = Inr c \<and> eq_int c 0) \<and> ge_int seen_at since_ms = Inr True)"

definition perception_stop :: "(string \<Rightarrow> pyval res) \<Rightarrow> pyval \<times> pyval \<Rightarrow> (rat \<times> int) list \<Rightarrow> rat \<Rightarrow> int \<Rightarrow> string list \<Rightarrow> sensor_stop \<Rightarrow> bool" where
  "perception_stop ld wt zeros since since_ms ls s \<longleftrightarrow> ss_reason s = ''perception_unknown'' \<and>
     (\<exists>pre line post row. ls = pre @ line # post \<and> ld line = Inr row \<and> revoked_unknown (world_before ld wt pre) zeros since since_ms row s)"

lemma zero_after_sound: "zero_after since ts zeros = Inr (Some w) \<Longrightarrow> \<exists>v stamp. ts = Inr v \<and> (w, stamp) \<in> set zeros \<and> since \<le> w \<and> le_int v stamp = Inr True"
proof (induction zeros)
  case (Cons z zs)
  obtain wall stamp where z: "z = (wall, stamp)" by (cases z)
  show ?case
  proof (cases "zero_after since ts zs = Inr (Some w)")
    case True
    from Cons.IH [OF this] show ?thesis by auto
  next
    case False
    with Cons.prems z obtain v where "ts = Inr v" "\<not> wall < since" "le_int v stamp = Inr True" "w = wall"
      by (auto simp: rbind_Inr_iff split: if_splits)
    with z show ?thesis by auto
  qed
qed simp

lemma perception_scan_sound:
  "perception_scan ld zeros since since_ms world seen_at ls = Inr (Some s) \<Longrightarrow> perception_stop ld (world, seen_at) zeros since since_ms ls s"
proof (induction ls arbitrary: world seen_at)
  case (Cons line ls)
  from Cons.prems obtain row kind w t where row: "ld line = Inr row" and kind: "dix row ''kind'' = Inr kind"
    and wt: "(if kind = PStr ''world'' then rbind (dix row ''payload'') (\<lambda>p. rbind (dix row ''ts_ms'') (\<lambda>t. Inr (p, t))) else Inr (world, seen_at)) = Inr (w, t)"
    by (auto simp: rbind_Inr_iff split: sum.splits if_splits)
  have now: "world_before ld (world, seen_at) (line # pre) = world_before ld (w, t) pre" for pre
    using row kind wt by (auto simp: rbind_Inr_iff split: if_splits sum.splits pyval.splits)
  have later: ?case if "perception_scan ld zeros since since_ms w t ls = Inr (Some s)"
  proof -
    from Cons.IH [OF that] obtain pre line' post row' where r: "ss_reason s = ''perception_unknown''" "ls = pre @ line' # post" "ld line' = Inr row'"
      "revoked_unknown (world_before ld (w, t) pre) zeros since since_ms row' s" unfolding perception_stop_def by blast
    then have "line # ls = (line # pre) @ line' # post" "revoked_unknown (world_before ld (world, seen_at) (line # pre)) zeros since since_ms row' s"
      by (simp_all add: now del: world_before.simps)
    with r(1,3) show ?thesis unfolding perception_stop_def by blast
  qed
  obtain hit where hit: "rand [Inr (kind = PStr ''revoke''), Inr (truthy w), Inr (t \<noteq> PNone), ge_int t since_ms,
      rbind (dget w ''confidence'') (\<lambda>c. Inr (eq_int c 0)), fired_has ''perception-unknown'' row] = Inr hit"
    using Cons.prems row kind wt by (auto simp: rbind_Inr_iff)
  show ?case
  proof (cases hit)
    case False
    with Cons.prems row kind wt hit show ?thesis by (intro later) simp
  next
    case True
    with hit obtain c where h: "kind = PStr ''revoke''" "ge_int t since_ms = Inr True" "dget w ''confidence'' = Inr c" "eq_int c 0"
      "fired_has ''perception-unknown'' row = Inr True" by (auto simp: rand_True_iff rbind_Inr_iff)
    obtain zero where z: "zero_after since (dix row ''ts_ms'') zeros = Inr zero" using Cons.prems row kind wt hit True by (auto simp: rbind_Inr_iff)
    show ?thesis
    proof (cases zero)
      case None
      with Cons.prems row kind wt hit True z show ?thesis by (intro later) simp
    next
      case (Some w0)
      with Cons.prems row kind wt hit True z have s: "ss_reason s = ''perception_unknown''" "ss_zero s = w0" by (auto simp: rbind_Inr_iff)
      from zero_after_sound [OF z [unfolded Some]] obtain ts stamp where "dix row ''ts_ms'' = Inr ts" "(w0, stamp) \<in> set zeros" "since \<le> w0" "le_int ts stamp = Inr True" by blast
      moreover have "w = world" "t = seen_at" using wt h(1) by simp_all
      ultimately have "revoked_unknown (world_before ld (world, seen_at) []) zeros since since_ms row s"
        unfolding revoked_unknown_def using s(2) h kind by auto
      with s(1) row show ?thesis unfolding perception_stop_def by blast
    qed
  qed
qed simp

lemma sensor_stop_sound:
  assumes "sensor_stop_report ld lg states outcomes zeros since since_ms True = Inr (Some s)"
  shows "perception_stop ld (PNone, PNone) zeros since since_ms (splitlines lg) s"
proof -
  from assms have "perception_scan ld zeros since since_ms PNone PNone (splitlines lg) = Inr (Some s)"
    by (auto simp: sensor_stop_report_def rbind_Inr_iff split: if_splits option.splits)
  then show ?thesis by (rule perception_scan_sound)
qed

end
