(* ===== verification/Dispatch_Evidence.thy ===== *)
theory Dispatch_Evidence
  imports Log_Text
begin

text \<open>
  The attribution of a household denial to one exact proposal of the protected log
  (\<^verbatim>\<open>ros/gazebo/hazard_dispatch_evidence.py\<close>) and the bounded diagnostics around it
  (\<^verbatim>\<open>ros/gazebo/hazard_diagnostics.py\<close>). The JSON parser \<open>ld\<close> keeps the raw pairs of an object, which
  the duplicate-key hook then sees, and refuses the constants NaN and Infinity.
\<close>

section \<open>Values\<close>

definition ENTRY_FIELDS :: "string list" where
  "ENTRY_FIELDS = [''seq'', ''ts_ms'', ''kind'', ''payload'', ''prev'', ''hash'']"

definition BINDING_FIELDS :: "string list" where
  "BINDING_FIELDS = [''schema_version'', ''world_revision'', ''task_revision'', ''task_id'', ''step_id'', ''robot_id'', ''model_sha256'', ''tool_id'', ''item_id'']"

definition MAX_DISPATCH_LOG_RECORDS :: nat where "MAX_DISPATCH_LOG_RECORDS = 20000"

definition uint_val :: "pyval \<Rightarrow> bool" where
  "uint_val v \<longleftrightarrow> (case as_int v of None \<Rightarrow> False | Some n \<Rightarrow> 0 \<le> n \<and> n \<le> 2 ^ 64 - 1)"

definition hex_val :: "nat \<Rightarrow> pyval \<Rightarrow> bool" where
  "hex_val n v \<longleftrightarrow> (case v of PStr s \<Rightarrow> is_hex n s | _ \<Rightarrow> False)"

definition finite_num :: "pyval \<Rightarrow> bool" where
  "finite_num v \<longleftrightarrow> (case v of PInt _ \<Rightarrow> True | PFloat w \<Rightarrow> isfinite w | _ \<Rightarrow> False)"

text \<open>\<^verbatim>\<open>_same_json\<close>: an integer equals the float of its value; everything else only its own type.\<close>

function same_json :: "pyval \<Rightarrow> pyval \<Rightarrow> bool" where
  "same_json a b =
     (if is_number a \<and> is_number b then finite_num a \<and> finite_num b \<and> pyeq a b
      else case (a, b) of
        (PDict d, PDict e) \<Rightarrow> fst ` set d = fst ` set e \<and>
          (\<forall>p\<in>set d. case map_of e (fst p) of None \<Rightarrow> False | Some v \<Rightarrow> same_json (snd p) v)
      | (PList xs, PList ys) \<Rightarrow> length xs = length ys \<and> (\<forall>p\<in>set (zip xs ys). same_json (fst p) (snd p))
      | _ \<Rightarrow> a = b)"
  by pat_completeness auto
termination
  by (relation "measure (\<lambda>(a, b). size a)") (force dest: size_zip_elem size_pair_elem simp: less_Suc_eq_le)+

declare same_json.simps [simp del]

definition unique_object :: "row \<Rightarrow> row res" where
  "unique_object pairs = unique_pairs (ValueError ''duplicate JSON key'') [] pairs"

section \<open>The protected log\<close>

text \<open>One record of the chain: the fields of an entry, its number and the hash of the one before.\<close>

definition entry_ok :: "nat \<Rightarrow> string \<Rightarrow> row \<Rightarrow> bool" where
  "entry_ok seq prev row \<longleftrightarrow> fst ` set row = set ENTRY_FIELDS \<and> uint_val (getf row ''seq'') \<and> getf row ''seq'' = PInt (int seq) \<and>
     uint_val (getf row ''ts_ms'') \<and> is_str (getf row ''kind'') \<and> truthy (getf row ''kind'') \<and> is_dict (getf row ''payload'') \<and>
     hex_val 64 (getf row ''hash'') \<and> getf row ''prev'' = PStr prev"

definition seal_ok :: "row \<Rightarrow> bool" where
  "seal_ok payload \<longleftrightarrow> fst ` set payload = {''sig'', ''key_id''} \<and> hex_val 128 (getf payload ''sig'') \<and> hex_val 16 (getf payload ''key_id'')"

abbreviation payload_of :: "row \<Rightarrow> row" where
  "payload_of row \<equiv> dict_or_empty (getf row ''payload'')"

definition entry_time :: "row \<Rightarrow> int" where
  "entry_time row = (case getf row ''ts_ms'' of PInt t \<Rightarrow> t | _ \<Rightarrow> 0)"

fun entry_hash :: "row \<Rightarrow> string" where
  "entry_hash row = (case getf row ''hash'' of PStr s \<Rightarrow> s | _ \<Rightarrow> [])"

text \<open>
  The parsing loop: \<open>None\<close> is \<^verbatim>\<open>malformed_log\<close>, which a \<^verbatim>\<open>ValueError\<close>, \<^verbatim>\<open>TypeError\<close> or
  \<^verbatim>\<open>OverflowError\<close> of the parser gives too. The records returned exclude the seals.
\<close>

definition parse_failed :: "exn \<Rightarrow> bool" where
  "parse_failed x \<longleftrightarrow> is_ValueError x \<or> x = TypeError \<or> x = OverflowError"

fun read_chain :: "(string \<Rightarrow> pyval res) \<Rightarrow> nat \<Rightarrow> string \<Rightarrow> int \<Rightarrow> string list \<Rightarrow> row list option res" where
  "read_chain ld seq prev time [] = Inr (Some [])"
| "read_chain ld seq prev time (line # ls) =
     (case rbind (ld line) (hook_val unique_object) of
        Inl x \<Rightarrow> if parse_failed x then Inr None else Inl x
      | Inr (PDict row) \<Rightarrow>
          if \<not> entry_ok seq prev row then Inr None
          else if getf row ''kind'' = PStr ''seal'' then
            (if seal_ok (payload_of row) then read_chain ld (Suc seq) (entry_hash row) time ls else Inr None)
          else if entry_time row < time then Inr None
          else rbind (read_chain ld (Suc seq) (entry_hash row) (entry_time row) ls) (\<lambda>rest. Inr (map_option (Cons row) rest))
      | Inr _ \<Rightarrow> Inr None)"

section \<open>The denial\<close>

datatype attribution =
    Unknown string
  | Exact (den_id: int) (den_fired: "string list") (den_proposal_seq: int) (den_decision_seq: int) (den_ts: int) (den_stamp: int)

definition expected_action :: "(int \<times> pyval list) list \<Rightarrow> pyval" where
  "expected_action points = PDict [(''type'', PStr ''joint_trajectory''), (''ttl_ms'', PInt 1000),
     (''points'', PList (map (\<lambda>(ms, values). PDict [(''time_from_start_ms'', PInt ms), (''positions'', PList values)]) points))]"

definition the_int :: "pyval \<Rightarrow> int" where
  "the_int v = (case v of PInt n \<Rightarrow> n | _ \<Rightarrow> 0)"

definition proposal_ok :: "pyval \<Rightarrow> bool" where
  "proposal_ok p \<longleftrightarrow> (case p of
       PDict d \<Rightarrow> {''id'', ''source'', ''timestamp_ms'', ''action''} \<subseteq> fst ` set d \<and> uint_val (getf d ''id'') \<and> uint_val (getf d ''timestamp_ms'')
     | _ \<Rightarrow> False)"

definition proposal_of :: "row \<Rightarrow> row" where
  "proposal_of row = dict_or_empty (getf (payload_of row) ''proposal'')"

definition matches :: "pyval \<Rightarrow> pyval \<Rightarrow> int \<Rightarrow> row \<Rightarrow> bool" where
  "matches binding action sent row \<longleftrightarrow> getf row ''kind'' = PStr ''proposal'' \<and>
     (let p = proposal_of row in
      sent \<le> entry_time row \<and> sent \<le> the_int (getf p ''timestamp_ms'') \<and> getf p ''source'' = PStr ''vla'' \<and>
      same_json (getf p ''semantic'') binding \<and> same_json (getf p ''action'') action)"

text \<open>The loop over the records: \<open>None\<close> is a malformed proposal.\<close>

definition match_indices :: "pyval \<Rightarrow> pyval \<Rightarrow> int \<Rightarrow> row list \<Rightarrow> nat list option" where
  "match_indices binding action sent records =
     (if list_ex (\<lambda>r. getf r ''kind'' = PStr ''proposal'' \<and> \<not> proposal_ok (getf (payload_of r) ''proposal'')) records then None
      else Some (filter (\<lambda>i. matches binding action sent (records ! i)) [0..<length records]))"

fun fired_texts :: "pyval list \<Rightarrow> string list option" where
  "fired_texts [] = Some []"
| "fired_texts (v # vs) =
     (case v of PStr s \<Rightarrow> if 1 \<le> ulen s \<and> ulen s \<le> 256 then map_option (Cons s) (fired_texts vs) else None | _ \<Rightarrow> None)"

definition judge_match :: "row list \<Rightarrow> nat \<Rightarrow> attribution" where
  "judge_match records i =
     (if i + 1 = length records then Unknown ''missing_decision''
      else let prow = records ! i; drow = records ! (i + 1); proposal = proposal_of prow; decision = payload_of drow in
        if getf drow ''kind'' \<noteq> PStr ''decision'' \<or> entry_time drow \<noteq> entry_time prow \<or> \<not> uint_val (getf decision ''proposal_id'') \<or>
           getf decision ''proposal_id'' \<noteq> getf proposal ''id'' then Unknown ''mismatched_decision''
        else if getf decision ''verdict'' \<noteq> PStr ''bul'' then Unknown ''no_matching_denial''
        else case (map_of decision ''action'', getf decision ''fired'') of
          (Some PNone, PList fs) \<Rightarrow>
            (case fired_texts fs of
               Some fired \<Rightarrow>
                 if 1 \<le> length fs \<and> length fs \<le> 64
                 then Exact (the_int (getf proposal ''id'')) fired (the_int (getf prow ''seq'')) (the_int (getf drow ''seq''))
                        (entry_time prow) (the_int (getf proposal ''timestamp_ms''))
                 else Unknown ''malformed_decision''
             | None \<Rightarrow> Unknown ''malformed_decision'')
        | _ \<Rightarrow> Unknown ''malformed_decision'')"

text \<open>\<^verbatim>\<open>dispatch_denial\<close>; \<open>content\<close> is what reading the protected file gave.\<close>

definition dispatch_denial :: "(string \<Rightarrow> pyval res) \<Rightarrow> string res \<Rightarrow> (int \<times> pyval list) list \<Rightarrow> pyval \<Rightarrow> pyval \<Rightarrow> attribution res" where
  "dispatch_denial ld content points binding sent_sim_ms =
     (if \<not> uint_val sent_sim_ms \<or> \<not> is_dict binding \<or> fst ` set (dict_or_empty binding) \<noteq> set BINDING_FIELDS then Inr (Unknown ''invalid_dispatch'')
      else case content of
        Inl x \<Rightarrow> if is_OSError x \<or> is_ValueError x then Inr (Unknown ''log_unavailable'') else Inl x
      | Inr lg \<Rightarrow>
          if lg \<noteq> [] \<and> last lg \<noteq> newline then Inr (Unknown ''partial_log'')
          else if count_list lg newline > MAX_DISPATCH_LOG_RECORDS then Inr (Unknown ''log_record_limit'')
          else rbind (read_chain ld 0 (replicate 64 (CHR ''0'')) 0 (splitlines lg)) (\<lambda>chain.
            Inr (case chain of
                None \<Rightarrow> Unknown ''malformed_log''
              | Some records \<Rightarrow>
                  (case match_indices binding (expected_action points) (the_int sent_sim_ms) records of
                     None \<Rightarrow> Unknown ''malformed_log''
                   | Some [] \<Rightarrow> Unknown ''no_matching_proposal''
                   | Some [i] \<Rightarrow> judge_match records i
                   | Some _ \<Rightarrow> Unknown ''ambiguous_proposal''))))"

section \<open>Bounded diagnostics\<close>

text \<open>\<^verbatim>\<open>ObservationSnapshot\<close>: per source its stamp and when it was received.\<close>

record snapshot =
  sn_sim :: int
  sn_wall :: rat
  sn_sources :: "(string \<times> int option \<times> rat option) list"

definition snapshot_ages :: "snapshot \<Rightarrow> (string \<times> int option \<times> rat option) list" where
  "snapshot_ages s = map (\<lambda>(n, stamp, received). (n, map_option (\<lambda>t. sn_sim s - t) stamp, map_option (\<lambda>r. (sn_wall s - r) * 1000) received)) (sn_sources s)"

type_synonym header = "int \<times> int"

definition message_stamp :: "header option \<Rightarrow> int option" where
  "message_stamp = map_option (\<lambda>(sec, nanosec). sec * 1000 + nanosec div 1000000)"

definition observation_snapshot ::
  "int \<Rightarrow> rat \<Rightarrow> (int \<times> rat) option \<Rightarrow> (int \<times> rat) option \<Rightarrow> header option \<Rightarrow> header option \<Rightarrow> rat option \<Rightarrow> rat option \<Rightarrow> snapshot" where
  "observation_snapshot sim wall target item joint odom joint_received odom_received =
     \<lparr>sn_sim = sim, sn_wall = wall, sn_sources =
       [(''target'', map_option fst target, map_option snd target), (''item'', map_option fst item, map_option snd item),
        (''joint'', message_stamp joint, joint_received), (''odom'', message_stamp odom, odom_received)]\<rparr>"

record 'r omissions =
  om_count :: nat
  om_rows :: "'r list"

definition OMISSION_LIMIT :: nat where "OMISSION_LIMIT = 32"

text \<open>A \<^verbatim>\<open>deque(maxlen=32)\<close> drops its oldest row.\<close>

definition omission_record :: "'r \<Rightarrow> 'r omissions \<Rightarrow> 'r omissions" where
  "omission_record row h = h\<lparr>om_count := om_count h + 1, om_rows := (let rows = om_rows h @ [row] in drop (length rows - OMISSION_LIMIT) rows)\<rparr>"

text \<open>\<^verbatim>\<open>outcome_summary\<close>: fixed, cut fields only.\<close>

record outcome_row =
  or_id :: "int option"
  or_verdict :: "string option"
  or_fired :: "string option list option"
  or_error :: "string option"
  or_correlation :: "string option"

definition cut_text :: "pyval \<Rightarrow> string option" where
  "cut_text v = (case v of PStr s \<Rightarrow> Some (utake 256 s) | _ \<Rightarrow> None)"

definition dict_field :: "row \<Rightarrow> string \<Rightarrow> pyval" where
  "dict_field row k = (case map_of row k of None \<Rightarrow> PDict [] | Some v \<Rightarrow> v)"

definition outcome_summary :: "row \<Rightarrow> outcome_row res" where
  "outcome_summary row =
     rbind (dget (dict_field row ''rejected'') ''error'') (\<lambda>error.
     rbind (need_dict (dict_field row ''decision'')) (\<lambda>decision.
     Inr \<lparr>or_id = (case as_int (getf decision ''proposal_id'') of Some i \<Rightarrow> if 0 \<le> i \<and> i < 2 ^ 64 then Some i else None | None \<Rightarrow> None),
          or_verdict = cut_text (getf decision ''verdict''),
          or_fired = map_option (\<lambda>vs. map cut_text (take 32 vs)) (as_list (getf decision ''fired'')),
          or_error = cut_text error, or_correlation = (if truthy error then Some ''unknown'' else None)\<rparr>))"

text \<open>\<^verbatim>\<open>DispatchWatch\<close>: at most three new denials are looked up.\<close>

record watch =
  dw_sent :: rat
  dw_seen :: "int list"
  dw_reads :: nat
  dw_result :: attribution

definition watch_init :: "rat \<Rightarrow> watch" where
  "watch_init sent = \<lparr>dw_sent = sent, dw_seen = [], dw_reads = 0, dw_result = Unknown ''no_denial_evidence_checked''\<rparr>"

definition denial_text :: "attribution \<Rightarrow> string" where
  "denial_text a = (case a of Exact i fired _ _ _ _ \<Rightarrow> ''household dispatched proposal denied: proposal_id='' @ show_int i | Unknown _ \<Rightarrow> [])"

text \<open>
  \<^verbatim>\<open>check\<close>: \<open>evidence\<close> is the lookup, one reading of the log per call (\<open>None\<close>: no lookup configured).
\<close>

definition watch_one :: "(nat \<Rightarrow> attribution res) option \<Rightarrow> rat \<Rightarrow> row \<Rightarrow> (watch, unit) meth" where
  "watch_one evidence received row w =
     (case rbind (dget (dict_field row ''decision'') ''proposal_id'') (\<lambda>i. rbind (dget (dict_field row ''decision'') ''verdict'') (\<lambda>v. Inr (i, v))) of
        Inl x \<Rightarrow> (Inl x, w)
      | Inr (identity, verdict) \<Rightarrow>
          (case (as_int identity, evidence) of
             (Some i, Some look) \<Rightarrow>
               if received < dw_sent w \<or> verdict \<noteq> PStr ''bul'' \<or> i \<in> set (dw_seen w) \<or> 3 \<le> dw_reads w then (Inr (), w)
               else let w1 = w\<lparr>dw_seen := i # dw_seen w, dw_reads := dw_reads w + 1\<rparr> in
                 (case look (dw_reads w) of
                    Inl x \<Rightarrow> (Inl x, w1)
                  | Inr a \<Rightarrow> (case a of Exact _ _ _ _ _ _ \<Rightarrow> Inl (RuntimeError (denial_text a)) | Unknown _ \<Rightarrow> Inr (), w1\<lparr>dw_result := a\<rparr>))
           | _ \<Rightarrow> (Inr (), w)))"

fun watch_check :: "(nat \<Rightarrow> attribution res) option \<Rightarrow> (rat \<times> row) list \<Rightarrow> (watch, unit) meth" where
  "watch_check evidence [] = mret ()"
| "watch_check evidence ((received, row) # rest) = mthen (watch_one evidence received row) (watch_check evidence rest)"

section \<open>What an attribution means\<close>

text \<open>The parsed log is one chain: numbered from the start, each record naming the hash before it.\<close>

lemma read_chain_sorted:
  "read_chain ld seq prev time ls = Inr (Some rs) \<Longrightarrow>
   (\<forall>r\<in>set rs. time \<le> entry_time r \<and> int seq \<le> the_int (getf r ''seq'') \<and> (\<exists>k p. entry_ok k p r)) \<and>
   sorted (map entry_time rs) \<and> sorted_wrt (<) (map (\<lambda>r. the_int (getf r ''seq'')) rs)"
proof (induction ls arbitrary: seq prev time rs)
  case (Cons line ls)
  from Cons.prems obtain row where row: "rbind (ld line) (hook_val unique_object) = Inr (PDict row)" "entry_ok seq prev row"
    by (auto split: sum.splits pyval.splits if_splits)
  then have n: "the_int (getf row ''seq'') = int seq" by (simp add: entry_ok_def the_int_def)
  show ?case
  proof (cases "getf row ''kind'' = PStr ''seal''")
    case True
    with Cons.prems row have "read_chain ld (Suc seq) (entry_hash row) time ls = Inr (Some rs)" by (auto split: if_splits)
    from Cons.IH [OF this] show ?thesis by fastforce
  next
    case False
    with Cons.prems row obtain rest where r: "read_chain ld (Suc seq) (entry_hash row) (entry_time row) ls = Inr (Some rest)" "rs = row # rest" "time \<le> entry_time row"
      by (auto simp: rbind_Inr_iff split: if_splits)
    from Cons.IH [OF r(1)] r(2,3) row(2) n show ?thesis by fastforce
  qed
qed simp

definition denied_exactly :: "pyval \<Rightarrow> pyval \<Rightarrow> int \<Rightarrow> row list \<Rightarrow> attribution \<Rightarrow> bool" where
  "denied_exactly binding action sent records a \<longleftrightarrow> (\<exists>i. Suc i < length records \<and>
     {j. j < length records \<and> matches binding action sent (records ! j)} = {i} \<and>
     (let prow = records ! i; drow = records ! Suc i; decision = payload_of drow in
      getf drow ''kind'' = PStr ''decision'' \<and> entry_time drow = entry_time prow \<and> getf decision ''proposal_id'' = PInt (den_id a) \<and>
      getf (proposal_of prow) ''id'' = PInt (den_id a) \<and> getf decision ''verdict'' = PStr ''bul'' \<and> map_of decision ''action'' = Some PNone \<and>
      getf decision ''fired'' = PList (map PStr (den_fired a)) \<and> den_fired a \<noteq> [] \<and> length (den_fired a) \<le> 64 \<and> den_ts a = entry_time prow))"

lemma fired_texts_Some: "fired_texts vs = Some ss \<Longrightarrow> vs = map PStr ss"
  by (induction vs arbitrary: ss) (auto split: pyval.splits if_splits)

lemma judge_exact:
  assumes "judge_match records i = Exact n fired ps ds ts st" and "i < length records"
    and "{j. j < length records \<and> matches binding action sent (records ! j)} = {i}"
  shows "denied_exactly binding action sent records (Exact n fired ps ds ts st)"
proof -
  let ?p = "proposal_of (records ! i)" and ?d = "payload_of (records ! (i + 1))"
  from assms(1) have len: "i + 1 \<noteq> length records" by (auto simp: judge_match_def)
  with assms(1) have d: "getf (records ! (i + 1)) ''kind'' = PStr ''decision''" "entry_time (records ! (i + 1)) = entry_time (records ! i)"
    "uint_val (getf ?d ''proposal_id'')" "getf ?d ''proposal_id'' = getf ?p ''id''" "getf ?d ''verdict'' = PStr ''bul''"
    by (auto simp: judge_match_def Let_def split: if_splits)
  with assms(1) len obtain fs where f: "map_of ?d ''action'' = Some PNone" "getf ?d ''fired'' = PList fs" "fired_texts fs = Some fired"
    "1 \<le> length fs" "length fs \<le> 64" "n = the_int (getf ?p ''id'')" "ts = entry_time (records ! i)"
    by (auto simp: judge_match_def Let_def split: if_splits option.splits pyval.splits)
  have n: "getf ?p ''id'' = PInt n" using d(3,4) f(6) by (auto simp: uint_val_def the_int_def split: option.splits)
  have fired: "fs = map PStr fired" by (rule fired_texts_Some [OF f(3)])
  show ?thesis unfolding denied_exactly_def Let_def
  proof (intro exI [of _ i] conjI)
    show "Suc i < length records" using len assms(2) by simp
    show "length (den_fired (Exact n fired ps ds ts st)) \<le> 64" "den_fired (Exact n fired ps ds ts st) \<noteq> []"
      using f(4,5) fired by auto
    show "{j. j < length records \<and> matches binding action sent (records ! j)} = {i}" by (rule assms(3))
    show "getf (proposal_of (records ! i)) ''id'' = PInt (den_id (Exact n fired ps ds ts st))" using n by simp
    show "getf (payload_of (records ! Suc i)) ''proposal_id'' = PInt (den_id (Exact n fired ps ds ts st))" using d(4) n by simp
    show "getf (payload_of (records ! Suc i)) ''fired'' = PList (map PStr (den_fired (Exact n fired ps ds ts st)))" using f(2) fired by simp
    show "map_of (payload_of (records ! Suc i)) ''action'' = Some PNone" using f(1) by simp
    show "den_ts (Exact n fired ps ds ts st) = entry_time (records ! i)" using f(7) by simp
  qed (use d(1,2,5) in simp_all)
qed

lemma dispatch_exact:
  assumes "dispatch_denial ld content points binding sent = Inr (Exact n fired ps ds ts st)"
  shows "\<exists>lg records. content = Inr lg \<and> read_chain ld 0 (replicate 64 (CHR ''0'')) 0 (splitlines lg) = Inr (Some records) \<and>
    denied_exactly binding (expected_action points) (the_int sent) records (Exact n fired ps ds ts st)"
proof -
  from assms obtain lg where l: "content = Inr lg" by (auto simp: dispatch_denial_def split: if_splits sum.splits)
  with assms obtain records where r: "read_chain ld 0 (replicate 64 (CHR ''0'')) 0 (splitlines lg) = Inr (Some records)"
    by (auto simp: dispatch_denial_def rbind_Inr_iff split: if_splits option.splits)
  with assms l obtain i where i: "match_indices binding (expected_action points) (the_int sent) records = Some [i]" "judge_match records i = Exact n fired ps ds ts st"
    by (auto simp: dispatch_denial_def split: if_splits option.splits list.splits)
  then have f: "filter (\<lambda>i. matches binding (expected_action points) (the_int sent) (records ! i)) [0..<length records] = [i]"
    by (auto simp: match_indices_def split: if_splits)
  then have "set (filter (\<lambda>i. matches binding (expected_action points) (the_int sent) (records ! i)) [0..<length records]) = {i}" by simp
  then have "{j. j < length records \<and> matches binding (expected_action points) (the_int sent) (records ! j)} = {i}" by auto
  moreover from this have "i < length records" by auto
  ultimately show ?thesis using judge_exact [OF i(2)] l r by blast
qed

text \<open>The diagnostics are bounded.\<close>

lemma omission_bounded: "length (om_rows h) \<le> OMISSION_LIMIT \<Longrightarrow> length (om_rows (omission_record r h)) \<le> OMISSION_LIMIT"
  by (simp add: omission_record_def Let_def)

definition watch_ok :: "watch \<Rightarrow> bool" where
  "watch_ok w \<longleftrightarrow> dw_reads w = length (dw_seen w) \<and> dw_reads w \<le> 3 \<and> distinct (dw_seen w)"

lemma watch_one_ok: "keeps (implied watch_ok) (watch_one evidence received row)"
  by (auto simp: keeps_def implied_def watch_ok_def watch_one_def Let_def split: sum.splits prod.splits option.splits if_splits)

lemma watch_bounded: "keeps (implied watch_ok) (watch_check evidence os)"
proof (induction os)
  case Nil
  then show ?case by (simp add: implied.keeps_mret)
next
  case (Cons o' os)
  then show ?case by (cases o') (simp add: implied.keeps_mthen watch_one_ok)
qed

end
