(* ===== verification/Rearm_Barrier.thy ===== *)
theory Rearm_Barrier
  imports Log_Text
begin

text \<open>
  The barrier before a single arm dispatch of the reference run (\<^verbatim>\<open>ros/haetae_sim/arm_barrier.py\<close>): an
  explicit OFF decision, a newer armed state, fresh reports of both controllers with the expected
  nonces and a robot at rest. Receive times are exact seconds; a state, outcome or guard report is
  the dict of its message.
\<close>

type_synonym heard = "(rat \<times> row) list"

section \<open>Values\<close>

text \<open>\<^verbatim>\<open>0 <= now - t < 0.1\<close>\<close>

definition recent :: "rat \<Rightarrow> rat \<Rightarrow> bool" where
  "recent now t \<longleftrightarrow> 0 \<le> now - t \<and> now - t < 1 / 10"

text \<open>\<^verbatim>\<open>guard.get(k, 0) / 1e9\<close>: \<open>None\<close> is an infinity or a NaN, which passes no comparison of the callers.\<close>

definition wall_seconds :: "row \<Rightarrow> string \<Rightarrow> rat option res" where
  "wall_seconds guard k =
     (case (case map_of guard k of None \<Rightarrow> PInt 0 | Some v \<Rightarrow> v) of
        PInt n \<Rightarrow> rbind (double_of_rat (of_int n)) (\<lambda>_. Inr (Some (of_int n / 10 ^ 9)))
      | PBool b \<Rightarrow> Inr (Some ((if b then 1 else 0) / 10 ^ 9))
      | PFloat w \<Rightarrow> Inr (if isfinite w then Some (f_val w / 10 ^ 9) else None)
      | _ \<Rightarrow> Inl TypeError)"

definition since_recent :: "rat \<Rightarrow> rat \<Rightarrow> rat option \<Rightarrow> bool" where
  "since_recent start now t \<longleftrightarrow> (case t of None \<Rightarrow> False | Some p \<Rightarrow> start \<le> p \<and> recent now p)"

text \<open>\<^verbatim>\<open>math.isfinite(v) and abs(v) < 0.03\<close>\<close>

definition at_rest :: "float64 \<Rightarrow> bool" where
  "at_rest w \<longleftrightarrow> isfinite w \<and> \<bar>f_val w\<bar> < f_val 0x3F9EB851EB851EB8"

definition young :: "row \<Rightarrow> bool" where
  "young state \<longleftrightarrow> (case as_int (getf state ''world_age_ms'') of None \<Rightarrow> False | Some age \<Rightarrow> 0 \<le> age \<and> age < 75)"

section \<open>The engine\<close>

definition accepted_world_ready :: "heard \<Rightarrow> heard \<Rightarrow> rat \<Rightarrow> rat \<Rightarrow> int \<Rightarrow> bool" where
  "accepted_world_ready states outcomes started_at now previous_stamp =
     (let worlds = filter (\<lambda>(t, row). started_at \<le> t \<and> is_dict (getf row ''world_updated'')) outcomes in
      if states = [] \<or> worlds = [] then False
      else let (world_at, row) = last worlds; (state_at, state) = last states in
        (case as_int (getf (dict_or_empty (getf row ''world_updated'')) ''stamp_ms'') of None \<Rightarrow> False | Some s \<Rightarrow> previous_stamp < s \<and> 0 \<le> s) \<and>
        recent now world_at \<and> world_at < state_at \<and> recent now state_at \<and>
        getf state ''mode'' = PStr ''normal'' \<and> getf state ''active'' = PNone \<and> \<not> truthy (getf state ''arm_cancelling'') \<and>
        getf state ''recorder_ok'' = PBool True \<and> getf state ''state_ok'' = PBool True \<and> young state)"

definition rearm_ready :: "heard \<Rightarrow> heard \<Rightarrow> rat \<Rightarrow> int option \<Rightarrow> bool res" where
  "rearm_ready states outcomes sent_at proposal_id =
     (let decisions = filter (\<lambda>(t, v). sent_at \<le> t \<and> (''decision'' \<in> fst ` set v \<or> ''rejected'' \<in> fst ` set v)) outcomes in
      if states = [] \<or> decisions = [] then Inr False
      else let (stop_at, outcome) = last decisions; (state_at, state) = last states; decision = or_empty (getf outcome ''decision'') in
        rand [rbind (dget decision ''verdict'') (\<lambda>v. Inr (v = PStr ''yun'')),
              rbind (dget decision ''action'') (\<lambda>v. Inr (pyeq v (PDict [(''type'', PStr ''stop'')]))),
              (case proposal_id of None \<Rightarrow> Inr True | Some i \<Rightarrow> rbind (dget decision ''proposal_id'') (\<lambda>v. Inr (eq_int v i))),
              Inr (''rejected'' \<notin> fst ` set outcome), Inr (stop_at < state_at), Inr (getf state ''mode'' = PStr ''normal''),
              str_in ''vla'' (case map_of state ''armed'' of None \<Rightarrow> PList [] | Some v \<Rightarrow> v),
              Inr (getf state ''active'' = PNone), Inr (\<not> truthy (getf state ''arm_cancelling'')), Inr (truthy (getf state ''arm_controller_ready'')),
              Inr (truthy (getf state ''recorder_ok'')), Inr (truthy (getf state ''state_ok'')), Inr (young state)])"

section \<open>The controllers\<close>

record arm_world =
  aw_states :: heard
  aw_outcomes :: heard
  aw_guards :: heard
  aw_base_guards :: heard
  aw_joint :: "(string list \<times> float64 list) option"
  aw_joint_received :: rat
  aw_odom :: "(float64 \<times> float64) option"
  aw_odom_received :: rat

text \<open>The latest report of one controller, for the single dispatch.\<close>

definition guard_ready :: "string \<Rightarrow> heard \<Rightarrow> row \<Rightarrow> rat \<Rightarrow> rat \<Rightarrow> bool res" where
  "guard_ready target samples nonces sent_at now =
     (if samples = [] then Inr False
      else let (received, guard) = last samples in
        rbind (wall_seconds guard ''published_wall_ns'') (\<lambda>published.
        Inr (truthy (getf nonces target) \<and> pyeq (getf guard ''nonce'') (getf nonces target) \<and> sent_at \<le> received \<and>
             since_recent sent_at now published \<and> is_bool (getf guard ''holding'') \<and>
             (target = ''arm'' \<longrightarrow> getf guard ''holding'' \<noteq> PBool True) \<and> recent now received)))"

definition idle_lease :: "row \<Rightarrow> rat \<Rightarrow> rat \<Rightarrow> bool res" where
  "idle_lease arm sent_at now =
     (if getf arm ''active_digest'' \<noteq> PStr (replicate 64 (CHR ''0'')) \<or> \<not> eq_int (getf arm ''goal_sequence'') 0 then Inr False
      else rbind (wall_seconds arm ''lease_received_wall_ns'') (\<lambda>lease.
        Inr (since_recent sent_at now lease \<and>
             (case (as_int (getf arm ''lease_sent_ms''), as_int (getf arm ''cutoff_ms'')) of
                (Some issued, Some cutoff) \<Rightarrow> 0 \<le> cutoff \<and> cutoff < issued
              | _ \<Rightarrow> False))))"

definition robot_rest :: "arm_world \<Rightarrow> rat \<Rightarrow> string list \<Rightarrow> bool" where
  "robot_rest w now arm_joints =
     (case (aw_joint w, aw_odom w) of
        (Some (names, velocity), Some (lin, ang)) \<Rightarrow>
          recent now (aw_joint_received w) \<and> recent now (aw_odom_received w) \<and> at_rest lin \<and> at_rest ang \<and>
          list_all (\<lambda>name. case map_of (rev (zip names velocity)) name of None \<Rightarrow> False | Some v \<Rightarrow> at_rest v) arm_joints
      | _ \<Rightarrow> False)"

definition gazebo_rearm_ready :: "arm_world \<Rightarrow> rat \<Rightarrow> rat \<Rightarrow> string list \<Rightarrow> row \<Rightarrow> int option \<Rightarrow> bool res" where
  "gazebo_rearm_ready w sent_at now arm_joints nonces proposal_id =
     rand [rearm_ready (aw_states w) (aw_outcomes w) sent_at proposal_id,
           Inr (recent now (fst (last (aw_states w)))),
           guard_ready ''arm'' (aw_guards w) nonces sent_at now,
           guard_ready ''base'' (aw_base_guards w) nonces sent_at now,
           idle_lease (snd (last (aw_guards w))) sent_at now,
           Inr (robot_rest w now arm_joints)]"

definition guard_activated :: "string \<Rightarrow> heard \<Rightarrow> rat \<Rightarrow> rat \<Rightarrow> row \<Rightarrow> bool res" where
  "guard_activated target samples reset_at now previous =
     (if samples = [] then Inr False
      else let (received, guard) = last samples in
        rbind (wall_seconds guard ''published_wall_ns'') (\<lambda>published.
        Inr (truthy (getf guard ''nonce'') \<and> \<not> pyeq (getf guard ''nonce'') (getf previous target) \<and> reset_at \<le> received \<and>
             since_recent reset_at now published \<and> recent now received)))"

definition activated_guards_ready :: "arm_world \<Rightarrow> rat \<Rightarrow> rat \<Rightarrow> row \<Rightarrow> bool res" where
  "activated_guards_ready w reset_at now previous =
     rand [guard_activated ''arm'' (aw_guards w) reset_at now previous, guard_activated ''base'' (aw_base_guards w) reset_at now previous]"

definition arm_fault_owner_ready :: "heard \<Rightarrow> bool \<Rightarrow> bool" where
  "arm_fault_owner_ready states isolated =
     (if states = [] then False
      else let state = snd (last states) in
        getf state ''mode'' = PStr ''normal'' \<and> getf state ''arm_controller_ready'' = PBool True \<and>
        (\<not> isolated \<or> (case as_int (getf state ''signed_vla_writers_matched'') of None \<Rightarrow> False | Some n \<Rightarrow> 0 < n)))"

section \<open>What readiness means\<close>

text \<open>The decision behind a rearm: the latest one since the request, an allowed stop, older than the armed state.\<close>

definition off_decision :: "heard \<Rightarrow> heard \<Rightarrow> rat \<Rightarrow> bool" where
  "off_decision states outcomes sent_at \<longleftrightarrow> (\<exists>pre t outcome post d state_at state.
     outcomes = pre @ (t, outcome) # post \<and> sent_at \<le> t \<and>
     (\<forall>(u, v)\<in>set post. u < sent_at \<or> ''decision'' \<notin> fst ` set v \<and> ''rejected'' \<notin> fst ` set v) \<and>
     getf outcome ''decision'' = PDict d \<and> getf d ''verdict'' = PStr ''yun'' \<and> pyeq (getf d ''action'') (PDict [(''type'', PStr ''stop'')]) \<and>
     ''rejected'' \<notin> fst ` set outcome \<and> states \<noteq> [] \<and> last states = (state_at, state) \<and> t < state_at \<and> getf state ''active'' = PNone)"

lemma last_filter_split:
  assumes "filter P xs \<noteq> []"
  shows "\<exists>pre post. xs = pre @ last (filter P xs) # post \<and> P (last (filter P xs)) \<and> (\<forall>x\<in>set post. \<not> P x)"
  using assms
proof (induction xs rule: rev_induct)
  case (snoc x xs)
  show ?case
  proof (cases "P x")
    case True
    then show ?thesis by (intro exI [of _ xs] exI [of _ "[]"]) simp
  next
    case False
    with snoc.prems have "filter P xs \<noteq> []" by simp
    from snoc.IH [OF this] obtain pre post y where y: "xs = pre @ y # post" "P y" "\<forall>z\<in>set post. \<not> P z" and l: "last (filter P xs) = y" by blast
    have "filter P (xs @ [x]) = filter P xs" using False by simp
    with l have "last (filter P (xs @ [x])) = y" by simp
    moreover have "xs @ [x] = pre @ y # (post @ [x])" "\<forall>z\<in>set (post @ [x]). \<not> P z" using y(1,3) False by simp_all
    ultimately show ?thesis using y(2) by blast
  qed
qed simp

lemma rearm_off:
  assumes "rearm_ready states outcomes sent_at proposal_id = Inr True"
  shows "off_decision states outcomes sent_at"
proof -
  let ?P = "\<lambda>(t, v). sent_at \<le> t \<and> (''decision'' \<in> fst ` set v \<or> ''rejected'' \<in> fst ` set v)"
  obtain t outcome where l1: "last (filter ?P outcomes) = (t, outcome)" by (cases "last (filter ?P outcomes)")
  obtain state_at state where l2: "last states = (state_at, state)" by (cases "last states")
  note l = l1 l2
  from assms have ne: "states \<noteq> []" "filter ?P outcomes \<noteq> []" by (auto simp: rearm_ready_def Let_def split: if_splits)
  let ?d = "or_empty (getf outcome ''decision'')"
  have r: "dget ?d ''verdict'' = Inr (PStr ''yun'')" "\<exists>v. dget ?d ''action'' = Inr v \<and> pyeq v (PDict [(''type'', PStr ''stop'')])"
    "''rejected'' \<notin> fst ` set outcome" "t < state_at" "getf state ''active'' = PNone"
    using assms ne l by (auto simp: rearm_ready_def Let_def rand_True_iff rbind_Inr_iff)
  then obtain d where d: "?d = PDict d" by (cases ?d) auto
  with r(1) have dd: "getf outcome ''decision'' = PDict d"
    by (auto simp: or_empty_def split: if_splits)
  have v: "getf d ''verdict'' = PStr ''yun''" "pyeq (getf d ''action'') (PDict [(''type'', PStr ''stop'')])"
    using r(1,2) d by (auto simp: getf_def split: option.splits)
  from last_filter_split [OF ne(2)] l(1) obtain pre post where "outcomes = pre @ (t, outcome) # post" "sent_at \<le> t" "\<forall>x\<in>set post. \<not> ?P x" by auto
  then show ?thesis unfolding off_decision_def using dd v r ne(1) l(2) by fastforce
qed

lemma dispatch_ready:
  assumes "gazebo_rearm_ready w sent_at now arm_joints nonces proposal_id = Inr True"
  shows "off_decision (aw_states w) (aw_outcomes w) sent_at \<and> recent now (fst (last (aw_states w))) \<and>
    guard_ready ''arm'' (aw_guards w) nonces sent_at now = Inr True \<and> guard_ready ''base'' (aw_base_guards w) nonces sent_at now = Inr True \<and>
    idle_lease (snd (last (aw_guards w))) sent_at now = Inr True \<and> robot_rest w now arm_joints"
  using assms rearm_off by (auto simp: gazebo_rearm_ready_def rand_True_iff)

end
