(* ===== verification/Evidence_Properties.thy ===== *)
theory Evidence_Properties
  imports Bench_Verdict Permit_Attempts Controller_Permits Stop_Evidence Dispatch_Evidence Rearm_Barrier
    "HOL-Library.Code_Target_Int" "HOL-Library.Code_Target_Nat"
begin

text \<open>
  The properties of the evidence: what a fail-closed verdict, a loss, a bounded series of attempts, a
  refused packet, a timing summary and a passed public report say of the events they were computed from.
\<close>

section \<open>The bench evidence\<close>

text \<open>
  A fail-closed verdict is earned: there is a last renewal and a later row from which the device
  stays OFF to the end of its log, for the accepted reason of the verdict, and the delay between them
  is at least the lease for a lapse and inside the observation window for a commanded stop; when the
  LED ever was ON, it was ON in the row before.
\<close>

theorem fail_closed_evidence:
  "case fail_closed_stop events accepted of
     None \<Rightarrow> True
   | Some ev \<Rightarrow> (\<exists>r i d n. r < i \<and> stopped_at events i \<and> getf (events ! i) ''reason'' = PStr (se_reason ev) \<and> se_reason ev \<in> set accepted \<and>
       getf (events ! i) ''device_ms'' = PInt d \<and> getf (events ! r) ''renewed_ms'' = PInt n \<and> se_delay ev = d - n \<and>
       (if se_reason ev \<in> {''lease'', ''unarmed''} then LEASE_MS \<le> d - n else 0 \<le> d - n \<and> d - n \<le> OBSERVATION_MS) \<and>
       (if se_positive ev then list_ex on events \<and> on (events ! (i - 1)) else \<not> list_ex on events))"
proof (cases "fail_closed_stop events accepted")
  case (Some ev)
  from fail_closed_sound [OF Some] obtain r i d n where s: "r < i" "stopped_at events i" "getf (events ! i) ''reason'' = PStr (se_reason ev)"
    "se_reason ev \<in> set accepted" "getf (events ! i) ''device_ms'' = PInt d" "getf (events ! r) ''renewed_ms'' = PInt n" "se_delay ev = d - n"
    "if se_reason ev \<in> {''lease'', ''unarmed''} then LEASE_MS \<le> d - n else 0 \<le> d - n \<and> d - n \<le> OBSERVATION_MS"
    "se_positive ev = list_ex on events" "se_positive ev \<longrightarrow> on (events ! (i - 1))" by metis
  have p: "if se_positive ev then list_ex on events \<and> on (events ! (i - 1)) else \<not> list_ex on events" using s(9,10) by simp
  show ?thesis unfolding Some option.case by (intro exI conjI) (rule s p)+
qed simp

section \<open>Bounded attempts\<close>

lemma inconclusive_before: "(\<forall>i. 1 \<le> i \<and> i < j \<longrightarrow> P i) \<longleftrightarrow> list_all P [1..<j]"
  by (auto simp: list_all_iff)

text \<open>
  A bench case passes with an attempt if and only if that attempt, one of the first three, passed
  and every earlier one was inconclusive: an inconclusive attempt is never a pass and a failed one is
  never retried.
\<close>

theorem bench_attempts_pass_iff:
  "fst (bench_attempts cs attempt device t) = Inr (a, j) \<longleftrightarrow>
   j \<in> {1, 2, 3} \<and> attempt (attempt_label cs j) = Passed a \<and> list_all (\<lambda>i. \<exists>e. attempt (attempt_label cs i) = Inconclusive e) [1..<j]"
  unfolding bench_attempts_def bench_retry.loop_passes_iff inconclusive_before by (auto simp: HOST_ATTEMPTS_def)

lemma attempts_evidenced:
  assumes "\<And>label. ev (run label) (attempt (run label))"
  shows "case fst (bench_attempts cs (\<lambda>label. attempt (run label)) device t) of
      Inl e \<Rightarrow> True
    | Inr (p, j) \<Rightarrow> j \<in> {1, 2, 3} \<and> ev (run (attempt_label cs j)) (Passed p) \<and>
        list_all (\<lambda>i. \<exists>l. attempt (run (attempt_label cs i)) = Inconclusive l \<and> ev (run (attempt_label cs i)) (Inconclusive l)) [1..<j]"
proof (cases "fst (bench_attempts cs (\<lambda>label. attempt (run label)) device t)")
  case (Inr pj)
  obtain p j where pj: "pj = (p, j)" by (cases pj)
  have "j \<in> {1, 2, 3}" "attempt (run (attempt_label cs j)) = Passed p" "list_all (\<lambda>i. \<exists>l. attempt (run (attempt_label cs i)) = Inconclusive l) [1..<j]"
    using Inr pj bench_attempts_pass_iff [of cs "\<lambda>label. attempt (run label)" device t p j] by simp_all
  moreover have "ev (run label) res" if "attempt (run label) = res" for label res using assms [of label] that by simp
  ultimately show ?thesis using Inr pj by (simp add: list_all_iff) metis
qed simp

text \<open>
  C37. A passed bench case shows the stop it claims. A host scenario of either bench passes only with one of
  its first three attempts, on a device that was lit, went OFF within 300 ms of its last renewal and showed
  no output after that to the end of its log: with the intended fault recorded as injected, or, where the
  process was interrupted, without a reported success (H1 also with a proven stop by the gate); every
  attempt before it was inconclusive, not interrupted after the positive control, and itself ended
  fail-closed in the device's rows.
\<close>

theorem bench_cases_evidenced:
  "(case fst (h1_case ld cs run1 device t) of
      Inl e \<Rightarrow> True
    | Inr (p, j) \<Rightarrow> j \<in> {1, 2, 3} \<and> h1_evidence (run1 (attempt_label cs j)) (Passed p) \<and>
        list_all (\<lambda>i. \<exists>l. h1_attempt ld (run1 (attempt_label cs i)) = Inconclusive l \<and> h1_evidence (run1 (attempt_label cs i)) (Inconclusive l)) [1..<j]) \<and>
   (case fst (h2_case ld cs run2 device t) of
      Inl e \<Rightarrow> True
    | Inr (p, j) \<Rightarrow> j \<in> {1, 2, 3} \<and> h2_evidence ld (run2 (attempt_label cs j)) (Passed p) \<and>
        list_all (\<lambda>i. \<exists>l. h2_attempt ld (run2 (attempt_label cs i)) = Inconclusive l \<and> h2_evidence ld (run2 (attempt_label cs i)) (Inconclusive l)) [1..<j])"
  using attempts_evidenced [where ev = h1_evidence and run = run1 and attempt = "h1_attempt ld" and cs = cs and device = device and t = t]
    attempts_evidenced [where ev = "h2_evidence ld" and run = run2 and attempt = "h2_attempt ld" and cs = cs and device = device and t = t]
    h1_attempt_sound h2_attempt_sound unfolding h1_case_def h2_case_def by blast

text \<open>
  The same for the controller-permit probes, with their record: the case passes exactly with a
  passed attempt behind inconclusive ones, and the log gains the inconclusive attempts and then one
  last row, which says passed exactly when the case did.
\<close>

theorem permit_attempts_pass_iff:
  "(fst (permit_attempts cs body l) = Inr (a, j) \<longleftrightarrow>
      j \<in> {1, 2, 3} \<and> body j = Passed a \<and> list_all (\<lambda>i. \<exists>e. body i = Inconclusive e) [1..<j]) \<and>
   (\<exists>rows row. al_attempts (snd (permit_attempts cs body l)) = al_attempts l @ rows @ [row] \<and>
      list_all (\<lambda>r. lr_outcome r = ''inconclusive'') rows \<and>
      lr_outcome row = (case fst (permit_attempts cs body l) of Inr _ \<Rightarrow> ''passed'' | Inl _ \<Rightarrow> ''failed''))"
  unfolding permit_attempts_def permit_retry.loop_passes_iff inconclusive_before
  using permit_attempts_logged [of cs body 1 PERMIT_MAX_ATTEMPTS l] by (auto simp: PERMIT_MAX_ATTEMPTS_def)

section \<open>The controller-permit probes\<close>

text \<open>
  A permit the gate signed is read back by the probes: the public fields of its wire text are the
  target and kind, number and four times it was signed with.
\<close>

theorem permit_token_roundtrip:
  assumes "CHR '':'' \<notin> set (p_target p @ p_kind p @ p_nonce p @ p_digest p)"
  shows "permit_fields (PStr (permit_token ed p)) =
    Inr \<lparr>pf_kind = p_target p @ ''-'' @ p_kind p, pf_seq = p_seq p, pf_sim = p_sim p, pf_wall = p_wall p,
         pf_sim_end = p_sim_end p, pf_wall_end = p_wall_end p\<rparr>"
proof -
  let ?ws = "[''v1'', p_target p @ ''-'' @ p_kind p, p_nonce p, show_int (p_seq p), show_int (p_sim p), show_int (p_wall p),
    show_int (p_sim_end p), show_int (p_wall_end p), p_digest p, to_hex (ed (PERMIT_DOMAIN @ permit_body p))]"
  have t: "permit_token ed p = join_with (CHR '':'') ?ws" by (simp add: permit_token_def permit_body_def)
  have n: "CHR '':'' \<notin> set (show_int k)" for k using show_int_chars [of "CHR '':''" k] by (auto simp: is_digit_def)
  have h: "CHR '':'' \<notin> set (to_hex s)" for s using to_hex_is_hex [of s] by (auto simp: is_hex_def list_all_iff is_hexdig_def)
  have "split_on (CHR '':'') (permit_token ed p) = ?ws"
    unfolding t using assms n h by (intro split_join) auto
  then show ?thesis by (simp add: permit_fields_def Let_def py_int_show_int numeral_eq_Suc)
qed

definition demo_view :: permit where
  "demo_view = \<lparr>p_target = ''base'', p_kind = ''action'', p_nonce = ''ab'', p_seq = 3, p_sim = 10, p_wall = 20, p_sim_end = 30, p_wall_end = 40, p_digest = ''cd''\<rparr>"

theorem permit_token_roundtrip_witness:
  "permit_fields (PStr (permit_token (\<lambda>m. ''sig'') demo_view)) =
    Inr \<lparr>pf_kind = p_target demo_view @ ''-'' @ p_kind demo_view, pf_seq = p_seq demo_view, pf_sim = p_sim demo_view, pf_wall = p_wall demo_view,
         pf_sim_end = p_sim_end demo_view, pf_wall_end = p_wall_end demo_view\<rparr>"
  by (rule permit_token_roundtrip) (simp add: demo_view_def)

text \<open>
  A refused packet is witnessed: \<^verbatim>\<open>refusal\<close> returns a row only when that row was published after the
  packet left, counts exactly one more refusal for the expected reason, and some row from it on shows
  the controller holding for that reason; the nonce and the accepted count stayed as they were in every
  row the scan looked at, and a hold of the arm is told apart from the end of its lease.
\<close>

theorem refusal_witnessed:
  "case refusal target rows w expected timing governing stage after of
     Passed (Some (row, h)) \<Rightarrow> (\<exists>i<length rows. row = rows ! i \<and> refusal_row w expected row \<and>
       list_all (\<lambda>r. if looked_at w r then unchanged w r else True) rows \<and>
       list_ex (\<lambda>r. getf r ''holding'' = PBool True \<and> getf r ''reason'' = PStr expected) (drop i rows) \<and>
       (if target = ''arm'' \<and> after \<noteq> None then (\<exists>hold g. h = Some hold \<and> governing = Some g \<and> \<not> hold_at_lease_end hold g) else True))
   | _ \<Rightarrow> True"
proof (cases "\<exists>row h. refusal target rows w expected timing governing stage after = Passed (Some (row, h))")
  case True
  then obtain row h where r: "refusal target rows w expected timing governing stage after = Passed (Some (row, h))" by blast
  from refusal_sound [OF r] show ?thesis by (auto simp: r list_all_iff list_ex_iff)
next
  case False
  then show ?thesis by (auto split: outcome.split option.split)
qed

section \<open>The simulator faults\<close>

text \<open>
  C38. Lost coverage passes only through the perception rule: with \<^verbatim>\<open>require_perception\<close> a sensor stop is
  reported only for a revocation in the engine's own log that names \<^verbatim>\<open>perception-unknown\<close>, whose latest
  accepted world had confidence zero and was recorded after the fault, together with a zero command
  received after the fault and stamped no earlier than the revocation.
\<close>

theorem coverage_stop_by_perception:
  "case sensor_stop_report ld lg states outcomes zeros since since_ms True of
     Inr (Some s) \<Rightarrow> perception_stop ld (PNone, PNone) zeros since since_ms (splitlines lg) s
   | _ \<Rightarrow> True"
  using sensor_stop_sound [of ld lg states outcomes zeros since since_ms] by (auto split: sum.split option.split)

text \<open>
  C39. An attempt is set aside as a world-authority cut only on full evidence: the gate's outcomes show a
  named cut with no other rejection or denial before it and an unknown world after it, the engine's log
  shows the same rejection first, at once its denied stop and then that world with nothing allowed in
  between, the gate is disarmed, no command moved after the stop and a zero followed the last motion.
\<close>

theorem coverage_cut_evidenced:
  "case coverage_cut_first ld lg states outcomes zeros commands published since since_ms of
     Inr (Some ev) \<Rightarrow> outcome_cut published since (ce_seen ev) outcomes \<and>
       cut_order (cs_error (ce_seen ev)) (cs_stamp (ce_seen ev)) (engine_entries ld since_ms (splitlines lg)) \<and>
       latest_disarmed states (cs_cut_at (ce_seen ev)) \<and> motion_after_stop states commands since = [] \<and>
       (\<exists>sim. (ce_zero_at ev, sim) \<in> set zeros) \<and> last_motion commands since < ce_zero_at ev \<and> list_ex (\<lambda>z. cs_cut_at (ce_seen ev) \<le> fst z) zeros
   | _ \<Rightarrow> True"
proof (cases "\<exists>ev. coverage_cut_first ld lg states outcomes zeros commands published since since_ms = Inr (Some ev)")
  case True
  then obtain ev where e: "coverage_cut_first ld lg states outcomes zeros commands published since since_ms = Inr (Some ev)" by blast
  from coverage_cut_sound [OF e] show ?thesis unfolding e sum.case option.case list_ex_iff by blast
next
  case False
  then show ?thesis by (auto split: sum.split option.split)
qed

text \<open>
  C40. A denial is attributed exactly: the log is one chain of records with rising numbers and times that do not
  fall, exactly one proposal record in it matches the dispatch, and the record right after it, at the
  same time, denies that proposal with no action and between 1 and 64 named rules.
\<close>

theorem denial_attributed_exactly:
  "case dispatch_denial ld content pts binding sent of
     Inr (Exact n fired ps ds ts st) \<Rightarrow> (\<exists>lg records. content = Inr lg \<and>
       read_chain ld 0 (replicate 64 (CHR ''0'')) 0 (splitlines lg) = Inr (Some records) \<and>
       sorted (map entry_time records) \<and> sorted_wrt (<) (map (\<lambda>r. the_int (getf r ''seq'')) records) \<and>
       denied_exactly binding (expected_action pts) (the_int sent) records (Exact n fired ps ds ts st))
   | _ \<Rightarrow> True"
proof (cases "\<exists>n fired ps ds ts st. dispatch_denial ld content pts binding sent = Inr (Exact n fired ps ds ts st)")
  case True
  then obtain n fired ps ds ts st where e: "dispatch_denial ld content pts binding sent = Inr (Exact n fired ps ds ts st)" by blast
  from dispatch_exact [OF e] show ?thesis unfolding e sum.case attribution.case using read_chain_sorted by blast
next
  case False
  then show ?thesis by (auto split: sum.split attribution.split)
qed

section \<open>The reports\<close>

text \<open>
  A public report says passed if and only if the run was not marked failed, reports success itself,
  and every check of its profile passed; a run that produced nothing never passes.
\<close>

theorem report_passed_iff:
  "pr_status (report result revision run_id fl) = ''passed'' \<longleftrightarrow>
   \<not> fl \<and> is_true (mapping result) ''ok'' \<and> list_all (\<lambda>c. ck_status c = ''passed'') (pr_checks (report result revision run_id fl))"
proof (cases "getf (mapping result) ''profile'' = PStr ''household_hazards''")
  case True
  then show ?thesis
    by (auto simp: report_def household_report_def household_status_def Let_def list_all_iff list_ex_iff)
next
  case False
  have "mapping result = [] \<Longrightarrow> \<not> list_all (\<lambda>c. ck_status c = ''passed'') (reference_checks (mapping result))"
    by (simp add: reference_checks_def check_permits_def Let_def getf_def)
  with False show ?thesis
    by (auto simp: report_def reference_status_def Let_def list_all_iff list_ex_iff)
qed

lemma uint_field_PInt: "uint_field n r k = Some i \<Longrightarrow> getf r k = PInt i"
  by (cases "getf r k") (auto simp: uint_field_def split: if_splits)

lemma uint_fields_PInt: "uint_fields n r ks = Some is \<Longrightarrow> map (getf r) ks = map PInt is"
  by (induction ks arbitrary: "is") (auto split: option.splits dest: uint_field_PInt)

lemma negative_counts:
  assumes "negative_row_passed t c value"
  shows "let w = mapping (getf (mapping value) ''negative_admission'') in
    getf w ''nonce_before'' = getf w ''nonce_after'' \<and>
    (\<exists>ab rb rej le. getf w ''accepted_before'' = PInt ab \<and> getf w ''accepted_after'' = PInt ab \<and>
       getf w ''rejected_before'' = PInt rb \<and> getf w ''rejected_after'' = PInt (rb + 1) \<and>
       getf w ''rejection_published_wall_ns'' = PInt rej \<and> getf w ''lease_wall_end_ns'' = PInt le \<and> rej < le)"
proof -
  let ?w = "mapping (getf (mapping value) ''negative_admission'')"
  from assms have "negative_permit_rejected (getf (mapping value) ''negative_admission'') c" by (simp add: negative_row_passed_def Let_def)
  then obtain ab aa rb ra before sent rej le where
    u: "uint_fields 63 ?w [''accepted_before'', ''accepted_after'', ''rejected_before'', ''rejected_after'',
             ''before_published_wall_ns'', ''sent_wall_ns'', ''rejection_published_wall_ns'', ''lease_wall_end_ns''] = Some [ab, aa, rb, ra, before, sent, rej, le]"
    and v: "getf ?w ''nonce_before'' = getf ?w ''nonce_after''" "aa = ab" "ra = rb + 1" "rej < le"
    unfolding negative_permit_rejected_def Let_def by (auto split: option.split_asm list.split_asm)
  from uint_fields_PInt [OF u] v show ?thesis by (simp add: Let_def)
qed

text \<open>
  When the controller-permit check of a report passed, every planned attack row shows a refusal: the
  nonce and the number of accepted permits did not change, the number of refusals went up by one, and
  the refusal was published before the lease the packet tried to use could end on its own.
\<close>

theorem permits_check_refused:
  "if ck_status (check_permits result) = ''passed''
   then list_all (\<lambda>(t, c). let w = mapping (getf (mapping (getf (mapping (getf (mapping (getf result ''controller_permits'')) ''checks'')) (t @ ''_'' @ c))) ''negative_admission'') in
      getf w ''nonce_before'' = getf w ''nonce_after'' \<and>
      (\<exists>ab rb rej le. getf w ''accepted_before'' = PInt ab \<and> getf w ''accepted_after'' = PInt ab \<and>
         getf w ''rejected_before'' = PInt rb \<and> getf w ''rejected_after'' = PInt (rb + 1) \<and>
         getf w ''rejection_published_wall_ns'' = PInt rej \<and> getf w ''lease_wall_end_ns'' = PInt le \<and> rej < le)) PERMIT_NEGATIVES
   else True"
proof -
  let ?permits = "mapping (getf result ''controller_permits'')"
  have "permits_passed ?permits (mapping (getf ?permits ''checks''))" if "ck_status (check_permits result) = ''passed''"
    using that by (simp add: check_permits_def Let_def)
  then have "ck_status (check_permits result) = ''passed'' \<Longrightarrow> (t, c) \<in> set PERMIT_NEGATIVES \<Longrightarrow>
      negative_row_passed t c (getf (mapping (getf ?permits ''checks'')) (t @ ''_'' @ c))" for t c
    by (rule permits_all_refused)
  from negative_counts [OF this] show ?thesis unfolding list_all_iff by auto
qed

end
