(* ===== verification/Perception.thy ===== *)
theory Perception
  imports Log_Text
begin

text \<open>
  Conservative occupancy from the bay's lidar (\<^verbatim>\<open>ros/gazebo/lidar_perception.py\<close>): the decoding of a
  scan, the receiver that keeps the latest frames, and the snapshot the world message is built from.
  The cosine and sine of the platform are the parameter \<open>tr\<close>; sums, products and distances of doubles
  are exact rationals, so a distance is compared by its square; a length in metres is its decimal value.
\<close>

section \<open>Scans and frames\<close>

record scan_msg =
  sm_frame :: string
  sm_sec :: int
  sm_nsec :: int
  sm_count :: int
  sm_vertical_count :: int
  sm_ranges :: "float64 list"
  sm_angle_min :: float64
  sm_angle_max :: float64
  sm_angle_step :: float64
  sm_range_min :: float64
  sm_range_max :: float64
  sm_vertical_min :: float64
  sm_vertical_max :: float64
  sm_position :: "float64 \<times> float64 \<times> float64"
  sm_orientation :: "float64 \<times> float64 \<times> float64 \<times> float64"

type_synonym point = "rat \<times> rat"

record scan_frame =
  fr_stamp :: int
  fr_received :: rat
  fr_points :: "point list"
  fr_healthy :: bool
  fr_reason :: string

definition SCANNER :: "rat \<times> rat \<times> rat" where "SCANNER = (3, 5, 116 / 100)"
definition CALIBRATION :: point where "CALIBRATION = (3, 7)"
definition BAY :: "rat \<times> rat \<times> rat \<times> rat" where "BAY = (1, 10, 1, 10)"
definition COVERAGE_MARGIN_M :: rat where "COVERAGE_MARGIN_M = 3 / 2"
definition COUNT :: int where "COUNT = 720"
definition MAX_AGE_MS :: int where "MAX_AGE_MS = 200"

definition dist2 :: "point \<Rightarrow> point \<Rightarrow> rat" where
  "dist2 p q = (fst p - fst q)\<^sup>2 + (snd p - snd q)\<^sup>2"

text \<open>The double \<^verbatim>\<open>math.pi\<close>\<close>

definition PI :: rat where "PI = f_val 0x400921FB54442D18"

definition near :: "rat \<Rightarrow> rat \<Rightarrow> rat \<Rightarrow> bool" where
  "near a b tol \<longleftrightarrow> \<bar>a - b\<bar> < tol"

definition scan_stamp :: "scan_msg \<Rightarrow> int" where
  "scan_stamp m = sm_sec m * 1000 + sm_nsec m div 1000000"

definition shape_ok :: "scan_msg \<Rightarrow> bool" where
  "shape_ok m \<longleftrightarrow> sm_frame m = ''bay_lidar::sensor::bay_scan'' \<and> 0 < scan_stamp m \<and> sm_count m = COUNT \<and> sm_vertical_count m = 1 \<and>
     int (length (sm_ranges m)) = COUNT"

definition calibration_ok :: "scan_msg \<Rightarrow> bool" where
  "calibration_ok m \<longleftrightarrow>
     list_all isfinite [sm_angle_min m, sm_angle_max m, sm_angle_step m, sm_range_min m, sm_range_max m, sm_vertical_min m, sm_vertical_max m] \<and>
     near (f_val (sm_angle_min m)) (- PI) (1 / 10 ^ 5) \<and> near (f_val (sm_angle_max m)) PI (1 / 10 ^ 5) \<and>
     near (f_val (sm_angle_step m)) (2 * PI / of_int (COUNT - 1)) (1 / 10 ^ 6) \<and>
     near (f_val (sm_range_min m)) (1 / 10) (1 / 10 ^ 5) \<and> near (f_val (sm_range_max m)) 10 (1 / 10 ^ 5) \<and>
     near (f_val (sm_vertical_min m)) 0 (1 / 10 ^ 5) \<and> near (f_val (sm_vertical_max m)) 0 (1 / 10 ^ 5)"

definition pose_ok :: "scan_msg \<Rightarrow> bool" where
  "pose_ok m \<longleftrightarrow>
     (case (sm_position m, sm_orientation m, SCANNER) of ((x, y, z), (ox, oy, oz, ow), (sx, sy, sz)) \<Rightarrow>
        list_all isfinite [x, y, z, ox, oy, oz, ow] \<and>
        \<bar>f_val x - sx\<bar> \<le> 1 / 100 \<and> \<bar>f_val y - sy\<bar> \<le> 1 / 100 \<and> \<bar>f_val z - sz\<bar> \<le> 1 / 100 \<and>
        \<bar>f_val ox\<bar> \<le> 1 / 1000 \<and> \<bar>f_val oy\<bar> \<le> 1 / 1000 \<and> \<bar>f_val oz\<bar> \<le> 1 / 1000 \<and> \<bar>f_val ow - 1\<bar> \<le> 1 / 1000)"

definition in_bay :: "point \<Rightarrow> bool" where
  "in_bay p \<longleftrightarrow> (case BAY of (x0, x1, y0, y1) \<Rightarrow> x0 \<le> fst p \<and> fst p \<le> x1 \<and> y0 \<le> snd p \<and> snd p \<le> y1)"

definition no_return :: "float64 \<Rightarrow> bool" where
  "no_return w \<longleftrightarrow> \<not> isfinite w \<and> \<not> isnan w \<and> \<not> f_neg w"

definition beam_point :: "(rat \<Rightarrow> rat \<times> rat) \<Rightarrow> scan_msg \<Rightarrow> nat \<Rightarrow> float64 \<Rightarrow> point" where
  "beam_point tr m i w =
     (case (tr (f_val (sm_angle_min m) + of_nat i * f_val (sm_angle_step m)), SCANNER) of
        ((c, s), (sx, sy, _)) \<Rightarrow> (sx + f_val w * c, sy + f_val w * s))"

text \<open>The loop over the ranges from beam \<open>i\<close>: \<open>None\<close> is an invalid range; else the returns in the bay and whether the marker was seen.\<close>

fun scan_ranges :: "(rat \<Rightarrow> rat \<times> rat) \<Rightarrow> scan_msg \<Rightarrow> nat \<Rightarrow> float64 list \<Rightarrow> (point list \<times> bool) option" where
  "scan_ranges tr m i [] = Some ([], False)"
| "scan_ranges tr m i (w # ws) =
     (if no_return w then scan_ranges tr m (Suc i) ws
      else if \<not> isfinite w \<or> \<not> (f_val (sm_range_min m) \<le> f_val w \<and> f_val w \<le> f_val (sm_range_max m)) then None
      else let p = beam_point tr m i w in
        (case scan_ranges tr m (Suc i) ws of
           None \<Rightarrow> None
         | Some (ps, marker) \<Rightarrow>
             if dist2 p CALIBRATION < (12 / 100)\<^sup>2 then Some (ps, True)
             else Some (if in_bay p then p # ps else ps, marker)))"

definition decode_scan :: "(rat \<Rightarrow> rat \<times> rat) \<Rightarrow> scan_msg \<Rightarrow> rat \<Rightarrow> scan_frame" where
  "decode_scan tr m received =
     (let bad = (\<lambda>reason. \<lparr>fr_stamp = scan_stamp m, fr_received = received, fr_points = [], fr_healthy = False, fr_reason = reason\<rparr>) in
      if \<not> shape_ok m then bad ''invalid scan shape or timestamp''
      else if \<not> calibration_ok m then bad ''unexpected scan calibration''
      else if \<not> pose_ok m then bad ''unexpected sensor pose''
      else (case scan_ranges tr m 0 (sm_ranges m) of
          None \<Rightarrow> bad ''invalid range''
        | Some (ps, marker) \<Rightarrow>
            \<lparr>fr_stamp = scan_stamp m, fr_received = received, fr_points = ps, fr_healthy = marker,
             fr_reason = (if marker then ''ok'' else ''calibration target missing'')\<rparr>))"

section \<open>The receiver\<close>

record perception =
  pc_frame :: "scan_frame option"
  pc_history :: "scan_frame list"
  pc_drop :: bool
  pc_frames :: nat

definition HISTORY_LIMIT :: nat where "HISTORY_LIMIT = 16"

definition perception_init :: perception where
  "perception_init = \<lparr>pc_frame = None, pc_history = [], pc_drop = False, pc_frames = 0\<rparr>"

definition receive_scan :: "(rat \<Rightarrow> rat \<times> rat) \<Rightarrow> scan_msg \<Rightarrow> rat \<Rightarrow> perception \<Rightarrow> perception" where
  "receive_scan tr m now p =
     (if pc_drop p then p
      else let f = decode_scan tr m now in
        (case pc_frame p of
           Some g \<Rightarrow> if fr_stamp f \<le> fr_stamp g then p
                     else p\<lparr>pc_frame := Some f, pc_history := deque_push HISTORY_LIMIT f (pc_history p), pc_frames := Suc (pc_frames p)\<rparr>
         | None \<Rightarrow> p\<lparr>pc_frame := Some f, pc_history := deque_push HISTORY_LIMIT f (pc_history p), pc_frames := Suc (pc_frames p)\<rparr>))"

text \<open>What happens to the receiver: a scan, or the test switching its feed off and on.\<close>

datatype scan_event = Scan scan_msg rat | SetDrop bool

fun on_scan :: "(rat \<Rightarrow> rat \<times> rat) \<Rightarrow> scan_event \<Rightarrow> perception \<Rightarrow> perception" where
  "on_scan tr (Scan m now) p = receive_scan tr m now p"
| "on_scan tr (SetDrop b) p = p\<lparr>pc_drop := b\<rparr>"

definition perceived :: "(rat \<Rightarrow> rat \<times> rat) \<Rightarrow> scan_event list \<Rightarrow> perception" where
  "perceived tr es = fold (on_scan tr) es perception_init"

section \<open>The snapshot\<close>

text \<open>The newest frame that is not from the future, else the latest.\<close>

definition eligible_frame :: "int \<Rightarrow> perception \<Rightarrow> scan_frame option" where
  "eligible_frame now_ms p = (case List.find (\<lambda>f. fr_stamp f \<le> now_ms) (rev (pc_history p)) of Some f \<Rightarrow> Some f | None \<Rightarrow> pc_frame p)"

definition bay_covers :: "point \<Rightarrow> bool" where
  "bay_covers robot \<longleftrightarrow>
     (case BAY of (x0, x1, y0, y1) \<Rightarrow> x0 + COVERAGE_MARGIN_M \<le> fst robot \<and> fst robot \<le> x1 - COVERAGE_MARGIN_M \<and>
        y0 + COVERAGE_MARGIN_M \<le> snd robot \<and> snd robot \<le> y1 - COVERAGE_MARGIN_M)"

definition fresh_frame :: "int \<Rightarrow> rat \<Rightarrow> scan_frame \<Rightarrow> bool" where
  "fresh_frame now_ms wall f \<longleftrightarrow> fr_healthy f \<and> 0 \<le> now_ms - fr_stamp f \<and> now_ms - fr_stamp f < MAX_AGE_MS \<and>
     0 \<le> wall - fr_received f \<and> wall - fr_received f < of_int MAX_AGE_MS / 1000"

text \<open>Clusters of consecutive returns: a gap of more than 0.16 m starts a new one.\<close>

fun cluster_from :: "point list \<Rightarrow> point list \<Rightarrow> point list list" where
  "cluster_from cur [] = [cur]"
| "cluster_from cur (p # ps) = (if dist2 (last cur) p > (16 / 100)\<^sup>2 then cur # cluster_from [p] ps else cluster_from (cur @ [p]) ps)"

definition clusters :: "point list \<Rightarrow> point list list" where
  "clusters ps = (case ps of [] \<Rightarrow> [] | p # rest \<Rightarrow> cluster_from [p] rest)"

text \<open>\<^verbatim>\<open>min(cluster, key=...)\<close>: the first of the nearest.\<close>

fun nearest :: "point \<Rightarrow> point \<Rightarrow> point list \<Rightarrow> point" where
  "nearest robot best [] = best"
| "nearest robot best (p # ps) = nearest robot (if dist2 p robot < dist2 best robot then p else best) ps"

record sensor_info =
  si_healthy :: bool
  si_reason :: string
  si_stamp :: "int option"
  si_age :: "int option"
  si_returns :: nat
  si_frames :: nat

record occupancy =
  oc_humans :: "point list"
  oc_confident :: bool
  oc_info :: sensor_info

definition snapshot_points :: "int \<Rightarrow> rat \<Rightarrow> point \<Rightarrow> scan_frame option \<Rightarrow> bool \<times> string \<times> point list" where
  "snapshot_points now_ms wall robot frame =
     (let (healthy, reason, points) =
        (case frame of
           None \<Rightarrow> (False, ''no sensor frame'', [])
         | Some f \<Rightarrow>
             (let ok = fresh_frame now_ms wall f in
              (ok, if fr_healthy f \<and> \<not> ok then ''sensor frame stale or clock inconsistent'' else fr_reason f, if ok then fr_points f else []))) in
      if bay_covers robot then (healthy, reason, points) else (False, ''robot outside calibrated bay'', []))"

definition occupancy_snapshot :: "int \<Rightarrow> rat \<Rightarrow> point \<Rightarrow> perception \<Rightarrow> occupancy" where
  "occupancy_snapshot now_ms wall robot p =
     (let frame = eligible_frame now_ms p; (healthy, reason, points) = snapshot_points now_ms wall robot frame in
      \<lparr>oc_humans = map (\<lambda>c. nearest robot (hd c) (tl c)) (clusters points), oc_confident = healthy,
       oc_info = \<lparr>si_healthy = healthy, si_reason = reason, si_stamp = map_option fr_stamp frame, si_age = map_option (\<lambda>f. now_ms - fr_stamp f) frame,
         si_returns = length points, si_frames = pc_frames p\<rparr>\<rparr>)"

section \<open>Lemmas\<close>

lemma nearest_min: "nearest robot best ps \<in> set (best # ps) \<and> (\<forall>p\<in>set (best # ps). dist2 (nearest robot best ps) robot \<le> dist2 p robot)"
proof (induction robot best ps rule: nearest.induct)
  case (2 robot best p ps)
  let ?b = "if dist2 p robot < dist2 best robot then p else best"
  have "dist2 ?b robot \<le> dist2 p robot" "dist2 ?b robot \<le> dist2 best robot" "?b \<in> {p, best}" by auto
  with 2 show ?case by (fastforce split: if_splits)
qed simp

lemma cluster_concat: "concat (cluster_from cur ps) = cur @ ps"
  by (induction cur ps rule: cluster_from.induct) auto

lemma cluster_nonempty: "cur \<noteq> [] \<Longrightarrow> c \<in> set (cluster_from cur ps) \<Longrightarrow> c \<noteq> []"
  by (induction cur ps rule: cluster_from.induct) (auto split: if_splits)

lemma clusters_partition: "concat (clusters ps) = ps \<and> (\<forall>c\<in>set (clusters ps). c \<noteq> [])"
  by (cases ps) (auto simp: clusters_def cluster_concat dest: cluster_nonempty [rotated])

text \<open>No return is farther than the obstacle reported for it, and every obstacle is a return.\<close>

lemma clusters_conservative:
  assumes "p \<in> set ps"
  shows "\<exists>h\<in>set (map (\<lambda>c. nearest robot (hd c) (tl c)) (clusters ps)). h \<in> set ps \<and> dist2 h robot \<le> dist2 p robot"
proof -
  from assms obtain c where c: "c \<in> set (clusters ps)" "p \<in> set c" using clusters_partition [of ps] by (metis UN_E set_concat)
  then have "c \<noteq> []" by auto
  then have "c = hd c # tl c" by simp
  with nearest_min [of robot "hd c" "tl c"] c(2) have n: "nearest robot (hd c) (tl c) \<in> set c" "dist2 (nearest robot (hd c) (tl c)) robot \<le> dist2 p robot" by metis+
  have "set c \<subseteq> set ps" using c(1) clusters_partition [of ps] by (metis UN_upper set_concat)
  with c(1) n show ?thesis by auto
qed

text \<open>The kept frames have rising stamps, the latest frame last.\<close>

definition perception_ok :: "perception \<Rightarrow> bool" where
  "perception_ok p \<longleftrightarrow> sorted_wrt (<) (map fr_stamp (pc_history p)) \<and> length (pc_history p) \<le> HISTORY_LIMIT \<and>
     (case pc_frame p of None \<Rightarrow> pc_history p = [] | Some f \<Rightarrow> pc_history p \<noteq> [] \<and> last (pc_history p) = f)"

lemma receive_ok: "perception_ok p \<Longrightarrow> perception_ok (receive_scan tr m now p)"
proof -
  assume ok: "perception_ok p"
  have push: "perception_ok (p\<lparr>pc_frame := Some f, pc_history := deque_push HISTORY_LIMIT f (pc_history p), pc_frames := n\<rparr>)"
    if "\<forall>g\<in>set (pc_history p). fr_stamp g < fr_stamp f" for f n
    using ok that deque_push_last [of HISTORY_LIMIT f "pc_history p"] deque_push_length [of HISTORY_LIMIT f "pc_history p"]
    by (auto simp: perception_ok_def sorted_wrt_map HISTORY_LIMIT_def intro!: deque_push_sorted)
  have old: "fr_stamp g \<le> fr_stamp f" if "pc_frame p = Some f" "g \<in> set (pc_history p)" for f g
  proof (cases "pc_history p" rule: rev_cases)
    case (snoc hs l)
    with ok that show ?thesis by (auto simp: perception_ok_def sorted_wrt_append less_imp_le)
  qed (use that in simp)
  show ?thesis
  proof (cases "pc_frame p")
    case None
    with ok have "pc_history p = []" by (simp add: perception_ok_def)
    with push None ok show ?thesis by (simp add: receive_scan_def Let_def)
  next
    case (Some g)
    show ?thesis
    proof (cases "fr_stamp (decode_scan tr m now) \<le> fr_stamp g")
      case True
      with Some ok show ?thesis by (simp add: receive_scan_def Let_def)
    next
      case False
      with old [OF Some] have "\<forall>h\<in>set (pc_history p). fr_stamp h < fr_stamp (decode_scan tr m now)" by fastforce
      from push [OF this] Some ok False show ?thesis by (simp add: receive_scan_def Let_def)
    qed
  qed
qed

lemma healthy_frame: "fr_healthy (decode_scan tr m now) \<Longrightarrow> shape_ok m \<and> calibration_ok m \<and> pose_ok m"
  by (auto simp: decode_scan_def Let_def split: if_splits)

lemma snapshot_confident:
  assumes "oc_confident (occupancy_snapshot now_ms wall robot p)"
  shows "\<exists>f. eligible_frame now_ms p = Some f \<and> fresh_frame now_ms wall f \<and> bay_covers robot \<and>
    (\<forall>q\<in>set (fr_points f). \<exists>h\<in>set (oc_humans (occupancy_snapshot now_ms wall robot p)). h \<in> set (fr_points f) \<and> dist2 h robot \<le> dist2 q robot)"
proof -
  from assms obtain f where f: "eligible_frame now_ms p = Some f" "fresh_frame now_ms wall f" "bay_covers robot"
    by (auto simp: occupancy_snapshot_def snapshot_points_def Let_def split: option.splits if_splits prod.splits)
  then have "oc_humans (occupancy_snapshot now_ms wall robot p) = map (\<lambda>c. nearest robot (hd c) (tl c)) (clusters (fr_points f))"
    by (simp add: occupancy_snapshot_def snapshot_points_def Let_def)
  with f clusters_conservative show ?thesis by metis
qed

lemma unconfident_empty: "\<not> oc_confident (occupancy_snapshot now_ms wall robot p) \<Longrightarrow> oc_humans (occupancy_snapshot now_ms wall robot p) = []"
  by (auto simp: occupancy_snapshot_def snapshot_points_def clusters_def Let_def split: option.splits if_splits prod.splits)

text \<open>Every kept frame is the decoding of a scan that came in.\<close>

definition from_scans :: "(rat \<Rightarrow> rat \<times> rat) \<Rightarrow> scan_event list \<Rightarrow> perception \<Rightarrow> bool" where
  "from_scans tr es p \<longleftrightarrow> (\<forall>f\<in>set (pc_history p). \<exists>m t. Scan m t \<in> set es \<and> f = decode_scan tr m t)"

lemma receive_history: "set (pc_history (receive_scan tr m now p)) \<subseteq> insert (decode_scan tr m now) (set (pc_history p))"
  using deque_push_set [of HISTORY_LIMIT "decode_scan tr m now" "pc_history p"]
  by (auto simp: receive_scan_def Let_def split: option.splits if_splits)

lemma perceived_ok: "perception_ok (perceived tr es) \<and> from_scans tr es (perceived tr es)"
proof (induction es rule: rev_induct)
  case Nil
  show ?case by (simp add: perceived_def perception_init_def perception_ok_def from_scans_def)
next
  case (snoc e es)
  have run: "perceived tr (es @ [e]) = on_scan tr e (perceived tr es)" by (simp add: perceived_def)
  show ?case
  proof (cases e)
    case (Scan m t)
    have "from_scans tr (es @ [e]) (receive_scan tr m t (perceived tr es))"
      using snoc receive_history [of tr m t "perceived tr es"] Scan unfolding from_scans_def by fastforce
    with snoc run Scan receive_ok show ?thesis by simp
  next
    case (SetDrop b)
    with snoc run show ?thesis by (auto simp: perception_ok_def from_scans_def split: option.splits)
  qed
qed

text \<open>The frame of a confident snapshot is the newest kept one that is not from the future.\<close>

lemma eligible_in_history: "perception_ok p \<Longrightarrow> eligible_frame now_ms p = Some f \<Longrightarrow> f \<in> set (pc_history p)"
  unfolding perception_ok_def eligible_frame_def
  by (auto simp: find_Some_iff in_set_conv_nth split: option.splits)
     (metis length_rev nth_mem set_rev in_set_conv_nth last_in_set)+

lemma eligible_newest:
  assumes "perception_ok p" and "eligible_frame now_ms p = Some f" and "fr_stamp f \<le> now_ms" and "g \<in> set (pc_history p)" and "fr_stamp g \<le> now_ms"
  shows "fr_stamp g \<le> fr_stamp f"
proof -
  have "List.find (\<lambda>f. fr_stamp f \<le> now_ms) (rev (pc_history p)) \<noteq> None" using assms(4,5) by (auto simp: find_None_iff)
  with assms(2) have "List.find (\<lambda>f. fr_stamp f \<le> now_ms) (rev (pc_history p)) = Some f" by (auto simp: eligible_frame_def)
  then obtain i where i: "i < length (rev (pc_history p))" "f = rev (pc_history p) ! i" "\<forall>j<i. \<not> fr_stamp (rev (pc_history p) ! j) \<le> now_ms"
    by (auto simp: find_Some_iff)
  obtain j where j: "j < length (rev (pc_history p))" "g = rev (pc_history p) ! j" using assms(4) by (metis in_set_conv_nth set_rev)
  with i assms(5) have "i \<le> j" by (metis not_le)
  moreover have "sorted_wrt (\<lambda>a b. fr_stamp b < fr_stamp a) (rev (pc_history p))"
    using assms(1) by (simp add: perception_ok_def sorted_wrt_map sorted_wrt_rev)
  ultimately show ?thesis using i(1,2) j by (cases "i = j") (auto simp: sorted_wrt_iff_nth_less less_imp_le)
qed

end
