(* ===== verification/Live_Hub.thy ===== *)
theory Live_Hub
  imports Public_Report
begin

text \<open>
  The browser stream of the running reference (\<^verbatim>\<open>ros/gazebo/live_stream.py\<close>): the hub that numbers,
  keeps and replays messages, its checkpoints and its failure latch, and the HTTP handler in front of
  it. Every method of the hub runs under its condition, so a method is one step. The message dicts of
  the callers carry no \<^verbatim>\<open>id\<close> of their own; fresh tokens and the revision of the environment are
  parameters; sockets and static files are not modelled.
\<close>

section \<open>The hub\<close>

record hub_row =
  hr_id :: int
  hr_body :: row

record hub =
  hb_household :: bool
  hb_messages :: "hub_row list"
  hb_milestones :: "hub_row list"
  hb_sequence :: int
  hb_session :: string
  hb_viewers :: int
  hb_viewer_seen :: bool
  hb_started :: bool
  hb_checkpoint :: "string option"
  hb_checkpoint_state :: "hub_row option"
  hb_failure :: "hub_row option"
  hb_ready :: bool
  hb_report :: "public_report option"
  hb_hazard :: "hub_row option"

definition MESSAGE_LIMIT :: nat where "MESSAGE_LIMIT = 512"
definition MILESTONE_LIMIT :: nat where "MILESTONE_LIMIT = 64"

definition hub_init :: "bool \<Rightarrow> string \<Rightarrow> hub" where
  "hub_init household session_id =
     \<lparr>hb_household = household, hb_messages = [], hb_milestones = [], hb_sequence = 0, hb_session = session_id, hb_viewers = 0,
      hb_viewer_seen = False, hb_started = False, hb_checkpoint = None, hb_checkpoint_state = None, hb_failure = None,
      hb_ready = False, hb_report = None, hb_hazard = None\<rparr>"

text \<open>The label of the phase that unlocks the start button, in UTF-8.\<close>

definition READY_LABEL :: string where
  "READY_LABEL = map char_of [236, 139, 164, 237, 151, 152, 32, 236, 164, 128, 235, 185, 132, 32, 236, 153, 132, 235, 163, 140 :: nat]"

definition MILESTONE_KINDS :: "string list" where
  "MILESTONE_KINDS = [''phase'', ''decision'', ''attack_result'', ''hazard_decision'', ''result'']"

text \<open>The report a message brings: a result only.\<close>

definition message_report :: "string \<Rightarrow> hub \<Rightarrow> row \<Rightarrow> public_report option" where
  "message_report revision h m =
     (if getf m ''kind'' = PStr ''result'' then Some (report (getf m ''result'') (PStr revision) (PStr (hb_session h)) False) else None)"

definition message_row :: "string \<Rightarrow> hub \<Rightarrow> row \<Rightarrow> hub_row" where
  "message_row revision h m =
     \<lparr>hr_id = hb_sequence h + 1,
      hr_body = (case message_report revision h m of None \<Rightarrow> m | Some r \<Rightarrow> dput ''report_status'' (PStr (pr_status r)) m)\<rparr>"

definition hub_publish :: "string \<Rightarrow> row \<Rightarrow> hub \<Rightarrow> hub" where
  "hub_publish revision m h =
     (let r = message_row revision h m; kind = getf m ''kind'' in
      h\<lparr>hb_sequence := hb_sequence h + 1,
        hb_messages := deque_push MESSAGE_LIMIT r (hb_messages h),
        hb_ready := hb_ready h \<or> kind = PStr ''phase'' \<and> getf m ''label'' = PStr READY_LABEL,
        hb_report := (case message_report revision h m of None \<Rightarrow> hb_report h | Some p \<Rightarrow> Some p),
        hb_milestones := (if kind \<in> PStr ` set MILESTONE_KINDS then deque_push MILESTONE_LIMIT r (hb_milestones h) else hb_milestones h),
        hb_hazard := (if kind = PStr ''hazard_scene'' then Some r else hb_hazard h),
        hb_checkpoint_state := (if kind = PStr ''checkpoint'' then Some r else hb_checkpoint_state h)\<rparr>)"

definition hub_fail :: "string \<Rightarrow> row \<Rightarrow> pyval \<Rightarrow> hub \<Rightarrow> hub" where
  "hub_fail revision m result h =
     (let h1 = hub_publish revision m (h\<lparr>hb_checkpoint := None, hb_checkpoint_state := None\<rparr>) in
      h1\<lparr>hb_failure := Some (last (hb_messages h1)), hb_ready := False,
         hb_report := Some (case (result, hb_report h1) of
             (PNone, Some p) \<Rightarrow> p\<lparr>pr_status := ''failed''\<rparr>
           | _ \<Rightarrow> report (if result \<noteq> PNone then result else if hb_household h1 then PDict [(''profile'', PStr ''household_hazards'')] else PNone)
                    (PStr revision) (PStr (hb_session h1)) True)\<rparr>)"

definition begin_checkpoint :: "string \<Rightarrow> string \<Rightarrow> string \<Rightarrow> string \<Rightarrow> string \<Rightarrow> int \<Rightarrow> hub \<Rightarrow> hub" where
  "begin_checkpoint revision token label detail next_label sim_ms h =
     hub_publish revision [(''kind'', PStr ''checkpoint''), (''waiting'', PBool True), (''token'', PStr token), (''label'', PStr label),
       (''detail'', PStr detail), (''next_label'', PStr next_label), (''sim_ms'', PInt sim_ms)] (h\<lparr>hb_checkpoint := Some token\<rparr>)"

definition checkpoint_active :: "string \<Rightarrow> hub \<Rightarrow> bool" where
  "checkpoint_active token h \<longleftrightarrow> hb_checkpoint h = Some token"

text \<open>A missing header is no token.\<close>

definition advance_checkpoint :: "string \<Rightarrow> string option \<Rightarrow> hub \<Rightarrow> bool \<times> hub" where
  "advance_checkpoint revision token h =
     (if token = None \<or> token = Some [] \<or> hb_checkpoint h \<noteq> token then (False, h)
      else (True, hub_publish revision [(''kind'', PStr ''checkpoint''), (''waiting'', PBool False), (''token'', PStr (the token))]
                    (h\<lparr>hb_checkpoint := None\<rparr>)))"

text \<open>\<^verbatim>\<open>after\<close>, once its wait is over: the rows kept for a later reader, by number; a later source wins.\<close>

definition kept_rows :: "hub \<Rightarrow> hub_row list" where
  "kept_rows h = hb_messages h @ hb_milestones h @ [r. Some r \<leftarrow> [hb_checkpoint_state h, hb_hazard h, hb_failure h]]"

definition rows_after :: "int \<Rightarrow> hub \<Rightarrow> hub_row list" where
  "rows_after sequence h =
     (let rows = filter (\<lambda>r. sequence < hr_id r) (kept_rows h) in
      map (\<lambda>i. the (map_of (rev (map (\<lambda>r. (hr_id r, r)) rows)) i)) (sort (remdups (map hr_id rows))))"

definition add_viewer :: "hub \<Rightarrow> hub" where
  "add_viewer h = h\<lparr>hb_viewers := hb_viewers h + 1, hb_viewer_seen := True\<rparr>"

definition remove_viewer :: "hub \<Rightarrow> hub" where
  "remove_viewer h = h\<lparr>hb_viewers := hb_viewers h - 1\<rparr>"

definition request_start :: "hub \<Rightarrow> hub" where
  "request_start h = h\<lparr>hb_started := True\<rparr>"

record hub_status =
  hs_viewers :: int
  hs_last_id :: int
  hs_failed :: bool
  hs_ready :: bool
  hs_started :: bool
  hs_report :: string

definition hub_status_of :: "hub \<Rightarrow> hub_status" where
  "hub_status_of h = \<lparr>hs_viewers = hb_viewers h, hs_last_id = hb_sequence h, hs_failed = (hb_failure h \<noteq> None), hs_ready = hb_ready h,
     hs_started = hb_started h, hs_report = (case hb_report h of None \<Rightarrow> ''pending'' | Some p \<Rightarrow> pr_status p)\<rparr>"

section \<open>The handler\<close>

record server_config =
  sc_port :: int
  sc_manual_start :: bool
  sc_step_through :: bool

text \<open>A request: its path, as \<^verbatim>\<open>urlsplit\<close> gives it, and the headers the handler reads.\<close>

record http_request =
  hq_path :: string
  hq_host :: "string option"
  hq_origin :: "string option"
  hq_token :: "string option"
  hq_last_event :: "string option"

datatype response = Error int string | Json string | Report public_report | ReportPage public_report | Health hub_status | Config | RigAsset | Static string string | Events

definition origin_allowed :: "server_config \<Rightarrow> http_request \<Rightarrow> bool" where
  "origin_allowed c q \<longleftrightarrow>
     (let port = show_int (sc_port c); hosts = [''127.0.0.1:'' @ port, ''localhost:'' @ port] in
      hq_host q \<in> Some ` set hosts \<and> (hq_origin q \<in> {None, Some []} \<or> hq_origin q \<in> (\<lambda>h. Some (''http://'' @ h)) ` set hosts))"

definition do_POST :: "string \<Rightarrow> server_config \<Rightarrow> http_request \<Rightarrow> hub \<Rightarrow> response \<times> hub" where
  "do_POST revision c q h =
     (if \<not> origin_allowed c q then (Error 403 [], h)
      else if hs_failed (hub_status_of h) then (Error 409 ''Simulation has stopped'', h)
      else if hq_path q = ''/advance'' \<and> sc_step_through c then
        (case advance_checkpoint revision (hq_token q) h of
           (False, h') \<Rightarrow> (Error 409 ''No matching waiting step'', h')
         | (True, h') \<Rightarrow> (Json ''{\"advanced\":true}'', h'))
      else if hq_path q \<noteq> ''/start'' \<or> \<not> sc_manual_start c then (Error 404 [], h)
      else (Json ''{\"started\":true}'', request_start h))"

definition STATIC_PATHS :: "string list" where
  "STATIC_PATHS = [''/'', ''/gazebo-live.html'', ''/gazebo-live.js'', ''/gazebo-live.css'', ''/brand/haetae/logo-light.svg'', ''/brand/haetae/favicon.svg'',
     ''/assets/haetae-rig.json'', ''/assets/household-fixtures.json'', ''/gazebo-scene.js'', ''/telemetry.js'', ''/product-rig.js'', ''/person-rig.js'',
     ''/vendor/three/three.module.js'', ''/vendor/three/three.core.js'', ''/vendor/three/OrbitControls.js'', ''/gazebo-replay.html'', ''/gazebo-replay.js'',
     ''/evidence/gazebo-snapshot.jsonl'', ''/evidence/gazebo-result.json'']"

definition ends_with :: "string \<Rightarrow> string \<Rightarrow> bool" where
  "ends_with p s \<longleftrightarrow> is_prefix (rev p) (rev s)"

definition mime_of :: "string \<Rightarrow> string" where
  "mime_of name = (if ends_with ''.js'' name then ''text/javascript'' else if ends_with ''.css'' name then ''text/css''
     else if ends_with ''.svg'' name then ''image/svg+xml'' else if ends_with ''.json'' name then ''application/json''
     else if ends_with ''.jsonl'' name then ''application/x-ndjson'' else ''text/html'')"

definition do_GET :: "server_config \<Rightarrow> http_request \<Rightarrow> hub \<Rightarrow> response" where
  "do_GET c q h =
     (let path = hq_path q in
      if \<not> origin_allowed c q then Error 403 []
      else if path = ''/events'' then Events
      else if path = ''/health'' then Health (hub_status_of h)
      else if path \<in> {''/report.json'', ''/report''} then
        (case hb_report h of
           None \<Rightarrow> Error 409 ''Report is available after completion or failure''
         | Some p \<Rightarrow> if path = ''/report'' then ReportPage p else Report p)
      else if path = ''/viewer-config'' then Config
      else if path = ''/assets/rosbot-xl.json'' then RigAsset
      else if path \<in> set STATIC_PATHS then
        (let name = (if path = ''/'' then ''gazebo-live.html'' else drop 1 path) in Static name (mime_of name @ ''; charset=utf-8''))
      else Error 404 [])"

text \<open>Where a stream resumes: \<^verbatim>\<open>Last-Event-ID\<close> is \<^verbatim>\<open>session:number\<close>, anything else starts from 0.\<close>

definition resume_at :: "http_request \<Rightarrow> hub \<Rightarrow> int" where
  "resume_at q h =
     (let last_id = (case hq_last_event q of None \<Rightarrow> [] | Some s \<Rightarrow> s);
          sequence = (case split_on (CHR '':'') last_id of
              sid # digits # rest \<Rightarrow>
                if sid \<noteq> hb_session h then 0
                else (case py_int (join_with (CHR '':'') (digits # rest)) of Inr n \<Rightarrow> max 0 n | Inl _ \<Rightarrow> 0)
            | _ \<Rightarrow> 0) in
      min sequence (hb_sequence h))"

text \<open>The rounds of \<^verbatim>\<open>_stream\<close>: \<open>hubs\<close> is the hub at each wake-up; an empty answer is a keepalive.\<close>

fun stream_rounds :: "int \<Rightarrow> hub list \<Rightarrow> hub_row list" where
  "stream_rounds sequence [] = []"
| "stream_rounds sequence (h # hs) =
     (let rows = rows_after sequence h in
      if rows = [] then stream_rounds sequence hs else rows @ stream_rounds (hr_id (last rows)) hs)"

section \<open>The invariant\<close>

text \<open>What is kept is numbered, in order, no later than the last number, and bounded.\<close>

definition hub_ok :: "hub \<Rightarrow> bool" where
  "hub_ok h \<longleftrightarrow> sorted_wrt (<) (map hr_id (hb_messages h)) \<and> sorted_wrt (<) (map hr_id (hb_milestones h)) \<and>
     length (hb_messages h) \<le> MESSAGE_LIMIT \<and> length (hb_milestones h) \<le> MILESTONE_LIMIT \<and>
     (\<forall>r\<in>set (kept_rows h). 1 \<le> hr_id r \<and> hr_id r \<le> hb_sequence h) \<and> 0 \<le> hb_sequence h"

inductive hub_step :: "string \<Rightarrow> hub \<Rightarrow> hub \<Rightarrow> bool" for revision where
  published: "hub_step revision h (hub_publish revision m h)"
| failed_run: "hub_step revision h (hub_fail revision m result h)"
| waiting: "hub_step revision h (begin_checkpoint revision token label detail next_label sim_ms h)"
| posted: "hub_step revision h (snd (do_POST revision c q h))"
| joined: "hub_step revision h (add_viewer h)"
| left: "hub_step revision h (remove_viewer h)"

lemma hub_init_ok: "hub_ok (hub_init household session_id)"
  by (simp add: hub_ok_def hub_init_def kept_rows_def)

lemma publish_ok: "hub_ok h \<Longrightarrow> hub_ok (hub_publish revision m h)"
proof -
  assume ok: "hub_ok h"
  let ?r = "message_row revision h m" and ?h = "hub_publish revision m h"
  have rid: "hr_id ?r = hb_sequence h + 1" by (simp add: message_row_def)
  have seq: "hb_sequence ?h = hb_sequence h + 1" by (simp add: hub_publish_def Let_def)
  have sub: "set (kept_rows ?h) \<subseteq> insert ?r (set (kept_rows h))"
    using deque_push_set [of MESSAGE_LIMIT ?r "hb_messages h"] deque_push_set [of MILESTONE_LIMIT ?r "hb_milestones h"]
    by (auto simp: hub_publish_def Let_def kept_rows_def split: if_splits option.splits)
  have sorted: "sorted_wrt (\<lambda>a b. hr_id a < hr_id b) (deque_push n ?r xs)"
    if "sorted_wrt (\<lambda>a b. hr_id a < hr_id b) xs" "set xs \<subseteq> set (kept_rows h)" for n xs
    using that ok rid by (intro deque_push_sorted) (auto simp: hub_ok_def)
  have "sorted_wrt (\<lambda>a b. hr_id a < hr_id b) (hb_messages h)" "sorted_wrt (\<lambda>a b. hr_id a < hr_id b) (hb_milestones h)"
    using ok by (simp_all add: hub_ok_def sorted_wrt_map)
  moreover have "set (hb_messages h) \<subseteq> set (kept_rows h)" "set (hb_milestones h) \<subseteq> set (kept_rows h)" by (auto simp: kept_rows_def)
  ultimately have "sorted_wrt (<) (map hr_id (hb_messages ?h))" "sorted_wrt (<) (map hr_id (hb_milestones ?h))"
    using sorted [of "hb_messages h" MESSAGE_LIMIT] sorted [of "hb_milestones h" MILESTONE_LIMIT]
    by (simp_all add: hub_publish_def Let_def sorted_wrt_map)
  moreover have "length (hb_messages ?h) \<le> MESSAGE_LIMIT" "length (hb_milestones ?h) \<le> MILESTONE_LIMIT"
    using ok by (simp_all add: hub_publish_def Let_def deque_push_length hub_ok_def)
  moreover have "1 \<le> hr_id r \<and> hr_id r \<le> hb_sequence ?h" if "r \<in> set (kept_rows ?h)" for r
  proof (cases "r = ?r")
    case True
    with rid seq ok show ?thesis by (simp add: hub_ok_def)
  next
    case False
    with that sub have "r \<in> set (kept_rows h)" by blast
    with ok have "1 \<le> hr_id r \<and> hr_id r \<le> hb_sequence h" by (simp add: hub_ok_def)
    with seq show ?thesis by simp
  qed
  moreover have "0 \<le> hb_sequence ?h" using ok seq by (simp add: hub_ok_def)
  ultimately show ?thesis unfolding hub_ok_def by blast
qed

lemma publish_last: "hb_messages (hub_publish revision m h) \<noteq> [] \<and> last (hb_messages (hub_publish revision m h)) = message_row revision h m"
  using deque_push_last [of MESSAGE_LIMIT] by (simp add: hub_publish_def Let_def MESSAGE_LIMIT_def)

lemma checkpoint_cleared_ok: "hub_ok h \<Longrightarrow> hub_ok (h\<lparr>hb_checkpoint := c, hb_checkpoint_state := None\<rparr>) \<and> hub_ok (h\<lparr>hb_checkpoint := c\<rparr>)"
  by (auto simp: hub_ok_def kept_rows_def)

lemma fail_ok:
  assumes "hub_ok h"
  shows "hub_ok (hub_fail revision m result h)"
proof -
  let ?h = "hub_publish revision m (h\<lparr>hb_checkpoint := None, hb_checkpoint_state := None\<rparr>)"
  have ok: "hub_ok ?h" using checkpoint_cleared_ok [OF assms] by (intro publish_ok) blast
  have "hb_messages ?h \<noteq> []" using publish_last by blast
  then have "last (hb_messages ?h) \<in> set (kept_rows ?h)" by (simp add: kept_rows_def)
  with ok show ?thesis unfolding hub_fail_def Let_def by (auto simp: hub_ok_def kept_rows_def)
qed

lemma post_ok: "hub_ok h \<Longrightarrow> hub_ok (snd (do_POST revision c q h))"
  using publish_ok checkpoint_cleared_ok [of h None]
  by (auto simp: do_POST_def advance_checkpoint_def request_start_def hub_ok_def [of "h\<lparr>hb_started := True\<rparr>"] kept_rows_def hub_ok_def [of h])

lemma step_ok: "hub_step revision h h' \<Longrightarrow> hub_ok h \<Longrightarrow> hub_ok h'"
proof (induction rule: hub_step.induct)
  case (waiting h token label detail next_label sim_ms)
  then show ?case using checkpoint_cleared_ok [of h "Some token"] unfolding begin_checkpoint_def by (intro publish_ok) blast
qed (auto simp: publish_ok fail_ok post_ok, auto simp: add_viewer_def remove_viewer_def hub_ok_def kept_rows_def)

section \<open>What a reader sees\<close>

lemma rows_after_ids: "map hr_id (rows_after sequence h) = sort (remdups (map hr_id (filter (\<lambda>r. sequence < hr_id r) (kept_rows h))))"
proof -
  let ?rows = "filter (\<lambda>r. sequence < hr_id r) (kept_rows h)"
  have "hr_id (the (map_of (rev (map (\<lambda>r. (hr_id r, r)) ?rows)) i)) = i" if "i \<in> set (map hr_id ?rows)" for i
  proof -
    from that have "i \<in> fst ` set (rev (map (\<lambda>r. (hr_id r, r)) ?rows))" by (auto simp: image_image)
    then have "map_of (rev (map (\<lambda>r. (hr_id r, r)) ?rows)) i \<noteq> None" by (simp only: map_of_eq_None_iff not_not)
    then obtain r where r: "map_of (rev (map (\<lambda>r. (hr_id r, r)) ?rows)) i = Some r" by blast
    from map_of_SomeD [OF r] show ?thesis by (auto simp: r)
  qed
  then show ?thesis unfolding rows_after_def Let_def map_map by (intro map_idI) simp
qed

lemma rows_after_sorted: "sorted_wrt (<) (map hr_id (rows_after sequence h)) \<and> (\<forall>r\<in>set (rows_after sequence h). sequence < hr_id r)"
proof
  show "sorted_wrt (<) (map hr_id (rows_after sequence h))" unfolding rows_after_ids by (simp add: strict_sorted_iff)
  have "set (map hr_id (rows_after sequence h)) = hr_id ` set (filter (\<lambda>r. sequence < hr_id r) (kept_rows h))" by (simp add: rows_after_ids)
  moreover have "\<forall>i\<in>hr_id ` set (filter (\<lambda>r. sequence < hr_id r) (kept_rows h)). sequence < i" by auto
  ultimately show "\<forall>r\<in>set (rows_after sequence h). sequence < hr_id r" by (metis imageI list.set_map)
qed

lemma sorted_wrt_last: "sorted_wrt (<) (map f xs) \<Longrightarrow> xs \<noteq> [] \<Longrightarrow> x \<in> set xs \<Longrightarrow> (f x :: int) \<le> f (last xs)"
  by (induction xs rule: rev_induct) (auto simp: sorted_wrt_append less_imp_le)

lemma stream_sorted: "sorted_wrt (<) (map hr_id (stream_rounds sequence hs)) \<and> (\<forall>r\<in>set (stream_rounds sequence hs). sequence < hr_id r)"
proof (induction hs arbitrary: sequence)
  case (Cons h hs)
  let ?rows = "rows_after sequence h"
  show ?case
  proof (cases "?rows = []")
    case True
    with Cons show ?thesis by simp
  next
    case False
    note r = rows_after_sorted [of sequence h]
    have top: "hr_id x \<le> hr_id (last ?rows)" if "x \<in> set ?rows" for x
      using sorted_wrt_last [OF conjunct1 [OF r] False that] .
    have "sequence < hr_id (last ?rows)" using r False by simp
    moreover have "stream_rounds sequence (h # hs) = ?rows @ stream_rounds (hr_id (last ?rows)) hs" using False by (simp add: Let_def)
    moreover note Cons [of "hr_id (last ?rows)"]
    ultimately show ?thesis using r top by (auto simp: sorted_wrt_append intro: less_trans le_less_trans)
  qed
qed simp

text \<open>The kept messages after a number are all delivered, milestones and the failure included.\<close>

lemma rows_after_complete: "r \<in> set (kept_rows h) \<Longrightarrow> sequence < hr_id r \<Longrightarrow> hr_id r \<in> hr_id ` set (rows_after sequence h)"
proof -
  assume "r \<in> set (kept_rows h)" "sequence < hr_id r"
  moreover have "set (map hr_id (rows_after sequence h)) = hr_id ` set (filter (\<lambda>r. sequence < hr_id r) (kept_rows h))" by (simp add: rows_after_ids)
  ultimately show ?thesis by auto
qed

text \<open>The failure latch.\<close>

lemma step_failed: "hub_step revision h h' \<Longrightarrow> hb_failure h \<noteq> None \<Longrightarrow> hb_failure h' \<noteq> None"
  by (induction rule: hub_step.induct)
     (auto simp: hub_publish_def hub_fail_def begin_checkpoint_def do_POST_def hub_status_of_def advance_checkpoint_def add_viewer_def remove_viewer_def Let_def)

end
