(* ===== verification/Sim_Base.thy ===== *)
theory Sim_Base
  imports PyValue
begin

text \<open>
  The deterministic base of the ROS test harness (\<^verbatim>\<open>ros/haetae_sim/kinematics.py\<close>), the independent
  measurements on its trace (\<^verbatim>\<open>oracle.py\<close>) and the node that steps it (\<^verbatim>\<open>sim_node.py\<close>). Positions, speeds
  and times are exact rationals; the platform's cosine and sine are the parameter \<open>tr\<close>, its
  hypotenuse the parameter \<open>hyp\<close>; published messages are the outputs of a step.
\<close>

section \<open>The base\<close>

record base_state =
  bs_x :: rat
  bs_y :: rat
  bs_yaw :: rat
  bs_speed :: rat
  bs_target :: rat
  bs_angular :: rat
  bs_last :: "rat option"
  bs_accel :: rat
  bs_decel :: rat
  bs_deadman :: rat

definition base_init :: "rat \<Rightarrow> base_state" where
  "base_init x = \<lparr>bs_x = x, bs_y = 5, bs_yaw = 0, bs_speed = 0, bs_target = 0, bs_angular = 0, bs_last = None,
     bs_accel = 2, bs_decel = 1, bs_deadman = 1 / 4\<rparr>"

definition base_set :: "float64 \<Rightarrow> float64 \<Rightarrow> rat \<Rightarrow> (base_state, unit) meth" where
  "base_set lin ang now b =
     (if \<not> isfinite lin \<or> \<not> isfinite ang then (Inl (ValueError ''nonfinite controller command''), b)
      else (Inr (), b\<lparr>bs_target := f_val lin, bs_angular := f_val ang, bs_last := Some now\<rparr>))"

definition leased :: "base_state \<Rightarrow> rat \<Rightarrow> bool" where
  "leased b now \<longleftrightarrow> (case bs_last b of None \<Rightarrow> False | Some t \<Rightarrow> 0 \<le> now - t \<and> now - t < bs_deadman b)"

definition goal_speed :: "base_state \<Rightarrow> rat \<Rightarrow> rat" where
  "goal_speed b now = (if leased b now then bs_target b else 0)"

definition speed_rate :: "base_state \<Rightarrow> rat \<Rightarrow> rat" where
  "speed_rate b now =
     (let target = goal_speed b now in
      if target = 0 \<or> bs_speed b * target < 0 \<or> \<bar>target\<bar> < \<bar>bs_speed b\<bar> then bs_decel b else bs_accel b)"

definition next_speed :: "base_state \<Rightarrow> rat \<Rightarrow> rat \<Rightarrow> rat" where
  "next_speed b dt now =
     (let rate = speed_rate b now;
          v = bs_speed b + max (- rate * dt) (min (rate * dt) (goal_speed b now - bs_speed b)) in
      if \<bar>v\<bar> < 1 / 10 ^ 9 then 0 else v)"

definition base_advance :: "(rat \<Rightarrow> rat \<times> rat) \<Rightarrow> rat \<Rightarrow> rat \<Rightarrow> (base_state, unit) meth" where
  "base_advance tr dt now b =
     (if dt < 0 \<or> dt > 1 / 10 then (Inl (ValueError ''simulation step must be between 0 and 100 ms''), b)
      else let v = next_speed b dt now; yaw = bs_yaw b + (if leased b now then bs_angular b * dt else 0); (c, s) = tr yaw in
        (Inr (), b\<lparr>bs_speed := v, bs_yaw := yaw, bs_x := bs_x b + v * c * dt, bs_y := bs_y b + v * s * dt\<rparr>))"

section \<open>Measurements\<close>

definition disc_gap :: "(rat \<Rightarrow> rat \<Rightarrow> rat) \<Rightarrow> rat \<Rightarrow> rat \<Rightarrow> rat \<Rightarrow> rat \<Rightarrow> rat \<Rightarrow> rat \<Rightarrow> rat" where
  "disc_gap hyp rx ry rr hx hy hr = hyp (rx - hx) (ry - hy) - rr - hr"

definition disc_hits_rect :: "(rat \<Rightarrow> rat \<Rightarrow> rat) \<Rightarrow> rat \<Rightarrow> rat \<Rightarrow> rat \<Rightarrow> rat \<Rightarrow> rat \<Rightarrow> rat \<Rightarrow> rat \<Rightarrow> bool" where
  "disc_hits_rect hyp x y radius lx ly hx hy \<longleftrightarrow> hyp (x - min (max x lx) hx) (y - min (max y ly) hy) \<le> radius"

record trace_row =
  tw_time :: rat
  tw_x :: rat
  tw_y :: rat
  tw_speed :: rat
  tw_target :: rat
  tw_deadman :: bool
  tw_gap :: "rat option"
  tw_zone :: bool

text \<open>Exact milliseconds; the code rounds them to one decimal.\<close>

definition stop_latency_ms :: "trace_row list \<Rightarrow> rat \<Rightarrow> rat option" where
  "stop_latency_ms trace trigger = map_option (\<lambda>r. (tw_time r - trigger) * 1000) (List.find (\<lambda>r. trigger \<le> tw_time r \<and> tw_speed r = 0) trace)"

section \<open>The node\<close>

record world_msg =
  wm_stamp :: int
  wm_pose :: "rat \<times> rat"
  wm_yaw :: rat
  wm_speed :: rat
  wm_people :: "(rat \<times> rat) list"

datatype sim_out = PubClock int | PubOdom "rat \<times> rat" rat | PubWorld world_msg | PubVla rat bool int | PubFault string int string

record sim =
  sim_base :: base_state
  sim_human :: "(rat \<times> rat) option"
  sim_drop :: bool
  sim_delay :: int
  sim_trace :: "trace_row list"
  sim_commands :: "(rat \<times> float64) list"
  sim_events :: "(rat \<times> bool) list"
  sim_states :: "(rat \<times> pyval) list"
  sim_outcomes :: "(rat \<times> pyval) list"
  sim_last :: rat

definition sim_init :: "rat \<Rightarrow> rat \<Rightarrow> sim" where
  "sim_init start_x now = \<lparr>sim_base = base_init start_x, sim_human = None, sim_drop = False, sim_delay = 0, sim_trace = [],
     sim_commands = [], sim_events = [], sim_states = [], sim_outcomes = [], sim_last = now\<rparr>"

definition on_base :: "(base_state, 'a) meth \<Rightarrow> (sim, 'a) meth" where
  "on_base m s = (case m (sim_base s) of (r, b) \<Rightarrow> (r, s\<lparr>sim_base := b\<rparr>))"

definition sim_command :: "float64 \<Rightarrow> float64 \<Rightarrow> rat \<Rightarrow> (sim, unit) meth" where
  "sim_command lin ang now = mthen (on_base (base_set lin ang now)) (mput (\<lambda>s. s\<lparr>sim_commands := sim_commands s @ [(now, lin)]\<rparr>))"

text \<open>The two subscriptions that record what the gate reports; \<open>loads\<close> is \<^verbatim>\<open>json.loads\<close>.\<close>

definition sim_on_state :: "(string \<Rightarrow> pyval res) \<Rightarrow> string \<Rightarrow> rat \<Rightarrow> (sim, unit) meth" where
  "sim_on_state loads data now = mbind (mlift (loads data)) (\<lambda>v. mput (\<lambda>s. s\<lparr>sim_states := sim_states s @ [(now, v)]\<rparr>))"

definition sim_on_outcome :: "(string \<Rightarrow> pyval res) \<Rightarrow> string \<Rightarrow> rat \<Rightarrow> (sim, unit) meth" where
  "sim_on_outcome loads data now = mbind (mlift (loads data)) (\<lambda>v. mput (\<lambda>s. s\<lparr>sim_outcomes := sim_outcomes s @ [(now, v)]\<rparr>))"

text \<open>The \<^verbatim>\<open>while remaining > 0\<close> loop.\<close>

function advance_all :: "(rat \<Rightarrow> rat \<times> rat) \<Rightarrow> rat \<Rightarrow> rat \<Rightarrow> (base_state, unit) meth" where
  "advance_all tr now remaining b =
     (if remaining \<le> 0 then (Inr (), b)
      else let dt = min remaining (1 / 100) in
        (case base_advance tr dt (now - remaining + dt) b of
           (Inl x, b') \<Rightarrow> (Inl x, b')
         | (Inr _, b') \<Rightarrow> advance_all tr now (remaining - dt) b'))"
  by pat_completeness auto
termination
proof (relation "measure (\<lambda>(tr, now, remaining, b). nat \<lceil>remaining * 100\<rceil>)", goal_cases)
  case (2 tr now remaining b dt q b1 u)
  then have "remaining - dt \<le> remaining - 1 / 100 \<or> remaining - dt = 0" by (auto simp: min_def)
  then have "\<lceil>(remaining - dt) * 100\<rceil> < \<lceil>remaining * 100\<rceil>"
  proof (elim disjE)
    assume "remaining - dt \<le> remaining - 1 / 100"
    then have "(remaining - dt) * 100 \<le> remaining * 100 - 1" by simp
    then have "\<lceil>(remaining - dt) * 100\<rceil> \<le> \<lceil>remaining * 100 - 1\<rceil>" by (rule ceiling_mono)
    then show ?thesis by simp
  next
    assume "remaining - dt = 0"
    then show ?thesis using 2(1) by simp
  qed
  moreover have "0 < \<lceil>remaining * 100\<rceil>" using 2(1) by simp
  ultimately show ?case by simp
qed simp

declare advance_all.simps [simp del]

definition trace_of :: "(rat \<Rightarrow> rat \<Rightarrow> rat) \<Rightarrow> rat \<Rightarrow> sim \<Rightarrow> trace_row" where
  "trace_of hyp now s =
     (let b = sim_base s in
      \<lparr>tw_time = now, tw_x = bs_x b, tw_y = bs_y b, tw_speed = bs_speed b, tw_target = bs_target b,
       tw_deadman = (case bs_last b of None \<Rightarrow> True | Some t \<Rightarrow> bs_deadman b \<le> now - t),
       tw_gap = map_option (\<lambda>(hx, hy). disc_gap hyp (bs_x b) (bs_y b) (1 / 4) hx hy (1 / 5)) (sim_human s),
       tw_zone = disc_hits_rect hyp (bs_x b) (bs_y b) (1 / 4) 7 4 8 6\<rparr>)"

definition sim_step :: "(rat \<Rightarrow> rat \<times> rat) \<Rightarrow> (rat \<Rightarrow> rat \<Rightarrow> rat) \<Rightarrow> rat \<Rightarrow> (sim, unit) meth" where
  "sim_step tr hyp now =
     mbind (mget sim_last) (\<lambda>t0.
     mthen (on_base (advance_all tr now (now - t0)))
           (mput (\<lambda>s. s\<lparr>sim_last := now, sim_trace := sim_trace s @ [trace_of hyp now s]\<rparr>)))"

definition sim_world :: "rat \<Rightarrow> int \<Rightarrow> (sim, sim_out list) meth" where
  "sim_world now stamp_ns s =
     (let b = sim_base s; first = [PubClock stamp_ns, PubOdom (bs_x b, bs_y b) (bs_speed b)]; people = (case sim_human s of None \<Rightarrow> [] | Some p \<Rightarrow> [p]) in
      if sim_drop s then (Inr first, s)
      else (Inr (first @ [PubWorld \<lparr>wm_stamp = stamp_ns div 1000000 - sim_delay s, wm_pose = (bs_x b, bs_y b), wm_yaw = bs_yaw b,
                 wm_speed = bs_speed b, wm_people = people\<rparr>]),
            s\<lparr>sim_events := sim_events s @ [(now, people \<noteq> [])]\<rparr>))"

definition sim_propose :: "rat \<Rightarrow> bool \<Rightarrow> int \<Rightarrow> sim_out list" where
  "sim_propose lin malformed stamp_ns = [PubVla lin malformed stamp_ns]"

definition sim_fault :: "string \<Rightarrow> int \<Rightarrow> sim_out list" where
  "sim_fault mode stamp_ns = [PubFault (''sim-'' @ mode) (stamp_ns div 1000000) mode]"

section \<open>The deadman\<close>

definition limits_ok :: "base_state \<Rightarrow> bool" where
  "limits_ok b \<longleftrightarrow> 0 \<le> bs_accel b \<and> 0 \<le> bs_decel b"

text \<open>Without a lease the speed falls towards zero by the deceleration and never past it.\<close>

lemma coast_speed:
  assumes "\<not> leased b now" and "0 \<le> dt" and "limits_ok b"
  shows "\<bar>next_speed b dt now\<bar> \<le> max 0 (\<bar>bs_speed b\<bar> - bs_decel b * dt)"
proof -
  have "0 \<le> bs_decel b * dt" using assms by (simp add: limits_ok_def)
  then show ?thesis using assms(1) by (auto simp: next_speed_def speed_rate_def goal_speed_def Let_def max_def min_def abs_if split: if_splits)
qed

text \<open>With or without a lease the speed stays between what it was and its goal.\<close>

lemma speed_bounded:
  assumes "0 \<le> dt" and "limits_ok b"
  shows "\<bar>next_speed b dt now\<bar> \<le> max \<bar>bs_speed b\<bar> \<bar>bs_target b\<bar>"
proof -
  have "0 \<le> speed_rate b now * dt" using assms by (auto simp: limits_ok_def speed_rate_def Let_def)
  then show ?thesis by (auto simp: next_speed_def goal_speed_def Let_def max_def min_def abs_if split: if_splits)
qed

lemma advance_fields:
  "base_advance tr dt now b = (r, b') \<Longrightarrow> bs_last b' = bs_last b \<and> bs_deadman b' = bs_deadman b \<and> bs_decel b' = bs_decel b \<and> bs_accel b' = bs_accel b \<and>
   bs_target b' = bs_target b \<and> (r = Inr () \<longrightarrow> bs_speed b' = next_speed b dt now)"
  by (auto simp: base_advance_def Let_def split: if_splits prod.splits)

lemma lease_over: "bs_last b = Some t \<Longrightarrow> bs_deadman b \<le> u - t \<Longrightarrow> u \<le> now \<Longrightarrow> \<not> leased b now"
  by (auto simp: leased_def)

lemma advance_all_fields:
  "advance_all tr now remaining b = (r, b') \<Longrightarrow> bs_last b' = bs_last b \<and> bs_deadman b' = bs_deadman b \<and> bs_decel b' = bs_decel b \<and> bs_accel b' = bs_accel b"
proof (induction tr now remaining b arbitrary: r b' rule: advance_all.induct)
  case (1 tr now remaining b)
  let ?dt = "min remaining (1 / 100)"
  obtain q b1 where a: "base_advance tr ?dt (now - remaining + ?dt) b = (q, b1)" by (cases "base_advance tr ?dt (now - remaining + ?dt) b")
  show ?case
  proof (cases "remaining \<le> 0 \<or> (\<exists>x. q = Inl x)")
    case True
    with "1.prems" a advance_fields [OF a] show ?thesis by (auto simp: advance_all.simps [of tr now remaining] Let_def split: if_splits)
  next
    case False
    then have q: "q = Inr ()" by (cases q) auto
    have "advance_all tr now (remaining - ?dt) b1 = (r, b')"
      using "1.prems" a q False by (simp add: advance_all.simps [of tr now remaining] Let_def)
    with "1.IH" [OF _ refl a [symmetric] q] False advance_fields [OF a] show ?thesis by simp
  qed
qed

text \<open>After the deadman a stretch of \<open>remaining\<close> seconds takes that much off the speed, however it is cut into steps.\<close>

lemma advance_all_coasts:
  "advance_all tr now remaining b = (r, b') \<Longrightarrow> limits_ok b \<Longrightarrow> 0 \<le> remaining \<Longrightarrow>
   (\<And>t. bs_last b = Some t \<Longrightarrow> bs_deadman b \<le> now - remaining - t) \<Longrightarrow>
   r = Inr () \<and> \<bar>bs_speed b'\<bar> \<le> max 0 (\<bar>bs_speed b\<bar> - bs_decel b * remaining)"
proof (induction tr now remaining b arbitrary: r b' rule: advance_all.induct)
  case (1 tr now remaining b)
  show ?case
  proof (cases "remaining \<le> 0")
    case True
    with 1 show ?thesis by (simp add: advance_all.simps [of tr now remaining])
  next
    case False
    let ?dt = "min remaining (1 / 100)" and ?t = "now - remaining + min remaining (1 / 100)"
    obtain q b1 where a: "base_advance tr ?dt ?t b = (q, b1)" by (cases "base_advance tr ?dt ?t b")
    have dt: "0 \<le> ?dt" "?dt \<le> 1 / 10" "0 \<le> remaining - ?dt" using False by (auto simp: min_def)
    then have q: "q = Inr ()" using a by (auto simp: base_advance_def Let_def min_def split: if_splits prod.splits)
    note f = advance_fields [OF a]
    have "\<not> leased b ?t"
    proof (cases "bs_last b")
      case (Some t)
      with "1.prems"(4) [OF Some] dt show ?thesis by (auto simp: leased_def)
    qed (simp add: leased_def)
    from coast_speed [OF this dt(1) "1.prems"(2)] f q have s1: "\<bar>bs_speed b1\<bar> \<le> max 0 (\<bar>bs_speed b\<bar> - bs_decel b * ?dt)" by simp
    have run: "advance_all tr now (remaining - ?dt) b1 = (r, b')"
      using "1.prems"(1) a q False by (simp add: advance_all.simps [of tr now remaining] Let_def)
    have "bs_deadman b1 \<le> now - (remaining - ?dt) - t" if "bs_last b1 = Some t" for t
      using "1.prems"(4) [of t] that f dt(1) by simp
    then have "r = Inr () \<and> \<bar>bs_speed b'\<bar> \<le> max 0 (\<bar>bs_speed b1\<bar> - bs_decel b1 * (remaining - ?dt))"
      using "1.IH" [OF False refl a [symmetric] q run] "1.prems"(2) f dt(3) by (simp add: limits_ok_def)
    moreover have "0 \<le> bs_decel b * (remaining - ?dt)" using "1.prems"(2) dt(3) by (simp add: limits_ok_def)
    ultimately show ?thesis using s1 f by (auto simp: algebra_simps max_def split: if_splits)
  qed
qed

end
