(* ===== verification/Sim_Properties.thy ===== *)
theory Sim_Properties
  imports Perception Live_Hub Sim_Base
begin

text \<open>
  The properties of the simulator side: the occupancy reported from the lidar, the order of the browser
  stream and the deadman of the reference base.
\<close>

section \<open>Occupancy\<close>

text \<open>
  C18. The lidar occupancy is conservative. After any sequence of scans, replayed, out of order or lost, a
  snapshot is confident only for a robot inside the calibrated bay and on a frame decoded from a
  well-formed, calibrated scan of the fixed sensor that was seen and received less than 200 ms ago, no
  newer kept frame being eligible, and then every return of that frame has a reported obstacle at least
  as near to the robot, itself a return; otherwise it reports no obstacle and no confidence.
\<close>

theorem occupancy_conservative:
  "let s = occupancy_snapshot now_ms wall robot (perceived tr es) in
   if oc_confident s then
     \<exists>m t. Scan m t \<in> set es \<and> shape_ok m \<and> calibration_ok m \<and> pose_ok m \<and> bay_covers robot \<and>
       (let f = decode_scan tr m t in
        fresh_frame now_ms wall f \<and>
        list_all (\<lambda>g. fr_stamp g \<le> fr_stamp f \<or> now_ms < fr_stamp g) (pc_history (perceived tr es)) \<and>
        list_all (\<lambda>q. list_ex (\<lambda>h. h \<in> set (fr_points f) \<and> dist2 h robot \<le> dist2 q robot) (oc_humans s)) (fr_points f))
   else oc_humans s = []"
proof (cases "oc_confident (occupancy_snapshot now_ms wall robot (perceived tr es))")
  case True
  let ?p = "perceived tr es"
  from snapshot_confident [OF True] obtain f where f: "eligible_frame now_ms ?p = Some f" "fresh_frame now_ms wall f" "bay_covers robot"
    "\<forall>q\<in>set (fr_points f). \<exists>h\<in>set (oc_humans (occupancy_snapshot now_ms wall robot ?p)). h \<in> set (fr_points f) \<and> dist2 h robot \<le> dist2 q robot" by blast
  have ok: "perception_ok ?p" "from_scans tr es ?p" using perceived_ok by blast+
  then obtain m t where m: "Scan m t \<in> set es" "f = decode_scan tr m t" using eligible_in_history [OF ok(1) f(1)] by (auto simp: from_scans_def)
  have "shape_ok m \<and> calibration_ok m \<and> pose_ok m" using f(2) m(2) by (intro healthy_frame) (auto simp: fresh_frame_def)
  moreover have "\<forall>g\<in>set (pc_history ?p). fr_stamp g \<le> fr_stamp f \<or> now_ms < fr_stamp g"
    using eligible_newest [OF ok(1) f(1)] f(2) by (auto simp: fresh_frame_def not_le)
  ultimately show ?thesis using True f(2-4) m by (auto simp: Let_def list_all_iff list_ex_iff intro!: exI [of _ m] exI [of _ t])
qed (simp add: unconfident_empty)

section \<open>The browser stream\<close>

inductive hub_reachable :: "string \<Rightarrow> hub \<Rightarrow> bool" for revision where
  started: "hub_reachable revision (hub_init household session_id)"
| stepped: "hub_reachable revision h \<Longrightarrow> hub_step revision h h' \<Longrightarrow> hub_reachable revision h'"

lemma reachable_ok: "hub_reachable revision h \<Longrightarrow> hub_ok h"
  by (induction rule: hub_reachable.induct) (auto simp: hub_init_ok intro: step_ok)

text \<open>
  C27. The browser stream is ordered. Whatever the hub did between the wake-ups of a stream, the rows it
  sends have strictly rising numbers after the one it resumed at, so none is sent twice; a reader of a
  reachable hub is given every message and milestone still kept, the last checkpoint and hazard scene and
  the failure, at most 512 messages and 64 milestones.
\<close>

theorem stream_ordered:
  "hub_reachable revision h \<Longrightarrow>
   sorted_wrt (<) (map hr_id (stream_rounds (resume_at q h) (h # hs))) \<and>
   list_all (\<lambda>r. resume_at q h < hr_id r) (stream_rounds (resume_at q h) (h # hs)) \<and>
   set (map hr_id (rows_after 0 h)) = set (map hr_id (kept_rows h)) \<and> length (hb_messages h) \<le> 512 \<and> length (hb_milestones h) \<le> 64"
proof -
  assume "hub_reachable revision h"
  then have ok: "hub_ok h" by (rule reachable_ok)
  then have "filter (\<lambda>r. 0 < hr_id r) (kept_rows h) = kept_rows h" by (auto simp: hub_ok_def filter_id_conv)
  then have "set (map hr_id (rows_after 0 h)) = set (map hr_id (kept_rows h))" unfolding rows_after_ids by simp
  moreover have "length (hb_messages h) \<le> 512" "length (hb_milestones h) \<le> 64"
    using ok by (simp_all add: hub_ok_def MESSAGE_LIMIT_def MILESTONE_LIMIT_def)
  ultimately show ?thesis using stream_sorted [of "resume_at q h" "h # hs"] unfolding list_all_iff by blast
qed

definition demo_hub :: hub where
  "demo_hub = hub_publish ''r'' [(''kind'', PStr ''phase''), (''label'', PStr ''go'')] (hub_init False ''s'')"

lemma demo_hub_reachable: "hub_reachable ''r'' demo_hub"
  unfolding demo_hub_def by (rule hub_reachable.stepped [OF hub_reachable.started hub_step.published])

theorem stream_ordered_witness:
  "hub_reachable ''r'' demo_hub \<and> set (map hr_id (rows_after 0 demo_hub)) = set (map hr_id (kept_rows demo_hub)) \<and> length (hb_messages demo_hub) \<le> 512"
  using stream_ordered [OF demo_hub_reachable] demo_hub_reachable by simp

section \<open>The deadman of the reference base\<close>

fun sim_steps :: "(rat \<Rightarrow> rat \<times> rat) \<Rightarrow> (rat \<Rightarrow> rat \<Rightarrow> rat) \<Rightarrow> rat list \<Rightarrow> (sim, unit) meth" where
  "sim_steps tr hyp [] = mret ()"
| "sim_steps tr hyp (t # ts) = mthen (sim_step tr hyp t) (sim_steps tr hyp ts)"

definition lease_passed :: "sim \<Rightarrow> bool" where
  "lease_passed s \<longleftrightarrow> (case bs_last (sim_base s) of None \<Rightarrow> True | Some t \<Rightarrow> bs_deadman (sim_base s) \<le> sim_last s - t)"

text \<open>One timer tick after the deadman.\<close>

lemma step_coasts:
  assumes "lease_passed s" and "limits_ok (sim_base s)" and "sim_last s \<le> now"
  shows "\<exists>s'. sim_step tr hyp now s = (Inr (), s') \<and> lease_passed s' \<and> limits_ok (sim_base s') \<and> sim_last s' = now \<and>
    bs_decel (sim_base s') = bs_decel (sim_base s) \<and>
    \<bar>bs_speed (sim_base s')\<bar> \<le> max 0 (\<bar>bs_speed (sim_base s)\<bar> - bs_decel (sim_base s) * (now - sim_last s))"
proof -
  obtain r b' where run: "advance_all tr now (now - sim_last s) (sim_base s) = (r, b')" by (cases "advance_all tr now (now - sim_last s) (sim_base s)")
  have coast: "r = Inr () \<and> \<bar>bs_speed b'\<bar> \<le> max 0 (\<bar>bs_speed (sim_base s)\<bar> - bs_decel (sim_base s) * (now - sim_last s))"
    using assms by (intro advance_all_coasts [OF run]) (auto simp: lease_passed_def)
  note f = advance_all_fields [OF run]
  let ?s = "s\<lparr>sim_base := b'\<rparr>"
  have "sim_step tr hyp now s = (Inr (), ?s\<lparr>sim_last := now, sim_trace := sim_trace ?s @ [trace_of hyp now ?s]\<rparr>)"
    using run coast by (simp add: sim_step_def on_base_def mbind_def mthen_def mget_def mput_def)
  with coast f assms show ?thesis by (auto simp: lease_passed_def limits_ok_def split: option.splits)
qed

text \<open>
  C26. The deadman stops the base. Once the last command is older than the deadman, timer ticks without a
  new command never fail and bring the base to rest no later than its speed over its deceleration, however
  the ticks are spaced and whatever target was commanded before.
\<close>

theorem deadman_stops:
  "lease_passed s \<Longrightarrow> limits_ok (sim_base s) \<Longrightarrow> sorted (sim_last s # ts) \<Longrightarrow>
   \<bar>bs_speed (sim_base s)\<bar> \<le> bs_decel (sim_base s) * (last (sim_last s # ts) - sim_last s) \<Longrightarrow>
   fst (sim_steps tr hyp ts s) = Inr () \<and> bs_speed (sim_base (snd (sim_steps tr hyp ts s))) = 0"
proof (induction ts arbitrary: s)
  case Nil
  then show ?case by (simp add: mret_def)
next
  case (Cons t ts)
  from step_coasts [OF Cons.prems(1,2)] Cons.prems(3) obtain s' where s': "sim_step tr hyp t s = (Inr (), s')" "lease_passed s'"
    "limits_ok (sim_base s')" "sim_last s' = t" "bs_decel (sim_base s') = bs_decel (sim_base s)"
    "\<bar>bs_speed (sim_base s')\<bar> \<le> max 0 (\<bar>bs_speed (sim_base s)\<bar> - bs_decel (sim_base s) * (t - sim_last s))" by fastforce
  have "t \<le> last (t # ts)" using Cons.prems(3) by (cases ts rule: rev_cases) (auto simp: sorted_append)
  then have "0 \<le> bs_decel (sim_base s) * (last (t # ts) - t)" using Cons.prems(2) by (simp add: limits_ok_def)
  then have "\<bar>bs_speed (sim_base s')\<bar> \<le> bs_decel (sim_base s) * (last (t # ts) - t)"
    using s'(6) Cons.prems(4) by (auto simp: algebra_simps max_def split: if_splits)
  with Cons.IH [of s'] s' Cons.prems(3) show ?case by (simp add: mthen_def mbind_def)
qed

definition demo_sim :: sim where
  "demo_sim = (sim_init 5 0)\<lparr>sim_base := (base_init 5)\<lparr>bs_speed := 1 / 2, bs_target := 1, bs_last := Some 0\<rparr>, sim_last := 1 / 4\<rparr>"

theorem deadman_stops_witness:
  "lease_passed demo_sim \<and> limits_ok (sim_base demo_sim) \<and> sorted [sim_last demo_sim, 1 / 2, 3 / 4] \<and>
   bs_speed (sim_base (snd (sim_steps (\<lambda>_. (1, 0)) (\<lambda>a b. \<bar>a\<bar> + \<bar>b\<bar>) [1 / 2, 3 / 4] demo_sim))) = 0"
proof -
  have h: "lease_passed demo_sim" "limits_ok (sim_base demo_sim)" "sorted (sim_last demo_sim # [1 / 2, 3 / 4])"
    "\<bar>bs_speed (sim_base demo_sim)\<bar> \<le> bs_decel (sim_base demo_sim) * (last (sim_last demo_sim # [1 / 2, 3 / 4]) - sim_last demo_sim)"
    by (simp_all add: demo_sim_def sim_init_def base_init_def lease_passed_def limits_ok_def)
  from deadman_stops [OF h, of "\<lambda>_. (1, 0)" "\<lambda>a b. \<bar>a\<bar> + \<bar>b\<bar>"] h show ?thesis by simp
qed

end
