(* ===== verification/Arm_Kinematics.thy ===== *)
theory Arm_Kinematics
  imports PyValue
begin

text \<open>
  The forward kinematics of the hazard laboratory (\<^verbatim>\<open>Kinematics\<close> of \<^verbatim>\<open>ros/gazebo/hazard_lab.py\<close>): the
  chain of joints read from the robot description, homogeneous transforms, the sampled path of the end
  effector and its projection to a new base pose. Numbers are exact rationals; \<open>tr\<close> gives the cosine
  and sine of an angle. The parsed description is the list of its joints with the link each leads to.
\<close>

section \<open>Transforms\<close>

type_synonym matrix = "rat list list"
type_synonym vec3 = "rat \<times> rat \<times> rat"

definition multiply :: "matrix \<Rightarrow> matrix \<Rightarrow> matrix" where
  "multiply a b = map (\<lambda>i. map (\<lambda>j. sum_list (map (\<lambda>k. a ! i ! k * b ! k ! j) [0..<4])) [0..<4]) [0..<4]"

definition transform :: "(rat \<Rightarrow> rat \<times> rat) \<Rightarrow> vec3 \<Rightarrow> vec3 \<Rightarrow> matrix" where
  "transform tr xyz rpy =
     (case (xyz, rpy) of ((x0, x1, x2), (r, p, y)) \<Rightarrow>
      case (tr r, tr p, tr y) of ((cr, sr), (cp, sp), (cy, sy)) \<Rightarrow>
        [[cy * cp, cy * sp * sr - sy * cr, cy * sp * cr + sy * sr, x0],
         [sy * cp, sy * sp * sr + cy * cr, sy * sp * cr - cy * sr, x1],
         [- sp, cp * sr, cp * cr, x2],
         [0, 0, 0, 1]])"

section \<open>The chain\<close>

record kin_joint =
  kj_name :: string
  kj_fixed :: bool
  kj_parent :: string
  kj_xyz :: vec3
  kj_rpy :: vec3
  kj_axis :: vec3

definition JOINT_NAMES :: "string list" where "JOINT_NAMES = [''joint1'', ''joint2'', ''joint3'', ''joint4'']"

text \<open>
  The walk from the end effector to the base. It does not return (\<open>None\<close>) on a description whose links
  form a cycle.
\<close>

partial_function (option) chain_from :: "(string \<rightharpoonup> kin_joint) \<Rightarrow> string \<Rightarrow> kin_joint list \<Rightarrow> kin_joint list res option" where
  "chain_from joints link chain =
     (if link = ''base_link'' then Some (Inr chain)
      else (case joints link of
          None \<Rightarrow> Some (Inl (KeyError link))
        | Some j \<Rightarrow> chain_from joints (kj_parent j) (j # chain)))"

declare chain_from.simps [code]

definition kinematics_init :: "(string \<times> kin_joint) list \<Rightarrow> kin_joint list res option" where
  "kinematics_init children =
     map_option (\<lambda>r. rbind (r) (\<lambda>chain.
       if list_ex (\<lambda>j. \<not> kj_fixed j \<and> kj_name j \<notin> set JOINT_NAMES) chain then Inl (ValueError ''unsupported kinematic joint'') else Inr chain))
     (chain_from (map_of (rev children)) ''end_effector_link'' [])"

section \<open>Forward kinematics\<close>

definition joint_rotation :: "(string \<times> rat) list \<Rightarrow> kin_joint \<Rightarrow> vec3 res" where
  "joint_rotation q j =
     (case map_of (rev q) (kj_name j) of
        None \<Rightarrow> Inl (KeyError (kj_name j))
      | Some angle \<Rightarrow> if kj_axis j = (0, 0, 1) then Inr (0, 0, angle) else if kj_axis j = (0, 1, 0) then Inr (0, angle, 0)
                      else Inl (ValueError ''unsupported kinematic axis''))"

fun frame_from :: "(rat \<Rightarrow> rat \<times> rat) \<Rightarrow> (string \<times> rat) list \<Rightarrow> matrix \<Rightarrow> kin_joint list \<Rightarrow> matrix res" where
  "frame_from tr q m [] = Inr m"
| "frame_from tr q m (j # js) =
     (let m1 = multiply m (transform tr (kj_xyz j) (kj_rpy j)) in
      if kj_fixed j then frame_from tr q m1 js
      else rbind (joint_rotation q j) (\<lambda>rot. frame_from tr q (multiply m1 (transform tr (0, 0, 0) rot)) js))"

definition kin_frame :: "(rat \<Rightarrow> rat \<times> rat) \<Rightarrow> kin_joint list \<Rightarrow> rat list \<Rightarrow> rat \<times> rat \<Rightarrow> rat \<Rightarrow> matrix res" where
  "kin_frame tr chain qs pose yaw = frame_from tr (zip JOINT_NAMES qs) (transform tr (fst pose, snd pose, 0) (0, 0, yaw)) chain"

definition kin_point :: "(rat \<Rightarrow> rat \<times> rat) \<Rightarrow> kin_joint list \<Rightarrow> rat list \<Rightarrow> rat \<times> rat \<Rightarrow> rat \<Rightarrow> vec3 res" where
  "kin_point tr chain qs pose yaw = rbind (kin_frame tr chain qs pose yaw) (\<lambda>m. Inr (m ! 0 ! 3, m ! 1 ! 3, m ! 2 ! 3))"

text \<open>One segment of the path: enough samples that no joint moves more than 0.002 rad between two.\<close>

definition sample_count :: "rat list \<Rightarrow> rat list \<Rightarrow> nat res" where
  "sample_count a b =
     (if zip a b = [] then Inl (ValueError ''max() arg is an empty sequence'')
      else Inr (max 1 (nat \<lceil>Max (set (map (\<lambda>(x, y). \<bar>x - y\<bar>) (zip a b))) / (2 / 1000)\<rceil>)))"

definition blend :: "rat list \<Rightarrow> rat list \<Rightarrow> nat \<Rightarrow> nat \<Rightarrow> rat list" where
  "blend a b n count = map (\<lambda>(x, y). x + (y - x) * of_nat n / of_nat count) (zip a b)"

fun segment_samples :: "rat list list \<Rightarrow> rat list list res" where
  "segment_samples (a # b # rest) =
     rbind (sample_count a b) (\<lambda>count. rbind (segment_samples (b # rest)) (\<lambda>more. Inr (map (\<lambda>n. blend a b n count) [0..<count] @ more)))"
| "segment_samples _ = Inr []"

text \<open>\<^verbatim>\<open>points[-1]\<close> of an empty plan raises.\<close>

definition path_samples :: "(int \<times> rat list) list \<Rightarrow> rat list list res" where
  "path_samples pts = rbind (segment_samples (map snd pts)) (\<lambda>qs. if pts = [] then Inl IndexError else Inr (qs @ [snd (last pts)]))"

definition kin_path :: "(rat \<Rightarrow> rat \<times> rat) \<Rightarrow> kin_joint list \<Rightarrow> (int \<times> rat list) list \<Rightarrow> rat \<times> rat \<Rightarrow> rat \<Rightarrow> vec3 list res" where
  "kin_path tr chain pts pose yaw = rbind (path_samples pts) (\<lambda>qss. rmap (\<lambda>qs. kin_point tr chain qs pose yaw) qss)"

definition project_path :: "(rat \<Rightarrow> rat \<times> rat) \<Rightarrow> vec3 list \<Rightarrow> rat \<times> rat \<Rightarrow> rat \<Rightarrow> vec3 list" where
  "project_path tr base_path pose yaw =
     (case tr yaw of (c, s) \<Rightarrow> map (\<lambda>(x, y, z). (fst pose + c * x - s * y, snd pose + s * x + c * y, z)) base_path)"

text \<open>The forward kinematics the policy is signed with; \<open>sha\<close> is the hexadecimal SHA-256.\<close>

record policy_segment =
  sg_xyz :: vec3
  sg_rpy :: vec3
  sg_joint :: "nat option"
  sg_axis :: "char option"

record household_policy =
  hp_version :: nat
  hp_robot :: string
  hp_model :: string
  hp_tool :: string
  hp_chain :: "policy_segment list"
  hp_step :: rat
  hp_radius :: rat

definition ROBOT_ID :: string where "ROBOT_ID = ''rosbot_xl_open_manipulator_x''"
definition TOOL_ID :: string where "TOOL_ID = ''household_fixture_v1''"

definition policy_segment_of :: "kin_joint \<Rightarrow> policy_segment res" where
  "policy_segment_of j =
     (if kj_fixed j then Inr \<lparr>sg_xyz = kj_xyz j, sg_rpy = kj_rpy j, sg_joint = None, sg_axis = None\<rparr>
      else if kj_name j \<notin> set JOINT_NAMES then Inl (ValueError ''tuple.index(x): x not in tuple'')
      else if kj_axis j \<noteq> (0, 0, 1) \<and> kj_axis j \<noteq> (0, 1, 0) then Inl (ValueError ''unsupported household policy axis'')
      else Inr \<lparr>sg_xyz = kj_xyz j, sg_rpy = kj_rpy j, sg_joint = Some (length (takeWhile (\<lambda>n. n \<noteq> kj_name j) JOINT_NAMES)),
                sg_axis = Some (if kj_axis j = (0, 0, 1) then CHR ''z'' else CHR ''y'')\<rparr>)"

definition household_policy_of :: "(string \<Rightarrow> string) \<Rightarrow> kin_joint list \<Rightarrow> string \<Rightarrow> household_policy res" where
  "household_policy_of sha chain urdf =
     rbind (rmap policy_segment_of chain) (\<lambda>segments.
     Inr \<lparr>hp_version = 1, hp_robot = ROBOT_ID, hp_model = sha urdf, hp_tool = TOOL_ID, hp_chain = segments, hp_step = 2 / 1000, hp_radius = 15 / 100\<rparr>)"

text \<open>The quaternion of a frame; \<open>sq\<close> is the square sq.\<close>

definition orientation_of :: "(rat \<Rightarrow> rat) \<Rightarrow> matrix \<Rightarrow> rat \<times> rat \<times> rat \<times> rat" where
  "orientation_of sq m =
     (let t = m ! 0 ! 0 + m ! 1 ! 1 + m ! 2 ! 2 in
      if 0 < t then let s = sq (t + 1) * 2 in ((m ! 2 ! 1 - m ! 1 ! 2) / s, (m ! 0 ! 2 - m ! 2 ! 0) / s, (m ! 1 ! 0 - m ! 0 ! 1) / s, s / 4)
      else let i = (if m ! 0 ! 0 \<ge> m ! 1 ! 1 \<and> m ! 0 ! 0 \<ge> m ! 2 ! 2 then 0 else if m ! 1 ! 1 \<ge> m ! 2 ! 2 then 1 else 2);
               j = (i + 1) mod 3; k = (i + 2) mod 3; s = sq (1 + m ! i ! i - m ! j ! j - m ! k ! k) * 2;
               v = [0, 0, 0, 0][i := s / 4, j := (m ! j ! i + m ! i ! j) / s, k := (m ! k ! i + m ! i ! k) / s, 3 := (m ! k ! j - m ! j ! k) / s] in
        (v ! 0, v ! 1, v ! 2, v ! 3))"

definition kin_orientation :: "(rat \<Rightarrow> rat) \<Rightarrow> (rat \<Rightarrow> rat \<times> rat) \<Rightarrow> kin_joint list \<Rightarrow> rat list \<Rightarrow> rat \<times> rat \<Rightarrow> rat \<Rightarrow> (rat \<times> rat \<times> rat \<times> rat) res" where
  "kin_orientation sq tr chain qs pose yaw = rbind (kin_frame tr chain qs pose yaw) (\<lambda>m. Inr (orientation_of sq m))"

section \<open>Projection, over the exact rationals\<close>

definition is44 :: "matrix \<Rightarrow> bool" where
  "is44 m \<longleftrightarrow> length m = 4 \<and> list_all (\<lambda>r. length r = 4) m"

lemma four_cases: "i < 4 \<Longrightarrow> i = 0 \<or> i = 1 \<or> i = 2 \<or> i = (3 :: nat)"
  by auto

lemma mult_nth: "i < 4 \<Longrightarrow> j < 4 \<Longrightarrow> multiply a b ! i ! j = (\<Sum>k<4. a ! i ! k * b ! k ! j)"
  by (simp add: multiply_def interv_sum_list_conv_sum_set_nat atLeast0LessThan)

lemma sum_four: "(\<Sum>k<4. f k) = f 0 + f 1 + f 2 + f (3 :: nat)"
  by (simp add: eval_nat_numeral)

lemma mult_shape: "is44 (multiply a b)"
  by (simp add: is44_def multiply_def list_all_iff)

lemma transform_shape: "is44 (transform tr xyz rpy)"
  by (auto simp: transform_def is44_def split: prod.splits)

lemma mat_eqI: "is44 a \<Longrightarrow> is44 b \<Longrightarrow> (\<And>i j. i < 4 \<Longrightarrow> j < 4 \<Longrightarrow> a ! i ! j = b ! i ! j) \<Longrightarrow> a = b"
  by (auto simp: is44_def list_all_length intro!: nth_equalityI)

lemma mult_assoc: "multiply (multiply a b) c = multiply a (multiply b c)"
proof (rule mat_eqI [OF mult_shape mult_shape])
  fix i j :: nat
  assume ij: "i < 4" "j < 4"
  have "multiply (multiply a b) c ! i ! j = (\<Sum>k<4. (\<Sum>l<4. a ! i ! l * b ! l ! k) * c ! k ! j)"
    using ij by (simp add: mult_nth)
  also have "\<dots> = (\<Sum>k<4. \<Sum>l<4. a ! i ! l * (b ! l ! k * c ! k ! j))" by (simp add: sum_distrib_right mult.assoc)
  also have "\<dots> = (\<Sum>l<4. a ! i ! l * (\<Sum>k<4. b ! l ! k * c ! k ! j))" by (subst sum.swap) (simp add: sum_distrib_left)
  finally show "multiply (multiply a b) c ! i ! j = multiply a (multiply b c) ! i ! j" using ij by (simp add: mult_nth)
qed

text \<open>A factor on the left of the first frame stays on the left.\<close>

lemma frame_left: "frame_from tr q (multiply t m) chain = rbind (frame_from tr q m chain) (\<lambda>f. Inr (multiply t f))"
proof (induction chain arbitrary: m)
  case (Cons j js)
  show ?case
  proof (cases "kj_fixed j")
    case True
    with Cons show ?thesis by (simp add: Let_def mult_assoc)
  next
    case False
    with Cons show ?thesis by (cases "joint_rotation q j") (simp_all add: Let_def mult_assoc)
  qed
qed simp

text \<open>The transform of no displacement is the neutral element, given the cosine and sine of zero.\<close>

definition trig_zero :: "(rat \<Rightarrow> rat \<times> rat) \<Rightarrow> bool" where
  "trig_zero tr \<longleftrightarrow> tr 0 = (1, 0)"

lemma mult_unit: "trig_zero tr \<Longrightarrow> is44 a \<Longrightarrow> multiply a (transform tr (0, 0, 0) (0, 0, 0)) = a"
proof (rule mat_eqI [OF mult_shape])
  fix i j :: nat
  assume "trig_zero tr" "i < 4" "j < 4"
  then show "multiply a (transform tr (0, 0, 0) (0, 0, 0)) ! i ! j = a ! i ! j"
    using four_cases [of j] by (auto simp: mult_nth transform_def trig_zero_def sum_four)
qed

lemma frame_based:
  assumes "trig_zero tr"
  shows "kin_frame tr chain qs pose yaw =
    rbind (kin_frame tr chain qs (0, 0) 0) (\<lambda>f. Inr (multiply (transform tr (fst pose, snd pose, 0) (0, 0, yaw)) f))"
  using frame_left [of tr "zip JOINT_NAMES qs" "transform tr (fst pose, snd pose, 0) (0, 0, yaw)" "transform tr (0, 0, 0) (0, 0, 0)" chain]
  by (simp add: kin_frame_def mult_unit [OF assms transform_shape])

text \<open>The last row of a frame is that of an affine map.\<close>

definition affine_row :: "matrix \<Rightarrow> bool" where
  "affine_row m \<longleftrightarrow> m ! 3 ! 0 = 0 \<and> m ! 3 ! 1 = 0 \<and> m ! 3 ! 2 = 0 \<and> m ! 3 ! 3 = 1"

lemma transform_affine: "affine_row (transform tr xyz rpy)"
  by (simp add: affine_row_def transform_def split: prod.splits)

lemma mult_affine: "affine_row a \<Longrightarrow> affine_row b \<Longrightarrow> affine_row (multiply a b)"
  by (simp add: affine_row_def mult_nth sum_four)

lemma frame_affine: "frame_from tr q m chain = Inr f \<Longrightarrow> affine_row m \<Longrightarrow> affine_row f"
  by (induction chain arbitrary: m) (auto simp: Let_def rbind_Inr_iff mult_affine transform_affine split: if_splits)

lemma point_based:
  assumes "trig_zero tr"
  shows "kin_point tr chain qs pose yaw = rbind (kin_point tr chain qs (0, 0) 0) (\<lambda>p. Inr (hd (project_path tr [p] pose yaw)))"
proof (cases "kin_frame tr chain qs (0, 0) 0")
  case (Inl e)
  then show ?thesis using frame_based [OF assms, of chain qs pose yaw] by (simp add: kin_point_def)
next
  case (Inr f)
  obtain c s where cs: "tr yaw = (c, s)" by (cases "tr yaw")
  have z: "tr 0 = (1, 0)" using assms by (simp add: trig_zero_def)
  have f3: "f ! 3 ! 3 = 1" using frame_affine [OF Inr [unfolded kin_frame_def] transform_affine] by (simp add: affine_row_def)
  have "multiply (transform tr (fst pose, snd pose, 0) (0, 0, yaw)) f ! i ! 3 = (\<Sum>k<4. transform tr (fst pose, snd pose, 0) (0, 0, yaw) ! i ! k * f ! k ! 3)"
    if "i < 4" for i using that by (simp add: mult_nth)
  with f3 cs z have "multiply (transform tr (fst pose, snd pose, 0) (0, 0, yaw)) f ! 0 ! 3 = fst pose + c * f ! 0 ! 3 - s * f ! 1 ! 3"
    "multiply (transform tr (fst pose, snd pose, 0) (0, 0, yaw)) f ! 1 ! 3 = snd pose + s * f ! 0 ! 3 + c * f ! 1 ! 3"
    "multiply (transform tr (fst pose, snd pose, 0) (0, 0, yaw)) f ! 2 ! 3 = f ! 2 ! 3"
    by (simp_all add: transform_def sum_four)
  with Inr frame_based [OF assms, of chain qs pose yaw] cs show ?thesis by (simp add: kin_point_def project_path_def)
qed

lemma path_based:
  assumes "trig_zero tr"
  shows "kin_path tr chain pts pose yaw = rbind (kin_path tr chain pts (0, 0) 0) (\<lambda>base. Inr (project_path tr base pose yaw))"
proof -
  have "rmap (\<lambda>qs. kin_point tr chain qs pose yaw) qss = rbind (rmap (\<lambda>qs. kin_point tr chain qs (0, 0) 0) qss) (\<lambda>base. Inr (project_path tr base pose yaw))" for qss
  proof (induction qss)
    case (Cons qs qss)
    then show ?case
      by (cases "kin_point tr chain qs (0, 0) 0"; cases "rmap (\<lambda>qs. kin_point tr chain qs (0, 0) 0) qss"; cases "tr yaw")
         (simp_all add: point_based [OF assms, of chain qs pose yaw] project_path_def)
  qed (simp add: project_path_def split: prod.splits)
  then show ?thesis unfolding kin_path_def by (cases "path_samples pts") simp_all
qed

section \<open>The path is sampled finely\<close>

definition close_joints :: "rat list \<Rightarrow> rat list \<Rightarrow> bool" where
  "close_joints = list_all2 (\<lambda>x y. \<bar>x - y\<bar> \<le> 2 / 1000)"

lemma successively_upt: "\<forall>i<n. P (f i) (f (Suc i)) \<Longrightarrow> successively P (f n # rest) \<Longrightarrow> successively P (map f [0..<n] @ f n # rest)"
  by (induction n arbitrary: rest) auto

lemma int_le_nat: "(of_int k :: rat) \<le> of_nat (nat k)"
proof -
  have "(of_int k :: rat) \<le> of_int (int (nat k))" by (simp only: of_int_le_iff)
  then show ?thesis by simp
qed

lemma count_enough:
  assumes "sample_count a b = Inr count" and "(x, y) \<in> set (zip a b)"
  shows "0 < count" and "\<bar>x - y\<bar> / of_nat count \<le> 2 / 1000"
proof -
  let ?m = "Max (set (map (\<lambda>(x, y). \<bar>x - y\<bar>) (zip a b)))"
  from assms(1) have c: "count = max 1 (nat \<lceil>?m / (2 / 1000)\<rceil>)" by (auto simp: sample_count_def split: if_splits)
  then show pos: "0 < count" by simp
  have "\<bar>x - y\<bar> \<le> ?m" using assms(2) by (intro Max_ge) force+
  moreover have "?m / (2 / 1000) \<le> of_nat count"
  proof -
    have "?m / (2 / 1000) \<le> of_int \<lceil>?m / (2 / 1000)\<rceil>" by (rule le_of_int_ceiling)
    also have "\<dots> \<le> of_nat (nat \<lceil>?m / (2 / 1000)\<rceil>)" by (rule int_le_nat)
    also have "\<dots> \<le> of_nat count" using c by simp
    finally show ?thesis .
  qed
  ultimately have "\<bar>x - y\<bar> \<le> of_nat count * (2 / 1000)" by simp
  then show "\<bar>x - y\<bar> / of_nat count \<le> 2 / 1000" using pos by (simp add: field_simps)
qed

lemma blend_close:
  assumes "sample_count a b = Inr count"
  shows "close_joints (blend a b n count) (blend a b (Suc n) count)"
proof -
  have "\<bar>(x + (y - x) * of_nat n / of_nat count) - (x + (y - x) * of_nat (Suc n) / of_nat count)\<bar> \<le> 2 / 1000" if "(x, y) \<in> set (zip a b)" for x y
  proof -
    have "(x + (y - x) * of_nat n / of_nat count) - (x + (y - x) * of_nat (Suc n) / of_nat count) = (x - y) / of_nat count"
      using count_enough(1) [OF assms that] by (simp add: field_simps)
    then show ?thesis using count_enough [OF assms that] by simp
  qed
  then show ?thesis unfolding close_joints_def blend_def list_all2_conv_all_nth by (fastforce simp: in_set_conv_nth)
qed

lemma blend_ends: "length a = length b \<Longrightarrow> 0 < count \<Longrightarrow> blend a b 0 count = a \<and> blend a b count count = b"
  by (induction a b rule: list_induct2) (auto simp: blend_def)

lemma samples_close:
  "segment_samples qss = Inr xs \<Longrightarrow> qss \<noteq> [] \<Longrightarrow> \<forall>q\<in>set qss. length q = n \<Longrightarrow>
   successively close_joints (xs @ [last qss]) \<and> hd (xs @ [last qss]) = hd qss"
proof (induction qss arbitrary: xs rule: segment_samples.induct)
  case (1 a b rest)
  from "1.prems"(1) obtain count more where c: "sample_count a b = Inr count" "segment_samples (b # rest) = Inr more"
    "xs = map (\<lambda>n. blend a b n count) [0..<count] @ more" by (auto simp: rbind_Inr_iff)
  from c(1) have count: "0 < count" by (auto simp: sample_count_def split: if_splits)
  note ih = "1.IH" [OF c(2)]
  have e: "blend a b 0 count = a" "blend a b count count = b" using blend_ends [OF _ count] "1.prems"(3) by auto
  have s: "successively close_joints (more @ [last (b # rest)])" "hd (more @ [last (b # rest)]) = b" using ih "1.prems" by auto
  then obtain t where t: "more @ [last (b # rest)] = b # t" by (cases "more @ [last (b # rest)]") auto
  have "successively close_joints (map (\<lambda>n. blend a b n count) [0..<count] @ blend a b count count # t)"
    using blend_close [OF c(1)] s(1) t e by (intro successively_upt) auto
  moreover have "hd (map (\<lambda>n. blend a b n count) [0..<count] @ blend a b count count # t) = a" using e(1) count by (simp add: upt_rec)
  moreover have "xs @ [last (a # b # rest)] = map (\<lambda>n. blend a b n count) [0..<count] @ blend a b count count # t" using c(3) t e(2) by simp
  ultimately show ?case by simp
qed auto

lemma path_close: "path_samples pts = Inr xs \<Longrightarrow> \<forall>p\<in>set pts. length (snd p) = n \<Longrightarrow> successively close_joints xs \<and> hd xs = snd (hd pts) \<and> last xs = snd (last pts)"
proof -
  assume a: "path_samples pts = Inr xs" "\<forall>p\<in>set pts. length (snd p) = n"
  then obtain qs where q: "segment_samples (map snd pts) = Inr qs" "pts \<noteq> []" "xs = qs @ [snd (last pts)]"
    by (auto simp: path_samples_def rbind_Inr_iff split: if_splits)
  from samples_close [OF q(1), of n] a(2) q(2,3) show ?thesis by (simp add: last_map hd_map)
qed

end
