(* ===== verification/Gazebo_World.thy ===== *)
theory Gazebo_World
  imports Perception Proposals
begin

text \<open>
  The observer of the Gazebo reference run (\<^verbatim>\<open>GazeboWorld\<close> of \<^verbatim>\<open>ros/gazebo/run_reference.py\<close>): the
  feedback it keeps, the fusion of joints, odometry and lidar into one signed world input, the
  proposals it writes, and the scripted test person (\<^verbatim>\<open>scene_layout.py\<close>). Callbacks of one executor run
  one after the other, so a callback is one step; what leaves the node is appended to an output list.
  Computed coordinates are exact rationals; a non-finite odometry coordinate has a value outside the
  bay, as it compares in the code. Cosine and sine, hypotenuse and arc tangent are parameters, and so are
  \<^verbatim>\<open>json.loads\<close> and \<^verbatim>\<open>json.dumps\<close> (\<open>dumpc\<close> with compact separators).
\<close>

section \<open>The test person\<close>

definition PERSON_FORWARD_M :: rat where "PERSON_FORWARD_M = 40 / 100"
definition PERSON_LEFT_M :: rat where "PERSON_LEFT_M = 78 / 100"
definition PERSON_ENTRY_LEFT_M :: rat where "PERSON_ENTRY_LEFT_M = 190 / 100"

definition beside :: "(rat \<Rightarrow> rat \<times> rat) \<Rightarrow> rat \<Rightarrow> point \<Rightarrow> rat \<Rightarrow> point" where
  "beside tr sideways p yaw = (case tr yaw of (c, s) \<Rightarrow>
     (fst p + PERSON_FORWARD_M * c - sideways * s, snd p + PERSON_FORWARD_M * s + sideways * c))"

definition nearby_person :: "(rat \<Rightarrow> rat \<times> rat) \<Rightarrow> point \<Rightarrow> rat \<Rightarrow> point" where
  "nearby_person tr = beside tr PERSON_LEFT_M"

definition person_entry :: "(rat \<Rightarrow> rat \<times> rat) \<Rightarrow> point \<Rightarrow> rat \<Rightarrow> point" where
  "person_entry tr = beside tr PERSON_ENTRY_LEFT_M"

record person_walk =
  pw_start :: point
  pw_end :: point
  pw_started_ms :: int
  pw_speed :: rat
  pw_offset :: rat

record person_motion =
  mo_heading :: rat
  mo_distance :: rat
  mo_speed :: rat
  mo_moving :: bool

text \<open>The constructor of \<^verbatim>\<open>PersonWalk\<close>; \<open>None\<close> is a number that is not finite.\<close>

definition walk_init :: "rat option \<times> rat option \<Rightarrow> rat option \<times> rat option \<Rightarrow> int \<Rightarrow> rat option \<Rightarrow> rat \<Rightarrow> person_walk res" where
  "walk_init start dest started_ms speed offset =
     (case (start, dest, speed) of
        ((Some a, Some b), (Some c, Some d), Some v) \<Rightarrow>
          if v \<le> 0 then Inl (ValueError ''person path requires finite coordinates and positive speed'')
          else Inr \<lparr>pw_start = (a, b), pw_end = (c, d), pw_started_ms = started_ms, pw_speed = v, pw_offset = offset\<rparr>
      | _ \<Rightarrow> Inl (ValueError ''person path requires finite coordinates and positive speed''))"

definition walk_sample :: "(rat \<Rightarrow> rat \<Rightarrow> rat) \<Rightarrow> (rat \<Rightarrow> rat \<Rightarrow> rat) \<Rightarrow> person_walk \<Rightarrow> int \<Rightarrow> point \<times> person_motion" where
  "walk_sample hyp atan2 w stamp_ms =
     (let dx = fst (pw_end w) - fst (pw_start w); dy = snd (pw_end w) - snd (pw_start w); len = hyp dx dy;
          travelled = min len (of_int (max 0 (stamp_ms - pw_started_ms w)) / 1000 * pw_speed w);
          fraction = (if len \<noteq> 0 then travelled / len else 1); moving = travelled < len in
      ((fst (pw_start w) + dx * fraction, snd (pw_start w) + dy * fraction),
       \<lparr>mo_heading = atan2 dy dx, mo_distance = pw_offset w + travelled, mo_speed = (if moving then pw_speed w else 0), mo_moving = moving\<rparr>))"

section \<open>Messages and state\<close>

record joint_msg =
  jm_sec :: int
  jm_nsec :: int
  jm_names :: "string list"
  jm_position :: "float64 list"
  jm_velocity :: "float64 list"

record odom_msg =
  om_sec :: int
  om_nsec :: int
  om_x :: float64
  om_y :: float64
  om_quat :: "float64 \<times> float64 \<times> float64 \<times> float64"
  om_linear :: float64
  om_angular :: float64

record joint_row =
  jr_name :: string
  jr_position :: float64
  jr_velocity :: float64

text \<open>A published world; the outer \<open>None\<close> of the semantics is an absent field.\<close>

record world_payload =
  wp_stamp :: int
  wp_pose :: point
  wp_yaw :: rat
  wp_twist :: "float64 \<times> float64"
  wp_joints :: "joint_row list"
  wp_humans :: "point list"
  wp_confident :: bool
  wp_semantic :: "pyval option"

record telemetry =
  te_sim_ms :: int
  te_pose :: point
  te_speed :: float64
  te_joint :: float64
  te_joints :: "joint_row list"
  te_yaw :: rat
  te_render :: "point list"
  te_detections :: "point list"
  te_sensor :: sensor_info
  te_native_stamp :: "int option"
  te_motion :: "person_motion option"

datatype gw_out = GwWorld world_payload | GwTwist twist | GwTraj trajectory | GwPipe string | GwLive string int "(string \<times> pyval) list" | GwTelemetry telemetry

record person_report =
  rp_wall :: rat
  rp_stamp :: int
  rp_robot :: point
  rp_human :: point

record gazebo =
  gw_live :: bool
  gw_isolated :: bool
  gw_odom :: "odom_msg option"
  gw_joint :: "joint_msg option"
  gw_odom_received :: rat
  gw_joint_received :: rat
  gw_measurements :: "(rat \<times> joint_msg) list"
  gw_perception :: perception
  gw_sensor :: "sensor_info option"
  gw_human :: "point option"
  gw_walk :: "person_walk option"
  gw_motion :: "person_motion option"
  gw_reports :: "person_report list"
  gw_zero :: "(rat \<times> int) list"
  gw_states :: "(rat \<times> pyval) list"
  gw_outcomes :: "(rat \<times> pyval) list"
  gw_commands :: "(rat \<times> float64) list"
  gw_guards :: "(rat \<times> pyval) list"
  gw_base_guards :: "(rat \<times> pyval) list"
  gw_attack :: nat
  gw_count :: nat
  gw_published_stamp :: "int option"
  gw_published :: "(int \<times> bool) list"
  gw_semantic_last :: pyval
  gw_out :: "gw_out list"

definition gazebo_init :: "bool \<Rightarrow> bool \<Rightarrow> gazebo" where
  "gazebo_init live isolated =
     \<lparr>gw_live = live, gw_isolated = isolated, gw_odom = None, gw_joint = None, gw_odom_received = 0, gw_joint_received = 0, gw_measurements = [],
      gw_perception = perception_init, gw_sensor = None, gw_human = None, gw_walk = None, gw_motion = None, gw_reports = [], gw_zero = [],
      gw_states = [], gw_outcomes = [], gw_commands = [], gw_guards = [], gw_base_guards = [], gw_attack = 0, gw_count = 0,
      gw_published_stamp = None, gw_published = [], gw_semantic_last = PNone, gw_out = []\<rparr>"

definition ARM_JOINTS :: "string list" where "ARM_JOINTS = [''joint1'', ''joint2'', ''joint3'', ''joint4'']"

text \<open>\<^verbatim>\<open>guard.get("holding", True)\<close> of the latest report of both controllers.\<close>

definition released :: "(rat \<times> pyval) list \<Rightarrow> bool res" where
  "released samples = (if samples = [] then Inr False else rbind (dget_or (snd (last samples)) ''holding'' (PBool True)) (\<lambda>v. Inr (\<not> truthy v)))"

definition controllers_unlocked :: "gazebo \<Rightarrow> bool res" where
  "controllers_unlocked s =
     (if gw_base_guards s = [] \<or> gw_guards s = [] then Inr False
      else rbind (released (gw_base_guards s)) (\<lambda>b. if b then released (gw_guards s) else Inr False))"

definition put_out :: "gw_out list \<Rightarrow> (gazebo, unit) meth" where
  "put_out xs = mput (\<lambda>s. s\<lparr>gw_out := gw_out s @ xs\<rparr>)"

definition emit_live :: "string \<Rightarrow> int \<Rightarrow> (string \<times> pyval) list \<Rightarrow> (gazebo, unit) meth" where
  "emit_live kind clock_ns values s = mwhen (gw_live s) (put_out [GwLive kind (clock_ns div 1000000) values]) s"

definition marker :: "string \<Rightarrow> int \<Rightarrow> (string \<times> pyval) list \<Rightarrow> (gazebo, unit) meth" where
  "marker label clock_ns values = emit_live ''phase'' clock_ns ((''label'', PStr label) # values)"

section \<open>Feedback\<close>

definition on_state :: "(string \<Rightarrow> pyval res) \<Rightarrow> string \<Rightarrow> rat \<Rightarrow> int \<Rightarrow> (gazebo, unit) meth" where
  "on_state loads data wall clock_ns =
     mbind (mlift (loads data)) (\<lambda>v.
     mthen (mput (\<lambda>s. s\<lparr>gw_states := gw_states s @ [(wall, v)]\<rparr>))
     (mbind (mlift (dget v ''mode'')) (\<lambda>mode. mbind (mlift (dget v ''stop'')) (\<lambda>stop. mbind (mlift (dget_or v ''arm_cancelling'' (PBool False))) (\<lambda>c.
      emit_live ''state'' clock_ns [(''mode'', mode), (''stop'', stop), (''arm_cancelling'', c)])))))"

text \<open>\<^verbatim>\<open>decision.get("action", {}).get("type") if decision.get("action") else None\<close>\<close>

definition action_type :: "pyval \<Rightarrow> pyval res" where
  "action_type decision = rbind (dget decision ''action'') (\<lambda>a. if truthy a then dget a ''type'' else Inr PNone)"

definition on_outcome :: "(string \<Rightarrow> pyval res) \<Rightarrow> string \<Rightarrow> rat \<Rightarrow> int \<Rightarrow> (gazebo, unit) meth" where
  "on_outcome loads data wall clock_ns =
     mbind (mlift (loads data)) (\<lambda>v.
     mthen (mput (\<lambda>s. s\<lparr>gw_outcomes := gw_outcomes s @ [(wall, v)]\<rparr>))
     (mbind (mlift (dget_or v ''decision'' (PDict []))) (\<lambda>d.
      mwhen (truthy d) (mbind (mlift (dget d ''verdict'')) (\<lambda>verdict. mbind (mlift (dget d ''proposal_id'')) (\<lambda>pid.
        mbind (mlift (dget_or d ''fired'' (PList []))) (\<lambda>fired. mbind (mlift (action_type d)) (\<lambda>a.
        emit_live ''decision'' clock_ns [(''verdict'', verdict), (''proposal_id'', pid), (''fired'', fired), (''action'', a)]))))))))"

definition on_guard :: "(string \<Rightarrow> pyval res) \<Rightarrow> bool \<Rightarrow> string \<Rightarrow> rat \<Rightarrow> (gazebo, unit) meth" where
  "on_guard loads base data wall =
     mbind (mlift (loads data)) (\<lambda>v. mput (\<lambda>s. if base then s\<lparr>gw_base_guards := gw_base_guards s @ [(wall, v)]\<rparr>
                                                else s\<lparr>gw_guards := gw_guards s @ [(wall, v)]\<rparr>))"

text \<open>The confidence an attack probe marks its forged worlds with; \<^verbatim>\<open>ValueError\<close> and \<^verbatim>\<open>TypeError\<close> are swallowed.\<close>

definition ATTACK_CONFIDENCE :: float64 where "ATTACK_CONFIDENCE = 0x3FD41B2E59AF9EBF"

definition observe_world_attack :: "(string \<Rightarrow> pyval res) \<Rightarrow> string \<Rightarrow> (gazebo, unit) meth" where
  "observe_world_attack loads data =
     mcatch (mbind (mlift (rbind (loads data) (\<lambda>v. dget v ''confidence''))) (\<lambda>c.
               mwhen (pyeq c (PFloat ATTACK_CONFIDENCE)) (mput (\<lambda>s. s\<lparr>gw_attack := Suc (gw_attack s)\<rparr>))))
            (\<lambda>e. if is_ValueError e \<or> e = TypeError then mret () else mraise e)"

definition on_odom :: "odom_msg \<Rightarrow> rat \<Rightarrow> (gazebo, unit) meth" where
  "on_odom m wall = mput (\<lambda>s. s\<lparr>gw_odom := Some m, gw_odom_received := wall\<rparr>)"

definition on_command :: "float64 \<Rightarrow> rat \<Rightarrow> int \<Rightarrow> int \<Rightarrow> (gazebo, unit) meth" where
  "on_command lin wall zero_ns emit_ns =
     mthen (mput (\<lambda>s. s\<lparr>gw_commands := gw_commands s @ [(wall, lin)]\<rparr>))
     (mthen (mwhen (f_zero lin) (mput (\<lambda>s. s\<lparr>gw_zero := deque_push 512 (wall, zero_ns div 1000000) (gw_zero s)\<rparr>)))
            (emit_live ''base_command'' emit_ns [(''linear'', PFloat lin)]))"

section \<open>Measurements\<close>

definition pose_of :: "odom_msg \<Rightarrow> point" where
  "pose_of m = (5 + f_val (om_x m), 5 + f_val (om_y m))"

definition heading_of :: "(rat \<Rightarrow> rat \<Rightarrow> rat) \<Rightarrow> odom_msg \<Rightarrow> rat" where
  "heading_of atan2 m = (case om_quat m of (x, y, z, w) \<Rightarrow>
     atan2 (2 * (f_val w * f_val z + f_val x * f_val y)) (1 - 2 * (f_val y * f_val y + f_val z * f_val z)))"

definition gw_speed :: "gazebo \<Rightarrow> float64" where
  "gw_speed s = (case gw_odom s of None \<Rightarrow> 0 | Some m \<Rightarrow> om_linear m)"

text \<open>\<^verbatim>\<open>position[list(name).index(x)]\<close>\<close>

definition joint_position :: "joint_msg \<Rightarrow> string \<Rightarrow> float64 res" where
  "joint_position m name =
     (let i = length (takeWhile (\<lambda>n. n \<noteq> name) (jm_names m)) in
      if name \<notin> set (jm_names m) then Inl (ValueError ''not in list'')
      else if i < length (jm_position m) then Inr (jm_position m ! i) else Inl IndexError)"

definition primary_joint :: "joint_msg \<Rightarrow> float64 res" where
  "primary_joint m = joint_position m (hd ARM_JOINTS)"

definition arm_positions :: "joint_msg \<Rightarrow> float64 list res" where
  "arm_positions m = rmap (joint_position m) ARM_JOINTS"

fun joint_rows :: "string list \<Rightarrow> float64 list \<Rightarrow> float64 list \<Rightarrow> joint_row list res" where
  "joint_rows [] ps vs = Inr []"
| "joint_rows (n # ns) [] vs = Inl IndexError"
| "joint_rows (n # ns) (p # ps) vs =
     rbind (joint_rows ns ps (tl vs)) (\<lambda>rows.
     Inr (\<lparr>jr_name = n, jr_position = p, jr_velocity = (case vs of [] \<Rightarrow> 0 | v # _ \<Rightarrow> v)\<rparr> # rows))"

definition measured_joints :: "joint_msg \<Rightarrow> joint_row list res" where
  "measured_joints m = joint_rows (jm_names m) (jm_position m) (jm_velocity m)"

definition joint_stamp :: "joint_msg \<Rightarrow> int" where "joint_stamp m = jm_sec m * 1000 + jm_nsec m div 1000000"
definition odom_stamp :: "odom_msg \<Rightarrow> int" where "odom_stamp m = om_sec m * 1000 + om_nsec m div 1000000"

section \<open>The fused world\<close>

text \<open>What one call reads of its surroundings, in the order it reads it.\<close>

record publish_env =
  pv_wall :: rat
  pv_ns :: int
  pv_snap_ns :: int
  pv_snap_wall :: rat
  pv_native :: "(rat \<times> rat \<times> rat) option \<times> int option"
  pv_semantic :: "(int \<Rightarrow> pyval res) option"
  pv_report_wall :: rat
  pv_guard :: "bool res option"

definition feedback_fresh :: "publish_env \<Rightarrow> gazebo \<Rightarrow> odom_msg \<Rightarrow> joint_msg \<Rightarrow> bool" where
  "feedback_fresh v s om jm \<longleftrightarrow>
     (let now_ms = pv_ns v div 1000000 in
      now_ms \<noteq> 0 \<and> pv_wall v - gw_odom_received s \<le> 1 / 5 \<and> pv_wall v - gw_joint_received s \<le> 1 / 5 \<and>
      - 20 \<le> now_ms - joint_stamp jm \<and> now_ms - joint_stamp jm < 200 \<and> - 20 \<le> now_ms - odom_stamp om \<and> now_ms - odom_stamp om < 200)"

text \<open>The stamp of the fused world: the joint measurement's, and the oldest source's when the scan is healthy.\<close>

definition fused_stamp :: "odom_msg \<Rightarrow> joint_msg \<Rightarrow> sensor_info \<Rightarrow> int" where
  "fused_stamp om jm info =
     (if si_healthy info then min (min (joint_stamp jm) (odom_stamp om)) (the (si_stamp info)) else joint_stamp jm)"

definition gw_snapshot :: "publish_env \<Rightarrow> gazebo \<Rightarrow> odom_msg \<Rightarrow> occupancy" where
  "gw_snapshot v s om = occupancy_snapshot (pv_snap_ns v div 1000000) (pv_snap_wall v) (pose_of om) (gw_perception s)"

definition world_body :: "(rat \<Rightarrow> rat \<Rightarrow> rat) \<Rightarrow> odom_msg \<Rightarrow> joint_msg \<Rightarrow> joint_row list \<Rightarrow> occupancy \<Rightarrow> pyval option \<Rightarrow> world_payload" where
  "world_body atan2 om jm joints snap sem =
     \<lparr>wp_stamp = fused_stamp om jm (oc_info snap), wp_pose = pose_of om, wp_yaw = heading_of atan2 om, wp_twist = (om_linear om, om_angular om),
      wp_joints = concat (map (\<lambda>name. filter (\<lambda>j. jr_name j = name) joints) ARM_JOINTS), wp_humans = oc_humans snap,
      wp_confident = oc_confident snap, wp_semantic = sem\<rparr>"

definition report_person :: "publish_env \<Rightarrow> odom_msg \<Rightarrow> int \<Rightarrow> occupancy \<Rightarrow> gazebo \<Rightarrow> gazebo" where
  "report_person v om stamp snap s =
     (case oc_humans snap of
        h # hs \<Rightarrow> if oc_confident snap then
            s\<lparr>gw_reports := deque_push 512 \<lparr>rp_wall = pv_report_wall v, rp_stamp = stamp, rp_robot = pose_of om, rp_human = nearest (pose_of om) h hs\<rparr> (gw_reports s)\<rparr>
          else s
      | [] \<Rightarrow> s)"

definition send_world :: "world_payload \<Rightarrow> gazebo \<Rightarrow> gazebo" where
  "send_world w s = s\<lparr>gw_out := gw_out s @ [GwWorld w], gw_count := Suc (gw_count s), gw_published_stamp := Some (wp_stamp w),
     gw_published := deque_push 4096 (wp_stamp w, wp_confident w) (gw_published s)\<rparr>"

definition render_humans :: "publish_env \<Rightarrow> gazebo \<Rightarrow> point list" where
  "render_humans v s = (case (gw_human s, fst (pv_native v)) of (Some _, Some (x, y, z)) \<Rightarrow> if 0 < z then [(x, y)] else [] | _ \<Rightarrow> [])"

definition telemetry_of :: "(rat \<Rightarrow> rat \<Rightarrow> rat) \<Rightarrow> publish_env \<Rightarrow> odom_msg \<Rightarrow> joint_msg \<Rightarrow> joint_row list \<Rightarrow> occupancy \<Rightarrow> float64 \<Rightarrow> gazebo \<Rightarrow> telemetry" where
  "telemetry_of atan2 v om jm joints snap primary s =
     \<lparr>te_sim_ms = joint_stamp jm, te_pose = pose_of om, te_speed = om_linear om, te_joint = primary, te_joints = joints, te_yaw = heading_of atan2 om,
      te_render = render_humans v s, te_detections = oc_humans snap, te_sensor = oc_info snap, te_native_stamp = snd (pv_native v), te_motion = gw_motion s\<rparr>"

definition publish_fused :: "(rat \<Rightarrow> rat \<Rightarrow> rat) \<Rightarrow> publish_env \<Rightarrow> odom_msg \<Rightarrow> joint_msg \<Rightarrow> joint_row list \<Rightarrow> occupancy \<Rightarrow> (gazebo, unit) meth" where
  "publish_fused atan2 v om jm joints snap =
     mbind (case pv_semantic v of None \<Rightarrow> mret None
            | Some f \<Rightarrow> mbind (mlift (f (fused_stamp om jm (oc_info snap)))) (\<lambda>sem. mthen (mput (\<lambda>s. s\<lparr>gw_semantic_last := sem\<rparr>)) (mret (Some sem)))) (\<lambda>sem.
     mthen (mput (report_person v om (fused_stamp om jm (oc_info snap)) snap))
     (mbind (mlift (case pv_guard v of None \<Rightarrow> Inr True | Some g \<Rightarrow> g)) (\<lambda>ok.
      mthen (mwhen ok (mput (send_world (world_body atan2 om jm joints snap sem))))
      (mbind (mlift (primary_joint jm)) (\<lambda>primary.
       mbind (mget gw_live) (\<lambda>live. mwhen live (mput (\<lambda>s. s\<lparr>gw_out := gw_out s @ [GwTelemetry (telemetry_of atan2 v om jm joints snap primary s)]\<rparr>))))))))"

definition publish_world :: "(rat \<Rightarrow> rat \<Rightarrow> rat) \<Rightarrow> bool \<Rightarrow> publish_env \<Rightarrow> (gazebo, unit) meth" where
  "publish_world atan2 only_advanced v s =
     (case (gw_odom s, gw_joint s) of
        (Some om, Some jm) \<Rightarrow>
          if \<not> feedback_fresh v s om jm then (Inr (), s)
          else (case measured_joints jm of
              Inl e \<Rightarrow> (Inl e, s)
            | Inr joints \<Rightarrow>
                (let snap = gw_snapshot v s om; s1 = s\<lparr>gw_sensor := Some (oc_info snap)\<rparr>; stamp = fused_stamp om jm (oc_info snap) in
                 if only_advanced \<and> (\<not> si_healthy (oc_info snap) \<or> (case gw_published_stamp s of None \<Rightarrow> False | Some p \<Rightarrow> stamp \<le> p)) then (Inr (), s1)
                 else publish_fused atan2 v om jm joints snap s1))
      | _ \<Rightarrow> (Inr (), s))"

definition on_joint :: "(rat \<Rightarrow> rat \<Rightarrow> rat) \<Rightarrow> joint_msg \<Rightarrow> rat \<Rightarrow> rat \<Rightarrow> publish_env \<Rightarrow> (gazebo, unit) meth" where
  "on_joint atan2 m wall wall2 v =
     mthen (mput (\<lambda>s. s\<lparr>gw_measurements := deque_push 512 (wall, m) (gw_measurements s)\<rparr>))
     (mwhen (set ARM_JOINTS \<subseteq> set (jm_names m))
        (mthen (mput (\<lambda>s. s\<lparr>gw_joint := Some m, gw_joint_received := wall2\<rparr>)) (publish_world atan2 True v)))"

section \<open>The person and the proposals\<close>

definition begin_person_walk :: "(rat \<Rightarrow> rat \<Rightarrow> rat) \<Rightarrow> (rat \<Rightarrow> rat \<Rightarrow> rat) \<Rightarrow> rat option \<times> rat option \<Rightarrow> rat option \<times> rat option \<Rightarrow> rat option \<Rightarrow> int \<Rightarrow> (gazebo, unit) meth" where
  "begin_person_walk hyp atan2 start dest speed clock_ns =
     mbind (mget gw_motion) (\<lambda>motion.
     mbind (mlift (walk_init start dest (clock_ns div 1000000) speed (case motion of None \<Rightarrow> 0 | Some m \<Rightarrow> mo_distance m))) (\<lambda>w.
     mput (\<lambda>s. case walk_sample hyp atan2 w (clock_ns div 1000000) of (p, m) \<Rightarrow> s\<lparr>gw_walk := Some w, gw_human := Some p, gw_motion := Some m\<rparr>)))"

definition desired_person :: "(rat \<Rightarrow> rat \<Rightarrow> rat) \<Rightarrow> (rat \<Rightarrow> rat \<Rightarrow> rat) \<Rightarrow> int \<Rightarrow> gazebo \<Rightarrow> (point option \<times> person_motion option) \<times> gazebo" where
  "desired_person hyp atan2 clock_ns s =
     (let s' = (case gw_walk s of None \<Rightarrow> s
                | Some w \<Rightarrow> (case walk_sample hyp atan2 w (clock_ns div 1000000) of (p, m) \<Rightarrow> s\<lparr>gw_human := Some p, gw_motion := Some m\<rparr>)) in
      ((gw_human s', gw_motion s'), s'))"

definition person_walk_finished :: "gazebo \<Rightarrow> bool res" where
  "person_walk_finished s = (if gw_walk s = None then Inr True else (case gw_motion s of None \<Rightarrow> Inl TypeError | Some m \<Rightarrow> Inr (\<not> mo_moving m)))"

definition freeze_person :: "gazebo \<Rightarrow> gazebo" where
  "freeze_person s = s\<lparr>gw_walk := None, gw_motion := map_option (\<lambda>m. m\<lparr>mo_moving := False, mo_speed := 0\<rparr>) (gw_motion s)\<rparr>"

definition remove_person :: "gazebo \<Rightarrow> gazebo" where
  "remove_person s = s\<lparr>gw_human := None, gw_walk := None, gw_motion := None\<rparr>"

text \<open>The messages of a proposal: a forward velocity, and a plan of positions at milliseconds.\<close>

definition forward_twist :: "float64 \<Rightarrow> twist" where
  "forward_twist v = \<lparr>lin_x = v, lin_y = 0, lin_z = 0, ang_x = 0, ang_y = 0, ang_z = 0\<rparr>"

definition plan_point :: "int \<times> float64 list \<Rightarrow> traj_point" where
  "plan_point p = \<lparr>positions = snd p, velocities = [], accelerations = [], effort = [],
     time_from_start = \<lparr>sec = fst p div 1000, nanosec = fst p mod 1000 * 1000000\<rparr>\<rparr>"

definition plan_traj :: "string list \<Rightarrow> (int \<times> float64 list) list \<Rightarrow> string \<Rightarrow> trajectory" where
  "plan_traj names plan_points frame = \<lparr>joint_names = names, points = map plan_point plan_points, tstamp = \<lparr>sec = 0, nanosec = 0\<rparr>, frame_id = frame\<rparr>"

definition base_line :: "float64 \<Rightarrow> pyval" where
  "base_line v = PDict [(''base'', PFloat v)]"

definition plan_line :: "(int \<times> float64 list) list \<Rightarrow> pyval \<Rightarrow> pyval" where
  "plan_line plan_points semantic =
     PDict [(''joints'', PList (map PStr ARM_JOINTS)), (''points'', PList (map (\<lambda>(ms, qs). PList [PInt ms, PList (map PFloat qs)]) plan_points)), (''semantic'', semantic)]"

definition gw_propose_base :: "(pyval \<Rightarrow> string) \<Rightarrow> float64 \<Rightarrow> (gazebo, unit) meth" where
  "gw_propose_base dumps v s = put_out [if gw_isolated s then GwPipe (dumps (base_line v) @ [char_of (10 :: nat)]) else GwTwist (forward_twist v)] s"

definition propose_arm_plan :: "(string \<Rightarrow> pyval res) \<Rightarrow> (pyval \<Rightarrow> string res) \<Rightarrow> (pyval \<Rightarrow> string) \<Rightarrow> (int \<times> float64 list) list \<Rightarrow> pyval \<Rightarrow> (gazebo, unit) meth" where
  "propose_arm_plan loads dumpc dumps plan_points semantic s =
     (if gw_isolated s then put_out [GwPipe (dumps (plan_line plan_points semantic) @ [char_of (10 :: nat)])] s
      else mbind (mlift (if semantic = PNone then Inr [] else semantic_frame loads dumpc semantic)) (\<lambda>frame.
           put_out [GwTraj (plan_traj ARM_JOINTS plan_points frame)]) s)"

definition gw_propose_arm :: "(string \<Rightarrow> pyval res) \<Rightarrow> (pyval \<Rightarrow> string res) \<Rightarrow> (pyval \<Rightarrow> string) \<Rightarrow> float64 \<Rightarrow> (gazebo, unit) meth" where
  "gw_propose_arm loads dumpc dumps target s =
     (case gw_joint s of
        None \<Rightarrow> (Inl AttributeError, s)
      | Some jm \<Rightarrow> mbind (mlift (arm_positions jm)) (\<lambda>start.
          propose_arm_plan loads dumpc dumps [(0, start), (800, target # tl start), (1000, target # tl start)] PNone) s)"

text \<open>The native body and the lidar agree; \<open>near2\<close> compares squared distances.\<close>

definition person_detected :: "rat \<times> rat \<times> rat \<Rightarrow> point \<Rightarrow> scan_frame \<Rightarrow> bool" where
  "person_detected torso desired f \<longleftrightarrow>
     (let at_torso = (fst torso, fst (snd torso)) in
      fr_healthy f \<and> 3 \<le> length (fr_points f) \<and> dist2 at_torso desired < (25 / 1000)\<^sup>2 \<and> list_ex (\<lambda>p. dist2 p at_torso < (1 / 4)\<^sup>2) (fr_points f))"

section \<open>The scenario's proposal writer\<close>

text \<open>
  \<^verbatim>\<open>scenario_source.py\<close>: one line of its standard input. A message field takes a float, or the assertion
  of the generated message class fails. The burst loop is given by the readings of its clock. Every error
  of a line ends the reader, whatever its class.
\<close>

fun need_float :: "pyval \<Rightarrow> float64 res" where
  "need_float (PFloat w) = Inr w"
| "need_float _ = Inl (AssertionError ''float field'')"

fun plan_row :: "pyval \<Rightarrow> (int \<times> float64 list) res" where
  "plan_row (PList [ms, qs]) = rbind (need_int ms) (\<lambda>n. rbind (need_list qs) (\<lambda>xs. rbind (rmap need_float xs) (\<lambda>ws. Inr (n, ws))))"
| "plan_row _ = Inl (ValueError ''too many values to unpack'')"

definition burst_messages :: "pyval \<Rightarrow> rat \<Rightarrow> rat list \<Rightarrow> gw_out list res" where
  "burst_messages burst start readings =
     rbind (dix burst ''hz'') (\<lambda>hz. rbind (dix burst ''seconds'') (\<lambda>seconds.
     (case (num_of hz, num_of seconds) of
        (Some h, Some t) \<Rightarrow>
          if \<not> (num_le (NFin 1) h \<and> num_le h (NFin 100)) \<or> \<not> (num_lt (NFin 0) t \<and> num_le t (NFin 2))
          then Inl (ValueError ''test burst exceeds its bounded range'')
          else Inr (case t of NFin q \<Rightarrow> map (\<lambda>_. GwTwist (forward_twist 0x3FBEB851EB851EB8)) (takeWhile (\<lambda>now. now < start + q) readings) | _ \<Rightarrow> [])
      | _ \<Rightarrow> Inl TypeError)))"

definition source_line :: "(string \<Rightarrow> pyval res) \<Rightarrow> (pyval \<Rightarrow> string res) \<Rightarrow> rat \<Rightarrow> rat list \<Rightarrow> string \<Rightarrow> gw_out list res" where
  "source_line loads dumpc start readings line =
     rbind (loads line) (\<lambda>v.
     rbind (str_in ''burst'' v) (\<lambda>is_burst.
     if is_burst then rbind (dix v ''burst'') (\<lambda>b. burst_messages b start readings)
     else rbind (str_in ''base'' v) (\<lambda>is_base.
       if is_base then rbind (dix v ''base'') (\<lambda>x. rbind (need_float x) (\<lambda>w. Inr [GwTwist (forward_twist w)]))
       else rbind (dget v ''semantic'') (\<lambda>sem.
            rbind (if sem = PNone then Inr [] else semantic_frame loads dumpc sem) (\<lambda>frame.
            rbind (dix v ''joints'') (\<lambda>js. rbind (need_list js) (\<lambda>js. rbind (rmap need_str js) (\<lambda>names.
            rbind (dix v ''points'') (\<lambda>ps. rbind (need_list ps) (\<lambda>ps. rbind (rmap plan_row ps) (\<lambda>rows.
            Inr [GwTraj (plan_traj names rows frame)])))))))))))"

section \<open>Lemmas\<close>

text \<open>What a world published in state \<open>s\<close> rests on.\<close>

definition world_honest :: "publish_env \<Rightarrow> gazebo \<Rightarrow> world_payload \<Rightarrow> bool" where
  "world_honest v s w \<longleftrightarrow> (\<exists>om jm.
     gw_odom s = Some om \<and> gw_joint s = Some jm \<and> feedback_fresh v s om jm \<and> wp_stamp w \<le> joint_stamp jm \<and> wp_pose w = pose_of om \<and>
     (if wp_confident w then
        wp_stamp w \<le> odom_stamp om \<and> bay_covers (wp_pose w) \<and>
        (\<exists>f. eligible_frame (pv_snap_ns v div 1000000) (gw_perception s) = Some f \<and> fresh_frame (pv_snap_ns v div 1000000) (pv_snap_wall v) f \<and>
             wp_stamp w \<le> fr_stamp f \<and>
             (\<forall>q\<in>set (fr_points f). \<exists>h\<in>set (wp_humans w). h \<in> set (fr_points f) \<and> dist2 h (wp_pose w) \<le> dist2 q (wp_pose w)))
      else wp_humans w = [] \<and> wp_stamp w = joint_stamp jm))"

lemma snapshot_info:
  "si_healthy (oc_info (occupancy_snapshot now_ms wall robot p)) = oc_confident (occupancy_snapshot now_ms wall robot p) \<and>
   si_stamp (oc_info (occupancy_snapshot now_ms wall robot p)) = map_option fr_stamp (eligible_frame now_ms p)"
  by (simp add: occupancy_snapshot_def Let_def split: prod.splits)

lemma body_honest:
  assumes "gw_odom s = Some om" and "gw_joint s = Some jm" and "feedback_fresh v s om jm"
  shows "world_honest v s (world_body atan2 om jm joints (gw_snapshot v s om) sem)"
proof (cases "oc_confident (gw_snapshot v s om)")
  case True
  from snapshot_confident [OF True [unfolded gw_snapshot_def]] obtain f where f:
    "eligible_frame (pv_snap_ns v div 1000000) (gw_perception s) = Some f" "fresh_frame (pv_snap_ns v div 1000000) (pv_snap_wall v) f" "bay_covers (pose_of om)"
    "\<forall>q\<in>set (fr_points f). \<exists>h\<in>set (oc_humans (gw_snapshot v s om)). h \<in> set (fr_points f) \<and> dist2 h (pose_of om) \<le> dist2 q (pose_of om)"
    unfolding gw_snapshot_def by blast
  have "si_healthy (oc_info (gw_snapshot v s om))" "si_stamp (oc_info (gw_snapshot v s om)) = Some (fr_stamp f)"
    using True f(1) by (simp_all add: gw_snapshot_def snapshot_info)
  with f True assms show ?thesis unfolding world_honest_def by (auto simp: world_body_def fused_stamp_def)
next
  case False
  then have "\<not> si_healthy (oc_info (gw_snapshot v s om))" "oc_humans (gw_snapshot v s om) = []"
    by (simp_all add: gw_snapshot_def snapshot_info unconfident_empty)
  with False assms show ?thesis unfolding world_honest_def by (simp add: world_body_def fused_stamp_def)
qed

text \<open>The worlds among the outputs.\<close>

definition worlds :: "gw_out list \<Rightarrow> world_payload list" where
  "worlds xs = List.map_filter (\<lambda>x. case x of GwWorld w \<Rightarrow> Some w | _ \<Rightarrow> None) xs"

lemma worlds_simps [simp]:
  "worlds [] = []" "worlds (xs @ ys) = worlds xs @ worlds ys" "worlds (GwWorld w # xs) = w # worlds xs" "worlds (GwTelemetry t # xs) = worlds xs"
  by (simp_all add: worlds_def List.map_filter_def)

text \<open>A step of the fusion sends nothing or one honest world.\<close>

lemma fused_worlds:
  "worlds (gw_out (snd (publish_fused atan2 v om jm joints snap s))) = worlds (gw_out s) \<or>
   (\<exists>sem. worlds (gw_out (snd (publish_fused atan2 v om jm joints snap s))) = worlds (gw_out s) @ [world_body atan2 om jm joints snap sem])"
  by (auto simp: publish_fused_def meth_defs report_person_def send_world_def split: sum.splits option.splits list.splits)

lemma publish_worlds:
  "worlds (gw_out (snd (publish_world atan2 only_advanced v s))) = worlds (gw_out s) \<or>
   (\<exists>w. worlds (gw_out (snd (publish_world atan2 only_advanced v s))) = worlds (gw_out s) @ [w] \<and> world_honest v s w \<and>
     (only_advanced \<longrightarrow> wp_confident w \<and> (case gw_published_stamp s of None \<Rightarrow> True | Some p \<Rightarrow> p < wp_stamp w)))"
proof (cases "gw_odom s = None \<or> gw_joint s = None")
  case True
  then show ?thesis by (auto simp: publish_world_def split: option.splits)
next
  case False
  then obtain om jm where s: "gw_odom s = Some om" "gw_joint s = Some jm" by auto
  let ?snap = "gw_snapshot v s om" and ?s = "s\<lparr>gw_sensor := Some (oc_info (gw_snapshot v s om))\<rparr>"
  have conf: "si_healthy (oc_info ?snap) = oc_confident ?snap" by (simp add: gw_snapshot_def snapshot_info)
  show ?thesis
  proof (cases "feedback_fresh v s om jm")
    case fresh: True
    show ?thesis
    proof (cases "measured_joints jm")
      case (Inr joints)
      have "world_honest v s (world_body atan2 om jm joints ?snap sem)" for sem using body_honest [OF s fresh] .
      with fused_worlds [of atan2 v om jm joints ?snap ?s] s fresh Inr conf show ?thesis
        by (auto simp: publish_world_def Let_def world_body_def not_le split: option.splits)
    qed (use s fresh in \<open>simp add: publish_world_def\<close>)
  qed (use s in \<open>simp add: publish_world_def\<close>)
qed

text \<open>A plan arrives at the gate as it was written: the milliseconds survive seconds and nanoseconds.\<close>

lemma plan_point_millis: "arm_millis (time_from_start (plan_point p)) = fst p"
  by (simp add: arm_millis_def plan_point_def)

lemma plan_point_read: "0 \<le> fst p \<Longrightarrow> length (snd p) = n \<Longrightarrow> list_all isfinite (snd p) \<Longrightarrow> arm_point n (plan_point p) = Inr p"
proof -
  assume a: "0 \<le> fst p" "length (snd p) = n" "list_all isfinite (snd p)"
  have "0 \<le> fst p div 1000" "fst p mod 1000 < 1000" using a(1) by (simp_all add: pos_imp_zdiv_nonneg_iff)
  with a show ?thesis unfolding arm_point_def plan_point_millis by (simp add: plan_point_def)
qed

lemma plan_rows_read: "rmap plan_row (map (\<lambda>(ms, qs). PList [PInt ms, PList (map PFloat qs)]) ps) = Inr ps"
proof -
  have q: "rmap need_float (map PFloat qs) = Inr qs" for qs by (induction qs) auto
  then show ?thesis by (induction ps) (auto simp: q)
qed

lemma walk_bounds:
  assumes "walk_sample hyp atan2 w stamp_ms = (p, m)" and "0 < pw_speed w" and "\<And>a b. 0 \<le> hyp a b"
  shows "pw_offset w \<le> mo_distance m" and "mo_distance m \<le> pw_offset w + hyp (fst (pw_end w) - fst (pw_start w)) (snd (pw_end w) - snd (pw_start w))"
    and "\<not> mo_moving m \<Longrightarrow> p = pw_end w \<and> mo_speed m = 0"
proof -
  define len where "len = hyp (fst (pw_end w) - fst (pw_start w)) (snd (pw_end w) - snd (pw_start w))"
  define t where "t = min len (of_int (max 0 (stamp_ms - pw_started_ms w)) / 1000 * pw_speed w)"
  have m: "mo_distance m = pw_offset w + t" "mo_moving m = (t < len)" "mo_speed m = (if t < len then pw_speed w else 0)"
    "p = (fst (pw_start w) + (fst (pw_end w) - fst (pw_start w)) * (if len \<noteq> 0 then t / len else 1),
          snd (pw_start w) + (snd (pw_end w) - snd (pw_start w)) * (if len \<noteq> 0 then t / len else 1))"
    using assms(1) unfolding walk_sample_def Let_def len_def [symmetric] t_def [symmetric] by auto
  have "0 \<le> len" using assms(3) by (simp add: len_def)
  then have t: "0 \<le> t" "t \<le> len" using assms(2) by (auto simp: t_def)
  show "pw_offset w \<le> mo_distance m" using m t by simp
  show "mo_distance m \<le> pw_offset w + hyp (fst (pw_end w) - fst (pw_start w)) (snd (pw_end w) - snd (pw_start w))" using m t by (simp add: len_def)
  show "p = pw_end w \<and> mo_speed m = 0" if "\<not> mo_moving m" using that m t by (auto simp: prod_eq_iff)
qed

end
