(* ===== verification/Hazard_Lab.thy ===== *)
theory Hazard_Lab
  imports Arm_Kinematics Gazebo_World Dispatch_Evidence
begin

text \<open>
  The household hazard laboratory (\<^verbatim>\<open>ros/gazebo/hazard_lab.py\<close>): its readiness rules, the fixed plans, the
  measured request it hands to the judge, the semantic facts it adds to the published world, the tracking
  monitor and the checks before a dispatch. Fixture poses, distances and times are exact rationals; joint
  positions are finite. \<open>tr\<close> and \<open>atan2\<close> are the platform's trigonometry; clock readings are arguments in
  the order the code takes them. The titles of the cases and the drawing of the scene are left out.
\<close>

section \<open>Cases and plans\<close>

record hazard_case =
  hc_id :: string
  hc_item :: string
  hc_kind :: string
  hc_expected :: string

definition CASES :: "hazard_case list" where
  "CASES =
     [\<lparr>hc_id = ''human'', hc_item = ''knife'', hc_kind = ''human'', hc_expected = ''human:protected-volume''\<rparr>,
      \<lparr>hc_id = ''heat'', hc_item = ''pressurized'', hc_kind = ''heat'', hc_expected = ''heat:hazardous-item''\<rparr>,
      \<lparr>hc_id = ''electricity'', hc_item = ''conductive'', hc_kind = ''electrical'', hc_expected = ''electricity:contact''\<rparr>,
      \<lparr>hc_id = ''water'', hc_item = ''battery'', hc_kind = ''water'', hc_expected = ''water:electrical-item''\<rparr>,
      \<lparr>hc_id = ''chemicals'', hc_item = ''ammonia'', hc_kind = ''container'', hc_expected = ''chemicals:incompatible''\<rparr>,
      \<lparr>hc_id = ''fall'', hc_item = ''inert'', hc_kind = ''fall'', hc_expected = ''fall:protected-volume''\<rparr>]"

definition PLAN_TTL_MS :: int where "PLAN_TTL_MS = 1000"

type_synonym arm_plan = "(int \<times> float64 list) list"

definition lab_plan :: "float64 list \<Rightarrow> float64 \<Rightarrow> arm_plan" where
  "lab_plan start target = (let dest = target # tl start in [(0, start), (800, dest), (900, dest)])"

text \<open>A number of an accepted action next to the one of the plan; only finite numbers are within the tolerance.\<close>

definition same_position :: "pyval \<Rightarrow> float64 \<Rightarrow> bool res" where
  "same_position v w =
     (case num_of v of
        None \<Rightarrow> Inl TypeError
      | Some (NFin q) \<Rightarrow> Inr (isfinite w \<and> \<bar>q - f_val w\<bar> \<le> 1 / 10 ^ 12)
      | Some _ \<Rightarrow> Inr False)"

definition row_matches :: "pyval \<times> int \<times> float64 list \<Rightarrow> bool res" where
  "row_matches rp = (case rp of (row, millis, values) \<Rightarrow>
     rbind (dget row ''time_from_start_ms'') (\<lambda>t.
     if \<not> pyeq t (PInt millis) then Inr False
     else rbind (dget_or row ''positions'' (PList [])) (\<lambda>ps. rbind (need_list ps) (\<lambda>ps.
       if length ps \<noteq> length values then Inr False else rand (map (\<lambda>(p, w). same_position p w) (zip ps values))))))"

definition accepted_plan_matches :: "arm_plan \<Rightarrow> pyval \<Rightarrow> bool res" where
  "accepted_plan_matches pts action =
     rbind (dget_or action ''points'' (PList [])) (\<lambda>rows.
     rbind (dget action ''type'') (\<lambda>kind. rbind (dget action ''ttl_ms'') (\<lambda>ttl.
     if kind \<noteq> PStr ''joint_trajectory'' \<or> \<not> pyeq ttl (PInt PLAN_TTL_MS) then Inr False
     else rbind (need_list rows) (\<lambda>rows. if length rows \<noteq> length pts then Inr False else rand (map row_matches (zip rows pts))))))"

fun interpolated :: "(int \<times> rat list) list \<Rightarrow> int \<Rightarrow> rat list option" where
  "interpolated ((t0, a) # (t1, b) # rest) elapsed =
     (if elapsed \<le> t1 then
        (let fraction = max 0 (min 1 (of_int (elapsed - t0) / of_int (t1 - t0))) in Some (map (\<lambda>(x, y). x + (y - x) * fraction) (zip a b)))
      else interpolated ((t1, b) # rest) elapsed)"
| "interpolated _ elapsed = None"

definition expected_positions :: "(int \<times> rat list) list \<Rightarrow> int \<Rightarrow> rat list" where
  "expected_positions pts elapsed = (case interpolated pts elapsed of Some q \<Rightarrow> q | None \<Rightarrow> snd (last pts))"

definition tracking_start_ms :: "pyval \<Rightarrow> int res" where
  "tracking_start_ms decision =
     rbind (dix decision ''expires_ms'') (\<lambda>e. rbind (dix decision ''action'') (\<lambda>a. rbind (dix a ''ttl_ms'') (\<lambda>t.
     rbind (need_int e) (\<lambda>e. rbind (need_int t) (\<lambda>t. Inr (e - t))))))"

section \<open>Observations\<close>

record native_sample =
  ns_pos :: vec3
  ns_stamp :: int
  ns_wall :: rat
  ns_quat :: "rat \<times> rat \<times> rat \<times> rat"

type_synonym native_poses = "string \<rightharpoonup> native_sample"

text \<open>One pose message: the stamp of its header, its poses with the wall time each was stored at.\<close>

fun native_observe :: "int \<times> int \<Rightarrow> (string \<times> vec3 \<times> (rat \<times> rat \<times> rat \<times> rat) \<times> rat) list \<Rightarrow> native_poses \<Rightarrow> native_poses" where
  "native_observe hdr [] m = m"
| "native_observe hdr ((name, pos, quat, wall) # rest) m =
     native_observe hdr rest
       (if is_prefix ''hazard_'' name then m(name \<mapsto> \<lparr>ns_pos = pos, ns_stamp = fst hdr * 1000 + snd hdr div 1000000, ns_wall = wall, ns_quat = quat\<rparr>) else m)"

definition fresh_sample :: "native_sample option \<Rightarrow> int \<Rightarrow> rat \<Rightarrow> bool" where
  "fresh_sample x now_ms wall_now \<longleftrightarrow>
     (case x of None \<Rightarrow> False
      | Some n \<Rightarrow> - 20 \<le> now_ms - ns_stamp n \<and> now_ms - ns_stamp n \<le> 200 \<and> 0 \<le> wall_now - ns_wall n \<and> wall_now - ns_wall n \<le> 1 / 5)"

definition dist3 :: "vec3 \<Rightarrow> vec3 \<Rightarrow> rat" where
  "dist3 a b = (case (a, b) of ((x, y, z), (u, v, w)) \<Rightarrow> (x - u)\<^sup>2 + (y - v)\<^sup>2 + (z - w)\<^sup>2)"

definition slow :: "float64 \<Rightarrow> bool" where
  "slow v \<longleftrightarrow> isfinite v \<and> \<bar>f_val v\<bar> < f_val 0x3F847AE147AE147B"

definition stationary :: "(rat \<Rightarrow> rat \<times> rat) \<Rightarrow> (rat \<Rightarrow> rat \<Rightarrow> rat) \<Rightarrow> point \<Rightarrow> point \<Rightarrow> rat \<Rightarrow> rat \<Rightarrow> float64 \<Rightarrow> bool" where
  "stationary tr atan2 before after before_yaw after_yaw speed \<longleftrightarrow>
     dist2 before after \<le> (2 / 1000)\<^sup>2 \<and> (case tr (after_yaw - before_yaw) of (c, s) \<Rightarrow> \<bar>atan2 s c\<bar> \<le> 1 / 100) \<and> slow speed"

section \<open>Readiness\<close>

definition ordinary_completion :: "row \<Rightarrow> bool" where
  "ordinary_completion state \<longleftrightarrow>
     getf state ''mode'' = PStr ''normal'' \<and> getf state ''stop'' \<in> {PStr ''no_command'', PStr ''startup''} \<and> getf state ''active'' = PNone \<and>
     \<not> truthy (getf state ''arm_cancelling'')"

text \<open>\<^verbatim>\<open>0 <= wall - t < 0.1\<close>\<close>

definition just_now :: "rat \<Rightarrow> rat \<Rightarrow> bool" where
  "just_now wall t \<longleftrightarrow> 0 \<le> wall - t \<and> wall - t < 1 / 10"

definition resting :: "float64 \<Rightarrow> bool" where
  "resting v \<longleftrightarrow> isfinite v \<and> \<bar>f_val v\<bar> < f_val 0x3F9EB851EB851EB8"

definition joints_resting :: "joint_msg \<Rightarrow> bool" where
  "joints_resting jm \<longleftrightarrow>
     list_all (\<lambda>name. case map_of (rev (zip (jm_names jm) (jm_velocity jm))) name of None \<Rightarrow> False | Some v \<Rightarrow> resting v) ARM_JOINTS"

definition age_under_75 :: "pyval \<Rightarrow> bool" where
  "age_under_75 v \<longleftrightarrow> is_number v \<and> (case num_of v of Some x \<Rightarrow> num_le (NFin 0) x \<and> num_lt x (NFin 75) | None \<Rightarrow> False)"

definition setup_reset_ready :: "gazebo \<Rightarrow> int \<Rightarrow> rat \<Rightarrow> bool res" where
  "setup_reset_ready g sim_ms wall =
     (case (gw_states g, gw_joint g) of
        (_ # _, Some jm) \<Rightarrow>
          if (case gw_sensor g of None \<Rightarrow> True | Some i \<Rightarrow> \<not> si_healthy i) \<or> \<not> just_now wall (fst (last (gw_states g))) \<or>
             \<not> just_now wall (gw_odom_received g) \<or> \<not> just_now wall (gw_joint_received g) then Inr False
          else rbind (need_dict (snd (last (gw_states g)))) (\<lambda>state.
            if getf state ''mode'' \<noteq> PStr ''normal'' \<or> getf state ''recorder_ok'' \<noteq> PBool True \<or> getf state ''state_ok'' \<noteq> PBool True \<or>
               getf state ''active'' \<noteq> PNone \<or> truthy (getf state ''arm_cancelling'') \<or> \<not> truthy (getf state ''arm_controller_ready'') \<or>
               \<not> age_under_75 (getf state ''world_age_ms'') \<or> \<not> truthy (gw_semantic_last g) then Inr False
            else rbind (need_dict (gw_semantic_last g)) (\<lambda>sem.
              if getf sem ''coverage_known'' \<noteq> PBool True \<or> \<not> eq_int (getf sem ''confidence'') 1 then Inr False
              else rbind (dix (PDict sem) ''observed_ms'') (\<lambda>ob. rbind (need_int ob) (\<lambda>ob.
                if \<not> (0 \<le> sim_ms - ob \<and> sim_ms - ob < 75) then Inr False
                else rbind (dix (PDict sem) ''revision'') (\<lambda>r.
                  if \<not> pyeq (getf state ''semantic_revision'') r then Inr False
                  else rbind (dix (PDict sem) ''task_revision'') (\<lambda>t.
                    Inr (pyeq (getf state ''semantic_task_revision'') t \<and> resting (gw_speed g) \<and> joints_resting jm)))))))
      | _ \<Rightarrow> Inr False)"

text \<open>The gate's state after a test: completed, or denied since the verified denial.\<close>

definition rearm_allowed :: "(rat \<times> row) list \<Rightarrow> rat option \<Rightarrow> bool" where
  "rearm_allowed states denied_at \<longleftrightarrow>
     states \<noteq> [] \<and>
     (let (t, state) = last states in
      ordinary_completion state \<or>
      (case denied_at of None \<Rightarrow> False | Some d \<Rightarrow> d \<le> t) \<and> getf state ''mode'' = PStr ''normal'' \<and> getf state ''stop'' = PStr ''denied'' \<and>
      getf state ''active'' = PNone \<and> \<not> truthy (getf state ''arm_cancelling''))"

text \<open>\<^verbatim>\<open>HazardJudge.decide\<close>: \<open>None\<close> is no answer within two seconds.\<close>

definition judge_answer :: "(string \<Rightarrow> pyval res) \<Rightarrow> string option \<Rightarrow> row res" where
  "judge_answer loads line =
     (case line of
        None \<Rightarrow> Inl (TimeoutError ''hazard judge response missing'')
      | Some l \<Rightarrow> rbind (loads (utake 4096 l)) (\<lambda>v. rbind (need_dict v) (\<lambda>d.
          if \<not> is_bool (getf d ''allowed'') \<or> \<not> is_str (getf d ''reason'') then Inl (ValueError ''invalid hazard decision'') else Inr d)))"

section \<open>The laboratory\<close>

datatype lab_error = Unavailable "string list" snapshot | Raised exn

record motion_guard =
  mg_active :: bool
  mg_base :: point
  mg_yaw :: rat
  mg_target :: vec3

record semantic_context =
  sx_item :: "string option"
  sx_contents :: "string list"
  sx_revision :: int
  sx_task_revision :: int
  sx_facts :: "string option"
  sx_task_id :: "string option"
  sx_base_pose :: "point option"
  sx_base_yaw :: "rat option"
  sx_step :: int
  sx_step_id :: "string option"

text \<open>One omission: the reasons, what was observed, the case, the task revision, the step and the stamp of the world.\<close>

type_synonym omission = "string list \<times> snapshot \<times> string option \<times> int \<times> string option \<times> int"

record lab =
  lb_case :: "string option"
  lb_stage :: nat
  lb_native :: native_poses
  lb_failure :: "string option"
  lb_alive :: bool
  lb_guard :: motion_guard
  lb_context :: semantic_context
  lb_omissions :: "omission omissions"

definition context_init :: semantic_context where
  "context_init = \<lparr>sx_item = None, sx_contents = [], sx_revision = 0, sx_task_revision = 0, sx_facts = None, sx_task_id = None, sx_base_pose = None,
     sx_base_yaw = None, sx_step = 0, sx_step_id = None\<rparr>"

definition fixture :: "string option \<Rightarrow> string \<Rightarrow> string" where
  "fixture case_id role = ''hazard_'' @ (case case_id of None \<Rightarrow> ''None'' | Some c \<Rightarrow> c) @ ''_'' @ role"

definition target_sample :: "lab \<Rightarrow> native_sample option" where "target_sample l = lb_native l (fixture (lb_case l) ''target'')"
definition item_sample :: "lab \<Rightarrow> native_sample option" where "item_sample l = lb_native l (fixture (lb_case l) ''item'')"

text \<open>The guard over a dispatched motion: the published world stops as soon as it is false.\<close>

definition lab_healthy :: "(rat \<Rightarrow> rat \<times> rat) \<Rightarrow> (rat \<Rightarrow> rat \<Rightarrow> rat) \<Rightarrow> gazebo \<Rightarrow> int \<Rightarrow> rat \<Rightarrow> lab \<Rightarrow> bool res" where
  "lab_healthy tr atan2 g now_ms wall l =
     (if lb_failure l \<notin> {None, Some []} \<or> \<not> lb_alive l \<or> \<not> fresh_sample (target_sample l) now_ms wall then Inr False
      else (case (gw_odom g, target_sample l) of
          (Some om, Some x) \<Rightarrow>
            Inr (stationary tr atan2 (mg_base (lb_guard l)) (pose_of om) (mg_yaw (lb_guard l)) (heading_of atan2 om) (gw_speed g) \<and>
                 dist3 (ns_pos x) (mg_target (lb_guard l)) \<le> (2 / 1000)\<^sup>2)
        | _ \<Rightarrow> Inl TypeError))"

definition hazard_guard :: "(rat \<Rightarrow> rat \<times> rat) \<Rightarrow> (rat \<Rightarrow> rat \<Rightarrow> rat) \<Rightarrow> gazebo \<Rightarrow> int \<Rightarrow> rat \<Rightarrow> lab \<Rightarrow> bool res" where
  "hazard_guard tr atan2 g now_ms wall l = (if mg_active (lb_guard l) then lab_healthy tr atan2 g now_ms wall l else Inr True)"

section \<open>The measured request\<close>

record region =
  rg_id :: string
  rg_kind :: string
  rg_low :: vec3
  rg_high :: vec3
  rg_contents :: "string list"

record measured =
  mr_now_ms :: int
  mr_observed_ms :: int
  mr_item :: string
  mr_start :: vec3
  mr_path :: "vec3 list"
  mr_regions :: "region list"

definition box_region :: "string \<Rightarrow> string \<Rightarrow> vec3 \<Rightarrow> string list \<Rightarrow> region" where
  "box_region rid kind p contents =
     (case p of (x, y, z) \<Rightarrow>
      \<lparr>rg_id = rid, rg_kind = kind, rg_low = (x - 6 / 100, y - 6 / 100, z - 9 / 100), rg_high = (x + 6 / 100, y + 6 / 100, z + 9 / 100), rg_contents = contents\<rparr>)"

record lab_clock =
  lc_now :: int
  lc_wall :: rat
  lc_now2 :: int

definition lab_snapshot :: "gazebo \<Rightarrow> int \<Rightarrow> rat \<Rightarrow> lab \<Rightarrow> snapshot" where
  "lab_snapshot g now_ms wall l =
     observation_snapshot now_ms wall (map_option (\<lambda>x. (ns_stamp x, ns_wall x)) (target_sample l)) (map_option (\<lambda>x. (ns_stamp x, ns_wall x)) (item_sample l))
       (map_option (\<lambda>m. (jm_sec m, jm_nsec m)) (gw_joint g)) (map_option (\<lambda>m. (om_sec m, om_nsec m)) (gw_odom g))
       (Some (gw_joint_received g)) (Some (gw_odom_received g))"

definition request_reasons :: "gazebo \<Rightarrow> int \<Rightarrow> rat \<Rightarrow> lab \<Rightarrow> string list" where
  "request_reasons g now_ms wall l =
     (if lb_failure l \<notin> {None, Some []} then [''native_fixture_failure''] else []) @
     (if fresh_sample (target_sample l) now_ms wall then [] else [''target_missing_or_stale'']) @
     (if fresh_sample (item_sample l) now_ms wall then [] else [''item_missing_or_stale'']) @
     (if 1 / 5 < wall - gw_joint_received g then [''joint_receive_stale''] else []) @
     (if 1 / 5 < wall - gw_odom_received g then [''odom_receive_stale''] else [])"

definition rat_plan :: "arm_plan \<Rightarrow> (int \<times> rat list) list" where
  "rat_plan = map (\<lambda>(t, q). (t, map f_val q))"

definition lab_path :: "(rat \<Rightarrow> rat \<times> rat) \<Rightarrow> kin_joint list \<Rightarrow> arm_plan \<Rightarrow> vec3 list option \<Rightarrow> point \<Rightarrow> rat \<Rightarrow> vec3 list res" where
  "lab_path tr chain pts base_path pose yaw =
     (case base_path of None \<Rightarrow> kin_path tr chain (rat_plan pts) pose yaw | Some b \<Rightarrow> Inr (project_path tr b pose yaw))"

text \<open>\<^verbatim>\<open>CASES[stage - 1]\<close>: stage 0 reads the last case.\<close>

definition stage_kind :: "lab \<Rightarrow> string res" where
  "stage_kind l = (if length CASES < lb_stage l then Inl IndexError else Inr (hc_kind (if lb_stage l = 0 then last CASES else CASES ! (lb_stage l - 1))))"

text \<open>\<^verbatim>\<open>request\<close>; a missing message or sample that passed its receive check raises like the code's attribute access.\<close>

definition lab_request :: "(rat \<Rightarrow> rat \<times> rat) \<Rightarrow> (rat \<Rightarrow> rat \<Rightarrow> rat) \<Rightarrow> kin_joint list \<Rightarrow> gazebo \<Rightarrow> lab_clock \<Rightarrow> lab \<Rightarrow> string \<Rightarrow> arm_plan \<Rightarrow>
    string list \<Rightarrow> vec3 list option \<Rightarrow> lab_error + measured" where
  "lab_request tr atan2 chain g c l item pts contents base_path =
     (let reasons = request_reasons g (lc_now c) (lc_wall c) l; snap = lab_snapshot g (lc_now c) (lc_wall c) l in
      if reasons \<noteq> [] then Inl (Unavailable reasons snap)
      else if \<not> slow (gw_speed g) then Inl (Unavailable [''base_not_stationary''] snap)
      else (case (target_sample l, item_sample l, gw_odom g, gw_joint g) of
          (Some x, Some it, Some om, Some jm) \<Rightarrow>
            (case rbind (lab_path tr chain pts base_path (pose_of om) (heading_of atan2 om)) (\<lambda>path.
                  rbind (arm_positions jm) (\<lambda>qs. rbind (kin_point tr chain (map f_val qs) (pose_of om) (heading_of atan2 om)) (\<lambda>start.
                  rbind (stage_kind l) (\<lambda>kind. Inr (path, start, kind))))) of
               Inl e \<Rightarrow> Inl (Raised e)
             | Inr (path, start, kind) \<Rightarrow>
                 Inr \<lparr>mr_now_ms = lc_now2 c, mr_observed_ms = min (min (ns_stamp x) (ns_stamp it)) (min (joint_stamp jm) (odom_stamp om)),
                      mr_item = item, mr_start = start, mr_path = path,
                      mr_regions = [box_region (fixture (lb_case l) ''target'') kind (ns_pos x) contents]\<rparr>)
        | _ \<Rightarrow> Inl (Raised AttributeError)))"

definition STALE_REASONS :: "string list" where
  "STALE_REASONS = [''target_missing_or_stale'', ''item_missing_or_stale'', ''joint_receive_stale'', ''odom_receive_stale'']"

text \<open>The poll of \<^verbatim>\<open>fresh_request\<close>: an observation less than 75 ms old, or a stale one to wait for; else an error.\<close>

definition request_ready :: "lab_error + measured \<Rightarrow> lab_error + measured option" where
  "request_ready r =
     (case r of
        Inl (Unavailable reasons snap) \<Rightarrow> if reasons \<noteq> [] \<and> set reasons \<subseteq> set STALE_REASONS then Inr None else Inl (Unavailable reasons snap)
      | Inl e \<Rightarrow> Inl e
      | Inr m \<Rightarrow> Inr (if 0 \<le> mr_now_ms m - mr_observed_ms m \<and> mr_now_ms m - mr_observed_ms m < 75 then Some m else None))"

section \<open>Semantic facts\<close>

definition set_semantic_context :: "(rat \<Rightarrow> rat \<Rightarrow> rat) \<Rightarrow> gazebo \<Rightarrow> string \<Rightarrow> string list \<Rightarrow> bool \<Rightarrow> (lab, unit) meth" where
  "set_semantic_context atan2 g item contents new_step l =
     (case lb_case l of
        None \<Rightarrow> (Inl TypeError, l)
      | Some c \<Rightarrow>
          (let x = lb_context l; task = ''household-lab-'' @ c in
           if \<not> new_step \<and> sx_item x = Some item \<and> sx_contents x = contents \<and> sx_task_id x = Some task then (Inr (), l)
           else let n = sx_step x + 1; x1 = x\<lparr>sx_step := n, sx_step_id := Some (''fixture-motion-'' @ show_int n)\<rparr> in
             (case gw_odom g of
                None \<Rightarrow> (Inl TypeError, l\<lparr>lb_context := x1\<rparr>)
              | Some om \<Rightarrow> (Inr (), l\<lparr>lb_context := x1\<lparr>sx_item := Some item, sx_contents := contents, sx_task_id := Some task,
                    sx_task_revision := sx_task_revision x + 1, sx_base_pose := Some (pose_of om), sx_base_yaw := Some (heading_of atan2 om)\<rparr>\<rparr>))))"

record semantic_facts =
  sf_task_revision :: int
  sf_task_id :: "string option"
  sf_step_id :: "string option"
  sf_robot :: string
  sf_model :: string
  sf_tool :: string
  sf_item_id :: string
  sf_item :: string
  sf_regions :: "region list"
  sf_base_pose :: "point option"
  sf_base_yaw :: "rat option"

record semantic_world =
  sw_facts :: semantic_facts
  sw_revision :: int
  sw_observed_ms :: int

definition record_omission :: "string list \<Rightarrow> snapshot \<Rightarrow> int \<Rightarrow> lab \<Rightarrow> lab" where
  "record_omission reasons snap stamp l =
     l\<lparr>lb_omissions := omission_record (reasons, snap, lb_case l, sx_task_revision (lb_context l), sx_step_id (lb_context l), stamp) (lb_omissions l)\<rparr>"

definition exn_class :: "exn \<Rightarrow> string" where
  "exn_class e = (case e of KeyError _ \<Rightarrow> ''KeyError'' | ValueError _ \<Rightarrow> ''ValueError'' | _ \<Rightarrow> ''RuntimeError'')"

text \<open>The registered container stays in the observation of the other cases; \<open>None\<close> when it is not fresh.\<close>

definition with_container :: "int \<Rightarrow> rat \<Rightarrow> lab \<Rightarrow> measured \<Rightarrow> measured option" where
  "with_container now_ms wall l m =
     (if lb_case l = Some ''chemicals'' then Some m
      else let container = lb_native l ''hazard_chemicals_target'' in
        if \<not> fresh_sample container now_ms wall then None
        else map_option (\<lambda>n. m\<lparr>mr_regions := mr_regions m @ [box_region ''hazard_chemicals_target'' ''container'' (ns_pos n) []],
                               mr_observed_ms := min (mr_observed_ms m) (ns_stamp n)\<rparr>) container)"

definition facts_of :: "household_policy \<Rightarrow> string \<Rightarrow> string \<Rightarrow> semantic_context \<Rightarrow> measured \<Rightarrow> semantic_facts" where
  "facts_of pol c item x m =
     \<lparr>sf_task_revision = sx_task_revision x, sf_task_id = sx_task_id x, sf_step_id = sx_step_id x, sf_robot = hp_robot pol, sf_model = hp_model pol,
      sf_tool = hp_tool pol, sf_item_id = ''hazard_'' @ c @ ''_item_'' @ item, sf_item = mr_item m, sf_regions = mr_regions m,
      sf_base_pose = sx_base_pose x, sf_base_yaw = sx_base_yaw x\<rparr>"

record semantic_env =
  se_clock :: lab_clock
  se_now3 :: int
  se_wall3 :: rat

text \<open>\<open>canon\<close> is the sorted compact JSON text of the facts.\<close>

definition semantic_snapshot :: "(rat \<Rightarrow> rat \<times> rat) \<Rightarrow> (rat \<Rightarrow> rat \<Rightarrow> rat) \<Rightarrow> kin_joint list \<Rightarrow> household_policy \<Rightarrow> (semantic_facts \<Rightarrow> string) \<Rightarrow> gazebo \<Rightarrow>
    semantic_env \<Rightarrow> int \<Rightarrow> (lab, semantic_world option) meth" where
  "semantic_snapshot tr atan2 chain pol canon g v fused_stamp_ms l =
     (let x = lb_context l in
      case (lb_case l, sx_item x) of
        (Some c, Some item) \<Rightarrow>
          if c = [] then (Inr None, l)
          else (case (case gw_joint g of None \<Rightarrow> Inl AttributeError | Some jm \<Rightarrow> arm_positions jm) of
            Inl e \<Rightarrow> if is_RuntimeError e \<or> is_ValueError e \<or> is_KeyError e
                     then (Inr None, record_omission [exn_class e] (lab_snapshot g (se_now3 v) (se_wall3 v) l) fused_stamp_ms l) else (Inl e, l)
          | Inr qs \<Rightarrow>
              (case lab_request tr atan2 chain g (se_clock v) l item [(0, qs), (1, qs)] (sx_contents x) None of
                 Inl (Unavailable reasons snap) \<Rightarrow> (Inr None, record_omission reasons snap fused_stamp_ms l)
               | Inl (Raised e) \<Rightarrow>
                   if is_RuntimeError e \<or> is_ValueError e \<or> is_KeyError e
                   then (Inr None, record_omission [exn_class e] (lab_snapshot g (lc_now (se_clock v)) (lc_wall (se_clock v)) l) fused_stamp_ms l) else (Inl e, l)
               | Inr m0 \<Rightarrow>
                   (case with_container (se_now3 v) (se_wall3 v) l m0 of
                      None \<Rightarrow>
                        (Inr None, record_omission [''container_missing_or_stale'']
                           \<lparr>sn_sim = se_now3 v, sn_wall = se_wall3 v,
                            sn_sources = sn_sources (lab_snapshot g (lc_now (se_clock v)) (lc_wall (se_clock v)) l) @
                              [(''container'', map_option ns_stamp (lb_native l ''hazard_chemicals_target''), map_option ns_wall (lb_native l ''hazard_chemicals_target''))]\<rparr>
                           fused_stamp_ms l)
                    | Some m \<Rightarrow>
                        (let facts = facts_of pol c item x m; text = canon facts;
                             x1 = (if sx_facts x = Some text then x else x\<lparr>sx_facts := Some text, sx_revision := sx_revision x + 1\<rparr>) in
                         (Inr (Some \<lparr>sw_facts = facts, sw_revision = sx_revision x1, sw_observed_ms = min (mr_observed_ms m) fused_stamp_ms\<rparr>),
                          l\<lparr>lb_context := x1\<rparr>)))))
      | _ \<Rightarrow> (Inr None, l))"

text \<open>The binding of a proposal, once the gate's state shows the revisions of the last published facts.\<close>

definition accepted_context :: "(rat \<times> row) list \<Rightarrow> semantic_world option \<Rightarrow> lab \<Rightarrow> bool" where
  "accepted_context states published l =
     (case published of
        None \<Rightarrow> False
      | Some w \<Rightarrow> states \<noteq> [] \<and>
          (let state = snd (last states) in
           sf_task_revision (sw_facts w) = sx_task_revision (lb_context l) \<and> pyeq (getf state ''semantic_revision'') (PInt (sw_revision w)) \<and>
           pyeq (getf state ''semantic_task_revision'') (PInt (sf_task_revision (sw_facts w)))))"

definition opt_str :: "string option \<Rightarrow> pyval" where
  "opt_str s = (case s of None \<Rightarrow> PNone | Some t \<Rightarrow> PStr t)"

definition binding_of :: "semantic_world \<Rightarrow> pyval" where
  "binding_of w =
     (let f = sw_facts w in
      PDict [(''schema_version'', PInt 1), (''task_revision'', PInt (sf_task_revision f)), (''task_id'', opt_str (sf_task_id f)), (''step_id'', opt_str (sf_step_id f)),
        (''robot_id'', PStr (sf_robot f)), (''model_sha256'', PStr (sf_model f)), (''tool_id'', PStr (sf_tool f)), (''item_id'', PStr (sf_item_id f)),
        (''world_revision'', PInt (sw_revision w))])"

section \<open>Tracking\<close>

record tracking =
  tk_points :: "arm_plan option"
  tk_after :: rat
  tk_max_error :: rat
  tk_samples :: nat
  tk_last :: "int option"
  tk_accepted :: "row option"

text \<open>The first outcome since the dispatch that accepted this plan.\<close>

fun accepted_decision :: "arm_plan \<Rightarrow> rat \<Rightarrow> (rat \<times> row) list \<Rightarrow> row option res" where
  "accepted_decision pts after [] = Inr None"
| "accepted_decision pts after ((t, row) # rest) =
     (if t < after then accepted_decision pts after rest
      else rbind (need_dict (dict_field row ''decision'')) (\<lambda>d.
        if getf d ''verdict'' \<noteq> PStr ''yun'' then accepted_decision pts after rest
        else rbind (accepted_plan_matches pts (dict_field d ''action'')) (\<lambda>ok. if ok then Inr (Some d) else accepted_decision pts after rest)))"

definition tracking_error :: "arm_plan \<Rightarrow> int \<Rightarrow> float64 list \<Rightarrow> rat" where
  "tracking_error pts elapsed qs =
     Max (set (map (\<lambda>(a, b). \<bar>a - b\<bar>) (zip (map f_val qs) (expected_positions (rat_plan pts) elapsed))))"

definition monitor_tracking :: "gazebo \<Rightarrow> (rat \<times> row) list \<Rightarrow> (tracking \<times> lab, unit) meth" where
  "monitor_tracking g outcomes st =
     (case st of (k, l) \<Rightarrow>
      (case (tk_points k, gw_joint g) of
         (Some pts, Some jm) \<Rightarrow>
           (case (case tk_accepted k of Some d \<Rightarrow> if d = [] then accepted_decision pts (tk_after k) outcomes else Inr (Some d)
                  | None \<Rightarrow> accepted_decision pts (tk_after k) outcomes) of
              Inl e \<Rightarrow> (Inl e, st)
            | Inr None \<Rightarrow> (Inr (), st)
            | Inr (Some d) \<Rightarrow>
                if d = [] \<or> ''expires_ms'' \<notin> fst ` set d then (Inr (), st)
                else let k1 = k\<lparr>tk_accepted := Some d\<rparr>; stamp = joint_stamp jm in
                  (case rbind (tracking_start_ms (PDict d)) (\<lambda>start. rbind (need_int (getf d ''expires_ms'')) (\<lambda>expires. Inr (start, expires))) of
                     Inl e \<Rightarrow> (Inl e, (k1, l))
                   | Inr (start, expires) \<Rightarrow>
                       if stamp < start \<or> expires < stamp \<or> tk_last k = Some stamp then (Inr (), (k1, l))
                       else (case arm_positions jm of
                           Inl e \<Rightarrow> (Inl e, (k1, l))
                         | Inr qs \<Rightarrow>
                             (let err = tracking_error pts (stamp - start) qs in
                              (Inr (), (k1\<lparr>tk_max_error := max (tk_max_error k) err, tk_samples := Suc (tk_samples k), tk_last := Some stamp\<rparr>,
                                        if 5 / 100 < err then l\<lparr>lb_failure := Some ''measured joint tracking exceeded .05 rad''\<rparr> else l))))))
       | _ \<Rightarrow> (Inr (), st)))"

section \<open>Before a dispatch\<close>

text \<open>One round of the preflight: what it reads before and after the judge.\<close>

record preflight =
  pf_state :: row
  pf_unlocked :: bool
  pf_request :: "lab_error + measured"
  pf_base :: "point \<times> rat"
  pf_target :: vec3
  pf_started :: rat
  pf_verdict :: "row res"
  pf_joints :: "float64 list"
  pf_base2 :: "point \<times> rat"
  pf_speed :: float64
  pf_after :: "native_sample option"
  pf_observed :: rat
  pf_now :: int
  pf_now2 :: int

definition has_authority :: "preflight \<Rightarrow> bool res" where
  "has_authority p =
     rand [Inr (getf (pf_state p) ''mode'' = PStr ''normal''),
           str_in ''vla'' (case map_of (pf_state p) ''armed'' of None \<Rightarrow> PList [] | Some v \<Rightarrow> v),
           Inr (getf (pf_state p) ''active'' = PNone), Inr (\<not> truthy (getf (pf_state p) ''arm_cancelling'')), Inr (pf_unlocked p)]"

definition scene_unchanged :: "(rat \<Rightarrow> rat \<times> rat) \<Rightarrow> (rat \<Rightarrow> rat \<Rightarrow> rat) \<Rightarrow> arm_plan \<Rightarrow> preflight \<Rightarrow> bool" where
  "scene_unchanged tr atan2 pts p \<longleftrightarrow>
     (pts \<noteq> [] \<and> list_all (\<lambda>(a, b). \<bar>f_val a - f_val b\<bar> \<le> 1 / 100) (zip (snd (hd pts)) (pf_joints p))) \<and>
     stationary tr atan2 (fst (pf_base p)) (fst (pf_base2 p)) (snd (pf_base p)) (snd (pf_base2 p)) (pf_speed p) \<and>
     (case pf_after p of None \<Rightarrow> False | Some n \<Rightarrow> dist3 (ns_pos n) (pf_target p) \<le> (2 / 1000)\<^sup>2)"

definition preflight_stale :: "preflight \<Rightarrow> measured \<Rightarrow> bool" where
  "preflight_stale p m \<longleftrightarrow>
     5 / 100 < pf_observed p - pf_started p \<or> \<not> fresh_sample (pf_after p) (pf_now p) (pf_observed p) \<or> 200 < pf_now2 p - mr_observed_ms m"

text \<open>At most three rounds; the result is the round to dispatch on.\<close>

fun preflight_rounds :: "(rat \<Rightarrow> rat \<times> rat) \<Rightarrow> (rat \<Rightarrow> rat \<Rightarrow> rat) \<Rightarrow> arm_plan \<Rightarrow> nat \<Rightarrow> preflight list \<Rightarrow> (lab_error + preflight) option" where
  "preflight_rounds tr atan2 pts 0 ps = Some (Inl (Raised (RuntimeError ''household preflight freshness unavailable after three fresh checks'')))"
| "preflight_rounds tr atan2 pts (Suc n) [] = None"
| "preflight_rounds tr atan2 pts (Suc n) (p # ps) =
     (case has_authority p of
        Inl e \<Rightarrow> Some (Inl (Raised e))
      | Inr False \<Rightarrow> Some (Inl (Raised (RuntimeError ''household preflight lost explicit arm authority'')))
      | Inr True \<Rightarrow>
          (case (pf_request p, pf_verdict p) of
             (Inl e, _) \<Rightarrow> Some (Inl e)
           | (Inr m, Inl e) \<Rightarrow> Some (Inl (Raised e))
           | (Inr m, Inr d) \<Rightarrow>
               if getf d ''allowed'' \<noteq> PBool True then Some (Inl (Raised (AssertionError ''positive control rejected'')))
               else if \<not> scene_unchanged tr atan2 pts p then Some (Inl (Raised (RuntimeError ''household scene changed before dispatch'')))
               else if preflight_stale p m then preflight_rounds tr atan2 pts n ps
               else Some (Inr p)))"

section \<open>Lemmas\<close>

text \<open>A request is no newer than its oldest source, and every source was fresh when it was read.\<close>

definition observed_by :: "gazebo \<Rightarrow> lab_clock \<Rightarrow> lab \<Rightarrow> int \<Rightarrow> bool" where
  "observed_by g c l t \<longleftrightarrow> (\<exists>x it om jm. target_sample l = Some x \<and> item_sample l = Some it \<and> gw_odom g = Some om \<and> gw_joint g = Some jm \<and>
     t \<le> ns_stamp x \<and> t \<le> ns_stamp it \<and> t \<le> joint_stamp jm \<and> t \<le> odom_stamp om \<and>
     fresh_sample (Some x) (lc_now c) (lc_wall c) \<and> fresh_sample (Some it) (lc_now c) (lc_wall c) \<and>
     lc_wall c - gw_joint_received g \<le> 1 / 5 \<and> lc_wall c - gw_odom_received g \<le> 1 / 5 \<and> slow (gw_speed g) \<and> lb_failure l \<in> {None, Some []})"

lemma request_honest:
  assumes "lab_request tr atan2 chain g c l item pts contents base_path = Inr m"
  shows "observed_by g c l (mr_observed_ms m)"
proof -
  from assms have r: "request_reasons g (lc_now c) (lc_wall c) l = []" "slow (gw_speed g)" by (auto simp: lab_request_def Let_def split: if_splits)
  then have f: "fresh_sample (target_sample l) (lc_now c) (lc_wall c)" "fresh_sample (item_sample l) (lc_now c) (lc_wall c)"
    "lc_wall c - gw_joint_received g \<le> 1 / 5" "lc_wall c - gw_odom_received g \<le> 1 / 5" "lb_failure l \<in> {None, Some []}"
    by (auto simp: request_reasons_def not_less split: if_splits)
  from assms r obtain x it om jm where s: "target_sample l = Some x" "item_sample l = Some it" "gw_odom g = Some om" "gw_joint g = Some jm"
    "mr_observed_ms m = min (min (ns_stamp x) (ns_stamp it)) (min (joint_stamp jm) (odom_stamp om))"
    by (auto simp: lab_request_def Let_def split: if_splits option.splits sum.splits)
  with f r(2) show ?thesis unfolding observed_by_def by auto
qed

lemma observed_by_mono: "observed_by g c l t \<Longrightarrow> u \<le> t \<Longrightarrow> observed_by g c l u"
  unfolding observed_by_def by (blast intro: order_trans)

lemma container_older: "with_container now_ms wall l m = Some m' \<Longrightarrow> mr_observed_ms m' \<le> mr_observed_ms m \<and>
    (lb_case l \<noteq> Some ''chemicals'' \<longrightarrow> (\<exists>n. lb_native l ''hazard_chemicals_target'' = Some n \<and> fresh_sample (Some n) now_ms wall \<and> mr_observed_ms m' \<le> ns_stamp n))"
  by (auto simp: with_container_def Let_def split: if_splits)

text \<open>What a snapshot of the facts does to the context.\<close>

lemma semantic_Some:
  assumes "semantic_snapshot tr atan2 chain pol canon g v fused l = (Inr (Some w), l')"
  shows "observed_by g (se_clock v) l (sw_observed_ms w) \<and> sw_observed_ms w \<le> fused \<and>
    (lb_case l \<noteq> Some ''chemicals'' \<longrightarrow> (\<exists>n. lb_native l ''hazard_chemicals_target'' = Some n \<and> fresh_sample (Some n) (se_now3 v) (se_wall3 v) \<and> sw_observed_ms w \<le> ns_stamp n)) \<and>
    sx_facts (lb_context l') = Some (canon (sw_facts w)) \<and> sx_revision (lb_context l') = sw_revision w \<and>
    sw_revision w = sx_revision (lb_context l) + (if sx_facts (lb_context l) = Some (canon (sw_facts w)) then 0 else 1)"
proof -
  let ?x = "lb_context l"
  obtain c where c: "lb_case l = Some c" using assms by (cases "lb_case l") (simp_all add: semantic_snapshot_def)
  obtain item where i: "sx_item ?x = Some item" using assms c by (cases "sx_item ?x") (simp_all add: semantic_snapshot_def)
  have ne: "c \<noteq> []" using assms c i by (auto simp: semantic_snapshot_def)
  obtain jm where jm: "gw_joint g = Some jm" using assms c i ne by (cases "gw_joint g") (simp_all add: semantic_snapshot_def split: if_splits)
  obtain qs where qs: "arm_positions jm = Inr qs" using assms c i ne jm by (cases "arm_positions jm") (simp_all add: semantic_snapshot_def split: if_splits)
  let ?r = "lab_request tr atan2 chain g (se_clock v) l item [(0, qs), (1, qs)] (sx_contents ?x) None"
  obtain m0 where m0: "?r = Inr m0"
  proof (cases ?r)
    case (Inl e)
    with assms c i ne jm qs show ?thesis by (cases e) (simp_all add: semantic_snapshot_def split: if_splits)
  qed
  obtain m where wc: "with_container (se_now3 v) (se_wall3 v) l m0 = Some m"
    using assms c i ne jm qs m0 by (cases "with_container (se_now3 v) (se_wall3 v) l m0") (simp_all add: semantic_snapshot_def)
  let ?f = "facts_of pol c item ?x m"
  have w: "w = \<lparr>sw_facts = ?f, sw_revision = sx_revision ?x + (if sx_facts ?x = Some (canon ?f) then 0 else 1), sw_observed_ms = min (mr_observed_ms m) fused\<rparr>"
    "l' = l\<lparr>lb_context := (if sx_facts ?x = Some (canon ?f) then ?x else ?x\<lparr>sx_facts := Some (canon ?f), sx_revision := sx_revision ?x + 1\<rparr>)\<rparr>"
    using assms c i ne jm qs m0 wc by (auto simp: semantic_snapshot_def Let_def split: if_splits)
  have m: "lb_case l = Some c" "?r = Inr m0" "with_container (se_now3 v) (se_wall3 v) l m0 = Some m" "sw_observed_ms w = min (mr_observed_ms m) fused"
    "sw_facts w = ?f" "sw_revision w = sx_revision ?x + (if sx_facts ?x = Some (canon (sw_facts w)) then 0 else 1)"
    "l' = l\<lparr>lb_context := (if sx_facts ?x = Some (canon (sw_facts w)) then ?x else ?x\<lparr>sx_facts := Some (canon (sw_facts w)), sx_revision := sx_revision ?x + 1\<rparr>)\<rparr>"
    using c m0 wc w by simp_all
  note older = container_older [OF m(3)]
  have "observed_by g (se_clock v) l (sw_observed_ms w)"
    using older m(4) by (intro observed_by_mono [OF request_honest [OF m(2)]]) linarith
  moreover have "sw_observed_ms w \<le> fused" "sw_observed_ms w \<le> mr_observed_ms m" using m(4) by simp_all
  ultimately show ?thesis using older m(1,6,7) by fastforce
qed

lemma semantic_None:
  "semantic_snapshot tr atan2 chain pol canon g v fused l = (r, l') \<Longrightarrow> (\<And>w. r \<noteq> Inr (Some w)) \<Longrightarrow>
   sx_facts (lb_context l') = sx_facts (lb_context l) \<and> sx_revision (lb_context l') = sx_revision (lb_context l)"
  by (auto simp: semantic_snapshot_def Let_def record_omission_def split: option.splits sum.splits lab_error.splits if_splits)

lemma context_keeps_facts:
  "sx_facts (lb_context (snd (set_semantic_context atan2 g item contents new_step l))) = sx_facts (lb_context l) \<and>
   sx_revision (lb_context (snd (set_semantic_context atan2 g item contents new_step l))) = sx_revision (lb_context l)"
  by (auto simp: set_semantic_context_def Let_def split: option.splits)

text \<open>
  Over the exact rationals of the model the base path prepared once gives the request the full path gives.
  The doubles of the code round the two computations differently, so there they agree only up to rounding.
\<close>

lemma request_projected:
  assumes "trig_zero tr" and "kin_path tr chain (rat_plan pts) (0, 0) 0 = Inr base"
  shows "lab_request tr atan2 chain g c l item pts contents (Some base) = lab_request tr atan2 chain g c l item pts contents None"
proof -
  have same: "lab_path tr chain pts (Some base) pose yaw = lab_path tr chain pts None pose yaw" for pose yaw
    using path_based [OF assms(1), of chain "rat_plan pts" pose yaw] assms(2) by (simp add: lab_path_def)
  show ?thesis unfolding lab_request_def same ..
qed

text \<open>A dispatch follows a round that had authority, was allowed, unchanged and fresh, within the first three.\<close>

lemma preflight_dispatch:
  "preflight_rounds tr atan2 pts n ps = Some (Inr p) \<Longrightarrow>
   p \<in> set (take n ps) \<and> has_authority p = Inr True \<and> (\<exists>m d. pf_request p = Inr m \<and> pf_verdict p = Inr d \<and> getf d ''allowed'' = PBool True \<and>
     scene_unchanged tr atan2 pts p \<and> \<not> preflight_stale p m)"
proof (induction tr atan2 pts n ps rule: preflight_rounds.induct)
  case (3 tr atan2 pts n p' ps)
  show ?case
  proof (cases "\<exists>m d. has_authority p' = Inr True \<and> pf_request p' = Inr m \<and> pf_verdict p' = Inr d \<and> getf d ''allowed'' = PBool True \<and> scene_unchanged tr atan2 pts p' \<and> preflight_stale p' m")
    case True
    then obtain m d where s: "has_authority p' = Inr True" "pf_request p' = Inr m" "pf_verdict p' = Inr d" "getf d ''allowed'' = PBool True"
      "scene_unchanged tr atan2 pts p'" "preflight_stale p' m" by blast
    with "3.prems" have "preflight_rounds tr atan2 pts n ps = Some (Inr p)" by simp
    with "3.IH" s show ?thesis by fastforce
  next
    case False
    with "3.prems" show ?thesis by (auto split: sum.splits bool.splits if_splits)
  qed
qed simp_all

text \<open>The plan of the laboratory, through the message and the gate's parser, is the plan it waits for.\<close>

lemma same_position_refl: "isfinite w \<Longrightarrow> same_position (PFloat w) w = Inr True"
  by (simp add: same_position_def)

lemma rand_same: "list_all isfinite ws \<Longrightarrow> rand (map (\<lambda>(p, w). same_position p w) (zip (map PFloat ws) ws)) = Inr True"
  by (auto simp: rand_True_iff same_position_refl zip_map1 list_all_iff set_zip)

lemma pyeq_int [simp]: "pyeq (PInt a) (PInt b) \<longleftrightarrow> a = b"
  by (simp add: pyeq.simps)

lemma row_matches_point: "list_all isfinite (snd p) \<Longrightarrow> row_matches (point_val p, p) = Inr True"
  by (cases p) (simp add: row_matches_def point_val_def rand_same)

lemma plan_rows_match: "\<forall>p\<in>set pts. list_all isfinite (snd p) \<Longrightarrow> rand (map row_matches (zip (map point_val pts) pts)) = Inr True"
  by (auto simp: rand_True_iff row_matches_point zip_map1 set_zip)

lemma plan_parsed:
  assumes "length start = 4" and "list_all isfinite start" and "isfinite target"
  shows "arm_action (plan_traj ARM_JOINTS (lab_plan start target) frame) ARM_JOINTS 1000 =
    Inr (PDict [(''type'', PStr ''joint_trajectory''), (''points'', PList (map point_val (lab_plan start target))), (''ttl_ms'', PInt 1000)])"
proof -
  have "list_all isfinite (target # tl start)" "length (target # tl start) = 4" using assms by (cases start; simp)+
  then have "rmap (arm_point 4) (map plan_point (lab_plan start target)) = Inr (lab_plan start target)"
    using assms by (simp add: lab_plan_def Let_def plan_point_read del: list.pred_inject)
  moreover have "points (plan_traj ARM_JOINTS (lab_plan start target) frame) = map plan_point (lab_plan start target)"
    "joint_names (plan_traj ARM_JOINTS (lab_plan start target) frame) = ARM_JOINTS" "length ARM_JOINTS = 4" by (simp_all add: plan_traj_def ARM_JOINTS_def)
  moreover have "lab_plan start target \<noteq> []" "fst (last (lab_plan start target)) = 900" by (simp_all add: lab_plan_def Let_def)
  ultimately show ?thesis by (simp add: arm_action_def)
qed

lemma plan_accepted:
  assumes "length start = 4" and "list_all isfinite start" and "isfinite target"
  shows "rbind (arm_action (plan_traj ARM_JOINTS (lab_plan start target) frame) ARM_JOINTS 1000) (accepted_plan_matches (lab_plan start target)) = Inr True"
proof -
  have "\<forall>p\<in>set (lab_plan start target). list_all isfinite (snd p)" using assms by (cases start) (auto simp: lab_plan_def Let_def)
  from plan_rows_match [OF this] show ?thesis
    unfolding plan_parsed [OF assms] by (simp add: accepted_plan_matches_def PLAN_TTL_MS_def)
qed

end
