(* ===== verification/Lab_Properties.thy ===== *)
theory Lab_Properties
  imports Hazard_Lab
begin

text \<open>
  The properties of the reference run and of the hazard laboratory: what a published world and its
  semantic facts rest on, and the way of a plan from the laboratory to the gate's parser.
\<close>

section \<open>The fused world\<close>

text \<open>
  C17. A published world is never newer than the joint measurement it carries, and a confident one is never
  newer than any source behind it. In any state, one call of the publisher sends nothing or one world; that
  world rests on joint and odometry messages received within 200 ms and stamped within 200 ms of the clock,
  and its stamp is at most the joint stamp. A confident world is also no newer than the odometry and the
  fresh healthy lidar frame behind it, covers the robot and reports for every return of that frame an
  obstacle at least as near; an unconfident one reports no obstacle, and its stamp is bounded by the joint
  stamp alone, so it may be newer than the odometry it carries. On the fast path of a new joint measurement
  only a confident world newer than the last published one is sent.
\<close>

theorem world_fused_honestly:
  "case publish_world atan2 only_advanced v s of (r, s') \<Rightarrow>
     worlds (gw_out s') = worlds (gw_out s) \<or>
     (\<exists>w. worlds (gw_out s') = worlds (gw_out s) @ [w] \<and> world_honest v s w \<and>
       (if only_advanced then wp_confident w \<and> (case gw_published_stamp s of None \<Rightarrow> True | Some p \<Rightarrow> p < wp_stamp w) else True))"
  using publish_worlds [of atan2 only_advanced v s] by (auto split: prod.split)

section \<open>Semantic facts\<close>

text \<open>
  C22. Semantic facts never renew time. Facts are added to a world only with an observation time that is at
  most the stamp of the world they are fused with and of the target, item, joint and odometry samples they
  were measured from, all fresh on both clocks, with the base at rest and the fixture driver sound, and
  outside the chemicals case at most that of a fresh sample of the registered container; otherwise the
  world carries no facts and the revision stays.
\<close>

theorem semantic_time_honest:
  "case semantic_snapshot tr atan2 chain pol canon g v fused l of
     (Inr (Some w), l') \<Rightarrow>
       observed_by g (se_clock v) l (sw_observed_ms w) \<and> sw_observed_ms w \<le> fused \<and>
       (lb_case l = Some ''chemicals'' \<or>
        (\<exists>n. lb_native l ''hazard_chemicals_target'' = Some n \<and> fresh_sample (Some n) (se_now3 v) (se_wall3 v) \<and> sw_observed_ms w \<le> ns_stamp n))
   | (_, l') \<Rightarrow> sx_revision (lb_context l') = sx_revision (lb_context l)"
proof (cases "semantic_snapshot tr atan2 chain pol canon g v fused l")
  case (Pair r l')
  show ?thesis
  proof (cases "\<exists>w. r = Inr (Some w)")
    case True
    then obtain w where "r = Inr (Some w)" by blast
    with semantic_Some [of tr atan2 chain pol canon g v fused l w l'] Pair show ?thesis by auto
  next
    case False
    then have "sx_revision (lb_context l') = sx_revision (lb_context l)" using semantic_None [OF Pair] by blast
    with Pair False show ?thesis by (auto split: sum.splits option.splits)
  qed
qed

text \<open>What happens to the laboratory between two published worlds.\<close>

datatype lab_event =
    Facts gazebo semantic_env int
  | Context gazebo string "string list" bool
  | Poses "int \<times> int" "(string \<times> vec3 \<times> (rat \<times> rat \<times> rat \<times> rat) \<times> rat) list"
  | Stage "string option" nat
  | Broken string

fun lab_run :: "(rat \<Rightarrow> rat \<times> rat) \<Rightarrow> (rat \<Rightarrow> rat \<Rightarrow> rat) \<Rightarrow> kin_joint list \<Rightarrow> household_policy \<Rightarrow> (semantic_facts \<Rightarrow> string) \<Rightarrow> lab_event list \<Rightarrow> lab \<Rightarrow> semantic_world list" where
  "lab_run tr atan2 chain pol canon [] l = []"
| "lab_run tr atan2 chain pol canon (Facts g v fused # es) l =
     (case semantic_snapshot tr atan2 chain pol canon g v fused l of
        (Inr (Some w), l') \<Rightarrow> w # lab_run tr atan2 chain pol canon es l'
      | (_, l') \<Rightarrow> lab_run tr atan2 chain pol canon es l')"
| "lab_run tr atan2 chain pol canon (Context g item contents new_step # es) l =
     lab_run tr atan2 chain pol canon es (snd (set_semantic_context atan2 g item contents new_step l))"
| "lab_run tr atan2 chain pol canon (Poses hdr ps # es) l = lab_run tr atan2 chain pol canon es (l\<lparr>lb_native := native_observe hdr ps (lb_native l)\<rparr>)"
| "lab_run tr atan2 chain pol canon (Stage c n # es) l = lab_run tr atan2 chain pol canon es (l\<lparr>lb_case := c, lb_stage := n\<rparr>)"
| "lab_run tr atan2 chain pol canon (Broken why # es) l = lab_run tr atan2 chain pol canon es (l\<lparr>lb_failure := Some why\<rparr>)"

definition facts_ordered :: "(semantic_facts \<Rightarrow> string) \<Rightarrow> semantic_world \<Rightarrow> semantic_world \<Rightarrow> bool" where
  "facts_ordered canon a b \<longleftrightarrow> sw_revision a < sw_revision b \<or> sw_revision a = sw_revision b \<and> canon (sw_facts a) = canon (sw_facts b)"

text \<open>Everything published later is newer than the context or has its facts.\<close>

lemma lab_run_facts:
  assumes "semantic_snapshot tr atan2 chain pol canon g v fused l = (r, l')"
  shows "lab_run tr atan2 chain pol canon (Facts g v fused # es) l =
    (case r of Inr (Some w) \<Rightarrow> w # lab_run tr atan2 chain pol canon es l' | _ \<Rightarrow> lab_run tr atan2 chain pol canon es l')"
  using assms by (auto split: sum.split option.split)

definition follows :: "(semantic_facts \<Rightarrow> string) \<Rightarrow> lab \<Rightarrow> semantic_world \<Rightarrow> bool" where
  "follows canon l w \<longleftrightarrow> sx_revision (lb_context l) < sw_revision w \<or>
     sx_revision (lb_context l) = sw_revision w \<and> sx_facts (lb_context l) = Some (canon (sw_facts w))"

lemma semantic_follows:
  assumes "semantic_snapshot tr atan2 chain pol canon g v fused l = (r, l')"
  shows "case r of Inr (Some w) \<Rightarrow> follows canon l w \<and> (\<forall>u. follows canon l' u \<longrightarrow> facts_ordered canon w u \<and> follows canon l u)
         | _ \<Rightarrow> (\<forall>u. follows canon l' u \<longrightarrow> follows canon l u)"
proof (cases "\<exists>w. r = Inr (Some w)")
  case True
  then obtain w where w: "r = Inr (Some w)" by blast
  from semantic_Some [OF assms [unfolded w]] w show ?thesis by (auto simp: follows_def facts_ordered_def split: if_splits)
next
  case False
  then have "sx_facts (lb_context l') = sx_facts (lb_context l) \<and> sx_revision (lb_context l') = sx_revision (lb_context l)" using semantic_None [OF assms] by blast
  then have "\<forall>u. follows canon l' u \<longrightarrow> follows canon l u" by (simp add: follows_def)
  with False show ?thesis by (auto split: sum.split option.split)
qed

lemma lab_run_after: "\<forall>w\<in>set (lab_run tr atan2 chain pol canon es l). follows canon l w"
proof (induction es arbitrary: l)
  case (Cons e es)
  show ?case
  proof (cases e)
    case (Facts g v fused)
    obtain r l' where s: "semantic_snapshot tr atan2 chain pol canon g v fused l = (r, l')" by (cases "semantic_snapshot tr atan2 chain pol canon g v fused l")
    from semantic_follows [OF s] Cons.IH [of l'] lab_run_facts [OF s] Facts show ?thesis by (auto split: sum.splits option.splits)
  next
    case (Context g item contents new_step)
    with Cons.IH [of "snd (set_semantic_context atan2 g item contents new_step l)"] show ?thesis by (simp add: follows_def context_keeps_facts)
  next
    case (Poses hdr ps)
    with Cons.IH [of "l\<lparr>lb_native := native_observe hdr ps (lb_native l)\<rparr>"] show ?thesis by (simp add: follows_def)
  next
    case (Stage c n)
    with Cons.IH [of "l\<lparr>lb_case := c, lb_stage := n\<rparr>"] show ?thesis by (simp add: follows_def)
  next
    case (Broken why)
    with Cons.IH [of "l\<lparr>lb_failure := Some why\<rparr>"] show ?thesis by (simp add: follows_def)
  qed
qed simp

text \<open>
  C23. A semantic revision names one set of facts. In every run of the laboratory, through changes of stage,
  of context, of the observed poses and of the fixture driver, the facts published under the same revision
  have the same canonical text, and later facts never have a smaller revision; so a proposal bound to a
  revision is bound to the facts the gate accepted under it.
\<close>

theorem facts_revision_unique:
  "sorted_wrt (facts_ordered canon) (lab_run tr atan2 chain pol canon es l)"
proof (induction es arbitrary: l)
  case (Cons e es)
  show ?case
  proof (cases e)
    case (Facts g v fused)
    obtain r l' where s: "semantic_snapshot tr atan2 chain pol canon g v fused l = (r, l')" by (cases "semantic_snapshot tr atan2 chain pol canon g v fused l")
    from semantic_follows [OF s] Cons.IH [of l'] lab_run_facts [OF s] lab_run_after Facts show ?thesis by (auto split: sum.splits option.splits)
  qed (use Cons.IH in simp_all)
qed simp

section \<open>Plans\<close>

text \<open>
  C24. A plan of the laboratory reaches the gate as it was written. Written as one line by the isolated run,
  read back by the proposal writer, sent as a trajectory and parsed by the gate's parser under the fixed
  one-second lease, it is accepted as exactly the plan whose acceptance the laboratory waits for. The
  platform's JSON reads back what it wrote, and the positions are finite.
\<close>

theorem plan_reaches_gate:
  assumes "gw_isolated g" and "length start = 4" and "list_all isfinite start" and "isfinite target"
    and "loads (dumps (plan_line (lab_plan start target) semantic) @ [char_of (10 :: nat)]) = Inr (plan_line (lab_plan start target) semantic)"
    and "(if semantic = PNone then Inr [] else semantic_frame loads dumpc semantic) = Inr frame"
  shows "\<exists>line t. propose_arm_plan loads dumpc dumps (lab_plan start target) semantic g = (Inr (), g\<lparr>gw_out := gw_out g @ [GwPipe line]\<rparr>) \<and>
    source_line loads dumpc now readings line = Inr [GwTraj t] \<and> frame_id t = frame \<and>
    rbind (arm_action t ARM_JOINTS 1000) (accepted_plan_matches (lab_plan start target)) = Inr True"
proof -
  let ?p = "lab_plan start target"
  let ?line = "dumps (plan_line ?p semantic) @ [char_of (10 :: nat)]"
  have names: "rmap need_str (map PStr ARM_JOINTS) = Inr ARM_JOINTS" by (simp add: ARM_JOINTS_def)
  have "source_line loads dumpc now readings ?line = Inr [GwTraj (plan_traj ARM_JOINTS ?p frame)]"
    using assms(5,6) by (simp add: source_line_def plan_line_def names plan_rows_read)
  moreover have "propose_arm_plan loads dumpc dumps ?p semantic g = (Inr (), g\<lparr>gw_out := gw_out g @ [GwPipe ?line]\<rparr>)"
    using assms(1) by (simp add: propose_arm_plan_def put_out_def mput_def)
  ultimately show ?thesis using plan_accepted [OF assms(2-4), of frame] by (auto simp: plan_traj_def)
qed

definition demo_plan :: arm_plan where "demo_plan = lab_plan [0, 0, 0, 0] 0"

theorem plan_reaches_gate_witness:
  "\<exists>line t. propose_arm_plan (\<lambda>_. Inr (plan_line demo_plan PNone)) (\<lambda>_. Inr []) (\<lambda>_. ''plan'') demo_plan PNone (gazebo_init False True) =
      (Inr (), (gazebo_init False True)\<lparr>gw_out := gw_out (gazebo_init False True) @ [GwPipe line]\<rparr>) \<and>
    source_line (\<lambda>_. Inr (plan_line demo_plan PNone)) (\<lambda>_. Inr []) 0 [] line = Inr [GwTraj t] \<and> frame_id t = [] \<and>
    rbind (arm_action t ARM_JOINTS 1000) (accepted_plan_matches demo_plan) = Inr True"
  unfolding demo_plan_def
  by (rule plan_reaches_gate) (simp_all add: gazebo_init_def isfinite_def f_exp_def)

text \<open>
  The dispatch of a plan follows a round of the preflight among the first three that had the gate's explicit
  authority, an allowing judge, an unchanged scene and fresh observations.
\<close>

lemma dispatch_checked:
  "case preflight_rounds tr atan2 pts 3 ps of
     Some (Inr p) \<Rightarrow> p \<in> set (take 3 ps) \<and> has_authority p = Inr True \<and> scene_unchanged tr atan2 pts p \<and>
       (\<exists>m d. pf_request p = Inr m \<and> pf_verdict p = Inr d \<and> getf d ''allowed'' = PBool True \<and> \<not> preflight_stale p m)
   | _ \<Rightarrow> True"
  using preflight_dispatch [of tr atan2 pts 3 ps] by (auto split: option.splits sum.splits)

end
