(* ===== verification/Ros_Relay.thy ===== *)
theory Ros_Relay
  imports Prelude
begin

text \<open>
  The transport principal between the gate and the controllers (\<^verbatim>\<open>ros/haetae_gate/relay.py\<close>): it forwards
  base commands and heartbeats unchanged and runs one controller goal per accepted goal. The coroutine
  \<^verbatim>\<open>execute\<close> is cut at its awaits: an event is what the single-threaded executor resumes, and the
  statements up to the next await are one step. A cancel request is one step too, its callback being
  synchronous; the action server then moves the goal to CANCELING, which is what \<^verbatim>\<open>is_cancel_requested\<close>
  reads, also for a goal whose coroutine has not started. The server keeps the identifier of a live goal
  unique and refuses \<^verbatim>\<open>canceled()\<close> for a goal that is not CANCELING. Messages are a parameter.
\<close>

section \<open>State and events\<close>

datatype goal_phase = Accepted | Sending | Cancelling | Running

record relay_goal =
  rl_phase :: goal_phase
  rl_requested :: bool

datatype 'm goal_end = Succeeded 'm | Canceled 'm | Aborted 'm | InvalidGoal string

datatype 'm relay_out =
    FwdBase 'm | FwdHeartbeat 'm
  | SendGoal string 'm | SendCancel string | Feedback string 'm
  | EndGoal string "'m goal_end"

record 'm relay_node =
  rn_active :: "string \<rightharpoonup> relay_goal"
  rn_handles :: "string set"
  rn_out :: "'m relay_out list"

datatype 'm relay_event =
    BaseMsg 'm | HeartbeatMsg 'm
  | GoalRequest string
  | Start string bool 'm
  | GoalResponse string bool
  | FeedbackMsg string 'm
  | CancelRequest string
  | CancelDone string
  | ResultMsg string int 'm
  | AwaitRaised string string

definition node_init :: "'m relay_node" where
  "node_init = \<lparr>rn_active = Map.empty, rn_handles = {}, rn_out = []\<rparr>"

definition emit_out :: "'m relay_out \<Rightarrow> 'm relay_node \<Rightarrow> 'm relay_node" where
  "emit_out x n = n\<lparr>rn_out := rn_out n @ [x]\<rparr>"

definition set_goal :: "string \<Rightarrow> relay_goal option \<Rightarrow> 'm relay_node \<Rightarrow> 'm relay_node" where
  "set_goal gid g n = n\<lparr>rn_active := (rn_active n)(gid := g)\<rparr>"

section \<open>Callbacks\<close>

definition forward_base :: "'m \<Rightarrow> 'm relay_node \<Rightarrow> 'm relay_node" where
  "forward_base m = emit_out (FwdBase m)"

definition forward_heartbeat :: "'m \<Rightarrow> 'm relay_node \<Rightarrow> 'm relay_node" where
  "forward_heartbeat m = emit_out (FwdHeartbeat m)"

text \<open>
  The callback, and the state the action server then gives the goal. The callback accepts, so the goal is
  cancelling from then on, and the server rejects a further cancel of it without calling the callback.
\<close>

definition cancel_goal :: "string \<Rightarrow> relay_goal \<Rightarrow> 'm relay_node \<Rightarrow> 'm relay_node" where
  "cancel_goal gid g n =
     (if rl_requested g then n
      else set_goal gid (Some (g\<lparr>rl_requested := True\<rparr>)) (if gid \<in> rn_handles n then emit_out (SendCancel gid) n else n))"

text \<open>\<^verbatim>\<open>prepare_goal\<close> hands the request on as it is.\<close>

definition prepare_goal :: "'m \<Rightarrow> 'm" where "prepare_goal m = m"

text \<open>\<^verbatim>\<open>finally: self.handles.pop(identifier, None)\<close>, and the goal leaves the server.\<close>

definition end_goal :: "string \<Rightarrow> 'm goal_end \<Rightarrow> 'm relay_node \<Rightarrow> 'm relay_node" where
  "end_goal gid e n = emit_out (EndGoal gid e) (set_goal gid None (n\<lparr>rn_handles := rn_handles n - {gid}\<rparr>))"

definition SUCCEEDED :: int where "SUCCEEDED = 4"
definition CANCELED :: int where "CANCELED = 5"

definition goal_end_of :: "relay_goal \<Rightarrow> int \<Rightarrow> 'm \<Rightarrow> 'm goal_end" where
  "goal_end_of g code result =
     (if code = SUCCEEDED then Succeeded result
      else if code = CANCELED then (if rl_requested g then Canceled result else InvalidGoal ''invalid transition'')
      else Aborted result)"

text \<open>\<^verbatim>\<open>execute\<close> from its start to \<^verbatim>\<open>send_goal_async\<close>, and from there to the next await.\<close>

definition execute_start :: "string \<Rightarrow> relay_goal \<Rightarrow> bool \<Rightarrow> 'm \<Rightarrow> 'm relay_node \<Rightarrow> 'm relay_node" where
  "execute_start gid g ready m n =
     (if \<not> ready then end_goal gid (InvalidGoal ''controller unavailable'') n
      else emit_out (SendGoal gid (prepare_goal m)) (set_goal gid (Some (g\<lparr>rl_phase := Sending\<rparr>)) n))"

definition execute_sent :: "string \<Rightarrow> relay_goal \<Rightarrow> bool \<Rightarrow> 'm relay_node \<Rightarrow> 'm relay_node" where
  "execute_sent gid g accepted n =
     (if \<not> accepted then end_goal gid (InvalidGoal ''controller rejected permit'') n
      else let n1 = n\<lparr>rn_handles := insert gid (rn_handles n)\<rparr> in
        if rl_requested g then emit_out (SendCancel gid) (set_goal gid (Some (g\<lparr>rl_phase := Cancelling\<rparr>)) n1)
        else set_goal gid (Some (g\<lparr>rl_phase := Running\<rparr>)) n1)"

text \<open>What an event of a live goal resumes; an event the coroutine does not wait for resumes nothing.\<close>

fun on_goal :: "string \<Rightarrow> relay_goal \<Rightarrow> 'm relay_event \<Rightarrow> 'm relay_node \<Rightarrow> 'm relay_node" where
  "on_goal gid g (Start _ ready m) n = (if rl_phase g = Accepted then execute_start gid g ready m n else n)"
| "on_goal gid g (GoalResponse _ accepted) n = (if rl_phase g = Sending then execute_sent gid g accepted n else n)"
| "on_goal gid g (FeedbackMsg _ m) n = (if rl_phase g = Accepted then n else emit_out (Feedback gid m) n)"
| "on_goal gid g (CancelRequest _) n = cancel_goal gid g n"
| "on_goal gid g (CancelDone _) n = (if rl_phase g = Cancelling then set_goal gid (Some (g\<lparr>rl_phase := Running\<rparr>)) n else n)"
| "on_goal gid g (ResultMsg _ code result) n = (if rl_phase g = Running then end_goal gid (goal_end_of g code result) n else n)"
| "on_goal gid g (AwaitRaised _ why) n = (if rl_phase g = Accepted then n else end_goal gid (InvalidGoal why) n)"
| "on_goal gid g _ n = n"

fun event_goal :: "'m relay_event \<Rightarrow> string" where
  "event_goal (GoalRequest gid) = gid"
| "event_goal (Start gid _ _) = gid"
| "event_goal (GoalResponse gid _) = gid"
| "event_goal (FeedbackMsg gid _) = gid"
| "event_goal (CancelRequest gid) = gid"
| "event_goal (CancelDone gid) = gid"
| "event_goal (ResultMsg gid _ _) = gid"
| "event_goal (AwaitRaised gid _) = gid"
| "event_goal _ = []"

fun on_relay :: "'m relay_event \<Rightarrow> 'm relay_node \<Rightarrow> 'm relay_node" where
  "on_relay (BaseMsg m) n = forward_base m n"
| "on_relay (HeartbeatMsg m) n = forward_heartbeat m n"
| "on_relay (GoalRequest gid) n =
     (if rn_active n gid = None then set_goal gid (Some \<lparr>rl_phase = Accepted, rl_requested = False\<rparr>) n else n)"
| "on_relay e n = (case rn_active n (event_goal e) of None \<Rightarrow> n | Some g \<Rightarrow> on_goal (event_goal e) g e n)"

definition relay_spin :: "'m relay_event list \<Rightarrow> 'm relay_node" where
  "relay_spin es = fold on_relay es node_init"

section \<open>No cancel is lost\<close>

text \<open>A cancel of the goal after the controller was last given it; the newest output comes first.\<close>

fun cancelled :: "string \<Rightarrow> 'm relay_out list \<Rightarrow> bool" where
  "cancelled gid [] = False"
| "cancelled gid (SendCancel h # older) = (h = gid \<or> cancelled gid older)"
| "cancelled gid (SendGoal h m # older) = (h \<noteq> gid \<and> cancelled gid older)"
| "cancelled gid (_ # older) = cancelled gid older"

definition goal_ok :: "string \<Rightarrow> relay_goal option \<Rightarrow> bool \<Rightarrow> 'm relay_out list \<Rightarrow> bool" where
  "goal_ok gid goal handled out =
     (case goal of
        None \<Rightarrow> \<not> handled
      | Some g \<Rightarrow> handled = (rl_phase g \<in> {Cancelling, Running}) \<and> (rl_requested g \<and> handled \<longrightarrow> cancelled gid (rev out)))"

definition relay_ok :: "'m relay_node \<Rightarrow> bool" where
  "relay_ok n \<longleftrightarrow> (\<forall>gid. goal_ok gid (rn_active n gid) (gid \<in> rn_handles n) (rn_out n))"

lemmas relay_step_defs = emit_out_def set_goal_def cancel_goal_def end_goal_def execute_start_def execute_sent_def
  forward_base_def forward_heartbeat_def

text \<open>What a step does to another goal: its entry and its handle stay, and no output names it.\<close>

definition names :: "string \<Rightarrow> 'm relay_out \<Rightarrow> bool" where
  "names h x \<longleftrightarrow> x = SendCancel h \<or> (\<exists>m. x = SendGoal h m)"

lemma cancelled_other: "\<not> names h x \<Longrightarrow> cancelled h (x # xs) = cancelled h xs"
  by (cases x) (auto simp: names_def)

definition leaves :: "string \<Rightarrow> 'm relay_node \<Rightarrow> 'm relay_node \<Rightarrow> bool" where
  "leaves h n n' \<longleftrightarrow> rn_active n' h = rn_active n h \<and> (h \<in> rn_handles n') = (h \<in> rn_handles n) \<and> cancelled h (rev (rn_out n')) = cancelled h (rev (rn_out n))"

lemma on_goal_leaves: "h \<noteq> gid \<Longrightarrow> leaves h n (on_goal gid g e n)"
  by (cases e) (auto simp: leaves_def relay_step_defs Let_def)

lemma on_goal_ok:
  assumes "rn_active n gid = Some g" and "goal_ok gid (Some g) (gid \<in> rn_handles n) (rn_out n)"
  shows "goal_ok gid (rn_active (on_goal gid g e n) gid) (gid \<in> rn_handles (on_goal gid g e n)) (rn_out (on_goal gid g e n))"
  using assms by (cases e) (auto simp: goal_ok_def relay_step_defs Let_def)

lemma leaves_ok: "leaves h n n' \<Longrightarrow> goal_ok h (rn_active n h) (h \<in> rn_handles n) (rn_out n) \<Longrightarrow> goal_ok h (rn_active n' h) (h \<in> rn_handles n') (rn_out n')"
  by (auto simp: leaves_def goal_ok_def split: option.splits)

lemma goal_step_ok:
  assumes "relay_ok n" and "rn_active n gid = Some g"
  shows "relay_ok (on_goal gid g e n)"
  unfolding relay_ok_def
proof
  fix h
  have at: "goal_ok k (rn_active n k) (k \<in> rn_handles n) (rn_out n)" for k using assms(1) by (simp add: relay_ok_def)
  show "goal_ok h (rn_active (on_goal gid g e n) h) (h \<in> rn_handles (on_goal gid g e n)) (rn_out (on_goal gid g e n))"
  proof (cases "h = gid")
    case True
    with on_goal_ok [OF assms(2)] at [of gid] assms(2) show ?thesis by simp
  next
    case False
    from leaves_ok [OF on_goal_leaves [OF False] at] show ?thesis .
  qed
qed

lemma step_relay_ok:
  assumes "relay_ok n"
  shows "relay_ok (on_relay e n)"
proof -
  have "relay_ok (set_goal gid (Some \<lparr>rl_phase = Accepted, rl_requested = False\<rparr>) n)" if "rn_active n gid = None" for gid
    unfolding relay_ok_def
  proof
    fix h
    from assms have at: "goal_ok k (rn_active n k) (k \<in> rn_handles n) (rn_out n)" for k by (simp add: relay_ok_def)
    from at [of gid] at [of h] that
    show "goal_ok h (rn_active (set_goal gid (Some \<lparr>rl_phase = Accepted, rl_requested = False\<rparr>) n) h)
        (h \<in> rn_handles (set_goal gid (Some \<lparr>rl_phase = Accepted, rl_requested = False\<rparr>) n))
        (rn_out (set_goal gid (Some \<lparr>rl_phase = Accepted, rl_requested = False\<rparr>) n))"
      by (cases "h = gid") (auto simp: set_goal_def goal_ok_def)
  qed
  moreover have "relay_ok (emit_out x n)" if "\<And>h. \<not> names h x" for x
  proof -
    have "leaves h n (emit_out x n)" for h using cancelled_other [OF that] by (simp add: leaves_def emit_out_def)
    with assms show ?thesis using leaves_ok unfolding relay_ok_def by blast
  qed
  ultimately show ?thesis using assms goal_step_ok [OF assms]
    by (cases e) (auto simp: forward_base_def forward_heartbeat_def names_def simp del: on_goal.simps split: option.splits)
qed

lemma spin_ok: "relay_ok (relay_spin es)"
proof (induction es rule: rev_induct)
  case Nil
  show ?case by (simp add: relay_spin_def node_init_def relay_ok_def goal_ok_def)
next
  case (snoc e es)
  then show ?case by (simp add: relay_spin_def step_relay_ok)
qed

lemma spin_goal: "goal_ok gid (rn_active (relay_spin es) gid) (gid \<in> rn_handles (relay_spin es)) (rn_out (relay_spin es))"
  using spin_ok [of es] by (simp add: relay_ok_def)

text \<open>Base commands leave in the order and in the form in which they came.\<close>

fun base_in :: "'m relay_event \<Rightarrow> 'm list" where
  "base_in (BaseMsg m) = [m]"
| "base_in _ = []"

fun base_out :: "'m relay_out \<Rightarrow> 'm list" where
  "base_out (FwdBase m) = [m]"
| "base_out _ = []"

lemma on_goal_base: "concat (map base_out (rn_out (on_goal gid g e n))) = concat (map base_out (rn_out n))"
  by (cases e) (auto simp: relay_step_defs Let_def)

lemma relay_base_exact: "concat (map base_out (rn_out (relay_spin es))) = concat (map base_in es)"
proof (induction es rule: rev_induct)
  case Nil
  show ?case by (simp add: relay_spin_def node_init_def)
next
  case (snoc e es)
  then show ?case by (cases e) (auto simp: relay_spin_def forward_base_def forward_heartbeat_def emit_out_def set_goal_def on_goal_base
      simp del: on_goal.simps split: option.splits)
qed

end
