(* ===== verification/Arm_Preparation.thy ===== *)
theory Arm_Preparation
  imports Rearm_Barrier Gazebo_World
begin

text \<open>
  The preparation of an arm fault in the reference run (\<^verbatim>\<open>wait_for\<close> and \<^verbatim>\<open>prepare_arm_fault\<close> of
  \<^verbatim>\<open>ros/gazebo/run_reference.py\<close>): at most two explicit OFF proposals inside five seconds, the second only
  in the isolated profile and after the first was reserved by its source but not confirmed. The clock, the
  observations of the executor thread, the child processes and the durable counter come from an environment,
  indexed by the sleeps and the readings made so far; one evaluation of a predicate reads one observation.
  The diagnostics written on failure are not modelled. A decision of the engine carries an integer
  \<^verbatim>\<open>proposal_id\<close>. A waiting loop gets fuel, and \<open>None\<close> is a loop still waiting.
\<close>

section \<open>Environment and state\<close>

text \<open>
  \<open>pr_sent\<close> are the instants and ids of the proposals sent, \<open>pr_at\<close> observes where in the run each one
  was sent: the sleeps and the readings made before it.
\<close>

record prep_env =
  pe_clock :: "nat \<Rightarrow> nat \<Rightarrow> rat"
  pe_world :: "nat \<Rightarrow> arm_world"
  pe_exited :: "nat \<Rightarrow> (string \<times> int) option"
  pe_counter :: "nat \<Rightarrow> int res"
  pe_roles :: bool

record prep =
  pr_sleeps :: nat
  pr_reads :: nat
  pr_sent :: "(rat \<times> int) list"
  pr_at :: "(nat \<times> nat) list"

definition read_at :: "(nat \<Rightarrow> 'a res) \<Rightarrow> (prep, 'a) meth" where
  "read_at f s = (f (pr_reads s), s\<lparr>pr_reads := Suc (pr_reads s)\<rparr>)"

definition monotonic :: "prep_env \<Rightarrow> (prep, rat) meth" where
  "monotonic e s = read_at (\<lambda>i. Inr (pe_clock e (pr_sleeps s) i)) s"

definition observe_world :: "prep_env \<Rightarrow> (prep, arm_world) meth" where
  "observe_world e = read_at (\<lambda>i. Inr (pe_world e i))"

definition snooze :: "(prep, unit) meth" where
  "snooze = mput (\<lambda>s. s\<lparr>pr_sleeps := Suc (pr_sleeps s)\<rparr>)"

section \<open>Waiting\<close>

text \<open>The body of \<^verbatim>\<open>wait_for\<close> after its first clock reading; \<open>act\<close> is the optional action.\<close>

fun wait_loop :: "prep_env \<Rightarrow> nat \<Rightarrow> (prep, bool) meth \<Rightarrow> rat \<Rightarrow> string \<Rightarrow> (prep, unit) meth option \<Rightarrow> rat \<Rightarrow> (prep, rat option) meth" where
  "wait_loop e 0 predicate deadline description act last_action = mret None"
| "wait_loop e (Suc n) predicate deadline description act last_action =
     mbind (monotonic e) (\<lambda>t.
     if \<not> t < deadline then mraise (TimeoutError description)
     else mbind (read_at (\<lambda>i. Inr (pe_exited e i))) (\<lambda>dead.
       if dead \<noteq> None then mraise (RuntimeError description)
       else mbind predicate (\<lambda>ok.
         if ok then mbind (monotonic e) (\<lambda>t. mret (Some t))
         else mbind (case act of None \<Rightarrow> mret last_action
                     | Some a \<Rightarrow> mbind (monotonic e) (\<lambda>t. if t - last_action \<ge> 2 / 25 then mthen a (monotonic e) else mret last_action)) (\<lambda>l.
           mthen snooze (wait_loop e n predicate deadline description act l)))))"

definition prep_wait :: "prep_env \<Rightarrow> nat \<Rightarrow> (prep, bool) meth \<Rightarrow> rat \<Rightarrow> string \<Rightarrow> (prep, unit) meth option \<Rightarrow> (prep, rat option) meth" where
  "prep_wait e n predicate timeout description act =
     mbind (monotonic e) (\<lambda>t. wait_loop e n predicate (t + timeout) description act 0)"

section \<open>The preparation\<close>

definition latest_nonce :: "heard \<Rightarrow> pyval" where
  "latest_nonce samples = (if samples = [] then PNone else getf (snd (last samples)) ''nonce'')"

definition expected_nonces :: "arm_world \<Rightarrow> row" where
  "expected_nonces w = [(''arm'', latest_nonce (aw_guards w)), (''base'', latest_nonce (aw_base_guards w))]"

definition nonce_kept :: "row \<Rightarrow> string \<Rightarrow> heard \<Rightarrow> bool" where
  "nonce_kept nonces target samples \<longleftrightarrow> samples \<noteq> [] \<and> pyeq (latest_nonce samples) (getf nonces target)"

definition nonces_kept :: "row \<Rightarrow> arm_world \<Rightarrow> bool" where
  "nonces_kept nonces w \<longleftrightarrow> nonce_kept nonces ''arm'' (aw_guards w) \<and> nonce_kept nonces ''base'' (aw_base_guards w)"

text \<open>\<^verbatim>\<open>max(..., default=-1)\<close> over the accepted worlds.\<close>

definition previous_stamp :: "heard \<Rightarrow> int" where
  "previous_stamp outcomes =
     (case concat (map (\<lambda>(_, row). case as_int (getf (dict_or_empty (getf row ''world_updated'')) ''stamp_ms'') of None \<Rightarrow> [] | Some s \<Rightarrow> [s]) outcomes) of
        [] \<Rightarrow> - 1
      | s # ss \<Rightarrow> fold max ss s)"

definition prerequisite_ready :: "prep_env \<Rightarrow> rat \<Rightarrow> int \<Rightarrow> row \<Rightarrow> (prep, bool) meth" where
  "prerequisite_ready e started_at previous nonces =
     mbind (observe_world e) (\<lambda>w. mbind (monotonic e) (\<lambda>now.
     mret (accepted_world_ready (aw_states w) (aw_outcomes w) started_at now previous \<and> nonces_kept nonces w)))"

definition reset_ready :: "prep_env \<Rightarrow> rat \<Rightarrow> row \<Rightarrow> int \<Rightarrow> (prep, bool) meth" where
  "reset_ready e sent nonces proposal_id =
     mbind (observe_world e) (\<lambda>w. mbind (monotonic e) (\<lambda>now.
     mlift (gazebo_rearm_ready w sent now ARM_JOINTS nonces (Some proposal_id))))"

text \<open>The id of the last proposal: the durable counter, or the newest decision seen.\<close>

definition decision_id :: "row \<Rightarrow> int res" where
  "decision_id row =
     rbind (dget_or (case map_of row ''decision'' of None \<Rightarrow> PDict [] | Some d \<Rightarrow> d) ''proposal_id'' (PInt 0)) need_int"

definition last_proposal :: "prep_env \<Rightarrow> (prep, int) meth" where
  "last_proposal e =
     (if pe_roles e then read_at (pe_counter e)
      else mbind (observe_world e) (\<lambda>w. mbind (mlift (rmap (\<lambda>(_, row). decision_id row) (aw_outcomes w))) (\<lambda>ids.
           mret (case ids of [] \<Rightarrow> 0 | i # is \<Rightarrow> fold max is i))))"

definition stale_setup :: "prep_env \<Rightarrow> rat \<Rightarrow> row \<Rightarrow> (prep, bool) meth" where
  "stale_setup e deadline nonces =
     mbind (monotonic e) (\<lambda>t. if deadline \<le> t then mret True else mbind (observe_world e) (\<lambda>w. mret (\<not> nonces_kept nonces w)))"

text \<open>\<^verbatim>\<open>try: wait_for(...) except TimeoutError\<close>: \<open>Some False\<close> is a timeout.\<close>

definition try_wait :: "(prep, rat option) meth \<Rightarrow> (prep, bool option) meth" where
  "try_wait m = mcatch (mbind m (\<lambda>r. mret (map_option (\<lambda>_. True) r)))
     (\<lambda>x. case x of TimeoutError _ \<Rightarrow> mret (Some False) | _ \<Rightarrow> mraise x)"

datatype prep_step = Waiting | Break | Accepted int | TryAgain

text \<open>The wait for exactly the reset of the proposal just sent.\<close>

definition await_reset :: "prep_env \<Rightarrow> nat \<Rightarrow> rat \<Rightarrow> row \<Rightarrow> nat \<Rightarrow> rat \<Rightarrow> int \<Rightarrow> (prep, prep_step) meth" where
  "await_reset e n deadline nonces attempt sent proposal_id =
     mbind (observe_world e) (\<lambda>w. if aw_states w = [] then mraise IndexError
     else mbind (monotonic e) (\<lambda>t.
     mbind (try_wait (prep_wait e n (reset_ready e sent nonces proposal_id) (min (if pe_roles e \<and> attempt = 0 then 1 else 5) (deadline - t))
              ''fresh explicit arm fault fixture reset'' None)) (\<lambda>r.
     case r of
       None \<Rightarrow> mret Waiting
     | Some True \<Rightarrow> mret (Accepted proposal_id)
     | Some False \<Rightarrow>
         if pe_roles e then mbind (read_at (pe_counter e)) (\<lambda>after. mret (if after \<noteq> proposal_id then Break else TryAgain))
         else mret TryAgain)))"

definition send_off :: "rat \<Rightarrow> int \<Rightarrow> (prep, unit) meth" where
  "send_off sent proposal_id = mput (\<lambda>s. s\<lparr>pr_sent := pr_sent s @ [(sent, proposal_id)], pr_at := pr_at s @ [(pr_sleeps s, pr_reads s)]\<rparr>)"

definition off_request :: "prep_env \<Rightarrow> nat \<Rightarrow> rat \<Rightarrow> row \<Rightarrow> nat \<Rightarrow> (prep, prep_step) meth" where
  "off_request e n deadline nonces attempt =
     mbind (last_proposal e) (\<lambda>before.
     mbind (monotonic e) (\<lambda>sent.
     mthen (send_off sent (before + 1)) (await_reset e n deadline nonces attempt sent (before + 1))))"

text \<open>The second check after the wait for a fresh world, then the proposal.\<close>

definition send_if_ready :: "prep_env \<Rightarrow> nat \<Rightarrow> rat \<Rightarrow> row \<Rightarrow> nat \<Rightarrow> bool option \<Rightarrow> (prep, prep_step) meth" where
  "send_if_ready e n deadline nonces attempt ready =
     (case ready of
        None \<Rightarrow> mret Waiting
      | Some False \<Rightarrow> mret Break
      | Some True \<Rightarrow> mbind (stale_setup e deadline nonces) (\<lambda>stale. if stale then mret Break else off_request e n deadline nonces attempt))"

definition prep_attempt :: "prep_env \<Rightarrow> nat \<Rightarrow> rat \<Rightarrow> rat \<Rightarrow> int \<Rightarrow> row \<Rightarrow> nat \<Rightarrow> (prep, prep_step) meth" where
  "prep_attempt e n started_at deadline previous nonces attempt =
     mbind (stale_setup e deadline nonces) (\<lambda>stale. if stale then mret Break
     else mbind (monotonic e) (\<lambda>t.
     mbind (try_wait (prep_wait e n (prerequisite_ready e started_at previous nonces) (deadline - t) ''owner fresh world before OFF request'' None))
       (send_if_ready e n deadline nonces attempt)))"

fun prep_attempts :: "prep_env \<Rightarrow> nat \<Rightarrow> rat \<Rightarrow> rat \<Rightarrow> int \<Rightarrow> row \<Rightarrow> nat list \<Rightarrow> (prep, int option) meth" where
  "prep_attempts e n started_at deadline previous nonces [] = mraise (TimeoutError ''fresh explicit arm fault fixture reset'')"
| "prep_attempts e n started_at deadline previous nonces (a # as) =
     mbind (prep_attempt e n started_at deadline previous nonces a) (\<lambda>r.
     case r of
       Waiting \<Rightarrow> mret None
     | Break \<Rightarrow> mraise (TimeoutError ''fresh explicit arm fault fixture reset'')
     | Accepted i \<Rightarrow> mret (Some i)
     | TryAgain \<Rightarrow> prep_attempts e n started_at deadline previous nonces as)"

definition prep_init :: prep where
  "prep_init = \<lparr>pr_sleeps = 0, pr_reads = 0, pr_sent = [], pr_at = []\<rparr>"

text \<open>\<^verbatim>\<open>prepare_arm_fault\<close>: the first wait lets its \<^verbatim>\<open>TimeoutError\<close> through.\<close>

definition prepare_rest :: "prep_env \<Rightarrow> nat \<Rightarrow> rat \<Rightarrow> int \<Rightarrow> row \<Rightarrow> rat \<Rightarrow> (prep, int option) meth" where
  "prepare_rest e n started_at previous nonces t =
     mbind (prep_wait e n (prerequisite_ready e started_at previous nonces) (started_at + 5 - t) ''owner accepted fresh world before fixture reset'' None) (\<lambda>r.
     case r of
       None \<Rightarrow> mret None
     | Some _ \<Rightarrow> prep_attempts e n started_at (started_at + 5) previous nonces (if pe_roles e then [0, 1] else [0]))"

definition prepare_body :: "prep_env \<Rightarrow> nat \<Rightarrow> arm_world \<Rightarrow> (prep, int option) meth" where
  "prepare_body e n w =
     mbind (monotonic e) (\<lambda>started_at.
     mbind (observe_world e) (\<lambda>w1.
     mbind (monotonic e) (\<lambda>t.
     prepare_rest e n started_at (previous_stamp (aw_outcomes w1)) (expected_nonces w) t)))"

definition prepare_arm_fault :: "prep_env \<Rightarrow> nat \<Rightarrow> int option res \<times> prep" where
  "prepare_arm_fault e n = mbind (observe_world e) (prepare_body e n) prep_init"

section \<open>Waits leave the proposals alone\<close>

definition forward :: "prep \<Rightarrow> prep \<Rightarrow> bool" where
  "forward s t \<longleftrightarrow> pr_sent t = pr_sent s \<and> pr_at t = pr_at s \<and> pr_sleeps s \<le> pr_sleeps t \<and> pr_reads s \<le> pr_reads t"

interpretation fw: run_rel forward
  by unfold_locales (auto simp: forward_def)

lemma fw_reads: "keeps forward (read_at f)" "keeps forward (monotonic e)" "keeps forward (observe_world e)" "keeps forward snooze"
  by (simp_all add: keeps_def forward_def read_at_def monotonic_def observe_world_def snooze_def mput_def)

lemma fw_checks: "keeps forward (prerequisite_ready e started previous nonces)" "keeps forward (reset_ready e sent nonces i)"
    "keeps forward (stale_setup e deadline nonces)" "keeps forward (last_proposal e)"
  unfolding prerequisite_ready_def reset_ready_def stale_setup_def last_proposal_def by (intro fw.keeps_flow fw_reads)+

lemma fw_loop: "keeps forward predicate \<Longrightarrow> keeps forward (wait_loop e n predicate deadline description None l)"
proof (induction n arbitrary: l)
  case 0
  show ?case by (simp add: fw.keeps_mret)
next
  case (Suc n)
  show ?case unfolding wait_loop.simps option.case by (intro fw.keeps_flow fw_reads Suc)
qed

lemma fw_wait: "keeps forward predicate \<Longrightarrow> keeps forward (prep_wait e n predicate timeout description None)"
  unfolding prep_wait_def by (intro fw.keeps_flow fw_reads fw_loop)

lemma fw_try: "keeps forward m \<Longrightarrow> keeps forward (try_wait m)"
  unfolding try_wait_def by (intro fw.keeps_flow) (auto intro: fw.keeps_flow split: exn.split)

text \<open>A wait that returned saw its predicate hold, and made one reading after that.\<close>

definition read_once :: "prep \<Rightarrow> prep" where
  "read_once s = s\<lparr>pr_reads := Suc (pr_reads s)\<rparr>"

lemma loop_saw:
  assumes "keeps forward predicate"
  shows "wait_loop e n predicate deadline description None l s = (Inr (Some t), s') \<Longrightarrow>
    \<exists>u v. predicate u = (Inr True, v) \<and> s' = read_once v \<and> forward s u \<and> pr_reads s + 2 \<le> pr_reads u"
proof (induction n arbitrary: l s)
  case (Suc n)
  obtain t0 s1 where 1: "monotonic e s = (Inr t0, s1)" by (simp add: monotonic_def read_at_def)
  obtain d s2 where 2: "read_at (\<lambda>i. Inr (pe_exited e i)) s1 = (Inr d, s2)" by (simp add: read_at_def)
  obtain q s3 where 3: "predicate s2 = (q, s3)" by (cases "predicate s2")
  have s2: "forward s s2" "pr_reads s2 = pr_reads s + 2" using 1 2 by (auto simp: monotonic_def read_at_def forward_def)
  have go: "t0 < deadline" "d = None" "case q of Inl x \<Rightarrow> False | Inr b \<Rightarrow>
      if b then mbind (monotonic e) (\<lambda>t. mret (Some t)) s3 = (Inr (Some t), s')
      else mthen snooze (wait_loop e n predicate deadline description None l) s3 = (Inr (Some t), s')"
    using Suc.prems 1 2 3 by (cases d; auto simp: mbind_def mraise_def mret_def split: if_splits sum.splits)+
  show ?case
  proof (cases "q = Inr True")
    case True
    with go(3) have "s' = read_once s3" by (auto simp: mbind_def monotonic_def read_at_def mret_def read_once_def)
    with 3 True s2 show ?thesis by (intro exI [of _ s2] exI [of _ s3]) simp
  next
    case False
    with go(3) have w: "wait_loop e n predicate deadline description None l (s3\<lparr>pr_sleeps := Suc (pr_sleeps s3)\<rparr>) = (Inr (Some t), s')"
      by (auto simp: mthen_def mbind_def snooze_def mput_def split: sum.splits)
    have "forward s2 s3" using keepsD [OF assms 3] .
    with s2 have f: "forward s (s3\<lparr>pr_sleeps := Suc (pr_sleeps s3)\<rparr>)" "pr_reads s + 2 \<le> pr_reads s3" by (auto simp: forward_def)
    from Suc.IH [OF w] f show ?thesis using fw.trans by fastforce
  qed
qed (simp add: mret_def)

lemma try_saw:
  assumes "keeps forward predicate" and "try_wait (prep_wait e n predicate timeout description None) s = (Inr (Some True), s')"
  shows "\<exists>u v. predicate u = (Inr True, v) \<and> s' = read_once v \<and> forward s u \<and> pr_reads s + 3 \<le> pr_reads u"
proof -
  from assms(2) obtain t where "prep_wait e n predicate timeout description None s = (Inr (Some t), s')"
    by (auto simp: try_wait_def mcatch_def mbind_def mret_def mraise_def split: prod.splits sum.splits option.splits exn.splits)
  then obtain s1 d where "wait_loop e n predicate d description None 0 s1 = (Inr (Some t), s')" "s1 = read_once s"
    by (auto simp: prep_wait_def mbind_Inr_iff monotonic_def read_at_def read_once_def)
  note s1 = this
  from loop_saw [OF assms(1) s1(1)] obtain u v where "predicate u = (Inr True, v)" "s' = read_once v" "forward s1 u" "pr_reads s1 + 2 \<le> pr_reads u"
    by blast
  with s1(2) show ?thesis by (intro exI [of _ u] exI [of _ v]) (auto simp: read_once_def forward_def)
qed

lemma prerequisite_saw:
  assumes "prerequisite_ready e started previous nonces u = (Inr True, v)"
  shows "accepted_world_ready (aw_states (pe_world e (pr_reads u))) (aw_outcomes (pe_world e (pr_reads u))) started
      (pe_clock e (pr_sleeps u) (pr_reads u + 1)) previous \<and> nonces_kept nonces (pe_world e (pr_reads u)) \<and>
    v = u\<lparr>pr_reads := pr_reads u + 2\<rparr>"
  using assms by (auto simp: prerequisite_ready_def mbind_Inr_iff observe_world_def monotonic_def read_at_def mret_def)

lemma reset_saw:
  assumes "reset_ready e sent nonces i u = (Inr True, v)"
  shows "gazebo_rearm_ready (pe_world e (pr_reads u)) sent (pe_clock e (pr_sleeps u) (pr_reads u + 1)) ARM_JOINTS nonces (Some i) = Inr True \<and>
    v = u\<lparr>pr_reads := pr_reads u + 2\<rparr>"
  using assms by (auto simp: reset_ready_def mbind_Inr_iff observe_world_def monotonic_def read_at_def mlift_def)

section \<open>What an attempt leaves behind\<close>

lemma fw_await: "keeps forward (await_reset e n deadline nonces a sent i)"
  unfolding await_reset_def
  by (intro fw.keeps_flow fw_reads fw_try fw_wait fw_checks) (auto intro: fw.keeps_flow fw_reads split: bool.split)

text \<open>
  The reset the wait accepted: the observation and the clock it was accepted at are the last but two and
  the last but one readings.
\<close>

definition reset_at :: "prep_env \<Rightarrow> row \<Rightarrow> rat \<times> int \<Rightarrow> prep \<Rightarrow> bool" where
  "reset_at e nonces p s \<longleftrightarrow> gazebo_rearm_ready (pe_world e (pr_reads s - 3)) (fst p)
     (pe_clock e (pr_sleeps s) (pr_reads s - 2)) ARM_JOINTS nonces (Some (snd p)) = Inr True"

lemma await_accepted:
  assumes "await_reset e n deadline nonces a sent i s = (Inr (Accepted k), s')"
  shows "k = i \<and> reset_at e nonces (sent, i) s' \<and> pr_reads s + 3 \<le> pr_reads s'"
proof -
  from assms obtain w s1 t s2 d where 1: "observe_world e s = (Inr w, s1)" "monotonic e s1 = (Inr t, s2)"
    "try_wait (prep_wait e n (reset_ready e sent nonces i) d ''fresh explicit arm fault fixture reset'' None) s2 = (Inr (Some True), s')" "k = i"
    unfolding await_reset_def
    by (auto simp: mbind_Inr_iff mret_def mraise_def split: if_splits option.splits bool.splits)
  from try_saw [OF fw_checks(2) 1(3)] obtain u v where u: "reset_ready e sent nonces i u = (Inr True, v)" "s' = read_once v"
    "pr_reads s2 + 3 \<le> pr_reads u" by blast
  from reset_saw [OF u(1)] u(2,3) 1 show ?thesis
    by (auto simp: reset_at_def read_once_def observe_world_def monotonic_def read_at_def)
qed

lemma await_again:
  assumes "await_reset e n deadline nonces a sent i s = (Inr TryAgain, s')"
  shows "\<exists>c. pr_reads s \<le> c \<and> c < pr_reads s' \<and> (if pe_roles e then pe_counter e c = Inr i else True)"
proof -
  from assms obtain w s1 t s2 d s3 where 1: "observe_world e s = (Inr w, s1)" "monotonic e s1 = (Inr t, s2)"
    "try_wait (prep_wait e n (reset_ready e sent nonces i) d ''fresh explicit arm fault fixture reset'' None) s2 = (Inr (Some False), s3)"
    "if pe_roles e then read_at (pe_counter e) s3 = (Inr i, s') else s' = s3"
    unfolding await_reset_def
    by (auto simp: mbind_Inr_iff mret_def mraise_def split: if_splits option.splits bool.splits)
  have "forward s2 s3" using keepsD [OF fw_try [OF fw_wait [OF fw_checks(2)]] 1(3)] .
  with 1 show ?thesis
    by (intro exI [of _ "pr_reads s' - 1"]) (auto simp: read_at_def observe_world_def monotonic_def forward_def split: if_splits)
qed

text \<open>
  The proposal \<open>p\<close> sent after \<open>snd m\<close> readings, all of its attempt from reading \<open>lo\<close> on. Seven readings before
  it the executor had a newer world of the owner, accepted and fresh at the clock read next, and both
  controllers' nonces; three readings later the clock was inside the deadline, and the observation after
  it had both nonces still; the last two readings are the id the source used last and the instant.
\<close>

definition used_last :: "prep_env \<Rightarrow> nat \<Rightarrow> int res" where
  "used_last e i =
     (if pe_roles e then pe_counter e i
      else rbind (rmap (\<lambda>(_, row). decision_id row) (aw_outcomes (pe_world e i))) (\<lambda>ids.
           Inr (case ids of [] \<Rightarrow> 0 | i # is \<Rightarrow> fold max is i)))"

definition off_sent :: "prep_env \<Rightarrow> rat \<Rightarrow> int \<Rightarrow> row \<Rightarrow> nat \<Rightarrow> nat \<times> nat \<Rightarrow> rat \<times> int \<Rightarrow> bool" where
  "off_sent e started previous nonces lo m p \<longleftrightarrow> (\<exists>j. lo \<le> j \<and> snd m = j + 7 \<and>
     accepted_world_ready (aw_states (pe_world e j)) (aw_outcomes (pe_world e j)) started (pe_clock e (fst m) (j + 1)) previous \<and>
     nonces_kept nonces (pe_world e j) \<and> pe_clock e (fst m) (j + 3) < started + 5 \<and> nonces_kept nonces (pe_world e (j + 4)) \<and>
     used_last e (j + 5) = Inr (snd p - 1) \<and> fst p = pe_clock e (fst m) (j + 6))"

text \<open>One attempt: nothing sent, or one proposal, and what its result says of it.\<close>

definition attempted :: "prep_env \<Rightarrow> rat \<Rightarrow> int \<Rightarrow> row \<Rightarrow> prep_step res \<Rightarrow> prep \<Rightarrow> prep \<Rightarrow> bool" where
  "attempted e started previous nonces r s t \<longleftrightarrow> pr_reads s \<le> pr_reads t \<and>
     (pr_sent t = pr_sent s \<and> pr_at t = pr_at s \<and> r \<noteq> Inr TryAgain \<and> (\<forall>k. r \<noteq> Inr (Accepted k)) \<or>
      (\<exists>m p. pr_sent t = pr_sent s @ [p] \<and> pr_at t = pr_at s @ [m] \<and> off_sent e started previous nonces (pr_reads s) m p \<and>
         (r = Inr TryAgain \<longrightarrow> (\<exists>c. snd m \<le> c \<and> c < pr_reads t \<and> (if pe_roles e then pe_counter e c = Inr (snd p) else True))) \<and>
         (\<forall>k. r = Inr (Accepted k) \<longrightarrow> k = snd p \<and> reset_at e nonces p t \<and> snd m + 3 \<le> pr_reads t)))"

lemma attempted_quiet:
  "forward s t \<Longrightarrow> r \<noteq> Inr TryAgain \<Longrightarrow> (\<And>k. r \<noteq> Inr (Accepted k)) \<Longrightarrow> attempted e started previous nonces r s t"
  by (auto simp: attempted_def forward_def)

lemma stale_run: "stale_setup e deadline nonces s = (Inr b, t) \<Longrightarrow>
  forward s t \<and> (\<not> b \<longrightarrow> t = s\<lparr>pr_reads := pr_reads s + 2\<rparr> \<and> pe_clock e (pr_sleeps s) (pr_reads s) < deadline \<and>
    nonces_kept nonces (pe_world e (pr_reads s + 1)))"
  by (auto simp: stale_setup_def mbind_Inr_iff monotonic_def read_at_def observe_world_def mret_def not_le forward_def split: if_splits)

lemma stale_total: "\<exists>b t. stale_setup e deadline nonces s = (Inr b, t)"
  by (cases "deadline \<le> pe_clock e (pr_sleeps s) (pr_reads s)")
    (auto simp: stale_setup_def mbind_def monotonic_def read_at_def observe_world_def mret_def)

lemma last_run:
  assumes "last_proposal e s = (r, t)"
  shows "r = used_last e (pr_reads s) \<and> t = read_once s"
proof (cases "pe_roles e")
  case True
  with assms show ?thesis by (auto simp: last_proposal_def used_last_def read_at_def read_once_def)
next
  case False
  with assms show ?thesis
    by (cases "rmap (\<lambda>(_, row). decision_id row) (aw_outcomes (pe_world e (pr_reads s)))")
      (auto simp: last_proposal_def used_last_def read_at_def observe_world_def mbind_def mlift_def mret_def read_once_def)
qed

text \<open>The request, from a state the fresh world and the second check led to.\<close>

lemma request_run:
  assumes "off_request e n (started + 5) nonces a s = (r, t)" and "forward s0 s" and "pr_reads s0 \<le> j" and "pr_reads s = j + 5"
    and "accepted_world_ready (aw_states (pe_world e j)) (aw_outcomes (pe_world e j)) started (pe_clock e (pr_sleeps s) (j + 1)) previous"
    and "nonces_kept nonces (pe_world e j)" and "pe_clock e (pr_sleeps s) (j + 3) < started + 5" and "nonces_kept nonces (pe_world e (j + 4))"
  shows "attempted e started previous nonces r s0 t"
proof -
  obtain b s1 where b: "last_proposal e s = (b, s1)" by (cases "last_proposal e s")
  note s1 = last_run [OF b]
  show ?thesis
  proof (cases b)
    case (Inl x)
    with assms(1) b have "r = Inl x" "t = s1" by (simp_all add: off_request_def mbind_def)
    with s1 assms(2) show ?thesis by (intro attempted_quiet) (auto simp: read_once_def forward_def)
  next
    case (Inr i)
    let ?p = "(pe_clock e (pr_sleeps s) (j + 6), i + 1)"
    let ?s3 = "s\<lparr>pr_reads := j + 7, pr_sent := pr_sent s @ [?p], pr_at := pr_at s @ [(pr_sleeps s, j + 7)]\<rparr>"
    have w: "await_reset e n (started + 5) nonces a (fst ?p) (i + 1) ?s3 = (r, t)"
    proof -
      have "mbind (monotonic e) (\<lambda>sent. mthen (send_off sent (i + 1)) (await_reset e n (started + 5) nonces a sent (i + 1))) s1 = (r, t)"
        using assms(1) b Inr by (simp add: off_request_def mbind_def [of "last_proposal e"])
      with assms(4) s1 show ?thesis
        by (simp add: mbind_def mthen_def send_off_def mput_def monotonic_def read_at_def read_once_def numeral_eq_Suc)
    qed
    have f: "forward ?s3 t" using keepsD [OF fw_await w] .
    have off: "off_sent e started previous nonces (pr_reads s0) (pr_sleeps s, j + 7) ?p"
      using assms(3-8) s1 Inr unfolding off_sent_def by (intro exI [of _ j]) (simp add: numeral_eq_Suc)
    have again: "\<exists>c. j + 7 \<le> c \<and> c < pr_reads t \<and> (if pe_roles e then pe_counter e c = Inr (i + 1) else True)" if "r = Inr TryAgain"
      using await_again [OF w [unfolded that]] by simp
    have ok: "k = i + 1 \<and> reset_at e nonces ?p t \<and> j + 7 + 3 \<le> pr_reads t" if "r = Inr (Accepted k)" for k
      using await_accepted [OF w [unfolded that]] by simp
    have st: "pr_sent t = pr_sent s0 @ [?p]" "pr_at t = pr_at s0 @ [(pr_sleeps s, j + 7)]" "pr_reads s0 \<le> pr_reads t"
      using f assms(2,3) by (auto simp: forward_def)
    show ?thesis unfolding attempted_def
      by (intro conjI st(3) disjI2 exI [of _ "(pr_sleeps s, j + 7)"] exI [of _ ?p] st(1,2) off impI allI)
        (use again ok in \<open>(fastforce | simp)+\<close>)
  qed
qed

lemma attempt_run:
  assumes "prep_attempt e n started (started + 5) previous nonces a s = (r, t)"
  shows "attempted e started previous nonces r s t"
proof -
  obtain b1 s1 where 1: "stale_setup e (started + 5) nonces s = (Inr b1, s1)" using stale_total by metis
  note st1 = stale_run [OF 1]
  show ?thesis
  proof (cases b1)
    case True
    with assms 1 st1 show ?thesis by (intro attempted_quiet) (auto simp: prep_attempt_def mbind_def mret_def)
  next
    case False
    obtain t0 s2 where 2: "monotonic e s1 = (Inr t0, s2)" by (simp add: monotonic_def read_at_def)
    let ?w = "try_wait (prep_wait e n (prerequisite_ready e started previous nonces) (started + 5 - t0) ''owner fresh world before OFF request'' None)"
    obtain q s3 where 3: "?w s2 = (q, s3)" by (cases "?w s2")
    have f2: "forward s1 s2" using keepsD [OF fw_reads(2) 2] .
    have f3: "forward s s3" using st1 f2 keepsD [OF fw_try [OF fw_wait [OF fw_checks(1)]] 3] fw.trans by blast
    have e: "(case q of Inl x \<Rightarrow> (Inl x, s3) | Inr y \<Rightarrow> send_if_ready e n (started + 5) nonces a y s3) = (r, t)"
      using assms 1 2 3 False by (simp add: prep_attempt_def mbind_def)
    show ?thesis
    proof (cases "q = Inr (Some True)")
      case no: False
      with e f3 show ?thesis
        by (intro attempted_quiet) (auto simp: send_if_ready_def mret_def split: sum.splits option.splits bool.splits)
    next
      case yes: True
      from try_saw [OF fw_checks(1) 3 [unfolded yes]] obtain u v where
        u: "prerequisite_ready e started previous nonces u = (Inr True, v)" "s3 = read_once v" "forward s2 u" "pr_reads s2 + 3 \<le> pr_reads u" by blast
      note pre = prerequisite_saw [OF u(1)]
      have s3: "pr_reads s3 = pr_reads u + 3" "pr_sleeps s3 = pr_sleeps u" using pre u(2) by (simp_all add: read_once_def)
      have lo: "pr_reads s \<le> pr_reads u" using st1 f2 u(4) by (auto simp: forward_def)
      obtain b2 s4 where 4: "stale_setup e (started + 5) nonces s3 = (Inr b2, s4)" using stale_total by metis
      note st4 = stale_run [OF 4]
      have f4: "forward s s4" using f3 st4 fw.trans by blast
      have e4: "(if b2 then mret Break else off_request e n (started + 5) nonces a) s4 = (r, t)"
        using e yes 4 by (simp add: send_if_ready_def mbind_def split: if_splits)
      show ?thesis
      proof (cases b2)
        case True
        with e4 f4 show ?thesis by (intro attempted_quiet) (auto simp: mret_def)
      next
        case nb: False
        from e4 nb have off: "off_request e n (started + 5) nonces a s4 = (r, t)" by simp
        show ?thesis
          by (rule request_run [OF off f4 lo]) (use pre s3 st4 nb in \<open>simp_all add: numeral_eq_Suc\<close>)
      qed
    qed
  qed
qed

section \<open>The whole preparation\<close>

text \<open>
  The proposals with where they were sent: each of its own attempt, and every one but the last followed,
  before the next attempt began, by a reading of the durable counter that was exactly its id.
\<close>

fun offs :: "prep_env \<Rightarrow> rat \<Rightarrow> int \<Rightarrow> row \<Rightarrow> nat \<Rightarrow> (nat \<times> nat) list \<Rightarrow> (rat \<times> int) list \<Rightarrow> bool" where
  "offs e started previous nonces lo [] [] \<longleftrightarrow> True"
| "offs e started previous nonces lo (m # ms) (p # ps) \<longleftrightarrow> off_sent e started previous nonces lo m p \<and>
     (ms = [] \<and> ps = [] \<or>
      (\<exists>c. snd m \<le> c \<and> (if pe_roles e then pe_counter e c = Inr (snd p) else True) \<and> offs e started previous nonces (Suc c) ms ps))"
| "offs e started previous nonces lo _ _ \<longleftrightarrow> False"

definition accepted_last :: "prep_env \<Rightarrow> row \<Rightarrow> int option res \<Rightarrow> prep \<Rightarrow> bool" where
  "accepted_last e nonces r s \<longleftrightarrow> (\<forall>k. r = Inr (Some k) \<longrightarrow> pr_sent s \<noteq> [] \<and> pr_at s \<noteq> [] \<and> snd (last (pr_sent s)) = k \<and>
     reset_at e nonces (last (pr_sent s)) s \<and> snd (last (pr_at s)) + 3 \<le> pr_reads s)"

lemma off_sent_mono: "off_sent e started previous nonces lo m p \<Longrightarrow> lo' \<le> lo \<Longrightarrow> off_sent e started previous nonces lo' m p"
  unfolding off_sent_def by (meson order_trans)

lemma off_sent_lo: "off_sent e started previous nonces lo m p \<Longrightarrow> lo \<le> snd m"
  by (auto simp: off_sent_def)

lemma offs_mono: "offs e started previous nonces lo ms ps \<Longrightarrow> lo' \<le> lo \<Longrightarrow> offs e started previous nonces lo' ms ps"
  by (cases "(e, started, previous, nonces, lo, ms, ps)" rule: offs.cases) (auto intro: off_sent_mono)

lemma attempts_run:
  "prep_attempts e n started (started + 5) previous nonces as s = (r, t) \<Longrightarrow>
     \<exists>ms ps. pr_sent t = pr_sent s @ ps \<and> pr_at t = pr_at s @ ms \<and> length ps \<le> length as \<and>
       offs e started previous nonces (pr_reads s) ms ps \<and> accepted_last e nonces r t"
proof (induction as arbitrary: s)
  case Nil
  then show ?case by (auto simp: mraise_def accepted_last_def)
next
  case (Cons a as)
  obtain q u where q: "prep_attempt e n started (started + 5) previous nonces a s = (q, u)" by (cases "prep_attempt e n started (started + 5) previous nonces a s")
  note at = attempt_run [OF q, unfolded attempted_def]
  have go: "(case q of Inl x \<Rightarrow> (Inl x, u) | Inr TryAgain \<Rightarrow> prep_attempts e n started (started + 5) previous nonces as u
      | Inr Waiting \<Rightarrow> (Inr None, u) | Inr Break \<Rightarrow> (Inl (TimeoutError ''fresh explicit arm fault fixture reset''), u)
      | Inr (Accepted i) \<Rightarrow> (Inr (Some i), u)) = (r, t)"
    using Cons.prems q by (simp add: mbind_def mret_def mraise_def split: sum.splits prep_step.splits)
  show ?case
  proof (cases "pr_sent u = pr_sent s \<and> pr_at u = pr_at s \<and> q \<noteq> Inr TryAgain \<and> (\<forall>k. q \<noteq> Inr (Accepted k))")
    case True
    with go have "t = u" "\<And>k. r \<noteq> Inr (Some k)" by (auto split: sum.splits prep_step.splits)
    with True show ?thesis by (auto simp: accepted_last_def)
  next
    case False
    with at obtain m p where mp: "pr_sent u = pr_sent s @ [p]" "pr_at u = pr_at s @ [m]" "off_sent e started previous nonces (pr_reads s) m p"
      "q = Inr TryAgain \<Longrightarrow> \<exists>c. snd m \<le> c \<and> c < pr_reads u \<and> (if pe_roles e then pe_counter e c = Inr (snd p) else True)"
      "\<And>k. q = Inr (Accepted k) \<Longrightarrow> k = snd p \<and> reset_at e nonces p u \<and> snd m + 3 \<le> pr_reads u" by blast
    show ?thesis
    proof (cases "q = Inr TryAgain")
      case True
      with go have "prep_attempts e n started (started + 5) previous nonces as u = (r, t)" by simp
      from Cons.IH [OF this] obtain ms ps where more: "pr_sent t = pr_sent u @ ps" "pr_at t = pr_at u @ ms" "length ps \<le> length as"
        "offs e started previous nonces (pr_reads u) ms ps" "accepted_last e nonces r t" by blast
      from mp(4) [OF True] obtain c where c: "snd m \<le> c" "Suc c \<le> pr_reads u" "if pe_roles e then pe_counter e c = Inr (snd p) else True"
        by (auto simp: Suc_le_eq)
      from offs_mono [OF more(4) c(2)] c(1,3) have "\<exists>c. snd m \<le> c \<and> (if pe_roles e then pe_counter e c = Inr (snd p) else True) \<and>
        offs e started previous nonces (Suc c) ms ps" by blast
      with mp more show ?thesis by (intro exI [of _ "m # ms"] exI [of _ "p # ps"]) simp
    next
      case no: False
      with go have "t = u" "\<And>k. r = Inr (Some k) \<longleftrightarrow> q = Inr (Accepted k)" by (auto split: sum.splits prep_step.splits)
      with mp show ?thesis by (intro exI [of _ "[m]"] exI [of _ "[p]"]) (auto simp: accepted_last_def)
    qed
  qed
qed

text \<open>
  The preparation returns before any arm goal is sent, after at most two OFF proposals (one outside the
  isolated profile), each as \<open>offs\<close> says, and the accepted one is the last.
\<close>

lemma prepare_run:
  assumes "prepare_arm_fault e n = (r, s)"
  shows "length (pr_sent s) \<le> (if pe_roles e then 2 else 1) \<and>
    offs e (pe_clock e 0 1) (previous_stamp (aw_outcomes (pe_world e 2))) (expected_nonces (pe_world e 0)) 4 (pr_at s) (pr_sent s) \<and>
    accepted_last e (expected_nonces (pe_world e 0)) r s"
proof -
  define w where "w = pe_world e 0"
  define w1 where "w1 = pe_world e 2"
  define started where "started = pe_clock e 0 1"
  define previous where "previous = previous_stamp (aw_outcomes w1)"
  let ?wait = "prep_wait e n (prerequisite_ready e started previous (expected_nonces w)) (started + 5 - pe_clock e 0 3) ''owner accepted fresh world before fixture reset'' None"
  define s0 where "s0 = \<lparr>pr_sleeps = 0, pr_reads = 4, pr_sent = [], pr_at = []\<rparr>"
  obtain q u where q: "?wait s0 = (q, u)" by (cases "?wait s0")
  have u: "pr_sent u = [] \<and> pr_at u = [] \<and> 4 \<le> pr_reads u" using keepsD [OF fw_wait [OF fw_checks(1)] q] by (simp add: forward_def s0_def)
  have r: "(r, s) = (case q of Inl x \<Rightarrow> (Inl x, u) | Inr None \<Rightarrow> (Inr None, u)
     | Inr (Some _) \<Rightarrow> prep_attempts e n started (started + 5) previous (expected_nonces w) (if pe_roles e then [0, 1] else [0]) u)"
    using assms q unfolding prepare_arm_fault_def prepare_body_def prepare_rest_def prep_init_def
    by (simp add: mbind_def observe_world_def monotonic_def read_at_def s0_def w_def w1_def started_def previous_def mret_def numeral_eq_Suc
        del: prep_attempts.simps split: sum.splits option.splits if_splits)
  show ?thesis unfolding w_def [symmetric] w1_def [symmetric] started_def [symmetric] previous_def [symmetric]
  proof (cases "\<exists>t. q = Inr (Some t)")
    case True
    with r have "prep_attempts e n started (started + 5) previous (expected_nonces w) (if pe_roles e then [0, 1] else [0]) u = (r, s)" by auto
    from attempts_run [OF this] u offs_mono [where lo' = 4]
    show "length (pr_sent s) \<le> (if pe_roles e then 2 else 1) \<and> offs e started previous (expected_nonces w) 4 (pr_at s) (pr_sent s) \<and>
      accepted_last e (expected_nonces w) r s"
      by (auto split: if_splits)
  next
    case False
    with r have "s = u" "\<And>k. r \<noteq> Inr (Some k)" by (auto split: sum.splits option.splits)
    with u show "length (pr_sent s) \<le> (if pe_roles e then 2 else 1) \<and> offs e started previous (expected_nonces w) 4 (pr_at s) (pr_sent s) \<and>
      accepted_last e (expected_nonces w) r s"
      by (auto simp: accepted_last_def)
  qed
qed

section \<open>It ends\<close>

text \<open>The clock does not go back and a sleep takes its ten milliseconds.\<close>

definition naps_advance :: "prep_env \<Rightarrow> bool" where
  "naps_advance e \<longleftrightarrow> (\<forall>s k i j. i \<le> j \<longrightarrow> pe_clock e s i + of_nat k / 100 \<le> pe_clock e (s + k) j)"

definition later :: "prep \<Rightarrow> prep \<Rightarrow> bool" where
  "later s t \<longleftrightarrow> pr_sleeps s \<le> pr_sleeps t \<and> pr_reads s \<le> pr_reads t"

lemma forward_later: "forward s t \<Longrightarrow> later s t"
  by (simp add: forward_def later_def)

lemma later_trans: "later s t \<Longrightarrow> later t u \<Longrightarrow> later s u"
  by (simp add: later_def)

lemma later_clock: "naps_advance e \<Longrightarrow> later s t \<Longrightarrow> pe_clock e (pr_sleeps s) (pr_reads s) \<le> pe_clock e (pr_sleeps t) (pr_reads t)"
  unfolding naps_advance_def later_def
  by (drule spec [of _ "pr_sleeps s"], drule spec [of _ "pr_sleeps t - pr_sleeps s"], drule spec [of _ "pr_reads s"], drule spec [of _ "pr_reads t"])
    (auto intro: order_trans [rotated])

lemma loop_waits:
  assumes "keeps forward predicate"
  shows "wait_loop e (Suc n) predicate deadline description None l s = (Inr None, s') \<Longrightarrow>
    \<exists>k i. n \<le> k \<and> pr_reads s \<le> i \<and> pe_clock e (pr_sleeps s + k) i < deadline"
proof (induction n arbitrary: l s)
  case 0
  then have "pe_clock e (pr_sleeps s) (pr_reads s) < deadline"
    by (auto simp: mbind_Inr_iff monotonic_def read_at_def mraise_def split: if_splits)
  then show ?case by (intro exI [of _ 0] exI [of _ "pr_reads s"]) simp
next
  case (Suc n)
  from Suc.prems obtain l' u where u: "wait_loop e (Suc n) predicate deadline description None l' u = (Inr None, s')" "Suc (pr_sleeps s) \<le> pr_sleeps u" "pr_reads s \<le> pr_reads u"
  proof -
    obtain t s1 where 1: "monotonic e s = (Inr t, s1)" by (simp add: monotonic_def read_at_def)
    obtain d s2 where 2: "read_at (\<lambda>i. Inr (pe_exited e i)) s1 = (Inr d, s2)" by (simp add: read_at_def)
    obtain q s3 where 3: "predicate s2 = (q, s3)" by (cases "predicate s2")
    let ?next = "mbind (mret l) (\<lambda>l. mthen snooze (wait_loop e (Suc n) predicate deadline description None l)) s3"
    have go: "(if \<not> t < deadline then mraise (TimeoutError description) s1
        else if d \<noteq> None then mraise (RuntimeError description) s2
        else case q of Inl x \<Rightarrow> (Inl x, s3) | Inr b \<Rightarrow> if b then mbind (monotonic e) (\<lambda>t. mret (Some t)) s3 else ?next) = (Inr None, s')"
      using Suc.prems 1 2 3 unfolding wait_loop.simps(2) [of e "Suc n"] option.case
      by (simp add: mbind_def del: wait_loop.simps split: if_splits sum.splits)
    then have "?next = (Inr None, s')"
      by (cases q) (auto simp: mraise_def mret_def mbind_def simp del: wait_loop.simps split: if_splits prod.splits sum.splits)
    note * = 1 2 3 this
    have "forward s s1" "forward s1 s2" "forward s2 s3"
      using keepsD [OF fw_reads(2) *(1)] keepsD [OF fw_reads(1) *(2)] keepsD [OF assms *(3)] by simp_all
    then have "pr_sleeps s \<le> pr_sleeps s3" "pr_reads s \<le> pr_reads s3" by (auto simp: forward_def)
    with *(4) that [of l "s3\<lparr>pr_sleeps := Suc (pr_sleeps s3)\<rparr>"] show thesis
      by (simp add: mbind_def mret_def mthen_def snooze_def mput_def del: wait_loop.simps)
  qed
  from Suc.IH [OF u(1)] obtain k i where k: "n \<le> k" "pr_reads u \<le> i" "pe_clock e (pr_sleeps u + k) i < deadline" by blast
  obtain k' where k': "pr_sleeps u + k = pr_sleeps s + k'" "Suc n \<le> k'"
  proof (rule that [of "pr_sleeps u - pr_sleeps s + k"])
    show "pr_sleeps u + k = pr_sleeps s + (pr_sleeps u - pr_sleeps s + k)" using u(2) by linarith
    show "Suc n \<le> pr_sleeps u - pr_sleeps s + k" using u(2) k(1) by linarith
  qed
  from k(3) have "pe_clock e (pr_sleeps s + k') i < deadline" unfolding k'(1) .
  moreover have "pr_reads s \<le> i" using k(2) u(3) by simp
  ultimately show ?case using k'(2) by blast
qed

lemma wait_ends:
  assumes "naps_advance e" and "keeps forward predicate" and "timeout \<le> 5" and "500 < n"
  shows "fst (prep_wait e n predicate timeout description None s) \<noteq> Inr None"
proof
  assume "fst (prep_wait e n predicate timeout description None s) = Inr None"
  then obtain s' where w: "prep_wait e n predicate timeout description None s = (Inr None, s')" by (metis prod.collapse)
  obtain m where m: "n = Suc m" "500 \<le> m" using assms(4) by (cases n) auto
  let ?t = "pe_clock e (pr_sleeps s) (pr_reads s)"
  from w have "wait_loop e (Suc m) predicate (?t + timeout) description None 0 (s\<lparr>pr_reads := Suc (pr_reads s)\<rparr>) = (Inr None, s')"
    by (simp add: prep_wait_def mbind_def monotonic_def read_at_def m(1) del: wait_loop.simps)
  from loop_waits [OF assms(2) this] obtain k i where k: "m \<le> k" "Suc (pr_reads s) \<le> i" "pe_clock e (pr_sleeps s + k) i < ?t + timeout" by auto
  from assms(1) k(2) have "?t + of_nat k / 100 \<le> pe_clock e (pr_sleeps s + k) i" by (simp add: naps_advance_def)
  moreover have "(500 :: rat) \<le> of_nat k" using m(2) k(1) by (metis le_trans of_nat_le_iff of_nat_numeral)
  ultimately show False using k(3) assms(3) by simp
qed

lemma try_ends:
  assumes "naps_advance e" and "keeps forward predicate" and "timeout \<le> 5" and "500 < n"
  shows "try_wait (prep_wait e n predicate timeout description None) s \<noteq> (Inr None, s')"
  using wait_ends [OF assms, of description s]
  by (cases "prep_wait e n predicate timeout description None s")
    (auto simp: try_wait_def mcatch_def mbind_def mret_def mraise_def split: sum.splits option.splits exn.splits)

interpretation lt: run_rel later
  by unfold_locales (auto simp: later_def)

lemma fw_later: "keeps forward m \<Longrightarrow> keeps later m"
  by (simp add: keeps_def forward_def later_def)

lemma attempt_later: "keeps later (prep_attempt e n started deadline previous nonces a)"
proof -
  have "keeps later (send_off sent i)" for sent i by (simp add: send_off_def keeps_def mput_def later_def)
  then have "keeps later (off_request e n deadline nonces a)"
    unfolding off_request_def
    by (intro lt.keeps_mbind lt.keeps_mthen fw_later [OF fw_checks(4)] fw_later [OF fw_reads(2)] fw_later [OF fw_await])
  then have "keeps later (send_if_ready e n deadline nonces a ready)" for ready
    by (auto simp: send_if_ready_def intro!: lt.keeps_mret lt.keeps_mbind fw_later [OF fw_checks(3)] split: option.split bool.split)
  then show ?thesis unfolding prep_attempt_def
    by (intro lt.keeps_mbind lt.keeps_if lt.keeps_mret fw_later [OF fw_checks(3)] fw_later [OF fw_reads(2)] fw_later [OF fw_try [OF fw_wait [OF fw_checks(1)]]])
qed

lemma await_ends:
  assumes "naps_advance e" and "500 < n"
  shows "await_reset e n deadline nonces a sent i s \<noteq> (Inr Waiting, s')"
  using try_ends [OF assms(1) fw_checks(2) _ assms(2)] unfolding await_reset_def
  by (auto simp: mbind_Inr_iff mret_def mraise_def split: if_splits option.splits bool.splits)

lemma attempt_ends:
  assumes "naps_advance e" and "500 < n" and "started \<le> pe_clock e (pr_sleeps s) (pr_reads s)"
  shows "prep_attempt e n started (started + 5) previous nonces a s \<noteq> (Inr Waiting, s')"
proof
  assume "prep_attempt e n started (started + 5) previous nonces a s = (Inr Waiting, s')"
  then obtain u t v ready w where u: "stale_setup e (started + 5) nonces s = (Inr False, u)" and t: "monotonic e u = (Inr t, v)"
    and r: "try_wait (prep_wait e n (prerequisite_ready e started previous nonces) (started + 5 - t) ''owner fresh world before OFF request'' None) v = (Inr ready, w)"
    and z: "send_if_ready e n (started + 5) nonces a ready w = (Inr Waiting, s')"
    by (auto simp: prep_attempt_def mbind_Inr_iff mret_def split: if_splits)
  have "later s u" using keepsD [OF fw_checks(3) u] by (rule forward_later)
  from later_clock [OF assms(1) this] assms(3) t have "started + 5 - t \<le> 5" by (auto simp: monotonic_def read_at_def)
  from try_ends [OF assms(1) fw_checks(1) this assms(2)] r have "ready \<noteq> None" by metis
  with z await_ends [OF assms(1,2)] show False
    by (auto simp: send_if_ready_def off_request_def mthen_def mbind_Inr_iff mret_def split: if_splits option.splits bool.splits)
qed

lemma attempts_end:
  assumes "naps_advance e" and "500 < n"
  shows "started \<le> pe_clock e (pr_sleeps s) (pr_reads s) \<Longrightarrow> prep_attempts e n started (started + 5) previous nonces as s \<noteq> (Inr None, s')"
proof (induction as arbitrary: s)
  case (Cons a as)
  obtain q u where q: "prep_attempt e n started (started + 5) previous nonces a s = (q, u)" by (cases "prep_attempt e n started (started + 5) previous nonces a s")
  have "later s u" using keepsD [OF attempt_later q] .
  then have "started \<le> pe_clock e (pr_sleeps u) (pr_reads u)" using later_clock [OF assms(1)] Cons.prems by (meson order_trans)
  from Cons.IH [OF this] attempt_ends [OF assms Cons.prems, of previous nonces a u] q show ?case
    by (cases q) (auto simp: mbind_def mret_def mraise_def split: prep_step.splits)
qed (simp add: mraise_def)

lemma prepare_end:
  assumes "naps_advance e" and "500 < n"
  shows "fst (prepare_arm_fault e n) \<noteq> Inr None"
proof
  assume "fst (prepare_arm_fault e n) = Inr None"
  then obtain s' where z: "prepare_arm_fault e n = (Inr None, s')" by (metis prod.collapse)
  let ?started = "pe_clock e 0 1"
  let ?s0 = "\<lparr>pr_sleeps = 0, pr_reads = 4, pr_sent = [], pr_at = []\<rparr>"
  have c: "?started \<le> pe_clock e 0 3" using assms(1) unfolding naps_advance_def
    by (drule_tac x = 0 in spec, drule_tac x = 0 in spec) (auto dest: spec [of _ 1])
  obtain previous nonces where p: "prepare_rest e n ?started previous nonces (pe_clock e 0 3) ?s0 = (Inr None, s')"
    using z unfolding prepare_arm_fault_def prepare_body_def prep_init_def
    by (simp add: mbind_def observe_world_def monotonic_def read_at_def numeral_eq_Suc)
  then obtain r u where r: "prep_wait e n (prerequisite_ready e ?started previous nonces) (?started + 5 - pe_clock e 0 3) ''owner accepted fresh world before fixture reset'' None ?s0 = (Inr r, u)"
    and a: "(case r of None \<Rightarrow> mret None | Some _ \<Rightarrow> prep_attempts e n ?started (?started + 5) previous nonces (if pe_roles e then [0, 1] else [0])) u = (Inr None, s')"
    unfolding prepare_rest_def mbind_Inr_iff by blast
  have t5: "?started + 5 - pe_clock e 0 3 \<le> 5" using c by simp
  from wait_ends [OF assms(1) fw_checks(1) t5 assms(2)] r have "r \<noteq> None" by (metis fst_conv)
  then obtain t where t: "r = Some t" by blast
  have "later ?s0 u" using keepsD [OF fw_wait [OF fw_checks(1)] r] by (rule forward_later)
  from later_clock [OF assms(1) this] c have "?started \<le> pe_clock e (pr_sleeps u) (pr_reads u)"
  proof -
    have "pe_clock e 0 1 + of_nat 0 / 100 \<le> pe_clock e (0 + 0) 4" using assms(1) unfolding naps_advance_def by (meson one_le_numeral)
    with later_clock [OF assms(1) \<open>later ?s0 u\<close>] show ?thesis by simp
  qed
  with attempts_end [OF assms] a t show False by (auto simp del: prep_attempts.simps)
qed

end
