(* ===== verification/Safe_Files.thy ===== *)
theory Safe_Files
  imports Prelude "HOL-Library.Multiset"
begin

text \<open>
  Files another user may have prepared: the reading of evidence beneath a trusted root without following
  links (\<^verbatim>\<open>ros/gazebo/safe_evidence.py\<close>), the owner-only counter directory of \<^verbatim>\<open>CounterStore.__init__\<close>
  (\<^verbatim>\<open>ros/haetae_gate/counter_store.py\<close>) and the marker of a staging directory (\<^verbatim>\<open>tools/safe_stage.py\<close>).
  The file system belongs to the environment and may change between any two system calls, which are
  numbered; what stays is the type of an inode. A descriptor is the inode it pins; closing never fails.
  \<open>fe_data e n i\<close> is what a read of the descriptor of \<open>i\<close> made as call \<open>n\<close> finds from its position on, and
  \<open>fe_temp e n\<close> the inode of a temporary file created by call \<open>n\<close>.
\<close>

section \<open>File system and descriptors\<close>

datatype file_kind = Regular | Directory | Symlink | Special

record file_info =
  fi_uid :: int
  fi_links :: int
  fi_size :: int
  fi_mode :: int

record fs_env =
  fe_kind :: "nat \<Rightarrow> file_kind"
  fe_entry :: "nat \<Rightarrow> nat \<Rightarrow> string \<Rightarrow> nat option"
  fe_info :: "nat \<Rightarrow> nat \<Rightarrow> file_info"
  fe_data :: "nat \<Rightarrow> nat \<Rightarrow> string"
  fe_fault :: "nat \<Rightarrow> string option"
  fe_temp :: "nat \<Rightarrow> nat"

record fds =
  fd_calls :: nat
  fd_open :: "nat list"
  fd_dir :: nat
  fd_leaf :: "nat option"

text \<open>A system call answers from the file system of its moment, or fails as the environment says.\<close>

definition syscall :: "fs_env \<Rightarrow> (nat \<Rightarrow> 'a res) \<Rightarrow> (fds, 'a) meth" where
  "syscall e f s = ((case fe_fault e (fd_calls s) of Some m \<Rightarrow> Inl (OSError m) | None \<Rightarrow> f (fd_calls s)), s\<lparr>fd_calls := Suc (fd_calls s)\<rparr>)"

definition opened :: "nat \<Rightarrow> fds \<Rightarrow> fds" where
  "opened i s = s\<lparr>fd_open := i # fd_open s\<rparr>"

definition closed :: "nat \<Rightarrow> fds \<Rightarrow> fds" where
  "closed i s = s\<lparr>fd_open := remove1 i (fd_open s)\<rparr>"

text \<open>\<^verbatim>\<open>os.open\<close> of a directory with \<^verbatim>\<open>O_DIRECTORY | O_NOFOLLOW\<close>, of a file with \<^verbatim>\<open>O_NOFOLLOW | O_NONBLOCK\<close>.\<close>

definition as_directory :: "fs_env \<Rightarrow> nat option \<Rightarrow> nat res" where
  "as_directory e found =
     (case found of None \<Rightarrow> Inl (OSError ''ENOENT'') | Some i \<Rightarrow> if fe_kind e i = Directory then Inr i else Inl (OSError ''ENOTDIR''))"

definition not_link :: "fs_env \<Rightarrow> nat option \<Rightarrow> nat res" where
  "not_link e found =
     (case found of None \<Rightarrow> Inl (OSError ''ENOENT'') | Some i \<Rightarrow> if fe_kind e i = Symlink then Inl (OSError ''ELOOP'') else Inr i)"

section \<open>Reading evidence\<close>

definition MAX_EVIDENCE_BYTES :: int where "MAX_EVIDENCE_BYTES = 268435456"

datatype evidence_path = Absolute "string list" | Relative "string list"

text \<open>\<^verbatim>\<open>path.relative_to(root)\<close> and the refused parts; a part of a path holds no slash.\<close>

definition relative_parts :: "string list \<Rightarrow> evidence_path \<Rightarrow> string list res" where
  "relative_parts base path =
     rbind (case path of Relative ps \<Rightarrow> Inr ps
            | Absolute ps \<Rightarrow> if take (length base) ps = base then Inr (drop (length base) ps) else Inl (ValueError ''not in the subpath''))
       (\<lambda>ps. if ps = [] \<or> list_ex (\<lambda>p. p = ''..'' \<or> p = ''.'') ps then Inl (ValueError ''evidence path must be beneath the trusted root'') else Inr ps)"

definition open_root :: "fs_env \<Rightarrow> nat \<Rightarrow> (fds, unit) meth" where
  "open_root e anchor = mbind (syscall e (\<lambda>n. as_directory e (Some anchor))) (\<lambda>d. mput (\<lambda>s. opened d (s\<lparr>fd_dir := d, fd_leaf := None\<rparr>)))"

text \<open>The next directory is open before the one it was found in is closed.\<close>

definition enter :: "fs_env \<Rightarrow> string \<Rightarrow> (fds, unit) meth" where
  "enter e part =
     mbind (mget fd_dir) (\<lambda>d. mbind (syscall e (\<lambda>n. as_directory e (fe_entry e n d part))) (\<lambda>next. mput (\<lambda>s. closed d (opened next (s\<lparr>fd_dir := next\<rparr>)))))"

fun walk :: "fs_env \<Rightarrow> string list \<Rightarrow> (fds, unit) meth" where
  "walk e [] = mret ()"
| "walk e (p # ps) = mthen (enter e p) (walk e ps)"

definition open_leaf :: "fs_env \<Rightarrow> string \<Rightarrow> (fds, nat) meth" where
  "open_leaf e part =
     mbind (mget fd_dir) (\<lambda>d. mbind (syscall e (\<lambda>n. not_link e (fe_entry e n d part))) (\<lambda>i. mthen (mput (\<lambda>s. opened i (s\<lparr>fd_leaf := Some i\<rparr>))) (mret i)))"

definition close_leaf :: "nat \<Rightarrow> (fds, unit) meth" where
  "close_leaf i = mput (\<lambda>s. closed i (s\<lparr>fd_leaf := None\<rparr>))"

definition fstat :: "fs_env \<Rightarrow> nat \<Rightarrow> (fds, file_info) meth" where
  "fstat e i = syscall e (\<lambda>n. Inr (fe_info e n i))"

text \<open>A file replaced between its opening and its \<^verbatim>\<open>fstat\<close> has no link left; eight attempts.\<close>

fun pin_leaf :: "fs_env \<Rightarrow> string \<Rightarrow> nat \<Rightarrow> (fds, nat \<times> file_info) meth" where
  "pin_leaf e part 0 = mbind (open_leaf e part) (\<lambda>i. mbind (fstat e i) (\<lambda>info. mret (i, info)))"
| "pin_leaf e part (Suc k) =
     mbind (open_leaf e part) (\<lambda>i. mbind (fstat e i) (\<lambda>info.
     if fi_links info \<noteq> 0 then mret (i, info) else mthen (close_leaf i) (pin_leaf e part k)))"

definition safe_info :: "fs_env \<Rightarrow> nat \<Rightarrow> file_info \<Rightarrow> int \<Rightarrow> int \<Rightarrow> bool" where
  "safe_info e i info owner max_bytes \<longleftrightarrow>
     fe_kind e i = Regular \<and> fi_uid info = owner \<and> fi_links info = 1 \<and> 0 \<le> fi_size info \<and> fi_size info \<le> max_bytes"

text \<open>The length at the \<^verbatim>\<open>fstat\<close> bounds the reads: a writer cannot keep them alive by appending.\<close>

function read_chunks :: "fs_env \<Rightarrow> nat \<Rightarrow> nat \<Rightarrow> fds \<Rightarrow> string res \<times> fds" where
  "read_chunks e i remaining s =
     (if remaining = 0 then (Inr [], s)
      else case syscall e (\<lambda>n. Inr (take (min remaining 1048576) (fe_data e n i))) s of
          (Inl x, s') \<Rightarrow> (Inl x, s')
        | (Inr chunk, s') \<Rightarrow>
            if chunk = [] then (Inr [], s')
            else (case read_chunks e i (remaining - length chunk) s' of
                (Inl x, s'') \<Rightarrow> (Inl x, s'')
              | (Inr chunks, s'') \<Rightarrow> (Inr (chunk @ chunks), s'')))"
  by pat_completeness auto

termination
  by (relation "measure (\<lambda>(e, i, remaining, s). remaining)") (auto simp: length_greater_0_conv [symmetric] simp del: length_greater_0_conv)

declare read_chunks.simps [simp del]

definition read_body :: "fs_env \<Rightarrow> string list \<Rightarrow> int \<Rightarrow> int \<Rightarrow> (fds, string) meth" where
  "read_body e parts owner max_bytes =
     mthen (walk e (butlast parts))
     (mbind (pin_leaf e (last parts) 7) (\<lambda>(i, info).
      if \<not> safe_info e i info owner max_bytes then mraise (ValueError ''unsafe evidence file type, owner, links or size'')
      else read_chunks e i (nat (fi_size info))))"

text \<open>\<^verbatim>\<open>finally\<close>: the leaf, if one is open, and the directory.\<close>

definition release :: "fds \<Rightarrow> fds" where
  "release s = closed (fd_dir s) (case fd_leaf s of None \<Rightarrow> s | Some i \<Rightarrow> closed i s)"

definition read_evidence :: "fs_env \<Rightarrow> string list \<Rightarrow> nat \<Rightarrow> evidence_path \<Rightarrow> int \<Rightarrow> int \<Rightarrow> (fds, string) meth" where
  "read_evidence e root_parts anchor path owner max_bytes =
     mbind (mlift (relative_parts root_parts path)) (\<lambda>parts.
     mthen (open_root e anchor) (mfinally (read_body e parts owner max_bytes) release))"

section \<open>The counter directory\<close>

definition owner_only :: "int \<Rightarrow> file_info \<Rightarrow> bool" where
  "owner_only euid info \<longleftrightarrow> fi_uid info = euid \<and> fi_mode info mod 64 = 0"

text \<open>
  \<^verbatim>\<open>CounterStore.__init__\<close>: \<open>parent\<close> and \<open>found\<close> are what \<^verbatim>\<open>stat\<close> of the directory and \<^verbatim>\<open>lstat\<close> of the counter
  file saw (nothing when the file does not exist), \<open>lock\<close> and \<open>flock\<close> what opening and locking the lock file did.
\<close>

definition counter_store :: "int \<Rightarrow> (file_kind \<times> file_info) res \<Rightarrow> (file_kind \<times> file_info) option \<Rightarrow> nat res \<Rightarrow> unit res \<Rightarrow> (fds, nat) meth" where
  "counter_store euid parent found lock flock =
     mbind (mlift parent) (\<lambda>(kind, info).
     if kind \<noteq> Directory \<or> \<not> owner_only euid info then mraise (ValueError ''counter directory must be owned by this user and owner-only'')
     else if (case found of None \<Rightarrow> False | Some (k, i) \<Rightarrow> k \<noteq> Regular \<or> \<not> owner_only euid i)
       then mraise (ValueError ''counter file must be owned by this user and owner-only'')
     else mbind (mlift lock) (\<lambda>l.
       mthen (mput (opened l))
       (mthen (mcatch (mlift flock) (\<lambda>x. mthen (mput (closed l)) (mraise x))) (mret l))))"

definition counter_close :: "nat \<Rightarrow> fds \<Rightarrow> fds" where
  "counter_close l = closed l"

section \<open>The staging marker\<close>

definition MARKER_CONTENT :: string where "MARKER_CONTENT = ''Haetae simulator staging directory'' @ [CHR 0x0A]"

definition marker_intact :: "fs_env \<Rightarrow> int \<Rightarrow> nat \<Rightarrow> (fds, bool) meth" where
  "marker_intact e uid i =
     mbind (fstat e i) (\<lambda>info.
     if fe_kind e i \<noteq> Regular \<or> fi_links info \<noteq> 1 \<or> fi_uid info \<noteq> uid \<or> fi_size info \<noteq> int (length MARKER_CONTENT) then mret False
     else mbind (syscall e (\<lambda>n. Inr (take (length MARKER_CONTENT + 1) (fe_data e n i)))) (\<lambda>bytes. mret (bytes = MARKER_CONTENT)))"

text \<open>\<^verbatim>\<open>require_marker\<close>: \<open>dir\<close> is the inode of the stage.\<close>

definition require_marker :: "fs_env \<Rightarrow> int \<Rightarrow> nat \<Rightarrow> string \<Rightarrow> (fds, unit) meth" where
  "require_marker e uid dir marker =
     mbind (mcatch (syscall e (\<lambda>n. not_link e (fe_entry e n dir marker)))
              (\<lambda>x. mraise (ValueError ''stage marker must be a regular file, not a link''))) (\<lambda>i.
     mthen (mput (opened i))
     (mfinally (mbind (marker_intact e uid i) (\<lambda>ok. if ok then mret () else mraise (ValueError ''stage marker must be an intact, owned, single-link file'')))
        (closed i)))"

section \<open>No descriptor is left open\<close>

text \<open>\<open>holds base s\<close>: exactly the descriptors of the caller, the directory and the leaf are open.\<close>

definition holds :: "nat multiset \<Rightarrow> fds \<Rightarrow> bool" where
  "holds base s \<longleftrightarrow> mset (fd_open s) = base + {#fd_dir s#} + (case fd_leaf s of None \<Rightarrow> {#} | Some i \<Rightarrow> {#i#})"

definition holds_dir :: "nat multiset \<Rightarrow> fds \<Rightarrow> bool" where
  "holds_dir base s \<longleftrightarrow> fd_leaf s = None \<and> holds base s"

definition no_open :: "fds \<Rightarrow> fds \<Rightarrow> bool" where
  "no_open s t \<longleftrightarrow> fd_open t = fd_open s \<and> fd_dir t = fd_dir s \<and> fd_leaf t = fd_leaf s"

lemma sys_no_open: "syscall e f s = (r, t) \<Longrightarrow> no_open s t"
  by (auto simp: syscall_def no_open_def)

lemma no_open_holds: "no_open s t \<Longrightarrow> holds base t = holds base s" "no_open s t \<Longrightarrow> holds_dir base t = holds_dir base s"
  by (simp_all add: no_open_def holds_def holds_dir_def)

lemma enter_holds: "triple (holds_dir base) (enter e p) (\<lambda>_. holds_dir base) (\<lambda>_. holds_dir base)"
proof (rule tripleI)
  fix s r t
  assume h: "holds_dir base s" and r: "enter e p s = (r, t)"
  obtain q u where q: "syscall e (\<lambda>n. as_directory e (fe_entry e n (fd_dir s) p)) s = (q, u)" by (cases "syscall e (\<lambda>n. as_directory e (fe_entry e n (fd_dir s) p)) s")
  note no = sys_no_open [OF q]
  have u: "holds_dir base u" "fd_dir u = fd_dir s" using no_open_holds(2) [OF no] h no by (simp, simp add: no_open_def)
  show "case r of Inl x \<Rightarrow> holds_dir base t | Inr x \<Rightarrow> holds_dir base t"
  proof (cases q)
    case (Inl x)
    with q r u show ?thesis by (auto simp: enter_def mbind_def mget_def)
  next
    case (Inr d)
    with q r have "r = Inr ()" "t = closed (fd_dir s) (opened d (u\<lparr>fd_dir := d\<rparr>))" by (auto simp: enter_def mbind_def mget_def mput_def)
    then show ?thesis using u by (auto simp: holds_dir_def holds_def closed_def opened_def)
  qed
qed

lemma walk_holds: "triple (holds_dir base) (walk e ps) (\<lambda>_. holds_dir base) (\<lambda>_. holds_dir base)"
proof (induction ps)
  case Nil
  show ?case by (simp add: triple_def mret_def)
next
  case (Cons p ps)
  show ?case unfolding walk.simps by (rule triple_mthen [OF enter_holds Cons])
qed

lemma open_leaf_holds: "triple (holds_dir base) (open_leaf e p) (\<lambda>i s. holds base s \<and> fd_leaf s = Some i) (\<lambda>_. holds base)"
proof (rule tripleI)
  fix s r t
  assume h: "holds_dir base s" and r: "open_leaf e p s = (r, t)"
  obtain q u where q: "syscall e (\<lambda>n. not_link e (fe_entry e n (fd_dir s) p)) s = (q, u)" by (cases "syscall e (\<lambda>n. not_link e (fe_entry e n (fd_dir s) p)) s")
  have u: "holds_dir base u" using no_open_holds(2) [OF sys_no_open [OF q]] h by simp
  show "case r of Inl x \<Rightarrow> holds base t | Inr i \<Rightarrow> holds base t \<and> fd_leaf t = Some i"
    using q r u by (cases q) (auto simp: open_leaf_def mbind_def mthen_def mget_def mput_def mret_def holds_dir_def holds_def opened_def)
qed

lemma no_open_triple:
  assumes "\<And>s r t. m s = (r, t) \<Longrightarrow> no_open s t" and "\<And>s t. no_open s t \<Longrightarrow> P s \<Longrightarrow> P t"
  shows "triple P m (\<lambda>_. P) (\<lambda>_. P)"
proof (rule tripleI)
  fix s r t
  assume "P s" and "m s = (r, t)"
  with assms have "P t" by blast
  then show "case r of Inl x \<Rightarrow> P t | Inr x \<Rightarrow> P t" by (cases r) simp_all
qed

lemma no_open_holdsD: "no_open s t \<Longrightarrow> holds base s \<Longrightarrow> holds base t"
  using no_open_holds(1) [of s t base] by simp

lemma fstat_no_open: "fstat e i s = (r, t) \<Longrightarrow> no_open s t"
  unfolding fstat_def by (rule sys_no_open)

lemma pin_holds: "triple (holds_dir base) (pin_leaf e p k) (\<lambda>_. holds base) (\<lambda>_. holds base)"
proof (induction k)
  case 0
  have stat: "triple (\<lambda>s. holds base s \<and> fd_leaf s = Some i) (fstat e i) (\<lambda>_. holds base) (\<lambda>_. holds base)" for i
    by (rule triple_conseq [OF no_open_triple [where P = "holds base", OF fstat_no_open no_open_holdsD]]) auto
  show ?case unfolding pin_leaf.simps
    by (rule triple_mbind [OF open_leaf_holds], rule triple_mbind [OF stat], rule triple_mret)
next
  case (Suc k)
  have close: "triple (\<lambda>s. holds base s \<and> fd_leaf s = Some i) (close_leaf i) (\<lambda>_. holds_dir base) (\<lambda>_. holds base)" for i
    by (auto simp: triple_def close_leaf_def mput_def holds_def holds_dir_def closed_def)
  have stat: "triple (\<lambda>s. holds base s \<and> fd_leaf s = Some i) (fstat e i) (\<lambda>_ s. holds base s \<and> fd_leaf s = Some i) (\<lambda>_. holds base)" for i
    by (rule triple_conseq [OF no_open_triple [where P = "\<lambda>s. holds base s \<and> fd_leaf s = Some i", OF fstat_no_open]])
      (auto simp: no_open_def holds_def)
  have ret: "triple (\<lambda>s. holds base s \<and> fd_leaf s = Some i) (mret x) (\<lambda>_. holds base) (\<lambda>_. holds base)" for i and x :: "nat \<times> file_info"
    by (simp add: triple_def mret_def)
  show ?case unfolding pin_leaf.simps
    by (intro triple_mbind [OF open_leaf_holds] triple_mbind [OF stat] triple_if ret triple_mthen [OF close] Suc)
qed

lemma chunks_no_open: "read_chunks e i n s = (r, t) \<Longrightarrow> no_open s t"
proof (induction e i n s arbitrary: r t rule: read_chunks.induct)
  case (1 e i n s)
  obtain q u where q: "syscall e (\<lambda>k. Inr (take (min n 1048576) (fe_data e k i))) s = (q, u)"
    by (cases "syscall e (\<lambda>k. Inr (take (min n 1048576) (fe_data e k i))) s")
  note no = sys_no_open [OF q]
  show ?case
  proof (cases "n = 0 \<or> (\<exists>x. q = Inl x) \<or> q = Inr []")
    case True
    then consider (none) "n = 0" | (raised) x where "n \<noteq> 0" "q = Inl x" | (ended) "n \<noteq> 0" "q = Inr []" by blast
    then have "t = s \<or> t = u" using "1.prems" q by cases (simp_all add: read_chunks.simps [of e i n s] read_chunks.simps [of e i 0 s])
    with no show ?thesis by (auto simp: no_open_def)
  next
    case False
    then obtain chunk where c: "q = Inr chunk" "chunk \<noteq> []" "n \<noteq> 0" by (cases q) auto
    obtain q' u' where q': "read_chunks e i (n - length chunk) u = (q', u')" by (cases "read_chunks e i (n - length chunk) u")
    have "no_open u u'" using "1.IH" [OF c(3) q [symmetric] _ c(2)] c(1) q' by auto
    moreover have "t = u'" using "1.prems" q q' c by (cases q') (auto simp: read_chunks.simps [of e i n s])
    ultimately show ?thesis using no by (simp add: no_open_def)
  qed
qed

lemma body_holds: "triple (holds_dir base) (read_body e parts owner m) (\<lambda>_. holds base) (\<lambda>_. holds base)"
proof -
  have chunks: "triple (holds base) (read_chunks e i n) (\<lambda>_. holds base) (\<lambda>_. holds base)" for i n
    by (rule no_open_triple [OF chunks_no_open no_open_holdsD])
  have refused: "triple (holds base) (mraise x) (\<lambda>_. holds base) (\<lambda>_. holds base)" for x by (rule triple_mraise)
  have walked: "triple (holds_dir base) (walk e ps) (\<lambda>_. holds_dir base) (\<lambda>_. holds base)" for ps
    by (rule triple_conseq [OF walk_holds]) (auto simp: holds_dir_def)
  show ?thesis unfolding read_body_def
    by (rule triple_mthen [OF walked], rule triple_mbind [OF pin_holds])
      (auto intro!: triple_if chunks refused split: prod.split)
qed

lemma release_holds: "holds base s \<Longrightarrow> mset (fd_open (release s)) = base"
  by (auto simp: holds_def release_def closed_def split: option.splits)

lemma read_closes:
  assumes "read_evidence e root_parts anchor path owner m s = (r, t)"
  shows "mset (fd_open t) = mset (fd_open s)"
proof (cases "relative_parts root_parts path")
  case (Inl x)
  with assms show ?thesis by (simp add: read_evidence_def mbind_def mlift_def)
next
  case (Inr parts)
  obtain q u where q: "syscall e (\<lambda>n. as_directory e (Some anchor)) s = (q, u)" by (cases "syscall e (\<lambda>n. as_directory e (Some anchor)) s")
  note no = sys_no_open [OF q]
  show ?thesis
  proof (cases q)
    case (Inl x)
    with assms Inr q have "t = u" by (simp add: read_evidence_def mbind_def mlift_def mthen_def open_root_def)
    with no show ?thesis by (simp add: no_open_def)
  next
    case d: (Inr d)
    let ?v = "opened d (u\<lparr>fd_dir := d, fd_leaf := None\<rparr>)"
    obtain r' w where w: "read_body e parts owner m ?v = (r', w)" by (cases "read_body e parts owner m ?v")
    have "holds_dir (mset (fd_open u)) ?v" by (simp add: holds_dir_def holds_def opened_def)
    from tripleD [OF body_holds this w] have "holds (mset (fd_open u)) w" by (cases r') simp_all
    moreover have "t = release w"
      using assms Inr q d w by (simp add: read_evidence_def mbind_def mlift_def mthen_def open_root_def mput_def mfinally_def)
    ultimately show ?thesis using release_holds no by (simp add: no_open_def)
  qed
qed

section \<open>What was read\<close>

text \<open>Directory entries followed by successive calls from the \<open>n\<close>-th, none of them a link.\<close>

fun descends :: "fs_env \<Rightarrow> nat \<Rightarrow> nat \<Rightarrow> string list \<Rightarrow> nat \<Rightarrow> bool" where
  "descends e n d [] d' = (d' = d)"
| "descends e n d (p # ps) d' = (\<exists>d1. fe_entry e n d p = Some d1 \<and> fe_kind e d1 = Directory \<and> descends e (Suc n) d1 ps d')"

text \<open>
  What successive reads of one inode gave, from call \<open>n\<close> on with \<open>rem\<close> bytes to go: each read is of at most
  1 MiB, and only the end of the file or of the length asked for ends them.
\<close>

fun pieces :: "fs_env \<Rightarrow> nat \<Rightarrow> nat \<Rightarrow> nat \<Rightarrow> string list \<Rightarrow> bool" where
  "pieces e i n rem [] = (rem = 0 \<or> fe_data e n i = [])"
| "pieces e i n rem (c # cs) =
     (rem \<noteq> 0 \<and> c \<noteq> [] \<and> c = take (min rem 1048576) (fe_data e n i) \<and> pieces e i (Suc n) (rem - length c) cs)"

text \<open>
  The bytes are the content of one inode. Call \<open>a\<close> opens the anchor, the calls after it follow the directories,
  the last part is looked up in the directory reached there, at the first call or after at most seven
  rotations, the inode it names is a safe file at the next call, and the bytes are what the calls after
  that read from that inode, up to the size it had.
\<close>

definition evidence_of :: "fs_env \<Rightarrow> nat \<Rightarrow> string list \<Rightarrow> int \<Rightarrow> int \<Rightarrow> nat \<Rightarrow> string \<Rightarrow> bool" where
  "evidence_of e anchor parts owner m a bytes \<longleftrightarrow> (\<exists>dir k i chunks.
     fe_kind e anchor = Directory \<and> descends e (Suc a) anchor (butlast parts) dir \<and> k < 8 \<and>
     (let n = a + length parts + 2 * k; info = fe_info e (n + 1) i in
      fe_entry e n dir (last parts) = Some i \<and> safe_info e i info owner m \<and>
      pieces e i (n + 2) (nat (fi_size info)) chunks \<and> bytes = concat chunks))"

lemma syscall_Inr: "syscall e f s = (Inr x, t) \<Longrightarrow> f (fd_calls s) = Inr x \<and> fd_calls t = Suc (fd_calls s)"
  by (auto simp: syscall_def split: option.splits)

lemma as_directory_Inr: "as_directory e found = Inr d \<longleftrightarrow> found = Some d \<and> fe_kind e d = Directory"
  by (auto simp: as_directory_def split: option.splits if_splits)

lemma not_link_Inr: "not_link e found = Inr i \<longleftrightarrow> found = Some i \<and> fe_kind e i \<noteq> Symlink"
  by (auto simp: not_link_def split: option.splits if_splits)

lemma enter_Inr: "enter e p s = (Inr (), t) \<Longrightarrow>
  fe_entry e (fd_calls s) (fd_dir s) p = Some (fd_dir t) \<and> fe_kind e (fd_dir t) = Directory \<and> fd_calls t = Suc (fd_calls s)"
  by (auto simp: enter_def mbind_Inr_iff mget_def mput_def closed_def opened_def as_directory_Inr dest!: syscall_Inr)

lemma walk_Inr: "walk e ps s = (Inr (), t) \<Longrightarrow>
  descends e (fd_calls s) (fd_dir s) ps (fd_dir t) \<and> fd_calls t = fd_calls s + length ps"
proof (induction ps arbitrary: s)
  case Nil
  then show ?case by (simp add: mret_def)
next
  case (Cons p ps)
  then obtain u where "enter e p s = (Inr (), u)" "walk e ps u = (Inr (), t)" by (auto simp: mthen_def mbind_Inr_iff)
  with Cons.IH enter_Inr show ?case by fastforce
qed

lemma open_leaf_Inr:
  assumes "open_leaf e p s = (Inr i, t)"
  shows "fe_entry e (fd_calls s) (fd_dir s) p = Some i \<and> fd_dir t = fd_dir s \<and> fd_calls t = Suc (fd_calls s)"
proof -
  from assms obtain u where u: "syscall e (\<lambda>n. not_link e (fe_entry e n (fd_dir s) p)) s = (Inr i, u)" "fd_dir t = fd_dir u" "fd_calls t = fd_calls u"
    by (auto simp: open_leaf_def mbind_Inr_iff mthen_def mget_def mput_def mret_def opened_def)
  from syscall_Inr [OF u(1)] sys_no_open [OF u(1)] u(2,3) show ?thesis by (auto simp: not_link_Inr no_open_def)
qed

lemma fstat_Inr: "fstat e i s = (Inr info, t) \<Longrightarrow>
  info = fe_info e (fd_calls s) i \<and> fd_dir t = fd_dir s \<and> fd_calls t = Suc (fd_calls s)"
  using fstat_no_open [of e i s] by (auto simp: fstat_def no_open_def dest: syscall_Inr)

lemma pin_Inr: "pin_leaf e p k s = (Inr (i, info), t) \<Longrightarrow>
  \<exists>j\<le>k. fe_entry e (fd_calls s + 2 * j) (fd_dir s) p = Some i \<and> info = fe_info e (fd_calls s + 2 * j + 1) i \<and>
    fd_calls t = fd_calls s + 2 * j + 2"
proof (induction k arbitrary: s)
  case 0
  then show ?case by (auto simp: mbind_Inr_iff mret_def dest!: open_leaf_Inr fstat_Inr)
next
  case (Suc k)
  then obtain j u info' v where u: "open_leaf e p s = (Inr j, u)" "fstat e j u = (Inr info', v)"
    "(if fi_links info' \<noteq> 0 then mret (j, info') else mthen (close_leaf j) (pin_leaf e p k)) v = (Inr (i, info), t)"
    by (auto simp: mbind_Inr_iff)
  note d = open_leaf_Inr [OF u(1)] fstat_Inr [OF u(2)]
  show ?case
  proof (cases "fi_links info' = 0")
    case True
    with u(3) have "pin_leaf e p k (closed j (v\<lparr>fd_leaf := None\<rparr>)) = (Inr (i, info), t)" by (simp add: mthen_def mbind_def close_leaf_def mput_def)
    from Suc.IH [OF this] d obtain l where "l \<le> k" "fe_entry e (fd_calls s + 2 * Suc l) (fd_dir s) p = Some i"
      "info = fe_info e (fd_calls s + 2 * Suc l + 1) i" "fd_calls t = fd_calls s + 2 * Suc l + 2"
      by (auto simp: closed_def)
    then show ?thesis by (intro exI [of _ "Suc l"]) simp
  next
    case False
    with u(3) d show ?thesis by (intro exI [of _ 0]) (auto simp: mret_def)
  qed
qed

lemma chunks_Inr: "read_chunks e i n s = (Inr bytes, t) \<Longrightarrow> \<exists>cs. pieces e i (fd_calls s) n cs \<and> bytes = concat cs"
proof (induction e i n s arbitrary: bytes t rule: read_chunks.induct)
  case (1 e i n s)
  show ?case
  proof (cases "n = 0")
    case True
    with "1.prems" show ?thesis by (intro exI [of _ "[]"]) (simp add: read_chunks.simps [of e i 0 s])
  next
    case False
    obtain q u where q: "syscall e (\<lambda>k. Inr (take (min n 1048576) (fe_data e k i))) s = (q, u)"
      by (cases "syscall e (\<lambda>k. Inr (take (min n 1048576) (fe_data e k i))) s")
    with "1.prems" False obtain chunk where c: "q = Inr chunk" by (cases q) (auto simp: read_chunks.simps [of e i n s])
    note sys = syscall_Inr [OF q [unfolded c]]
    show ?thesis
    proof (cases "chunk = []")
      case True
      with "1.prems" q False c have "bytes = []" by (simp add: read_chunks.simps [of e i n s])
      moreover have "fe_data e (fd_calls s) i = []" using sys True False by (auto simp: min_def split: if_splits)
      ultimately show ?thesis by (intro exI [of _ "[]"]) simp
    next
      case ne: False
      obtain q' u' where q': "read_chunks e i (n - length chunk) u = (q', u')" by (cases "read_chunks e i (n - length chunk) u")
      with "1.prems" q c ne False obtain rest where rest: "q' = Inr rest" "bytes = chunk @ rest"
        by (cases q') (auto simp: read_chunks.simps [of e i n s])
      from "1.IH" [OF False q [symmetric] c ne] q' rest obtain cs where "pieces e i (fd_calls u) (n - length chunk) cs" "rest = concat cs"
        by blast
      with rest sys ne False show ?thesis by (intro exI [of _ "chunk # cs"]) simp
    qed
  qed
qed

lemma read_Inr:
  assumes "read_evidence e root_parts anchor path owner m s = (Inr bytes, t)"
  shows "\<exists>parts. relative_parts root_parts path = Inr parts \<and> evidence_of e anchor parts owner m (fd_calls s) bytes"
proof -
  obtain parts where parts: "relative_parts root_parts path = Inr parts"
    using assms by (cases "relative_parts root_parts path") (auto simp: read_evidence_def mbind_def mlift_def)
  then have ne: "length (butlast parts) + 1 = length parts" by (cases parts rule: rev_cases) (auto simp: relative_parts_def rbind_Inr_iff split: if_splits)
  from parts assms obtain u v where u: "open_root e anchor s = (Inr (), u)" and b: "read_body e parts owner m u = (Inr bytes, v)"
    by (cases "read_body e parts owner m (snd (open_root e anchor s))")
      (auto simp: read_evidence_def mbind_Inr_iff mlift_def mthen_def mfinally_def)
  have d: "fe_kind e anchor = Directory" "fd_dir u = anchor" "fd_calls u = Suc (fd_calls s)"
    using u by (auto simp: open_root_def mbind_Inr_iff mput_def opened_def as_directory_Inr dest!: syscall_Inr)
  from b obtain w i info x where w: "walk e (butlast parts) u = (Inr (), w)" "pin_leaf e (last parts) 7 w = (Inr (i, info), x)"
    "safe_info e i info owner m" "read_chunks e i (nat (fi_size info)) x = (Inr bytes, v)"
    by (auto simp: read_body_def mthen_def mbind_Inr_iff mraise_def split: if_splits)
  have cw: "fd_calls w = fd_calls s + length parts" using walk_Inr [OF w(1)] d(3) ne by simp
  from pin_Inr [OF w(2)] obtain k where k: "k \<le> 7" "fe_entry e (fd_calls s + length parts + 2 * k) (fd_dir w) (last parts) = Some i"
    "info = fe_info e (fd_calls s + length parts + 2 * k + 1) i" "fd_calls x = fd_calls s + length parts + 2 * k + 2"
    unfolding cw by blast
  obtain cs where cs: "pieces e i (fd_calls s + length parts + 2 * k + 2) (nat (fi_size info)) cs" "bytes = concat cs"
    using chunks_Inr [OF w(4)] unfolding k(4) by blast
  have "evidence_of e anchor parts owner m (fd_calls s) bytes"
    unfolding evidence_of_def Let_def
    using d walk_Inr [OF w(1)] k w(3) cs by (intro exI [of _ "fd_dir w"] exI [of _ k] exI [of _ i] exI [of _ cs]) simp
  with parts show ?thesis by blast
qed

text \<open>A counter store holds the lock it opened, in an owner-only directory, or nothing new is open.\<close>

lemma counter_store_owner:
  assumes "counter_store euid parent found lock flock s = (r, t)"
  shows "case r of
      Inr l \<Rightarrow> (\<exists>info. parent = Inr (Directory, info) \<and> owner_only euid info) \<and>
        (case found of None \<Rightarrow> True | Some (k, i) \<Rightarrow> k = Regular \<and> owner_only euid i) \<and> lock = Inr l \<and> flock = Inr () \<and> fd_open t = l # fd_open s
    | Inl x \<Rightarrow> fd_open t = fd_open s"
  using assms
  by (auto simp: counter_store_def mbind_def mlift_def mraise_def mthen_def mput_def mcatch_def mret_def opened_def closed_def
      split: sum.splits prod.splits if_splits option.splits)

end
