(* ===== verification/Artifact_Export.thy ===== *)
theory Artifact_Export
  imports Safe_Files Public_Report
begin

text \<open>
  The publication of a run's artifacts (\<^verbatim>\<open>ros/gazebo/artifact_export.py\<close> over \<^verbatim>\<open>write_checkpoint\<close> and
  \<^verbatim>\<open>checkpoint_evidence\<close> of \<^verbatim>\<open>safe_evidence.py\<close>): a fixed list of names is read beneath the root of the run and
  replaced atomically in the output directory, and a failed collection replaces the report by a failed one.
  The published files are a map from names; \<open>loads\<close> is \<^verbatim>\<open>json.loads\<close> of decoded bytes and \<open>render\<close> writes
  a report as JSON text. The two roots are the inodes their resolved paths lead to.
\<close>

section \<open>Publishing\<close>

record stage =
  st_fds :: fds
  st_out :: "string list \<rightharpoonup> string"
  st_notes :: "string list"

definition on_fds :: "(fds, 'a) meth \<Rightarrow> (stage, 'a) meth" where
  "on_fds m s = (case m (st_fds s) of (r, f) \<Rightarrow> (r, s\<lparr>st_fds := f\<rparr>))"

text \<open>\<^verbatim>\<open>finally: checkpoint.unlink(missing_ok=True)\<close>; a failing \<^verbatim>\<open>finally\<close> replaces the result.\<close>

definition with_unlink :: "fs_env \<Rightarrow> (stage, unit) meth \<Rightarrow> (stage, unit) meth" where
  "with_unlink e m s = (case m s of (r, s') \<Rightarrow> (case on_fds (syscall e (\<lambda>n. Inr ())) s' of (Inl x, t) \<Rightarrow> (Inl x, t) | (Inr _, t) \<Rightarrow> (r, t)))"

text \<open>
  \<^verbatim>\<open>write_checkpoint\<close>: the directory is made, the temporary file is created, written, flushed, given its mode
  and closed, then it replaces the target; whatever happened since it was created, it is unlinked.
\<close>

definition open_temp :: "fs_env \<Rightarrow> (fds, nat) meth" where
  "open_temp e = mbind (syscall e (\<lambda>n. Inr (fe_temp e n))) (\<lambda>i. mthen (mput (opened i)) (mret i))"

definition write_temp :: "fs_env \<Rightarrow> nat \<Rightarrow> (fds, unit) meth" where
  "write_temp e i =
     mfinally (mthen (syscall e (\<lambda>n. Inr ())) (mthen (syscall e (\<lambda>n. Inr ())) (syscall e (\<lambda>n. Inr ())))) (closed i)"

definition write_checkpoint :: "fs_env \<Rightarrow> string list \<Rightarrow> string \<Rightarrow> (stage, unit) meth" where
  "write_checkpoint e target content =
     mthen (on_fds (syscall e (\<lambda>n. Inr ())))
     (mbind (on_fds (open_temp e)) (\<lambda>i.
      with_unlink e
       (mthen (on_fds (write_temp e i))
       (mthen (on_fds (syscall e (\<lambda>n. Inr ())))
       (mput (\<lambda>s. s\<lparr>st_out := (st_out s)(target \<mapsto> content)\<rparr>))))))"

record export_env =
  xe_fs :: fs_env
  xe_root :: nat
  xe_root_parts :: "string list"
  xe_output :: nat
  xe_uid :: int

definition checkpoint_evidence :: "export_env \<Rightarrow> string list \<Rightarrow> (stage, unit) meth" where
  "checkpoint_evidence x part =
     mbind (on_fds (read_evidence (xe_fs x) (xe_root_parts x) (xe_root x) (Absolute (xe_root_parts x @ part)) (xe_uid x) MAX_EVIDENCE_BYTES))
       (write_checkpoint (xe_fs x) part)"

definition PUBLIC_FILES :: "string list" where
  "PUBLIC_FILES = [
     ''result.json'', ''error.json'', ''hazard-progress.json'', ''hazard-diagnostics.json'', ''verification-report.json'', ''transport-isolation.json'',
     ''compound-faults.json'', ''attack-result.json'', ''principal-isolation.json'',
     ''role-permissions.json'', ''source-restart.json'', ''sensor-faults.json'', ''sensor-person.json'',
     ''source_world.log'', ''source_vla.log'', ''scenario_vla.log'', ''setup.log'', ''gazebo.log'',
     ''gazebo_gui.log'', ''gate.log'', ''relay.log'', ''controller-permits.json'', ''controller-timing.json'',
     ''controller_attacker.log'', ''controller_reset.log'', ''clock_bridge.log'', ''robot_state_publisher.log'',
     ''sillok.jsonl'', ''sealed-snapshot.jsonl'', ''reference_bot.urdf'']"

definition export_names :: "string list list" where
  "export_names = map (\<lambda>n. [n]) PUBLIC_FILES @
     concat (map (\<lambda>c. map (\<lambda>n. [''arm-'' @ c, n]) [''result.json'', ''gate.log'', ''sillok.jsonl'', ''preparation-diagnostics.json'']) [''kill'', ''stall'', ''delay''])"

definition REPORT_NAME :: "string list" where "REPORT_NAME = [''verification-report.json'']"

text \<open>The names that could not be collected; a missing file is none of them.\<close>

fun export_each :: "export_env \<Rightarrow> string list list \<Rightarrow> (stage, string list list) meth" where
  "export_each x [] = mret []"
| "export_each x (n # ns) =
     mbind (mcatch (mthen (checkpoint_evidence x n) (mret []))
              (\<lambda>err. if err = OSError ''ENOENT'' then mret []
                     else if is_OSError err \<or> is_ValueError err then mret [n] else mraise err)) (\<lambda>bad.
     mbind (export_each x ns) (\<lambda>more. mret (bad @ more)))"

definition export_artifacts :: "export_env \<Rightarrow> bool \<Rightarrow> (stage, unit) meth" where
  "export_artifacts x output =
     (if \<not> output then mret ()
      else mbind (export_each x export_names) (\<lambda>rejected.
           if rejected \<noteq> [] then mraise (ValueError ''Artifact export rejected'') else mret ()))"

section \<open>The final export\<close>

text \<open>\<^verbatim>\<open>try: json.loads(read_evidence_text(output, name)) except (OSError, ValueError): fallback\<close>\<close>

definition read_json :: "export_env \<Rightarrow> (string \<Rightarrow> pyval res) \<Rightarrow> string \<Rightarrow> int \<Rightarrow> pyval \<Rightarrow> (stage, pyval) meth" where
  "read_json x loads part max_bytes fallback =
     mcatch (mbind (on_fds (read_evidence (xe_fs x) [] (xe_output x) (Relative [part]) (xe_uid x) max_bytes)) (\<lambda>text. mlift (loads text)))
       (\<lambda>err. if is_OSError err \<or> is_ValueError err then mret fallback else mraise err)"

definition household_scope :: "row \<Rightarrow> bool" where
  "household_scope previous \<longleftrightarrow>
     getf previous ''scope'' \<in> {PStr ''household_hazard_preflight_simulation'', PStr ''household_hazard_mandatory_gate_simulation''}"

definition household_profile :: "row \<Rightarrow> bool" where
  "household_profile result \<longleftrightarrow> getf result ''profile'' = PStr ''household_hazards''"

definition failed_publication :: "export_env \<Rightarrow> (string \<Rightarrow> pyval res) \<Rightarrow> (public_report \<Rightarrow> string) \<Rightarrow> (stage, unit) meth" where
  "failed_publication x loads render =
     mbind (read_json x loads ''verification-report.json'' MAX_EVIDENCE_BYTES (PDict [])) (\<lambda>p.
     mbind (read_json x loads ''result.json'' MAX_EVIDENCE_BYTES (PDict [])) (\<lambda>r.
     let previous = mapping p; result = mapping r in
     mbind (if \<not> (household_scope previous \<or> household_profile result) then mret PNone
            else if household_profile result then mret (PDict result)
            else mbind (read_json x loads ''hazard-progress.json'' 1048576 (PList [])) (\<lambda>progress.
                 mbind (read_json x loads ''hazard-diagnostics.json'' 1048576 (PDict [])) (\<lambda>diagnostics.
                 mret (PDict (failed_household_result progress diagnostics))))) (\<lambda>partial.
     write_checkpoint (xe_fs x) REPORT_NAME (render (report partial (getf previous ''source_revision'') (getf previous ''run_id'') True)))))"

text \<open>
  \<^verbatim>\<open>final_export\<close>: \<open>output\<close> tells whether there is an output directory, \<open>prior_failure\<close> whether the run itself
  failed; the lines on stderr are the notes.
\<close>

definition final_export :: "export_env \<Rightarrow> (string \<Rightarrow> pyval res) \<Rightarrow> (public_report \<Rightarrow> string) \<Rightarrow> bool \<Rightarrow> bool \<Rightarrow> (stage, bool) meth" where
  "final_export x loads render output prior_failure =
     mcatch (mthen (export_artifacts x output) (mret True))
       (\<lambda>err. if \<not> (is_OSError err \<or> is_ValueError err) then mraise err
        else mthen (mwhen output (mcatch (failed_publication x loads render)
                 (\<lambda>lost. if is_OSError lost \<or> is_ValueError lost
                         then mput (\<lambda>s. s\<lparr>st_notes := st_notes s @ [''Failed-report publication rejected'']\<rparr>) else mraise lost)))
             (if \<not> prior_failure then mraise err
              else mthen (mput (\<lambda>s. s\<lparr>st_notes := st_notes s @ [''Final artifact export rejected'']\<rparr>)) (mret False)))"

section \<open>What is published\<close>

text \<open>
  Descriptors are balanced, and every published file that changed is one \<open>P\<close> allows for a call of the
  file system made meanwhile.
\<close>

definition changes :: "(nat \<Rightarrow> string list \<Rightarrow> string \<Rightarrow> bool) \<Rightarrow> stage \<Rightarrow> stage \<Rightarrow> bool" where
  "changes P s t \<longleftrightarrow> mset (fd_open (st_fds t)) = mset (fd_open (st_fds s)) \<and> fd_calls (st_fds s) \<le> fd_calls (st_fds t) \<and>
     (\<forall>n. st_out t n = st_out s n \<or>
        (\<exists>c a. st_out t n = Some c \<and> fd_calls (st_fds s) \<le> a \<and> a < fd_calls (st_fds t) \<and> P a n c))"

interpretation ch: run_rel "changes P" for P
proof
  fix s t u :: stage
  show "changes P s s" by (simp add: changes_def)
  assume st: "changes P s t" and tu: "changes P t u"
  have "st_out u n = st_out s n \<or>
    (\<exists>c a. st_out u n = Some c \<and> fd_calls (st_fds s) \<le> a \<and> a < fd_calls (st_fds u) \<and> P a n c)" for n
  proof (cases "st_out u n = st_out t n")
    case True
    with st tu show ?thesis unfolding changes_def by (metis order_less_le_trans)
  next
    case False
    with st tu show ?thesis unfolding changes_def by (metis order_trans)
  qed
  with st tu show "changes P s u" by (auto simp: changes_def)
qed

text \<open>The calls only go up.\<close>

definition calls_onward :: "fds \<Rightarrow> fds \<Rightarrow> bool" where
  "calls_onward s t \<longleftrightarrow> fd_calls s \<le> fd_calls t"

interpretation onw: run_rel calls_onward
  by unfold_locales (auto simp: calls_onward_def)

lemma onw_sys: "keeps calls_onward (syscall e f)"
  by (simp add: keeps_def calls_onward_def syscall_def)

lemma onw_mput: "(\<And>s. fd_calls (f s) = fd_calls s) \<Longrightarrow> keeps calls_onward (mput f)"
  by (rule onw.keeps_mput) (simp add: calls_onward_def)

lemma onw_chunks: "read_chunks e i n s = (r, t) \<Longrightarrow> fd_calls s \<le> fd_calls t"
proof (induction e i n s arbitrary: r t rule: read_chunks.induct)
  case (1 e i n s)
  obtain q u where q: "syscall e (\<lambda>k. Inr (take (min n 1048576) (fe_data e k i))) s = (q, u)"
    by (cases "syscall e (\<lambda>k. Inr (take (min n 1048576) (fe_data e k i))) s")
  then have su: "fd_calls s \<le> fd_calls u" by (auto simp: syscall_def)
  show ?case
  proof (cases "n = 0 \<or> (\<exists>x. q = Inl x) \<or> q = Inr []")
    case True
    then show ?thesis using "1.prems" q su by (auto simp: read_chunks.simps [of e i n s] split: if_splits)
  next
    case False
    then obtain chunk where c: "q = Inr chunk" "chunk \<noteq> []" "n \<noteq> 0" by (cases q) auto
    obtain q' u' where q': "read_chunks e i (n - length chunk) u = (q', u')" by (cases "read_chunks e i (n - length chunk) u")
    have "fd_calls u \<le> fd_calls u'" using "1.IH" [OF c(3) q [symmetric] _ c(2)] c(1) q' by auto
    moreover have "t = u'" using "1.prems" q q' c by (cases q') (auto simp: read_chunks.simps [of e i n s])
    ultimately show ?thesis using su by simp
  qed
qed

lemma onw_read: "keeps calls_onward (read_evidence e base i path owner m)"
proof -
  have walk: "keeps calls_onward (walk e ps)" for ps
    by (induction ps) (auto simp: enter_def closed_def opened_def intro!: onw.keeps_flow onw_sys onw_mput)
  have pin: "keeps calls_onward (pin_leaf e p k)" for p k
    by (induction k) (auto simp: open_leaf_def fstat_def close_leaf_def closed_def opened_def intro!: onw.keeps_flow onw_sys onw_mput)
  have chunks: "keeps calls_onward (read_chunks e i n)" for i n
    using onw_chunks by (metis keeps_def calls_onward_def prod.collapse)
  have fin: "keeps calls_onward m \<Longrightarrow> keeps calls_onward (mfinally m release)" for m :: "(fds, string) meth"
    by (auto simp: keeps_def calls_onward_def mfinally_def release_def closed_def split: prod.splits option.splits) (metis snd_conv)+
  show ?thesis unfolding read_evidence_def read_body_def open_root_def opened_def
    by (intro onw.keeps_flow onw_sys onw_mput fin walk pin chunks) (auto simp: opened_def intro!: onw.keeps_flow chunks split: prod.split)
qed

lemma ch_fds: "(\<And>f r g. m f = (r, g) \<Longrightarrow> mset (fd_open g) = mset (fd_open f)) \<Longrightarrow> keeps calls_onward m \<Longrightarrow> keeps (changes P) (on_fds m)"
  by (auto simp: keeps_def on_fds_def changes_def calls_onward_def split: prod.splits) (metis snd_conv)

lemma ch_sys: "keeps (changes P) (on_fds (syscall e f))"
  by (rule ch_fds [OF _ onw_sys]) (drule sys_no_open, simp add: no_open_def)

lemma ch_read: "keeps (changes P) (on_fds (read_evidence e base i path owner m))"
  by (rule ch_fds [OF _ onw_read]) (rule read_closes)

text \<open>A checkpoint changes its target only, and leaves the descriptor of its temporary file closed.\<close>

definition wrote :: "string list \<Rightarrow> string \<Rightarrow> stage \<Rightarrow> stage \<Rightarrow> bool" where
  "wrote target content s t \<longleftrightarrow> mset (fd_open (st_fds t)) = mset (fd_open (st_fds s)) \<and> fd_calls (st_fds s) \<le> fd_calls (st_fds t) \<and>
     (st_out t = st_out s \<or> st_out t = (st_out s)(target \<mapsto> content))"

interpretation wr: run_rel "wrote target content" for target content
  by unfold_locales (auto simp: wrote_def)

lemma wr_sys: "keeps (wrote target content) (on_fds (syscall e f))"
  by (auto simp: keeps_def on_fds_def wrote_def syscall_def)

lemma wr_unlink: "keeps (wrote n c) m \<Longrightarrow> keeps (wrote n c) (with_unlink e m)"
  using wr_sys [of n c e "\<lambda>n. Inr ()"] unfolding keeps_def with_unlink_def
  by (auto split: prod.splits sum.splits) (metis wr.trans snd_conv)+

lemma write_temp_run:
  assumes "write_temp e i f = (r, g)"
  shows "fd_open g = remove1 i (fd_open f) \<and> fd_calls f \<le> fd_calls g"
proof -
  let ?m = "mthen (syscall e (\<lambda>n. Inr ())) (mthen (syscall e (\<lambda>n. Inr ())) (syscall e (\<lambda>n. Inr ())))"
  obtain q h where q: "?m f = (q, h)" by (cases "?m f")
  have "fd_open h = fd_open f \<and> fd_calls f \<le> fd_calls h" using q
    by (auto simp: mthen_def mbind_def syscall_def split: option.splits)
  with assms q show ?thesis by (auto simp: write_temp_def mfinally_def closed_def)
qed

lemma write_run:
  assumes "write_checkpoint e target content s = (r, t)"
  shows "wrote target content s t \<and> fd_calls (st_fds s) < fd_calls (st_fds t)"
proof -
  obtain q1 s1 where 1: "on_fds (syscall e (\<lambda>n. Inr ())) s = (q1, s1)" by (cases "on_fds (syscall e (\<lambda>n. Inr ())) s")
  then have s1: "wrote target content s s1" "fd_calls (st_fds s) < fd_calls (st_fds s1)"
    by (auto simp: on_fds_def syscall_def wrote_def)
  obtain q2 s2 where 2: "on_fds (open_temp e) s1 = (q2, s2)" by (cases "on_fds (open_temp e) s1")
  show ?thesis
  proof (cases q1)
    case (Inl x)
    with assms 1 s1 show ?thesis by (simp add: write_checkpoint_def mthen_def mbind_def)
  next
    case r1: (Inr u)
    show ?thesis
    proof (cases q2)
      case (Inl x)
      with 2 have "wrote target content s1 s2"
        by (auto simp: on_fds_def open_temp_def syscall_def mbind_def mthen_def mput_def mret_def wrote_def split: option.splits)
      with assms 1 2 r1 Inl s1 show ?thesis
        by (auto simp: write_checkpoint_def mthen_def mbind_def wrote_def)
    next
      case (Inr i)
      with 2 have s2: "fd_open (st_fds s2) = i # fd_open (st_fds s1)" "fd_calls (st_fds s2) = Suc (fd_calls (st_fds s1))" "st_out s2 = st_out s1"
        by (auto simp: on_fds_def open_temp_def syscall_def mbind_def mthen_def mput_def mret_def opened_def split: option.splits)
      let ?rest = "mthen (on_fds (syscall e (\<lambda>n. Inr ()))) (mput (\<lambda>s. s\<lparr>st_out := (st_out s)(target \<mapsto> content)\<rparr>))"
      have rest: "keeps (wrote target content) ?rest"
        by (intro wr.keeps_mthen wr_sys wr.keeps_mput) (simp add: wrote_def)
      obtain q3 f where 3: "write_temp e i (st_fds s2) = (q3, f)" by (cases "write_temp e i (st_fds s2)")
      define s3 where "s3 = s2\<lparr>st_fds := f\<rparr>"
      have s3: "wrote target content s1 s3" using write_temp_run [OF 3] s2 by (simp add: s3_def wrote_def)
      obtain q4 s4 where 4: "mthen (on_fds (write_temp e i)) ?rest s2 = (q4, s4)" by (cases "mthen (on_fds (write_temp e i)) ?rest s2")
      have s4: "wrote target content s3 s4"
        using 4 3 rest by (cases q3) (auto simp: mthen_def [of "on_fds (write_temp e i)"] mbind_def on_fds_def [of "write_temp e i"] s3_def wr.refl dest: keepsD)
      obtain q5 s5 where 5: "on_fds (syscall e (\<lambda>n. Inr ())) s4 = (q5, s5)" by (cases "on_fds (syscall e (\<lambda>n. Inr ())) s4")
      have s5: "wrote target content s4 s5" using keepsD [OF wr_sys 5] .
      have "t = s5" using assms 1 2 r1 Inr 4 5
        by (cases q5) (simp_all add: write_checkpoint_def mthen_def [of "on_fds (syscall e (\<lambda>n. Inr ()))" "mbind _ _"] mbind_def [of "on_fds (syscall e (\<lambda>n. Inr ()))"]
            mbind_def [of "on_fds (open_temp e)"] with_unlink_def)
      moreover have "wrote target content s s5" using s1(1) s3 s4 s5 wr.trans by blast
      moreover have "fd_calls (st_fds s) < fd_calls (st_fds s5)" using s1(2) s3 s4 s5 by (simp add: wrote_def)
      ultimately show ?thesis by simp
    qed
  qed
qed

lemma wrote_changes:
  assumes "wrote target content s t" "fd_calls (st_fds s) < fd_calls (st_fds t)" "\<And>a. P a target content"
  shows "changes P s t"
  unfolding changes_def
proof (intro conjI allI)
  fix n
  show "st_out t n = st_out s n \<or> (\<exists>c a. st_out t n = Some c \<and> fd_calls (st_fds s) \<le> a \<and> a < fd_calls (st_fds t) \<and> P a n c)"
    using assms by (cases "n = target") (auto simp: wrote_def)
qed (use assms in \<open>simp_all add: wrote_def\<close>)

lemma ch_write: "(\<And>a. P a target content) \<Longrightarrow> keeps (changes P) (write_checkpoint e target content)"
  unfolding keeps_def using write_run [of e target content] wrote_changes [of target content] by (metis prod.collapse)

lemma relative_anchor: "relative_parts base (Absolute (base @ ps)) = Inr qs \<Longrightarrow> qs = ps"
  by (auto simp: relative_parts_def split: if_splits)

text \<open>What is published under a name of the run was read, as the file of that name, right before.\<close>

lemma ch_checkpoint:
  assumes "\<And>a c. evidence_of (xe_fs x) (xe_root x) n (xe_uid x) MAX_EVIDENCE_BYTES a c \<Longrightarrow> P a n c"
  shows "keeps (changes P) (checkpoint_evidence x n)"
  unfolding keeps_def
proof
  fix s :: stage
  let ?rd = "read_evidence (xe_fs x) (xe_root_parts x) (xe_root x) (Absolute (xe_root_parts x @ n)) (xe_uid x) MAX_EVIDENCE_BYTES"
  obtain q f where q: "?rd (st_fds s) = (q, f)" by (cases "?rd (st_fds s)")
  have su: "changes Q s (s\<lparr>st_fds := f\<rparr>)" for Q
    using keepsD [OF ch_read, of "xe_fs x" "xe_root_parts x" "xe_root x" "Absolute (xe_root_parts x @ n)" "xe_uid x" MAX_EVIDENCE_BYTES s q] q
    by (simp add: on_fds_def)
  show "changes P s (snd (checkpoint_evidence x n s))"
  proof (cases q)
    case (Inl y)
    with q su show ?thesis by (simp add: checkpoint_evidence_def mbind_def on_fds_def)
  next
    case (Inr c)
    from read_Inr [OF q [unfolded Inr]] relative_anchor have p: "P (fd_calls (st_fds s)) n c" using assms by blast
    obtain r t where w: "write_checkpoint (xe_fs x) n c (s\<lparr>st_fds := f\<rparr>) = (r, t)" by (cases "write_checkpoint (xe_fs x) n c (s\<lparr>st_fds := f\<rparr>)")
    note run = write_run [OF w]
    have "changes P s t" unfolding changes_def
    proof (intro conjI allI)
      fix m
      show "st_out t m = st_out s m \<or> (\<exists>c a. st_out t m = Some c \<and> fd_calls (st_fds s) \<le> a \<and> a < fd_calls (st_fds t) \<and> P a m c)"
        using run su p by (cases "m = n") (auto simp: wrote_def changes_def)
    qed (use run su in \<open>auto simp: wrote_def changes_def\<close>)
    with q Inr w show ?thesis by (simp add: checkpoint_evidence_def mbind_def on_fds_def)
  qed
qed

lemma ch_each:
  assumes "\<And>n a c. n \<in> set ns \<Longrightarrow> evidence_of (xe_fs x) (xe_root x) n (xe_uid x) MAX_EVIDENCE_BYTES a c \<Longrightarrow> P a n c"
  shows "keeps (changes P) (export_each x ns)"
  using assms by (induction ns) (auto intro!: ch.keeps_flow ch_checkpoint)

lemma ch_json: "keeps (changes P) (read_json x loads n m v)"
  unfolding read_json_def by (intro ch.keeps_flow ch_read)

definition exported :: "export_env \<Rightarrow> (public_report \<Rightarrow> string) \<Rightarrow> nat \<Rightarrow> string list \<Rightarrow> string \<Rightarrow> bool" where
  "exported x render a n c \<longleftrightarrow>
     n \<in> set export_names \<and> evidence_of (xe_fs x) (xe_root x) n (xe_uid x) MAX_EVIDENCE_BYTES a c \<or>
     n = REPORT_NAME \<and> (\<exists>rep. pr_status rep = ''failed'' \<and> c = render rep)"

lemma failed_report: "pr_status (report v revision run_id True) = ''failed''"
  by (simp add: report_def household_report_def household_status_def reference_status_def Let_def)

lemma ch_failed: "keeps (changes (exported x render)) (failed_publication x loads render)"
proof -
  have "keeps (changes (exported x render)) (write_checkpoint (xe_fs x) REPORT_NAME (render (report v revision run_id True)))" for v revision run_id
    using failed_report by (intro ch_write) (auto simp: exported_def)
  then show ?thesis unfolding failed_publication_def Let_def by (intro ch.keeps_flow ch_json)
qed

lemma ch_final: "keeps (changes (exported x render)) (final_export x loads render output prior)"
proof -
  have "keeps (changes (exported x render)) (export_artifacts x output)"
    unfolding export_artifacts_def by (intro ch.keeps_flow ch_each) (simp add: exported_def)
  moreover have note_it: "keeps (changes P) (mput (\<lambda>s. s\<lparr>st_notes := st_notes s @ [m]\<rparr>))" for P m
    by (intro ch.keeps_mput) (simp add: changes_def)
  ultimately show ?thesis unfolding final_export_def by (intro ch.keeps_flow ch_failed note_it)
qed

text \<open>A publication that returned wrote a failed report.\<close>

lemma with_unlink_Inr:
  assumes "with_unlink e m s = (Inr (), t)"
  shows "\<exists>u. m s = (Inr (), u) \<and> st_out t = st_out u"
  using assms by (cases "m s") (auto simp: with_unlink_def on_fds_def split: prod.splits sum.splits)

lemma write_Inr:
  assumes "write_checkpoint e target content s = (Inr (), t)"
  shows "st_out t target = Some content"
proof -
  obtain i u where "with_unlink e
       (mthen (on_fds (write_temp e i))
       (mthen (on_fds (syscall e (\<lambda>n. Inr ())))
       (mput (\<lambda>s. s\<lparr>st_out := (st_out s)(target \<mapsto> content)\<rparr>)))) u = (Inr (), t)"
    using assms unfolding write_checkpoint_def mthen_def [of "on_fds (syscall e (\<lambda>n. Inr ()))" "mbind _ _"] mbind_Inr_iff by blast
  from with_unlink_Inr [OF this] obtain v where "mthen (on_fds (write_temp e i))
       (mthen (on_fds (syscall e (\<lambda>n. Inr ()))) (mput (\<lambda>s. s\<lparr>st_out := (st_out s)(target \<mapsto> content)\<rparr>))) u = (Inr (), v)"
    "st_out t = st_out v" by blast
  then show ?thesis unfolding mthen_def mbind_Inr_iff by (auto simp: mput_def)
qed

lemma failed_publication_Inr:
  assumes "failed_publication x loads render s = (Inr (), t)"
  shows "\<exists>rep. pr_status rep = ''failed'' \<and> st_out t REPORT_NAME = Some (render rep)"
proof -
  from assms obtain v revision run_id u where "write_checkpoint (xe_fs x) REPORT_NAME (render (report v revision run_id True)) u = (Inr (), t)"
    unfolding failed_publication_def Let_def mbind_Inr_iff by blast
  from write_Inr [OF this] failed_report show ?thesis by blast
qed

lemma final_outcome:
  assumes "final_export x loads render output prior s = (r, t)" and "r \<noteq> Inr True"
  shows "case r of
      Inr b \<Rightarrow> prior \<and> output \<and> ((\<exists>rep. pr_status rep = ''failed'' \<and> st_out t REPORT_NAME = Some (render rep)) \<or> ''Failed-report publication rejected'' \<in> set (st_notes t))
    | Inl err \<Rightarrow> \<not> is_OSError err \<and> \<not> is_ValueError err \<or>
        (\<exists>rep. pr_status rep = ''failed'' \<and> st_out t REPORT_NAME = Some (render rep)) \<or> ''Failed-report publication rejected'' \<in> set (st_notes t)"
proof -
  obtain q u where q: "export_artifacts x output s = (q, u)" by (cases "export_artifacts x output s")
  from assms q obtain err where err: "q = Inl err"
    by (cases q) (auto simp: final_export_def mcatch_def mthen_def mbind_def mret_def)
  have out: "output" using q err by (auto simp: export_artifacts_def mret_def split: if_splits)
  obtain q2 v where p: "failed_publication x loads render u = (q2, v)" by (cases "failed_publication x loads render u")
  show ?thesis
  proof (cases "is_OSError err \<or> is_ValueError err")
    case False
    with assms(1) q err show ?thesis by (auto simp: final_export_def mcatch_def mthen_def mbind_def mraise_def)
  next
    case True
    show ?thesis
    proof (cases q2)
      case (Inr a)
      with failed_publication_Inr p have "\<exists>rep. pr_status rep = ''failed'' \<and> st_out v REPORT_NAME = Some (render rep)" by simp
      moreover have "st_out t = st_out v \<and> (prior \<or> r = Inl err) \<and> (\<not> prior \<or> r = Inr False)"
        using assms(1) q err True p Inr out
        by (auto simp: final_export_def mcatch_def mthen_def mbind_def mraise_def mput_def mret_def mwhen_def split: if_splits)
      ultimately show ?thesis using out by (cases r) auto
    next
      case (Inl lost)
      show ?thesis
      proof (cases "is_OSError lost \<or> is_ValueError lost")
        case ok: True
        have "''Failed-report publication rejected'' \<in> set (st_notes t) \<and> (prior \<or> r = Inl err)"
          using assms(1) q err True p Inl ok out
          by (auto simp: final_export_def mcatch_def mthen_def mbind_def mraise_def mput_def mret_def mwhen_def split: if_splits)
        with out show ?thesis by (cases r) auto
      next
        case False
        with assms(1) q err True p Inl out have "r = Inl lost"
          by (auto simp: final_export_def mcatch_def mthen_def mbind_def mraise_def mwhen_def split: if_splits)
        with False show ?thesis by simp
      qed
    qed
  qed
qed

end
