(* ===== verification/Run_Properties.thy ===== *)
theory Run_Properties
  imports Ros_Relay Arm_Preparation Artifact_Export
begin

text \<open>
  The properties of the transport principal in front of the controllers, of the preparation before an arm
  goal of the reference run is sent and of the publication of its artifacts.
\<close>

text \<open>
  C20. After any sequence of events at the relay, a goal that was asked to be cancelled, at any point of its
  life, has been cancelled at the controller once the controller accepted it, and exactly the accepted goals
  still running keep a handle; the base commands sent to the controller are exactly those received, in order.
\<close>

theorem relay_loses_no_cancel:
  "(case rn_active (relay_spin es) gid of
      None \<Rightarrow> gid \<notin> rn_handles (relay_spin es)
    | Some g \<Rightarrow> (gid \<in> rn_handles (relay_spin es)) = (rl_phase g = Cancelling \<or> rl_phase g = Running) \<and>
        (if rl_requested g \<and> gid \<in> rn_handles (relay_spin es) then cancelled gid (rev (rn_out (relay_spin es))) else True)) \<and>
   concat (map base_out (rn_out (relay_spin es))) = concat (map base_in es)"
  using spin_goal [of gid es] relay_base_exact [of es] by (auto simp: goal_ok_def split: option.splits)

text \<open>
  C19. The preparation of an arm fault sends at most two explicit OFF proposals (one outside the isolated
  profile), and each only at the end of its own wait for a fresh world. With the readings of the executor, the
  clock and the counter numbered as the run makes them, the proposal sent after \<open>q\<close> readings had seen at
  reading \<open>q - 7\<close> a world the owner accepted, newer than before the preparation and fresh at the clock read
  next, and both controllers under the nonces of the start; at reading \<open>q - 4\<close> the clock was inside the five
  seconds and at \<open>q - 3\<close> both nonces were still there; its id follows the one used last at reading \<open>q - 2\<close>, and its
  instant is reading \<open>q - 1\<close>. All of that is after the earlier proposal was sent and, in the isolated
  profile, after a reading of its source's durable counter that was exactly its id. The preparation returns
  only for the proposal sent last, on the observation and the clock it read last but one reading before
  returning, after that proposal: the engine's newest decision since its instant allowed the stop, with fresh
  reports of both controllers under those nonces, an idle arm lease and a robot at rest.
\<close>

theorem arm_dispatch_prepared:
  "case prepare_arm_fault e n of (r, s) \<Rightarrow>
     length (pr_sent s) \<le> (if pe_roles e then 2 else 1) \<and>
     offs e (pe_clock e 0 1) (previous_stamp (aw_outcomes (pe_world e 2))) (expected_nonces (pe_world e 0)) 4 (pr_at s) (pr_sent s) \<and>
     (case r of
        Inr (Some k) \<Rightarrow> pr_sent s \<noteq> [] \<and> snd (last (pr_sent s)) = k \<and> snd (last (pr_at s)) \<le> pr_reads s - 3 \<and>
          (let w = pe_world e (pr_reads s - 3); now = pe_clock e (pr_sleeps s) (pr_reads s - 2); sent = fst (last (pr_sent s)) in
           gazebo_rearm_ready w sent now ARM_JOINTS (expected_nonces (pe_world e 0)) (Some k) = Inr True \<and>
           off_decision (aw_states w) (aw_outcomes w) sent \<and>
           idle_lease (snd (last (aw_guards w))) sent now = Inr True \<and> robot_rest w now ARM_JOINTS)
      | _ \<Rightarrow> True)"
proof -
  obtain r s where r: "prepare_arm_fault e n = (r, s)" by (cases "prepare_arm_fault e n")
  let ?nonces = "expected_nonces (pe_world e 0)"
  note p = prepare_run [OF r]
  have "pr_sent s \<noteq> [] \<and> snd (last (pr_sent s)) = k \<and> snd (last (pr_at s)) \<le> pr_reads s - 3 \<and>
      gazebo_rearm_ready (pe_world e (pr_reads s - 3)) (fst (last (pr_sent s))) (pe_clock e (pr_sleeps s) (pr_reads s - 2)) ARM_JOINTS ?nonces (Some k) = Inr True"
    if "r = Inr (Some k)" for k
    using p that by (auto simp: accepted_last_def reset_at_def)
  then have "case r of Inr (Some k) \<Rightarrow> pr_sent s \<noteq> [] \<and> snd (last (pr_sent s)) = k \<and> snd (last (pr_at s)) \<le> pr_reads s - 3 \<and>
          (let w = pe_world e (pr_reads s - 3); now = pe_clock e (pr_sleeps s) (pr_reads s - 2); sent = fst (last (pr_sent s)) in
           gazebo_rearm_ready w sent now ARM_JOINTS ?nonces (Some k) = Inr True \<and>
           off_decision (aw_states w) (aw_outcomes w) sent \<and>
           idle_lease (snd (last (aw_guards w))) sent now = Inr True \<and> robot_rest w now ARM_JOINTS)
      | _ \<Rightarrow> True"
    unfolding Let_def using dispatch_ready by (cases r) (fastforce split: option.split)+
  with p show ?thesis unfolding r by simp
qed

text \<open>
  With a clock that does not go back and sleeps that take their ten milliseconds the preparation ends, by
  returning or raising: each wait has at most five seconds, hence at most 501 turns.
\<close>

theorem arm_preparation_ends: "naps_advance e \<Longrightarrow> 500 < n \<Longrightarrow> fst (prepare_arm_fault e n) \<noteq> Inr None"
  by (rule prepare_end)

definition demo_world :: arm_world where
  "demo_world = \<lparr>aw_states = [], aw_outcomes = [], aw_guards = [], aw_base_guards = [], aw_joint = None, aw_joint_received = 0,
     aw_odom = None, aw_odom_received = 0\<rparr>"

definition demo_prep_env :: prep_env where
  "demo_prep_env = \<lparr>pe_clock = \<lambda>s i. of_nat (s + i) / 100, pe_world = \<lambda>i. demo_world, pe_exited = \<lambda>i. None, pe_counter = \<lambda>i. Inr 0, pe_roles = True\<rparr>"

theorem arm_preparation_ends_witness: "fst (prepare_arm_fault demo_prep_env 501) \<noteq> Inr None"
proof (rule arm_preparation_ends)
  show "naps_advance demo_prep_env"
    by (auto simp: naps_advance_def demo_prep_env_def add_divide_distrib divide_right_mono)
qed simp

text \<open>
  C21. Whatever other users do to the files meanwhile, a final export leaves no descriptor open, and every
  published file it changed is either one of the fixed names or the report, replaced by a failed one. Under a
  fixed name it is the content of one inode: within the export a call opened the root, the following calls
  walked to the name through directories that are no links, the inode found there was, at the call after,
  a regular, singly linked file of the expected owner and bounded size, and the bytes are what the next calls
  read from that very inode, up to the size it had. A collection that failed has replaced the report by a
  failed one, or its loss is noted on stderr, before the export returns or raises.
\<close>

theorem final_export_honest:
  "case final_export x loads render output prior (s\<lparr>st_notes := []\<rparr>) of (r, t) \<Rightarrow>
     mset (fd_open (st_fds t)) = mset (fd_open (st_fds s)) \<and>
     (\<forall>n. st_out t n = st_out s n \<or> (\<exists>c a. st_out t n = Some c \<and> fd_calls (st_fds s) \<le> a \<and> a < fd_calls (st_fds t) \<and>
        (n \<in> set export_names \<and> evidence_of (xe_fs x) (xe_root x) n (xe_uid x) MAX_EVIDENCE_BYTES a c \<or>
         n = REPORT_NAME \<and> (\<exists>rep. pr_status rep = ''failed'' \<and> c = render rep)))) \<and>
     (case r of
        Inr True \<Rightarrow> True
      | Inr False \<Rightarrow> (\<exists>rep. pr_status rep = ''failed'' \<and> st_out t REPORT_NAME = Some (render rep)) \<or> ''Failed-report publication rejected'' \<in> set (st_notes t)
      | Inl err \<Rightarrow> if is_OSError err \<or> is_ValueError err
          then (\<exists>rep. pr_status rep = ''failed'' \<and> st_out t REPORT_NAME = Some (render rep)) \<or> ''Failed-report publication rejected'' \<in> set (st_notes t)
          else True)"
proof -
  let ?s = "s\<lparr>st_notes := []\<rparr>"
  obtain r t where r: "final_export x loads render output prior ?s = (r, t)" by (cases "final_export x loads render output prior ?s")
  have "changes (exported x render) ?s t" using keepsD [OF ch_final r] .
  then have "mset (fd_open (st_fds t)) = mset (fd_open (st_fds s))"
    "\<forall>n. st_out t n = st_out s n \<or> (\<exists>c a. st_out t n = Some c \<and> fd_calls (st_fds s) \<le> a \<and> a < fd_calls (st_fds t) \<and> exported x render a n c)"
    by (simp_all add: changes_def)
  moreover from final_outcome [OF r] have "case r of
        Inr True \<Rightarrow> True
      | Inr False \<Rightarrow> (\<exists>rep. pr_status rep = ''failed'' \<and> st_out t REPORT_NAME = Some (render rep)) \<or> ''Failed-report publication rejected'' \<in> set (st_notes t)
      | Inl err \<Rightarrow> if is_OSError err \<or> is_ValueError err
          then (\<exists>rep. pr_status rep = ''failed'' \<and> st_out t REPORT_NAME = Some (render rep)) \<or> ''Failed-report publication rejected'' \<in> set (st_notes t)
          else True"
    by (cases r) (auto split: bool.split)
  ultimately show ?thesis unfolding r exported_def by simp
qed

end
