(* ===== verification/Run_Evidence.thy ===== *)
theory Run_Evidence
  imports Public_Report
begin

text \<open>
  What is concluded from the records of finished runs: the sealed prefix kept of a growing log
  (\<^verbatim>\<open>sealed_incident_snapshot\<close> of \<^verbatim>\<open>ros/gazebo/run_reference.py\<close>), the log check of a ROS scenario
  (\<^verbatim>\<open>verify_log\<close> of \<^verbatim>\<open>ros/haetae_sim/run_scenario.py\<close>) with its timing rows (\<^verbatim>\<open>ci_timing.py\<close>), the acceptance
  of the whole matrix (\<^verbatim>\<open>summarize.py\<close>), and the percentiles and warnings of the controller permits and the
  fault samples (\<^verbatim>\<open>permit_timing.py\<close>, \<^verbatim>\<open>fault_timing.py\<close>). \<open>ld\<close> is \<^verbatim>\<open>json.loads\<close>, \<open>dumps\<close> is \<^verbatim>\<open>json.dumps\<close>;
  the texts of warnings and tables are left out, their values kept.
\<close>

section \<open>The sealed prefix of a log\<close>

text \<open>\<^verbatim>\<open>next((i for i, x in enumerate(xs) if p(x)), None)\<close>, over indices in any order, where \<open>p\<close> may raise.\<close>

fun first_where :: "(nat \<Rightarrow> bool res) \<Rightarrow> nat list \<Rightarrow> nat option res" where
  "first_where p [] = Inr None"
| "first_where p (i # is) = rbind (p i) (\<lambda>b. if b then Inr (Some i) else first_where p is)"

text \<open>The parsed rows up to the first line that is no JSON; a concurrent append may be incomplete.\<close>

fun parsed_rows :: "(string \<Rightarrow> pyval res) \<Rightarrow> string list \<Rightarrow> (string \<times> pyval) list res" where
  "parsed_rows ld [] = Inr []"
| "parsed_rows ld (l # ls) =
     (case ld l of
        Inr v \<Rightarrow> rbind (parsed_rows ld ls) (\<lambda>rows. Inr ((l, v) # rows))
      | Inl (ValueError _) \<Rightarrow> Inr []
      | Inl x \<Rightarrow> Inl x)"

definition arm_incident :: "pyval \<Rightarrow> bool res" where
  "arm_incident row =
     rbind (dix row ''kind'') (\<lambda>k. if k \<noteq> PStr ''revoke'' then Inr False
       else rbind (dix row ''payload'') (\<lambda>p. rbind (dget p ''reason'') (\<lambda>r. Inr (r = PStr ''arm:world-changed''))))"

definition is_seal :: "pyval \<Rightarrow> bool res" where
  "is_seal row = rbind (dix row ''kind'') (\<lambda>k. Inr (k = PStr ''seal''))"

definition sealed_incident_snapshot :: "(string \<Rightarrow> pyval res) \<Rightarrow> string \<Rightarrow> string option res" where
  "sealed_incident_snapshot ld text =
     rbind (parsed_rows ld (splitlines text)) (\<lambda>entries.
     rbind (first_where (\<lambda>i. arm_incident (snd (entries ! i))) [0..<length entries]) (\<lambda>incident.
     case incident of
       None \<Rightarrow> Inr None
     | Some a \<Rightarrow>
         rbind (first_where (\<lambda>i. is_seal (snd (entries ! i))) (rev [a + 1..<length entries])) (\<lambda>sealed.
         case sealed of
           None \<Rightarrow> Inr None
         | Some k \<Rightarrow> Inr (Some (join_with newline (map fst (take (k + 1) entries)) @ [newline])))))"

section \<open>The logs of a scenario\<close>

text \<open>One log path: missing, or its text and what \<^verbatim>\<open>sillok verify\<close> answered.\<close>

record sillok_log =
  sl_code :: int
  sl_report :: "pyval res"
  sl_text :: string

definition verify_one :: "(string \<Rightarrow> pyval res) \<Rightarrow> sillok_log \<Rightarrow> (row \<times> row list) res" where
  "verify_one ld l =
     (if sl_code l \<noteq> 0 then Inl (AssertionError ''sillok verification failed'')
      else rbind (sl_report l) (\<lambda>result.
        rbind (dix result ''fully_sealed'') (\<lambda>fs.
        if \<not> truthy fs then Inl (AssertionError ''sillok is not fully sealed'')
        else rbind (rmap (\<lambda>s. rbind (ld s) need_dict) (splitlines (sl_text l))) (\<lambda>records.
          Inr (mapping result, records)))))"

definition verify_logs :: "(string \<Rightarrow> pyval res) \<Rightarrow> sillok_log option list \<Rightarrow> (row option list \<times> row list) res" where
  "verify_logs ld logs =
     rbind (rmap (\<lambda>l. case l of None \<Rightarrow> Inr (None, []) | Some l \<Rightarrow> rbind (verify_one ld l) (\<lambda>(r, records). Inr (Some r, records))) logs)
       (\<lambda>rs. Inr (map fst rs, concat (map snd rs)))"

text \<open>The records each scenario must show. A record is the object of a log line with its kind and payload.\<close>

definition zone_record :: "row \<Rightarrow> bool res" where
  "zone_record r =
     rbind (dix (PDict r) ''kind'') (\<lambda>k. if k \<notin> {PStr ''decision'', PStr ''revoke''} then Inr False
       else rbind (dix (PDict r) ''payload'') (\<lambda>p. rbind (dget p ''verdict'') (\<lambda>v. if v \<noteq> PStr ''bul'' then Inr False
         else rbind (dget_or p ''fired'' (PList [])) (\<lambda>f. str_in ''zone:child-room'' f))))"

definition person_record :: "(pyval \<Rightarrow> string) \<Rightarrow> row \<Rightarrow> bool res" where
  "person_record dumps r =
     rbind (dix (PDict r) ''kind'') (\<lambda>k. if k \<noteq> PStr ''revoke'' then Inr False
       else rbind (dix (PDict r) ''payload'') (\<lambda>p. Inr (is_infix ''person'' (dumps p))))"

definition stop_record :: "string \<Rightarrow> string \<Rightarrow> row \<Rightarrow> bool res" where
  "stop_record rust_reason bridge_reason r =
     rbind (dix (PDict r) ''kind'') (\<lambda>k.
     if k = PStr ''stop'' then rbind (dix (PDict r) ''payload'') (\<lambda>p. rbind (dget p ''reason'') (\<lambda>v. Inr (v = PStr rust_reason)))
     else if k = PStr ''reject'' then rbind (dix (PDict r) ''payload'') (\<lambda>p. rbind (dget p ''error'') (\<lambda>v. Inr (v = PStr bridge_reason)))
     else Inr False)"

fun any_record :: "(row \<Rightarrow> bool res) \<Rightarrow> row list \<Rightarrow> bool res" where
  "any_record p [] = Inr False"
| "any_record p (r # rs) = rbind (p r) (\<lambda>b. if b then Inr True else any_record p rs)"

definition causal_record :: "(pyval \<Rightarrow> string) \<Rightarrow> nat \<Rightarrow> row list \<Rightarrow> bool res" where
  "causal_record dumps scenario records =
     (if scenario = 2 then any_record zone_record records
      else if scenario = 3 then any_record (person_record dumps) records
      else if scenario = 5 then any_record (stop_record ''StaleWorld'' ''stale actuation response: world expired'') records
      else if scenario = 6 then any_record (stop_record ''Expired'' ''stale actuation response: proposal expired'') records
      else Inr True)"

definition verify_log :: "(string \<Rightarrow> pyval res) \<Rightarrow> (pyval \<Rightarrow> string) \<Rightarrow> nat \<Rightarrow> sillok_log option list \<Rightarrow> row option list res" where
  "verify_log ld dumps scenario logs =
     rbind (verify_logs ld logs) (\<lambda>(results, records).
     if \<not> list_ex (\<lambda>r. r \<noteq> None) results \<and> scenario \<noteq> 1 then Inl (AssertionError ''no sealed sillok log'')
     else rbind (causal_record dumps scenario records) (\<lambda>ok. if ok then Inr results else Inl (AssertionError ''missing causal record'')))"

section \<open>The matrix of scenarios\<close>

record scenario_row =
  sr_scenario :: nat
  sr_repeat :: nat
  sr_ok :: bool
  sr_sillok :: "row list"

definition matrix_pairs :: "(nat \<times> nat) set" where
  "matrix_pairs = {1..<9} \<times> {1..<6}"

definition log_sealed :: "nat \<Rightarrow> row \<Rightarrow> bool" where
  "log_sealed scenario l \<longleftrightarrow> truthy (case map_of l ''fully_sealed'' of None \<Rightarrow> PBool False | Some v \<Rightarrow> v) \<or> scenario = 1 \<and> getf l ''present'' = PBool False"

definition matrix_accepted :: "scenario_row list \<Rightarrow> bool" where
  "matrix_accepted rows \<longleftrightarrow>
     (\<lambda>r. (sr_scenario r, sr_repeat r)) ` set rows = matrix_pairs \<and> length rows = 40 \<and> list_all sr_ok rows \<and>
     list_all (\<lambda>r. sr_sillok r \<noteq> [] \<and> list_all (log_sealed (sr_scenario r)) (sr_sillok r)) rows"

section \<open>Timing that is never a verdict\<close>

record timing_row =
  tm_elapsed :: rat
  tm_limit :: rat
  tm_within :: bool

definition finite_ms :: "pyval \<Rightarrow> rat option" where
  "finite_ms v = (case v of PInt n \<Rightarrow> if 0 \<le> n then Some (of_int n) else None
     | PFloat w \<Rightarrow> if isfinite w \<and> 0 \<le> f_val w then Some (f_val w) else None | _ \<Rightarrow> None)"

definition timing_measurement :: "pyval \<Rightarrow> pyval \<Rightarrow> timing_row res" where
  "timing_measurement elapsed limit =
     (case (finite_ms elapsed, finite_ms limit) of
        (Some t, Some l) \<Rightarrow> Inr \<lparr>tm_elapsed = t, tm_limit = l, tm_within = t \<le> l\<rparr>
      | _ \<Rightarrow> Inl (ValueError ''timing observations require finite nonnegative milliseconds''))"

definition nearest_rank :: "rat list \<Rightarrow> rat \<Rightarrow> rat" where
  "nearest_rank vs q = sort vs ! nat (max 0 (ceiling (q * of_nat (length vs)) - 1))"

fun clean_values :: "pyval \<Rightarrow> rat list" where
  "clean_values (PList vs) = concat (map (\<lambda>v. case finite_ms v of None \<Rightarrow> [] | Some t \<Rightarrow> [t]) vs)"
| "clean_values _ = []"

definition LIMIT_MS :: rat where "LIMIT_MS = 50"
definition MIN_SAMPLES :: nat where "MIN_SAMPLES = 20"

definition SERIES :: "(string \<times> string list) list" where
  "SERIES = [(''renewal_path_ms'', [''renewal_ms'', ''world_admission_ms'']), (''renewal_ms'', [''renewal_ms'']),
     (''actuation_admission_ms'', [''actuation_admission_ms'']), (''send_age_ms'', [''send_age_ms''])]"

datatype level = Notice | Warning

datatype timing_note =
    NoSamples string
  | FewSamples string nat
  | SlowTail string rat rat nat rat rat
  | InconclusiveAttempts nat "(pyval \<times> pyval) list"
  | Incomplete

record percentiles =
  pc_name :: string
  pc_count :: nat
  pc_p50 :: rat
  pc_p95 :: rat
  pc_high :: rat

definition series_row :: "string \<Rightarrow> rat list \<Rightarrow> percentiles" where
  "series_row part vs = \<lparr>pc_name = part, pc_count = length vs, pc_p50 = nearest_rank vs (1 / 2), pc_p95 = nearest_rank vs (19 / 20), pc_high = last (sort vs)\<rparr>"

definition series_notes :: "rat \<Rightarrow> percentiles \<Rightarrow> (level \<times> timing_note) list" where
  "series_notes limit r =
     (if pc_name r = ''renewal_path_ms'' \<and> pc_count r < MIN_SAMPLES then [(Notice, FewSamples (pc_name r) (pc_count r))] else []) @
     (if limit \<le> pc_p95 r
      then [(if MIN_SAMPLES \<le> pc_count r then Warning else Notice, SlowTail (pc_name r) (pc_p95 r) limit (pc_count r) (pc_p50 r) (pc_high r))] else [])"

fun series_from :: "row \<Rightarrow> rat \<Rightarrow> (string \<times> string list) list \<Rightarrow> percentiles list \<times> (level \<times> timing_note) list" where
  "series_from raw limit [] = ([], [])"
| "series_from raw limit ((part, sources) # rest) =
     (case series_from raw limit rest of (rows, notes) \<Rightarrow>
        (case concat (map (\<lambda>s. clean_values (getf raw s)) sources) of
           [] \<Rightarrow> (rows, (Notice, NoSamples part) # notes)
         | vs \<Rightarrow> (series_row part vs # rows, series_notes limit (series_row part vs) @ notes)))"

definition attempt_rows :: "row \<Rightarrow> row list" where
  "attempt_rows data = (case getf data ''attempts'' of PList xs \<Rightarrow> concat (map (\<lambda>v. case v of PDict d \<Rightarrow> [d] | _ \<Rightarrow> []) xs) | _ \<Rightarrow> [])"

text \<open>\<^verbatim>\<open>summarize\<close> of \<^verbatim>\<open>permit_timing.py\<close>\<close>

definition permit_summary :: "row \<Rightarrow> rat \<Rightarrow> percentiles list \<times> (level \<times> timing_note) list" where
  "permit_summary data limit =
     (let (rows, notes) = series_from (mapping (getf data ''series'')) limit SERIES;
          inconclusive = filter (\<lambda>r. getf r ''outcome'' = PStr ''inconclusive'') (attempt_rows data) in
      (rows, notes @
         (if inconclusive \<noteq> [] then [(Warning, InconclusiveAttempts (length inconclusive) (remdups (map (\<lambda>r. (getf r ''case'', getf r ''attempt'')) inconclusive)))] else []) @
         (if getf data ''complete'' \<noteq> PBool True then [(Notice, Incomplete)] else [])))"

text \<open>\<^verbatim>\<open>summarize\<close> of \<^verbatim>\<open>fault_timing.py\<close>: the check, the sample, its value and limit, within the limit.\<close>

datatype fault_note = OverLimit pyval pyval pyval pyval | Retried int | NoFaultSamples pyval

fun dicts :: "pyval \<Rightarrow> row list" where
  "dicts (PList xs) = concat (map (\<lambda>v. case v of PDict d \<Rightarrow> [d] | _ \<Rightarrow> []) xs)"
| "dicts _ = []"

definition fault_row :: "row \<Rightarrow> row \<Rightarrow> pyval \<times> pyval \<times> pyval \<times> pyval \<times> bool" where
  "fault_row chk entry = (getf chk ''id'', getf entry ''name'', getf entry ''value_ms'', getf entry ''limit_ms'', getf entry ''within_limit'' = PBool True)"

definition fault_check :: "row \<Rightarrow> (pyval \<times> pyval \<times> pyval \<times> pyval \<times> bool) list \<times> (level \<times> fault_note) list" where
  "fault_check chk =
     (let rows = map (fault_row chk) (dicts (getf chk ''timing''));
          retried = (if getf chk ''id'' = PStr ''sensor_coverage'' then getf (mapping (getf chk ''measurements'')) ''inconclusive_attempts'' else PNone) in
      (rows, concat (map (\<lambda>(i, n, v, l, ok). if ok then [] else [(Warning, OverLimit i n v l)]) rows) @
         (case retried of PInt k \<Rightarrow> if 0 < k then [(Warning, Retried k)] else [] | _ \<Rightarrow> [])))"

definition fault_summary :: "row \<Rightarrow> (pyval \<times> pyval \<times> pyval \<times> pyval \<times> bool) list \<times> (level \<times> fault_note) list" where
  "fault_summary rep =
     (let cs = map fault_check (dicts (getf rep ''checks'')); rows = concat (map fst cs); notes = concat (map snd cs) in
      (rows, if rows = [] then notes @ [(Notice, NoFaultSamples (getf rep ''status''))] else notes))"

section \<open>What is concluded\<close>

lemma first_where_Some: "first_where p is = Inr (Some i) \<Longrightarrow> i \<in> set is \<and> p i = Inr True"
  by (induction "is") (auto simp: rbind_Inr_iff split: if_splits)

lemma parsed_prefix: "parsed_rows ld ls = Inr rows \<Longrightarrow> map fst rows = take (length rows) ls \<and> list_all (\<lambda>(l, v). ld l = Inr v) rows"
proof (induction ls arbitrary: rows)
  case (Cons l ls)
  show ?case
  proof (cases "ld l")
    case (Inl x)
    with Cons.prems show ?thesis by (cases x) auto
  next
    case (Inr v)
    with Cons.prems obtain rs where "parsed_rows ld ls = Inr rs" "rows = (l, v) # rs" by (auto simp: rbind_Inr_iff)
    with Cons.IH [of rs] Inr show ?thesis by simp
  qed
qed simp

text \<open>
  A snapshot is a prefix of the log's lines, every one of them parsed, that ends with a seal after the
  incident.
\<close>

lemma snapshot_sound:
  assumes "sealed_incident_snapshot ld text = Inr (Some content)"
  shows "\<exists>rows a k. parsed_rows ld (splitlines text) = Inr rows \<and> a < k \<and> k < length rows \<and>
    arm_incident (snd (rows ! a)) = Inr True \<and> is_seal (snd (rows ! k)) = Inr True \<and>
    content = join_with newline (take (k + 1) (splitlines text)) @ [newline] \<and> (\<forall>i\<le>k. ld (splitlines text ! i) = Inr (snd (rows ! i)))"
proof -
  from assms obtain rows a k where rows: "parsed_rows ld (splitlines text) = Inr rows"
    and a: "first_where (\<lambda>i. arm_incident (snd (rows ! i))) [0..<length rows] = Inr (Some a)"
    and k: "first_where (\<lambda>i. is_seal (snd (rows ! i))) (rev [a + 1..<length rows]) = Inr (Some k)"
    and c: "content = join_with newline (map fst (take (k + 1) rows)) @ [newline]"
    by (auto simp: sealed_incident_snapshot_def rbind_Inr_iff split: option.splits)
  note pre = parsed_prefix [OF rows]
  have ak: "a < k" "k < length rows" using first_where_Some [OF k] by auto
  have fst_rows: "map fst (take (k + 1) rows) = take (k + 1) (splitlines text)"
    using pre ak by (metis Suc_eq_plus1 Suc_leI min.absorb1 take_map take_take)
  have "ld (splitlines text ! i) = Inr (snd (rows ! i))" if "i \<le> k" for i
  proof -
    have i: "i < length rows" using that ak by simp
    have "splitlines text ! i = fst (rows ! i)" using pre i by (metis nth_map nth_take)
    moreover have "ld (fst (rows ! i)) = Inr (snd (rows ! i))" using pre i by (auto simp: list_all_length case_prod_beta)
    ultimately show ?thesis by simp
  qed
  moreover have "arm_incident (snd (rows ! a)) = Inr True" "is_seal (snd (rows ! k)) = Inr True"
    using first_where_Some [OF a] first_where_Some [OF k] by simp_all
  ultimately show ?thesis using rows ak unfolding c fst_rows by (intro exI [of _ rows] exI [of _ a] exI [of _ k]) simp
qed

lemma any_record_True: "any_record p rs = Inr True \<longleftrightarrow> (\<exists>pre r post. rs = pre @ r # post \<and> p r = Inr True \<and> (\<forall>x\<in>set pre. p x = Inr False))"
proof (induction rs)
  case (Cons r rs)
  show ?case
  proof
    assume "any_record p (r # rs) = Inr True"
    then consider "p r = Inr True" | "p r = Inr False" "any_record p rs = Inr True" by (auto simp: rbind_Inr_iff split: if_splits)
    then show "\<exists>pre x post. r # rs = pre @ x # post \<and> p x = Inr True \<and> (\<forall>x\<in>set pre. p x = Inr False)"
    proof cases
      case 1
      then show ?thesis by (intro exI [of _ "[]"] exI [of _ r] exI [of _ rs]) simp
    next
      case 2
      with Cons.IH obtain pre x post where "rs = pre @ x # post" "p x = Inr True" "\<forall>x\<in>set pre. p x = Inr False" by blast
      with 2 show ?thesis by (intro exI [of _ "r # pre"] exI [of _ x] exI [of _ post]) simp
    qed
  next
    assume "\<exists>pre x post. r # rs = pre @ x # post \<and> p x = Inr True \<and> (\<forall>x\<in>set pre. p x = Inr False)"
    then obtain pre x post where *: "r # rs = pre @ x # post" "p x = Inr True" "\<forall>x\<in>set pre. p x = Inr False" by blast
    then show "any_record p (r # rs) = Inr True" using Cons.IH by (cases pre) auto
  qed
qed simp

lemma rmap_all: "rmap f xs = Inr ys \<Longrightarrow> length ys = length xs \<and> (\<forall>i<length xs. f (xs ! i) = Inr (ys ! i))"
proof (induction xs arbitrary: ys)
  case (Cons x xs)
  then obtain y zs where "f x = Inr y" "rmap f xs = Inr zs" "ys = y # zs" by (auto simp: rbind_Inr_iff)
  with Cons.IH [of zs] show ?case by (auto simp: nth_Cons split: nat.splits)
qed simp

definition sealed_log :: "sillok_log \<Rightarrow> bool" where
  "sealed_log l \<longleftrightarrow> sl_code l = 0 \<and> (\<exists>result fs. sl_report l = Inr result \<and> dix result ''fully_sealed'' = Inr fs \<and> truthy fs)"

lemma verify_one_sealed: "verify_one ld l = Inr r \<Longrightarrow> sealed_log l"
  by (auto simp: verify_one_def sealed_log_def rbind_Inr_iff split: if_splits)

text \<open>A verified scenario: each log that exists is fully sealed, one exists (but for the first scenario), and the cause is on record.\<close>

lemma verify_log_sound:
  assumes "verify_log ld dumps scenario logs = Inr results"
  shows "(\<forall>l. Some l \<in> set logs \<longrightarrow> sealed_log l) \<and> (scenario \<noteq> 1 \<longrightarrow> (\<exists>l. Some l \<in> set logs)) \<and>
    (\<exists>records. verify_logs ld logs = Inr (results, records) \<and> causal_record dumps scenario records = Inr True)"
proof -
  from assms obtain records where v: "verify_logs ld logs = Inr (results, records)" and c: "causal_record dumps scenario records = Inr True"
    and some: "scenario \<noteq> 1 \<longrightarrow> list_ex (\<lambda>r. r \<noteq> None) results"
    by (auto simp: verify_log_def rbind_Inr_iff split: if_splits)
  let ?f = "\<lambda>l. case l of None \<Rightarrow> Inr (None, []) | Some l \<Rightarrow> rbind (verify_one ld l) (\<lambda>(r, records). Inr (Some r, records))"
  from v obtain rs where rs: "rmap ?f logs = Inr rs" "results = map fst rs" by (auto simp: verify_logs_def rbind_Inr_iff)
  note all = rmap_all [OF rs(1)]
  have sealed: "sealed_log l" if "Some l \<in> set logs" for l
  proof -
    from that obtain i where "i < length logs" "logs ! i = Some l" by (auto simp: in_set_conv_nth)
    with all have "?f (Some l) = Inr (rs ! i)" by metis
    then show ?thesis by (auto simp: rbind_Inr_iff dest: verify_one_sealed)
  qed
  have "\<exists>l. Some l \<in> set logs" if "scenario \<noteq> 1"
  proof -
    from some that obtain i where i: "i < length rs" "fst (rs ! i) \<noteq> None" using rs(2) by (auto simp: list_ex_length)
    have "logs ! i \<noteq> None"
    proof
      assume "logs ! i = None"
      with all i(1) have "rs ! i = (None, [])" by auto
      with i(2) show False by simp
    qed
    with i all show ?thesis by (metis not_None_eq nth_mem)
  qed
  with sealed v c show ?thesis by blast
qed

text \<open>The accepted matrix holds every scenario and repeat exactly once.\<close>

lemma matrix_exact:
  assumes "matrix_accepted rows"
  shows "distinct (map (\<lambda>r. (sr_scenario r, sr_repeat r)) rows)"
proof -
  have "card (set (map (\<lambda>r. (sr_scenario r, sr_repeat r)) rows)) = card matrix_pairs" using assms by (simp add: matrix_accepted_def)
  also have "\<dots> = 40" by (simp add: matrix_pairs_def card_cartesian_product)
  finally show ?thesis using assms by (intro card_distinct) (simp add: matrix_accepted_def)
qed

text \<open>The nearest rank is one of the samples, and at least the given share of the samples is no larger.\<close>

lemma nearest_rank_quantile:
  assumes "vs \<noteq> []" and "0 < q" and "q \<le> 1"
  shows "nearest_rank vs q \<in> set vs \<and> q * of_nat (length vs) \<le> of_nat (length (filter (\<lambda>x. x \<le> nearest_rank vs q) vs))"
proof -
  define k where "k = nat (max 0 (ceiling (q * of_nat (length vs)) - 1))"
  have pos: "0 < q * of_nat (length vs)" using assms by simp
  then have c1: "0 < ceiling (q * of_nat (length vs))" by simp
  have "ceiling (q * of_nat (length vs)) \<le> int (length vs)"
    using assms by (simp add: ceiling_le_iff mult_left_le_one_le)
  then have k: "k < length vs" using c1 unfolding k_def by linarith
  have ks: "ceiling (q * of_nat (length vs)) = int (Suc k)" using c1 by (simp add: k_def)
  have v: "nearest_rank vs q = sort vs ! k" by (simp add: nearest_rank_def k_def)
  have mem: "sort vs ! k \<in> set vs" using k by (metis length_sort nth_mem set_sort)
  have "Suc k \<le> length (filter (\<lambda>x. x \<le> sort vs ! k) (sort vs))"
  proof -
    have "set (take (Suc k) (sort vs)) \<subseteq> {x. x \<le> sort vs ! k}"
      using k by (auto simp: set_conv_nth) (metis length_sort less_Suc_eq_le order.strict_trans sorted_nth_mono sorted_sort)
    then have "filter (\<lambda>x. x \<le> sort vs ! k) (take (Suc k) (sort vs)) = take (Suc k) (sort vs)" by (auto simp: filter_id_conv)
    then have "length (filter (\<lambda>x. x \<le> sort vs ! k) (take (Suc k) (sort vs))) = Suc k" using k by simp
    moreover have "filter P (sort vs) = filter P (take (Suc k) (sort vs)) @ filter P (drop (Suc k) (sort vs))" for P
      by (metis append_take_drop_id filter_append)
    ultimately show ?thesis by simp
  qed
  also have "\<dots> = length (filter (\<lambda>x. x \<le> sort vs ! k) vs)" by (metis filter_sort length_sort)
  finally have "q * of_nat (length vs) \<le> of_nat (length (filter (\<lambda>x. x \<le> sort vs ! k) vs))"
    using ks by (metis (mono_tags, lifting) ceiling_le_iff of_int_of_nat_eq of_nat_le_iff order_trans)
  with mem v show ?thesis by simp
qed

end
