(* ===== verification/Live_Script.thy ===== *)
theory Live_Script
  imports Permit_Attempts
begin

text \<open>
  Scripts that drive a running system: they read clocks and telemetry, send packets and wait
  (\<^verbatim>\<open>wait_for\<close> of \<^verbatim>\<open>ros/gazebo/run_reference.py\<close>). A script ends with a judgement of
  \<^theory_text>\<open>Permit_Attempts\<close> and a state; \<open>None\<close> is a wait that had not ended when its fuel was used.
  The rules are those of partial correctness (\<open>swp\<close>), of relations every run respects (\<open>skeeps\<close>)
  and of termination (\<open>returns\<close>).
\<close>

section \<open>Scripts\<close>

type_synonym ('s, 'a) script = "'s \<Rightarrow> 'a judged option \<times> 's"

definition sjudge :: "'a judged \<Rightarrow> ('s, 'a) script" where
  "sjudge j s = (Some j, s)"

abbreviation sret :: "'a \<Rightarrow> ('s, 'a) script" where
  "sret a \<equiv> sjudge (Passed a)"

abbreviation sraise :: "exn \<Rightarrow> ('s, 'a) script" where
  "sraise x \<equiv> sjudge (Raised x)"

fun judge_res :: "'a res \<Rightarrow> 'a judged" where
  "judge_res (Inl x) = Raised x"
| "judge_res (Inr a) = Passed a"

abbreviation slift :: "'a res \<Rightarrow> ('s, 'a) script" where
  "slift r \<equiv> sjudge (judge_res r)"

definition sget :: "('s \<Rightarrow> 'a) \<Rightarrow> ('s, 'a) script" where
  "sget f s = (Some (Passed (f s)), s)"

definition sput :: "('s \<Rightarrow> 's) \<Rightarrow> ('s, unit) script" where
  "sput f s = (Some (Passed ()), f s)"

definition sbind :: "('s, 'a) script \<Rightarrow> ('a \<Rightarrow> ('s, 'b) script) \<Rightarrow> ('s, 'b) script" where
  "sbind m f s = (case m s of
     (None, t) \<Rightarrow> (None, t)
   | (Some (Passed a), t) \<Rightarrow> f a t
   | (Some (Inconclusive d), t) \<Rightarrow> (Some (Inconclusive d), t)
   | (Some (Raised x), t) \<Rightarrow> (Some (Raised x), t))"

definition sthen :: "('s, 'a) script \<Rightarrow> ('s, 'b) script \<Rightarrow> ('s, 'b) script" where
  "sthen m n = sbind m (\<lambda>_. n)"

definition swhen :: "bool \<Rightarrow> ('s, unit) script \<Rightarrow> ('s, unit) script" where
  "swhen b m = (if b then m else sret ())"

text \<open>\<^verbatim>\<open>except TimeoutError\<close>\<close>

definition on_timeout :: "('s, 'a) script \<Rightarrow> ('s, 'a) script \<Rightarrow> ('s, 'a) script" where
  "on_timeout m h s = (case m s of
     (Some (Raised (TimeoutError d)), t) \<Rightarrow> h t
   | r \<Rightarrow> r)"

text \<open>
  \<^verbatim>\<open>with fail_closed_settled(check)\<close>, \<^verbatim>\<open>goal_counted\<close> and \<^verbatim>\<open>motion_checked\<close> around statements: the
  check runs in the state an inconclusive body left, and only then.
\<close>

definition guarded :: "('s, unit) script \<Rightarrow> ('s, 'a) script \<Rightarrow> ('s, 'a) script" where
  "guarded chk body s = (case body s of
     (Some (Inconclusive d), t) \<Rightarrow> sbind chk (\<lambda>_. sjudge (Inconclusive d)) t
   | r \<Rightarrow> r)"

section \<open>Waiting\<close>

text \<open>What \<^verbatim>\<open>wait_for\<close> needs of its surroundings: the clock, the child processes, a reading and a sleep.\<close>

record 's waiter =
  wt_clock :: "'s \<Rightarrow> int"
  wt_exited :: "'s \<Rightarrow> (string \<times> int) option"
  wt_read :: "'s \<Rightarrow> 's"
  wt_nap :: "'s \<Rightarrow> 's"
  wt_fuel :: nat

definition clock_ns :: "'s waiter \<Rightarrow> ('s, int) script" where
  "clock_ns w s = (Some (Passed (wt_clock w s)), wt_read w s)"

definition poll_exit :: "'s waiter \<Rightarrow> ('s, (string \<times> int) option) script" where
  "poll_exit w s = (Some (Passed (wt_exited w s)), wt_read w s)"

text \<open>The action runs when 80 ms passed since it last returned.\<close>

definition act_if_due :: "'s waiter \<Rightarrow> ('s, unit) script option \<Rightarrow> int \<Rightarrow> ('s, int) script" where
  "act_if_due w act last_action =
     (case act of
        None \<Rightarrow> sret last_action
      | Some a \<Rightarrow> sbind (clock_ns w) (\<lambda>t. if 80000000 \<le> t - last_action then sthen a (clock_ns w) else sret last_action))"

text \<open>The loop of \<^verbatim>\<open>wait_for\<close>; the predicate gives the value it found, as its callers keep it.\<close>

fun await_loop ::
    "'s waiter \<Rightarrow> nat \<Rightarrow> ('s, 'a option) script \<Rightarrow> int \<Rightarrow> string \<Rightarrow> ('s, unit) script option \<Rightarrow> int \<Rightarrow> ('s, 'a) script" where
  "await_loop w 0 p deadline description act last_action = (\<lambda>s. (None, s))"
| "await_loop w (Suc n) p deadline description act last_action =
     sbind (clock_ns w) (\<lambda>t.
     if \<not> t < deadline then sraise (TimeoutError description)
     else sbind (poll_exit w) (\<lambda>dead.
       if dead \<noteq> None then sraise (RuntimeError description)
       else sbind p (\<lambda>found.
         case found of
           Some a \<Rightarrow> sthen (clock_ns w) (sret a)
         | None \<Rightarrow> sbind (act_if_due w act last_action) (\<lambda>l.
             sthen (sput (wt_nap w)) (await_loop w n p deadline description act l)))))"

definition await :: "'s waiter \<Rightarrow> ('s, 'a option) script \<Rightarrow> int \<Rightarrow> string \<Rightarrow> ('s, unit) script option \<Rightarrow> ('s, 'a) script" where
  "await w p timeout_ns description act =
     sbind (clock_ns w) (\<lambda>t. await_loop w (wt_fuel w) p (t + timeout_ns) description act 0)"

text \<open>A predicate that is a truth value.\<close>

definition met :: "('s, bool) script \<Rightarrow> ('s, unit option) script" where
  "met p = sbind p (\<lambda>b. sret (if b then Some () else None))"

section \<open>Partial correctness\<close>

text \<open>\<open>swp m Q s\<close>: if \<open>m\<close> passes from \<open>s\<close> then with a result and a state that satisfy \<open>Q\<close>.\<close>

definition swp :: "('s, 'a) script \<Rightarrow> ('a \<Rightarrow> 's \<Rightarrow> bool) \<Rightarrow> 's \<Rightarrow> bool" where
  "swp m Q s = (case m s of (Some (Passed a), t) \<Rightarrow> Q a t | _ \<Rightarrow> True)"

named_theorems swp_rules \<open>weakest preconditions of the script combinators\<close>

lemma swp_sjudge [swp_rules]: "swp (sjudge j) Q s = (case j of Passed a \<Rightarrow> Q a s | _ \<Rightarrow> True)"
  by (simp add: swp_def sjudge_def split: outcome.split)

lemma swp_judge_res [swp_rules]: "(case judge_res r of Passed a \<Rightarrow> f a | _ \<Rightarrow> True) = (case r of Inl x \<Rightarrow> True | Inr a \<Rightarrow> f a)"
  by (cases r) simp_all

lemma swp_sget [swp_rules]: "swp (sget f) Q s = Q (f s) s"
  by (simp add: swp_def sget_def)

lemma swp_sput [swp_rules]: "swp (sput f) Q s = Q () (f s)"
  by (simp add: swp_def sput_def)

lemma swp_clock [swp_rules]: "swp (clock_ns w) Q s = Q (wt_clock w s) (wt_read w s)"
  by (simp add: swp_def clock_ns_def)

lemma swp_sbind [swp_rules]: "swp (sbind m f) Q s = swp m (\<lambda>a. swp (f a) Q) s"
  by (auto simp: swp_def sbind_def split: prod.splits option.splits outcome.splits)

lemma swp_sthen [swp_rules]: "swp (sthen m n) Q s = swp m (\<lambda>_. swp n Q) s"
  by (simp add: sthen_def swp_sbind)

lemma swp_swhen [swp_rules]: "swp (swhen b m) Q s = (if b then swp m Q s else Q () s)"
  by (simp add: swhen_def swp_sjudge)

lemma swp_if [swp_rules]: "swp (if b then m else n) Q s = (if b then swp m Q s else swp n Q s)"
  by simp

lemma swp_option [swp_rules]: "swp (case v of None \<Rightarrow> m | Some a \<Rightarrow> f a) Q s = (case v of None \<Rightarrow> swp m Q s | Some a \<Rightarrow> swp (f a) Q s)"
  by (cases v) simp_all

lemma swp_prod [swp_rules]: "swp (case v of (a, b) \<Rightarrow> f a b) Q s = (case v of (a, b) \<Rightarrow> swp (f a b) Q s)"
  by (cases v) simp

lemma swp_guarded [swp_rules]: "swp (guarded chk body) Q s = swp body Q s"
  by (auto simp: swp_def guarded_def sbind_def sjudge_def split: prod.splits option.splits outcome.splits)

lemma on_timeout_cases: "on_timeout m h s = m s \<or> (\<exists>d t. m s = (Some (Raised (TimeoutError d)), t) \<and> on_timeout m h s = h t)"
  by (auto simp: on_timeout_def split: prod.splits option.splits outcome.splits exn.splits)

lemma guarded_cases:
  "guarded chk body s = body s \<or>
   (\<exists>d t. body s = (Some (Inconclusive d), t) \<and> guarded chk body s = sbind chk (\<lambda>_. sjudge (Inconclusive d)) t)"
  by (auto simp: guarded_def split: prod.splits option.splits outcome.splits)

lemma swp_on_timeout: "swp m Q s \<Longrightarrow> (\<And>t. swp h Q t) \<Longrightarrow> swp (on_timeout m h) Q s"
  using on_timeout_cases [of m h s] unfolding swp_def by metis

lemma swp_mono: "swp m P s \<Longrightarrow> (\<And>a t. P a t \<Longrightarrow> Q a t) \<Longrightarrow> swp m Q s"
  by (auto simp: swp_def split: prod.splits option.splits outcome.splits)

lemma swp_conj: "swp m P s \<Longrightarrow> swp m Q s \<Longrightarrow> swp m (\<lambda>a t. P a t \<and> Q a t) s"
  by (auto simp: swp_def split: prod.splits option.splits outcome.splits)

lemma swpD: "swp m Q s \<Longrightarrow> m s = (Some (Passed a), t) \<Longrightarrow> Q a t"
  by (simp add: swp_def)

lemma swpI: "(\<And>a t. m s = (Some (Passed a), t) \<Longrightarrow> Q a t) \<Longrightarrow> swp m Q s"
  by (auto simp: swp_def split: prod.splits option.splits outcome.splits)

lemma swp_trivial: "swp m (\<lambda>_ _. True) s"
  by (rule swpI) simp

text \<open>A run that passed, step by step.\<close>

lemma sbind_Passed: "sbind m f s = (Some (Passed b), t) \<longleftrightarrow> (\<exists>a u. m s = (Some (Passed a), u) \<and> f a u = (Some (Passed b), t))"
  by (auto simp: sbind_def split: prod.splits option.splits outcome.splits)

lemma sthen_Passed: "sthen m n s = (Some (Passed b), t) \<longleftrightarrow> (\<exists>a u. m s = (Some (Passed a), u) \<and> n u = (Some (Passed b), t))"
  by (simp add: sthen_def sbind_Passed)

lemma sjudge_Passed: "sjudge j s = (Some (Passed b), t) \<longleftrightarrow> j = Passed b \<and> t = s"
  by (auto simp: sjudge_def)

lemma judge_res_Passed: "judge_res r = Passed a \<longleftrightarrow> r = Inr a"
  by (cases r) auto

lemmas script_passes = sbind_Passed sthen_Passed sjudge_Passed judge_res_Passed

section \<open>Relations along a run\<close>

definition skeeps :: "('s \<Rightarrow> 's \<Rightarrow> bool) \<Rightarrow> ('s, 'a) script \<Rightarrow> bool" where
  "skeeps R m \<longleftrightarrow> (\<forall>s. R s (snd (m s)))"

lemma skeepsD: "skeeps R m \<Longrightarrow> m s = (r, t) \<Longrightarrow> R s t"
  unfolding skeeps_def by (metis snd_conv)

lemma skeeps_swp: "skeeps R m \<Longrightarrow> swp m (\<lambda>_. R s) s"
  by (rule swpI) (rule skeepsD)

context run_rel begin

lemma skeeps_sjudge: "skeeps R (sjudge j)"
  by (simp add: skeeps_def sjudge_def refl)

lemma skeeps_sget: "skeeps R (sget f)"
  by (simp add: skeeps_def sget_def refl)

lemma skeeps_sput: "(\<And>s. R s (f s)) \<Longrightarrow> skeeps R (sput f)"
  by (simp add: skeeps_def sput_def)

lemma skeeps_clock: "(\<And>s. R s (wt_read w s)) \<Longrightarrow> skeeps R (clock_ns w)"
  by (simp add: skeeps_def clock_ns_def)

lemma skeeps_poll: "(\<And>s. R s (wt_read w s)) \<Longrightarrow> skeeps R (poll_exit w)"
  by (simp add: skeeps_def poll_exit_def)

lemma skeeps_sbind: "skeeps R m \<Longrightarrow> (\<And>a. skeeps R (f a)) \<Longrightarrow> skeeps R (sbind m f)"
  unfolding skeeps_def sbind_def
  by (auto split: prod.splits option.splits outcome.splits) (metis snd_conv trans)+

lemma skeeps_sthen: "skeeps R m \<Longrightarrow> skeeps R n \<Longrightarrow> skeeps R (sthen m n)"
  by (simp add: sthen_def skeeps_sbind)

lemma skeeps_swhen: "skeeps R m \<Longrightarrow> skeeps R (swhen b m)"
  by (simp add: swhen_def skeeps_sjudge)

lemma skeeps_if: "(b \<Longrightarrow> skeeps R m) \<Longrightarrow> (\<not> b \<Longrightarrow> skeeps R n) \<Longrightarrow> skeeps R (if b then m else n)"
  by simp

lemma skeeps_option: "(v = None \<Longrightarrow> skeeps R m) \<Longrightarrow> (\<And>a. skeeps R (f a)) \<Longrightarrow> skeeps R (case v of None \<Rightarrow> m | Some a \<Rightarrow> f a)"
  by (cases v) simp_all

lemma skeeps_prod: "(\<And>a b. skeeps R (f a b)) \<Longrightarrow> skeeps R (case_prod f v)"
  by (cases v) simp

lemma skeeps_on_timeout: "skeeps R m \<Longrightarrow> skeeps R h \<Longrightarrow> skeeps R (on_timeout m h)"
  unfolding skeeps_def
proof
  fix s assume "\<forall>s. R s (snd (m s))" "\<forall>s. R s (snd (h s))"
  then show "R s (snd (on_timeout m h s))" using on_timeout_cases [of m h s] by (metis snd_conv trans)
qed

lemma skeeps_guarded:
  fixes body :: "('s, 'a) script"
  assumes chk: "skeeps R chk" and body: "skeeps R body"
  shows "skeeps R (guarded chk body)"
  unfolding skeeps_def
proof
  fix s
  have "R t (snd (sbind chk (\<lambda>_. sjudge (Inconclusive d :: 'a judged)) t))" for t and d :: "string \<times> string"
    using skeeps_sbind [OF chk skeeps_sjudge, of "\<lambda>_. Inconclusive d :: 'a judged"] by (simp add: skeeps_def)
  then show "R s (snd (guarded chk body s))" using guarded_cases [of chk body s] body unfolding skeeps_def by (metis snd_conv trans)
qed

lemma skeeps_met: "skeeps R p \<Longrightarrow> skeeps R (met p)"
  unfolding met_def by (intro skeeps_sbind skeeps_sjudge)

lemmas skeeps_flow = skeeps_sjudge skeeps_sget skeeps_sbind skeeps_sthen skeeps_swhen skeeps_if skeeps_option skeeps_prod
  skeeps_on_timeout skeeps_guarded skeeps_met

lemma skeeps_act:
  "(\<And>s. R s (wt_read w s)) \<Longrightarrow> (\<And>a. act = Some a \<Longrightarrow> skeeps R a) \<Longrightarrow> skeeps R (act_if_due w act l)"
  unfolding act_if_due_def by (cases act) (auto intro!: skeeps_flow skeeps_clock)

lemma skeeps_loop:
  assumes "\<And>s. R s (wt_read w s)" and "\<And>s. R s (wt_nap w s)" and "skeeps R p" and "\<And>a. act = Some a \<Longrightarrow> skeeps R a"
  shows "skeeps R (await_loop w n p deadline description act l)"
proof (induction n arbitrary: l)
  case 0
  show ?case by (simp add: skeeps_def refl)
next
  case (Suc n)
  show ?case unfolding await_loop.simps
    by (intro skeeps_flow skeeps_clock skeeps_poll skeeps_sput skeeps_act assms Suc)
qed

lemma skeeps_await:
  assumes "\<And>s. R s (wt_read w s)" and "\<And>s. R s (wt_nap w s)" and "skeeps R p" and "\<And>a. act = Some a \<Longrightarrow> skeeps R a"
  shows "skeeps R (await w p timeout description act)"
  unfolding await_def by (intro skeeps_flow skeeps_clock skeeps_loop assms)

text \<open>A wait that passed ran its predicate to the value it returns, from a state the run had reached.\<close>

lemma script_found:
  assumes R: "\<And>s. R s (wt_read w s)" "\<And>s. R s (wt_nap w s)" "skeeps R p" "\<And>a. act = Some a \<Longrightarrow> skeeps R a"
  shows "await_loop w n p deadline description act l s = (Some (Passed a), t) \<Longrightarrow>
    \<exists>u v. R s u \<and> p u = (Some (Passed (Some a)), v) \<and> t = wt_read w v"
proof (induction n arbitrary: l s)
  case 0
  then show ?case by simp
next
  case (Suc n)
  let ?s1 = "wt_read w s" let ?s2 = "wt_read w ?s1"
  have s2: "R s ?s2" using R(1) trans by blast
  obtain r s3 where p: "p ?s2 = (r, s3)" by (cases "p ?s2")
  have s3: "R s s3" using skeepsD [OF R(3) p] s2 trans by blast
  show ?case
  proof (cases r)
    case None
    then show ?thesis using Suc.prems p by (auto simp: sbind_def clock_ns_def poll_exit_def sjudge_def split: if_splits)
  next
    case (Some j)
    show ?thesis
    proof (cases j)
      case (Passed f)
      show ?thesis
      proof (cases f)
        case None
        obtain q s4 where a: "act_if_due w act l s3 = (q, s4)" by (cases "act_if_due w act l s3")
        have "R s3 s4" by (rule skeepsD [OF skeeps_act a]) (auto intro: R)
        from Suc.prems p Some Passed None a obtain l' where
          "await_loop w n p deadline description act l' (wt_nap w s4) = (Some (Passed a), t)"
          by (auto simp: sbind_def clock_ns_def poll_exit_def sjudge_def sthen_def sput_def split: if_splits option.splits outcome.splits)
        from Suc.IH [OF this] obtain u v where "R (wt_nap w s4) u" "p u = (Some (Passed (Some a)), v)" "t = wt_read w v" by blast
        then show ?thesis using s3 \<open>R s3 s4\<close> R(2) trans by blast
      next
        case (Some b)
        then have "a = b \<and> t = wt_read w s3" using Suc.prems p \<open>r = Some j\<close> Passed
          by (auto simp: sbind_def clock_ns_def poll_exit_def sjudge_def sthen_def split: if_splits)
        then show ?thesis using s2 p Some \<open>r = Some j\<close> Passed by blast
      qed
    qed (use Suc.prems p Some in \<open>auto simp: sbind_def clock_ns_def poll_exit_def sjudge_def split: if_splits\<close>)
  qed
qed

lemma await_found:
  assumes "\<And>s. R s (wt_read w s)" and "\<And>s. R s (wt_nap w s)" and "skeeps R p" and "\<And>a. act = Some a \<Longrightarrow> skeeps R a"
    and "await w p timeout description act s = (Some (Passed a), t)"
  shows "\<exists>u v. R s u \<and> p u = (Some (Passed (Some a)), v) \<and> t = wt_read w v"
proof -
  from assms(5) obtain d where "await_loop w (wt_fuel w) p d description act 0 (wt_read w s) = (Some (Passed a), t)"
    by (auto simp: await_def sbind_def clock_ns_def)
  from script_found [OF assms(1-4) this] obtain u v where "R (wt_read w s) u" "p u = (Some (Passed (Some a)), v)" "t = wt_read w v" by blast
  then show ?thesis using assms(1) trans by blast
qed

lemma swp_await:
  assumes "\<And>s. R s (wt_read w s)" and "\<And>s. R s (wt_nap w s)" and "skeeps R p" and "\<And>a. act = Some a \<Longrightarrow> skeeps R a"
    and "\<And>u. R s u \<Longrightarrow> swp p (\<lambda>f v. case f of None \<Rightarrow> True | Some a \<Rightarrow> Q a (wt_read w v)) u"
  shows "swp (await w p timeout description act) Q s"
proof (rule swpI)
  fix a t assume "await w p timeout description act s = (Some (Passed a), t)"
  from await_found [OF assms(1-4) this] obtain u v where "R s u" "p u = (Some (Passed (Some a)), v)" "t = wt_read w v" by blast
  then show "Q a t" using swpD [OF assms(5)] by fastforce
qed

end

section \<open>Termination\<close>

definition returns :: "('s, 'a) script \<Rightarrow> bool" where
  "returns m \<longleftrightarrow> (\<forall>s. fst (m s) \<noteq> None)"

lemma returnsD: "returns m \<Longrightarrow> m s = (r, t) \<Longrightarrow> r \<noteq> None"
  unfolding returns_def by (metis fst_conv)

lemma returns_basic: "returns (sjudge j)" "returns (sget f)" "returns (sput g)" "returns (clock_ns w)" "returns (poll_exit w)"
  by (simp_all add: returns_def sjudge_def sget_def sput_def clock_ns_def poll_exit_def)

lemma returns_sbind: "returns m \<Longrightarrow> (\<And>a. returns (f a)) \<Longrightarrow> returns (sbind m f)"
  unfolding returns_def
proof
  fix s assume m: "\<forall>s. fst (m s) \<noteq> None" and f: "\<And>a. \<forall>s. fst (f a s) \<noteq> None"
  obtain r t where "m s = (r, t)" by (cases "m s")
  moreover then obtain j where "r = Some j" using m [THEN spec, of s] by auto
  ultimately show "fst (sbind m f s) \<noteq> None" using f by (cases j) (simp_all add: sbind_def)
qed

lemma returns_sthen: "returns m \<Longrightarrow> returns n \<Longrightarrow> returns (sthen m n)"
  by (simp add: sthen_def returns_sbind)

lemma returns_swhen: "returns m \<Longrightarrow> returns (swhen b m)"
  by (simp add: swhen_def returns_basic)

lemma returns_if: "(b \<Longrightarrow> returns m) \<Longrightarrow> (\<not> b \<Longrightarrow> returns n) \<Longrightarrow> returns (if b then m else n)"
  by simp

lemma returns_option: "(v = None \<Longrightarrow> returns m) \<Longrightarrow> (\<And>a. returns (f a)) \<Longrightarrow> returns (case v of None \<Rightarrow> m | Some a \<Rightarrow> f a)"
  by (cases v) simp_all

lemma returns_prod: "(\<And>a b. returns (f a b)) \<Longrightarrow> returns (case_prod f v)"
  by (cases v) simp

lemma returns_on_timeout: "returns m \<Longrightarrow> returns h \<Longrightarrow> returns (on_timeout m h)"
  unfolding returns_def by (metis on_timeout_cases)

lemma returns_guarded:
  fixes body :: "('s, 'a) script"
  assumes chk: "returns chk" and body: "returns body"
  shows "returns (guarded chk body)"
  unfolding returns_def
proof
  fix s
  have "fst (sbind chk (\<lambda>_. sjudge (Inconclusive d :: 'a judged)) t) \<noteq> None" for t and d :: "string \<times> string"
    using returns_sbind [OF chk returns_basic(1), of "\<lambda>_. Inconclusive d :: 'a judged"] by (simp add: returns_def)
  then show "fst (guarded chk body s) \<noteq> None" using guarded_cases [of chk body s] body unfolding returns_def by metis
qed

lemma returns_met: "returns p \<Longrightarrow> returns (met p)"
  unfolding met_def by (intro returns_sbind returns_basic)

lemmas returns_flow = returns_basic returns_sbind returns_sthen returns_swhen returns_if returns_option returns_prod
  returns_on_timeout returns_guarded returns_met

lemma returns_act: "(\<And>a. act = Some a \<Longrightarrow> returns a) \<Longrightarrow> returns (act_if_due w act l)"
  unfolding act_if_due_def by (cases act) (auto intro!: returns_flow)

text \<open>The clock does not go back along \<open>R\<close>, and a sleep takes its ten milliseconds.\<close>

definition ticking :: "('s \<Rightarrow> 's \<Rightarrow> bool) \<Rightarrow> 's waiter \<Rightarrow> bool" where
  "ticking R w \<longleftrightarrow> (\<forall>s t. R s t \<longrightarrow> wt_clock w s \<le> wt_clock w t) \<and> (\<forall>s. R s (wt_read w s) \<and> R s (wt_nap w s)) \<and>
     (\<forall>s. wt_clock w s + 10000000 \<le> wt_clock w (wt_nap w s))"

context run_rel begin

lemma script_waits:
  assumes "ticking R w" and p: "skeeps R p" "returns p" and act: "\<And>a. act = Some a \<Longrightarrow> skeeps R a \<and> returns a"
  shows "fst (await_loop w (Suc n) p deadline description act l s) = None \<Longrightarrow> wt_clock w s + 10000000 * int n < deadline"
proof (induction n arbitrary: l s)
  case 0
  then show ?case by (auto simp: sbind_def clock_ns_def sjudge_def split: if_splits)
next
  case (Suc n)
  have t: "\<And>s. R s (wt_read w s)" "\<And>s. R s (wt_nap w s)" "\<And>s t. R s t \<Longrightarrow> wt_clock w s \<le> wt_clock w t"
    "\<And>s. wt_clock w s + 10000000 \<le> wt_clock w (wt_nap w s)" using assms(1) by (auto simp: ticking_def)
  let ?s2 = "wt_read w (wt_read w s)"
  obtain r s3 where 1: "p ?s2 = (r, s3)" by (cases "p ?s2")
  obtain q s4 where 2: "act_if_due w act l s3 = (q, s4)" by (cases "act_if_due w act l s3")
  have "returns (act_if_due w act l)" using act by (intro returns_act) blast
  then have "r \<noteq> None" "q \<noteq> None" using p(2) 1 2 by (metis fst_conv returns_def)+
  with Suc.prems 1 2 obtain l' where "fst (await_loop w (Suc n) p deadline description act l' (wt_nap w s4)) = None"
    unfolding await_loop.simps(2) [of w "Suc n"]
    by (auto simp: sbind_def clock_ns_def poll_exit_def sjudge_def sthen_def sput_def
        simp del: await_loop.simps split: if_splits option.splits outcome.splits)
  from Suc.IH [OF this] have "wt_clock w (wt_nap w s4) + 10000000 * int n < deadline" .
  moreover have "R s s4"
  proof -
    have "skeeps R (act_if_due w act l)" using act t(1) by (intro skeeps_act) blast+
    from skeepsD [OF this 2] skeepsD [OF p(1) 1] show ?thesis using t(1) trans by blast
  qed
  then have "wt_clock w s + 10000000 \<le> wt_clock w (wt_nap w s4)" using t(3,4) by (meson add_right_mono order_trans)
  ultimately show ?case by simp
qed

lemma returns_await:
  assumes tick: "ticking R w" and p: "skeeps R p" "returns p" and act: "\<And>a. act = Some a \<Longrightarrow> skeeps R a \<and> returns a"
    and fuel: "0 < wt_fuel w" "timeout + 10000000 \<le> 10000000 * int (wt_fuel w)"
  shows "returns (await w p timeout description act)"
  unfolding returns_def
proof (intro allI notI)
  fix s assume *: "fst (await w p timeout description act s) = None"
  obtain n where n: "wt_fuel w = Suc n" using fuel(1) by (cases "wt_fuel w") auto
  have "fst (await_loop w (Suc n) p (wt_clock w s + timeout) description act 0 (wt_read w s)) = None"
    using * by (simp add: await_def sbind_def clock_ns_def n del: await_loop.simps)
  from script_waits [OF tick p act this] have "wt_clock w (wt_read w s) + 10000000 * int n < wt_clock w s + timeout" by simp
  moreover have "wt_clock w s \<le> wt_clock w (wt_read w s)" using tick by (simp add: ticking_def)
  ultimately show False using fuel(2) n by simp
qed

end

end
