(* ===== verification/Probe_Issuer.thy ===== *)
theory Probe_Issuer
  imports Live_Script Gate_Node Gazebo_World
begin

text \<open>
  The issuer of the controller-permit probes (\<^verbatim>\<open>ros/gazebo/controller_probes.py\<close>): measured worlds,
  approvals by an independent Rust fixture, the permits signed from them and the packets sent through the
  compromised relay. The clocks, the observations of the executor thread, the child processes and the
  fixture's pipe come from an environment, indexed by the sleeps and the readings made so far; an
  expression that reads the observer reads one observation. The engine's ages, expiries and durations are
  integers or null and its positions are numbers. Timing samples, which decide no verdict, are not kept.
\<close>

section \<open>Environment and state\<close>

record probe_seen =
  se_odom :: "odom_msg option"
  se_odom_at :: int
  se_joint :: "joint_msg option"
  se_joint_at :: int
  se_measured :: "joint_msg list"
  se_base :: "row list"
  se_arm :: "row list"

record probe_env =
  ce_wall :: "nat \<Rightarrow> nat \<Rightarrow> int"
  ce_sim :: "nat \<Rightarrow> int"
  ce_seen :: "nat \<Rightarrow> probe_seen"
  ce_exited :: "nat \<Rightarrow> (string \<times> int) option"
  ce_pipe :: "nat \<Rightarrow> bool \<times> bool \<times> read_event list"
  ce_fixture :: "int \<Rightarrow> string \<times> counter_file \<times> (string \<times> seed_file) list"
  ce_resets :: "nat \<Rightarrow> int list"
  ce_fuel :: nat
  ce_euid :: int
  ce_loads :: "string \<Rightarrow> pyval res"
  ce_dumps :: "pyval \<Rightarrow> string res"
  ce_pub :: "string \<Rightarrow> string"
  ce_ed_sign :: "string \<Rightarrow> string \<Rightarrow> string"
  ce_sha :: "string \<Rightarrow> string"
  ce_permit_ed :: "string \<Rightarrow> string"
  ce_atan2 :: "rat \<Rightarrow> rat \<Rightarrow> rat"
  ce_dist :: "point \<Rightarrow> point \<Rightarrow> rat"
  ce_sorted :: "pyval \<Rightarrow> string"

text \<open>A packet as the relay's stand-in publishes it: its parts are separate topics.\<close>

record base_data =
  bd_stamp :: int
  bd_linear :: float64
  bd_angular :: float64
  bd_permit :: string

record arm_data =
  ad_joints :: "string list"
  ad_stamp :: int
  ad_points :: "(float64 list \<times> int) list"
  ad_permit :: string

record packet =
  pk_base :: "base_data option"
  pk_arm :: "arm_data option"
  pk_heartbeat :: "string option"

text \<open>The variables \<^verbatim>\<open>exercise\<close> keeps across its functions; \<open>pb_chain\<close> is the grant chain of the running attempt.\<close>

record probes =
  pb_sleeps :: nat
  pb_reads :: nat
  pb_permits :: permit_signer
  pb_issuer :: "(signer \<times> string) option"
  pb_fixture :: int
  pb_proposal :: int
  pb_packet :: int
  pb_reset :: int
  pb_sent :: "(int \<times> packet) list"
  pb_chain :: grant_chain

definition probe_waiter :: "probe_env \<Rightarrow> probes waiter" where
  "probe_waiter e = \<lparr>wt_clock = (\<lambda>s. ce_wall e (pb_sleeps s) (pb_reads s)), wt_exited = (\<lambda>s. ce_exited e (pb_reads s)),
     wt_read = (\<lambda>s. s\<lparr>pb_reads := Suc (pb_reads s)\<rparr>), wt_nap = (\<lambda>s. s\<lparr>pb_sleeps := Suc (pb_sleeps s)\<rparr>), wt_fuel = ce_fuel e\<rparr>"

definition wall_ns :: "probe_env \<Rightarrow> (probes, int) script" where
  "wall_ns e = clock_ns (probe_waiter e)"

definition reading :: "(nat \<Rightarrow> 'a) \<Rightarrow> (probes, 'a) script" where
  "reading f = sbind (sget (\<lambda>s. f (pb_reads s))) (\<lambda>v. sthen (sput (\<lambda>s. s\<lparr>pb_reads := Suc (pb_reads s)\<rparr>)) (sret v))"

text \<open>\<^verbatim>\<open>now\<close>, in milliseconds\<close>

definition probe_now :: "probe_env \<Rightarrow> (probes, int) script" where
  "probe_now e = reading (\<lambda>i. ce_sim e i div 1000000)"

definition look :: "probe_env \<Rightarrow> (probes, probe_seen) script" where
  "look e = reading (ce_seen e)"

definition probe_wait :: "probe_env \<Rightarrow> (probes, 'a option) script \<Rightarrow> int \<Rightarrow> string \<Rightarrow> (probes, unit) script option \<Rightarrow> (probes, 'a) script" where
  "probe_wait e p timeout_ns description act = await (probe_waiter e) p timeout_ns description act"

section \<open>Measured feedback\<close>

definition within_age :: "int \<Rightarrow> int \<Rightarrow> int \<Rightarrow> bool" where
  "within_age limit t received \<longleftrightarrow> 0 \<le> t - received \<and> t - received < limit"

text \<open>\<^verbatim>\<open>math.isfinite(v) and abs(v) < .03\<close>\<close>

definition probe_slow :: "float64 \<Rightarrow> bool" where
  "probe_slow w \<longleftrightarrow> isfinite w \<and> \<bar>f_val w\<bar> < f_val 0x3F9EB851EB851EB8"

definition velocity_of :: "joint_msg \<Rightarrow> string \<Rightarrow> float64 option" where
  "velocity_of m name =
     (let i = length (takeWhile (\<lambda>n. n \<noteq> name) (jm_names m)) in
      if name \<in> set (jm_names m) \<and> i < length (jm_velocity m) then Some (jm_velocity m ! i) else None)"

text \<open>\<^verbatim>\<open>stopped\<close>\<close>

definition feedback_stopped :: "probe_seen \<Rightarrow> int \<Rightarrow> bool" where
  "feedback_stopped o' t =
     (case (se_joint o', se_odom o') of
        (Some jm, Some om) \<Rightarrow>
          within_age 100000000 t (se_joint_at o') \<and> within_age 100000000 t (se_odom_at o') \<and> probe_slow (om_linear om) \<and> probe_slow (om_angular om) \<and>
          list_all (\<lambda>j. case velocity_of jm j of None \<Rightarrow> False | Some v \<Rightarrow> probe_slow v) ARM_JOINTS
      | _ \<Rightarrow> False)"

definition stopped :: "probe_env \<Rightarrow> (probes, bool) script" where
  "stopped e = sbind (look e) (\<lambda>o'. sbind (wall_ns e) (\<lambda>t. sret (feedback_stopped o' t)))"

definition to_double :: "rat \<Rightarrow> float64" where
  "to_double q = (case double_of_rat q of Inr w \<Rightarrow> w | Inl _ \<Rightarrow> if q < 0 then 0xFFF0000000000000 else 0x7FF0000000000000)"

text \<open>\<^verbatim>\<open>c + x\<close> for a finite double \<^verbatim>\<open>c\<close>\<close>

definition shifted :: "float64 \<Rightarrow> float64 \<Rightarrow> float64" where
  "shifted c x = (if isfinite x then to_double (f_val c + f_val x) else x)"

definition measured_joint :: "joint_msg \<Rightarrow> string \<Rightarrow> pyval res" where
  "measured_joint m name =
     rbind (joint_position m name) (\<lambda>p.
     case velocity_of m name of
       None \<Rightarrow> Inl IndexError
     | Some v \<Rightarrow> Inr (PDict [(''name'', PStr name), (''position'', PFloat p), (''velocity'', PFloat v)]))"

definition measured_stamp :: "odom_msg \<Rightarrow> joint_msg \<Rightarrow> int" where
  "measured_stamp om jm = min (odom_stamp om) (joint_stamp jm)"

text \<open>\<^verbatim>\<open>measured_world\<close>\<close>

definition measured_world :: "(rat \<Rightarrow> rat \<Rightarrow> rat) \<Rightarrow> odom_msg \<Rightarrow> joint_msg \<Rightarrow> pyval res" where
  "measured_world atan2 om jm =
     rbind (rmap (measured_joint jm) ARM_JOINTS) (\<lambda>joints.
     Inr (PDict [(''stamp_ms'', PInt (measured_stamp om jm)),
       (''robot'', PDict [
         (''pose'', PDict [(''x'', PFloat (shifted 0x4014000000000000 (om_x om))), (''y'', PFloat (shifted 0x4014000000000000 (om_y om)))]),
         (''yaw'', PFloat (to_double (heading_of atan2 om))),
         (''twist'', PDict [(''linear'', PFloat (om_linear om)), (''angular'', PFloat (om_angular om))]),
         (''joints'', PList joints)]),
       (''humans'', PList []), (''confidence'', PFloat 0x3FF0000000000000)]))"

text \<open>\<^verbatim>\<open>world_snapshot\<close>\<close>

definition fresh_feedback :: "probe_env \<Rightarrow> (probes, bool) script" where
  "fresh_feedback e =
     sbind (wall_ns e) (\<lambda>t. sbind (look e) (\<lambda>o'.
     if \<not> within_age 50000000 t (se_joint_at o') then sret False
     else sbind (wall_ns e) (\<lambda>t'. sbind (look e) (\<lambda>o''. sret (within_age 50000000 t' (se_odom_at o''))))))"

definition measure :: "probe_env \<Rightarrow> probe_seen \<Rightarrow> pyval res" where
  "measure e o' = (case (se_odom o', se_joint o') of
     (Some om, Some jm) \<Rightarrow> measured_world (ce_atan2 e) om jm
   | _ \<Rightarrow> Inl AttributeError)"

definition world_snapshot :: "probe_env \<Rightarrow> (probes, pyval) script" where
  "world_snapshot e =
     sthen (probe_wait e (met (fresh_feedback e)) 2000000000 ''fresh measured controller probe world'' None)
     (sbind (look e) (\<lambda>o'. slift (measure e o')))"

section \<open>The fixture issuer\<close>

text \<open>\<^verbatim>\<open>require_world_accepted\<close>\<close>

definition require_world_accepted :: "pyval \<Rightarrow> pyval \<Rightarrow> unit judged" where
  "require_world_accepted step snapshot =
     judge_res (rbind (or_get step ''outcome'') (\<lambda>o'. rbind (dget o' ''world_updated'') (\<lambda>updated.
       rbind (dix snapshot ''stamp_ms'') (\<lambda>stamp.
       if \<not> is_dict updated \<or> as_int (getf (dict_or_empty updated) ''stamp_ms'') = None \<or> getf (dict_or_empty updated) ''stamp_ms'' \<noteq> stamp
       then Inl (AssertionError ''controller probe measured world was not accepted'') else Inr ()))))"

definition issuer_sign :: "probe_env \<Rightarrow> string \<Rightarrow> pyval \<Rightarrow> (probes, envelope) script" where
  "issuer_sign e role payload s =
     (case pb_issuer s of
        None \<Rightarrow> (Some (Raised AttributeError), s)
      | Some (source, buf) \<Rightarrow>
          (case sign (ce_dumps e) (ce_ed_sign e) role payload source of
             (r, source') \<Rightarrow> (Some (judge_res r), s\<lparr>pb_issuer := Some (source', buf)\<rparr>)))"

text \<open>Only the fixture's response bound is a delay of the runner.\<close>

definition fixture_answer :: "pyval res \<Rightarrow> pyval judged" where
  "fixture_answer r = (case r of
     Inl (BridgeFailure m) \<Rightarrow>
       if m = ''gate response timeout'' then delay ''fixture issuer'' ''fixture_issuer_response_timeout'' else Raised (BridgeFailure m)
   | _ \<Rightarrow> judge_res r)"

definition issuer_ask :: "probe_env \<Rightarrow> pyval \<Rightarrow> (probes, pyval) script" where
  "issuer_ask e message =
     sbind (reading (ce_pipe e)) (\<lambda>(alive, writable, evs) s.
     case pb_issuer s of
       None \<Rightarrow> (Some (Raised AttributeError), s)
     | Some (source, buf) \<Rightarrow>
         (case Bridge.request (ce_loads e) (ce_dumps e) alive writable evs message buf of
            (r, buf') \<Rightarrow> (Some (fixture_answer r), s\<lparr>pb_issuer := Some (source, buf')\<rparr>)))"

text \<open>\<^verbatim>\<open>feed\<close>\<close>

definition feed :: "probe_env \<Rightarrow> string \<Rightarrow> pyval \<Rightarrow> (probes, pyval) script" where
  "feed e role payload =
     sbind (issuer_sign e role payload) (\<lambda>env.
     sbind (probe_now e) (\<lambda>t.
     sbind (slift (ce_dumps e (envelope_val env))) (\<lambda>data.
     issuer_ask e (PDict [(''k'', PStr ''signed''), (''t'', PInt t), (''data'', PStr data)]))))"

text \<open>\<^verbatim>\<open>budget\<close>, in nanoseconds: what is left of the engine's authority at simulation time \<open>sim\<close>.\<close>

definition budget_ms :: "pyval \<Rightarrow> int \<Rightarrow> int res" where
  "budget_ms step sim =
     rbind (dix step ''status'') (\<lambda>status.
     rbind (rbind (dix status ''world_age_ms'') need_int) (\<lambda>age.
     rbind (dget status ''active_expires_ms'') (\<lambda>ev.
     let r = min 200 (200 - age) in
     if ev = PNone then Inr r else rbind (need_int ev) (\<lambda>expires. Inr (min r (expires - sim div 1000000))))))"

definition budget :: "pyval \<Rightarrow> int \<Rightarrow> int judged" where
  "budget step sim =
     obind (judge_res (budget_ms step sim)) (\<lambda>r.
     if r \<le> 0 then delay ''rust budget'' ''rust_authority_expired_before_signing'' else Passed (r * 1000000))"

section \<open>Approval\<close>

definition fixture_proposal :: "int \<Rightarrow> int \<Rightarrow> pyval \<Rightarrow> pyval" where
  "fixture_proposal n t action = PDict [(''id'', PInt n), (''source'', PStr ''vla''), (''timestamp_ms'', PInt t), (''action'', action)]"

text \<open>The handler of a stale answer: late or expired is a delay of the runner, malformed fails.\<close>

definition well_formed_status :: "pyval \<Rightarrow> bool res" where
  "well_formed_status step =
     rbind (status_of step) (\<lambda>status.
     rand [rbind (dget status ''active_expires_ms'') (\<lambda>v. Inr (as_int v \<noteq> None)),
           rbind (dget status ''world_age_ms'') (\<lambda>v. Inr (as_int v \<noteq> None))])"

definition judge_approval :: "pyval \<Rightarrow> rat \<Rightarrow> int \<Rightarrow> unit judged" where
  "judge_approval step elapsed t =
     (case require_fresh_actuation step elapsed t 200 50 of
        Inr u \<Rightarrow> Passed ()
      | Inl x \<Rightarrow>
          if \<not> is_StaleActuation x then Raised x
          else obind (judge_res (well_formed_status step)) (\<lambda>ok.
            if ok \<and> (50 \<le> elapsed \<or> (case x of ExpiredActuation _ \<Rightarrow> True | _ \<Rightarrow> False))
            then delay ''rust approval'' ''stale_or_expired_rust_approval'' else Raised x))"

text \<open>The engine approved the action that was asked for.\<close>

definition confirm_action :: "pyval \<Rightarrow> pyval \<Rightarrow> unit judged" where
  "confirm_action action step =
     judge_res (rbind (dix action ''type'') (\<lambda>kind.
       if kind = PStr ''velocity'' then
         rbind (cmd_field step ''linear'') (\<lambda>l. rbind (dix action ''linear'') (\<lambda>a.
         if \<not> pyeq l a then Inl (AssertionError ''Rust base positive control denied'') else Inr ()))
       else if kind = PStr ''joint_trajectory'' then
         rbind (dget step ''arm'') (\<lambda>arm. if \<not> is_dict arm then Inl (AssertionError ''Rust arm positive control denied'') else Inr ())
       else Inr ()))"

text \<open>\<^verbatim>\<open>max((end - begin)/1e6, now() - stamp)\<close>\<close>

definition round_trip_ms :: "int \<Rightarrow> int \<Rightarrow> int \<Rightarrow> int \<Rightarrow> rat" where
  "round_trip_ms begin_ns end_ns stamp_ms t_ms = max (of_int (end_ns - begin_ns) / 1000000) (of_int (t_ms - stamp_ms))"

definition admit_world :: "probe_env \<Rightarrow> (probes, unit) script" where
  "admit_world e =
     sbind (world_snapshot e) (\<lambda>snapshot.
     sbind (feed e ''world'' snapshot) (\<lambda>step. sjudge (require_world_accepted step snapshot)))"

text \<open>\<^verbatim>\<open>approve\<close>: the simulation and the wall clock the proposal started from, and the engine's answer.\<close>

definition approve_probe :: "probe_env \<Rightarrow> pyval \<Rightarrow> (probes, int \<times> int \<times> pyval) script" where
  "approve_probe e action =
     sthen (admit_world e)
     (sthen (sput (\<lambda>s. s\<lparr>pb_proposal := pb_proposal s + 1\<rparr>))
     (sbind (wall_ns e) (\<lambda>begin.
      sbind (probe_now e) (\<lambda>stamp.
      sbind (sget pb_proposal) (\<lambda>n.
      sbind (feed e ''vla'' (fixture_proposal n stamp action)) (\<lambda>step.
      sbind (wall_ns e) (\<lambda>t1.
      sbind (probe_now e) (\<lambda>t2.
      sbind (probe_now e) (\<lambda>t3.
      sthen (sjudge (judge_approval step (round_trip_ms begin t1 stamp t2) t3))
      (sthen (sjudge (confirm_action action step))
      (sret (stamp * 1000000, begin, step))))))))))))"

section \<open>Permits\<close>

text \<open>\<^verbatim>\<open>token\<close>\<close>

definition token :: "probe_env \<Rightarrow> string \<Rightarrow> string \<Rightarrow> string \<Rightarrow> int \<Rightarrow> int \<Rightarrow> int \<Rightarrow> (probes, string) script" where
  "token e target kind digest sim wall remaining s =
     (case ps_sign target kind digest sim remaining wall (pb_permits s) of
        (Inl x, g) \<Rightarrow> (Some (Raised x), s\<lparr>pb_permits := g\<rparr>)
      | (Inr p, g) \<Rightarrow> (Some (Passed (permit_token (ce_permit_ed e) p)), s\<lparr>pb_permits := g\<rparr>))"

text \<open>\<^verbatim>\<open>stale_permit\<close>: both signed origins are 60 ms old and the lease is full.\<close>

definition stale_permit :: "probe_env \<Rightarrow> string \<Rightarrow> string \<Rightarrow> string \<Rightarrow> string \<Rightarrow> (probes, string \<times> permit_view) script" where
  "stale_permit e target kind digest stage =
     sbind (probe_now e) (\<lambda>sim.
     sbind (wall_ns e) (\<lambda>wall.
     sbind (token e target kind digest (sim * 1000000 + SIM_ORDERING_BACKDATE_NS - 60000000) (wall - 60000000) MAX_LEASE_NS) (\<lambda>permit.
     sbind (slift (permit_fields (PStr permit))) (\<lambda>fields.
     sbind (wall_ns e) (\<lambda>t.
     sbind (probe_now e) (\<lambda>n.
     sthen (sjudge (require_stale_window stage fields t (n * 1000000)))
     (sret (permit, fields))))))))"

section \<open>Packets\<close>

definition send_packet :: "packet \<Rightarrow> (probes, unit) script" where
  "send_packet p = sput (\<lambda>s. s\<lparr>pb_packet := pb_packet s + 1, pb_sent := pb_sent s @ [(pb_packet s + 1, p)]\<rparr>)"

text \<open>\<^verbatim>\<open>require_timely\<close>\<close>

definition require_timely :: "probe_env \<Rightarrow> string \<Rightarrow> string \<Rightarrow> (probes, permit_view) script" where
  "require_timely e permit stage =
     sbind (slift (permit_fields (PStr permit))) (\<lambda>fields.
     sbind (wall_ns e) (\<lambda>wall.
     sbind (probe_now e) (\<lambda>n.
     sthen (sjudge (check_timely stage fields wall (n * 1000000))) (sret fields))))"

text \<open>\<^verbatim>\<open>send_timely\<close>; \<open>chained\<close> says that the attempt's grant chain is passed.\<close>

definition send_timely :: "probe_env \<Rightarrow> packet \<Rightarrow> string \<Rightarrow> string \<Rightarrow> bool \<Rightarrow> (probes, unit) script" where
  "send_timely e p permit stage chained =
     sbind (require_timely e permit stage) (\<lambda>fields.
     sthen (swhen chained
       (sbind (sget pb_chain) (\<lambda>chain.
        sbind (wall_ns e) (\<lambda>wall.
        sbind (probe_now e) (\<lambda>n.
        sthen (sjudge (require_live stage (grant_last chain) wall (n * 1000000)))
        (sput (\<lambda>s. s\<lparr>pb_chain := grant_sent fields (pb_chain s)\<rparr>)))))))
     (send_packet p))"

definition stamp_of_ns :: "int \<Rightarrow> stamp" where
  "stamp_of_ns ns = \<lparr>sec = ns div 1000000000, nanosec = ns mod 1000000000\<rparr>"

definition base_message :: "int \<Rightarrow> float64 \<Rightarrow> command" where
  "base_message ns speed = \<lparr>cmd_twist = forward_twist speed, cmd_stamp = stamp_of_ns ns, cmd_frame = []\<rparr>"

definition PROBE_SPEED :: float64 where "PROBE_SPEED = 0x3FC3333333333333"

definition probe_velocity :: "float64 \<Rightarrow> pyval" where
  "probe_velocity speed = PDict [(''type'', PStr ''velocity''), (''linear'', PFloat speed), (''angular'', PFloat 0), (''ttl_ms'', PInt 200)]"

text \<open>\<^verbatim>\<open>base_packet\<close>, with its defaults\<close>

definition base_packet :: "probe_env \<Rightarrow> (probes, packet) script" where
  "base_packet e =
     sbind (approve_probe e (probe_velocity PROBE_SPEED)) (\<lambda>(sim, wall, step).
     sbind (slift (rbind (cmd_field step ''linear'') py_float)) (\<lambda>speed.
     sbind (slift (base_digest (ce_sha e) (base_message sim speed))) (\<lambda>digest.
     sbind (sjudge (budget step sim)) (\<lambda>remaining.
     sbind (token e ''base'' ''command'' digest sim wall remaining) (\<lambda>permit.
     sret \<lparr>pk_base = Some \<lparr>bd_stamp = sim, bd_linear = speed, bd_angular = 0, bd_permit = permit\<rparr>, pk_arm = None, pk_heartbeat = None\<rparr>)))))"

definition telemetry_rows :: "string \<Rightarrow> probe_seen \<Rightarrow> row list" where
  "telemetry_rows target o' = (if target = ''base'' then se_base o' else se_arm o')"

text \<open>\<^verbatim>\<open>guard\<close>\<close>

definition guard_row :: "string \<Rightarrow> probe_seen \<Rightarrow> row" where
  "guard_row target o' = (let rows = telemetry_rows target o' in if rows = [] then [] else last rows)"

definition guard :: "probe_env \<Rightarrow> string \<Rightarrow> (probes, row) script" where
  "guard e target = sbind (look e) (\<lambda>o'. sret (guard_row target o'))"

definition seen_positions :: "probe_env \<Rightarrow> (probes, float64 list) script" where
  "seen_positions e = sbind (look e) (\<lambda>o'. slift (case se_joint o' of None \<Rightarrow> Inl AttributeError | Some jm \<Rightarrow> arm_positions jm))"

text \<open>The goal turns the first joint by 0.3 rad, away from the side it is on.\<close>

definition turned_goal :: "float64 list \<Rightarrow> float64 list" where
  "turned_goal start = shifted (if val_lt (PFloat 0x3FC999999999999A) (PFloat (hd start)) then 0xBFD3333333333333 else 0x3FD3333333333333) (hd start) # tl start"

definition probe_point :: "int \<Rightarrow> float64 list \<Rightarrow> pyval" where
  "probe_point ms qs = PDict [(''time_from_start_ms'', PInt ms), (''positions'', PList (map PFloat qs))]"

definition goal_action :: "float64 list \<Rightarrow> pyval" where
  "goal_action start = PDict [(''type'', PStr ''joint_trajectory''), (''ttl_ms'', PInt 1000),
     (''points'', PList [probe_point 0 start, probe_point 800 (turned_goal start), probe_point 1000 (turned_goal start)])]"

definition reply_point :: "pyval \<Rightarrow> traj_point res" where
  "reply_point v =
     rbind (rbind (dix v ''positions'') need_list) (\<lambda>qs.
     rbind (rmap py_float qs) (\<lambda>ps.
     rbind (rbind (dix v ''time_from_start_ms'') need_int) (\<lambda>ms.
     Inr \<lparr>positions = ps, velocities = [], accelerations = [], effort = [], time_from_start = stamp_of_ns (ms * 1000000)\<rparr>)))"

text \<open>The trajectory of the engine's approved points.\<close>

definition reply_trajectory :: "pyval \<Rightarrow> trajectory res" where
  "reply_trajectory step =
     rbind (dix step ''arm'') (\<lambda>a. rbind (dix a ''execute'') (\<lambda>x. rbind (rbind (dix x ''points'') need_list) (\<lambda>vs.
     rbind (rmap reply_point vs) (\<lambda>ps.
     Inr \<lparr>joint_names = ARM_JOINTS, points = ps, tstamp = \<lparr>sec = 0, nanosec = 0\<rparr>, frame_id = []\<rparr>))))"

definition arm_data_of :: "trajectory \<Rightarrow> string \<Rightarrow> arm_data" where
  "arm_data_of tr permit = \<lparr>ad_joints = ARM_JOINTS, ad_stamp = 0,
     ad_points = map (\<lambda>p. (positions p, sec (time_from_start p) * 1000000000 + nanosec (time_from_start p))) (points tr), ad_permit = permit\<rparr>"

text \<open>A goal's signed origin is not before the controller's last hold.\<close>

definition await_cutoff :: "probe_env \<Rightarrow> (probes, unit) script" where
  "await_cutoff e =
     sbind (guard e ''arm'') (\<lambda>row.
     case as_int (getf row ''cutoff_ms'') of
       None \<Rightarrow> sret ()
     | Some cutoff \<Rightarrow> probe_wait e (met (sbind (probe_now e) (\<lambda>n. sret (cutoff \<le> n - SIM_ORDERING_BACKDATE_NS div 1000000)))) 1000000000
         ''arm goal origin at or after the controller hold cutoff'' None)"

text \<open>\<^verbatim>\<open>arm_packet\<close>: the packet and the goal's digest\<close>

definition arm_packet :: "probe_env \<Rightarrow> (probes, packet \<times> string) script" where
  "arm_packet e =
     sthen (await_cutoff e)
     (sbind (seen_positions e) (\<lambda>start.
      sbind (approve_probe e (goal_action start)) (\<lambda>(sim, wall, step).
      sbind (slift (reply_trajectory step)) (\<lambda>tr.
      sbind (slift (arm_digest (ce_sha e) tr)) (\<lambda>digest.
      sbind (sjudge (budget step sim)) (\<lambda>remaining.
      sbind (token e ''arm'' ''goal'' digest sim wall remaining) (\<lambda>permit.
      sret (\<lparr>pk_base = None, pk_arm = Some (arm_data_of tr permit), pk_heartbeat = None\<rparr>, digest))))))))"

section \<open>What the scripts leave alone\<close>

text \<open>Readings and sleeps only grow, nothing is sent and the grants stay: \<open>calm\<close>. \<open>onward\<close> allows packets to leave.\<close>

definition calm :: "probes \<Rightarrow> probes \<Rightarrow> bool" where
  "calm s t \<longleftrightarrow> pb_sleeps s \<le> pb_sleeps t \<and> pb_reads s \<le> pb_reads t \<and> pb_sent t = pb_sent s \<and> pb_chain t = pb_chain s \<and>
     sim_backdate_ns (pb_permits t) = sim_backdate_ns (pb_permits s) \<and> challenges (pb_permits t) = challenges (pb_permits s) \<and>
     pb_packet t = pb_packet s"

definition onward :: "probes \<Rightarrow> probes \<Rightarrow> bool" where
  "onward s t \<longleftrightarrow> pb_sleeps s \<le> pb_sleeps t \<and> pb_reads s \<le> pb_reads t \<and> (\<exists>ps. pb_sent t = pb_sent s @ ps) \<and>
     sim_backdate_ns (pb_permits t) = sim_backdate_ns (pb_permits s)"

interpretation qt: run_rel calm
  by unfold_locales (auto simp: calm_def)

interpretation ow: run_rel onward
  by unfold_locales (auto simp: onward_def)

lemma quiet_onward: "calm s t \<Longrightarrow> onward s t"
  by (auto simp: calm_def onward_def)

lemma skeeps_onward: "skeeps calm m \<Longrightarrow> skeeps onward m"
  by (simp add: skeeps_def quiet_onward)

lemma swp_keeps: "skeeps R m \<Longrightarrow> (\<And>a t. R s t \<Longrightarrow> Q a t) \<Longrightarrow> swp m Q s"
  by (rule swpI) (blast dest: skeepsD)

lemma swp_reading [swp_rules]: "swp (reading f) Q s = Q (f (pb_reads s)) (s\<lparr>pb_reads := Suc (pb_reads s)\<rparr>)"
  by (simp add: reading_def swp_rules)

lemma swp_wall [swp_rules]: "swp (wall_ns e) Q s = Q (ce_wall e (pb_sleeps s) (pb_reads s)) (s\<lparr>pb_reads := Suc (pb_reads s)\<rparr>)"
  by (simp add: wall_ns_def swp_rules probe_waiter_def)

lemma swp_now [swp_rules]: "swp (probe_now e) Q s = Q (ce_sim e (pb_reads s) div 1000000) (s\<lparr>pb_reads := Suc (pb_reads s)\<rparr>)"
  by (simp add: probe_now_def swp_rules)

lemma swp_look [swp_rules]: "swp (look e) Q s = Q (ce_seen e (pb_reads s)) (s\<lparr>pb_reads := Suc (pb_reads s)\<rparr>)"
  by (simp add: look_def swp_rules)

lemma quiet_steps [simp]: "calm s (s\<lparr>pb_reads := Suc (pb_reads s)\<rparr>)" "calm s (s\<lparr>pb_sleeps := Suc (pb_sleeps s)\<rparr>)"
    "calm s (s\<lparr>pb_proposal := n\<rparr>)" "calm s (s\<lparr>pb_issuer := v\<rparr>)" "calm s (s\<lparr>pb_fixture := k\<rparr>)" "calm s (s\<lparr>pb_reset := k\<rparr>)"
  by (simp_all add: calm_def)

lemma quiet_read: "skeeps calm (reading f)" "skeeps calm (wall_ns e)" "skeeps calm (probe_now e)" "skeeps calm (look e)"
proof -
  show r: "skeeps calm (reading f)" for f :: "nat \<Rightarrow> 'b"
    unfolding reading_def by (intro qt.skeeps_flow qt.skeeps_sput) simp
  show "skeeps calm (wall_ns e)" unfolding wall_ns_def by (intro qt.skeeps_clock) (simp add: probe_waiter_def)
  show "skeeps calm (probe_now e)" "skeeps calm (look e)" by (simp_all add: probe_now_def look_def r)
qed

lemma quiet_guard: "skeeps calm (guard e target)" "skeeps calm (seen_positions e)" "skeeps calm (stopped e)" "skeeps calm (fresh_feedback e)"
  unfolding guard_def seen_positions_def stopped_def fresh_feedback_def by (intro qt.skeeps_flow quiet_read)+

lemma quiet_wait: "skeeps calm p \<Longrightarrow> skeeps calm (probe_wait e p n d None)"
  unfolding probe_wait_def by (rule qt.skeeps_await) (simp_all add: probe_waiter_def)

lemma quiet_issuer: "skeeps calm (issuer_sign e role v)" "skeeps calm (issuer_ask e m)"
proof -
  show "skeeps calm (issuer_sign e role v)"
    by (auto simp: skeeps_def issuer_sign_def qt.refl split: option.splits prod.splits)
  have "skeeps calm (\<lambda>s. case pb_issuer s of None \<Rightarrow> (Some (Raised AttributeError), s)
     | Some (source, buf) \<Rightarrow> (case Bridge.request (ce_loads e) (ce_dumps e) a w evs m buf of
            (r, buf') \<Rightarrow> (Some (fixture_answer r), s\<lparr>pb_issuer := Some (source, buf')\<rparr>)))" for a w evs
    by (auto simp: skeeps_def qt.refl split: option.splits prod.splits)
  then show "skeeps calm (issuer_ask e m)"
    unfolding issuer_ask_def by (intro qt.skeeps_flow quiet_read) (auto split: prod.splits)
qed

lemma quiet_feed: "skeeps calm (feed e role v)"
  unfolding feed_def by (intro qt.skeeps_flow quiet_read quiet_issuer)

lemma quiet_snapshot: "skeeps calm (world_snapshot e)" "skeeps calm (admit_world e)"
  unfolding world_snapshot_def admit_world_def by (intro qt.skeeps_flow quiet_read quiet_wait quiet_guard quiet_feed)+

lemma quiet_approve: "skeeps calm (approve_probe e a)"
  unfolding approve_probe_def
  by (intro qt.skeeps_flow quiet_read quiet_snapshot quiet_feed qt.skeeps_sput) simp

lemma quiet_token: "skeeps calm (token e target kind digest sim wall remaining)"
proof -
  have "sim_backdate_ns (snd (ps_sign target kind digest sim remaining wall g)) = sim_backdate_ns g \<and>
      challenges (snd (ps_sign target kind digest sim remaining wall g)) = challenges g" for g
    by (auto simp: ps_sign_def Let_def split: option.splits)
  then show ?thesis by (auto simp: skeeps_def token_def calm_def split: prod.splits sum.splits) (metis snd_conv)+
qed

lemma quiet_stale: "skeeps calm (stale_permit e target kind digest stage)"
  unfolding stale_permit_def by (intro qt.skeeps_flow quiet_read quiet_token)

lemma quiet_packets: "skeeps calm (base_packet e)" "skeeps calm (await_cutoff e)" "skeeps calm (arm_packet e)" "skeeps calm (require_timely e p stage)"
proof -
  show "skeeps calm (base_packet e)" unfolding base_packet_def by (intro qt.skeeps_flow quiet_approve quiet_token)
  show c: "skeeps calm (await_cutoff e)" unfolding await_cutoff_def by (intro qt.skeeps_flow quiet_guard quiet_wait quiet_read)
  show "skeeps calm (arm_packet e)" unfolding arm_packet_def by (intro qt.skeeps_flow c quiet_guard quiet_approve quiet_token)
  show "skeeps calm (require_timely e p stage)" unfolding require_timely_def by (intro qt.skeeps_flow quiet_read)
qed

section \<open>Exact readings\<close>

text \<open>Only readings and sleeps were made.\<close>

definition waited :: "probes \<Rightarrow> probes \<Rightarrow> bool" where
  "waited s t \<longleftrightarrow> pb_sleeps s \<le> pb_sleeps t \<and> pb_reads s \<le> pb_reads t \<and> t = s\<lparr>pb_sleeps := pb_sleeps t, pb_reads := pb_reads t\<rparr>"

lemma waited_trans: "waited s t \<Longrightarrow> waited t u \<Longrightarrow> waited s u"
  by (cases s; cases t; cases u) (auto simp: waited_def)

lemma waited_le: "waited s t \<Longrightarrow> pb_reads s \<le> pb_reads t" "waited s t \<Longrightarrow> pb_sleeps s \<le> pb_sleeps t"
  by (simp_all only: waited_def)

interpretation wd: run_rel waited
  by unfold_locales (simp add: waited_def, rule waited_trans)

lemma waited_calm: "waited s t \<Longrightarrow> calm s t"
  by (cases s; cases t) (auto simp: waited_def calm_def)

lemma waited_steps [simp]: "waited s (s\<lparr>pb_reads := Suc (pb_reads s)\<rparr>)" "waited s (s\<lparr>pb_sleeps := Suc (pb_sleeps s)\<rparr>)"
  by (simp_all add: waited_def)

lemma wd_read: "skeeps waited (reading f)" "skeeps waited (wall_ns e)" "skeeps waited (probe_now e)" "skeeps waited (look e)"
proof -
  show r: "skeeps waited (reading f)" for f :: "nat \<Rightarrow> 'b"
    unfolding reading_def by (intro wd.skeeps_flow wd.skeeps_sput) simp
  show "skeeps waited (wall_ns e)" unfolding wall_ns_def by (intro wd.skeeps_clock) (simp add: probe_waiter_def)
  show "skeeps waited (probe_now e)" "skeeps waited (look e)" by (simp_all add: probe_now_def look_def r)
qed

lemma wd_guard: "skeeps waited (guard e target)" "skeeps waited (stopped e)" "skeeps waited (fresh_feedback e)"
  unfolding guard_def stopped_def fresh_feedback_def by (intro wd.skeeps_flow wd_read)+

lemma reading_Passed: "reading f s = (Some (Passed v), t) \<longleftrightarrow> v = f (pb_reads s) \<and> t = s\<lparr>pb_reads := Suc (pb_reads s)\<rparr>"
  by (auto simp: reading_def sget_def sput_def script_passes)

lemma now_Passed: "probe_now e s = (Some (Passed n), t) \<longleftrightarrow> n = ce_sim e (pb_reads s) div 1000000 \<and> t = s\<lparr>pb_reads := Suc (pb_reads s)\<rparr>"
  by (auto simp: probe_now_def reading_Passed)

lemma wall_Passed: "wall_ns e s = (Some (Passed n), t) \<longleftrightarrow> n = ce_wall e (pb_sleeps s) (pb_reads s) \<and> t = s\<lparr>pb_reads := Suc (pb_reads s)\<rparr>"
  by (auto simp: wall_ns_def clock_ns_def probe_waiter_def)

lemma look_Passed: "look e s = (Some (Passed v), t) \<longleftrightarrow> v = ce_seen e (pb_reads s) \<and> t = s\<lparr>pb_reads := Suc (pb_reads s)\<rparr>"
  by (auto simp: look_def reading_Passed)

lemma guard_Passed: "guard e target s = (Some (Passed row), t) \<longleftrightarrow> row = guard_row target (ce_seen e (pb_reads s)) \<and> t = s\<lparr>pb_reads := Suc (pb_reads s)\<rparr>"
  by (auto simp: guard_def script_passes look_Passed)

lemma sget_Passed: "sget f s = (Some (Passed v), t) \<longleftrightarrow> v = f s \<and> t = s"
  by (auto simp: sget_def)

lemma sput_Passed: "sput f s = (Some (Passed v), t) \<longleftrightarrow> t = f s"
  by (auto simp: sput_def)

lemmas probe_passes = script_passes reading_Passed now_Passed wall_Passed look_Passed guard_Passed sget_Passed sput_Passed

text \<open>A wait that passed: its predicate ran last, before one more reading of the clock.\<close>

lemma waits_for:
  assumes "skeeps waited p" and "probe_wait e p n d None s = (Some (Passed a), t)"
  shows "\<exists>u v. waited s u \<and> p u = (Some (Passed (Some a)), v) \<and> t = v\<lparr>pb_reads := Suc (pb_reads v)\<rparr>"
  using wd.await_found [of "probe_waiter e" p None, OF _ _ assms(1) _ assms(2) [unfolded probe_wait_def]]
  by (auto simp: probe_waiter_def)

lemma met_Passed: "met p u = (Some (Passed (Some a)), v) \<longleftrightarrow> p u = (Some (Passed True), v)"
  by (auto simp: met_def script_passes split: if_splits)

section \<open>Approvals\<close>

text \<open>
  The measured world of a state \<open>t\<close>: before the last observation, four readings of clock and observer
  found the joints and the odometry at most 50 ms old, with one more reading of the clock after them.
\<close>

definition freshly_observed :: "probe_env \<Rightarrow> probes \<Rightarrow> bool" where
  "freshly_observed e u \<longleftrightarrow> (let n = pb_reads u - 5; a = pb_sleeps u in
     within_age 50000000 (ce_wall e a n) (se_joint_at (ce_seen e (n + 1))) \<and>
     within_age 50000000 (ce_wall e a (n + 2)) (se_odom_at (ce_seen e (n + 3))))"

definition snapshot_taken :: "probe_env \<Rightarrow> probes \<Rightarrow> probes \<Rightarrow> pyval \<Rightarrow> bool" where
  "snapshot_taken e s t snapshot \<longleftrightarrow> (\<exists>u. waited s u \<and> pb_reads s + 5 \<le> pb_reads u \<and> freshly_observed e u \<and>
     measure e (ce_seen e (pb_reads u)) = Inr snapshot \<and> t = u\<lparr>pb_reads := Suc (pb_reads u)\<rparr>)"

lemma snapshot_Passed:
  assumes "world_snapshot e s = (Some (Passed snapshot), t)"
  shows "snapshot_taken e s t snapshot"
proof -
  from assms obtain u where u: "probe_wait e (met (fresh_feedback e)) 2000000000 ''fresh measured controller probe world'' None s = (Some (Passed ()), u)"
    and m: "measure e (ce_seen e (pb_reads u)) = Inr snapshot" "t = u\<lparr>pb_reads := Suc (pb_reads u)\<rparr>"
    by (auto simp: world_snapshot_def probe_passes)
  from waits_for [OF wd.skeeps_met [OF wd_guard(3)] u] obtain v w where v: "waited s v" "fresh_feedback e v = (Some (Passed True), w)"
    "u = w\<lparr>pb_reads := Suc (pb_reads w)\<rparr>" by (auto simp: met_Passed)
  then have w: "w = v\<lparr>pb_reads := pb_reads v + 4\<rparr>" and f: "within_age 50000000 (ce_wall e (pb_sleeps v) (pb_reads v)) (se_joint_at (ce_seen e (Suc (pb_reads v))))"
    "within_age 50000000 (ce_wall e (pb_sleeps v) (Suc (Suc (pb_reads v)))) (se_odom_at (ce_seen e (Suc (Suc (Suc (pb_reads v))))))"
    by (auto simp: fresh_feedback_def probe_passes numeral_eq_Suc split: if_splits)
  have "waited v u" using v(3) w by (simp add: waited_def)
  have "waited s u" using v(1) \<open>waited v u\<close> by (rule wd.trans)
  moreover have "pb_reads s + 5 \<le> pb_reads u" using waited_le(1) [OF v(1)] v(3) w by simp
  moreover have "freshly_observed e u" using f unfolding freshly_observed_def v(3) w by (simp add: numeral_eq_Suc)
  ultimately show ?thesis using m unfolding snapshot_taken_def by blast
qed

text \<open>
  One exchange with the Rust fixture: the payload is signed with the next counter of its role and sent
  with the simulation time of the first reading; the answer is what the fixture's pipe gives at the second.
\<close>

definition fixture_answers :: "probe_env \<Rightarrow> string \<Rightarrow> pyval \<Rightarrow> probes \<Rightarrow> probes \<Rightarrow> pyval \<Rightarrow> bool" where
  "fixture_answers e role payload s t step \<longleftrightarrow>
     (\<exists>source buf env source' data alive writable evs buf'.
        pb_issuer s = Some (source, buf) \<and> sign (ce_dumps e) (ce_ed_sign e) role payload source = (Inr env, source') \<and>
        ce_dumps e (envelope_val env) = Inr data \<and> ce_pipe e (Suc (pb_reads s)) = (alive, writable, evs) \<and>
        Bridge.request (ce_loads e) (ce_dumps e) alive writable evs
          (PDict [(''k'', PStr ''signed''), (''t'', PInt (ce_sim e (pb_reads s) div 1000000)), (''data'', PStr data)]) buf = (Inr step, buf') \<and>
        t = s\<lparr>pb_reads := Suc (Suc (pb_reads s)), pb_issuer := Some (source', buf')\<rparr>)"

lemma fixture_answer_Passed: "fixture_answer r = Passed step \<longleftrightarrow> r = Inr step"
  by (auto simp: fixture_answer_def split: sum.splits exn.splits if_splits)

lemma feed_Passed: "feed e role payload s = (Some (Passed step), t) \<Longrightarrow> fixture_answers e role payload s t step"
proof -
  assume run: "feed e role payload s = (Some (Passed step), t)"
  then obtain source buf where i: "pb_issuer s = Some (source, buf)" by (cases "pb_issuer s") (auto simp: feed_def issuer_sign_def sbind_def)
  obtain r source' where g: "sign (ce_dumps e) (ce_ed_sign e) role payload source = (r, source')" by (cases "sign (ce_dumps e) (ce_ed_sign e) role payload source")
  obtain alive writable evs where c: "ce_pipe e (Suc (pb_reads s)) = (alive, writable, evs)" by (metis prod_cases3)
  from run i g obtain env data where r: "r = Inr env" "ce_dumps e (envelope_val env) = Inr data"
    "issuer_ask e (PDict [(''k'', PStr ''signed''), (''t'', PInt (ce_sim e (pb_reads s) div 1000000)), (''data'', PStr data)])
       (s\<lparr>pb_issuer := Some (source', buf), pb_reads := Suc (pb_reads s)\<rparr>) = (Some (Passed step), t)"
    by (auto simp: feed_def issuer_sign_def probe_passes)
  from r(3) c show "fixture_answers e role payload s t step"
    unfolding fixture_answers_def using i g r(1,2)
    by (auto simp: issuer_ask_def probe_passes fixture_answer_Passed split: prod.splits)
qed

definition world_admitted :: "probe_env \<Rightarrow> probes \<Rightarrow> probes \<Rightarrow> bool" where
  "world_admitted e s t \<longleftrightarrow> (\<exists>u snapshot step. snapshot_taken e s u snapshot \<and> fixture_answers e ''world'' snapshot u t step \<and>
     require_world_accepted step snapshot = Passed ())"

lemma admit_Passed: "admit_world e s = (Some (Passed u), t) \<Longrightarrow> world_admitted e s t"
  unfolding world_admitted_def admit_world_def by (auto simp: script_passes dest!: snapshot_Passed feed_Passed)

text \<open>
  An approval: after a measured world the engine accepted, the clocks \<open>wall\<close> and \<open>sim\<close> were read, then the
  proposal with the next number was sent and answered by \<open>step\<close>, and the three readings after the answer
  found it inside 50 ms on both clocks and still in force; the answer is for the action asked for.
\<close>

definition probe_approved :: "probe_env \<Rightarrow> probes \<Rightarrow> probes \<Rightarrow> pyval \<Rightarrow> int \<Rightarrow> int \<Rightarrow> pyval \<Rightarrow> bool" where
  "probe_approved e s t action sim wall step \<longleftrightarrow>
     (\<exists>u v. world_admitted e s u \<and>
       (let stamp = ce_sim e (Suc (pb_reads u)) div 1000000;
            elapsed = round_trip_ms wall (ce_wall e (pb_sleeps v) (pb_reads v)) stamp (ce_sim e (Suc (pb_reads v)) div 1000000)
        in wall = ce_wall e (pb_sleeps u) (pb_reads u) \<and> sim = stamp * 1000000 \<and>
           fixture_answers e ''vla'' (fixture_proposal (pb_proposal u + 1) stamp action)
             (u\<lparr>pb_proposal := pb_proposal u + 1, pb_reads := Suc (Suc (pb_reads u))\<rparr>) v step \<and>
           require_fresh_actuation step elapsed (ce_sim e (Suc (Suc (pb_reads v))) div 1000000) 200 50 = Inr () \<and>
           confirm_action action step = Passed () \<and> t = v\<lparr>pb_reads := Suc (Suc (Suc (pb_reads v)))\<rparr>))"

lemma judge_approval_Passed: "judge_approval step elapsed t = Passed u \<longleftrightarrow> require_fresh_actuation step elapsed t 200 50 = Inr ()"
  by (cases "well_formed_status step") (auto simp: judge_approval_def split: sum.split exn.splits)

lemma approve_Passed:
  assumes "approve_probe e action s = (Some (Passed (sim, wall, step)), t)"
  shows "probe_approved e s t action sim wall step"
proof -
  from assms obtain u v x where u: "admit_world e s = (Some (Passed x), u)"
    and v: "feed e ''vla'' (fixture_proposal (pb_proposal u + 1) (ce_sim e (Suc (pb_reads u)) div 1000000) action)
        (u\<lparr>pb_proposal := pb_proposal u + 1, pb_reads := Suc (Suc (pb_reads u))\<rparr>) = (Some (Passed step), v)"
    and r: "wall = ce_wall e (pb_sleeps u) (pb_reads u)" "sim = ce_sim e (Suc (pb_reads u)) div 1000000 * 1000000"
      "require_fresh_actuation step (round_trip_ms wall (ce_wall e (pb_sleeps v) (pb_reads v)) (ce_sim e (Suc (pb_reads u)) div 1000000)
         (ce_sim e (Suc (pb_reads v)) div 1000000)) (ce_sim e (Suc (Suc (pb_reads v))) div 1000000) 200 50 = Inr ()"
      "confirm_action action step = Passed ()" "t = v\<lparr>pb_reads := Suc (Suc (Suc (pb_reads v)))\<rparr>"
    by (auto simp: approve_probe_def probe_passes judge_approval_Passed)
  show ?thesis unfolding probe_approved_def Let_def
    by (rule exI [of _ u], rule exI [of _ v]) (use admit_Passed [OF u] feed_Passed [OF v] r in simp)
qed

section \<open>Signed permits\<close>

text \<open>The public fields of a permit's wire text.\<close>

definition view_of :: "permit \<Rightarrow> permit_view" where
  "view_of p = \<lparr>pf_kind = p_target p @ ''-'' @ p_kind p, pf_seq = p_seq p, pf_sim = p_sim p, pf_wall = p_wall p,
     pf_sim_end = p_sim_end p, pf_wall_end = p_wall_end p\<rparr>"

lemma permit_fields_token:
  assumes "CHR '':'' \<notin> set (p_target p @ p_kind p @ p_nonce p @ p_digest p)"
  shows "permit_fields (PStr (permit_token ed p)) = Inr (view_of p)"
proof -
  let ?ws = "[''v1'', p_target p @ ''-'' @ p_kind p, p_nonce p, show_int (p_seq p), show_int (p_sim p), show_int (p_wall p),
    show_int (p_sim_end p), show_int (p_wall_end p), p_digest p, to_hex (ed (PERMIT_DOMAIN @ permit_body p))]"
  have t: "permit_token ed p = join_with (CHR '':'') ?ws" by (simp add: permit_token_def permit_body_def)
  have n: "CHR '':'' \<notin> set (show_int k)" for k using show_int_chars [of "CHR '':''" k] by (auto simp: is_digit_def)
  have h: "CHR '':'' \<notin> set (to_hex s)" for s using to_hex_is_hex [of s] by (auto simp: is_hex_def list_all_iff is_hexdig_def)
  have "split_on (CHR '':'') (permit_token ed p) = ?ws"
    unfolding t using assms n h by (intro split_join) auto
  then show ?thesis by (simp add: permit_fields_def Let_def py_int_show_int numeral_eq_Suc view_of_def)
qed

text \<open>
  A positive permit signed from an approval: exactly the action's digest, the clocks the proposal started
  from, and no more than what the engine's answer leaves of its world and of its proposal.
\<close>

definition bound_permit :: "int \<Rightarrow> string \<Rightarrow> string \<Rightarrow> string \<Rightarrow> int \<Rightarrow> int \<Rightarrow> pyval \<Rightarrow> permit \<Rightarrow> bool" where
  "bound_permit backdate target kind digest sim wall step p \<longleftrightarrow>
     (\<exists>r. budget_ms step sim = Inr r \<and> 0 < r \<and> r \<le> 200 \<and> p_target p = target \<and> p_kind p = kind \<and> p_digest p = digest \<and>
        p_wall p = wall \<and> p_wall_end p = wall + r * 1000000 \<and>
        p_sim p = max 0 (sim - backdate) \<and> p_sim_end p = max 0 (sim - backdate) + r * 1000000)"

lemma budget_ms_le: "budget_ms step sim = Inr r \<Longrightarrow> r \<le> 200"
  by (auto simp: budget_ms_def rbind_Inr_iff Let_def split: if_splits)

lemma budget_Passed: "budget step sim = Passed n \<longleftrightarrow> (\<exists>r. budget_ms step sim = Inr r \<and> 0 < r \<and> n = r * 1000000)"
  by (cases "budget_ms step sim") (auto simp: budget_def)

text \<open>The signature itself: no reading is made, and the nonce is the controller's.\<close>

definition signed_in :: "probes \<Rightarrow> probes \<Rightarrow> permit \<Rightarrow> bool" where
  "signed_in s t p \<longleftrightarrow> t = s\<lparr>pb_permits := pb_permits t\<rparr> \<and> challenges (pb_permits t) = challenges (pb_permits s) \<and>
     map_of (challenges (pb_permits s)) (p_target p) = Some (p_nonce p)"

lemma token_signed:
  assumes "token e target kind digest sim wall n s = (Some (Passed permit), t)"
  shows "\<exists>p g. ps_sign target kind digest sim n wall (pb_permits s) = (Inr p, g) \<and> permit = permit_token (ce_permit_ed e) p \<and> t = s\<lparr>pb_permits := g\<rparr>"
  using assms by (auto simp: token_def split: prod.splits sum.splits)

lemma token_bound:
  assumes "token e target kind digest sim wall n s = (Some (Passed permit), t)" and "budget step sim = Passed n"
  shows "\<exists>p. permit = permit_token (ce_permit_ed e) p \<and> bound_permit (sim_backdate_ns (pb_permits s)) target kind digest sim wall step p \<and>
     signed_in s t p"
proof -
  from assms(2) obtain r where r: "budget_ms step sim = Inr r" "0 < r" "n = r * 1000000" by (auto simp: budget_Passed)
  then have "r \<le> 200" by (simp add: budget_ms_le)
  then have m: "min MAX_LEASE_NS n = r * 1000000" using r by (simp add: MAX_LEASE_NS_def)
  from token_signed [OF assms(1)] obtain p g where p: "ps_sign target kind digest sim n wall (pb_permits s) = (Inr p, g)"
    "permit = permit_token (ce_permit_ed e) p" "t = s\<lparr>pb_permits := g\<rparr>" by blast
  with r \<open>r \<le> 200\<close> m show ?thesis by (auto simp: ps_sign_Inr_iff bound_permit_def signed_in_def)
qed

text \<open>Texts without the separator of the wire format.\<close>

definition plain_texts :: "probe_env \<Rightarrow> probes \<Rightarrow> bool" where
  "plain_texts e s \<longleftrightarrow> (\<forall>m. CHR '':'' \<notin> set (ce_sha e m)) \<and> (\<forall>target n. map_of (challenges (pb_permits s)) target = Some n \<longrightarrow> CHR '':'' \<notin> set n)"

lemma texts_calm: "plain_texts e s \<Longrightarrow> calm s t \<Longrightarrow> plain_texts e t"
  by (simp add: plain_texts_def calm_def)

section \<open>What a positive packet carries\<close>

text \<open>
  A base packet: the approval of the probe's velocity from the state \<open>s\<close> on, and right after it the
  signature of a permit for exactly the packet's command.
\<close>

definition base_justified :: "probe_env \<Rightarrow> probes \<Rightarrow> probes \<Rightarrow> packet \<Rightarrow> permit \<Rightarrow> bool" where
  "base_justified e s t pkt p \<longleftrightarrow>
     (\<exists>d l digest wall step u. pkt = \<lparr>pk_base = Some d, pk_arm = None, pk_heartbeat = None\<rparr> \<and>
        probe_approved e s u (probe_velocity PROBE_SPEED) (bd_stamp d) wall step \<and> actuating step = Inr True \<and>
        cmd_field step ''linear'' = Inr l \<and> py_float l = Inr (bd_linear d) \<and> bd_angular d = 0 \<and>
        base_digest (ce_sha e) (base_message (bd_stamp d) (bd_linear d)) = Inr digest \<and>
        bd_permit d = permit_token (ce_permit_ed e) p \<and>
        bound_permit (sim_backdate_ns (pb_permits s)) ''base'' ''command'' digest (bd_stamp d) wall step p \<and> signed_in u t p)"

text \<open>
  An arm goal: the wait for the controller's last hold, one observation of the joints, the approval of
  the goal that starts there, and the signature of a permit for exactly the trajectory approved.
\<close>

definition past_cutoff :: "probe_env \<Rightarrow> probes \<Rightarrow> probes \<Rightarrow> bool" where
  "past_cutoff e s t \<longleftrightarrow>
     (case as_int (getf (guard_row ''arm'' (ce_seen e (pb_reads s))) ''cutoff_ms'') of
        None \<Rightarrow> t = s\<lparr>pb_reads := Suc (pb_reads s)\<rparr>
      | Some cutoff \<Rightarrow> waited s t \<and> pb_reads s + 3 \<le> pb_reads t \<and>
          cutoff \<le> ce_sim e (pb_reads t - 2) div 1000000 - SIM_ORDERING_BACKDATE_NS div 1000000)"

definition joints_seen :: "probe_env \<Rightarrow> nat \<Rightarrow> float64 list \<Rightarrow> bool" where
  "joints_seen e n qs \<longleftrightarrow> (\<exists>jm. se_joint (ce_seen e n) = Some jm \<and> arm_positions jm = Inr qs)"

definition arm_justified :: "probe_env \<Rightarrow> probes \<Rightarrow> probes \<Rightarrow> packet \<Rightarrow> string \<Rightarrow> permit \<Rightarrow> bool" where
  "arm_justified e s t pkt digest p \<longleftrightarrow>
     (\<exists>start tr sim wall step c u. pkt = \<lparr>pk_base = None, pk_arm = Some (arm_data_of tr (permit_token (ce_permit_ed e) p)), pk_heartbeat = None\<rparr> \<and>
        past_cutoff e s c \<and> joints_seen e (pb_reads c) start \<and>
        probe_approved e (c\<lparr>pb_reads := Suc (pb_reads c)\<rparr>) u (goal_action start) sim wall step \<and> actuating step = Inr True \<and>
        reply_trajectory step = Inr tr \<and> arm_digest (ce_sha e) tr = Inr digest \<and>
        bound_permit (sim_backdate_ns (pb_permits s)) ''arm'' ''goal'' digest sim wall step p \<and> signed_in u t p)"

lemma cutoff_Passed:
  assumes "await_cutoff e s = (Some (Passed x), t)"
  shows "past_cutoff e s t"
proof (cases "as_int (getf (guard_row ''arm'' (ce_seen e (pb_reads s))) ''cutoff_ms'')")
  case None
  with assms show ?thesis by (auto simp: await_cutoff_def past_cutoff_def probe_passes)
next
  case (Some cutoff)
  let ?p = "sbind (probe_now e) (\<lambda>n. sret (cutoff \<le> n - SIM_ORDERING_BACKDATE_NS div 1000000)) :: (probes, bool) script"
  from assms Some obtain d m where w: "probe_wait e (met ?p) m d None (s\<lparr>pb_reads := Suc (pb_reads s)\<rparr>) = (Some (Passed ()), t)"
    by (auto simp: await_cutoff_def probe_passes)
  have "skeeps waited ?p" by (intro wd.skeeps_flow wd_read)
  from waits_for [OF wd.skeeps_met [OF this] w] obtain u v where u: "waited (s\<lparr>pb_reads := Suc (pb_reads s)\<rparr>) u"
    "?p u = (Some (Passed True), v)" "t = v\<lparr>pb_reads := Suc (pb_reads v)\<rparr>" by (auto simp: met_Passed)
  then have v: "v = u\<lparr>pb_reads := Suc (pb_reads u)\<rparr>" "cutoff \<le> ce_sim e (pb_reads u) div 1000000 - SIM_ORDERING_BACKDATE_NS div 1000000"
    by (auto simp: probe_passes)
  have t: "t = u\<lparr>pb_reads := Suc (Suc (pb_reads u))\<rparr>" using u(3) v(1) by simp
  have "waited u t" unfolding t by (simp add: waited_def)
  then have "waited s t" using u(1) wd.trans waited_steps(1) by blast
  moreover have "pb_reads s + 3 \<le> pb_reads t" using waited_le(1) [OF u(1)] t by simp
  ultimately show ?thesis using v(2) t Some by (simp add: past_cutoff_def)
qed

lemma positions_Passed: "seen_positions e s = (Some (Passed qs), t) \<longleftrightarrow> joints_seen e (pb_reads s) qs \<and> t = s\<lparr>pb_reads := Suc (pb_reads s)\<rparr>"
  by (auto simp: seen_positions_def joints_seen_def probe_passes split: option.splits)

text \<open>Both are actuations: the engine answered with the velocity asked for, or with a trajectory to execute.\<close>

lemma approved_approval:
  "probe_approved e s t action sim wall step \<Longrightarrow> \<exists>elapsed n. require_fresh_actuation step elapsed n 200 50 = Inr () \<and> confirm_action action step = Passed ()"
  unfolding probe_approved_def Let_def by blast

lemma fresh_actuating: "require_fresh_actuation step elapsed n 200 50 = Inr () \<Longrightarrow> \<exists>b. actuating step = Inr b"
  by (auto simp: require_fresh_iff)

lemma pyeq_num: "num_of a = Some x \<Longrightarrow> num_of b = Some y \<Longrightarrow> pyeq a b = num_eq x y"
  by (subst pyeq.simps) (cases a; cases b; simp)

lemma probe_speed: "num_of (PFloat PROBE_SPEED) = Some (NFin (f_val PROBE_SPEED))" "f_val PROBE_SPEED \<noteq> 0"
proof -
  have x: "f_exp PROBE_SPEED = 1020" by (simp add: f_exp_def PROBE_SPEED_def)
  then show "num_of (PFloat PROBE_SPEED) = Some (NFin (f_val PROBE_SPEED))" by (simp add: isfinite_def)
  have "(0 :: rat) < of_nat (2 ^ 52 + f_mant PROBE_SPEED) * 2 ^ f_exp PROBE_SPEED / 2 ^ 1075"
    by (intro divide_pos_pos mult_pos_pos zero_less_power) (simp_all add: add_pos_nonneg)
  then show "f_val PROBE_SPEED \<noteq> 0" using x by (simp add: f_val_def)
qed

lemma velocity_actuates:
  assumes "probe_approved e s t (probe_velocity PROBE_SPEED) sim wall step"
  shows "actuating step = Inr True"
proof -
  from approved_approval [OF assms] obtain b where b: "actuating step = Inr b" and c: "confirm_action (probe_velocity PROBE_SPEED) step = Passed ()"
    by (auto dest: fresh_actuating)
  from c obtain l where l: "cmd_field step ''linear'' = Inr l" "pyeq l (PFloat PROBE_SPEED)"
    by (auto simp: confirm_action_def probe_velocity_def rbind_Inr_iff split: sum.splits if_splits elim!: judge_res.elims)
  have "\<not> eq_int l 0"
  proof
    assume "eq_int l 0"
    then have "num_of l = Some (NFin 0)" by (cases "num_of l") (auto simp: eq_int_def elim!: num_eq.elims)
    then have "num_eq (NFin 0) (NFin (f_val PROBE_SPEED))"
      using l(2) probe_speed(1) by (simp only: pyeq_num)
    then show False using probe_speed(2) by simp
  qed
  then show ?thesis using b l by (cases b) (auto simp: actuating_False_zero cmd_field_def rbind_Inr_iff)
qed

lemma goal_actuates:
  assumes "probe_approved e s t action sim wall step" and "reply_trajectory step = Inr tr"
  shows "actuating step = Inr True"
proof -
  from approved_approval [OF assms(1)] obtain b where b: "actuating step = Inr b" by (auto dest: fresh_actuating)
  from assms(2) obtain a x where a: "dix step ''arm'' = Inr a" "dix a ''execute'' = Inr x" by (auto simp: reply_trajectory_def rbind_Inr_iff)
  have "has_key ''execute'' a" using a(2) by (cases a) (auto split: option.splits dest: map_of_SomeD intro: rev_image_eqI)
  moreover have "dget step ''arm'' = Inr a" using a(1) by (cases step) (auto split: option.splits)
  ultimately show ?thesis using b by (cases b) (auto simp: actuating_False_zero)
qed

lemma approved_kept: "probe_approved e s t action sim wall step \<Longrightarrow> calm s t"
proof -
  have f: "fixture_answers e role v a b st \<Longrightarrow> calm a b" for role v a b st by (auto simp: fixture_answers_def calm_def)
  have w: "world_admitted e a b \<Longrightarrow> calm a b" for a b
  proof -
    assume "world_admitted e a b"
    then obtain u where "waited a u" "calm (u\<lparr>pb_reads := Suc (pb_reads u)\<rparr>) b" by (auto simp: world_admitted_def snapshot_taken_def dest: f)
    then show "calm a b" using waited_calm by (fastforce simp: calm_def)
  qed
  assume "probe_approved e s t action sim wall step"
  then obtain u v where "calm s u" "calm (u\<lparr>pb_proposal := pb_proposal u + 1, pb_reads := Suc (Suc (pb_reads u))\<rparr>) v"
    "t = v\<lparr>pb_reads := Suc (Suc (Suc (pb_reads v)))\<rparr>" by (auto simp: probe_approved_def Let_def dest: f w)
  then show ?thesis by (auto simp: calm_def)
qed

lemma base_packet_justified:
  assumes "base_packet e s = (Some (Passed pkt), t)"
  shows "\<exists>p. base_justified e s t pkt p"
proof -
  from assms obtain sim wall step u l v digest n permit where
    a: "approve_probe e (probe_velocity PROBE_SPEED) s = (Some (Passed (sim, wall, step)), u)" and
    b: "cmd_field step ''linear'' = Inr l" "py_float l = Inr v" "base_digest (ce_sha e) (base_message sim v) = Inr digest" and
    c: "budget step sim = Passed n" "token e ''base'' ''command'' digest sim wall n u = (Some (Passed permit), t)" and
    pkt: "pkt = \<lparr>pk_base = Some \<lparr>bd_stamp = sim, bd_linear = v, bd_angular = 0, bd_permit = permit\<rparr>, pk_arm = None, pk_heartbeat = None\<rparr>"
    by (auto simp: base_packet_def script_passes rbind_Inr_iff)
  note ap = approve_Passed [OF a]
  have "sim_backdate_ns (pb_permits u) = sim_backdate_ns (pb_permits s)" using approved_kept [OF ap] by (simp add: calm_def)
  with token_bound [OF c(2,1)] obtain p where p: "permit = permit_token (ce_permit_ed e) p"
    "bound_permit (sim_backdate_ns (pb_permits s)) ''base'' ''command'' digest sim wall step p" "signed_in u t p" by auto
  show ?thesis unfolding base_justified_def
    by (rule exI [of _ p], rule exI [of _ "\<lparr>bd_stamp = sim, bd_linear = v, bd_angular = 0, bd_permit = permit\<rparr>"], rule exI [of _ l],
        rule exI [of _ digest], rule exI [of _ wall], rule exI [of _ step], rule exI [of _ u])
      (use ap velocity_actuates [OF ap] b pkt p in simp)
qed

lemma arm_packet_justified:
  assumes "arm_packet e s = (Some (Passed (pkt, digest)), t)"
  shows "\<exists>p. arm_justified e s t pkt digest p"
proof -
  from assms obtain c start sim wall step u tr n permit where
    i: "await_cutoff e s = (Some (Passed ()), c)" "joints_seen e (pb_reads c) start" and
    a: "approve_probe e (goal_action start) (c\<lparr>pb_reads := Suc (pb_reads c)\<rparr>) = (Some (Passed (sim, wall, step)), u)" and
    b: "reply_trajectory step = Inr tr" "arm_digest (ce_sha e) tr = Inr digest" and
    t: "budget step sim = Passed n" "token e ''arm'' ''goal'' digest sim wall n u = (Some (Passed permit), t)" and
    pkt: "pkt = \<lparr>pk_base = None, pk_arm = Some (arm_data_of tr permit), pk_heartbeat = None\<rparr>"
    by (auto simp: arm_packet_def script_passes positions_Passed)
  note ap = approve_Passed [OF a]
  have "calm s c" by (rule skeepsD [OF quiet_packets(2) i(1)])
  with approved_kept [OF ap] have "sim_backdate_ns (pb_permits u) = sim_backdate_ns (pb_permits s)" by (simp add: calm_def)
  with token_bound [OF t(2,1)] obtain p where p: "permit = permit_token (ce_permit_ed e) p"
    "bound_permit (sim_backdate_ns (pb_permits s)) ''arm'' ''goal'' digest sim wall step p" "signed_in u t p" by auto
  show ?thesis unfolding arm_justified_def
    by (rule exI [of _ p], rule exI [of _ start], rule exI [of _ tr], rule exI [of _ sim], rule exI [of _ wall], rule exI [of _ step],
        rule exI [of _ c], rule exI [of _ u])
      (use cutoff_Passed [OF i(1)] i(2) ap goal_actuates [OF ap b(1)] b pkt p in simp)
qed

section \<open>Sending\<close>

text \<open>The verifier's window on both clocks, and a grant that has not ended.\<close>

definition in_window :: "permit_view \<Rightarrow> int \<Rightarrow> int \<Rightarrow> bool" where
  "in_window f wall sim \<longleftrightarrow> wall - pf_wall f < 50000000 \<and> sim - pf_sim f < 50000000 \<and> wall < pf_wall_end f \<and> sim < pf_sim_end f"

definition still_live :: "permit_view \<Rightarrow> int \<Rightarrow> int \<Rightarrow> bool" where
  "still_live f wall sim \<longleftrightarrow> wall < pf_wall_end f \<and> sim < pf_sim_end f"

lemma check_timely_Passed: "check_timely stage f wall sim = Passed age \<Longrightarrow> in_window f wall sim"
  by (auto simp: check_timely_def permit_age_ns_def in_window_def VERIFIER_WINDOW_NS_def Let_def split: if_splits)

lemma require_live_Passed: "require_live stage f wall sim = Passed u \<Longrightarrow> still_live f wall sim"
  by (auto simp: require_live_def still_live_def split: if_splits)

text \<open>Both clocks, read one after the other as readings \<open>n\<close> and \<open>n + 1\<close>, without a sleep since \<open>s\<close>.\<close>

definition clocks_at :: "probe_env \<Rightarrow> probes \<Rightarrow> nat \<Rightarrow> (int \<Rightarrow> int \<Rightarrow> bool) \<Rightarrow> bool" where
  "clocks_at e s n P \<longleftrightarrow> P (ce_wall e (pb_sleeps s) n) (ce_sim e (Suc n) div 1000000 * 1000000)"

lemma require_timely_window:
  assumes "require_timely e permit stage s = (Some (Passed f), t)"
  shows "permit_fields (PStr permit) = Inr f \<and> clocks_at e s (pb_reads s) (in_window f) \<and> t = s\<lparr>pb_reads := Suc (Suc (pb_reads s))\<rparr>"
  using assms by (auto simp: require_timely_def probe_passes clocks_at_def dest: check_timely_Passed)

text \<open>
  One packet left: its permit was read, both clocks were inside its window at the next two readings, for
  a chained one the attempt's last grant was live at the two readings after them, and then it was sent.
\<close>

definition sent_timely :: "probe_env \<Rightarrow> probes \<Rightarrow> probes \<Rightarrow> packet \<Rightarrow> string \<Rightarrow> bool \<Rightarrow> bool" where
  "sent_timely e s t pkt permit chained \<longleftrightarrow>
     (\<exists>f. permit_fields (PStr permit) = Inr f \<and> clocks_at e s (pb_reads s) (in_window f) \<and>
       (if chained then clocks_at e s (pb_reads s + 2) (still_live (grant_last (pb_chain s))) else True) \<and>
       t = s\<lparr>pb_reads := pb_reads s + (if chained then 4 else 2), pb_packet := pb_packet s + 1, pb_sent := pb_sent s @ [(pb_packet s + 1, pkt)],
             pb_chain := if chained then grant_sent f (pb_chain s) else pb_chain s\<rparr>)"

lemma send_timely_sends:
  assumes "send_timely e pkt permit stage chained s = (r, t)"
  shows "case r of Some (Passed _) \<Rightarrow> sent_timely e s t pkt permit chained | _ \<Rightarrow> pb_sent t = pb_sent s"
proof -
  obtain q u where u: "require_timely e permit stage s = (q, u)" by (cases "require_timely e permit stage s")
  have qu: "calm s u" by (rule skeepsD [OF quiet_packets(4) u])
  show ?thesis
  proof (cases "\<exists>f. q = Some (Passed f)")
    case False
    then have "t = u \<and> (\<forall>a. r \<noteq> Some (Passed a))" using assms u by (auto simp: send_timely_def sbind_def split: option.splits outcome.splits)
    then show ?thesis using qu by (auto simp: calm_def split: option.split outcome.split)
  next
    case True
    then obtain f where f: "q = Some (Passed f)" by blast
    with u require_timely_window have w: "permit_fields (PStr permit) = Inr f" "clocks_at e s (pb_reads s) (in_window f)"
      "u = s\<lparr>pb_reads := Suc (Suc (pb_reads s))\<rparr>" by blast+
    let ?g = "grant_last (pb_chain s)" and ?wall = "ce_wall e (pb_sleeps u) (pb_reads u)" and ?sim = "ce_sim e (Suc (pb_reads u)) div 1000000 * 1000000"
    let ?v = "if chained then u\<lparr>pb_reads := Suc (Suc (pb_reads u)), pb_chain := grant_sent f (pb_chain s)\<rparr> else u"
    have eqs: "pb_sent u = pb_sent s" "pb_packet u = pb_packet s" "pb_chain u = pb_chain s" using qu by (simp_all add: calm_def)
    have run: "(r, t) = (case (if chained then require_live stage ?g ?wall ?sim else Passed ()) of
        Passed _ \<Rightarrow> (Some (Passed ()), ?v\<lparr>pb_packet := pb_packet s + 1, pb_sent := pb_sent s @ [(pb_packet s + 1, pkt)]\<rparr>)
      | Inconclusive d \<Rightarrow> (Some (Inconclusive d), u\<lparr>pb_reads := Suc (Suc (pb_reads u))\<rparr>)
      | Raised x \<Rightarrow> (Some (Raised x), u\<lparr>pb_reads := Suc (Suc (pb_reads u))\<rparr>))"
      using assms u f eqs
      by (cases chained; cases "require_live stage ?g ?wall ?sim")
        (simp_all add: send_timely_def sbind_def sthen_def swhen_def sget_def sput_def wall_ns_def clock_ns_def probe_waiter_def
          probe_now_def reading_def sjudge_def send_packet_def)
    show ?thesis
    proof (cases "if chained then require_live stage ?g ?wall ?sim else Passed ()")
      case (Passed x)
      then have live: "chained \<Longrightarrow> still_live ?g ?wall ?sim" by (auto dest: require_live_Passed)
      with run Passed w show ?thesis
        by (cases chained) (auto simp: sent_timely_def clocks_at_def numeral_eq_Suc)
    qed (use run eqs in auto)
  qed
qed

end
