(* ===== verification/Probe_Attempts.thy ===== *)
theory Probe_Attempts
  imports Probe_Issuer
begin

text \<open>
  The attempts of the controller-permit probes (\<^verbatim>\<open>ros/gazebo/controller_probes.py\<close>): the maintenance
  reset, the positive controls of base and arm, the packets that must be refused, the recovery after a
  refusal and the late renewal, each as a script over the issuer of \<^theory_text>\<open>Probe_Issuer\<close> and the rules of
  \<^theory_text>\<open>Permit_Attempts\<close>. A check made by one of the nested functions of \<^verbatim>\<open>exercise\<close> is the script of that
  function; its \<^verbatim>\<open>pending\<close> attribute, read only right after the call that sets it, is the value it gives.
  Counters and publication times of a telemetry row are integers where they are read as numbers.
\<close>

section \<open>Telemetry\<close>

definition telemetry_mark :: "probe_env \<Rightarrow> string \<Rightarrow> (probes, nat) script" where
  "telemetry_mark e target = sbind (look e) (\<lambda>o'. sret (length (telemetry_rows target o')))"

text \<open>\<^verbatim>\<open>since\<close>\<close>

definition since :: "probe_env \<Rightarrow> string \<Rightarrow> nat \<Rightarrow> (probes, row list) script" where
  "since e target mark = sbind (look e) (\<lambda>o'. sret (drop mark (telemetry_rows target o')))"

text \<open>\<^verbatim>\<open>row.get(k, 0)\<close>, used as a number\<close>

definition count_of :: "row \<Rightarrow> string \<Rightarrow> int res" where
  "count_of r k = (case map_of r k of None \<Rightarrow> Inr 0 | Some v \<Rightarrow> need_int v)"

definition guard_count :: "probe_env \<Rightarrow> string \<Rightarrow> string \<Rightarrow> (probes, int) script" where
  "guard_count e target k = sbind (guard e target) (\<lambda>row. slift (count_of row k))"

text \<open>\<^verbatim>\<open>wait_row\<close> and \<^verbatim>\<open>wait_judged\<close>\<close>

definition wait_row :: "probe_env \<Rightarrow> string \<Rightarrow> (row \<Rightarrow> (probes, bool) script) \<Rightarrow> int \<Rightarrow> string \<Rightarrow> (probes, row) script" where
  "wait_row e target accept timeout description =
     probe_wait e (sbind (guard e target) (\<lambda>row. sbind (accept row) (\<lambda>b. sret (if b then Some row else None)))) timeout description None"

definition wait_judged :: "probe_env \<Rightarrow> string \<Rightarrow> nat \<Rightarrow> (row list \<Rightarrow> 'a option judged) \<Rightarrow> int \<Rightarrow> string \<Rightarrow> (probes, 'a) script" where
  "wait_judged e target mark judge timeout description =
     probe_wait e (sbind (since e target mark) (\<lambda>rows. sjudge (judge rows))) timeout description None"

section \<open>Fail-closed events\<close>

text \<open>\<^verbatim>\<open>fail_closed_check\<close>: the checkpoint, and its check, which gives whether hold evidence is pending.\<close>

record fc_check =
  fc_target :: string
  fc_mark :: nat
  fc_checkpoint :: int
  fc_rejected :: int
  fc_hold_after :: int
  fc_stage :: string

definition fail_closed_check :: "probe_env \<Rightarrow> string \<Rightarrow> int \<Rightarrow> string \<Rightarrow> (probes, fc_check) script" where
  "fail_closed_check e target hold_after stage =
     sbind (telemetry_mark e target) (\<lambda>mark.
     sbind (wall_ns e) (\<lambda>checkpoint.
     sbind (guard_count e target ''rejected'') (\<lambda>rejected.
     sret \<lparr>fc_target = target, fc_mark = mark, fc_checkpoint = checkpoint, fc_rejected = rejected, fc_hold_after = hold_after, fc_stage = stage\<rparr>)))"

definition check_events :: "probe_env \<Rightarrow> fc_check \<Rightarrow> grant_chain \<Rightarrow> (probes, bool) script" where
  "check_events e c chain =
     sbind (since e (fc_target c) (fc_mark c)) (\<lambda>rows.
     sbind (sjudge (require_no_fail_closed (fc_target c) rows (fc_checkpoint c) (fc_rejected c) chain (Some (fc_hold_after c)) (fc_stage c))) (\<lambda>v.
     sret (v = Pending)))"

text \<open>The check of the running attempt, on its own grant chain.\<close>

definition late_events :: "probe_env \<Rightarrow> fc_check \<Rightarrow> (probes, bool) script" where
  "late_events e c = sbind (sget pb_chain) (check_events e c)"

text \<open>\<^verbatim>\<open>settle\<close>\<close>

definition settle_events :: "probe_env \<Rightarrow> (probes, bool) script \<Rightarrow> string \<Rightarrow> (probes, unit) script" where
  "settle_events e chk description =
     on_timeout (probe_wait e (met (sbind chk (\<lambda>pending. sret (\<not> pending)))) 1000000000 description None)
       (sraise (AssertionError (description @ '': controller event without hold evidence'')))"

text \<open>\<^verbatim>\<open>positive_motion\<close>\<close>

definition last_counted :: "probe_env \<Rightarrow> string \<Rightarrow> fc_check \<Rightarrow> (probes, bool) script" where
  "last_counted e target c =
     sbind (late_events e c) (\<lambda>pending.
     sbind (guard e target) (\<lambda>row.
     sbind (sget pb_chain) (\<lambda>chain. sret (\<not> in_flight chain (getf row ''accepted'')))))"

definition require_admitted :: "probe_env \<Rightarrow> string \<Rightarrow> string \<Rightarrow> (probes, unit) script" where
  "require_admitted e target stage =
     sbind (guard e target) (\<lambda>row.
     sbind (sget pb_chain) (\<lambda>chain.
     sjudge (obind (admitted chain (getf row ''accepted'') stage) (\<lambda>_. Passed ()))))"

definition positive_motion ::
    "probe_env \<Rightarrow> string \<Rightarrow> fc_check \<Rightarrow> (probes, bool) script \<Rightarrow> int \<Rightarrow> string \<Rightarrow> (probes, unit) script \<Rightarrow> (probes, unit) script" where
  "positive_motion e target c moved timeout description action =
     sthen (guarded (settle_events e (late_events e c) description)
       (probe_wait e (met (sbind moved (\<lambda>m. if m then sret True else sbind (late_events e c) (\<lambda>_. sret False)))) timeout description (Some action)))
     (sthen (probe_wait e (met (last_counted e target c)) 1000000000 (description @ '': last permit counted'') None)
     (sthen (require_admitted e target description)
     (settle_events e (late_events e c) description)))"

section \<open>The arm's motion\<close>

text \<open>\<^verbatim>\<open>joint_history\<close>\<close>

definition history_entry :: "joint_msg \<Rightarrow> (int \<times> rat list) res" where
  "history_entry m = rbind (arm_positions m) (\<lambda>qs. Inr (jm_sec m * 1000000000 + jm_nsec m, map f_val qs))"

definition joint_history :: "probe_seen \<Rightarrow> (int \<times> rat list) list res" where
  "joint_history o' = rmap history_entry (filter (\<lambda>m. list_all (\<lambda>j. j \<in> set (jm_names m)) ARM_JOINTS) (se_measured o'))"

definition exceeds_drift :: "rat \<Rightarrow> bool" where
  "exceeds_drift q \<longleftrightarrow> \<not> val_le (PFloat (to_double q)) DRIFT_LIMIT"

definition drift_val :: "rat \<Rightarrow> pyval" where
  "drift_val q = PFloat (to_double q)"

text \<open>\<^verbatim>\<open>max(abs(a-b) for a,b in zip(...))\<close>\<close>

definition arm_drift :: "float64 list \<Rightarrow> float64 list \<Rightarrow> rat" where
  "arm_drift ps qs = Max (set (displacement (map f_val ps) (map f_val qs)))"

definition require_counted :: "probe_env \<Rightarrow> string \<Rightarrow> row \<Rightarrow> string \<Rightarrow> (probes, unit) script" where
  "require_counted e target before stage =
     (if target \<noteq> ''arm'' then sret ()
      else sbind (slift (count_of before ''accepted'')) (\<lambda>a. sbind (slift (count_of before ''rejected'')) (\<lambda>r.
        sthen (on_timeout
            (probe_wait e (met (sbind (guard_count e target ''accepted'') (\<lambda>a'. if a < a' then sret True
               else sbind (guard_count e target ''rejected'') (\<lambda>r'. sret (r < r'))))) 1000000000 (stage @ '': valid arm goal counted'') None)
            (sraise (AssertionError (stage @ '': the controller never counted a valid arm goal''))))
        (sbind (guard e target) (\<lambda>counted. sbind (slift (count_of counted ''rejected'')) (\<lambda>r'.
          if r < r' \<and> getf counted ''reason'' \<notin> {PStr ''freshness'', PStr ''rejected'', PStr ''locked''}
          then sraise (AssertionError (stage @ '': the controller refused a valid arm goal for another reason'')) else sret ()))))))"

text \<open>\<^verbatim>\<open>arm_hold\<close>: the arm's counted refusal, its prompt hold, and no motion from then on.\<close>

record arm_stop =
  ah_refusal_stamp :: int
  ah_cutoff :: int
  ah_moved :: rat

definition arm_hold :: "probe_env \<Rightarrow> string \<Rightarrow> nat \<Rightarrow> int \<Rightarrow> int \<Rightarrow> int \<Rightarrow> (probes, arm_stop) script" where
  "arm_hold e stage mark sent_ns rejected_before hold_after =
     sbind (on_timeout
       (wait_judged e ''arm'' mark (\<lambda>rows. refusal_hold rows sent_ns rejected_before (Some hold_after) stage) 2000000000
          (stage @ '' counted refusal and prompt hold''))
       (sraise (AssertionError (stage @ '': no controller refusal and hold bound the arm's motion'')))) (\<lambda>(refused, held).
     sbind (slift (need_int (getf refused ''stamp_ms''))) (\<lambda>stamp.
     sbind (look e) (\<lambda>o'. sbind (slift (joint_history o')) (\<lambda>history.
     sbind (seen_positions e) (\<lambda>final.
     case motion_after history (min stamp (hd_cutoff held) * 1000000) (map f_val final) of
       None \<Rightarrow> sraise (AssertionError (stage @ '' moved after the controller refused it''))
     | Some moved \<Rightarrow>
         if exceeds_drift moved then sraise (AssertionError (stage @ '' moved after the controller refused it''))
         else sret \<lparr>ah_refusal_stamp = stamp, ah_cutoff = hd_cutoff held, ah_moved = moved\<rparr>)))))"

definition hold_val :: "arm_stop \<Rightarrow> row" where
  "hold_val h = [(''refusal_stamp_ms'', PInt (ah_refusal_stamp h)), (''hold_cutoff_ms'', PInt (ah_cutoff h)), (''drift_after_refusal'', drift_val (ah_moved h))]"

section \<open>The maintenance reset\<close>

text \<open>\<^verbatim>\<open>new_issuer\<close>: a fresh fixture, its signer and an empty pipe.\<close>

definition new_issuer :: "probe_env \<Rightarrow> (probes, unit) script" where
  "new_issuer e =
     sthen (sput (\<lambda>s. s\<lparr>pb_fixture := pb_fixture s + 1\<rparr>))
     (sbind (sget (\<lambda>s. ce_fixture e (pb_fixture s))) (\<lambda>(trust_text, state, key_paths).
      sbind (slift (signer_init (ce_loads e) (ce_pub e) (ce_euid e) trust_text state key_paths)) (\<lambda>source.
      sput (\<lambda>s. s\<lparr>pb_issuer := Some (source, []), pb_proposal := 0\<rparr>))))"

definition guard_nonce :: "probe_env \<Rightarrow> string \<Rightarrow> (probes, pyval) script" where
  "guard_nonce e target = sbind (guard e target) (\<lambda>row. sret (getf row ''nonce''))"

definition fresh_nonce :: "probe_env \<Rightarrow> string \<Rightarrow> pyval \<Rightarrow> (probes, bool) script" where
  "fresh_nonce e target previous =
     sbind (guard_nonce e target) (\<lambda>n. if \<not> truthy n then sret False
     else sbind (guard_nonce e target) (\<lambda>n'. sret (\<not> pyeq n' previous)))"

text \<open>\<^verbatim>\<open>signer.observe(target, guard(target)); signer.sequence[target] = 0\<close>\<close>

definition observe_controller :: "probe_env \<Rightarrow> string \<Rightarrow> (probes, unit) script" where
  "observe_controller e target =
     sbind (guard e target) (\<lambda>row s.
     case ps_observe target (PDict row) (pb_permits s) of
       (Inl x, g) \<Rightarrow> (Some (Raised x), s\<lparr>pb_permits := g\<rparr>)
     | (Inr u, g) \<Rightarrow> (Some (Passed ()), s\<lparr>pb_permits := g\<lparr>sequence := dput target 0 (sequence g)\<rparr>\<rparr>))"

definition request_reset :: "probe_env \<Rightarrow> (probes, unit) script" where
  "request_reset e =
     sbind (guard_nonce e ''base'') (\<lambda>base. sbind (guard_nonce e ''arm'') (\<lambda>arm.
     sthen (sput (\<lambda>s. s\<lparr>pb_reset := pb_reset s + 1\<rparr>))
     (sbind (sget pb_reset) (\<lambda>n.
      sthen (probe_wait e (met (sbind (reading (ce_resets e)) (\<lambda>completed. sret (n \<in> set completed)))) 15000000000
        ''bounded trusted controller maintenance reset'' None)
      (probe_wait e (met (sbind (fresh_nonce e ''base'' base) (\<lambda>b. if b then fresh_nonce e ''arm'' arm else sret False))) 2000000000
        ''fresh activation nonce telemetry'' None)))))"

definition stop_packet :: "probe_env \<Rightarrow> (probes, packet \<times> permit_view \<times> permit_view \<times> string) script" where
  "stop_packet e =
     sbind (approve_probe e (PDict [(''type'', PStr ''stop'')])) (\<lambda>(sim, wall, step).
     sbind (slift (base_digest (ce_sha e) (base_message sim 0))) (\<lambda>digest.
     sbind (sjudge (budget step sim)) (\<lambda>n.
     sbind (token e ''base'' ''reset'' digest sim wall n) (\<lambda>bp.
     sbind (token e ''arm'' ''reset'' IDLE sim wall n) (\<lambda>ap.
     sbind (slift (permit_fields (PStr bp))) (\<lambda>bf.
     sbind (slift (permit_fields (PStr ap))) (\<lambda>af.
     sret (\<lparr>pk_base = Some \<lparr>bd_stamp = sim, bd_linear = 0, bd_angular = 0, bd_permit = bp\<rparr>, pk_arm = None, pk_heartbeat = Some ap\<rparr>, bf, af, ap))))))))"

definition reset_check :: "probe_env \<Rightarrow> string \<Rightarrow> permit_view \<Rightarrow> int \<Rightarrow> (probes, fc_check \<times> grant_chain) script" where
  "reset_check e target f unlocked =
     sbind (guard_count e target ''accepted'') (\<lambda>a.
     sbind (fail_closed_check e target unlocked (target @ '' maintenance reset'')) (\<lambda>c.
     sret (c, grant_chain_init f a)))"

definition grant_of_reset :: "probe_env \<Rightarrow> string \<Rightarrow> permit_view \<Rightarrow> (probes, reset_grant) script" where
  "grant_of_reset e target f =
     sbind (sget (\<lambda>s. map_of (challenges (pb_permits s)) target)) (\<lambda>nonce.
     sbind (slift (case nonce of None \<Rightarrow> Inl (KeyError target) | Some n \<Rightarrow> Inr n)) (\<lambda>n.
     sbind (guard_count e target ''accepted'') (\<lambda>a.
     sbind (guard_count e target ''rejected'') (\<lambda>r.
     sbind (guard_count e target ''published_wall_ns'') (\<lambda>u.
     sret \<lparr>rg_nonce = PStr n, rg_accepted = a, rg_rejected = r, rg_unlocked = u, rg_fields = f\<rparr>)))))"

definition unlocked_row :: "probe_env \<Rightarrow> string \<Rightarrow> (probes, bool) script" where
  "unlocked_row e target = sbind (guard e target) (\<lambda>row. sret (case map_of row ''holding'' of None \<Rightarrow> False | Some v \<Rightarrow> \<not> truthy v))"

text \<open>\<^verbatim>\<open>reset\<close>: the grants of base and arm\<close>

definition maintenance_reset :: "probe_env \<Rightarrow> (probes, reset_grant \<times> reset_grant) script" where
  "maintenance_reset e =
     sthen (probe_wait e (met (stopped e)) 2000000000 ''fresh measured wheel and arm stop before maintenance reset'' None)
     (sthen (new_issuer e)
     (sthen (request_reset e)
     (sthen (observe_controller e ''base'')
     (sthen (observe_controller e ''arm'')
     (sbind (stop_packet e) (\<lambda>(pkt, bf, af, heartbeat).
      sbind (wall_ns e) (\<lambda>unlocked.
      sbind (reset_check e ''base'' bf unlocked) (\<lambda>(base_check, base_chain).
      sbind (reset_check e ''arm'' af unlocked) (\<lambda>(arm_check, arm_chain).
      sthen (send_timely e pkt heartbeat ''maintenance reset'' False)
      (sthen (probe_wait e (met (sthen (check_events e base_check base_chain) (sthen (check_events e arm_check arm_chain)
          (sbind (unlocked_row e ''base'') (\<lambda>b. if b then unlocked_row e ''arm'' else sret False))))) 2000000000
        ''explicit signed controller reset'' None)
      (sbind (grant_of_reset e ''base'' bf) (\<lambda>bg. sbind (grant_of_reset e ''arm'' af) (\<lambda>ag. sret (bg, ag))))))))))))))"

definition reset_for :: "probe_env \<Rightarrow> string \<Rightarrow> (probes, reset_grant) script" where
  "reset_for e target = sbind (maintenance_reset e) (\<lambda>(bg, ag). sret (if target = ''base'' then bg else ag))"

section \<open>Recovery after a refusal\<close>

definition seen_pose :: "probe_env \<Rightarrow> (probes, point) script" where
  "seen_pose e = sbind (look e) (\<lambda>o'. slift (case se_odom o' of None \<Rightarrow> Inl TypeError | Some om \<Rightarrow> Inr (pose_of om)))"

text \<open>\<^verbatim>\<open>until = time.monotonic() + .3; wait_for(lambda: time.monotonic() >= until, 2, ...)\<close>\<close>

definition observe_for :: "probe_env \<Rightarrow> string \<Rightarrow> (probes, unit) script" where
  "observe_for e description =
     sbind (wall_ns e) (\<lambda>t0. probe_wait e (met (sbind (wall_ns e) (\<lambda>t. sret (t0 + 300000000 \<le> t)))) 2000000000 description None)"

definition latched_row :: "row \<Rightarrow> row \<Rightarrow> bool" where
  "latched_row latched row \<longleftrightarrow> getf row ''holding'' = PBool True \<and>
     list_all (\<lambda>k. pyeq (getf row k) (getf latched k)) [''nonce'', ''accepted'', ''rejected'']"

definition still_latched :: "probe_env \<Rightarrow> string \<Rightarrow> string \<Rightarrow> nat \<Rightarrow> row \<Rightarrow> (probes, unit) script" where
  "still_latched e target stage entry latched =
     sbind (since e target entry) (\<lambda>rows.
     if list_all (latched_row latched) (latched # rows) then sret ()
     else sraise (AssertionError (''automatic recovery before the '' @ stage @ '' recovery packet left'')))"

definition packet_for :: "probe_env \<Rightarrow> string \<Rightarrow> (probes, packet) script" where
  "packet_for e target = (if target = ''base'' then base_packet e else sbind (arm_packet e) (\<lambda>(pkt, digest). sret pkt))"

definition packet_permit :: "string \<Rightarrow> packet \<Rightarrow> string" where
  "packet_permit target pkt =
     (if target = ''base'' then (case pk_base pkt of None \<Rightarrow> [] | Some d \<Rightarrow> bd_permit d)
      else (case pk_arm pkt of None \<Rightarrow> [] | Some d \<Rightarrow> ad_permit d))"

definition read_place :: "probe_env \<Rightarrow> (probes, point \<times> float64 list) script" where
  "read_place e = sbind (seen_pose e) (\<lambda>pose. sbind (seen_positions e) (\<lambda>joints. sret (pose, joints)))"

text \<open>The new packet of the recovery, built but not sent, with what the telemetry and the body showed before it.\<close>

definition recovery_witness :: "probe_env \<Rightarrow> string \<Rightarrow> string \<Rightarrow> packet \<Rightarrow> (probes, packet \<times> nat \<times> witness \<times> point \<times> float64 list) script" where
  "recovery_witness e target stage fresh =
     sbind (telemetry_mark e target) (\<lambda>mark.
     sbind (guard e target) (\<lambda>before.
     sbind (slift (count_of before ''accepted'')) (\<lambda>a.
     sbind (slift (count_of before ''rejected'')) (\<lambda>r.
     sbind (read_place e) (\<lambda>(pose, joints).
     sthen (swhen (target = ''base'') (sthen (require_timely e (packet_permit target fresh) (stage @ '' recovery'')) (sret ())))
     (sret (fresh, mark, \<lparr>w_sent = 0, w_nonce = getf before ''nonce'', w_accepted = PInt a, w_rejected = r, w_published = None\<rparr>, pose, joints)))))))"

definition recovery_packet :: "probe_env \<Rightarrow> string \<Rightarrow> string \<Rightarrow> (probes, packet \<times> nat \<times> witness \<times> point \<times> float64 list) script" where
  "recovery_packet e target stage =
     sthen (new_issuer e)
     (sthen (approve_probe e (PDict [(''type'', PStr ''stop'')]))
     (sbind (packet_for e target) (recovery_witness e target stage)))"

definition drift_from :: "probe_env \<Rightarrow> string \<Rightarrow> point \<Rightarrow> float64 list \<Rightarrow> (probes, rat) script" where
  "drift_from e target pose joints =
     (if target = ''base'' then sbind (seen_pose e) (\<lambda>p. sret (ce_dist e p pose))
      else sbind (seen_positions e) (\<lambda>qs. sret (arm_drift joints qs)))"

definition recovery_motion :: "probe_env \<Rightarrow> string \<Rightarrow> point \<Rightarrow> float64 list \<Rightarrow> (probes, rat) script" where
  "recovery_motion e target pose joints =
     sthen (observe_for e ''recovery remains locked'')
     (sbind (drift_from e target pose joints) (\<lambda>drift.
      sbind (guard e target) (\<lambda>row.
      if getf row ''holding'' \<noteq> PBool True \<or> exceeds_drift drift then sraise (AssertionError ''automatic recovery'') else sret drift)))"

definition reason_of :: "(string \<times> string) list \<Rightarrow> string \<Rightarrow> (probes, string) script" where
  "reason_of reasons k = slift (case map_of reasons k of None \<Rightarrow> Inl (KeyError k) | Some r \<Rightarrow> Inr r)"

text \<open>\<^verbatim>\<open>recover\<close>: the entries it adds to a negative case's row\<close>

definition recover :: "probe_env \<Rightarrow> string \<Rightarrow> string \<Rightarrow> (probes, row) script" where
  "recover e target stage =
     sbind (telemetry_mark e target) (\<lambda>entry.
     sbind (guard e target) (\<lambda>latched.
     sbind (guarded (still_latched e target stage entry latched) (recovery_packet e target stage)) (\<lambda>(fresh, mark, w, pose, joints).
     sbind (wall_ns e) (\<lambda>sent.
     sthen (send_packet fresh)
     (sbind (guarded (sthen (recovery_motion e target pose joints) (sret ()))
       (sbind (reason_of RECOVERY_REASONS target) (\<lambda>expected.
        wait_judged e target mark (\<lambda>rows. refusal target rows (w\<lparr>w_sent := sent\<rparr>) expected
          (if target = ''base'' then [''freshness''] else []) None (stage @ '' recovery'') None) 2000000000
          ''fresh recovery rejected at locked controller''))) (\<lambda>(refused, held).
      sbind (recovery_motion e target pose joints) (\<lambda>drift.
      sbind (guard_count e target ''accepted'') (\<lambda>a.
      if PInt a \<noteq> w_accepted w then sraise (AssertionError ''automatic recovery'')
      else sret [(''recovery_did_not_rearm'', PBool True), (''recovery_rejection_observed'', PBool True),
                 (''recovery_rejection_reason'', getf refused ''reason''), (''recovery_drift'', drift_val drift)]))))))))"

section \<open>Positive controls\<close>

definition start_chain :: "reset_grant \<Rightarrow> (probes, unit) script" where
  "start_chain g = sput (\<lambda>s. s\<lparr>pb_chain := grant_chain_init (rg_fields g) (rg_accepted g - 1)\<rparr>)"

text \<open>\<^verbatim>\<open>send_command\<close>: one command in flight at a time\<close>

definition probe_command :: "probe_env \<Rightarrow> (probes, unit) script" where
  "probe_command e =
     sbind (guard e ''base'') (\<lambda>row. sbind (sget pb_chain) (\<lambda>chain.
     if in_flight chain (getf row ''accepted'') then sret ()
     else sbind (base_packet e) (\<lambda>pkt. send_timely e pkt (packet_permit ''base'' pkt) ''base command'' True)))"

definition base_moved :: "probe_env \<Rightarrow> point \<Rightarrow> (probes, rat) script" where
  "base_moved e before = sbind (seen_pose e) (\<lambda>p. sret \<bar>fst p - fst before\<bar>)"

text \<open>\<^verbatim>\<open>base_positive\<close>\<close>

definition base_positive :: "probe_env \<Rightarrow> (probes, row) script" where
  "base_positive e =
     sbind (reset_for e ''base'') (\<lambda>grant.
     sthen (start_chain grant)
     (sbind (seen_pose e) (\<lambda>before.
      sbind (fail_closed_check e ''base'' (rg_unlocked grant) ''signed base physically moves'') (\<lambda>late.
      sthen (positive_motion e ''base'' late (sbind (base_moved e before) (\<lambda>d. sret (f_val 0x3F9EB851EB851EB8 < d))) 4000000000
        ''signed base physically moves'' (probe_command e))
      (sbind (base_moved e before) (\<lambda>d. sret [(''ok'', PBool True), (''moved_m'', drift_val d)]))))))"

definition joint1 :: "probe_env \<Rightarrow> (probes, float64) script" where
  "joint1 e = sbind (look e) (\<lambda>o'. slift (case se_joint o' of None \<Rightarrow> Inl TypeError | Some jm \<Rightarrow> primary_joint jm))"

definition arm_moved :: "probe_env \<Rightarrow> float64 \<Rightarrow> (probes, rat) script" where
  "arm_moved e before = sbind (joint1 e) (\<lambda>q. sret \<bar>f_val q - f_val before\<bar>)"

text \<open>\<^verbatim>\<open>renew\<close>\<close>

definition rust_active :: "pyval \<Rightarrow> bool res" where
  "rust_active step = rbind (dget_or step ''status'' (PDict [])) (\<lambda>st. rbind (dget st ''active'') (\<lambda>a. Inr (a \<noteq> PNone)))"

definition renewal_judged :: "pyval \<Rightarrow> rat \<Rightarrow> int \<Rightarrow> unit judged" where
  "renewal_judged step elapsed t =
     obind (judge_res (require_fresh_actuation step elapsed t 200 50)) (\<lambda>_.
     if 50 \<le> elapsed then delay ''arm renewal'' ''renewal_round_trip_at_or_over_limit'' else Passed ())"

text \<open>The part of \<^verbatim>\<open>renew\<close> from the second reading of the clocks on.\<close>

definition send_renewal :: "probe_env \<Rightarrow> fc_check \<Rightarrow> string \<Rightarrow> int \<Rightarrow> int \<Rightarrow> pyval \<Rightarrow> (probes, unit) script" where
  "send_renewal e late digest stamp wall step =
     sbind (wall_ns e) (\<lambda>t1. sbind (probe_now e) (\<lambda>t2. sbind (probe_now e) (\<lambda>t3.
     sthen (sjudge (renewal_judged step (round_trip_ms wall t1 stamp t2) t3))
     (sbind (slift (rust_active step)) (\<lambda>active.
      if \<not> active then sthen (settle_events e (late_events e late) ''arm renewal lost Rust authority'')
          (sraise (AssertionError ''arm renewal lost Rust authority''))
      else
        sbind (sjudge (budget step (stamp * 1000000))) (\<lambda>n.
        sbind (token e ''arm'' ''lease'' digest (stamp * 1000000) wall n) (\<lambda>heartbeat.
        send_timely e \<lparr>pk_base = None, pk_arm = None, pk_heartbeat = Some heartbeat\<rparr> heartbeat ''arm renewal'' True)))))))"

definition renew :: "probe_env \<Rightarrow> fc_check \<Rightarrow> string \<Rightarrow> (probes, unit) script" where
  "renew e late digest =
     sbind (probe_now e) (\<lambda>stamp.
     sbind (wall_ns e) (\<lambda>wall.
     sbind (world_snapshot e) (\<lambda>snapshot.
     sbind (feed e ''world'' snapshot) (\<lambda>step.
     sthen (sjudge (require_world_accepted step snapshot))
     (sbind (guard e ''arm'') (\<lambda>row. sbind (sget pb_chain) (\<lambda>chain.
      if in_flight chain (getf row ''accepted'') then sret () else send_renewal e late digest stamp wall step)))))))"

definition send_goal :: "probe_env \<Rightarrow> string \<Rightarrow> (probes, string) script" where
  "send_goal e stage = sbind (arm_packet e) (\<lambda>(pkt, digest). sthen (send_timely e pkt (packet_permit ''arm'' pkt) stage True) (sret digest))"

definition goal_admitted :: "probe_env \<Rightarrow> fc_check \<Rightarrow> int \<Rightarrow> (probes, bool) script" where
  "goal_admitted e late accepted =
     sbind (late_events e late) (\<lambda>pending.
     if pending then sret False
     else sbind (guard_count e ''arm'' ''accepted'') (\<lambda>a. if \<not> accepted < a then sret False else unlocked_row e ''arm''))"

text \<open>\<^verbatim>\<open>arm_positive\<close>\<close>

definition arm_positive :: "probe_env \<Rightarrow> (probes, row) script" where
  "arm_positive e =
     (let stage = ''signed arm physically moves'' in
      sbind (reset_for e ''arm'') (\<lambda>grant.
      sthen (start_chain grant)
      (sbind (seen_positions e) (\<lambda>initial.
       sbind (guard e ''arm'') (\<lambda>before.
       sbind (slift (count_of before ''accepted'')) (\<lambda>accepted.
       sbind (fail_closed_check e ''arm'' (rg_unlocked grant) stage) (\<lambda>late.
       sbind (guarded (settle_events e (late_events e late) stage) (send_goal e ''arm goal'')) (\<lambda>digest.
       sthen (guarded (require_counted e ''arm'' before stage)
         (probe_wait e (met (goal_admitted e late accepted)) 1000000000 ''trusted controller admits signed arm goal'' None))
       (sthen (positive_motion e ''arm'' late (sbind (arm_moved e (hd initial)) (\<lambda>d. sret (f_val 0x3FB47AE147AE147B < d))) 3000000000
           stage (renew e late digest))
       (sbind (arm_moved e (hd initial)) (\<lambda>d. sret [(''ok'', PBool True), (''moved_rad'', drift_val d)])))))))))))"

end
