(* ===== verification/Probe_Refusals.thy ===== *)
theory Probe_Refusals
  imports Probe_Attempts
begin

text \<open>
  The packets a controller must refuse (\<^verbatim>\<open>negative\<close> and \<^verbatim>\<open>late_renewal\<close> of
  \<^verbatim>\<open>ros/gazebo/controller_probes.py\<close>) and the order in which \<^verbatim>\<open>exercise\<close> runs all cases.
\<close>

section \<open>Tampering\<close>

definition with_permit :: "string \<Rightarrow> string \<Rightarrow> packet \<Rightarrow> packet" where
  "with_permit target permit pkt =
     (if target = ''base'' then pkt\<lparr>pk_base := map_option (\<lambda>d. d\<lparr>bd_permit := permit\<rparr>) (pk_base pkt)\<rparr>
      else pkt\<lparr>pk_arm := map_option (\<lambda>d. d\<lparr>ad_permit := permit\<rparr>) (pk_arm pkt)\<rparr>)"

text \<open>\<^verbatim>\<open>altered\<close>: 0.1 more velocity, or 0.1 rad more for the first joint of the first point.\<close>

definition altered_packet :: "string \<Rightarrow> packet \<Rightarrow> packet" where
  "altered_packet target pkt =
     (if target = ''base'' then pkt\<lparr>pk_base := map_option (\<lambda>d. d\<lparr>bd_linear := shifted 0x3FB999999999999A (bd_linear d)\<rparr>) (pk_base pkt)\<rparr>
      else pkt\<lparr>pk_arm := map_option (\<lambda>d. d\<lparr>ad_points := (case ad_points d of
          (q # qs, t) # ps \<Rightarrow> (shifted 0x3FB999999999999A q # qs, t) # ps | ps \<Rightarrow> ps)\<rparr>) (pk_arm pkt)\<rparr>)"

definition broken_signature :: "string \<Rightarrow> string" where
  "broken_signature s = butlast s @ (if last s \<noteq> CHR ''0'' then ''0'' else ''1'')"

definition colon_field :: "nat \<Rightarrow> string \<Rightarrow> string res" where
  "colon_field i s = (let fs = split_on (CHR '':'') s in if i < length fs then Inr (fs ! i) else Inl IndexError)"

text \<open>A genuine permit of the other controller for the same digest and times.\<close>

definition foreign_permit :: "probe_env \<Rightarrow> string \<Rightarrow> string \<Rightarrow> (probes, string) script" where
  "foreign_permit e target permit =
     (let foreign = (if target = ''base'' then ''arm'' else ''base'') in
      sbind (slift (colon_field 8 permit)) (\<lambda>digest.
      sbind (slift (rbind (colon_field 4 permit) py_int)) (\<lambda>sim.
      sbind (slift (rbind (colon_field 5 permit) py_int)) (\<lambda>wall.
      sbind (slift (rbind (colon_field 6 permit) py_int)) (\<lambda>sim_end.
      token e foreign (if foreign = ''arm'' then ''goal'' else ''command'') digest (sim + SIM_ORDERING_BACKDATE_NS) wall (sim_end - sim))))))"

definition tampered :: "probe_env \<Rightarrow> string \<Rightarrow> string \<Rightarrow> packet \<Rightarrow> (probes, packet) script" where
  "tampered e target cs pkt =
     (if cs = ''unsigned'' then sret (with_permit target [] pkt)
      else if cs = ''altered'' then sret (altered_packet target pkt)
      else if cs = ''signature'' then sret (with_permit target (broken_signature (packet_permit target pkt)) pkt)
      else if cs = ''target'' then sbind (foreign_permit e target (packet_permit target pkt)) (\<lambda>p. sret (with_permit target p pkt))
      else sret pkt)"

section \<open>The witness before the packet\<close>

record negative_witness =
  nw_nonce :: pyval
  nw_holding :: pyval
  nw_reason :: pyval
  nw_published :: int
  nw_accepted :: int
  nw_rejected :: int
  nw_lease_end :: int
  nw_sent :: int

definition row_int :: "row \<Rightarrow> string \<Rightarrow> int res" where
  "row_int r k = rbind (dix (PDict r) k) need_int"

definition witness_of :: "row \<Rightarrow> int \<Rightarrow> negative_witness res" where
  "witness_of r lease_end =
     rbind (count_of r ''rejected'') (\<lambda>rejected. rbind (count_of r ''accepted'') (\<lambda>accepted.
     rbind (dix (PDict r) ''nonce'') (\<lambda>nonce. rbind (dix (PDict r) ''holding'') (\<lambda>holding. rbind (dix (PDict r) ''reason'') (\<lambda>reason.
     rbind (row_int r ''published_wall_ns'') (\<lambda>published.
     Inr \<lparr>nw_nonce = nonce, nw_holding = holding, nw_reason = reason, nw_published = published, nw_accepted = accepted,
          nw_rejected = rejected, nw_lease_end = lease_end, nw_sent = 0\<rparr>))))))"

definition scan_witness :: "negative_witness \<Rightarrow> witness" where
  "scan_witness w = \<lparr>w_sent = nw_sent w, w_nonce = nw_nonce w, w_accepted = PInt (nw_accepted w), w_rejected = nw_rejected w, w_published = Some (nw_published w)\<rparr>"

text \<open>The row as the report reads it, with what the refusal showed.\<close>

definition admission_val :: "negative_witness \<Rightarrow> row \<Rightarrow> pyval" where
  "admission_val w refused = PDict
     [(''nonce_before'', nw_nonce w), (''holding_before'', nw_holding w), (''reason_before'', nw_reason w),
      (''before_published_wall_ns'', PInt (nw_published w)), (''accepted_before'', PInt (nw_accepted w)), (''rejected_before'', PInt (nw_rejected w)),
      (''lease_wall_end_ns'', PInt (nw_lease_end w)), (''sent_wall_ns'', PInt (nw_sent w)),
      (''nonce_after'', getf refused ''nonce''), (''accepted_after'', getf refused ''accepted''), (''rejected_after'', getf refused ''rejected''),
      (''rejection_reason'', getf refused ''reason''), (''rejection_published_wall_ns'', getf refused ''published_wall_ns'')]"

definition stale_val :: "permit_view \<Rightarrow> pyval" where
  "stale_val f = PDict [(''sim_ns'', PInt (pf_sim f)), (''wall_ns'', PInt (pf_wall f)), (''sim_end_ns'', PInt (pf_sim_end f)), (''wall_end_ns'', PInt (pf_wall_end f))]"

text \<open>\<^verbatim>\<open>since(target, mark) or [guard(target)]\<close>\<close>

definition rows_since_or_guard :: "probe_env \<Rightarrow> string \<Rightarrow> nat \<Rightarrow> (probes, row list) script" where
  "rows_since_or_guard e target mark =
     sbind (since e target mark) (\<lambda>rows. if rows = [] then sbind (guard e target) (\<lambda>row. sret [row]) else sret rows)"

text \<open>\<^verbatim>\<open>lease_events\<close>\<close>

definition lease_events :: "probe_env \<Rightarrow> string \<Rightarrow> string \<Rightarrow> nat \<Rightarrow> reset_grant \<Rightarrow> (probes, bool) script" where
  "lease_events e target stage mark grant =
     sbind (rows_since_or_guard e target mark) (\<lambda>rows.
     sbind (sjudge (reset_lease_events target stage rows grant)) (\<lambda>v. sret (v = Pending)))"

text \<open>The row the reset left, still live on both clocks.\<close>

definition reset_untouched :: "reset_grant \<Rightarrow> row \<Rightarrow> bool" where
  "reset_untouched grant row \<longleftrightarrow> pyeq (getf row ''nonce'') (rg_nonce grant) \<and> eq_int (getf row ''accepted'') (rg_accepted grant) \<and>
     eq_int (getf row ''rejected'') (rg_rejected grant) \<and> getf row ''holding'' = PBool False \<and> getf row ''reason'' = PStr ''accepted''"

definition reset_live :: "probe_env \<Rightarrow> reset_grant \<Rightarrow> row \<Rightarrow> (probes, bool) script" where
  "reset_live e grant row =
     (if \<not> reset_untouched grant row then sret False
      else sbind (wall_ns e) (\<lambda>t. sbind (slift (count_of row ''published_wall_ns'')) (\<lambda>p.
        if \<not> (0 \<le> t - p \<and> t - p < VERIFIER_WINDOW_NS) then sret False
        else sbind (wall_ns e) (\<lambda>t'. if \<not> t' < pf_wall_end (rg_fields grant) then sret False
          else sbind (probe_now e) (\<lambda>n. sret (n * 1000000 < pf_sim_end (rg_fields grant)))))))"

definition await_live_reset :: "probe_env \<Rightarrow> string \<Rightarrow> string \<Rightarrow> nat \<Rightarrow> reset_grant \<Rightarrow> (probes, row) script" where
  "await_live_reset e target stage mark grant =
     on_timeout (wait_row e target (reset_live e grant) 200000000 (stage @ '' live reset before negative packet''))
       (sthen (probe_wait e (met (sbind (rows_since_or_guard e target mark) (\<lambda>rows. sjudge (precondition_miss target stage rows grant))))
           1000000000 (stage @ '' reset lease lapse evidence'') None)
         (sraise (AssertionError (stage @ '': reset lease judgement returned without a verdict''))))"

section \<open>Before the negative packet leaves\<close>

record negative_ready =
  np_packet :: packet
  np_mark :: nat
  np_row :: row
  np_witness :: negative_witness
  np_pose :: point
  np_joints :: "float64 list"
  np_stale :: "permit_view option"
  np_first :: "fc_check option"

definition stale_replacement :: "probe_env \<Rightarrow> string \<Rightarrow> string \<Rightarrow> string \<Rightarrow> packet \<Rightarrow> (probes, packet \<times> permit_view option) script" where
  "stale_replacement e target cs stage pkt =
     (if cs = ''delay'' then
        sbind (slift (colon_field 8 (packet_permit target pkt))) (\<lambda>digest.
        sbind (stale_permit e target (if target = ''base'' then ''command'' else ''goal'') digest stage) (\<lambda>(permit, fields).
        sret (with_permit target permit pkt, Some fields)))
      else sret (pkt, None))"

definition first_checkpoint :: "probe_env \<Rightarrow> string \<Rightarrow> string \<Rightarrow> string \<Rightarrow> negative_witness \<Rightarrow> (probes, fc_check option) script" where
  "first_checkpoint e target cs stage w =
     (if cs = ''replay'' then sbind (fail_closed_check e target (nw_published w) (stage @ '' first packet'')) (\<lambda>c. sret (Some c)) else sret None)"

text \<open>\<^verbatim>\<open>require_fresh_witness\<close> and \<^verbatim>\<open>require_live\<close> at the instant of the send\<close>

definition send_instant :: "probe_env \<Rightarrow> string \<Rightarrow> int \<Rightarrow> permit_view \<Rightarrow> (probes, int) script" where
  "send_instant e stage published f =
     sbind (wall_ns e) (\<lambda>sent.
     sthen (sjudge (require_fresh_witness stage published sent))
     (sbind (probe_now e) (\<lambda>n.
      sthen (sjudge (require_live stage f sent (n * 1000000))) (sret sent))))"

definition prepare_negative :: "probe_env \<Rightarrow> string \<Rightarrow> string \<Rightarrow> string \<Rightarrow> reset_grant \<Rightarrow> nat \<Rightarrow> (probes, negative_ready) script" where
  "prepare_negative e target cs stage grant lease_mark =
     sbind (packet_for e target) (\<lambda>pkt.
     sbind (tampered e target cs pkt) (\<lambda>pkt.
     sbind (telemetry_mark e target) (\<lambda>mark.
     sbind (await_live_reset e target stage lease_mark grant) (\<lambda>row.
     sbind (slift (witness_of row (pf_wall_end (rg_fields grant)))) (\<lambda>w.
     sbind (read_place e) (\<lambda>(pose, joints).
     sbind (stale_replacement e target cs stage pkt) (\<lambda>(pkt, stale).
     sthen (swhen (cs \<in> {''signature'', ''replay''}) (sthen (require_timely e (packet_permit target pkt) stage) (sret ())))
     (sbind (first_checkpoint e target cs stage w) (\<lambda>first.
     sbind (send_instant e stage (nw_published w) (rg_fields grant)) (\<lambda>sent.
     sret \<lparr>np_packet = pkt, np_mark = mark, np_row = row, np_witness = w\<lparr>nw_sent := sent\<rparr>, np_pose = pose, np_joints = joints,
           np_stale = stale, np_first = first\<rparr>))))))))))"

section \<open>The replay\<close>

record replayed =
  rp_fields :: row
  rp_witness :: negative_witness
  rp_governing :: permit_view
  rp_pose :: point
  rp_joints :: "float64 list"
  rp_nonce :: pyval

text \<open>The first copy's admission, as the telemetry must show it.\<close>

definition first_admitted :: "probe_env \<Rightarrow> string \<Rightarrow> fc_check \<Rightarrow> negative_witness \<Rightarrow> row \<Rightarrow> (probes, bool) script" where
  "first_admitted e target late w row =
     sbind (late_events e late) (\<lambda>pending.
     if pending then sret False
     else sbind (slift (count_of row ''published_wall_ns'')) (\<lambda>p.
       if p < nw_sent w then sret False
       else sbind (sget (\<lambda>s. map_of (challenges (pb_permits s)) target)) (\<lambda>nonce.
       sbind (slift (case nonce of None \<Rightarrow> Inl (KeyError target) | Some n \<Rightarrow> Inr n)) (\<lambda>n.
       sbind (slift (count_of row ''accepted'')) (\<lambda>a. sbind (slift (count_of row ''rejected'')) (\<lambda>r.
       sret (pyeq (getf row ''nonce'') (PStr n) \<and> a = nw_accepted w + 1 \<and> r = nw_rejected w \<and>
             getf row ''reason'' = PStr ''accepted'' \<and> getf row ''holding'' = PBool False)))))))"

definition packet_val :: "packet \<Rightarrow> pyval" where
  "packet_val pkt = PDict (
     (case pk_base pkt of None \<Rightarrow> [] | Some d \<Rightarrow> [(''base'', PDict [(''stamp'', PInt (bd_stamp d)), (''linear'', PFloat (bd_linear d)),
        (''angular'', PFloat (bd_angular d)), (''permit'', PStr (bd_permit d))])]) @
     (case pk_arm pkt of None \<Rightarrow> [] | Some d \<Rightarrow> [(''arm'', PDict [(''joints'', PList (map PStr (ad_joints d))), (''stamp'', PInt (ad_stamp d)),
        (''points'', PList (map (\<lambda>(qs, t). PDict [(''positions'', PList (map PFloat qs)), (''time'', PInt t)]) (ad_points d))), (''permit'', PStr (ad_permit d))])]) @
     (case pk_heartbeat pkt of None \<Rightarrow> [] | Some p \<Rightarrow> [(''heartbeat'', PStr p)]))"

definition packet_sha :: "probe_env \<Rightarrow> packet \<Rightarrow> pyval" where
  "packet_sha e pkt = PStr (ce_sha e (ce_sorted e (packet_val pkt)))"

text \<open>Between the first copy's admission and the second copy: the witness of the duplicate.\<close>

definition send_duplicate :: "probe_env \<Rightarrow> string \<Rightarrow> string \<Rightarrow> negative_ready \<Rightarrow> fc_check \<Rightarrow> row \<Rightarrow> (probes, replayed) script" where
  "send_duplicate e target stage np late admitted_row =
     sbind (read_place e) (\<lambda>(pose, joints).
     sbind (guard e target) (\<lambda>before.
     if getf before ''holding'' \<noteq> PBool False then
       sthen (settle_events e (late_events e late) (stage @ '' first packet''))
         (sraise (AssertionError (stage @ '': controller held after admitting the first copy without an event'')))
     else
       sbind (slift (permit_fields (PStr (packet_permit target (np_packet np))))) (\<lambda>first_grant.
       sbind (slift (count_of before ''published_wall_ns'')) (\<lambda>published.
       sbind (guarded (settle_events e (late_events e late) (stage @ '' first packet''))
          (send_instant e (stage @ '' duplicate'') published first_grant)) (\<lambda>sent.
       sbind (slift (row_int before ''published_wall_ns'')) (\<lambda>p. sbind (slift (row_int before ''accepted'')) (\<lambda>a. sbind (slift (row_int before ''rejected'')) (\<lambda>r.
       sthen (send_packet (np_packet np))
       (sret \<lparr>rp_fields = [(''accepted_before'', PInt (nw_accepted (np_witness np))), (''accepted_after_first'', getf admitted_row ''accepted''),
            (''rejected_before'', PInt (nw_rejected (np_witness np))), (''rejected_after_first'', getf admitted_row ''rejected''),
            (''first_sent_wall_ns'', PInt (nw_sent (np_witness np))), (''first_admission_reason'', getf admitted_row ''reason''),
            (''nonce'', getf admitted_row ''nonce''), (''first_packet_sha256'', packet_sha e (np_packet np)),
            (''first_admission_published_wall_ns'', getf admitted_row ''published_wall_ns''),
            (''replay_packet_sha256'', packet_sha e (np_packet np)), (''replay_sent_wall_ns'', PInt sent)],
          rp_witness = (np_witness np)\<lparr>nw_published := p, nw_accepted := a, nw_rejected := r, nw_sent := sent, nw_lease_end := pf_wall_end first_grant\<rparr>,
          rp_governing = first_grant, rp_pose = pose, rp_joints = joints, rp_nonce = getf admitted_row ''nonce''\<rparr>)))))))))"

definition replay_packet :: "probe_env \<Rightarrow> string \<Rightarrow> string \<Rightarrow> negative_ready \<Rightarrow> fc_check \<Rightarrow> (probes, replayed) script" where
  "replay_packet e target stage np late =
     sbind (guarded (require_counted e target (np_row np) (stage @ '' first packet''))
       (wait_row e target (first_admitted e target late (np_witness np)) 1000000000 (target @ '' replay first packet actually admitted'')))
     (send_duplicate e target stage np late)"

section \<open>The refusal\<close>

text \<open>What the refusal is judged with: the witness, the governing lease and the place of the body.\<close>

record trial =
  tr_witness :: negative_witness
  tr_governing :: permit_view
  tr_pose :: point
  tr_joints :: "float64 list"
  tr_replay :: "replayed option"

definition send_negative :: "probe_env \<Rightarrow> string \<Rightarrow> string \<Rightarrow> reset_grant \<Rightarrow> negative_ready \<Rightarrow> (probes, trial) script" where
  "send_negative e target stage grant np =
     sthen (send_packet (np_packet np))
     (case np_first np of
        None \<Rightarrow> sret \<lparr>tr_witness = np_witness np, tr_governing = rg_fields grant, tr_pose = np_pose np, tr_joints = np_joints np, tr_replay = None\<rparr>
      | Some late \<Rightarrow> sbind (replay_packet e target stage np late) (\<lambda>rp.
          sret \<lparr>tr_witness = rp_witness rp, tr_governing = rp_governing rp, tr_pose = rp_pose rp, tr_joints = rp_joints rp, tr_replay = Some rp\<rparr>))"

text \<open>\<^verbatim>\<open>check_motion\<close> of \<^verbatim>\<open>negative\<close>\<close>

definition negative_drift :: "probe_env \<Rightarrow> string \<Rightarrow> point \<Rightarrow> float64 list \<Rightarrow> (probes, rat) script" where
  "negative_drift e target pose joints =
     (if target = ''base'' then base_moved e pose else sbind (seen_positions e) (\<lambda>qs. sret (arm_drift joints qs)))"

definition negative_motion :: "probe_env \<Rightarrow> string \<Rightarrow> string \<Rightarrow> string \<Rightarrow> nat \<Rightarrow> trial \<Rightarrow> (probes, pyval \<times> arm_stop option) script" where
  "negative_motion e target cs stage mark t =
     sthen (probe_wait e (met (stopped e)) 3000000000 ''negative control physically stopped'' None)
     (sthen (observe_for e ''negative control observation'')
     (sbind (negative_drift e target (tr_pose t) (tr_joints t)) (\<lambda>drift.
      sbind (if target = ''arm'' then
               sbind (arm_hold e stage mark (nw_sent (tr_witness t)) (nw_rejected (tr_witness t)) (nw_published (tr_witness t))) (\<lambda>h. sret (Some h))
             else sret None) (\<lambda>hold.
      sbind (sjudge (refused_motion stage (drift_val drift) (cs = ''replay'' \<and> hold \<noteq> None))) (\<lambda>v. sret (v, hold))))))"

text \<open>The replay's own checks once its refusal is known.\<close>

definition replay_verdict :: "negative_ready \<Rightarrow> replayed \<Rightarrow> row \<Rightarrow> unit res" where
  "replay_verdict np rp rejection =
     rbind (row_int rejection ''published_wall_ns'') (\<lambda>published.
     if \<not> eq_int (getf rejection ''accepted'') (nw_accepted (np_witness np) + 1) \<or> \<not> pyeq (getf rejection ''nonce'') (rp_nonce rp) \<or>
        published < nw_sent (rp_witness rp)
     then Inl (AssertionError ''replay did not produce a fresh rejection after first admission'') else Inr ())"

definition judged_refusal :: "probe_env \<Rightarrow> string \<Rightarrow> string \<Rightarrow> string \<Rightarrow> negative_ready \<Rightarrow> trial \<Rightarrow> (probes, row) script" where
  "judged_refusal e target cs stage np t =
     (let w = tr_witness t in
      sbind (reason_of NEGATIVE_REASONS cs) (\<lambda>expected.
      sbind (wait_judged e target (np_mark np) (\<lambda>rows. refusal target rows (scan_witness w) expected (negative_timing target cs)
          (Some (tr_governing t)) stage (if target = ''arm'' then Some (nw_published w) else None)) 2000000000
          (stage @ '' consumed and rejected at controller'')) (\<lambda>(rejection, held).
      sthen (sjudge (require_refused_inside_lease target stage rejection (nw_lease_end w)))
      (sthen (case np_stale np of None \<Rightarrow> sret () | Some f \<Rightarrow> sjudge (require_refused_inside_stale_window stage rejection f))
      (sthen (case tr_replay t of None \<Rightarrow> sret () | Some rp \<Rightarrow> slift (replay_verdict np rp rejection))
      (sret rejection))))))"

definition replay_val :: "replayed \<Rightarrow> row \<Rightarrow> pyval" where
  "replay_val rp rejection = PDict (rp_fields rp @
     [(''rejected_after_replay'', getf rejection ''rejected''), (''accepted_after_replay'', getf rejection ''accepted''),
      (''replay_rejection_reason'', getf rejection ''reason''), (''rejection_published_wall_ns'', getf rejection ''published_wall_ns'')])"

definition negative_row :: "negative_ready \<Rightarrow> trial \<Rightarrow> row \<Rightarrow> pyval \<Rightarrow> arm_stop option \<Rightarrow> row \<Rightarrow> row" where
  "negative_row np t rejection drift hold recovery =
     [(''ok'', PBool True), (''controller_rejection_observed'', PBool True),
      (''negative_admission'', admission_val (tr_witness t) rejection), (''drift'', drift)] @ recovery @
     (case tr_replay t of None \<Rightarrow> [] | Some rp \<Rightarrow> [(''replay_admission'', replay_val rp rejection)]) @
     (case hold of None \<Rightarrow> [] | Some h \<Rightarrow> [(''controller_hold'', PDict (hold_val h))]) @
     (case np_stale np of None \<Rightarrow> [] | Some f \<Rightarrow> [(''stale_permit'', stale_val f)])"

text \<open>\<^verbatim>\<open>require_report_row\<close>\<close>

definition require_report_row :: "string \<Rightarrow> string \<Rightarrow> row \<Rightarrow> unit judged" where
  "require_report_row target cs row =
     (if negative_row_passed target cs (PDict row) then Passed ()
      else fails (target @ '' '' @ cs @ '' witness does not satisfy the public report''))"

text \<open>\<^verbatim>\<open>negative\<close>\<close>

definition negative :: "probe_env \<Rightarrow> string \<Rightarrow> string \<Rightarrow> (probes, row) script" where
  "negative e target cs =
     (let stage = target @ '' '' @ cs in
      sbind (reset_for e target) (\<lambda>grant.
      sbind (telemetry_mark e target) (\<lambda>lease_mark.
      sthen (start_chain grant)
      (sbind (guarded (settle_events e (lease_events e target stage lease_mark grant) (stage @ '' reset lease''))
          (prepare_negative e target cs stage grant lease_mark)) (\<lambda>np.
       sthen (swhen (cs = ''replay'') (sbind (slift (permit_fields (PStr (packet_permit target (np_packet np))))) (\<lambda>f.
          sput (\<lambda>s. s\<lparr>pb_chain := grant_sent f (pb_chain s)\<rparr>))))
       (sbind (send_negative e target stage grant np) (\<lambda>t.
        sbind (guarded (sthen (negative_motion e target cs stage (np_mark np) t) (sret ())) (judged_refusal e target cs stage np t)) (\<lambda>rejection.
        sbind (negative_motion e target cs stage (np_mark np) t) (\<lambda>(drift, hold).
        sbind (recover e target stage) (\<lambda>recovery.
        sthen (sjudge (require_report_row target cs (negative_row np t rejection drift hold recovery)))
        (sret (negative_row np t rejection drift hold recovery))))))))))))"

section \<open>The late renewal\<close>

definition goal_judged :: "probe_env \<Rightarrow> string \<Rightarrow> row \<Rightarrow> int \<Rightarrow> fc_check \<Rightarrow> (probes, unit) script" where
  "goal_judged e stage before accepted late =
     sthen (require_counted e ''arm'' before (stage @ '' goal''))
     (sbind (guard_count e ''arm'' ''accepted'') (\<lambda>a.
      if a \<notin> {accepted, accepted + 1} then sraise (AssertionError (stage @ '' controller admitted unexpected traffic''))
      else settle_events e (late_events e late) (stage @ '' goal'')))"

text \<open>The arm is seen moving under its live goal.\<close>

definition moving_under_goal :: "probe_env \<Rightarrow> fc_check \<Rightarrow> permit_view \<Rightarrow> string \<Rightarrow> int \<Rightarrow> float64 \<Rightarrow> row \<Rightarrow> (probes, bool) script" where
  "moving_under_goal e late goal digest accepted initial row =
     sbind (late_events e late) (\<lambda>pending.
     sbind (slift (count_of row ''accepted'')) (\<lambda>a.
     if pending \<or> a \<noteq> accepted + 1 \<or> getf row ''holding'' \<noteq> PBool False \<or> getf row ''reason'' \<noteq> PStr ''accepted'' \<or>
        getf row ''active_digest'' \<noteq> PStr digest then sret False
     else sbind (wall_ns e) (\<lambda>t. sbind (slift (count_of row ''published_wall_ns'')) (\<lambda>p.
       if \<not> (0 \<le> t - p \<and> t - p < VERIFIER_WINDOW_NS) then sret False
       else sbind (arm_moved e initial) (\<lambda>d.
         if \<not> f_val 0x3F747AE147AE147B < d then sret False
         else sbind (wall_ns e) (\<lambda>t'. if \<not> t' < pf_wall_end goal then sret False
           else sbind (probe_now e) (\<lambda>n. sret (n * 1000000 < pf_sim_end goal))))))))"

definition late_motion :: "probe_env \<Rightarrow> string \<Rightarrow> nat \<Rightarrow> negative_witness \<Rightarrow> (probes, pyval \<times> arm_stop) script" where
  "late_motion e stage mark w =
     sthen (probe_wait e (met (stopped e)) 3000000000 ''arm stops after refusing a late renewal'' None)
     (sbind (seen_positions e) (\<lambda>settled.
      sthen (observe_for e ''late renewal hold observation'')
      (sbind (seen_positions e) (\<lambda>qs.
       sbind (sjudge (refused_motion stage (drift_val (arm_drift settled qs)) False)) (\<lambda>v.
       sbind (arm_hold e stage mark (nw_sent w) (nw_rejected w) (nw_published w)) (\<lambda>h. sret (v, h)))))))"

definition late_refusal :: "probe_env \<Rightarrow> string \<Rightarrow> nat \<Rightarrow> negative_witness \<Rightarrow> permit_view \<Rightarrow> permit_view \<Rightarrow> (probes, row \<times> int) script" where
  "late_refusal e stage mark w goal stale_fields =
     sbind (reason_of NEGATIVE_REASONS ''renewal_delay'') (\<lambda>expected.
     sbind (wait_judged e ''arm'' mark (\<lambda>rows. refusal ''arm'' rows (scan_witness w) expected (negative_timing ''arm'' ''renewal_delay'')
         (Some goal) stage (Some (nw_published w))) 2000000000 (stage @ '' refused at controller'')) (\<lambda>(rejection, held).
     sthen (sjudge (require_refused_inside_lease ''arm'' stage rejection (pf_wall_end goal)))
     (sthen (sjudge (require_refused_inside_stale_window stage rejection stale_fields))
     (sbind (slift (case held of None \<Rightarrow> Inl TypeError | Some h \<Rightarrow> Inr h)) (\<lambda>h.
      sbind (sjudge (late_stop_verdict stage h (nw_sent w) goal)) (\<lambda>stop. sret (rejection, stop)))))))"

definition late_row :: "negative_witness \<Rightarrow> row \<Rightarrow> rat \<Rightarrow> int \<Rightarrow> pyval \<Rightarrow> arm_stop \<Rightarrow> permit_view \<Rightarrow> permit_view \<Rightarrow> row \<Rightarrow> row" where
  "late_row w rejection moved stop drift hold goal stale_fields recovery =
     [(''ok'', PBool True), (''controller_rejection_observed'', PBool True), (''negative_admission'', admission_val w rejection),
      (''moving_before_late_renewal'', PDict [(''joint1_displacement_rad'', drift_val moved)]),
      (''controller_stop_wall_ns'', PInt stop), (''drift'', drift),
      (''controller_hold'', PDict (hold_val hold @ [(''lease_sim_end_ns'', PInt (pf_sim_end goal))])),
      (''stale_permit'', stale_val stale_fields)] @ recovery"

text \<open>\<^verbatim>\<open>late_renewal\<close>: the goal, its motion, the stale renewal and the hold\<close>

definition send_late_renewal :: "probe_env \<Rightarrow> string \<Rightarrow> fc_check \<Rightarrow> permit_view \<Rightarrow> string \<Rightarrow> negative_witness
    \<Rightarrow> (probes, string \<times> permit_view \<times> negative_witness) script" where
  "send_late_renewal e stage late goal digest w =
     guarded (settle_events e (late_events e late) (stage @ '' goal''))
       (sbind (stale_permit e ''arm'' ''lease'' digest stage) (\<lambda>(stale, fields).
        sbind (send_instant e stage (nw_published w) goal) (\<lambda>sent. sret (stale, fields, w\<lparr>nw_sent := sent\<rparr>))))"

definition late_renewal :: "probe_env \<Rightarrow> (probes, row) script" where
  "late_renewal e =
     (let stage = ''arm renewal_delay'' in
      sbind (reset_for e ''arm'') (\<lambda>grant.
      sthen (start_chain grant)
      (sbind (joint1 e) (\<lambda>initial.
       sbind (guard e ''arm'') (\<lambda>before.
       sbind (slift (count_of before ''accepted'')) (\<lambda>accepted.
       sbind (fail_closed_check e ''arm'' (rg_unlocked grant) (stage @ '' goal'')) (\<lambda>late.
       sbind (guarded (settle_events e (late_events e late) (stage @ '' goal'')) (send_goal e (stage @ '' goal''))) (\<lambda>digest.
       sbind (sget (\<lambda>s. grant_last (pb_chain s))) (\<lambda>goal.
       sbind (telemetry_mark e ''arm'') (\<lambda>mark.
       sbind (guarded (goal_judged e stage before accepted late)
          (on_timeout (wait_row e ''arm'' (moving_under_goal e late goal digest accepted initial) 200000000 (stage @ '' arm moving under its live goal''))
            (sjudge (delay stage ''goal_motion_not_witnessed_inside_goal_lease'')))) (\<lambda>row.
       sbind (arm_moved e initial) (\<lambda>moved.
       sbind (slift (witness_of row (pf_wall_end goal))) (\<lambda>w0.
       sbind (send_late_renewal e stage late goal digest w0) (\<lambda>(stale, stale_fields, w).
       sthen (send_packet \<lparr>pk_base = None, pk_arm = None, pk_heartbeat = Some stale\<rparr>)
       (sbind (guarded (sthen (late_motion e stage mark w) (sret ())) (late_refusal e stage mark w goal stale_fields)) (\<lambda>(rejection, stop).
        sbind (late_motion e stage mark w) (\<lambda>(drift, hold).
        sbind (recover e ''arm'' stage) (\<lambda>recovery.
        sthen (sjudge (require_report_row ''arm'' ''renewal_delay'' (late_row w rejection moved stop drift hold goal stale_fields recovery)))
        (sret (late_row w rejection moved stop drift hold goal stale_fields recovery))))))))))))))))))))"

section \<open>All cases\<close>

text \<open>\<^verbatim>\<open>bounded_attempts\<close> around a script: the next attempt starts from the state the inconclusive one left.\<close>

fun probe_attempts :: "string \<Rightarrow> nat \<Rightarrow> nat \<Rightarrow> (probes, row) script \<Rightarrow> (probes, row) script" where
  "probe_attempts cs k 0 body s = (Some (fails (cs @ '': all attempts were inconclusive under runner delay'')), s)"
| "probe_attempts cs k (Suc left) body s =
     (case body s of
        (Some (Passed row), t) \<Rightarrow> (Some (Passed (row @ [(''attempt'', PInt (int k))])), t)
      | (Some (Inconclusive d), t) \<Rightarrow> probe_attempts cs (Suc k) left body t
      | r \<Rightarrow> r)"

definition attempted_case :: "string \<Rightarrow> (probes, row) script \<Rightarrow> (probes, string \<times> pyval) script" where
  "attempted_case name body = sbind (probe_attempts name 1 PERMIT_MAX_ATTEMPTS body) (\<lambda>row. sret (name, PDict row))"

definition expiry_hold :: "probe_env \<Rightarrow> string \<Rightarrow> int \<Rightarrow> string \<Rightarrow> (probes, unit) script" where
  "expiry_hold e target since_ns description =
     probe_wait e (met (sbind (guard e target) (\<lambda>row. if getf row ''holding'' \<noteq> PBool True then sret False
       else sbind (guard_count e target ''published_wall_ns'') (\<lambda>p. sret (since_ns + 300000000 \<le> p))))) 2000000000 description None"

definition expiry_val :: "rat \<Rightarrow> pyval" where
  "expiry_val drift = PDict [(''ok'', PBool True), (''old_goal_did_not_resume'', PBool True), (''expiry_hold_observed'', PBool True),
     (''expiry_drift'', drift_val drift), (''attempt'', PInt 1)]"

definition base_expiry :: "probe_env \<Rightarrow> (probes, string \<times> pyval) script" where
  "base_expiry e =
     sthen (probe_wait e (met (stopped e)) 3000000000 ''base independent expiry'' None)
     (sbind (seen_pose e) (\<lambda>held. sbind (wall_ns e) (\<lambda>t.
      sthen (expiry_hold e ''base'' t ''fresh base expiry hold observation'')
      (sbind (seen_pose e) (\<lambda>p.
       if exceeds_drift (ce_dist e p held) then sraise (AssertionError ''expired base drift'')
       else sret (''base_expiry'', expiry_val (ce_dist e p held)))))))"

definition arm_expiry :: "probe_env \<Rightarrow> (probes, string \<times> pyval) script" where
  "arm_expiry e =
     sthen (probe_wait e (met (stopped e)) 3000000000 ''arm independent expiry'' None)
     (sbind (seen_positions e) (\<lambda>held. sbind (wall_ns e) (\<lambda>t.
      sthen (observe_for e ''arm expiry settling'')
      (sbind (seen_positions e) (\<lambda>qs.
       if exceeds_drift (arm_drift held qs) then sraise (AssertionError ''expired arm drift'')
       else sthen (expiry_hold e ''arm'' t ''fresh arm expiry hold observation'')
         (sbind (seen_positions e) (\<lambda>qs'. sret (''arm_expiry'', expiry_val (arm_drift held qs')))))))))"

fun run_cases :: "(probes, string \<times> pyval) script list \<Rightarrow> (probes, row) script" where
  "run_cases [] = sret []"
| "run_cases (m # ms) = sbind m (\<lambda>r. sbind (run_cases ms) (\<lambda>rs. sret (r # rs)))"

definition all_cases :: "probe_env \<Rightarrow> (probes, string \<times> pyval) script list" where
  "all_cases e =
     [attempted_case ''base_positive'' (base_positive e), base_expiry e, attempted_case ''arm_positive'' (arm_positive e), arm_expiry e] @
     concat (map (\<lambda>target. map (\<lambda>cs. attempted_case (target @ ''_'' @ cs) (negative e target cs))
       [''unsigned'', ''altered'', ''signature'', ''replay'', ''delay'', ''target'']) [''base'', ''arm'']) @
     [attempted_case ''arm_renewal_delay'' (late_renewal e)]"

text \<open>
  The checks of \<^verbatim>\<open>exercise\<close>, from its first stop on, and the public report's verdict on them; \<open>extra\<close> is
  what the root fixture adds to the result about the relay's boundaries.
\<close>

definition exercise_checks :: "probe_env \<Rightarrow> row \<Rightarrow> (probes, row) script" where
  "exercise_checks e extra =
     sthen (probe_wait e (met (stopped e)) 2000000000 ''fresh measured wheel and arm stop before relay replacement'' None)
     (sbind (run_cases (all_cases e)) (\<lambda>checks.
      (let result = (''ok'', PBool True) # (''checks'', PDict checks) # extra in
       if ck_status (check_permits [(''ok'', PBool True), (''controller_permits'', PDict result)]) \<noteq> ''passed''
       then sraise (AssertionError ''controller permit evidence fails the public report'') else sret result)))"

end
