(* ===== verification/Probe_Demo.thy ===== *)
theory Probe_Demo
  imports Probe_Attempts
begin

text \<open>
  One run of a positive control, evaluated step by step: a host whose fixture approves at once, and an
  attempt whose first grant is live. The base command it sends is the one a controller would admit.
\<close>

section \<open>A run\<close>

definition probe_demo_seen :: probe_seen where
  "probe_demo_seen = \<lparr>se_odom = Some \<lparr>om_sec = 5, om_nsec = 0, om_x = 0, om_y = 0, om_quat = (0, 0, 0, 0), om_linear = 0, om_angular = 0\<rparr>,
     se_odom_at = 1000000000,
     se_joint = Some \<lparr>jm_sec = 5, jm_nsec = 0, jm_names = ARM_JOINTS, jm_position = replicate 6 0, jm_velocity = replicate 6 0\<rparr>,
     se_joint_at = 1000000000, se_measured = [], se_base = [[(''accepted'', PInt 7)]], se_arm = []\<rparr>"

definition probe_demo_answer :: pyval where
  "probe_demo_answer = PDict [(''outcome'', PDict [(''world_updated'', PDict [(''stamp_ms'', PInt 5000)])]),
     (''cmd'', PDict [(''linear'', PFloat PROBE_SPEED), (''angular'', PFloat 0)]),
     (''status'', PDict [(''active_expires_ms'', PInt 5200), (''world_age_ms'', PInt 0)])]"

definition probe_demo_env :: probe_env where
  "probe_demo_env = \<lparr>ce_wall = (\<lambda>i j. 1000000000 + 10000000 * int i + 1000 * int j), ce_sim = (\<lambda>i. 5000000000), ce_seen = (\<lambda>i. probe_demo_seen),
     ce_exited = (\<lambda>i. None), ce_pipe = (\<lambda>i. (True, True, [Chunk (''{}'' @ [newline])])), ce_fixture = (\<lambda>n. ([], None, [])), ce_resets = (\<lambda>i. []), ce_fuel = 1501, ce_euid = 0,
     ce_loads = (\<lambda>s. Inr probe_demo_answer), ce_dumps = (\<lambda>v. Inr ''{}''), ce_pub = id, ce_ed_sign = (\<lambda>k m. ''s''), ce_sha = (\<lambda>m. ''d''), ce_permit_ed = (\<lambda>m. ''s''),
     ce_atan2 = (\<lambda>y x. 0), ce_dist = (\<lambda>p q. 0), ce_sorted = (\<lambda>v. ''{}'')\<rparr>"

definition probe_demo_grant :: permit_view where
  "probe_demo_grant = \<lparr>pf_kind = ''base-command'', pf_seq = 1, pf_sim = 4990000000, pf_wall = 990000000, pf_sim_end = 5190000000, pf_wall_end = 1190000000\<rparr>"

definition probe_demo_start :: probes where
  "probe_demo_start = \<lparr>pb_sleeps = 0, pb_reads = 0,
     pb_permits = \<lparr>sim_backdate_ns = 0, challenges = [(''base'', ''n1''), (''arm'', ''n2'')], sequence = [(''base'', 0), (''arm'', 0)],
       active_arm = [], admitted_arm = [], goal_sequence = 0, admitted_goal_sequence = 0, admitted_arm_holding = False, admitted_arm_expired = False\<rparr>,
     pb_issuer = Some (\<lparr>audience = ''a'', epoch = 1, keys = [(''world'', ''k''), (''vla'', ''k'')], counters = [(''world'', 1), (''vla'', 1)]\<rparr>, []),
     pb_fixture = 1, pb_proposal = 0, pb_packet = 0, pb_reset = 0, pb_sent = [], pb_chain = grant_chain_init probe_demo_grant 6\<rparr>"

section \<open>The steps of the run\<close>

text \<open>A wait whose predicate holds at its first turn.\<close>

lemma wait_at_once:
  assumes "0 < ce_fuel e" and "ce_exited e (Suc (Suc (pb_reads s))) = None" and "ce_wall e (pb_sleeps s) (Suc (pb_reads s)) < ce_wall e (pb_sleeps s) (pb_reads s) + n"
    and "p (s\<lparr>pb_reads := pb_reads s + 3\<rparr>) = (Some (Passed (Some a)), t)"
  shows "probe_wait e p n d None s = (Some (Passed a), t\<lparr>pb_reads := pb_reads t + 1\<rparr>)"
proof -
  from assms(1) obtain k where "ce_fuel e = Suc k" by (cases "ce_fuel e") auto
  with assms(2-4) show ?thesis
    by (simp add: probe_wait_def await_def probe_waiter_def sbind_def sthen_def sjudge_def clock_ns_def poll_exit_def numeral_3_eq_3)
qed

lemma demo_clock: "wall_ns probe_demo_env s = (Some (Passed (1000000000 + 10000000 * int (pb_sleeps s) + 1000 * int (pb_reads s))), s\<lparr>pb_reads := pb_reads s + 1\<rparr>)"
  by (simp add: wall_ns_def clock_ns_def probe_waiter_def probe_demo_env_def)

lemma demo_now: "probe_now probe_demo_env s = (Some (Passed 5000), s\<lparr>pb_reads := pb_reads s + 1\<rparr>)"
  by (simp add: probe_now_def reading_def sbind_def sthen_def sjudge_def sget_def sput_def probe_demo_env_def)

lemma demo_look: "look probe_demo_env s = (Some (Passed probe_demo_seen), s\<lparr>pb_reads := pb_reads s + 1\<rparr>)"
  by (simp add: look_def reading_def sbind_def sthen_def sjudge_def sget_def sput_def probe_demo_env_def)

lemmas demo_run = sbind_def sthen_def sjudge_def sget_def sput_def swhen_def demo_clock demo_now demo_look

text \<open>The measured world and the fixture's answers to it.\<close>

definition probe_demo_world :: pyval where
  "probe_demo_world = (case measure probe_demo_env probe_demo_seen of Inr v \<Rightarrow> v | Inl x \<Rightarrow> PNone)"

lemma demo_measure: "measure probe_demo_env probe_demo_seen = Inr probe_demo_world" "dix probe_demo_world ''stamp_ms'' = Inr (PInt 5000)" "is_dict probe_demo_world"
proof -
  have "\<exists>v. measure probe_demo_env probe_demo_seen = Inr v \<and> dix v ''stamp_ms'' = Inr (PInt 5000) \<and> is_dict v"
    by (simp add: measure_def measured_world_def probe_demo_seen_def ARM_JOINTS_def measured_joint_def joint_position_def velocity_of_def measured_stamp_def odom_stamp_def joint_stamp_def)
  then show "measure probe_demo_env probe_demo_seen = Inr probe_demo_world" "dix probe_demo_world ''stamp_ms'' = Inr (PInt 5000)" "is_dict probe_demo_world" by (auto simp: probe_demo_world_def)
qed

lemma demo_fresh: "pb_sleeps s = 0 \<Longrightarrow> pb_reads s < 1000 \<Longrightarrow>
   met (fresh_feedback probe_demo_env) s = (Some (Passed (Some ())), s\<lparr>pb_reads := pb_reads s + 4\<rparr>)"
  by (simp add: met_def fresh_feedback_def demo_run within_age_def probe_demo_seen_def)

lemma demo_snapshot:
  assumes "pb_sleeps s = 0" and "pb_reads s < 900"
  shows "world_snapshot probe_demo_env s = (Some (Passed probe_demo_world), s\<lparr>pb_reads := pb_reads s + 9\<rparr>)"
proof -
  have w: "probe_wait probe_demo_env (met (fresh_feedback probe_demo_env)) 2000000000 ''fresh measured controller probe world'' None s =
      (Some (Passed ()), s\<lparr>pb_reads := pb_reads s + 8\<rparr>)"
    by (subst wait_at_once [OF _ _ _ demo_fresh]) (use assms in \<open>simp_all add: probe_demo_env_def\<close>)
  show ?thesis by (simp add: world_snapshot_def demo_run w demo_measure)
qed

definition probe_demo_source :: "(string \<times> int) list \<Rightarrow> (signer \<times> string) option" where
  "probe_demo_source cs = Some (\<lparr>audience = ''a'', epoch = 1, keys = [(''world'', ''k''), (''vla'', ''k'')], counters = cs\<rparr>, [])"

lemma pack_be_ok: "0 \<le> n \<Longrightarrow> n < 256 ^ k \<Longrightarrow> pack_be k n = Inr (be_bytes k (nat n))"
  by (simp add: pack_be_def)

lemma demo_message: "0 \<le> c \<Longrightarrow> c < 200 \<Longrightarrow> map_of ROLE_TAG role = Some g \<Longrightarrow> 0 \<le> g \<Longrightarrow> g < 256 \<Longrightarrow> \<exists>m. input_message ''a'' 1 c role ''{}'' = Inr m"
  unfolding input_message_def role_tag_def by (subst pack_be_ok; simp)+

lemma demo_sign:
  assumes "pb_issuer s = probe_demo_source cs" and "map_of ROLE_TAG role = Some g" "0 \<le> g" "g < 256" and "role \<in> {''world'', ''vla''}"
    and "0 \<le> counter_of cs role" "counter_of cs role < 100" and "is_dict v"
  shows "\<exists>env. issuer_sign probe_demo_env role v s = (Some (Passed env), s\<lparr>pb_issuer := probe_demo_source (dput role (counter_of cs role + 1) cs)\<rparr>)"
proof -
  obtain m where m: "input_message ''a'' 1 (counter_of cs role + 1) role ''{}'' = Inr m" using demo_message [of "counter_of cs role + 1" role g] assms by auto
  obtain d where "v = PDict d" using assms(8) by (cases v) auto
  then show ?thesis using assms(1,5) m by (auto simp: issuer_sign_def sign_def probe_demo_source_def probe_demo_env_def Let_def)
qed


lemma demo_ask:
  assumes "pb_issuer s = probe_demo_source cs"
  shows "issuer_ask probe_demo_env v s = (Some (Passed probe_demo_answer), s\<lparr>pb_reads := pb_reads s + 1\<rparr>)"
proof -
  have a: "read_loop [] [Chunk (''{}'' @ [newline])] = (Inr (), ''{}'' @ [newline])" by (simp add: read_loop.simps MIB_def)
  have "isfinite PROBE_SPEED" "isfinite 0" by (simp_all add: PROBE_SPEED_def isfinite_def f_exp_def)
  then have p: "parse_answer (\<lambda>s. Inr probe_demo_answer) l = Inr probe_demo_answer" for l
    by (simp add: parse_answer_def probe_demo_answer_def velocity_bad_def ror.simps)
  show ?thesis using assms
    by (simp add: issuer_ask_def reading_def demo_run probe_demo_env_def probe_demo_source_def Bridge.request_def a [simplified] p MIB_def fixture_answer_def line_of_def rest_of_def)
qed


lemma demo_feed:
  assumes "pb_issuer s = probe_demo_source cs" and "map_of ROLE_TAG role = Some g" "0 \<le> g" "g < 256" and "role \<in> {''world'', ''vla''}"
    and "0 \<le> counter_of cs role" "counter_of cs role < 100" and "is_dict v"
  shows "feed probe_demo_env role v s = (Some (Passed probe_demo_answer),
    s\<lparr>pb_reads := pb_reads s + 2, pb_issuer := probe_demo_source (dput role (counter_of cs role + 1) cs)\<rparr>)"
proof -
  obtain env where env: "issuer_sign probe_demo_env role v s = (Some (Passed env), s\<lparr>pb_issuer := probe_demo_source (dput role (counter_of cs role + 1) cs)\<rparr>)"
    using demo_sign [OF assms] by blast
  have "ce_dumps probe_demo_env x = Inr ''{}''" for x by (simp add: probe_demo_env_def)
  then show ?thesis unfolding feed_def by (simp add: demo_run env demo_ask)
qed

lemma demo_admit:
  assumes "pb_issuer s = probe_demo_source cs" and "pb_sleeps s = 0" "pb_reads s < 400" and "0 \<le> counter_of cs ''world''" "counter_of cs ''world'' < 100"
  shows "admit_world probe_demo_env s = (Some (Passed ()), s\<lparr>pb_reads := pb_reads s + 11, pb_issuer := probe_demo_source (dput ''world'' (counter_of cs ''world'' + 1) cs)\<rparr>)"
proof -
  have f: "feed probe_demo_env ''world'' probe_demo_world (s\<lparr>pb_reads := pb_reads s + 9\<rparr>) = (Some (Passed probe_demo_answer),
      s\<lparr>pb_reads := pb_reads s + 11, pb_issuer := probe_demo_source (dput ''world'' (counter_of cs ''world'' + 1) cs)\<rparr>)"
    by (subst demo_feed [where g = 1]) (use assms demo_measure in \<open>simp_all add: ROLE_TAG_def ac_simps\<close>)
  have "require_world_accepted probe_demo_answer probe_demo_world = Passed ()"
    using demo_measure(2) by (simp add: require_world_accepted_def probe_demo_answer_def or_get_def or_empty_def getf_def)
  with f show ?thesis using demo_snapshot [OF assms(2)] assms(3) by (simp add: admit_world_def demo_run)
qed


lemma demo_approval: "actuating probe_demo_answer = Inr True" "0 \<le> elapsed \<Longrightarrow> elapsed < 50 \<Longrightarrow> judge_approval probe_demo_answer elapsed 5000 = Passed ()"
    "confirm_action (probe_velocity PROBE_SPEED) probe_demo_answer = Passed ()"
proof -
  have n: "\<not> eq_int (PFloat PROBE_SPEED) 0" using probe_speed by (simp add: eq_int_def)
  show a: "actuating probe_demo_answer = Inr True" by (simp add: actuating_def probe_demo_answer_def n ror.simps)
  show "0 \<le> elapsed \<Longrightarrow> elapsed < 50 \<Longrightarrow> judge_approval probe_demo_answer elapsed 5000 = Passed ()"
    by (simp add: judge_approval_def require_fresh_actuation_def a) (simp add: probe_demo_answer_def status_of_def or_empty_def fresh_window_def)
  have "pyeq (PFloat PROBE_SPEED) (PFloat PROBE_SPEED)" using probe_speed by (simp add: pyeq_num)
  then show "confirm_action (probe_velocity PROBE_SPEED) probe_demo_answer = Passed ()"
    by (simp add: confirm_action_def probe_velocity_def probe_demo_answer_def cmd_field_def)
qed

text \<open>The states of the run, up to the first permit.\<close>

definition probe_demo_at :: "nat \<Rightarrow> int \<Rightarrow> int \<Rightarrow> int \<Rightarrow> probes" where
  "probe_demo_at r a b n = probe_demo_start\<lparr>pb_reads := r, pb_issuer := probe_demo_source [(''world'', a), (''vla'', b)], pb_proposal := n\<rparr>"

lemma probe_demo_at_facts: "pb_reads (probe_demo_at r a b n) = r" "pb_sleeps (probe_demo_at r a b n) = 0" "pb_proposal (probe_demo_at r a b n) = n" "pb_chain (probe_demo_at r a b n) = grant_chain_init probe_demo_grant 6"
    "pb_issuer (probe_demo_at r a b n) = probe_demo_source [(''world'', a), (''vla'', b)]" "pb_sent (probe_demo_at r a b n) = []" "pb_packet (probe_demo_at r a b n) = 0" "pb_permits (probe_demo_at r a b n) = pb_permits probe_demo_start"
    "(probe_demo_at r a b n)\<lparr>pb_reads := k\<rparr> = probe_demo_at k a b n" "(probe_demo_at r a b n)\<lparr>pb_proposal := m\<rparr> = probe_demo_at r a b m"
    "(probe_demo_at r a b n)\<lparr>pb_issuer := probe_demo_source [(''world'', c), (''vla'', d)]\<rparr> = probe_demo_at r c d n"
  by (simp_all add: probe_demo_at_def probe_demo_start_def)

lemma demo_begins: "probe_demo_start = probe_demo_at 0 1 1 0"
  by (simp add: probe_demo_at_def probe_demo_start_def probe_demo_source_def)

lemma demo_admits: "r < 400 \<Longrightarrow> 0 \<le> a \<Longrightarrow> a < 100 \<Longrightarrow> admit_world probe_demo_env (probe_demo_at r a b n) = (Some (Passed ()), probe_demo_at (r + 11) (a + 1) b n)"
  by (subst demo_admit [where cs = "[(''world'', a), (''vla'', b)]"]) (simp_all add: probe_demo_at_facts counter_of_def)

lemma demo_asks: "0 \<le> b \<Longrightarrow> b < 100 \<Longrightarrow> feed probe_demo_env ''vla'' (fixture_proposal k t v) (probe_demo_at r a b n) = (Some (Passed probe_demo_answer), probe_demo_at (r + 2) a (b + 1) n)"
  by (subst demo_feed [where cs = "[(''world'', a), (''vla'', b)]" and g = 3]) (simp_all add: probe_demo_at_facts counter_of_def ROLE_TAG_def fixture_proposal_def)

lemma demo_approve: "approve_probe probe_demo_env (probe_velocity PROBE_SPEED) (probe_demo_at 1 1 1 0) = (Some (Passed (5000000000, 1000012000, probe_demo_answer)), probe_demo_at 19 2 2 1)"
  by (simp add: approve_probe_def demo_run demo_admits demo_asks probe_demo_at_facts demo_approval round_trip_ms_def)


definition probe_demo_permit :: permit where
  "probe_demo_permit = \<lparr>p_target = ''base'', p_kind = ''command'', p_nonce = ''n1'', p_seq = 1, p_sim = 5000000000, p_wall = 1000012000,
     p_sim_end = 5200000000, p_wall_end = 1200012000, p_digest = ''d''\<rparr>"

definition probe_demo_packet :: packet where
  "probe_demo_packet = \<lparr>pk_base = Some \<lparr>bd_stamp = 5000000000, bd_linear = PROBE_SPEED, bd_angular = 0, bd_permit = permit_token (\<lambda>m. ''s'') probe_demo_permit\<rparr>, pk_arm = None, pk_heartbeat = None\<rparr>"

lemma demo_digest: "base_digest (ce_sha probe_demo_env) (base_message 5000000000 PROBE_SPEED) = Inr ''d''"
proof -
  have f: "isfinite PROBE_SPEED" "isfinite 0" "f_zero 0" by (simp_all add: PROBE_SPEED_def isfinite_def f_exp_def f_zero_def)
  have p: "pack_be 8 5000000000 = Inr (be_bytes 8 (nat 5000000000))" by (rule pack_be_ok) simp_all
  show ?thesis by (simp add: base_digest_def base_preimage_def base_message_def forward_twist_def twist_values_def stamp_of_ns_def stamp_ns_def f p Let_def) (simp add: probe_demo_env_def)
qed

lemma demo_token: "token probe_demo_env ''base'' ''command'' ''d'' 5000000000 1000012000 200000000 (probe_demo_at 19 2 2 1) =
    (Some (Passed (permit_token (\<lambda>m. ''s'') probe_demo_permit)), (probe_demo_at 19 2 2 1)\<lparr>pb_permits := (pb_permits probe_demo_start)\<lparr>sequence := [(''base'', 1), (''arm'', 0)]\<rparr>\<rparr>)"
  by (simp add: token_def probe_demo_at_facts ps_sign_def) (simp add: probe_demo_start_def probe_demo_env_def probe_demo_permit_def MAX_LEASE_NS_def)

lemma demo_budget: "budget probe_demo_answer 5000000000 = Passed 200000000"
  by (simp add: budget_def budget_ms_def probe_demo_answer_def Let_def)

lemma demo_base_packet: "base_packet probe_demo_env (probe_demo_at 1 1 1 0) =
    (Some (Passed probe_demo_packet), (probe_demo_at 19 2 2 1)\<lparr>pb_permits := (pb_permits probe_demo_start)\<lparr>sequence := [(''base'', 1), (''arm'', 0)]\<rparr>\<rparr>)"
proof -
  have l: "rbind (cmd_field probe_demo_answer ''linear'') py_float = Inr PROBE_SPEED" by (simp add: cmd_field_def probe_demo_answer_def)
  show ?thesis by (simp add: base_packet_def demo_run demo_approve l demo_digest demo_budget demo_token probe_demo_packet_def del: One_nat_def)
qed

lemma demo_fields: "permit_fields (PStr (permit_token (\<lambda>m. ''s'') probe_demo_permit)) = Inr (view_of probe_demo_permit)"
  by (rule permit_fields_token) (simp add: probe_demo_permit_def)

lemma demo_command: "pb_sent (snd (probe_command probe_demo_env probe_demo_start)) = [(1, probe_demo_packet)]"
proof -
  have c: "in_flight (grant_chain_init probe_demo_grant 6) (getf (guard_row ''base'' probe_demo_seen) ''accepted'') = False"
    by (simp add: in_flight_def grant_chain_init_def guard_row_def telemetry_rows_def probe_demo_seen_def getf_def)
  have p: "packet_permit ''base'' probe_demo_packet = permit_token (\<lambda>m. ''s'') probe_demo_permit" by (simp add: packet_permit_def probe_demo_packet_def)
  have t: "check_timely stage (view_of probe_demo_permit) 1000019000 5000000000 = Passed 7000" for stage
    by (simp add: check_timely_def permit_age_ns_def view_of_def probe_demo_permit_def VERIFIER_WINDOW_NS_def)
  have l: "require_live stage (grant_last (grant_chain_init probe_demo_grant 6)) 1000021000 5000000000 = Passed ()" for stage
    by (simp add: require_live_def grant_last_def grant_chain_init_def probe_demo_grant_def)
  obtain u where u: "base_packet probe_demo_env (probe_demo_at 1 1 1 0) = (Some (Passed probe_demo_packet), u)" "pb_reads u = 19" "pb_sleeps u = 0"
    "pb_chain u = grant_chain_init probe_demo_grant 6" "pb_sent u = []" "pb_packet u = 0" using demo_base_packet by (simp add: probe_demo_at_facts)
  show ?thesis unfolding demo_begins
    by (simp add: probe_command_def guard_def demo_run probe_demo_at_facts c u p send_timely_def require_timely_def demo_fields t l send_packet_def del: One_nat_def)
qed

end
