(* ===== verification/Probe_Properties.thy ===== *)
theory Probe_Properties
  imports Probe_Refusals Probe_Demo
begin

text \<open>
  What the controller-permit probes show when they pass: the packets of a positive control, the defect of
  a packet that must be refused, the evidence behind a passed case, and that every case ends.
\<close>

section \<open>Scripts that send nothing\<close>

lemma quiet_row_wait: "(\<And>row. skeeps calm (accept row)) \<Longrightarrow> skeeps calm (wait_row e target accept n d)"
  unfolding wait_row_def by (intro quiet_wait qt.skeeps_flow quiet_guard)

lemma quiet_marks: "skeeps calm (telemetry_mark e target)" "skeeps calm (since e target mark)" "skeeps calm (guard_count e target k)"
    "skeeps calm (wait_judged e target mark judge n d)"
  unfolding telemetry_mark_def since_def guard_count_def wait_judged_def
  by (intro quiet_wait qt.skeeps_flow quiet_guard quiet_read)+

lemma quiet_checks: "skeeps calm (fail_closed_check e target h stage)" "skeeps calm (check_events e c chain)" "skeeps calm (late_events e c)"
proof -
  show "skeeps calm (fail_closed_check e target h stage)" unfolding fail_closed_check_def by (intro qt.skeeps_flow quiet_marks quiet_read)
  show c: "skeeps calm (check_events e c chain)" for chain unfolding check_events_def by (intro qt.skeeps_flow quiet_marks)
  show "skeeps calm (late_events e c)" unfolding late_events_def by (intro qt.skeeps_flow c)
qed

lemma quiet_settle: "skeeps calm chk \<Longrightarrow> skeeps calm (settle_events e chk d)"
  unfolding settle_events_def by (intro qt.skeeps_flow quiet_wait)

lemma quiet_counted: "skeeps calm (require_counted e target before stage)" "skeeps calm (require_admitted e target stage)"
    "skeeps calm (last_counted e target c)"
  unfolding require_counted_def require_admitted_def last_counted_def
  by (intro qt.skeeps_flow quiet_wait quiet_marks quiet_guard quiet_checks)+

lemma quiet_hold: "skeeps calm (arm_hold e stage mark sent r h)"
  unfolding arm_hold_def by (intro qt.skeeps_flow quiet_marks quiet_read quiet_guard)

lemma quiet_places: "skeeps calm (seen_pose e)" "skeeps calm (read_place e)" "skeeps calm (observe_for e d)" "skeeps calm (drift_from e target pose joints)"
    "skeeps calm (base_moved e before)" "skeeps calm (joint1 e)" "skeeps calm (arm_moved e q)"
proof -
  show p: "skeeps calm (seen_pose e)" unfolding seen_pose_def by (intro qt.skeeps_flow quiet_read)
  show "skeeps calm (read_place e)" unfolding read_place_def by (intro qt.skeeps_flow p quiet_guard)
  show "skeeps calm (observe_for e d)" unfolding observe_for_def by (intro qt.skeeps_flow quiet_read quiet_wait)
  show "skeeps calm (drift_from e target pose joints)" unfolding drift_from_def by (intro qt.skeeps_flow p quiet_guard)
  show "skeeps calm (base_moved e before)" unfolding base_moved_def by (intro qt.skeeps_flow p)
  show j: "skeeps calm (joint1 e)" unfolding joint1_def by (intro qt.skeeps_flow quiet_read)
  show "skeeps calm (arm_moved e q)" unfolding arm_moved_def by (intro qt.skeeps_flow j)
qed

lemma quiet_issuers: "skeeps calm (new_issuer e)" "skeeps calm (request_reset e)" "skeeps calm (stop_packet e)"
    "skeeps calm (reset_check e target f u)" "skeeps calm (grant_of_reset e target f)" "skeeps calm (unlocked_row e target)"
    "skeeps calm (fresh_nonce e target v)"
proof -
  show "skeeps calm (new_issuer e)" unfolding new_issuer_def by (intro qt.skeeps_flow qt.skeeps_sput) (simp_all add: calm_def)
  have n: "skeeps calm (guard_nonce e target)" for target unfolding guard_nonce_def by (intro qt.skeeps_flow quiet_guard)
  show f: "skeeps calm (fresh_nonce e target v)" for target v unfolding fresh_nonce_def by (intro qt.skeeps_flow n)
  show "skeeps calm (request_reset e)" unfolding request_reset_def
    by (intro qt.skeeps_flow qt.skeeps_sput n f quiet_wait quiet_read) (simp add: calm_def)
  show "skeeps calm (stop_packet e)" unfolding stop_packet_def by (intro qt.skeeps_flow quiet_approve quiet_token)
  show "skeeps calm (reset_check e target f u)" unfolding reset_check_def by (intro qt.skeeps_flow quiet_marks quiet_checks)
  show "skeeps calm (grant_of_reset e target f)" unfolding grant_of_reset_def by (intro qt.skeeps_flow quiet_marks)
  show "skeeps calm (unlocked_row e target)" unfolding unlocked_row_def by (intro qt.skeeps_flow quiet_guard)
qed

lemma quiet_recovery: "skeeps calm (still_latched e target stage n row)" "skeeps calm (packet_for e target)" "skeeps calm (recovery_packet e target stage)"
    "skeeps calm (recovery_motion e target pose joints)" "skeeps calm (reason_of reasons k)" "skeeps calm (recovery_witness e target stage fresh)"
proof -
  show "skeeps calm (still_latched e target stage n row)" unfolding still_latched_def by (intro qt.skeeps_flow quiet_marks)
  show p: "skeeps calm (packet_for e target)" unfolding packet_for_def by (intro qt.skeeps_flow quiet_packets)
  show w: "skeeps calm (recovery_witness e target stage fresh)" for fresh unfolding recovery_witness_def
    by (intro qt.skeeps_flow quiet_marks quiet_guard quiet_places quiet_packets)
  show "skeeps calm (recovery_packet e target stage)" unfolding recovery_packet_def
    by (intro qt.skeeps_flow quiet_issuers quiet_approve p w)
  show "skeeps calm (recovery_motion e target pose joints)" unfolding recovery_motion_def by (intro qt.skeeps_flow quiet_places quiet_guard)
  show "skeeps calm (reason_of reasons k)" unfolding reason_of_def by (intro qt.skeeps_flow)
qed

lemma quiet_goal: "skeeps calm (goal_admitted e late a)"
  unfolding goal_admitted_def by (intro qt.skeeps_flow quiet_checks quiet_marks quiet_issuers)

lemma quiet_tampered: "skeeps calm (foreign_permit e target p)" "skeeps calm (tampered e target cs pkt)" "skeeps calm (stale_replacement e target cs stage pkt)"
proof -
  show f: "skeeps calm (foreign_permit e target p)" for p unfolding foreign_permit_def Let_def by (intro qt.skeeps_flow quiet_token)
  show "skeeps calm (tampered e target cs pkt)" unfolding tampered_def by (intro qt.skeeps_flow f)
  show "skeeps calm (stale_replacement e target cs stage pkt)" unfolding stale_replacement_def by (intro qt.skeeps_flow quiet_stale)
qed

lemma quiet_lease: "skeeps calm (rows_since_or_guard e target mark)" "skeeps calm (lease_events e target stage mark grant)"
    "skeeps calm (reset_live e grant row)" "skeeps calm (await_live_reset e target stage mark grant)"
proof -
  show r: "skeeps calm (rows_since_or_guard e target mark)" unfolding rows_since_or_guard_def by (intro qt.skeeps_flow quiet_marks quiet_guard)
  show "skeeps calm (lease_events e target stage mark grant)" unfolding lease_events_def by (intro qt.skeeps_flow r)
  show l: "skeeps calm (reset_live e grant row)" for row unfolding reset_live_def by (intro qt.skeeps_flow quiet_read)
  show "skeeps calm (await_live_reset e target stage mark grant)" unfolding await_live_reset_def
    by (intro qt.skeeps_flow quiet_row_wait l quiet_wait r)
qed

lemma quiet_prepare: "skeeps calm (first_checkpoint e target cs stage w)" "skeeps calm (send_instant e stage p f)"
    "skeeps calm (prepare_negative e target cs stage grant m)"
proof -
  show f: "skeeps calm (first_checkpoint e target cs stage w)" for w unfolding first_checkpoint_def by (intro qt.skeeps_flow quiet_checks)
  show s: "skeeps calm (send_instant e stage p f)" for p f unfolding send_instant_def by (intro qt.skeeps_flow quiet_read)
  show "skeeps calm (prepare_negative e target cs stage grant m)" unfolding prepare_negative_def
    by (intro qt.skeeps_flow quiet_recovery quiet_tampered quiet_marks quiet_lease quiet_places quiet_packets f s)
qed

lemma quiet_judging: "skeeps calm (first_admitted e target late w row)" "skeeps calm (negative_drift e target pose joints)"
    "skeeps calm (negative_motion e target cs stage mark t)" "skeeps calm (judged_refusal e target cs stage np t)"
    "skeeps calm (goal_judged e stage before accepted late)" "skeeps calm (moving_under_goal e late goal digest accepted initial row)"
    "skeeps calm (late_motion e stage mark w)" "skeeps calm (late_refusal e stage mark w goal f)" "skeeps calm (send_late_renewal e stage late goal digest w)"
proof -
  show "skeeps calm (first_admitted e target late w row)" unfolding first_admitted_def by (intro qt.skeeps_flow quiet_checks)
  show d: "skeeps calm (negative_drift e target pose joints)" for pose joints unfolding negative_drift_def by (intro qt.skeeps_flow quiet_places quiet_guard)
  show "skeeps calm (negative_motion e target cs stage mark t)" unfolding negative_motion_def
    by (intro qt.skeeps_flow quiet_wait quiet_guard quiet_places quiet_hold d)
  show "skeeps calm (judged_refusal e target cs stage np t)" unfolding judged_refusal_def Let_def by (intro qt.skeeps_flow quiet_recovery quiet_marks)
  show "skeeps calm (goal_judged e stage before accepted late)" unfolding goal_judged_def
    by (intro qt.skeeps_flow quiet_counted quiet_marks quiet_settle quiet_checks)
  show "skeeps calm (moving_under_goal e late goal digest accepted initial row)" unfolding moving_under_goal_def
    by (intro qt.skeeps_flow quiet_checks quiet_read quiet_places)
  show "skeeps calm (late_motion e stage mark w)" unfolding late_motion_def
    by (intro qt.skeeps_flow quiet_wait quiet_guard quiet_places quiet_hold)
  show "skeeps calm (late_refusal e stage mark w goal f)" unfolding late_refusal_def by (intro qt.skeeps_flow quiet_recovery quiet_marks)
  show "skeeps calm (send_late_renewal e stage late goal digest w)" unfolding send_late_renewal_def
    by (intro qt.skeeps_flow quiet_settle quiet_checks quiet_stale quiet_prepare)
qed

lemmas quiet_all = qt.skeeps_flow quiet_read quiet_guard quiet_feed quiet_snapshot quiet_approve quiet_token quiet_stale quiet_packets
  quiet_marks quiet_checks quiet_settle quiet_counted quiet_hold quiet_places quiet_issuers quiet_recovery quiet_goal quiet_tampered
  quiet_lease quiet_prepare quiet_judging

text \<open>The actions of a positive control run inside its wait.\<close>

lemma onward_sends: "skeeps onward (send_packet pkt)" "skeeps onward (send_timely e pkt permit stage ch)"
    "skeeps onward (probe_command e)" "skeeps onward (renew e late digest)"
proof -
  show s: "skeeps onward (send_packet pkt)" for pkt unfolding send_packet_def by (intro ow.skeeps_sput) (simp add: onward_def)
  show t: "skeeps onward (send_timely e pkt permit stage ch)" for pkt permit stage ch
    unfolding send_timely_def
    by (intro ow.skeeps_flow ow.skeeps_sput s skeeps_onward [OF quiet_packets(4)] skeeps_onward [OF quiet_read(2)] skeeps_onward [OF quiet_read(3)])
      (simp add: onward_def)
  show "skeeps onward (probe_command e)" unfolding probe_command_def
    by (intro ow.skeeps_flow skeeps_onward quiet_guard quiet_packets t)
  have r: "skeeps onward (send_renewal e late digest stamp wall step)" for stamp wall step unfolding send_renewal_def
    by (intro ow.skeeps_flow t) (intro skeeps_onward quiet_all)+
  show "skeeps onward (renew e late digest)" unfolding renew_def
    by (intro ow.skeeps_flow r) (intro skeeps_onward quiet_all)+
qed

section \<open>Sending comes last\<close>

text \<open>A script that does not pass has sent nothing.\<close>

definition tail_send :: "(probes, 'a) script \<Rightarrow> bool" where
  "tail_send m \<longleftrightarrow> (\<forall>s r t. m s = (r, t) \<longrightarrow> (\<forall>a. r \<noteq> Some (Passed a)) \<longrightarrow> pb_sent t = pb_sent s)"

lemma tail_quiet: "skeeps calm m \<Longrightarrow> tail_send m"
  unfolding tail_send_def by (auto dest!: skeepsD simp: calm_def)

lemma tail_sbind: "skeeps calm m \<Longrightarrow> (\<And>a. tail_send (f a)) \<Longrightarrow> tail_send (sbind m f)"
  unfolding tail_send_def
proof (intro allI impI)
  fix s r t assume m: "skeeps calm m" and f: "\<And>a. \<forall>s r t. f a s = (r, t) \<longrightarrow> (\<forall>a. r \<noteq> Some (Passed a)) \<longrightarrow> pb_sent t = pb_sent s"
    and run: "sbind m f s = (r, t)" "\<forall>a. r \<noteq> Some (Passed a)"
  obtain q u where u: "m s = (q, u)" by (cases "m s")
  then have "pb_sent u = pb_sent s" using skeepsD [OF m u] by (simp add: calm_def)
  then show "pb_sent t = pb_sent s"
  proof (cases "\<exists>a. q = Some (Passed a)")
    case True
    then obtain a where "f a u = (r, t)" using run(1) u by (auto simp: sbind_def)
    then show ?thesis using f run(2) \<open>pb_sent u = pb_sent s\<close> by metis
  qed (use run u in \<open>auto simp: sbind_def split: option.splits outcome.splits\<close>)
qed

lemma tail_sthen: "skeeps calm m \<Longrightarrow> tail_send n \<Longrightarrow> tail_send (sthen m n)"
  by (simp add: sthen_def tail_sbind)

lemma tail_send_timely: "tail_send (send_timely e pkt permit stage chained)"
  unfolding tail_send_def by (auto dest!: send_timely_sends split: option.splits outcome.splits)

lemma tail_ret: "tail_send m \<Longrightarrow> tail_send (sthen m (sret x))"
  unfolding tail_send_def
  by (auto simp: sthen_def sbind_def sjudge_def split: prod.splits option.splits outcome.splits)

lemma tail_if: "(b \<Longrightarrow> tail_send m) \<Longrightarrow> (\<not> b \<Longrightarrow> tail_send n) \<Longrightarrow> tail_send (if b then m else n)"
  by simp

lemma tail_prod: "(\<And>a b. tail_send (f a b)) \<Longrightarrow> tail_send (case_prod f v)"
  by (cases v) simp

lemma tail_positive: "tail_send (probe_command e)" "tail_send (send_goal e stage)" "tail_send (renew e late digest)"
proof -
  show "tail_send (probe_command e)" unfolding probe_command_def
    by (intro tail_sbind quiet_guard qt.skeeps_flow tail_if tail_quiet quiet_packets tail_send_timely)
  show "tail_send (send_goal e stage)" unfolding send_goal_def
    by (intro tail_sbind quiet_packets tail_prod tail_ret tail_send_timely)
  have n: "tail_send (send_renewal e late digest stamp wall step)" for stamp wall step unfolding send_renewal_def
    by (intro tail_sbind tail_sthen tail_if tail_send_timely quiet_read quiet_token;
        intro tail_quiet qt.skeeps_flow quiet_settle quiet_checks quiet_read quiet_token)
  show "tail_send (renew e late digest)" unfolding renew_def
    by (intro tail_sbind tail_sthen tail_if n quiet_read quiet_snapshot quiet_feed quiet_guard;
        intro tail_quiet qt.skeeps_flow)
qed

section \<open>The packets of a positive control\<close>

text \<open>
  What left, when, and on which lease: one packet and nothing else, at two readings inside its permit's
  window and two more at which the last grant was live on both clocks.
\<close>

definition left_in_time :: "probe_env \<Rightarrow> probes \<Rightarrow> probes \<Rightarrow> packet \<Rightarrow> permit \<Rightarrow> bool" where
  "left_in_time e s t pkt p \<longleftrightarrow>
     clocks_at e s (pb_reads s) (in_window (view_of p)) \<and> clocks_at e s (pb_reads s + 2) (still_live (grant_last (pb_chain s))) \<and>
     t = s\<lparr>pb_reads := pb_reads s + 4, pb_packet := pb_packet s + 1, pb_sent := pb_sent s @ [(pb_packet s + 1, pkt)],
           pb_chain := grant_sent (view_of p) (pb_chain s)\<rparr>"

text \<open>
  A renewal: the clocks were read, the engine accepted the world measured after that and still had the
  goal active, the three readings after the telemetry's found its answer inside 50 ms and in force, and the
  permit signed then is for the goal's digest from the clocks read first.
\<close>

definition renewal_justified :: "probe_env \<Rightarrow> probes \<Rightarrow> probes \<Rightarrow> packet \<Rightarrow> string \<Rightarrow> permit \<Rightarrow> bool" where
  "renewal_justified e s t pkt digest p \<longleftrightarrow>
     (\<exists>u v snapshot step.
        let stamp = ce_sim e (pb_reads s) div 1000000; wall = ce_wall e (pb_sleeps s) (Suc (pb_reads s)); n = Suc (pb_reads v);
            elapsed = round_trip_ms wall (ce_wall e (pb_sleeps v) n) stamp (ce_sim e (n + 1) div 1000000)
        in snapshot_taken e (s\<lparr>pb_reads := Suc (Suc (pb_reads s))\<rparr>) u snapshot \<and> fixture_answers e ''world'' snapshot u v step \<and>
           require_world_accepted step snapshot = Passed () \<and>
           \<not> in_flight (pb_chain s) (getf (guard_row ''arm'' (ce_seen e (pb_reads v))) ''accepted'') \<and>
           require_fresh_actuation step elapsed (ce_sim e (n + 2) div 1000000) 200 50 = Inr () \<and> elapsed < 50 \<and> rust_active step = Inr True \<and>
           pkt = \<lparr>pk_base = None, pk_arm = None, pk_heartbeat = Some (permit_token (ce_permit_ed e) p)\<rparr> \<and>
           bound_permit (sim_backdate_ns (pb_permits s)) ''arm'' ''lease'' digest (stamp * 1000000) wall step p \<and>
           signed_in (v\<lparr>pb_reads := n + 3\<rparr>) t p)"

lemma left_in_timeI:
  assumes "send_timely e pkt (permit_token (ce_permit_ed e) p) stage True u = (Some (Passed ()), t)"
    and "plain_texts e u" and "signed_in v u p"
    and "CHR '':'' \<notin> set (p_target p @ p_kind p)" and "CHR '':'' \<notin> set (p_digest p)" and "plain_texts e v"
  shows "left_in_time e u t pkt p"
proof -
  have "CHR '':'' \<notin> set (p_nonce p)" using assms(3,6) by (auto simp: plain_texts_def signed_in_def)
  then have f: "permit_fields (PStr (permit_token (ce_permit_ed e) p)) = Inr (view_of p)"
    using assms(4,5) by (intro permit_fields_token) simp
  from send_timely_sends [OF assms(1)] f show ?thesis by (auto simp: left_in_time_def sent_timely_def)
qed

lemma bound_permit_names: "bound_permit bd target kind digest sim wall step p \<Longrightarrow> p_target p = target \<and> p_kind p = kind \<and> p_digest p = digest"
  by (auto simp: bound_permit_def)

lemma base_digest_plain: "plain_texts e s \<Longrightarrow> base_digest (ce_sha e) c = Inr d \<Longrightarrow> CHR '':'' \<notin> set d"
  by (auto simp: plain_texts_def base_digest_def rbind_Inr_iff)

lemma arm_digest_plain: "plain_texts e s \<Longrightarrow> arm_digest (ce_sha e) c = Inr d \<Longrightarrow> CHR '':'' \<notin> set d"
  by (auto simp: plain_texts_def arm_digest_def rbind_Inr_iff)

lemma signed_plain: "signed_in s t p \<Longrightarrow> plain_texts e t \<Longrightarrow> plain_texts e s"
  by (simp add: plain_texts_def signed_in_def)

text \<open>
  One packet of a positive control: nothing was in flight (for the first two at the first reading), the
  packet was built from the state \<open>s\<close> on as justified above, and left right after it was signed.
\<close>

definition base_sent :: "probe_env \<Rightarrow> probes \<Rightarrow> probes \<Rightarrow> bool" where
  "base_sent e s t \<longleftrightarrow> \<not> in_flight (pb_chain s) (getf (guard_row ''base'' (ce_seen e (pb_reads s))) ''accepted'') \<and>
     (\<exists>u pkt p. base_justified e (s\<lparr>pb_reads := Suc (pb_reads s)\<rparr>) u pkt p \<and> left_in_time e u t pkt p)"

definition goal_sent :: "probe_env \<Rightarrow> probes \<Rightarrow> probes \<Rightarrow> string \<Rightarrow> bool" where
  "goal_sent e s t digest \<longleftrightarrow> (\<exists>u pkt p. arm_justified e s u pkt digest p \<and> left_in_time e u t pkt p)"

definition renewal_sent :: "probe_env \<Rightarrow> probes \<Rightarrow> probes \<Rightarrow> string \<Rightarrow> bool" where
  "renewal_sent e s t digest \<longleftrightarrow> (\<exists>u pkt p. renewal_justified e s u pkt digest p \<and> left_in_time e u t pkt p)"

lemma base_command_sent:
  assumes "plain_texts e s" and "probe_command e s = (Some (Passed ()), t)"
  shows "pb_sent t = pb_sent s \<or> base_sent e s t"
proof -
  let ?v = "s\<lparr>pb_reads := Suc (pb_reads s)\<rparr>" and ?row = "guard_row ''base'' (ce_seen e (pb_reads s))"
  from assms(2) have r: "(if in_flight (pb_chain s) (getf ?row ''accepted'') then sret ()
       else sbind (base_packet e) (\<lambda>pkt. send_timely e pkt (packet_permit ''base'' pkt) ''base command'' True)) ?v = (Some (Passed ()), t)"
    by (auto simp: probe_command_def probe_passes cong: if_cong)
  show ?thesis
  proof (cases "in_flight (pb_chain s) (getf ?row ''accepted'')")
    case True
    with r show ?thesis by (auto simp: script_passes)
  next
    case False
    with r obtain pkt u where u: "base_packet e ?v = (Some (Passed pkt), u)"
      "send_timely e pkt (packet_permit ''base'' pkt) ''base command'' True u = (Some (Passed ()), t)" by (auto simp: script_passes)
    from base_packet_justified [OF u(1)] obtain p where p: "base_justified e ?v u pkt p" by blast
    then obtain w c where w: "signed_in w u p" "packet_permit ''base'' pkt = permit_token (ce_permit_ed e) p" "p_target p = ''base''" "p_kind p = ''command''"
      "base_digest (ce_sha e) c = Inr (p_digest p)"
      by (auto simp: base_justified_def packet_permit_def bound_permit_def)
    have qu: "calm s u" using skeepsD [OF quiet_packets(1) u(1)] by (simp add: calm_def)
    have pl: "plain_texts e u" using assms(1) qu by (rule texts_calm)
    moreover have "plain_texts e w" using w(1) pl by (rule signed_plain)
    ultimately have "left_in_time e u t pkt p"
      using u(2) w base_digest_plain [OF pl w(5)] by (intro left_in_timeI [of e pkt p "''base command''" u t w]) auto
    then show ?thesis using p False unfolding base_sent_def by blast
  qed
qed

lemma send_goal_sent:
  assumes "plain_texts e s" and "send_goal e stage s = (Some (Passed digest), t)"
  shows "goal_sent e s t digest"
proof -
  from assms(2) obtain pkt u where u: "arm_packet e s = (Some (Passed (pkt, digest)), u)"
    "send_timely e pkt (packet_permit ''arm'' pkt) stage True u = (Some (Passed ()), t)" by (auto simp: send_goal_def script_passes)
  from arm_packet_justified [OF u(1)] obtain p where p: "arm_justified e s u pkt digest p" by blast
  then obtain w c where w: "signed_in w u p" "packet_permit ''arm'' pkt = permit_token (ce_permit_ed e) p" "p_target p = ''arm''" "p_kind p = ''goal''"
    "arm_digest (ce_sha e) c = Inr (p_digest p)"
    by (auto simp: arm_justified_def packet_permit_def bound_permit_def arm_data_of_def)
  have qu: "calm s u" by (rule skeepsD [OF quiet_packets(3) u(1)])
  have pl: "plain_texts e u" using assms(1) qu by (rule texts_calm)
  moreover have "plain_texts e w" using w(1) pl by (rule signed_plain)
  ultimately have "left_in_time e u t pkt p"
    using u(2) w arm_digest_plain [OF pl w(5)] by (intro left_in_timeI [of e pkt p stage u t w]) auto
  then show ?thesis using p unfolding goal_sent_def by blast
qed

lemma renewal_judged_Passed:
  "renewal_judged step elapsed t = Passed u \<longleftrightarrow> require_fresh_actuation step elapsed t 200 50 = Inr () \<and> elapsed < 50"
  by (auto simp: renewal_judged_def obind_Passed judge_res_Passed split: if_splits)

lemma renew_sent:
  assumes "plain_texts e s" and "CHR '':'' \<notin> set digest" and "renew e late digest s = (Some (Passed ()), t)"
  shows "pb_sent t = pb_sent s \<or> renewal_sent e s t digest"
proof -
  let ?s0 = "s\<lparr>pb_reads := Suc (Suc (pb_reads s))\<rparr>" and ?stamp = "ce_sim e (pb_reads s) div 1000000"
  let ?wall = "ce_wall e (pb_sleeps s) (Suc (pb_reads s))"
  from assms(3) obtain snapshot u step v where
    v: "world_snapshot e ?s0 = (Some (Passed snapshot), u)" "feed e ''world'' snapshot u = (Some (Passed step), v)"
      "require_world_accepted step snapshot = Passed ()" and
    r: "(if in_flight (pb_chain v) (getf (guard_row ''arm'' (ce_seen e (pb_reads v))) ''accepted'') then sret ()
         else send_renewal e late digest ?stamp ?wall step) (v\<lparr>pb_reads := Suc (pb_reads v)\<rparr>) = (Some (Passed ()), t)"
    by (auto simp: renew_def probe_passes cong: if_cong)
  have qv: "calm s v" using skeepsD [OF quiet_snapshot(1) v(1)] skeepsD [OF quiet_feed v(2)] by (simp add: calm_def)
  have ch: "pb_chain v = pb_chain s" using qv by (simp add: calm_def)
  show ?thesis
  proof (cases "in_flight (pb_chain v) (getf (guard_row ''arm'' (ce_seen e (pb_reads v))) ''accepted'')")
    case True
    with r qv show ?thesis by (auto simp: script_passes calm_def)
  next
    case False
    let ?n = "Suc (pb_reads v)"
    let ?y = "v\<lparr>pb_reads := ?n + 3\<rparr>"
    let ?el = "round_trip_ms ?wall (ce_wall e (pb_sleeps v) ?n) ?stamp (ce_sim e (?n + 1) div 1000000)"
    from False r obtain n heartbeat w where
      b: "require_fresh_actuation step ?el (ce_sim e (?n + 2) div 1000000) 200 50 = Inr ()" "?el < 50" "rust_active step = Inr True"
        "budget step (?stamp * 1000000) = Passed n" and
      t: "token e ''arm'' ''lease'' digest (?stamp * 1000000) ?wall n ?y = (Some (Passed heartbeat), w)"
        "send_timely e \<lparr>pk_base = None, pk_arm = None, pk_heartbeat = Some heartbeat\<rparr> heartbeat ''arm renewal'' True w = (Some (Passed ()), t)"
      by (auto simp: send_renewal_def probe_passes renewal_judged_Passed numeral_eq_Suc split: if_splits)
    have same: "sim_backdate_ns (pb_permits ?y) = sim_backdate_ns (pb_permits s)" using qv by (simp add: calm_def)
    from token_bound [OF t(1) b(4)] obtain p where p: "heartbeat = permit_token (ce_permit_ed e) p"
      "bound_permit (sim_backdate_ns (pb_permits s)) ''arm'' ''lease'' digest (?stamp * 1000000) ?wall step p" "signed_in ?y w p" unfolding same by blast
    let ?pkt = "\<lparr>pk_base = None, pk_arm = None, pk_heartbeat = Some heartbeat\<rparr>"
    have "renewal_justified e s w ?pkt digest p"
      unfolding renewal_justified_def Let_def
      by (rule exI [of _ u], rule exI [of _ v], rule exI [of _ snapshot], rule exI [of _ step])
        (intro conjI snapshot_Passed [OF v(1)] feed_Passed [OF v(2)] v(3) False [unfolded ch] b(1-3) p(2,3); simp add: p(1))
    moreover have "left_in_time e w t ?pkt p"
    proof (rule left_in_timeI [where stage = "''arm renewal''" and v = ?y])
      have y: "calm s ?y" using qv by (auto simp: calm_def)
      have w: "calm s w" using qt.trans [OF y skeepsD [OF quiet_token t(1)]] .
      show "plain_texts e ?y" "plain_texts e w" using y w assms(1) by (blast intro: texts_calm)+
    qed (use t(2) p assms(2) bound_permit_names [OF p(2)] in simp_all)
    ultimately show ?thesis unfolding renewal_sent_def by blast
  qed
qed

lemma probe_demo_plain: "plain_texts probe_demo_env probe_demo_start"
  by (simp add: plain_texts_def probe_demo_env_def probe_demo_start_def)

text \<open>
  C11. A positive control sends only what the engine just approved: each run of the base command, of the
  arm goal and of its renewal sends nothing or exactly one packet. Behind a sent packet stands, in the
  readings of this very run, a measured world the fixture engine accepted, the two clocks read after it,
  the proposal sent to the engine with them (a renewal reads the clocks first and the world is its
  proposal), the engine's answer to exactly that proposal, and three readings after the answer that found
  it fresh inside 50 ms on both clocks; the permit was signed right then, for exactly the command or
  trajectory of the packet, from the clocks of the proposal, ending inside what the answer leaves of the
  world and the proposal; and the packet left at the next four readings, inside the verifier's window and
  while the last grant was live on both clocks.
\<close>

theorem positive_packets_approved:
  assumes "plain_texts e s" and "CHR '':'' \<notin> set digest"
  shows "(case probe_command e s of (r, t) \<Rightarrow> pb_sent t = pb_sent s \<or> base_sent e s t) \<and>
    (case send_goal e stage s of (Some (Passed d), t) \<Rightarrow> goal_sent e s t d | (_, t) \<Rightarrow> pb_sent t = pb_sent s) \<and>
    (case renew e late digest s of (r, t) \<Rightarrow> pb_sent t = pb_sent s \<or> renewal_sent e s t digest)"
proof (intro conjI)
  obtain r t where "probe_command e s = (r, t)" by (cases "probe_command e s")
  then show "case probe_command e s of (r, t) \<Rightarrow> pb_sent t = pb_sent s \<or> base_sent e s t"
    using base_command_sent [OF assms(1)] tail_positive(1) [of e] unfolding tail_send_def by (cases "r = Some (Passed ())") auto
next
  obtain r t where "renew e late digest s = (r, t)" by (cases "renew e late digest s")
  then show "case renew e late digest s of (r, t) \<Rightarrow> pb_sent t = pb_sent s \<or> renewal_sent e s t digest"
    using renew_sent [OF assms] tail_positive(3) [of e late digest] unfolding tail_send_def by (cases "r = Some (Passed ())") auto
next
  obtain r t where r: "send_goal e stage s = (r, t)" by (cases "send_goal e stage s")
  show "case send_goal e stage s of (Some (Passed d), t) \<Rightarrow> goal_sent e s t d | (_, t) \<Rightarrow> pb_sent t = pb_sent s"
    using send_goal_sent [OF assms(1), of stage] tail_positive(2) [of e stage] r unfolding tail_send_def
    by (cases "\<exists>d. r = Some (Passed d)") (auto split: option.split outcome.split)
qed

theorem positive_packets_approved_witness:
  "pb_sent (snd (probe_command probe_demo_env probe_demo_start)) = [(1, probe_demo_packet)] \<and>
   base_sent probe_demo_env probe_demo_start (snd (probe_command probe_demo_env probe_demo_start))"
proof -
  have "pb_sent (snd (probe_command probe_demo_env probe_demo_start)) \<noteq> pb_sent probe_demo_start"
    unfolding demo_command by (simp add: probe_demo_start_def)
  moreover have "case probe_command probe_demo_env probe_demo_start of (r, t) \<Rightarrow> pb_sent t = pb_sent probe_demo_start \<or> base_sent probe_demo_env probe_demo_start t"
    using positive_packets_approved [OF probe_demo_plain, of "''d''" "''arm goal''"] by simp
  ultimately show ?thesis using demo_command by (simp add: case_prod_beta)
qed

end
