(* ===== verification/Probe_Evidence.thy ===== *)
theory Probe_Evidence
  imports Probe_Properties
begin

text \<open>
  The case of a packet that must be refused: the readings the host makes before it is sent, the evidence
  the attempt must see for it, and the recovery after it, each named by the state it was read in.
\<close>

section \<open>The packet that must be refused\<close>

text \<open>Nothing leaves; the grants and the challenges may change.\<close>

definition still :: "probes \<Rightarrow> probes \<Rightarrow> bool" where
  "still s t \<longleftrightarrow> pb_sleeps s \<le> pb_sleeps t \<and> pb_reads s \<le> pb_reads t \<and> pb_sent t = pb_sent s \<and> sim_backdate_ns (pb_permits t) = sim_backdate_ns (pb_permits s)"

interpretation st: run_rel still
  by unfold_locales (auto simp: still_def)

lemma quiet_still: "calm s t \<Longrightarrow> still s t"
  by (simp add: calm_def still_def)

lemma still_observe: "skeeps still (observe_controller e target)"
proof -
  have b: "sim_backdate_ns (snd (ps_observe target v g)) = sim_backdate_ns g" for v g
    by (auto simp: ps_observe_def mcheck_def meth_defs split: sum.splits option.splits)
  have "skeeps still (\<lambda>s :: probes. case ps_observe target (PDict row) (pb_permits s) of
       (Inl x, g) \<Rightarrow> (Some (Raised x), s\<lparr>pb_permits := g\<rparr>)
     | (Inr u, g) \<Rightarrow> (Some (Passed ()), s\<lparr>pb_permits := g\<lparr>sequence := dput target 0 (sequence g)\<rparr>\<rparr>))" for row
    unfolding skeeps_def
  proof
    fix s :: probes
    obtain r g where "ps_observe target (PDict row) (pb_permits s) = (r, g)" by (cases "ps_observe target (PDict row) (pb_permits s)")
    with b [of "PDict row" "pb_permits s"] show "still s (snd (case ps_observe target (PDict row) (pb_permits s) of
       (Inl x, g) \<Rightarrow> (Some (Raised x), s\<lparr>pb_permits := g\<rparr>)
     | (Inr u, g) \<Rightarrow> (Some (Passed ()), s\<lparr>pb_permits := g\<lparr>sequence := dput target 0 (sequence g)\<rparr>\<rparr>)))"
      by (auto simp: still_def split: sum.split)
  qed
  moreover have "skeeps still (guard e target)" using quiet_guard(1) by (simp add: skeeps_def quiet_still)
  ultimately show ?thesis unfolding observe_controller_def by (intro st.skeeps_sbind)
qed

lemma skeeps_still: "skeeps calm m \<Longrightarrow> skeeps still m"
  by (simp add: skeeps_def quiet_still)

lemma still_onward: "still s t \<Longrightarrow> onward s t"
  by (simp add: still_def onward_def)

section \<open>Waits that passed\<close>

lemma wd_wait: "skeeps waited p \<Longrightarrow> skeeps waited (probe_wait e p n d None)"
  unfolding probe_wait_def by (rule wd.skeeps_await) (simp_all add: probe_waiter_def)

lemma wd_marks: "skeeps waited (telemetry_mark e target)" "skeeps waited (since e target mark)" "skeeps waited (guard_count e target k)"
    "skeeps waited (seen_pose e)" "skeeps waited (seen_positions e)" "skeeps waited (check_events e c chain)" "skeeps waited (late_events e c)"
proof -
  show m: "skeeps waited (telemetry_mark e target)" "skeeps waited (since e target mark)" for mark
    unfolding telemetry_mark_def since_def by (intro wd.skeeps_flow wd_read)+
  show "skeeps waited (guard_count e target k)" unfolding guard_count_def by (intro wd.skeeps_flow wd_guard)
  show "skeeps waited (seen_pose e)" "skeeps waited (seen_positions e)" unfolding seen_pose_def seen_positions_def by (intro wd.skeeps_flow wd_read)+
  have s: "skeeps waited (since e target mark)" for target mark unfolding since_def by (intro wd.skeeps_flow wd_read)
  show c: "skeeps waited (check_events e c chain)" for chain unfolding check_events_def by (intro wd.skeeps_flow s)
  show "skeeps waited (late_events e c)" unfolding late_events_def by (intro wd.skeeps_flow c)
qed

text \<open>What the two waits on telemetry saw: one observation, a fixed number of readings before their end.\<close>

lemma judged_Passed:
  assumes "wait_judged e target mark judge n d s = (Some (Passed a), t)"
  shows "waited s t \<and> pb_reads s + 2 \<le> pb_reads t \<and> judge (drop mark (telemetry_rows target (ce_seen e (pb_reads t - 2)))) = Passed (Some a)"
proof -
  let ?p = "sbind (since e target mark) (\<lambda>rows. sjudge (judge rows))"
  have "skeeps waited ?p" by (intro wd.skeeps_flow wd_marks)
  from waits_for [OF this assms [unfolded wait_judged_def]] obtain u v where u: "waited s u" "?p u = (Some (Passed (Some a)), v)"
    "t = v\<lparr>pb_reads := Suc (pb_reads v)\<rparr>" by blast
  then have t: "t = u\<lparr>pb_reads := Suc (Suc (pb_reads u))\<rparr>" and j: "judge (drop mark (telemetry_rows target (ce_seen e (pb_reads u)))) = Passed (Some a)"
    by (auto simp: since_def probe_passes)
  have "waited u t" unfolding t by (simp add: waited_def)
  then have "waited s t" by (rule wd.trans [OF u(1)])
  then show ?thesis using waited_le(1) [OF u(1)] t j by simp
qed

lemma row_Passed:
  assumes "\<And>row. skeeps waited (accept row)" and "wait_row e target accept n d s = (Some (Passed row), t)"
  shows "\<exists>u v. waited s u \<and> row = guard_row target (ce_seen e (pb_reads u)) \<and> accept row (u\<lparr>pb_reads := Suc (pb_reads u)\<rparr>) = (Some (Passed True), v) \<and>
    t = v\<lparr>pb_reads := Suc (pb_reads v)\<rparr> \<and> waited s t"
proof -
  let ?p = "sbind (guard e target) (\<lambda>row. sbind (accept row) (\<lambda>b. sret (if b then Some row else None)))"
  have q: "skeeps waited ?p" by (intro wd.skeeps_flow wd_guard assms(1))
  from waits_for [OF q assms(2) [unfolded wait_row_def]] obtain u v where u: "waited s u" "?p u = (Some (Passed (Some row)), v)"
    "t = v\<lparr>pb_reads := Suc (pb_reads v)\<rparr>" by blast
  have "waited u v" by (rule skeepsD [OF q u(2)])
  then have "waited s t" using u(1,3) wd.trans waited_steps(1) by metis
  then show ?thesis using u by (auto simp: probe_passes split: if_splits)
qed

lemma on_timeout_Passed:
  "on_timeout m h s = (Some (Passed a), t) \<longleftrightarrow>
   m s = (Some (Passed a), t) \<or> (\<exists>d u. m s = (Some (Raised (TimeoutError d)), u) \<and> h u = (Some (Passed a), t))"
  by (auto simp: on_timeout_def split: prod.splits option.splits outcome.splits exn.splits)

lemma guarded_Passed: "guarded chk body s = (Some (Passed a), t) \<longleftrightarrow> body s = (Some (Passed a), t)"
  by (auto simp: guarded_def sbind_def sjudge_def split: prod.splits option.splits outcome.splits)

text \<open>The refusal, in the telemetry the last reading but one showed.\<close>

definition refusal_seen :: "probe_env \<Rightarrow> string \<Rightarrow> nat \<Rightarrow> witness \<Rightarrow> string \<Rightarrow> probes \<Rightarrow> probes \<Rightarrow> row \<Rightarrow> bool" where
  "refusal_seen e target mark w expected s t row \<longleftrightarrow> waited s t \<and> pb_reads s + 2 \<le> pb_reads t \<and>
     (let rows = drop mark (telemetry_rows target (ce_seen e (pb_reads t - 2))) in
      (\<exists>i<length rows. row = rows ! i \<and> (\<exists>r\<in>set (drop i rows). getf r ''holding'' = PBool True \<and> getf r ''reason'' = PStr expected)) \<and>
      refusal_row w expected row \<and> (\<forall>r\<in>set rows. looked_at w r \<longrightarrow> unchanged w r))"

lemma refusal_seenI:
  assumes "wait_judged e target mark (\<lambda>rows. refusal target rows w expected timing g stage after) n d s = (Some (Passed (row, h)), t)"
  shows "refusal_seen e target mark w expected s t row"
proof -
  note k = judged_Passed [OF assms]
  from k refusal_sound [of target "drop mark (telemetry_rows target (ce_seen e (pb_reads t - 2)))" w expected timing g stage after row h] obtain i where
    "i < length (drop mark (telemetry_rows target (ce_seen e (pb_reads t - 2))))" "row = drop mark (telemetry_rows target (ce_seen e (pb_reads t - 2))) ! i"
    "refusal_row w expected row" "\<forall>r\<in>set (drop mark (telemetry_rows target (ce_seen e (pb_reads t - 2)))). looked_at w r \<longrightarrow> unchanged w r"
    "\<exists>r\<in>set (drop i (drop mark (telemetry_rows target (ce_seen e (pb_reads t - 2))))). getf r ''holding'' = PBool True \<and> getf r ''reason'' = PStr expected"
    by blast
  then show ?thesis using k unfolding refusal_seen_def Let_def by blast
qed

section \<open>Where the body is\<close>

definition pose_seen :: "probe_env \<Rightarrow> nat \<Rightarrow> point \<Rightarrow> bool" where
  "pose_seen e n q \<longleftrightarrow> map_option pose_of (se_odom (ce_seen e n)) = Some q"

lemma pose_Passed: "seen_pose e s = (Some (Passed q), t) \<longleftrightarrow> pose_seen e (pb_reads s) q \<and> t = s\<lparr>pb_reads := Suc (pb_reads s)\<rparr>"
  by (auto simp: seen_pose_def pose_seen_def probe_passes split: option.splits)

lemma place_Passed: "read_place e s = (Some (Passed (pose, joints)), t) \<longleftrightarrow>
    pose_seen e (pb_reads s) pose \<and> joints_seen e (Suc (pb_reads s)) joints \<and> t = s\<lparr>pb_reads := Suc (Suc (pb_reads s))\<rparr>"
  by (cases pose) (auto simp: read_place_def script_passes pose_Passed positions_Passed)

text \<open>\<open>observe_for\<close>: at least 300 ms on the wall clock between its first reading and the last but one.\<close>

definition observed_for :: "probe_env \<Rightarrow> probes \<Rightarrow> probes \<Rightarrow> bool" where
  "observed_for e s t \<longleftrightarrow> waited s t \<and> pb_reads s + 3 \<le> pb_reads t \<and>
     ce_wall e (pb_sleeps s) (pb_reads s) + 300000000 \<le> ce_wall e (pb_sleeps t) (pb_reads t - 2)"

lemma observe_Passed:
  assumes "observe_for e d s = (Some (Passed x), t)"
  shows "observed_for e s t"
proof -
  let ?t0 = "ce_wall e (pb_sleeps s) (pb_reads s)" and ?s = "s\<lparr>pb_reads := Suc (pb_reads s)\<rparr>"
  let ?p = "sbind (wall_ns e) (\<lambda>t. sret (?t0 + 300000000 \<le> t)) :: (probes, bool) script"
  from assms have w: "probe_wait e (met ?p) 2000000000 d None ?s = (Some (Passed ()), t)" by (auto simp: observe_for_def probe_passes)
  have "skeeps waited ?p" by (intro wd.skeeps_flow wd_read)
  from waits_for [OF wd.skeeps_met [OF this] w] obtain u v where u: "waited ?s u" "?p u = (Some (Passed True), v)" "t = v\<lparr>pb_reads := Suc (pb_reads v)\<rparr>"
    by (auto simp: met_Passed)
  then have t: "t = u\<lparr>pb_reads := Suc (Suc (pb_reads u))\<rparr>" and l: "?t0 + 300000000 \<le> ce_wall e (pb_sleeps u) (pb_reads u)" by (auto simp: probe_passes)
  have "waited u t" unfolding t by (simp add: waited_def)
  then have "waited s t" using u(1) wd.trans waited_steps(1) by blast
  then show ?thesis using l t waited_le(1) [OF u(1)] by (simp add: observed_for_def)
qed

section \<open>Recovery\<close>

definition target_justified :: "probe_env \<Rightarrow> string \<Rightarrow> probes \<Rightarrow> probes \<Rightarrow> packet \<Rightarrow> permit \<Rightarrow> bool" where
  "target_justified e target s t pkt p =
     (if target = ''base'' then base_justified e s t pkt p else (\<exists>digest. arm_justified e s t pkt digest p))"

text \<open>A justified packet carries its permit, which any other can replace.\<close>

lemma justified_permit:
  assumes "target_justified e target s t pkt p"
  shows "packet_permit target pkt = permit_token (ce_permit_ed e) p \<and> packet_permit target (with_permit target q pkt) = q"
  using assms by (auto simp: target_justified_def base_justified_def arm_justified_def packet_permit_def with_permit_def arm_data_of_def split: if_splits)

lemma packet_for_justified:
  assumes "packet_for e target s = (Some (Passed pkt), t)"
  shows "\<exists>p. target_justified e target s t pkt p"
  using assms base_packet_justified arm_packet_justified
  by (auto simp: packet_for_def target_justified_def script_passes split: if_splits) blast+

text \<open>A new issuer, and the drift from a place at a reading.\<close>

definition reissued :: "probe_env \<Rightarrow> probes \<Rightarrow> probes \<Rightarrow> bool" where
  "reissued e s t \<longleftrightarrow> (\<exists>trust_text state key_paths source. ce_fixture e (pb_fixture s + 1) = (trust_text, state, key_paths) \<and>
     signer_init (ce_loads e) (ce_pub e) (ce_euid e) trust_text state key_paths = Inr source \<and>
     t = s\<lparr>pb_fixture := pb_fixture s + 1, pb_issuer := Some (source, []), pb_proposal := 0\<rparr>)"

lemma issuer_Passed: "new_issuer e s = (Some (Passed x), t) \<Longrightarrow> reissued e s t"
  by (auto simp: new_issuer_def reissued_def probe_passes split: prod.splits)

definition place_drift :: "probe_env \<Rightarrow> string \<Rightarrow> point \<Rightarrow> float64 list \<Rightarrow> nat \<Rightarrow> rat \<Rightarrow> bool" where
  "place_drift e target pose joints n d \<longleftrightarrow>
     (if target = ''base'' then \<exists>q. pose_seen e n q \<and> d = ce_dist e q pose else \<exists>qs. joints_seen e n qs \<and> d = arm_drift joints qs)"

lemma drift_Passed: "drift_from e target pose joints s = (Some (Passed d), t) \<longleftrightarrow> place_drift e target pose joints (pb_reads s) d \<and> t = s\<lparr>pb_reads := Suc (pb_reads s)\<rparr>"
  by (auto simp: drift_from_def place_drift_def script_passes pose_Passed positions_Passed)

text \<open>The counters and the nonce of a row.\<close>

definition counted_by :: "witness \<Rightarrow> row \<Rightarrow> bool" where
  "counted_by w row \<longleftrightarrow> w_nonce w = getf row ''nonce'' \<and> (\<exists>a. count_of row ''accepted'' = Inr a \<and> w_accepted w = PInt a) \<and> count_of row ''rejected'' = Inr (w_rejected w)"

text \<open>
  The recovery from the state \<open>s\<close>: after two readings of telemetry a new issuer is started, a stop is
  approved, and a fresh packet is approved and signed (up to \<open>y\<close>). The next readings are the telemetry's
  length, the controller's counters, the body's pose and joints, for the base both clocks inside the
  permit's window, and the instant of the send. The packet leaves; the telemetry after that length shows
  it refused for the lock (\<open>x\<close>), 300 ms later the body has not moved from that place, the controller
  holds, and it has accepted nothing.
\<close>

definition recovery_shown :: "probe_env \<Rightarrow> string \<Rightarrow> probes \<Rightarrow> probes \<Rightarrow> packet \<Rightarrow> bool" where
  "recovery_shown e target s t fresh \<longleftrightarrow>
     (\<exists>i v y x u p w expected row sim wall step pose joints d.
        let k = pb_reads y; n = k + (if target = ''base'' then 6 else 4) in
        reissued e (s\<lparr>pb_reads := pb_reads s + 2\<rparr>) i \<and> probe_approved e i v (PDict [(''type'', PStr ''stop'')]) sim wall step \<and>
        target_justified e target v y fresh p \<and>
        counted_by w (guard_row target (ce_seen e (k + 1))) \<and> w_sent w = ce_wall e (pb_sleeps y) n \<and>
        pose_seen e (k + 2) pose \<and> joints_seen e (k + 3) joints \<and>
        (if target = ''base'' then \<exists>f. permit_fields (PStr (packet_permit target fresh)) = Inr f \<and> clocks_at e y (k + 4) (in_window f) else True) \<and>
        map_of RECOVERY_REASONS target = Some expected \<and>
        refusal_seen e target (length (telemetry_rows target (ce_seen e k))) w expected
          (y\<lparr>pb_reads := Suc n, pb_packet := pb_packet y + 1, pb_sent := pb_sent y @ [(pb_packet y + 1, fresh)]\<rparr>) x row \<and>
        observed_for e x u \<and> place_drift e target pose joints (pb_reads u) d \<and> \<not> exceeds_drift d \<and>
        getf (guard_row target (ce_seen e (Suc (pb_reads u)))) ''holding'' = PBool True \<and>
        (\<exists>a. count_of (guard_row target (ce_seen e (pb_reads u + 2))) ''accepted'' = Inr a \<and> w_accepted w = PInt a) \<and>
        t = u\<lparr>pb_reads := pb_reads u + 3\<rparr>)"

lemma mark_Passed: "telemetry_mark e target s = (Some (Passed m), t) \<longleftrightarrow> m = length (telemetry_rows target (ce_seen e (pb_reads s))) \<and> t = s\<lparr>pb_reads := Suc (pb_reads s)\<rparr>"
  by (auto simp: telemetry_mark_def probe_passes)

lemma count_Passed: "guard_count e target k s = (Some (Passed a), t) \<longleftrightarrow> count_of (guard_row target (ce_seen e (pb_reads s))) k = Inr a \<and> t = s\<lparr>pb_reads := Suc (pb_reads s)\<rparr>"
  by (auto simp: guard_count_def probe_passes)

lemma recovery_motion_Passed:
  assumes "recovery_motion e target pose joints s = (Some (Passed d), t)"
  shows "\<exists>u. observed_for e s u \<and> place_drift e target pose joints (pb_reads u) d \<and> \<not> exceeds_drift d \<and>
    getf (guard_row target (ce_seen e (Suc (pb_reads u)))) ''holding'' = PBool True \<and> t = u\<lparr>pb_reads := Suc (Suc (pb_reads u))\<rparr>"
  using assms by (fastforce simp: recovery_motion_def probe_passes drift_Passed split: if_splits dest: observe_Passed)

lemma recovery_packet_Passed:
  assumes "recovery_packet e target stage s = (Some (Passed (fresh, mark, w, pose, joints)), t)"
  shows "\<exists>i v y p sim wall step. let k = pb_reads y; n = k + (if target = ''base'' then 6 else 4) in
    reissued e s i \<and> probe_approved e i v (PDict [(''type'', PStr ''stop'')]) sim wall step \<and> target_justified e target v y fresh p \<and>
    mark = length (telemetry_rows target (ce_seen e k)) \<and> (\<forall>x. counted_by (w\<lparr>w_sent := x\<rparr>) (guard_row target (ce_seen e (k + 1)))) \<and>
    pose_seen e (k + 2) pose \<and> joints_seen e (k + 3) joints \<and>
    (if target = ''base'' then \<exists>f. permit_fields (PStr (packet_permit target fresh)) = Inr f \<and> clocks_at e y (k + 4) (in_window f) else True) \<and>
    t = y\<lparr>pb_reads := n\<rparr>"
proof -
  from assms obtain i v sim wall step y where
    a: "new_issuer e s = (Some (Passed ()), i)" "approve_probe e (PDict [(''type'', PStr ''stop'')]) i = (Some (Passed (sim, wall, step)), v)"
      "packet_for e target v = (Some (Passed fresh), y)" and
    w: "recovery_witness e target stage fresh y = (Some (Passed (fresh, mark, w, pose, joints)), t)"
    by (auto simp: recovery_packet_def recovery_witness_def script_passes)
  from packet_for_justified [OF a(3)] obtain p where p: "target_justified e target v y fresh p" by blast
  let ?y = "y\<lparr>pb_reads := pb_reads y + 4\<rparr>"
  from w have r: "mark = length (telemetry_rows target (ce_seen e (pb_reads y)))" "\<forall>x. counted_by (w\<lparr>w_sent := x\<rparr>) (guard_row target (ce_seen e (pb_reads y + 1)))"
      "pose_seen e (pb_reads y + 2) pose" "joints_seen e (pb_reads y + 3) joints" and
    q: "swhen (target = ''base'') (sthen (require_timely e (packet_permit target fresh) (stage @ '' recovery'')) (sret ())) ?y = (Some (Passed ()), t)"
    by (auto simp: recovery_witness_def probe_passes mark_Passed place_Passed counted_by_def numeral_eq_Suc)
  have t: "(if target = ''base'' then \<exists>f. permit_fields (PStr (packet_permit target fresh)) = Inr f \<and> clocks_at e y (pb_reads y + 4) (in_window f) else True) \<and>
      t = y\<lparr>pb_reads := pb_reads y + (if target = ''base'' then 6 else 4)\<rparr>"
  proof (cases "target = ''base''")
    case True
    with q obtain f where "require_timely e (packet_permit target fresh) (stage @ '' recovery'') ?y = (Some (Passed f), t)" by (auto simp: swhen_def script_passes)
    from require_timely_window [OF this] True show ?thesis by (auto simp: clocks_at_def)
  qed (use q in \<open>auto simp: swhen_def script_passes\<close>)
  show ?thesis unfolding Let_def
    by (rule exI [of _ i], rule exI [of _ v], rule exI [of _ y], rule exI [of _ p], rule exI [of _ sim], rule exI [of _ wall], rule exI [of _ step])
      (use issuer_Passed [OF a(1)] approve_Passed [OF a(2)] p r t in \<open>cases "target = ''base''"; simp\<close>)
qed

lemma recover_shown:
  assumes "recover e target stage s = (Some (Passed rows), t)"
  shows "\<exists>fresh n. recovery_shown e target s t fresh \<and> onward s t \<and> pb_sent t = pb_sent s @ [(n, fresh)]"
proof -
  let ?s = "s\<lparr>pb_reads := pb_reads s + 2\<rparr>"
  from assms obtain fresh mark w pose joints z refused held x d b a expected where
    r: "recovery_packet e target stage ?s = (Some (Passed (fresh, mark, w, pose, joints)), z)" and
    b: "map_of RECOVERY_REASONS target = Some expected"
      "wait_judged e target mark (\<lambda>rows. refusal target rows (w\<lparr>w_sent := ce_wall e (pb_sleeps z) (pb_reads z)\<rparr>) expected
          (if target = ''base'' then [''freshness''] else []) None (stage @ '' recovery'') None) 2000000000
          ''fresh recovery rejected at locked controller''
        (z\<lparr>pb_reads := Suc (pb_reads z), pb_packet := pb_packet z + 1, pb_sent := pb_sent z @ [(pb_packet z + 1, fresh)]\<rparr>)
        = (Some (Passed (refused, held)), x)"
      "recovery_motion e target pose joints x = (Some (Passed d), b)" "guard_count e target ''accepted'' b = (Some (Passed a), t)" "PInt a = w_accepted w"
    by (auto simp: recover_def probe_passes mark_Passed guarded_Passed send_packet_def sput_def reason_of_def split: if_splits option.splits)
  from recovery_packet_Passed [OF r, unfolded Let_def] obtain i v y p sim wall step where
    y: "reissued e ?s i" "probe_approved e i v (PDict [(''type'', PStr ''stop'')]) sim wall step" "target_justified e target v y fresh p"
      "mark = length (telemetry_rows target (ce_seen e (pb_reads y)))" "\<forall>x. counted_by (w\<lparr>w_sent := x\<rparr>) (guard_row target (ce_seen e (pb_reads y + 1)))"
      "pose_seen e (pb_reads y + 2) pose" "joints_seen e (pb_reads y + 3) joints"
      "if target = ''base'' then \<exists>f. permit_fields (PStr (packet_permit target fresh)) = Inr f \<and> clocks_at e y (pb_reads y + 4) (in_window f) else True"
      "z = y\<lparr>pb_reads := pb_reads y + (if target = ''base'' then 6 else 4)\<rparr>" by blast
  let ?n = "pb_reads y + (if target = ''base'' then 6 else 4)" and ?w = "w\<lparr>w_sent := ce_wall e (pb_sleeps z) (pb_reads z)\<rparr>"
  note ref = refusal_seenI [OF b(2)]
  from recovery_motion_Passed [OF b(3)] obtain u where u: "observed_for e x u" "place_drift e target pose joints (pb_reads u) d" "\<not> exceeds_drift d"
    "getf (guard_row target (ce_seen e (Suc (pb_reads u)))) ''holding'' = PBool True" "b = u\<lparr>pb_reads := Suc (Suc (pb_reads u))\<rparr>" by blast
  have c: "count_of (guard_row target (ce_seen e (pb_reads u + 2))) ''accepted'' = Inr a" "t = u\<lparr>pb_reads := pb_reads u + 3\<rparr>"
    using b(4) u(5) by (auto simp: count_Passed numeral_eq_Suc)
  have zs: "z\<lparr>pb_reads := Suc (pb_reads z), pb_packet := pb_packet z + 1, pb_sent := pb_sent z @ [(pb_packet z + 1, fresh)]\<rparr> =
      y\<lparr>pb_reads := Suc ?n, pb_packet := pb_packet y + 1, pb_sent := pb_sent y @ [(pb_packet y + 1, fresh)]\<rparr>" unfolding y(9) by simp
  have ws: "w_sent ?w = ce_wall e (pb_sleeps y) ?n" unfolding y(9) by simp
  have wa: "w_accepted ?w = PInt a" using b(5) by simp
  have "recovery_shown e target s t fresh"
    unfolding recovery_shown_def Let_def
    by (rule exI [of _ i], rule exI [of _ v], rule exI [of _ y], rule exI [of _ x], rule exI [of _ u], rule exI [of _ p], rule exI [of _ ?w],
        rule exI [of _ expected], rule exI [of _ refused], rule exI [of _ sim], rule exI [of _ wall], rule exI [of _ step],
        rule exI [of _ pose], rule exI [of _ joints], rule exI [of _ d])
      (intro conjI y(1-3,6-8) y(5) [rule_format] ws b(1) ref [unfolded zs y(4)] u(1-4) exI [of _ a] c wa)
  moreover have "calm s z" using skeepsD [OF quiet_recovery(3) r] by (simp add: calm_def)
  moreover have "calm x t" using skeepsD [OF quiet_recovery(4) b(3)] skeepsD [OF quiet_marks(3) b(4)] by (rule qt.trans)
  ultimately show ?thesis using skeepsD [OF quiet_marks(4) b(2)] by (auto simp: calm_def onward_def)
qed

section \<open>Before a negative packet leaves\<close>

definition stale_window :: "permit_view \<Rightarrow> int \<Rightarrow> int \<Rightarrow> bool" where
  "stale_window f wall sim \<longleftrightarrow> 50000000 \<le> wall - pf_wall f \<and> 50000000 \<le> sim - pf_sim f \<and> wall < pf_wall_end f \<and> sim < pf_sim_end f"

text \<open>The defect of each case; the packet without it is justified like that of a positive control.\<close>

definition defective :: "probe_env \<Rightarrow> string \<Rightarrow> string \<Rightarrow> packet \<Rightarrow> permit \<Rightarrow> packet \<Rightarrow> bool" where
  "defective e target cs orig p pkt \<longleftrightarrow>
     (let permit = permit_token (ce_permit_ed e) p in
      if cs = ''unsigned'' then pkt = with_permit target [] orig
      else if cs = ''altered'' then pkt = altered_packet target orig
      else if cs = ''signature'' then pkt = with_permit target (broken_signature permit) orig
      else if cs = ''target'' then (\<exists>q. pkt = with_permit target (permit_token (ce_permit_ed e) q) orig \<and>
        p_target q = (if target = ''base'' then ''arm'' else ''base'') \<and> colon_field 8 permit = Inr (p_digest q))
      else if cs = ''delay'' then (\<exists>q. pkt = with_permit target (permit_token (ce_permit_ed e) q) orig \<and>
        p_target q = target \<and> colon_field 8 permit = Inr (p_digest q))
      else pkt = orig)"

text \<open>
  What the times in the packet's own permit say after the body's place was read at the first two readings
  from \<open>c\<close>: inside the window at the next two, or, for the delayed permit signed between, too old but not
  ended at the two after its signature.
\<close>

definition timed_as_announced :: "probe_env \<Rightarrow> string \<Rightarrow> string \<Rightarrow> probes \<Rightarrow> packet \<Rightarrow> permit_view option \<Rightarrow> bool" where
  "timed_as_announced e target cs c pkt old \<longleftrightarrow>
     (if cs = ''delay'' then
        (\<exists>f. permit_fields (PStr (packet_permit target pkt)) = Inr f \<and> old = Some f \<and> clocks_at e c (pb_reads c + 4) (stale_window f))
      else old = None \<and> (if cs \<in> {''signature'', ''replay''} then
        (\<exists>f. permit_fields (PStr (packet_permit target pkt)) = Inr f \<and> clocks_at e c (pb_reads c + 2) (in_window f)) else True))"

text \<open>
  The controller as the last wait saw it: the row it read five readings before the wait's end is as the
  reset left it, and the three readings after it found the row at most 50 ms old and its lease live.
\<close>

definition live_row :: "probe_env \<Rightarrow> string \<Rightarrow> reset_grant \<Rightarrow> probes \<Rightarrow> row \<Rightarrow> bool" where
  "live_row e target grant c row \<longleftrightarrow>
     (let k = pb_reads c - 5; a = pb_sleeps c in
      row = guard_row target (ce_seen e k) \<and> reset_untouched grant row \<and>
      (\<exists>p. count_of row ''published_wall_ns'' = Inr p \<and> 0 \<le> ce_wall e a (k + 1) - p \<and> ce_wall e a (k + 1) - p < VERIFIER_WINDOW_NS) \<and>
      ce_wall e a (k + 2) < pf_wall_end (rg_fields grant) \<and> ce_sim e (k + 3) div 1000000 * 1000000 < pf_sim_end (rg_fields grant))"

text \<open>
  The preparation of the packet under test from the state \<open>s\<close>: a packet is approved and signed like a
  positive control's (up to \<open>a\<close>) and gets the case's defect, signing at most one more permit; the length
  of the telemetry is read; the controller is awaited as the reset left it (\<open>c\<close>); the pose and the joints
  are read; and the clocks at the last two readings, the instant of the send, find the row the wait saw at
  most 50 ms old and the lease of the reset live.
\<close>

definition negative_prepared :: "probe_env \<Rightarrow> string \<Rightarrow> string \<Rightarrow> probes \<Rightarrow> probes \<Rightarrow> reset_grant \<Rightarrow> negative_ready \<Rightarrow> bool" where
  "negative_prepared e target cs s t grant np \<longleftrightarrow>
     (\<exists>orig p a b c w.
        let n = pb_reads c + (if cs = ''delay'' then 6 else if cs = ''signature'' then 4 else if cs = ''replay'' then 7 else 2) in
        target_justified e target s a orig p \<and> b = a\<lparr>pb_permits := pb_permits b\<rparr> \<and>
        np_mark np = length (telemetry_rows target (ce_seen e (pb_reads b))) \<and>
        waited (b\<lparr>pb_reads := Suc (pb_reads b)\<rparr>) c \<and> pb_reads b + 6 \<le> pb_reads c \<and> live_row e target grant c (np_row np) \<and>
        pose_seen e (pb_reads c) (np_pose np) \<and> joints_seen e (Suc (pb_reads c)) (np_joints np) \<and>
        defective e target cs orig p (np_packet np) \<and> timed_as_announced e target cs c (np_packet np) (np_stale np) \<and>
        witness_of (np_row np) (pf_wall_end (rg_fields grant)) = Inr w \<and>
        clocks_at e c n (\<lambda>wall sim. np_witness np = w\<lparr>nw_sent := wall\<rparr> \<and> 0 \<le> wall - nw_published w \<and> wall - nw_published w < 50000000 \<and>
          still_live (rg_fields grant) wall sim) \<and>
        t = c\<lparr>pb_reads := n + 2, pb_permits := pb_permits t\<rparr>) \<and>
     (np_first np \<noteq> None \<longleftrightarrow> cs = ''replay'')"

lemma token_names:
  assumes "token e target kind digest sim wall n s = (Some (Passed permit), t)"
  shows "(\<exists>q. permit = permit_token (ce_permit_ed e) q \<and> p_target q = target \<and> p_digest q = digest) \<and> t = s\<lparr>pb_permits := pb_permits t\<rparr>"
  using token_signed [OF assms] by (auto simp: ps_sign_Inr_iff)

lemma tampered_defective:
  assumes "tampered e target cs orig s = (Some (Passed pkt), t)" and "packet_permit target orig = permit_token (ce_permit_ed e) p"
  shows "(cs \<noteq> ''delay'' \<longrightarrow> defective e target cs orig p pkt) \<and> (cs = ''delay'' \<longrightarrow> pkt = orig) \<and> t = s\<lparr>pb_permits := pb_permits t\<rparr>"
proof (cases "cs = ''target''")
  case True
  with assms obtain q where q: "foreign_permit e target (permit_token (ce_permit_ed e) p) s = (Some (Passed q), t)" "pkt = with_permit target q orig"
    by (auto simp: tampered_def script_passes)
  then obtain d kind sim wall n where d: "colon_field 8 (permit_token (ce_permit_ed e) p) = Inr d"
    "token e (if target = ''base'' then ''arm'' else ''base'') kind d sim wall n s = (Some (Passed q), t)"
    by (auto simp: foreign_permit_def Let_def script_passes)
  from token_names [OF d(2)] d(1) q(2) True show ?thesis by (auto simp: defective_def Let_def)
next
  case False
  with assms show ?thesis by (auto simp: tampered_def defective_def Let_def script_passes split: if_splits)
qed

lemma stale_permit_Passed:
  assumes "stale_permit e target kind digest stage s = (Some (Passed (permit, f)), t)"
  shows "(\<exists>q. permit = permit_token (ce_permit_ed e) q \<and> p_target q = target \<and> p_digest q = digest) \<and>
    permit_fields (PStr permit) = Inr f \<and> clocks_at e s (pb_reads s + 2) (stale_window f) \<and> t = s\<lparr>pb_reads := pb_reads s + 4, pb_permits := pb_permits t\<rparr>"
proof -
  let ?u = "s\<lparr>pb_reads := Suc (Suc (pb_reads s))\<rparr>"
  from assms obtain u v where u: "token e target kind digest (ce_sim e (pb_reads s) div 1000000 * 1000000 + SIM_ORDERING_BACKDATE_NS - 60000000)
      (ce_wall e (pb_sleeps s) (Suc (pb_reads s)) - 60000000) MAX_LEASE_NS ?u = (Some (Passed permit), u)"
    and f: "permit_fields (PStr permit) = Inr f"
    and v: "require_stale_window stage f (ce_wall e (pb_sleeps u) (pb_reads u)) (ce_sim e (Suc (pb_reads u)) div 1000000 * 1000000) = Passed v"
    and t: "t = u\<lparr>pb_reads := Suc (Suc (pb_reads u))\<rparr>"
    by (auto simp: stale_permit_def probe_passes)
  from token_signed [OF u] obtain g where u': "u = s\<lparr>pb_reads := Suc (Suc (pb_reads s)), pb_permits := g\<rparr>" by auto
  have "clocks_at e s (pb_reads s + 2) (stale_window f)" using v unfolding u'
    by (auto simp: clocks_at_def require_stale_window_def stale_window_def VERIFIER_WINDOW_NS_def split: if_splits)
  with token_names [OF u] f t show ?thesis unfolding u' by (simp add: numeral_eq_Suc)
qed

lemma await_live_Passed:
  assumes "await_live_reset e target stage mark grant s = (Some (Passed row), t)"
  shows "waited s t \<and> pb_reads s + 5 \<le> pb_reads t \<and> live_row e target grant t row"
proof -
  let ?w = "wait_row e target (reset_live e grant) 200000000 (stage @ '' live reset before negative packet'')"
  have "?w s = (Some (Passed row), t)"
    using assms by (auto simp: await_live_reset_def on_timeout_Passed script_passes)
  moreover have l: "skeeps waited (reset_live e grant row)" for row unfolding reset_live_def by (intro wd.skeeps_flow wd_read)
  ultimately obtain u v where u: "waited s u" "row = guard_row target (ce_seen e (pb_reads u))"
    "reset_live e grant row (u\<lparr>pb_reads := Suc (pb_reads u)\<rparr>) = (Some (Passed True), v)" "t = v\<lparr>pb_reads := Suc (pb_reads v)\<rparr>" "waited s t"
    using row_Passed by blast
  then obtain p where p: "reset_untouched grant row" "count_of row ''published_wall_ns'' = Inr p"
    "0 \<le> ce_wall e (pb_sleeps u) (pb_reads u + 1) - p" "ce_wall e (pb_sleeps u) (pb_reads u + 1) - p < VERIFIER_WINDOW_NS"
    "ce_wall e (pb_sleeps u) (pb_reads u + 2) < pf_wall_end (rg_fields grant)"
    "ce_sim e (pb_reads u + 3) div 1000000 * 1000000 < pf_sim_end (rg_fields grant)" "t = u\<lparr>pb_reads := pb_reads u + 5\<rparr>"
    by (auto simp: reset_live_def probe_passes numeral_eq_Suc split: if_splits)
  then show ?thesis using u(2,5) waited_le(1) [OF u(1)] unfolding live_row_def Let_def by auto
qed

lemma send_instant_Passed:
  assumes "send_instant e stage published f s = (Some (Passed sent), t)"
  shows "t = s\<lparr>pb_reads := pb_reads s + 2\<rparr> \<and>
    clocks_at e s (pb_reads s) (\<lambda>wall sim. sent = wall \<and> 0 \<le> wall - published \<and> wall - published < 50000000 \<and> still_live f wall sim)"
  using assms
  by (auto simp: send_instant_def probe_passes require_fresh_witness_def VERIFIER_WINDOW_NS_def Let_def clocks_at_def numeral_eq_Suc
      split: if_splits dest: require_live_Passed)

lemma checkpoint_Passed:
  assumes "first_checkpoint e target cs stage w s = (Some (Passed first), t)"
  shows "t = s\<lparr>pb_reads := pb_reads s + (if cs = ''replay'' then 3 else 0)\<rparr> \<and> (first \<noteq> None \<longleftrightarrow> cs = ''replay'')"
  using assms by (auto simp: first_checkpoint_def fail_closed_check_def probe_passes mark_Passed count_Passed numeral_eq_Suc split: if_splits)

text \<open>The packet's last change and the reading of its times, from the place's reading on.\<close>

lemma replaced_Passed:
  assumes "stale_replacement e target cs stage pkt d = (Some (Passed (pkt', old)), u)"
    and "swhen (cs \<in> {''signature'', ''replay''}) (sthen (require_timely e (packet_permit target pkt') stage) (sret ())) u = (Some (Passed ()), v)"
    and "d = c\<lparr>pb_reads := pb_reads c + 2\<rparr>" and "target_justified e target s a orig p"
    and "cs \<noteq> ''delay'' \<longrightarrow> defective e target cs orig p pkt" and "cs = ''delay'' \<longrightarrow> pkt = orig"
  shows "defective e target cs orig p pkt' \<and> timed_as_announced e target cs c pkt' old \<and>
    v = c\<lparr>pb_reads := pb_reads c + (if cs = ''delay'' then 6 else if cs \<in> {''signature'', ''replay''} then 4 else 2), pb_permits := pb_permits v\<rparr>"
proof (cases "cs = ''delay''")
  case True
  note j = justified_permit [OF assms(4)]
  from assms(1,6) True obtain digest permit f where d: "colon_field 8 (packet_permit target orig) = Inr digest"
    "stale_permit e target (if target = ''base'' then ''command'' else ''goal'') digest stage d = (Some (Passed (permit, f)), u)"
    "pkt' = with_permit target permit orig" "old = Some f"
    by (auto simp: stale_replacement_def script_passes)
  note st = stale_permit_Passed [OF d(2)]
  have uv: "v = u" using assms(2) True by (auto simp: swhen_def script_passes)
  have "defective e target cs orig p pkt'" using st d(1,3) j True by (auto simp: defective_def Let_def)
  moreover have "timed_as_announced e target cs c pkt' old"
    using st d(3,4) j True assms(3) by (auto simp: timed_as_announced_def clocks_at_def numeral_eq_Suc)
  moreover have "v = c\<lparr>pb_reads := pb_reads c + 6, pb_permits := pb_permits v\<rparr>" using st unfolding uv assms(3) by (simp add: numeral_eq_Suc)
  ultimately show ?thesis using True by simp
next
  case False
  then have e: "pkt' = pkt" "old = None" "u = d" using assms(1) by (auto simp: stale_replacement_def script_passes)
  show ?thesis
  proof (cases "cs \<in> {''signature'', ''replay''}")
    case True
    with assms(2) e obtain f where f: "require_timely e (packet_permit target pkt') stage d = (Some (Passed f), v)" by (auto simp: swhen_def script_passes)
    from require_timely_window [OF f] True False e assms(3,5) show ?thesis by (auto simp: timed_as_announced_def clocks_at_def)
  next
    case nt: False
    with assms(2,3,5) e False show ?thesis by (auto simp: swhen_def script_passes timed_as_announced_def)
  qed
qed

lemma prepare_negative_shown:
  assumes "prepare_negative e target cs stage grant m s = (Some (Passed np), t)"
  shows "negative_prepared e target cs s t grant np"
proof -
  from assms obtain orig a pkt b row c w pose joints pkt' stale u v first x sent where
    a: "packet_for e target s = (Some (Passed orig), a)" "tampered e target cs orig a = (Some (Passed pkt), b)"
      "await_live_reset e target stage m grant (b\<lparr>pb_reads := Suc (pb_reads b)\<rparr>) = (Some (Passed row), c)"
      "witness_of row (pf_wall_end (rg_fields grant)) = Inr w" "pose_seen e (pb_reads c) pose" "joints_seen e (Suc (pb_reads c)) joints"
      "stale_replacement e target cs stage pkt (c\<lparr>pb_reads := pb_reads c + 2\<rparr>) = (Some (Passed (pkt', stale)), u)" and
    d: "swhen (cs \<in> {''signature'', ''replay''}) (sthen (require_timely e (packet_permit target pkt') stage) (sret ())) u = (Some (Passed ()), v)"
      "first_checkpoint e target cs stage w v = (Some (Passed first), x)" "send_instant e stage (nw_published w) (rg_fields grant) x = (Some (Passed sent), t)" and
    np: "np = \<lparr>np_packet = pkt', np_mark = length (telemetry_rows target (ce_seen e (pb_reads b))), np_row = row, np_witness = w\<lparr>nw_sent := sent\<rparr>,
      np_pose = pose, np_joints = joints, np_stale = stale, np_first = first\<rparr>"
    by (auto simp: prepare_negative_def script_passes mark_Passed place_Passed)
  from packet_for_justified [OF a(1)] obtain p where p: "target_justified e target s a orig p" by blast
  note tp = tampered_defective [OF a(2) justified_permit [OF p, THEN conjunct1]]
  note al = await_live_Passed [OF a(3)]
  note rp = replaced_Passed [OF a(7) d(1) refl p tp [THEN conjunct1] tp [THEN conjunct2, THEN conjunct1]]
  let ?n = "pb_reads c + (if cs = ''delay'' then 6 else if cs = ''signature'' then 4 else if cs = ''replay'' then 7 else 2)"
  obtain g where "v = c\<lparr>pb_reads := pb_reads c + (if cs = ''delay'' then 6 else if cs \<in> {''signature'', ''replay''} then 4 else 2), pb_permits := g\<rparr>"
    using rp by blast
  with checkpoint_Passed [OF d(2)] have "x = c\<lparr>pb_reads := ?n, pb_permits := g\<rparr>" by (cases "cs = ''replay''") auto
  with send_instant_Passed [OF d(3)] have t: "t = c\<lparr>pb_reads := ?n + 2, pb_permits := pb_permits t\<rparr>"
    "clocks_at e c ?n (\<lambda>wall sim. np_witness np = w\<lparr>nw_sent := wall\<rparr> \<and> 0 \<le> wall - nw_published w \<and> wall - nw_published w < 50000000 \<and>
          still_live (rg_fields grant) wall sim)" by (simp_all add: np clocks_at_def)
  have "np_first np \<noteq> None \<longleftrightarrow> cs = ''replay''" using checkpoint_Passed [OF d(2)] by (simp add: np)
  moreover have "np_mark np = length (telemetry_rows target (ce_seen e (pb_reads b)))" by (simp add: np)
  moreover have "pb_reads b + 6 \<le> pb_reads c" using al by simp
  moreover have "live_row e target grant c (np_row np)" using al by (simp add: np)
  moreover have "pose_seen e (pb_reads c) (np_pose np)" "joints_seen e (Suc (pb_reads c)) (np_joints np)" using a(5,6) by (simp_all add: np)
  moreover have "defective e target cs orig p (np_packet np)" "timed_as_announced e target cs c (np_packet np) (np_stale np)" using rp by (simp_all add: np)
  moreover have "witness_of (np_row np) (pf_wall_end (rg_fields grant)) = Inr w" using a(4) by (simp add: np)
  ultimately show ?thesis
    unfolding negative_prepared_def Let_def
    using p tp [THEN conjunct2, THEN conjunct2] al t by blast
qed

section \<open>The reset, the packet and its replay\<close>

lemma send_timely_Passed:
  assumes "send_timely e pkt permit stage ch s = (Some (Passed u), t)"
  shows "onward s t \<and> (\<exists>n. pb_sent t = pb_sent s @ [(n, pkt)])"
  using send_timely_sends [OF assms] skeepsD [OF onward_sends(2) assms] by (auto simp: sent_timely_def)

text \<open>Scripts that send exactly one packet when they pass.\<close>

definition sends_once :: "(probes, 'a) script \<Rightarrow> bool" where
  "sends_once m \<longleftrightarrow> (\<forall>s a t. m s = (Some (Passed a), t) \<longrightarrow> onward s t \<and> (\<exists>n pkt. pb_sent t = pb_sent s @ [(n, pkt)]))"

lemma once_sbind: "skeeps still m \<Longrightarrow> (\<And>a. sends_once (f a)) \<Longrightarrow> sends_once (sbind m f)"
proof -
  assume m: "skeeps still m" and f: "\<And>a. sends_once (f a)"
  show ?thesis unfolding sends_once_def
  proof (intro allI impI)
    fix s b t assume "sbind m f s = (Some (Passed b), t)"
    then obtain a u where u: "m s = (Some (Passed a), u)" "f a u = (Some (Passed b), t)" by (auto simp: sbind_Passed)
    have "still s u" by (rule skeepsD [OF m u(1)])
    then have "onward s u" "pb_sent u = pb_sent s" by (simp_all add: still_onward) (simp add: still_def)
    moreover have "onward u t \<and> (\<exists>n pkt. pb_sent t = pb_sent u @ [(n, pkt)])" using f u(2) unfolding sends_once_def by blast
    ultimately show "onward s t \<and> (\<exists>n pkt. pb_sent t = pb_sent s @ [(n, pkt)])" by (auto intro: ow.trans)
  qed
qed

lemma once_sthen: "skeeps still m \<Longrightarrow> sends_once n \<Longrightarrow> sends_once (sthen m n)"
  by (simp add: sthen_def once_sbind)

lemma once_last: "sends_once m \<Longrightarrow> skeeps still n \<Longrightarrow> sends_once (sthen m n)"
proof -
  assume m: "sends_once m" and n: "skeeps still n"
  show ?thesis unfolding sends_once_def
  proof (intro allI impI)
    fix s b t assume "sthen m n s = (Some (Passed b), t)"
    then obtain a u where u: "m s = (Some (Passed a), u)" "n u = (Some (Passed b), t)" by (auto simp: sthen_Passed)
    have "still u t" by (rule skeepsD [OF n u(2)])
    then have "onward u t" "pb_sent t = pb_sent u" by (simp_all add: still_onward) (simp add: still_def)
    moreover have "onward s u \<and> (\<exists>n pkt. pb_sent u = pb_sent s @ [(n, pkt)])" using m u(1) unfolding sends_once_def by blast
    ultimately show "onward s t \<and> (\<exists>n pkt. pb_sent t = pb_sent s @ [(n, pkt)])" by (auto intro: ow.trans)
  qed
qed

lemma once_prod: "(\<And>a b. sends_once (f a b)) \<Longrightarrow> sends_once (case_prod f v)"
  by (cases v) simp

lemma once_reset: "sends_once (maintenance_reset e)"
proof -
  have t: "sends_once (send_timely e pkt permit stage ch)" for pkt permit stage ch
    using send_timely_Passed unfolding sends_once_def by blast
  have f: "skeeps still (probe_wait e (met (sthen (check_events e b bc) (sthen (check_events e a ac)
          (sbind (unlocked_row e ''base'') (\<lambda>b. if b then unlocked_row e ''arm'' else sret False))))) n d None)" for b bc a ac n d
    by (intro skeeps_still quiet_wait quiet_all)
  have g: "skeeps still (sbind (grant_of_reset e ''base'' bf) (\<lambda>bg. sbind (grant_of_reset e ''arm'' af) (\<lambda>ag. sret (bg, ag))))" for bf af
    by (intro skeeps_still quiet_all)
  have w: "skeeps still (probe_wait e (met (stopped e)) n d None)" for n d by (intro skeeps_still quiet_wait quiet_all)
  show ?thesis unfolding maintenance_reset_def
    by (intro once_sthen [OF w] once_sthen [OF skeeps_still [OF quiet_issuers(1)]] once_sthen [OF skeeps_still [OF quiet_issuers(2)]]
        once_sthen [OF still_observe] once_sbind [OF skeeps_still [OF quiet_issuers(3)]] once_prod once_sbind [OF skeeps_still [OF quiet_read(2)]]
        once_sbind [OF skeeps_still [OF quiet_issuers(4)]] once_last [OF t] st.skeeps_sthen f g)
qed

lemma reset_sends: "reset_for e target s = (Some (Passed g), t) \<Longrightarrow> onward s t \<and> (\<exists>n pkt. pb_sent t = pb_sent s @ [(n, pkt)])"
  using once_reset [of e] unfolding sends_once_def by (auto simp: reset_for_def script_passes)

end
