(* ===== verification/Probe_Negatives.thy ===== *)
theory Probe_Negatives
  imports Probe_Evidence
begin

text \<open>
  What a passed negative case shows: the packet as it was prepared and sent, the row that refused it, and
  how far the body was from where the packet found it, each read in a named state.
\<close>

section \<open>Readings after the packet left\<close>

lemma row_int_count: "row_int r k = Inr a \<Longrightarrow> count_of r k = Inr a"
  by (auto simp: row_int_def count_of_def rbind_Inr_iff split: option.splits)

text \<open>
  The first copy of a replay, admitted: the counters, the nonce and the reason that the row of the wait
  showed, three readings before the wait's end, published after the copy left.
\<close>

definition copy_admitted :: "probe_env \<Rightarrow> string \<Rightarrow> probes \<Rightarrow> probes \<Rightarrow> negative_witness \<Rightarrow> row \<Rightarrow> bool" where
  "copy_admitted e target s t w row \<longleftrightarrow> waited s t \<and> pb_reads s + 3 \<le> pb_reads t \<and> row = guard_row target (ce_seen e (pb_reads t - 3)) \<and>
     (\<exists>n p. count_of row ''published_wall_ns'' = Inr p \<and> nw_sent w \<le> p \<and> map_of (challenges (pb_permits s)) target = Some n \<and> pyeq (getf row ''nonce'') (PStr n) \<and>
      count_of row ''accepted'' = Inr (nw_accepted w + 1) \<and> count_of row ''rejected'' = Inr (nw_rejected w) \<and>
      getf row ''reason'' = PStr ''accepted'' \<and> getf row ''holding'' = PBool False)"

text \<open>
  The second copy from the state \<open>s\<close>: the next readings are the body's pose and joints, the row it is judged
  by, and the clocks at the instant of its send, at most 50 ms after that row and inside the lease that
  the first copy began. It leaves right then.
\<close>

definition duplicate_live :: "probe_env \<Rightarrow> string \<Rightarrow> probes \<Rightarrow> negative_ready \<Rightarrow> replayed \<Rightarrow> bool" where
  "duplicate_live e target s np rp \<longleftrightarrow>
     pose_seen e (pb_reads s) (rp_pose rp) \<and> joints_seen e (pb_reads s + 1) (rp_joints rp) \<and>
     permit_fields (PStr (packet_permit target (np_packet np))) = Inr (rp_governing rp) \<and>
     (\<exists>p a r. let row = guard_row target (ce_seen e (pb_reads s + 2)) in
         getf row ''holding'' = PBool False \<and> row_int row ''published_wall_ns'' = Inr p \<and> row_int row ''accepted'' = Inr a \<and> row_int row ''rejected'' = Inr r \<and>
         clocks_at e s (pb_reads s + 3) (\<lambda>wall sim.
           rp_witness rp = (np_witness np)\<lparr>nw_published := p, nw_accepted := a, nw_rejected := r, nw_sent := wall, nw_lease_end := pf_wall_end (rp_governing rp)\<rparr> \<and>
           0 \<le> wall - p \<and> wall - p < 50000000 \<and> still_live (rp_governing rp) wall sim))"

lemma wd_admitted: "skeeps waited (first_admitted e target late w row)"
  unfolding first_admitted_def by (intro wd.skeeps_flow wd_marks)

lemma copy_admittedI:
  assumes "wait_row e target (first_admitted e target late w) n d s = (Some (Passed row), t)"
  shows "copy_admitted e target s t w row"
proof -
  from row_Passed [OF wd_admitted assms] obtain u v where u: "waited s u" "row = guard_row target (ce_seen e (pb_reads u))"
    "first_admitted e target late w row (u\<lparr>pb_reads := Suc (pb_reads u)\<rparr>) = (Some (Passed True), v)" "t = v\<lparr>pb_reads := Suc (pb_reads v)\<rparr>" "waited s t" by blast
  have ch: "challenges (pb_permits u) = challenges (pb_permits s)" using waited_calm [OF u(1)] by (simp add: calm_def)
  from u(3) have v: "v = u\<lparr>pb_reads := pb_reads u + 2\<rparr>" and
    r: "\<exists>n p. count_of row ''published_wall_ns'' = Inr p \<and> nw_sent w \<le> p \<and> map_of (challenges (pb_permits u)) target = Some n \<and> pyeq (getf row ''nonce'') (PStr n) \<and>
      count_of row ''accepted'' = Inr (nw_accepted w + 1) \<and> count_of row ''rejected'' = Inr (nw_rejected w) \<and>
      getf row ''reason'' = PStr ''accepted'' \<and> getf row ''holding'' = PBool False"
    by (auto simp: first_admitted_def late_events_def check_events_def since_def probe_passes split: if_splits option.splits)
  have "pb_reads s + 3 \<le> pb_reads t" "pb_reads t - 3 = pb_reads u" using waited_le(1) [OF u(1)] u(4) v by simp_all
  with u(2,5) r show ?thesis unfolding copy_admitted_def ch by simp
qed

text \<open>One packet leaves and nothing else changes.\<close>

definition sent_out :: "probes \<Rightarrow> packet \<Rightarrow> probes" where
  "sent_out s pkt = s\<lparr>pb_packet := pb_packet s + 1, pb_sent := pb_sent s @ [(pb_packet s + 1, pkt)]\<rparr>"

lemma send_duplicate_shown:
  assumes "send_duplicate e target stage np late arow s = (Some (Passed rp), t)"
  shows "duplicate_live e target s np rp \<and> t = sent_out (s\<lparr>pb_reads := pb_reads s + 5\<rparr>) (np_packet np)"
proof -
  let ?row = "guard_row target (ce_seen e (pb_reads s + 2))" and ?s = "s\<lparr>pb_reads := pb_reads s + 3\<rparr>"
  from assms obtain pose joints g published sent x p a r where
    s: "pose_seen e (pb_reads s) pose" "joints_seen e (pb_reads s + 1) joints" "send_instant e (stage @ '' duplicate'') published g ?s = (Some (Passed sent), x)" and
    f: "permit_fields (PStr (packet_permit target (np_packet np))) = Inr g" and
    b: "getf ?row ''holding'' = PBool False" "count_of ?row ''published_wall_ns'' = Inr published" "row_int ?row ''published_wall_ns'' = Inr p"
      "row_int ?row ''accepted'' = Inr a" "row_int ?row ''rejected'' = Inr r" and
    t: "t = sent_out x (np_packet np)" and
    rp: "rp_governing rp = g" "rp_pose rp = pose" "rp_joints rp = joints"
      "rp_witness rp = (np_witness np)\<lparr>nw_published := p, nw_accepted := a, nw_rejected := r, nw_sent := sent, nw_lease_end := pf_wall_end g\<rparr>"
    by (auto simp: send_duplicate_def place_Passed probe_passes guarded_Passed send_packet_def sput_def sent_out_def numeral_eq_Suc split: if_splits)
  have p: "p = published" using row_int_count [OF b(3)] b(2) by simp
  note si = send_instant_Passed [OF s(3)]
  have "t = sent_out (s\<lparr>pb_reads := pb_reads s + 5\<rparr>) (np_packet np)" using si t by (simp add: add.commute)
  moreover have "duplicate_live e target s np rp"
    unfolding duplicate_live_def Let_def rp using s(1,2) f b si p
    by (intro conjI exI [of _ p] exI [of _ a] exI [of _ r]) (auto simp: clocks_at_def)
  ultimately show ?thesis by blast
qed

section \<open>What was sent\<close>

text \<open>Exactly these packets left between two states.\<close>

definition sent_by :: "probes \<Rightarrow> probes \<Rightarrow> packet list \<Rightarrow> bool" where
  "sent_by s t ps \<longleftrightarrow> onward s t \<and> map snd (pb_sent t) = map snd (pb_sent s) @ ps"

lemma sent_by_quiet: "calm s t \<Longrightarrow> sent_by s t []"
  by (simp add: sent_by_def calm_def onward_def)

lemma sent_by_one: "sent_by s (sent_out s pkt) [pkt]"
  by (simp add: sent_by_def onward_def sent_out_def)

lemma sent_by_trans: "sent_by s t ps \<Longrightarrow> sent_by t u qs \<Longrightarrow> sent_by s u (ps @ qs)"
  by (auto simp: sent_by_def intro: ow.trans)

lemma sent_by_reset: "reset_for e target s = (Some (Passed g), t) \<Longrightarrow> \<exists>pkt. sent_by s t [pkt]"
  using reset_sends by (fastforce simp: sent_by_def)

lemma onward_reads: "onward s t \<Longrightarrow> pb_reads s \<le> pb_reads t"
  by (simp add: onward_def)

text \<open>
  The packet under test leaves once; a replay's leaves twice, the second copy once the controller was seen
  to have admitted the first. The refusal is judged with the witness, the lease and the place of the last
  copy.
\<close>

definition trial_shown :: "probe_env \<Rightarrow> string \<Rightarrow> string \<Rightarrow> probes \<Rightarrow> probes \<Rightarrow> reset_grant \<Rightarrow> negative_ready \<Rightarrow> trial \<Rightarrow> bool" where
  "trial_shown e target cs s t grant np tr \<longleftrightarrow>
     (if cs = ''replay'' then \<exists>rp v row. copy_admitted e target (sent_out s (np_packet np)) v (np_witness np) row \<and> duplicate_live e target v np rp \<and>
        rp_nonce rp = getf row ''nonce'' \<and> t = sent_out (v\<lparr>pb_reads := pb_reads v + 5\<rparr>) (np_packet np) \<and>
        tr = \<lparr>tr_witness = rp_witness rp, tr_governing = rp_governing rp, tr_pose = rp_pose rp, tr_joints = rp_joints rp, tr_replay = Some rp\<rparr>
      else t = sent_out s (np_packet np) \<and>
        tr = \<lparr>tr_witness = np_witness np, tr_governing = rg_fields grant, tr_pose = np_pose np, tr_joints = np_joints np, tr_replay = None\<rparr>)"

lemma send_negative_shown:
  assumes "send_negative e target stage grant np s = (Some (Passed tr), t)" and "np_first np \<noteq> None \<longleftrightarrow> cs = ''replay''"
  shows "trial_shown e target cs s t grant np tr"
proof (cases "np_first np")
  case None
  with assms show ?thesis by (auto simp: send_negative_def script_passes send_packet_def sput_def trial_shown_def sent_out_def)
next
  case (Some late)
  from assms(1) Some obtain rp where rp: "replay_packet e target stage np late (sent_out s (np_packet np)) = (Some (Passed rp), t)"
    "tr = \<lparr>tr_witness = rp_witness rp, tr_governing = rp_governing rp, tr_pose = rp_pose rp, tr_joints = rp_joints rp, tr_replay = Some rp\<rparr>"
    by (auto simp: send_negative_def script_passes send_packet_def sput_def sent_out_def)
  then obtain arow v where u: "wait_row e target (first_admitted e target late (np_witness np)) 1000000000 (target @ '' replay first packet actually admitted'')
      (sent_out s (np_packet np)) = (Some (Passed arow), v)" "send_duplicate e target stage np late arow v = (Some (Passed rp), t)"
    by (auto simp: replay_packet_def script_passes guarded_Passed)
  have "rp_nonce rp = getf arow ''nonce''"
    using u(2) by (auto simp: send_duplicate_def place_Passed probe_passes guarded_Passed split: if_splits)
  with copy_admittedI [OF u(1)] send_duplicate_shown [OF u(2)] rp(2) Some assms(2) show ?thesis
    unfolding trial_shown_def by auto
qed

section \<open>The refusal and the rest\<close>

definition published_inside :: "row \<Rightarrow> int \<Rightarrow> bool" where
  "published_inside row bound \<longleftrightarrow> (\<exists>p. num_field row ''published_wall_ns'' = Passed p \<and> \<not> num_le (fin bound) p)"

text \<open>
  One refusal for the case's own reason, published while the lease the controller relied on was live (a
  base refusal 40 ms before its end), for a stale permit before that permit's end, and for a replay after
  the second copy left.
\<close>

definition refused_for :: "probe_env \<Rightarrow> string \<Rightarrow> string \<Rightarrow> probes \<Rightarrow> probes \<Rightarrow> negative_ready \<Rightarrow> trial \<Rightarrow> row \<Rightarrow> bool" where
  "refused_for e target cs s t np tr row \<longleftrightarrow>
     (\<exists>expected. map_of NEGATIVE_REASONS cs = Some expected \<and>
        refusal_seen e target (np_mark np) (scan_witness (tr_witness tr)) expected s t row) \<and>
     published_inside row (nw_lease_end (tr_witness tr) - (if target = ''base'' then LAPSE_ALLOWANCE_NS else 0)) \<and>
     (\<forall>f. np_stale np = Some f \<longrightarrow> published_inside row (pf_wall_end f - LAPSE_ALLOWANCE_NS)) \<and>
     (\<forall>rp. tr_replay tr = Some rp \<longrightarrow> replay_verdict np rp row = Inr ())"

lemma judged_refusal_shown:
  assumes "judged_refusal e target cs stage np tr s = (Some (Passed row), t)"
  shows "refused_for e target cs s t np tr row"
proof -
  let ?w = "tr_witness tr"
  from assms obtain expected h u where
    r: "map_of NEGATIVE_REASONS cs = Some expected"
      "wait_judged e target (np_mark np) (\<lambda>rows. refusal target rows (scan_witness ?w) expected (negative_timing target cs)
          (Some (tr_governing tr)) stage (if target = ''arm'' then Some (nw_published ?w) else None)) 2000000000
          (stage @ '' consumed and rejected at controller'') s = (Some (Passed (row, h)), u)" and
    l: "require_refused_inside_lease target stage row (nw_lease_end ?w) = Passed ()" and
    f: "(case np_stale np of None \<Rightarrow> sret () | Some f \<Rightarrow> sjudge (require_refused_inside_stale_window stage row f)) u = (Some (Passed ()), u)" and
    v: "(case tr_replay tr of None \<Rightarrow> sret () | Some rp \<Rightarrow> slift (replay_verdict np rp row)) u = (Some (Passed ()), u)" and
    t: "t = u"
    by (auto simp: judged_refusal_def Let_def script_passes reason_of_def split: option.splits)
  have "refusal_seen e target (np_mark np) (scan_witness ?w) expected s t row" unfolding t by (rule refusal_seenI [OF r(2)])
  moreover have "published_inside row (nw_lease_end ?w - (if target = ''base'' then LAPSE_ALLOWANCE_NS else 0))"
    using l by (auto simp: require_refused_inside_lease_def obind_Passed published_inside_def split: if_splits)
  moreover have "published_inside row (pf_wall_end g - LAPSE_ALLOWANCE_NS)" if "np_stale np = Some g" for g
    using f that by (auto simp: require_refused_inside_stale_window_def obind_Passed published_inside_def script_passes split: if_splits)
  moreover have "replay_verdict np rp row = Inr ()" if "tr_replay tr = Some rp" for rp
    using v that by (auto simp: script_passes)
  ultimately show ?thesis using r(1) unfolding refused_for_def by blast
qed

text \<open>The drift a reading showed from the place the trial recorded before the last copy left.\<close>

definition drift_at :: "probe_env \<Rightarrow> string \<Rightarrow> trial \<Rightarrow> nat \<Rightarrow> rat \<Rightarrow> bool" where
  "drift_at e target tr n d \<longleftrightarrow>
     (if target = ''base'' then \<exists>q. pose_seen e n q \<and> d = \<bar>fst q - fst (tr_pose tr)\<bar>
      else \<exists>qs. joints_seen e n qs \<and> d = arm_drift (tr_joints tr) qs)"

lemma negative_drift_Passed:
  "negative_drift e target (tr_pose tr) (tr_joints tr) s = (Some (Passed d), t) \<longleftrightarrow>
   drift_at e target tr (pb_reads s) d \<and> t = s\<lparr>pb_reads := Suc (pb_reads s)\<rparr>"
  by (auto simp: negative_drift_def drift_at_def base_moved_def script_passes pose_Passed positions_Passed)

text \<open>
  The body stayed put: at the end of a wait its feedback was fresh and showed it stopped, 300 ms later the
  next observation showed the drift \<open>d\<close> from the trial's place, and \<open>d\<close> is inside the limit.
\<close>

definition stayed_put :: "probe_env \<Rightarrow> string \<Rightarrow> probes \<Rightarrow> probes \<Rightarrow> trial \<Rightarrow> rat \<Rightarrow> bool" where
  "stayed_put e target s t tr d \<longleftrightarrow>
     (\<exists>u v. waited s u \<and> pb_reads s + 3 \<le> pb_reads u \<and>
        feedback_stopped (ce_seen e (pb_reads u - 3)) (ce_wall e (pb_sleeps u) (pb_reads u - 2)) \<and>
        observed_for e u v \<and> drift_at e target tr (pb_reads v) d \<and> val_le (drift_val d) DRIFT_LIMIT \<and>
        waited (v\<lparr>pb_reads := Suc (pb_reads v)\<rparr>) t)"

lemma stop_Passed:
  assumes "probe_wait e (met (stopped e)) n d None s = (Some (Passed x), t)"
  shows "waited s t \<and> pb_reads s + 3 \<le> pb_reads t \<and> feedback_stopped (ce_seen e (pb_reads t - 3)) (ce_wall e (pb_sleeps t) (pb_reads t - 2))"
proof -
  from waits_for [OF wd.skeeps_met [OF wd_guard(2)] assms] obtain u v where u: "waited s u" "stopped e u = (Some (Passed True), v)"
    "t = v\<lparr>pb_reads := Suc (pb_reads v)\<rparr>" by (auto simp: met_Passed)
  then have t: "t = u\<lparr>pb_reads := pb_reads u + 3\<rparr>" "feedback_stopped (ce_seen e (pb_reads u)) (ce_wall e (pb_sleeps u) (Suc (pb_reads u)))"
    by (auto simp: stopped_def probe_passes numeral_eq_Suc)
  have "waited u t" unfolding t by (simp add: waited_def)
  then have "waited s t" by (rule wd.trans [OF u(1)])
  then show ?thesis using t waited_le(1) [OF u(1)] by (simp add: numeral_eq_Suc)
qed

lemma wd_hold: "skeeps waited (arm_hold e stage mark sent r h)"
proof -
  have j: "skeeps waited (wait_judged e target m judge n d)" for target m d n and judge :: "row list \<Rightarrow> 'b option judged"
    unfolding wait_judged_def by (intro wd_wait wd.skeeps_flow wd_marks)
  show ?thesis unfolding arm_hold_def by (intro wd.skeeps_flow wd_read wd_marks j)
qed

lemma negative_motion_shown:
  assumes "negative_motion e target cs stage mark tr s = (Some (Passed (v, h)), t)"
  shows "\<exists>d. stayed_put e target s t tr d \<and> v = drift_val d"
proof -
  from assms obtain u1 u2 d hold where
    a: "probe_wait e (met (stopped e)) 3000000000 ''negative control physically stopped'' None s = (Some (Passed ()), u1)"
      "observe_for e ''negative control observation'' u1 = (Some (Passed ()), u2)" "drift_at e target tr (pb_reads u2) d" and
    h: "(if target = ''arm'' then
               sbind (arm_hold e stage mark (nw_sent (tr_witness tr)) (nw_rejected (tr_witness tr)) (nw_published (tr_witness tr))) (\<lambda>h. sret (Some h))
             else sret None) (u2\<lparr>pb_reads := Suc (pb_reads u2)\<rparr>) = (Some (Passed hold), t)" and
    m: "refused_motion stage (drift_val d) (cs = ''replay'' \<and> hold \<noteq> None) = Passed v"
    by (auto simp: negative_motion_def script_passes negative_drift_Passed cong: if_cong)
  have "skeeps waited (if target = ''arm'' then
               sbind (arm_hold e stage mark (nw_sent (tr_witness tr)) (nw_rejected (tr_witness tr)) (nw_published (tr_witness tr))) (\<lambda>h. sret (Some h))
             else sret None)" by (intro wd.skeeps_flow wd_hold)
  from skeepsD [OF this h] have q: "waited (u2\<lparr>pb_reads := Suc (pb_reads u2)\<rparr>) t" .
  have "val_le (drift_val d) DRIFT_LIMIT" "v = drift_val d" using m by (auto simp: refused_motion_def split: option.splits pynum.splits if_splits)
  then show ?thesis using stop_Passed [OF a(1)] observe_Passed [OF a(2)] a(3) q unfolding stayed_put_def by blast
qed

section \<open>A negative control that passed\<close>

text \<open>
  The run from \<open>s\<close> to \<open>t\<close>, stage by stage and without a gap: the maintenance reset of the controllers
  (\<open>s1\<close>) with its grant, one reading of the telemetry, the preparation (\<open>s2\<close>), the packet under test
  (\<open>s4\<close>, twice for a replay), its refusal (\<open>s5\<close>), the observation of the body (\<open>s6\<close>) and the recovery's
  fresh packet. These are all the packets that left.
\<close>

definition lease_noted :: "string \<Rightarrow> string \<Rightarrow> negative_ready \<Rightarrow> probes \<Rightarrow> probes \<Rightarrow> bool" where
  "lease_noted target cs np s t \<longleftrightarrow>
     (if cs = ''replay'' then \<exists>f. permit_fields (PStr (packet_permit target (np_packet np))) = Inr f \<and> t = s\<lparr>pb_chain := grant_sent f (pb_chain s)\<rparr>
      else t = s)"

definition negative_shown :: "probe_env \<Rightarrow> string \<Rightarrow> string \<Rightarrow> probes \<Rightarrow> probes \<Rightarrow> rat \<Rightarrow> bool" where
  "negative_shown e target cs s t d \<longleftrightarrow>
     (\<exists>s1 s2 s3 s4 s5 s6 grant np tr refused reset fresh.
        reset_for e target s = (Some (Passed grant), s1) \<and> sent_by s s1 [reset] \<and>
        negative_prepared e target cs
          (s1\<lparr>pb_reads := Suc (pb_reads s1), pb_chain := grant_chain_init (rg_fields grant) (rg_accepted grant - 1)\<rparr>) s2 grant np \<and>
        lease_noted target cs np s2 s3 \<and> trial_shown e target cs s3 s4 grant np tr \<and> refused_for e target cs s4 s5 np tr refused \<and>
        stayed_put e target s5 s6 tr d \<and> recovery_shown e target s6 t fresh \<and>
        sent_by s t (reset # (if cs = ''replay'' then [np_packet np, np_packet np] else [np_packet np]) @ [fresh]))"

lemma prepared_sent: "prepare_negative e target cs stage grant m s = (Some (Passed np), t) \<Longrightarrow> sent_by s t []"
  by (rule sent_by_quiet) (rule skeepsD [OF quiet_prepare(3)])

lemma trial_sent:
  assumes "trial_shown e target cs s t grant np tr"
  shows "sent_by s t (if cs = ''replay'' then [np_packet np, np_packet np] else [np_packet np])"
proof (cases "cs = ''replay''")
  case True
  with assms obtain v where v: "waited (sent_out s (np_packet np)) v" "t = sent_out (v\<lparr>pb_reads := pb_reads v + 5\<rparr>) (np_packet np)"
    by (auto simp: trial_shown_def copy_admitted_def)
  have "sent_by (sent_out s (np_packet np)) (v\<lparr>pb_reads := pb_reads v + 5\<rparr>) []"
    using waited_calm [OF v(1)] by (auto simp: sent_by_def calm_def onward_def)
  then have "sent_by s (v\<lparr>pb_reads := pb_reads v + 5\<rparr>) [np_packet np]" using sent_by_trans [OF sent_by_one] by fastforce
  from sent_by_trans [OF this sent_by_one] v(2) True show ?thesis by simp
next
  case False
  with assms sent_by_one show ?thesis by (simp add: trial_shown_def)
qed

lemma refused_sent: "judged_refusal e target cs stage np tr s = (Some (Passed row), t) \<Longrightarrow> sent_by s t []"
  "negative_motion e target cs stage mark tr s = (Some (Passed vh), t) \<Longrightarrow> sent_by s t []"
  by (rule sent_by_quiet, erule skeepsD [rotated], rule quiet_judging)+

lemma negative_parts:
  assumes "negative e target cs s = (Some (Passed row), t)"
  shows "\<exists>grant s1 np s2 s3 tr s4 refused s5 drift hold s6 recovery.
    reset_for e target s = (Some (Passed grant), s1) \<and>
    prepare_negative e target cs (target @ '' '' @ cs) grant (length (telemetry_rows target (ce_seen e (pb_reads s1))))
      (s1\<lparr>pb_reads := Suc (pb_reads s1), pb_chain := grant_chain_init (rg_fields grant) (rg_accepted grant - 1)\<rparr>) = (Some (Passed np), s2) \<and>
    lease_noted target cs np s2 s3 \<and> send_negative e target (target @ '' '' @ cs) grant np s3 = (Some (Passed tr), s4) \<and>
    judged_refusal e target cs (target @ '' '' @ cs) np tr s4 = (Some (Passed refused), s5) \<and>
    negative_motion e target cs (target @ '' '' @ cs) (np_mark np) tr s5 = (Some (Passed (drift, hold)), s6) \<and>
    recover e target (target @ '' '' @ cs) s6 = (Some (Passed recovery), t) \<and>
    row = negative_row np tr refused drift hold recovery \<and> require_report_row target cs row = Passed ()"
proof -
  from assms obtain grant s1 np s2 s3 tr s4 refused s5 drift hold s6 recovery where
    a: "reset_for e target s = (Some (Passed grant), s1)"
      "prepare_negative e target cs (target @ '' '' @ cs) grant (length (telemetry_rows target (ce_seen e (pb_reads s1))))
        (s1\<lparr>pb_reads := Suc (pb_reads s1), pb_chain := grant_chain_init (rg_fields grant) (rg_accepted grant - 1)\<rparr>) = (Some (Passed np), s2)" and
    b: "swhen (cs = ''replay'') (sbind (slift (permit_fields (PStr (packet_permit target (np_packet np))))) (\<lambda>f.
          sput (\<lambda>s. s\<lparr>pb_chain := grant_sent f (pb_chain s)\<rparr>))) s2 = (Some (Passed ()), s3)" and
    c: "send_negative e target (target @ '' '' @ cs) grant np s3 = (Some (Passed tr), s4)"
      "judged_refusal e target cs (target @ '' '' @ cs) np tr s4 = (Some (Passed refused), s5)"
      "negative_motion e target cs (target @ '' '' @ cs) (np_mark np) tr s5 = (Some (Passed (drift, hold)), s6)"
      "recover e target (target @ '' '' @ cs) s6 = (Some (Passed recovery), t)"
      "row = negative_row np tr refused drift hold recovery" "require_report_row target cs row = Passed ()"
    by (auto simp: negative_def Let_def script_passes mark_Passed guarded_Passed start_chain_def sput_def)
  from b have "lease_noted target cs np s2 s3"
    by (cases "cs = ''replay''") (auto simp: lease_noted_def swhen_def script_passes sput_def)
  with a c show ?thesis by blast
qed

lemma negative_passed_shown:
  assumes "negative e target cs s = (Some (Passed row), t)"
  shows "(\<exists>d. negative_shown e target cs s t d \<and> map_of row ''drift'' = Some (drift_val d)) \<and> negative_row_passed target cs (PDict row)"
proof -
  from negative_parts [OF assms] obtain grant s1 np s2 s3 tr s4 refused s5 drift hold s6 recovery where
    a: "reset_for e target s = (Some (Passed grant), s1)"
      "prepare_negative e target cs (target @ '' '' @ cs) grant (length (telemetry_rows target (ce_seen e (pb_reads s1))))
        (s1\<lparr>pb_reads := Suc (pb_reads s1), pb_chain := grant_chain_init (rg_fields grant) (rg_accepted grant - 1)\<rparr>) = (Some (Passed np), s2)"
      "lease_noted target cs np s2 s3" and
    b: "send_negative e target (target @ '' '' @ cs) grant np s3 = (Some (Passed tr), s4)"
      "judged_refusal e target cs (target @ '' '' @ cs) np tr s4 = (Some (Passed refused), s5)"
      "negative_motion e target cs (target @ '' '' @ cs) (np_mark np) tr s5 = (Some (Passed (drift, hold)), s6)"
      "recover e target (target @ '' '' @ cs) s6 = (Some (Passed recovery), t)"
      "row = negative_row np tr refused drift hold recovery" "require_report_row target cs row = Passed ()"
    by blast
  obtain reset where r: "sent_by s s1 [reset]" using sent_by_reset [OF a(1)] by blast
  then have r1: "sent_by s (s1\<lparr>pb_reads := Suc (pb_reads s1), pb_chain := grant_chain_init (rg_fields grant) (rg_accepted grant - 1)\<rparr>) [reset]"
    by (auto simp: sent_by_def onward_def)
  note prep = prepare_negative_shown [OF a(2)]
  have "np_first np \<noteq> None \<longleftrightarrow> cs = ''replay''" using prep by (simp add: negative_prepared_def Let_def)
  from send_negative_shown [OF b(1) this] have trial: "trial_shown e target cs s3 s4 grant np tr" .
  have q3: "sent_by s2 s3 []" using a(3) by (auto simp: lease_noted_def sent_by_def onward_def split: if_splits)
  from negative_motion_shown [OF b(3)] obtain d where d: "stayed_put e target s5 s6 tr d" "drift = drift_val d" by blast
  from recover_shown [OF b(4)] obtain fresh n where rec: "recovery_shown e target s6 t fresh" "onward s6 t" "pb_sent t = pb_sent s6 @ [(n, fresh)]" by blast
  then have "sent_by s6 t [fresh]" by (simp add: sent_by_def)
  with sent_by_trans [OF r1 sent_by_trans [OF prepared_sent [OF a(2)] sent_by_trans [OF q3 sent_by_trans [OF trial_sent [OF trial]
        sent_by_trans [OF refused_sent(1) [OF b(2)] sent_by_trans [OF refused_sent(2) [OF b(3)]]]]]]]
  have all: "sent_by s t (reset # (if cs = ''replay'' then [np_packet np, np_packet np] else [np_packet np]) @ [fresh])" by simp
  have "negative_shown e target cs s t d" unfolding negative_shown_def
    using a(1,3) r prep trial judged_refusal_shown [OF b(2)] d(1) rec(1) all by blast
  moreover have "map_of row ''drift'' = Some (drift_val d)" by (simp add: b(5) d(2) negative_row_def)
  moreover have "negative_row_passed target cs (PDict row)" using b(6) by (auto simp: require_report_row_def split: if_splits)
  ultimately show ?thesis by blast
qed

text \<open>
  C10. A negative control of the two controllers (an unsigned, altered, wrongly signed, replayed, delayed or
  foreign packet) that passes stands on what this very run sent and saw. The packet under test is a freshly
  measured and approved one with exactly the case's defect (a delayed one carries a genuine permit whose own
  times were too old and not ended when it was signed); the readings right before it left showed the
  controller as the reset left it, its lease live, and the place of the body. The telemetry after that
  shows the one refusal with the reason of the case, inside the lease and with both counters accounted
  for; the body, seen stopped and again 300 ms later, had not moved from the place recorded before the
  (last copy of the) packet, and the report's drift is the one seen there; a further, genuine packet was
  then refused because the controller stayed locked; and nothing else was sent.
\<close>

theorem negative_controls_shown:
  "case negative e target cs s of
     (Some (Passed row), t) \<Rightarrow>
       (\<exists>d. negative_shown e target cs s t d \<and> map_of row ''drift'' = Some (drift_val d)) \<and> negative_row_passed target cs (PDict row)
   | _ \<Rightarrow> True"
  by (auto split: prod.split option.split outcome.split dest: negative_passed_shown)

end
