(* ===== verification/Probe_Exercise.thy ===== *)
theory Probe_Exercise
  imports Probe_Negatives
begin

text \<open>
  The whole exercise of the probes: its scripts only move the counters and the clocks onward, and a passed
  exercise holds every case in its order, each with the evidence of its attempts.
\<close>

section \<open>All scripts only move onward\<close>

lemma skeeps_onward_still: "skeeps still m \<Longrightarrow> skeeps onward m"
  by (simp add: skeeps_def still_onward)

lemma onward_wait: "skeeps calm p \<Longrightarrow> skeeps onward act \<Longrightarrow> skeeps onward (probe_wait e p n d (Some act))"
  unfolding probe_wait_def by (rule ow.skeeps_await) (simp_all add: probe_waiter_def onward_def skeeps_onward)

lemma onward_motion:
  assumes "skeeps calm moved" and "skeeps onward act"
  shows "skeeps onward (positive_motion e target late moved n d act)"
proof -
  have "skeeps calm (met (sbind moved (\<lambda>m. if m then sret True else sbind (late_events e late) (\<lambda>_. sret False))))"
    by (intro quiet_all assms)
  moreover have "skeeps calm (settle_events e (late_events e late) d)" by (intro quiet_all)
  moreover have "skeeps calm (probe_wait e (met (last_counted e target late)) 1000000000 (d @ '': last permit counted'') None)"
    by (intro quiet_wait quiet_all)
  moreover have "skeeps calm (require_admitted e target d)" by (intro quiet_all)
  ultimately show ?thesis unfolding positive_motion_def by (intro ow.skeeps_flow onward_wait assms) (simp_all add: skeeps_onward)
qed

lemma onward_chain: "skeeps onward (start_chain g)"
  unfolding start_chain_def by (rule ow.skeeps_sput) (simp add: onward_def)

lemma onward_reset: "skeeps onward (maintenance_reset e)" "skeeps onward (reset_for e target)"
proof -
  show m: "skeeps onward (maintenance_reset e)" unfolding maintenance_reset_def
    by (intro ow.skeeps_flow onward_sends skeeps_onward_still [OF still_observe]) (intro skeeps_onward quiet_wait quiet_all)+
  show "skeeps onward (reset_for e target)" unfolding reset_for_def by (intro ow.skeeps_flow m)
qed

lemma onward_recover: "skeeps onward (recover e target stage)"
  unfolding recover_def by (intro ow.skeeps_flow onward_sends) (intro skeeps_onward quiet_all)+

lemma onward_trial: "skeeps onward (send_duplicate e target stage np late row)" "skeeps onward (replay_packet e target stage np late)"
    "skeeps onward (send_negative e target stage grant np)" "skeeps onward (send_goal e stage)"
proof -
  show d: "skeeps onward (send_duplicate e target stage np late row)" for late row unfolding send_duplicate_def
    by (intro ow.skeeps_flow onward_sends) (intro skeeps_onward quiet_all)+
  show r: "skeeps onward (replay_packet e target stage np late)" for late unfolding replay_packet_def
    by (intro ow.skeeps_flow d) (intro skeeps_onward quiet_row_wait quiet_all)+
  show "skeeps onward (send_negative e target stage grant np)" unfolding send_negative_def by (intro ow.skeeps_flow onward_sends r)
  show "skeeps onward (send_goal e stage)" unfolding send_goal_def by (intro ow.skeeps_flow onward_sends skeeps_onward quiet_all)
qed

lemma onward_bodies: "skeeps onward (negative e target cs)" "skeeps onward (late_renewal e)" "skeeps onward (base_positive e)" "skeeps onward (arm_positive e)"
proof -
  show "skeeps onward (negative e target cs)" unfolding negative_def Let_def
    by (intro ow.skeeps_flow onward_reset onward_chain onward_trial onward_recover ow.skeeps_sput; (intro skeeps_onward quiet_all)?) (simp_all add: onward_def)
  show "skeeps onward (late_renewal e)" unfolding late_renewal_def Let_def
    by (intro ow.skeeps_flow onward_reset onward_chain onward_trial onward_recover onward_sends; intro skeeps_onward quiet_row_wait quiet_all)
  show "skeeps onward (base_positive e)" unfolding base_positive_def
    by (intro ow.skeeps_flow onward_reset onward_chain onward_motion onward_sends quiet_all; (intro skeeps_onward quiet_all)?)
  show "skeeps onward (arm_positive e)" unfolding arm_positive_def Let_def
    by (intro ow.skeeps_flow onward_reset onward_chain onward_trial onward_motion onward_sends quiet_all; (intro skeeps_onward quiet_wait quiet_all)?)
qed

lemma onward_expiry: "skeeps onward (base_expiry e)" "skeeps onward (arm_expiry e)"
proof -
  have x: "skeeps calm (expiry_hold e target t d)" for target t d unfolding expiry_hold_def by (intro quiet_wait quiet_all)
  show "skeeps onward (base_expiry e)" unfolding base_expiry_def by (intro skeeps_onward quiet_wait quiet_all x)
  show "skeeps onward (arm_expiry e)" unfolding arm_expiry_def by (intro skeeps_onward quiet_wait quiet_all x)
qed

section \<open>Attempts and cases\<close>

lemma attempts_onward: "skeeps onward body \<Longrightarrow> skeeps onward (probe_attempts cs k n body)"
proof (induction n arbitrary: k)
  case 0
  show ?case by (simp add: skeeps_def ow.refl)
next
  case (Suc n)
  show ?case unfolding skeeps_def
  proof
    fix s
    obtain r u where b: "body s = (r, u)" by (cases "body s")
    have "onward s u" by (rule skeepsD [OF Suc.prems b])
    moreover have "onward u (snd (probe_attempts cs (Suc k) n body u))" using Suc.IH [OF Suc.prems] by (simp add: skeeps_def)
    ultimately show "onward s (snd (probe_attempts cs k (Suc n) body s))"
      using b by (auto split: option.splits outcome.splits intro: ow.trans)
  qed
qed

lemma case_onward: "skeeps onward body \<Longrightarrow> skeeps onward (attempted_case name body)"
  unfolding attempted_case_def by (intro ow.skeeps_flow attempts_onward)

text \<open>A case that passed did so in one of its attempts.\<close>

lemma attempts_passed:
  "skeeps onward body \<Longrightarrow> probe_attempts cs k n body s = (Some (Passed row), t) \<Longrightarrow>
   \<exists>u r j. onward s u \<and> body u = (Some (Passed r), t) \<and> k \<le> j \<and> j < k + n \<and> row = r @ [(''attempt'', PInt (int j))]"
proof (induction n arbitrary: k s)
  case 0
  then show ?case by simp
next
  case (Suc n)
  obtain r u where b: "body s = (r, u)" by (cases "body s")
  have su: "onward s u" by (rule skeepsD [OF Suc.prems(1) b])
  from Suc.prems(2) b consider a where "r = Some (Passed a)" "row = a @ [(''attempt'', PInt (int k))]" "u = t"
    | d where "r = Some (Inconclusive d)" "probe_attempts cs (Suc k) n body u = (Some (Passed row), t)"
    by (auto split: option.splits outcome.splits)
  then show ?case
  proof cases
    case 1
    with b show ?thesis by (intro exI [of _ s] exI [of _ a] exI [of _ k]) (simp add: ow.refl)
  next
    case 2
    from Suc.IH [OF Suc.prems(1) 2(2)] obtain v q j where v: "onward u v" "body v = (Some (Passed q), t)" "Suc k \<le> j" "j < Suc k + n" "row = q @ [(''attempt'', PInt (int j))]"
      by blast
    then show ?thesis using ow.trans [OF su v(1)] by (intro exI [of _ v] exI [of _ q] exI [of _ j]) simp
  qed
qed

text \<open>The cases ran in order, each from where the one before it ended.\<close>

fun ran :: "(probes, string \<times> pyval) script list \<Rightarrow> probes \<Rightarrow> row \<Rightarrow> probes \<Rightarrow> bool" where
  "ran [] s rs t \<longleftrightarrow> rs = [] \<and> t = s"
| "ran (m # ms) s rs t \<longleftrightarrow> (\<exists>r rest u. rs = r # rest \<and> m s = (Some (Passed r), u) \<and> ran ms u rest t)"

lemma run_cases_ran: "run_cases ms s = (Some (Passed rs), t) \<Longrightarrow> ran ms s rs t"
proof (induction ms arbitrary: s rs)
  case Nil
  then show ?case by (auto simp: script_passes)
next
  case (Cons m ms)
  from Cons.prems obtain r u rest where u: "m s = (Some (Passed r), u)" "run_cases ms u = (Some (Passed rest), t)" "rs = r # rest"
    by (auto simp: script_passes)
  with Cons.IH [OF u(2)] show ?case by auto
qed

lemma ran_onward: "list_all (skeeps onward) ms \<Longrightarrow> ran ms s rs t \<Longrightarrow> onward s t"
proof (induction ms arbitrary: s rs)
  case Nil
  then show ?case by (simp add: ow.refl)
next
  case (Cons m ms)
  from Cons.prems(2) obtain r rest u where u: "m s = (Some (Passed r), u)" "ran ms u rest t" by auto
  have "skeeps onward m" using Cons.prems(1) by simp
  from skeepsD [OF this u(1)] have "onward s u" .
  with Cons.IH [OF _ u(2)] Cons.prems(1) show ?case by (auto intro: ow.trans)
qed

lemma ran_case: "list_all (skeeps onward) ms \<Longrightarrow> ran ms s rs t \<Longrightarrow> m \<in> set ms \<Longrightarrow> \<exists>u v r. onward s u \<and> m u = (Some (Passed r), v) \<and> onward v t \<and> r \<in> set rs"
proof (induction ms arbitrary: s rs)
  case Nil
  then show ?case by simp
next
  case (Cons m' ms)
  from Cons.prems(2) obtain r rest u where u: "m' s = (Some (Passed r), u)" "ran ms u rest t" "rs = r # rest" by auto
  have "skeeps onward m'" using Cons.prems(1) by simp
  from skeepsD [OF this u(1)] have su: "onward s u" .
  show ?case
  proof (cases "m = m'")
    case True
    with u ran_onward [OF _ u(2)] Cons.prems(1) show ?thesis by (intro exI [of _ s] exI [of _ u] exI [of _ r]) (simp add: ow.refl)
  next
    case False
    with Cons.IH [OF _ u(2)] Cons.prems(1,3) obtain v w q where "onward u v" "m v = (Some (Passed q), w)" "onward w t" "q \<in> set rest" by auto
    then show ?thesis using ow.trans [OF su] u(3) by (intro exI [of _ v] exI [of _ w] exI [of _ q]) simp
  qed
qed

section \<open>The whole exercise\<close>

text \<open>A negative case of the exercise: one of its at most three attempts passed and is what the checks record.\<close>

definition case_shown :: "probe_env \<Rightarrow> probes \<Rightarrow> probes \<Rightarrow> row \<Rightarrow> string \<Rightarrow> string \<Rightarrow> bool" where
  "case_shown e s t checks target cs \<longleftrightarrow>
     (\<exists>u v row j. onward s u \<and> onward v t \<and> negative e target cs u = (Some (Passed row), v) \<and>
        (\<exists>d. negative_shown e target cs u v d \<and> map_of row ''drift'' = Some (drift_val d)) \<and>
        1 \<le> j \<and> j \<le> PERMIT_MAX_ATTEMPTS \<and> (target @ ''_'' @ cs, PDict (row @ [(''attempt'', PInt (int j))])) \<in> set checks)"

definition exercise_shown :: "probe_env \<Rightarrow> row \<Rightarrow> probes \<Rightarrow> probes \<Rightarrow> row \<Rightarrow> bool" where
  "exercise_shown e extra s t result \<longleftrightarrow>
     (\<exists>checks u. result = (''ok'', PBool True) # (''checks'', PDict checks) # extra \<and> onward s u \<and> ran (all_cases e) u checks t \<and>
        (\<forall>target\<in>{''base'', ''arm''}. \<forall>cs\<in>{''unsigned'', ''altered'', ''signature'', ''replay'', ''delay'', ''target''}. case_shown e u t checks target cs) \<and>
        ck_status (check_permits [(''ok'', PBool True), (''controller_permits'', PDict result)]) = ''passed'')"

lemma all_cases_onward: "list_all (skeeps onward) (all_cases e)"
  unfolding all_cases_def by (simp add: onward_expiry case_onward onward_bodies)

lemma attempted_passed:
  assumes "skeeps onward body" and "attempted_case name body s = (Some (Passed q), t)"
  shows "\<exists>u r j. onward s u \<and> body u = (Some (Passed r), t) \<and> 1 \<le> j \<and> j \<le> PERMIT_MAX_ATTEMPTS \<and> q = (name, PDict (r @ [(''attempt'', PInt (int j))]))"
proof -
  from assms(2) obtain row where "probe_attempts name 1 PERMIT_MAX_ATTEMPTS body s = (Some (Passed row), t)" "q = (name, PDict row)"
    by (auto simp: attempted_case_def script_passes)
  with attempts_passed [OF assms(1) this(1)] show ?thesis by fastforce
qed

lemma case_ran_shown:
  assumes "ran (all_cases e) s checks t" and "target \<in> {''base'', ''arm''}"
    and "cs \<in> {''unsigned'', ''altered'', ''signature'', ''replay'', ''delay'', ''target''}"
  shows "case_shown e s t checks target cs"
proof -
  have "attempted_case (target @ ''_'' @ cs) (negative e target cs) \<in> set (all_cases e)" using assms(2,3) unfolding all_cases_def by auto
  from ran_case [OF all_cases_onward assms(1) this] obtain u v r where u: "onward s u" "attempted_case (target @ ''_'' @ cs) (negative e target cs) u = (Some (Passed r), v)"
    "onward v t" "r \<in> set checks" by blast
  from attempted_passed [OF onward_bodies(1) u(2)] obtain w row j where w: "onward u w" "negative e target cs w = (Some (Passed row), v)"
    "1 \<le> j" "j \<le> PERMIT_MAX_ATTEMPTS" "r = (target @ ''_'' @ cs, PDict (row @ [(''attempt'', PInt (int j))]))" by blast
  from negative_passed_shown [OF w(2)] u(3,4) w ow.trans [OF u(1) w(1)] show ?thesis unfolding case_shown_def by blast
qed

text \<open>
  C9. An exercise of the two controllers that passes ran every case, in the source's order, each from where the
  one before it ended; each of the six negative cases passed for both controllers in one of at most three
  attempts, with the evidence of \<open>negative_shown\<close>, and the checks it returns are accepted by the public report.
\<close>

theorem exercise_passes_on_evidence:
  "case exercise_checks e extra s of
     (Some (Passed result), t) \<Rightarrow> exercise_shown e extra s t result
   | _ \<Rightarrow> True"
proof -
  have "exercise_shown e extra s t result" if run: "exercise_checks e extra s = (Some (Passed result), t)" for result t
  proof -
    from run obtain u checks where u: "probe_wait e (met (stopped e)) 2000000000 ''fresh measured wheel and arm stop before relay replacement'' None s = (Some (Passed ()), u)"
      "run_cases (all_cases e) u = (Some (Passed checks), t)" "result = (''ok'', PBool True) # (''checks'', PDict checks) # extra"
      "ck_status (check_permits [(''ok'', PBool True), (''controller_permits'', PDict result)]) = ''passed''"
      by (auto simp: exercise_checks_def Let_def script_passes split: if_splits)
    have "skeeps calm (probe_wait e (met (stopped e)) 2000000000 ''fresh measured wheel and arm stop before relay replacement'' None)"
      by (intro quiet_wait quiet_all)
    from skeepsD [OF this u(1)] have "onward s u" by (rule quiet_onward)
    with u(3,4) run_cases_ran [OF u(2)] case_ran_shown [OF run_cases_ran [OF u(2)]] show ?thesis
      unfolding exercise_shown_def by blast
  qed
  then show ?thesis by (auto split: prod.split option.split outcome.split)
qed

end
