(* ===== verification/Probe_Termination.thy ===== *)
theory Probe_Termination
  imports Probe_Properties
begin

text \<open>
  Every run of the probe cases returns: the fuel each wait, attempt and case needs under a monotone clock
  and real sleeps.
\<close>

section \<open>Every case ends\<close>

text \<open>The clock never goes back and a sleep takes its ten milliseconds; the longest wait is 15 s.\<close>

definition clock_runs :: "probe_env \<Rightarrow> bool" where
  "clock_runs e \<longleftrightarrow> (\<forall>i j. ce_wall e i j \<le> ce_wall e i (Suc j) \<and> ce_wall e i j + 10000000 \<le> ce_wall e (Suc i) j) \<and> 1501 \<le> ce_fuel e"

lemma clock_runs_ticking: "clock_runs e \<Longrightarrow> ticking onward (probe_waiter e)"
proof -
  assume c: "clock_runs e"
  have a: "ce_wall e i j \<le> ce_wall e i (Suc j)" and b: "ce_wall e i j + 10000000 \<le> ce_wall e (Suc i) j" for i j
    using c unfolding clock_runs_def by blast+
  have r: "ce_wall e i j \<le> ce_wall e i k" if "j \<le> k" for i j k
    using a that by (rule lift_Suc_mono_le [where f = "ce_wall e i"])
  have "ce_wall e i j \<le> ce_wall e (Suc i) j" for i j using b [of i j] by linarith
  then have s: "ce_wall e i j \<le> ce_wall e k j" if "i \<le> k" for i j k
    using that by (rule lift_Suc_mono_le [where f = "\<lambda>i. ce_wall e i j"])
  have m: "ce_wall e i j \<le> ce_wall e k l" if "i \<le> k" "j \<le> l" for i j k l
    using r [OF that(2)] s [OF that(1)] order_trans by blast
  show ?thesis unfolding ticking_def
  proof (intro conjI allI impI)
    fix s t assume "onward s t"
    then show "wt_clock (probe_waiter e) s \<le> wt_clock (probe_waiter e) t" by (simp add: probe_waiter_def onward_def m)
  qed (simp_all add: probe_waiter_def onward_def b)
qed

named_theorems ends \<open>scripts that return\<close>

lemma returns_read [ends]: "returns (reading f)" "returns (wall_ns e)" "returns (probe_now e)" "returns (look e)"
proof -
  show r: "returns (reading f)" for f :: "nat \<Rightarrow> 'b" unfolding reading_def by (intro returns_flow)
  show "returns (wall_ns e)" "returns (probe_now e)" "returns (look e)" by (simp_all add: wall_ns_def probe_now_def look_def returns_basic r)
qed

lemma returns_wait_act:
  assumes "clock_runs e" and "skeeps calm p" and "returns p" and "n \<le> 15000000000" and "\<And>a. act = Some a \<Longrightarrow> skeeps onward a \<and> returns a"
  shows "returns (probe_wait e p n d act)"
  unfolding probe_wait_def
proof (rule ow.returns_await [OF clock_runs_ticking [OF assms(1)] skeeps_onward [OF assms(2)] assms(3)])
  have "15010000000 \<le> 10000000 * int (ce_fuel e)" "0 < ce_fuel e" using assms(1) by (auto simp: clock_runs_def)
  then show "0 < wt_fuel (probe_waiter e)" "n + 10000000 \<le> 10000000 * int (wt_fuel (probe_waiter e))"
    using assms(4) by (auto simp: probe_waiter_def)
qed (use assms(5) in auto)

lemma returns_wait [ends]: "clock_runs e \<Longrightarrow> skeeps calm p \<Longrightarrow> returns p \<Longrightarrow> n \<le> 15000000000 \<Longrightarrow> returns (probe_wait e p n d None)"
  by (rule returns_wait_act) auto

lemma returns_pure [ends]: "returns (issuer_sign e role v)" "returns (token e target kind digest sim wall n)" "returns (send_packet pkt)" "returns (observe_controller e target)"
    "returns (issuer_ask e m)"
proof -
  show "returns (issuer_sign e role v)" by (auto simp: returns_def issuer_sign_def split: option.split prod.split)
  show "returns (token e target kind digest sim wall n)" by (auto simp: returns_def token_def split: prod.split sum.split)
  show "returns (send_packet pkt)" by (simp add: send_packet_def returns_basic)
  have g: "returns (guard e target)" unfolding guard_def by (intro returns_flow ends)
  show "returns (observe_controller e target)" unfolding observe_controller_def
    by (intro returns_sbind g) (auto simp: returns_def split: prod.split sum.split)
  show "returns (issuer_ask e m)" unfolding issuer_ask_def
    by (intro returns_sbind ends) (auto simp: returns_def split: option.split prod.split)
qed

lemmas reads_defs = guard_def seen_positions_def stopped_def fresh_feedback_def telemetry_mark_def since_def guard_count_def guard_nonce_def
  seen_pose_def joint1_def unlocked_row_def

lemma returns_reads [ends]: "returns (guard e target)" "returns (seen_positions e)" "returns (stopped e)" "returns (fresh_feedback e)"
    "returns (telemetry_mark e target)" "returns (since e target mark)" "returns (guard_count e target k)" "returns (guard_nonce e target)"
    "returns (seen_pose e)" "returns (joint1 e)" "returns (unlocked_row e target)"
  unfolding reads_defs by (intro returns_flow ends)+

lemma returns_places [ends]: "returns (read_place e)" "returns (drift_from e target pose joints)" "returns (base_moved e before)" "returns (arm_moved e q)"
    "returns (negative_drift e target pose joints)"
  unfolding read_place_def drift_from_def base_moved_def arm_moved_def negative_drift_def by (intro returns_flow ends)+

lemma returns_feed [ends]: "returns (feed e role v)" "returns (reason_of rs k)" "returns (new_issuer e)" "returns (grant_of_reset e target f)"
    "returns (fresh_nonce e target v)" "returns (rows_since_or_guard e target mark)" "returns (still_latched e target stage n row)"
    "returns (lease_events e target stage mark grant)" "returns (reset_live e grant row)" "returns (send_instant e stage p f)" 
  unfolding feed_def reason_of_def new_issuer_def grant_of_reset_def fresh_nonce_def rows_since_or_guard_def still_latched_def
    lease_events_def reset_live_def send_instant_def
  by (intro returns_flow ends)+

lemma returns_events [ends]:
  "returns (check_events e c chain)" "returns (late_events e c)" "returns (fail_closed_check e target h stage)" "returns (require_admitted e target stage)"
  "returns (last_counted e target c)" "returns (reset_check e target f u)" "returns (goal_admitted e late a)" "returns (first_admitted e target late w row)"
  "returns (moving_under_goal e late goal digest accepted initial row)" "returns (first_checkpoint e target cs stage w)"
proof -
  show c: "returns (check_events e c chain)" for chain unfolding check_events_def by (intro returns_flow ends)
  show l: "returns (late_events e c)" for c using c unfolding late_events_def check_events_def by (intro returns_flow ends)
  show f: "returns (fail_closed_check e target h stage)" for h stage unfolding fail_closed_check_def by (intro returns_flow ends)
  show "returns (require_admitted e target stage)" "returns (last_counted e target c)" "returns (goal_admitted e late a)" "returns (first_admitted e target late w row)"
    "returns (moving_under_goal e late goal digest accepted initial row)" "returns (first_checkpoint e target cs stage w)" "returns (reset_check e target f u)"
    unfolding require_admitted_def last_counted_def goal_admitted_def first_admitted_def moving_under_goal_def first_checkpoint_def reset_check_def
    by (intro returns_flow ends l f)+
qed

lemma returns_judged [ends]: "clock_runs e \<Longrightarrow> n \<le> 15000000000 \<Longrightarrow> returns (wait_judged e target mark judge n d)"
  unfolding wait_judged_def by (intro returns_flow ends quiet_all)

lemma returns_row_wait [ends]:
  "clock_runs e \<Longrightarrow> n \<le> 15000000000 \<Longrightarrow> (\<And>row. skeeps calm (accept row)) \<Longrightarrow> (\<And>row. returns (accept row)) \<Longrightarrow> returns (wait_row e target accept n d)"
  unfolding wait_row_def by (intro returns_flow ends quiet_all)

lemma returns_settle [ends]: "clock_runs e \<Longrightarrow> skeeps calm chk \<Longrightarrow> returns chk \<Longrightarrow> returns (settle_events e chk d)"
  unfolding settle_events_def by (intro returns_flow ends quiet_all) simp_all

lemma returns_issuer [ends]:
  assumes c: "clock_runs e"
  shows "returns (world_snapshot e)" "returns (admit_world e)" "returns (approve_probe e action)" "returns (stale_permit e target kind digest stage)"
    "returns (base_packet e)" "returns (await_cutoff e)" "returns (arm_packet e)" "returns (require_timely e p stage)" "returns (send_timely e pkt p stage ch)"
    "returns (stop_packet e)" "returns (packet_for e target)" "returns (require_counted e target before stage)" "returns (arm_hold e stage mark sent r h)"
    "returns (observe_for e d)" "returns (request_reset e)"
proof -
  show w: "returns (world_snapshot e)" unfolding world_snapshot_def by (intro returns_flow ends c quiet_all) simp_all
  show a: "returns (admit_world e)" unfolding admit_world_def by (intro returns_flow ends w)
  show p: "returns (approve_probe e action)" for action unfolding approve_probe_def by (intro returns_flow ends a)
  show "returns (stale_permit e target kind digest stage)" unfolding stale_permit_def by (intro returns_flow ends)
  show b: "returns (base_packet e)" unfolding base_packet_def by (intro returns_flow ends p)
  show k: "returns (await_cutoff e)" unfolding await_cutoff_def by (intro returns_flow ends c quiet_all) simp_all
  show m: "returns (arm_packet e)" unfolding arm_packet_def by (intro returns_flow ends p k)
  show t: "returns (require_timely e p stage)" for p stage unfolding require_timely_def by (intro returns_flow ends)
  show "returns (send_timely e pkt p stage ch)" unfolding send_timely_def by (intro returns_flow ends t)
  show "returns (stop_packet e)" unfolding stop_packet_def by (intro returns_flow ends p)
  show "returns (packet_for e target)" unfolding packet_for_def by (intro returns_flow ends b m)
  show "returns (require_counted e target before stage)" unfolding require_counted_def by (intro returns_flow ends c quiet_all) simp_all
  show "returns (arm_hold e stage mark sent r h)" unfolding arm_hold_def by (intro returns_flow ends c) simp_all
  show "returns (observe_for e d)" unfolding observe_for_def by (intro returns_flow ends c quiet_all) simp_all
  show "returns (request_reset e)" unfolding request_reset_def by (intro returns_flow ends c quiet_all) simp_all
qed

lemma returns_recovery [ends]:
  assumes c: "clock_runs e"
  shows "returns (recovery_packet e target stage)" "returns (recovery_motion e target pose joints)" "returns (recover e target stage)"
proof -
  show p: "returns (recovery_packet e target stage)" unfolding recovery_packet_def recovery_witness_def by (intro returns_flow ends c)
  show m: "returns (recovery_motion e target pose joints)" for pose joints unfolding recovery_motion_def by (intro returns_flow ends c)
  show "returns (recover e target stage)" unfolding recover_def by (intro returns_flow ends c p m) simp_all
qed

lemma returns_reset [ends]: "clock_runs e \<Longrightarrow> returns (maintenance_reset e)" "clock_runs e \<Longrightarrow> returns (reset_for e target)"
proof -
  assume c: "clock_runs e"
  show m: "returns (maintenance_reset e)" unfolding maintenance_reset_def
    by (intro returns_flow ends c quiet_all) simp_all
  show "returns (reset_for e target)" unfolding reset_for_def by (intro returns_flow m)
qed

lemma returns_judging [ends]:
  assumes c: "clock_runs e"
  shows "returns (foreign_permit e target p)" "returns (tampered e target cs pkt)" "returns (stale_replacement e target cs stage pkt)"
    "returns (await_live_reset e target stage mark grant)" "returns (prepare_negative e target cs stage grant m)"
    "returns (negative_motion e target cs stage k t)" "returns (judged_refusal e target cs stage np t)"
    "returns (goal_judged e stage before accepted late)" "returns (late_motion e stage k w)" "returns (late_refusal e stage k w goal f)"
    "returns (send_late_renewal e stage late goal digest w)" "returns (send_duplicate e target stage np late row)"
    "returns (replay_packet e target stage np late)" "returns (send_negative e target stage grant np)"
proof -
  show f: "returns (foreign_permit e target p)" for p unfolding foreign_permit_def Let_def by (intro returns_flow ends)
  show t: "returns (tampered e target cs pkt)" for pkt unfolding tampered_def by (intro returns_flow f)
  show s: "returns (stale_replacement e target cs stage pkt)" for pkt unfolding stale_replacement_def by (intro returns_flow ends c)
  show a: "returns (await_live_reset e target stage mark grant)" for mark unfolding await_live_reset_def by (intro returns_flow ends c quiet_all) simp_all
  show "returns (prepare_negative e target cs stage grant m)" unfolding prepare_negative_def by (intro returns_flow ends c t a s)
  show "returns (negative_motion e target cs stage k t)" for t unfolding negative_motion_def by (intro returns_flow ends c quiet_all) simp_all
  show "returns (judged_refusal e target cs stage np t)" for t unfolding judged_refusal_def Let_def by (intro returns_flow ends c) simp_all
  show "returns (goal_judged e stage before accepted late)" unfolding goal_judged_def by (intro returns_flow ends c quiet_all)
  show "returns (late_motion e stage k w)" unfolding late_motion_def by (intro returns_flow ends c quiet_all) simp_all
  show "returns (late_refusal e stage k w goal f)" unfolding late_refusal_def by (intro returns_flow ends c) simp_all
  show "returns (send_late_renewal e stage late goal digest w)" unfolding send_late_renewal_def by (intro returns_flow ends c quiet_all)
  show d: "returns (send_duplicate e target stage np late row)" for late row unfolding send_duplicate_def by (intro returns_flow ends c quiet_all)
  show r: "returns (replay_packet e target stage np late)" for late unfolding replay_packet_def by (intro returns_flow ends c quiet_all d) simp_all
  show "returns (send_negative e target stage grant np)" unfolding send_negative_def by (intro returns_flow ends r)
qed

lemma returns_actions:
  assumes c: "clock_runs e"
  shows "returns (probe_command e)" "returns (renew e late digest)" "returns (send_goal e stage)"
proof -
  show "returns (probe_command e)" unfolding probe_command_def by (intro returns_flow ends c)
  have "returns (send_renewal e late digest stamp wall step)" for stamp wall step unfolding send_renewal_def by (intro returns_flow ends c quiet_all)
  then show "returns (renew e late digest)" unfolding renew_def by (intro returns_flow ends c)
  show "returns (send_goal e stage)" unfolding send_goal_def by (intro returns_flow ends c)
qed

lemma returns_positive:
  assumes c: "clock_runs e"
  shows "returns (base_positive e)" "returns (arm_positive e)"
proof -
  have m: "returns (positive_motion e target late moved n d act)"
    if "skeeps calm moved" "returns moved" "skeeps onward act" "returns act" "n \<le> 15000000000" for target late moved n d act
    unfolding positive_motion_def
    by (intro returns_flow ends c returns_wait_act quiet_all that) (use that in simp_all)
  have s: "returns (start_chain g)" for g by (simp add: start_chain_def returns_basic)
  show "returns (base_positive e)" unfolding base_positive_def
    by (intro returns_flow ends c m s quiet_all onward_sends returns_actions) simp_all
  show "returns (arm_positive e)" unfolding arm_positive_def Let_def
    by (intro returns_flow ends c m s quiet_all onward_sends returns_actions) simp_all
qed

lemma returns_negative:
  assumes c: "clock_runs e"
  shows "returns (negative e target cs)" "returns (late_renewal e)"
proof -
  have s: "returns (start_chain g)" for g by (simp add: start_chain_def returns_basic)
  show "returns (negative e target cs)" unfolding negative_def Let_def
    by (intro returns_flow ends c s quiet_all)
  show "returns (late_renewal e)" unfolding late_renewal_def Let_def
    by (intro returns_flow ends c s quiet_all returns_actions) simp_all
qed

lemma returns_attempts: "returns body \<Longrightarrow> returns (probe_attempts cs k n body)"
proof (induction n arbitrary: k)
  case 0
  show ?case by (simp add: returns_def)
next
  case (Suc n)
  have b: "fst (body s) \<noteq> None" for s using Suc.prems by (simp add: returns_def)
  have i: "fst (probe_attempts cs (Suc k) n body s) \<noteq> None" for s using Suc.IH [OF Suc.prems, of "Suc k"] by (simp add: returns_def)
  show ?case unfolding returns_def
  proof
    fix s
    obtain j t where "body s = (Some j, t)" using b [of s] by (cases "body s") auto
    then show "fst (probe_attempts cs k (Suc n) body s) \<noteq> None" using i [of t] by (cases j) auto
  qed
qed

lemma returns_cases: "list_all returns ms \<Longrightarrow> returns (run_cases ms)"
  by (induction ms) (auto intro!: returns_flow)

text \<open>
  C29. The probes end. On a host whose clock does not go back and whose sleeps take their ten
  milliseconds, all seventeen cases with their retries return: no wait outlasts 1501 turns.
\<close>

theorem probes_end:
  assumes "clock_runs e"
  shows "fst (exercise_checks e extra s) \<noteq> None"
proof -
  have x: "returns (expiry_hold e target t d)" for target t d
    unfolding expiry_hold_def by (intro returns_flow ends assms quiet_all) simp_all
  have b: "returns (base_expiry e)" "returns (arm_expiry e)" unfolding base_expiry_def arm_expiry_def
    by (intro returns_flow ends assms quiet_all x; simp)+
  have a: "returns (attempted_case name body)" if "returns body" for name body
    unfolding attempted_case_def by (intro returns_flow returns_attempts that)
  have "list_all returns (all_cases e)"
    by (simp add: all_cases_def a b returns_positive returns_negative assms)
  then have "returns (exercise_checks e extra)" unfolding exercise_checks_def Let_def
    by (intro returns_flow ends assms quiet_all returns_cases) simp_all
  then show ?thesis by (simp add: returns_def)
qed

theorem probes_end_witness: "fst (exercise_checks probe_demo_env [] probe_demo_start) \<noteq> None"
  by (rule probes_end) (simp add: clock_runs_def probe_demo_env_def)

end
