(* ===== verification/Spec2Isabelle.thy ===== *)
theory Spec2Isabelle
  imports Gate_Properties Input_Properties Bench_Properties Evidence_Properties Sim_Properties Lab_Properties Run_Properties Run_Evidence Probe_Exercise Probe_Termination
begin

text \<open>
  Haetae is a permit gate for robots driven by learned policies. A proposer publishes base velocities and arm
  trajectories; isolated signers turn proposals and world observations into signed, numbered envelopes; the
  gate node hands them to a Rust engine, checks how fresh its answer is, and sends a command to a controller
  only with a permit that names exactly that command, its validity and a sequence number. A second, smaller
  instance of the same idea drives an LED over a serial line. The rest of the Python code are the simulator
  the gate is exercised in and the rules that decide, from recorded evidence, whether a run passed, failed or
  was inconclusive. This development models that Python code; paths below are relative to the repository.

  \<^bold>\<open>Conventions.\<close> A Python value is a \<^verbatim>\<open>pyval\<close> (\<^verbatim>\<open>PyValue\<close>), with every operator raising where Python
  raises; an exception is an \<^verbatim>\<open>exn\<close>, a function that may raise returns \<^verbatim>\<open>exn + 'a\<close>, a method is a state
  transformer of that result (\<^verbatim>\<open>Prelude\<close>). Floats carried by a message are 64-bit patterns with their exact
  rational value; clocks, geometry and quotients the code computes are exact rationals, so rounding of
  intermediate results is outside the model: two computations shown equal here (those of \<^verbatim>\<open>Arm_Kinematics\<close>)
  agree in Python only up to rounding. Cosine, sine and arc tangent, \<^verbatim>\<open>json\<close>, SHA-256, BLAKE2b, X25519
  and Ed25519 are parameters. Clocks, answers of the Rust process, sockets, files and the state of other
  processes come from environments indexed by the number of readings made so far, so that a theorem over all
  environments covers every delay and interleaving the code can see between two of its own reads.

  \<^bold>\<open>Shared theories.\<close> \<^verbatim>\<open>Prelude\<close> (results, methods, the locale \<^verbatim>\<open>run_rel\<close> of relations every method keeps,
  triples), \<^verbatim>\<open>PyValue\<close>, \<^verbatim>\<open>Bytes\<close> (struct, hexadecimal, splitting), \<^verbatim>\<open>Log_Text\<close> (lines, JSON rows, chains of
  stamps), \<^verbatim>\<open>Issuer\<close> (the locale of components that hand out numbered authority, interpreted by the input
  signer and by the permit signer) and \<^verbatim>\<open>Bounded_Attempts\<close> (the locale of the retry loops, interpreted by
  both of them).

  \<^bold>\<open>The gate\<close>, \<^verbatim>\<open>ros/haetae_gate\<close>.
  \<^item> \<^verbatim>\<open>Proposals\<close> -- \<^verbatim>\<open>proposals.py\<close>: the semantic reference in a frame name, base and arm actions.
  \<^item> \<^verbatim>\<open>Signing\<close> -- \<^verbatim>\<open>signing.py\<close> and \<^verbatim>\<open>CounterStore.reserve\<close>: the signed message, key loading, counters.
  \<^item> \<^verbatim>\<open>Source_Node\<close> -- \<^verbatim>\<open>source_node.py\<close>: sign, reserve durably, publish; restarts between any two steps.
  \<^item> \<^verbatim>\<open>Bridge\<close> -- \<^verbatim>\<open>bridge.py\<close>: freshness of an answer, revocation, framing over the child's pipes.
  \<^item> \<^verbatim>\<open>Controller_Permits\<close> -- \<^verbatim>\<open>controller_permits.py\<close>: accepted worlds, digests, permits.
  \<^item> \<^verbatim>\<open>Gate_Node\<close> -- \<^verbatim>\<open>node.py\<close>, one definition per method; \<^verbatim>\<open>Gate_Safety\<close>, \<^verbatim>\<open>Gate_Receive\<close> and
    \<^verbatim>\<open>Gate_Theorems\<close> hold what every method, callback and run keeps.
  \<^item> \<^verbatim>\<open>Ros_Relay\<close> -- \<^verbatim>\<open>relay.py\<close>: the coroutine of a goal cut at its awaits, one event per resumption.
  \<^item> \<^verbatim>\<open>Gate_Properties\<close> and \<^verbatim>\<open>Input_Properties\<close> state what follows: permits end inside the accepted world and
    inside 200 ms, only fresh answers actuate, failures latch, permits name exactly the action, counters are
    never reused, malformed input becomes a stop, and up to its limits (bytes buffered, reading time) the
    framing does not depend on how the output is cut.

  \<^bold>\<open>The LED bench\<close>, \<^verbatim>\<open>tools\<close>.
  \<^item> \<^verbatim>\<open>Permit_Protocol\<close> -- \<^verbatim>\<open>permit_protocol.py\<close>, \<^verbatim>\<open>permit_keys.py\<close>, \<^verbatim>\<open>permit_ipc.py\<close>.
  \<^item> \<^verbatim>\<open>Bench_Gate\<close> -- \<^verbatim>\<open>bench_gate.py\<close>; \<^verbatim>\<open>Permit_Authorizer\<close> -- \<^verbatim>\<open>permit_authorizer.py\<close>.
  \<^item> \<^verbatim>\<open>Serial_Link\<close> -- \<^verbatim>\<open>bench_link.py\<close> and \<^verbatim>\<open>PermitLink\<close> of \<^verbatim>\<open>permit_link.py\<close>; \<^verbatim>\<open>Permit_Relay\<close> -- its
    \<^verbatim>\<open>relay\<close>; \<^verbatim>\<open>Bench_Host\<close> -- \<^verbatim>\<open>bench_host.py\<close>.
  \<^item> \<^verbatim>\<open>Bench_Properties\<close>: a session is a run of an abstract lease automaton, a lease is renewed only for a fresh
    approval made and signed in that cycle, the host sends RUN only after one, the relay forwards answers of its own challenges
    and stops the controller in the end, and a session ends.

  \<^bold>\<open>Evidence.\<close>
  \<^item> \<^verbatim>\<open>Bench_Evidence\<close>, \<^verbatim>\<open>Bench_Timing\<close> -- \<^verbatim>\<open>tools/bench_evidence.py\<close>; \<^verbatim>\<open>Bench_Verdict\<close> -- \<^verbatim>\<open>host_attempt\<close> and
    \<^verbatim>\<open>host_case\<close> of \<^verbatim>\<open>tools/bench_verify.py\<close> and \<^verbatim>\<open>tools/permit_verify.py\<close>.
  \<^item> \<^verbatim>\<open>Permit_Attempts\<close> -- \<^verbatim>\<open>ros/gazebo/permit_attempts.py\<close>; \<^verbatim>\<open>Stop_Evidence\<close>, \<^verbatim>\<open>Dispatch_Evidence\<close>,
    \<^verbatim>\<open>Public_Report\<close> -- \<^verbatim>\<open>stop_evidence.py\<close>, \<^verbatim>\<open>hazard_dispatch_evidence.py\<close>, \<^verbatim>\<open>public_report.py\<close> there.
  \<^item> \<^verbatim>\<open>Safe_Files\<close> -- \<^verbatim>\<open>safe_evidence.py\<close>, \<^verbatim>\<open>CounterStore.__init__\<close>, the marker of \<^verbatim>\<open>tools/safe_stage.py\<close>;
    \<^verbatim>\<open>Artifact_Export\<close> -- \<^verbatim>\<open>artifact_export.py\<close>.
  \<^item> \<^verbatim>\<open>Run_Evidence\<close> -- \<^verbatim>\<open>sealed_incident_snapshot\<close> of \<^verbatim>\<open>run_reference.py\<close>, \<^verbatim>\<open>verify_log\<close> of
    \<^verbatim>\<open>run_scenario.py\<close>, \<^verbatim>\<open>summarize.py\<close> and \<^verbatim>\<open>ci_timing.py\<close>, \<^verbatim>\<open>permit_timing.py\<close> and \<^verbatim>\<open>fault_timing.py\<close>.
  \<^item> \<^verbatim>\<open>Live_Script\<close> -- \<^verbatim>\<open>wait_for\<close> of \<^verbatim>\<open>run_reference.py\<close> and the context managers of \<^verbatim>\<open>permit_attempts.py\<close>: a
    script is a state transformer that passes, is inconclusive, raises, or (\<^verbatim>\<open>None\<close>) has not ended; with rules of
    partial correctness, of relations every run respects and of termination.
  \<^item> \<^verbatim>\<open>Probe_Issuer\<close>, \<^verbatim>\<open>Probe_Attempts\<close>, \<^verbatim>\<open>Probe_Refusals\<close> -- \<^verbatim>\<open>exercise\<close> of \<^verbatim>\<open>controller_probes.py\<close>, one definition
    per inner function: the fixture's approvals and permits, the maintenance reset, the positive controls and
    their expiries, the thirteen negative cases with their recovery, and the order of all cases.
    \<^verbatim>\<open>Probe_Properties\<close>, \<^verbatim>\<open>Probe_Evidence\<close>, \<^verbatim>\<open>Probe_Negatives\<close>, \<^verbatim>\<open>Probe_Exercise\<close> and \<^verbatim>\<open>Probe_Termination\<close> show what a
    sent packet and a passed case stand on, and that every run of the cases returns; \<^verbatim>\<open>Probe_Demo\<close> evaluates one.
  \<^item> \<^verbatim>\<open>Evidence_Properties\<close> and \<^verbatim>\<open>Run_Properties\<close>: what a pass, an inconclusive attempt, a named stop, an
    attributed denial and a published file say of the events behind them.

  \<^bold>\<open>The simulator\<close>, \<^verbatim>\<open>ros/gazebo\<close> and \<^verbatim>\<open>ros/haetae_sim\<close>.
  \<^item> \<^verbatim>\<open>Perception\<close> -- \<^verbatim>\<open>lidar_perception.py\<close>; \<^verbatim>\<open>Gazebo_World\<close> -- the class of that name in \<^verbatim>\<open>run_reference.py\<close>,
    \<^verbatim>\<open>scene_layout.py\<close>, \<^verbatim>\<open>scenario_source.py\<close>; \<^verbatim>\<open>Live_Hub\<close> -- \<^verbatim>\<open>live_stream.py\<close>.
  \<^item> \<^verbatim>\<open>Sim_Base\<close> -- \<^verbatim>\<open>kinematics.py\<close>, \<^verbatim>\<open>oracle.py\<close>, \<^verbatim>\<open>sim_node.py\<close>; \<^verbatim>\<open>Rearm_Barrier\<close> -- \<^verbatim>\<open>arm_barrier.py\<close>;
    \<^verbatim>\<open>Arm_Preparation\<close> -- \<^verbatim>\<open>wait_for\<close> and \<^verbatim>\<open>prepare_arm_fault\<close> of \<^verbatim>\<open>run_reference.py\<close>.
  \<^item> \<^verbatim>\<open>Arm_Kinematics\<close>, \<^verbatim>\<open>Hazard_Lab\<close> -- \<^verbatim>\<open>hazard_lab.py\<close>.
  \<^item> \<^verbatim>\<open>Sim_Properties\<close>, \<^verbatim>\<open>Lab_Properties\<close>, \<^verbatim>\<open>Run_Properties\<close>: confident worlds are no newer than their samples
    and report every return as an obstacle, semantic facts are as old as what they were measured from, a plan reaches the
    gate's parser unchanged, the deadman stops the base, the stream loses nothing it still keeps, no cancel is
    lost at the relay, and an arm goal is prepared by at most two OFF proposals.

  \<^bold>\<open>Bounds and fuel.\<close> Loops that end by their data are total functions (\<^verbatim>\<open>read_loop\<close>, the serial links, frames
  of at most 513 reads, \<^verbatim>\<open>read_chunks\<close>). Loops that end by a clock take fuel and return \<^verbatim>\<open>None\<close> when it runs
  out: the bench host, for which 1241 turns are proved enough for sessions of at most 30 seconds when each
  sleep takes its 25 ms (\<^verbatim>\<open>host_session_ends\<close>), and the waits of the arm preparation, for which 501 turns are
  enough for five seconds of 10 ms sleeps (\<^verbatim>\<open>arm_preparation_ends\<close>); the waits of the controller probes, of at most 15
  seconds, end within 1501 turns (\<^verbatim>\<open>probes_end\<close>). The relay of the LED bench serves until
  its peer ends, with no bound of its own; its theorems hold for every fuel. The chain of a robot description
  may be cyclic, and \<^verbatim>\<open>chain_from\<close> is a partial function for that. Retries are bounded by three attempts.

  \<^bold>\<open>Not modelled.\<close> The Rust engine and the C++ controllers and firmware (other languages; their answers are
  arbitrary in the model). Starting, stopping and isolating processes, users and networks
  (\<^verbatim>\<open>role_isolation.py\<close>, \<^verbatim>\<open>network_guard.py\<close>, \<^verbatim>\<open>permit_process.py\<close> and their probes), the scripts that drive a
  live simulator or board through the modelled rules (\<^verbatim>\<open>controller_attack.py\<close>, the harness of
  \<^verbatim>\<open>run_scenario.py\<close>, \<^verbatim>\<open>arm_smoke.py\<close>, the \<^verbatim>\<open>run\<close> functions, \<^verbatim>\<open>permit_usb_verify.py\<close>), building scenes and meshes
  (\<^verbatim>\<open>native_person.py\<close>), rendering of pages, images and tables, and the packaging and
  wording tools, and of the controller probes the start and the stop of their actors and the timing samples:
  they hold no state of the gate and their effects are outside the process.
\<close>

end
